(* ===== verification/GH_Prelude.thy ===== *)
theory GH_Prelude
  imports Main "HOL-Library.Word" "HOL-Library.AList" "HOL-Library.Multiset" "HOL-Library.Monad_Syntax"
begin

text \<open>
  Shared vocabulary of the development: the Go values every component uses (maps, sets, decimal
  printing, splitting of strings, slices), the order in which Go ranges over a map, and the generic
  lemmas on lists and association lists that the component proofs rest on.

  \<^item> A Go map is an association list with distinct keys (\<open>gomap\<close>): \<open>map_of\<close> reads it,
    \<open>AList.update\<close> stores, \<open>AList.delete\<close> is the built-in \<open>delete\<close>.
  \<^item> A value of \<open>set.Set\<close> is a list without repetitions (\<open>goset\<close>); only the documented
    set operations are used.
  \<^item> Go leaves the order of a range over a map (and of \<open>Iter\<close>, \<open>Each\<close>, \<open>ToSlice\<close> of
    a set) open. The definitions that range take the order as an argument \<open>ord\<close>; the only thing
    assumed of it, where it matters, is the locale \<open>range_order\<close>: every key is visited once.
  \<^item> A panic (nil dereference, index out of range) is \<open>None\<close>, an error return is a value of a sum.
\<close>

named_theorems gh_simps \<open>unfolding lemmas of the one-line accessors and constructors\<close>
named_theorems gh_frame \<open>fields an operation leaves unchanged\<close>

type_synonym ('k, 'v) gomap = "('k \<times> 'v) list"
type_synonym 'a goset = "'a list"
type_synonym byte = "8 word"
type_synonym uint32 = "32 word"
type_synonym uint64 = "64 word"
type_synonym addr = nat

section \<open>Go maps and sets\<close>

definition wf_map :: "('k, 'v) gomap \<Rightarrow> bool" where
  "wf_map m \<longleftrightarrow> distinct (map fst m)"

definition set_add :: "'a \<Rightarrow> 'a goset \<Rightarrow> 'a goset" where
  "set_add x s = (if x \<in> set s then s else s @ [x])"

definition set_remove :: "'a \<Rightarrow> 'a goset \<Rightarrow> 'a goset" where
  "set_remove x s = filter (\<lambda>y. y \<noteq> x) s"

definition set_union :: "'a goset \<Rightarrow> 'a goset \<Rightarrow> 'a goset" where
  "set_union s t = s @ filter (\<lambda>y. y \<notin> set s) t"

lemma set_set_add [simp]: "set (set_add x s) = insert x (set s)"
  by (auto simp: set_add_def)

lemma set_set_remove [simp]: "set (set_remove x s) = set s - {x}"
  by (auto simp: set_remove_def)

lemma set_set_union [simp]: "set (set_union s t) = set s \<union> set t"
  by (auto simp: set_union_def)

lemma distinct_set_add [simp]: "distinct (set_add x s) \<longleftrightarrow> distinct s"
  by (auto simp: set_add_def)

lemma distinct_set_remove [simp]: "distinct s \<Longrightarrow> distinct (set_remove x s)"
  by (simp add: set_remove_def)

lemma distinct_set_union [simp]: "distinct s \<Longrightarrow> distinct t \<Longrightarrow> distinct (set_union s t)"
  by (auto simp: set_union_def)

lemma wf_map_empty [simp]: "wf_map []"
  by (simp add: wf_map_def)

lemma wf_map_update [simp]: "wf_map m \<Longrightarrow> wf_map (AList.update k v m)"
  by (simp add: wf_map_def distinct_update)

lemma wf_map_delete [simp]: "wf_map m \<Longrightarrow> wf_map (AList.delete k m)"
  by (simp add: wf_map_def distinct_delete)

lemma map_of_update [simp]: "map_of (AList.update k v m) = (map_of m)(k \<mapsto> v)"
  by (simp add: update_conv')

lemma map_of_delete [simp]: "map_of (AList.delete k m) = (map_of m)(k := None)"
  by (simp add: delete_conv')

lemma map_of_fold_update: "wf_map xs \<Longrightarrow> map_of (fold (\<lambda>(k, v). AList.update k v) xs m) = map_of m ++ map_of xs"
proof (induction xs arbitrary: m)
  case (Cons x xs)
  obtain k v where x: "x = (k, v)" by fastforce
  have "map_of xs k = None" using Cons.prems by (simp add: wf_map_def x map_of_eq_None_iff)
  moreover have "wf_map xs" using Cons.prems by (simp add: wf_map_def)
  ultimately show ?case by (auto simp: x Cons.IH fun_eq_iff map_add_def split: option.splits)
qed simp

lemma wf_map_mem_iff: "wf_map m \<Longrightarrow> (k, v) \<in> set m \<longleftrightarrow> map_of m k = Some v"
  by (simp add: wf_map_def)

lemma update_not_Nil [simp]: "AList.update k v m \<noteq> []"
  by (cases m) auto

lemma delete_eq_Nil_iff: "AList.delete k m = [] \<longleftrightarrow> fst ` set m \<subseteq> {k}"
  by (induction m) auto

section \<open>The order of a range\<close>

text \<open>
  The Go specification leaves the iteration order of a map unspecified, and \<open>set.Set\<close> inherits
  it. \<open>ord\<close> stands for the order of one such loop: it lists the given keys, each exactly once.
\<close>

locale range_order =
  fixes ord :: "'k list \<Rightarrow> 'k list"
  assumes mset_ord: "mset (ord ks) = mset ks"
begin

lemma set_ord: "set (ord ks) = set ks"
  by (metis mset_ord set_mset_mset)

lemma length_ord: "length (ord ks) = length ks"
  by (metis mset_ord size_mset)

lemma distinct_ord: "distinct (ord ks) = distinct ks"
  by (metis mset_ord mset_eq_imp_distinct_iff)

lemma ord_Nil: "ord [] = []"
  by (metis length_ord length_0_conv)

lemma ord_singleton: "ord [k] = [k]"
  using mset_ord [of "[k]"] by simp

lemmas ord_simps = set_ord length_ord distinct_ord ord_Nil ord_singleton

end

text \<open>Two orders a run may show: the order of insertion and its reverse.\<close>

interpretation insertion_order: range_order "\<lambda>ks. ks"
  by unfold_locales simp

interpretation reverse_order: range_order rev
  by unfold_locales simp

section \<open>Decimal printing, splitting\<close>

text \<open>\<open>strconv.Itoa\<close> and the \<open>%d\<close> verb on a non-negative number.\<close>

definition digit :: "nat \<Rightarrow> char" where
  "digit n = char_of (48 + n mod 10)"

fun itoa :: "nat \<Rightarrow> string" where
  "itoa n = (if n < 10 then [digit n] else itoa (n div 10) @ [digit (n mod 10)])"

declare itoa.simps [simp del]

lemma digit_inj: "m < 10 \<Longrightarrow> n < 10 \<Longrightarrow> digit m = digit n \<Longrightarrow> m = n"
  by (simp add: digit_def)

lemma of_char_digit: "of_char (digit n) = 48 + n mod 10"
  by (simp add: digit_def)

lemma digit_range: "(48 :: nat) \<le> of_char (digit n) \<and> of_char (digit n) \<le> (57 :: nat)"
  unfolding of_char_digit by (simp; linarith)

lemma itoa_not_Nil [simp]: "itoa n \<noteq> []"
  by (subst itoa.simps) simp

lemma itoa_digits: "c \<in> set (itoa n) \<Longrightarrow> (48 :: nat) \<le> of_char c \<and> of_char c \<le> (57 :: nat)"
proof (induction n rule: itoa.induct)
  case (1 n)
  then show ?case
    by (subst (asm) itoa.simps) (auto simp: digit_range split: if_splits)
qed

lemma itoa_no_dot [simp]: "CHR ''.'' \<notin> set (itoa n)"
  using itoa_digits [of "CHR ''.''" n] by auto

lemma itoa_inj: "itoa m = itoa n \<Longrightarrow> m = n"
proof (induction m arbitrary: n rule: itoa.induct)
  case (1 m)
  have m: "itoa m = (if m < 10 then [digit m] else itoa (m div 10) @ [digit (m mod 10)])"
    by (subst itoa.simps) simp
  have n: "itoa n = (if n < 10 then [digit n] else itoa (n div 10) @ [digit (n mod 10)])"
    by (subst itoa.simps) simp
  show ?case
  proof (cases "m < 10 \<or> n < 10")
    case True
    with "1.prems" m n show ?thesis
      by (auto split: if_splits dest: digit_inj) (metis itoa_not_Nil)+
  next
    case False
    with "1.prems" m n have "itoa (m div 10) = itoa (n div 10)" and "digit (m mod 10) = digit (n mod 10)"
      by auto
    have "m mod 10 = n mod 10"
      by (rule digit_inj) (simp_all add: \<open>digit (m mod 10) = digit (n mod 10)\<close>)
    moreover from False \<open>itoa (m div 10) = itoa (n div 10)\<close> have "m div 10 = n div 10"
      by (intro "1.IH") simp_all
    ultimately show ?thesis by (metis mult_div_mod_eq)
  qed
qed

text \<open>\<open>strings.Split(s, sep)\<close> for a separator of one character: always at least one token.\<close>

fun split_on :: "char \<Rightarrow> string \<Rightarrow> string list" where
  "split_on c [] = [[]]"
| "split_on c (x # xs) =
     (if x = c then [] # split_on c xs
      else (case split_on c xs of [] \<Rightarrow> [[x]] | t # ts \<Rightarrow> (x # t) # ts))"

lemma split_on_not_Nil [simp]: "split_on c s \<noteq> []"
  by (induction s) (auto split: list.splits)

lemma split_on_no_sep: "c \<notin> set s \<Longrightarrow> split_on c s = [s]"
  by (induction s) auto

lemma split_on_append: "c \<notin> set s \<Longrightarrow> split_on c (s @ c # t) = s # split_on c t"
  by (induction s) auto

lemma length_split_on: "length (split_on c s) = Suc (count_list s c)"
  by (induction s) (auto split: list.splits)

lemma append_sep_inj:
  assumes "s @ c # t = s' @ c # t'" and "c \<notin> set s" and "c \<notin> set s'"
  shows "s = s' \<and> t = t'"
  using assms
proof (induction s arbitrary: s')
  case Nil
  then show ?case by (cases s') auto
next
  case (Cons x s)
  then show ?case by (cases s') auto
qed

lemma notin_imageD: "k \<notin> f ` A \<Longrightarrow> y \<in> A \<Longrightarrow> f y \<noteq> k"
  by auto

section \<open>Slices\<close>

text \<open>\<open>append(xs[:i], xs[i+1:]...)\<close>, the idiom that removes the element at an index.\<close>

definition remove_nth :: "nat \<Rightarrow> 'a list \<Rightarrow> 'a list" where
  "remove_nth i xs = take i xs @ drop (Suc i) xs"

text \<open>The index of the first element that satisfies a test, as the \<open>range\<close> loops search it.\<close>

fun find_index :: "('a \<Rightarrow> bool) \<Rightarrow> 'a list \<Rightarrow> nat option" where
  "find_index P [] = None"
| "find_index P (x # xs) = (if P x then Some 0 else map_option Suc (find_index P xs))"

lemma find_index_None_iff [simp]: "find_index P xs = None \<longleftrightarrow> (\<forall>x\<in>set xs. \<not> P x)"
  by (induction xs) auto

lemma find_index_SomeD:
  "find_index P xs = Some i \<Longrightarrow> i < length xs \<and> P (xs ! i) \<and> (\<forall>j<i. \<not> P (xs ! j))"
proof (induction xs arbitrary: i)
  case Nil
  then show ?case by simp
next
  case (Cons x xs)
  then show ?case by (cases i) (auto split: if_splits simp: nth_Cons split: nat.splits)
qed

lemma remove_nth_Cons_0 [simp]: "remove_nth 0 (x # xs) = xs"
  by (simp add: remove_nth_def)

lemma remove_nth_Cons_Suc [simp]: "remove_nth (Suc i) (x # xs) = x # remove_nth i xs"
  by (simp add: remove_nth_def)

lemma length_remove_nth: "i < length xs \<Longrightarrow> length (remove_nth i xs) = length xs - 1"
  by (simp add: remove_nth_def)

text \<open>On a list whose keys are distinct, removing or replacing the element found under a key is
  filtering, or mapping, on that key.\<close>

lemma remove_nth_key:
  assumes "distinct (map f xs)" and "find_index (\<lambda>x. f x = k) xs = Some i"
  shows "remove_nth i xs = filter (\<lambda>x. f x \<noteq> k) xs"
  using assms
proof (induction xs arbitrary: i)
  case Nil
  then show ?case by simp
next
  case (Cons x xs)
  show ?case
  proof (cases "f x = k")
    case True
    with Cons.prems(1) have "f x \<notin> f ` set xs" by simp
    with True have "\<forall>y\<in>set xs. f y \<noteq> k" by (metis image_eqI)
    with True Cons.prems show ?thesis by simp
  next
    case False
    with Cons show ?thesis by auto
  qed
qed

lemma list_update_key:
  assumes "distinct (map f xs)" and "find_index (\<lambda>x. f x = k) xs = Some i"
  shows "xs[i := y] = map (\<lambda>x. if f x = k then y else x) xs"
  using assms
proof (induction xs arbitrary: i)
  case Nil
  then show ?case by simp
next
  case (Cons x xs)
  show ?case
  proof (cases "f x = k")
    case True
    with Cons.prems(1) have "f x \<notin> f ` set xs" by simp
    with True have "\<forall>z\<in>set xs. f z \<noteq> k" by (metis image_eqI)
    then have "map (\<lambda>x. if f x = k then y else x) xs = xs" by (simp add: map_idI)
    with True Cons.prems show ?thesis by simp
  next
    case False
    with Cons show ?thesis by auto
  qed
qed

lemma find_index_key_nth:
  assumes "distinct (map f xs)" and "i < length xs"
  shows "find_index (\<lambda>x. f x = f (xs ! i)) xs = Some i"
  using assms
proof (induction xs arbitrary: i)
  case Nil
  then show ?case by simp
next
  case (Cons x xs)
  then show ?case by (cases i) auto
qed

end
