(* ===== verification/GH_Version.thy ===== *)
theory GH_Version
  imports GH_Prelude
begin

text \<open>
  Versions of status bundles (\<open>pkg/bundle/status/bundle_version.go\<close>): two unsigned 64-bit
  counters compared lexicographically. The version type is made a linear order of the library, and
  \<open>NewerThan\<close> and \<open>Equals\<close> are related to it, so that the proofs about conflation reason with
  \<open><\<close> and \<open>\<le>\<close>.
\<close>

datatype BundleVersion = BundleVersion (Incarnation: uint64) (Generation: uint64)

definition NewBundleVersion :: "uint64 \<Rightarrow> uint64 \<Rightarrow> BundleVersion" where
  "NewBundleVersion incarnation generation = BundleVersion incarnation generation"

text \<open>The argument of \<open>NewerThan\<close> is a pointer; nil is \<open>None\<close>.\<close>

definition NewerThan :: "BundleVersion \<Rightarrow> BundleVersion option \<Rightarrow> bool" where
  "NewerThan version other =
     (case other of
        None \<Rightarrow> True
      | Some o' \<Rightarrow>
          if Incarnation version = Incarnation o' then Generation version > Generation o'
          else Incarnation version > Incarnation o')"

definition Equals :: "BundleVersion \<Rightarrow> BundleVersion \<Rightarrow> bool" where
  "Equals version other \<longleftrightarrow>
     Incarnation version = Incarnation other \<and> Generation version = Generation other"

definition BundleVersion_String :: "BundleVersion \<Rightarrow> string" where
  "BundleVersion_String version = itoa (unat (Incarnation version)) @ ''.'' @ itoa (unat (Generation version))"

text \<open>\<open>bundle.BundleVersion.Generation++\<close> of the agent's bundles: unsigned, so it wraps at $2^{64}$.\<close>

definition incrGeneration :: "BundleVersion \<Rightarrow> BundleVersion" where
  "incrGeneration version = BundleVersion (Incarnation version) (Generation version + 1)"

definition noBundleVersion :: BundleVersion where
  "noBundleVersion = NewBundleVersion 0 0"

section \<open>The version order\<close>

instantiation BundleVersion :: linorder
begin

definition less_eq_BundleVersion :: "BundleVersion \<Rightarrow> BundleVersion \<Rightarrow> bool" where
  "v \<le> w \<longleftrightarrow> Incarnation v < Incarnation w \<or> (Incarnation v = Incarnation w \<and> Generation v \<le> Generation w)"

definition less_BundleVersion :: "BundleVersion \<Rightarrow> BundleVersion \<Rightarrow> bool" where
  "v < w \<longleftrightarrow> Incarnation v < Incarnation w \<or> (Incarnation v = Incarnation w \<and> Generation v < Generation w)"

instance
  by standard (auto simp: less_eq_BundleVersion_def less_BundleVersion_def BundleVersion.expand)

end

lemma NewerThan_None [simp]: "NewerThan v None"
  by (simp add: NewerThan_def)

lemma NewerThan_Some [simp]: "NewerThan v (Some w) \<longleftrightarrow> w < v"
  by (auto simp: NewerThan_def less_BundleVersion_def)

lemma Equals_eq [simp]: "Equals v w \<longleftrightarrow> v = w"
  by (auto simp: Equals_def BundleVersion.expand)

lemma noBundleVersion_least [simp]: "noBundleVersion \<le> v"
  by (cases v) (auto simp: noBundleVersion_def NewBundleVersion_def less_eq_BundleVersion_def
      word_neq_0_conv)

lemma incrGeneration_newer:
  assumes "Generation v \<noteq> - 1"
  shows "v < incrGeneration v"
proof -
  have "Generation v + 1 \<noteq> 0"
    using assms max_word_wrap by blast
  then have "unat (Generation v + 1) = unat (Generation v) + 1"
    using unatSuc [of "Generation v"] by (simp add: add.commute)
  then show ?thesis
    by (simp add: incrGeneration_def less_BundleVersion_def word_less_nat_alt)
qed

lemma incrGeneration_not_newer_at_max:
  "Generation v = - 1 \<Longrightarrow> incrGeneration v \<le> v"
  by (cases v) (simp add: incrGeneration_def less_eq_BundleVersion_def)

text \<open>
  Incrementing the generation makes a version newer, except at the last value of the unsigned
  counter, where the increment wraps to 0 and the new version is not newer than the old one.
\<close>

theorem incrGeneration_newer_iff:
  "NewerThan (incrGeneration v) (Some v) \<longleftrightarrow> Generation v \<noteq> - 1"
  using incrGeneration_newer [of v] incrGeneration_not_newer_at_max [of v] by auto

text \<open>
  The printed form of a version, which the transport carries as the message version, determines
  the version.
\<close>

theorem BundleVersion_String_inj:
  assumes "BundleVersion_String v = BundleVersion_String w"
  shows "v = w"
proof -
  have "itoa (unat (Incarnation v)) = itoa (unat (Incarnation w))
      \<and> itoa (unat (Generation v)) = itoa (unat (Generation w))"
    by (rule append_sep_inj [where c = "CHR ''.''"])
      (use assms in \<open>simp_all add: BundleVersion_String_def\<close>)
  then show ?thesis
    by (auto intro: BundleVersion.expand word_unat_eq_iff [THEN iffD2] dest!: itoa_inj)
qed

theorem BundleVersion_String_inj_witness:
  "BundleVersion_String (BundleVersion 1 12) = BundleVersion_String (NewBundleVersion 1 12)
   \<and> BundleVersion 1 12 = NewBundleVersion 1 12
   \<and> BundleVersion_String (BundleVersion 1 12) = ''1.12''"
proof -
  have eq: "BundleVersion_String (BundleVersion 1 12) = BundleVersion_String (NewBundleVersion 1 12)"
    by (simp add: NewBundleVersion_def)
  have "BundleVersion_String (BundleVersion 1 12) = ''1.12''" by code_simp
  with eq BundleVersion_String_inj [OF eq] show ?thesis by blast
qed

end
