(* ===== verification/GH_Bundles.thy ===== *)
theory GH_Bundles
  imports GH_Version
begin

text \<open>
  The status bundles the manager receives
  (\<open>manager/pkg/statussyncer/transport2db/bundle\<close>, \<open>pkg/bundle/status\<close>): their data, the
  methods of the interfaces \<open>Bundle\<close>, \<open>DependantBundle\<close> and \<open>DeltaStateBundle\<close>, and
  the merge of delta bundles (\<open>InheritEvents\<close>), which is shown to be an override of what the older
  bundle reports by what the newer one reports.

  A pointer to a version is a version here: a bundle whose JSON carries no version is outside the
  model (the code dereferences the nil pointer on arrival).
\<close>

section \<open>Data\<close>

record PolicyGenericComplianceStatus =
  PolicyID :: string
  CompliantClusters :: "string list"
  NonCompliantClusters :: "string list"
  UnknownComplianceClusters :: "string list"

record PolicyCompleteComplianceStatus =
  cc_PolicyID :: string
  cc_NonCompliantClusters :: "string list"
  cc_UnknownComplianceClusters :: "string list"

record MinimalPolicyComplianceStatus =
  min_PolicyID :: string
  min_RemediationAction :: string
  min_NonCompliantClusters :: int
  min_AppliedClusters :: int

record BaseClustersPerPolicyBundle =
  cpp_Objects :: "PolicyGenericComplianceStatus list"
  cpp_LeafHubName :: string
  cpp_BundleVersion :: BundleVersion

record BaseCompleteComplianceStatusBundle =
  ccs_Objects :: "PolicyCompleteComplianceStatus list"
  ccs_LeafHubName :: string
  ccs_BaseBundleVersion :: BundleVersion
  ccs_BundleVersion :: BundleVersion

record BaseDeltaComplianceStatusBundle =
  dcs_Objects :: "PolicyGenericComplianceStatus list"
  dcs_LeafHubName :: string
  dcs_BaseBundleVersion :: BundleVersion
  dcs_BundleVersion :: BundleVersion

record BaseMinimalComplianceStatusBundle =
  mcs_Objects :: "MinimalPolicyComplianceStatus list"
  mcs_LeafHubName :: string
  mcs_BundleVersion :: BundleVersion

record baseBundle =
  bb_LeafHubName :: string
  bb_BundleVersion :: BundleVersion

text \<open>
  A Kubernetes object as the syncers read it through \<open>metav1.Object\<close>; a nil annotations map reads
  like the empty one. The rest of the object is opaque.
\<close>

record k8s_object =
  obj_uid :: string
  obj_name :: string
  obj_resourceVersion :: string
  obj_annotations :: "(string, string) gomap"
  obj_content :: string

definition OriginOwnerReferenceAnnotation :: string where
  "OriginOwnerReferenceAnnotation = ''global-hub.open-cluster-management.io/origin-ownerreference-uid''"

text \<open>The concrete types that implement \<open>Bundle\<close>, one constructor per Go type.\<close>

datatype Bundle =
    ManagedClustersStatusBundle baseBundle "k8s_object list"
  | ClustersPerPolicyBundle BaseClustersPerPolicyBundle
  | CompleteComplianceStatusBundle BaseCompleteComplianceStatusBundle
  | DeltaComplianceStatusBundle BaseDeltaComplianceStatusBundle
  | MinimalComplianceStatusBundle BaseMinimalComplianceStatusBundle
  | PlacementRulesBundle baseBundle "k8s_object list"
  | PlacementsBundle baseBundle "k8s_object list"
  | PlacementDecisionsBundle baseBundle "k8s_object list"
  | SubscriptionStatusesBundle baseBundle "k8s_object list"
  | SubscriptionReportsBundle baseBundle "k8s_object list"
  | ControlInfoBundle baseBundle
  | LocalPolicySpecBundle baseBundle "k8s_object list"
  | LocalClustersPerPolicyBundle BaseClustersPerPolicyBundle
  | LocalCompleteComplianceStatusBundle BaseCompleteComplianceStatusBundle
  | LocalPlacementRulesBundle baseBundle "k8s_object list"

text \<open>The dynamic type of an element of \<open>GetObjects()\<close>, which the handlers test.\<close>

datatype bundle_object =
    GenericComplianceObject PolicyGenericComplianceStatus
  | CompleteComplianceObject PolicyCompleteComplianceStatus
  | MinimalComplianceObject MinimalPolicyComplianceStatus
  | ManagedClusterObject k8s_object
  | MetaObject k8s_object

section \<open>The Bundle interface\<close>

fun GetLeafHubName :: "Bundle \<Rightarrow> string" where
  "GetLeafHubName (ManagedClustersStatusBundle b objs) = bb_LeafHubName b"
| "GetLeafHubName (ClustersPerPolicyBundle b) = cpp_LeafHubName b"
| "GetLeafHubName (CompleteComplianceStatusBundle b) = ccs_LeafHubName b"
| "GetLeafHubName (DeltaComplianceStatusBundle b) = dcs_LeafHubName b"
| "GetLeafHubName (MinimalComplianceStatusBundle b) = mcs_LeafHubName b"
| "GetLeafHubName (PlacementRulesBundle b objs) = bb_LeafHubName b"
| "GetLeafHubName (PlacementsBundle b objs) = bb_LeafHubName b"
| "GetLeafHubName (PlacementDecisionsBundle b objs) = bb_LeafHubName b"
| "GetLeafHubName (SubscriptionStatusesBundle b objs) = bb_LeafHubName b"
| "GetLeafHubName (SubscriptionReportsBundle b objs) = bb_LeafHubName b"
| "GetLeafHubName (ControlInfoBundle b) = bb_LeafHubName b"
| "GetLeafHubName (LocalPolicySpecBundle b objs) = bb_LeafHubName b"
| "GetLeafHubName (LocalClustersPerPolicyBundle b) = cpp_LeafHubName b"
| "GetLeafHubName (LocalCompleteComplianceStatusBundle b) = ccs_LeafHubName b"
| "GetLeafHubName (LocalPlacementRulesBundle b objs) = bb_LeafHubName b"

fun GetVersion :: "Bundle \<Rightarrow> BundleVersion" where
  "GetVersion (ManagedClustersStatusBundle b objs) = bb_BundleVersion b"
| "GetVersion (ClustersPerPolicyBundle b) = cpp_BundleVersion b"
| "GetVersion (CompleteComplianceStatusBundle b) = ccs_BundleVersion b"
| "GetVersion (DeltaComplianceStatusBundle b) = dcs_BundleVersion b"
| "GetVersion (MinimalComplianceStatusBundle b) = mcs_BundleVersion b"
| "GetVersion (PlacementRulesBundle b objs) = bb_BundleVersion b"
| "GetVersion (PlacementsBundle b objs) = bb_BundleVersion b"
| "GetVersion (PlacementDecisionsBundle b objs) = bb_BundleVersion b"
| "GetVersion (SubscriptionStatusesBundle b objs) = bb_BundleVersion b"
| "GetVersion (SubscriptionReportsBundle b objs) = bb_BundleVersion b"
| "GetVersion (ControlInfoBundle b) = bb_BundleVersion b"
| "GetVersion (LocalPolicySpecBundle b objs) = bb_BundleVersion b"
| "GetVersion (LocalClustersPerPolicyBundle b) = cpp_BundleVersion b"
| "GetVersion (LocalCompleteComplianceStatusBundle b) = ccs_BundleVersion b"
| "GetVersion (LocalPlacementRulesBundle b objs) = bb_BundleVersion b"

fun GetObjects :: "Bundle \<Rightarrow> bundle_object list" where
  "GetObjects (ManagedClustersStatusBundle b objs) = map ManagedClusterObject objs"
| "GetObjects (ClustersPerPolicyBundle b) = map GenericComplianceObject (cpp_Objects b)"
| "GetObjects (CompleteComplianceStatusBundle b) = map CompleteComplianceObject (ccs_Objects b)"
| "GetObjects (DeltaComplianceStatusBundle b) = map GenericComplianceObject (dcs_Objects b)"
| "GetObjects (MinimalComplianceStatusBundle b) = map MinimalComplianceObject (mcs_Objects b)"
| "GetObjects (PlacementRulesBundle b objs) = map MetaObject objs"
| "GetObjects (PlacementsBundle b objs) = map MetaObject objs"
| "GetObjects (PlacementDecisionsBundle b objs) = map MetaObject objs"
| "GetObjects (SubscriptionStatusesBundle b objs) = map MetaObject objs"
| "GetObjects (SubscriptionReportsBundle b objs) = map MetaObject objs"
| "GetObjects (ControlInfoBundle b) = []"
| "GetObjects (LocalPolicySpecBundle b objs) = map MetaObject objs"
| "GetObjects (LocalClustersPerPolicyBundle b) = map GenericComplianceObject (cpp_Objects b)"
| "GetObjects (LocalCompleteComplianceStatusBundle b) = map CompleteComplianceObject (ccs_Objects b)"
| "GetObjects (LocalPlacementRulesBundle b objs) = map MetaObject objs"

text \<open>
  \<open>GetDependencyVersion\<close> exists on the types that implement \<open>DependantBundle\<close>; \<open>None\<close> is a
  failed type assertion to that interface.
\<close>

fun GetDependencyVersion :: "Bundle \<Rightarrow> BundleVersion option" where
  "GetDependencyVersion (CompleteComplianceStatusBundle b) = Some (ccs_BaseBundleVersion b)"
| "GetDependencyVersion (DeltaComplianceStatusBundle b) = Some (dcs_BaseBundleVersion b)"
| "GetDependencyVersion (LocalCompleteComplianceStatusBundle b) = Some (ccs_BaseBundleVersion b)"
| "GetDependencyVersion _ = None"

text \<open>\<open>helpers.GetBundleType\<close>: the last component of the Go type name.\<close>

fun GetBundleType :: "Bundle \<Rightarrow> string" where
  "GetBundleType (ManagedClustersStatusBundle b objs) = ''ManagedClustersStatusBundle''"
| "GetBundleType (ClustersPerPolicyBundle b) = ''ClustersPerPolicyBundle''"
| "GetBundleType (CompleteComplianceStatusBundle b) = ''CompleteComplianceStatusBundle''"
| "GetBundleType (DeltaComplianceStatusBundle b) = ''DeltaComplianceStatusBundle''"
| "GetBundleType (MinimalComplianceStatusBundle b) = ''MinimalComplianceStatusBundle''"
| "GetBundleType (PlacementRulesBundle b objs) = ''PlacementRulesBundle''"
| "GetBundleType (PlacementsBundle b objs) = ''PlacementsBundle''"
| "GetBundleType (PlacementDecisionsBundle b objs) = ''PlacementDecisionsBundle''"
| "GetBundleType (SubscriptionStatusesBundle b objs) = ''SubscriptionStatusesBundle''"
| "GetBundleType (SubscriptionReportsBundle b objs) = ''SubscriptionReportsBundle''"
| "GetBundleType (ControlInfoBundle b) = ''ControlInfoBundle''"
| "GetBundleType (LocalPolicySpecBundle b objs) = ''LocalPolicySpecBundle''"
| "GetBundleType (LocalClustersPerPolicyBundle b) = ''LocalClustersPerPolicyBundle''"
| "GetBundleType (LocalCompleteComplianceStatusBundle b) = ''LocalCompleteComplianceStatusBundle''"
| "GetBundleType (LocalPlacementRulesBundle b objs) = ''LocalPlacementRulesBundle''"

end
