(* ===== verification/GH_DeltaMerge.thy ===== *)
theory GH_DeltaMerge
  imports GH_Bundles
begin

text \<open>
  Merging of delta bundles (\<open>bundle/delta_compliance_status_bundle.go\<close>, \<open>bundle/helpers.go\<close>):
  \<open>InheritEvents\<close> pulls the events of an older bundle of the same line into a newer one. The
  specification is the relation \<open>reports\<close> (which cluster of which policy is reported in which
  state); the merge is the newer relation together with that part of the older one that the newer
  says nothing about.
\<close>

section \<open>Set helpers\<close>

definition createSetFromSlice :: "string list \<Rightarrow> string goset" where
  "createSetFromSlice xs = fold set_add xs []"

definition createSliceFromSet :: "(string list \<Rightarrow> string list) \<Rightarrow> string goset \<Rightarrow> string list" where
  "createSliceFromSet ord s = ord s"

lemma set_fold_set_add [simp]: "set (fold set_add xs s) = set xs \<union> set s"
  by (induction xs arbitrary: s) auto

lemma distinct_fold_set_add [simp]: "distinct (fold set_add xs s) \<longleftrightarrow> distinct s"
  by (induction xs arbitrary: s) auto

lemma set_createSetFromSlice [simp]: "set (createSetFromSlice xs) = set xs"
  by (simp add: createSetFromSlice_def)

lemma distinct_createSetFromSlice [simp]: "distinct (createSetFromSlice xs)"
  by (simp add: createSetFromSlice_def)

section \<open>policyStatus\<close>

record policyStatus =
  ps_compliantClusters :: "string goset"
  ps_nonCompliantClusters :: "string goset"
  ps_unknownClusters :: "string goset"

definition newPolicyStatus :: "PolicyGenericComplianceStatus \<Rightarrow> policyStatus" where
  "newPolicyStatus p =
     \<lparr>ps_compliantClusters = createSetFromSlice (CompliantClusters p),
      ps_nonCompliantClusters = createSetFromSlice (NonCompliantClusters p),
      ps_unknownClusters = createSetFromSlice (UnknownComplianceClusters p)\<rparr>"

definition policyStatus_contains :: "policyStatus \<Rightarrow> string \<Rightarrow> bool" where
  "policyStatus_contains ps cluster \<longleftrightarrow>
     cluster \<in> set (ps_unknownClusters ps) \<or> cluster \<in> set (ps_nonCompliantClusters ps)
     \<or> cluster \<in> set (ps_compliantClusters ps)"

definition addCompliant :: "string \<Rightarrow> policyStatus \<Rightarrow> policyStatus" where
  "addCompliant cluster ps =
     (if \<not> policyStatus_contains ps cluster
      then ps\<lparr>ps_compliantClusters := set_add cluster (ps_compliantClusters ps)\<rparr> else ps)"

definition addNonCompliant :: "string \<Rightarrow> policyStatus \<Rightarrow> policyStatus" where
  "addNonCompliant cluster ps =
     (if \<not> policyStatus_contains ps cluster
      then ps\<lparr>ps_nonCompliantClusters := set_add cluster (ps_nonCompliantClusters ps)\<rparr> else ps)"

definition addUnknown :: "string \<Rightarrow> policyStatus \<Rightarrow> policyStatus" where
  "addUnknown cluster ps =
     (if \<not> policyStatus_contains ps cluster
      then ps\<lparr>ps_unknownClusters := set_add cluster (ps_unknownClusters ps)\<rparr> else ps)"

text \<open>The three loops of \<open>appendNewClusters\<close>; each tests the sets as the loops before left them.\<close>

definition appendNewClusters :: "policyStatus \<Rightarrow> PolicyGenericComplianceStatus \<Rightarrow> policyStatus" where
  "appendNewClusters ps p =
     fold addUnknown (UnknownComplianceClusters p)
       (fold addNonCompliant (NonCompliantClusters p)
         (fold addCompliant (CompliantClusters p) ps))"

definition updatePolicyStatusInBundle ::
  "(string list \<Rightarrow> string list) \<Rightarrow> PolicyGenericComplianceStatus \<Rightarrow> policyStatus
   \<Rightarrow> PolicyGenericComplianceStatus" where
  "updatePolicyStatusInBundle ord p ps =
     p\<lparr>CompliantClusters := createSliceFromSet ord (ps_compliantClusters ps),
       NonCompliantClusters := createSliceFromSet ord (ps_nonCompliantClusters ps),
       UnknownComplianceClusters := createSliceFromSet ord (ps_unknownClusters ps)\<rparr>"

section \<open>inheritObjects and InheritEvents\<close>

text \<open>
  One round of the loop over the old objects: the policy map and the surviving old policies.
\<close>

definition inheritStep ::
  "PolicyGenericComplianceStatus \<Rightarrow> (string, policyStatus) gomap \<times> PolicyGenericComplianceStatus list
   \<Rightarrow> (string, policyStatus) gomap \<times> PolicyGenericComplianceStatus list" where
  "inheritStep p st =
     (case map_of (fst st) (PolicyID p) of
        None \<Rightarrow> (fst st, snd st @ [p])
      | Some info \<Rightarrow> (AList.update (PolicyID p) (appendNewClusters info p) (fst st), snd st))"

definition policiesMapOf :: "PolicyGenericComplianceStatus list \<Rightarrow> (string, policyStatus) gomap" where
  "policiesMapOf objs = fold (\<lambda>p. AList.update (PolicyID p) (newPolicyStatus p)) objs []"

definition inheritObjects ::
  "(string list \<Rightarrow> string list) \<Rightarrow> PolicyGenericComplianceStatus list \<Rightarrow> PolicyGenericComplianceStatus list
   \<Rightarrow> PolicyGenericComplianceStatus list" where
  "inheritObjects ord objects oldObjects =
     (let (policiesMap, surviving) = fold inheritStep oldObjects (policiesMapOf objects, [])
      in surviving @ map (\<lambda>p. updatePolicyStatusInBundle ord p (the (map_of policiesMap (PolicyID p)))) objects)"

datatype bundle_error = errWrongType

definition InheritEvents ::
  "(string list \<Rightarrow> string list) \<Rightarrow> BaseDeltaComplianceStatusBundle \<Rightarrow> Bundle option
   \<Rightarrow> bundle_error + BaseDeltaComplianceStatusBundle" where
  "InheritEvents ord bundle olderBundle =
     (case olderBundle of
        None \<Rightarrow> Inr bundle
      | Some (DeltaComplianceStatusBundle old) \<Rightarrow>
          if \<not> Equals (dcs_BaseBundleVersion old) (dcs_BaseBundleVersion bundle) then Inr bundle
          else Inr (bundle\<lparr>dcs_Objects := inheritObjects ord (dcs_Objects bundle) (dcs_Objects old)\<rparr>)
      | Some _ \<Rightarrow> Inl errWrongType)"

section \<open>What a delta reports\<close>

datatype ComplianceStatus = NonCompliant | Compliant | Unknown

fun clustersOf :: "PolicyGenericComplianceStatus \<Rightarrow> ComplianceStatus \<Rightarrow> string list" where
  "clustersOf p Compliant = CompliantClusters p"
| "clustersOf p NonCompliant = NonCompliantClusters p"
| "clustersOf p Unknown = UnknownComplianceClusters p"

definition reports :: "PolicyGenericComplianceStatus list \<Rightarrow> string \<Rightarrow> string \<Rightarrow> ComplianceStatus \<Rightarrow> bool" where
  "reports objs pid cluster s \<longleftrightarrow> (\<exists>p\<in>set objs. PolicyID p = pid \<and> cluster \<in> set (clustersOf p s))"

text \<open>Every policy once, every cluster of a policy in one state: what the agent's bundles keep.\<close>

definition one_state :: "PolicyGenericComplianceStatus \<Rightarrow> bool" where
  "one_state p \<longleftrightarrow> (\<forall>s t cluster. cluster \<in> set (clustersOf p s) \<and> cluster \<in> set (clustersOf p t) \<longrightarrow> s = t)"

definition wf_objects :: "PolicyGenericComplianceStatus list \<Rightarrow> bool" where
  "wf_objects objs \<longleftrightarrow> distinct (map PolicyID objs) \<and> (\<forall>p\<in>set objs. one_state p)"

fun psetOf :: "policyStatus \<Rightarrow> ComplianceStatus \<Rightarrow> string goset" where
  "psetOf ps Compliant = ps_compliantClusters ps"
| "psetOf ps NonCompliant = ps_nonCompliantClusters ps"
| "psetOf ps Unknown = ps_unknownClusters ps"

lemma all_states: "(\<forall>s. P s) \<longleftrightarrow> P Compliant \<and> P NonCompliant \<and> P Unknown"
  by (metis ComplianceStatus.exhaust)

lemma ex_states: "(\<exists>s. P s) \<longleftrightarrow> P Compliant \<or> P NonCompliant \<or> P Unknown"
  by (metis ComplianceStatus.exhaust)

lemma policyStatus_contains_iff: "policyStatus_contains ps c \<longleftrightarrow> (\<exists>s. c \<in> set (psetOf ps s))"
  by (auto simp: policyStatus_contains_def ex_states)

lemma psetOf_newPolicyStatus [simp]: "set (psetOf (newPolicyStatus p) s) = set (clustersOf p s)"
  by (cases s) (simp_all add: newPolicyStatus_def)

lemma clustersOf_updatePolicyStatus:
  assumes "range_order ord"
  shows "set (clustersOf (updatePolicyStatusInBundle ord p ps) s) = set (psetOf ps s)"
  by (cases s) (simp_all add: updatePolicyStatusInBundle_def createSliceFromSet_def
      range_order.set_ord [OF assms])

lemma PolicyID_updatePolicyStatus [simp]: "PolicyID (updatePolicyStatusInBundle ord p ps) = PolicyID p"
  by (simp add: updatePolicyStatusInBundle_def)

text \<open>
  One loop adds to its own set the clusters of the slice that no set has yet. The three loops are
  instances of one lemma about a step that adds to one chosen set.
\<close>

definition adds_to :: "(string \<Rightarrow> policyStatus \<Rightarrow> policyStatus) \<Rightarrow> ComplianceStatus \<Rightarrow> bool" where
  "adds_to add t \<longleftrightarrow> (\<forall>c ps s. set (psetOf (add c ps) s) =
     (if s = t \<and> \<not> policyStatus_contains ps c then insert c (set (psetOf ps s)) else set (psetOf ps s)))"

declare psetOf.simps [simp del]

lemma adds_toD:
  "adds_to add t \<Longrightarrow> d \<in> set (psetOf (add c ps) s) \<longleftrightarrow>
     d \<in> set (psetOf ps s) \<or> (s = t \<and> \<not> policyStatus_contains ps c \<and> d = c)"
  by (auto simp: adds_to_def)

lemma adds_to_contains:
  "adds_to add t \<Longrightarrow> policyStatus_contains (add c ps) d \<longleftrightarrow> policyStatus_contains ps d \<or> d = c"
  unfolding policyStatus_contains_iff adds_toD by blast

lemma fold_adds_to_contains:
  "adds_to add t \<Longrightarrow> policyStatus_contains (fold add cs ps) d \<longleftrightarrow> policyStatus_contains ps d \<or> d \<in> set cs"
  by (induction cs arbitrary: ps) (auto simp: adds_to_contains)

lemma fold_adds_to:
  "adds_to add t \<Longrightarrow> d \<in> set (psetOf (fold add cs ps) s) \<longleftrightarrow>
     d \<in> set (psetOf ps s) \<or> (s = t \<and> \<not> policyStatus_contains ps d \<and> d \<in> set cs)"
  by (induction cs arbitrary: ps) (auto simp: adds_toD adds_to_contains)

lemma adds_to_states:
  "adds_to addCompliant Compliant" "adds_to addNonCompliant NonCompliant" "adds_to addUnknown Unknown"
  by (simp_all add: adds_to_def all_states psetOf.simps addCompliant_def addNonCompliant_def addUnknown_def)

lemmas fold_add_simps = adds_to_states [THEN fold_adds_to] adds_to_states [THEN fold_adds_to_contains]

lemma one_state_disjoint:
  "one_state p \<Longrightarrow> c \<in> set (clustersOf p s) \<Longrightarrow> c \<in> set (clustersOf p t) \<Longrightarrow> s = t"
  by (auto simp: one_state_def)

lemma psetOf_appendNewClusters:
  assumes "one_state p"
  shows "c \<in> set (psetOf (appendNewClusters ps p) s) \<longleftrightarrow>
    c \<in> set (psetOf ps s) \<or> (c \<in> set (clustersOf p s) \<and> \<not> policyStatus_contains ps c)"
  unfolding appendNewClusters_def fold_add_simps
  using one_state_disjoint [OF assms, of c Compliant NonCompliant]
    one_state_disjoint [OF assms, of c Compliant Unknown]
    one_state_disjoint [OF assms, of c NonCompliant Unknown]
  by (cases s) auto

lemma appendNewClusters_contains:
  "policyStatus_contains (appendNewClusters ps p) c \<longleftrightarrow>
     policyStatus_contains ps c \<or> (\<exists>s. c \<in> set (clustersOf p s))"
  by (auto simp: appendNewClusters_def fold_add_simps ex_states)

section \<open>The loops of inheritObjects\<close>

lemma map_of_policiesMapOf_snoc:
  "map_of (policiesMapOf (objs @ [p])) = (map_of (policiesMapOf objs))(PolicyID p \<mapsto> newPolicyStatus p)"
  by (simp add: policiesMapOf_def)

lemma map_of_policiesMapOf:
  assumes "distinct (map PolicyID objs)"
  shows "map_of (policiesMapOf objs) k = Some ps \<longleftrightarrow> (\<exists>p\<in>set objs. PolicyID p = k \<and> ps = newPolicyStatus p)"
  using assms
proof (induction objs rule: rev_induct)
  case Nil
  then show ?case by (simp add: policiesMapOf_def)
next
  case (snoc p objs)
  then have "PolicyID p \<notin> PolicyID ` set objs" by simp
  then have "\<forall>q\<in>set objs. PolicyID q \<noteq> PolicyID p" by (metis image_eqI)
  with snoc show ?case by (auto simp: map_of_policiesMapOf_snoc)
qed

lemma inheritStep_None:
  "map_of (fst (inheritStep p st)) k = None \<longleftrightarrow> map_of (fst st) k = None"
  by (auto simp: inheritStep_def split: option.splits)

lemma fold_inheritStep_None:
  "map_of (fst (fold inheritStep olds st)) k = None \<longleftrightarrow> map_of (fst st) k = None"
  by (induction olds arbitrary: st) (simp_all add: inheritStep_None)

lemma fold_inheritStep_surviving:
  "snd (fold inheritStep olds st) = snd st @ filter (\<lambda>p. map_of (fst st) (PolicyID p) = None) olds"
proof (induction olds arbitrary: st)
  case Nil
  then show ?case by simp
next
  case (Cons p olds)
  have "filter (\<lambda>q. map_of (fst (inheritStep p st)) (PolicyID q) = None) olds =
        filter (\<lambda>q. map_of (fst st) (PolicyID q) = None) olds"
    by (simp add: inheritStep_None)
  with Cons show ?case by (simp add: inheritStep_def split: option.splits)
qed

lemma fold_inheritStep_other:
  "k \<notin> PolicyID ` set olds \<Longrightarrow> map_of (fst (fold inheritStep olds st)) k = map_of (fst st) k"
  by (induction olds arbitrary: st) (auto simp: inheritStep_def split: option.splits)

lemma fold_inheritStep_psetOf:
  assumes "wf_objects olds" and "map_of (fst st) k = Some ps"
  shows "\<exists>ps'. map_of (fst (fold inheritStep olds st)) k = Some ps' \<and>
     (\<forall>s c. c \<in> set (psetOf ps' s) \<longleftrightarrow>
        c \<in> set (psetOf ps s) \<or> (reports olds k c s \<and> \<not> policyStatus_contains ps c))"
  using assms
proof (induction olds arbitrary: st ps)
  case Nil
  then show ?case by (simp add: reports_def)
next
  case (Cons p olds)
  from Cons.prems(1) have wf: "wf_objects olds" and one: "one_state p"
    and new: "PolicyID p \<notin> PolicyID ` set olds"
    by (auto simp: wf_objects_def)
  show ?case
  proof (cases "PolicyID p = k")
    case True
    with new have rest: "map_of (fst (fold inheritStep olds (inheritStep p st))) k = Some (appendNewClusters ps p)"
      using Cons.prems(2) by (subst fold_inheritStep_other) (auto simp: inheritStep_def)
    have "reports (p # olds) k c s \<longleftrightarrow> c \<in> set (clustersOf p s)" for c s
      using True new by (auto simp: reports_def dest: notin_imageD)
    with rest psetOf_appendNewClusters [OF one] show ?thesis by simp
  next
    case False
    with Cons.prems(2) have "map_of (fst (inheritStep p st)) k = Some ps"
      by (auto simp: inheritStep_def split: option.splits)
    from Cons.IH [OF wf this] False show ?thesis by (simp add: reports_def)
  qed
qed

lemma reports_append: "reports (xs @ ys) k c s \<longleftrightarrow> reports xs k c s \<or> reports ys k c s"
  by (auto simp: reports_def)

lemma wf_objects_reports:
  "wf_objects objs \<Longrightarrow> p \<in> set objs \<Longrightarrow> reports objs (PolicyID p) c s \<longleftrightarrow> c \<in> set (clustersOf p s)"
  by (auto simp: wf_objects_def reports_def inj_on_def distinct_map)

lemma wf_objects_reports_unique:
  "wf_objects objs \<Longrightarrow> reports objs k c s \<Longrightarrow> reports objs k c t \<Longrightarrow> s = t"
  by (auto simp: wf_objects_def reports_def distinct_map inj_on_def dest: one_state_disjoint)

definition inheritedObjects ::
  "(string list \<Rightarrow> string list) \<Rightarrow> PolicyGenericComplianceStatus list \<Rightarrow> PolicyGenericComplianceStatus list
   \<Rightarrow> PolicyGenericComplianceStatus list" where
  "inheritedObjects ord objects oldObjects =
     map (\<lambda>p. updatePolicyStatusInBundle ord p
       (the (map_of (fst (fold inheritStep oldObjects (policiesMapOf objects, []))) (PolicyID p)))) objects"

lemma policiesMapOf_None_iff:
  "distinct (map PolicyID objs) \<Longrightarrow> map_of (policiesMapOf objs) k = None \<longleftrightarrow> k \<notin> PolicyID ` set objs"
  using map_of_policiesMapOf [of objs k] by (auto simp: image_iff) (metis not_None_eq)+

lemma inheritObjects_split:
  assumes "distinct (map PolicyID objects)"
  shows "inheritObjects ord objects oldObjects =
    filter (\<lambda>p. PolicyID p \<notin> PolicyID ` set objects) oldObjects @ inheritedObjects ord objects oldObjects"
  by (simp add: inheritObjects_def inheritedObjects_def split_beta fold_inheritStep_surviving
      policiesMapOf_None_iff [OF assms])

lemma clustersOf_inheritedObjects:
  assumes ord: "range_order ord" and own: "wf_objects objects" and old: "wf_objects oldObjects"
    and p: "p \<in> set objects"
  shows "c \<in> set (clustersOf (updatePolicyStatusInBundle ord p
       (the (map_of (fst (fold inheritStep oldObjects (policiesMapOf objects, []))) (PolicyID p)))) s) \<longleftrightarrow>
     c \<in> set (clustersOf p s) \<or> (reports oldObjects (PolicyID p) c s \<and> (\<nexists>t. c \<in> set (clustersOf p t)))"
proof -
  have "map_of (policiesMapOf objects) (PolicyID p) = Some (newPolicyStatus p)"
    using own p by (subst map_of_policiesMapOf) (auto simp: wf_objects_def)
  then obtain ps' where "map_of (fst (fold inheritStep oldObjects (policiesMapOf objects, []))) (PolicyID p) = Some ps'"
    and "\<forall>s c. c \<in> set (psetOf ps' s) \<longleftrightarrow> c \<in> set (psetOf (newPolicyStatus p) s)
        \<or> (reports oldObjects (PolicyID p) c s \<and> \<not> policyStatus_contains (newPolicyStatus p) c)"
    using fold_inheritStep_psetOf [OF old, of "(policiesMapOf objects, [])" "PolicyID p" "newPolicyStatus p"]
    unfolding fst_conv by blast
  then show ?thesis
    by (simp add: clustersOf_updatePolicyStatus [OF ord] policyStatus_contains_iff)
qed

lemma reports_inheritObjects:
  assumes "range_order ord" and "wf_objects objects" and "wf_objects oldObjects"
  shows "reports (inheritObjects ord objects oldObjects) k c s \<longleftrightarrow>
    reports objects k c s \<or> (reports oldObjects k c s \<and> (\<nexists>t. reports objects k c t))"
proof (cases "k \<in> PolicyID ` set objects")
  case True
  then obtain p where p: "p \<in> set objects" and k: "k = PolicyID p" by auto
  have "reports (inheritObjects ord objects oldObjects) k c s \<longleftrightarrow>
      reports (inheritedObjects ord objects oldObjects) k c s"
    using assms(2) p by (auto simp: wf_objects_def inheritObjects_split reports_def k)
  also have "\<dots> \<longleftrightarrow> c \<in> set (clustersOf p s) \<or> (reports oldObjects k c s \<and> (\<nexists>t. c \<in> set (clustersOf p t)))"
  proof -
    have "reports (inheritedObjects ord objects oldObjects) k c s \<longleftrightarrow>
        (\<exists>q\<in>set objects. PolicyID q = k \<and> c \<in> set (clustersOf (updatePolicyStatusInBundle ord q
          (the (map_of (fst (fold inheritStep oldObjects (policiesMapOf objects, []))) (PolicyID q)))) s))"
      by (simp add: reports_def inheritedObjects_def)
    also have "\<dots> \<longleftrightarrow> (\<exists>q\<in>set objects. PolicyID q = k \<and>
        (c \<in> set (clustersOf q s) \<or> (reports oldObjects (PolicyID q) c s \<and> (\<nexists>t. c \<in> set (clustersOf q t)))))"
      by (rule bex_cong [OF refl]) (rule conj_cong [OF refl], rule clustersOf_inheritedObjects [OF assms])
    also have "\<dots> \<longleftrightarrow> c \<in> set (clustersOf p s) \<or> (reports oldObjects k c s \<and> (\<nexists>t. c \<in> set (clustersOf p t)))"
      using assms(2) p by (auto simp: k wf_objects_def distinct_map inj_on_def)
    finally show ?thesis .
  qed
  finally show ?thesis
    using wf_objects_reports [OF assms(2) p] k by simp
next
  case False
  then have "\<not> reports objects k c t" for t by (auto simp: reports_def)
  with False assms(2) show ?thesis
    by (auto simp: wf_objects_def inheritObjects_split reports_def inheritedObjects_def)
qed

lemma wf_objects_inheritObjects:
  assumes "range_order ord" and "wf_objects objects" and "wf_objects oldObjects"
  shows "wf_objects (inheritObjects ord objects oldObjects)"
proof -
  have ids: "map PolicyID (inheritedObjects ord objects oldObjects) = map PolicyID objects"
    by (simp add: inheritedObjects_def)
  have "distinct (map PolicyID (inheritObjects ord objects oldObjects))"
    using assms(2,3) by (auto simp: inheritObjects_split wf_objects_def ids distinct_map_filter)
  moreover have "one_state q" if "q \<in> set (inheritedObjects ord objects oldObjects)" for q
  proof -
    from that obtain p where p: "p \<in> set objects"
      and q: "q = updatePolicyStatusInBundle ord p
        (the (map_of (fst (fold inheritStep oldObjects (policiesMapOf objects, []))) (PolicyID p)))"
      by (auto simp: inheritedObjects_def)
    show ?thesis
      unfolding one_state_def q clustersOf_inheritedObjects [OF assms p]
      using assms(2,3) p by (auto simp: wf_objects_def dest: one_state_disjoint wf_objects_reports_unique [OF assms(3)])
  qed
  ultimately show ?thesis
    using assms(2,3) by (auto simp: wf_objects_def inheritObjects_split)
qed

text \<open>
  Merging delta bundles of one line: the merged bundle reports what the newer bundle reports,
  and of the older bundle exactly the clusters the newer one says nothing about. The order in which
  the code ranges over its sets does not matter.
\<close>

theorem InheritEvents_overrides:
  assumes "range_order ord"
    and "wf_objects (dcs_Objects bundle)" and "wf_objects (dcs_Objects old)"
    and "dcs_BaseBundleVersion old = dcs_BaseBundleVersion bundle"
  shows "\<exists>merged. InheritEvents ord bundle (Some (DeltaComplianceStatusBundle old)) = Inr merged
     \<and> wf_objects (dcs_Objects merged)
     \<and> (\<forall>pid cluster s. reports (dcs_Objects merged) pid cluster s \<longleftrightarrow>
          reports (dcs_Objects bundle) pid cluster s
          \<or> (reports (dcs_Objects old) pid cluster s \<and> (\<nexists>t. reports (dcs_Objects bundle) pid cluster t)))
     \<and> dcs_BundleVersion merged = dcs_BundleVersion bundle"
  using assms(4) reports_inheritObjects [OF assms(1-3)] wf_objects_inheritObjects [OF assms(1-3)]
  by (simp add: InheritEvents_def)

text \<open>A newer delta that reports \<open>c1\<close>, over an older one that reports \<open>c1\<close> and \<open>c2\<close>.\<close>

definition sample_delta_old :: BaseDeltaComplianceStatusBundle where
  "sample_delta_old =
     \<lparr>dcs_Objects = [\<lparr>PolicyID = ''p'', CompliantClusters = [''c1''], NonCompliantClusters = [''c2''],
        UnknownComplianceClusters = []\<rparr>],
      dcs_LeafHubName = ''hub1'', dcs_BaseBundleVersion = BundleVersion 0 3, dcs_BundleVersion = BundleVersion 0 1\<rparr>"

definition sample_delta_new :: BaseDeltaComplianceStatusBundle where
  "sample_delta_new =
     \<lparr>dcs_Objects = [\<lparr>PolicyID = ''p'', CompliantClusters = [], NonCompliantClusters = [],
        UnknownComplianceClusters = [''c1'']\<rparr>],
      dcs_LeafHubName = ''hub1'', dcs_BaseBundleVersion = BundleVersion 0 3, dcs_BundleVersion = BundleVersion 0 2\<rparr>"

theorem InheritEvents_overrides_witness:
  "\<exists>merged. InheritEvents rev sample_delta_new (Some (DeltaComplianceStatusBundle sample_delta_old)) = Inr merged
     \<and> reports (dcs_Objects merged) ''p'' ''c2'' NonCompliant
     \<and> reports (dcs_Objects merged) ''p'' ''c1'' Unknown
     \<and> \<not> reports (dcs_Objects merged) ''p'' ''c1'' Compliant"
proof -
  have wf: "wf_objects (dcs_Objects sample_delta_new)" "wf_objects (dcs_Objects sample_delta_old)"
    by (simp_all add: wf_objects_def one_state_def all_states sample_delta_new_def sample_delta_old_def)
  have base: "dcs_BaseBundleVersion sample_delta_old = dcs_BaseBundleVersion sample_delta_new"
    by (simp add: sample_delta_new_def sample_delta_old_def)
  obtain merged where
    m: "InheritEvents rev sample_delta_new (Some (DeltaComplianceStatusBundle sample_delta_old)) = Inr merged"
    and r: "\<And>pid c s. reports (dcs_Objects merged) pid c s \<longleftrightarrow> reports (dcs_Objects sample_delta_new) pid c s
        \<or> (reports (dcs_Objects sample_delta_old) pid c s \<and> (\<nexists>t. reports (dcs_Objects sample_delta_new) pid c t))"
    using InheritEvents_overrides [OF reverse_order.range_order_axioms wf base] by blast
  have "reports (dcs_Objects merged) ''p'' ''c2'' NonCompliant"
    and "reports (dcs_Objects merged) ''p'' ''c1'' Unknown"
    and "\<not> reports (dcs_Objects merged) ''p'' ''c1'' Compliant"
    unfolding r by (simp_all add: reports_def all_states sample_delta_new_def sample_delta_old_def)
  with m show ?thesis by blast
qed

end
