(* ===== verification/GH_Conflation.thy ===== *)
theory GH_Conflation
  imports GH_DeltaMerge
begin

text \<open>
  The conflation unit (\<open>conflator/conflation_unit.go\<close> and the bundle infos it holds): one per leaf
  hub, a priority queue with one element per bundle type. Bundles are inserted by the transport
  consumer, handed out by \<open>GetNext\<close> to a DB worker and reported back by \<open>ReportResult\<close>.

  Pointers. A \<open>BundleMetadata\<close> object is shared between the element that created it and the DB
  job it was handed to, and a transport metadata object is shared between bundle metadata and the
  committer. Both live in the explicit store of the unit; a pointer is an address. No such object is
  ever shared between two units, so each unit has its own store. A panic is \<open>None\<close>.
\<close>

section \<open>Transport metadata and the store\<close>

record ObjectMetaData =
  ObjectID :: string
  ObjectType :: string
  om_Version :: string
  om_Description :: string

datatype transportMetadata =
    KafkaBundleMetadata (Processed: bool) (tm_partition: int) (tm_offset: int)
  | SyncServiceBundleMetadata (Processed: bool) (tm_objectMetadata: ObjectMetaData)

definition newKafkaBundleMetadata :: "int \<Rightarrow> int \<Rightarrow> transportMetadata" where
  "newKafkaBundleMetadata part off = KafkaBundleMetadata False part off"

definition newSyncServiceBundleMetadata :: "ObjectMetaData \<Rightarrow> transportMetadata" where
  "newSyncServiceBundleMetadata om = SyncServiceBundleMetadata False om"

fun MarkAsProcessed :: "transportMetadata \<Rightarrow> transportMetadata" where
  "MarkAsProcessed (KafkaBundleMetadata _ p off) = KafkaBundleMetadata True p off"
| "MarkAsProcessed (SyncServiceBundleMetadata _ om) = SyncServiceBundleMetadata True om"

record BundleMetadata =
  bm_bundleType :: string
  bm_bundleVersion :: BundleVersion
  bm_transport :: "addr option"

record store =
  transports :: "addr \<rightharpoonup> transportMetadata"
  metadatas :: "addr \<rightharpoonup> BundleMetadata"
  next_addr :: addr

definition empty_store :: store where
  "empty_store = \<lparr>transports = Map.empty, metadatas = Map.empty, next_addr = 0\<rparr>"

definition allocTransport :: "transportMetadata \<Rightarrow> store \<Rightarrow> addr \<times> store" where
  "allocTransport tm st =
     (next_addr st, st\<lparr>transports := (transports st)(next_addr st \<mapsto> tm), next_addr := Suc (next_addr st)\<rparr>)"

definition allocMetadata :: "BundleMetadata \<Rightarrow> store \<Rightarrow> addr \<times> store" where
  "allocMetadata m st =
     (next_addr st, st\<lparr>metadatas := (metadatas st)(next_addr st \<mapsto> m), next_addr := Suc (next_addr st)\<rparr>)"

definition modifyMetadata :: "addr \<Rightarrow> (BundleMetadata \<Rightarrow> BundleMetadata) \<Rightarrow> store \<Rightarrow> store" where
  "modifyMetadata a f st = st\<lparr>metadatas := (metadatas st)(a := map_option f (metadatas st a))\<rparr>"

definition markTransport :: "addr \<Rightarrow> store \<Rightarrow> store" where
  "markTransport a st = st\<lparr>transports := (transports st)(a := map_option MarkAsProcessed (transports st a))\<rparr>"

section \<open>Bundle infos\<close>

record completeStateBundleInfo =
  cs_bundle :: "Bundle option"
  cs_metadata :: "addr option"

text \<open>The wrapped bundle of a delta info is a \<open>DeltaStateBundle\<close>, which one Go type implements.\<close>

record deltaStateBundleInfo =
  ds_bundle :: "BaseDeltaComplianceStatusBundle option"
  ds_metadata :: "addr option"
  ds_lastDispatchedBundle :: "BaseDeltaComplianceStatusBundle option"
  ds_lowestPendingTransport :: "addr option"
  ds_lastReceivedTransport :: "addr option"
  ds_deltaLineHead :: "BundleVersion option"

datatype bundleInfo =
    CompleteInfo completeStateBundleInfo
  | DeltaInfo deltaStateBundleInfo

definition newCompleteStateBundleInfo :: bundleInfo where
  "newCompleteStateBundleInfo = CompleteInfo \<lparr>cs_bundle = None, cs_metadata = None\<rparr>"

definition newDeltaStateBundleInfo :: bundleInfo where
  "newDeltaStateBundleInfo = DeltaInfo
     \<lparr>ds_bundle = None, ds_metadata = None, ds_lastDispatchedBundle = None,
      ds_lowestPendingTransport = None, ds_lastReceivedTransport = None, ds_deltaLineHead = None\<rparr>"

fun getBundle :: "bundleInfo \<Rightarrow> Bundle option" where
  "getBundle (CompleteInfo bi) = cs_bundle bi"
| "getBundle (DeltaInfo bi) = map_option DeltaComplianceStatusBundle (ds_bundle bi)"

fun infoMetadata :: "bundleInfo \<Rightarrow> addr option" where
  "infoMetadata (CompleteInfo bi) = cs_metadata bi"
| "infoMetadata (DeltaInfo bi) = ds_metadata bi"

subsection \<open>Complete state\<close>

definition complete_update ::
  "completeStateBundleInfo \<Rightarrow> Bundle \<Rightarrow> addr \<Rightarrow> bool \<Rightarrow> store \<Rightarrow> completeStateBundleInfo \<times> store" where
  "complete_update bi bundle tm overwriteMetadataObject st =
     (case cs_metadata bi of
        Some a \<Rightarrow>
          if overwriteMetadataObject then
            (bi\<lparr>cs_bundle := Some bundle\<rparr>,
             modifyMetadata a (\<lambda>m. m\<lparr>bm_bundleVersion := GetVersion bundle, bm_transport := Some tm\<rparr>) st)
          else
            (let (a', st') = allocMetadata \<lparr>bm_bundleType = GetBundleType bundle,
                bm_bundleVersion = GetVersion bundle, bm_transport = Some tm\<rparr> st
             in (\<lparr>cs_bundle = Some bundle, cs_metadata = Some a'\<rparr>, st'))
      | None \<Rightarrow>
          (let (a', st') = allocMetadata \<lparr>bm_bundleType = GetBundleType bundle,
              bm_bundleVersion = GetVersion bundle, bm_transport = Some tm\<rparr> st
           in (\<lparr>cs_bundle = Some bundle, cs_metadata = Some a'\<rparr>, st')))"

definition complete_markAsProcessed ::
  "completeStateBundleInfo \<Rightarrow> addr \<Rightarrow> store \<Rightarrow> (completeStateBundleInfo \<times> store) option" where
  "complete_markAsProcessed bi metadata st = do {
     m \<leftarrow> metadatas st metadata;
     t \<leftarrow> bm_transport m;
     cur \<leftarrow> cs_metadata bi;
     mc \<leftarrow> metadatas st cur;
     Some (if \<not> Equals (bm_bundleVersion m) (bm_bundleVersion mc) then bi else bi\<lparr>cs_bundle := None\<rparr>,
           markTransport t st)
   }"

subsection \<open>Delta state\<close>

definition delta_getMetadata :: "deltaStateBundleInfo \<Rightarrow> store \<Rightarrow> (deltaStateBundleInfo \<times> addr \<times> store) option" where
  "delta_getMetadata bi st = do {
     a \<leftarrow> ds_metadata bi;
     m \<leftarrow> metadatas st a;
     Some (bi\<lparr>ds_lastDispatchedBundle := ds_bundle bi, ds_lowestPendingTransport := bm_transport m,
              ds_bundle := None\<rparr>,
           a,
           modifyMetadata a (\<lambda>m. m\<lparr>bm_transport := ds_lastReceivedTransport bi\<rparr>) st)
   }"

definition delta_updateMetadata ::
  "deltaStateBundleInfo \<Rightarrow> string \<Rightarrow> BundleVersion \<Rightarrow> addr \<Rightarrow> bool \<Rightarrow> store \<Rightarrow> deltaStateBundleInfo \<times> store" where
  "delta_updateMetadata bi bundleType version tm overwriteObject st =
     (case ds_metadata bi of
        None \<Rightarrow>
          (let (a', st') = allocMetadata \<lparr>bm_bundleType = bundleType, bm_bundleVersion = version,
              bm_transport = Some tm\<rparr> st
           in (bi\<lparr>ds_metadata := Some a', ds_lastReceivedTransport := Some tm\<rparr>, st'))
      | Some a \<Rightarrow>
          if \<not> overwriteObject then
            (let (a', st') = allocMetadata \<lparr>bm_bundleType = bundleType, bm_bundleVersion = version,
                bm_transport = Option.bind (metadatas st a) bm_transport\<rparr> st
             in (bi\<lparr>ds_metadata := Some a', ds_lastReceivedTransport := Some tm\<rparr>, st'))
          else
            (bi\<lparr>ds_lastReceivedTransport := Some tm\<rparr>,
             modifyMetadata a (\<lambda>m. m\<lparr>bm_bundleVersion := version\<rparr>) st))"

datatype conflation_error = errWrongBundleType | errMergeBundles bundle_error

text \<open>
  \<open>update\<close> of the delta info: the new bundle inherits the events of the one held, and the transport
  metadata moves to the new bundle only when it starts a new line of deltas.
\<close>

definition delta_update ::
  "(string list \<Rightarrow> string list) \<Rightarrow> deltaStateBundleInfo \<Rightarrow> Bundle \<Rightarrow> addr \<Rightarrow> bool \<Rightarrow> store
   \<Rightarrow> conflation_error + (deltaStateBundleInfo \<times> store)" where
  "delta_update ord bi newBundle tm overwriteMetadataObject st =
     (case newBundle of
        DeltaComplianceStatusBundle newDelta \<Rightarrow>
          (let bundleStartsNewLine =
                 (case ds_bundle bi of None \<Rightarrow> True
                  | Some b \<Rightarrow> NewerThan (dcs_BaseBundleVersion newDelta) (Some (dcs_BaseBundleVersion b)))
           in case InheritEvents ord newDelta (map_option DeltaComplianceStatusBundle (ds_bundle bi)) of
                Inl e \<Rightarrow> Inl (errMergeBundles e)
              | Inr merged \<Rightarrow>
                  (let (bi', st') = delta_updateMetadata (bi\<lparr>ds_bundle := Some merged\<rparr>)
                         (GetBundleType newBundle) (GetVersion newBundle) tm overwriteMetadataObject st
                   in Inr (if bundleStartsNewLine then
                             (bi'\<lparr>ds_deltaLineHead := Some (GetVersion newBundle)\<rparr>,
                              modifyMetadata (the (ds_metadata bi')) (\<lambda>m. m\<lparr>bm_transport := Some tm\<rparr>) st')
                           else (bi', st'))))
      | _ \<Rightarrow> Inl errWrongBundleType)"

definition delta_handleFailure ::
  "(string list \<Rightarrow> string list) \<Rightarrow> deltaStateBundleInfo \<Rightarrow> addr \<Rightarrow> store \<Rightarrow> (deltaStateBundleInfo \<times> store) option" where
  "delta_handleFailure ord bi failedMetadata st = do {
     let lastBundle = ds_lastDispatchedBundle bi;
     let lastTransport = ds_lowestPendingTransport bi;
     let released = bi\<lparr>ds_lastDispatchedBundle := None, ds_lowestPendingTransport := None\<rparr>;
     failed \<leftarrow> metadatas st failedMetadata;
     head \<leftarrow> ds_deltaLineHead bi;
     if NewerThan head (Some (bm_bundleVersion failed)) then Some (released, st)
     else do {
       cur \<leftarrow> ds_metadata bi;
       let restored = modifyMetadata cur (\<lambda>m. m\<lparr>bm_transport := lastTransport\<rparr>) st;
       (case ds_bundle bi of
          None \<Rightarrow> Some (released\<lparr>ds_bundle := lastBundle\<rparr>, restored)
        | Some b \<Rightarrow>
            (case InheritEvents ord b (map_option DeltaComplianceStatusBundle lastBundle) of
               Inl e \<Rightarrow> Some (released, st)
             | Inr merged \<Rightarrow> Some (released\<lparr>ds_bundle := Some merged\<rparr>, restored)))
     }
   }"

definition delta_markAsProcessed ::
  "deltaStateBundleInfo \<Rightarrow> addr \<Rightarrow> store \<Rightarrow> (deltaStateBundleInfo \<times> store) option" where
  "delta_markAsProcessed bi metadata st = do {
     m \<leftarrow> metadatas st metadata;
     t \<leftarrow> bm_transport m;
     Some (bi\<lparr>ds_lastDispatchedBundle := None, ds_lowestPendingTransport := None\<rparr>, markTransport t st)
   }"

subsection \<open>The bundleInfo interface\<close>

definition info_update ::
  "(string list \<Rightarrow> string list) \<Rightarrow> bundleInfo \<Rightarrow> Bundle \<Rightarrow> addr \<Rightarrow> bool \<Rightarrow> store
   \<Rightarrow> conflation_error + (bundleInfo \<times> store)" where
  "info_update ord info bundle tm overwrite st =
     (case info of
        CompleteInfo bi \<Rightarrow> Inr (map_prod CompleteInfo id (complete_update bi bundle tm overwrite st))
      | DeltaInfo bi \<Rightarrow>
          (case delta_update ord bi bundle tm overwrite st of
             Inl e \<Rightarrow> Inl e
           | Inr (bi', st') \<Rightarrow> Inr (DeltaInfo bi', st')))"

definition info_getMetadata :: "bundleInfo \<Rightarrow> store \<Rightarrow> (bundleInfo \<times> addr option \<times> store) option" where
  "info_getMetadata info st =
     (case info of
        CompleteInfo bi \<Rightarrow> Some (info, cs_metadata bi, st)
      | DeltaInfo bi \<Rightarrow>
          map_option (\<lambda>(bi', a, st'). (DeltaInfo bi', Some a, st')) (delta_getMetadata bi st))"

definition info_markAsProcessed :: "bundleInfo \<Rightarrow> addr \<Rightarrow> store \<Rightarrow> (bundleInfo \<times> store) option" where
  "info_markAsProcessed info metadata st =
     (case info of
        CompleteInfo bi \<Rightarrow> map_option (map_prod CompleteInfo id) (complete_markAsProcessed bi metadata st)
      | DeltaInfo bi \<Rightarrow> map_option (map_prod DeltaInfo id) (delta_markAsProcessed bi metadata st))"

text \<open>Both infos answer with the transport metadata of the metadata object held, if there is one.\<close>

definition getTransportMetadataToCommit :: "bundleInfo \<Rightarrow> store \<Rightarrow> addr option" where
  "getTransportMetadataToCommit info st =
     Option.bind (infoMetadata info) (\<lambda>a. Option.bind (metadatas st a) bm_transport)"

section \<open>Registrations and elements\<close>

datatype BundleSyncMode = CompleteStateMode | DeltaStateMode

datatype dependencyType = ExactMatch | AtLeast

record Dependency =
  dep_BundleType :: string
  dep_DependencyType :: dependencyType

record 'h ConflationRegistration =
  reg_priority :: nat
  reg_syncMode :: BundleSyncMode
  reg_bundleType :: string
  reg_handlerFunction :: 'h
  reg_dependency :: "Dependency option"

definition NewConflationRegistration ::
  "nat \<Rightarrow> BundleSyncMode \<Rightarrow> string \<Rightarrow> 'h \<Rightarrow> 'h ConflationRegistration" where
  "NewConflationRegistration priority syncMode bundleType handlerFunction =
     \<lparr>reg_priority = priority, reg_syncMode = syncMode, reg_bundleType = bundleType,
      reg_handlerFunction = handlerFunction, reg_dependency = None\<rparr>"

definition WithDependency :: "Dependency \<Rightarrow> 'h ConflationRegistration \<Rightarrow> 'h ConflationRegistration" where
  "WithDependency d r = r\<lparr>reg_dependency := Some d\<rparr>"

record 'h conflationElement =
  bundleInfo :: bundleInfo
  handlerFunction :: 'h
  dependency :: "Dependency option"
  isInProcess :: bool
  lastProcessedBundleVersion :: BundleVersion

record 'h ConflationUnit =
  priorityQueue :: "'h conflationElement list"
  bundleTypeToPriority :: "(string, nat) gomap"
  requireInitialDependencyChecks :: bool
  isInReadyQueue :: bool
  cu_store :: store

fun createBundleInfo :: "BundleSyncMode \<Rightarrow> bundleInfo" where
  "createBundleInfo DeltaStateMode = newDeltaStateBundleInfo"
| "createBundleInfo CompleteStateMode = newCompleteStateBundleInfo"

definition newConflationElement :: "'h ConflationRegistration \<Rightarrow> 'h conflationElement" where
  "newConflationElement r =
     \<lparr>bundleInfo = createBundleInfo (reg_syncMode r), handlerFunction = reg_handlerFunction r,
      dependency = reg_dependency r, isInProcess = False, lastProcessedBundleVersion = noBundleVersion\<rparr>"

text \<open>
  The loop of \<open>newConflationUnit\<close>. The queue has one slot per registration; storing beyond it is an
  index panic. A slot that no registration fills stays nil and every later range over the queue
  dereferences it, so that case is a panic too.
\<close>

fun fillPriorityQueue ::
  "'h ConflationRegistration list \<Rightarrow> 'h conflationElement option list \<Rightarrow> 'h conflationElement option list option" where
  "fillPriorityQueue [] slots = Some slots"
| "fillPriorityQueue (r # rs) slots =
     (if reg_priority r < length slots
      then fillPriorityQueue rs (slots[reg_priority r := Some (newConflationElement r)])
      else None)"

definition newConflationUnit :: "'h ConflationRegistration list \<Rightarrow> bool \<Rightarrow> 'h ConflationUnit option" where
  "newConflationUnit registrations requireInitial = do {
     slots \<leftarrow> fillPriorityQueue registrations (replicate (length registrations) None);
     queue \<leftarrow> those slots;
     Some \<lparr>priorityQueue = queue,
           bundleTypeToPriority = fold (\<lambda>r. AList.update (reg_bundleType r) (reg_priority r)) registrations [],
           requireInitialDependencyChecks = requireInitial, isInReadyQueue = False, cu_store = empty_store\<rparr>
   }"

section \<open>The conflation unit\<close>

text \<open>Indexing a map with a missing key gives the zero value; indexing a slice may panic.\<close>

definition priorityOf :: "'h ConflationUnit \<Rightarrow> string \<Rightarrow> nat" where
  "priorityOf cu bundleType = (case map_of (bundleTypeToPriority cu) bundleType of None \<Rightarrow> 0 | Some p \<Rightarrow> p)"

definition elementAt :: "'h ConflationUnit \<Rightarrow> nat \<Rightarrow> 'h conflationElement option" where
  "elementAt cu p = (if p < length (priorityQueue cu) then Some (priorityQueue cu ! p) else None)"

definition setElement :: "'h ConflationUnit \<Rightarrow> nat \<Rightarrow> 'h conflationElement \<Rightarrow> 'h ConflationUnit" where
  "setElement cu p e = cu\<lparr>priorityQueue := (priorityQueue cu)[p := e]\<rparr>"

definition anyInProcess :: "'h ConflationUnit \<Rightarrow> bool" where
  "anyInProcess cu \<longleftrightarrow> (\<exists>e\<in>set (priorityQueue cu). isInProcess e)"

text \<open>
  \<open>isCurrentOrAnyDependencyInProcess\<close> walks up the dependency chain by recursion. \<open>None\<close> is a walk
  longer than the fuel: with fuel for every element of the queue that is a cyclic chain, on which the
  code recurses for ever.
\<close>

fun isCurrentOrAnyDependencyInProcess ::
  "nat \<Rightarrow> 'h ConflationUnit \<Rightarrow> 'h conflationElement \<Rightarrow> bool option" where
  "isCurrentOrAnyDependencyInProcess 0 cu e = None"
| "isCurrentOrAnyDependencyInProcess (Suc fuel) cu e =
     (if isInProcess e then Some True
      else (case dependency e of
              None \<Rightarrow> Some False
            | Some d \<Rightarrow>
                Option.bind (elementAt cu (priorityOf cu (dep_BundleType d)))
                  (isCurrentOrAnyDependencyInProcess fuel cu)))"

text \<open>A bundle that declares a dependency but cannot state its version is not processed.\<close>

definition checkDependency :: "'h ConflationUnit \<Rightarrow> 'h conflationElement \<Rightarrow> bool" where
  "checkDependency cu e =
     (case dependency e of
        None \<Rightarrow> True
      | Some d \<Rightarrow>
          (case Option.bind (getBundle (bundleInfo e)) GetDependencyVersion of
             None \<Rightarrow> False
           | Some dependencyVersion \<Rightarrow>
               (case elementAt cu (priorityOf cu (dep_BundleType d)) of
                  None \<Rightarrow> False
                | Some dep \<Rightarrow>
                    if \<not> requireInitialDependencyChecks cu
                       \<and> Equals (lastProcessedBundleVersion dep) noBundleVersion then True
                    else (case dep_DependencyType d of
                            ExactMatch \<Rightarrow> Equals dependencyVersion (lastProcessedBundleVersion dep)
                          | AtLeast \<Rightarrow> \<not> NewerThan dependencyVersion (Some (lastProcessedBundleVersion dep))))))"

definition readyElement :: "'h ConflationUnit \<Rightarrow> 'h conflationElement \<Rightarrow> bool" where
  "readyElement cu e \<longleftrightarrow>
     getBundle (bundleInfo e) \<noteq> None
     \<and> isCurrentOrAnyDependencyInProcess (Suc (length (priorityQueue cu))) cu e = Some False
     \<and> checkDependency cu e"

text \<open>\<open>None\<close> is \<open>invalidPriority\<close>.\<close>

definition getNextReadyBundlePriority :: "'h ConflationUnit \<Rightarrow> nat option" where
  "getNextReadyBundlePriority cu = find_index (readyElement cu) (priorityQueue cu)"

text \<open>
  The ready queue (\<open>ready_queue.go\<close>) is a FIFO of units; a unit is named by its leaf hub, \<open>me\<close>
  below. \<open>BlockingDequeue\<close> on an empty queue waits: that is \<open>None\<close>.
\<close>

definition Enqueue :: "'a \<Rightarrow> 'a list \<Rightarrow> 'a list" where
  "Enqueue cu queue = queue @ [cu]"

definition BlockingDequeue :: "'a list \<Rightarrow> ('a \<times> 'a list) option" where
  "BlockingDequeue queue = (case queue of [] \<Rightarrow> None | cu # rest \<Rightarrow> Some (cu, rest))"

definition addCUToReadyQueueIfNeeded ::
  "string \<Rightarrow> 'h ConflationUnit \<Rightarrow> string list \<Rightarrow> 'h ConflationUnit \<times> string list" where
  "addCUToReadyQueueIfNeeded me cu readyQueue =
     (if isInReadyQueue cu \<or> anyInProcess cu then (cu, readyQueue)
      else (case getNextReadyBundlePriority cu of
              None \<Rightarrow> (cu, readyQueue)
            | Some _ \<Rightarrow> (cu\<lparr>isInReadyQueue := True\<rparr>, Enqueue me readyQueue)))"

definition conflationElement_update ::
  "(string list \<Rightarrow> string list) \<Rightarrow> 'h conflationElement \<Rightarrow> Bundle \<Rightarrow> addr \<Rightarrow> store
   \<Rightarrow> conflation_error + ('h conflationElement \<times> store)" where
  "conflationElement_update ord e bundle tm st =
     (case info_update ord (bundleInfo e) bundle tm (\<not> isInProcess e) st of
        Inl err \<Rightarrow> Inl err
      | Inr (info, st') \<Rightarrow> Inr (e\<lparr>bundleInfo := info\<rparr>, st'))"

text \<open>The two version guards of \<open>insert\<close>: newer than what was processed and than what is held.\<close>

definition acceptsBundle :: "'h conflationElement \<Rightarrow> Bundle \<Rightarrow> bool" where
  "acceptsBundle e bundle \<longleftrightarrow>
     NewerThan (GetVersion bundle) (Some (lastProcessedBundleVersion e))
     \<and> (case getBundle (bundleInfo e) of
           None \<Rightarrow> True
         | Some held \<Rightarrow> NewerThan (GetVersion bundle) (Some (GetVersion held)))"

text \<open>
  \<open>insert\<close>: the transport metadata object was created by the consumer for this message; it is placed
  in the store of the unit first.
\<close>

definition ConflationUnit_insert ::
  "(string list \<Rightarrow> string list) \<Rightarrow> string \<Rightarrow> Bundle \<Rightarrow> transportMetadata \<Rightarrow> 'h ConflationUnit \<Rightarrow> string list
   \<Rightarrow> ('h ConflationUnit \<times> string list) option" where
  "ConflationUnit_insert ord me bundle tm cu readyQueue = do {
     let (t, st) = allocTransport tm (cu_store cu);
     let p = priorityOf cu (GetBundleType bundle);
     e \<leftarrow> elementAt cu p;
     if \<not> acceptsBundle e bundle then Some (cu\<lparr>cu_store := st\<rparr>, readyQueue)
     else (case conflationElement_update ord e bundle t st of
             Inl err \<Rightarrow> Some (cu\<lparr>cu_store := st\<rparr>, readyQueue)
           | Inr (e', st') \<Rightarrow>
               Some (addCUToReadyQueueIfNeeded me ((setElement cu p e')\<lparr>cu_store := st'\<rparr>) readyQueue))
   }"

datatype getnext_error = errNoReadyBundle

record 'h next_bundle =
  nb_bundle :: Bundle
  nb_metadata :: addr
  nb_handler :: 'h

text \<open>\<open>GetNext\<close>: when no bundle is ready the unit is left as it is.\<close>

definition GetNext :: "'h ConflationUnit \<Rightarrow> (getnext_error + 'h next_bundle \<times> 'h ConflationUnit) option" where
  "GetNext cu =
     (case getNextReadyBundlePriority cu of
        None \<Rightarrow> Some (Inl errNoReadyBundle)
      | Some p \<Rightarrow> do {
          e \<leftarrow> elementAt cu p;
          bundle \<leftarrow> getBundle (bundleInfo e);
          (info, a, st) \<leftarrow> info_getMetadata (bundleInfo e) (cu_store cu);
          a \<leftarrow> a;
          Some (Inr (\<lparr>nb_bundle = bundle, nb_metadata = a, nb_handler = handlerFunction e\<rparr>,
            (setElement cu p (e\<lparr>isInProcess := True, bundleInfo := info\<rparr>))
              \<lparr>isInReadyQueue := False, cu_store := st\<rparr>))
        })"

text \<open>
  \<open>ReportResult\<close> with \<open>failed\<close> for a non-nil error of the handler. \<open>reportElement\<close> is
  its part between the lookup of the element and \<open>addCUToReadyQueueIfNeeded\<close>.
\<close>

definition reportElement ::
  "(string list \<Rightarrow> string list) \<Rightarrow> addr \<Rightarrow> BundleMetadata \<Rightarrow> bool \<Rightarrow> 'h conflationElement \<Rightarrow> store
   \<Rightarrow> ('h conflationElement \<times> store) option" where
  "reportElement ord metadata m failed e st =
     (let e1 = e\<lparr>isInProcess := False\<rparr> in
      if failed then
        (case bundleInfo e1 of
           CompleteInfo bi \<Rightarrow> Some (e1, st)
         | DeltaInfo bi \<Rightarrow> do {
             (bi', st') \<leftarrow> delta_handleFailure ord bi metadata st;
             Some (e1\<lparr>bundleInfo := DeltaInfo bi'\<rparr>, st')
           })
      else do {
        let e2 = (if NewerThan (bm_bundleVersion m) (Some (lastProcessedBundleVersion e1))
                  then e1\<lparr>lastProcessedBundleVersion := bm_bundleVersion m\<rparr> else e1);
        (info, st') \<leftarrow> info_markAsProcessed (bundleInfo e2) metadata st;
        Some (e2\<lparr>bundleInfo := info\<rparr>, st')
      })"

definition ReportResult ::
  "(string list \<Rightarrow> string list) \<Rightarrow> string \<Rightarrow> addr \<Rightarrow> bool \<Rightarrow> 'h ConflationUnit \<Rightarrow> string list
   \<Rightarrow> ('h ConflationUnit \<times> string list) option" where
  "ReportResult ord me metadata failed cu readyQueue = do {
     m \<leftarrow> metadatas (cu_store cu) metadata;
     let p = priorityOf cu (bm_bundleType m);
     e \<leftarrow> elementAt cu p;
     (e', st) \<leftarrow> reportElement ord metadata m failed e (cu_store cu);
     Some (addCUToReadyQueueIfNeeded me ((setElement cu p e')\<lparr>cu_store := st\<rparr>) readyQueue)
   }"

definition getBundlesMetadata :: "'h ConflationUnit \<Rightarrow> transportMetadata list" where
  "getBundlesMetadata cu =
     List.map_filter (\<lambda>e. Option.bind (getTransportMetadataToCommit (bundleInfo e) (cu_store cu))
       (transports (cu_store cu))) (priorityQueue cu)"

end
