(* ===== verification/GH_ConflationInv.thy ===== *)
theory GH_ConflationInv
  imports GH_Conflation
begin

text \<open>
  The invariant of a conflation unit together with the metadata pointer of the job that is being
  processed for it (if any), and its preservation by \<open>insert\<close>, \<open>GetNext\<close> and
  \<open>ReportResult\<close>. It implies that none of them panics, that at most one element is in process,
  that a unit in process is not in the ready queue, and that a held complete-state bundle is newer
  than everything that was processed.
\<close>

section \<open>The invariant\<close>

definition good_metadata :: "(string \<Rightarrow> nat) \<Rightarrow> store \<Rightarrow> nat \<Rightarrow> addr \<Rightarrow> bool" where
  "good_metadata pr st i a \<longleftrightarrow>
     (\<exists>m t. metadatas st a = Some m \<and> pr (bm_bundleType m) = i \<and> bm_transport m = Some t \<and> transports st t \<noteq> None)"

definition complete_ok :: "store \<Rightarrow> BundleVersion \<Rightarrow> completeStateBundleInfo \<Rightarrow> bool" where
  "complete_ok st lastv bi \<longleftrightarrow>
     (\<forall>b. cs_bundle bi = Some b \<longrightarrow> lastv < GetVersion b
        \<and> (\<exists>a m. cs_metadata bi = Some a \<and> metadatas st a = Some m \<and> bm_bundleVersion m = GetVersion b))"

definition delta_ok :: "store \<Rightarrow> deltaStateBundleInfo \<Rightarrow> bool" where
  "delta_ok st bi \<longleftrightarrow>
     (ds_bundle bi \<noteq> None \<longrightarrow> ds_metadata bi \<noteq> None)
     \<and> (ds_metadata bi \<noteq> None \<longrightarrow> ds_deltaLineHead bi \<noteq> None
          \<and> (\<exists>t. ds_lastReceivedTransport bi = Some t \<and> transports st t \<noteq> None))"

definition elem_ok :: "(string \<Rightarrow> nat) \<Rightarrow> store \<Rightarrow> nat \<Rightarrow> 'h conflationElement \<Rightarrow> bool" where
  "elem_ok pr st i e \<longleftrightarrow>
     (\<forall>a. infoMetadata (bundleInfo e) = Some a \<longrightarrow> good_metadata pr st i a)
     \<and> (case bundleInfo e of
           CompleteInfo bi \<Rightarrow> complete_ok st (lastProcessedBundleVersion e) bi
         | DeltaInfo bi \<Rightarrow> delta_ok st bi)"

text \<open>The element whose bundle is with a DB worker, and the metadata \<open>a\<close> the worker has.\<close>

definition inflight_ok :: "(string \<Rightarrow> nat) \<Rightarrow> store \<Rightarrow> addr \<Rightarrow> nat \<Rightarrow> 'h conflationElement \<Rightarrow> bool" where
  "inflight_ok pr st a i e \<longleftrightarrow>
     good_metadata pr st i a \<and> infoMetadata (bundleInfo e) \<noteq> None
     \<and> (case bundleInfo e of
           CompleteInfo bi \<Rightarrow>
             (\<exists>b m. cs_bundle bi = Some b \<and> metadatas st a = Some m
                \<and> bm_bundleVersion m \<le> GetVersion b \<and> lastProcessedBundleVersion e < bm_bundleVersion m)
         | DeltaInfo bi \<Rightarrow> (\<exists>t. ds_lowestPendingTransport bi = Some t \<and> transports st t \<noteq> None))"

definition store_ok :: "store \<Rightarrow> bool" where
  "store_ok st \<longleftrightarrow> (\<forall>a\<ge>next_addr st. metadatas st a = None \<and> transports st a = None)"

definition wf_static :: "'h ConflationUnit \<Rightarrow> bool" where
  "wf_static cu \<longleftrightarrow>
     (\<forall>t. priorityOf cu t < length (priorityQueue cu))
     \<and> (\<forall>i d. i < length (priorityQueue cu) \<and> dependency (priorityQueue cu ! i) = Some d
           \<longrightarrow> priorityOf cu (dep_BundleType d) < i)"

definition cu_inv :: "'h ConflationUnit \<Rightarrow> addr option \<Rightarrow> bool" where
  "cu_inv cu infl \<longleftrightarrow>
     wf_static cu \<and> store_ok (cu_store cu)
     \<and> (\<forall>i<length (priorityQueue cu). elem_ok (priorityOf cu) (cu_store cu) i (priorityQueue cu ! i))
     \<and> (case infl of
           None \<Rightarrow> \<forall>i<length (priorityQueue cu). \<not> isInProcess (priorityQueue cu ! i)
         | Some a \<Rightarrow> \<not> isInReadyQueue cu
             \<and> (\<exists>i<length (priorityQueue cu).
                  (\<forall>j<length (priorityQueue cu). isInProcess (priorityQueue cu ! j) \<longleftrightarrow> j = i)
                  \<and> inflight_ok (priorityOf cu) (cu_store cu) a i (priorityQueue cu ! i)))"

section \<open>Frames\<close>

text \<open>
  What an operation on the element at priority \<open>p\<close> leaves alone: transport metadata stays
  allocated, and metadata objects of other elements do not change.
\<close>

definition st_frame :: "(string \<Rightarrow> nat) \<Rightarrow> nat \<Rightarrow> store \<Rightarrow> store \<Rightarrow> bool" where
  "st_frame pr p st st' \<longleftrightarrow>
     (\<forall>t. transports st t \<noteq> None \<longrightarrow> transports st' t \<noteq> None)
     \<and> (\<forall>a m. metadatas st a = Some m \<and> pr (bm_bundleType m) \<noteq> p \<longrightarrow> metadatas st' a = Some m)"

lemma st_frame_refl [simp]: "st_frame pr p st st"
  by (simp add: st_frame_def)

lemma st_frame_trans: "st_frame pr p st st' \<Longrightarrow> st_frame pr p st' st'' \<Longrightarrow> st_frame pr p st st''"
  by (auto simp: st_frame_def)

lemma st_frame_good_metadata:
  "st_frame pr p st st' \<Longrightarrow> i \<noteq> p \<Longrightarrow> good_metadata pr st i a \<Longrightarrow> good_metadata pr st' i a"
  unfolding st_frame_def good_metadata_def by blast

lemma st_frame_complete_ok:
  assumes "st_frame pr p st st'" and "i \<noteq> p"
    and "\<And>a. cs_metadata bi = Some a \<Longrightarrow> good_metadata pr st i a" and "complete_ok st v bi"
  shows "complete_ok st' v bi"
  using assms unfolding st_frame_def good_metadata_def complete_ok_def
  by (metis option.inject)

lemma st_frame_delta_ok: "st_frame pr p st st' \<Longrightarrow> delta_ok st bi \<Longrightarrow> delta_ok st' bi"
  unfolding st_frame_def delta_ok_def by blast

lemma st_frame_elem_ok:
  "st_frame pr p st st' \<Longrightarrow> i \<noteq> p \<Longrightarrow> elem_ok pr st i e \<Longrightarrow> elem_ok pr st' i e"
  by (cases "bundleInfo e") (auto simp: elem_ok_def intro: st_frame_good_metadata
      elim: st_frame_delta_ok st_frame_complete_ok)

lemma st_frame_inflight_ok:
  assumes "st_frame pr p st st'" and "i \<noteq> p" and "inflight_ok pr st a i e"
  shows "inflight_ok pr st' a i e"
proof -
  from assms(3) have good: "good_metadata pr st i a" by (simp add: inflight_ok_def)
  then obtain m where m: "metadatas st a = Some m" and pm: "pr (bm_bundleType m) = i"
    by (auto simp: good_metadata_def)
  then have "metadatas st' a = Some m" using assms(1,2) by (auto simp: st_frame_def)
  moreover have "transports st t \<noteq> None \<Longrightarrow> transports st' t \<noteq> None" for t
    using assms(1) by (auto simp: st_frame_def)
  ultimately show ?thesis
    using assms(3) st_frame_good_metadata [OF assms(1,2) good] m
    by (cases "bundleInfo e") (auto simp: inflight_ok_def)
qed

section \<open>Store operations\<close>

lemma metadatas_modify: "metadatas (modifyMetadata a f st) b = (if b = a then map_option f (metadatas st a) else metadatas st b)"
  by (simp add: modifyMetadata_def)

lemma transports_modify [simp]: "transports (modifyMetadata a f st) = transports st"
  by (simp add: modifyMetadata_def)

lemma next_addr_modify [simp]: "next_addr (modifyMetadata a f st) = next_addr st"
  by (simp add: modifyMetadata_def)

lemma metadatas_mark [simp]: "metadatas (markTransport t st) = metadatas st"
  by (simp add: markTransport_def)

lemma transports_mark: "transports (markTransport t st) b = (if b = t then map_option MarkAsProcessed (transports st t) else transports st b)"
  by (simp add: markTransport_def)

lemma transports_mark_None [simp]: "transports (markTransport t st) b = None \<longleftrightarrow> transports st b = None"
  by (simp add: transports_mark)

lemma transports_mark_Some [simp]: "(\<exists>x. transports (markTransport t st) b = Some x) \<longleftrightarrow> (\<exists>x. transports st b = Some x)"
  by (simp add: transports_mark)

lemma good_metadata_mark [simp]: "good_metadata pr (markTransport t st) p a = good_metadata pr st p a"
  by (simp add: good_metadata_def)

lemma next_addr_mark [simp]: "next_addr (markTransport t st) = next_addr st"
  by (simp add: markTransport_def)

lemmas alloc_defs = allocMetadata_def allocTransport_def

lemma store_ok_modify [simp]: "store_ok st \<Longrightarrow> store_ok (modifyMetadata a f st)"
  by (auto simp: store_ok_def metadatas_modify)

lemma store_ok_mark [simp]: "store_ok st \<Longrightarrow> store_ok (markTransport t st)"
  by (auto simp: store_ok_def transports_mark)

lemma store_ok_alloc:
  "store_ok st \<Longrightarrow> store_ok (snd (allocMetadata m st))"
  "store_ok st \<Longrightarrow> store_ok (snd (allocTransport tm st))"
  by (auto simp: store_ok_def alloc_defs)

lemma store_ok_fresh: "store_ok st \<Longrightarrow> metadatas st (next_addr st) = None \<and> transports st (next_addr st) = None"
  by (simp add: store_ok_def)

lemma st_frame_modify:
  "good_metadata pr st p a \<Longrightarrow> st_frame pr p st (modifyMetadata a f st)"
  by (auto simp: st_frame_def metadatas_modify good_metadata_def)

lemma st_frame_alloc:
  "store_ok st \<Longrightarrow> st_frame pr p st (snd (allocMetadata m st))"
  "store_ok st \<Longrightarrow> st_frame pr p st (snd (allocTransport tm st))"
  using store_ok_fresh [of st] by (auto simp: st_frame_def alloc_defs)

lemma st_frame_mark [simp]: "st_frame pr p st (markTransport t st)"
  by (simp add: st_frame_def)

section \<open>Dependency chains\<close>

text \<open>Dependencies point to higher priorities, so the walk along the chain ends within the fuel.\<close>

lemma dependency_walk_ends:
  assumes "wf_static cu" and "i < length (priorityQueue cu)" and "i < fuel"
  shows "isCurrentOrAnyDependencyInProcess fuel cu (priorityQueue cu ! i) \<noteq> None"
  using assms(2,3)
proof (induction fuel arbitrary: i)
  case 0
  then show ?case by simp
next
  case (Suc fuel)
  show ?case
  proof (cases "dependency (priorityQueue cu ! i)")
    case None
    then show ?thesis by auto
  next
    case (Some d)
    let ?j = "priorityOf cu (dep_BundleType d)"
    from Some Suc.prems(1) assms(1) have "?j < i" by (auto simp: wf_static_def)
    with Suc.prems Suc.IH [of ?j] have "isCurrentOrAnyDependencyInProcess fuel cu (priorityQueue cu ! ?j) \<noteq> None"
      and "?j < length (priorityQueue cu)"
      by auto
    with Some show ?thesis by (auto simp: elementAt_def)
  qed
qed

lemma readyElement_not_in_process: "readyElement cu e \<Longrightarrow> \<not> isInProcess e"
  by (auto simp: readyElement_def)

lemma getNextReady_SomeD:
  "getNextReadyBundlePriority cu = Some p \<Longrightarrow>
     p < length (priorityQueue cu) \<and> readyElement cu (priorityQueue cu ! p)
     \<and> (\<forall>j<p. \<not> readyElement cu (priorityQueue cu ! j))"
  by (auto simp: getNextReadyBundlePriority_def dest: find_index_SomeD)

section \<open>Preservation\<close>

lemma priorityOf_setElement [simp]: "priorityOf (setElement cu p e) = priorityOf cu"
  by (simp add: fun_eq_iff priorityOf_def setElement_def)

lemma priorityOf_fields [simp]:
  "priorityOf (cu\<lparr>cu_store := st\<rparr>) = priorityOf cu" "priorityOf (cu\<lparr>isInReadyQueue := r\<rparr>) = priorityOf cu"
  by (simp_all add: fun_eq_iff priorityOf_def)

lemma setElement_fields [simp]:
  "priorityQueue (setElement cu p e) = (priorityQueue cu)[p := e]"
  "cu_store (setElement cu p e) = cu_store cu"
  "isInReadyQueue (setElement cu p e) = isInReadyQueue cu"
  "bundleTypeToPriority (setElement cu p e) = bundleTypeToPriority cu"
  "requireInitialDependencyChecks (setElement cu p e) = requireInitialDependencyChecks cu"
  by (simp_all add: setElement_def)

lemma elementAt_Some: "elementAt cu p = Some e \<longleftrightarrow> p < length (priorityQueue cu) \<and> e = priorityQueue cu ! p"
  by (auto simp: elementAt_def)

lemma elem_ok_cong:
  "bundleInfo e = bundleInfo e' \<Longrightarrow> lastProcessedBundleVersion e = lastProcessedBundleVersion e'
    \<Longrightarrow> elem_ok pr st i e = elem_ok pr st i e'"
  by (simp add: elem_ok_def split: bundleInfo.split)

definition cu_base :: "'h ConflationUnit \<Rightarrow> bool" where
  "cu_base cu \<longleftrightarrow> wf_static cu \<and> store_ok (cu_store cu)
     \<and> (\<forall>i<length (priorityQueue cu). elem_ok (priorityOf cu) (cu_store cu) i (priorityQueue cu ! i))"

lemma cu_inv_None:
  "cu_inv cu None \<longleftrightarrow> cu_base cu \<and> (\<forall>i<length (priorityQueue cu). \<not> isInProcess (priorityQueue cu ! i))"
  by (simp add: cu_inv_def cu_base_def)

lemma cu_inv_Some:
  "cu_inv cu (Some a) \<longleftrightarrow> cu_base cu \<and> \<not> isInReadyQueue cu
     \<and> (\<exists>i<length (priorityQueue cu).
          (\<forall>j<length (priorityQueue cu). isInProcess (priorityQueue cu ! j) \<longleftrightarrow> j = i)
          \<and> inflight_ok (priorityOf cu) (cu_store cu) a i (priorityQueue cu ! i))"
  by (simp add: cu_inv_def cu_base_def)

lemma cu_inv_base: "cu_inv cu infl \<Longrightarrow> cu_base cu"
  by (simp add: cu_inv_def cu_base_def)

lemma cu_base_put:
  assumes "cu_base cu" and "p < length (priorityQueue cu)"
    and "st_frame (priorityOf cu) p (cu_store cu) st'" and "store_ok st'"
    and "elem_ok (priorityOf cu) st' p e'" and "dependency e' = dependency (priorityQueue cu ! p)"
  shows "cu_base ((setElement cu p e')\<lparr>cu_store := st'\<rparr>)"
proof -
  have "wf_static ((setElement cu p e')\<lparr>cu_store := st'\<rparr>)"
    using assms(1,2,6) by (auto simp: cu_base_def wf_static_def nth_list_update)
  moreover have "elem_ok (priorityOf cu) st' i ((priorityQueue cu)[p := e'] ! i)"
    if "i < length (priorityQueue cu)" for i
    using assms that st_frame_elem_ok [OF assms(3), of i]
    by (cases "i = p") (auto simp: cu_base_def nth_list_update)
  ultimately show ?thesis
    using assms(4) by (simp add: cu_base_def)
qed

lemma cu_base_readyQueue [simp]: "cu_base (cu\<lparr>isInReadyQueue := r\<rparr>) = cu_base cu"
  by (simp add: cu_base_def wf_static_def)

lemma addCU_inv:
  assumes "cu_inv cu infl" and "addCUToReadyQueueIfNeeded me cu rq = (cu', rq')"
  shows "cu_inv cu' infl"
proof (cases infl)
  case None
  with assms show ?thesis
    by (auto simp: addCUToReadyQueueIfNeeded_def cu_inv_None split: if_splits option.splits)
next
  case (Some a)
  with assms(1) have "anyInProcess cu" by (auto simp: cu_inv_Some anyInProcess_def)
  with assms show ?thesis by (simp add: addCUToReadyQueueIfNeeded_def)
qed

text \<open>A ready bundle never waits unannounced: after the call the unit is announced, has a bundle
  in process, or has nothing ready.\<close>

lemma addCU_announces:
  assumes "addCUToReadyQueueIfNeeded me cu rq = (cu', rq')"
  shows "isInReadyQueue cu' \<or> anyInProcess cu' \<or> getNextReadyBundlePriority cu' = None"
  using assms by (auto simp: addCUToReadyQueueIfNeeded_def split: if_splits option.splits)

subsection \<open>Updating an element\<close>

text \<open>What \<open>update\<close> of either info promises about the store and the metadata it holds.\<close>

definition update_post :: "(string \<Rightarrow> nat) \<Rightarrow> nat \<Rightarrow> bool \<Rightarrow> store \<Rightarrow> addr option \<Rightarrow> store \<Rightarrow> bool" where
  "update_post pr p overwrite st meta st' \<longleftrightarrow>
     store_ok st' \<and> st_frame pr p st st' \<and> transports st' = transports st
     \<and> (\<exists>a. meta = Some a \<and> good_metadata pr st' p a)
     \<and> (overwrite \<or> metadatas st \<subseteq>\<^sub>m metadatas st')"

lemma allocMetadata_post:
  assumes "store_ok st" and "allocMetadata m st = (a, st')" and "pr (bm_bundleType m) = p"
    and "bm_transport m = Some t" and "transports st t \<noteq> None"
  shows "update_post pr p overwrite st (Some a) st' \<and> metadatas st' a = Some m
     \<and> metadatas st a = None \<and> metadatas st \<subseteq>\<^sub>m metadatas st'"
  using assms store_ok_alloc(1) [of st m] st_frame_alloc(1) [of st pr p m] store_ok_fresh [of st]
  by (auto simp: update_post_def good_metadata_def allocMetadata_def map_le_def)

lemma complete_update_post:
  assumes "store_ok st" and "transports st t \<noteq> None" and "pr (GetBundleType b) = p"
    and "\<And>a. cs_metadata bi = Some a \<Longrightarrow> good_metadata pr st p a"
    and "complete_update bi b t ow st = (bi', st')"
  shows "update_post pr p ow st (cs_metadata bi') st' \<and> cs_bundle bi' = Some b
     \<and> (\<exists>a m. cs_metadata bi' = Some a \<and> metadatas st' a = Some m \<and> bm_bundleVersion m = GetVersion b)"
proof (cases "cs_metadata bi \<noteq> None \<and> ow")
  case True
  then obtain a where a: "cs_metadata bi = Some a" and ow by auto
  from assms(4) [OF a] obtain m where "metadatas st a = Some m" and "pr (bm_bundleType m) = p"
    by (auto simp: good_metadata_def)
  with a \<open>ow\<close> assms st_frame_modify [OF assms(4) [OF a]] show ?thesis
    by (auto simp: complete_update_def update_post_def good_metadata_def metadatas_modify)
next
  case False
  let ?m = "\<lparr>bm_bundleType = GetBundleType b, bm_bundleVersion = GetVersion b, bm_transport = Some t\<rparr>"
  obtain a' where "allocMetadata ?m st = (a', st')"
    and "bi' = \<lparr>cs_bundle = Some b, cs_metadata = Some a'\<rparr>"
    using False assms(5)
    by (auto simp: complete_update_def split: option.splits prod.splits if_splits)
  with allocMetadata_post [OF assms(1) this(1), of pr p t ow] assms show ?thesis by auto
qed

lemma delta_updateMetadata_post:
  assumes "store_ok st" and "transports st t \<noteq> None" and "pr ty = p"
    and "\<And>a. ds_metadata bi = Some a \<Longrightarrow> good_metadata pr st p a"
    and "delta_updateMetadata bi ty v t ow st = (bi', st')"
  shows "update_post pr p ow st (ds_metadata bi') st' \<and> ds_lastReceivedTransport bi' = Some t
     \<and> ds_bundle bi' = ds_bundle bi \<and> ds_lowestPendingTransport bi' = ds_lowestPendingTransport bi
     \<and> ds_deltaLineHead bi' = ds_deltaLineHead bi
     \<and> (ow \<or> (\<forall>a. ds_metadata bi' = Some a \<longrightarrow> metadatas st a = None))"
proof (cases "ds_metadata bi")
  case None
  with assms(5) obtain a' where al: "allocMetadata \<lparr>bm_bundleType = ty, bm_bundleVersion = v, bm_transport = Some t\<rparr> st = (a', st')"
    and "bi' = bi\<lparr>ds_metadata := Some a', ds_lastReceivedTransport := Some t\<rparr>"
    by (auto simp: delta_updateMetadata_def split: prod.splits)
  with allocMetadata_post [OF assms(1) al, of pr p t ow] assms(2,3) show ?thesis by simp
next
  case (Some a)
  from assms(4) [OF Some] obtain m tr where m: "metadatas st a = Some m" "pr (bm_bundleType m) = p"
    "bm_transport m = Some tr" "transports st tr \<noteq> None"
    by (auto simp: good_metadata_def)
  show ?thesis
  proof (cases ow)
    case True
    with Some assms(5) have "bi' = bi\<lparr>ds_lastReceivedTransport := Some t\<rparr>"
      and "st' = modifyMetadata a (\<lambda>m. m\<lparr>bm_bundleVersion := v\<rparr>) st"
      by (auto simp: delta_updateMetadata_def)
    with True Some m assms(1) st_frame_modify [OF assms(4) [OF Some]] show ?thesis
      by (auto simp: update_post_def good_metadata_def metadatas_modify)
  next
    case False
    with Some m assms(5) obtain a' where
      al: "allocMetadata \<lparr>bm_bundleType = ty, bm_bundleVersion = v, bm_transport = Some tr\<rparr> st = (a', st')"
      and "bi' = bi\<lparr>ds_metadata := Some a', ds_lastReceivedTransport := Some t\<rparr>"
      by (auto simp: delta_updateMetadata_def split: prod.splits)
    with allocMetadata_post [OF assms(1) al, of pr p tr ow] assms(3) m(4) show ?thesis by simp
  qed
qed

lemma update_post_modify:
  assumes "update_post pr p ow st (Some a) st'" and "transports st t \<noteq> None"
    and "ow \<or> metadatas st a = None"
  shows "update_post pr p ow st (Some a) (modifyMetadata a (\<lambda>m. m\<lparr>bm_transport := Some t\<rparr>) st')"
proof -
  from assms(1) have good: "good_metadata pr st' p a" and "st_frame pr p st st'"
    by (auto simp: update_post_def)
  with st_frame_trans st_frame_modify [OF good]
  have "st_frame pr p st (modifyMetadata a (\<lambda>m. m\<lparr>bm_transport := Some t\<rparr>) st')" by blast
  moreover have "ow \<or> metadatas st \<subseteq>\<^sub>m metadatas (modifyMetadata a (\<lambda>m. m\<lparr>bm_transport := Some t\<rparr>) st')"
    using assms(1,3) by (auto simp: update_post_def map_le_def metadatas_modify)
  ultimately show ?thesis
    using assms(1,2) good by (auto simp: update_post_def good_metadata_def metadatas_modify)
qed

lemma delta_updateE:
  assumes "delta_update ord bi b t ow st = Inr (bi', st')"
  obtains merged bi1 st1 starts where
    "delta_updateMetadata (bi\<lparr>ds_bundle := Some merged\<rparr>) (GetBundleType b) (GetVersion b) t ow st = (bi1, st1)"
    "(bi', st') = (if starts
      then (bi1\<lparr>ds_deltaLineHead := Some (GetVersion b)\<rparr>,
            modifyMetadata (the (ds_metadata bi1)) (\<lambda>m. m\<lparr>bm_transport := Some t\<rparr>) st1)
      else (bi1, st1))"
    "ds_bundle bi = None \<Longrightarrow> starts"
proof -
  from assms obtain nd where b: "b = DeltaComplianceStatusBundle nd"
    by (auto simp: delta_update_def split: Bundle.splits)
  define starts where "starts = (case ds_bundle bi of None \<Rightarrow> True
    | Some o' \<Rightarrow> NewerThan (dcs_BaseBundleVersion nd) (Some (dcs_BaseBundleVersion o')))"
  from assms b obtain merged where
    "InheritEvents ord nd (map_option DeltaComplianceStatusBundle (ds_bundle bi)) = Inr merged"
    by (auto simp: delta_update_def Let_def split: sum.splits)
  moreover obtain bi1 st1 where
    up: "delta_updateMetadata (bi\<lparr>ds_bundle := Some merged\<rparr>) (GetBundleType b) (GetVersion b) t ow st = (bi1, st1)"
    by fastforce
  ultimately have "delta_update ord bi b t ow st = Inr (if starts
      then (bi1\<lparr>ds_deltaLineHead := Some (GetVersion b)\<rparr>,
            modifyMetadata (the (ds_metadata bi1)) (\<lambda>m. m\<lparr>bm_transport := Some t\<rparr>) st1)
      else (bi1, st1))"
    by (simp add: b delta_update_def starts_def)
  then have "(bi', st') = (if starts
      then (bi1\<lparr>ds_deltaLineHead := Some (GetVersion b)\<rparr>,
            modifyMetadata (the (ds_metadata bi1)) (\<lambda>m. m\<lparr>bm_transport := Some t\<rparr>) st1)
      else (bi1, st1))"
    using assms by simp
  moreover have "ds_bundle bi = None \<Longrightarrow> starts" by (simp add: starts_def)
  ultimately show ?thesis by (rule that [OF up])
qed

lemma delta_update_post:
  assumes "store_ok st" and "transports st t \<noteq> None" and "pr (GetBundleType b) = p"
    and "\<And>a. ds_metadata bi = Some a \<Longrightarrow> good_metadata pr st p a"
    and "delta_update ord bi b t ow st = Inr (bi', st')" and "delta_ok st bi"
  shows "update_post pr p ow st (ds_metadata bi') st' \<and> delta_ok st' bi'
     \<and> ds_lowestPendingTransport bi' = ds_lowestPendingTransport bi \<and> ds_bundle bi' \<noteq> None"
proof -
  from assms(5) obtain merged bi1 st1 starts where
    up: "delta_updateMetadata (bi\<lparr>ds_bundle := Some merged\<rparr>) (GetBundleType b) (GetVersion b) t ow st = (bi1, st1)"
    and res: "(bi', st') = (if starts
      then (bi1\<lparr>ds_deltaLineHead := Some (GetVersion b)\<rparr>,
            modifyMetadata (the (ds_metadata bi1)) (\<lambda>m. m\<lparr>bm_transport := Some t\<rparr>) st1)
      else (bi1, st1))"
    and starts: "ds_bundle bi = None \<Longrightarrow> starts"
    by (erule delta_updateE)
  from assms(4) have "\<And>a. ds_metadata (bi\<lparr>ds_bundle := Some merged\<rparr>) = Some a \<Longrightarrow> good_metadata pr st p a"
    by simp
  note post = delta_updateMetadata_post [OF assms(1-3) this up]
  then obtain a where a: "ds_metadata bi1 = Some a" by (auto simp: update_post_def)
  have "update_post pr p ow st (Some a) (modifyMetadata a (\<lambda>m. m\<lparr>bm_transport := Some t\<rparr>) st1)"
    using post a assms(2) by (intro update_post_modify) auto
  moreover have "transports st1 = transports st" using post by (auto simp: update_post_def)
  ultimately show ?thesis
    using res post a assms(2,6) starts by (cases starts) (auto simp: delta_ok_def)
qed

subsection \<open>The bundleInfo interface\<close>

text \<open>
  What the conflation unit relies on in \<open>update\<close> of the Go interface \<open>bundleInfo\<close>, whichever of
  the two implementations an element has: the store stays well formed, other elements' metadata is
  left alone, the metadata held afterwards is good, and unless overwriting was allowed no metadata
  object that existed before is changed.
\<close>

locale bundle_info =
  fixes held :: "'i \<Rightarrow> addr option"
    and upd :: "'i \<Rightarrow> Bundle \<Rightarrow> addr \<Rightarrow> bool \<Rightarrow> store \<Rightarrow> conflation_error + ('i \<times> store)"
    and ok :: "store \<Rightarrow> 'i \<Rightarrow> bool"
  assumes upd_law:
    "store_ok st \<Longrightarrow> transports st t \<noteq> None \<Longrightarrow> pr (GetBundleType b) = p
     \<Longrightarrow> (\<And>a. held i = Some a \<Longrightarrow> good_metadata pr st p a) \<Longrightarrow> ok st i
     \<Longrightarrow> upd i b t ow st = Inr (i', st') \<Longrightarrow> update_post pr p ow st (held i') st'"
begin

lemma upd_isolates:
  assumes "store_ok st" and "transports st t \<noteq> None"
    and "\<And>a. held i = Some a \<Longrightarrow> good_metadata pr st (pr (GetBundleType b)) a" and "ok st i"
    and "upd i b t False st = Inr (i', st')"
  shows "metadatas st \<subseteq>\<^sub>m metadatas st'"
  using upd_law [OF assms(1,2) refl assms(3-5)] by (simp add: update_post_def)

end

interpretation complete_info: bundle_info cs_metadata
    "\<lambda>bi b t ow st. Inr (complete_update bi b t ow st)" "\<lambda>_ _. True"
  by unfold_locales (use complete_update_post in \<open>fastforce\<close>)

interpretation delta_info: bundle_info ds_metadata "delta_update ord" delta_ok for ord
  by unfold_locales (use delta_update_post in \<open>fastforce\<close>)

lemma conflationElement_update_post:
  assumes "store_ok st" and "transports st t \<noteq> None" and "pr (GetBundleType b) = p"
    and ok: "elem_ok pr st p e" and acc: "acceptsBundle e b"
    and up: "conflationElement_update ord e b t st = Inr (e', st')"
  shows "update_post pr p (\<not> isInProcess e) st (infoMetadata (bundleInfo e')) st'"
    and "elem_ok pr st' p e'" and "isInProcess e' = isInProcess e"
    and "dependency e' = dependency e" and "lastProcessedBundleVersion e' = lastProcessedBundleVersion e"
    and "isInProcess e \<Longrightarrow> inflight_ok pr st a p e \<Longrightarrow> inflight_ok pr st' a p e'"
proof -
  from up obtain info where info: "info_update ord (bundleInfo e) b t (\<not> isInProcess e) st = Inr (info, st')"
    and e': "e' = e\<lparr>bundleInfo := info\<rparr>"
    by (auto simp: conflationElement_update_def split: sum.splits)
  show "isInProcess e' = isInProcess e" "dependency e' = dependency e"
    "lastProcessedBundleVersion e' = lastProcessedBundleVersion e"
    by (simp_all add: e')
  have "update_post pr p (\<not> isInProcess e) st (infoMetadata (bundleInfo e')) st' \<and> elem_ok pr st' p e'
     \<and> (isInProcess e \<and> inflight_ok pr st a p e \<longrightarrow> inflight_ok pr st' a p e')"
  proof (cases "bundleInfo e")
    case (CompleteInfo bi)
    with info obtain bi' where up: "complete_update bi b t (\<not> isInProcess e) st = (bi', st')"
      and i: "info = CompleteInfo bi'"
      by (cases "complete_update bi b t (\<not> isInProcess e) st") (auto simp: info_update_def)
    from ok CompleteInfo have "\<And>a. cs_metadata bi = Some a \<Longrightarrow> good_metadata pr st p a"
      by (simp add: elem_ok_def)
    note post = complete_update_post [OF assms(1-3) this up]
    with acc have "elem_ok pr st' p e'"
      by (auto simp: e' i elem_ok_def complete_ok_def update_post_def acceptsBundle_def)
    moreover have "inflight_ok pr st' a p e'" if "isInProcess e" "inflight_ok pr st a p e"
      using that post acc CompleteInfo
      by (auto simp: inflight_ok_def e' i update_post_def acceptsBundle_def good_metadata_def map_le_def dom_def)
    ultimately show ?thesis using post by (simp add: e' i)
  next
    case (DeltaInfo bi)
    with info obtain bi' where up: "delta_update ord bi b t (\<not> isInProcess e) st = Inr (bi', st')"
      and i: "info = DeltaInfo bi'"
      by (auto simp: info_update_def split: sum.splits)
    from ok DeltaInfo have "\<And>a. ds_metadata bi = Some a \<Longrightarrow> good_metadata pr st p a" and "delta_ok st bi"
      by (simp_all add: elem_ok_def)
    note post = delta_update_post [OF assms(1-3) this(1) up this(2)]
    then have "elem_ok pr st' p e'"
      by (auto simp: e' i elem_ok_def update_post_def)
    moreover have "inflight_ok pr st' a p e'" if "isInProcess e" "inflight_ok pr st a p e"
      using that post DeltaInfo
      by (fastforce simp: inflight_ok_def e' i update_post_def good_metadata_def map_le_def dom_def)
    ultimately show ?thesis using post by (simp add: e' i)
  qed
  then show "update_post pr p (\<not> isInProcess e) st (infoMetadata (bundleInfo e')) st'"
    "elem_ok pr st' p e'" "isInProcess e \<Longrightarrow> inflight_ok pr st a p e \<Longrightarrow> inflight_ok pr st' a p e'"
    by blast+
qed

subsection \<open>insert\<close>

lemma cu_inv_store:
  fixes cu :: "'h ConflationUnit"
  assumes "cu_inv cu infl" and "\<And>p. st_frame (priorityOf cu) p (cu_store cu) st'" and "store_ok st'"
  shows "cu_inv (cu\<lparr>cu_store := st'\<rparr>) infl"
proof -
  have "elem_ok (priorityOf cu) st' i e" if "elem_ok (priorityOf cu) (cu_store cu) i e" for i and e :: "'h conflationElement"
    by (rule st_frame_elem_ok [OF assms(2) [of "Suc i"] _ that]) simp
  moreover have "inflight_ok (priorityOf cu) st' a i e" if "inflight_ok (priorityOf cu) (cu_store cu) a i e" for a i and e :: "'h conflationElement"
    by (rule st_frame_inflight_ok [OF assms(2) [of "Suc i"] _ that]) simp
  ultimately show ?thesis
    using assms(1,3)
    by (cases infl) (auto simp: cu_inv_None cu_inv_Some cu_base_def wf_static_def)
qed

lemma cu_inv_put:
  assumes "cu_inv cu infl" and p: "p < length (priorityQueue cu)"
    and fr: "st_frame (priorityOf cu) p (cu_store cu) st'" and "store_ok st'"
    and "elem_ok (priorityOf cu) st' p e'" and "dependency e' = dependency (priorityQueue cu ! p)"
    and proc: "isInProcess e' = isInProcess (priorityQueue cu ! p)"
    and fl: "\<And>a. isInProcess e' \<Longrightarrow> inflight_ok (priorityOf cu) (cu_store cu) a p (priorityQueue cu ! p)
               \<Longrightarrow> inflight_ok (priorityOf cu) st' a p e'"
  shows "cu_inv ((setElement cu p e')\<lparr>cu_store := st'\<rparr>) infl"
proof (cases infl)
  case None
  with cu_base_put [OF cu_inv_base [OF assms(1)] assms(2-6)] assms(1) p proc show ?thesis
    by (auto simp: cu_inv_None nth_list_update)
next
  case (Some a)
  with assms(1) obtain i where i: "i < length (priorityQueue cu)"
    "\<forall>j<length (priorityQueue cu). isInProcess (priorityQueue cu ! j) \<longleftrightarrow> j = i"
    "inflight_ok (priorityOf cu) (cu_store cu) a i (priorityQueue cu ! i)" "\<not> isInReadyQueue cu"
    by (auto simp: cu_inv_Some)
  have "inflight_ok (priorityOf cu) st' a i ((priorityQueue cu)[p := e'] ! i)"
    using i st_frame_inflight_ok [OF fr _ i(3)] fl [of a] proc p by (cases "i = p") auto
  with i proc p have "\<exists>i<length (priorityQueue cu).
      (\<forall>j<length (priorityQueue cu). isInProcess ((priorityQueue cu)[p := e'] ! j) \<longleftrightarrow> j = i)
      \<and> inflight_ok (priorityOf cu) st' a i ((priorityQueue cu)[p := e'] ! i)"
    by (intro exI [of _ i]) (auto simp: nth_list_update)
  with Some cu_base_put [OF cu_inv_base [OF assms(1)] assms(2-6)] i(4) show ?thesis
    by (simp add: cu_inv_Some)
qed

lemma insert_inv:
  assumes "cu_inv cu infl"
  shows "\<exists>cu' rq'. ConflationUnit_insert ord me b tm cu rq = Some (cu', rq') \<and> cu_inv cu' infl"
proof -
  let ?p = "priorityOf cu (GetBundleType b)"
  let ?e = "priorityQueue cu ! ?p"
  obtain t st where al: "allocTransport tm (cu_store cu) = (t, st)" by fastforce
  note base = cu_inv_base [OF assms]
  from base have p: "?p < length (priorityQueue cu)" and "store_ok (cu_store cu)"
    by (auto simp: cu_base_def wf_static_def)
  with al have st: "store_ok st" "\<And>p. st_frame (priorityOf cu) p (cu_store cu) st" "transports st t \<noteq> None"
    using store_ok_alloc(2) [of "cu_store cu" tm] st_frame_alloc(2) [of "cu_store cu" _ _ tm]
    by (auto simp: allocTransport_def)
  let ?cu = "cu\<lparr>cu_store := st\<rparr>"
  have inv: "cu_inv ?cu infl" by (rule cu_inv_store [OF assms st(2,1)])
  show ?thesis
  proof (cases "acceptsBundle ?e b")
    case False
    with p inv al show ?thesis by (simp add: ConflationUnit_insert_def elementAt_def)
  next
    case acc: True
    show ?thesis
    proof (cases "conflationElement_update ord ?e b t st")
      case (Inl err)
      with p acc inv al show ?thesis by (simp add: ConflationUnit_insert_def elementAt_def)
    next
      case (Inr r)
      obtain e' st' where up: "conflationElement_update ord ?e b t st = Inr (e', st')"
        using Inr by (cases r) auto
      have ok: "elem_ok (priorityOf cu) st ?p ?e"
        using cu_inv_base [OF inv] p by (simp add: cu_base_def)
      note post = conflationElement_update_post [OF st(1,3) refl ok acc up]
      have "cu_inv ((setElement ?cu ?p e')\<lparr>cu_store := st'\<rparr>) infl"
        using post p by (intro cu_inv_put [OF inv]) (auto simp: update_post_def)
      moreover obtain cu' rq' where
        "addCUToReadyQueueIfNeeded me ((setElement cu ?p e')\<lparr>cu_store := st'\<rparr>) rq = (cu', rq')" by fastforce
      ultimately show ?thesis
        using p acc al up addCU_inv [of _ infl me rq cu' rq']
        by (simp add: ConflationUnit_insert_def elementAt_def setElement_def)
    qed
  qed
qed

subsection \<open>GetNext\<close>

lemma complete_dispatch:
  assumes "elem_ok pr st p e" and "bundleInfo e = CompleteInfo bi" and "cs_bundle bi = Some b"
  shows "\<exists>a. cs_metadata bi = Some a \<and> inflight_ok pr st a p e"
  using assms by (fastforce simp: elem_ok_def complete_ok_def inflight_ok_def)

lemma delta_dispatch:
  assumes "elem_ok pr st p e" and "bundleInfo e = DeltaInfo bi" and "ds_bundle bi = Some b" and "store_ok st"
  shows "\<exists>bi' a st'. delta_getMetadata bi st = Some (bi', a, st') \<and> store_ok st' \<and> st_frame pr p st st'
     \<and> elem_ok pr st' p (e\<lparr>isInProcess := True, bundleInfo := DeltaInfo bi'\<rparr>)
     \<and> inflight_ok pr st' a p (e\<lparr>isInProcess := True, bundleInfo := DeltaInfo bi'\<rparr>)"
proof -
  from assms obtain a where a: "ds_metadata bi = Some a" and good: "good_metadata pr st p a"
    and ok: "delta_ok st bi"
    by (auto simp: elem_ok_def delta_ok_def)
  from good obtain m where m: "metadatas st a = Some m" by (auto simp: good_metadata_def)
  have gm: "delta_getMetadata bi st = Some (bi\<lparr>ds_lastDispatchedBundle := ds_bundle bi,
      ds_lowestPendingTransport := bm_transport m, ds_bundle := None\<rparr>, a,
      modifyMetadata a (\<lambda>m. m\<lparr>bm_transport := ds_lastReceivedTransport bi\<rparr>) st)"
    by (simp add: delta_getMetadata_def a m)
  from ok a obtain t where "ds_lastReceivedTransport bi = Some t" "transports st t \<noteq> None"
    by (auto simp: delta_ok_def)
  then have "good_metadata pr (modifyMetadata a (\<lambda>m. m\<lparr>bm_transport := ds_lastReceivedTransport bi\<rparr>) st) p a"
    using good by (auto simp: good_metadata_def metadatas_modify)
  then show ?thesis
    using good m a ok st_frame_modify [OF good] assms(4) unfolding gm
    by (auto simp: elem_ok_def inflight_ok_def delta_ok_def good_metadata_def)
qed

lemma GetNext_inv:
  assumes inv: "cu_inv cu None" and ready: "getNextReadyBundlePriority cu = Some p"
  shows "\<exists>b a cu'. GetNext cu = Some (Inr (\<lparr>nb_bundle = b, nb_metadata = a,
        nb_handler = handlerFunction (priorityQueue cu ! p)\<rparr>, cu'))
     \<and> getBundle (bundleInfo (priorityQueue cu ! p)) = Some b
     \<and> cu_inv cu' (Some a)"
proof -
  let ?e = "priorityQueue cu ! p"
  from getNextReady_SomeD [OF ready] obtain b where p: "p < length (priorityQueue cu)"
    and b: "getBundle (bundleInfo ?e) = Some b"
    by (auto simp: readyElement_def)
  note base = cu_inv_base [OF inv]
  from base p have ok: "elem_ok (priorityOf cu) (cu_store cu) p ?e" and sok: "store_ok (cu_store cu)"
    by (auto simp: cu_base_def)
  have "\<exists>info a st'. info_getMetadata (bundleInfo ?e) (cu_store cu) = Some (info, Some a, st') \<and> store_ok st'
     \<and> st_frame (priorityOf cu) p (cu_store cu) st'
     \<and> elem_ok (priorityOf cu) st' p (?e\<lparr>isInProcess := True, bundleInfo := info\<rparr>)
     \<and> inflight_ok (priorityOf cu) st' a p (?e\<lparr>isInProcess := True, bundleInfo := info\<rparr>)"
  proof (cases "bundleInfo ?e")
    case (CompleteInfo bi)
    with b obtain b' where "cs_bundle bi = Some b'" by auto
    from complete_dispatch [OF ok CompleteInfo this] CompleteInfo ok sok show ?thesis
      by (auto simp: info_getMetadata_def elem_ok_def inflight_ok_def)
  next
    case (DeltaInfo bi)
    with b obtain b' where "ds_bundle bi = Some b'" by auto
    from delta_dispatch [OF ok DeltaInfo this sok] DeltaInfo show ?thesis
      by (fastforce simp: info_getMetadata_def)
  qed
  then obtain info a st' where im: "info_getMetadata (bundleInfo ?e) (cu_store cu) = Some (info, Some a, st')"
    and st': "store_ok st'" "st_frame (priorityOf cu) p (cu_store cu) st'"
    and e': "elem_ok (priorityOf cu) st' p (?e\<lparr>isInProcess := True, bundleInfo := info\<rparr>)"
      "inflight_ok (priorityOf cu) st' a p (?e\<lparr>isInProcess := True, bundleInfo := info\<rparr>)"
    by blast
  let ?cu' = "(setElement cu p (?e\<lparr>isInProcess := True, bundleInfo := info\<rparr>))\<lparr>cu_store := st'\<rparr>"
  have "cu_base ?cu'"
    by (rule cu_base_put [OF base p st'(2,1) e'(1)]) simp
  moreover have "\<exists>i<length (priorityQueue cu). (\<forall>j<length (priorityQueue cu).
      isInProcess (priorityQueue ?cu' ! j) \<longleftrightarrow> j = i) \<and> inflight_ok (priorityOf cu) st' a i (priorityQueue ?cu' ! i)"
    using inv p e'(2) by (intro exI [of _ p]) (auto simp: cu_inv_None nth_list_update)
  ultimately have "cu_inv (?cu'\<lparr>isInReadyQueue := False\<rparr>) (Some a)"
    by (simp add: cu_inv_Some)
  moreover have "GetNext cu = Some (Inr (\<lparr>nb_bundle = b, nb_metadata = a, nb_handler = handlerFunction ?e\<rparr>,
      ?cu'\<lparr>isInReadyQueue := False\<rparr>))"
    by (simp add: GetNext_def ready elementAt_def p b im)
  ultimately show ?thesis using b by blast
qed

lemma GetNext_nothing: "getNextReadyBundlePriority cu = None \<Longrightarrow> GetNext cu = Some (Inl errNoReadyBundle)"
  by (simp add: GetNext_def)

subsection \<open>ReportResult\<close>

lemma cu_inv_finish:
  assumes inv: "cu_inv cu (Some a)" and p: "p < length (priorityQueue cu)" and "isInProcess (priorityQueue cu ! p)"
    and "st_frame (priorityOf cu) p (cu_store cu) st'" and "store_ok st'"
    and "elem_ok (priorityOf cu) st' p e'" and "dependency e' = dependency (priorityQueue cu ! p)"
    and "\<not> isInProcess e'"
  shows "cu_inv ((setElement cu p e')\<lparr>cu_store := st'\<rparr>) None"
  using cu_base_put [OF cu_inv_base [OF inv] p assms(4-7)] assms
  by (auto simp: cu_inv_None cu_inv_Some nth_list_update)

lemma delta_handleFailure_ok:
  assumes good: "good_metadata pr st p a" and ok: "elem_ok pr st p e" and "bundleInfo e = DeltaInfo bi"
    and m: "ds_metadata bi \<noteq> None" and low: "ds_lowestPendingTransport bi = Some t" "transports st t \<noteq> None"
    and "store_ok st"
  shows "\<exists>bi' st'. delta_handleFailure ord bi a st = Some (bi', st') \<and> store_ok st' \<and> st_frame pr p st st'
     \<and> elem_ok pr st' p (e\<lparr>isInProcess := False, bundleInfo := DeltaInfo bi'\<rparr>)"
proof -
  from m obtain c where c: "ds_metadata bi = Some c" by auto
  with ok assms(3) have gc: "good_metadata pr st p c" and dok: "delta_ok st bi"
    by (auto simp: elem_ok_def)
  from good obtain failed where f: "metadatas st a = Some failed" by (auto simp: good_metadata_def)
  from dok c obtain head where h: "ds_deltaLineHead bi = Some head" by (auto simp: delta_ok_def)
  let ?st = "modifyMetadata c (\<lambda>m. m\<lparr>bm_transport := Some t\<rparr>) st"
  have g: "good_metadata pr ?st p c" using gc low(2) by (auto simp: good_metadata_def metadatas_modify)
  note facts = assms(7) st_frame_modify [OF gc] g gc dok c f h low
  have lifted: "elem_ok pr ?st p (e\<lparr>isInProcess := False, bundleInfo := DeltaInfo (bi\<lparr>ds_lastDispatchedBundle := None,
      ds_lowestPendingTransport := None, ds_bundle := x\<rparr>)\<rparr>)" for x
    using g dok c by (auto simp: elem_ok_def delta_ok_def)
  have kept: "elem_ok pr st p (e\<lparr>isInProcess := False, bundleInfo := DeltaInfo (bi\<lparr>ds_lastDispatchedBundle := None,
      ds_lowestPendingTransport := None\<rparr>)\<rparr>)"
    using gc dok c by (auto simp: elem_ok_def delta_ok_def)
  show ?thesis
    using facts lifted kept
    by (auto simp: delta_handleFailure_def Let_def split: option.split sum.split)
qed

lemma complete_processed_ok:
  assumes "inflight_ok pr st a p e" and ok: "elem_ok pr st p e" and bi: "bundleInfo e = CompleteInfo bi"
    and m: "metadatas st a = Some m" and "store_ok st"
  shows "\<exists>bi' st'. complete_markAsProcessed bi a st = Some (bi', st') \<and> store_ok st' \<and> st_frame pr p st st'
     \<and> elem_ok pr st' p (e\<lparr>isInProcess := False, lastProcessedBundleVersion := bm_bundleVersion m,
          bundleInfo := CompleteInfo bi'\<rparr>)"
proof -
  from assms(1) bi m obtain b t where b: "cs_bundle bi = Some b" and le: "bm_bundleVersion m \<le> GetVersion b"
    and t: "bm_transport m = Some t"
    by (auto simp: inflight_ok_def good_metadata_def)
  from ok bi b obtain c mc where c: "cs_metadata bi = Some c" "metadatas st c = Some mc"
    "bm_bundleVersion mc = GetVersion b" and gc: "good_metadata pr st p c"
    by (auto simp: elem_ok_def complete_ok_def)
  have "good_metadata pr (markTransport t st) p c" using gc by (auto simp: good_metadata_def)
  with assms(5) b c t m le show ?thesis
    by (auto simp: complete_markAsProcessed_def elem_ok_def complete_ok_def)
qed

lemma delta_processed_ok:
  assumes "inflight_ok pr st a p e" and "elem_ok pr st p e" and "bundleInfo e = DeltaInfo bi"
    and "store_ok st"
  shows "\<exists>bi' st'. delta_markAsProcessed bi a st = Some (bi', st') \<and> store_ok st' \<and> st_frame pr p st st'
     \<and> elem_ok pr st' p (e\<lparr>isInProcess := False, lastProcessedBundleVersion := v, bundleInfo := DeltaInfo bi'\<rparr>)"
proof -
  from assms(1) obtain m t where "metadatas st a = Some m" "bm_transport m = Some t"
    by (auto simp: inflight_ok_def good_metadata_def)
  with assms show ?thesis
    by (auto simp: delta_markAsProcessed_def elem_ok_def delta_ok_def)
qed

lemma reportElement_failed:
  assumes fl: "inflight_ok pr st a p e" and ok: "elem_ok pr st p e" and "store_ok st"
  shows "\<exists>e' st'. reportElement ord a m True e st = Some (e', st') \<and> store_ok st' \<and> st_frame pr p st st'
     \<and> elem_ok pr st' p e' \<and> \<not> isInProcess e' \<and> dependency e' = dependency e
     \<and> lastProcessedBundleVersion e' = lastProcessedBundleVersion e"
proof (cases "bundleInfo e")
  case (CompleteInfo bi)
  with assms show ?thesis by (simp add: reportElement_def elem_ok_def)
next
  case (DeltaInfo bi)
  with fl obtain t where t: "ds_lowestPendingTransport bi = Some t" "transports st t \<noteq> None"
    and "ds_metadata bi \<noteq> None" and "good_metadata pr st p a"
    by (auto simp: inflight_ok_def)
  from delta_handleFailure_ok [OF this(4) ok DeltaInfo this(3) t assms(3), of ord]
  obtain bi' st' where "delta_handleFailure ord bi a st = Some (bi', st')" "store_ok st'" "st_frame pr p st st'"
    "elem_ok pr st' p (e\<lparr>isInProcess := False, bundleInfo := DeltaInfo bi'\<rparr>)"
    by blast
  with DeltaInfo show ?thesis by (simp add: reportElement_def)
qed

lemma reportElement_succeeded:
  assumes fl: "inflight_ok pr st a p e" and ok: "elem_ok pr st p e" and "store_ok st"
    and m: "metadatas st a = Some m"
  shows "\<exists>e' st'. reportElement ord a m False e st = Some (e', st') \<and> store_ok st' \<and> st_frame pr p st st'
     \<and> elem_ok pr st' p e' \<and> \<not> isInProcess e' \<and> dependency e' = dependency e
     \<and> lastProcessedBundleVersion e' = max (lastProcessedBundleVersion e) (bm_bundleVersion m)"
proof (cases "bundleInfo e")
  case (CompleteInfo bi)
  with fl m have "lastProcessedBundleVersion e < bm_bundleVersion m" by (auto simp: inflight_ok_def)
  moreover obtain bi' st' where "complete_markAsProcessed bi a st = Some (bi', st')" "store_ok st'"
    "st_frame pr p st st'" "elem_ok pr st' p (e\<lparr>isInProcess := False,
      lastProcessedBundleVersion := bm_bundleVersion m, bundleInfo := CompleteInfo bi'\<rparr>)"
    using complete_processed_ok [OF fl ok CompleteInfo m assms(3)] by blast
  ultimately show ?thesis
    using CompleteInfo by (simp add: reportElement_def info_markAsProcessed_def max.absorb2)
next
  case (DeltaInfo bi)
  let ?v = "max (lastProcessedBundleVersion e) (bm_bundleVersion m)"
  obtain bi' st' where d: "delta_markAsProcessed bi a st = Some (bi', st')" "store_ok st'"
    "st_frame pr p st st'" "elem_ok pr st' p (e\<lparr>isInProcess := False,
      lastProcessedBundleVersion := ?v, bundleInfo := DeltaInfo bi'\<rparr>)"
    using delta_processed_ok [OF fl ok DeltaInfo assms(3), of ?v] by blast
  have "reportElement ord a m False e st = Some (e\<lparr>isInProcess := False,
      lastProcessedBundleVersion := ?v, bundleInfo := DeltaInfo bi'\<rparr>, st')"
    using d(1) DeltaInfo
    by (cases e; cases "lastProcessedBundleVersion e < bm_bundleVersion m")
      (simp_all add: reportElement_def info_markAsProcessed_def Let_def max.absorb1 max.absorb2)
  with d show ?thesis by simp
qed

text \<open>
  What \<open>ReportResult\<close> does to the element in process; the unit is then announced if needed.
  The last processed version only moves up.
\<close>

lemma ReportResult_step:
  assumes inv: "cu_inv cu (Some a)"
  obtains p e' st' m where "p < length (priorityQueue cu)" "metadatas (cu_store cu) a = Some m"
    "p = priorityOf cu (bm_bundleType m)" "isInProcess (priorityQueue cu ! p)"
    "reportElement ord a m failed (priorityQueue cu ! p) (cu_store cu) = Some (e', st')"
    "ReportResult ord me a failed cu rq
       = Some (addCUToReadyQueueIfNeeded me ((setElement cu p e')\<lparr>cu_store := st'\<rparr>) rq)"
    "cu_inv ((setElement cu p e')\<lparr>cu_store := st'\<rparr>) None"
    "lastProcessedBundleVersion e' = (if failed then lastProcessedBundleVersion (priorityQueue cu ! p)
       else max (lastProcessedBundleVersion (priorityQueue cu ! p)) (bm_bundleVersion m))"
proof -
  from inv obtain p where p: "p < length (priorityQueue cu)" and proc: "isInProcess (priorityQueue cu ! p)"
    and fl: "inflight_ok (priorityOf cu) (cu_store cu) a p (priorityQueue cu ! p)"
    by (auto simp: cu_inv_Some)
  from cu_inv_base [OF inv] p have ok: "elem_ok (priorityOf cu) (cu_store cu) p (priorityQueue cu ! p)"
    and sok: "store_ok (cu_store cu)"
    by (auto simp: cu_base_def)
  from fl obtain m where m: "metadatas (cu_store cu) a = Some m" and pm: "p = priorityOf cu (bm_bundleType m)"
    by (auto simp: inflight_ok_def good_metadata_def)
  obtain e' st' where e': "reportElement ord a m failed (priorityQueue cu ! p) (cu_store cu) = Some (e', st')"
    "store_ok st'" "st_frame (priorityOf cu) p (cu_store cu) st'" "elem_ok (priorityOf cu) st' p e'"
    "\<not> isInProcess e'" "dependency e' = dependency (priorityQueue cu ! p)"
    "lastProcessedBundleVersion e' = (if failed then lastProcessedBundleVersion (priorityQueue cu ! p)
       else max (lastProcessedBundleVersion (priorityQueue cu ! p)) (bm_bundleVersion m))"
    using reportElement_failed [OF fl ok sok, of ord m] reportElement_succeeded [OF fl ok sok m, of ord]
    by (cases failed) auto
  have "ReportResult ord me a failed cu rq
       = Some (addCUToReadyQueueIfNeeded me ((setElement cu p e')\<lparr>cu_store := st'\<rparr>) rq)"
    using m pm p e'(1) by (simp add: ReportResult_def elementAt_def)
  from that [OF p m pm proc e'(1) this cu_inv_finish [OF inv p proc e'(3,2,4,6,5)] e'(7)] show ?thesis .
qed

lemma ReportResult_inv:
  assumes "cu_inv cu (Some a)"
  shows "\<exists>cu' rq'. ReportResult ord me a failed cu rq = Some (cu', rq') \<and> cu_inv cu' None"
proof -
  from assms obtain p e' st' where
    "ReportResult ord me a failed cu rq
       = Some (addCUToReadyQueueIfNeeded me ((setElement cu p e')\<lparr>cu_store := st'\<rparr>) rq)"
    "cu_inv ((setElement cu p e')\<lparr>cu_store := st'\<rparr>) None"
    by (rule ReportResult_step)
  then show ?thesis
    by (cases "addCUToReadyQueueIfNeeded me ((setElement cu p e')\<lparr>cu_store := st'\<rparr>) rq")
      (auto dest: addCU_inv)
qed

end
