(* ===== verification/GH_ConflationProps.thy ===== *)
theory GH_ConflationProps
  imports GH_ConflationInv
begin

text \<open>
  Well-formed registrations give a unit that satisfies the invariant, and the properties of the
  operations of a conflation unit that rest on it: what \<open>GetNext\<close> hands out, which inserts are
  ignored, that a job keeps its metadata while newer bundles arrive, what a failure leaves behind.
\<close>

section \<open>Registrations\<close>

definition wf_registrations :: "'h ConflationRegistration list \<Rightarrow> bool" where
  "wf_registrations rs \<longleftrightarrow>
     rs \<noteq> [] \<and> set (map reg_priority rs) = {0..<length rs} \<and> distinct (map reg_bundleType rs)
     \<and> (\<forall>r\<in>set rs. \<forall>d. reg_dependency r = Some d \<longrightarrow>
          (\<exists>r'\<in>set rs. reg_bundleType r' = dep_BundleType d \<and> reg_priority r' < reg_priority r))"

lemma fillPriorityQueue_ok:
  assumes "distinct (map reg_priority rs)" and "\<forall>r\<in>set rs. reg_priority r < length slots"
  shows "\<exists>slots'. fillPriorityQueue rs slots = Some slots' \<and> length slots' = length slots
     \<and> (\<forall>r\<in>set rs. slots' ! reg_priority r = Some (newConflationElement r))
     \<and> (\<forall>i. i \<notin> reg_priority ` set rs \<longrightarrow> slots' ! i = slots ! i)"
  using assms
proof (induction rs arbitrary: slots)
  case Nil
  then show ?case by simp
next
  case (Cons r rs)
  let ?slots = "slots[reg_priority r := Some (newConflationElement r)]"
  from Cons.prems obtain slots' where s: "fillPriorityQueue rs ?slots = Some slots'"
    "length slots' = length slots" "\<forall>r\<in>set rs. slots' ! reg_priority r = Some (newConflationElement r)"
    "\<forall>i. i \<notin> reg_priority ` set rs \<longrightarrow> slots' ! i = ?slots ! i"
    using Cons.IH [of ?slots] by auto
  from Cons.prems(1) have "reg_priority r \<notin> reg_priority ` set rs" by simp
  with s(4) Cons.prems(2) have "slots' ! reg_priority r = Some (newConflationElement r)" by simp
  with s Cons.prems(2) show ?case by auto
qed

lemma those_all_Some: "\<forall>x\<in>set xs. x \<noteq> None \<Longrightarrow> those xs = Some (map the xs)"
  by (induction xs) auto

lemma priority_index:
  assumes "distinct (map reg_bundleType rs)"
  shows "map_of (fold (\<lambda>r. AList.update (reg_bundleType r) (reg_priority r)) rs m) ty
     = (case find (\<lambda>r. reg_bundleType r = ty) rs of Some r \<Rightarrow> Some (reg_priority r) | None \<Rightarrow> map_of m ty)"
  using assms
proof (induction rs arbitrary: m)
  case Nil
  then show ?case by simp
next
  case (Cons r rs)
  then have "\<And>r'. r' \<in> set rs \<Longrightarrow> reg_bundleType r' \<noteq> reg_bundleType r" by (auto dest: notin_imageD)
  then have "find (\<lambda>r'. reg_bundleType r' = reg_bundleType r) rs = None"
    by (simp add: find_None_iff)
  with Cons show ?case by (auto split: option.splits)
qed

lemma find_key:
  "distinct (map f rs) \<Longrightarrow> r \<in> set rs \<Longrightarrow> find (\<lambda>x. f x = f r) rs = Some r"
proof (induction rs)
  case (Cons x xs)
  then have "f x = f r \<Longrightarrow> x = r" by (auto dest: notin_imageD)
  with Cons show ?case by auto
qed simp

lemma newConflationUnit_shape:
  assumes wf: "wf_registrations rs"
  obtains q where "newConflationUnit rs b = Some \<lparr>priorityQueue = q,
      bundleTypeToPriority = fold (\<lambda>r. AList.update (reg_bundleType r) (reg_priority r)) rs [],
      requireInitialDependencyChecks = b, isInReadyQueue = False, cu_store = empty_store\<rparr>"
    "length q = length rs" "\<And>r. r \<in> set rs \<Longrightarrow> q ! reg_priority r = newConflationElement r"
proof -
  from wf have pr: "set (map reg_priority rs) = {0..<length rs}" by (simp add: wf_registrations_def)
  have "card (set (map reg_priority rs)) = length (map reg_priority rs)" unfolding pr by simp
  then have "distinct (map reg_priority rs)" by (rule card_distinct)
  moreover have "\<forall>r\<in>set rs. reg_priority r < length (replicate (length rs) None)" using pr by force
  ultimately obtain slots where s: "fillPriorityQueue rs (replicate (length rs) None) = Some slots"
    "length slots = length rs" "\<forall>r\<in>set rs. slots ! reg_priority r = Some (newConflationElement r)"
    using fillPriorityQueue_ok [of rs "replicate (length rs) None"] by fastforce
  have "x \<noteq> None" if "x \<in> set slots" for x
  proof -
    from that obtain i where "i < length rs" and x: "x = slots ! i" using s(2) by (metis in_set_conv_nth)
    with pr have "i \<in> reg_priority ` set rs" by auto
    with s(3) x show ?thesis by auto
  qed
  then have th: "those slots = Some (map the slots)" by (auto intro: those_all_Some)
  have "map the slots ! reg_priority r = newConflationElement r" if "r \<in> set rs" for r
  proof -
    from that have "reg_priority r \<in> set (map reg_priority rs)" by simp
    then have "reg_priority r < length slots" unfolding pr s(2) by simp
    with s(3) that show ?thesis by simp
  qed
  then show ?thesis
    using s th by (intro that [of "map the slots"]) (simp_all add: newConflationUnit_def)
qed

lemma newConflationUnit_inv:
  assumes wf: "wf_registrations rs"
  shows "\<exists>cu. newConflationUnit rs b = Some cu \<and> cu_inv cu None \<and> \<not> isInReadyQueue cu"
proof -
  obtain q where cu: "newConflationUnit rs b = Some \<lparr>priorityQueue = q,
      bundleTypeToPriority = fold (\<lambda>r. AList.update (reg_bundleType r) (reg_priority r)) rs [],
      requireInitialDependencyChecks = b, isInReadyQueue = False, cu_store = empty_store\<rparr>"
    and len: "length q = length rs" and q: "\<And>r. r \<in> set rs \<Longrightarrow> q ! reg_priority r = newConflationElement r"
    using newConflationUnit_shape [OF wf, of b] by metis
  let ?cu = "\<lparr>priorityQueue = q,
      bundleTypeToPriority = fold (\<lambda>r. AList.update (reg_bundleType r) (reg_priority r)) rs [],
      requireInitialDependencyChecks = b, isInReadyQueue = False, cu_store = empty_store\<rparr>"
  from wf have d: "distinct (map reg_bundleType rs)" and ne: "rs \<noteq> []"
    and pr: "reg_priority ` set rs = {0..<length rs}" by (auto simp: wf_registrations_def)
  have prio: "priorityOf ?cu ty = (case find (\<lambda>r. reg_bundleType r = ty) rs of Some r \<Rightarrow> reg_priority r | None \<Rightarrow> 0)" for ty
    by (simp add: priorityOf_def priority_index [OF d] split: option.split)
  have bound: "priorityOf ?cu ty < length q" for ty
    using ne pr by (force simp: prio len find_Some_iff split: option.split)
  have at: "\<exists>r\<in>set rs. reg_priority r = i \<and> q ! i = newConflationElement r" if "i < length q" for i
  proof -
    from that pr len have "i \<in> reg_priority ` set rs" by simp
    with q show ?thesis by auto
  qed
  have static: "wf_static ?cu"
    unfolding wf_static_def
  proof (intro conjI allI impI)
    show "priorityOf ?cu t < length (priorityQueue ?cu)" for t using bound by simp
    fix i dep
    assume a: "i < length (priorityQueue ?cu) \<and> dependency (priorityQueue ?cu ! i) = Some dep"
    then obtain r where r: "r \<in> set rs" "reg_priority r = i" "q ! i = newConflationElement r"
      using at [of i] by auto
    with a have "reg_dependency r = Some dep" by (simp add: newConflationElement_def)
    with wf r obtain r' where "r' \<in> set rs" "reg_bundleType r' = dep_BundleType dep" "reg_priority r' < i"
      unfolding wf_registrations_def by blast
    with find_key [OF d] show "priorityOf ?cu (dep_BundleType dep) < i" by (fastforce simp: prio)
  qed
  have ok: "elem_ok pr st i (newConflationElement r)" for pr st i and r :: "'a ConflationRegistration"
    by (cases "reg_syncMode r")
      (simp_all add: elem_ok_def newConflationElement_def newCompleteStateBundleInfo_def
        newDeltaStateBundleInfo_def complete_ok_def delta_ok_def)
  have "cu_inv ?cu None"
    using static at ok
    by (fastforce simp: cu_inv_None cu_base_def store_ok_def empty_store_def newConflationElement_def)
  with cu show ?thesis by simp
qed

section \<open>A sample unit\<close>

text \<open>Three registrations in the shape of those of the policies syncer, and a unit that received one bundle.\<close>

definition sample_registrations :: "nat ConflationRegistration list" where
  "sample_registrations =
     [NewConflationRegistration 0 CompleteStateMode ''ClustersPerPolicyBundle'' 7,
      WithDependency \<lparr>dep_BundleType = ''ClustersPerPolicyBundle'', dep_DependencyType = ExactMatch\<rparr>
        (NewConflationRegistration 1 CompleteStateMode ''CompleteComplianceStatusBundle'' 8),
      WithDependency \<lparr>dep_BundleType = ''CompleteComplianceStatusBundle'', dep_DependencyType = ExactMatch\<rparr>
        (NewConflationRegistration 2 DeltaStateMode ''DeltaComplianceStatusBundle'' 9)]"

definition sample_cpp :: "uint64 \<Rightarrow> Bundle" where
  "sample_cpp g = ClustersPerPolicyBundle
     \<lparr>cpp_Objects = [], cpp_LeafHubName = ''hub1'', cpp_BundleVersion = BundleVersion 1 g\<rparr>"

definition sample_new_unit :: "nat ConflationUnit" where
  "sample_new_unit = the (newConflationUnit sample_registrations True)"

definition sample_insert :: "Bundle \<Rightarrow> nat ConflationUnit \<Rightarrow> nat ConflationUnit" where
  "sample_insert b cu = fst (the (ConflationUnit_insert (\<lambda>ks. ks) ''hub1'' b (newKafkaBundleMetadata 0 5) cu []))"

definition sample_next :: "nat ConflationUnit \<Rightarrow> nat next_bundle \<times> nat ConflationUnit" where
  "sample_next cu = projr (the (GetNext cu))"

lemma wf_sample_registrations: "wf_registrations sample_registrations"
proof -
  have "{0, Suc 0, 2} = {0..<Suc (Suc (Suc 0))}" by auto
  then show ?thesis
    by (simp add: wf_registrations_def sample_registrations_def NewConflationRegistration_def WithDependency_def)
qed

lemma sample_new_unit_inv: "cu_inv sample_new_unit None"
  using newConflationUnit_inv [OF wf_sample_registrations, of True] by (auto simp: sample_new_unit_def)

lemma sample_insert_inv: "cu_inv cu infl \<Longrightarrow> cu_inv (sample_insert b cu) infl"
  using insert_inv [of cu infl "\<lambda>ks. ks" "''hub1''" b "newKafkaBundleMetadata 0 5" "[]"]
  by (auto simp: sample_insert_def)

lemma sample_next_inv:
  assumes "cu_inv cu None" and "getNextReadyBundlePriority cu = Some p"
  shows "GetNext cu = Some (Inr (sample_next cu)) \<and> cu_inv (snd (sample_next cu)) (Some (nb_metadata (fst (sample_next cu))))"
  using GetNext_inv [OF assms] by (auto simp: sample_next_def)

lemma sample_ready: "getNextReadyBundlePriority (sample_insert (sample_cpp 1) sample_new_unit) = Some 0"
  by code_simp

definition sample_waiting :: "nat ConflationUnit" where
  "sample_waiting = sample_insert (sample_cpp 1) sample_new_unit"

definition sample_busy :: "nat ConflationUnit" where
  "sample_busy = snd (sample_next sample_waiting)"

definition sample_job :: "nat next_bundle" where
  "sample_job = fst (sample_next sample_waiting)"

lemma sample_waiting_inv: "cu_inv sample_waiting None"
  by (simp add: sample_waiting_def sample_insert_inv sample_new_unit_inv)

lemma sample_waiting_next: "GetNext sample_waiting = Some (Inr (sample_job, sample_busy))"
  and sample_busy_inv: "cu_inv sample_busy (Some (nb_metadata sample_job))"
  using sample_next_inv [OF sample_waiting_inv, of 0] sample_ready
  by (simp_all add: sample_busy_def sample_job_def sample_waiting_def)

section \<open>What GetNext hands out\<close>

text \<open>
  \<open>GetNext\<close> hands out the bundle of the highest priority that is ready: the bundle held by an
  element whose dependency is satisfied, with the handler registered for it, while no element of a
  higher priority is ready. Afterwards that element and no other is in process and the unit is not
  marked as being in the ready queue.
\<close>

theorem GetNext_highest_ready:
  assumes "cu_inv cu None" and "GetNext cu = Some (Inr (nb, cu'))"
  shows "\<exists>p<length (priorityQueue cu).
       getBundle (bundleInfo (priorityQueue cu ! p)) = Some (nb_bundle nb)
     \<and> nb_handler nb = handlerFunction (priorityQueue cu ! p)
     \<and> checkDependency cu (priorityQueue cu ! p)
     \<and> (\<forall>j<p. \<not> readyElement cu (priorityQueue cu ! j))
     \<and> (\<forall>j<length (priorityQueue cu). isInProcess (priorityQueue cu' ! j) \<longleftrightarrow> j = p)
     \<and> \<not> isInReadyQueue cu'"
proof -
  from assms(2) obtain p where p: "getNextReadyBundlePriority cu = Some p"
    by (auto simp: GetNext_def split: option.splits)
  note ready = getNextReady_SomeD [OF p]
  from GetNext_inv [OF assms(1) p] assms(2) have nb: "getBundle (bundleInfo (priorityQueue cu ! p)) = Some (nb_bundle nb)"
    "nb_handler nb = handlerFunction (priorityQueue cu ! p)"
    by auto
  from assms(2) p ready obtain info st where
    "cu' = (setElement cu p ((priorityQueue cu ! p)\<lparr>isInProcess := True, bundleInfo := info\<rparr>))
             \<lparr>isInReadyQueue := False, cu_store := st\<rparr>"
    by (auto simp: GetNext_def elementAt_Some bind_eq_Some_conv split: prod.splits)
  with assms(1) ready nb show ?thesis
    by (intro exI [of _ p]) (auto simp: readyElement_def cu_inv_None nth_list_update)
qed

theorem GetNext_highest_ready_witness:
  "\<exists>p<length (priorityQueue sample_waiting).
       getBundle (bundleInfo (priorityQueue sample_waiting ! p)) = Some (nb_bundle sample_job)
     \<and> nb_handler sample_job = handlerFunction (priorityQueue sample_waiting ! p)
     \<and> checkDependency sample_waiting (priorityQueue sample_waiting ! p)
     \<and> \<not> isInReadyQueue sample_busy"
  using GetNext_highest_ready [OF sample_waiting_inv sample_waiting_next] by blast

section \<open>What insert changes\<close>

lemma addCU_fields:
  assumes "addCUToReadyQueueIfNeeded me cu rq = (cu', rq')"
  shows "priorityQueue cu' = priorityQueue cu" "cu_store cu' = cu_store cu"
    "bundleTypeToPriority cu' = bundleTypeToPriority cu"
    "requireInitialDependencyChecks cu' = requireInitialDependencyChecks cu"
    "rq' = (if isInReadyQueue cu' \<and> \<not> isInReadyQueue cu then rq @ [me] else rq)"
    "isInReadyQueue cu \<Longrightarrow> isInReadyQueue cu'"
  using assms by (auto simp: addCUToReadyQueueIfNeeded_def Enqueue_def split: if_splits option.splits)

lemma insert_cases:
  assumes "ConflationUnit_insert ord me b tm cu rq = Some (cu', rq')"
  obtains (ignored) t st where "allocTransport tm (cu_store cu) = (t, st)" "cu' = cu\<lparr>cu_store := st\<rparr>" "rq' = rq"
  | (updated) t st e e' st' where "allocTransport tm (cu_store cu) = (t, st)"
      "elementAt cu (priorityOf cu (GetBundleType b)) = Some e" "acceptsBundle e b"
      "conflationElement_update ord e b t st = Inr (e', st')"
      "addCUToReadyQueueIfNeeded me ((setElement cu (priorityOf cu (GetBundleType b)) e')\<lparr>cu_store := st'\<rparr>) rq = (cu', rq')"
proof -
  obtain t st where al: "allocTransport tm (cu_store cu) = (t, st)" by fastforce
  with assms obtain e where e: "elementAt cu (priorityOf cu (GetBundleType b)) = Some e"
    by (auto simp: ConflationUnit_insert_def Let_def bind_eq_Some_conv)
  show ?thesis
  proof (cases "acceptsBundle e b")
    case False
    with assms al e show ?thesis by (intro ignored [of t st]) (auto simp: ConflationUnit_insert_def)
  next
    case acc: True
    show ?thesis
    proof (cases "conflationElement_update ord e b t st")
      case (Inl err)
      with assms al e acc show ?thesis by (intro ignored [of t st]) (auto simp: ConflationUnit_insert_def)
    next
      case (Inr r)
      with assms al e acc show ?thesis
        by (cases r; intro updated [of t st e "fst r" "snd r"]) (auto simp: ConflationUnit_insert_def)
    qed
  qed
qed

text \<open>
  Inserting into a complete-state element keeps exactly the newest bundle: a bundle that is newer
  than the last processed one and than the one held replaces it, any other leaves the element as it
  is; no other element changes.
\<close>

theorem insert_keeps_newest:
  assumes "ConflationUnit_insert ord me b tm cu rq = Some (cu', rq')"
    and "elementAt cu (priorityOf cu (GetBundleType b)) = Some e" and "bundleInfo e = CompleteInfo bi"
  shows "getBundle (bundleInfo (priorityQueue cu' ! priorityOf cu (GetBundleType b))) =
       (if acceptsBundle e b then Some b else cs_bundle bi)
     \<and> (\<forall>j. j \<noteq> priorityOf cu (GetBundleType b) \<longrightarrow> priorityQueue cu' ! j = priorityQueue cu ! j)
     \<and> lastProcessedBundleVersion (priorityQueue cu' ! priorityOf cu (GetBundleType b)) = lastProcessedBundleVersion e"
proof (cases "acceptsBundle e b")
  case False
  with assms show ?thesis by (auto simp: ConflationUnit_insert_def elementAt_Some split: prod.splits)
next
  case True
  let ?p = "priorityOf cu (GetBundleType b)"
  obtain t st where al: "allocTransport tm (cu_store cu) = (t, st)" by fastforce
  obtain bi' st' where up: "complete_update bi b t (\<not> isInProcess e) st = (bi', st')" by fastforce
  then have "cs_bundle bi' = Some b" by (auto simp: complete_update_def split: option.splits if_splits prod.splits)
  moreover from assms True al up have
    "addCUToReadyQueueIfNeeded me ((setElement cu ?p (e\<lparr>bundleInfo := CompleteInfo bi'\<rparr>))\<lparr>cu_store := st'\<rparr>) rq = (cu', rq')"
    by (simp add: ConflationUnit_insert_def conflationElement_update_def info_update_def)
  ultimately show ?thesis
    using True assms(2) addCU_fields(1) by (fastforce simp: elementAt_Some)
qed

theorem insert_keeps_newest_witness:
  "getBundle (bundleInfo (priorityQueue sample_waiting ! priorityOf sample_new_unit (GetBundleType (sample_cpp 1))))
     = Some (sample_cpp 1)"
proof -
  obtain rq' where ins: "ConflationUnit_insert (\<lambda>ks. ks) ''hub1'' (sample_cpp 1) (newKafkaBundleMetadata 0 5) sample_new_unit []
      = Some (sample_waiting, rq')"
    using insert_inv [OF sample_new_unit_inv, of "\<lambda>ks. ks" "''hub1''" "sample_cpp 1" "newKafkaBundleMetadata 0 5" "[]"]
    by (auto simp: sample_waiting_def sample_insert_def)
  have e: "elementAt sample_new_unit (priorityOf sample_new_unit (GetBundleType (sample_cpp 1)))
      = Some (newConflationElement (hd sample_registrations))" by code_simp
  have i: "bundleInfo (newConflationElement (hd sample_registrations)) = CompleteInfo \<lparr>cs_bundle = None, cs_metadata = None\<rparr>"
    by code_simp
  have "acceptsBundle (newConflationElement (hd sample_registrations)) (sample_cpp 1)" by code_simp
  with insert_keeps_newest [OF ins e i] show ?thesis by simp
qed

text \<open>
  A bundle that arrives while a job of the same unit is being processed never touches the
  metadata object the job holds, and does not announce the unit a second time: the version and the
  transport position the job reports back are those of the bundle it was given.
\<close>

theorem insert_isolates_job:
  assumes "cu_inv cu (Some a)" and "ConflationUnit_insert ord me b tm cu rq = Some (cu', rq')"
  shows "metadatas (cu_store cu') a = metadatas (cu_store cu) a \<and> rq' = rq \<and> cu_inv cu' (Some a)"
proof -
  from assms(1) obtain i where i: "i < length (priorityQueue cu)"
    "\<forall>j<length (priorityQueue cu). isInProcess (priorityQueue cu ! j) \<longleftrightarrow> j = i"
    "inflight_ok (priorityOf cu) (cu_store cu) a i (priorityQueue cu ! i)"
    by (auto simp: cu_inv_Some)
  from i(3) obtain m where m: "metadatas (cu_store cu) a = Some m" "priorityOf cu (bm_bundleType m) = i"
    by (auto simp: inflight_ok_def good_metadata_def)
  have inv': "cu_inv cu' (Some a)"
    using insert_inv [OF assms(1), of ord me b tm rq] assms(2) by auto
  from assms(2) show ?thesis
  proof (cases rule: insert_cases)
    case (ignored t st)
    then show ?thesis using inv' by (auto simp: allocTransport_def)
  next
    case (updated t st e e' st')
    from cu_inv_base [OF assms(1)] have sok: "store_ok (cu_store cu)" by (simp add: cu_base_def)
    let ?p = "priorityOf cu (GetBundleType b)"
    have st: "store_ok st" "transports st t \<noteq> None" "metadatas st = metadatas (cu_store cu)"
      "\<And>p. st_frame (priorityOf cu) p (cu_store cu) st"
      using updated(1) store_ok_alloc(2) [OF sok, of tm] st_frame_alloc(2) [OF sok, of _ _ tm]
      by (auto simp: allocTransport_def)
    have p: "?p < length (priorityQueue cu)" and e: "e = priorityQueue cu ! ?p"
      using updated(2) by (auto simp: elementAt_Some)
    have "elem_ok (priorityOf cu) (cu_store cu) ?p e" using cu_inv_base [OF assms(1)] p e by (simp add: cu_base_def)
    then have "elem_ok (priorityOf cu) st ?p e"
      by (rule st_frame_elem_ok [OF st(4) [of "Suc ?p"], rotated]) simp
    note post = conflationElement_update_post(1) [OF st(1,2) refl this updated(3,4)]
    have "metadatas st' a = metadatas st a"
    proof (cases "?p = i")
      case True
      with i(2) p e have "isInProcess e" by simp
      with post m st(3) show ?thesis by (auto simp: update_post_def map_le_def dom_def)
    next
      case False
      with post m st(3) show ?thesis by (auto simp: update_post_def st_frame_def)
    qed
    moreover have "\<not> isInReadyQueue cu'" using inv' by (simp add: cu_inv_Some)
    ultimately show ?thesis
      using addCU_fields [OF updated(5)] st(3) inv' by simp
  qed
qed

theorem insert_isolates_job_witness:
  "\<exists>cu' rq'. ConflationUnit_insert (\<lambda>ks. ks) ''hub1'' (sample_cpp 2) (newKafkaBundleMetadata 0 6) sample_busy []
       = Some (cu', rq')
     \<and> metadatas (cu_store cu') (nb_metadata sample_job) = metadatas (cu_store sample_busy) (nb_metadata sample_job)
     \<and> rq' = []"
  using insert_inv [OF sample_busy_inv, of "\<lambda>ks. ks" "''hub1''" "sample_cpp 2" "newKafkaBundleMetadata 0 6" "[]"]
    insert_isolates_job [OF sample_busy_inv] by blast

section \<open>What a report leaves behind\<close>

lemma readyElement_independent:
  "dependency e = None \<Longrightarrow> \<not> isInProcess e \<Longrightarrow> getBundle (bundleInfo e) \<noteq> None \<Longrightarrow> readyElement cu e"
  by (simp add: readyElement_def checkDependency_def)

lemma getNextReady_ready:
  "p < length (priorityQueue cu) \<Longrightarrow> readyElement cu (priorityQueue cu ! p) \<Longrightarrow> getNextReadyBundlePriority cu \<noteq> None"
  by (auto simp: getNextReadyBundlePriority_def simp del: not_None_eq)

text \<open>
  A complete-state bundle whose handler failed is not lost: the element still holds it or the
  newer bundle that arrived in the meantime, nothing of the unit is in process any more, and a unit
  whose failed bundle has no dependency is queued again at once.
\<close>

theorem ReportResult_failed_retries:
  assumes "cu_inv cu (Some a)" and "metadatas (cu_store cu) a = Some m"
    and "priorityQueue cu ! priorityOf cu (bm_bundleType m) = e" and "bundleInfo e = CompleteInfo bi"
    and "ReportResult ord me a True cu rq = Some (cu', rq')"
  shows "\<exists>b. getBundle (bundleInfo (priorityQueue cu' ! priorityOf cu (bm_bundleType m))) = Some b
       \<and> bm_bundleVersion m \<le> GetVersion b
     \<and> cu_inv cu' None \<and> (dependency e = None \<longrightarrow> isInReadyQueue cu' \<and> rq' = rq @ [me])"
proof -
  obtain p e' st' where p: "p < length (priorityQueue cu)" "p = priorityOf cu (bm_bundleType m)"
    "isInProcess (priorityQueue cu ! p)"
    "reportElement ord a m True (priorityQueue cu ! p) (cu_store cu) = Some (e', st')"
    "ReportResult ord me a True cu rq
       = Some (addCUToReadyQueueIfNeeded me ((setElement cu p e')\<lparr>cu_store := st'\<rparr>) rq)"
    "cu_inv ((setElement cu p e')\<lparr>cu_store := st'\<rparr>) None"
    using ReportResult_step [OF assms(1), of ord True me rq] assms(2) by (metis option.inject)
  let ?cu = "(setElement cu p e')\<lparr>cu_store := st'\<rparr>"
  have e': "e' = e\<lparr>isInProcess := False\<rparr>" "e = priorityQueue cu ! p"
    using p(2,4) assms(3,4) by (auto simp: reportElement_def)
  have add: "addCUToReadyQueueIfNeeded me ?cu rq = (cu', rq')" using p(5) assms(5) by simp
  from assms(1) p(1,3) have "inflight_ok (priorityOf cu) (cu_store cu) a p (priorityQueue cu ! p)"
    and nrq: "\<not> isInReadyQueue cu"
    by (auto simp: cu_inv_Some)
  then obtain b where b: "cs_bundle bi = Some b" "bm_bundleVersion m \<le> GetVersion b"
    using assms(2,4) e'(2) by (auto simp: inflight_ok_def)
  have "isInReadyQueue cu'" if "dependency e = None"
  proof -
    have "readyElement ?cu (priorityQueue ?cu ! p)"
      using that p(1) e' b(1) assms(4) by (intro readyElement_independent) auto
    then have "getNextReadyBundlePriority ?cu \<noteq> None" using p(1) by (intro getNextReady_ready) auto
    moreover have "\<not> anyInProcess ?cu" using p(6) by (auto simp: cu_inv_None anyInProcess_def in_set_conv_nth)
    ultimately show ?thesis using add by (auto simp: addCUToReadyQueueIfNeeded_def nrq split: option.splits)
  qed
  with addCU_fields [OF add] addCU_inv [OF p(6) add] b p(1,2) e' assms(4) nrq show ?thesis by simp
qed

lemma sample_busy_element:
  "metadatas (cu_store sample_busy) (nb_metadata sample_job) =
     Some \<lparr>bm_bundleType = ''ClustersPerPolicyBundle'', bm_bundleVersion = BundleVersion 1 1, bm_transport = Some 0\<rparr>"
  "bundleInfo (priorityQueue sample_busy ! 0) =
     CompleteInfo \<lparr>cs_bundle = Some (sample_cpp 1), cs_metadata = Some (nb_metadata sample_job)\<rparr>"
  "dependency (priorityQueue sample_busy ! 0) = None" "priorityOf sample_busy ''ClustersPerPolicyBundle'' = 0"
  by code_simp+

theorem ReportResult_failed_retries_witness:
  "\<exists>cu' rq'. ReportResult (\<lambda>ks. ks) ''hub1'' (nb_metadata sample_job) True sample_busy [''hub2''] = Some (cu', rq')
     \<and> (\<exists>b. getBundle (bundleInfo (priorityQueue cu' ! 0)) = Some b \<and> BundleVersion 1 1 \<le> GetVersion b)
     \<and> rq' = [''hub2'', ''hub1'']"
proof -
  obtain cu' rq' where r: "ReportResult (\<lambda>ks. ks) ''hub1'' (nb_metadata sample_job) True sample_busy [''hub2''] = Some (cu', rq')"
    using ReportResult_inv [OF sample_busy_inv] by metis
  from ReportResult_failed_retries [OF sample_busy_inv sample_busy_element(1) refl _ r] r show ?thesis
    by (auto simp: sample_busy_element)
qed

text \<open>
  A successful report moves the last processed version of the element up to the version of the
  job and never down; the bundle held is dropped exactly when it is the one that was processed; the
  transport position of the job is marked as processed.
\<close>

theorem ReportResult_succeeded:
  assumes "cu_inv cu (Some a)" and "metadatas (cu_store cu) a = Some m"
    and "priorityQueue cu ! priorityOf cu (bm_bundleType m) = e" and "bundleInfo e = CompleteInfo bi"
    and "cs_bundle bi = Some b" and "ReportResult ord me a False cu rq = Some (cu', rq')"
  shows "cu_inv cu' None
     \<and> lastProcessedBundleVersion (priorityQueue cu' ! priorityOf cu (bm_bundleType m)) = bm_bundleVersion m
     \<and> lastProcessedBundleVersion e < bm_bundleVersion m
     \<and> getBundle (bundleInfo (priorityQueue cu' ! priorityOf cu (bm_bundleType m))) =
         (if GetVersion b = bm_bundleVersion m then None else Some b)
     \<and> (\<exists>t tm. bm_transport m = Some t \<and> transports (cu_store cu') t = Some tm \<and> Processed tm)"
proof -
  obtain p e' st' where p: "p < length (priorityQueue cu)" "p = priorityOf cu (bm_bundleType m)"
    "isInProcess (priorityQueue cu ! p)"
    "reportElement ord a m False (priorityQueue cu ! p) (cu_store cu) = Some (e', st')"
    "ReportResult ord me a False cu rq
       = Some (addCUToReadyQueueIfNeeded me ((setElement cu p e')\<lparr>cu_store := st'\<rparr>) rq)"
    "cu_inv ((setElement cu p e')\<lparr>cu_store := st'\<rparr>) None"
    "lastProcessedBundleVersion e' = max (lastProcessedBundleVersion (priorityQueue cu ! p)) (bm_bundleVersion m)"
    using ReportResult_step [OF assms(1), of ord False me rq] assms(2) by (metis option.inject)
  have add: "addCUToReadyQueueIfNeeded me ((setElement cu p e')\<lparr>cu_store := st'\<rparr>) rq = (cu', rq')"
    using p(5) assms(6) by simp
  have e: "e = priorityQueue cu ! p" using p(2) assms(3) by simp
  from assms(1) p(1,3) have "inflight_ok (priorityOf cu) (cu_store cu) a p e" unfolding e by (auto simp: cu_inv_Some)
  then obtain t tm where lt: "lastProcessedBundleVersion e < bm_bundleVersion m"
    and t: "bm_transport m = Some t" "transports (cu_store cu) t = Some tm"
    using assms(2,4) by (auto simp: inflight_ok_def good_metadata_def)
  have "elem_ok (priorityOf cu) (cu_store cu) p e"
    using cu_inv_base [OF assms(1)] p(1) by (simp add: cu_base_def e)
  then obtain c mc where c: "cs_metadata bi = Some c" "metadatas (cu_store cu) c = Some mc" "bm_bundleVersion mc = GetVersion b"
    using assms(4,5) by (auto simp: elem_ok_def complete_ok_def)
  have "Processed (MarkAsProcessed tm)" by (cases tm) simp_all
  moreover have "getBundle (bundleInfo e') = (if GetVersion b = bm_bundleVersion m then None else Some b)
      \<and> st' = markTransport t (cu_store cu)"
    using p(4) lt assms(2,4,5) t c
    by (auto simp: e [symmetric] reportElement_def info_markAsProcessed_def complete_markAsProcessed_def split: if_splits)
  moreover have "lastProcessedBundleVersion e' = bm_bundleVersion m"
    using p(7) lt by (simp add: e [symmetric] max.absorb2)
  ultimately show ?thesis
    using addCU_fields(1,2) [OF add] addCU_inv [OF p(6) add] p(1,2) lt t
    by (auto simp: transports_mark)
qed

theorem ReportResult_succeeded_witness:
  "\<exists>cu' rq'. ReportResult (\<lambda>ks. ks) ''hub1'' (nb_metadata sample_job) False sample_busy [] = Some (cu', rq')
     \<and> lastProcessedBundleVersion (priorityQueue cu' ! 0) = BundleVersion 1 1
     \<and> getBundle (bundleInfo (priorityQueue cu' ! 0)) = None"
proof -
  obtain cu' rq' where r: "ReportResult (\<lambda>ks. ks) ''hub1'' (nb_metadata sample_job) False sample_busy [] = Some (cu', rq')"
    using ReportResult_inv [OF sample_busy_inv] by metis
  have v: "GetVersion (sample_cpp 1) = BundleVersion 1 1" by (simp add: sample_cpp_def)
  from ReportResult_succeeded [OF sample_busy_inv sample_busy_element(1) refl _ _ r] r show ?thesis
    by (auto simp: sample_busy_element v)
qed

section \<open>A failed delta pack\<close>

text \<open>
  After a delta pack was dispatched, the next delta of the leaf hub always starts a new line for
  the conflation element, also when it shares the base of the dispatched pack. If the dispatched pack
  then fails, its events are dropped: what is pending afterwards is the later delta alone.
\<close>

theorem delta_failure_drops_pack:
  assumes "delta_getMetadata bi st = Some (bi1, a, st1)" and "metadatas st1 a = Some m"
    and "store_ok st1" and "transports st1 t \<noteq> None" and "delta_ok st1 bi1"
    and "\<And>a. ds_metadata bi1 = Some a \<Longrightarrow> good_metadata pr st1 (pr ''DeltaComplianceStatusBundle'') a"
    and "delta_update ord bi1 (DeltaComplianceStatusBundle d) t False st1 = Inr (bi2, st2)"
    and "NewerThan (dcs_BundleVersion d) (Some (bm_bundleVersion m))"
  shows "\<exists>bi3. delta_handleFailure ord bi2 a st2 = Some (bi3, st2) \<and> ds_bundle bi3 = Some d"
proof -
  have "ds_bundle bi1 = None"
    using assms(1) by (auto simp: delta_getMetadata_def bind_eq_Some_conv)
  then have "ds_deltaLineHead bi2 = Some (dcs_BundleVersion d) \<and> ds_bundle bi2 = Some d"
    using assms(7)
    by (auto simp: delta_update_def InheritEvents_def delta_updateMetadata_def split: option.splits prod.splits)
  moreover have "metadatas st1 \<subseteq>\<^sub>m metadatas st2"
    using delta_info.upd_isolates [OF assms(3,4) _ assms(5,7), of pr] assms(6) by simp
  then have "metadatas st2 a = Some m" using assms(2) by (auto simp: map_le_def dom_def)
  ultimately show ?thesis
    using assms(8) by (simp add: delta_handleFailure_def)
qed

definition sample_delta_info :: deltaStateBundleInfo where
  "sample_delta_info = \<lparr>ds_bundle = Some sample_delta_old, ds_metadata = Some 1, ds_lastDispatchedBundle = None,
     ds_lowestPendingTransport = None, ds_lastReceivedTransport = Some 0, ds_deltaLineHead = Some (dcs_BundleVersion sample_delta_old)\<rparr>"

definition sample_delta_store :: store where
  "sample_delta_store = \<lparr>transports = [0 \<mapsto> newKafkaBundleMetadata 0 5, 2 \<mapsto> newKafkaBundleMetadata 0 6],
     metadatas = [1 \<mapsto> \<lparr>bm_bundleType = ''DeltaComplianceStatusBundle'', bm_bundleVersion = dcs_BundleVersion sample_delta_old,
       bm_transport = Some 0\<rparr>], next_addr = 3\<rparr>"

theorem delta_failure_drops_pack_witness:
  "\<exists>bi1 a st1 bi2 st2 bi3 st3.
     delta_getMetadata sample_delta_info sample_delta_store = Some (bi1, a, st1)
     \<and> ds_lastDispatchedBundle bi1 = Some sample_delta_old
     \<and> delta_update rev bi1 (DeltaComplianceStatusBundle sample_delta_new) 2 False st1 = Inr (bi2, st2)
     \<and> dcs_BaseBundleVersion sample_delta_new = dcs_BaseBundleVersion sample_delta_old
     \<and> delta_handleFailure rev bi2 a st2 = Some (bi3, st3) \<and> ds_bundle bi3 = Some sample_delta_new"
proof -
  let ?bi1 = "sample_delta_info\<lparr>ds_lastDispatchedBundle := Some sample_delta_old, ds_lowestPendingTransport := Some 0, ds_bundle := None\<rparr>"
  let ?st1 = "modifyMetadata 1 (\<lambda>m. m\<lparr>bm_transport := Some 0\<rparr>) sample_delta_store"
  have g: "delta_getMetadata sample_delta_info sample_delta_store = Some (?bi1, 1, ?st1)"
    by (simp add: delta_getMetadata_def sample_delta_info_def sample_delta_store_def)
  have m: "metadatas ?st1 1 = Some \<lparr>bm_bundleType = ''DeltaComplianceStatusBundle'',
      bm_bundleVersion = dcs_BundleVersion sample_delta_old, bm_transport = Some 0\<rparr>"
    by (simp add: metadatas_modify sample_delta_store_def)
  have ok: "store_ok ?st1" "transports ?st1 2 \<noteq> None" "delta_ok ?st1 ?bi1"
    by (auto simp: store_ok_def metadatas_modify sample_delta_store_def delta_ok_def sample_delta_info_def)
  have good: "ds_metadata ?bi1 = Some a \<Longrightarrow> good_metadata (\<lambda>_. 0) ?st1 0 a" for a
    by (auto simp: good_metadata_def metadatas_modify sample_delta_store_def sample_delta_info_def)
  have newer: "NewerThan (dcs_BundleVersion sample_delta_new) (Some (dcs_BundleVersion sample_delta_old))"
    by code_simp
  obtain bi2 st2 where u: "delta_update rev ?bi1 (DeltaComplianceStatusBundle sample_delta_new) 2 False ?st1 = Inr (bi2, st2)"
    by (simp add: delta_update_def InheritEvents_def sample_delta_info_def delta_updateMetadata_def allocMetadata_def)
  have base: "dcs_BaseBundleVersion sample_delta_new = dcs_BaseBundleVersion sample_delta_old"
    by (simp add: sample_delta_new_def sample_delta_old_def)
  have "\<exists>bi3. delta_handleFailure rev bi2 1 st2 = Some (bi3, st2) \<and> ds_bundle bi3 = Some sample_delta_new"
    by (rule delta_failure_drops_pack [OF g m ok good u]) (use newer in simp_all)
  with g u base show ?thesis by (fastforce simp: sample_delta_info_def)
qed

end
