(* ===== verification/GH_Registrations.thy ===== *)
theory GH_Registrations
  imports GH_ConflationProps
begin

text \<open>
  What \<open>AddTransport2DBSyncers\<close> registers (\<open>syncer/syncers.go\<close> and the syncers under
  \<open>syncer/dbsyncer\<close>): with the conflation manager a priority, a sync mode, a bundle type, a handler
  and perhaps a dependency, with the transport a message id, the bundle type to create and a
  predicate on the configuration. The registrations are shown to be well formed, so the conflation
  units built from them satisfy the invariant.
\<close>

section \<open>Priorities, schemas, handlers\<close>

datatype ConflationPriority =
    ManagedClustersPriority
  | ClustersPerPolicyPriority
  | CompleteComplianceStatusPriority
  | DeltaComplianceStatusPriority
  | MinimalComplianceStatusPriority
  | PlacementRulePriority
  | PlacementPriority
  | PlacementDecisionPriority
  | SubscriptionStatusPriority
  | SubscriptionReportPriority
  | ControlInfoPriority
  | LocalPolicySpecPriority
  | LocalClustersPerPolicyPriority
  | LocalCompleteComplianceStatusPriority
  | LocalPlacementRulesSpecPriority

text \<open>The value \<open>iota\<close> gives to each constant.\<close>

fun iota :: "ConflationPriority \<Rightarrow> nat" where
  "iota ManagedClustersPriority = 0"
| "iota ClustersPerPolicyPriority = 1"
| "iota CompleteComplianceStatusPriority = 2"
| "iota DeltaComplianceStatusPriority = 3"
| "iota MinimalComplianceStatusPriority = 4"
| "iota PlacementRulePriority = 5"
| "iota PlacementPriority = 6"
| "iota PlacementDecisionPriority = 7"
| "iota SubscriptionStatusPriority = 8"
| "iota SubscriptionReportPriority = 9"
| "iota ControlInfoPriority = 10"
| "iota LocalPolicySpecPriority = 11"
| "iota LocalClustersPerPolicyPriority = 12"
| "iota LocalCompleteComplianceStatusPriority = 13"
| "iota LocalPlacementRulesSpecPriority = 14"

definition StatusSchema :: string where "StatusSchema = ''status''"
definition LocalStatusSchema :: string where "LocalStatusSchema = ''local_status''"
definition LocalSpecSchema :: string where "LocalSpecSchema = ''local_spec''"
definition ManagedClustersTableName :: string where "ManagedClustersTableName = ''managed_clusters''"
definition ComplianceTableName :: string where "ComplianceTableName = ''compliance''"
definition MinimalComplianceTable :: string where "MinimalComplianceTable = ''aggregated_compliance''"
definition LocalPolicySpecTableName :: string where "LocalPolicySpecTableName = ''policies''"
definition SubscriptionStatusesTableName :: string where "SubscriptionStatusesTableName = ''subscription_statuses''"
definition SubscriptionReportsTableName :: string where "SubscriptionReportsTableName = ''subscription_reports''"
definition PlacementRulesTableName :: string where "PlacementRulesTableName = ''placementrules''"
definition PlacementsTableName :: string where "PlacementsTableName = ''placements''"
definition PlacementDecisionsTableName :: string where "PlacementDecisionsTableName = ''placementdecisions''"
definition LeafHubHeartbeatsTableName :: string where "LeafHubHeartbeatsTableName = ''leaf_hub_heartbeats''"
definition ErrorNone :: string where "ErrorNone = ''none''"

text \<open>
  A registered handler is a closure over a method of a syncer and the schema and table it works on;
  it is named here by that method, and run by \<open>runHandler\<close> of the theory of the DB syncers.
\<close>

datatype BundleHandler =
    handleManagedClusters
  | handleClustersPerPolicy string string
  | handleCompleteCompliance string string
  | handleDeltaCompliance string string
  | handleMinimalCompliance
  | handleResources string string
  | handleLocalObjects string string
  | handleControlInfo

type_synonym config = "(string, string) gomap"

definition config_get :: "config \<Rightarrow> string \<Rightarrow> string" where
  "config_get c k = (case map_of c k of None \<Rightarrow> '''' | Some v \<Rightarrow> v)"

text \<open>\<open>CreateBundleFunc\<close> is named by the type of the bundle it allocates.\<close>

record BundleRegistration =
  MsgID :: string
  CreateBundleFunc :: string
  Predicate :: "config \<Rightarrow> bool"

section \<open>The syncers\<close>

definition fullStatusPredicate :: "config \<Rightarrow> bool" where
  "fullStatusPredicate c \<longleftrightarrow> config_get c ''aggregationLevel'' = ''full''"

definition minimalStatusPredicate :: "config \<Rightarrow> bool" where
  "minimalStatusPredicate c \<longleftrightarrow> config_get c ''aggregationLevel'' = ''minimal''"

definition localPredicate :: "config \<Rightarrow> bool" where
  "localPredicate c \<longleftrightarrow> fullStatusPredicate c \<and> config_get c ''enableLocalPolicies'' = ''true''"

definition policies_RegisterCreateBundleFunctions :: "BundleRegistration list" where
  "policies_RegisterCreateBundleFunctions =
     [\<lparr>MsgID = ''ClustersPerPolicy'', CreateBundleFunc = ''ClustersPerPolicyBundle'', Predicate = fullStatusPredicate\<rparr>,
      \<lparr>MsgID = ''PolicyCompleteCompliance'', CreateBundleFunc = ''CompleteComplianceStatusBundle'', Predicate = fullStatusPredicate\<rparr>,
      \<lparr>MsgID = ''PolicyDeltaCompliance'', CreateBundleFunc = ''DeltaComplianceStatusBundle'', Predicate = fullStatusPredicate\<rparr>,
      \<lparr>MsgID = ''MinimalPolicyCompliance'', CreateBundleFunc = ''MinimalComplianceStatusBundle'', Predicate = minimalStatusPredicate\<rparr>,
      \<lparr>MsgID = ''LocalClustersPerPolicy'', CreateBundleFunc = ''LocalClustersPerPolicyBundle'', Predicate = localPredicate\<rparr>,
      \<lparr>MsgID = ''LocalPolicyCompleteCompliance'', CreateBundleFunc = ''LocalCompleteComplianceStatusBundle'', Predicate = localPredicate\<rparr>]"

definition policies_RegisterBundleHandlerFunctions :: "BundleHandler ConflationRegistration list" where
  "policies_RegisterBundleHandlerFunctions =
     [NewConflationRegistration (iota ClustersPerPolicyPriority) CompleteStateMode ''ClustersPerPolicyBundle''
        (handleClustersPerPolicy StatusSchema ComplianceTableName),
      WithDependency \<lparr>dep_BundleType = ''ClustersPerPolicyBundle'', dep_DependencyType = ExactMatch\<rparr>
        (NewConflationRegistration (iota CompleteComplianceStatusPriority) CompleteStateMode ''CompleteComplianceStatusBundle''
          (handleCompleteCompliance StatusSchema ComplianceTableName)),
      WithDependency \<lparr>dep_BundleType = ''CompleteComplianceStatusBundle'', dep_DependencyType = ExactMatch\<rparr>
        (NewConflationRegistration (iota DeltaComplianceStatusPriority) DeltaStateMode ''DeltaComplianceStatusBundle''
          (handleDeltaCompliance StatusSchema ComplianceTableName)),
      NewConflationRegistration (iota MinimalComplianceStatusPriority) CompleteStateMode ''MinimalComplianceStatusBundle''
        handleMinimalCompliance,
      NewConflationRegistration (iota LocalClustersPerPolicyPriority) CompleteStateMode ''LocalClustersPerPolicyBundle''
        (handleClustersPerPolicy LocalStatusSchema ComplianceTableName),
      WithDependency \<lparr>dep_BundleType = ''LocalClustersPerPolicyBundle'', dep_DependencyType = ExactMatch\<rparr>
        (NewConflationRegistration (iota LocalCompleteComplianceStatusPriority) CompleteStateMode
          ''LocalCompleteComplianceStatusBundle'' (handleCompleteCompliance LocalStatusSchema ComplianceTableName))]"

definition managedClusters_RegisterCreateBundleFunctions :: "BundleRegistration list" where
  "managedClusters_RegisterCreateBundleFunctions =
     [\<lparr>MsgID = ''ManagedClusters'', CreateBundleFunc = ''ManagedClustersStatusBundle'', Predicate = (\<lambda>_. True)\<rparr>]"

definition managedClusters_RegisterBundleHandlerFunctions :: "BundleHandler ConflationRegistration list" where
  "managedClusters_RegisterBundleHandlerFunctions =
     [NewConflationRegistration (iota ManagedClustersPriority) CompleteStateMode ''ManagedClustersStatusBundle''
        handleManagedClusters]"

text \<open>The five instances of \<open>genericDBSyncer\<close> differ in these fields.\<close>

record genericDBSyncer =
  transportMsgKey :: string
  dbSchema :: string
  dbTableName :: string
  createBundleFunc :: string
  bundlePriority :: ConflationPriority
  bundleSyncMode :: BundleSyncMode

definition generic_RegisterCreateBundleFunctions :: "genericDBSyncer \<Rightarrow> BundleRegistration list" where
  "generic_RegisterCreateBundleFunctions s =
     [\<lparr>MsgID = transportMsgKey s, CreateBundleFunc = createBundleFunc s, Predicate = (\<lambda>_. True)\<rparr>]"

definition generic_RegisterBundleHandlerFunctions :: "genericDBSyncer \<Rightarrow> BundleHandler ConflationRegistration list" where
  "generic_RegisterBundleHandlerFunctions s =
     [NewConflationRegistration (iota (bundlePriority s)) (bundleSyncMode s) (createBundleFunc s)
        (handleResources (dbSchema s) (dbTableName s))]"

definition NewPlacementRulesDBSyncer :: genericDBSyncer where
  "NewPlacementRulesDBSyncer = \<lparr>transportMsgKey = ''PlacementRule'', dbSchema = StatusSchema,
     dbTableName = PlacementRulesTableName, createBundleFunc = ''PlacementRulesBundle'',
     bundlePriority = PlacementRulePriority, bundleSyncMode = CompleteStateMode\<rparr>"

definition NewPlacementsDBSyncer :: genericDBSyncer where
  "NewPlacementsDBSyncer = \<lparr>transportMsgKey = ''Placement'', dbSchema = StatusSchema,
     dbTableName = PlacementsTableName, createBundleFunc = ''PlacementsBundle'',
     bundlePriority = PlacementPriority, bundleSyncMode = CompleteStateMode\<rparr>"

definition NewPlacementDecisionsDBSyncer :: genericDBSyncer where
  "NewPlacementDecisionsDBSyncer = \<lparr>transportMsgKey = ''PlacementDecision'', dbSchema = StatusSchema,
     dbTableName = PlacementDecisionsTableName, createBundleFunc = ''PlacementDecisionsBundle'',
     bundlePriority = PlacementDecisionPriority, bundleSyncMode = CompleteStateMode\<rparr>"

definition NewSubscriptionStatusesDBSyncer :: genericDBSyncer where
  "NewSubscriptionStatusesDBSyncer = \<lparr>transportMsgKey = ''SubscriptionStatus'', dbSchema = StatusSchema,
     dbTableName = SubscriptionStatusesTableName, createBundleFunc = ''SubscriptionStatusesBundle'',
     bundlePriority = SubscriptionStatusPriority, bundleSyncMode = CompleteStateMode\<rparr>"

definition NewSubscriptionReportsDBSyncer :: genericDBSyncer where
  "NewSubscriptionReportsDBSyncer = \<lparr>transportMsgKey = ''SubscriptionReport'', dbSchema = StatusSchema,
     dbTableName = SubscriptionReportsTableName, createBundleFunc = ''SubscriptionReportsBundle'',
     bundlePriority = SubscriptionReportPriority, bundleSyncMode = CompleteStateMode\<rparr>"

definition localSpecPredicate :: "config \<Rightarrow> bool" where
  "localSpecPredicate c \<longleftrightarrow> config_get c ''enableLocalPolicies'' = ''true''"

definition localSpec_RegisterCreateBundleFunctions :: "BundleRegistration list" where
  "localSpec_RegisterCreateBundleFunctions =
     [\<lparr>MsgID = ''LocalPolicySpec'', CreateBundleFunc = ''LocalPolicySpecBundle'', Predicate = localSpecPredicate\<rparr>,
      \<lparr>MsgID = ''LocalPlacementRules'', CreateBundleFunc = ''LocalPlacementRulesBundle'', Predicate = localSpecPredicate\<rparr>]"

definition localSpec_RegisterBundleHandlerFunctions :: "BundleHandler ConflationRegistration list" where
  "localSpec_RegisterBundleHandlerFunctions =
     [NewConflationRegistration (iota LocalPolicySpecPriority) CompleteStateMode ''LocalPolicySpecBundle''
        (handleLocalObjects LocalSpecSchema LocalPolicySpecTableName),
      NewConflationRegistration (iota LocalPlacementRulesSpecPriority) CompleteStateMode ''LocalPlacementRulesBundle''
        (handleLocalObjects LocalSpecSchema PlacementRulesTableName)]"

definition controlInfo_RegisterCreateBundleFunctions :: "BundleRegistration list" where
  "controlInfo_RegisterCreateBundleFunctions =
     [\<lparr>MsgID = ''ControlInfo'', CreateBundleFunc = ''ControlInfoBundle'', Predicate = (\<lambda>_. True)\<rparr>]"

definition controlInfo_RegisterBundleHandlerFunctions :: "BundleHandler ConflationRegistration list" where
  "controlInfo_RegisterBundleHandlerFunctions =
     [NewConflationRegistration (iota ControlInfoPriority) CompleteStateMode ''ControlInfoBundle'' handleControlInfo]"

section \<open>AddTransport2DBSyncers\<close>

text \<open>The two sides of the loop over the syncers, in the order of the list there.\<close>

definition transportRegistrations :: "BundleRegistration list" where
  "transportRegistrations =
     managedClusters_RegisterCreateBundleFunctions @ policies_RegisterCreateBundleFunctions
     @ concat (map generic_RegisterCreateBundleFunctions
         [NewPlacementRulesDBSyncer, NewPlacementsDBSyncer, NewPlacementDecisionsDBSyncer,
          NewSubscriptionStatusesDBSyncer, NewSubscriptionReportsDBSyncer])
     @ localSpec_RegisterCreateBundleFunctions @ controlInfo_RegisterCreateBundleFunctions"

definition conflationRegistrations :: "BundleHandler ConflationRegistration list" where
  "conflationRegistrations =
     managedClusters_RegisterBundleHandlerFunctions @ policies_RegisterBundleHandlerFunctions
     @ concat (map generic_RegisterBundleHandlerFunctions
         [NewPlacementRulesDBSyncer, NewPlacementsDBSyncer, NewPlacementDecisionsDBSyncer,
          NewSubscriptionStatusesDBSyncer, NewSubscriptionReportsDBSyncer])
     @ localSpec_RegisterBundleHandlerFunctions @ controlInfo_RegisterBundleHandlerFunctions"

lemmas conflationRegistrations_unfold =
  conflationRegistrations_def managedClusters_RegisterBundleHandlerFunctions_def
  policies_RegisterBundleHandlerFunctions_def generic_RegisterBundleHandlerFunctions_def
  localSpec_RegisterBundleHandlerFunctions_def controlInfo_RegisterBundleHandlerFunctions_def
  NewPlacementRulesDBSyncer_def NewPlacementsDBSyncer_def NewPlacementDecisionsDBSyncer_def
  NewSubscriptionStatusesDBSyncer_def NewSubscriptionReportsDBSyncer_def
  NewConflationRegistration_def WithDependency_def

lemma conflationRegistrations_types:
  "map reg_bundleType conflationRegistrations =
     [''ManagedClustersStatusBundle'', ''ClustersPerPolicyBundle'', ''CompleteComplianceStatusBundle'',
      ''DeltaComplianceStatusBundle'', ''MinimalComplianceStatusBundle'', ''LocalClustersPerPolicyBundle'',
      ''LocalCompleteComplianceStatusBundle'', ''PlacementRulesBundle'', ''PlacementsBundle'',
      ''PlacementDecisionsBundle'', ''SubscriptionStatusesBundle'', ''SubscriptionReportsBundle'',
      ''LocalPolicySpecBundle'', ''LocalPlacementRulesBundle'', ''ControlInfoBundle'']"
  by (simp add: conflationRegistrations_unfold)

lemma conflationRegistrations_priorities:
  "map reg_priority conflationRegistrations = [0, 1, 2, 3, 4, 12, 13, 5, 6, 7, 8, 9, 11, 14, 10]"
  by (simp add: conflationRegistrations_unfold)

lemma length_conflationRegistrations: "length conflationRegistrations = 15"
  using arg_cong [OF conflationRegistrations_priorities, of length] by simp

lemma wf_conflationRegistrations: "wf_registrations conflationRegistrations"
proof -
  have "{0..<15} = {0, 1, 2, 3, 4, 12, 13, 5, 6, 7, 8, 9, 11, 14, 10 :: nat}"
    by (simp add: atLeastLessThan_nat_numeral insert_commute)
  moreover have "\<forall>r\<in>set conflationRegistrations. \<forall>d. reg_dependency r = Some d \<longrightarrow>
      (\<exists>r'\<in>set conflationRegistrations. reg_bundleType r' = dep_BundleType d \<and> reg_priority r' < reg_priority r)"
    by (simp add: conflationRegistrations_unfold)
  moreover have "conflationRegistrations \<noteq> []"
    using length_conflationRegistrations by auto
  ultimately show ?thesis
    unfolding wf_registrations_def length_conflationRegistrations conflationRegistrations_types
      conflationRegistrations_priorities
    by simp
qed

text \<open>
  C40. The priorities, bundle types and dependencies registered by the syncers fit together: for both
  settings of the initial dependency check a new conflation unit is built without a panic, it has one
  element per registration, and it starts in the invariant with nothing in process and outside the
  ready queue.
\<close>

theorem newConflationUnit_registered:
  "\<exists>cu. newConflationUnit conflationRegistrations requireInitial = Some cu \<and> cu_inv cu None
     \<and> length (priorityQueue cu) = 15 \<and> \<not> isInReadyQueue cu"
proof -
  from newConflationUnit_shape [OF wf_conflationRegistrations, of requireInitial] obtain cu where
    "newConflationUnit conflationRegistrations requireInitial = Some cu"
    "length (priorityQueue cu) = length conflationRegistrations"
    by (metis ConflationUnit.select_convs(1))
  then show ?thesis
    using newConflationUnit_inv [OF wf_conflationRegistrations, of requireInitial]
    by (auto simp: length_conflationRegistrations)
qed

text \<open>
  Every bundle type the transport can create has exactly one registered handler, so a received
  bundle is never filed under the default priority of an unknown type.
\<close>

theorem transport_types_have_handlers:
  "set (map CreateBundleFunc transportRegistrations) = set (map reg_bundleType conflationRegistrations)
   \<and> distinct (map reg_bundleType conflationRegistrations) \<and> distinct (map MsgID transportRegistrations)"
proof -
  have t: "map CreateBundleFunc transportRegistrations = map reg_bundleType conflationRegistrations"
    unfolding conflationRegistrations_types
    by (simp add: transportRegistrations_def managedClusters_RegisterCreateBundleFunctions_def
        policies_RegisterCreateBundleFunctions_def generic_RegisterCreateBundleFunctions_def
        localSpec_RegisterCreateBundleFunctions_def controlInfo_RegisterCreateBundleFunctions_def
        NewPlacementRulesDBSyncer_def NewPlacementsDBSyncer_def NewPlacementDecisionsDBSyncer_def
        NewSubscriptionStatusesDBSyncer_def NewSubscriptionReportsDBSyncer_def)
  have "map MsgID transportRegistrations = [''ManagedClusters'', ''ClustersPerPolicy'', ''PolicyCompleteCompliance'',
      ''PolicyDeltaCompliance'', ''MinimalPolicyCompliance'', ''LocalClustersPerPolicy'',
      ''LocalPolicyCompleteCompliance'', ''PlacementRule'', ''Placement'', ''PlacementDecision'',
      ''SubscriptionStatus'', ''SubscriptionReport'', ''LocalPolicySpec'', ''LocalPlacementRules'', ''ControlInfo'']"
    by (simp add: transportRegistrations_def managedClusters_RegisterCreateBundleFunctions_def
        policies_RegisterCreateBundleFunctions_def generic_RegisterCreateBundleFunctions_def
        localSpec_RegisterCreateBundleFunctions_def controlInfo_RegisterCreateBundleFunctions_def
        NewPlacementRulesDBSyncer_def NewPlacementsDBSyncer_def NewPlacementDecisionsDBSyncer_def
        NewSubscriptionStatusesDBSyncer_def NewSubscriptionReportsDBSyncer_def)
  then have "distinct (map MsgID transportRegistrations)" by simp
  with t show ?thesis by (simp add: conflationRegistrations_types)
qed

end
