(* ===== verification/GH_Pipeline.thy ===== *)
theory GH_Pipeline
  imports GH_Registrations
begin

text \<open>
  The pipeline of the manager: the conflation manager with one unit per leaf hub, the ready queue,
  the dispatcher and the pool of DB workers, as a step relation. The steps are the sections the code
  runs under a lock or between two blocking calls: the consumer inserts a bundle, the dispatcher
  dequeues a unit, acquires a worker and asks the unit for a bundle, a worker runs a job and reports.
  Everything may interleave. Whether a handler fails is left open. Shutdown is not modelled.
\<close>

section \<open>Conflation manager\<close>

record 'h ConflationManager =
  conflationUnits :: "(string, 'h ConflationUnit) gomap"
  cm_requireInitialDependencyChecks :: bool
  registrations :: "'h ConflationRegistration list"

definition NewConflationManager :: "bool \<Rightarrow> 'h ConflationManager" where
  "NewConflationManager requireInitial =
     \<lparr>conflationUnits = [], cm_requireInitialDependencyChecks = requireInitial, registrations = []\<rparr>"

definition Register :: "'h ConflationRegistration \<Rightarrow> 'h ConflationManager \<Rightarrow> 'h ConflationManager" where
  "Register r cm = cm\<lparr>registrations := registrations cm @ [r]\<rparr>"

definition getConflationUnit :: "string \<Rightarrow> 'h ConflationManager \<Rightarrow> ('h ConflationUnit \<times> 'h ConflationManager) option" where
  "getConflationUnit leafHubName cm =
     (case map_of (conflationUnits cm) leafHubName of
        Some cu \<Rightarrow> Some (cu, cm)
      | None \<Rightarrow> do {
          cu \<leftarrow> newConflationUnit (registrations cm) (cm_requireInitialDependencyChecks cm);
          Some (cu, cm\<lparr>conflationUnits := AList.update leafHubName cu (conflationUnits cm)\<rparr>)
        })"

definition setUnit :: "string \<Rightarrow> 'h ConflationUnit \<Rightarrow> 'h ConflationManager \<Rightarrow> 'h ConflationManager" where
  "setUnit hub cu cm = cm\<lparr>conflationUnits := AList.update hub cu (conflationUnits cm)\<rparr>"

definition ConflationManager_Insert ::
  "(string list \<Rightarrow> string list) \<Rightarrow> Bundle \<Rightarrow> transportMetadata \<Rightarrow> 'h ConflationManager \<Rightarrow> string list
   \<Rightarrow> ('h ConflationManager \<times> string list) option" where
  "ConflationManager_Insert ord bundle metadata cm rq = do {
     (cu, cm1) \<leftarrow> getConflationUnit (GetLeafHubName bundle) cm;
     (cu', rq') \<leftarrow> ConflationUnit_insert ord (GetLeafHubName bundle) bundle metadata cu rq;
     Some (setUnit (GetLeafHubName bundle) cu' cm1, rq')
   }"

definition GetBundlesMetadata :: "(string list \<Rightarrow> string list) \<Rightarrow> 'h ConflationManager \<Rightarrow> transportMetadata list" where
  "GetBundlesMetadata ord cm =
     concat (map (\<lambda>hub. case map_of (conflationUnits cm) hub of None \<Rightarrow> [] | Some cu \<Rightarrow> getBundlesMetadata cu)
       (ord (map fst (conflationUnits cm))))"

section \<open>Dispatcher and workers\<close>

record 'h DBJob =
  job_bundle :: Bundle
  job_bundleMetadata :: addr
  job_handlerFunc :: 'h
  job_conflationUnitResultReporter :: string

definition NewDBJob :: "Bundle \<Rightarrow> addr \<Rightarrow> 'h \<Rightarrow> string \<Rightarrow> 'h DBJob" where
  "NewDBJob bundle metadata handler reporter =
     \<lparr>job_bundle = bundle, job_bundleMetadata = metadata, job_handlerFunc = handler,
      job_conflationUnitResultReporter = reporter\<rparr>"

text \<open>Where the loop of \<open>dispatch\<close> stands: before the dequeue, before \<open>Acquire\<close>, before \<open>GetNext\<close>.\<close>

datatype dispatcher_state = Waiting | Holding string | Acquired string nat

text \<open>
  \<open>idle_workers\<close> is the channel \<open>dbWorkers\<close>; \<open>running\<close> pairs a worker with the job in its queue
  or in its hands. \<open>processed\<close> records the metadata of the jobs that succeeded, in order; no step
  reads it.
\<close>

record 'h pipeline =
  manager :: "'h ConflationManager"
  ready_queue :: "string list"
  dispatcher :: dispatcher_state
  idle_workers :: "nat list"
  running :: "(nat \<times> 'h DBJob) list"
  processed :: "(string \<times> BundleMetadata) list"

definition unitOf :: "'h pipeline \<Rightarrow> string \<Rightarrow> 'h ConflationUnit option" where
  "unitOf s hub = map_of (conflationUnits (manager s)) hub"

definition start_pipeline :: "'h ConflationRegistration list \<Rightarrow> bool \<Rightarrow> nat \<Rightarrow> 'h pipeline" where
  "start_pipeline regs requireInitial poolSize =
     \<lparr>manager = fold Register regs (NewConflationManager requireInitial), ready_queue = [],
      dispatcher = Waiting, idle_workers = [1..<Suc poolSize], running = [], processed = []\<rparr>"

definition Dispatcher_GetNext :: "string \<Rightarrow> nat \<Rightarrow> 'h pipeline \<Rightarrow> 'h pipeline option" where
  "Dispatcher_GetNext hub worker s = do {
     cu \<leftarrow> unitOf s hub;
     r \<leftarrow> GetNext cu;
     (case r of
        Inl err \<Rightarrow> Some (s\<lparr>dispatcher := Waiting\<rparr>)
      | Inr (nb, cu') \<Rightarrow>
          Some (s\<lparr>manager := setUnit hub cu' (manager s), dispatcher := Waiting,
            running := running s @ [(worker, NewDBJob (nb_bundle nb) (nb_metadata nb) (nb_handler nb) hub)]\<rparr>))
   }"

text \<open>The rest of an iteration of a worker's loop, once the handler has returned.\<close>

definition DBWorker_report ::
  "(string list \<Rightarrow> string list) \<Rightarrow> nat \<Rightarrow> 'h DBJob \<Rightarrow> bool \<Rightarrow> 'h pipeline \<Rightarrow> 'h pipeline option" where
  "DBWorker_report ord worker job failed s = do {
     let hub = job_conflationUnitResultReporter job;
     cu \<leftarrow> unitOf s hub;
     m \<leftarrow> metadatas (cu_store cu) (job_bundleMetadata job);
     (cu', rq') \<leftarrow> ReportResult ord hub (job_bundleMetadata job) failed cu (ready_queue s);
     Some (s\<lparr>manager := setUnit hub cu' (manager s), ready_queue := rq',
       running := AList.delete worker (running s), idle_workers := idle_workers s @ [worker],
       processed := processed s @ (if failed then [] else [(hub, m)])\<rparr>)
   }"

inductive pipeline_step :: "(string list \<Rightarrow> string list) \<Rightarrow> 'h pipeline \<Rightarrow> 'h pipeline \<Rightarrow> bool" for ord where
  receive: "ConflationManager_Insert ord bundle metadata (manager s) (ready_queue s) = Some (cm', rq')
     \<Longrightarrow> pipeline_step ord s (s\<lparr>manager := cm', ready_queue := rq'\<rparr>)"
| dequeue: "dispatcher s = Waiting \<Longrightarrow> BlockingDequeue (ready_queue s) = Some (hub, rq')
     \<Longrightarrow> pipeline_step ord s (s\<lparr>dispatcher := Holding hub, ready_queue := rq'\<rparr>)"
| acquire: "dispatcher s = Holding hub \<Longrightarrow> idle_workers s = worker # idle
     \<Longrightarrow> pipeline_step ord s (s\<lparr>dispatcher := Acquired hub worker, idle_workers := idle\<rparr>)"
| get_next: "dispatcher s = Acquired hub worker \<Longrightarrow> Dispatcher_GetNext hub worker s = Some s'
     \<Longrightarrow> pipeline_step ord s s'"
| report: "(worker, job) \<in> set (running s) \<Longrightarrow> DBWorker_report ord worker job failed s = Some s'
     \<Longrightarrow> pipeline_step ord s s'"

inductive reachable :: "(string list \<Rightarrow> string list) \<Rightarrow> 'h pipeline \<Rightarrow> 'h pipeline \<Rightarrow> bool" for ord s0 where
  init: "reachable ord s0 s0"
| step: "reachable ord s0 s \<Longrightarrow> pipeline_step ord s s' \<Longrightarrow> reachable ord s0 s'"

inductive_cases pipeline_stepE: "pipeline_step ord s s'"

section \<open>Invariant\<close>

text \<open>The hubs that are queued or in the hands of the dispatcher, and the metadata of a hub's job.\<close>

definition announced :: "'h pipeline \<Rightarrow> string list" where
  "announced s = (case dispatcher s of Waiting \<Rightarrow> [] | Holding h \<Rightarrow> [h] | Acquired h w \<Rightarrow> [h]) @ ready_queue s"

definition jobOf :: "'h pipeline \<Rightarrow> string \<Rightarrow> addr option" where
  "jobOf s hub = map_of (map (\<lambda>(w, j). (job_conflationUnitResultReporter j, job_bundleMetadata j)) (running s)) hub"

definition busy_workers :: "'h pipeline \<Rightarrow> nat list" where
  "busy_workers s = (case dispatcher s of Acquired h w \<Rightarrow> [w] | _ \<Rightarrow> []) @ map fst (running s)"

definition pipeline_inv :: "'h pipeline \<Rightarrow> bool" where
  "pipeline_inv s \<longleftrightarrow>
     wf_registrations (registrations (manager s))
     \<and> (\<forall>hub cu. unitOf s hub = Some cu \<longrightarrow> cu_inv cu (jobOf s hub))
     \<and> distinct (map (job_conflationUnitResultReporter \<circ> snd) (running s))
     \<and> (\<forall>(w, j)\<in>set (running s). unitOf s (job_conflationUnitResultReporter j) \<noteq> None)
     \<and> distinct (announced s)
     \<and> (\<forall>hub\<in>set (announced s). \<exists>cu. unitOf s hub = Some cu \<and> isInReadyQueue cu)
     \<and> distinct (busy_workers s @ idle_workers s)"

section \<open>Effects on the ready queue\<close>

lemma insert_queue:
  assumes "ConflationUnit_insert ord me b tm cu rq = Some (cu', rq')"
  shows "rq' = (if isInReadyQueue cu' \<and> \<not> isInReadyQueue cu then rq @ [me] else rq)
     \<and> (isInReadyQueue cu \<longrightarrow> isInReadyQueue cu')"
  using assms
proof (cases rule: insert_cases)
  case (ignored t st)
  then show ?thesis by simp
next
  case (updated t st e e' st')
  with addCU_fields(5,6) [OF updated(5)] show ?thesis by simp
qed

lemma report_queue:
  assumes "ReportResult ord me a failed cu rq = Some (cu', rq')"
  shows "rq' = (if isInReadyQueue cu' \<and> \<not> isInReadyQueue cu then rq @ [me] else rq)
     \<and> (isInReadyQueue cu \<longrightarrow> isInReadyQueue cu')"
proof -
  from assms obtain p e' st where
    "addCUToReadyQueueIfNeeded me ((setElement cu p e')\<lparr>cu_store := st\<rparr>) rq = (cu', rq')"
    by (auto simp: ReportResult_def Let_def bind_eq_Some_conv)
  from addCU_fields(5,6) [OF this] show ?thesis by simp
qed

section \<open>Preservation\<close>

lemma map_of_setUnit [simp]: "map_of (conflationUnits (setUnit hub cu cm)) = (map_of (conflationUnits cm))(hub \<mapsto> cu)"
  by (simp add: setUnit_def)

lemma registrations_setUnit [simp]: "registrations (setUnit hub cu cm) = registrations cm"
  by (simp add: setUnit_def)

lemma jobOf_None_iff: "jobOf s hub = None \<longleftrightarrow> hub \<notin> (job_conflationUnitResultReporter \<circ> snd) ` set (running s)"
  by (force simp: jobOf_def map_of_eq_None_iff image_image)

lemma jobOf_running:
  assumes "distinct (map (job_conflationUnitResultReporter \<circ> snd) (running s))" and "(w, j) \<in> set (running s)"
  shows "jobOf s (job_conflationUnitResultReporter j) = Some (job_bundleMetadata j)"
proof -
  have "distinct (map fst (map (\<lambda>(w, j). (job_conflationUnitResultReporter j, job_bundleMetadata j)) (running s)))"
    using assms(1) by (simp add: comp_def case_prod_beta)
  then show ?thesis
    unfolding jobOf_def using assms(2) by (intro map_of_is_SomeI) force+
qed

lemma getConflationUnit_ok:
  assumes "wf_registrations (registrations cm)"
    and "\<And>cu. map_of (conflationUnits cm) hub = Some cu \<Longrightarrow> cu_inv cu infl"
    and "map_of (conflationUnits cm) hub = None \<Longrightarrow> infl = None"
  shows "\<exists>cu cm1. getConflationUnit hub cm = Some (cu, cm1) \<and> cu_inv cu infl
     \<and> registrations cm1 = registrations cm
     \<and> map_of (conflationUnits cm1) = (map_of (conflationUnits cm))(hub \<mapsto> cu)
     \<and> (map_of (conflationUnits cm) hub = None \<longrightarrow> \<not> isInReadyQueue cu)"
proof (cases "map_of (conflationUnits cm) hub")
  case None
  with newConflationUnit_inv [OF assms(1), of "cm_requireInitialDependencyChecks cm"] assms(3) show ?thesis
    by (auto simp: getConflationUnit_def)
next
  case (Some cu)
  with assms(2) show ?thesis by (auto simp: getConflationUnit_def)
qed

text \<open>
  The common part of the two steps that may announce a hub: its unit is replaced and the ready queue
  grows by the hub exactly if the unit became announced.
\<close>

lemma announce_ok:
  assumes "distinct (announced s)" and "\<forall>h\<in>set (announced s). \<exists>cu. unitOf s h = Some cu \<and> isInReadyQueue cu"
    and "\<And>cu. unitOf s hub = Some cu \<Longrightarrow> isInReadyQueue cu = r" and "unitOf s hub = None \<Longrightarrow> \<not> r"
    and "rq' = (if isInReadyQueue cu' \<and> \<not> r then ready_queue s @ [hub] else ready_queue s)"
    and "r \<longrightarrow> isInReadyQueue cu'"
    and "announced s' = (case dispatcher s of Waiting \<Rightarrow> [] | Holding h \<Rightarrow> [h] | Acquired h w \<Rightarrow> [h]) @ rq'"
    and "unitOf s' = (unitOf s)(hub \<mapsto> cu')"
  shows "distinct (announced s') \<and> (\<forall>h\<in>set (announced s'). \<exists>cu. unitOf s' h = Some cu \<and> isInReadyQueue cu)"
proof (cases "isInReadyQueue cu' \<and> \<not> r")
  case True
  then have a: "announced s' = announced s @ [hub]" using assms(5,7) by (simp add: announced_def)
  have "hub \<notin> set (announced s)" using True assms(2,3) by auto
  with a True assms(1,2,8) show ?thesis by auto
next
  case False
  then have a: "announced s' = announced s" using assms(5,7) by (auto simp: announced_def)
  have "hub \<in> set (announced s) \<Longrightarrow> isInReadyQueue cu'" using assms(2,3,6) by auto
  with a assms(1,2,8) show ?thesis by auto
qed

lemma receive_ok:
  assumes inv: "pipeline_inv s"
  shows "\<exists>cm' rq'. ConflationManager_Insert ord b tm (manager s) (ready_queue s) = Some (cm', rq')
     \<and> pipeline_inv (s\<lparr>manager := cm', ready_queue := rq'\<rparr>)"
proof -
  let ?hub = "GetLeafHubName b"
  have "jobOf s ?hub = None" if "unitOf s ?hub = None"
    using inv that by (force simp: pipeline_inv_def jobOf_None_iff)
  with inv obtain cu cm1 where cu: "getConflationUnit ?hub (manager s) = Some (cu, cm1)" "cu_inv cu (jobOf s ?hub)"
    "registrations cm1 = registrations (manager s)"
    "map_of (conflationUnits cm1) = (map_of (conflationUnits (manager s)))(?hub \<mapsto> cu)"
    "map_of (conflationUnits (manager s)) ?hub = None \<longrightarrow> \<not> isInReadyQueue cu"
    using getConflationUnit_ok [of "manager s" ?hub "jobOf s ?hub"] by (auto simp: pipeline_inv_def unitOf_def)
  from insert_inv [OF cu(2), of ord ?hub b tm "ready_queue s"] obtain cu' rq' where
    ins: "ConflationUnit_insert ord ?hub b tm cu (ready_queue s) = Some (cu', rq')" and inv': "cu_inv cu' (jobOf s ?hub)"
    by blast
  note q = insert_queue [OF ins]
  let ?s' = "s\<lparr>manager := setUnit ?hub cu' cm1, ready_queue := rq'\<rparr>"
  have units: "unitOf ?s' = (unitOf s)(?hub \<mapsto> cu')" using cu(4) by (auto simp: unitOf_def fun_eq_iff)
  have old: "unitOf s ?hub = Some c \<Longrightarrow> c = cu" for c
    using cu(1) by (auto simp: unitOf_def getConflationUnit_def)
  have "distinct (announced ?s') \<and> (\<forall>h\<in>set (announced ?s'). \<exists>cu. unitOf ?s' h = Some cu \<and> isInReadyQueue cu)"
    using inv q cu(5) old units
    by (intro announce_ok [of s ?hub "isInReadyQueue cu" rq' cu']) (auto simp: pipeline_inv_def announced_def unitOf_def)
  with inv inv' cu(3) units have "pipeline_inv ?s'"
    by (auto simp: pipeline_inv_def jobOf_def busy_workers_def)
  with cu(1) ins show ?thesis by (simp add: ConflationManager_Insert_def)
qed

lemma get_next_ok:
  assumes inv: "pipeline_inv s" and d: "dispatcher s = Acquired hub worker"
  shows "\<exists>s'. Dispatcher_GetNext hub worker s = Some s' \<and> pipeline_inv s'"
proof -
  from inv d obtain cu where cu: "unitOf s hub = Some cu" "isInReadyQueue cu" "cu_inv cu (jobOf s hub)"
    by (auto simp: pipeline_inv_def announced_def)
  then have nojob: "jobOf s hub = None" by (cases "jobOf s hub") (auto simp: cu_inv_Some)
  show ?thesis
  proof (cases "getNextReadyBundlePriority cu")
    case None
    have "pipeline_inv (s\<lparr>dispatcher := Waiting\<rparr>)"
      using inv d by (auto simp: pipeline_inv_def announced_def busy_workers_def unitOf_def jobOf_def)
    with cu GetNext_nothing [OF None] show ?thesis by (simp add: Dispatcher_GetNext_def)
  next
    case (Some p)
    from cu nojob have "cu_inv cu None" by simp
    from GetNext_inv [OF this Some] obtain nb cu' where n: "GetNext cu = Some (Inr (nb, cu'))"
      "cu_inv cu' (Some (nb_metadata nb))" by auto
    let ?s' = "s\<lparr>manager := setUnit hub cu' (manager s), dispatcher := Waiting,
      running := running s @ [(worker, NewDBJob (nb_bundle nb) (nb_metadata nb) (nb_handler nb) hub)]\<rparr>"
    have units: "unitOf ?s' = (unitOf s)(hub \<mapsto> cu')" by (simp add: unitOf_def fun_eq_iff)
    have job: "jobOf ?s' = (jobOf s)(hub \<mapsto> nb_metadata nb)"
      using nojob by (auto simp: jobOf_def NewDBJob_def map_add_def fun_eq_iff split: option.splits)
    have notin: "hub \<notin> set (ready_queue s)" "hub \<notin> (job_conflationUnitResultReporter \<circ> snd) ` set (running s)"
      using inv d nojob by (auto simp: pipeline_inv_def announced_def jobOf_None_iff)
    have "pipeline_inv ?s'"
      using inv d units job n(2) notin cu
      by (auto simp: pipeline_inv_def announced_def busy_workers_def NewDBJob_def)
    with cu n show ?thesis by (simp add: Dispatcher_GetNext_def)
  qed
qed

lemma delete_running:
  assumes "distinct (map fst rs)" and "distinct (map (job_conflationUnitResultReporter \<circ> snd) rs)" and "(w, j) \<in> set rs"
  shows "set (AList.delete w rs) = set rs - {(w, j)}"
    and "distinct (map (job_conflationUnitResultReporter \<circ> snd) (AList.delete w rs))"
    and "map_of (map (\<lambda>(w, j). (job_conflationUnitResultReporter j, job_bundleMetadata j)) (AList.delete w rs))
      = (map_of (map (\<lambda>(w, j). (job_conflationUnitResultReporter j, job_bundleMetadata j)) rs))
          (job_conflationUnitResultReporter j := None)"
proof -
  show "set (AList.delete w rs) = set rs - {(w, j)}"
    using assms(1,3) by (auto simp: AList.delete_eq dest: eq_key_imp_eq_value)
  show "distinct (map (job_conflationUnitResultReporter \<circ> snd) (AList.delete w rs))"
    using assms(2) by (simp add: AList.delete_eq distinct_map_filter)
  show "map_of (map (\<lambda>(w, j). (job_conflationUnitResultReporter j, job_bundleMetadata j)) (AList.delete w rs))
      = (map_of (map (\<lambda>(w, j). (job_conflationUnitResultReporter j, job_bundleMetadata j)) rs))
          (job_conflationUnitResultReporter j := None)"
    using assms
  proof (induction rs)
    case (Cons x rs)
    obtain w' j' where x: "x = (w', j')" by fastforce
    show ?case
    proof (cases "w' = w")
      case True
      with Cons.prems x have "j' = j" and "AList.delete w rs = rs"
        and "job_conflationUnitResultReporter j \<notin> (job_conflationUnitResultReporter \<circ> snd) ` set rs"
        by (auto dest: set_zip_leftD simp: delete_idem image_iff)
      then have "map_of (map (\<lambda>(w, j). (job_conflationUnitResultReporter j, job_bundleMetadata j)) rs)
          (job_conflationUnitResultReporter j) = None"
        by (force simp: map_of_eq_None_iff)
      with True x \<open>j' = j\<close> \<open>AList.delete w rs = rs\<close> show ?thesis by (auto simp: fun_eq_iff)
    next
      case False
      with Cons.prems x have "(w, j) \<in> set rs" by auto
      with Cons.prems x have "job_conflationUnitResultReporter j' \<noteq> job_conflationUnitResultReporter j"
        by (force simp: image_iff)
      with False Cons x \<open>(w, j) \<in> set rs\<close> show ?thesis by (auto simp: fun_eq_iff)
    qed
  qed simp
qed

lemma mset_delete_running:
  "distinct (map fst rs) \<Longrightarrow> (w, j) \<in> set rs \<Longrightarrow> add_mset w (mset (map fst (AList.delete w rs))) = mset (map fst rs)"
proof (induction rs)
  case (Cons x rs)
  show ?case
  proof (cases "fst x = w")
    case True
    with Cons.prems have "AList.delete w rs = rs" by (auto simp: delete_idem)
    with True show ?thesis by (cases x) simp
  next
    case False
    with Cons show ?thesis by (cases x) (auto simp: add_mset_commute)
  qed
qed simp

lemma report_ok:
  assumes inv: "pipeline_inv s" and job: "(worker, job) \<in> set (running s)"
  shows "\<exists>s'. DBWorker_report ord worker job failed s = Some s' \<and> pipeline_inv s'"
proof -
  let ?hub = "job_conflationUnitResultReporter job" and ?a = "job_bundleMetadata job"
  from inv job have jo: "jobOf s ?hub = Some ?a" by (intro jobOf_running) (auto simp: pipeline_inv_def)
  with inv job obtain cu where cu: "unitOf s ?hub = Some cu" "cu_inv cu (Some ?a)"
    by (fastforce simp: pipeline_inv_def)
  obtain m where m: "metadatas (cu_store cu) ?a = Some m" using cu(2) by (rule ReportResult_step)
  from ReportResult_inv [OF cu(2), of ord ?hub failed "ready_queue s"] obtain cu' rq' where
    r: "ReportResult ord ?hub ?a failed cu (ready_queue s) = Some (cu', rq')" and inv': "cu_inv cu' None"
    by blast
  note q = report_queue [OF r]
  let ?s' = "s\<lparr>manager := setUnit ?hub cu' (manager s), ready_queue := rq',
       running := AList.delete worker (running s), idle_workers := idle_workers s @ [worker],
       processed := processed s @ (if failed then [] else [(?hub, m)])\<rparr>"
  have units: "unitOf ?s' = (unitOf s)(?hub \<mapsto> cu')" by (simp add: unitOf_def fun_eq_iff)
  have dist: "distinct (map fst (running s))" "distinct (map (job_conflationUnitResultReporter \<circ> snd) (running s))"
    using inv by (auto simp: pipeline_inv_def busy_workers_def)
  note del = delete_running [OF dist job]
  have jobs: "jobOf ?s' = (jobOf s)(?hub := None)" using del(3) by (simp add: jobOf_def fun_eq_iff)
  have "distinct (announced ?s') \<and> (\<forall>h\<in>set (announced ?s'). \<exists>cu. unitOf ?s' h = Some cu \<and> isInReadyQueue cu)"
    using inv q cu(1) units
    by (intro announce_ok [of s ?hub "isInReadyQueue cu" rq' cu']) (auto simp: pipeline_inv_def announced_def)
  moreover have "distinct (busy_workers ?s' @ idle_workers ?s')"
  proof (rule mset_eq_imp_distinct_iff [THEN iffD2])
    show "mset (busy_workers ?s' @ idle_workers ?s') = mset (busy_workers s @ idle_workers s)"
      using mset_delete_running [OF dist(1) job] by (simp add: busy_workers_def)
    show "distinct (busy_workers s @ idle_workers s)" using inv by (simp add: pipeline_inv_def)
  qed
  ultimately have "pipeline_inv ?s'"
    using inv inv' units jobs del(1,2) by (auto simp: pipeline_inv_def)
  with cu m r show ?thesis by (simp add: DBWorker_report_def Let_def)
qed

lemma dequeue_ok:
  assumes "pipeline_inv s" and "dispatcher s = Waiting" and "BlockingDequeue (ready_queue s) = Some (hub, rq')"
  shows "pipeline_inv (s\<lparr>dispatcher := Holding hub, ready_queue := rq'\<rparr>)"
  using assms
  by (auto simp: pipeline_inv_def announced_def busy_workers_def unitOf_def jobOf_def BlockingDequeue_def
      split: list.splits)

lemma acquire_ok:
  assumes "pipeline_inv s" and "dispatcher s = Holding hub" and "idle_workers s = worker # idle"
  shows "pipeline_inv (s\<lparr>dispatcher := Acquired hub worker, idle_workers := idle\<rparr>)"
  using assms by (auto simp: pipeline_inv_def announced_def busy_workers_def unitOf_def jobOf_def)

lemma pipeline_step_inv:
  assumes "pipeline_step ord s s'" and "pipeline_inv s"
  shows "pipeline_inv s'"
  using assms
proof (cases rule: pipeline_step.cases)
  case (receive b tm cm' rq')
  with receive_ok [OF assms(2), of ord b tm] show ?thesis by auto
next
  case (get_next hub worker)
  with get_next_ok [OF assms(2)] show ?thesis by fastforce
next
  case (report worker job failed)
  with report_ok [OF assms(2), of worker job ord failed] show ?thesis by auto
qed (auto intro: dequeue_ok acquire_ok assms(2))

lemma registrations_fold: "registrations (fold Register regs cm) = registrations cm @ regs"
  by (induction regs arbitrary: cm) (simp_all add: Register_def)

lemma conflationUnits_fold: "conflationUnits (fold Register regs cm) = conflationUnits cm"
  by (induction regs arbitrary: cm) (simp_all add: Register_def)

lemma start_pipeline_inv: "wf_registrations regs \<Longrightarrow> pipeline_inv (start_pipeline regs b n)"
  by (simp add: pipeline_inv_def start_pipeline_def registrations_fold conflationUnits_fold unitOf_def
      NewConflationManager_def announced_def busy_workers_def)

lemma reachable_inv:
  "reachable ord s0 s \<Longrightarrow> pipeline_inv s0 \<Longrightarrow> pipeline_inv s"
  by (induction rule: reachable.induct) (auto intro: pipeline_step_inv)

lemma pipeline_inv_unit: "pipeline_inv s \<Longrightarrow> unitOf s hub = Some cu \<Longrightarrow> cu_inv cu (jobOf s hub)"
  by (simp add: pipeline_inv_def)

end
