(* ===== verification/GH_PipelineProps.thy ===== *)
theory GH_PipelineProps
  imports GH_Pipeline
begin

text \<open>
  Properties of the whole pipeline over all interleavings: no panic and one job per leaf hub, the
  order in which versions are processed, and the one way in which a leaf hub can stop being served.
\<close>

section \<open>Safety\<close>

text \<open>
  C32. Whatever the interleaving of received bundles, dispatcher and workers, and whichever handlers
  fail: every conflation unit keeps its invariant, with the job of its leaf hub, if it has one, as the
  one in process; inserting, \<open>GetNext\<close> and \<open>ReportResult\<close> never panic, no leaf hub has two jobs at
  the same time, no leaf hub is twice in the ready queue, and none is queued while it has a job.
\<close>

theorem pipeline_safe:
  assumes "reachable ord (start_pipeline conflationRegistrations requireInitial poolSize) s"
  shows "(case unitOf s leafHub of None \<Rightarrow> True | Some cu \<Rightarrow> cu_inv cu (jobOf s leafHub))
     \<and> ConflationManager_Insert ord b tm (manager s) (ready_queue s) \<noteq> None
     \<and> (dispatcher s = Acquired hub w \<longrightarrow> Dispatcher_GetNext hub w s \<noteq> None)
     \<and> ((w, job) \<in> set (running s) \<longrightarrow> DBWorker_report ord w job failed s \<noteq> None)
     \<and> distinct (map (job_conflationUnitResultReporter \<circ> snd) (running s))
     \<and> distinct (ready_queue s)
     \<and> set (ready_queue s) \<inter> (job_conflationUnitResultReporter \<circ> snd) ` set (running s) = {}"
proof -
  have inv: "pipeline_inv s"
    using reachable_inv [OF assms start_pipeline_inv] wf_conflationRegistrations by blast
  have "h \<notin> set (ready_queue s)" if "(w, j) \<in> set (running s)" and "h = job_conflationUnitResultReporter j" for w j h
  proof
    assume "h \<in> set (ready_queue s)"
    then have "h \<in> set (announced s)" by (simp add: announced_def)
    with inv obtain cu where "unitOf s h = Some cu" "isInReadyQueue cu"
      by (auto simp: pipeline_inv_def)
    moreover have "jobOf s h = Some (job_bundleMetadata j)"
      using inv that by (auto simp: pipeline_inv_def intro: jobOf_running)
    ultimately show False using pipeline_inv_unit [OF inv] by (fastforce simp: cu_inv_Some)
  qed
  with inv receive_ok [OF inv, of ord b tm] get_next_ok [OF inv, of hub w] report_ok [OF inv, of w job ord failed]
  show ?thesis by (auto simp: pipeline_inv_def announced_def split: option.split)
qed

section \<open>Order of processing\<close>

definition isCompleteInfo :: "bundleInfo \<Rightarrow> bool" where
  "isCompleteInfo info = (case info of CompleteInfo _ \<Rightarrow> True | DeltaInfo _ \<Rightarrow> False)"

text \<open>What no operation on a unit changes, and that the processed versions only grow.\<close>

definition cu_le :: "'h ConflationUnit \<Rightarrow> 'h ConflationUnit \<Rightarrow> bool" where
  "cu_le cu cu' \<longleftrightarrow>
     bundleTypeToPriority cu' = bundleTypeToPriority cu
     \<and> (\<forall>p<length (priorityQueue cu).
          lastProcessedBundleVersion (priorityQueue cu ! p) \<le> lastProcessedBundleVersion (priorityQueue cu' ! p)
          \<and> isCompleteInfo (bundleInfo (priorityQueue cu' ! p)) = isCompleteInfo (bundleInfo (priorityQueue cu ! p)))"

lemma cu_le_refl [simp]: "cu_le cu cu"
  by (simp add: cu_le_def)

lemma cu_le_put:
  assumes "lastProcessedBundleVersion (priorityQueue cu ! p) \<le> lastProcessedBundleVersion e"
    and "isCompleteInfo (bundleInfo e) = isCompleteInfo (bundleInfo (priorityQueue cu ! p))"
    and "bundleTypeToPriority cu' = bundleTypeToPriority cu" and "priorityQueue cu' = (priorityQueue cu)[p := e]"
  shows "cu_le cu cu'"
  using assms by (cases "p < length (priorityQueue cu)") (auto simp: cu_le_def nth_list_update)

lemma conflationElement_update_kind:
  "conflationElement_update ord e b t st = Inr (e', st') \<Longrightarrow>
     lastProcessedBundleVersion e' = lastProcessedBundleVersion e
     \<and> isCompleteInfo (bundleInfo e') = isCompleteInfo (bundleInfo e)"
  by (auto simp: conflationElement_update_def info_update_def isCompleteInfo_def map_prod_def
      split: sum.splits bundleInfo.splits prod.splits)

lemma insert_cu_le:
  assumes "ConflationUnit_insert ord me b tm cu rq = Some (cu', rq')"
  shows "cu_le cu cu'"
  using assms
proof (cases rule: insert_cases)
  case (ignored t st)
  then show ?thesis by (simp add: cu_le_def)
next
  case (updated t st e e' st')
  with conflationElement_update_kind [OF updated(4)] addCU_fields(1,3) [OF updated(5)] show ?thesis
    by (intro cu_le_put [where e = e']) (auto simp: elementAt_Some)
qed

lemma GetNext_cu_le:
  assumes "GetNext cu = Some (Inr (nb, cu'))"
  shows "cu_le cu cu'"
proof -
  from assms obtain p e info a st where p: "elementAt cu p = Some e"
    "info_getMetadata (bundleInfo e) (cu_store cu) = Some (info, a, st)"
    "cu' = (setElement cu p (e\<lparr>isInProcess := True, bundleInfo := info\<rparr>))\<lparr>isInReadyQueue := False, cu_store := st\<rparr>"
    by (auto simp: GetNext_def bind_eq_Some_conv split: option.splits)
  then have "isCompleteInfo info = isCompleteInfo (bundleInfo e)"
    by (auto simp: info_getMetadata_def isCompleteInfo_def split: bundleInfo.splits)
  with p show ?thesis
    by (intro cu_le_put [where e = "e\<lparr>isInProcess := True, bundleInfo := info\<rparr>"]) (auto simp: elementAt_Some)
qed

lemma reportElement_kind:
  "reportElement ord a m failed e st = Some (e', st') \<Longrightarrow>
     lastProcessedBundleVersion e \<le> lastProcessedBundleVersion e'
     \<and> isCompleteInfo (bundleInfo e') = isCompleteInfo (bundleInfo e)
     \<and> (failed \<or> bm_bundleVersion m \<le> lastProcessedBundleVersion e')"
  by (auto simp: reportElement_def info_markAsProcessed_def isCompleteInfo_def Let_def bind_eq_Some_conv
      split: if_splits bundleInfo.splits)

lemma ReportResult_cu_le:
  assumes "ReportResult ord me a failed cu rq = Some (cu', rq')" and "metadatas (cu_store cu) a = Some m"
  shows "cu_le cu cu'" and "\<not> failed \<Longrightarrow>
     bm_bundleVersion m \<le> lastProcessedBundleVersion (priorityQueue cu' ! priorityOf cu' (bm_bundleType m))"
proof -
  let ?p = "priorityOf cu (bm_bundleType m)"
  from assms obtain e e' st where e: "elementAt cu ?p = Some e"
    "reportElement ord a m failed e (cu_store cu) = Some (e', st)"
    "addCUToReadyQueueIfNeeded me ((setElement cu ?p e')\<lparr>cu_store := st\<rparr>) rq = (cu', rq')"
    by (auto simp: ReportResult_def Let_def bind_eq_Some_conv)
  with reportElement_kind [OF e(2)] addCU_fields(1,3) [OF e(3)]
  show "cu_le cu cu'" by (intro cu_le_put [where e = e' and p = ?p]) (auto simp: elementAt_Some)
  from addCU_fields(3) [OF e(3)] have "priorityOf cu' = priorityOf cu" by (simp add: priorityOf_def fun_eq_iff)
  with reportElement_kind [OF e(2)] addCU_fields(1) [OF e(3)] e(1)
  show "\<not> failed \<Longrightarrow>
     bm_bundleVersion m \<le> lastProcessedBundleVersion (priorityQueue cu' ! priorityOf cu' (bm_bundleType m))"
    by (auto simp: elementAt_Some)
qed

definition completeType :: "'h ConflationUnit \<Rightarrow> string \<Rightarrow> bool" where
  "completeType cu ty = isCompleteInfo (bundleInfo (priorityQueue cu ! priorityOf cu ty))"

text \<open>The versions of one bundle type of one leaf hub that were processed, in the order of processing.\<close>

definition processedVersions :: "string \<Rightarrow> string \<Rightarrow> 'h pipeline \<Rightarrow> BundleVersion list" where
  "processedVersions hub ty s =
     map (bm_bundleVersion \<circ> snd) (filter (\<lambda>(h, m). h = hub \<and> bm_bundleType m = ty) (processed s))"

definition history_inv :: "'h pipeline \<Rightarrow> bool" where
  "history_inv s \<longleftrightarrow>
     (\<forall>(hub, m)\<in>set (processed s). \<exists>cu. unitOf s hub = Some cu
        \<and> bm_bundleVersion m \<le> lastProcessedBundleVersion (priorityQueue cu ! priorityOf cu (bm_bundleType m)))
     \<and> (\<forall>hub ty cu. unitOf s hub = Some cu \<and> completeType cu ty \<longrightarrow> sorted_wrt (<) (processedVersions hub ty s))"

lemma cu_le_priorityOf: "cu_le cu cu' \<Longrightarrow> priorityOf cu' = priorityOf cu"
  by (simp add: cu_le_def priorityOf_def fun_eq_iff)

lemma cu_le_at:
  assumes "cu_le cu cu'" and "wf_static cu"
  shows "lastProcessedBundleVersion (priorityQueue cu ! priorityOf cu ty)
       \<le> lastProcessedBundleVersion (priorityQueue cu' ! priorityOf cu' ty)"
    and "completeType cu' ty = completeType cu ty"
  using assms by (auto simp: cu_le_priorityOf completeType_def) (auto simp: cu_le_def wf_static_def)

lemma unit_static: "pipeline_inv s \<Longrightarrow> unitOf s hub = Some cu \<Longrightarrow> wf_static cu"
  using pipeline_inv_unit cu_inv_base by (fastforce simp: cu_base_def)

lemma history_unit:
  assumes "history_inv s" and "(hub, m) \<in> set (processed s)"
  obtains cu where "unitOf s hub = Some cu"
    "bm_bundleVersion m \<le> lastProcessedBundleVersion (priorityQueue cu ! priorityOf cu (bm_bundleType m))"
  using assms by (auto simp: history_inv_def)

lemma processedVersions_bound:
  assumes "history_inv s" and "v \<in> set (processedVersions hub ty s)" and "unitOf s hub = Some cu"
  shows "v \<le> lastProcessedBundleVersion (priorityQueue cu ! priorityOf cu ty)"
  using assms(2,3) by (fastforce simp: processedVersions_def elim: history_unit [OF assms(1)])

lemma history_put:
  assumes hist: "history_inv s" and inv: "pipeline_inv s"
    and units: "unitOf s' = (unitOf s)(hub \<mapsto> cu')" and log: "processed s' = processed s"
    and le: "\<And>cu. unitOf s hub = Some cu \<Longrightarrow> cu_le cu cu'"
  shows "history_inv s'"
proof -
  have vs: "processedVersions h ty s' = processedVersions h ty s" for h ty
    by (simp add: processedVersions_def log)
  have "\<exists>cu. unitOf s' h = Some cu \<and> bm_bundleVersion m
      \<le> lastProcessedBundleVersion (priorityQueue cu ! priorityOf cu (bm_bundleType m))"
    if hm: "(h, m) \<in> set (processed s)" for h m
  proof -
    obtain cu where cu: "unitOf s h = Some cu"
      "bm_bundleVersion m \<le> lastProcessedBundleVersion (priorityQueue cu ! priorityOf cu (bm_bundleType m))"
      by (rule history_unit [OF hist hm])
    show ?thesis
    proof (cases "h = hub")
      case True
      with cu le have "cu_le cu cu'" by simp
      from cu_le_at(1) [OF this unit_static [OF inv cu(1)]] cu(2) True units show ?thesis
        by (auto intro: order_trans)
    next
      case False
      with cu units show ?thesis by simp
    qed
  qed
  moreover have "sorted_wrt (<) (processedVersions h ty s)" if u: "unitOf s' h = Some cu" "completeType cu ty" for h ty cu
  proof (cases "unitOf s h")
    case None
    then have "processedVersions h ty s = []"
      by (auto simp: processedVersions_def filter_empty_conv elim: history_unit [OF hist])
    then show ?thesis by simp
  next
    case (Some c)
    have "completeType c ty"
    proof (cases "h = hub")
      case True
      with Some le have "cu_le c cu'" by simp
      from cu_le_at(2) [OF this unit_static [OF inv Some]] u True units show ?thesis by simp
    next
      case False
      with u Some units show ?thesis by simp
    qed
    with hist Some show ?thesis by (auto simp: history_inv_def)
  qed
  ultimately show ?thesis
    unfolding history_inv_def log vs by auto
qed

lemma history_append:
  assumes hist: "history_inv s" and cu: "unitOf s hub = Some cu"
    and log: "processed s' = processed s @ [(hub, m)]" and units: "unitOf s' = unitOf s"
    and le: "bm_bundleVersion m \<le> lastProcessedBundleVersion (priorityQueue cu ! priorityOf cu (bm_bundleType m))"
    and newer: "\<And>v. completeType cu (bm_bundleType m) \<Longrightarrow> v \<in> set (processedVersions hub (bm_bundleType m) s)
       \<Longrightarrow> v < bm_bundleVersion m"
  shows "history_inv s'"
proof -
  have vs: "processedVersions h ty s' = processedVersions h ty s
      @ (if h = hub \<and> ty = bm_bundleType m then [bm_bundleVersion m] else [])" for h ty
    by (simp add: processedVersions_def log)
  have "sorted_wrt (<) (processedVersions h ty s')" if "unitOf s h = Some c" "completeType c ty" for h ty c
    using that hist newer cu unfolding vs by (auto simp: sorted_wrt_append history_inv_def)
  with hist cu le show ?thesis
    unfolding history_inv_def log units by auto
qed

lemma report_newer:
  assumes "cu_inv cu (Some a)" and "metadatas (cu_store cu) a = Some m" and "completeType cu (bm_bundleType m)"
  shows "lastProcessedBundleVersion (priorityQueue cu ! priorityOf cu (bm_bundleType m)) < bm_bundleVersion m"
proof -
  from assms(1) obtain i where i: "inflight_ok (priorityOf cu) (cu_store cu) a i (priorityQueue cu ! i)"
    by (auto simp: cu_inv_Some)
  with assms(2) have "i = priorityOf cu (bm_bundleType m)" by (auto simp: inflight_ok_def good_metadata_def)
  with i assms(2,3) show ?thesis
    by (auto simp: inflight_ok_def completeType_def isCompleteInfo_def split: bundleInfo.splits)
qed

lemma receive_units:
  assumes "ConflationManager_Insert ord b tm (manager s) (ready_queue s) = Some (cm', rq')"
  obtains cu' where "unitOf (s\<lparr>manager := cm', ready_queue := rq'\<rparr>) = (unitOf s)(GetLeafHubName b \<mapsto> cu')"
    "\<And>cu. unitOf s (GetLeafHubName b) = Some cu \<Longrightarrow>
       ConflationUnit_insert ord (GetLeafHubName b) b tm cu (ready_queue s) = Some (cu', rq')"
proof -
  from assms obtain cu cm1 cu' where c: "getConflationUnit (GetLeafHubName b) (manager s) = Some (cu, cm1)"
    "ConflationUnit_insert ord (GetLeafHubName b) b tm cu (ready_queue s) = Some (cu', rq')"
    "cm' = setUnit (GetLeafHubName b) cu' cm1"
    by (auto simp: ConflationManager_Insert_def bind_eq_Some_conv)
  then show ?thesis
    by (intro that [of cu']) (auto simp: unitOf_def fun_eq_iff getConflationUnit_def bind_eq_Some_conv split: option.splits)
qed

lemma get_next_cases:
  assumes "Dispatcher_GetNext hub worker s = Some s'"
  obtains (nothing) cu where "unitOf s hub = Some cu" "GetNext cu = Some (Inl errNoReadyBundle)" "s' = s\<lparr>dispatcher := Waiting\<rparr>"
  | (job) cu nb cu' where "unitOf s hub = Some cu" "GetNext cu = Some (Inr (nb, cu'))"
      "s' = s\<lparr>manager := setUnit hub cu' (manager s), dispatcher := Waiting,
            running := running s @ [(worker, NewDBJob (nb_bundle nb) (nb_metadata nb) (nb_handler nb) hub)]\<rparr>"
proof -
  from assms obtain cu r where "unitOf s hub = Some cu" "GetNext cu = Some r"
    by (auto simp: Dispatcher_GetNext_def bind_eq_Some_conv)
  with assms that show ?thesis
    by (cases r) (auto simp: Dispatcher_GetNext_def intro: getnext_error.exhaust)
qed

lemma history_report:
  assumes hist: "history_inv s" and inv: "pipeline_inv s" and job: "(worker, job) \<in> set (running s)"
    and rep: "DBWorker_report ord worker job failed s = Some s'"
  shows "history_inv s'"
proof -
  let ?hub = "job_conflationUnitResultReporter job" and ?a = "job_bundleMetadata job"
  from rep obtain cu m cu' rq' where r: "unitOf s ?hub = Some cu" "metadatas (cu_store cu) ?a = Some m"
    "ReportResult ord ?hub ?a failed cu (ready_queue s) = Some (cu', rq')"
    "s' = s\<lparr>manager := setUnit ?hub cu' (manager s), ready_queue := rq',
       running := AList.delete worker (running s), idle_workers := idle_workers s @ [worker],
       processed := processed s @ (if failed then [] else [(?hub, m)])\<rparr>"
    by (auto simp: DBWorker_report_def Let_def bind_eq_Some_conv)
  note le = ReportResult_cu_le [OF r(3,2)]
  let ?s1 = "s'\<lparr>processed := processed s\<rparr>"
  have "unitOf ?s1 = (unitOf s)(?hub \<mapsto> cu')" by (simp add: r(4) unitOf_def fun_eq_iff)
  then have h1: "history_inv ?s1"
    using r(1) le(1) by (intro history_put [OF hist inv]) auto
  show ?thesis
  proof (cases failed)
    case True
    then have "?s1 = s'" by (simp add: r(4))
    with h1 show ?thesis by simp
  next
    case False
    have cui: "cu_inv cu (Some ?a)"
      using pipeline_inv_unit [OF inv r(1)] jobOf_running [OF _ job] inv by (simp add: pipeline_inv_def)
    note static = unit_static [OF inv r(1)]
    have "v < bm_bundleVersion m" if "completeType cu' (bm_bundleType m)"
      and v: "v \<in> set (processedVersions ?hub (bm_bundleType m) ?s1)" for v
    proof -
      from v have "v \<in> set (processedVersions ?hub (bm_bundleType m) s)" by (simp add: processedVersions_def)
      from processedVersions_bound [OF hist this r(1)] report_newer [OF cui r(2)] that(1) cu_le_at(2) [OF le(1) static]
      show ?thesis by simp
    qed
    moreover have "unitOf ?s1 ?hub = Some cu'" "processed s' = processed ?s1 @ [(?hub, m)]" "unitOf s' = unitOf ?s1"
      using False by (simp_all add: r(4) unitOf_def fun_eq_iff)
    ultimately show ?thesis using le(2) [OF False] by (intro history_append [OF h1, of ?hub cu' s' m])
  qed
qed

lemma history_step:
  assumes "pipeline_step ord s s'" and inv: "pipeline_inv s" and hist: "history_inv s"
  shows "history_inv s'"
  using assms(1)
proof (cases rule: pipeline_step.cases)
  case (receive b tm cm' rq')
  from receive(2) obtain cu' where u: "unitOf s' = (unitOf s)(GetLeafHubName b \<mapsto> cu')"
    "\<And>cu. unitOf s (GetLeafHubName b) = Some cu \<Longrightarrow>
       ConflationUnit_insert ord (GetLeafHubName b) b tm cu (ready_queue s) = Some (cu', rq')"
    unfolding receive(1) by (erule receive_units)
  then show ?thesis using receive(1)
    by (intro history_put [OF hist inv u(1)]) (auto dest: insert_cu_le)
next
  case (get_next hub worker)
  from get_next(2) show ?thesis
  proof (cases rule: get_next_cases)
    case nothing
    with hist show ?thesis by (simp add: history_inv_def unitOf_def processedVersions_def)
  next
    case (job cu nb cu')
    have "unitOf s' = (unitOf s)(hub \<mapsto> cu')" by (simp add: job(3) unitOf_def fun_eq_iff)
    with job show ?thesis by (intro history_put [OF hist inv]) (auto dest: GetNext_cu_le)
  qed
next
  case (report worker job failed)
  with history_report [OF hist inv] show ?thesis by blast
qed (use hist in \<open>auto simp: history_inv_def unitOf_def processedVersions_def\<close>)

lemma reachable_history:
  assumes "reachable ord s0 s" and "pipeline_inv s0" and "history_inv s0"
  shows "history_inv s"
  using assms by (induction rule: reachable.induct) (auto intro: history_step reachable_inv)

lemma start_pipeline_history: "history_inv (start_pipeline regs b n)"
  by (simp add: history_inv_def start_pipeline_def processedVersions_def)

text \<open>
  C35. The versions of a complete-state bundle type (not of the delta bundles) that are processed for a leaf
  hub are strictly increasing: a bundle is never applied after a newer one of its type, and never twice.
\<close>

theorem processed_versions_increase:
  assumes "reachable ord (start_pipeline conflationRegistrations requireInitial poolSize) s"
    and "unitOf s hub = Some cu" and "completeType cu ty"
  shows "sorted_wrt (<) (processedVersions hub ty s)"
  using reachable_history [OF assms(1) start_pipeline_inv [OF wf_conflationRegistrations] start_pipeline_history] assms(2,3)
  by (auto simp: history_inv_def)

section \<open>Runs\<close>

text \<open>An executable scheduler: the steps of the relation, chosen by a list of events.\<close>

datatype pipeline_event =
    Receive Bundle transportMetadata
  | Dequeue
  | AcquireWorker
  | CallGetNext
  | Report nat bool

fun do_event :: "(string list \<Rightarrow> string list) \<Rightarrow> pipeline_event \<Rightarrow> 'h pipeline \<Rightarrow> 'h pipeline option" where
  "do_event ord (Receive b tm) s =
     map_option (\<lambda>(cm', rq'). s\<lparr>manager := cm', ready_queue := rq'\<rparr>)
       (ConflationManager_Insert ord b tm (manager s) (ready_queue s))"
| "do_event ord Dequeue s =
     (case dispatcher s of
        Waiting \<Rightarrow> map_option (\<lambda>(hub, rq'). s\<lparr>dispatcher := Holding hub, ready_queue := rq'\<rparr>)
          (BlockingDequeue (ready_queue s))
      | _ \<Rightarrow> None)"
| "do_event ord AcquireWorker s =
     (case (dispatcher s, idle_workers s) of
        (Holding hub, worker # idle) \<Rightarrow> Some (s\<lparr>dispatcher := Acquired hub worker, idle_workers := idle\<rparr>)
      | _ \<Rightarrow> None)"
| "do_event ord CallGetNext s =
     (case dispatcher s of Acquired hub worker \<Rightarrow> Dispatcher_GetNext hub worker s | _ \<Rightarrow> None)"
| "do_event ord (Report worker failed) s =
     (case map_of (running s) worker of None \<Rightarrow> None | Some job \<Rightarrow> DBWorker_report ord worker job failed s)"

fun run_pipeline :: "(string list \<Rightarrow> string list) \<Rightarrow> pipeline_event list \<Rightarrow> 'h pipeline \<Rightarrow> 'h pipeline option" where
  "run_pipeline ord [] s = Some s"
| "run_pipeline ord (ev # evs) s = Option.bind (do_event ord ev s) (run_pipeline ord evs)"

lemma do_event_step: "do_event ord ev s = Some s' \<Longrightarrow> pipeline_step ord s s'"
  by (cases ev)
    (auto intro: pipeline_step.intros dest: map_of_SomeD split: dispatcher_state.splits list.splits option.splits)

lemma reachable_trans: "reachable ord s1 s2 \<Longrightarrow> reachable ord s0 s1 \<Longrightarrow> reachable ord s0 s2"
  by (induction rule: reachable.induct) (auto intro: reachable.step)

lemma run_pipeline_reachable: "run_pipeline ord evs s = Some s' \<Longrightarrow> reachable ord s s'"
proof (induction evs arbitrary: s)
  case Nil
  then show ?case by (auto intro: reachable.init)
next
  case (Cons ev evs)
  then obtain s1 where "do_event ord ev s = Some s1" "run_pipeline ord evs s1 = Some s'"
    by (auto simp: bind_eq_Some_conv)
  with Cons.IH show ?case
    by (meson do_event_step reachable.init reachable.step reachable_trans)
qed

text \<open>One bundle from its arrival to the report of its worker; two generations after one another.\<close>

definition sample_cycle :: "uint64 \<Rightarrow> nat \<Rightarrow> pipeline_event list" where
  "sample_cycle g w = [Receive (sample_cpp g) (newKafkaBundleMetadata 0 5), Dequeue, AcquireWorker, CallGetNext, Report w False]"

definition sample_run :: "BundleHandler pipeline" where
  "sample_run = the (run_pipeline (\<lambda>ks. ks) (sample_cycle 1 1 @ sample_cycle 2 2)
     (start_pipeline conflationRegistrations True 2))"

text \<open>A leaf hub whose second bundle is being processed.\<close>

definition busy_run :: "BundleHandler pipeline" where
  "busy_run = the (run_pipeline (\<lambda>ks. ks) (sample_cycle 1 1 @ take 4 (sample_cycle 2 2)) (start_pipeline conflationRegistrations True 2))"

lemma busy_run_facts: "map fst (running busy_run) = [2]" "jobOf busy_run ''hub1'' \<noteq> None" "unitOf busy_run ''hub1'' \<noteq> None"
  by code_simp+

lemma busy_run_reachable: "reachable (\<lambda>ks. ks) (start_pipeline conflationRegistrations True 2) busy_run"
proof -
  have "run_pipeline (\<lambda>ks. ks) (sample_cycle 1 1 @ take 4 (sample_cycle 2 2)) (start_pipeline conflationRegistrations True 2) \<noteq> None"
    by code_simp
  then show ?thesis unfolding busy_run_def by (auto intro: run_pipeline_reachable)
qed

theorem pipeline_safe_witness:
  "\<exists>cu a job. unitOf busy_run ''hub1'' = Some cu \<and> jobOf busy_run ''hub1'' = Some a \<and> cu_inv cu (Some a)
     \<and> running busy_run = [(2, job)] \<and> DBWorker_report (\<lambda>ks. ks) 2 job False busy_run \<noteq> None"
proof -
  obtain cu a where u: "unitOf busy_run ''hub1'' = Some cu" "jobOf busy_run ''hub1'' = Some a"
    using busy_run_facts(2,3) by blast
  obtain job where job: "running busy_run = [(2, job)]"
    using busy_run_facts(1) by (auto simp: map_eq_Cons_conv)
  from pipeline_safe [OF busy_run_reachable, where leafHub = "''hub1''" and w = 2 and job = job and failed = False] u job
  show ?thesis by auto
qed

lemma sample_run_reachable:
  "reachable (\<lambda>ks. ks) (start_pipeline conflationRegistrations True 2) sample_run"
proof -
  have "run_pipeline (\<lambda>ks. ks) (sample_cycle 1 1 @ sample_cycle 2 2)
     (start_pipeline conflationRegistrations True 2) \<noteq> None"
    by code_simp
  then show ?thesis unfolding sample_run_def by (auto intro: run_pipeline_reachable)
qed

theorem processed_versions_increase_witness:
  "\<exists>cu. unitOf sample_run ''hub1'' = Some cu \<and> completeType cu ''ClustersPerPolicyBundle''
     \<and> processedVersions ''hub1'' ''ClustersPerPolicyBundle'' sample_run = [BundleVersion 1 1, BundleVersion 1 2]
     \<and> sorted_wrt (<) (processedVersions ''hub1'' ''ClustersPerPolicyBundle'' sample_run)"
proof -
  have u: "unitOf sample_run ''hub1'' \<noteq> None" by code_simp
  then obtain cu where cu: "unitOf sample_run ''hub1'' = Some cu" by blast
  have "completeType (the (unitOf sample_run ''hub1'')) ''ClustersPerPolicyBundle''" by code_simp
  with cu have ct: "completeType cu ''ClustersPerPolicyBundle''" by simp
  have "processedVersions ''hub1'' ''ClustersPerPolicyBundle'' sample_run = [BundleVersion 1 1, BundleVersion 1 2]"
    by code_simp
  with cu ct processed_versions_increase [OF sample_run_reachable cu ct] show ?thesis by blast
qed

section \<open>Stranded leaf hubs\<close>

text \<open>
  A unit leaves the ready queue when the dispatcher dequeues it, but forgets that it was queued only
  when \<open>GetNext\<close> finds a bundle. A unit that still believes to be queued and is not is stranded.
\<close>

definition stranded :: "'h pipeline \<Rightarrow> string \<Rightarrow> bool" where
  "stranded s hub \<longleftrightarrow> (\<exists>cu. unitOf s hub = Some cu \<and> isInReadyQueue cu) \<and> hub \<notin> set (announced s)"

lemma stranded_no_job: "pipeline_inv s \<Longrightarrow> stranded s hub \<Longrightarrow> jobOf s hub = None"
  by (cases "jobOf s hub") (auto simp: stranded_def cu_inv_Some dest: pipeline_inv_unit)

lemma stranded_step:
  assumes "pipeline_step ord s s'" and inv: "pipeline_inv s" and str: "stranded s hub"
  shows "stranded s' hub \<and> filter (\<lambda>x. fst x = hub) (processed s') = filter (\<lambda>x. fst x = hub) (processed s)"
  using assms(1)
proof (cases rule: pipeline_step.cases)
  case (receive b tm cm' rq')
  from receive(2) obtain cu' where u: "unitOf s' = (unitOf s)(GetLeafHubName b \<mapsto> cu')"
    "\<And>cu. unitOf s (GetLeafHubName b) = Some cu \<Longrightarrow>
       ConflationUnit_insert ord (GetLeafHubName b) b tm cu (ready_queue s) = Some (cu', rq')"
    unfolding receive(1) by (erule receive_units)
  show ?thesis
  proof (cases "hub = GetLeafHubName b")
    case True
    with str obtain cu where "unitOf s hub = Some cu" "isInReadyQueue cu" by (auto simp: stranded_def)
    with insert_queue [OF u(2) [of cu]] True u(1) str receive(1) show ?thesis
      by (auto simp: stranded_def announced_def)
  next
    case False
    have "set rq' \<subseteq> insert (GetLeafHubName b) (set (ready_queue s))"
      using receive(2) by (auto simp: ConflationManager_Insert_def bind_eq_Some_conv split: if_splits dest!: insert_queue)
    with False u(1) str receive(1) show ?thesis by (auto simp: stranded_def announced_def)
  qed
next
  case (dequeue h rq')
  with str show ?thesis
    by (auto simp: stranded_def announced_def unitOf_def BlockingDequeue_def split: list.splits)
next
  case (acquire h worker idle)
  with str show ?thesis by (auto simp: stranded_def announced_def unitOf_def)
next
  case (get_next h worker)
  then have "h \<noteq> hub" using str by (auto simp: stranded_def announced_def)
  from get_next(2) show ?thesis
  proof (cases rule: get_next_cases)
    case nothing
    with str show ?thesis by (auto simp: stranded_def announced_def unitOf_def)
  next
    case (job cu nb cu')
    with str \<open>h \<noteq> hub\<close> show ?thesis by (auto simp: stranded_def announced_def unitOf_def)
  qed
next
  case (report worker job failed)
  let ?h = "job_conflationUnitResultReporter job"
  have "jobOf s ?h \<noteq> None" using jobOf_running [OF _ report(1)] inv by (simp add: pipeline_inv_def)
  with stranded_no_job [OF inv str] have ne: "?h \<noteq> hub" by auto
  from report(2) obtain cu m cu' rq' where r: "ReportResult ord ?h (job_bundleMetadata job) failed cu (ready_queue s) = Some (cu', rq')"
    "s' = s\<lparr>manager := setUnit ?h cu' (manager s), ready_queue := rq',
       running := AList.delete worker (running s), idle_workers := idle_workers s @ [worker],
       processed := processed s @ (if failed then [] else [(?h, m)])\<rparr>"
    by (auto simp: DBWorker_report_def Let_def bind_eq_Some_conv)
  have "set rq' \<subseteq> insert ?h (set (ready_queue s))" using report_queue [OF r(1)] by auto
  with str ne show ?thesis by (auto simp: r(2) stranded_def announced_def unitOf_def)
qed

lemma stranded_reachable:
  assumes "reachable ord s s'" and "pipeline_inv s" and "stranded s hub"
  shows "stranded s' hub \<and> filter (\<lambda>x. fst x = hub) (processed s') = filter (\<lambda>x. fst x = hub) (processed s)"
  using assms
proof (induction rule: reachable.induct)
  case (step s1 s2)
  with stranded_step [OF step.hyps(2) reachable_inv [OF step.hyps(1)]] show ?case by auto
qed simp

text \<open>
  Once a leaf hub is stranded nothing brings it back: in every later state it is still stranded,
  has no job, and no bundle of it is processed again, whatever arrives for it.
\<close>

theorem stranded_forever:
  assumes "reachable ord (start_pipeline conflationRegistrations requireInitial poolSize) s"
    and "stranded s hub" and "reachable ord s s'"
  shows "stranded s' hub \<and> hub \<notin> (job_conflationUnitResultReporter \<circ> snd) ` set (running s')
     \<and> filter (\<lambda>x. fst x = hub) (processed s') = filter (\<lambda>x. fst x = hub) (processed s)"
proof -
  have inv: "pipeline_inv s"
    using reachable_inv [OF assms(1) start_pipeline_inv] wf_conflationRegistrations by blast
  with stranded_reachable [OF assms(3) inv assms(2)] stranded_no_job [OF reachable_inv [OF assms(3) inv]]
  show ?thesis by (simp add: jobOf_None_iff)
qed

text \<open>
  The run that strands a hub: a compliance bundle is ready and its unit is queued; before the
  dispatcher asks the unit, a newer compliance bundle replaces it whose base bundle has not been
  processed. \<open>GetNext\<close> returns an error, and the worker that was acquired is not returned either.
\<close>

definition sample_compliance :: "uint64 \<Rightarrow> uint64 \<Rightarrow> Bundle" where
  "sample_compliance base g = CompleteComplianceStatusBundle
     \<lparr>ccs_Objects = [], ccs_LeafHubName = ''hub1'', ccs_BaseBundleVersion = BundleVersion 1 base,
      ccs_BundleVersion = BundleVersion 1 g\<rparr>"

definition stranding_events :: "pipeline_event list" where
  "stranding_events = sample_cycle 1 1 @
     [Receive (sample_compliance 1 1) (newKafkaBundleMetadata 0 6),
      Receive (sample_compliance 2 2) (newKafkaBundleMetadata 0 7),
      Dequeue, AcquireWorker, CallGetNext]"

definition stranded_run :: "BundleHandler pipeline" where
  "stranded_run = the (run_pipeline (\<lambda>ks. ks) stranding_events (start_pipeline conflationRegistrations True 2))"

text \<open>The base bundle that the waiting compliance bundle needs arrives afterwards.\<close>

definition stranded_later :: "BundleHandler pipeline" where
  "stranded_later = the (run_pipeline (\<lambda>ks. ks) [Receive (sample_cpp 2) (newKafkaBundleMetadata 0 8)] stranded_run)"

lemma stranded_run_reachable:
  "reachable (\<lambda>ks. ks) (start_pipeline conflationRegistrations True 2) stranded_run"
proof -
  have "run_pipeline (\<lambda>ks. ks) stranding_events (start_pipeline conflationRegistrations True 2) \<noteq> None"
    by code_simp
  then show ?thesis unfolding stranded_run_def by (auto intro: run_pipeline_reachable)
qed

lemma stranded_later_reachable: "reachable (\<lambda>ks. ks) stranded_run stranded_later"
proof -
  have "run_pipeline (\<lambda>ks. ks) [Receive (sample_cpp 2) (newKafkaBundleMetadata 0 8)] stranded_run \<noteq> None"
    by code_simp
  then obtain s where "run_pipeline (\<lambda>ks. ks) [Receive (sample_cpp 2) (newKafkaBundleMetadata 0 8)] stranded_run = Some s"
    by blast
  then show ?thesis unfolding stranded_later_def by (simp only: option.sel run_pipeline_reachable)
qed

lemma stranded_run_stranded: "stranded stranded_run ''hub1''"
proof -
  have "unitOf stranded_run ''hub1'' \<noteq> None \<and> isInReadyQueue (the (unitOf stranded_run ''hub1''))
      \<and> announced stranded_run = []"
    by code_simp
  then show ?thesis by (auto simp: stranded_def)
qed

theorem stranded_forever_witness:
  "stranded stranded_later ''hub1'' \<and> running stranded_later = [] \<and> ready_queue stranded_later = []
   \<and> getNextReadyBundlePriority (the (unitOf stranded_later ''hub1'')) = Some 1
   \<and> idle_workers stranded_later = [1]"
proof -
  have "running stranded_later = [] \<and> ready_queue stranded_later = [] \<and> idle_workers stranded_later = [1]
     \<and> getNextReadyBundlePriority (the (unitOf stranded_later ''hub1'')) = Some 1"
    by code_simp
  with stranded_forever [OF stranded_run_reachable stranded_run_stranded stranded_later_reachable]
  show ?thesis by blast
qed

end
