(* ===== verification/GH_Fragments.thy ===== *)
theory GH_Fragments
  imports GH_Prelude
begin

unbundle bit_operations_syntax

text \<open>
  The Kafka client wrappers of \<open>pkg/kafka\<close>: the producer splits a payload above the size limit into
  fragments, the consumer collects fragments per message key and assembles them, and keeps the offset
  of what it hands on below the lowest open fragment of the partition.

  The wire format of a header value is bytes. Offsets and partitions are unbounded integers (Kafka's
  own bounds are never reached by counting); sizes and offsets inside a payload are the code's
  unsigned 32-bit words. The formatted time of a fragmentation and \<open>time.Parse\<close> are parameters.
\<close>

section \<open>Messages\<close>

record Header =
  hdr_Key :: string
  hdr_Value :: "byte list"

record kafka_Message =
  km_Key :: string
  km_Topic :: string
  km_Partition :: int
  km_Offset :: int
  km_Headers :: "Header list"
  km_Value :: "byte list"

definition DestinationHub :: string where "DestinationHub = ''destination-hub''"
definition CompressionTypeHeader :: string where "CompressionTypeHeader = ''content-encoding''"
definition SizeHeader :: string where "SizeHeader = ''size''"
definition OffsetHeader :: string where "OffsetHeader = ''offset''"
definition FragmentationTimestamp :: string where "FragmentationTimestamp = ''fragmentation-timestamp''"

lemmas header_names = SizeHeader_def OffsetHeader_def FragmentationTimestamp_def CompressionTypeHeader_def
  DestinationHub_def

text \<open>A message under construction has no offset yet; the broker assigns it.\<close>

definition NewMessageBuilder :: "string \<Rightarrow> string \<Rightarrow> int \<Rightarrow> Header list \<Rightarrow> byte list \<Rightarrow> kafka_Message" where
  "NewMessageBuilder key topic partitionID headers payload =
     \<lparr>km_Key = key, km_Topic = topic, km_Partition = partitionID, km_Offset = 0, km_Headers = headers, km_Value = payload\<rparr>"

definition builder_Header :: "Header \<Rightarrow> kafka_Message \<Rightarrow> kafka_Message" where
  "builder_Header header m = m\<lparr>km_Headers := km_Headers m @ [header]\<rparr>"

section \<open>Producer\<close>

text \<open>\<open>binary.BigEndian\<close>: the four bytes of a 32-bit word, most significant first.\<close>

definition PutUint32 :: "uint32 \<Rightarrow> byte list" where
  "PutUint32 w = [ucast (drop_bit 24 w), ucast (drop_bit 16 w), ucast (drop_bit 8 w), ucast w]"

fun Uint32 :: "byte list \<Rightarrow> uint32 option" where
  "Uint32 (a # b # c # d # _) =
     Some (ucast d OR push_bit 8 (ucast c) OR push_bit 16 (ucast b) OR push_bit 24 (ucast a))"
| "Uint32 _ = None"

definition toByteArray :: "nat \<Rightarrow> byte list" where
  "toByteArray i = PutUint32 (word_of_nat i)"

function chunkLoop :: "nat \<Rightarrow> 'a list \<Rightarrow> 'a list list" where
  "chunkLoop messageSizeLimit payload =
     (if 0 < messageSizeLimit \<and> messageSizeLimit \<le> length payload
      then take messageSizeLimit payload # chunkLoop messageSizeLimit (drop messageSizeLimit payload)
      else if payload \<noteq> [] then [payload] else [])"
  by auto
termination
  by (relation "measure (length \<circ> snd)") auto

declare chunkLoop.simps [simp del]

text \<open>The capacity of the result divides by the limit: a limit of zero panics.\<close>

definition splitPayloadIntoChunks :: "nat \<Rightarrow> byte list \<Rightarrow> byte list list option" where
  "splitPayloadIntoChunks messageSizeLimit payload =
     (if messageSizeLimit = 0 then None else Some (chunkLoop messageSizeLimit payload))"

definition fragmentMessage ::
  "string \<Rightarrow> nat \<Rightarrow> string \<Rightarrow> string \<Rightarrow> int \<Rightarrow> Header list \<Rightarrow> nat \<Rightarrow> nat \<Rightarrow> byte list \<Rightarrow> kafka_Message" where
  "fragmentMessage timestamp messageSizeLimit key topic part headers totalSize index chunk =
     builder_Header \<lparr>hdr_Key = FragmentationTimestamp, hdr_Value = map (of_char :: char \<Rightarrow> byte) timestamp\<rparr>
       (builder_Header \<lparr>hdr_Key = OffsetHeader, hdr_Value = toByteArray (index * messageSizeLimit)\<rparr>
         (builder_Header \<lparr>hdr_Key = SizeHeader, hdr_Value = toByteArray totalSize\<rparr>
           (NewMessageBuilder (key @ ''_'' @ itoa index) topic part headers chunk)))"

definition getMessageFragments ::
  "string \<Rightarrow> nat \<Rightarrow> string \<Rightarrow> string \<Rightarrow> int \<Rightarrow> Header list \<Rightarrow> byte list \<Rightarrow> kafka_Message list option" where
  "getMessageFragments timestamp messageSizeLimit key topic part headers payload =
     (if length payload \<le> messageSizeLimit then Some [NewMessageBuilder key topic part headers payload]
      else map_option
        (\<lambda>chunks. map (\<lambda>(index, chunk). fragmentMessage timestamp messageSizeLimit key topic part headers
              (length payload) index chunk) (enumerate 0 chunks))
        (splitPayloadIntoChunks messageSizeLimit payload))"

text \<open>
  \<open>ProduceAsync\<close>: hands the fragments to the client one by one and stops at the first error;
  \<open>accepts\<close> is the answer of the Confluent client to one message. Returns what was handed over and
  whether all of it was.
\<close>

fun produceAll :: "(kafka_Message \<Rightarrow> bool) \<Rightarrow> kafka_Message list \<Rightarrow> kafka_Message list \<times> bool" where
  "produceAll accepts [] = ([], True)"
| "produceAll accepts (m # ms) =
     (if accepts m then (case produceAll accepts ms of (sent, ok) \<Rightarrow> (m # sent, ok)) else ([], False))"

definition ProduceAsync ::
  "string \<Rightarrow> nat \<Rightarrow> (kafka_Message \<Rightarrow> bool) \<Rightarrow> string \<Rightarrow> string \<Rightarrow> int \<Rightarrow> Header list \<Rightarrow> byte list
   \<Rightarrow> (kafka_Message list \<times> bool) option" where
  "ProduceAsync timestamp messageSizeLimit accepts key topic part headers payload =
     map_option (produceAll accepts) (getMessageFragments timestamp messageSizeLimit key topic part headers payload)"

section \<open>Fragment collections\<close>

record messageFragment =
  mf_offset :: uint32
  mf_bytes :: "byte list"

record messageFragmentInfo =
  mfi_key :: string
  mfi_totalSize :: uint32
  mfi_fragmentationTimestamp :: int
  mfi_fragment :: messageFragment
  mfi_kafkaMessage :: kafka_Message

record messageFragmentsCollection =
  totalMessageSize :: uint32
  accumulatedFragmentsSize :: uint32
  fragmentationTimestamp :: int
  messageFragments :: "(uint32, messageFragment) gomap"
  latestKafkaMessage :: "kafka_Message option"
  highestOffset :: int
  lowestOffset :: int

definition newMessageFragmentsCollection :: "uint32 \<Rightarrow> int \<Rightarrow> messageFragmentsCollection" where
  "newMessageFragmentsCollection totalSize timestamp =
     \<lparr>totalMessageSize = totalSize, accumulatedFragmentsSize = 0, fragmentationTimestamp = timestamp,
      messageFragments = [], latestKafkaMessage = None, highestOffset = 0, lowestOffset = -1\<rparr>"

definition collection_add :: "messageFragmentInfo \<Rightarrow> messageFragmentsCollection \<Rightarrow> messageFragmentsCollection" where
  "collection_add info c =
     (let f = mfi_fragment info; off = km_Offset (mfi_kafkaMessage info) in
      if mf_offset f + word_of_nat (length (mf_bytes f)) > totalMessageSize c then c
      else if map_of (messageFragments c) (mf_offset f) \<noteq> None then c
      else
        (let c1 = c\<lparr>messageFragments := AList.update (mf_offset f) f (messageFragments c),
                    accumulatedFragmentsSize := accumulatedFragmentsSize c + word_of_nat (length (mf_bytes f))\<rparr>;
             c2 = (if off \<ge> highestOffset c1
                   then c1\<lparr>latestKafkaMessage := Some (mfi_kafkaMessage info), highestOffset := off\<rparr> else c1)
         in if lowestOffset c2 = -1 \<or> off \<le> lowestOffset c2 then c2\<lparr>lowestOffset := off\<rparr> else c2))"

text \<open>\<open>copy(buffer[offset:], bytes)\<close>: slicing beyond the buffer panics, copying stops at its end.\<close>

definition copyInto :: "nat \<Rightarrow> byte list \<Rightarrow> byte list \<Rightarrow> byte list option" where
  "copyInto off bytes buffer =
     (if off \<le> length buffer
      then Some (take off buffer @ take (length buffer - off) bytes @ drop (off + length bytes) buffer)
      else None)"

fun copyFragments :: "messageFragment list \<Rightarrow> byte list \<Rightarrow> byte list option" where
  "copyFragments [] buffer = Some buffer"
| "copyFragments (f # fs) buffer =
     Option.bind (copyInto (unat (mf_offset f)) (mf_bytes f) buffer) (copyFragments fs)"

datatype fragments_error = errFragmentsAreIncomplete

definition assemble ::
  "(uint32 list \<Rightarrow> uint32 list) \<Rightarrow> messageFragmentsCollection \<Rightarrow> (fragments_error + byte list) option" where
  "assemble ord c =
     (if totalMessageSize c \<noteq> accumulatedFragmentsSize c then Some (Inl errFragmentsAreIncomplete)
      else map_option Inr (copyFragments
        (List.map_filter (map_of (messageFragments c)) (ord (map fst (messageFragments c))))
        (replicate (unat (totalMessageSize c)) 0)))"

section \<open>Message assembler\<close>

record kafkaMessageAssembler =
  partitionToFragmentCollectionMap :: "(int, (string, messageFragmentsCollection) gomap) gomap"
  partitionLowestOffsetMap :: "(int, int) gomap"

definition newKafkaMessageAssembler :: kafkaMessageAssembler where
  "newKafkaMessageAssembler = \<lparr>partitionToFragmentCollectionMap = [], partitionLowestOffsetMap = []\<rparr>"

definition collectionsOn :: "kafkaMessageAssembler \<Rightarrow> int \<Rightarrow> (string, messageFragmentsCollection) gomap" where
  "collectionsOn a part = (case map_of (partitionToFragmentCollectionMap a) part of None \<Rightarrow> [] | Some m \<Rightarrow> m)"

definition addOffsetToPartition :: "int \<Rightarrow> int \<Rightarrow> kafkaMessageAssembler \<Rightarrow> kafkaMessageAssembler" where
  "addOffsetToPartition part off a =
     (case map_of (partitionLowestOffsetMap a) part of
        Some low \<Rightarrow> if off \<ge> low then a
          else a\<lparr>partitionLowestOffsetMap := AList.update part off (partitionLowestOffsetMap a)\<rparr>
      | None \<Rightarrow> a\<lparr>partitionLowestOffsetMap := AList.update part off (partitionLowestOffsetMap a)\<rparr>)"

text \<open>The search starts at \<open>math.MaxInt64\<close>; the order of the range does not matter for a minimum.\<close>

definition findLowestOffsetOnPartition :: "int \<Rightarrow> kafkaMessageAssembler \<Rightarrow> int" where
  "findLowestOffsetOnPartition part a =
     (case map_of (partitionToFragmentCollectionMap a) part of
        None \<Rightarrow> -1
      | Some m \<Rightarrow> fold (\<lambda>(k, c) lowest. if lowestOffset c < lowest then lowestOffset c else lowest) m (2 ^ 63 - 1))"

definition deleteOffsetOnPartition :: "int \<Rightarrow> int \<Rightarrow> kafkaMessageAssembler \<Rightarrow> kafkaMessageAssembler" where
  "deleteOffsetOnPartition part off a =
     (case map_of (partitionLowestOffsetMap a) part of
        None \<Rightarrow> a
      | Some low \<Rightarrow>
          if off \<noteq> low then a
          else (let lowest = findLowestOffsetOnPartition part a in
                if lowest < 0 then a\<lparr>partitionLowestOffsetMap := AList.delete part (partitionLowestOffsetMap a)\<rparr>
                else a\<lparr>partitionLowestOffsetMap := AList.update part lowest (partitionLowestOffsetMap a)\<rparr>))"

definition fixMessageOffset :: "kafka_Message \<Rightarrow> kafkaMessageAssembler \<Rightarrow> kafka_Message" where
  "fixMessageOffset m a =
     (case map_of (partitionLowestOffsetMap a) (km_Partition m) of None \<Rightarrow> m | Some low \<Rightarrow> m\<lparr>km_Offset := low\<rparr>)"

text \<open>A missing entry of the lowest-offset map reads as 0, the zero value of an offset.\<close>

definition assembleCollection ::
  "(uint32 list \<Rightarrow> uint32 list) \<Rightarrow> string \<Rightarrow> messageFragmentsCollection \<Rightarrow> kafkaMessageAssembler
   \<Rightarrow> (kafkaMessageAssembler \<times> kafka_Message option) option" where
  "assembleCollection ord key c a = do {
     r \<leftarrow> assemble ord c;
     (case r of
        Inl err \<Rightarrow> Some (a, None)
      | Inr bytes \<Rightarrow> do {
          latest \<leftarrow> latestKafkaMessage c;
          let m = latest\<lparr>km_Value := bytes\<rparr>;
          let part = km_Partition m;
          let rest = AList.delete key (collectionsOn a part);
          let a1 = (if rest = []
            then a\<lparr>partitionToFragmentCollectionMap := AList.delete part (partitionToFragmentCollectionMap a)\<rparr>
            else a\<lparr>partitionToFragmentCollectionMap := AList.update part rest (partitionToFragmentCollectionMap a)\<rparr>);
          let lowest = (case map_of (partitionLowestOffsetMap a1) part of None \<Rightarrow> 0 | Some low \<Rightarrow> low);
          if lowest \<noteq> lowestOffset c then Some (a1, Some (m\<lparr>km_Offset := lowest\<rparr>))
          else Some (deleteOffsetOnPartition part (lowestOffset c) a1, Some m)
        })
   }"

definition putCollection ::
  "int \<Rightarrow> string \<Rightarrow> messageFragmentsCollection \<Rightarrow> kafkaMessageAssembler \<Rightarrow> kafkaMessageAssembler" where
  "putCollection part key c a = a\<lparr>partitionToFragmentCollectionMap :=
     AList.update part (AList.update key c (collectionsOn a part)) (partitionToFragmentCollectionMap a)\<rparr>"

text \<open>\<open>After\<close> and \<open>Before\<close> compare the times of the collection and of the fragment.\<close>

definition processFragmentInfo ::
  "(uint32 list \<Rightarrow> uint32 list) \<Rightarrow> messageFragmentInfo \<Rightarrow> kafkaMessageAssembler
   \<Rightarrow> (kafkaMessageAssembler \<times> kafka_Message option) option" where
  "processFragmentInfo ord info a =
     (let part = km_Partition (mfi_kafkaMessage info); key = mfi_key info;
          a0 = a\<lparr>partitionToFragmentCollectionMap :=
            (case map_of (partitionToFragmentCollectionMap a) part of
               None \<Rightarrow> AList.update part [] (partitionToFragmentCollectionMap a)
             | Some _ \<Rightarrow> partitionToFragmentCollectionMap a)\<rparr>
      in case map_of (collectionsOn a0 part) key of
           Some c \<Rightarrow>
             if fragmentationTimestamp c > mfi_fragmentationTimestamp info then Some (a0, None)
             else if fragmentationTimestamp c < mfi_fragmentationTimestamp info then
               (let c' = collection_add info (newMessageFragmentsCollection (mfi_totalSize info) (mfi_fragmentationTimestamp info))
                in Some (addOffsetToPartition part (lowestOffset c') (putCollection part key c' a0), None))
             else
               (let c' = collection_add info c; a1 = putCollection part key c' a0
                in if totalMessageSize c' = accumulatedFragmentsSize c' then assembleCollection ord key c' a1
                   else Some (a1, None))
         | None \<Rightarrow>
             (let c' = collection_add info (newMessageFragmentsCollection (mfi_totalSize info) (mfi_fragmentationTimestamp info))
              in Some (addOffsetToPartition part (lowestOffset c') (putCollection part key c' a0), None)))"

section \<open>Consumer\<close>

definition lookupHeader :: "kafka_Message \<Rightarrow> string \<Rightarrow> Header option" where
  "lookupHeader m headerKey = find (\<lambda>h. hdr_Key h = headerKey) (km_Headers m)"

text \<open>\<open>None\<close> is the panic of \<open>Uint32\<close> on a value shorter than four bytes.\<close>

definition messageIsFragment :: "kafka_Message \<Rightarrow> messageFragment option option" where
  "messageIsFragment m =
     (case (lookupHeader m OffsetHeader, lookupHeader m SizeHeader) of
        (Some offsetHeader, Some sizeHeader) \<Rightarrow>
          map_option (\<lambda>off. Some \<lparr>mf_offset = off, mf_bytes = km_Value m\<rparr>) (Uint32 (hdr_Value offsetHeader))
      | _ \<Rightarrow> Some None)"

datatype consumer_error = errHeaderNotFound string | errIllegalTimestamp

definition createFragmentInfo ::
  "(byte list \<Rightarrow> int option) \<Rightarrow> kafka_Message \<Rightarrow> messageFragment \<Rightarrow> (consumer_error + messageFragmentInfo) option" where
  "createFragmentInfo parseTime m fragment =
     (case lookupHeader m FragmentationTimestamp of
        None \<Rightarrow> Some (Inl (errHeaderNotFound FragmentationTimestamp))
      | Some timestampHeader \<Rightarrow>
          (case lookupHeader m SizeHeader of
             None \<Rightarrow> Some (Inl (errHeaderNotFound SizeHeader))
           | Some sizeHeader \<Rightarrow>
               (case parseTime (hdr_Value timestampHeader) of
                  None \<Rightarrow> Some (Inl errIllegalTimestamp)
                | Some timestamp \<Rightarrow>
                    map_option (\<lambda>totalSize. Inr \<lparr>mfi_key = km_Key m, mfi_totalSize = totalSize,
                      mfi_fragmentationTimestamp = timestamp, mfi_fragment = fragment, mfi_kafkaMessage = m\<rparr>)
                      (Uint32 (hdr_Value sizeHeader)))))"

text \<open>\<open>pollMessage\<close> for one message: the new assembler and the message put on the channel, if any.\<close>

definition pollMessage ::
  "(byte list \<Rightarrow> int option) \<Rightarrow> (uint32 list \<Rightarrow> uint32 list) \<Rightarrow> kafka_Message \<Rightarrow> kafkaMessageAssembler
   \<Rightarrow> (kafkaMessageAssembler \<times> kafka_Message option) option" where
  "pollMessage parseTime ord m a = do {
     fragment \<leftarrow> messageIsFragment m;
     (case fragment of
        None \<Rightarrow> Some (a, Some (fixMessageOffset m a))
      | Some f \<Rightarrow> do {
          r \<leftarrow> createFragmentInfo parseTime m f;
          (case r of Inl err \<Rightarrow> Some (a, None) | Inr info \<Rightarrow> processFragmentInfo ord info a)
        })
   }"

fun pollMessages ::
  "(byte list \<Rightarrow> int option) \<Rightarrow> (uint32 list \<Rightarrow> uint32 list) \<Rightarrow> kafka_Message list \<Rightarrow> kafkaMessageAssembler
   \<Rightarrow> (kafkaMessageAssembler \<times> kafka_Message list) option" where
  "pollMessages parseTime ord [] a = Some (a, [])"
| "pollMessages parseTime ord (m # ms) a = do {
     (a1, out) \<leftarrow> pollMessage parseTime ord m a;
     (a2, outs) \<leftarrow> pollMessages parseTime ord ms a1;
     Some (a2, (case out of None \<Rightarrow> [] | Some x \<Rightarrow> [x]) @ outs)
   }"

end
