(* ===== verification/GH_FragmentsProps.thy ===== *)
theory GH_FragmentsProps
  imports GH_Fragments
begin

text \<open>
  Properties of fragmentation: the encoding of sizes, that splitting and assembling a payload are
  inverse whatever order the fragment map is ranged over, what the consumer really does with the
  fragments the producer makes, and when the offset it hands on is safe to commit.
\<close>

unbundle bit_operations_syntax

section \<open>Encoding\<close>

lemma Uint32_PutUint32: "Uint32 (PutUint32 w) = Some w"
proof -
  have "ucast (ucast w :: byte) OR push_bit 8 (ucast (ucast (drop_bit 8 w) :: byte))
      OR push_bit 16 (ucast (ucast (drop_bit 16 w) :: byte)) OR push_bit 24 (ucast (ucast (drop_bit 24 w) :: byte))
      = (w :: uint32)" (is "?l = w")
  proof (rule bit_word_eqI)
    fix n
    assume "n < LENGTH(32)"
    then show "bit ?l n = bit w n"
      by (cases "n < 8"; cases "n < 16"; cases "n < 24") (auto simp: bit_simps not_less)
  qed
  then show ?thesis by (simp add: PutUint32_def)
qed

lemma Uint32_toByteArray: "Uint32 (toByteArray i) = Some (word_of_nat i)"
  by (simp add: toByteArray_def Uint32_PutUint32)

section \<open>Splitting\<close>

lemma chunkLoop_Nil [simp]: "chunkLoop l [] = []"
  by (subst chunkLoop.simps) auto

lemma concat_chunkLoop [simp]: "concat (chunkLoop l payload) = payload"
proof (induction l payload rule: chunkLoop.induct)
  case (1 l payload)
  then show ?case by (subst chunkLoop.simps) auto
qed

lemma length_chunkLoop: "0 < l \<Longrightarrow> length payload \<le> length (chunkLoop l payload) * l"
proof (induction l payload rule: chunkLoop.induct)
  case (1 l payload)
  show ?case
  proof (cases "l \<le> length payload")
    case True
    with 1 have "length payload - l \<le> length (chunkLoop l (drop l payload)) * l" by simp
    then show ?thesis using True "1.prems" by (subst chunkLoop.simps) simp
  next
    case False
    then show ?thesis by (subst chunkLoop.simps) simp
  qed
qed

lemma chunkLoop_nth:
  "0 < l \<Longrightarrow> i < length (chunkLoop l payload) \<Longrightarrow>
     i * l < length payload \<and> chunkLoop l payload ! i = take l (drop (i * l) payload)"
proof (induction l payload arbitrary: i rule: chunkLoop.induct)
  case (1 l payload)
  show ?case
  proof (cases "l \<le> length payload")
    case True
    have eq: "chunkLoop l payload = take l payload # chunkLoop l (drop l payload)"
      using True "1.prems"(1) by (subst chunkLoop.simps) simp
    show ?thesis
    proof (cases i)
      case 0
      with eq True "1.prems" show ?thesis by auto
    next
      case (Suc j)
      with eq "1.prems" have "j < length (chunkLoop l (drop l payload))" by simp
      with "1.IH" [of j] True "1.prems" have "j * l < length (drop l payload)
          \<and> chunkLoop l (drop l payload) ! j = take l (drop (j * l) (drop l payload))" by simp
      with eq Suc True show ?thesis by (auto simp: add.commute)
    qed
  next
    case False
    then have "chunkLoop l payload = (if payload \<noteq> [] then [payload] else [])" by (subst chunkLoop.simps) simp
    with "1.prems" False show ?thesis by (auto split: if_splits)
  qed
qed

section \<open>Assembling\<close>

text \<open>A fragment that carries the bytes of the payload at its offset.\<close>

definition carries :: "byte list \<Rightarrow> messageFragment \<Rightarrow> bool" where
  "carries payload f \<longleftrightarrow> unat (mf_offset f) + length (mf_bytes f) \<le> length payload
     \<and> mf_bytes f = take (length (mf_bytes f)) (drop (unat (mf_offset f)) payload)"

definition covers :: "messageFragment \<Rightarrow> nat \<Rightarrow> bool" where
  "covers f i \<longleftrightarrow> unat (mf_offset f) \<le> i \<and> i < unat (mf_offset f) + length (mf_bytes f)"

lemma copyInto_carries:
  assumes "carries payload f" and "length buffer = length payload"
  shows "\<exists>b. copyInto (unat (mf_offset f)) (mf_bytes f) buffer = Some b \<and> length b = length payload
     \<and> (\<forall>i<length payload. b ! i = (if covers f i then payload ! i else buffer ! i))"
proof -
  let ?o = "unat (mf_offset f)" and ?n = "length (mf_bytes f)"
  from assms have le: "?o + ?n \<le> length payload" by (simp add: carries_def)
  define b where "b = take ?o buffer @ mf_bytes f @ drop (?o + ?n) buffer"
  have nth: "mf_bytes f ! k = payload ! (?o + k)" if "k < ?n" for k
    using assms(1) that unfolding carries_def by (metis le add_leD1 nth_drop nth_take)
  have "copyInto ?o (mf_bytes f) buffer = Some b"
    using le assms(2) by (simp add: copyInto_def b_def)
  moreover have "length b = length payload" using le assms(2) by (simp add: b_def)
  moreover have "b ! i = (if covers f i then payload ! i else buffer ! i)" if "i < length payload" for i
  proof -
    consider "i < ?o" | "?o \<le> i" "i < ?o + ?n" | "?o + ?n \<le> i" by linarith
    then show ?thesis
    proof cases
      case 2
      then have "i - ?o < ?n" by linarith
      with 2 have "b ! i = mf_bytes f ! (i - ?o)" using le assms(2) by (simp add: b_def nth_append)
      with 2 \<open>i - ?o < ?n\<close> nth [of "i - ?o"] show ?thesis by (simp add: covers_def)
    qed (use le assms(2) that in \<open>auto simp: b_def nth_append covers_def\<close>)
  qed
  ultimately show ?thesis by blast
qed

lemma copyFragments_carries:
  assumes "\<forall>f\<in>set fs. carries payload f" and "length buffer = length payload"
  shows "\<exists>b. copyFragments fs buffer = Some b \<and> length b = length payload
     \<and> (\<forall>i<length payload. b ! i = (if \<exists>f\<in>set fs. covers f i then payload ! i else buffer ! i))"
  using assms
proof (induction fs arbitrary: buffer)
  case Nil
  then show ?case by simp
next
  case (Cons f fs)
  from copyInto_carries [of payload f buffer] Cons.prems obtain b where
    b: "copyInto (unat (mf_offset f)) (mf_bytes f) buffer = Some b" "length b = length payload"
    "\<forall>i<length payload. b ! i = (if covers f i then payload ! i else buffer ! i)"
    by auto
  from Cons.IH [of b] Cons.prems b(2) obtain b' where "copyFragments fs b = Some b'" "length b' = length payload"
    "\<forall>i<length payload. b' ! i = (if \<exists>f\<in>set fs. covers f i then payload ! i else b ! i)"
    by auto
  with b show ?case by auto
qed

lemma set_map_filter_map_of:
  assumes "wf_map m" and "set ks = fst ` set m"
  shows "set (List.map_filter (map_of m) ks) = snd ` set m"
  using assms by (force simp: List.map_filter_def wf_map_def image_iff)

lemma assemble_carries:
  assumes "range_order ord" and "wf_map (messageFragments c)"
    and "\<forall>f\<in>snd ` set (messageFragments c). carries payload f"
    and "\<forall>i<length payload. \<exists>f\<in>snd ` set (messageFragments c). covers f i"
    and "totalMessageSize c = accumulatedFragmentsSize c" and "unat (totalMessageSize c) = length payload"
  shows "assemble ord c = Some (Inr payload)"
proof -
  let ?fs = "List.map_filter (map_of (messageFragments c)) (ord (map fst (messageFragments c)))"
  have fs: "set ?fs = snd ` set (messageFragments c)"
    using assms(1,2) by (intro set_map_filter_map_of) (simp_all add: range_order.set_ord)
  from copyFragments_carries [of ?fs payload "replicate (length payload) 0"] assms(3) obtain b where
    b: "copyFragments ?fs (replicate (length payload) 0) = Some b" "length b = length payload"
    "\<forall>i<length payload. b ! i = (if \<exists>f\<in>set ?fs. covers f i then payload ! i else replicate (length payload) 0 ! i)"
    unfolding fs by auto
  then have "b = payload" using assms(4) fs by (intro nth_equalityI) auto
  with b(1) assms(5,6) show ?thesis by (simp add: assemble_def)
qed

lemma update_fresh: "k \<notin> fst ` set m \<Longrightarrow> AList.update k v m = m @ [(k, v)]"
  by (induction m) auto

lemma carries_in_bounds:
  assumes "carries payload f" and "length payload < 2 ^ 32"
  shows "\<not> mf_offset f + word_of_nat (length (mf_bytes f)) > (word_of_nat (length payload) :: uint32)"
proof -
  have le: "unat (mf_offset f) + length (mf_bytes f) \<le> length payload" using assms(1) by (simp add: carries_def)
  have "mf_offset f + word_of_nat (length (mf_bytes f))
      = (word_of_nat (unat (mf_offset f) + length (mf_bytes f)) :: uint32)" by simp
  then have "unat (mf_offset f + word_of_nat (length (mf_bytes f))) = unat (mf_offset f) + length (mf_bytes f)"
    using le assms(2) by (simp only: unat_of_nat take_bit_nat_eq_self_iff) (simp add: take_bit_nat_eq_self)
  moreover have "unat (word_of_nat (length payload) :: uint32) = length payload"
    using assms(2) by (simp add: unat_of_nat take_bit_nat_eq_self)
  ultimately show ?thesis using le by (simp add: word_less_nat_alt)
qed

text \<open>
  What a collection holds of the fragments \<open>F\<close> of a payload: some of them, each once under its offset, and
  their size is the one accumulated. A fragment that is held already changes nothing.
\<close>

definition collected :: "messageFragment set \<Rightarrow> byte list \<Rightarrow> messageFragmentsCollection \<Rightarrow> bool" where
  "collected F payload c \<longleftrightarrow> totalMessageSize c = word_of_nat (length payload) \<and> wf_map (messageFragments c)
     \<and> (\<forall>(k, f)\<in>set (messageFragments c). f \<in> F \<and> k = mf_offset f)
     \<and> accumulatedFragmentsSize c = word_of_nat (sum_list (map (length \<circ> mf_bytes \<circ> snd) (messageFragments c)))"

lemma collection_add_collected:
  assumes "\<forall>f\<in>F. carries payload f" and "inj_on mf_offset F" and "length payload < 2 ^ 32"
    and "mfi_fragment info \<in> F" and "collected F payload c"
  shows "collected F payload (collection_add info c)
     \<and> snd ` set (messageFragments (collection_add info c)) = insert (mfi_fragment info) (snd ` set (messageFragments c))"
proof -
  let ?f = "mfi_fragment info"
  have bounds: "\<not> mf_offset ?f + word_of_nat (length (mf_bytes ?f)) > totalMessageSize c"
    using carries_in_bounds [of payload ?f] assms by (auto simp: collected_def)
  show ?thesis
  proof (cases "map_of (messageFragments c) (mf_offset ?f)")
    case (Some f)
    then have mem: "(mf_offset ?f, f) \<in> set (messageFragments c)" by (rule map_of_SomeD)
    then have "f \<in> F" "mf_offset f = mf_offset ?f" using assms(5) by (auto simp: collected_def)
    then have "f = ?f" using assms(2,4) by (auto dest: inj_onD)
    moreover have "collection_add info c = c" using bounds Some by (auto simp: collection_add_def Let_def)
    ultimately show ?thesis using mem assms(5) by (force simp: image_iff)
  next
    case None
    then have fresh: "mf_offset ?f \<notin> fst ` set (messageFragments c)" by (simp add: map_of_eq_None_iff)
    have add: "messageFragments (collection_add info c) = messageFragments c @ [(mf_offset ?f, ?f)]"
      "accumulatedFragmentsSize (collection_add info c) = accumulatedFragmentsSize c + word_of_nat (length (mf_bytes ?f))"
      "totalMessageSize (collection_add info c) = totalMessageSize c"
      using bounds None fresh by (auto simp: collection_add_def Let_def update_fresh)
    have "wf_map (messageFragments (collection_add info c))" using assms(5) fresh by (simp add: add(1) collected_def wf_map_def)
    then show ?thesis using assms(4,5) by (auto simp: collected_def add)
  qed
qed

lemma fold_collection_add:
  assumes "\<forall>f\<in>F. carries payload f" and "inj_on mf_offset F" and "length payload < 2 ^ 32"
    and "mfi_fragment ` set infos \<subseteq> F" and "collected F payload c"
  shows "collected F payload (fold collection_add infos c)
     \<and> snd ` set (messageFragments (fold collection_add infos c)) = snd ` set (messageFragments c) \<union> mfi_fragment ` set infos"
  using assms(4,5)
proof (induction infos arbitrary: c)
  case (Cons info infos)
  with collection_add_collected [OF assms(1-3), of info c] Cons.IH [of "collection_add info c"] show ?case by auto
qed simp

text \<open>A collection that holds all fragments has accumulated their size.\<close>

lemma collected_size:
  assumes "collected F payload c" and "snd ` set (messageFragments c) = F"
  shows "accumulatedFragmentsSize c = word_of_nat (\<Sum>f\<in>F. length (mf_bytes f))"
proof -
  have "map fst (messageFragments c) = map (mf_offset \<circ> snd) (messageFragments c)"
    using assms(1) by (auto simp: collected_def)
  then have "distinct (map mf_offset (map snd (messageFragments c)))"
    using assms(1) unfolding collected_def wf_map_def map_map by metis
  then have "distinct (map snd (messageFragments c))" unfolding distinct_map by (rule conjunct1)
  from sum_list_distinct_conv_sum_set [OF this, of "length \<circ> mf_bytes"] assms show ?thesis
    by (simp add: collected_def comp_def)
qed

text \<open>What the consumer makes of one produced fragment.\<close>

definition fragmentInfoOf ::
  "(byte list \<Rightarrow> int option) \<Rightarrow> kafka_Message \<Rightarrow> (consumer_error + messageFragmentInfo) option" where
  "fragmentInfoOf parseTime m = do {
     fragment \<leftarrow> messageIsFragment m;
     f \<leftarrow> fragment;
     createFragmentInfo parseTime m f
   }"

definition plain_headers :: "Header list \<Rightarrow> bool" where
  "plain_headers hs \<longleftrightarrow> (\<forall>h\<in>set hs. hdr_Key h \<notin> {SizeHeader, OffsetHeader, FragmentationTimestamp})"

lemma find_append: "find P (xs @ ys) = (case find P xs of None \<Rightarrow> find P ys | Some x \<Rightarrow> Some x)"
  by (induction xs) auto

lemma plain_headers_find: "plain_headers hs \<Longrightarrow> k \<in> {SizeHeader, OffsetHeader, FragmentationTimestamp}
    \<Longrightarrow> find (\<lambda>h. hdr_Key h = k) hs = None"
  by (auto simp: plain_headers_def find_None_iff)

lemma fragmentInfoOf_fragment:
  assumes "plain_headers hs" and "parseTime (map of_char ts) = Some t"
  shows "fragmentInfoOf parseTime ((fragmentMessage ts l key topic part hs n i chunk)\<lparr>km_Offset := off\<rparr>)
     = Some (Inr \<lparr>mfi_key = key @ ''_'' @ itoa i, mfi_totalSize = word_of_nat n, mfi_fragmentationTimestamp = t,
         mfi_fragment = \<lparr>mf_offset = word_of_nat (i * l), mf_bytes = chunk\<rparr>,
         mfi_kafkaMessage = (fragmentMessage ts l key topic part hs n i chunk)\<lparr>km_Offset := off\<rparr>\<rparr>)"
proof -
  note finds = plain_headers_find [OF assms(1), of SizeHeader] plain_headers_find [OF assms(1), of OffsetHeader]
    plain_headers_find [OF assms(1), of FragmentationTimestamp]
  show ?thesis
    using finds assms(2)
    by (simp add: fragmentInfoOf_def messageIsFragment_def createFragmentInfo_def lookupHeader_def fragmentMessage_def
        builder_Header_def NewMessageBuilder_def find_append Uint32_toByteArray)
      (simp add: header_names)
qed

definition deliver :: "kafka_Message list \<Rightarrow> int list \<Rightarrow> kafka_Message list" where
  "deliver ms offs = map2 (\<lambda>m off. m\<lparr>km_Offset := off\<rparr>) ms offs"

text \<open>The fragment infos of a payload, in the order of production.\<close>

definition infosOf ::
  "string \<Rightarrow> int \<Rightarrow> nat \<Rightarrow> string \<Rightarrow> string \<Rightarrow> int \<Rightarrow> Header list \<Rightarrow> byte list \<Rightarrow> int list \<Rightarrow> messageFragmentInfo list" where
  "infosOf ts t l key topic part hs payload offs =
     map (\<lambda>i. \<lparr>mfi_key = key @ ''_'' @ itoa i, mfi_totalSize = word_of_nat (length payload), mfi_fragmentationTimestamp = t,
         mfi_fragment = \<lparr>mf_offset = word_of_nat (i * l), mf_bytes = chunkLoop l payload ! i\<rparr>,
         mfi_kafkaMessage = (fragmentMessage ts l key topic part hs (length payload) i (chunkLoop l payload ! i))
           \<lparr>km_Offset := offs ! i\<rparr>\<rparr>) [0..<length (chunkLoop l payload)]"

lemma getMessageFragments_split:
  assumes "0 < l" and "l < length payload"
  shows "getMessageFragments ts l key topic part hs payload
     = Some (map (\<lambda>i. fragmentMessage ts l key topic part hs (length payload) i (chunkLoop l payload ! i))
         [0..<length (chunkLoop l payload)])"
  using assms
  by (simp add: getMessageFragments_def splitPayloadIntoChunks_def enumerate_eq_zip)
    (auto intro!: nth_equalityI)

lemma deliver_infos:
  assumes "0 < l" and "l < length payload" and "plain_headers hs" and "parseTime (map of_char ts) = Some t"
    and "getMessageFragments ts l key topic part hs payload = Some ms" and "length offs = length ms"
  shows "map (fragmentInfoOf parseTime) (deliver ms offs) = map (Some \<circ> Inr) (infosOf ts t l key topic part hs payload offs)"
    and "map mfi_kafkaMessage (infosOf ts t l key topic part hs payload offs) = deliver ms offs"
proof -
  from assms(5) getMessageFragments_split [OF assms(1,2)] have ms: "ms = map (\<lambda>i. fragmentMessage ts l key topic part hs
      (length payload) i (chunkLoop l payload ! i)) [0..<length (chunkLoop l payload)]"
    by simp
  show "map (fragmentInfoOf parseTime) (deliver ms offs) = map (Some \<circ> Inr) (infosOf ts t l key topic part hs payload offs)"
    using assms(6) by (auto intro!: nth_equalityI simp: deliver_def infosOf_def ms
      fragmentInfoOf_fragment [where parseTime = parseTime and ts = ts and t = t, OF assms(3,4)])
  show "map mfi_kafkaMessage (infosOf ts t l key topic part hs payload offs) = deliver ms offs"
    using assms(6) by (auto intro!: nth_equalityI simp: deliver_def infosOf_def ms)
qed

lemma carries_chunk:
  "off < length payload \<Longrightarrow> unat w = off \<Longrightarrow> carries payload \<lparr>mf_offset = w, mf_bytes = take l (drop off payload)\<rparr>"
  by (cases "l \<le> length payload - off") (auto simp: carries_def min_def)

lemma infosOf_facts:
  assumes "0 < l" and "length payload < 2 ^ 32"
    and infos_def: "infos = infosOf ts t l key topic part hs payload offs"
  shows "\<forall>info\<in>set infos. carries payload (mfi_fragment info)"
    and "distinct (map (mf_offset \<circ> mfi_fragment) infos)"
    and "sum_list (map (length \<circ> mf_bytes \<circ> mfi_fragment) infos) = length payload"
    and "\<forall>j<length payload. \<exists>f\<in>mfi_fragment ` set infos. covers f j"
    and "distinct (map mfi_key infos)"
proof -
  let ?n = "length (chunkLoop l payload)"
  note nth = chunkLoop_nth [OF assms(1), of _ payload]
  have off: "unat (word_of_nat (i * l) :: uint32) = i * l" if "i < ?n" for i
    using nth [OF that] assms(2) by (simp add: unat_of_nat take_bit_nat_eq_self del: of_nat_mult)
  show "\<forall>info\<in>set infos. carries payload (mfi_fragment info)"
    using nth off by (auto simp: infos_def infosOf_def carries_chunk simp del: of_nat_mult)
  show "distinct (map (mf_offset \<circ> mfi_fragment) infos)"
    unfolding infos_def infosOf_def map_map comp_def distinct_map
    using off assms(1) by (auto intro!: inj_onI) (metis mult_cancel2 not_less_zero)
  have "map (length \<circ> mf_bytes \<circ> mfi_fragment) infos = map length (chunkLoop l payload)"
    by (auto intro!: nth_equalityI simp: infos_def infosOf_def)
  then show "sum_list (map (length \<circ> mf_bytes \<circ> mfi_fragment) infos) = length payload"
    by (metis concat_chunkLoop length_concat)
  show "\<forall>j<length payload. \<exists>f\<in>mfi_fragment ` set infos. covers f j"
  proof (intro allI impI)
    fix j
    assume j: "j < length payload"
    with length_chunkLoop [OF assms(1), of payload] have i: "j div l < ?n"
      by (intro less_mult_imp_div_less) simp
    have "j div l * l \<le> j" and "j < j div l * l + l"
      using dividend_less_div_times [OF assms(1), of j] by simp_all
    with j nth [OF i] off [OF i] i
    have "covers (mfi_fragment (infos ! (j div l))) j" by (simp add: infos_def infosOf_def covers_def del: of_nat_mult)
    moreover have "infos ! (j div l) \<in> set infos" using i by (simp add: infos_def infosOf_def)
    ultimately show "\<exists>f\<in>mfi_fragment ` set infos. covers f j" by blast
  qed
  show "distinct (map mfi_key infos)"
    unfolding infos_def infosOf_def map_map comp_def distinct_map by (auto intro!: inj_onI dest: itoa_inj)
qed

text \<open>
  The fragments as they arrive: each message with the offset of one of its deliveries, in any order and any
  number of times.
\<close>

definition deliveries :: "(kafka_Message \<times> int) list \<Rightarrow> kafka_Message list" where
  "deliveries xs = map (\<lambda>(m, off). m\<lparr>km_Offset := off\<rparr>) xs"

lemma deliveries_infos:
  assumes "0 < l" and "l < length payload" and "plain_headers hs" and "parseTime (map of_char ts) = Some t"
    and "getMessageFragments ts l key topic part hs payload = Some ms" and "fst ` set xs = set ms"
  shows "\<exists>infos. map (fragmentInfoOf parseTime) (deliveries xs) = map (Some \<circ> Inr) infos
     \<and> mfi_fragment ` set infos = mfi_fragment ` set (infosOf ts t l key topic part hs payload offs)"
proof -
  from assms(5) getMessageFragments_split [OF assms(1,2)] have ms: "ms = map (\<lambda>i. fragmentMessage ts l key topic part hs
      (length payload) i (chunkLoop l payload ! i)) [0..<length (chunkLoop l payload)]"
    by simp
  let ?frag = "\<lambda>i. \<lparr>mf_offset = word_of_nat (i * l), mf_bytes = chunkLoop l payload ! i\<rparr>"
  have one: "\<exists>info. fragmentInfoOf parseTime (m\<lparr>km_Offset := off\<rparr>) = Some (Inr info) \<and>
      mfi_fragment info = ?frag i" if "m = fragmentMessage ts l key topic part hs (length payload) i (chunkLoop l payload ! i)" for m off i
    using fragmentInfoOf_fragment [where parseTime = parseTime and ts = ts and t = t, OF assms(3,4)] that by simp
  have any: "\<exists>infos. map (fragmentInfoOf parseTime) (deliveries xs) = map (Some \<circ> Inr) infos \<and>
      mfi_fragment ` set infos = ?frag ` {i. i < length (chunkLoop l payload) \<and>
        fragmentMessage ts l key topic part hs (length payload) i (chunkLoop l payload ! i) \<in> fst ` set xs}"
    if "fst ` set xs \<subseteq> set ms" for xs
    using that
  proof (induction xs)
    case (Cons x xs)
    obtain m off where x: "x = (m, off)" by fastforce
    with Cons.prems obtain i where i: "i < length (chunkLoop l payload)"
        "m = fragmentMessage ts l key topic part hs (length payload) i (chunkLoop l payload ! i)" by (auto simp: ms)
    obtain info where info: "fragmentInfoOf parseTime (m\<lparr>km_Offset := off\<rparr>) = Some (Inr info)" "mfi_fragment info = ?frag i"
      using one [OF i(2)] by blast
    have same: "?frag j = ?frag i" if "fragmentMessage ts l key topic part hs (length payload) j (chunkLoop l payload ! j) = m" for j
      using one [OF that [symmetric], of off] info by simp
    have "fst ` set xs \<subseteq> set ms" using Cons.prems by simp
    from Cons.IH [OF this] obtain infos where infos: "map (fragmentInfoOf parseTime) (deliveries xs) = map (Some \<circ> Inr) infos"
        "mfi_fragment ` set infos = ?frag ` {i. i < length (chunkLoop l payload) \<and>
          fragmentMessage ts l key topic part hs (length payload) i (chunkLoop l payload ! i) \<in> fst ` set xs}" by blast
    have "mfi_fragment ` set (info # infos) = ?frag ` {i. i < length (chunkLoop l payload) \<and>
        fragmentMessage ts l key topic part hs (length payload) i (chunkLoop l payload ! i) \<in> fst ` set (x # xs)}"
    proof -
      let ?fm = "\<lambda>j. fragmentMessage ts l key topic part hs (length payload) j (chunkLoop l payload ! j)" and ?n = "length (chunkLoop l payload)"
      have "{j. j < ?n \<and> ?fm j \<in> fst ` set (x # xs)} = {j. j < ?n \<and> ?fm j = m} \<union> {j. j < ?n \<and> ?fm j \<in> fst ` set xs}"
        unfolding x by auto
      moreover have "?frag ` {j. j < ?n \<and> ?fm j = m} = {?frag i}"
      proof (intro equalityI subsetI)
        fix y assume "y \<in> ?frag ` {j. j < ?n \<and> ?fm j = m}"
        then obtain j where "y = ?frag j" "?fm j = m" by blast
        with same [of j] show "y \<in> {?frag i}" by simp
      next
        fix y assume "y \<in> {?frag i}"
        with i show "y \<in> ?frag ` {j. j < ?n \<and> ?fm j = m}" by blast
      qed
      ultimately show ?thesis by (simp only: list.set image_insert image_Un info(2) infos(2)) (simp only: Un_insert_left Un_empty_left)
    qed
    with infos(1) info(1) show ?case by (intro exI [of _ "info # infos"]) (simp add: deliveries_def x)
  qed (simp add: deliveries_def)
  have "fst ` set xs \<subseteq> set ms" by (simp only: assms(6) subset_refl)
  from any [OF this, unfolded assms(6)] obtain infos where infos: "map (fragmentInfoOf parseTime) (deliveries xs) = map (Some \<circ> Inr) infos"
      "mfi_fragment ` set infos = ?frag ` {i. i < length (chunkLoop l payload) \<and>
        fragmentMessage ts l key topic part hs (length payload) i (chunkLoop l payload ! i) \<in> set ms}" by (elim exE conjE) (rule that)
  moreover have "mfi_fragment ` set (infosOf ts t l key topic part hs payload offs) = ?frag ` {i. i < length (chunkLoop l payload)}"
    by (auto simp: infosOf_def image_image)
  moreover have "{i. i < length (chunkLoop l payload) \<and> fragmentMessage ts l key topic part hs (length payload) i (chunkLoop l payload ! i) \<in> set ms}
      = {i. i < length (chunkLoop l payload)}" by (auto simp: ms)
  ultimately show ?thesis by (intro exI [of _ infos]) simp
qed

text \<open>
  C38. Splitting and assembling are inverse: whatever payload above the size limit the producer splits, a
  collection that was given all of its fragments, in any order, any of them any number of times, with whatever
  offsets the broker assigned, assembles the original payload, independently of the order in which the
  map of fragments is ranged over. (The assembler itself looks for the collection by the key of the
  message, which differs between the fragments, and so never completes one.)
\<close>

theorem fragments_reassemble:
  assumes "range_order ord" and "0 < l" and "l < length payload" and "length payload < 2 ^ 32"
    and "plain_headers hs" and "parseTime (map of_char ts) = Some t"
    and "getMessageFragments ts l key topic part hs payload = Some ms" and "fst ` set xs = set ms"
  shows "\<exists>infos. map (fragmentInfoOf parseTime) (deliveries xs) = map (Some \<circ> Inr) infos
     \<and> assemble ord (fold collection_add infos (newMessageFragmentsCollection (word_of_nat (length payload)) t))
         = Some (Inr payload)"
proof -
  let ?infos = "infosOf ts t l key topic part hs payload []"
  let ?c = "newMessageFragmentsCollection (word_of_nat (length payload)) t" and ?F = "mfi_fragment ` set ?infos"
  obtain infos where infos: "map (fragmentInfoOf parseTime) (deliveries xs) = map (Some \<circ> Inr) infos" and frags: "mfi_fragment ` set infos = ?F"
    using deliveries_infos [where parseTime = parseTime and ts = ts and t = t, OF assms(2,3,5-8), of "[]"] by blast
  note facts = infosOf_facts [OF assms(2,4) refl, of ts t key topic part hs "[]"]
  have carry: "\<forall>f\<in>?F. carries payload f" using facts(1) by blast
  have dist: "distinct (map mf_offset (map mfi_fragment ?infos))" using facts(2) by (simp add: comp_def)
  then have inj: "inj_on mf_offset ?F" unfolding distinct_map [of mf_offset] by (simp only: set_map)
  have sum: "(\<Sum>f\<in>?F. length (mf_bytes f)) = length payload"
    using sum_list_distinct_conv_sum_set [OF conjunct1 [OF distinct_map [THEN iffD1, OF dist]], of "length \<circ> mf_bytes"] facts(3) by (simp add: comp_def)
  have "collected ?F payload ?c" by (simp add: collected_def newMessageFragmentsCollection_def wf_map_def)
  from fold_collection_add [OF carry inj assms(4) _ this, of infos] frags
  have folded: "collected ?F payload (fold collection_add infos ?c)" "snd ` set (messageFragments (fold collection_add infos ?c)) = ?F"
    by (simp_all add: newMessageFragmentsCollection_def)
  have "assemble ord (fold collection_add infos ?c) = Some (Inr payload)"
    using folded collected_size [OF folded] sum carry facts(4) assms(1,4)
    by (intro assemble_carries) (simp_all add: collected_def unat_of_nat take_bit_nat_eq_self)
  with infos show ?thesis by blast
qed

definition sample_payload :: "byte list" where
  "sample_payload = [1, 2, 3, 4, 5]"

definition sample_fragments :: "kafka_Message list" where
  "sample_fragments = the (getMessageFragments ''T'' 2 ''hub1.Policies'' ''status'' 0 [] sample_payload)"

lemma sample_fragments_ok:
  "getMessageFragments ''T'' 2 ''hub1.Policies'' ''status'' 0 [] sample_payload = Some sample_fragments"
  "length [10, 12, 15 :: int] = length sample_fragments" "2 < length sample_payload" "plain_headers []"
proof -
  have l: "length (chunkLoop 2 sample_payload) = 3" by code_simp
  show "2 < length sample_payload" by code_simp
  from getMessageFragments_split [OF _ this, of "''T''" "''hub1.Policies''" "''status''" 0 "[]"]
  show "getMessageFragments ''T'' 2 ''hub1.Policies'' ''status'' 0 [] sample_payload = Some sample_fragments"
    and "length [10, 12, 15 :: int] = length sample_fragments"
    by (simp_all add: sample_fragments_def l)
  show "plain_headers []" by (simp add: plain_headers_def)
qed

text \<open>The last fragment first, and the first one twice, with the same offset and with another.\<close>

definition sample_deliveries :: "(kafka_Message \<times> int) list" where
  "sample_deliveries = [(sample_fragments ! 2, 15), (sample_fragments ! 0, 10), (sample_fragments ! 0, 10), (sample_fragments ! 1, 12), (sample_fragments ! 0, 21)]"

theorem fragments_reassemble_witness:
  "\<exists>infos. map (fragmentInfoOf (\<lambda>_. Some 7)) (deliveries sample_deliveries) = map (Some \<circ> Inr) infos
     \<and> assemble rev (fold collection_add infos (newMessageFragmentsCollection (word_of_nat (length sample_payload)) 7))
         = Some (Inr [1, 2, 3, 4, 5])"
proof -
  have "length sample_payload < 2 ^ 32" "[1, 2, 3, 4, 5] = sample_payload" by (simp_all add: sample_payload_def)
  moreover have "length sample_fragments = 3" using sample_fragments_ok(2) by simp
  then have "sample_fragments = [sample_fragments ! 0, sample_fragments ! 1, sample_fragments ! 2]"
    by (intro nth_equalityI) (auto simp: less_Suc_eq numeral_3_eq_3 numeral_2_eq_2)
  then have "set sample_fragments = {sample_fragments ! 0, sample_fragments ! 1, sample_fragments ! 2}"
    by (metis list.simps(15) empty_set)
  then have "fst ` set sample_deliveries = set sample_fragments" by (auto simp: sample_deliveries_def)
  ultimately show ?thesis
    using fragments_reassemble [OF reverse_order.range_order_axioms _ sample_fragments_ok(3) _ sample_fragments_ok(4) _ sample_fragments_ok(1),
      of "\<lambda>_. Some 7" 7 sample_deliveries] by simp
qed

section \<open>What the consumer does with the producer's fragments\<close>

lemma collectionsOn_put: "collectionsOn (putCollection part key c a) part = AList.update key c (collectionsOn a part)"
  by (simp add: putCollection_def collectionsOn_def)

lemma collectionsOn_addOffset: "collectionsOn (addOffsetToPartition p off a) part = collectionsOn a part"
  by (simp add: addOffsetToPartition_def collectionsOn_def split: option.split)

text \<open>A fragment under a key that has no collection opens one and is never handed on by itself.\<close>

lemma processFragmentInfo_fresh:
  assumes "mfi_key info \<notin> fst ` set (collectionsOn a (km_Partition (mfi_kafkaMessage info)))"
  shows "\<exists>a'. processFragmentInfo ord info a = Some (a', None)
     \<and> fst ` set (collectionsOn a' (km_Partition (mfi_kafkaMessage info)))
       = insert (mfi_key info) (fst ` set (collectionsOn a (km_Partition (mfi_kafkaMessage info))))"
proof -
  let ?part = "km_Partition (mfi_kafkaMessage info)"
  let ?a0 = "a\<lparr>partitionToFragmentCollectionMap :=
            (case map_of (partitionToFragmentCollectionMap a) ?part of
               None \<Rightarrow> AList.update ?part [] (partitionToFragmentCollectionMap a)
             | Some _ \<Rightarrow> partitionToFragmentCollectionMap a)\<rparr>"
  have a0: "collectionsOn ?a0 ?part = collectionsOn a ?part" by (simp add: collectionsOn_def split: option.split)
  then have "map_of (collectionsOn ?a0 ?part) (mfi_key info) = None" using assms by (simp add: map_of_eq_None_iff)
  then show ?thesis
    using a0 by (simp add: processFragmentInfo_def Let_def collectionsOn_addOffset collectionsOn_put update_conv' dom_update)
qed

lemma pollMessages_fresh:
  assumes "map (fragmentInfoOf parseTime) ms = map (Some \<circ> Inr) infos" and "map mfi_kafkaMessage infos = ms"
    and "distinct (map mfi_key infos)" and "\<forall>m\<in>set ms. km_Partition m = part"
    and "mfi_key ` set infos \<inter> fst ` set (collectionsOn a part) = {}"
  shows "\<exists>a'. pollMessages parseTime ord ms a = Some (a', [])"
  using assms
proof (induction infos arbitrary: ms a)
  case Nil
  then show ?case by simp
next
  case (Cons info infos)
  then obtain m ms' where ms: "ms = m # ms'" "fragmentInfoOf parseTime m = Some (Inr info)"
    "map (fragmentInfoOf parseTime) ms' = map (Some \<circ> Inr) infos" "mfi_kafkaMessage info = m"
    "map mfi_kafkaMessage infos = ms'"
    by (cases ms) auto
  with Cons.prems(4,5) processFragmentInfo_fresh [of info a ord] obtain a1 where
    a1: "processFragmentInfo ord info a = Some (a1, None)"
    "fst ` set (collectionsOn a1 part) = insert (mfi_key info) (fst ` set (collectionsOn a part))"
    by auto
  have "pollMessage parseTime ord m a = Some (a1, None)"
    using ms(2) a1(1) by (auto simp: pollMessage_def fragmentInfoOf_def bind_eq_Some_conv)
  moreover have "\<exists>a'. pollMessages parseTime ord ms' a1 = Some (a', [])"
    using Cons.prems ms a1(2) by (intro Cons.IH) auto
  ultimately show ?case using ms(1) by auto
qed

text \<open>
  The producer gives every fragment of a payload its own message key, while the consumer collects
  fragments by message key: of a payload above the size limit the consumer never hands on anything,
  whatever offsets the broker assigns.
\<close>

theorem fragments_never_assembled:
  assumes "0 < l" and "l < length payload" and "length payload < 2 ^ 32" and "plain_headers hs"
    and "parseTime (map of_char ts) = Some t"
    and "getMessageFragments ts l key topic part hs payload = Some ms" and "length offs = length ms"
  shows "\<exists>a. pollMessages parseTime ord (deliver ms offs) newKafkaMessageAssembler = Some (a, [])"
proof (rule pollMessages_fresh)
  let ?infos = "infosOf ts t l key topic part hs payload offs"
  show "map (fragmentInfoOf parseTime) (deliver ms offs) = map (Some \<circ> Inr) ?infos"
    by (rule deliver_infos(1) [where parseTime = parseTime and ts = ts and t = t, OF assms(1,2,4-7)])
  show m: "map mfi_kafkaMessage ?infos = deliver ms offs"
    by (rule deliver_infos(2) [where parseTime = parseTime and ts = ts and t = t, OF assms(1,2,4-7)])
  show "distinct (map mfi_key ?infos)" by (rule infosOf_facts(5) [OF assms(1,3) refl])
  show "\<forall>m\<in>set (deliver ms offs). km_Partition m = part"
    unfolding m [symmetric]
    by (simp add: infosOf_def fragmentMessage_def builder_Header_def NewMessageBuilder_def)
  show "mfi_key ` set ?infos \<inter> fst ` set (collectionsOn newKafkaMessageAssembler part) = {}"
    by (simp add: newKafkaMessageAssembler_def collectionsOn_def)
qed

theorem fragments_never_assembled_witness:
  "\<exists>a. pollMessages (\<lambda>_. Some 7) (\<lambda>ks. ks) (deliver sample_fragments [10, 12, 15]) newKafkaMessageAssembler = Some (a, [])"
proof -
  have "length sample_payload < 2 ^ 32" by (simp add: sample_payload_def)
  with fragments_never_assembled [OF _ sample_fragments_ok(3) _ sample_fragments_ok(4) _ sample_fragments_ok(1,2),
      of "\<lambda>_. Some 7" 7 "\<lambda>ks. ks"] show ?thesis by simp
qed

section \<open>Offsets handed on\<close>

text \<open>
  The lowest-offset entry of a partition is at most the lowest offset of every collection open on it.
  \<open>seen\<close> bounds the offsets received per partition: Kafka delivers a partition in order.
\<close>

definition collection_ok :: "(int \<Rightarrow> int) \<Rightarrow> int \<Rightarrow> (int, int) gomap \<Rightarrow> messageFragmentsCollection \<Rightarrow> bool" where
  "collection_ok seen part lows c \<longleftrightarrow>
     0 \<le> lowestOffset c \<and> lowestOffset c \<le> seen part
     \<and> (\<exists>low. map_of lows part = Some low \<and> low \<le> lowestOffset c)
     \<and> (\<forall>m. latestKafkaMessage c = Some m \<longrightarrow> km_Partition m = part)"

definition assembler_ok :: "(int \<Rightarrow> int) \<Rightarrow> kafkaMessageAssembler \<Rightarrow> bool" where
  "assembler_ok seen a \<longleftrightarrow>
     (\<forall>part. seen part < 2 ^ 63)
     \<and> (\<forall>part. \<forall>(key, c)\<in>set (collectionsOn a part). collection_ok seen part (partitionLowestOffsetMap a) c)"

lemma assembler_okD:
  "assembler_ok seen a \<Longrightarrow> (key, c) \<in> set (collectionsOn a part) \<Longrightarrow> collection_ok seen part (partitionLowestOffsetMap a) c"
  by (auto simp: assembler_ok_def)

text \<open>A fragment whose offset is the next one seen on its partition and that stays within its message.\<close>

definition next_fragment :: "(int \<Rightarrow> int) \<Rightarrow> messageFragmentInfo \<Rightarrow> bool" where
  "next_fragment seen info \<longleftrightarrow>
     (let m = mfi_kafkaMessage info; f = mfi_fragment info in
      0 \<le> km_Offset m \<and> seen (km_Partition m) \<le> km_Offset m \<and> km_Offset m < 2 ^ 63
      \<and> mf_offset f + word_of_nat (length (mf_bytes f)) \<le> mfi_totalSize info)"

lemma set_update_subset: "set (AList.update k v m) \<subseteq> insert (k, v) (set m)"
  by (induction m) auto

lemma collectionsOn_partition_put:
  "collectionsOn (putCollection part key c a) p
     = (if p = part then AList.update key c (collectionsOn a part) else collectionsOn a p)"
  by (simp add: putCollection_def collectionsOn_def)

lemma collection_add_new:
  assumes "next_fragment seen info"
  shows "lowestOffset (collection_add info (newMessageFragmentsCollection (mfi_totalSize info) t)) = km_Offset (mfi_kafkaMessage info)
     \<and> latestKafkaMessage (collection_add info (newMessageFragmentsCollection (mfi_totalSize info) t)) = Some (mfi_kafkaMessage info)"
  using assms by (auto simp: next_fragment_def collection_add_def newMessageFragmentsCollection_def Let_def not_less)

lemma collection_add_existing:
  assumes "next_fragment seen info" and "collection_ok seen (km_Partition (mfi_kafkaMessage info)) lows c"
  shows "lowestOffset (collection_add info c) = lowestOffset c
     \<and> (\<forall>m. latestKafkaMessage (collection_add info c) = Some m \<longrightarrow> km_Partition m = km_Partition (mfi_kafkaMessage info))"
  using assms by (auto simp: next_fragment_def collection_add_def collection_ok_def Let_def)

lemma collection_ok_mono:
  assumes "collection_ok seen part lows c" and "seen part \<le> seen' part"
    and "\<And>low. map_of lows part = Some low \<Longrightarrow> \<exists>low'. map_of lows' part = Some low' \<and> low' \<le> low"
  shows "collection_ok seen' part lows' c"
  using assms by (fastforce simp: collection_ok_def)

lemma addOffset_low:
  "\<exists>low. map_of (partitionLowestOffsetMap (addOffsetToPartition part off a)) part = Some low \<and> low \<le> off
     \<and> (\<forall>old. map_of (partitionLowestOffsetMap a) part = Some old \<longrightarrow> low \<le> old)"
  "p \<noteq> part \<Longrightarrow> map_of (partitionLowestOffsetMap (addOffsetToPartition part off a)) p = map_of (partitionLowestOffsetMap a) p"
  by (auto simp: addOffsetToPartition_def split: option.split)

lemma fold_lowest_acc:
  "fold (\<lambda>(k, c) lowest. if lowestOffset c < lowest then lowestOffset c else lowest) m acc \<le> acc"
proof (induction m arbitrary: acc)
  case (Cons x m)
  show ?case
    using Cons.IH [of acc] Cons.IH [of "lowestOffset (snd x)"] by (cases x) auto
qed simp

lemma fold_lowest_le:
  "(k, c) \<in> set m \<Longrightarrow>
     fold (\<lambda>(k, c) lowest. if lowestOffset c < lowest then lowestOffset c else lowest) m acc \<le> lowestOffset c"
proof (induction m arbitrary: acc)
  case (Cons x m)
  then show ?case
    using fold_lowest_acc [of m "lowestOffset c"] fold_lowest_acc [of m acc] by (cases x) fastforce
qed simp

lemma fold_lowest_nonneg:
  "\<forall>x\<in>set m. 0 \<le> lowestOffset (snd x) \<Longrightarrow> 0 \<le> acc \<Longrightarrow>
     0 \<le> fold (\<lambda>(k, c) lowest. if lowestOffset c < lowest then lowestOffset c else lowest) m acc"
  by (induction m arbitrary: acc) auto

lemma deleteOffset_ok:
  assumes "assembler_ok seen a"
  shows "assembler_ok seen (deleteOffsetOnPartition part off a)"
proof (cases "map_of (partitionLowestOffsetMap a) part = Some off")
  case False
  then have "deleteOffsetOnPartition part off a = a" by (auto simp: deleteOffsetOnPartition_def split: option.split)
  with assms show ?thesis by simp
next
  case True
  let ?low = "findLowestOffsetOnPartition part a"
  have cols: "collectionsOn (deleteOffsetOnPartition part off a) p = collectionsOn a p" for p
    by (simp add: deleteOffsetOnPartition_def collectionsOn_def Let_def split: option.split)
  have low: "?low \<le> lowestOffset c \<and> 0 \<le> ?low" if "(k, c) \<in> set (collectionsOn a part)" for k c
  proof -
    from that obtain m where m: "map_of (partitionToFragmentCollectionMap a) part = Some m" "collectionsOn a part = m"
      by (cases "map_of (partitionToFragmentCollectionMap a) part") (auto simp: collectionsOn_def)
    have "\<forall>x\<in>set m. 0 \<le> lowestOffset (snd x)"
      using assembler_okD [OF assms, of _ _ part] m(2) by (auto simp: collection_ok_def)
    then show ?thesis
      using that m fold_lowest_le [of k c m] fold_lowest_nonneg [of m]
      by (auto simp: findLowestOffsetOnPartition_def)
  qed
  have "collection_ok seen p (partitionLowestOffsetMap (deleteOffsetOnPartition part off a)) c"
    if k: "(k, c) \<in> set (collectionsOn a p)" for k c p
  proof (cases "p = part")
    case True
    with k low assembler_okD [OF assms k] \<open>map_of (partitionLowestOffsetMap a) part = Some off\<close> show ?thesis
      by (fastforce simp: collection_ok_def deleteOffsetOnPartition_def Let_def)
  next
    case False
    with assembler_okD [OF assms k] show ?thesis
      by (rule_tac collection_ok_mono) (auto simp: deleteOffsetOnPartition_def Let_def split: option.split)
  qed
  with assms show ?thesis by (auto simp: assembler_ok_def cols)
qed

lemma set_delete_subset: "set (AList.delete k m) \<subseteq> set m"
  by (auto simp: AList.delete_eq)

lemma assembler_ok_sub:
  assumes "assembler_ok seen a" and "partitionLowestOffsetMap a' = partitionLowestOffsetMap a"
    and "\<And>p. set (collectionsOn a' p) \<subseteq> set (collectionsOn a p)"
  shows "assembler_ok seen a'"
  using assms(1) by (auto simp: assembler_ok_def assms(2) dest!: subsetD [OF assms(3)])

lemma assembleCollection_ok:
  assumes "assembler_ok seen a" and "assembleCollection ord key c a = Some (a', out)"
  shows "assembler_ok seen a'"
proof -
  from assms(2) obtain r where r: "assemble ord c = Some r" by (auto simp: assembleCollection_def bind_eq_Some_conv)
  show ?thesis
  proof (cases r)
    case (Inl e)
    with assms r show ?thesis by (simp add: assembleCollection_def)
  next
    case (Inr bytes)
    with assms(2) r obtain latest where l: "latestKafkaMessage c = Some latest"
      by (auto simp: assembleCollection_def bind_eq_Some_conv)
    let ?part = "km_Partition latest"
    let ?rest = "AList.delete key (collectionsOn a ?part)"
    let ?a1 = "(if ?rest = []
            then a\<lparr>partitionToFragmentCollectionMap := AList.delete ?part (partitionToFragmentCollectionMap a)\<rparr>
            else a\<lparr>partitionToFragmentCollectionMap := AList.update ?part ?rest (partitionToFragmentCollectionMap a)\<rparr>)"
    have "set (collectionsOn ?a1 p) \<subseteq> set (collectionsOn a p)" for p
      using set_delete_subset [of key "collectionsOn a ?part"] by (auto simp: collectionsOn_def)
    then have "assembler_ok seen ?a1" by (intro assembler_ok_sub [OF assms(1)]) simp_all
    moreover from assms(2) r Inr l have "a' = ?a1 \<or> a' = deleteOffsetOnPartition ?part (lowestOffset c) ?a1"
      by (auto simp: assembleCollection_def Let_def split: if_splits option.splits)
    ultimately show ?thesis using deleteOffset_ok by blast
  qed
qed

lemma put_new_ok:
  assumes "assembler_ok seen a" and "next_fragment seen info"
  defines "part \<equiv> km_Partition (mfi_kafkaMessage info)"
    and "c \<equiv> collection_add info (newMessageFragmentsCollection (mfi_totalSize info) (mfi_fragmentationTimestamp info))"
  shows "assembler_ok (seen(part := km_Offset (mfi_kafkaMessage info)))
     (addOffsetToPartition part (lowestOffset c) (putCollection part (mfi_key info) c a))"
proof -
  let ?off = "km_Offset (mfi_kafkaMessage info)" and ?a = "putCollection part (mfi_key info) c a"
  let ?a' = "addOffsetToPartition part (lowestOffset c) ?a" and ?seen = "seen(part := km_Offset (mfi_kafkaMessage info))"
  have c: "lowestOffset c = ?off" "latestKafkaMessage c = Some (mfi_kafkaMessage info)"
    using collection_add_new [OF assms(2)] by (auto simp: c_def)
  have off: "0 \<le> ?off" "seen part \<le> ?off" "?off < 2 ^ 63"
    using assms(2) by (simp_all add: next_fragment_def Let_def part_def)
  have lows: "partitionLowestOffsetMap ?a = partitionLowestOffsetMap a" by (simp add: putCollection_def)
  note add = addOffset_low(1) [of part "lowestOffset c" ?a, unfolded lows]
  have "collection_ok ?seen p (partitionLowestOffsetMap ?a') d" if "(k, d) \<in> set (collectionsOn ?a' p)" for k d p
  proof -
    from that have "(p = part \<and> d = c) \<or> (k, d) \<in> set (collectionsOn a p)"
      using set_update_subset [of "mfi_key info" c "collectionsOn a part"]
      by (auto simp: collectionsOn_addOffset collectionsOn_partition_put split: if_splits)
    then show ?thesis
    proof
      assume "p = part \<and> d = c"
      with c off add show ?thesis by (auto simp: collection_ok_def part_def)
    next
      assume "(k, d) \<in> set (collectionsOn a p)"
      from assembler_okD [OF assms(1) this] show ?thesis
        using off(2) add addOffset_low(2) [of p part "lowestOffset c" ?a] lows
        by (cases "p = part") (auto intro: collection_ok_mono)
    qed
  qed
  moreover have "\<forall>p. ?seen p < 2 ^ 63" using assms(1) off(3) by (auto simp: assembler_ok_def)
  ultimately show ?thesis by (auto simp: assembler_ok_def)
qed

lemma put_existing_ok:
  assumes "assembler_ok seen a" and "next_fragment seen info"
    and "(mfi_key info, c) \<in> set (collectionsOn a (km_Partition (mfi_kafkaMessage info)))"
  shows "assembler_ok seen (putCollection (km_Partition (mfi_kafkaMessage info)) (mfi_key info) (collection_add info c) a)"
proof -
  let ?part = "km_Partition (mfi_kafkaMessage info)" and ?c = "collection_add info c"
  have ok: "collection_ok seen ?part (partitionLowestOffsetMap a) c" by (rule assembler_okD [OF assms(1,3)])
  have "collection_ok seen ?part (partitionLowestOffsetMap a) ?c"
    using ok collection_add_existing [OF assms(2) ok] by (simp add: collection_ok_def)
  moreover have "set (collectionsOn (putCollection ?part (mfi_key info) ?c a) p)
      \<subseteq> (if p = ?part then {(mfi_key info, ?c)} else {}) \<union> set (collectionsOn a p)" for p
    using set_update_subset [of "mfi_key info" ?c "collectionsOn a ?part"] by (auto simp: collectionsOn_partition_put)
  moreover have "partitionLowestOffsetMap (putCollection ?part (mfi_key info) ?c a) = partitionLowestOffsetMap a"
    by (simp add: putCollection_def)
  ultimately show ?thesis
    using assms(1) unfolding assembler_ok_def by (fastforce split: if_splits)
qed

lemma assembler_ok_seen:
  assumes "assembler_ok seen a" and "next_fragment seen info"
  shows "assembler_ok (seen(km_Partition (mfi_kafkaMessage info) := km_Offset (mfi_kafkaMessage info))) a"
  using assms by (fastforce simp: assembler_ok_def next_fragment_def Let_def collection_ok_def)

lemma processFragmentInfo_ok:
  assumes "assembler_ok seen a" and "next_fragment seen info" and "processFragmentInfo ord info a = Some (a', out)"
  shows "assembler_ok (seen(km_Partition (mfi_kafkaMessage info) := km_Offset (mfi_kafkaMessage info))) a'"
proof -
  let ?part = "km_Partition (mfi_kafkaMessage info)"
  define a0 where "a0 = a\<lparr>partitionToFragmentCollectionMap :=
            (case map_of (partitionToFragmentCollectionMap a) ?part of
               None \<Rightarrow> AList.update ?part [] (partitionToFragmentCollectionMap a)
             | Some _ \<Rightarrow> partitionToFragmentCollectionMap a)\<rparr>"
  have ok0: "assembler_ok seen a0"
    by (rule assembler_ok_sub [OF assms(1)]) (auto simp: a0_def collectionsOn_def split: option.splits)
  note seen = assembler_ok_seen [OF ok0 assms(2)]
  show ?thesis
  proof (cases "map_of (collectionsOn a0 ?part) (mfi_key info)")
    case None
    with assms(3) put_new_ok [OF ok0 assms(2)] show ?thesis
      by (simp add: processFragmentInfo_def Let_def a0_def [symmetric])
  next
    case (Some c)
    consider "fragmentationTimestamp c > mfi_fragmentationTimestamp info"
      | "fragmentationTimestamp c < mfi_fragmentationTimestamp info"
      | "fragmentationTimestamp c = mfi_fragmentationTimestamp info" by linarith
    then show ?thesis
    proof cases
      case 1
      with Some assms(3) seen show ?thesis by (simp add: processFragmentInfo_def Let_def a0_def [symmetric])
    next
      case 2
      with Some assms(3) put_new_ok [OF ok0 assms(2)] show ?thesis
        by (simp add: processFragmentInfo_def Let_def a0_def [symmetric])
    next
      case 3
      let ?a1 = "putCollection ?part (mfi_key info) (collection_add info c) a0"
      have "assembler_ok seen ?a1" using map_of_SomeD [OF Some] by (rule put_existing_ok [OF ok0 assms(2)])
      then have "assembler_ok (seen(?part := km_Offset (mfi_kafkaMessage info))) ?a1"
        by (rule assembler_ok_seen [OF _ assms(2)])
      with 3 Some assms(3) assembleCollection_ok show ?thesis
        by (auto simp: processFragmentInfo_def Let_def a0_def [symmetric] split: if_splits)
    qed
  qed
qed

text \<open>What the broker guarantees of the messages of a run: offsets of a partition do not decrease.\<close>

fun in_order :: "(byte list \<Rightarrow> int option) \<Rightarrow> (int \<Rightarrow> int) \<Rightarrow> kafka_Message list \<Rightarrow> bool" where
  "in_order parseTime seen [] = True"
| "in_order parseTime seen (m # ms) =
     (0 \<le> km_Offset m \<and> seen (km_Partition m) \<le> km_Offset m \<and> km_Offset m < 2 ^ 63
      \<and> (case fragmentInfoOf parseTime m of
            Some (Inr info) \<Rightarrow> mf_offset (mfi_fragment info) + word_of_nat (length (mf_bytes (mfi_fragment info))) \<le> mfi_totalSize info
          | _ \<Rightarrow> True)
      \<and> in_order parseTime (seen(km_Partition m := km_Offset m)) ms)"

lemma createFragmentInfo_message: "createFragmentInfo parseTime m f = Some (Inr info) \<Longrightarrow> mfi_kafkaMessage info = m"
  by (auto simp: createFragmentInfo_def split: option.splits)

lemma pollMessage_ok:
  assumes "assembler_ok seen a" and "in_order parseTime seen [m]" and "pollMessage parseTime ord m a = Some (a', out)"
  shows "assembler_ok (seen(km_Partition m := km_Offset m)) a'"
proof -
  have later: "assembler_ok (seen(km_Partition m := km_Offset m)) a"
    using assms(1,2) by (fastforce simp: assembler_ok_def collection_ok_def)
  from assms(3) obtain f where f: "messageIsFragment m = Some f" by (auto simp: pollMessage_def bind_eq_Some_conv)
  show ?thesis
  proof (cases f)
    case None
    with assms(3) f later show ?thesis by (simp add: pollMessage_def)
  next
    case (Some frag)
    with assms(3) f obtain r where r: "createFragmentInfo parseTime m frag = Some r"
      by (auto simp: pollMessage_def bind_eq_Some_conv)
    show ?thesis
    proof (cases r)
      case (Inl e)
      with assms(3) f Some r later show ?thesis by (simp add: pollMessage_def)
    next
      case (Inr info)
      have m: "mfi_kafkaMessage info = m" using createFragmentInfo_message r Inr by blast
      have "fragmentInfoOf parseTime m = Some (Inr info)" using f Some r Inr by (simp add: fragmentInfoOf_def)
      with assms(2) m have "next_fragment seen info" by (simp add: next_fragment_def Let_def)
      moreover have "processFragmentInfo ord info a = Some (a', out)"
        using assms(3) f Some r Inr by (simp add: pollMessage_def)
      ultimately show ?thesis using processFragmentInfo_ok [OF assms(1)] m by blast
    qed
  qed
qed

lemma pollMessages_ok:
  assumes "assembler_ok seen a" and "in_order parseTime seen (ms @ [m])" and "pollMessages parseTime ord ms a = Some (a', outs)"
  shows "\<exists>seen'. assembler_ok seen' a' \<and> in_order parseTime seen' [m]"
  using assms
proof (induction ms arbitrary: a seen outs)
  case Nil
  then show ?case by auto
next
  case (Cons x ms)
  from Cons.prems(3) obtain a1 o1 outs1 where a1: "pollMessage parseTime ord x a = Some (a1, o1)"
    "pollMessages parseTime ord ms a1 = Some (a', outs1)"
    by (auto simp: bind_eq_Some_conv)
  have "in_order parseTime seen [x]" using Cons.prems(2) by simp
  note ok = pollMessage_ok [OF Cons.prems(1) this a1(1)]
  from Cons.prems(2) have "in_order parseTime (seen(km_Partition x := km_Offset x)) (ms @ [m])"
    by (simp only: append_Cons in_order.simps)
  from Cons.IH [OF ok this a1(2)] show ?case .
qed

text \<open>
  A message that is not a fragment is handed on with an offset that is at most the lowest offset
  of every fragment collection still open on its partition, so committing it cannot skip a fragment
  that is still needed; with nothing open its offset is left alone.
\<close>

theorem plain_message_offset_safe:
  assumes "in_order parseTime (\<lambda>_. 0) (ms @ [m])"
    and "pollMessages parseTime ord ms newKafkaMessageAssembler = Some (a, outs)"
    and "messageIsFragment m = Some None"
  shows "\<exists>out. pollMessage parseTime ord m a = Some (a, Some out)
     \<and> (\<forall>(key, c)\<in>set (collectionsOn a (km_Partition m)). km_Offset out \<le> lowestOffset c)
     \<and> (map_of (partitionLowestOffsetMap a) (km_Partition m) = None \<longrightarrow> out = m)"
proof -
  have "assembler_ok (\<lambda>_. 0) newKafkaMessageAssembler"
    by (simp add: assembler_ok_def newKafkaMessageAssembler_def collectionsOn_def)
  from pollMessages_ok [OF this assms(1,2)] obtain seen where ok: "assembler_ok seen a" by blast
  have "pollMessage parseTime ord m a = Some (a, Some (fixMessageOffset m a))"
    using assms(3) by (simp add: pollMessage_def)
  moreover have "km_Offset (fixMessageOffset m a) \<le> lowestOffset c" if "(key, c) \<in> set (collectionsOn a (km_Partition m))" for key c
    using assembler_okD [OF ok that] by (auto simp: collection_ok_def fixMessageOffset_def)
  ultimately show ?thesis by (auto simp: fixMessageOffset_def)
qed

definition sample_plain :: kafka_Message where
  "sample_plain = \<lparr>km_Key = ''hub2.ControlInfo'', km_Topic = ''status'', km_Partition = 0, km_Offset = 20, km_Headers = [], km_Value = [9]\<rparr>"

definition sample_assembler :: kafkaMessageAssembler where
  "sample_assembler = fst (the (pollMessages (\<lambda>_. Some 7) (\<lambda>ks. ks) (deliver sample_fragments [10, 12, 15]) newKafkaMessageAssembler))"

theorem plain_message_offset_safe_witness:
  "\<exists>out. pollMessage (\<lambda>_. Some 7) (\<lambda>ks. ks) sample_plain sample_assembler = Some (sample_assembler, Some out)
     \<and> (\<forall>(key, c)\<in>set (collectionsOn sample_assembler 0). km_Offset out \<le> lowestOffset c)"
proof -
  have o: "in_order (\<lambda>_. Some 7) (\<lambda>_. 0) (deliver sample_fragments [10, 12, 15] @ [sample_plain])" by code_simp
  have "pollMessages (\<lambda>_. Some 7) (\<lambda>ks. ks) (deliver sample_fragments [10, 12, 15]) newKafkaMessageAssembler \<noteq> None"
    by code_simp
  then obtain outs where p: "pollMessages (\<lambda>_. Some 7) (\<lambda>ks. ks) (deliver sample_fragments [10, 12, 15]) newKafkaMessageAssembler
      = Some (sample_assembler, outs)"
    by (auto simp: sample_assembler_def)
  have n: "messageIsFragment sample_plain = Some None" by code_simp
  have "km_Partition sample_plain = 0" by (simp add: sample_plain_def)
  with plain_message_offset_safe [OF o p n] show ?thesis by auto
qed

text \<open>Two payloads of two fragments each, under one key per payload; the second is still open.\<close>

definition sample_fragment :: "string \<Rightarrow> nat \<Rightarrow> byte \<Rightarrow> int \<Rightarrow> kafka_Message" where
  "sample_fragment key off b kafkaOffset =
     \<lparr>km_Key = key, km_Topic = ''status'', km_Partition = 0, km_Offset = kafkaOffset,
      km_Headers = [\<lparr>hdr_Key = SizeHeader, hdr_Value = toByteArray 2\<rparr>,
                    \<lparr>hdr_Key = OffsetHeader, hdr_Value = toByteArray off\<rparr>,
                    \<lparr>hdr_Key = FragmentationTimestamp, hdr_Value = []\<rparr>],
      km_Value = [b]\<rparr>"

text \<open>
  An assembled message does not have that guarantee: when it is the lowest collection of its
  partition it is handed on with its highest offset although another collection with a lower offset is
  still open there, so that committing it skips a fragment of the open one.
\<close>

theorem assembled_message_offset_unsafe:
  "\<exists>a m key c. pollMessages (\<lambda>_. Some 7) (\<lambda>ks. ks)
       [sample_fragment ''A'' 0 1 1, sample_fragment ''B'' 0 3 2, sample_fragment ''A'' 1 2 5] newKafkaMessageAssembler
       = Some (a, [m])
     \<and> km_Value m = [1, 2] \<and> km_Offset m = 5
     \<and> (key, c) \<in> set (collectionsOn a (km_Partition m)) \<and> lowestOffset c = 2"
proof -
  let ?r = "pollMessages (\<lambda>_. Some 7) (\<lambda>ks. ks)
       [sample_fragment ''A'' 0 1 1, sample_fragment ''B'' 0 3 2, sample_fragment ''A'' 1 2 5] newKafkaMessageAssembler"
  have "?r \<noteq> None \<and> length (snd (the ?r)) = 1 \<and> km_Value (hd (snd (the ?r))) = [1, 2] \<and> km_Offset (hd (snd (the ?r))) = 5
     \<and> length (collectionsOn (fst (the ?r)) (km_Partition (hd (snd (the ?r))))) = 1
     \<and> lowestOffset (snd (hd (collectionsOn (fst (the ?r)) (km_Partition (hd (snd (the ?r))))))) = 2"
    by code_simp
  then show ?thesis by (auto simp: length_Suc_conv)
qed

end
