(* ===== verification/GH_Transport.thy ===== *)
theory GH_Transport
  imports GH_Pipeline GH_Fragments
begin

text \<open>
  The manager's end of the transport: decompression and decoding of Kafka messages and of sync
  service objects (\<open>transport/kafka/consumer.go\<close>, \<open>transport/syncservice/sync_service.go\<close>,
  \<open>pkg/compressor\<close>), the two committers, and the agent's Kafka producer
  (\<open>agent/pkg/transport/producer\<close>) that builds the messages.

  The codecs are parameters, in the record \<open>codec\<close>: gzip, and the JSON of the transport message and
  of each bundle type. What is relied on is that decoding inverts encoding; it is the locale
  \<open>compressor\<close> for compression and the predicate \<open>json_ok\<close> for JSON.
\<close>

section \<open>Compression\<close>

datatype compressor_error = errCompressionTypeNotFound | errGzip

record gzip_lib =
  gzip_write :: "byte list \<Rightarrow> byte list option"
  gzip_read :: "byte list \<Rightarrow> byte list option"

datatype Compressor = CompressorNoOp | CompressorGZip

fun GetType :: "Compressor \<Rightarrow> string" where
  "GetType CompressorNoOp = ''no-op''"
| "GetType CompressorGZip = ''gzip''"

definition NewCompressor :: "string \<Rightarrow> compressor_error + Compressor" where
  "NewCompressor compressionType =
     (if compressionType = ''no-op'' then Inr CompressorNoOp
      else if compressionType = ''gzip'' then Inr CompressorGZip
      else Inl errCompressionTypeNotFound)"

definition gzip_Compress :: "gzip_lib \<Rightarrow> byte list \<Rightarrow> compressor_error + byte list" where
  "gzip_Compress lib payload = (case gzip_write lib payload of None \<Rightarrow> Inl errGzip | Some bytes \<Rightarrow> Inr bytes)"

definition gzip_Decompress :: "gzip_lib \<Rightarrow> byte list \<Rightarrow> compressor_error + byte list" where
  "gzip_Decompress lib compressedData = (case gzip_read lib compressedData of None \<Rightarrow> Inl errGzip | Some bytes \<Rightarrow> Inr bytes)"

definition noOp_Compress :: "byte list \<Rightarrow> compressor_error + byte list" where
  "noOp_Compress payload = Inr payload"

definition noOp_Decompress :: "byte list \<Rightarrow> compressor_error + byte list" where
  "noOp_Decompress payload = Inr payload"

fun Compress :: "gzip_lib \<Rightarrow> Compressor \<Rightarrow> byte list \<Rightarrow> compressor_error + byte list" where
  "Compress lib CompressorNoOp payload = noOp_Compress payload"
| "Compress lib CompressorGZip payload = gzip_Compress lib payload"

fun Decompress :: "gzip_lib \<Rightarrow> Compressor \<Rightarrow> byte list \<Rightarrow> compressor_error + byte list" where
  "Decompress lib CompressorNoOp payload = noOp_Decompress payload"
| "Decompress lib CompressorGZip payload = gzip_Decompress lib payload"

text \<open>The contract of a compressor: what it compressed it decompresses.\<close>

locale compressor =
  fixes compress decompress :: "byte list \<Rightarrow> compressor_error + byte list"
  assumes inverse: "compress payload = Inr bytes \<Longrightarrow> decompress bytes = Inr payload"
begin

lemma compress_inj:
  assumes "compress p = Inr bytes" and "compress q = Inr bytes"
  shows "p = q"
  using inverse [OF assms(1)] inverse [OF assms(2)] by simp

end

interpretation noOp: compressor noOp_Compress noOp_Decompress
  by unfold_locales (simp add: noOp_Compress_def noOp_Decompress_def)

text \<open>What \<open>compress/gzip\<close> documents: reading back what was written gives the data.\<close>

definition gzip_ok :: "gzip_lib \<Rightarrow> bool" where
  "gzip_ok lib \<longleftrightarrow> (\<forall>payload bytes. gzip_write lib payload = Some bytes \<longrightarrow> gzip_read lib bytes = Some payload)"

lemma gzip_compressor: "gzip_ok lib \<Longrightarrow> compressor (gzip_Compress lib) (gzip_Decompress lib)"
  by unfold_locales (auto simp: gzip_ok_def gzip_Compress_def gzip_Decompress_def split: option.splits)

lemma Compressor_compressor: "gzip_ok lib \<Longrightarrow> compressor (Compress lib c) (Decompress lib c)"
  using gzip_compressor noOp.compressor_axioms
  by (cases c) (auto simp: compressor_def)

section \<open>Codecs\<close>

record Message =
  msg_ID :: string
  msg_MsgType :: string
  msg_Version :: string
  msg_Payload :: "byte list"

record codec =
  gzip :: gzip_lib
  marshalMessage :: "Message \<Rightarrow> byte list option"
  unmarshalMessage :: "byte list \<Rightarrow> Message option"
  marshalBundle :: "Bundle \<Rightarrow> byte list option"
  unmarshalBundle :: "string \<Rightarrow> byte list \<Rightarrow> Bundle option"

text \<open>The documented behaviour of \<open>encoding/json\<close> on these types: unmarshalling inverts marshalling.\<close>

definition json_ok :: "codec \<Rightarrow> bool" where
  "json_ok cd \<longleftrightarrow>
     (\<forall>m bytes. marshalMessage cd m = Some bytes \<longrightarrow> unmarshalMessage cd bytes = Some m)
     \<and> (\<forall>b bytes. marshalBundle cd b = Some bytes \<longrightarrow> unmarshalBundle cd (GetBundleType b) bytes = Some b)"

section \<open>Manager: Kafka consumer\<close>

text \<open>The registrations by message id and the compressors created so far.\<close>

record Consumer =
  compressorsMap :: "(string, Compressor) gomap"
  msgIDToRegistrationMap :: "(string, BundleRegistration) gomap"

definition Consumer_Register :: "BundleRegistration \<Rightarrow> Consumer \<Rightarrow> Consumer" where
  "Consumer_Register registration c =
     c\<lparr>msgIDToRegistrationMap := AList.update (MsgID registration) registration (msgIDToRegistrationMap c)\<rparr>"

definition newConsumer :: "BundleRegistration list \<Rightarrow> Consumer" where
  "newConsumer regs = fold Consumer_Register regs \<lparr>compressorsMap = [], msgIDToRegistrationMap = []\<rparr>"

definition lookupHeaderValue :: "kafka_Message \<Rightarrow> string \<Rightarrow> byte list option" where
  "lookupHeaderValue m headerKey = map_option hdr_Value (find (\<lambda>h. hdr_Key h = headerKey) (km_Headers m))"

definition decompressPayload ::
  "codec \<Rightarrow> byte list \<Rightarrow> string \<Rightarrow> Consumer \<Rightarrow> (compressor_error + byte list) \<times> Consumer" where
  "decompressPayload cd payload msgCompressorType c =
     (case map_of (compressorsMap c) msgCompressorType of
        Some msgCompressor \<Rightarrow> (Decompress (gzip cd) msgCompressor payload, c)
      | None \<Rightarrow>
          (case NewCompressor msgCompressorType of
             Inl err \<Rightarrow> (Inl err, c)
           | Inr newCompressor \<Rightarrow>
               (Decompress (gzip cd) newCompressor payload,
                c\<lparr>compressorsMap := AList.update msgCompressorType newCompressor (compressorsMap c)\<rparr>)))"

text \<open>Why a message is not inserted.\<close>

datatype receive_error =
    errDecompress compressor_error
  | errParseMessage
  | errMessageIDWrongFormat
  | noRegistration
  | predicateFalse
  | errParseBundle
  | errMissingCompressionType
  | errSyncServiceReadFailed

definition bytes_to_string :: "byte list \<Rightarrow> string" where
  "bytes_to_string bs = map (\<lambda>b. char_of (unat b)) bs"

definition string_to_bytes :: "string \<Rightarrow> byte list" where
  "string_to_bytes s = map (\<lambda>c. word_of_nat (of_char c)) s"

text \<open>
  What both transports do with the id \<open>LH_ID.MSG_ID\<close> of a received object: the token after the dot
  selects the registration and its predicate is asked. The result is the bundle type to create.
\<close>

definition selectBundleType :: "config \<Rightarrow> Consumer \<Rightarrow> string \<Rightarrow> receive_error + string" where
  "selectBundleType cfg c objectID =
     (let msgIDTokens = split_on (CHR ''.'') objectID in
      if length msgIDTokens \<noteq> 2 then Inl errMessageIDWrongFormat
      else (case map_of (msgIDToRegistrationMap c) (msgIDTokens ! 1) of
              None \<Rightarrow> Inl noRegistration
            | Some registration \<Rightarrow>
                if \<not> Predicate registration cfg then Inl predicateFalse
                else Inr (CreateBundleFunc registration)))"

definition processMessage ::
  "codec \<Rightarrow> config \<Rightarrow> kafka_Message \<Rightarrow> Consumer \<Rightarrow> (receive_error + Bundle \<times> transportMetadata) \<times> Consumer" where
  "processMessage cd cfg m c =
     (let compressionType = (case lookupHeaderValue m CompressionTypeHeader of
            None \<Rightarrow> ''no-op'' | Some bytes \<Rightarrow> bytes_to_string bytes)
      in case decompressPayload cd (km_Value m) compressionType c of
           (Inl err, c') \<Rightarrow> (Inl (errDecompress err), c')
         | (Inr decompressedPayload, c') \<Rightarrow>
             (case unmarshalMessage cd decompressedPayload of
                None \<Rightarrow> (Inl errParseMessage, c')
              | Some transportMsg \<Rightarrow>
                  (case selectBundleType cfg c' (msg_ID transportMsg) of
                     Inl err \<Rightarrow> (Inl err, c')
                   | Inr bundleType \<Rightarrow>
                       (case unmarshalBundle cd bundleType (msg_Payload transportMsg) of
                          None \<Rightarrow> (Inl errParseBundle, c')
                        | Some receivedBundle \<Rightarrow>
                            (Inr (receivedBundle, newKafkaBundleMetadata (km_Partition m) (km_Offset m)), c')))))"

text \<open>The whole handler, with the insertion into the conflation manager.\<close>

definition handleKafkaMessage ::
  "codec \<Rightarrow> config \<Rightarrow> (string list \<Rightarrow> string list) \<Rightarrow> kafka_Message \<Rightarrow> Consumer \<Rightarrow> 'h ConflationManager \<Rightarrow> string list
   \<Rightarrow> (Consumer \<times> 'h ConflationManager \<times> string list) option" where
  "handleKafkaMessage cd cfg ord m c cm rq =
     (case processMessage cd cfg m c of
        (Inl err, c') \<Rightarrow> Some (c', cm, rq)
      | (Inr (b, tm), c') \<Rightarrow>
          map_option (\<lambda>(cm', rq'). (c', cm', rq')) (ConflationManager_Insert ord b tm cm rq))"

section \<open>Manager: sync service\<close>

definition unmarshalPayload ::
  "codec \<Rightarrow> string \<Rightarrow> ObjectMetaData \<Rightarrow> byte list \<Rightarrow> Consumer \<Rightarrow> (receive_error + Bundle) \<times> Consumer" where
  "unmarshalPayload cd bundleType objectMetaData payload c =
     (let tokens = split_on (CHR '':'') (om_Description objectMetaData) in
      if om_Description objectMetaData \<noteq> '''' \<and> length tokens \<noteq> 2 then (Inl errMissingCompressionType, c)
      else
        (let compressionType = (if om_Description objectMetaData \<noteq> '''' then tokens ! 1 else ''no-op'')
         in case decompressPayload cd payload compressionType c of
              (Inl err, c') \<Rightarrow> (Inl (errDecompress err), c')
            | (Inr decompressed, c') \<Rightarrow>
                ((case unmarshalBundle cd bundleType decompressed of
                    None \<Rightarrow> Inl errParseBundle | Some b \<Rightarrow> Inr b), c')))"

text \<open>
  One object announced by the sync service; \<open>fetched\<close> is the data \<open>FetchObjectData\<close> returns, if it
  succeeds.
\<close>

definition handleBundles ::
  "codec \<Rightarrow> config \<Rightarrow> ObjectMetaData \<Rightarrow> byte list option \<Rightarrow> Consumer \<Rightarrow> (receive_error + Bundle \<times> transportMetadata) \<times> Consumer" where
  "handleBundles cd cfg objectMetadata fetched c =
     (case fetched of
        None \<Rightarrow> (Inl errSyncServiceReadFailed, c)
      | Some payload \<Rightarrow>
          (case selectBundleType cfg c (ObjectID objectMetadata) of
             Inl err \<Rightarrow> (Inl err, c)
           | Inr bundleType \<Rightarrow>
               (case unmarshalPayload cd bundleType objectMetadata payload c of
                  (Inl err, c') \<Rightarrow> (Inl err, c')
                | (Inr receivedBundle, c') \<Rightarrow>
                    (Inr (receivedBundle, newSyncServiceBundleMetadata objectMetadata), c'))))"

section \<open>Committers\<close>

type_synonym offsets = "(int, int) gomap"

fun filterStep :: "transportMetadata \<Rightarrow> offsets \<times> offsets \<Rightarrow> offsets \<times> offsets" where
  "filterStep (KafkaBundleMetadata isProcessed part off) (pending, highest) =
     (if \<not> isProcessed then
        (case map_of pending part of
           Some low \<Rightarrow> if off \<ge> low then (pending, highest) else (AList.update part off pending, highest)
         | None \<Rightarrow> (AList.update part off pending, highest))
      else
        (case map_of highest part of
           Some high \<Rightarrow> if off \<le> high then (pending, highest) else (pending, AList.update part off highest)
         | None \<Rightarrow> (pending, AList.update part off highest)))"
| "filterStep (SyncServiceBundleMetadata _ _) maps = maps"

definition filterMetadataPerPartition :: "transportMetadata list \<Rightarrow> offsets \<times> offsets" where
  "filterMetadataPerPartition metadataArray =
     (case fold filterStep metadataArray ([], []) of
        (pending, highest) \<Rightarrow> (pending, map (\<lambda>(part, off). (part, off + 1)) highest))"

text \<open>
  \<open>commitOffsets\<close> ranges over the offsets in the order given and stops at the first refusal of the
  broker; \<open>accepts\<close> is the answer of \<open>CommitOffsets\<close>. Returns the cache of committed offsets and the
  commits the broker accepted.
\<close>

fun commitOffsets ::
  "(int \<times> int \<Rightarrow> bool) \<Rightarrow> (int \<times> int) list \<Rightarrow> offsets \<Rightarrow> offsets \<times> (int \<times> int) list" where
  "commitOffsets accepts [] commitsMap = (commitsMap, [])"
| "commitOffsets accepts ((part, off) # rest) commitsMap =
     (if (case map_of commitsMap part of Some committed \<Rightarrow> committed \<ge> off | None \<Rightarrow> False)
      then commitOffsets accepts rest commitsMap
      else if accepts (part, off) then
        (case commitOffsets accepts rest (AList.update part off commitsMap) of
           (cm, sent) \<Rightarrow> (cm, (part, off) # sent))
      else (commitsMap, []))"

text \<open>One tick of \<open>periodicCommit\<close>: pending offsets overwrite processed ones.\<close>

definition offsetsToCommit :: "transportMetadata list \<Rightarrow> offsets" where
  "offsetsToCommit metadataArray =
     (case filterMetadataPerPartition metadataArray of
        (pending, highest) \<Rightarrow> fold (\<lambda>(part, off). AList.update part off) pending highest)"

definition periodicCommit ::
  "(int list \<Rightarrow> int list) \<Rightarrow> (int \<times> int \<Rightarrow> bool) \<Rightarrow> transportMetadata list \<Rightarrow> offsets \<Rightarrow> offsets \<times> (int \<times> int) list" where
  "periodicCommit ord accepts bundlesMetadata commitsMap =
     (let offsets = offsetsToCommit bundlesMetadata in
      commitOffsets accepts
        (List.map_filter (\<lambda>part. map_option (Pair part) (map_of offsets part)) (ord (map fst offsets))) commitsMap)"

text \<open>The committer of the sync service marks the processed objects as consumed, by object version.\<close>

definition commitMetadata :: "transportMetadata list \<Rightarrow> (string, ObjectMetaData) gomap" where
  "commitMetadata metadataArray =
     fold (\<lambda>m acc. case m of
        SyncServiceBundleMetadata True om \<Rightarrow> AList.update (ObjectID om @ ''.'' @ ObjectType om) om acc
      | _ \<Rightarrow> acc) metadataArray []"

fun commitObjectsMetadata ::
  "(ObjectMetaData \<Rightarrow> bool) \<Rightarrow> (string \<times> ObjectMetaData) list \<Rightarrow> (string, string) gomap
   \<Rightarrow> (string, string) gomap \<times> ObjectMetaData list" where
  "commitObjectsMetadata accepts [] committed = (committed, [])"
| "commitObjectsMetadata accepts ((key, om) # rest) committed =
     (if map_of committed key = Some (om_Version om) then commitObjectsMetadata accepts rest committed
      else if accepts om then
        (case commitObjectsMetadata accepts rest (AList.update key (om_Version om) committed) of
           (c, sent) \<Rightarrow> (c, om # sent))
      else (committed, []))"

section \<open>Agent: Kafka producer\<close>

datatype EventType = DeliveryAttempt | DeliverySuccess | DeliveryFailure

text \<open>A callback is named by whoever subscribed it; invoking one yields that name.\<close>

type_synonym 'cb subscriptions = "(string, (EventType, 'cb) gomap) gomap"

definition InvokeCallback :: "'cb subscriptions \<Rightarrow> string \<Rightarrow> EventType \<Rightarrow> 'cb option" where
  "InvokeCallback eventSubscriptionMap messageID eventType =
     (case map_of eventSubscriptionMap messageID of None \<Rightarrow> None | Some callbacks \<Rightarrow> map_of callbacks eventType)"

record 'cb KafkaProducer =
  kp_eventSubscriptionMap :: "'cb subscriptions"
  kp_topic :: string
  kp_compressor :: Compressor
  kp_messageSizeLimit :: nat

definition Producer_Subscribe :: "string \<Rightarrow> (EventType, 'cb) gomap \<Rightarrow> 'cb KafkaProducer \<Rightarrow> 'cb KafkaProducer" where
  "Producer_Subscribe messageID callbacks p =
     p\<lparr>kp_eventSubscriptionMap := AList.update messageID callbacks (kp_eventSubscriptionMap p)\<rparr>"

definition handleDeliveryReport :: "kafka_Message \<Rightarrow> bool \<Rightarrow> 'cb KafkaProducer \<Rightarrow> 'cb option" where
  "handleDeliveryReport m failed p =
     InvokeCallback (kp_eventSubscriptionMap p) (km_Key m) (if failed then DeliveryFailure else DeliverySuccess)"

text \<open>\<open>SendAsync\<close>: the messages handed to the client and the callback invoked, if any.\<close>

definition SendAsync ::
  "codec \<Rightarrow> string \<Rightarrow> (kafka_Message \<Rightarrow> bool) \<Rightarrow> string \<Rightarrow> Message \<Rightarrow> 'cb KafkaProducer
   \<Rightarrow> (kafka_Message list \<times> 'cb option) option" where
  "SendAsync cd timestamp accepts key m p =
     (case marshalMessage cd m of
        None \<Rightarrow> Some ([], None)
      | Some msgBytes \<Rightarrow>
          (case Compress (gzip cd) (kp_compressor p) msgBytes of
             Inl err \<Rightarrow> Some ([], None)
           | Inr compressedBytes \<Rightarrow> do {
               (sent, ok) \<leftarrow> ProduceAsync timestamp (kp_messageSizeLimit p) accepts key (kp_topic p) 0
                 [\<lparr>hdr_Key = CompressionTypeHeader, hdr_Value = string_to_bytes (GetType (kp_compressor p))\<rparr>] compressedBytes;
               Some (sent, InvokeCallback (kp_eventSubscriptionMap p) (msg_ID m)
                 (if ok then DeliveryAttempt else DeliveryFailure))
             }))"

end
