(* ===== verification/GH_TransportProps.thy ===== *)
theory GH_TransportProps
  imports GH_Transport
begin

text \<open>
  What the committer may acknowledge to Kafka, and the path of a status bundle from the agent's
  producer to the manager's consumer.
\<close>

section \<open>The offsets the committer works with\<close>

definition lowest_pending :: "transportMetadata list \<Rightarrow> offsets \<Rightarrow> bool" where
  "lowest_pending mds pending \<longleftrightarrow>
     (\<forall>part. case map_of pending part of
        None \<Rightarrow> (\<forall>off. KafkaBundleMetadata False part off \<notin> set mds)
      | Some low \<Rightarrow> KafkaBundleMetadata False part low \<in> set mds
          \<and> (\<forall>off. KafkaBundleMetadata False part off \<in> set mds \<longrightarrow> low \<le> off))"

definition highest_processed :: "transportMetadata list \<Rightarrow> offsets \<Rightarrow> bool" where
  "highest_processed mds highest \<longleftrightarrow>
     (\<forall>part. case map_of highest part of
        None \<Rightarrow> (\<forall>off. KafkaBundleMetadata True part off \<notin> set mds)
      | Some high \<Rightarrow> KafkaBundleMetadata True part high \<in> set mds
          \<and> (\<forall>off. KafkaBundleMetadata True part off \<in> set mds \<longrightarrow> off \<le> high))"

lemma lowest_pendingD:
  "lowest_pending mds pending \<Longrightarrow> map_of pending part = None \<Longrightarrow> KafkaBundleMetadata False part off \<notin> set mds"
  "lowest_pending mds pending \<Longrightarrow> map_of pending part = Some low \<Longrightarrow> KafkaBundleMetadata False part low \<in> set mds"
  "lowest_pending mds pending \<Longrightarrow> map_of pending part = Some low \<Longrightarrow> KafkaBundleMetadata False part off \<in> set mds \<Longrightarrow> low \<le> off"
  unfolding lowest_pending_def by (drule spec [of _ part]; simp)+

lemma highest_processedD:
  "highest_processed mds highest \<Longrightarrow> map_of highest part = None \<Longrightarrow> KafkaBundleMetadata True part off \<notin> set mds"
  "highest_processed mds highest \<Longrightarrow> map_of highest part = Some high \<Longrightarrow> KafkaBundleMetadata True part high \<in> set mds"
  "highest_processed mds highest \<Longrightarrow> map_of highest part = Some high \<Longrightarrow> KafkaBundleMetadata True part off \<in> set mds \<Longrightarrow> off \<le> high"
  unfolding highest_processed_def by (drule spec [of _ part]; simp)+

lemma filterStep_pending:
  assumes "lowest_pending mds pending" and "filterStep m (pending, highest) = (pending', highest')"
  shows "lowest_pending (mds @ [m]) pending'"
proof (cases m)
  case (KafkaBundleMetadata isP part off)
  show ?thesis
    unfolding lowest_pending_def
  proof
    fix q
    note D = lowest_pendingD [OF assms(1), where part = q]
    show "case map_of pending' q of
        None \<Rightarrow> (\<forall>off. KafkaBundleMetadata False q off \<notin> set (mds @ [m]))
      | Some low \<Rightarrow> KafkaBundleMetadata False q low \<in> set (mds @ [m])
          \<and> (\<forall>off. KafkaBundleMetadata False q off \<in> set (mds @ [m]) \<longrightarrow> low \<le> off)"
      using assms(2) D KafkaBundleMetadata
      by (cases isP; cases "q = part"; cases "map_of pending q")
         (force split: option.splits if_splits simp: update_conv)+
  qed
next
  case (SyncServiceBundleMetadata x y)
  then show ?thesis
    using assms by (simp add: lowest_pending_def cong: option.case_cong)
qed

lemma filterStep_processed:
  assumes "highest_processed mds highest" and "filterStep m (pending, highest) = (pending', highest')"
  shows "highest_processed (mds @ [m]) highest'"
proof (cases m)
  case (KafkaBundleMetadata isP part off)
  show ?thesis
    unfolding highest_processed_def
  proof
    fix q
    note D = highest_processedD [OF assms(1), where part = q]
    show "case map_of highest' q of
        None \<Rightarrow> (\<forall>off. KafkaBundleMetadata True q off \<notin> set (mds @ [m]))
      | Some high \<Rightarrow> KafkaBundleMetadata True q high \<in> set (mds @ [m])
          \<and> (\<forall>off. KafkaBundleMetadata True q off \<in> set (mds @ [m]) \<longrightarrow> off \<le> high)"
      using assms(2) D KafkaBundleMetadata
      by (cases isP; cases "q = part"; cases "map_of highest q")
         (force split: option.splits if_splits simp: update_conv)+
  qed
next
  case (SyncServiceBundleMetadata x y)
  then show ?thesis
    using assms by (simp add: highest_processed_def cong: option.case_cong)
qed

lemma filterStep_wf:
  assumes "wf_map pending" and "wf_map highest" and "filterStep m (pending, highest) = (pending', highest')"
  shows "wf_map pending' \<and> wf_map highest'"
  using assms by (cases m) (auto split: option.splits if_splits)

lemma fold_filterStep:
  assumes "fold filterStep mds ([], []) = (pending, highest)"
  shows "lowest_pending mds pending \<and> highest_processed mds highest \<and> wf_map pending \<and> wf_map highest"
  using assms
proof (induction mds arbitrary: pending highest rule: rev_induct)
  case Nil
  then show ?case
    by (simp add: lowest_pending_def highest_processed_def)
next
  case (snoc m mds)
  obtain p h where ph: "fold filterStep mds ([], []) = (p, h)"
    by fastforce
  then have "filterStep m (p, h) = (pending, highest)"
    using snoc.prems by simp
  then show ?case
    using snoc.IH [OF ph] filterStep_pending filterStep_processed filterStep_wf by blast
qed

lemma offsetsToCommit_spec:
  assumes "map_of (offsetsToCommit mds) part = Some off"
  shows "(\<forall>p. KafkaBundleMetadata False part p \<in> set mds \<longrightarrow> off \<le> p)
    \<and> (KafkaBundleMetadata False part off \<in> set mds
       \<or> (\<forall>p. KafkaBundleMetadata False part p \<notin> set mds)
         \<and> KafkaBundleMetadata True part (off - 1) \<in> set mds
         \<and> (\<forall>p. KafkaBundleMetadata True part p \<in> set mds \<longrightarrow> p < off))"
proof -
  obtain p h where ph: "fold filterStep mds ([], []) = (p, h)"
    by fastforce
  note spec = fold_filterStep [OF ph]
  have look: "map_of (offsetsToCommit mds) part
      = (case map_of p part of Some v \<Rightarrow> Some v | None \<Rightarrow> map_option (\<lambda>x. x + 1) (map_of h part))"
    using spec
    by (simp add: offsetsToCommit_def filterMetadataPerPartition_def ph map_of_fold_update map_add_def map_of_map split: option.split)
  show ?thesis
  proof (cases "map_of p part")
    case None
    then obtain hi where hi: "map_of h part = Some hi" "off = hi + 1"
      using assms look by auto
    then show ?thesis
      using spec None lowest_pendingD(1) [of mds p part] highest_processedD(2,3) [of mds h part hi]
      by fastforce
  next
    case (Some v)
    then show ?thesis
      using assms look spec lowest_pendingD(2,3) [of mds p part v] by auto
  qed
qed

lemma commitOffsets_sent:
  "commitOffsets accepts offs cm = (cm', sent) \<Longrightarrow> set sent \<subseteq> set offs"
  by (induction accepts offs cm arbitrary: cm' sent rule: commitOffsets.induct)
     (auto split: if_splits prod.splits option.splits)

lemma periodicCommit_sent:
  assumes "periodicCommit ord accepts mds cm = (cm', sent)" and "(part, off) \<in> set sent"
  shows "map_of (offsetsToCommit mds) part = Some off"
  using commitOffsets_sent [OF assms(1) [unfolded periodicCommit_def Let_def]] assms(2)
  by (auto simp: List.map_filter_def)

lemma commitOffsets_monotone:
  assumes "commitOffsets accepts offs cm = (cm', sent)" and "map_of cm part = Some old"
  shows "\<exists>new. map_of cm' part = Some new \<and> old \<le> new"
  using assms
proof (induction accepts offs cm arbitrary: cm' sent old rule: commitOffsets.induct)
  case (2 accepts p off rest cm)
  show ?case
  proof (cases "case map_of cm p of Some committed \<Rightarrow> committed \<ge> off | None \<Rightarrow> False")
    case True
    then show ?thesis
      using "2.IH"(1) "2.prems" by simp
  next
    case skip: False
    show ?thesis
    proof (cases "accepts (p, off)")
      case True
      obtain cm1 s1 where rec: "commitOffsets accepts rest (AList.update p off cm) = (cm1, s1)"
        by fastforce
      have "map_of (AList.update p off cm) part = Some (if part = p then off else old)"
        using "2.prems"(2) by (simp add: update_conv)
      from "2.IH"(2) [OF skip True rec this]
      show ?thesis
        using "2.prems" skip True rec by (auto split: option.splits if_splits)
    next
      case False
      then show ?thesis
        using "2.prems" skip by auto
    qed
  qed
qed auto

lemma commitOffsets_records:
  assumes "commitOffsets accepts offs cm = (cm', sent)" and "(part, off) \<in> set sent"
  shows "(case map_of cm part of None \<Rightarrow> True | Some old \<Rightarrow> old < off)
    \<and> (\<exists>new. map_of cm' part = Some new \<and> off \<le> new)"
  using assms
proof (induction accepts offs cm arbitrary: cm' sent rule: commitOffsets.induct)
  case (2 accepts p o1 rest cm)
  show ?case
  proof (cases "case map_of cm p of Some committed \<Rightarrow> committed \<ge> o1 | None \<Rightarrow> False")
    case True
    then show ?thesis
      using "2.IH"(1) "2.prems" by simp
  next
    case skip: False
    then have acc: "accepts (p, o1)"
      using "2.prems" by (auto split: if_splits)
    obtain cm1 s1 where rec: "commitOffsets accepts rest (AList.update p o1 cm) = (cm1, s1)"
      by fastforce
    have eq: "cm' = cm1" "sent = (p, o1) # s1"
      using "2.prems"(1) skip acc rec by auto
    show ?thesis
    proof (cases "(part, off) = (p, o1)")
      case True
      then show ?thesis
        using commitOffsets_monotone [OF rec, of p o1] skip eq
        by (auto simp: update_conv split: option.splits)
    next
      case False
      then have "(part, off) \<in> set s1"
        using "2.prems"(2) eq by auto
      from "2.IH"(2) [OF skip acc rec this]
      show ?thesis
        using eq skip by (auto simp: update_conv split: option.splits if_splits)
    qed
  qed
qed auto

section \<open>Commit safety\<close>

definition sample_metadata :: "transportMetadata list" where
  "sample_metadata =
     [KafkaBundleMetadata True 0 9, KafkaBundleMetadata False 0 7, KafkaBundleMetadata False 0 8,
      KafkaBundleMetadata True 1 3, KafkaBundleMetadata True 1 2]"

text \<open>
  C36. An offset the manager commits to Kafka is never above the offset of a bundle that is still
  pending on that partition: it is the lowest pending offset, or, when nothing of the partition is
  pending, one above its highest processed offset. A restarted manager therefore reads every
  bundle that was pending again.
\<close>

theorem periodicCommit_safe:
  assumes "periodicCommit ord accepts mds commitsMap = (commitsMap', sent)" and "(part, off) \<in> set sent"
  shows "(\<forall>p. KafkaBundleMetadata False part p \<in> set mds \<longrightarrow> off \<le> p)
    \<and> (KafkaBundleMetadata False part off \<in> set mds
       \<or> (\<forall>p. KafkaBundleMetadata False part p \<notin> set mds)
         \<and> KafkaBundleMetadata True part (off - 1) \<in> set mds
         \<and> (\<forall>p. KafkaBundleMetadata True part p \<in> set mds \<longrightarrow> p < off))"
  using offsetsToCommit_spec [OF periodicCommit_sent [OF assms]] .

lemma sample_commit:
  "periodicCommit id (\<lambda>_. True) sample_metadata [(0, 5)] = ([(0, 7), (1, 4)], [(0, 7), (1, 4)])"
  by code_simp

theorem periodicCommit_safe_witness:
  "KafkaBundleMetadata False 0 7 \<in> set sample_metadata \<and> (7 :: int) \<le> 8
   \<and> KafkaBundleMetadata False 0 8 \<in> set sample_metadata \<and> KafkaBundleMetadata True 1 3 \<in> set sample_metadata"
  using periodicCommit_safe [OF sample_commit, of 0 7] periodicCommit_safe [OF sample_commit, of 1 4]
  by (auto simp: sample_metadata_def)

text \<open>
  Commits only move forward: a commit is sent only when it is above the offset last committed
  on its partition, the cache remembers at least it afterwards, and no partition's committed
  offset ever goes back.
\<close>

theorem periodicCommit_monotone:
  assumes "periodicCommit ord accepts mds commitsMap = (commitsMap', sent)"
  shows "(\<forall>part old. map_of commitsMap part = Some old \<longrightarrow> (\<exists>new. map_of commitsMap' part = Some new \<and> old \<le> new))
    \<and> (\<forall>part off. (part, off) \<in> set sent \<longrightarrow>
         (case map_of commitsMap part of None \<Rightarrow> True | Some old \<Rightarrow> old < off)
         \<and> (\<exists>new. map_of commitsMap' part = Some new \<and> off \<le> new))"
  using commitOffsets_monotone commitOffsets_records assms
  unfolding periodicCommit_def Let_def by blast

theorem periodicCommit_monotone_witness:
  "\<exists>new. map_of [(0, 7), (1, 4)] 0 = Some new \<and> (5 :: int) \<le> new"
  using periodicCommit_monotone [OF sample_commit] by simp

section \<open>From the agent's producer to the manager's consumer\<close>

text \<open>
  What holds of the manager's consumer at any time after the syncers have registered: its
  registrations are those of the syncers, and a remembered compressor is the one its type names.
\<close>

definition consumer_ok :: "Consumer \<Rightarrow> bool" where
  "consumer_ok c \<longleftrightarrow>
     msgIDToRegistrationMap c = msgIDToRegistrationMap (newConsumer transportRegistrations)
     \<and> (\<forall>t cpr. map_of (compressorsMap c) t = Some cpr \<longrightarrow> NewCompressor t = Inr cpr)"

lemma fold_Consumer_Register_other:
  "k \<notin> MsgID ` set regs \<Longrightarrow>
     map_of (msgIDToRegistrationMap (fold Consumer_Register regs c)) k = map_of (msgIDToRegistrationMap c) k"
  by (induction regs arbitrary: c) (auto simp: Consumer_Register_def update_conv)

lemma fold_Consumer_Register:
  "distinct (map MsgID regs) \<Longrightarrow> reg \<in> set regs \<Longrightarrow>
     map_of (msgIDToRegistrationMap (fold Consumer_Register regs c)) (MsgID reg) = Some reg"
  by (induction regs arbitrary: c) (auto simp: fold_Consumer_Register_other, simp add: Consumer_Register_def)

lemma fold_Consumer_Register_compressors [simp]:
  "compressorsMap (fold Consumer_Register regs c) = compressorsMap c"
  by (induction regs arbitrary: c) (auto simp: Consumer_Register_def)

lemma registrations_MsgIDs: "distinct (map MsgID transportRegistrations)"
  by (simp add: transportRegistrations_def managedClusters_RegisterCreateBundleFunctions_def
      policies_RegisterCreateBundleFunctions_def generic_RegisterCreateBundleFunctions_def
      localSpec_RegisterCreateBundleFunctions_def controlInfo_RegisterCreateBundleFunctions_def
      NewPlacementRulesDBSyncer_def NewPlacementsDBSyncer_def NewPlacementDecisionsDBSyncer_def
      NewSubscriptionStatusesDBSyncer_def NewSubscriptionReportsDBSyncer_def)

lemma registrations_no_dot: "reg \<in> set transportRegistrations \<Longrightarrow> CHR ''.'' \<notin> set (MsgID reg)"
  by (auto simp: transportRegistrations_def managedClusters_RegisterCreateBundleFunctions_def
      policies_RegisterCreateBundleFunctions_def generic_RegisterCreateBundleFunctions_def
      localSpec_RegisterCreateBundleFunctions_def controlInfo_RegisterCreateBundleFunctions_def
      NewPlacementRulesDBSyncer_def NewPlacementsDBSyncer_def NewPlacementDecisionsDBSyncer_def
      NewSubscriptionStatusesDBSyncer_def NewSubscriptionReportsDBSyncer_def)

lemma newConsumer_ok: "consumer_ok (newConsumer transportRegistrations)"
  by (simp add: consumer_ok_def newConsumer_def)

lemma consumer_registration:
  assumes "consumer_ok c" and "reg \<in> set transportRegistrations"
  shows "map_of (msgIDToRegistrationMap c) (MsgID reg) = Some reg"
  using assms(1) fold_Consumer_Register [OF registrations_MsgIDs assms(2)]
  by (simp add: consumer_ok_def newConsumer_def)

lemma NewCompressor_GetType [simp]: "NewCompressor (GetType cpr) = Inr cpr"
  by (cases cpr) (simp_all add: NewCompressor_def)

lemma bytes_to_string_inverse [simp]: "bytes_to_string (string_to_bytes s) = s"
proof -
  have "char_of (unat (word_of_nat (of_char c :: nat) :: byte)) = c" for c
    by (simp add: unat_of_nat)
  then show ?thesis
    by (simp add: bytes_to_string_def string_to_bytes_def comp_def)
qed

lemma decompressPayload_GetType:
  assumes "consumer_ok c"
  shows "\<exists>c'. decompressPayload cd payload (GetType cpr) c = (Decompress (gzip cd) cpr payload, c') \<and> consumer_ok c'"
proof (cases "map_of (compressorsMap c) (GetType cpr)")
  case None
  then show ?thesis
    using assms by (auto simp: decompressPayload_def consumer_ok_def update_conv)
next
  case (Some cpr')
  then have "cpr' = cpr"
    using assms NewCompressor_GetType unfolding consumer_ok_def by (metis sum.inject(2))
  then show ?thesis
    using Some assms by (simp add: decompressPayload_def)
qed

lemma SendAsync_small:
  assumes "marshalMessage cd m = Some bytes" and "Compress (gzip cd) (kp_compressor p) bytes = Inr z"
    and "length z \<le> kp_messageSizeLimit p" and "\<And>km. accepts km"
  shows "SendAsync cd timestamp accepts key m p =
    Some ([NewMessageBuilder key (kp_topic p) 0
             [\<lparr>hdr_Key = CompressionTypeHeader, hdr_Value = string_to_bytes (GetType (kp_compressor p))\<rparr>] z],
          InvokeCallback (kp_eventSubscriptionMap p) (msg_ID m) DeliveryAttempt)"
  using assms by (simp add: SendAsync_def ProduceAsync_def getMessageFragments_def)

text \<open>Kafka assigns partition and offset; the rest of the message arrives as it was produced.\<close>

definition delivered :: "int \<Rightarrow> int \<Rightarrow> kafka_Message \<Rightarrow> kafka_Message" where
  "delivered part off km = km\<lparr>km_Partition := part, km_Offset := off\<rparr>"

text \<open>What \<open>processMessage\<close> makes of a message \<open>SendAsync\<close> produced, up to the choice of the registration.\<close>

lemma processMessage_sent:
  assumes "gzip_ok (gzip cd)" and "json_ok cd" and "consumer_ok c"
    and "marshalMessage cd m = Some bytes" and "Compress (gzip cd) cpr bytes = Inr z"
  shows "\<exists>c'. consumer_ok c' \<and>
    processMessage cd cfg (delivered part off (NewMessageBuilder key topic 0
        [\<lparr>hdr_Key = CompressionTypeHeader, hdr_Value = string_to_bytes (GetType cpr)\<rparr>] z)) c =
    ((case selectBundleType cfg c' (msg_ID m) of
        Inl err \<Rightarrow> Inl err
      | Inr bundleType \<Rightarrow>
          (case unmarshalBundle cd bundleType (msg_Payload m) of
             None \<Rightarrow> Inl errParseBundle
           | Some b \<Rightarrow> Inr (b, newKafkaBundleMetadata part off))), c')"
proof -
  obtain c' where c': "decompressPayload cd z (GetType cpr) c = (Inr bytes, c')" "consumer_ok c'"
    using decompressPayload_GetType [OF assms(3)] compressor.inverse [OF Compressor_compressor [OF assms(1)] assms(5)] by metis
  have um: "unmarshalMessage cd bytes = Some m"
    using assms(2,4) by (simp add: json_ok_def)
  show ?thesis
    using c' um
    by (intro exI [of _ c'])
       (auto simp: processMessage_def delivered_def NewMessageBuilder_def lookupHeaderValue_def split: sum.splits option.splits)
qed

text \<open>A codec that knows one message and one bundle, for the witnesses.\<close>

definition sample_bundle :: Bundle where
  "sample_bundle = ControlInfoBundle \<lparr>bb_LeafHubName = ''hub1'', bb_BundleVersion = NewBundleVersion 1 2\<rparr>"

definition sample_message :: "string \<Rightarrow> Message" where
  "sample_message hub = \<lparr>msg_ID = hub @ ''.'' @ ''ControlInfo'', msg_MsgType = ''StatusBundle'', msg_Version = ''1.2'', msg_Payload = [2]\<rparr>"

definition sample_codec :: "string \<Rightarrow> codec" where
  "sample_codec hub =
     \<lparr>gzip = \<lparr>gzip_write = Some, gzip_read = Some\<rparr>,
      marshalMessage = (\<lambda>m. if m = sample_message hub then Some [1] else None),
      unmarshalMessage = (\<lambda>bs. if bs = [1] then Some (sample_message hub) else None),
      marshalBundle = (\<lambda>b. if b = sample_bundle then Some [2] else None),
      unmarshalBundle = (\<lambda>t bs. if t = ''ControlInfoBundle'' \<and> bs = [2] then Some sample_bundle else None)\<rparr>"

definition sample_producer :: "nat KafkaProducer" where
  "sample_producer = \<lparr>kp_eventSubscriptionMap = [], kp_topic = ''status'', kp_compressor = CompressorGZip, kp_messageSizeLimit = 10\<rparr>"

lemma sample_codec_ok: "gzip_ok (gzip (sample_codec hub))" "json_ok (sample_codec hub)"
  by (auto simp: sample_codec_def gzip_ok_def json_ok_def sample_bundle_def split: if_splits)

text \<open>
  C37. A status bundle whose compressed message fits the size limit survives the trip: the agent's
  producer hands one Kafka message to the client and reports a delivery attempt, and whatever
  partition and offset the broker gives it, the manager's consumer decodes the very same bundle
  from it, with the metadata of that offset, provided the hub's name has no dot, the message id is
  one of a registered syncer and its predicate admits it. Compression and JSON are only assumed to
  invert themselves.
\<close>

theorem SendAsync_processMessage:
  assumes "gzip_ok (gzip cd)" and "json_ok cd" and "consumer_ok c"
    and "marshalBundle cd b = Some (msg_Payload m)"
    and "marshalMessage cd m = Some bytes" and "Compress (gzip cd) (kp_compressor p) bytes = Inr z"
    and "length z \<le> kp_messageSizeLimit p" and "\<And>km. accepts km"
    and "reg \<in> set transportRegistrations" and "Predicate reg cfg" and "CreateBundleFunc reg = GetBundleType b"
    and "msg_ID m = hub @ ''.'' @ MsgID reg" and "CHR ''.'' \<notin> set hub"
  shows "\<exists>km. SendAsync cd timestamp accepts key m p
        = Some ([km], InvokeCallback (kp_eventSubscriptionMap p) (msg_ID m) DeliveryAttempt)
      \<and> (\<forall>part off. \<exists>c'. consumer_ok c'
          \<and> processMessage cd cfg (delivered part off km) c = (Inr (b, newKafkaBundleMetadata part off), c'))"
proof -
  have tokens: "split_on (CHR ''.'') (msg_ID m) = [hub, MsgID reg]"
    using assms(12,13) registrations_no_dot [OF assms(9)]
    by (simp add: split_on_append split_on_no_sep)
  have sel: "selectBundleType cfg c' (msg_ID m) = Inr (GetBundleType b)" if "consumer_ok c'" for c'
    using consumer_registration [OF that assms(9)] assms(10,11)
    by (simp add: selectBundleType_def tokens)
  have um: "unmarshalBundle cd (GetBundleType b) (msg_Payload m) = Some b"
    using assms(2,4) by (simp add: json_ok_def)
  show ?thesis
    unfolding SendAsync_small [of cd m, OF assms(5-8)]
  proof (rule exI, rule conjI, rule refl, intro allI)
    fix part off
    show "\<exists>c'. consumer_ok c' \<and> processMessage cd cfg (delivered part off (NewMessageBuilder key (kp_topic p) 0
        [\<lparr>hdr_Key = CompressionTypeHeader, hdr_Value = string_to_bytes (GetType (kp_compressor p))\<rparr>] z)) c
      = (Inr (b, newKafkaBundleMetadata part off), c')"
      using processMessage_sent [OF assms(1-3,5,6), of cfg part off key "kp_topic p"] sel um by fastforce
  qed
qed

theorem SendAsync_processMessage_witness:
  "\<exists>km. SendAsync (sample_codec ''hub1'') ''t'' (\<lambda>_. True) ''k'' (sample_message ''hub1'') sample_producer
       = Some ([km], None)
     \<and> (\<exists>c'. processMessage (sample_codec ''hub1'') [] (delivered 0 7 km) (newConsumer transportRegistrations)
         = (Inr (sample_bundle, newKafkaBundleMetadata 0 7), c'))"
proof -
  let ?cd = "sample_codec ''hub1''" and ?m = "sample_message ''hub1''"
  let ?reg = "\<lparr>MsgID = ''ControlInfo'', CreateBundleFunc = ''ControlInfoBundle'', Predicate = (\<lambda>_. True)\<rparr>"
  have reg: "?reg \<in> set transportRegistrations"
    by (simp add: transportRegistrations_def controlInfo_RegisterCreateBundleFunctions_def)
  have cb: "InvokeCallback (kp_eventSubscriptionMap sample_producer) (msg_ID ?m) DeliveryAttempt = None"
    by (simp add: sample_producer_def InvokeCallback_def)
  have "\<exists>km. SendAsync ?cd ''t'' (\<lambda>_. True) ''k'' ?m sample_producer
        = Some ([km], InvokeCallback (kp_eventSubscriptionMap sample_producer) (msg_ID ?m) DeliveryAttempt)
      \<and> (\<forall>part off. \<exists>c'. consumer_ok c'
          \<and> processMessage ?cd [] (delivered part off km) (newConsumer transportRegistrations)
             = (Inr (sample_bundle, newKafkaBundleMetadata part off), c'))"
    by (rule SendAsync_processMessage [where bytes = "[1]" and z = "[1]" and reg = ?reg and hub = "''hub1''",
          OF sample_codec_ok newConsumer_ok _ _ _ _ _ reg])
       (simp_all add: sample_codec_def sample_message_def sample_producer_def sample_bundle_def gzip_Compress_def)
  then show ?thesis
    unfolding cb by blast
qed

text \<open>
  A leaf hub whose name contains a dot cannot report: whatever message of a registered syncer
  its agent sends, the manager refuses it as badly formed, because it expects exactly one dot in
  the message id.
\<close>

theorem dotted_hub_rejected:
  assumes "gzip_ok (gzip cd)" and "json_ok cd" and "consumer_ok c"
    and "marshalMessage cd m = Some bytes" and "Compress (gzip cd) (kp_compressor p) bytes = Inr z"
    and "length z \<le> kp_messageSizeLimit p" and "\<And>km. accepts km"
    and "msg_ID m = hub @ ''.'' @ msgID" and "CHR ''.'' \<in> set hub"
  shows "\<exists>km. SendAsync cd timestamp accepts key m p
        = Some ([km], InvokeCallback (kp_eventSubscriptionMap p) (msg_ID m) DeliveryAttempt)
      \<and> (\<forall>part off. \<exists>c'. processMessage cd cfg (delivered part off km) c = (Inl errMessageIDWrongFormat, c'))"
proof -
  have "0 < count_list hub (CHR ''.'')"
    using assms(9) by (simp add: count_list_0_iff neq0_conv [symmetric] del: neq0_conv)
  then have "length (split_on (CHR ''.'') (msg_ID m)) \<noteq> 2"
    using assms(8) by (simp add: length_split_on count_list_append)
  then have sel: "selectBundleType cfg c' (msg_ID m) = Inl errMessageIDWrongFormat" for c'
    by (simp add: selectBundleType_def)
  show ?thesis
    unfolding SendAsync_small [of cd m, OF assms(4-7)]
  proof (rule exI, rule conjI, rule refl, intro allI)
    fix part off
    show "\<exists>c'. processMessage cd cfg (delivered part off (NewMessageBuilder key (kp_topic p) 0
        [\<lparr>hdr_Key = CompressionTypeHeader, hdr_Value = string_to_bytes (GetType (kp_compressor p))\<rparr>] z)) c
      = (Inl errMessageIDWrongFormat, c')"
      using processMessage_sent [OF assms(1-5), of cfg part off key "kp_topic p"] sel by auto
  qed
qed

theorem dotted_hub_rejected_witness:
  "\<exists>km. SendAsync (sample_codec ''a.b'') ''t'' (\<lambda>_. True) ''k'' (sample_message ''a.b'') sample_producer = Some ([km], None)
     \<and> (\<exists>c'. processMessage (sample_codec ''a.b'') [] (delivered 0 7 km) (newConsumer transportRegistrations)
         = (Inl errMessageIDWrongFormat, c'))"
proof -
  let ?cd = "sample_codec ''a.b''" and ?m = "sample_message ''a.b''"
  have cb: "InvokeCallback (kp_eventSubscriptionMap sample_producer) (msg_ID ?m) DeliveryAttempt = None"
    by (simp add: sample_producer_def InvokeCallback_def)
  have "\<exists>km. SendAsync ?cd ''t'' (\<lambda>_. True) ''k'' ?m sample_producer
        = Some ([km], InvokeCallback (kp_eventSubscriptionMap sample_producer) (msg_ID ?m) DeliveryAttempt)
      \<and> (\<forall>part off. \<exists>c'. processMessage ?cd [] (delivered part off km) (newConsumer transportRegistrations)
             = (Inl errMessageIDWrongFormat, c'))"
    by (rule dotted_hub_rejected [where bytes = "[1]" and z = "[1]" and hub = "''a.b''" and msgID = "''ControlInfo''",
          OF sample_codec_ok newConsumer_ok])
       (simp_all add: sample_codec_def sample_message_def sample_producer_def gzip_Compress_def)
  then show ?thesis
    unfolding cb by blast
qed

end
