(* ===== verification/GH_Batch.thy ===== *)
theory GH_Batch
  imports GH_Registrations
begin

text \<open>
  The batch builders of \<open>db/postgresql/batch\<close> and the batches they build. A statement is kept as a
  term of the type \<open>query\<close>, one constructor per shape of statement the code prints; \<open>query_text\<close>
  prints it as the code does. Arguments are \<open>interface{}\<close> values.

  \<open>exec_query\<close> gives the statements the meaning SQL gives them on tables of rows, so that the
  effect of a batch can be stated; a statement whose number of arguments is not its number of
  placeholders is refused, as every PostgreSQL client does.
\<close>

section \<open>Statements\<close>

datatype argument =
    AStr string
  | AInt int
  | AObj k8s_object
  | ASlice "argument list"

datatype expr = Column string | PayloadMeta string

datatype query =
    InsertQuery string string nat nat "(nat, string) gomap"
  | UpdateQuery string string string nat nat "(nat, string) gomap" "string list" "(expr \<times> expr) list"
  | DeleteQuery string string expr nat
  | DeleteClustersQuery string string nat

definition maxColumnsUpdateInStatement :: nat where "maxColumnsUpdateInStatement = 65536"
definition deleteStartingIndex :: nat where "deleteStartingIndex = 2"
definition deleteClusterCompliancePrefixArgsCount :: nat where "deleteClusterCompliancePrefixArgsCount = 2"

definition db_UUID :: string where "db_UUID = ''uuid''"
definition db_Jsonb :: string where "db_Jsonb = ''jsonb''"
definition db_ComplianceType :: string where "db_ComplianceType = ''compliance_type''"

fun intercalate :: "string \<Rightarrow> string list \<Rightarrow> string" where
  "intercalate sep [] = ''''"
| "intercalate sep [s] = s"
| "intercalate sep (s # ss) = s @ sep @ intercalate sep ss"

definition generateArgsList :: "nat \<Rightarrow> nat \<Rightarrow> (nat, string) gomap \<Rightarrow> string" where
  "generateArgsList argsCount startingIndex specialArgs =
     intercalate '', '' (map (\<lambda>index. ''$'' @ itoa (index + startingIndex)
       @ (case map_of specialArgs (index + 1) of None \<Rightarrow> '''' | Some columnSpecialType \<Rightarrow> ''::'' @ columnSpecialType)) [0..<argsCount])"

definition generateInsertOrUpdateArgs :: "nat \<Rightarrow> nat \<Rightarrow> (nat, string) gomap \<Rightarrow> string" where
  "generateInsertOrUpdateArgs rowsCount columnsCount specialColumns =
     intercalate '', '' (map (\<lambda>i. ''('' @ generateArgsList columnsCount (i * columnsCount + 1) specialColumns @ '')'') [0..<rowsCount])"

definition quoted :: "string \<Rightarrow> string" where
  "quoted s = CHR 0x27 # s @ [CHR 0x27]"

fun expr_text :: "string \<Rightarrow> expr \<Rightarrow> string" where
  "expr_text prefix (Column c) = prefix @ c"
| "expr_text prefix (PayloadMeta f) = prefix @ ''payload->'' @ quoted ''metadata'' @ ''->>'' @ quoted f"

fun query_text :: "query \<Rightarrow> string" where
  "query_text (InsertQuery schema tableName rowsCount columnsCount special) =
     ''INSERT into '' @ schema @ ''.'' @ tableName @ '' values '' @ generateInsertOrUpdateArgs rowsCount columnsCount special"
| "query_text (UpdateQuery schema tableName c rowsCount columnsCount special newColumns conds) =
     ''UPDATE '' @ schema @ ''.'' @ tableName @ '' AS old SET '' @ c @ ''=new.'' @ c @ '' FROM (values ''
       @ generateInsertOrUpdateArgs rowsCount columnsCount special
       @ '') AS new('' @ intercalate '','' newColumns @ '') WHERE ''
       @ intercalate '' AND '' (map (\<lambda>(old, new). expr_text ''old.'' old @ ''='' @ expr_text ''new.'' new) conds)"
| "query_text (DeleteQuery schema tableName rowKey rowsCount) =
     ''DELETE from '' @ schema @ ''.'' @ tableName @ '' WHERE leaf_hub_name=$1 AND '' @ expr_text '''' rowKey
       @ '' IN ('' @ generateArgsList rowsCount deleteStartingIndex [] @ '')''"
| "query_text (DeleteClustersQuery schema tableName clustersCount) =
     ''DELETE from '' @ schema @ ''.'' @ tableName @ '' WHERE id=$1 AND leaf_hub_name=$2 AND cluster_name IN (''
       @ generateArgsList clustersCount (deleteClusterCompliancePrefixArgsCount + 1) [] @ '')''"

text \<open>How many arguments the statement's text refers to.\<close>

fun placeholders :: "query \<Rightarrow> nat" where
  "placeholders (InsertQuery _ _ rowsCount columnsCount _) = rowsCount * columnsCount"
| "placeholders (UpdateQuery _ _ _ rowsCount columnsCount _ _ _) = rowsCount * columnsCount"
| "placeholders (DeleteQuery _ _ _ rowsCount) = Suc rowsCount"
| "placeholders (DeleteClustersQuery _ _ clustersCount) = 2 + clustersCount"

section \<open>The base builder\<close>

record batchItem =
  bi_query :: query
  bi_arguments :: "argument list"

text \<open>The builder type fixes the update statement; \<open>generateUpdateStatement\<close> is a field of the base builder.\<close>

datatype updateStatement =
    genericUpdate
  | genericLocalUpdate
  | managedClustersUpdate
  | policyComplianceUpdate

record baseBatchBuilder =
  deleteBatchItems :: "batchItem list"
  insertBatchItems :: "batchItem list"
  updateBatchItems :: "batchItem list"
  bld_schema :: string
  bld_tableName :: string
  tableSpecialColumns :: "(nat, string) gomap"
  bld_leafHubName :: string
  insertArgs :: "argument list"
  insertRowsCount :: nat
  updateArgs :: "argument list"
  updateRowsCount :: nat
  generateUpdate :: updateStatement
  deleteArgs :: "argument list"
  deleteRowsCount :: nat
  deleteRowKey :: expr

definition newBaseBatchBuilder ::
  "string \<Rightarrow> string \<Rightarrow> (nat, string) gomap \<Rightarrow> string \<Rightarrow> expr \<Rightarrow> updateStatement \<Rightarrow> baseBatchBuilder" where
  "newBaseBatchBuilder schema tableName specialColumns leafHubName rowKey upd =
     \<lparr>deleteBatchItems = [], insertBatchItems = [], updateBatchItems = [],
      bld_schema = schema, bld_tableName = tableName, tableSpecialColumns = specialColumns, bld_leafHubName = leafHubName,
      insertArgs = [], insertRowsCount = 0, updateArgs = [], updateRowsCount = 0, generateUpdate = upd,
      deleteArgs = [AStr leafHubName], deleteRowsCount = 0, deleteRowKey = rowKey\<rparr>"

definition generateInsertStatement :: "baseBatchBuilder \<Rightarrow> query" where
  "generateInsertStatement b =
     InsertQuery (bld_schema b) (bld_tableName b) (insertRowsCount b) (length (insertArgs b) div insertRowsCount b) (tableSpecialColumns b)"

definition generateDeleteStatement :: "baseBatchBuilder \<Rightarrow> query" where
  "generateDeleteStatement b = DeleteQuery (bld_schema b) (bld_tableName b) (deleteRowKey b) (deleteRowsCount b)"

definition generic_generateUpdateStatement :: "baseBatchBuilder \<Rightarrow> query" where
  "generic_generateUpdateStatement b =
     UpdateQuery (bld_schema b) (bld_tableName b) ''payload'' (updateRowsCount b) (length (updateArgs b) div updateRowsCount b)
       (tableSpecialColumns b) [''id'', ''leaf_hub_name'', ''payload'']
       [(Column ''leaf_hub_name'', Column ''leaf_hub_name''), (Column ''id'', Column ''id'')]"

definition genericLocal_generateUpdateStatement :: "baseBatchBuilder \<Rightarrow> query" where
  "genericLocal_generateUpdateStatement b =
     UpdateQuery (bld_schema b) (bld_tableName b) ''payload'' (updateRowsCount b) (length (updateArgs b) div updateRowsCount b)
       (tableSpecialColumns b) [''leaf_hub_name'', ''payload'']
       [(Column ''leaf_hub_name'', Column ''leaf_hub_name''), (PayloadMeta ''uid'', PayloadMeta ''uid'')]"

definition managedClusters_generateUpdateStatement :: "baseBatchBuilder \<Rightarrow> query" where
  "managedClusters_generateUpdateStatement b =
     UpdateQuery (bld_schema b) (bld_tableName b) ''payload'' (updateRowsCount b) (length (updateArgs b) div updateRowsCount b)
       (tableSpecialColumns b) [''leaf_hub_name'', ''payload'', ''cluster_name'']
       [(Column ''leaf_hub_name'', Column ''leaf_hub_name''), (PayloadMeta ''name'', Column ''cluster_name'')]"

definition generateUpdatePolicyComplianceStatement :: "baseBatchBuilder \<Rightarrow> query" where
  "generateUpdatePolicyComplianceStatement b =
     UpdateQuery (bld_schema b) (bld_tableName b) ''compliance'' (updateRowsCount b) (length (updateArgs b) div updateRowsCount b)
       [(1, db_UUID), (3, bld_schema b @ ''.'' @ db_ComplianceType)] [''id'', ''leaf_hub_name'', ''compliance'']
       [(Column ''id'', Column ''id''), (Column ''leaf_hub_name'', Column ''leaf_hub_name'')]"

fun generateUpdateStatement :: "updateStatement \<Rightarrow> baseBatchBuilder \<Rightarrow> query" where
  "generateUpdateStatement genericUpdate b = generic_generateUpdateStatement b"
| "generateUpdateStatement genericLocalUpdate b = genericLocal_generateUpdateStatement b"
| "generateUpdateStatement managedClustersUpdate b = managedClusters_generateUpdateStatement b"
| "generateUpdateStatement policyComplianceUpdate b = generateUpdatePolicyComplianceStatement b"

definition base_insert :: "argument list \<Rightarrow> baseBatchBuilder \<Rightarrow> baseBatchBuilder" where
  "base_insert newArgs b =
     (let b1 = (if length (insertArgs b) + length newArgs \<ge> maxColumnsUpdateInStatement
                then b\<lparr>insertBatchItems := insertBatchItems b @ [\<lparr>bi_query = generateInsertStatement b, bi_arguments = insertArgs b\<rparr>],
                       insertArgs := [], insertRowsCount := 0\<rparr>
                else b)
      in b1\<lparr>insertArgs := insertArgs b1 @ newArgs, insertRowsCount := insertRowsCount b1 + 1\<rparr>)"

definition base_update :: "argument list \<Rightarrow> baseBatchBuilder \<Rightarrow> baseBatchBuilder" where
  "base_update newArgs b =
     (let b1 = (if length (updateArgs b) + length newArgs \<ge> maxColumnsUpdateInStatement
                then b\<lparr>updateBatchItems := updateBatchItems b
                         @ [\<lparr>bi_query = generateUpdateStatement (generateUpdate b) b, bi_arguments = updateArgs b\<rparr>],
                       updateArgs := [], updateRowsCount := 0\<rparr>
                else b)
      in b1\<lparr>updateArgs := updateArgs b1 @ newArgs, updateRowsCount := updateRowsCount b1 + 1\<rparr>)"

definition base_delete :: "argument list \<Rightarrow> baseBatchBuilder \<Rightarrow> baseBatchBuilder" where
  "base_delete newArgs b =
     (let b1 = (if length (deleteArgs b) + length newArgs \<ge> maxColumnsUpdateInStatement
                then b\<lparr>deleteBatchItems := deleteBatchItems b @ [\<lparr>bi_query = generateDeleteStatement b, bi_arguments = deleteArgs b\<rparr>],
                       deleteArgs := [AStr (bld_leafHubName b)], deleteRowsCount := 0\<rparr>
                else b)
      in b1\<lparr>deleteArgs := deleteArgs b1 @ newArgs, deleteRowsCount := deleteRowsCount b1 + 1\<rparr>)"

text \<open>
  A \<open>pgx.Batch\<close> is the queue of its statements with their arguments. The statements flushed earlier are
  queued as \<open>batch.Queue(item.query, item.arguments)\<close>, where the slice is one variadic argument;
  the last one of each group is queued with \<open>args...\<close>.
\<close>

type_synonym Batch = "(query \<times> argument list) list"

definition queueItems :: "batchItem list \<Rightarrow> Batch" where
  "queueItems items = map (\<lambda>item. (bi_query item, [ASlice (bi_arguments item)])) items"

definition base_build :: "baseBatchBuilder \<Rightarrow> Batch" where
  "base_build b =
     queueItems (deleteBatchItems b)
     @ (if deleteRowsCount b > 0 then [(generateDeleteStatement b, deleteArgs b)] else [])
     @ queueItems (insertBatchItems b)
     @ (if insertRowsCount b > 0 then [(generateInsertStatement b, insertArgs b)] else [])
     @ queueItems (updateBatchItems b)
     @ (if updateRowsCount b > 0 then [(generateUpdateStatement (generateUpdate b) b, updateArgs b)] else [])"

section \<open>The builders of the tables\<close>

definition NewGenericBatchBuilder :: "string \<Rightarrow> string \<Rightarrow> string \<Rightarrow> baseBatchBuilder" where
  "NewGenericBatchBuilder schema tableName leafHubName =
     newBaseBatchBuilder schema tableName [(1, db_UUID), (3, db_Jsonb)] leafHubName (Column ''id'') genericUpdate"

definition generic_Insert :: "string \<Rightarrow> k8s_object \<Rightarrow> baseBatchBuilder \<Rightarrow> baseBatchBuilder" where
  "generic_Insert uid payload b = base_insert [AStr uid, AStr (bld_leafHubName b), AObj payload] b"

definition generic_Update :: "string \<Rightarrow> k8s_object \<Rightarrow> baseBatchBuilder \<Rightarrow> baseBatchBuilder" where
  "generic_Update uid payload b = base_update [AStr uid, AStr (bld_leafHubName b), AObj payload] b"

definition generic_Delete :: "string \<Rightarrow> baseBatchBuilder \<Rightarrow> baseBatchBuilder" where
  "generic_Delete uid b = base_delete [AStr uid] b"

definition NewGenericLocalBatchBuilder :: "string \<Rightarrow> string \<Rightarrow> string \<Rightarrow> baseBatchBuilder" where
  "NewGenericLocalBatchBuilder schema tableName leafHubName =
     newBaseBatchBuilder schema tableName [(2, db_Jsonb)] leafHubName (PayloadMeta ''uid'') genericLocalUpdate"

definition genericLocal_Insert :: "k8s_object \<Rightarrow> baseBatchBuilder \<Rightarrow> baseBatchBuilder" where
  "genericLocal_Insert payload b = base_insert [AStr (bld_leafHubName b), AObj payload] b"

definition genericLocal_Update :: "k8s_object \<Rightarrow> baseBatchBuilder \<Rightarrow> baseBatchBuilder" where
  "genericLocal_Update payload b = base_update [AStr (bld_leafHubName b), AObj payload] b"

definition genericLocal_Delete :: "string \<Rightarrow> baseBatchBuilder \<Rightarrow> baseBatchBuilder" where
  "genericLocal_Delete uid b = base_delete [AStr uid] b"

definition NewManagedClustersBatchBuilder :: "string \<Rightarrow> string \<Rightarrow> string \<Rightarrow> baseBatchBuilder" where
  "NewManagedClustersBatchBuilder schema tableName leafHubName =
     newBaseBatchBuilder schema tableName [(2, db_Jsonb)] leafHubName (PayloadMeta ''name'') managedClustersUpdate"

definition managedClusters_Insert :: "k8s_object \<Rightarrow> string \<Rightarrow> baseBatchBuilder \<Rightarrow> baseBatchBuilder" where
  "managedClusters_Insert payload errorString b = base_insert [AStr (bld_leafHubName b), AObj payload, AStr errorString] b"

definition managedClusters_Update :: "string \<Rightarrow> k8s_object \<Rightarrow> baseBatchBuilder \<Rightarrow> baseBatchBuilder" where
  "managedClusters_Update clusterName payload b = base_update [AStr (bld_leafHubName b), AObj payload, AStr clusterName] b"

definition managedClusters_Delete :: "string \<Rightarrow> baseBatchBuilder \<Rightarrow> baseBatchBuilder" where
  "managedClusters_Delete clusterName b = base_delete [AStr clusterName] b"

text \<open>The builder of the compliance tables embeds the base builder.\<close>

record PoliciesBatchBuilder =
  pb_base :: baseBatchBuilder
  updateClusterComplianceArgs :: "argument list"
  updateClusterComplianceRowsCount :: nat
  deleteClusterComplianceArgs :: "(string, argument list) gomap"

definition NewPoliciesBatchBuilder :: "string \<Rightarrow> string \<Rightarrow> string \<Rightarrow> PoliciesBatchBuilder" where
  "NewPoliciesBatchBuilder schema tableName leafHubName =
     \<lparr>pb_base = newBaseBatchBuilder schema tableName [(1, db_UUID)] leafHubName (Column ''id'') policyComplianceUpdate,
      updateClusterComplianceArgs = [], updateClusterComplianceRowsCount = 0, deleteClusterComplianceArgs = []\<rparr>"

definition policies_Insert :: "string \<Rightarrow> string \<Rightarrow> string \<Rightarrow> string \<Rightarrow> PoliciesBatchBuilder \<Rightarrow> PoliciesBatchBuilder" where
  "policies_Insert policyID clusterName errorString compliance b =
     b\<lparr>pb_base := base_insert [AStr policyID, AStr clusterName, AStr (bld_leafHubName (pb_base b)), AStr errorString, AStr compliance]
         (pb_base b)\<rparr>"

definition UpdatePolicyCompliance :: "string \<Rightarrow> string \<Rightarrow> PoliciesBatchBuilder \<Rightarrow> PoliciesBatchBuilder" where
  "UpdatePolicyCompliance policyID compliance b =
     b\<lparr>pb_base := base_update [AStr policyID, AStr (bld_leafHubName (pb_base b)), AStr compliance] (pb_base b)\<rparr>"

definition clusterComplianceUpdateArgsCount :: nat where "clusterComplianceUpdateArgsCount = 4"

definition generateUpdateClusterComplianceStatement :: "PoliciesBatchBuilder \<Rightarrow> query" where
  "generateUpdateClusterComplianceStatement b =
     UpdateQuery (bld_schema (pb_base b)) (bld_tableName (pb_base b)) ''compliance'' (updateClusterComplianceRowsCount b)
       (length (updateClusterComplianceArgs b) div updateClusterComplianceRowsCount b)
       [(1, db_UUID), (4, bld_schema (pb_base b) @ ''.'' @ db_ComplianceType)]
       [''id'', ''cluster_name'', ''leaf_hub_name'', ''compliance'']
       [(Column ''id'', Column ''id''), (Column ''leaf_hub_name'', Column ''leaf_hub_name''), (Column ''cluster_name'', Column ''cluster_name'')]"

definition UpdateClusterCompliance :: "string \<Rightarrow> string \<Rightarrow> string \<Rightarrow> PoliciesBatchBuilder \<Rightarrow> PoliciesBatchBuilder" where
  "UpdateClusterCompliance policyID clusterName compliance b =
     (let b1 = (if length (updateClusterComplianceArgs b) + clusterComplianceUpdateArgsCount \<ge> maxColumnsUpdateInStatement
                then b\<lparr>pb_base := (pb_base b)\<lparr>updateBatchItems := updateBatchItems (pb_base b)
                         @ [\<lparr>bi_query = generateUpdateClusterComplianceStatement b, bi_arguments = updateClusterComplianceArgs b\<rparr>]\<rparr>,
                       updateClusterComplianceArgs := [], updateClusterComplianceRowsCount := 0\<rparr>
                else b)
      in b1\<lparr>updateClusterComplianceArgs := updateClusterComplianceArgs b1
              @ [AStr policyID, AStr clusterName, AStr (bld_leafHubName (pb_base b1)), AStr compliance],
            updateClusterComplianceRowsCount := updateClusterComplianceRowsCount b1 + 1\<rparr>)"

definition DeletePolicy :: "string \<Rightarrow> PoliciesBatchBuilder \<Rightarrow> PoliciesBatchBuilder" where
  "DeletePolicy policyID b = b\<lparr>pb_base := base_delete [AStr policyID] (pb_base b)\<rparr>"

definition DeleteClusterStatus :: "string \<Rightarrow> string \<Rightarrow> PoliciesBatchBuilder \<Rightarrow> PoliciesBatchBuilder" where
  "DeleteClusterStatus policyID clusterName b =
     (let args = (case map_of (deleteClusterComplianceArgs b) policyID of
            None \<Rightarrow> [AStr policyID, AStr (bld_leafHubName (pb_base b))] | Some args \<Rightarrow> args)
      in b\<lparr>deleteClusterComplianceArgs := AList.update policyID (args @ [AStr clusterName]) (deleteClusterComplianceArgs b)\<rparr>)"

definition generateDeleteClusterComplianceStatement :: "argument list \<Rightarrow> PoliciesBatchBuilder \<Rightarrow> query" where
  "generateDeleteClusterComplianceStatement args b =
     DeleteClustersQuery (bld_schema (pb_base b)) (bld_tableName (pb_base b)) (length args - deleteClusterCompliancePrefixArgsCount)"

definition policies_Build :: "(string list \<Rightarrow> string list) \<Rightarrow> PoliciesBatchBuilder \<Rightarrow> Batch" where
  "policies_Build ord b =
     base_build (pb_base b)
     @ map (\<lambda>policyID. let args = the (map_of (deleteClusterComplianceArgs b) policyID)
                       in (generateDeleteClusterComplianceStatement args b, args))
         (ord (map fst (deleteClusterComplianceArgs b)))
     @ (if updateClusterComplianceRowsCount b > 0
        then [(generateUpdateClusterComplianceStatement b, updateClusterComplianceArgs b)] else [])"

section \<open>What the statements do\<close>

type_synonym row = "argument list"
type_synonym database = "string \<times> string \<Rightarrow> row list"

text \<open>The columns of the tables, from \<open>operator/pkg/controllers/hubofhubs/database/3.tables.sql\<close>.\<close>

definition columns :: "string \<times> string \<Rightarrow> string list" where
  "columns st =
     (if snd st = ComplianceTableName then [''id'', ''cluster_name'', ''leaf_hub_name'', ''error'', ''compliance'']
      else if st = (StatusSchema, ManagedClustersTableName) then [''leaf_hub_name'', ''payload'', ''error'']
      else if fst st = LocalSpecSchema then [''leaf_hub_name'', ''payload'']
      else if st = (StatusSchema, MinimalComplianceTable) then [''id'', ''leaf_hub_name'', ''applied_clusters'', ''non_compliant_clusters'']
      else [''id'', ''leaf_hub_name'', ''payload''])"

fun column_index :: "string list \<Rightarrow> string \<Rightarrow> nat" where
  "column_index [] c = 0"
| "column_index (x # xs) c = (if x = c then 0 else Suc (column_index xs c))"

definition field_at :: "string list \<Rightarrow> string \<Rightarrow> row \<Rightarrow> argument" where
  "field_at cols c r = (let i = column_index cols c in if i < length r then r ! i else ASlice [])"

fun payload_meta :: "string \<Rightarrow> argument \<Rightarrow> argument" where
  "payload_meta f (AObj obj) =
     (if f = ''uid'' then AStr (obj_uid obj) else if f = ''name'' then AStr (obj_name obj)
      else if f = ''resourceVersion'' then AStr (obj_resourceVersion obj) else ASlice [])"
| "payload_meta f _ = ASlice []"

fun eval_expr :: "string list \<Rightarrow> expr \<Rightarrow> row \<Rightarrow> argument" where
  "eval_expr cols (Column c) r = field_at cols c r"
| "eval_expr cols (PayloadMeta f) r = payload_meta f (field_at cols ''payload'' r)"

text \<open>The rows of a \<open>values\<close> list: the arguments, \<open>columnsCount\<close> at a time.\<close>

function chunk :: "nat \<Rightarrow> 'a list \<Rightarrow> 'a list list" where
  "chunk n xs = (if n = 0 \<or> xs = [] then [] else take n xs # chunk n (drop n xs))"
  by pat_completeness auto
termination
  by (relation "measure (\<lambda>(n, xs). length xs)") auto

declare chunk.simps [simp del]

text \<open>
  \<open>UPDATE .. FROM (values ..)\<close> joins each old row with a new one; when several new rows match,
  PostgreSQL leaves open which is used, and the first one is taken here.
\<close>

definition update_rows :: "(row \<Rightarrow> row \<Rightarrow> bool) \<Rightarrow> (row \<Rightarrow> row \<Rightarrow> row) \<Rightarrow> row list \<Rightarrow> row list \<Rightarrow> row list" where
  "update_rows joins assign news t = map (\<lambda>r. case find (joins r) news of None \<Rightarrow> r | Some new \<Rightarrow> assign r new) t"

fun exec_rows :: "query \<Rightarrow> argument list \<Rightarrow> string list \<Rightarrow> row list \<Rightarrow> row list" where
  "exec_rows (InsertQuery _ _ rowsCount columnsCount _) args cols t = t @ chunk columnsCount args"
| "exec_rows (UpdateQuery _ _ c rowsCount columnsCount _ newCols conds) args cols t =
     update_rows (\<lambda>old new. \<forall>(e, e') \<in> set conds. eval_expr cols e old = eval_expr newCols e' new)
       (\<lambda>old new. old[column_index cols c := field_at newCols c new]) (chunk columnsCount args) t"
| "exec_rows (DeleteQuery _ _ rowKey rowsCount) args cols t =
     filter (\<lambda>r. \<not> (field_at cols ''leaf_hub_name'' r = hd args \<and> eval_expr cols rowKey r \<in> set (tl args))) t"
| "exec_rows (DeleteClustersQuery _ _ clustersCount) args cols t =
     filter (\<lambda>r. \<not> (field_at cols ''id'' r = hd args \<and> field_at cols ''leaf_hub_name'' r = hd (tl args)
                    \<and> field_at cols ''cluster_name'' r \<in> set (tl (tl args)))) t"

fun query_table :: "query \<Rightarrow> string \<times> string" where
  "query_table (InsertQuery schema tableName _ _ _) = (schema, tableName)"
| "query_table (UpdateQuery schema tableName _ _ _ _ _ _) = (schema, tableName)"
| "query_table (DeleteQuery schema tableName _ _) = (schema, tableName)"
| "query_table (DeleteClustersQuery schema tableName _) = (schema, tableName)"

definition exec_query :: "query \<Rightarrow> argument list \<Rightarrow> database \<Rightarrow> database option" where
  "exec_query q args d =
     (if length args \<noteq> placeholders q then None
      else Some (d(query_table q := exec_rows q args (columns (query_table q)) (d (query_table q)))))"

fun exec_batch :: "Batch \<Rightarrow> database \<Rightarrow> database option" where
  "exec_batch [] d = Some d"
| "exec_batch ((q, args) # rest) d = (case exec_query q args d of None \<Rightarrow> None | Some d' \<Rightarrow> exec_batch rest d')"

section \<open>The connection\<close>

text \<open>
  The PostgreSQL server is a parameter: what \<open>SendBatch\<close> of the connection pool answers (the errors
  of the statements, and the database afterwards), what a single \<open>Exec\<close> answers, how many rows of a
  \<open>SELECT\<close> arrive before the connection is lost (\<open>None\<close>: all of them), and whether a row cannot be
  scanned.
\<close>

record conn =
  pool_SendBatch :: "Batch \<Rightarrow> database \<Rightarrow> string list \<times> database"
  pool_ExecFails :: "database \<Rightarrow> bool"
  rows_delivered :: "nat option"
  scan_fails :: bool

text \<open>
  What is relied on: a batch that reports no error has executed its statements in order, and a
  batch that reports an error was rolled back (PostgreSQL runs a pipelined batch in one implicit
  transaction).
\<close>

definition conn_ok :: "conn \<Rightarrow> bool" where
  "conn_ok c \<longleftrightarrow>
     (\<forall>batch d errs d'. pool_SendBatch c batch d = (errs, d') \<longrightarrow>
        (if errs = [] then exec_batch batch d = Some d' else d' = d))"

datatype db_error = errBatchFailed "string list" | errScan | errExec

definition SendBatch :: "conn \<Rightarrow> Batch \<Rightarrow> database \<Rightarrow> db_error option \<times> database" where
  "SendBatch c batch d =
     (if batch = [] then (None, d)
      else (case pool_SendBatch c batch d of
              (errs, d') \<Rightarrow> (if errs \<noteq> [] then Some (errBatchFailed errs) else None, d')))"

text \<open>
  \<open>rows, _ := p.conn.Query(..)\<close> followed by a loop over \<open>rows.Next()\<close>: the error of the query is
  dropped and \<open>rows.Err()\<close> is not asked, so rows that do not arrive are as good as absent.
\<close>

definition scanRows :: "conn \<Rightarrow> row list \<Rightarrow> db_error + row list" where
  "scanRows c rows =
     (let arrived = (case rows_delivered c of None \<Rightarrow> rows | Some n \<Rightarrow> take n rows)
      in if scan_fails c \<and> arrived \<noteq> [] then Inl errScan else Inr arrived)"

end
