(* ===== verification/GH_BatchProps.thy ===== *)
theory GH_BatchProps
  imports GH_Batch
begin

text \<open>
  What the batch builders guarantee: arguments and placeholders agree and stay below the limit of
  the protocol in every statement that was not flushed early; and, when no statement was flushed
  early, what the built batch does to its table. The statements flushed early cannot be executed.
\<close>

section \<open>Accumulated arguments\<close>

text \<open>
  The three argument lists of the base builder and the one of the compliance builder grow in the
  same way: \<open>rows\<close> are the argument lists pushed so far, each \<open>w\<close> long, behind the fixed arguments
  \<open>pre\<close>; \<open>items\<close> are the statements flushed so far.
\<close>

definition flushed_ok :: "batchItem \<Rightarrow> bool" where
  "flushed_ok item \<longleftrightarrow> length (bi_arguments item) = placeholders (bi_query item)
     \<and> 1 < placeholders (bi_query item) \<and> placeholders (bi_query item) < maxColumnsUpdateInStatement"

definition acc_inv :: "nat \<Rightarrow> argument list \<Rightarrow> row list \<Rightarrow> batchItem list \<Rightarrow> argument list \<Rightarrow> nat \<Rightarrow> bool" where
  "acc_inv w pre rows items args cnt \<longleftrightarrow>
     length args = length pre + w * cnt \<and> length args < maxColumnsUpdateInStatement
     \<and> take (length pre) args = pre
     \<and> (items = [] \<longrightarrow> args = pre @ concat rows \<and> cnt = length rows)
     \<and> list_all flushed_ok items"

lemma acc_inv_append:
  assumes "acc_inv w pre rows items args cnt" and "length new = w"
    and "length args + w < maxColumnsUpdateInStatement"
  shows "acc_inv w pre (rows @ [new]) items (args @ new) (Suc cnt)"
  using assms by (auto simp: acc_inv_def)

lemma acc_inv_flush:
  assumes "acc_inv w pre rows items args cnt" and "length new = w" and "length pre + w + 2 < maxColumnsUpdateInStatement"
    and "maxColumnsUpdateInStatement \<le> length args + w" and "placeholders q = length args"
  shows "acc_inv w pre (rows @ [new]) (items @ [\<lparr>bi_query = q, bi_arguments = args\<rparr>]) (pre @ new) 1"
  using assms by (auto simp: acc_inv_def flushed_ok_def)

lemma acc_inv_more_items:
  assumes "acc_inv w pre rows items args cnt" and "flushed_ok item"
  shows "acc_inv w pre rows (items @ [item]) args cnt"
  using assms by (auto simp: acc_inv_def)

lemma acc_inv_flushed:
  assumes "acc_inv w pre rows items args cnt" and "maxColumnsUpdateInStatement \<le> length pre + length (concat rows)"
  shows "items \<noteq> []"
  using assms by (auto simp: acc_inv_def)

lemma acc_inv_columns:
  assumes "acc_inv w [] rows items args cnt"
  shows "cnt * (length args div cnt) = length args"
    and "0 < cnt \<Longrightarrow> length args div cnt = w"
  using assms by (auto simp: acc_inv_def)

section \<open>The base builder\<close>

datatype base_op = OpInsert "argument list" | OpUpdate "argument list" | OpDelete string

fun apply_base :: "base_op \<Rightarrow> baseBatchBuilder \<Rightarrow> baseBatchBuilder" where
  "apply_base (OpInsert args) b = base_insert args b"
| "apply_base (OpUpdate args) b = base_update args b"
| "apply_base (OpDelete key) b = base_delete [AStr key] b"

definition ins_of :: "base_op list \<Rightarrow> row list" where
  "ins_of ops = List.map_filter (\<lambda>op. case op of OpInsert args \<Rightarrow> Some args | _ \<Rightarrow> None) ops"

definition upd_of :: "base_op list \<Rightarrow> row list" where
  "upd_of ops = List.map_filter (\<lambda>op. case op of OpUpdate args \<Rightarrow> Some args | _ \<Rightarrow> None) ops"

definition del_of :: "base_op list \<Rightarrow> string list" where
  "del_of ops = List.map_filter (\<lambda>op. case op of OpDelete key \<Rightarrow> Some key | _ \<Rightarrow> None) ops"

lemma ops_of_append [simp]:
  "ins_of (xs @ ys) = ins_of xs @ ins_of ys" "upd_of (xs @ ys) = upd_of xs @ upd_of ys" "del_of (xs @ ys) = del_of xs @ del_of ys"
  by (simp_all add: ins_of_def upd_of_def del_of_def List.map_filter_def)

lemma ops_of_simps [simp]:
  "ins_of [] = []" "upd_of [] = []" "del_of [] = []"
  "ins_of (OpInsert args # ops) = args # ins_of ops" "ins_of (OpUpdate args # ops) = ins_of ops" "ins_of (OpDelete k # ops) = ins_of ops"
  "upd_of (OpInsert args # ops) = upd_of ops" "upd_of (OpUpdate args # ops) = args # upd_of ops" "upd_of (OpDelete k # ops) = upd_of ops"
  "del_of (OpInsert args # ops) = del_of ops" "del_of (OpUpdate args # ops) = del_of ops" "del_of (OpDelete k # ops) = k # del_of ops"
  by (simp_all add: ins_of_def upd_of_def del_of_def List.map_filter_def)

text \<open>Rows of an insert have \<open>wi\<close> columns, rows of an update \<open>wu\<close>.\<close>

fun op_width :: "nat \<Rightarrow> nat \<Rightarrow> base_op \<Rightarrow> bool" where
  "op_width wi wu (OpInsert args) \<longleftrightarrow> length args = wi"
| "op_width wi wu (OpUpdate args) \<longleftrightarrow> length args = wu"
| "op_width wi wu (OpDelete key) \<longleftrightarrow> True"

definition base_inv :: "nat \<Rightarrow> nat \<Rightarrow> row list \<Rightarrow> row list \<Rightarrow> string list \<Rightarrow> baseBatchBuilder \<Rightarrow> bool" where
  "base_inv wi wu I U D b \<longleftrightarrow>
     acc_inv wi [] I (insertBatchItems b) (insertArgs b) (insertRowsCount b)
     \<and> acc_inv wu [] U (updateBatchItems b) (updateArgs b) (updateRowsCount b)
     \<and> acc_inv 1 [AStr (bld_leafHubName b)] (map (\<lambda>k. [AStr k]) D) (deleteBatchItems b) (deleteArgs b) (deleteRowsCount b)"

definition bld_frame :: "baseBatchBuilder \<Rightarrow> baseBatchBuilder \<Rightarrow> bool" where
  "bld_frame b b' \<longleftrightarrow> bld_schema b' = bld_schema b \<and> bld_tableName b' = bld_tableName b
     \<and> bld_leafHubName b' = bld_leafHubName b \<and> generateUpdate b' = generateUpdate b \<and> deleteRowKey b' = deleteRowKey b"

lemma base_frames [simp]:
  "bld_frame b (base_insert args b)" "bld_frame b (base_update args b)" "bld_frame b (base_delete args b)"
  by (simp_all add: bld_frame_def base_insert_def base_update_def base_delete_def Let_def)

lemma bld_frame_trans: "bld_frame a b \<Longrightarrow> bld_frame b c \<Longrightarrow> bld_frame a c"
  by (simp add: bld_frame_def)

lemma placeholders_generateUpdateStatement:
  "placeholders (generateUpdateStatement k b) = updateRowsCount b * (length (updateArgs b) div updateRowsCount b)"
  by (cases k)
     (simp_all add: generic_generateUpdateStatement_def genericLocal_generateUpdateStatement_def
       managedClusters_generateUpdateStatement_def generateUpdatePolicyComplianceStatement_def)

lemma base_insert_inv:
  assumes "base_inv wi wu I U D b" and "length args = wi" and "wi < 10"
  shows "base_inv wi wu (I @ [args]) U D (base_insert args b)"
proof -
  have acc: "acc_inv wi [] I (insertBatchItems b) (insertArgs b) (insertRowsCount b)"
    using assms(1) by (simp add: base_inv_def)
  note app = acc_inv_append [OF acc assms(2)]
    and flush = acc_inv_flush [OF acc assms(2), of "generateInsertStatement b"]
  show ?thesis
    using assms app flush acc_inv_columns(1) [OF acc]
    by (auto simp: base_inv_def base_insert_def Let_def generateInsertStatement_def maxColumnsUpdateInStatement_def)
qed

lemma base_update_inv:
  assumes "base_inv wi wu I U D b" and "length args = wu" and "wu < 10"
  shows "base_inv wi wu I (U @ [args]) D (base_update args b)"
proof -
  have acc: "acc_inv wu [] U (updateBatchItems b) (updateArgs b) (updateRowsCount b)"
    using assms(1) by (simp add: base_inv_def)
  note app = acc_inv_append [OF acc assms(2)]
    and flush = acc_inv_flush [OF acc assms(2), of "generateUpdateStatement (generateUpdate b) b"]
  show ?thesis
    using assms app flush acc_inv_columns(1) [OF acc]
    by (auto simp: base_inv_def base_update_def Let_def placeholders_generateUpdateStatement maxColumnsUpdateInStatement_def)
qed

lemma base_delete_inv:
  assumes "base_inv wi wu I U D b"
  shows "base_inv wi wu I U (D @ [k]) (base_delete [AStr k] b)"
proof -
  have acc: "acc_inv 1 [AStr (bld_leafHubName b)] (map (\<lambda>k. [AStr k]) D) (deleteBatchItems b) (deleteArgs b) (deleteRowsCount b)"
    using assms(1) by (simp add: base_inv_def)
  have ph: "placeholders (generateDeleteStatement b) = length (deleteArgs b)"
    using acc by (simp add: generateDeleteStatement_def acc_inv_def)
  note app = acc_inv_append [OF acc, of "[AStr k]"]
    and flush = acc_inv_flush [OF acc, of "[AStr k]" "generateDeleteStatement b"]
  show ?thesis
    using assms app flush ph
    by (auto simp: base_inv_def base_delete_def Let_def maxColumnsUpdateInStatement_def)
qed

lemma newBaseBatchBuilder_inv: "base_inv wi wu [] [] [] (newBaseBatchBuilder schema tableName sp hub key u)"
  by (simp add: base_inv_def acc_inv_def newBaseBatchBuilder_def maxColumnsUpdateInStatement_def)

lemma apply_base_inv:
  assumes "base_inv wi wu I U D b" and "op_width wi wu op" and "wi < 10" and "wu < 10"
  shows "base_inv wi wu (I @ ins_of [op]) (U @ upd_of [op]) (D @ del_of [op]) (apply_base op b)"
  using assms base_insert_inv base_update_inv base_delete_inv by (cases op) auto

lemma run_base_inv:
  assumes "list_all (op_width wi wu) ops" and "wi < 10" and "wu < 10"
  shows "base_inv wi wu (ins_of ops) (upd_of ops) (del_of ops)
           (fold apply_base ops (newBaseBatchBuilder schema tableName sp hub key u))
    \<and> bld_frame (newBaseBatchBuilder schema tableName sp hub key u)
           (fold apply_base ops (newBaseBatchBuilder schema tableName sp hub key u))"
  using assms(1)
proof (induction ops rule: rev_induct)
  case Nil
  then show ?case
    using newBaseBatchBuilder_inv by (simp add: bld_frame_def)
next
  case (snoc op ops)
  let ?b = "fold apply_base ops (newBaseBatchBuilder schema tableName sp hub key u)"
  have "bld_frame ?b (apply_base op ?b)"
    by (cases op) simp_all
  then show ?case
    using snoc apply_base_inv [OF _ _ assms(2,3), of "ins_of ops" "upd_of ops" "del_of ops" ?b op] bld_frame_trans
    by (fastforce simp del: ops_of_simps)
qed

section \<open>Executing a built batch\<close>

lemma chunk_concat:
  assumes "\<And>r. r \<in> set rows \<Longrightarrow> length r = n" and "0 < n"
  shows "chunk n (concat rows) = rows"
  using assms
proof (induction rows)
  case Nil
  then show ?case by (simp add: chunk.simps)
next
  case (Cons r rows)
  then have "length r = n" "r \<noteq> []"
    by auto
  then show ?case
    using Cons by (subst chunk.simps) simp
qed

lemma exec_batch_append: "exec_batch (xs @ ys) d = (case exec_batch xs d of None \<Rightarrow> None | Some d' \<Rightarrow> exec_batch ys d')"
  by (induction xs d rule: exec_batch.induct) (auto split: option.splits)

lemma exec_batch_mismatch:
  assumes "(q, args) \<in> set batch" and "length args \<noteq> placeholders q"
  shows "exec_batch batch d = None"
  using assms
  by (induction batch d rule: exec_batch.induct) (auto simp: exec_query_def split: option.splits)

definition flushed :: "baseBatchBuilder \<Rightarrow> bool" where
  "flushed b \<longleftrightarrow> deleteBatchItems b \<noteq> [] \<or> insertBatchItems b \<noteq> [] \<or> updateBatchItems b \<noteq> []"

text \<open>A batch with a statement that was flushed early is refused.\<close>

lemma base_build_flushed:
  assumes "base_inv wi wu I U D b" and "flushed b"
  shows "exec_batch (base_build b @ rest) d = None"
proof -
  obtain item where item: "flushed_ok item"
      "item \<in> set (deleteBatchItems b) \<or> item \<in> set (insertBatchItems b) \<or> item \<in> set (updateBatchItems b)"
    using assms unfolding flushed_def base_inv_def acc_inv_def list_all_iff by (metis list.set_sel(1))
  then have "(bi_query item, [ASlice (bi_arguments item)]) \<in> set (base_build b @ rest)"
    by (auto simp: base_build_def queueItems_def)
  moreover have "length [ASlice (bi_arguments item)] \<noteq> placeholders (bi_query item)"
    using item(1) by (simp add: flushed_ok_def)
  ultimately show ?thesis
    by (rule exec_batch_mismatch)
qed

fun upd_col :: "updateStatement \<Rightarrow> string" where
  "upd_col policyComplianceUpdate = ''compliance''"
| "upd_col _ = ''payload''"

fun upd_cols :: "updateStatement \<Rightarrow> string list" where
  "upd_cols genericUpdate = [''id'', ''leaf_hub_name'', ''payload'']"
| "upd_cols genericLocalUpdate = [''leaf_hub_name'', ''payload'']"
| "upd_cols managedClustersUpdate = [''leaf_hub_name'', ''payload'', ''cluster_name'']"
| "upd_cols policyComplianceUpdate = [''id'', ''leaf_hub_name'', ''compliance'']"

fun upd_conds :: "updateStatement \<Rightarrow> (expr \<times> expr) list" where
  "upd_conds genericUpdate = [(Column ''leaf_hub_name'', Column ''leaf_hub_name''), (Column ''id'', Column ''id'')]"
| "upd_conds genericLocalUpdate = [(Column ''leaf_hub_name'', Column ''leaf_hub_name''), (PayloadMeta ''uid'', PayloadMeta ''uid'')]"
| "upd_conds managedClustersUpdate = [(Column ''leaf_hub_name'', Column ''leaf_hub_name''), (PayloadMeta ''name'', Column ''cluster_name'')]"
| "upd_conds policyComplianceUpdate = [(Column ''id'', Column ''id''), (Column ''leaf_hub_name'', Column ''leaf_hub_name'')]"

definition joins :: "string list \<Rightarrow> string list \<Rightarrow> (expr \<times> expr) list \<Rightarrow> row \<Rightarrow> row \<Rightarrow> bool" where
  "joins cols newCols conds old new \<longleftrightarrow> (\<forall>(e, e') \<in> set conds. eval_expr cols e old = eval_expr newCols e' new)"

definition assigns :: "string list \<Rightarrow> string list \<Rightarrow> string \<Rightarrow> row \<Rightarrow> row \<Rightarrow> row" where
  "assigns cols newCols c old new = old[column_index cols c := field_at newCols c new]"

definition base_effect ::
  "string list \<Rightarrow> updateStatement \<Rightarrow> string \<Rightarrow> expr \<Rightarrow> string list \<Rightarrow> row list \<Rightarrow> row list \<Rightarrow> row list \<Rightarrow> row list" where
  "base_effect cols k hub key D I U t =
     update_rows (joins cols (upd_cols k) (upd_conds k)) (assigns cols (upd_cols k) (upd_col k)) U
       (filter (\<lambda>r. \<not> (field_at cols ''leaf_hub_name'' r = AStr hub \<and> eval_expr cols key r \<in> AStr ` set D)) t @ I)"

lemma generateUpdateStatement_shape:
  "\<exists>sp. generateUpdateStatement k b =
     UpdateQuery (bld_schema b) (bld_tableName b) (upd_col k) (updateRowsCount b)
       (length (updateArgs b) div updateRowsCount b) sp (upd_cols k) (upd_conds k)"
  by (cases k)
     (simp_all add: generic_generateUpdateStatement_def genericLocal_generateUpdateStatement_def
       managedClusters_generateUpdateStatement_def generateUpdatePolicyComplianceStatement_def)

lemma update_rows_Nil [simp]: "update_rows j a [] t = t"
  by (simp add: update_rows_def)

lemma exec_UpdateQuery:
  assumes "length args = n * w" and "args = concat U" and "\<And>r. r \<in> set U \<Longrightarrow> length r = w" and "0 < w"
  shows "exec_query (UpdateQuery schema tableName c n w sp newCols conds) args d =
    Some (d((schema, tableName) := update_rows (joins (columns (schema, tableName)) newCols conds)
      (assigns (columns (schema, tableName)) newCols c) U (d (schema, tableName))))"
  using assms
  by (simp add: exec_query_def joins_def [abs_def] assigns_def [abs_def] chunk_concat)

lemma filter_no_delete:
  "filter (\<lambda>r. \<not> (P r \<and> Q r \<in> AStr ` set [])) t = t"
  by simp

lemma base_build_effect:
  assumes inv: "base_inv wi wu I U D b" and "\<not> flushed b"
    and I: "\<And>r. r \<in> set I \<Longrightarrow> length r = wi" and U: "\<And>r. r \<in> set U \<Longrightarrow> length r = wu" and w: "0 < wi" "0 < wu"
  shows "exec_batch (base_build b) d =
    Some (d((bld_schema b, bld_tableName b) :=
      base_effect (columns (bld_schema b, bld_tableName b)) (generateUpdate b) (bld_leafHubName b) (deleteRowKey b) D I U
        (d (bld_schema b, bld_tableName b))))"
proof -
  let ?st = "(bld_schema b, bld_tableName b)"
  have items: "deleteBatchItems b = []" "insertBatchItems b = []" "updateBatchItems b = []"
    using assms(2) by (auto simp: flushed_def)
  have args: "insertArgs b = concat I" "insertRowsCount b = length I" "updateArgs b = concat U" "updateRowsCount b = length U"
      "deleteArgs b = AStr (bld_leafHubName b) # map AStr D" "deleteRowsCount b = length D"
    using inv items by (auto simp: base_inv_def acc_inv_def comp_def)
  have lens: "length (concat I) = length I * wi" "length (concat U) = length U * wu"
    using inv items args by (auto simp: base_inv_def acc_inv_def mult.commute)
  obtain sp where upd: "generateUpdateStatement (generateUpdate b) b =
     UpdateQuery (bld_schema b) (bld_tableName b) (upd_col (generateUpdate b)) (length U)
       (length (concat U) div length U) sp (upd_cols (generateUpdate b)) (upd_conds (generateUpdate b))"
    using generateUpdateStatement_shape [of "generateUpdate b" b] args by auto
  have del: "exec_batch (if D \<noteq> [] then [(generateDeleteStatement b, deleteArgs b)] else []) d
      = Some (d(?st := filter (\<lambda>r. \<not> (field_at (columns ?st) ''leaf_hub_name'' r = AStr (bld_leafHubName b)
          \<and> eval_expr (columns ?st) (deleteRowKey b) r \<in> AStr ` set D)) (d ?st)))" for d
    using args by (simp add: generateDeleteStatement_def exec_query_def)
  have ins: "exec_batch (if I \<noteq> [] then [(generateInsertStatement b, insertArgs b)] else []) d
      = Some (d(?st := d ?st @ I))" for d
    using args lens I w by (simp add: generateInsertStatement_def exec_query_def chunk_concat)
  have updt: "exec_batch (if U \<noteq> [] then [(generateUpdateStatement (generateUpdate b) b, updateArgs b)] else []) d
      = Some (d(?st := update_rows (joins (columns ?st) (upd_cols (generateUpdate b)) (upd_conds (generateUpdate b)))
          (assigns (columns ?st) (upd_cols (generateUpdate b)) (upd_col (generateUpdate b))) U (d ?st)))" for d
    using args lens U w exec_UpdateQuery [OF _ _ U w(2)] by (simp add: upd)
  show ?thesis
    using del ins updt
    by (simp add: base_build_def queueItems_def items args exec_batch_append base_effect_def)
qed

section \<open>The compliance builder\<close>

datatype policy_op =
    PInsert string string string
  | PUpdatePolicy string string
  | PUpdateCluster string string string
  | PDeletePolicy string
  | PDeleteCluster string string

fun apply_policy :: "policy_op \<Rightarrow> PoliciesBatchBuilder \<Rightarrow> PoliciesBatchBuilder" where
  "apply_policy (PInsert policyID clusterName compliance) b = policies_Insert policyID clusterName ErrorNone compliance b"
| "apply_policy (PUpdatePolicy policyID compliance) b = UpdatePolicyCompliance policyID compliance b"
| "apply_policy (PUpdateCluster policyID clusterName compliance) b = UpdateClusterCompliance policyID clusterName compliance b"
| "apply_policy (PDeletePolicy policyID) b = DeletePolicy policyID b"
| "apply_policy (PDeleteCluster policyID clusterName) b = DeleteClusterStatus policyID clusterName b"

definition run_policy :: "policy_op list \<Rightarrow> PoliciesBatchBuilder \<Rightarrow> PoliciesBatchBuilder" where
  "run_policy ops b = fold apply_policy ops b"

text \<open>A row of a compliance table, and the rows the operations ask for.\<close>

definition crow :: "string \<Rightarrow> string \<Rightarrow> string \<Rightarrow> string \<Rightarrow> string \<Rightarrow> row" where
  "crow policyID clusterName hub err compliance = [AStr policyID, AStr clusterName, AStr hub, AStr err, AStr compliance]"

fun insertedRow :: "string \<Rightarrow> policy_op \<Rightarrow> row list" where
  "insertedRow hub (PInsert p c s) = [crow p c hub ErrorNone s]"
| "insertedRow hub _ = []"

fun policyRow :: "string \<Rightarrow> policy_op \<Rightarrow> row list" where
  "policyRow hub (PUpdatePolicy p s) = [[AStr p, AStr hub, AStr s]]"
| "policyRow hub _ = []"

fun clusterRow :: "string \<Rightarrow> policy_op \<Rightarrow> row list" where
  "clusterRow hub (PUpdateCluster p c s) = [[AStr p, AStr c, AStr hub, AStr s]]"
| "clusterRow hub _ = []"

fun deletedPolicy :: "policy_op \<Rightarrow> string list" where
  "deletedPolicy (PDeletePolicy p) = [p]"
| "deletedPolicy _ = []"

fun deletedCluster :: "string \<Rightarrow> policy_op \<Rightarrow> string list" where
  "deletedCluster p (PDeleteCluster q c) = (if q = p then [c] else [])"
| "deletedCluster p _ = []"

abbreviation gather :: "('o \<Rightarrow> 'a list) \<Rightarrow> 'o list \<Rightarrow> 'a list" where
  "gather f ops \<equiv> concat (map f ops)"

definition policies_inv :: "string \<Rightarrow> string \<Rightarrow> string \<Rightarrow> policy_op list \<Rightarrow> PoliciesBatchBuilder \<Rightarrow> bool" where
  "policies_inv schema tableName hub ops b \<longleftrightarrow>
     bld_frame (newBaseBatchBuilder schema tableName [(1, db_UUID)] hub (Column ''id'') policyComplianceUpdate) (pb_base b)
     \<and> base_inv 5 3 (gather (insertedRow hub) ops) (gather (policyRow hub) ops) (gather deletedPolicy ops) (pb_base b)
     \<and> acc_inv 4 [] (gather (clusterRow hub) ops) (updateBatchItems (pb_base b)) (updateClusterComplianceArgs b) (updateClusterComplianceRowsCount b)
     \<and> wf_map (deleteClusterComplianceArgs b)
     \<and> (\<forall>p. map_of (deleteClusterComplianceArgs b) p =
           (if gather (deletedCluster p) ops = [] then None
            else Some (AStr p # AStr hub # map AStr (gather (deletedCluster p) ops))))"

lemma policies_inv_hub: "policies_inv schema tableName hub ops b \<Longrightarrow> bld_leafHubName (pb_base b) = hub"
  by (simp add: policies_inv_def bld_frame_def newBaseBatchBuilder_def)

lemma newBaseBatchBuilder_items [simp]: "updateBatchItems (newBaseBatchBuilder schema tableName sp hub key u) = []"
  by (simp add: newBaseBatchBuilder_def)

lemma NewPoliciesBatchBuilder_inv: "policies_inv schema tableName hub [] (NewPoliciesBatchBuilder schema tableName hub)"
  using newBaseBatchBuilder_inv [of 5 3]
  by (simp add: policies_inv_def NewPoliciesBatchBuilder_def bld_frame_def acc_inv_def maxColumnsUpdateInStatement_def)

lemma updateBatchItems_frame [simp]:
  "updateBatchItems (base_insert args b) = updateBatchItems b" "updateBatchItems (base_delete args b) = updateBatchItems b"
  by (simp_all add: base_insert_def base_delete_def Let_def)

lemma base_update_items:
  assumes "base_inv wi 3 I U D b" and "length args = 3" and "acc_inv w pre rows (updateBatchItems b) as n"
  shows "acc_inv w pre rows (updateBatchItems (base_update args b)) as n"
proof -
  have acc: "acc_inv 3 [] U (updateBatchItems b) (updateArgs b) (updateRowsCount b)"
    using assms(1) by (simp add: base_inv_def)
  have "list_all flushed_ok (updateBatchItems (base_update args b))"
    using base_update_inv [OF assms(1,2)] by (simp add: base_inv_def acc_inv_def)
  then show ?thesis
    using assms(3) by (auto simp: base_update_def Let_def acc_inv_def)
qed

lemma UpdateClusterCompliance_inv:
  assumes "policies_inv schema tableName hub ops b"
  shows "policies_inv schema tableName hub (ops @ [PUpdateCluster p c s]) (UpdateClusterCompliance p c s b)"
proof -
  have acc: "acc_inv 4 [] (gather (clusterRow hub) ops) (updateBatchItems (pb_base b))
      (updateClusterComplianceArgs b) (updateClusterComplianceRowsCount b)"
    and base: "base_inv 5 3 (gather (insertedRow hub) ops) (gather (policyRow hub) ops) (gather deletedPolicy ops) (pb_base b)"
    using assms by (simp_all add: policies_inv_def)
  let ?item = "\<lparr>bi_query = generateUpdateClusterComplianceStatement b, bi_arguments = updateClusterComplianceArgs b\<rparr>"
  let ?new = "[AStr p, AStr c, AStr hub, AStr s]"
  have ph: "placeholders (generateUpdateClusterComplianceStatement b) = length (updateClusterComplianceArgs b)"
    using acc_inv_columns(1) [OF acc] by (simp add: generateUpdateClusterComplianceStatement_def)
  show ?thesis
  proof (cases "length (updateClusterComplianceArgs b) + 4 \<ge> maxColumnsUpdateInStatement")
    case True
    have item: "flushed_ok ?item"
      using True acc ph by (simp add: flushed_ok_def acc_inv_def maxColumnsUpdateInStatement_def)
    have "acc_inv 3 [] (gather (policyRow hub) ops) (updateBatchItems (pb_base b) @ [?item]) (updateArgs (pb_base b)) (updateRowsCount (pb_base b))"
      using acc_inv_more_items [OF _ item] base by (simp add: base_inv_def)
    then have "base_inv 5 3 (gather (insertedRow hub) ops) (gather (policyRow hub) ops) (gather deletedPolicy ops)
        ((pb_base b)\<lparr>updateBatchItems := updateBatchItems (pb_base b) @ [?item]\<rparr>)"
      using base by (simp add: base_inv_def)
    moreover have "acc_inv 4 [] (gather (clusterRow hub) ops @ [?new]) (updateBatchItems (pb_base b) @ [?item]) ([] @ ?new) 1"
      by (rule acc_inv_flush [OF acc _ _ True ph]) (simp_all add: maxColumnsUpdateInStatement_def)
    ultimately show ?thesis
      using assms True policies_inv_hub [OF assms]
      by (simp add: policies_inv_def UpdateClusterCompliance_def clusterComplianceUpdateArgsCount_def Let_def bld_frame_def)
  next
    case False
    have "acc_inv 4 [] (gather (clusterRow hub) ops @ [?new]) (updateBatchItems (pb_base b))
        (updateClusterComplianceArgs b @ ?new) (Suc (updateClusterComplianceRowsCount b))"
      by (rule acc_inv_append [OF acc]) (use False in simp_all)
    then show ?thesis
      using assms False policies_inv_hub [OF assms]
      by (simp add: policies_inv_def UpdateClusterCompliance_def clusterComplianceUpdateArgsCount_def Let_def)
  qed
qed

lemma apply_policy_inv:
  assumes "policies_inv schema tableName hub ops b"
  shows "policies_inv schema tableName hub (ops @ [op]) (apply_policy op b)"
proof -
  have acc: "acc_inv 4 [] (gather (clusterRow hub) ops) (updateBatchItems (pb_base b))
      (updateClusterComplianceArgs b) (updateClusterComplianceRowsCount b)"
    and base: "base_inv 5 3 (gather (insertedRow hub) ops) (gather (policyRow hub) ops) (gather deletedPolicy ops) (pb_base b)"
    using assms by (simp_all add: policies_inv_def)
  show ?thesis
  proof (cases op)
    case (PInsert p c s)
    then show ?thesis
      using assms policies_inv_hub [OF assms] base_insert_inv [of 5 3 _ _ _ "pb_base b" "crow p c hub ErrorNone s"]
        bld_frame_trans [OF _ base_frames(1)]
      by (simp add: policies_inv_def policies_Insert_def crow_def)
  next
    case (PUpdatePolicy p s)
    then show ?thesis
      using assms policies_inv_hub [OF assms] base_update_inv [OF base, of "[AStr p, AStr hub, AStr s]"]
        base_update_items [OF base _ acc, of "[AStr p, AStr hub, AStr s]"] bld_frame_trans [OF _ base_frames(2)]
      by (simp add: policies_inv_def UpdatePolicyCompliance_def)
  next
    case (PUpdateCluster p c s)
    then show ?thesis
      using UpdateClusterCompliance_inv [OF assms] by simp
  next
    case (PDeletePolicy p)
    then show ?thesis
      using assms base_delete_inv [of 5 3 _ _ _ "pb_base b" p] bld_frame_trans [OF _ base_frames(3)]
      by (simp add: policies_inv_def DeletePolicy_def)
  next
    case (PDeleteCluster p c)
    then show ?thesis
      using assms policies_inv_hub [OF assms]
      by (auto simp: policies_inv_def DeleteClusterStatus_def update_conv split: option.splits)
  qed
qed

lemma run_policy_inv:
  assumes "policies_inv schema tableName hub ops0 b"
  shows "policies_inv schema tableName hub (ops0 @ ops) (run_policy ops b)"
  using assms
proof (induction ops arbitrary: ops0 b)
  case (Cons op ops)
  then show ?case
    using Cons.IH [OF apply_policy_inv [OF Cons.prems]] by (simp add: run_policy_def)
qed (simp add: run_policy_def)

section \<open>The effect of a compliance batch\<close>

text \<open>The rows of a compliance table as tuples of policy, cluster, hub, error and compliance.\<close>

type_synonym compliance_row = "string \<times> string \<times> string \<times> string \<times> string"

definition to_row :: "compliance_row \<Rightarrow> row" where
  "to_row = (\<lambda>(p, c, h, e, s). crow p c h e s)"

fun inserted :: "string \<Rightarrow> policy_op \<Rightarrow> compliance_row list" where
  "inserted hub (PInsert p c s) = [(p, c, hub, ErrorNone, s)]"
| "inserted hub _ = []"

fun policyUpdate :: "policy_op \<Rightarrow> (string \<times> string) list" where
  "policyUpdate (PUpdatePolicy p s) = [(p, s)]"
| "policyUpdate _ = []"

fun clusterUpdate :: "policy_op \<Rightarrow> ((string \<times> string) \<times> string) list" where
  "clusterUpdate (PUpdateCluster p c s) = [((p, c), s)]"
| "clusterUpdate _ = []"

definition newStatus :: "policy_op list \<Rightarrow> string \<Rightarrow> string \<Rightarrow> string \<Rightarrow> string" where
  "newStatus ops p c s =
     (case map_of (gather clusterUpdate ops) (p, c) of
        Some s' \<Rightarrow> s'
      | None \<Rightarrow> (case map_of (gather policyUpdate ops) p of Some s' \<Rightarrow> s' | None \<Rightarrow> s))"

text \<open>Whether a row is one of the hub and satisfies a condition; setting the compliance of the rows of a hub.\<close>

fun hits :: "string \<Rightarrow> (string \<Rightarrow> string \<Rightarrow> bool) \<Rightarrow> compliance_row \<Rightarrow> bool" where
  "hits hub P (p, c, h, e, s) \<longleftrightarrow> h = hub \<and> P p c"

fun restate :: "string \<Rightarrow> (string \<Rightarrow> string \<Rightarrow> string \<Rightarrow> string) \<Rightarrow> compliance_row \<Rightarrow> compliance_row" where
  "restate hub f (p, c, h, e, s) = (p, c, h, e, if h = hub then f p c s else s)"

lemma restate_restate [simp]: "restate hub f (restate hub g r) = restate hub (\<lambda>p c s. f p c (g p c s)) r"
  by (cases r) simp

lemma hits_restate [simp]: "hits hub P (restate hub f r) = hits hub P r"
  by (cases r) simp

lemma hits_False [simp]: "\<not> hits hub (\<lambda>p c. False) r"
  by (cases r) simp

lemma restate_id [simp]: "restate hub (\<lambda>p c s. s) r = r"
  by (cases r) simp

lemma hits_or: "\<not> hits hub P r \<and> \<not> hits hub Q r \<longleftrightarrow> \<not> hits hub (\<lambda>p c. P p c \<or> Q p c) r"
  by (cases r) auto

definition compliance_effect :: "string \<Rightarrow> policy_op list \<Rightarrow> compliance_row list \<Rightarrow> compliance_row list" where
  "compliance_effect hub ops rows =
     map (restate hub (newStatus ops))
       (filter (\<lambda>r. \<not> hits hub (\<lambda>p c. c \<in> set (gather (deletedCluster p) ops)) r)
         (filter (\<lambda>r. \<not> hits hub (\<lambda>p c. p \<in> set (gather deletedPolicy ops)) r) rows @ gather (inserted hub) ops))"

lemma compliance_columns [simp]:
  "columns (schema, ComplianceTableName) = [''id'', ''cluster_name'', ''leaf_hub_name'', ''error'', ''compliance'']"
  by (simp add: columns_def)

lemma gather_rows:
  "gather (insertedRow hub) ops = map to_row (gather (inserted hub) ops)"
  "gather (policyRow hub) ops = map (\<lambda>(p, s). [AStr p, AStr hub, AStr s]) (gather policyUpdate ops)"
  "gather (clusterRow hub) ops = map (\<lambda>((p, c), s). [AStr p, AStr c, AStr hub, AStr s]) (gather clusterUpdate ops)"
proof -
  have "insertedRow hub = (\<lambda>op. map to_row (inserted hub op))"
    "policyRow hub = (\<lambda>op. map (\<lambda>(p, s). [AStr p, AStr hub, AStr s]) (policyUpdate op))"
    "clusterRow hub = (\<lambda>op. map (\<lambda>((p, c), s). [AStr p, AStr c, AStr hub, AStr s]) (clusterUpdate op))"
    by (rule ext; rename_tac op; case_tac op; simp add: to_row_def)+
  then show
    "gather (insertedRow hub) ops = map to_row (gather (inserted hub) ops)"
    "gather (policyRow hub) ops = map (\<lambda>(p, s). [AStr p, AStr hub, AStr s]) (gather policyUpdate ops)"
    "gather (clusterRow hub) ops = map (\<lambda>((p, c), s). [AStr p, AStr c, AStr hub, AStr s]) (gather clusterUpdate ops)"
    by (simp_all add: map_concat comp_def)
qed

text \<open>
  An update joins the row of policy, cluster and hub with at most one of the new rows, the first
  with its key.
\<close>

lemma update_rows_by_key:
  assumes joins: "\<And>p c h e s k x. j (crow p c h e s) (new k x) \<longleftrightarrow> k = key p c \<and> h = hub"
    and assigns: "\<And>p c h e s k x. a (crow p c h e s) (new k x) = crow p c h e x"
  shows "update_rows j a (map (\<lambda>(k, x). new k x) us) (map to_row rows)
    = map to_row (map (restate hub (\<lambda>p c s. case map_of us (key p c) of Some s' \<Rightarrow> s' | None \<Rightarrow> s)) rows)"
proof -
  have find: "find (j (crow p c h e s)) (map (\<lambda>(k, x). new k x) us)
      = (if h = hub then map_option (new (key p c)) (map_of us (key p c)) else None)" for p c h e s
    by (induction us) (auto simp: joins)
  have "(case find (j (crow p c h e s)) (map (\<lambda>(k, x). new k x) us) of None \<Rightarrow> crow p c h e s | Some y \<Rightarrow> a (crow p c h e s) y)
      = crow p c h e (if h = hub then (case map_of us (key p c) of Some s' \<Rightarrow> s' | None \<Rightarrow> s) else s)" for p c h e s
    by (simp add: find assigns split: option.splits)
  then show ?thesis
    by (auto simp: update_rows_def to_row_def)
qed

lemma update_policies_effect:
  "update_rows (joins (columns (schema, ComplianceTableName)) (upd_cols policyComplianceUpdate) (upd_conds policyComplianceUpdate))
      (assigns (columns (schema, ComplianceTableName)) (upd_cols policyComplianceUpdate) (upd_col policyComplianceUpdate))
      (map (\<lambda>(p, s). [AStr p, AStr hub, AStr s]) us) (map to_row rows)
    = map to_row (map (restate hub (\<lambda>p c s. case map_of us p of Some s' \<Rightarrow> s' | None \<Rightarrow> s)) rows)"
  by (rule update_rows_by_key [where key = "\<lambda>p c. p"]) (auto simp: joins_def assigns_def crow_def field_at_def)

lemma update_clusters_effect:
  "update_rows (joins (columns (schema, ComplianceTableName)) [''id'', ''cluster_name'', ''leaf_hub_name'', ''compliance'']
        [(Column ''id'', Column ''id''), (Column ''leaf_hub_name'', Column ''leaf_hub_name''), (Column ''cluster_name'', Column ''cluster_name'')])
      (assigns (columns (schema, ComplianceTableName)) [''id'', ''cluster_name'', ''leaf_hub_name'', ''compliance''] ''compliance'')
      (map (\<lambda>((p, c), s). [AStr p, AStr c, AStr hub, AStr s]) us) (map to_row rows)
    = map to_row (map (restate hub (\<lambda>p c s. case map_of us (p, c) of Some s' \<Rightarrow> s' | None \<Rightarrow> s)) rows)"
proof -
  have eq: "(\<lambda>((p, c), s). [AStr p, AStr c, AStr hub, AStr s]) = (\<lambda>(k, s). [AStr (fst k), AStr (snd k), AStr hub, AStr s])"
    by auto
  show ?thesis
    unfolding eq by (rule update_rows_by_key [where key = Pair]) (auto simp: joins_def assigns_def crow_def field_at_def)
qed

lemma delete_clusters_effect:
  assumes "\<And>p. p \<in> set ps \<Longrightarrow> args p = AStr p # AStr hub # map AStr (cs p)" and "d (schema, ComplianceTableName) = map to_row rows"
  shows "exec_batch (map (\<lambda>p. (DeleteClustersQuery schema ComplianceTableName (length (args p) - 2), args p)) ps) d =
    Some (d((schema, ComplianceTableName) :=
      map to_row (filter (\<lambda>r. \<not> hits hub (\<lambda>p c. p \<in> set ps \<and> c \<in> set (cs p)) r) rows)))"
  using assms
proof (induction ps arbitrary: d rows)
  case Nil
  then show ?case
    by (auto simp: fun_upd_idem)
next
  case (Cons p ps)
  let ?rows = "filter (\<lambda>r. \<not> hits hub (\<lambda>q c. q = p \<and> c \<in> set (cs p)) r) rows"
  let ?q = "DeleteClustersQuery schema ComplianceTableName (length (args p) - 2)"
  let ?d = "d((schema, ComplianceTableName) := map to_row ?rows)"
  have "exec_rows ?q (args p) (columns (schema, ComplianceTableName)) (map to_row rows) = map to_row ?rows"
    using Cons.prems(1) [of p]
    by (auto simp: filter_map comp_def to_row_def crow_def field_at_def intro!: filter_cong arg_cong [where f = "map _"])
  then have one: "exec_query ?q (args p) d = Some ?d"
    using Cons.prems by (simp add: exec_query_def)
  have "exec_batch (map (\<lambda>p. (DeleteClustersQuery schema ComplianceTableName (length (args p) - 2), args p)) ps) ?d =
    Some (?d((schema, ComplianceTableName) :=
      map to_row (filter (\<lambda>r. \<not> hits hub (\<lambda>p c. p \<in> set ps \<and> c \<in> set (cs p)) r) ?rows)))"
    by (rule Cons.IH) (use Cons.prems in simp_all)
  moreover have "filter (\<lambda>r. \<not> hits hub (\<lambda>p c. p \<in> set ps \<and> c \<in> set (cs p)) r) ?rows
      = filter (\<lambda>r. \<not> hits hub (\<lambda>q c. q \<in> set (p # ps) \<and> c \<in> set (cs q)) r) rows"
    unfolding filter_filter hits_or by (rule filter_cong) (auto elim!: hits.elims)
  ultimately show ?case
    using one by (simp add: fun_eq_iff)
qed

lemma policies_build_effect:
  assumes inv: "policies_inv schema ComplianceTableName hub ops b" and fl: "\<not> flushed (pb_base b)"
    and ord: "\<And>ks. set (ord ks) = set ks" and rows: "d (schema, ComplianceTableName) = map to_row rows"
  shows "exec_batch (policies_Build ord b) d =
    Some (d((schema, ComplianceTableName) := map to_row (compliance_effect hub ops rows)))"
proof -
  let ?st = "(schema, ComplianceTableName)"
  have frame: "bld_schema (pb_base b) = schema" "bld_tableName (pb_base b) = ComplianceTableName" "bld_leafHubName (pb_base b) = hub"
      "generateUpdate (pb_base b) = policyComplianceUpdate" "deleteRowKey (pb_base b) = Column ''id''"
    using inv by (simp_all add: policies_inv_def bld_frame_def newBaseBatchBuilder_def)
  have base: "base_inv 5 3 (gather (insertedRow hub) ops) (gather (policyRow hub) ops) (gather deletedPolicy ops) (pb_base b)"
    and acc: "acc_inv 4 [] (gather (clusterRow hub) ops) (updateBatchItems (pb_base b)) (updateClusterComplianceArgs b) (updateClusterComplianceRowsCount b)"
    and dels: "\<And>p. map_of (deleteClusterComplianceArgs b) p =
           (if gather (deletedCluster p) ops = [] then None
            else Some (AStr p # AStr hub # map AStr (gather (deletedCluster p) ops)))"
    using inv by (simp_all add: policies_inv_def)
  let ?kept = "filter (\<lambda>r. \<not> hits hub (\<lambda>p c. p \<in> set (gather deletedPolicy ops)) r) rows"
  let ?rows1 = "map (restate hub (\<lambda>p c s. case map_of (gather policyUpdate ops) p of Some s' \<Rightarrow> s' | None \<Rightarrow> s))
      (?kept @ gather (inserted hub) ops)"
  have kept: "filter (\<lambda>r. \<not> (field_at (columns ?st) ''leaf_hub_name'' r = AStr hub
        \<and> eval_expr (columns ?st) (Column ''id'') r \<in> AStr ` set (gather deletedPolicy ops))) (map to_row rows) = map to_row ?kept"
    by (auto simp: filter_map comp_def to_row_def crow_def field_at_def intro!: filter_cong arg_cong [where f = "map _"])
  have "base_effect (columns ?st) policyComplianceUpdate hub (Column ''id'') (gather deletedPolicy ops)
      (gather (insertedRow hub) ops) (gather (policyRow hub) ops) (map to_row rows) = map to_row ?rows1"
    unfolding base_effect_def kept gather_rows map_append [symmetric] update_policies_effect ..
  moreover have "\<And>r. r \<in> set (gather (insertedRow hub) ops) \<Longrightarrow> length r = 5" "\<And>r. r \<in> set (gather (policyRow hub) ops) \<Longrightarrow> length r = 3"
    by (auto simp: gather_rows to_row_def crow_def)
  ultimately have step1: "exec_batch (base_build (pb_base b)) d = Some (d(?st := map to_row ?rows1))"
    using base_build_effect [OF base fl] frame rows by simp
  let ?keys = "ord (map fst (deleteClusterComplianceArgs b))"
  let ?args = "\<lambda>p. the (map_of (deleteClusterComplianceArgs b) p)"
  let ?rows2 = "filter (\<lambda>r. \<not> hits hub (\<lambda>p c. p \<in> set ?keys \<and> c \<in> set (gather (deletedCluster p) ops)) r) ?rows1"
  have args: "?args p = AStr p # AStr hub # map AStr (gather (deletedCluster p) ops)" if "p \<in> set ?keys" for p
    using that dels [of p] by (auto simp: ord map_of_eq_None_iff split: if_splits)
  have step2: "exec_batch (map (\<lambda>p. (DeleteClustersQuery schema ComplianceTableName (length (?args p) - 2), ?args p)) ?keys)
      (d(?st := map to_row ?rows1)) = Some (d(?st := map to_row ?rows2))"
    using delete_clusters_effect [of ?keys ?args hub "\<lambda>p. gather (deletedCluster p) ops" "d(?st := map to_row ?rows1)" schema ?rows1, OF args]
    by simp
  let ?us = "gather clusterUpdate ops"
  let ?rows3 = "map (restate hub (\<lambda>p c s. case map_of ?us (p, c) of Some s' \<Rightarrow> s' | None \<Rightarrow> s)) ?rows2"
  have cl: "updateClusterComplianceArgs b = concat (gather (clusterRow hub) ops)" "updateClusterComplianceRowsCount b = length ?us"
      "length (concat (gather (clusterRow hub) ops)) = length ?us * 4"
    using acc fl by (auto simp: acc_inv_def flushed_def gather_rows(3) mult.commute)
  have step3: "exec_batch (if updateClusterComplianceRowsCount b > 0
        then [(generateUpdateClusterComplianceStatement b, updateClusterComplianceArgs b)] else [])
      (d(?st := map to_row rs)) = Some (d(?st := map to_row (map (restate hub (\<lambda>p c s. case map_of ?us (p, c) of Some s' \<Rightarrow> s' | None \<Rightarrow> s)) rs)))"
    for rs :: "compliance_row list"
  proof (cases "?us = []")
    case True
    then have "updateClusterComplianceRowsCount b = 0"
      using cl(2) by (simp only: list.size)
    then show ?thesis
      unfolding True by (simp add: comp_def)
  next
    case False
    then have q: "generateUpdateClusterComplianceStatement b = UpdateQuery schema ComplianceTableName ''compliance'' (length ?us) 4
        [(1, db_UUID), (4, schema @ ''.'' @ db_ComplianceType)] [''id'', ''cluster_name'', ''leaf_hub_name'', ''compliance'']
        [(Column ''id'', Column ''id''), (Column ''leaf_hub_name'', Column ''leaf_hub_name''), (Column ''cluster_name'', Column ''cluster_name'')]"
      using cl frame by (simp add: generateUpdateClusterComplianceStatement_def)
    have "\<And>r. r \<in> set (gather (clusterRow hub) ops) \<Longrightarrow> length r = 4"
      by (auto simp: gather_rows(3))
    note upd = exec_UpdateQuery [OF cl(3) refl this, unfolded gather_rows(3)]
    have pos: "0 < updateClusterComplianceRowsCount b"
      using False cl(2) by (simp only: length_greater_0_conv) simp
    show ?thesis
      unfolding if_P [OF pos] exec_batch.simps q cl(1) gather_rows(3)
      by (subst upd) (simp_all add: update_clusters_effect del: compliance_columns map_map)
  qed
  have "(p \<in> set ?keys \<and> c \<in> set (gather (deletedCluster p) ops)) = (c \<in> set (gather (deletedCluster p) ops))" for p c
    using dels [of p] by (auto simp: ord split: if_splits dest!: map_of_SomeD intro: rev_image_eqI)
  then have "?rows3 = compliance_effect hub ops rows"
    by (simp add: compliance_effect_def filter_map comp_def newStatus_def [abs_def] del: set_concat)
  then show ?thesis
    using step1 step2 step3 [of ?rows2] frame
    by (simp only: policies_Build_def Let_def generateDeleteClusterComplianceStatement_def deleteClusterCompliancePrefixArgsCount_def
        exec_batch_append option.case)
qed

section \<open>Properties\<close>

text \<open>A statement that deletes the rows of single clusters; its arguments are not bounded.\<close>

fun deletes_clusters :: "query \<Rightarrow> bool" where
  "deletes_clusters (DeleteClustersQuery _ _ _) = True"
| "deletes_clusters _ = False"

lemma queued_items:
  assumes "list_all flushed_ok items" and "(q, args) \<in> set (queueItems items)"
  shows "\<exists>slc. args = [ASlice slc] \<and> length slc = placeholders q \<and> 1 < placeholders q \<and> placeholders q < maxColumnsUpdateInStatement"
  using assms by (auto simp: queueItems_def list_all_iff flushed_ok_def)

lemma base_build_statement:
  assumes "base_inv wi wu I U D b" and "(q, args) \<in> set (base_build b)"
  shows "length args = placeholders q \<and> length args < maxColumnsUpdateInStatement
    \<or> (\<exists>slc. args = [ASlice slc] \<and> length slc = placeholders q \<and> 1 < placeholders q \<and> placeholders q < maxColumnsUpdateInStatement)"
proof -
  have acc: "acc_inv wi [] I (insertBatchItems b) (insertArgs b) (insertRowsCount b)"
      "acc_inv wu [] U (updateBatchItems b) (updateArgs b) (updateRowsCount b)"
      "acc_inv 1 [AStr (bld_leafHubName b)] (map (\<lambda>k. [AStr k]) D) (deleteBatchItems b) (deleteArgs b) (deleteRowsCount b)"
    using assms(1) by (simp_all add: base_inv_def)
  then have items: "list_all flushed_ok (insertBatchItems b)" "list_all flushed_ok (updateBatchItems b)" "list_all flushed_ok (deleteBatchItems b)"
    and lens: "length (insertArgs b) < maxColumnsUpdateInStatement" "length (updateArgs b) < maxColumnsUpdateInStatement"
      "length (deleteArgs b) < maxColumnsUpdateInStatement" "length (deleteArgs b) = Suc (deleteRowsCount b)"
    by (simp_all add: acc_inv_def)
  consider "(q, args) \<in> set (queueItems (insertBatchItems b)) \<union> set (queueItems (updateBatchItems b)) \<union> set (queueItems (deleteBatchItems b))"
    | "q = generateDeleteStatement b" "args = deleteArgs b" | "q = generateInsertStatement b" "args = insertArgs b"
    | "q = generateUpdateStatement (generateUpdate b) b" "args = updateArgs b"
    using assms(2) by (auto simp: base_build_def split: if_splits)
  then show ?thesis
    by cases (use items queued_items lens acc_inv_columns(1) [OF acc(1)] acc_inv_columns(1) [OF acc(2)] in
      \<open>auto simp: generateDeleteStatement_def generateInsertStatement_def placeholders_generateUpdateStatement\<close>)
qed

text \<open>
  C39. Whatever rows the compliance builder is asked to insert, update and delete, in whatever
  order, each statement of the batch it builds either has exactly as many arguments as
  placeholders, fewer than 65536 unless it deletes single clusters, or it is a statement that was
  flushed early: then it has one argument, a slice with the arguments its placeholders, at least
  two, refer to.
\<close>

theorem policies_Build_statements:
  assumes "(q, args) \<in> set (policies_Build ord (run_policy ops (NewPoliciesBatchBuilder schema tableName hub)))"
    and "\<And>ks. set (ord ks) = set ks"
  shows "length args = placeholders q \<and> (deletes_clusters q \<or> length args < 65536)
    \<or> (\<exists>slc. args = [ASlice slc] \<and> length slc = placeholders q \<and> 1 < placeholders q \<and> placeholders q < 65536)"
proof -
  let ?b = "run_policy ops (NewPoliciesBatchBuilder schema tableName hub)"
  have inv: "policies_inv schema tableName hub ops ?b"
    using run_policy_inv [OF NewPoliciesBatchBuilder_inv, of schema tableName hub ops] by simp
  then have base: "base_inv 5 3 (gather (insertedRow hub) ops) (gather (policyRow hub) ops) (gather deletedPolicy ops) (pb_base ?b)"
    and acc: "acc_inv 4 [] (gather (clusterRow hub) ops) (updateBatchItems (pb_base ?b)) (updateClusterComplianceArgs ?b) (updateClusterComplianceRowsCount ?b)"
    by (simp_all add: policies_inv_def)
  consider "(q, args) \<in> set (base_build (pb_base ?b))"
    | p where "p \<in> set (ord (map fst (deleteClusterComplianceArgs ?b)))" "args = the (map_of (deleteClusterComplianceArgs ?b) p)"
        "q = generateDeleteClusterComplianceStatement args ?b"
    | "q = generateUpdateClusterComplianceStatement ?b" "args = updateClusterComplianceArgs ?b"
    using assms(1) by (auto simp: policies_Build_def Let_def split: if_splits)
  then show ?thesis
  proof cases
    case 1
    then show ?thesis
      using base_build_statement [OF base] unfolding maxColumnsUpdateInStatement_def by blast
  next
    case (2 p)
    then obtain v where "map_of (deleteClusterComplianceArgs ?b) p = Some v"
      using assms(2) by (fastforce dest: weak_map_of_SomeI)
    then show ?thesis
      using 2 inv by (auto simp: policies_inv_def generateDeleteClusterComplianceStatement_def
          deleteClusterCompliancePrefixArgsCount_def split: if_splits)
  next
    case 3
    then show ?thesis
      using acc_inv_columns(1) [OF acc] acc
      by (simp add: generateUpdateClusterComplianceStatement_def acc_inv_def maxColumnsUpdateInStatement_def)
  qed
qed

lemmas builder_defs =
  run_policy_def NewPoliciesBatchBuilder_def newBaseBatchBuilder_def policies_Build_def base_build_def queueItems_def
  policies_Insert_def UpdateClusterCompliance_def UpdatePolicyCompliance_def DeletePolicy_def DeleteClusterStatus_def
  base_insert_def base_update_def base_delete_def generateDeleteClusterComplianceStatement_def
  deleteClusterCompliancePrefixArgsCount_def clusterComplianceUpdateArgsCount_def maxColumnsUpdateInStatement_def Let_def

definition sample_ops :: "policy_op list" where
  "sample_ops = [PInsert ''p1'' ''c1'' ''compliant'', PDeleteCluster ''p1'' ''c2'', PUpdateCluster ''p1'' ''c3'' ''unknown'']"

theorem policies_Build_statements_witness:
  "length [AStr ''p1'', AStr ''hub1'', AStr ''c2''] = placeholders (DeleteClustersQuery ''status'' ''compliance'' 1)"
proof -
  have "(DeleteClustersQuery ''status'' ''compliance'' 1, [AStr ''p1'', AStr ''hub1'', AStr ''c2''])
      \<in> set (policies_Build id (run_policy sample_ops (NewPoliciesBatchBuilder ''status'' ''compliance'' ''hub1'')))"
    by (simp add: sample_ops_def builder_defs)
  from policies_Build_statements [OF this] show ?thesis
    by auto
qed

text \<open>A connection that executes the batches that can be executed and refuses the others.\<close>

definition sample_conn :: conn where
  "sample_conn = \<lparr>pool_SendBatch = (\<lambda>batch d. case exec_batch batch d of None \<Rightarrow> ([''refused''], d) | Some d' \<Rightarrow> ([], d')),
     pool_ExecFails = (\<lambda>d. False), rows_delivered = None, scan_fails = False\<rparr>"

lemma sample_conn_ok: "conn_ok sample_conn"
  by (auto simp: conn_ok_def sample_conn_def split: option.splits)

lemma SendBatch_refused:
  assumes "conn_ok c" and "exec_batch batch d = None" and "SendBatch c batch d = (err, d')"
  shows "err \<noteq> None \<and> d' = d"
proof -
  obtain errs d1 where r: "pool_SendBatch c batch d = (errs, d1)"
    by fastforce
  have "batch \<noteq> []"
    using assms(2) by auto
  then show ?thesis
    using assms r unfolding conn_ok_def SendBatch_def by (auto split: if_splits)
qed

lemma SendBatch_done:
  assumes "conn_ok c" and "SendBatch c batch d = (None, d')"
  shows "exec_batch batch d = Some d'"
  using assms unfolding conn_ok_def SendBatch_def by (auto split: if_splits prod.splits)

lemma SendBatch_failed:
  assumes "conn_ok c" and "SendBatch c batch d = (Some e, d')"
  shows "d' = d"
  using assms unfolding conn_ok_def SendBatch_def by (auto split: if_splits prod.splits)

text \<open>
  A batch that inserts 13108 compliance rows or more (five columns each, so the builder has to
  flush a statement at the limit of 65536 arguments) never gets through: sending it always reports
  an error and leaves the database as it was. A leaf hub with that many new compliance rows is
  never synchronized.
\<close>

theorem oversized_insert_refused:
  assumes "conn_ok c" and "65536 \<le> 5 * length (gather (inserted hub) ops)"
    and "SendBatch c (policies_Build ord (run_policy ops (NewPoliciesBatchBuilder schema tableName hub))) d = (err, d')"
  shows "err \<noteq> None \<and> d' = d"
proof -
  let ?b = "run_policy ops (NewPoliciesBatchBuilder schema tableName hub)"
  have base: "base_inv 5 3 (gather (insertedRow hub) ops) (gather (policyRow hub) ops) (gather deletedPolicy ops) (pb_base ?b)"
    using run_policy_inv [OF NewPoliciesBatchBuilder_inv, of schema tableName hub ops] by (simp add: policies_inv_def)
  have rows: "length (concat (map to_row rs)) = 5 * length rs" for rs
    by (induction rs) (auto simp: to_row_def crow_def)
  have acc: "acc_inv 5 [] (gather (insertedRow hub) ops) (insertBatchItems (pb_base ?b)) (insertArgs (pb_base ?b)) (insertRowsCount (pb_base ?b))"
    using base by (simp add: base_inv_def)
  have "insertBatchItems (pb_base ?b) \<noteq> []"
    by (rule acc_inv_flushed [OF acc])
       (use assms(2) rows in \<open>simp add: gather_rows(1) maxColumnsUpdateInStatement_def del: concat_map_singleton\<close>)
  then have "exec_batch (policies_Build ord ?b) d = None"
    using base_build_flushed [OF base] by (simp add: policies_Build_def flushed_def)
  then show ?thesis
    by (rule SendBatch_refused [OF assms(1) _ assms(3)])
qed

theorem oversized_insert_refused_witness:
  "fst (SendBatch sample_conn (policies_Build id (run_policy (replicate 13108 (PInsert ''p1'' ''c1'' ''compliant''))
      (NewPoliciesBatchBuilder ''status'' ''compliance'' ''hub1''))) (\<lambda>_. [])) \<noteq> None"
proof -
  have "length (gather (inserted ''hub1'') (replicate n (PInsert p c s))) = n" for n p c s
    by (induction n) simp_all
  then have "65536 \<le> 5 * length (gather (inserted ''hub1'') (replicate 13108 (PInsert ''p1'' ''c1'' ''compliant'')))"
    by simp
  from oversized_insert_refused [OF sample_conn_ok this prod.collapse [symmetric], of id "''status''" "''compliance''" "\<lambda>_. []"]
  show ?thesis
    by blast
qed

end
