(* ===== verification/GH_DBSync.thy ===== *)
theory GH_DBSync
  imports GH_Batch
begin

text \<open>
  The database client (\<open>db/postgresql/postgresql.go\<close>, \<open>db/policy_cluster_sets.go\<close>) and the
  handlers of the syncers under \<open>syncer/dbsyncer\<close>, which bring the tables of a leaf hub to the
  state a bundle reports. A handler yields the error it returns and the database it leaves;
  \<open>None\<close> is a panic.
\<close>

section \<open>Sets of clusters by compliance\<close>

text \<open>The values of the Go constants \<open>Compliant\<close>, \<open>NonCompliant\<close> and \<open>Unknown\<close>.\<close>

fun status_text :: "ComplianceStatus \<Rightarrow> string" where
  "status_text NonCompliant = ''non_compliant''"
| "status_text Compliant = ''compliant''"
| "status_text Unknown = ''unknown''"

type_synonym PolicyClustersSets = "(string, string goset) gomap"

definition NewPolicyClusterSets :: PolicyClustersSets where
  "NewPolicyClusterSets = [(status_text Compliant, []), (status_text NonCompliant, []), (status_text Unknown, [])]"

text \<open>Adding to the set of a status that is not a key calls a method of a nil interface.\<close>

definition AddCluster :: "string \<Rightarrow> string \<Rightarrow> PolicyClustersSets \<Rightarrow> PolicyClustersSets option" where
  "AddCluster clusterName complianceStatus sets =
     (case map_of sets complianceStatus of
        None \<Rightarrow> None
      | Some clusters \<Rightarrow> Some (AList.update complianceStatus (set_add clusterName clusters) sets))"

definition GetClusters :: "ComplianceStatus \<Rightarrow> PolicyClustersSets \<Rightarrow> string goset" where
  "GetClusters complianceStatus sets = (case map_of sets (status_text complianceStatus) of None \<Rightarrow> [] | Some s \<Rightarrow> s)"

definition GetAllClusters :: "PolicyClustersSets \<Rightarrow> string goset" where
  "GetAllClusters sets = set_union (GetClusters Compliant sets) (set_union (GetClusters NonCompliant sets) (GetClusters Unknown sets))"

section \<open>Reading the tables\<close>

text \<open>The columns of a row that a \<open>SELECT\<close> asks for, scanned into strings.\<close>

fun scan_str :: "argument \<Rightarrow> string" where
  "scan_str (AStr s) = s"
| "scan_str _ = ''''"

definition select_rows :: "database \<Rightarrow> string \<Rightarrow> string \<Rightarrow> string \<Rightarrow> (row \<Rightarrow> bool) \<Rightarrow> row list" where
  "select_rows d schema tableName leafHubName cond =
     filter (\<lambda>r. field_at (columns (schema, tableName)) ''leaf_hub_name'' r = AStr leafHubName \<and> cond r) (d (schema, tableName))"

definition scan_columns :: "string \<Rightarrow> string \<Rightarrow> expr list \<Rightarrow> row \<Rightarrow> string list" where
  "scan_columns schema tableName es r = map (\<lambda>e. scan_str (eval_expr (columns (schema, tableName)) e r)) es"

fun buildComplianceClustersSetsFromRows ::
  "string list list \<Rightarrow> (string, PolicyClustersSets) gomap \<Rightarrow> (string, PolicyClustersSets) gomap option" where
  "buildComplianceClustersSetsFromRows ([policyID, clusterName, complianceStatus] # rows) result =
     (let sets = (case map_of result policyID of None \<Rightarrow> NewPolicyClusterSets | Some sets \<Rightarrow> sets) in
      case AddCluster clusterName complianceStatus sets of
        None \<Rightarrow> None
      | Some sets' \<Rightarrow> buildComplianceClustersSetsFromRows rows (AList.update policyID sets' result))"
| "buildComplianceClustersSetsFromRows _ result = Some result"

definition GetComplianceStatusByLeafHub ::
  "conn \<Rightarrow> database \<Rightarrow> string \<Rightarrow> string \<Rightarrow> string \<Rightarrow> (db_error + (string, PolicyClustersSets) gomap) option" where
  "GetComplianceStatusByLeafHub c d schema tableName leafHubName =
     (case scanRows c (select_rows d schema tableName leafHubName (\<lambda>_. True)) of
        Inl err \<Rightarrow> Some (Inl err)
      | Inr rows \<Rightarrow> map_option Inr (buildComplianceClustersSetsFromRows
          (map (scan_columns schema tableName [Column ''id'', Column ''cluster_name'', Column ''compliance'']) rows) []))"

definition GetNonCompliantClustersByLeafHub ::
  "conn \<Rightarrow> database \<Rightarrow> string \<Rightarrow> string \<Rightarrow> string \<Rightarrow> (db_error + (string, PolicyClustersSets) gomap) option" where
  "GetNonCompliantClustersByLeafHub c d schema tableName leafHubName =
     (case scanRows c (select_rows d schema tableName leafHubName
              (\<lambda>r. field_at (columns (schema, tableName)) ''compliance'' r \<noteq> AStr ''compliant'')) of
        Inl err \<Rightarrow> Some (Inl err)
      | Inr rows \<Rightarrow> map_option Inr (buildComplianceClustersSetsFromRows
          (map (scan_columns schema tableName [Column ''id'', Column ''cluster_name'', Column ''compliance'']) rows) []))"

fun buildKeyValueMapFromRows :: "string list list \<Rightarrow> (string, string) gomap \<Rightarrow> (string, string) gomap" where
  "buildKeyValueMapFromRows ([key, val] # rows) result = buildKeyValueMapFromRows rows (AList.update key val result)"
| "buildKeyValueMapFromRows _ result = result"

definition readKeyValues ::
  "conn \<Rightarrow> database \<Rightarrow> string \<Rightarrow> string \<Rightarrow> string \<Rightarrow> expr \<Rightarrow> db_error + (string, string) gomap" where
  "readKeyValues c d schema tableName leafHubName key =
     (case scanRows c (select_rows d schema tableName leafHubName (\<lambda>_. True)) of
        Inl err \<Rightarrow> Inl err
      | Inr rows \<Rightarrow> Inr (buildKeyValueMapFromRows (map (scan_columns schema tableName [key, PayloadMeta ''resourceVersion'']) rows) []))"

definition GetManagedClustersByLeafHub :: "conn \<Rightarrow> database \<Rightarrow> string \<Rightarrow> string \<Rightarrow> string \<Rightarrow> db_error + (string, string) gomap" where
  "GetManagedClustersByLeafHub c d schema tableName leafHubName = readKeyValues c d schema tableName leafHubName (PayloadMeta ''name'')"

definition GetResourceIDToVersionByLeafHub :: "conn \<Rightarrow> database \<Rightarrow> string \<Rightarrow> string \<Rightarrow> string \<Rightarrow> db_error + (string, string) gomap" where
  "GetResourceIDToVersionByLeafHub c d schema tableName leafHubName = readKeyValues c d schema tableName leafHubName (Column ''id'')"

definition GetLocalResourceIDToVersionByLeafHub :: "conn \<Rightarrow> database \<Rightarrow> string \<Rightarrow> string \<Rightarrow> string \<Rightarrow> db_error + (string, string) gomap" where
  "GetLocalResourceIDToVersionByLeafHub c d schema tableName leafHubName = readKeyValues c d schema tableName leafHubName (PayloadMeta ''uid'')"

definition GetPolicyIDsByLeafHub :: "conn \<Rightarrow> database \<Rightarrow> string \<Rightarrow> string \<Rightarrow> string \<Rightarrow> db_error + string goset" where
  "GetPolicyIDsByLeafHub c d schema tableName leafHubName =
     (case scanRows c (remdups (map (\<lambda>r. [field_at (columns (schema, tableName)) ''id'' r])
              (select_rows d schema tableName leafHubName (\<lambda>_. True)))) of
        Inl err \<Rightarrow> Inl err
      | Inr rows \<Rightarrow> Inr (fold (\<lambda>r. set_add (scan_str (hd r))) rows []))"

section \<open>Single statements\<close>

text \<open>A failing \<open>Exec\<close> or \<open>QueryRow\<close> leaves the database as it is.\<close>

definition InsertOrUpdateAggregatedPolicyCompliance ::
  "conn \<Rightarrow> string \<Rightarrow> string \<Rightarrow> string \<Rightarrow> string \<Rightarrow> int \<Rightarrow> int \<Rightarrow> database \<Rightarrow> db_error option \<times> database" where
  "InsertOrUpdateAggregatedPolicyCompliance c schema tableName leafHubName policyID appliedClusters nonCompliantClusters d =
     (if pool_ExecFails c d then (Some errExec, d)
      else
        (let t = d (schema, tableName);
             mine = (\<lambda>r. field_at (columns (schema, tableName)) ''leaf_hub_name'' r = AStr leafHubName
                        \<and> field_at (columns (schema, tableName)) ''id'' r = AStr policyID)
         in if (\<exists>r \<in> set t. mine r)
            then (None, d((schema, tableName) := map (\<lambda>r. if mine r
                    then r[column_index (columns (schema, tableName)) ''applied_clusters'' := AInt appliedClusters,
                           column_index (columns (schema, tableName)) ''non_compliant_clusters'' := AInt nonCompliantClusters]
                    else r) t))
            else (None, d((schema, tableName) := t @ [[AStr policyID, AStr leafHubName, AInt appliedClusters, AInt nonCompliantClusters]]))))"

definition DeleteAllComplianceRows :: "conn \<Rightarrow> string \<Rightarrow> string \<Rightarrow> string \<Rightarrow> string \<Rightarrow> database \<Rightarrow> db_error option \<times> database" where
  "DeleteAllComplianceRows c schema tableName leafHubName policyID d =
     (if pool_ExecFails c d then (Some errExec, d)
      else (None, d((schema, tableName) :=
              filter (\<lambda>r. \<not> (field_at (columns (schema, tableName)) ''leaf_hub_name'' r = AStr leafHubName
                            \<and> field_at (columns (schema, tableName)) ''id'' r = AStr policyID)) (d (schema, tableName)))))"

text \<open>The heartbeat table has one row per leaf hub: its name and the time of the last message.\<close>

definition UpdateHeartbeat :: "conn \<Rightarrow> string \<Rightarrow> string \<Rightarrow> string \<Rightarrow> string \<Rightarrow> database \<Rightarrow> db_error option \<times> database" where
  "UpdateHeartbeat c now schema tableName leafHubName d =
     (if pool_ExecFails c d then (Some errExec, d)
      else
        (let t = d (schema, tableName) in
         if (\<exists>r \<in> set t. hd r = AStr leafHubName)
         then (None, d((schema, tableName) := map (\<lambda>r. if hd r = AStr leafHubName then [AStr leafHubName, AStr now] else r) t))
         else (None, d((schema, tableName) := t @ [[AStr leafHubName, AStr now]]))))"

section \<open>Policies\<close>

fun specificComplianceStep ::
  "string \<Rightarrow> string goset \<Rightarrow> ComplianceStatus \<Rightarrow> string \<Rightarrow> PoliciesBatchBuilder \<times> string goset \<Rightarrow> PoliciesBatchBuilder \<times> string goset" where
  "specificComplianceStep policyID typedClustersFromDB status clusterName (b, allClustersFromDB) =
     (if clusterName \<notin> set allClustersFromDB
      then (policies_Insert policyID clusterName ErrorNone (status_text status) b, allClustersFromDB)
      else (if clusterName \<notin> set typedClustersFromDB then UpdateClusterCompliance policyID clusterName (status_text status) b else b,
            set_remove clusterName allClustersFromDB))"

definition handleClustersPerPolicyWithSpecificCompliance ::
  "string \<Rightarrow> string list \<Rightarrow> string goset \<Rightarrow> ComplianceStatus \<Rightarrow> PoliciesBatchBuilder \<times> string goset \<Rightarrow> PoliciesBatchBuilder \<times> string goset" where
  "handleClustersPerPolicyWithSpecificCompliance policyID typedClustersFromBundle typedClustersFromDB status st =
     fold (specificComplianceStep policyID typedClustersFromDB status) typedClustersFromBundle st"

definition handleClusterPerPolicy ::
  "(string list \<Rightarrow> string list) \<Rightarrow> PolicyGenericComplianceStatus \<Rightarrow> PolicyClustersSets \<Rightarrow> PoliciesBatchBuilder \<Rightarrow> PoliciesBatchBuilder" where
  "handleClusterPerPolicy ord clustersFromBundle clustersFromDB b =
     (let st0 = (b, GetAllClusters clustersFromDB);
          st1 = handleClustersPerPolicyWithSpecificCompliance (PolicyID clustersFromBundle)
                  (CompliantClusters clustersFromBundle) (GetClusters Compliant clustersFromDB) Compliant st0;
          st2 = handleClustersPerPolicyWithSpecificCompliance (PolicyID clustersFromBundle)
                  (NonCompliantClusters clustersFromBundle) (GetClusters NonCompliant clustersFromDB) NonCompliant st1;
          (b3, allClustersFromDB) = handleClustersPerPolicyWithSpecificCompliance (PolicyID clustersFromBundle)
                  (UnknownComplianceClusters clustersFromBundle) (GetClusters Unknown clustersFromDB) Unknown st2
      in fold (\<lambda>clusterName. DeleteClusterStatus (PolicyID clustersFromBundle) clusterName) (ord allClustersFromDB) b3)"

fun clustersPerPolicyStep ::
  "(string list \<Rightarrow> string list) \<Rightarrow> bundle_object \<Rightarrow> PoliciesBatchBuilder \<times> (string, PolicyClustersSets) gomap
   \<Rightarrow> PoliciesBatchBuilder \<times> (string, PolicyClustersSets) gomap" where
  "clustersPerPolicyStep ord (GenericComplianceObject clustersPerPolicy) (b, complianceRowsFromDB) =
     (let clustersFromDB = (case map_of complianceRowsFromDB (PolicyID clustersPerPolicy) of
            None \<Rightarrow> NewPolicyClusterSets | Some sets \<Rightarrow> sets)
      in (handleClusterPerPolicy ord clustersPerPolicy clustersFromDB b,
          AList.delete (PolicyID clustersPerPolicy) complianceRowsFromDB))"
| "clustersPerPolicyStep ord _ st = st"

definition handleClustersPerPolicyBundle ::
  "(string list \<Rightarrow> string list) \<Rightarrow> conn \<Rightarrow> string \<Rightarrow> string \<Rightarrow> Bundle \<Rightarrow> database \<Rightarrow> (db_error option \<times> database) option" where
  "handleClustersPerPolicyBundle ord c schema tableName bndl d = do {
     fetched \<leftarrow> GetComplianceStatusByLeafHub c d schema tableName (GetLeafHubName bndl);
     case fetched of
       Inl err \<Rightarrow> Some (Some err, d)
     | Inr complianceRowsFromDB \<Rightarrow>
         (let (b, left) = fold (clustersPerPolicyStep ord) (GetObjects bndl)
                (NewPoliciesBatchBuilder schema tableName (GetLeafHubName bndl), complianceRowsFromDB);
              b' = fold DeletePolicy (ord (map fst left)) b
          in Some (SendBatch c (policies_Build ord b') d))
   }"

definition handlePolicyCompleteComplianceStatus ::
  "(string list \<Rightarrow> string list) \<Rightarrow> PolicyCompleteComplianceStatus \<Rightarrow> string goset \<Rightarrow> string goset \<Rightarrow> PoliciesBatchBuilder \<Rightarrow> PoliciesBatchBuilder" where
  "handlePolicyCompleteComplianceStatus ord status nonCompliantClustersFromDB unknownClustersFromDB b =
     (let step = (\<lambda>typed s clusterName (b, left).
            (if clusterName \<notin> set typed then UpdateClusterCompliance (cc_PolicyID status) clusterName (status_text s) b else b,
             set_remove clusterName left));
          st1 = fold (step nonCompliantClustersFromDB NonCompliant) (cc_NonCompliantClusters status)
                  (b, set_union nonCompliantClustersFromDB unknownClustersFromDB);
          (b2, left) = fold (step unknownClustersFromDB Unknown) (cc_UnknownComplianceClusters status) st1
      in fold (\<lambda>clusterName. UpdateClusterCompliance (cc_PolicyID status) clusterName (status_text Compliant)) (ord left) b2)"

fun completeComplianceStep ::
  "(string list \<Rightarrow> string list) \<Rightarrow> bundle_object \<Rightarrow> PoliciesBatchBuilder \<times> (string, PolicyClustersSets) gomap
   \<Rightarrow> PoliciesBatchBuilder \<times> (string, PolicyClustersSets) gomap" where
  "completeComplianceStep ord (CompleteComplianceObject status) (b, nonCompliantRowsFromDB) =
     (let sets = (case map_of nonCompliantRowsFromDB (cc_PolicyID status) of None \<Rightarrow> NewPolicyClusterSets | Some sets \<Rightarrow> sets)
      in (handlePolicyCompleteComplianceStatus ord status (GetClusters NonCompliant sets) (GetClusters Unknown sets) b,
          AList.delete (cc_PolicyID status) nonCompliantRowsFromDB))"
| "completeComplianceStep ord _ st = st"

definition handleCompleteComplianceBundle ::
  "(string list \<Rightarrow> string list) \<Rightarrow> conn \<Rightarrow> string \<Rightarrow> string \<Rightarrow> Bundle \<Rightarrow> database \<Rightarrow> (db_error option \<times> database) option" where
  "handleCompleteComplianceBundle ord c schema tableName bndl d = do {
     fetched \<leftarrow> GetNonCompliantClustersByLeafHub c d schema tableName (GetLeafHubName bndl);
     case fetched of
       Inl err \<Rightarrow> Some (Some err, d)
     | Inr nonCompliantRowsFromDB \<Rightarrow>
         (let (b, left) = fold (completeComplianceStep ord) (GetObjects bndl)
                (NewPoliciesBatchBuilder schema tableName (GetLeafHubName bndl), nonCompliantRowsFromDB);
              b' = fold (\<lambda>policyID. UpdatePolicyCompliance policyID (status_text Compliant)) (ord (map fst left)) b
          in Some (SendBatch c (policies_Build ord b') d))
   }"

definition handleDeltaPolicyComplianceStatus :: "PolicyGenericComplianceStatus \<Rightarrow> PoliciesBatchBuilder \<Rightarrow> PoliciesBatchBuilder" where
  "handleDeltaPolicyComplianceStatus status b =
     (let upd = (\<lambda>s clusterName. UpdateClusterCompliance (PolicyID status) clusterName (status_text s)) in
      fold (upd Unknown) (UnknownComplianceClusters status)
        (fold (upd NonCompliant) (NonCompliantClusters status)
          (fold (upd Compliant) (CompliantClusters status) b)))"

fun deltaComplianceStep :: "bundle_object \<Rightarrow> PoliciesBatchBuilder \<Rightarrow> PoliciesBatchBuilder" where
  "deltaComplianceStep (GenericComplianceObject status) b = handleDeltaPolicyComplianceStatus status b"
| "deltaComplianceStep _ b = b"

definition handleDeltaComplianceBundle ::
  "(string list \<Rightarrow> string list) \<Rightarrow> conn \<Rightarrow> string \<Rightarrow> string \<Rightarrow> Bundle \<Rightarrow> database \<Rightarrow> db_error option \<times> database" where
  "handleDeltaComplianceBundle ord c schema tableName bndl d =
     SendBatch c (policies_Build ord (fold deltaComplianceStep (GetObjects bndl)
       (NewPoliciesBatchBuilder schema tableName (GetLeafHubName bndl)))) d"

text \<open>The loops over the aggregated compliance return at the first error.\<close>

fun minimalLoop :: "conn \<Rightarrow> string \<Rightarrow> bundle_object list \<Rightarrow> string goset \<Rightarrow> database \<Rightarrow> db_error option \<times> string goset \<times> database" where
  "minimalLoop c leafHubName [] policyIDsFromDB d = (None, policyIDsFromDB, d)"
| "minimalLoop c leafHubName (MinimalComplianceObject m # objs) policyIDsFromDB d =
     (case InsertOrUpdateAggregatedPolicyCompliance c StatusSchema MinimalComplianceTable leafHubName (min_PolicyID m)
             (min_AppliedClusters m) (min_NonCompliantClusters m) d of
        (Some err, d') \<Rightarrow> (Some err, policyIDsFromDB, d')
      | (None, d') \<Rightarrow> minimalLoop c leafHubName objs (set_remove (min_PolicyID m) policyIDsFromDB) d')"
| "minimalLoop c leafHubName (_ # objs) policyIDsFromDB d = minimalLoop c leafHubName objs policyIDsFromDB d"

fun deleteLoop :: "conn \<Rightarrow> string \<Rightarrow> string list \<Rightarrow> database \<Rightarrow> db_error option \<times> database" where
  "deleteLoop c leafHubName [] d = (None, d)"
| "deleteLoop c leafHubName (policyID # ps) d =
     (case DeleteAllComplianceRows c StatusSchema MinimalComplianceTable leafHubName policyID d of
        (Some err, d') \<Rightarrow> (Some err, d')
      | (None, d') \<Rightarrow> deleteLoop c leafHubName ps d')"

definition handleMinimalComplianceBundle ::
  "(string list \<Rightarrow> string list) \<Rightarrow> conn \<Rightarrow> Bundle \<Rightarrow> database \<Rightarrow> db_error option \<times> database" where
  "handleMinimalComplianceBundle ord c bndl d =
     (case GetPolicyIDsByLeafHub c d StatusSchema MinimalComplianceTable (GetLeafHubName bndl) of
        Inl err \<Rightarrow> (Some err, d)
      | Inr policyIDsFromDB \<Rightarrow>
          (case minimalLoop c (GetLeafHubName bndl) (GetObjects bndl) policyIDsFromDB d of
             (Some err, _, d') \<Rightarrow> (Some err, d')
           | (None, left, d') \<Rightarrow> deleteLoop c (GetLeafHubName bndl) (ord left) d'))"

section \<open>Resources\<close>

definition getGenericResourceUID :: "k8s_object \<Rightarrow> string" where
  "getGenericResourceUID resourceObject =
     (case map_of (obj_annotations resourceObject) OriginOwnerReferenceAnnotation of
        Some originOwnerReference \<Rightarrow> originOwnerReference
      | None \<Rightarrow> obj_uid resourceObject)"

text \<open>The objects that implement \<open>metav1.Object\<close>.\<close>

fun as_meta :: "bundle_object \<Rightarrow> k8s_object option" where
  "as_meta (ManagedClusterObject obj) = Some obj"
| "as_meta (MetaObject obj) = Some obj"
| "as_meta _ = None"

definition resourceStep ::
  "bundle_object \<Rightarrow> baseBatchBuilder \<times> (string, string) gomap \<Rightarrow> baseBatchBuilder \<times> (string, string) gomap" where
  "resourceStep object st =
     (case as_meta object of
        None \<Rightarrow> st
      | Some specificObj \<Rightarrow>
          (let uid = getGenericResourceUID specificObj; (b, idToVersionMapFromDB) = st in
           case map_of idToVersionMapFromDB uid of
             None \<Rightarrow> (generic_Insert uid specificObj b, idToVersionMapFromDB)
           | Some resourceVersionFromDB \<Rightarrow>
               (if obj_resourceVersion specificObj = resourceVersionFromDB then b else generic_Update uid specificObj b,
                AList.delete uid idToVersionMapFromDB)))"

definition handleResourcesBundle ::
  "(string list \<Rightarrow> string list) \<Rightarrow> conn \<Rightarrow> string \<Rightarrow> string \<Rightarrow> Bundle \<Rightarrow> database \<Rightarrow> db_error option \<times> database" where
  "handleResourcesBundle ord c schema tableName bndl d =
     (case GetResourceIDToVersionByLeafHub c d schema tableName (GetLeafHubName bndl) of
        Inl err \<Rightarrow> (Some err, d)
      | Inr idToVersionMapFromDB \<Rightarrow>
          (let (b, left) = fold resourceStep (GetObjects bndl)
                 (NewGenericBatchBuilder schema tableName (GetLeafHubName bndl), idToVersionMapFromDB)
           in SendBatch c (base_build (fold generic_Delete (ord (map fst left)) b)) d))"

definition localObjectStep ::
  "bundle_object \<Rightarrow> baseBatchBuilder \<times> (string, string) gomap \<Rightarrow> baseBatchBuilder \<times> (string, string) gomap" where
  "localObjectStep object st =
     (case as_meta object of
        None \<Rightarrow> st
      | Some specificObj \<Rightarrow>
          (let uid = obj_uid specificObj; (b, resourceIDToVersionMapFromDB) = st in
           case map_of resourceIDToVersionMapFromDB uid of
             None \<Rightarrow> (genericLocal_Insert specificObj b, resourceIDToVersionMapFromDB)
           | Some resourceVersionFromDB \<Rightarrow>
               (if obj_resourceVersion specificObj = resourceVersionFromDB then b else genericLocal_Update specificObj b,
                AList.delete uid resourceIDToVersionMapFromDB)))"

definition handleLocalObjectsBundle ::
  "(string list \<Rightarrow> string list) \<Rightarrow> conn \<Rightarrow> string \<Rightarrow> string \<Rightarrow> Bundle \<Rightarrow> database \<Rightarrow> db_error option \<times> database" where
  "handleLocalObjectsBundle ord c schema tableName bndl d =
     (case GetLocalResourceIDToVersionByLeafHub c d schema tableName (GetLeafHubName bndl) of
        Inl err \<Rightarrow> (Some err, d)
      | Inr resourceIDToVersionMapFromDB \<Rightarrow>
          (let (b, left) = fold localObjectStep (GetObjects bndl)
                 (NewGenericLocalBatchBuilder schema tableName (GetLeafHubName bndl), resourceIDToVersionMapFromDB)
           in SendBatch c (base_build (fold genericLocal_Delete (ord (map fst left)) b)) d))"

fun managedClusterStep ::
  "bundle_object \<Rightarrow> baseBatchBuilder \<times> (string, string) gomap \<Rightarrow> baseBatchBuilder \<times> (string, string) gomap" where
  "managedClusterStep (ManagedClusterObject cluster) (b, clustersFromDB) =
     (case map_of clustersFromDB (obj_name cluster) of
        None \<Rightarrow> (managedClusters_Insert cluster ErrorNone b, clustersFromDB)
      | Some resourceVersionFromDB \<Rightarrow>
          (if obj_resourceVersion cluster = resourceVersionFromDB then b else managedClusters_Update (obj_name cluster) cluster b,
           AList.delete (obj_name cluster) clustersFromDB))"
| "managedClusterStep _ st = st"

definition handleManagedClustersBundle ::
  "(string list \<Rightarrow> string list) \<Rightarrow> conn \<Rightarrow> Bundle \<Rightarrow> database \<Rightarrow> db_error option \<times> database" where
  "handleManagedClustersBundle ord c bndl d =
     (case GetManagedClustersByLeafHub c d StatusSchema ManagedClustersTableName (GetLeafHubName bndl) of
        Inl err \<Rightarrow> (Some err, d)
      | Inr clustersFromDB \<Rightarrow>
          (let (b, left) = fold managedClusterStep (GetObjects bndl)
                 (NewManagedClustersBatchBuilder StatusSchema ManagedClustersTableName (GetLeafHubName bndl), clustersFromDB)
           in SendBatch c (base_build (fold managedClusters_Delete (ord (map fst left)) b)) d))"

definition handleControlInfoBundle :: "conn \<Rightarrow> string \<Rightarrow> Bundle \<Rightarrow> database \<Rightarrow> db_error option \<times> database" where
  "handleControlInfoBundle c now bndl d = UpdateHeartbeat c now StatusSchema LeafHubHeartbeatsTableName (GetLeafHubName bndl) d"

text \<open>The handler a registration names.\<close>

fun runHandler ::
  "(string list \<Rightarrow> string list) \<Rightarrow> conn \<Rightarrow> string \<Rightarrow> BundleHandler \<Rightarrow> Bundle \<Rightarrow> database \<Rightarrow> (db_error option \<times> database) option" where
  "runHandler ord c now handleManagedClusters bndl d = Some (handleManagedClustersBundle ord c bndl d)"
| "runHandler ord c now (handleClustersPerPolicy schema tableName) bndl d = handleClustersPerPolicyBundle ord c schema tableName bndl d"
| "runHandler ord c now (handleCompleteCompliance schema tableName) bndl d = handleCompleteComplianceBundle ord c schema tableName bndl d"
| "runHandler ord c now (handleDeltaCompliance schema tableName) bndl d = Some (handleDeltaComplianceBundle ord c schema tableName bndl d)"
| "runHandler ord c now handleMinimalCompliance bndl d = Some (handleMinimalComplianceBundle ord c bndl d)"
| "runHandler ord c now (handleResources schema tableName) bndl d = Some (handleResourcesBundle ord c schema tableName bndl d)"
| "runHandler ord c now (handleLocalObjects schema tableName) bndl d = Some (handleLocalObjectsBundle ord c schema tableName bndl d)"
| "runHandler ord c now handleControlInfo bndl d = Some (handleControlInfoBundle c now bndl d)"

end
