(* ===== verification/GH_PolicySync.thy ===== *)
theory GH_PolicySync
  imports GH_DBSync GH_BatchProps
begin

text \<open>
  The handlers of the compliance bundles, reduced to the operations they ask of the batch builder,
  and from there to their effect on the compliance table: after a handler returns without error
  the rows of the leaf hub are what the bundle reports.
\<close>

section \<open>Operations in a list\<close>

lemma run_policy_append [simp]: "run_policy (xs @ ys) b = run_policy ys (run_policy xs b)"
  by (simp add: run_policy_def)

lemma run_policy_Nil [simp]: "run_policy [] b = b"
  by (simp add: run_policy_def)

lemma run_policy_Cons: "run_policy (x # xs) b = run_policy xs (apply_policy x b)"
  by (simp add: run_policy_def)

lemma gather_mem:
  "(p, c, h, e, s) \<in> set (gather (inserted hub) ops) \<longleftrightarrow> h = hub \<and> e = ErrorNone \<and> PInsert p c s \<in> set ops"
  "c \<in> set (gather (deletedCluster p) ops) \<longleftrightarrow> PDeleteCluster p c \<in> set ops"
  "p \<in> set (gather deletedPolicy ops) \<longleftrightarrow> PDeletePolicy p \<in> set ops"
  "(k, s) \<in> set (gather policyUpdate ops) \<longleftrightarrow> PUpdatePolicy k s \<in> set ops"
  "((p, c), s) \<in> set (gather clusterUpdate ops) \<longleftrightarrow> PUpdateCluster p c s \<in> set ops"
proof -
  have "(p, c, h, e, s) \<in> set (inserted hub op) \<longleftrightarrow> h = hub \<and> e = ErrorNone \<and> op = PInsert p c s"
    "c \<in> set (deletedCluster p op) \<longleftrightarrow> op = PDeleteCluster p c"
    "p \<in> set (deletedPolicy op) \<longleftrightarrow> op = PDeletePolicy p"
    "(k, s) \<in> set (policyUpdate op) \<longleftrightarrow> op = PUpdatePolicy k s"
    "((p, c), s) \<in> set (clusterUpdate op) \<longleftrightarrow> op = PUpdateCluster p c s" for op
    by (cases op; auto)+
  then show "(p, c, h, e, s) \<in> set (gather (inserted hub) ops) \<longleftrightarrow> h = hub \<and> e = ErrorNone \<and> PInsert p c s \<in> set ops"
    "c \<in> set (gather (deletedCluster p) ops) \<longleftrightarrow> PDeleteCluster p c \<in> set ops"
    "p \<in> set (gather deletedPolicy ops) \<longleftrightarrow> PDeletePolicy p \<in> set ops"
    "(k, s) \<in> set (gather policyUpdate ops) \<longleftrightarrow> PUpdatePolicy k s \<in> set ops"
    "((p, c), s) \<in> set (gather clusterUpdate ops) \<longleftrightarrow> PUpdateCluster p c s \<in> set ops"
    by auto
qed

lemma compliance_effect_mem:
  "(p, c, h, e, s') \<in> set (compliance_effect hub ops rows) \<longleftrightarrow>
     (\<exists>s. ((p, c, h, e, s) \<in> set rows \<and> \<not> (h = hub \<and> PDeletePolicy p \<in> set ops) \<or> h = hub \<and> e = ErrorNone \<and> PInsert p c s \<in> set ops)
        \<and> \<not> (h = hub \<and> PDeleteCluster p c \<in> set ops) \<and> s' = (if h = hub then newStatus ops p c s else s))"
proof -
  have "(p, c, h, e, s') \<in> restate hub f ` S \<longleftrightarrow> (\<exists>s. (p, c, h, e, s) \<in> S \<and> s' = (if h = hub then f p c s else s))" for f S
    by (force simp: image_iff)
  then show ?thesis
    unfolding compliance_effect_def set_map set_filter set_append
    by (auto simp: gather_mem simp del: set_concat)
qed

text \<open>Rows of the other hubs stay, in their order.\<close>

fun row_hub :: "compliance_row \<Rightarrow> string" where
  "row_hub (p, c, h, e, s) = h"

lemma compliance_effect_others:
  "filter (\<lambda>r. row_hub r \<noteq> hub) (compliance_effect hub ops rows) = filter (\<lambda>r. row_hub r \<noteq> hub) rows"
proof -
  have ins: "filter (\<lambda>r. row_hub r \<noteq> hub) (gather (inserted hub) ops) = []"
    using gather_mem(1) by (fastforce simp: filter_empty_conv simp del: set_concat)
  have "filter (\<lambda>r. row_hub r \<noteq> hub) (map (restate hub f) rs) = filter (\<lambda>r. row_hub r \<noteq> hub) rs" for f rs
    by (induction rs) auto
  moreover have "filter (\<lambda>r. row_hub r \<noteq> hub) (filter (\<lambda>r. \<not> hits hub P r) rs) = filter (\<lambda>r. row_hub r \<noteq> hub) rs" for P rs
    by (induction rs) auto
  ultimately show ?thesis
    unfolding compliance_effect_def by (simp add: ins del: filter_filter)
qed

lemma newStatus_cluster:
  assumes "PUpdateCluster p c t \<in> set ops" and "\<And>t'. PUpdateCluster p c t' \<in> set ops \<Longrightarrow> t' = t"
  shows "newStatus ops p c s = t"
proof -
  have "map_of (gather clusterUpdate ops) (p, c) \<noteq> None"
    using assms(1) gather_mem(5) [of p c t ops] by (metis weak_map_of_SomeI option.distinct(1))
  then obtain t' where t': "map_of (gather clusterUpdate ops) (p, c) = Some t'"
    by blast
  then have "t' = t"
    using assms(2) gather_mem(5) map_of_SomeD by metis
  then show ?thesis
    using t' by (simp add: newStatus_def)
qed

lemma no_cluster_update: "\<nexists>t. PUpdateCluster p c t \<in> set ops \<Longrightarrow> map_of (gather clusterUpdate ops) (p, c) = None"
  using gather_mem(5) map_of_SomeD by (metis not_None_eq)

lemma newStatus_same:
  assumes "\<nexists>t. PUpdateCluster p c t \<in> set ops" and "\<nexists>t. PUpdatePolicy p t \<in> set ops"
  shows "newStatus ops p c s = s"
proof -
  have "map_of (gather policyUpdate ops) p = None"
    using assms(2) gather_mem(4) map_of_SomeD by (metis not_None_eq)
  then show ?thesis
    using no_cluster_update [OF assms(1)] by (simp add: newStatus_def)
qed

lemma newStatus_policy:
  assumes "\<nexists>t. PUpdateCluster p c t \<in> set ops" and "PUpdatePolicy p t \<in> set ops" and "\<And>t'. PUpdatePolicy p t' \<in> set ops \<Longrightarrow> t' = t"
  shows "newStatus ops p c s = t"
proof -
  have "map_of (gather policyUpdate ops) p \<noteq> None"
    using assms(2) gather_mem(4) [of p t ops] by (metis weak_map_of_SomeI option.distinct(1))
  then obtain t' where t': "map_of (gather policyUpdate ops) p = Some t'"
    by blast
  then have "t' = t"
    using assms(3) gather_mem(4) map_of_SomeD by metis
  then show ?thesis
    using t' no_cluster_update [OF assms(1)] by (simp add: newStatus_def)
qed

section \<open>What is read from the table\<close>

definition sets_at :: "(string, PolicyClustersSets) gomap \<Rightarrow> string \<Rightarrow> PolicyClustersSets" where
  "sets_at m p = (case map_of m p of None \<Rightarrow> NewPolicyClusterSets | Some sets \<Rightarrow> sets)"

definition full_sets :: "PolicyClustersSets \<Rightarrow> bool" where
  "full_sets sets \<longleftrightarrow> (\<forall>st. map_of sets (status_text st) \<noteq> None) \<and> (\<forall>st. distinct (GetClusters st sets))"

lemma status_text_inj [simp]: "status_text s = status_text t \<longleftrightarrow> s = t"
  by (cases s; cases t) simp_all

lemma NewPolicyClusterSets_full [simp]: "full_sets NewPolicyClusterSets" "GetClusters st NewPolicyClusterSets = []"
proof -
  have "map_of NewPolicyClusterSets (status_text st) = Some []" for st
    by (cases st) (simp_all add: NewPolicyClusterSets_def)
  then show "full_sets NewPolicyClusterSets" "GetClusters st NewPolicyClusterSets = []"
    by (simp_all add: full_sets_def GetClusters_def)
qed

lemma AddCluster_full:
  assumes "full_sets sets"
  shows "\<exists>sets'. AddCluster c (status_text st) sets = Some sets' \<and> full_sets sets'
    \<and> (\<forall>t. set (GetClusters t sets') = set (GetClusters t sets) \<union> (if t = st then {c} else {}))"
proof -
  obtain s where s: "map_of sets (status_text st) = Some s"
    using assms by (auto simp: full_sets_def)
  let ?sets = "AList.update (status_text st) (set_add c s) sets"
  have get: "GetClusters t ?sets = (if t = st then set_add c s else GetClusters t sets)" for t
    by (simp add: GetClusters_def update_conv)
  have "full_sets ?sets"
    using assms s unfolding full_sets_def get by (auto simp: update_conv GetClusters_def dest: spec [of _ st])
  then show ?thesis
    using s by (auto simp: AddCluster_def get GetClusters_def)
qed

lemma sets_at_update [simp]: "sets_at (AList.update k v m) p = (if p = k then v else sets_at m p)"
  by (simp add: sets_at_def update_conv)

lemma build_sets:
  assumes "\<And>p. full_sets (sets_at m p)" and "wf_map m"
  shows "\<exists>m'. buildComplianceClustersSetsFromRows (map (\<lambda>(p, c, st). [p, c, status_text st]) rs) m = Some m'
    \<and> (\<forall>p. full_sets (sets_at m' p)) \<and> wf_map m' \<and> set (map fst m') = set (map fst m) \<union> fst ` set rs
    \<and> (\<forall>p st. set (GetClusters st (sets_at m' p)) = set (GetClusters st (sets_at m p)) \<union> {c. (p, c, st) \<in> set rs})"
  using assms
proof (induction rs arbitrary: m)
  case (Cons r rs)
  obtain p c st where r: "r = (p, c, st)"
    by (cases r)
  obtain sets' where s: "AddCluster c (status_text st) (sets_at m p) = Some sets'" "full_sets sets'"
      "\<And>t. set (GetClusters t sets') = set (GetClusters t (sets_at m p)) \<union> (if t = st then {c} else {})"
    using AddCluster_full [OF Cons.prems(1)] by blast
  have "\<And>q. full_sets (sets_at (AList.update p sets' m) q)" "wf_map (AList.update p sets' m)"
    using s(2) Cons.prems by simp_all
  from Cons.IH [OF this] obtain m' where m':
    "buildComplianceClustersSetsFromRows (map (\<lambda>(p, c, st). [p, c, status_text st]) rs) (AList.update p sets' m) = Some m'"
    "\<forall>p. full_sets (sets_at m' p)" "wf_map m'" "set (map fst m') = set (map fst (AList.update p sets' m)) \<union> fst ` set rs"
    "\<forall>q st. set (GetClusters st (sets_at m' q)) = set (GetClusters st (sets_at (AList.update p sets' m) q)) \<union> {c. (q, c, st) \<in> set rs}"
    by blast
  have "set (map fst (AList.update p sets' m)) = insert p (set (map fst m))"
    by (auto simp: dom_update)
  then have "set (map fst m') = set (map fst m) \<union> fst ` set (r # rs)"
    using m'(4) r by auto
  moreover have "\<forall>q t. set (GetClusters t (sets_at m' q)) = set (GetClusters t (sets_at m q)) \<union> {c. (q, c, t) \<in> set (r # rs)}"
    using m'(5) s(3) r by auto
  moreover have "buildComplianceClustersSetsFromRows (map (\<lambda>(p, c, st). [p, c, status_text st]) (r # rs)) m = Some m'"
    using m'(1) s(1) r by (simp add: sets_at_def [symmetric])
  ultimately show ?case
    using m'(2,3) by blast
qed simp

text \<open>
  A compliance table as the schema declares it: the status is one of the three values of its
  enumeration, and \<open>(leaf_hub_name, id, cluster_name)\<close> is unique.
\<close>

fun row_key :: "compliance_row \<Rightarrow> string \<times> string \<times> string" where
  "row_key (p, c, h, e, s) = (p, c, h)"

definition compliance_table :: "database \<Rightarrow> string \<Rightarrow> compliance_row list \<Rightarrow> bool" where
  "compliance_table d schema rows \<longleftrightarrow> d (schema, ComplianceTableName) = map to_row rows
     \<and> (\<forall>p c h e s. (p, c, h, e, s) \<in> set rows \<longrightarrow> s \<in> range status_text) \<and> distinct (map row_key rows)"

lemma compliance_table_unique:
  assumes "compliance_table d schema rows" and "(p, c, h, e, s) \<in> set rows" and "(p, c, h, e', s') \<in> set rows"
  shows "e = e' \<and> s = s'"
  using assms unfolding compliance_table_def distinct_map inj_on_def by fastforce

definition the_status :: "string \<Rightarrow> ComplianceStatus" where
  "the_status s = (if s = status_text Compliant then Compliant else if s = status_text NonCompliant then NonCompliant else Unknown)"

lemma the_status_text [simp]: "the_status (status_text st) = st" "s \<in> range status_text \<Longrightarrow> status_text (the_status s) = s"
proof -
  show st: "the_status (status_text st) = st" for st
    by (cases st) (simp_all add: the_status_def)
  show "s \<in> range status_text \<Longrightarrow> status_text (the_status s) = s"
    using st by auto
qed

definition read_rows :: "(string \<Rightarrow> bool) \<Rightarrow> string \<Rightarrow> compliance_row list \<Rightarrow> (string \<times> string \<times> ComplianceStatus) list" where
  "read_rows Q hub rows = map (\<lambda>(p, c, h, e, s). (p, c, the_status s)) (filter (\<lambda>(p, c, h, e, s). h = hub \<and> Q s) rows)"

lemma read_rows_mem:
  assumes "compliance_table d schema rows"
  shows "(p, c, st) \<in> set (read_rows Q hub rows) \<longleftrightarrow> (\<exists>e. (p, c, hub, e, status_text st) \<in> set rows \<and> Q (status_text st))"
proof -
  have "s \<in> range status_text" if "(p, c, h, e, s) \<in> set rows" for p c h e s
    using assms that unfolding compliance_table_def by blast
  then show ?thesis
    unfolding read_rows_def by (force simp: image_iff)
qed

lemma read_rows_scan:
  assumes "compliance_table d schema rows" and "\<And>p c h e s. cond (crow p c h e s) = Q s"
  shows "map (scan_columns schema ComplianceTableName [Column ''id'', Column ''cluster_name'', Column ''compliance''])
      (select_rows d schema ComplianceTableName hub cond)
    = map (\<lambda>(p, c, st). [p, c, status_text st]) (read_rows Q hub rows)"
proof -
  have "\<forall>p c h e s. (p, c, h, e, s) \<in> set rows \<longrightarrow> s \<in> range status_text"
    using assms(1) by (simp add: compliance_table_def)
  then have "map (scan_columns schema ComplianceTableName [Column ''id'', Column ''cluster_name'', Column ''compliance''])
      (filter (\<lambda>r. field_at (columns (schema, ComplianceTableName)) ''leaf_hub_name'' r = AStr hub \<and> cond r) (map to_row rows))
    = map (\<lambda>(p, c, st). [p, c, status_text st]) (read_rows Q hub rows)"
  proof (induction rows)
    case (Cons r rows)
    obtain p c h e s where r: "r = (p, c, h, e, s)"
      by (cases r)
    have ran: "s \<in> range status_text"
      using Cons.prems r by auto
    have IH: "map (scan_columns schema ComplianceTableName [Column ''id'', Column ''cluster_name'', Column ''compliance''])
      (filter (\<lambda>r. field_at (columns (schema, ComplianceTableName)) ''leaf_hub_name'' r = AStr hub \<and> cond r) (map to_row rows))
      = map (\<lambda>(p, c, st). [p, c, status_text st]) (read_rows Q hub rows)"
      by (rule Cons.IH) (use Cons.prems in auto)
    have hub: "field_at (columns (schema, ComplianceTableName)) ''leaf_hub_name'' (crow p c h e s) = AStr h"
      and cols: "scan_columns schema ComplianceTableName [Column ''id'', Column ''cluster_name'', Column ''compliance''] (crow p c h e s) = [p, c, s]"
      for p c h e s
      by (simp_all add: crow_def field_at_def scan_columns_def)
    show ?case
      using IH ran by (auto simp: r read_rows_def to_row_def hub cols assms(2) simp del: compliance_columns)
  qed (simp add: read_rows_def)
  then show ?thesis
    using assms(1) by (simp add: select_rows_def compliance_table_def)
qed

lemma scanRows_all: "rows_delivered c = None \<Longrightarrow> \<not> scan_fails c \<Longrightarrow> scanRows c rows = Inr rows"
  by (simp add: scanRows_def)

text \<open>What the two queries return when every row arrives.\<close>

definition reads :: "(string, PolicyClustersSets) gomap \<Rightarrow> (string \<Rightarrow> string \<Rightarrow> ComplianceStatus \<Rightarrow> bool) \<Rightarrow> bool" where
  "reads m R \<longleftrightarrow> wf_map m \<and> (\<forall>p. full_sets (sets_at m p)) \<and> (\<forall>p. p \<in> set (map fst m) \<longleftrightarrow> (\<exists>c st. R p c st))
     \<and> (\<forall>p st. set (GetClusters st (sets_at m p)) = {c. R p c st})"

lemma reads_build:
  assumes "compliance_table d schema rows"
  shows "\<exists>m. buildComplianceClustersSetsFromRows (map (\<lambda>(p, c, st). [p, c, status_text st]) (read_rows Q hub rows)) [] = Some m
    \<and> reads m (\<lambda>p c st. \<exists>e. (p, c, hub, e, status_text st) \<in> set rows \<and> Q (status_text st))"
proof -
  have "\<And>p. full_sets (sets_at [] p)" "\<And>p st. GetClusters st (sets_at [] p) = []"
    by (simp_all add: sets_at_def)
  with build_sets [of "[]" "read_rows Q hub rows"] obtain m where m:
    "buildComplianceClustersSetsFromRows (map (\<lambda>(p, c, st). [p, c, status_text st]) (read_rows Q hub rows)) [] = Some m"
    "\<forall>p. full_sets (sets_at m p)" "wf_map m" "set (map fst m) = fst ` set (read_rows Q hub rows)"
    "\<forall>p st. set (GetClusters st (sets_at m p)) = {c. (p, c, st) \<in> set (read_rows Q hub rows)}"
    by auto
  moreover have "p \<in> fst ` set (read_rows Q hub rows) \<longleftrightarrow> (\<exists>c st. (p, c, st) \<in> set (read_rows Q hub rows))" for p
    by force
  ultimately show ?thesis
    unfolding reads_def by (simp add: read_rows_mem [OF assms])
qed

lemma GetComplianceStatusByLeafHub_reads:
  assumes "compliance_table d schema rows" and "rows_delivered c = None" and "\<not> scan_fails c"
  shows "\<exists>m. GetComplianceStatusByLeafHub c d schema ComplianceTableName hub = Some (Inr m)
    \<and> reads m (\<lambda>p k st. \<exists>e. (p, k, hub, e, status_text st) \<in> set rows)"
  using reads_build [OF assms(1), of "\<lambda>_. True" hub] read_rows_scan [OF assms(1), of "\<lambda>_. True" "\<lambda>_. True" hub]
  by (auto simp: GetComplianceStatusByLeafHub_def scanRows_all [OF assms(2,3)])

lemma GetNonCompliantClustersByLeafHub_reads:
  assumes "compliance_table d schema rows" and "rows_delivered c = None" and "\<not> scan_fails c"
  shows "\<exists>m. GetNonCompliantClustersByLeafHub c d schema ComplianceTableName hub = Some (Inr m)
    \<and> reads m (\<lambda>p k st. \<exists>e. (p, k, hub, e, status_text st) \<in> set rows \<and> st \<noteq> Compliant)"
proof -
  let ?cond = "\<lambda>r. field_at (columns (schema, ComplianceTableName)) ''compliance'' r \<noteq> AStr ''compliant''"
  have "?cond (crow p k h e s) = (s \<noteq> ''compliant'')" for p k h e s
    by (simp add: crow_def field_at_def)
  note scan = read_rows_scan [where cond = ?cond and hub = hub, OF assms(1) this]
  have "status_text st \<noteq> ''compliant'' \<longleftrightarrow> st \<noteq> Compliant" for st
    using status_text_inj [of st Compliant] by simp
  then show ?thesis
    using reads_build [OF assms(1), of "\<lambda>s. s \<noteq> ''compliant''" hub] scan
    by (auto simp: GetNonCompliantClustersByLeafHub_def scanRows_all [OF assms(2,3)] simp del: compliance_columns)
qed

section \<open>Clusters per policy\<close>

definition typed_ops :: "string \<Rightarrow> string set \<Rightarrow> string set \<Rightarrow> ComplianceStatus \<Rightarrow> string list \<Rightarrow> policy_op list" where
  "typed_ops p A T st cs =
     concat (map (\<lambda>c. if c \<notin> A then [PInsert p c (status_text st)] else if c \<notin> T then [PUpdateCluster p c (status_text st)] else []) cs)"

lemma typed_fold:
  assumes "distinct cs"
  shows "handleClustersPerPolicyWithSpecificCompliance p cs T st (b, A) =
    (run_policy (typed_ops p (set A) (set T) st cs) b, filter (\<lambda>x. x \<notin> set cs) A)"
  unfolding handleClustersPerPolicyWithSpecificCompliance_def
  using assms
proof (induction cs arbitrary: b A)
  case (Cons c cs)
  then have c: "c \<notin> set cs" "distinct cs"
    by simp_all
  have ops: "typed_ops p {x \<in> set A. x \<noteq> c} (set T) st cs = typed_ops p (set A) (set T) st cs"
    unfolding typed_ops_def using c by (intro arg_cong [where f = concat] map_cong) auto
  show ?case
  proof (cases "c \<in> set A")
    case True
    then show ?thesis
      using Cons.IH [OF c(2), of _ "set_remove c A"] ops
      by (simp add: typed_ops_def [of _ _ _ _ "c # cs"] typed_ops_def [symmetric] run_policy_Cons set_remove_def)
  next
    case False
    then show ?thesis
      using Cons.IH [OF c(2), of "policies_Insert p c ErrorNone (status_text st) b" A]
      by (auto simp: typed_ops_def run_policy_Cons intro: filter_cong)
  qed
qed (simp add: typed_ops_def)

definition policy_ops :: "(string list \<Rightarrow> string list) \<Rightarrow> PolicyGenericComplianceStatus \<Rightarrow> PolicyClustersSets \<Rightarrow> policy_op list" where
  "policy_ops ord o' sets =
     (let A = set (GetAllClusters sets) in
      concat (map (\<lambda>st. typed_ops (PolicyID o') A (set (GetClusters st sets)) st (clustersOf o' st)) [Compliant, NonCompliant, Unknown])
      @ map (PDeleteCluster (PolicyID o')) (ord (filter (\<lambda>c. \<forall>st. c \<notin> set (clustersOf o' st)) (GetAllClusters sets))))"

text \<open>A cluster is listed once, under one status.\<close>

definition listed_once :: "PolicyGenericComplianceStatus \<Rightarrow> bool" where
  "listed_once o' \<longleftrightarrow> distinct (CompliantClusters o' @ NonCompliantClusters o' @ UnknownComplianceClusters o')"

lemma fold_DeleteClusterStatus:
  "fold (\<lambda>c. DeleteClusterStatus p c) cs b = run_policy (map (PDeleteCluster p) cs) b"
  by (induction cs arbitrary: b) (simp_all add: run_policy_Cons)

lemma fold_DeletePolicy: "fold DeletePolicy ps b = run_policy (map PDeletePolicy ps) b"
  by (induction ps arbitrary: b) (simp_all add: run_policy_Cons)

lemma typed_ops_cong: "(\<And>c. c \<in> set cs \<Longrightarrow> c \<in> A \<longleftrightarrow> c \<in> B) \<Longrightarrow> typed_ops p A T st cs = typed_ops p B T st cs"
  unfolding typed_ops_def by (intro arg_cong [where f = concat] map_cong) auto

lemma handleClusterPerPolicy_ops:
  assumes "listed_once o'"
  shows "handleClusterPerPolicy ord o' sets b = run_policy (policy_ops ord o' sets) b"
proof -
  let ?A = "GetAllClusters sets"
  let ?C = "CompliantClusters o'" and ?N = "NonCompliantClusters o'" and ?U = "UnknownComplianceClusters o'"
  have dist: "distinct ?C" "distinct ?N" "distinct ?U" "set ?C \<inter> set ?N = {}" "set ?C \<inter> set ?U = {}" "set ?N \<inter> set ?U = {}"
    using assms by (auto simp: listed_once_def)
  have N: "typed_ops p (set (filter (\<lambda>x. x \<notin> set ?C) ?A)) T st ?N = typed_ops p (set ?A) T st ?N" for p T st
    by (rule typed_ops_cong) (use dist in auto)
  have U: "typed_ops p (set (filter (\<lambda>x. x \<notin> set ?N) (filter (\<lambda>x. x \<notin> set ?C) ?A))) T st ?U = typed_ops p (set ?A) T st ?U" for p T st
    by (rule typed_ops_cong) (use dist in auto)
  have left: "filter (\<lambda>x. x \<notin> set ?U) (filter (\<lambda>x. x \<notin> set ?N) (filter (\<lambda>x. x \<notin> set ?C) ?A))
      = filter (\<lambda>c. \<forall>st. c \<notin> set (clustersOf o' st)) ?A"
    by (auto simp: all_states intro: filter_cong)
  show ?thesis
    unfolding handleClusterPerPolicy_def Let_def typed_fold [OF dist(1)] typed_fold [OF dist(2)] typed_fold [OF dist(3)]
      N U left prod.case fold_DeleteClusterStatus policy_ops_def
    by simp
qed

lemma delete_filter: "AList.delete k m = filter (\<lambda>kv. fst kv \<noteq> k) m"
  by (induction m) auto

lemma sets_at_delete: "p \<noteq> k \<Longrightarrow> sets_at (AList.delete k m) p = sets_at m p"
  by (simp add: sets_at_def delete_conv)

lemma clustersPerPolicy_fold:
  assumes "distinct (map PolicyID objs)" and "\<forall>o' \<in> set objs. listed_once o'"
  shows "fold (clustersPerPolicyStep ord) (map GenericComplianceObject objs) (b, m) =
    (run_policy (concat (map (\<lambda>o'. policy_ops ord o' (sets_at m (PolicyID o'))) objs)) b,
     filter (\<lambda>kv. fst kv \<notin> PolicyID ` set objs) m)"
  using assms
proof (induction objs arbitrary: b m)
  case (Cons o' objs)
  let ?m = "AList.delete (PolicyID o') m"
  have same: "map (\<lambda>o''. policy_ops ord o'' (sets_at ?m (PolicyID o''))) objs = map (\<lambda>o''. policy_ops ord o'' (sets_at m (PolicyID o''))) objs"
  proof (intro map_cong refl)
    fix x
    assume "x \<in> set objs"
    then have "PolicyID x \<noteq> PolicyID o'"
      using Cons.prems(1) by (simp add: image_iff) metis
    then show "policy_ops ord x (sets_at ?m (PolicyID x)) = policy_ops ord x (sets_at m (PolicyID x))"
      by (simp add: sets_at_delete)
  qed
  have filt: "filter (\<lambda>kv. fst kv \<notin> PolicyID ` set objs) ?m = filter (\<lambda>kv. fst kv \<notin> PolicyID ` set (o' # objs)) m"
    unfolding delete_filter by (auto intro: filter_cong)
  have "fold (clustersPerPolicyStep ord) (map GenericComplianceObject objs)
      (run_policy (policy_ops ord o' (sets_at m (PolicyID o'))) b, ?m) =
    (run_policy (concat (map (\<lambda>o'. policy_ops ord o' (sets_at ?m (PolicyID o'))) objs)) (run_policy (policy_ops ord o' (sets_at m (PolicyID o'))) b),
     filter (\<lambda>kv. fst kv \<notin> PolicyID ` set objs) ?m)"
    by (rule Cons.IH) (use Cons.prems in simp_all)
  then show ?case
    using Cons.prems(2) same filt handleClusterPerPolicy_ops by (simp add: Let_def sets_at_def [symmetric])
qed simp

definition bundle_ops ::
  "(string list \<Rightarrow> string list) \<Rightarrow> PolicyGenericComplianceStatus list \<Rightarrow> (string, PolicyClustersSets) gomap \<Rightarrow> policy_op list" where
  "bundle_ops ord objs m =
     concat (map (\<lambda>o'. policy_ops ord o' (sets_at m (PolicyID o'))) objs)
     @ map PDeletePolicy (ord (map fst (filter (\<lambda>kv. fst kv \<notin> PolicyID ` set objs) m)))"

lemma typed_ops_mem:
  "op \<in> set (typed_ops p A T st cs) \<longleftrightarrow>
     (\<exists>c \<in> set cs. c \<notin> A \<and> op = PInsert p c (status_text st) \<or> c \<in> A \<and> c \<notin> T \<and> op = PUpdateCluster p c (status_text st))"
  by (auto simp: typed_ops_def split: if_splits)

lemma policy_ops_mem:
  assumes "\<And>ks. set (ord ks) = set ks"
  shows "op \<in> set (policy_ops ord o' sets) \<longleftrightarrow>
     (\<exists>st c. c \<in> set (clustersOf o' st) \<and>
        (c \<notin> set (GetAllClusters sets) \<and> op = PInsert (PolicyID o') c (status_text st)
         \<or> c \<in> set (GetAllClusters sets) \<and> c \<notin> set (GetClusters st sets) \<and> op = PUpdateCluster (PolicyID o') c (status_text st)))
     \<or> (\<exists>c \<in> set (GetAllClusters sets). (\<forall>st. c \<notin> set (clustersOf o' st)) \<and> op = PDeleteCluster (PolicyID o') c)"
proof -
  have ex: "(\<exists>st. P st) \<longleftrightarrow> P Compliant \<or> P NonCompliant \<or> P Unknown" for P
    by (metis ComplianceStatus.exhaust)
  show ?thesis
    unfolding policy_ops_def Let_def ex using assms by (auto simp: typed_ops_mem all_states)
qed

text \<open>\<open>R\<close> is what the table says, \<open>reports\<close> what the bundle says.\<close>

lemma bundle_ops_mem:
  assumes "\<And>ks. set (ord ks) = set ks" and "reads m R"
  shows "PInsert p c s \<in> set (bundle_ops ord objs m) \<longleftrightarrow> (\<exists>st. reports objs p c st \<and> s = status_text st \<and> (\<nexists>t. R p c t))"
    and "PUpdateCluster p c s \<in> set (bundle_ops ord objs m) \<longleftrightarrow> (\<exists>st. reports objs p c st \<and> s = status_text st \<and> (\<exists>t. R p c t) \<and> \<not> R p c st)"
    and "PDeleteCluster p c \<in> set (bundle_ops ord objs m) \<longleftrightarrow>
       (\<exists>o' \<in> set objs. PolicyID o' = p \<and> (\<exists>t. R p c t) \<and> (\<forall>st. c \<notin> set (clustersOf o' st)))"
    and "PDeletePolicy p \<in> set (bundle_ops ord objs m) \<longleftrightarrow> p \<notin> PolicyID ` set objs \<and> (\<exists>c t. R p c t)"
    and "PUpdatePolicy p s \<notin> set (bundle_ops ord objs m)"
proof -
  have all: "x \<in> set (GetAllClusters (sets_at m q)) \<longleftrightarrow> (\<exists>t. R q x t)" for x q
    using assms(2) unfolding reads_def GetAllClusters_def by (simp, metis ComplianceStatus.exhaust)
  have typed: "x \<in> set (GetClusters st (sets_at m q)) \<longleftrightarrow> R q x st" for x q st
    using assms(2) unfolding reads_def by simp
  have keys: "(\<exists>v. (q, v) \<in> set m) \<longleftrightarrow> (\<exists>c t. R q c t)" for q
  proof -
    have "(\<exists>v. (q, v) \<in> set m) \<longleftrightarrow> q \<in> set (map fst m)"
      by force
    then show ?thesis
      using assms(2) unfolding reads_def by simp
  qed
  note mem = policy_ops_mem [OF assms(1)] and defs = bundle_ops_def reports_def
  show "PInsert p c s \<in> set (bundle_ops ord objs m) \<longleftrightarrow> (\<exists>st. reports objs p c st \<and> s = status_text st \<and> (\<nexists>t. R p c t))"
    unfolding defs by (auto simp: mem all)
  show "PUpdateCluster p c s \<in> set (bundle_ops ord objs m) \<longleftrightarrow> (\<exists>st. reports objs p c st \<and> s = status_text st \<and> (\<exists>t. R p c t) \<and> \<not> R p c st)"
    unfolding defs by (auto simp: mem all typed)
  show "PDeleteCluster p c \<in> set (bundle_ops ord objs m) \<longleftrightarrow>
       (\<exists>o' \<in> set objs. PolicyID o' = p \<and> (\<exists>t. R p c t) \<and> (\<forall>st. c \<notin> set (clustersOf o' st)))"
    unfolding defs by (auto simp: mem all)
  show "PDeletePolicy p \<in> set (bundle_ops ord objs m) \<longleftrightarrow> p \<notin> PolicyID ` set objs \<and> (\<exists>c t. R p c t)"
    unfolding defs keys [symmetric] by (auto simp: mem assms(1) image_iff)
  show "PUpdatePolicy p s \<notin> set (bundle_ops ord objs m)"
    unfolding defs by (auto simp: mem)
qed

text \<open>Sending what the builder collected: either all of it takes effect or nothing does.\<close>

lemma policies_send:
  assumes "conn_ok c" and "\<And>ks. set (ord ks) = set ks" and "d (schema, ComplianceTableName) = map to_row rows"
    and "SendBatch c (policies_Build ord (run_policy ops (NewPoliciesBatchBuilder schema ComplianceTableName hub))) d = (err, d')"
  shows "if err = None then d' = d((schema, ComplianceTableName) := map to_row (compliance_effect hub ops rows)) else d' = d"
proof -
  let ?b = "run_policy ops (NewPoliciesBatchBuilder schema ComplianceTableName hub)"
  have inv: "policies_inv schema ComplianceTableName hub ops ?b"
    using run_policy_inv [OF NewPoliciesBatchBuilder_inv, of schema ComplianceTableName hub ops] by simp
  have base: "base_inv 5 3 (gather (insertedRow hub) ops) (gather (policyRow hub) ops) (gather deletedPolicy ops) (pb_base ?b)"
    using inv by (simp add: policies_inv_def)
  show ?thesis
  proof (cases err)
    case None
    then have ok: "exec_batch (policies_Build ord ?b) d = Some d'"
      using SendBatch_done [OF assms(1)] assms(4) by simp
    have "\<not> flushed (pb_base ?b)"
      using base_build_flushed [OF base] ok by (auto simp: policies_Build_def)
    from policies_build_effect [where ord = ord and rows = rows and d = d, OF inv this assms(2,3)]
    show ?thesis
      using ok None by simp
  next
    case (Some e)
    then show ?thesis
      using SendBatch_failed [OF assms(1)] assms(4) by simp
  qed
qed

lemma range_order_set: "range_order ord \<Longrightarrow> set (ord ks) = set ks"
  by (rule range_order.set_ord)

text \<open>The rows the operations leave for the hub.\<close>

lemma bundle_ops_effect:
  assumes tab: "compliance_table d schema rows" and ord: "\<And>ks. set (ord ks) = set ks"
    and reads: "reads m (\<lambda>p k st. \<exists>e. (p, k, hub, e, status_text st) \<in> set rows)"
    and wf: "wf_objects objs"
  shows "(\<exists>e. (p, k, hub, e, s') \<in> set (compliance_effect hub (bundle_ops ord objs m) rows)) \<longleftrightarrow> (\<exists>st. s' = status_text st \<and> reports objs p k st)"
    (is "?L \<longleftrightarrow> ?R")
proof -
  let ?ops = "bundle_ops ord objs m"
  note ops = bundle_ops_mem [where ord = ord, OF ord reads]
  note unique = compliance_table_unique [OF tab]
  have upd: "newStatus ?ops p k (status_text t) = status_text st" if "(p, k, hub, e, status_text t) \<in> set rows" "reports objs p k st" for e t st
  proof (cases "t = st")
    case True
    have "\<nexists>t'. PUpdateCluster p k t' \<in> set ?ops"
      using True that unique wf_objects_reports_unique [OF wf that(2)] unfolding ops(2) by blast
    then show ?thesis
      using True newStatus_same ops(5) by blast
  next
    case False
    have "PUpdateCluster p k (status_text st) \<in> set ?ops"
      unfolding ops(2) using False that unique by (metis status_text_inj)
    then show ?thesis
    proof (rule newStatus_cluster)
      fix t'
      assume "PUpdateCluster p k t' \<in> set ?ops"
      then show "t' = status_text st"
        using wf_objects_reports_unique [OF wf that(2)] unfolding ops(2) by blast
    qed
  qed
  show ?thesis
  proof
    assume ?L
    then obtain e s where row: "(p, k, hub, e, s) \<in> set rows \<and> PDeletePolicy p \<notin> set ?ops \<or> PInsert p k s \<in> set ?ops"
      and keep: "PDeleteCluster p k \<notin> set ?ops" and s': "s' = newStatus ?ops p k s"
      unfolding compliance_effect_mem by auto
    from row show ?R
    proof
      assume r: "(p, k, hub, e, s) \<in> set rows \<and> PDeletePolicy p \<notin> set ?ops"
      then obtain t where t: "s = status_text t"
        using tab unfolding compliance_table_def by blast
      have "\<exists>o'\<in>set objs. PolicyID o' = p"
        using r t unfolding ops(4) by blast
      then obtain st where "reports objs p k st"
        using keep r t unfolding ops(3) reports_def by blast
      then show ?R
        using upd r t s' by blast
    next
      assume "PInsert p k s \<in> set ?ops"
      then obtain st where st: "reports objs p k st" "s = status_text st" "\<nexists>t e. (p, k, hub, e, status_text t) \<in> set rows"
        unfolding ops(1) by blast
      then have "newStatus ?ops p k s = s"
        by (intro newStatus_same) (use ops(2,5) in blast)+
      then show ?R
        using st s' by blast
    qed
  next
    assume ?R
    then obtain st where st: "s' = status_text st" "reports objs p k st"
      by blast
    then have del: "PDeletePolicy p \<notin> set ?ops"
      unfolding ops(4) reports_def by blast
    have keep: "PDeleteCluster p k \<notin> set ?ops"
      using st(2) wf_objects_reports [OF wf] unfolding ops(3) by metis
    show ?L
    proof (cases "\<exists>t e. (p, k, hub, e, status_text t) \<in> set rows")
      case True
      then obtain t e where "(p, k, hub, e, status_text t) \<in> set rows"
        by blast
      then show ?L
        using upd [OF _ st(2)] del keep st(1) unfolding compliance_effect_mem by metis
    next
      case False
      then have ins: "PInsert p k s' \<in> set ?ops"
        unfolding ops(1) using st by blast
      have "newStatus ?ops p k s' = s'"
        by (intro newStatus_same) (use False ops(2,5) in blast)+
      then show ?L
        using ins keep unfolding compliance_effect_mem by metis
    qed
  qed
qed

text \<open>The keys of the inserted rows: the operations never insert a key twice, nor one the table has.\<close>

lemma gather_concat: "gather f (concat xss) = concat (map (\<lambda>xs. gather f xs) xss)"
  by (induction xss) simp_all

lemma inserted_typed_ops:
  "map row_key (gather (inserted hub) (typed_ops p A T st cs)) = map (\<lambda>c. (p, c, hub)) (filter (\<lambda>c. c \<notin> A) cs)"
  by (induction cs) (simp_all add: typed_ops_def)

lemma inserted_policy_ops:
  "map row_key (gather (inserted hub) (policy_ops ord o' sets)) =
     map (\<lambda>c. (PolicyID o', c, hub)) (filter (\<lambda>c. c \<notin> set (GetAllClusters sets)) (CompliantClusters o' @ NonCompliantClusters o' @ UnknownComplianceClusters o'))"
proof -
  have "gather (inserted hub) (map (PDeleteCluster p) cs) = []" for p cs
    by (induction cs) simp_all
  then show ?thesis
    by (simp add: policy_ops_def Let_def inserted_typed_ops)
qed

lemma distinct_append_keys:
  assumes "distinct xs" and "\<forall>key \<in> set xs. fst key = q" and "distinct ys \<and> (\<forall>key \<in> set ys. fst key \<in> Q)" and "q \<notin> Q"
  shows "distinct (xs @ ys) \<and> (\<forall>key \<in> set (xs @ ys). fst key \<in> insert q Q)"
  using assms by auto

lemma inserted_bundle_ops:
  assumes "distinct (map PolicyID objs)" and "\<forall>o' \<in> set objs. listed_once o'"
  shows "distinct (map row_key (gather (inserted hub) (bundle_ops ord objs m)))"
proof -
  have del: "gather (inserted hub) (map PDeletePolicy ps) = []" for ps
    by (induction ps) simp_all
  have "distinct (map row_key (gather (inserted hub) (concat (map (\<lambda>o'. policy_ops ord o' (sets_at m (PolicyID o'))) objs))))
      \<and> (\<forall>key \<in> set (map row_key (gather (inserted hub) (concat (map (\<lambda>o'. policy_ops ord o' (sets_at m (PolicyID o'))) objs)))). fst key \<in> PolicyID ` set objs)"
    using assms
  proof (induction objs)
    case (Cons o' objs)
    let ?new = "map row_key (gather (inserted hub) (policy_ops ord o' (sets_at m (PolicyID o'))))"
    let ?old = "map row_key (gather (inserted hub) (concat (map (\<lambda>o'. policy_ops ord o' (sets_at m (PolicyID o'))) objs)))"
    have new: "distinct ?new" "\<forall>key \<in> set ?new. fst key = PolicyID o'"
      unfolding inserted_policy_ops using Cons.prems(2) by (auto simp: listed_once_def distinct_map inj_on_def)
    have old: "distinct ?old \<and> (\<forall>key \<in> set ?old. fst key \<in> PolicyID ` set objs)" "PolicyID o' \<notin> PolicyID ` set objs"
      using Cons by simp_all
    have eq: "map row_key (gather (inserted hub) (concat (map (\<lambda>o'. policy_ops ord o' (sets_at m (PolicyID o'))) (o' # objs)))) = ?new @ ?old"
      by simp
    show ?case
      unfolding eq list.set image_insert by (rule distinct_append_keys [OF new old])
  qed simp
  then show ?thesis
    unfolding bundle_ops_def map_append concat_append del by simp
qed

lemma row_key_restate [simp]: "row_key (restate hub f r) = row_key r"
  by (cases r) simp

lemma compliance_effect_table:
  assumes "compliance_table d schema rows" and "distinct (map row_key (gather (inserted hub) ops))"
    and "\<And>p k s e t. PInsert p k s \<in> set ops \<Longrightarrow> (p, k, hub, e, t) \<notin> set rows"
    and "\<And>p k s e. (p, k, hub, e, s) \<in> set (compliance_effect hub ops rows) \<Longrightarrow> s \<in> range status_text"
  shows "compliance_table (d((schema, ComplianceTableName) := map to_row (compliance_effect hub ops rows))) schema (compliance_effect hub ops rows)"
proof -
  have "set (map row_key rows) \<inter> set (map row_key (gather (inserted hub) ops)) = {}"
  proof -
    have "\<exists>p k s. r = (p, k, hub, ErrorNone, s) \<and> PInsert p k s \<in> set ops" if "r \<in> set (gather (inserted hub) ops)" for r
    proof -
      obtain p k h e s where r: "r = (p, k, h, e, s)" by (cases r)
      show ?thesis using that unfolding r gather_mem by blast
    qed
    then have keys: "\<exists>p k s. row_key r = (p, k, hub) \<and> PInsert p k s \<in> set ops" if "r \<in> set (gather (inserted hub) ops)" for r
      using that by (metis row_key.simps)
    have old: "\<exists>e t. (p, k, hub, e, t) \<in> set rows" if "(p, k, hub) \<in> set (map row_key rows)" for p k
      using that by (auto, blast)
    have "key \<notin> set (map row_key rows)" if key: "key \<in> set (map row_key (gather (inserted hub) ops))" for key
    proof -
      obtain r where "r \<in> set (gather (inserted hub) ops)" and "key = row_key r"
        using key unfolding set_map image_iff by blast
      with keys obtain p k s where "key = (p, k, hub)" and "PInsert p k s \<in> set ops" by metis
      with old assms(3) show ?thesis by blast
    qed
    then show ?thesis
      by blast
  qed
  then have "distinct (map row_key (rows @ gather (inserted hub) ops))"
    using assms(1,2) by (simp add: compliance_table_def)
  then have "distinct (map row_key (compliance_effect hub ops rows))"
    unfolding compliance_effect_def map_map comp_def row_key_restate
    by (simp add: distinct_map_filter) (auto simp: distinct_map_filter)
  moreover have "s \<in> range status_text" if "(p, k, h, e, s) \<in> set (compliance_effect hub ops rows)" for p k h e s
  proof (cases "h = hub")
    case False
    then have "(p, k, h, e, s) \<in> set rows"
      using that unfolding compliance_effect_mem by auto
    then show ?thesis
      using assms(1) unfolding compliance_table_def by blast
  qed (use that assms(4) in blast)
  ultimately show ?thesis
    unfolding compliance_table_def by simp
qed

lemma handleClusters_outcome:
  assumes "conn_ok c" and "rows_delivered c = None" and "\<not> scan_fails c" and "range_order ord"
    and "compliance_table d schema rows" and "GetObjects bndl = map GenericComplianceObject objs"
    and "distinct (map PolicyID objs)" and "\<forall>o' \<in> set objs. listed_once o'"
  shows "\<exists>err d'. handleClustersPerPolicyBundle ord c schema ComplianceTableName bndl d = Some (err, d') \<and>
    (if err = None
     then \<exists>rows'. d' = d((schema, ComplianceTableName) := map to_row rows') \<and> compliance_table d' schema rows'
        \<and> (\<forall>p k s. (\<exists>e. (p, k, GetLeafHubName bndl, e, s) \<in> set rows') \<longleftrightarrow> (\<exists>st. s = status_text st \<and> reports objs p k st))
        \<and> filter (\<lambda>r. row_hub r \<noteq> GetLeafHubName bndl) rows' = filter (\<lambda>r. row_hub r \<noteq> GetLeafHubName bndl) rows
     else d' = d)"
proof -
  let ?hub = "GetLeafHubName bndl"
  note ord = range_order_set [OF assms(4)]
  have wf: "wf_objects objs"
    using assms(7,8) unfolding wf_objects_def one_state_def listed_once_def all_states by fastforce
  obtain m where m: "GetComplianceStatusByLeafHub c d schema ComplianceTableName ?hub = Some (Inr m)"
      "reads m (\<lambda>p k st. \<exists>e. (p, k, ?hub, e, status_text st) \<in> set rows)"
    using GetComplianceStatusByLeafHub_reads [OF assms(5,2,3)] by blast
  let ?ops = "bundle_ops ord objs m"
  have run: "handleClustersPerPolicyBundle ord c schema ComplianceTableName bndl d =
      Some (SendBatch c (policies_Build ord (run_policy ?ops (NewPoliciesBatchBuilder schema ComplianceTableName ?hub))) d)"
    by (simp add: handleClustersPerPolicyBundle_def m(1) assms(6) clustersPerPolicy_fold [OF assms(7,8)] fold_DeletePolicy bundle_ops_def)
  obtain err d' where sent: "SendBatch c (policies_Build ord (run_policy ?ops (NewPoliciesBatchBuilder schema ComplianceTableName ?hub))) d = (err, d')"
    by fastforce
  have tab: "d (schema, ComplianceTableName) = map to_row rows"
    using assms(5) by (simp add: compliance_table_def)
  note eff = policies_send [where ord = ord, OF assms(1) ord tab sent]
  note rows' = bundle_ops_effect [where ord = ord, OF assms(5) ord m(2) wf]
  have "(p, k, ?hub, e, t) \<notin> set rows" if "PInsert p k s \<in> set ?ops" for p k s e t
    using that assms(5) unfolding bundle_ops_mem(1) [where ord = ord, OF ord m(2)] compliance_table_def by blast
  moreover have "s \<in> range status_text" if "(p, k, ?hub, e, s) \<in> set (compliance_effect ?hub ?ops rows)" for p k s e
    using rows' [of p k s] that by blast
  ultimately have "compliance_table (d((schema, ComplianceTableName) := map to_row (compliance_effect ?hub ?ops rows))) schema (compliance_effect ?hub ?ops rows)"
    by (rule compliance_effect_table [OF assms(5) inserted_bundle_ops [OF assms(7,8)]])
  then show ?thesis
    unfolding run sent using eff rows' compliance_effect_others [of ?hub ?ops rows] by (intro exI [of _ err] exI [of _ d']) auto
qed

text \<open>
  Handling a clusters-per-policy bundle never panics, and either it reports an error and
  leaves the database as it was, or afterwards the compliance table has, for the leaf hub of the
  bundle, exactly one status per policy and cluster the bundle lists, the listed one, and no other
  row; the rows of the other leaf hubs, and all other tables, are untouched, and no key is in the
  table twice. Assumed are that all
  rows of the query arrive, the uniqueness constraint of the table, and that the bundle lists each
  policy once and each of its clusters once.
\<close>

theorem handleClustersPerPolicyBundle_synced:
  assumes "conn_ok c" and "rows_delivered c = None" and "\<not> scan_fails c" and "range_order ord"
    and "compliance_table d schema rows" and "GetObjects bndl = map GenericComplianceObject objs"
    and "distinct (map PolicyID objs)" and "\<forall>o' \<in> set objs. listed_once o'"
  shows "\<exists>err d'. handleClustersPerPolicyBundle ord c schema ComplianceTableName bndl d = Some (err, d') \<and>
    (if err = None
     then \<exists>rows'. d' = d((schema, ComplianceTableName) := map to_row rows') \<and> compliance_table d' schema rows'
        \<and> (\<forall>p k s. (\<exists>e. (p, k, GetLeafHubName bndl, e, s) \<in> set rows') \<longleftrightarrow> (\<exists>st. s = status_text st \<and> reports objs p k st))
        \<and> filter (\<lambda>r. row_hub r \<noteq> GetLeafHubName bndl) rows' = filter (\<lambda>r. row_hub r \<noteq> GetLeafHubName bndl) rows
     else d' = d)"
  using handleClusters_outcome [OF assms] .

definition sample_policies :: "PolicyGenericComplianceStatus list" where
  "sample_policies = [\<lparr>PolicyID = ''p1'', CompliantClusters = [''c1''], NonCompliantClusters = [''c2''], UnknownComplianceClusters = []\<rparr>]"

definition sample_clusters_bundle :: Bundle where
  "sample_clusters_bundle = ClustersPerPolicyBundle
     \<lparr>cpp_Objects = sample_policies, cpp_LeafHubName = ''hub1'', cpp_BundleVersion = NewBundleVersion 1 1\<rparr>"

definition sample_rows :: "compliance_row list" where
  "sample_rows = [(''p1'', ''c2'', ''hub1'', ''none'', ''compliant''), (''p2'', ''c1'', ''hub1'', ''none'', ''unknown''),
     (''p1'', ''c1'', ''hub2'', ''none'', ''unknown'')]"

definition sample_db :: database where
  "sample_db = (\<lambda>_. [])((StatusSchema, ComplianceTableName) := map to_row sample_rows)"

lemma sample_table: "compliance_table sample_db StatusSchema sample_rows"
proof -
  have "''compliant'' \<in> range status_text" "''unknown'' \<in> range status_text"
    using rangeI [of status_text Compliant] rangeI [of status_text Unknown] by simp_all
  then show ?thesis
    by (auto simp: compliance_table_def sample_db_def sample_rows_def)
qed

lemma sample_conn_reads [simp]: "rows_delivered sample_conn = None" "\<not> scan_fails sample_conn"
  by (simp_all add: sample_conn_def)

lemma range_order_id: "range_order id"
  by unfold_locales simp

lemmas handler_defs =
  scanRows_def select_rows_def scan_columns_def to_row_def crow_def field_at_def AddCluster_def NewPolicyClusterSets_def
  set_add_def GetAllClusters_def GetClusters_def set_union_def set_remove_def SendBatch_def exec_query_def
  generateInsertStatement_def generateDeleteStatement_def generateUpdateClusterComplianceStatement_def generateUpdatePolicyComplianceStatement_def

lemma sample_clusters_handled:
  "\<exists>d'. handleClustersPerPolicyBundle id sample_conn StatusSchema ComplianceTableName sample_clusters_bundle sample_db = Some (None, d')"
  by (simp add: handleClustersPerPolicyBundle_def GetComplianceStatusByLeafHub_def sample_db_def sample_rows_def sample_clusters_bundle_def
      sample_policies_def sample_conn_def handleClusterPerPolicy_def handleClustersPerPolicyWithSpecificCompliance_def builder_defs handler_defs)

theorem handleClustersPerPolicyBundle_synced_witness:
  "\<exists>rows'. handleClustersPerPolicyBundle id sample_conn StatusSchema ComplianceTableName sample_clusters_bundle sample_db
      = Some (None, sample_db((StatusSchema, ComplianceTableName) := map to_row rows'))
    \<and> (\<forall>p k s. (\<exists>e. (p, k, ''hub1'', e, s) \<in> set rows') \<longleftrightarrow> (\<exists>st. s = status_text st \<and> reports sample_policies p k st))
    \<and> filter (\<lambda>r. row_hub r \<noteq> ''hub1'') rows' = filter (\<lambda>r. row_hub r \<noteq> ''hub1'') sample_rows"
proof -
  have b: "GetObjects sample_clusters_bundle = map GenericComplianceObject sample_policies" "GetLeafHubName sample_clusters_bundle = ''hub1''"
    by (simp_all add: sample_clusters_bundle_def)
  have p: "distinct (map PolicyID sample_policies)" "\<forall>o' \<in> set sample_policies. listed_once o'"
    by (simp_all add: sample_policies_def listed_once_def)
  show ?thesis
    using handleClustersPerPolicyBundle_synced [OF sample_conn_ok sample_conn_reads range_order_id sample_table b(1) p] sample_clusters_handled
    unfolding b(2) by auto
qed

section \<open>Complete compliance\<close>

text \<open>What a complete-compliance bundle says of a cluster: what it does not list is compliant.\<close>

definition complete_status :: "PolicyCompleteComplianceStatus list \<Rightarrow> string \<Rightarrow> string \<Rightarrow> ComplianceStatus" where
  "complete_status objs p k =
     (if \<exists>o' \<in> set objs. cc_PolicyID o' = p \<and> k \<in> set (cc_NonCompliantClusters o') then NonCompliant
      else if \<exists>o' \<in> set objs. cc_PolicyID o' = p \<and> k \<in> set (cc_UnknownComplianceClusters o') then Unknown
      else Compliant)"

definition complete_ops :: "(string list \<Rightarrow> string list) \<Rightarrow> PolicyCompleteComplianceStatus \<Rightarrow> string goset \<Rightarrow> string goset \<Rightarrow> policy_op list" where
  "complete_ops ord o' N U =
     map (\<lambda>c. PUpdateCluster (cc_PolicyID o') c (status_text NonCompliant)) (filter (\<lambda>c. c \<notin> set N) (cc_NonCompliantClusters o'))
     @ map (\<lambda>c. PUpdateCluster (cc_PolicyID o') c (status_text Unknown)) (filter (\<lambda>c. c \<notin> set U) (cc_UnknownComplianceClusters o'))
     @ map (\<lambda>c. PUpdateCluster (cc_PolicyID o') c (status_text Compliant))
         (ord (filter (\<lambda>c. c \<notin> set (cc_NonCompliantClusters o') \<and> c \<notin> set (cc_UnknownComplianceClusters o')) (set_union N U)))"

lemma complete_step_fold:
  "fold (\<lambda>c (b, left). (if c \<notin> set T then UpdateClusterCompliance p c s b else b, set_remove c left)) cs (b, left) =
    (run_policy (map (\<lambda>c. PUpdateCluster p c s) (filter (\<lambda>c. c \<notin> set T) cs)) b, filter (\<lambda>x. x \<notin> set cs) left)"
proof (induction cs arbitrary: b left)
  case (Cons c cs)
  then show ?case
    by (auto simp: run_policy_Cons set_remove_def intro: filter_cong)
qed simp

lemma fold_UpdateClusterCompliance:
  "fold (\<lambda>c. UpdateClusterCompliance p c s) cs b = run_policy (map (\<lambda>c. PUpdateCluster p c s) cs) b"
  by (induction cs arbitrary: b) (simp_all add: run_policy_Cons)

lemma fold_UpdatePolicyCompliance:
  "fold (\<lambda>p. UpdatePolicyCompliance p s) ps b = run_policy (map (\<lambda>p. PUpdatePolicy p s) ps) b"
  by (induction ps arbitrary: b) (simp_all add: run_policy_Cons)

lemma handlePolicyCompleteComplianceStatus_ops:
  "handlePolicyCompleteComplianceStatus ord o' N U b = run_policy (complete_ops ord o' N U) b"
  unfolding handlePolicyCompleteComplianceStatus_def Let_def complete_step_fold prod.case fold_UpdateClusterCompliance complete_ops_def
  by (simp add: conj_commute)

lemma completeCompliance_fold:
  assumes "distinct (map cc_PolicyID objs)"
  shows "fold (completeComplianceStep ord) (map CompleteComplianceObject objs) (b, m) =
    (run_policy (concat (map (\<lambda>o'. complete_ops ord o' (GetClusters NonCompliant (sets_at m (cc_PolicyID o')))
        (GetClusters Unknown (sets_at m (cc_PolicyID o')))) objs)) b,
     filter (\<lambda>kv. fst kv \<notin> cc_PolicyID ` set objs) m)"
  using assms
proof (induction objs arbitrary: b m)
  case (Cons o' objs)
  let ?m = "AList.delete (cc_PolicyID o') m"
  let ?f = "\<lambda>m o'. complete_ops ord o' (GetClusters NonCompliant (sets_at m (cc_PolicyID o'))) (GetClusters Unknown (sets_at m (cc_PolicyID o')))"
  have same: "map (?f ?m) objs = map (?f m) objs"
  proof (intro map_cong refl)
    fix x
    assume "x \<in> set objs"
    then have "cc_PolicyID x \<noteq> cc_PolicyID o'"
      using Cons.prems(1) by (simp add: image_iff) metis
    then show "?f ?m x = ?f m x"
      by (simp add: sets_at_delete)
  qed
  have filt: "filter (\<lambda>kv. fst kv \<notin> cc_PolicyID ` set objs) ?m = filter (\<lambda>kv. fst kv \<notin> cc_PolicyID ` set (o' # objs)) m"
    unfolding delete_filter by (auto intro: filter_cong)
  have "fold (completeComplianceStep ord) (map CompleteComplianceObject objs) (run_policy (?f m o') b, ?m) =
    (run_policy (concat (map (?f ?m) objs)) (run_policy (?f m o') b), filter (\<lambda>kv. fst kv \<notin> cc_PolicyID ` set objs) ?m)"
    by (rule Cons.IH) (use Cons.prems in simp_all)
  then show ?case
    unfolding same filt by (simp add: Let_def sets_at_def [symmetric] handlePolicyCompleteComplianceStatus_ops)
qed simp

definition complete_bundle_ops ::
  "(string list \<Rightarrow> string list) \<Rightarrow> PolicyCompleteComplianceStatus list \<Rightarrow> (string, PolicyClustersSets) gomap \<Rightarrow> policy_op list" where
  "complete_bundle_ops ord objs m =
     concat (map (\<lambda>o'. complete_ops ord o' (GetClusters NonCompliant (sets_at m (cc_PolicyID o')))
        (GetClusters Unknown (sets_at m (cc_PolicyID o')))) objs)
     @ map (\<lambda>p. PUpdatePolicy p (status_text Compliant)) (ord (map fst (filter (\<lambda>kv. fst kv \<notin> cc_PolicyID ` set objs) m)))"

lemma complete_bundle_ops_mem:
  assumes "\<And>ks. set (ord ks) = set ks" and "reads m R"
  shows "PUpdateCluster p k s \<in> set (complete_bundle_ops ord objs m) \<longleftrightarrow> (\<exists>o' \<in> set objs. cc_PolicyID o' = p \<and>
      (k \<in> set (cc_NonCompliantClusters o') \<and> \<not> R p k NonCompliant \<and> s = status_text NonCompliant
       \<or> k \<in> set (cc_UnknownComplianceClusters o') \<and> \<not> R p k Unknown \<and> s = status_text Unknown
       \<or> k \<notin> set (cc_NonCompliantClusters o') \<and> k \<notin> set (cc_UnknownComplianceClusters o')
           \<and> (R p k NonCompliant \<or> R p k Unknown) \<and> s = status_text Compliant))"
    and "PUpdatePolicy p s \<in> set (complete_bundle_ops ord objs m) \<longleftrightarrow>
      p \<notin> cc_PolicyID ` set objs \<and> (\<exists>k t. R p k t) \<and> s = status_text Compliant"
    and "gather (inserted hub) (complete_bundle_ops ord objs m) = []"
    and "gather (deletedCluster p) (complete_bundle_ops ord objs m) = []"
    and "gather deletedPolicy (complete_bundle_ops ord objs m) = []"
proof -
  have typed: "x \<in> set (GetClusters st (sets_at m q)) \<longleftrightarrow> R q x st" for x q st
    using assms(2) unfolding reads_def by simp
  have keys: "(\<exists>v. (q, v) \<in> set m) \<longleftrightarrow> (\<exists>c t. R q c t)" for q
  proof -
    have "(\<exists>v. (q, v) \<in> set m) \<longleftrightarrow> q \<in> set (map fst m)"
      by force
    then show ?thesis
      using assms(2) unfolding reads_def by simp
  qed
  note defs = complete_bundle_ops_def complete_ops_def
  show "PUpdateCluster p k s \<in> set (complete_bundle_ops ord objs m) \<longleftrightarrow> (\<exists>o' \<in> set objs. cc_PolicyID o' = p \<and>
      (k \<in> set (cc_NonCompliantClusters o') \<and> \<not> R p k NonCompliant \<and> s = status_text NonCompliant
       \<or> k \<in> set (cc_UnknownComplianceClusters o') \<and> \<not> R p k Unknown \<and> s = status_text Unknown
       \<or> k \<notin> set (cc_NonCompliantClusters o') \<and> k \<notin> set (cc_UnknownComplianceClusters o')
           \<and> (R p k NonCompliant \<or> R p k Unknown) \<and> s = status_text Compliant))"
    unfolding defs by (auto simp: assms(1) typed)
  show "PUpdatePolicy p s \<in> set (complete_bundle_ops ord objs m) \<longleftrightarrow>
      p \<notin> cc_PolicyID ` set objs \<and> (\<exists>k t. R p k t) \<and> s = status_text Compliant"
    unfolding keys [symmetric] defs by (auto simp: assms(1) image_iff)
  show "gather (inserted hub) (complete_bundle_ops ord objs m) = []" "gather (deletedCluster p) (complete_bundle_ops ord objs m) = []"
    "gather deletedPolicy (complete_bundle_ops ord objs m) = []"
    unfolding defs by auto
qed

lemma complete_newStatus:
  assumes tab: "compliance_table d schema rows" and ord: "\<And>ks. set (ord ks) = set ks"
    and reads: "reads m (\<lambda>p k st. \<exists>e. (p, k, hub, e, status_text st) \<in> set rows \<and> st \<noteq> Compliant)"
    and dist: "distinct (map cc_PolicyID objs)"
    and disj: "\<forall>o' \<in> set objs. set (cc_NonCompliantClusters o') \<inter> set (cc_UnknownComplianceClusters o') = {}"
    and row: "(p, k, hub, e, status_text t) \<in> set rows"
  shows "newStatus (complete_bundle_ops ord objs m) p k (status_text t) = status_text (complete_status objs p k)"
proof -
  let ?ops = "complete_bundle_ops ord objs m"
  note ops = complete_bundle_ops_mem(1,2) [where ord = ord, OF ord reads]
  have R: "(\<exists>e. (p, k, hub, e, status_text st) \<in> set rows \<and> st \<noteq> Compliant) \<longleftrightarrow> st = t \<and> t \<noteq> Compliant" for st
    using row compliance_table_unique [OF tab row] by (metis status_text_inj)
  show ?thesis
  proof (cases "p \<in> cc_PolicyID ` set objs")
    case True
    then obtain o' where o': "o' \<in> set objs" "cc_PolicyID o' = p"
      by blast
    have one: "x = o'" if "x \<in> set objs" "cc_PolicyID x = p" for x
      using dist o' that unfolding distinct_map inj_on_def by blast
    have ex: "(\<exists>x \<in> set objs. cc_PolicyID x = p \<and> Q x) \<longleftrightarrow> Q o'" for Q
      using o' one by blast
    have ds: "k \<notin> set (cc_NonCompliantClusters o') \<or> k \<notin> set (cc_UnknownComplianceClusters o')"
      using disj o'(1) by blast
    have nopol: "\<nexists>s. PUpdatePolicy p s \<in> set ?ops"
      unfolding ops(2) using True by blast
    have stat: "complete_status objs p k = (if k \<in> set (cc_NonCompliantClusters o') then NonCompliant
        else if k \<in> set (cc_UnknownComplianceClusters o') then Unknown else Compliant)"
      unfolding complete_status_def ex by simp
    have upd: "PUpdateCluster p k s \<in> set ?ops \<longleftrightarrow> t \<noteq> complete_status objs p k \<and> s = status_text (complete_status objs p k)" for s
      unfolding ops(1) R ex stat using ds by (cases t) auto
    show ?thesis
    proof (cases "t = complete_status objs p k")
      case True
      then show ?thesis
        using newStatus_same [OF _ nopol] upd by auto
    next
      case False
      then show ?thesis
        using upd by (intro newStatus_cluster) auto
    qed
  next
    case False
    have stat: "complete_status objs p k = Compliant"
      unfolding complete_status_def using False by auto
    have nocl: "\<nexists>s. PUpdateCluster p k s \<in> set ?ops"
      unfolding ops(1) using False by auto
    show ?thesis
    proof (cases "\<exists>s. PUpdatePolicy p s \<in> set ?ops")
      case True
      then show ?thesis
        unfolding stat using newStatus_policy [OF nocl] unfolding ops(2) by blast
    next
      case none: False
      then have "t = Compliant"
        unfolding ops(2) using False row by blast
      then show ?thesis
        unfolding stat using newStatus_same [OF nocl none] by simp
    qed
  qed
qed

lemma handleComplete_outcome:
  assumes "conn_ok c" and "rows_delivered c = None" and "\<not> scan_fails c" and "range_order ord"
    and "compliance_table d schema rows" and "GetObjects bndl = map CompleteComplianceObject objs"
    and "distinct (map cc_PolicyID objs)"
    and "\<forall>o' \<in> set objs. set (cc_NonCompliantClusters o') \<inter> set (cc_UnknownComplianceClusters o') = {}"
  shows "\<exists>err d'. handleCompleteComplianceBundle ord c schema ComplianceTableName bndl d = Some (err, d') \<and>
    d' = (if err = None
          then d((schema, ComplianceTableName) :=
                 map to_row (map (restate (GetLeafHubName bndl) (\<lambda>p k s. status_text (complete_status objs p k))) rows))
          else d)"
proof -
  let ?hub = "GetLeafHubName bndl"
  note ord = range_order_set [OF assms(4)]
  obtain m where m: "GetNonCompliantClustersByLeafHub c d schema ComplianceTableName ?hub = Some (Inr m)"
      "reads m (\<lambda>p k st. \<exists>e. (p, k, ?hub, e, status_text st) \<in> set rows \<and> st \<noteq> Compliant)"
    using GetNonCompliantClustersByLeafHub_reads [OF assms(5,2,3)] by blast
  let ?ops = "complete_bundle_ops ord objs m"
  have run: "handleCompleteComplianceBundle ord c schema ComplianceTableName bndl d =
      Some (SendBatch c (policies_Build ord (run_policy ?ops (NewPoliciesBatchBuilder schema ComplianceTableName ?hub))) d)"
    by (simp add: handleCompleteComplianceBundle_def m(1) assms(6) completeCompliance_fold [OF assms(7)] fold_UpdatePolicyCompliance
        complete_bundle_ops_def)
  obtain err d' where sent: "SendBatch c (policies_Build ord (run_policy ?ops (NewPoliciesBatchBuilder schema ComplianceTableName ?hub))) d = (err, d')"
    by fastforce
  have tab: "d (schema, ComplianceTableName) = map to_row rows" "\<And>p k h e s. (p, k, h, e, s) \<in> set rows \<Longrightarrow> s \<in> range status_text"
    using assms(5) by (auto simp: compliance_table_def)
  have "compliance_effect ?hub ?ops rows = map (restate ?hub (newStatus ?ops)) rows"
    unfolding compliance_effect_def by (simp only: complete_bundle_ops_mem(3-5) [where ord = ord, OF ord m(2)]) simp
  also have "\<dots> = map (restate ?hub (\<lambda>p k s. status_text (complete_status objs p k))) rows"
  proof (rule map_cong [OF refl])
    fix r
    assume r: "r \<in> set rows"
    obtain p k h e s where eq: "r = (p, k, h, e, s)"
      by (cases r)
    then obtain t where "s = status_text t"
      using tab(2) r by blast
    then show "restate ?hub (newStatus ?ops) r = restate ?hub (\<lambda>p k s. status_text (complete_status objs p k)) r"
      using complete_newStatus [where ord = ord, OF assms(5) ord m(2) assms(7,8)] r eq by auto
  qed
  finally have eff: "compliance_effect ?hub ?ops rows = map (restate ?hub (\<lambda>p k s. status_text (complete_status objs p k))) rows" .
  show ?thesis
    unfolding run sent using policies_send [where ord = ord, OF assms(1) ord tab(1) sent] unfolding eff by auto
qed

text \<open>
  C33. When the rows of the query arrive completely and scan, handling a complete-compliance bundle, whose
  policies are distinct and whose lists are disjoint, either reports an error and leaves the database as it
  was, or sets the compliance of every row of the leaf hub to what the bundle says of its policy
  and cluster, compliant where the bundle does not list it; it neither adds nor removes a row, and
  changes nothing of the other leaf hubs.
\<close>

theorem handleCompleteComplianceBundle_synced:
  assumes "conn_ok c" and "rows_delivered c = None" and "\<not> scan_fails c" and "range_order ord"
    and "compliance_table d schema rows" and "GetObjects bndl = map CompleteComplianceObject objs"
    and "distinct (map cc_PolicyID objs)"
    and "\<forall>o' \<in> set objs. set (cc_NonCompliantClusters o') \<inter> set (cc_UnknownComplianceClusters o') = {}"
  shows "\<exists>err d'. handleCompleteComplianceBundle ord c schema ComplianceTableName bndl d = Some (err, d') \<and>
    d' = (if err = None
          then d((schema, ComplianceTableName) :=
                 map to_row (map (restate (GetLeafHubName bndl) (\<lambda>p k s. status_text (complete_status objs p k))) rows))
          else d)"
  using handleComplete_outcome [OF assms] .

definition sample_complete_bundle :: Bundle where
  "sample_complete_bundle = CompleteComplianceStatusBundle
     \<lparr>ccs_Objects = [\<lparr>cc_PolicyID = ''p1'', cc_NonCompliantClusters = [''c2''], cc_UnknownComplianceClusters = []\<rparr>], ccs_LeafHubName = ''hub1'',
      ccs_BaseBundleVersion = NewBundleVersion 1 1, ccs_BundleVersion = NewBundleVersion 1 1\<rparr>"

lemma sample_complete_handled:
  "\<exists>d'. handleCompleteComplianceBundle id sample_conn StatusSchema ComplianceTableName sample_complete_bundle sample_db = Some (None, d')"
  by (simp add: handleCompleteComplianceBundle_def GetNonCompliantClustersByLeafHub_def sample_db_def sample_rows_def sample_complete_bundle_def
      sample_conn_def handlePolicyCompleteComplianceStatus_def builder_defs handler_defs)

theorem handleCompleteComplianceBundle_synced_witness:
  "handleCompleteComplianceBundle id sample_conn StatusSchema ComplianceTableName sample_complete_bundle sample_db
     = Some (None, sample_db((StatusSchema, ComplianceTableName) := map to_row
         [(''p1'', ''c2'', ''hub1'', ''none'', ''non_compliant''), (''p2'', ''c1'', ''hub1'', ''none'', ''compliant''),
          (''p1'', ''c1'', ''hub2'', ''none'', ''unknown'')]))"
proof -
  let ?objs = "[\<lparr>cc_PolicyID = ''p1'', cc_NonCompliantClusters = [''c2''], cc_UnknownComplianceClusters = []\<rparr>]"
  have b: "GetObjects sample_complete_bundle = map CompleteComplianceObject ?objs" "GetLeafHubName sample_complete_bundle = ''hub1''"
    by (simp_all add: sample_complete_bundle_def)
  have eff: "map (restate ''hub1'' (\<lambda>p k s. status_text (complete_status ?objs p k))) sample_rows =
      [(''p1'', ''c2'', ''hub1'', ''none'', ''non_compliant''), (''p2'', ''c1'', ''hub1'', ''none'', ''compliant''),
       (''p1'', ''c1'', ''hub2'', ''none'', ''unknown'')]"
    by (simp add: sample_rows_def complete_status_def)
  show ?thesis
    using handleCompleteComplianceBundle_synced [OF sample_conn_ok sample_conn_reads range_order_id sample_table b(1)] sample_complete_handled
    unfolding b(2) eff by auto
qed

section \<open>Delta compliance\<close>

definition delta_status :: "PolicyGenericComplianceStatus list \<Rightarrow> string \<Rightarrow> string \<Rightarrow> ComplianceStatus option" where
  "delta_status objs p k =
     (if reports objs p k Compliant then Some Compliant
      else if reports objs p k NonCompliant then Some NonCompliant
      else if reports objs p k Unknown then Some Unknown else None)"

lemma delta_status_iff:
  assumes "wf_objects objs"
  shows "delta_status objs p k = Some st \<longleftrightarrow> reports objs p k st"
  using wf_objects_reports_unique [OF assms, of p k] unfolding delta_status_def by (cases st) (auto dest: wf_objects_reports_unique [OF assms])

text \<open>The compliance of a row after a delta: the reported one, or the one it had.\<close>

definition delta_text :: "PolicyGenericComplianceStatus list \<Rightarrow> string \<Rightarrow> string \<Rightarrow> string \<Rightarrow> string" where
  "delta_text objs p k s = (case delta_status objs p k of None \<Rightarrow> s | Some st \<Rightarrow> status_text st)"

definition delta_ops :: "PolicyGenericComplianceStatus \<Rightarrow> policy_op list" where
  "delta_ops o' = concat (map (\<lambda>st. map (\<lambda>c. PUpdateCluster (PolicyID o') c (status_text st)) (clustersOf o' st)) [Compliant, NonCompliant, Unknown])"

lemma deltaCompliance_fold:
  "fold deltaComplianceStep (map GenericComplianceObject objs) b = run_policy (concat (map delta_ops objs)) b"
proof (induction objs arbitrary: b)
  case (Cons o' objs)
  have "handleDeltaPolicyComplianceStatus o' b = run_policy (delta_ops o') b"
    unfolding handleDeltaPolicyComplianceStatus_def Let_def fold_UpdateClusterCompliance delta_ops_def by simp
  then show ?case
    using Cons.IH by simp
qed simp

lemma delta_ops_mem:
  "PUpdateCluster p k s \<in> set (concat (map delta_ops objs)) \<longleftrightarrow> (\<exists>st. s = status_text st \<and> reports objs p k st)"
  "PUpdatePolicy p s \<notin> set (concat (map delta_ops objs))"
  "gather (inserted hub) (concat (map delta_ops objs)) = []"
  "gather (deletedCluster p) (concat (map delta_ops objs)) = []"
  "gather deletedPolicy (concat (map delta_ops objs)) = []"
proof -
  have ex: "(\<exists>st. P st) \<longleftrightarrow> P Compliant \<or> P NonCompliant \<or> P Unknown" for P
    by (metis ComplianceStatus.exhaust)
  show "PUpdateCluster p k s \<in> set (concat (map delta_ops objs)) \<longleftrightarrow> (\<exists>st. s = status_text st \<and> reports objs p k st)"
  proof -
    have "PUpdateCluster p k s \<in> set (delta_ops o') \<longleftrightarrow> PolicyID o' = p \<and> (\<exists>st. s = status_text st \<and> k \<in> set (clustersOf o' st))" for o'
      unfolding ex delta_ops_def by (simp add: image_iff) blast
    then show ?thesis
      unfolding reports_def set_concat set_map by blast
  qed
qed (auto simp: delta_ops_def)

lemma delta_newStatus:
  assumes "wf_objects objs"
  shows "newStatus (concat (map delta_ops objs)) p k s = delta_text objs p k s"
proof (cases "delta_status objs p k")
  case None
  then have "\<nexists>st. reports objs p k st"
    using delta_status_iff [OF assms] by (metis option.distinct(1))
  then have "\<nexists>t. PUpdateCluster p k t \<in> set (concat (map delta_ops objs))"
    unfolding delta_ops_mem(1) by blast
  moreover have "\<nexists>t. PUpdatePolicy p t \<in> set (concat (map delta_ops objs))"
    by (simp only: delta_ops_mem(2) not_False_eq_True simp_thms)
  ultimately have "newStatus (concat (map delta_ops objs)) p k s = s"
    by (rule newStatus_same)
  then show ?thesis
    using None by (simp add: delta_text_def)
next
  case (Some st)
  then have st: "reports objs p k st"
    using delta_status_iff [OF assms] by blast
  have "newStatus (concat (map delta_ops objs)) p k s = status_text st"
  proof (rule newStatus_cluster)
    show "PUpdateCluster p k (status_text st) \<in> set (concat (map delta_ops objs))"
      unfolding delta_ops_mem using st by blast
  next
    fix t'
    assume "PUpdateCluster p k t' \<in> set (concat (map delta_ops objs))"
    then show "t' = status_text st"
      unfolding delta_ops_mem using wf_objects_reports_unique [OF assms st] by blast
  qed
  then show ?thesis
    using Some by (simp add: delta_text_def)
qed

lemma delta_effect:
  assumes "wf_objects objs"
  shows "compliance_effect hub (concat (map delta_ops objs)) rows = map (restate hub (delta_text objs)) rows"
proof -
  have eq: "newStatus (concat (map delta_ops objs)) = delta_text objs"
    by (intro ext) (rule delta_newStatus [OF assms])
  show ?thesis
    unfolding compliance_effect_def eq by (simp only: delta_ops_mem(3-5)) simp
qed

lemma handleDelta_outcome:
  assumes "conn_ok c" and "range_order ord" and "d (schema, ComplianceTableName) = map to_row rows"
    and "GetObjects bndl = map GenericComplianceObject objs" and "wf_objects objs"
    and "handleDeltaComplianceBundle ord c schema ComplianceTableName bndl d = (err, d')"
  shows "d' = (if err = None then d((schema, ComplianceTableName) := map to_row (map (restate (GetLeafHubName bndl) (delta_text objs)) rows)) else d)"
proof -
  note ord = range_order_set [OF assms(2)]
  have "SendBatch c (policies_Build ord (run_policy (concat (map delta_ops objs))
      (NewPoliciesBatchBuilder schema ComplianceTableName (GetLeafHubName bndl)))) d = (err, d')"
    using assms(6) unfolding handleDeltaComplianceBundle_def assms(4) deltaCompliance_fold .
  from policies_send [where ord = ord, OF assms(1) ord assms(3) this] show ?thesis
    unfolding delta_effect [OF assms(5)] by auto
qed

text \<open>
  Handling a delta-compliance bundle either reports an error and leaves the database as it
  was, or sets the rows of the leaf hub the bundle reports to the reported compliance and leaves
  every other row as it is.
\<close>

theorem handleDeltaComplianceBundle_synced:
  assumes "conn_ok c" and "range_order ord" and "compliance_table d schema rows"
    and "GetObjects bndl = map GenericComplianceObject objs" and "wf_objects objs"
  shows "\<exists>err d'. handleDeltaComplianceBundle ord c schema ComplianceTableName bndl d = (err, d') \<and>
    d' = (if err = None then d((schema, ComplianceTableName) := map to_row (map (restate (GetLeafHubName bndl) (delta_text objs)) rows)) else d)"
proof -
  obtain err d' where h: "handleDeltaComplianceBundle ord c schema ComplianceTableName bndl d = (err, d')"
    by fastforce
  have "d (schema, ComplianceTableName) = map to_row rows"
    using assms(3) by (simp add: compliance_table_def)
  from handleDelta_outcome [OF assms(1,2) this assms(4,5) h] show ?thesis
    using h by blast
qed

definition sample_delta_objs :: "PolicyGenericComplianceStatus list" where
  "sample_delta_objs = [\<lparr>PolicyID = ''p1'', CompliantClusters = [], NonCompliantClusters = [''c2''], UnknownComplianceClusters = []\<rparr>]"

definition sample_delta_bundle :: Bundle where
  "sample_delta_bundle = DeltaComplianceStatusBundle \<lparr>dcs_Objects = sample_delta_objs, dcs_LeafHubName = ''hub1'',
     dcs_BaseBundleVersion = NewBundleVersion 1 1, dcs_BundleVersion = NewBundleVersion 1 2\<rparr>"

lemma sample_delta_wf: "wf_objects sample_delta_objs"
  by (simp add: wf_objects_def one_state_def all_states sample_delta_objs_def)

theorem handleDeltaComplianceBundle_synced_witness:
  "handleDeltaComplianceBundle id sample_conn StatusSchema ComplianceTableName sample_delta_bundle sample_db
     = (None, sample_db((StatusSchema, ComplianceTableName) := map to_row
         [(''p1'', ''c2'', ''hub1'', ''none'', ''non_compliant''), (''p2'', ''c1'', ''hub1'', ''none'', ''unknown''),
          (''p1'', ''c1'', ''hub2'', ''none'', ''unknown'')]))"
proof -
  have b: "GetObjects sample_delta_bundle = map GenericComplianceObject sample_delta_objs" "GetLeafHubName sample_delta_bundle = ''hub1''"
    by (simp_all add: sample_delta_bundle_def)
  have ok: "fst (handleDeltaComplianceBundle id sample_conn StatusSchema ComplianceTableName sample_delta_bundle sample_db) = None"
    by (simp add: handleDeltaComplianceBundle_def sample_db_def sample_rows_def sample_delta_bundle_def sample_delta_objs_def
        sample_conn_def handleDeltaPolicyComplianceStatus_def builder_defs handler_defs)
  have eff: "map (restate ''hub1'' (delta_text sample_delta_objs)) sample_rows =
      [(''p1'', ''c2'', ''hub1'', ''none'', ''non_compliant''), (''p2'', ''c1'', ''hub1'', ''none'', ''unknown''),
       (''p1'', ''c1'', ''hub2'', ''none'', ''unknown'')]"
    by (simp add: sample_rows_def delta_text_def delta_status_def reports_def sample_delta_objs_def)
  show ?thesis
    using handleDeltaComplianceBundle_synced [OF sample_conn_ok range_order_id sample_table b(1) sample_delta_wf] ok
    unfolding b(2) eff by auto
qed

text \<open>
  C34. The merge of delta bundles is sound: handling the bundle that \<open>InheritEvents\<close> makes of an
  older and a newer delta leaves the same database as handling the older one and then the newer one.
\<close>

theorem merged_delta_same_table:
  assumes "conn_ok c" and "range_order ord" and "compliance_table d schema rows"
    and "wf_objects (dcs_Objects new)" and "wf_objects (dcs_Objects old)"
    and "dcs_BaseBundleVersion old = dcs_BaseBundleVersion new" and "dcs_LeafHubName old = dcs_LeafHubName new"
    and "InheritEvents ord new (Some (DeltaComplianceStatusBundle old)) = Inr merged"
    and "handleDeltaComplianceBundle ord c schema ComplianceTableName (DeltaComplianceStatusBundle merged) d = (None, dm)"
    and "handleDeltaComplianceBundle ord c schema ComplianceTableName (DeltaComplianceStatusBundle old) d = (None, d1)"
    and "handleDeltaComplianceBundle ord c schema ComplianceTableName (DeltaComplianceStatusBundle new) d1 = (None, d2)"
  shows "dm = d2"
proof -
  let ?m = "dcs_Objects merged" and ?n = "dcs_Objects new" and ?o = "dcs_Objects old" and ?hub = "dcs_LeafHubName new"
  have merged: "?m = inheritObjects ord ?n ?o" "dcs_LeafHubName merged = ?hub"
    using assms(6,8) by (auto simp: InheritEvents_def)
  have wfm: "wf_objects ?m"
    unfolding merged using wf_objects_inheritObjects [OF assms(2,4,5)] .
  have "delta_text ?m p k s = delta_text ?n p k (delta_text ?o p k s)" for p k s
  proof -
    have rep: "reports ?m p k st \<longleftrightarrow> reports ?n p k st \<or> (reports ?o p k st \<and> (\<nexists>t. reports ?n p k t))" for st
      unfolding merged by (rule reports_inheritObjects [OF assms(2,4,5)])
    have "delta_status ?m p k = (case delta_status ?n p k of None \<Rightarrow> delta_status ?o p k | Some st \<Rightarrow> Some st)"
    proof (cases "delta_status ?n p k")
      case None
      then have "\<nexists>t. reports ?n p k t"
        using delta_status_iff [OF assms(4)] by (metis option.distinct(1))
      then show ?thesis
        using None rep by (simp add: delta_status_def)
    next
      case (Some st)
      then have "reports ?m p k st"
        using rep delta_status_iff [OF assms(4)] by blast
      then have "delta_status ?m p k = Some st"
        using delta_status_iff [OF wfm] by blast
      then show ?thesis
        using Some by simp
    qed
    then show ?thesis
      by (simp add: delta_text_def split: option.splits)
  qed
  then have comp: "restate ?hub (delta_text ?m) r = restate ?hub (delta_text ?n) (restate ?hub (delta_text ?o) r)" for r
    by (cases r) simp
  have t: "d (schema, ComplianceTableName) = map to_row rows"
    using assms(3) by (simp add: compliance_table_def)
  have "d1 = d((schema, ComplianceTableName) := map to_row (map (restate ?hub (delta_text ?o)) rows))"
    using handleDelta_outcome [OF assms(1,2) t _ assms(5,10)] assms(7) by simp
  moreover from this have "d2 = d1((schema, ComplianceTableName) := map to_row (map (restate ?hub (delta_text ?n)) (map (restate ?hub (delta_text ?o)) rows)))"
    using handleDelta_outcome [OF assms(1,2) _ _ assms(4,11), of "map (restate ?hub (delta_text ?o)) rows"] by simp
  moreover have "dm = d((schema, ComplianceTableName) := map to_row (map (restate ?hub (delta_text ?m)) rows))"
    using handleDelta_outcome [OF assms(1,2) t _ wfm assms(9)] merged(2) by simp
  ultimately show ?thesis
    unfolding map_map comp_def comp by simp
qed

definition sample_merged :: BaseDeltaComplianceStatusBundle where
  "sample_merged = sample_delta_new\<lparr>dcs_Objects :=
     [\<lparr>PolicyID = ''p'', CompliantClusters = [], NonCompliantClusters = [''c2''], UnknownComplianceClusters = [''c1'']\<rparr>]\<rparr>"

lemma sample_merged: "InheritEvents id sample_delta_new (Some (DeltaComplianceStatusBundle sample_delta_old)) = Inr sample_merged"
  by code_simp

lemma sample_delta_sent:
  "fst (handleDeltaComplianceBundle id sample_conn StatusSchema ComplianceTableName (DeltaComplianceStatusBundle sample_merged) d) = None"
  "fst (handleDeltaComplianceBundle id sample_conn StatusSchema ComplianceTableName (DeltaComplianceStatusBundle sample_delta_old) d) = None"
  "fst (handleDeltaComplianceBundle id sample_conn StatusSchema ComplianceTableName (DeltaComplianceStatusBundle sample_delta_new) d) = None"
  by (simp add: handleDeltaComplianceBundle_def sample_merged_def sample_delta_old_def sample_delta_new_def
        sample_conn_def handleDeltaPolicyComplianceStatus_def builder_defs handler_defs; code_simp?)+

definition sample_delta_db :: database where
  "sample_delta_db = (\<lambda>_. [])((StatusSchema, ComplianceTableName) :=
     map to_row [(''p'', ''c1'', ''hub1'', ''none'', ''compliant''), (''p'', ''c2'', ''hub1'', ''none'', ''unknown'')])"

theorem merged_delta_same_table_witness:
  "snd (handleDeltaComplianceBundle id sample_conn StatusSchema ComplianceTableName (DeltaComplianceStatusBundle sample_merged) sample_delta_db) =
   snd (handleDeltaComplianceBundle id sample_conn StatusSchema ComplianceTableName (DeltaComplianceStatusBundle sample_delta_new)
     (snd (handleDeltaComplianceBundle id sample_conn StatusSchema ComplianceTableName (DeltaComplianceStatusBundle sample_delta_old) sample_delta_db)))"
proof -
  have "''compliant'' \<in> range status_text" "''unknown'' \<in> range status_text"
    using rangeI [of status_text Compliant] rangeI [of status_text Unknown] by simp_all
  then have tab: "compliance_table sample_delta_db StatusSchema
      [(''p'', ''c1'', ''hub1'', ''none'', ''compliant''), (''p'', ''c2'', ''hub1'', ''none'', ''unknown'')]"
    by (auto simp: compliance_table_def sample_delta_db_def)
  have wf: "wf_objects (dcs_Objects sample_delta_new)" "wf_objects (dcs_Objects sample_delta_old)"
    by (simp_all add: wf_objects_def one_state_def all_states sample_delta_new_def sample_delta_old_def)
  have same: "dcs_BaseBundleVersion sample_delta_old = dcs_BaseBundleVersion sample_delta_new" "dcs_LeafHubName sample_delta_old = dcs_LeafHubName sample_delta_new"
    by (simp_all add: sample_delta_new_def sample_delta_old_def)
  show ?thesis
    by (rule merged_delta_same_table [OF sample_conn_ok range_order_id tab wf same sample_merged])
       (simp_all add: prod_eq_iff sample_delta_sent)
qed

section \<open>Rows that do not arrive\<close>

text \<open>
  A lost query goes unnoticed: when no row of the query for the non-compliant clusters arrives, a
  complete-compliance bundle that lists no policy is handled without an error and without any
  change, although it says that every cluster is compliant.
\<close>

theorem lost_rows_leave_table_stale:
  assumes "rows_delivered c = Some 0" and "range_order ord"
  shows "handleCompleteComplianceBundle ord c schema tableName
     (CompleteComplianceStatusBundle \<lparr>ccs_Objects = [], ccs_LeafHubName = hub, ccs_BaseBundleVersion = v, ccs_BundleVersion = w\<rparr>) d
   = Some (None, d)"
proof -
  have "ord [] = []"
    using range_order.length_ord [OF assms(2), of "[]"] by simp
  then show ?thesis
    using assms(1)
    by (simp add: handleCompleteComplianceBundle_def GetNonCompliantClustersByLeafHub_def scanRows_def builder_defs SendBatch_def)
qed

theorem lost_rows_leave_table_stale_witness:
  "handleCompleteComplianceBundle id (sample_conn\<lparr>rows_delivered := Some 0\<rparr>) StatusSchema ComplianceTableName
     (CompleteComplianceStatusBundle \<lparr>ccs_Objects = [], ccs_LeafHubName = ''hub1'', ccs_BaseBundleVersion = NewBundleVersion 1 1,
        ccs_BundleVersion = NewBundleVersion 1 1\<rparr>) sample_db = Some (None, sample_db)"
  by (rule lost_rows_leave_table_stale [OF _ range_order_id]) simp

end
