(* ===== verification/GH_ResourceSync.thy ===== *)
theory GH_ResourceSync
  imports GH_PolicySync
begin

text \<open>
  The handlers of Kubernetes objects: \<open>handleResourcesBundle\<close>, \<open>handleLocalObjectsBundle\<close> and
  \<open>handleManagedClustersBundle\<close> run one algorithm on three tables that differ in their columns, in
  the key of a row and in the statement that updates it. The locale \<open>resource_table\<close> says what the
  algorithm needs of a table; what it achieves is proved once and carried to the three tables by
  their interpretations. The last section is about the tables written one statement at a time.
\<close>

section \<open>What the handlers achieve\<close>

text \<open>A row: its key, its leaf hub, the object stored and the error column, where the table has one.\<close>

record resource_row =
  ent_key :: string
  ent_hub :: string
  ent_obj :: k8s_object
  ent_error :: string

definition of_hub :: "string \<Rightarrow> resource_row list \<Rightarrow> resource_row list" where
  "of_hub hub es = filter (\<lambda>e. ent_hub e = hub) es"

definition versions :: "resource_row list \<Rightarrow> (string \<times> string) list" where
  "versions es = map (\<lambda>e. (ent_key e, obj_resourceVersion (ent_obj e))) es"

text \<open>
  The reference: rows of the leaf hub without an object in the bundle disappear, rows whose
  resource version differs get the new object, objects without a row get one.
\<close>

definition refresh :: "(k8s_object \<Rightarrow> string) \<Rightarrow> string \<Rightarrow> k8s_object list \<Rightarrow> resource_row \<Rightarrow> resource_row" where
  "refresh keyOf hub objs e =
     (if ent_hub e \<noteq> hub then e
      else case find (\<lambda>obj. keyOf obj = ent_key e) objs of
             None \<Rightarrow> e
           | Some obj \<Rightarrow> if obj_resourceVersion obj = obj_resourceVersion (ent_obj e) then e else e\<lparr>ent_obj := obj\<rparr>)"

definition fresh :: "(k8s_object \<Rightarrow> string) \<Rightarrow> string \<Rightarrow> k8s_object \<Rightarrow> resource_row" where
  "fresh keyOf hub obj = \<lparr>ent_key = keyOf obj, ent_hub = hub, ent_obj = obj, ent_error = ErrorNone\<rparr>"

definition mirror :: "(k8s_object \<Rightarrow> string) \<Rightarrow> string \<Rightarrow> k8s_object list \<Rightarrow> resource_row list \<Rightarrow> resource_row list" where
  "mirror keyOf hub objs es =
     map (refresh keyOf hub objs) (filter (\<lambda>e. ent_hub e = hub \<longrightarrow> ent_key e \<in> keyOf ` set objs) es)
     @ map (fresh keyOf hub) (filter (\<lambda>obj. keyOf obj \<notin> ent_key ` set (of_hub hub es)) objs)"

lemma refresh_simps [simp]:
  "ent_key (refresh keyOf hub objs e) = ent_key e" "ent_hub (refresh keyOf hub objs e) = ent_hub e"
  "ent_error (refresh keyOf hub objs e) = ent_error e"
  by (auto simp: refresh_def split: option.splits)

lemma fresh_simps [simp]:
  "ent_key (fresh keyOf hub obj) = keyOf obj" "ent_hub (fresh keyOf hub obj) = hub" "ent_obj (fresh keyOf hub obj) = obj"
  by (simp_all add: fresh_def)

lemma find_entry:
  assumes "distinct (map f xs)" and "x \<in> set xs" and "f x = k"
  shows "find (\<lambda>y. f y = k) xs = Some x"
  using assms by (induction xs) (auto simp: rev_image_eqI)

lemma of_hub_mirror:
  "of_hub hub (mirror keyOf hub objs es) =
     map (refresh keyOf hub objs) (filter (\<lambda>e. ent_key e \<in> keyOf ` set objs) (of_hub hub es))
     @ map (fresh keyOf hub) (filter (\<lambda>obj. keyOf obj \<notin> ent_key ` set (of_hub hub es)) objs)"
  by (auto simp: of_hub_def mirror_def filter_map comp_def filter_empty_conv intro: arg_cong2 [where f = map] filter_cong)

lemma mirror_distinct:
  assumes "distinct (map keyOf objs)" and "distinct (map ent_key (of_hub hub es))"
  shows "distinct (map ent_key (of_hub hub (mirror keyOf hub objs es)))"
  using assms by (auto simp: of_hub_mirror comp_def distinct_map_filter) (metis imageI)

lemma refresh_version:
  assumes "distinct (map keyOf objs)" and "obj \<in> set objs" and "keyOf obj = ent_key e" and "ent_hub e = hub"
  shows "obj_resourceVersion (ent_obj (refresh keyOf hub objs e)) = obj_resourceVersion obj"
  using assms find_entry [OF assms(1,2,3)] by (simp add: refresh_def)

lemma mirror_versions:
  assumes "distinct (map keyOf objs)"
  shows "set (versions (of_hub hub (mirror keyOf hub objs es))) = (\<lambda>obj. (keyOf obj, obj_resourceVersion obj)) ` set objs"
    (is "?l = ?r")
proof
  show "?l \<subseteq> ?r"
  proof
    fix x assume "x \<in> ?l"
    then consider e obj where "x = (ent_key e, obj_resourceVersion (ent_obj (refresh keyOf hub objs e)))" "ent_hub e = hub"
        "obj \<in> set objs" "keyOf obj = ent_key e"
      | obj where "obj \<in> set objs" "x = (keyOf obj, obj_resourceVersion obj)"
      unfolding of_hub_mirror versions_def by (auto simp: of_hub_def) metis
    then show "x \<in> ?r"
    proof cases
      case 1
      then have "x = (\<lambda>obj. (keyOf obj, obj_resourceVersion obj)) obj"
        using refresh_version [OF assms 1(3,4,2)] by simp
      then show ?thesis using 1(3) by (rule image_eqI)
    qed auto
  qed
  show "?r \<subseteq> ?l"
  proof
    fix x assume "x \<in> ?r"
    then obtain obj where obj: "obj \<in> set objs" "x = (keyOf obj, obj_resourceVersion obj)" by auto
    show "x \<in> ?l"
    proof (cases "keyOf obj \<in> ent_key ` set (of_hub hub es)")
      case True
      then obtain e where e: "e \<in> set (of_hub hub es)" "ent_key e = keyOf obj" by auto
      with obj refresh_version [OF assms obj(1), of e hub] have "refresh keyOf hub objs e \<in> set (of_hub hub (mirror keyOf hub objs es))"
          "x = (ent_key (refresh keyOf hub objs e), obj_resourceVersion (ent_obj (refresh keyOf hub objs e)))"
        unfolding of_hub_mirror by (auto simp: of_hub_def)
      then show ?thesis unfolding versions_def set_map by (rule rev_image_eqI)
    next
      case False
      with obj have "fresh keyOf hub obj \<in> set (of_hub hub (mirror keyOf hub objs es))"
        by (auto simp: of_hub_mirror)
      with obj show ?thesis unfolding versions_def by force
    qed
  qed
qed

lemma mirror_other_hubs:
  "filter (\<lambda>e. ent_hub e \<noteq> hub) (mirror keyOf hub objs es) = filter (\<lambda>e. ent_hub e \<noteq> hub) es"
proof -
  have "map (refresh keyOf hub objs) (filter (\<lambda>e. ent_hub e \<noteq> hub) es) = filter (\<lambda>e. ent_hub e \<noteq> hub) es"
    by (rule map_idI) (simp add: refresh_def)
  then show ?thesis
    by (simp add: mirror_def filter_map comp_def conj_commute cong: conj_cong)
qed

section \<open>The algorithm of the three handlers\<close>

text \<open>One object of the bundle against the versions read, as a sequence of calls of the builder.\<close>

fun sync_step ::
  "(k8s_object \<Rightarrow> string) \<Rightarrow> (k8s_object \<Rightarrow> row) \<Rightarrow> (k8s_object \<Rightarrow> row) \<Rightarrow> k8s_object
   \<Rightarrow> base_op list \<times> (string, string) gomap \<Rightarrow> base_op list \<times> (string, string) gomap" where
  "sync_step keyOf ins upd obj (ops, m) =
     (case map_of m (keyOf obj) of
        None \<Rightarrow> (ops @ [OpInsert (ins obj)], m)
      | Some v \<Rightarrow> (if obj_resourceVersion obj = v then ops else ops @ [OpUpdate (upd obj)], AList.delete (keyOf obj) m))"

lemma sync_steps:
  assumes "distinct (map keyOf objs)" and "fold (sync_step keyOf ins upd) objs (ops0, m) = (ops, left)"
  shows "ins_of ops = ins_of ops0 @ map ins (filter (\<lambda>obj. map_of m (keyOf obj) = None) objs)
    \<and> upd_of ops = upd_of ops0 @ map upd (filter (\<lambda>obj. map_of m (keyOf obj) \<notin> {None, Some (obj_resourceVersion obj)}) objs)
    \<and> del_of ops = del_of ops0
    \<and> map_of left = (\<lambda>k. if k \<in> keyOf ` set objs then None else map_of m k)
    \<and> (list_all (op_width wi wu) ops0 \<and> (\<forall>obj. length (ins obj) = wi \<and> length (upd obj) = wu) \<longrightarrow> list_all (op_width wi wu) ops)"
  using assms
proof (induction objs arbitrary: ops0 m)
  case Nil
  then show ?case by simp
next
  case (Cons obj objs)
  obtain ops1 m1 where step: "sync_step keyOf ins upd obj (ops0, m) = (ops1, m1)" by fastforce
  have rest: "fold (sync_step keyOf ins upd) objs (ops1, m1) = (ops, left)" and dist: "distinct (map keyOf objs)"
    and new: "keyOf obj \<notin> keyOf ` set objs"
    using Cons.prems step by auto
  have m1: "map_of m1 = (if map_of m (keyOf obj) = None then map_of m else (map_of m)(keyOf obj := None))"
    using step by (auto split: option.splits)
  have look: "map_of m1 (keyOf obj') = map_of m (keyOf obj')" if "obj' \<in> set objs" for obj'
    using new that m1 by (auto simp: image_iff)
  have ops1: "ins_of ops1 = ins_of ops0 @ (if map_of m (keyOf obj) = None then [ins obj] else [])"
      "upd_of ops1 = upd_of ops0 @ (if map_of m (keyOf obj) \<notin> {None, Some (obj_resourceVersion obj)} then [upd obj] else [])"
      "del_of ops1 = del_of ops0"
      "list_all (op_width wi wu) ops0 \<and> (\<forall>obj. length (ins obj) = wi \<and> length (upd obj) = wu) \<longrightarrow> list_all (op_width wi wu) ops1"
    using step by (auto split: option.splits if_splits)
  have "filter (\<lambda>obj. map_of m1 (keyOf obj) = None) objs = filter (\<lambda>obj. map_of m (keyOf obj) = None) objs"
    "filter (\<lambda>obj. map_of m1 (keyOf obj) \<notin> {None, Some (obj_resourceVersion obj)}) objs
     = filter (\<lambda>obj. map_of m (keyOf obj) \<notin> {None, Some (obj_resourceVersion obj)}) objs"
    using look by (auto intro!: filter_cong)
  with Cons.IH [OF dist rest] ops1 m1 new show ?case
    by (auto simp: fun_eq_iff split: if_splits)
qed

lemma find_map: "find P (map f xs) = map_option f (find (\<lambda>x. P (f x)) xs)"
  by (induction xs) auto

lemma map_of_versions_read:
  assumes "distinct (map fst kvs)"
  shows "map_of (buildKeyValueMapFromRows (map (\<lambda>(k, v). [k, v]) kvs) m) = map_of m ++ map_of kvs"
  using assms
proof (induction kvs arbitrary: m)
  case Nil
  then show ?case by simp
next
  case (Cons kv kvs)
  obtain k v where kv: "kv = (k, v)" by (cases kv)
  with Cons show ?case
    by (auto simp: fun_eq_iff map_add_def dom_map_of_conv_image_fst split: option.splits dest: map_of_SomeD) (force dest: map_of_SomeD)+
qed

lemma map_of_versions:
  assumes "distinct (map ent_key es)"
  shows "map_of (versions es) k = Some v \<longleftrightarrow> (\<exists>e \<in> set es. ent_key e = k \<and> obj_resourceVersion (ent_obj e) = v)"
    and "map_of (versions es) k = None \<longleftrightarrow> k \<notin> ent_key ` set es"
proof -
  have "distinct (map fst (versions es))"
    using assms by (simp add: versions_def comp_def)
  then have "map_of (versions es) k = Some v \<longleftrightarrow> (k, v) \<in> set (versions es)"
    by simp
  then show "map_of (versions es) k = Some v \<longleftrightarrow> (\<exists>e \<in> set es. ent_key e = k \<and> obj_resourceVersion (ent_obj e) = v)"
    by (auto simp: versions_def)
  show "map_of (versions es) k = None \<longleftrightarrow> k \<notin> ent_key ` set es"
    by (auto simp: map_of_eq_None_iff versions_def image_iff)
qed

lemma mirror_synced:
  assumes "d' = (if err = None then d(st := map row_of (mirror keyOf hub objs es)) else d)"
    and "distinct (map ent_key (of_hub hub es))" and "distinct (map keyOf objs)"
  shows "if err = None
     then \<exists>es'. d' = d(st := map row_of es')
        \<and> set (versions (of_hub hub es')) = (\<lambda>obj. (keyOf obj, obj_resourceVersion obj)) ` set objs
        \<and> distinct (map ent_key (of_hub hub es'))
        \<and> filter (\<lambda>e. ent_hub e \<noteq> hub) es' = filter (\<lambda>e. ent_hub e \<noteq> hub) es
     else d' = d"
  using assms mirror_versions [OF assms(3)] mirror_distinct [OF assms(3,2)] mirror_other_hubs by (auto intro!: exI [of _ "mirror keyOf hub objs es"])

section \<open>The tables\<close>

locale resource_table =
  fixes cols :: "string list"
    and upd :: updateStatement
    and key :: expr
    and keyOf :: "k8s_object \<Rightarrow> string"
    and ok :: "resource_row \<Rightarrow> bool"
    and row_of :: "resource_row \<Rightarrow> row"
    and upd_row :: "string \<Rightarrow> k8s_object \<Rightarrow> row"
    and wi wu :: nat
  assumes hub_column: "field_at cols ''leaf_hub_name'' (row_of e) = AStr (ent_hub e)"
    and key_column: "ok e \<Longrightarrow> eval_expr cols key (row_of e) = AStr (ent_key e)"
    and version_column: "eval_expr cols (PayloadMeta ''resourceVersion'') (row_of e) = AStr (obj_resourceVersion (ent_obj e))"
    and fresh_ok: "ok (fresh keyOf hub obj)"
    and refresh_ok: "ok e \<Longrightarrow> keyOf obj = ent_key e \<Longrightarrow> ok (e\<lparr>ent_obj := obj\<rparr>)"
    and joined: "ok e \<Longrightarrow> joins cols (upd_cols upd) (upd_conds upd) (row_of e) (upd_row hub obj) \<longleftrightarrow> ent_hub e = hub \<and> ent_key e = keyOf obj"
    and assigned: "assigns cols (upd_cols upd) (upd_col upd) (row_of e) (upd_row hub obj) = row_of (e\<lparr>ent_obj := obj\<rparr>)"
    and widths: "length (row_of e) = wi" "length (upd_row hub obj) = wu" "0 < wi" "wi < 10" "0 < wu" "wu < 10"
begin

abbreviation table_steps where
  "table_steps hub \<equiv> fold (sync_step keyOf (\<lambda>obj. row_of (fresh keyOf hub obj)) (upd_row hub))"

lemma mirror_ok: "list_all ok es \<Longrightarrow> list_all ok (mirror keyOf hub objs es)"
  using fresh_ok refresh_ok
  by (auto simp: list_all_iff mirror_def refresh_def find_Some_iff split: option.splits)

lemma read_versions:
  assumes "d st = map row_of es" and "columns st = cols" and "list_all ok es"
  shows "map (scan_columns (fst st) (snd st) [key, PayloadMeta ''resourceVersion'']) (select_rows d (fst st) (snd st) hub (\<lambda>_. True))
    = map (\<lambda>(k, v). [k, v]) (versions (of_hub hub es))"
  using assms key_column version_column
  by (induction es arbitrary: d)
     (auto simp: select_rows_def scan_columns_def versions_def of_hub_def hub_column filter_map comp_def)

text \<open>The statement that updates sets the object of the rows whose version differs.\<close>

definition outdated :: "string \<Rightarrow> resource_row list \<Rightarrow> k8s_object list \<Rightarrow> k8s_object list" where
  "outdated hub es objs =
     filter (\<lambda>obj. map_of (versions (of_hub hub es)) (keyOf obj) \<notin> {None, Some (obj_resourceVersion obj)}) objs"

lemma update_effect:
  assumes "list_all ok es"
  shows "update_rows (joins cols (upd_cols upd) (upd_conds upd)) (assigns cols (upd_cols upd) (upd_col upd)) (map (upd_row hub) us) (map row_of es)
    = map row_of (map (\<lambda>e. if ent_hub e \<noteq> hub then e
        else case find (\<lambda>obj. keyOf obj = ent_key e) us of None \<Rightarrow> e | Some obj \<Rightarrow> e\<lparr>ent_obj := obj\<rparr>) es)"
proof -
  have "(case find (joins cols (upd_cols upd) (upd_conds upd) (row_of e)) (map (upd_row hub) us) of
           None \<Rightarrow> row_of e | Some new \<Rightarrow> assigns cols (upd_cols upd) (upd_col upd) (row_of e) new)
      = row_of (if ent_hub e \<noteq> hub then e
        else case find (\<lambda>obj. keyOf obj = ent_key e) us of None \<Rightarrow> e | Some obj \<Rightarrow> e\<lparr>ent_obj := obj\<rparr>)" if "ok e" for e
  proof -
    have "find (\<lambda>obj. joins cols (upd_cols upd) (upd_conds upd) (row_of e) (upd_row hub obj)) us
        = (if ent_hub e \<noteq> hub then None else find (\<lambda>obj. keyOf obj = ent_key e) us)"
      using joined [OF that, of hub] by (simp add: find_None_iff eq_commute [of "ent_key e"])
    then show ?thesis
      by (simp add: find_map assigned split: option.split)
  qed
  then show ?thesis
    using assms by (simp add: update_rows_def list_all_iff)
qed

lemma outdated_refresh:
  assumes "distinct (map keyOf objs)" and "distinct (map ent_key (of_hub hub es))" and "e \<in> set es" and "ent_hub e = hub"
  shows "(case find (\<lambda>obj. keyOf obj = ent_key e) (outdated hub es objs) of None \<Rightarrow> e | Some obj \<Rightarrow> e\<lparr>ent_obj := obj\<rparr>)
    = refresh keyOf hub objs e"
proof -
  have v: "map_of (versions (of_hub hub es)) (ent_key e) = Some (obj_resourceVersion (ent_obj e))"
    using assms map_of_versions(1) [OF assms(2)] by (auto simp: of_hub_def)
  show ?thesis
  proof (cases "find (\<lambda>obj. keyOf obj = ent_key e) objs")
    case None
    then have "find (\<lambda>obj. keyOf obj = ent_key e) (outdated hub es objs) = None"
      by (auto simp: find_None_iff outdated_def)
    with None assms show ?thesis by (simp add: refresh_def)
  next
    case (Some obj)
    then have obj: "obj \<in> set objs" "keyOf obj = ent_key e"
      by (auto simp: find_Some_iff)
    have dist: "distinct (map keyOf (outdated hub es objs))"
      using assms(1) by (simp add: outdated_def distinct_map_filter)
    show ?thesis
    proof (cases "obj_resourceVersion obj = obj_resourceVersion (ent_obj e)")
      case True
      have "keyOf obj' \<noteq> ent_key e" if "obj' \<in> set (outdated hub es objs)" for obj'
      proof
        assume k: "keyOf obj' = ent_key e"
        with that obj assms(1) have "obj' = obj"
          by (auto simp: outdated_def distinct_map inj_on_def)
        with that v True obj show False by (simp add: outdated_def)
      qed
      then have "find (\<lambda>obj. keyOf obj = ent_key e) (outdated hub es objs) = None"
        by (simp add: find_None_iff)
      with Some True assms show ?thesis by (simp add: refresh_def)
    next
      case False
      with obj v have "obj \<in> set (outdated hub es objs)"
        by (auto simp: outdated_def)
      from find_entry [OF dist this obj(2)] Some False assms show ?thesis
        by (simp add: refresh_def)
    qed
  qed
qed

lemma outdated_fresh:
  assumes "distinct (map ent_key (of_hub hub es))" and "k \<notin> ent_key ` set (of_hub hub es)"
  shows "find (\<lambda>obj. keyOf obj = k) (outdated hub es objs) = None"
  using assms map_of_versions(2) [OF assms(1)] by (auto simp: find_None_iff outdated_def)

lemma base_effect_mirror:
  assumes ok: "list_all ok es" and d: "distinct (map ent_key (of_hub hub es))" "distinct (map keyOf objs)"
    and D: "set D = ent_key ` set (of_hub hub es) - keyOf ` set objs"
  shows "base_effect cols upd hub key D
      (map (\<lambda>obj. row_of (fresh keyOf hub obj)) (filter (\<lambda>obj. map_of (versions (of_hub hub es)) (keyOf obj) = None) objs))
      (map (upd_row hub) (outdated hub es objs)) (map row_of es)
    = map row_of (mirror keyOf hub objs es)"
proof -
  let ?kept = "filter (\<lambda>e. ent_hub e = hub \<longrightarrow> ent_key e \<in> keyOf ` set objs) es"
  let ?new = "map (fresh keyOf hub) (filter (\<lambda>obj. keyOf obj \<notin> ent_key ` set (of_hub hub es)) objs)"
  let ?f = "\<lambda>e. if ent_hub e \<noteq> hub then e
        else case find (\<lambda>obj. keyOf obj = ent_key e) (outdated hub es objs) of None \<Rightarrow> e | Some obj \<Rightarrow> e\<lparr>ent_obj := obj\<rparr>"
  have "\<not> (field_at cols ''leaf_hub_name'' (row_of e) = AStr hub \<and> eval_expr cols key (row_of e) \<in> AStr ` set D)
      \<longleftrightarrow> (ent_hub e = hub \<longrightarrow> ent_key e \<in> keyOf ` set objs)" if "e \<in> set es" for e
    using that ok key_column [of e] by (auto simp: hub_column list_all_iff D of_hub_def)
  then have kept: "filter (\<lambda>r. \<not> (field_at cols ''leaf_hub_name'' r = AStr hub \<and> eval_expr cols key r \<in> AStr ` set D)) (map row_of es)
      = map row_of ?kept"
    by (simp add: filter_map comp_def cong: filter_cong)
  have new: "map (\<lambda>obj. row_of (fresh keyOf hub obj)) (filter (\<lambda>obj. map_of (versions (of_hub hub es)) (keyOf obj) = None) objs)
      = map row_of ?new"
    using map_of_versions(2) [OF d(1)] by simp
  have "list_all ok (?kept @ ?new)"
    using ok fresh_ok by (auto simp: list_all_iff)
  from update_effect [OF this, of hub "outdated hub es objs"]
  have "base_effect cols upd hub key D (map row_of ?new) (map (upd_row hub) (outdated hub es objs)) (map row_of es)
      = map row_of (map ?f (?kept @ ?new))"
    unfolding base_effect_def kept by simp
  moreover have "map ?f ?kept = map (refresh keyOf hub objs) ?kept"
    using outdated_refresh [OF d(2,1)] by (auto simp: refresh_def)
  moreover have "map ?f ?new = ?new"
    using outdated_fresh [OF d(1)] by (intro map_idI) auto
  ultimately show ?thesis
    unfolding new by (simp add: mirror_def)
qed

text \<open>The batch built from the calls, sent to the database.\<close>

lemma table_outcome:
  assumes "conn_ok c" and ord: "\<And>ks. set (ord ks) = set ks" and tab: "d (schema, tableName) = map row_of es"
    and cols: "columns (schema, tableName) = cols"
    and ok: "list_all ok es" and dist: "distinct (map ent_key (of_hub hub es))" "distinct (map keyOf objs)"
    and m: "map_of m = map_of (versions (of_hub hub es))" and steps: "table_steps hub objs ([], m) = (ops, left)"
    and send: "SendBatch c (base_build (fold apply_base (ops @ map OpDelete (ord (map fst left)))
        (newBaseBatchBuilder schema tableName sp hub key upd))) d = (err, d')"
  shows "d' = (if err = None then d((schema, tableName) := map row_of (mirror keyOf hub objs es)) else d)"
proof -
  let ?D = "ord (map fst left)" and ?start = "newBaseBatchBuilder schema tableName sp hub key upd"
  let ?b = "fold apply_base (ops @ map OpDelete ?D) ?start"
  have dels: "ins_of (map OpDelete ks) = []" "upd_of (map OpDelete ks) = []" "del_of (map OpDelete ks) = ks"
      "list_all (op_width wi wu) (map OpDelete ks)" for ks
    by (induction ks) auto
  let ?I = "map (\<lambda>obj. row_of (fresh keyOf hub obj)) (filter (\<lambda>obj. map_of (versions (of_hub hub es)) (keyOf obj) = None) objs)"
  let ?U = "map (upd_row hub) (outdated hub es objs)"
  have ops: "ins_of ops = ?I" "upd_of ops = ?U" "del_of ops = []" "list_all (op_width wi wu) ops"
    and left: "map_of left = (\<lambda>k. if k \<in> keyOf ` set objs then None else map_of m k)"
    using sync_steps [OF dist(2) steps, of wi wu] widths by (simp_all add: m outdated_def)
  have run: "base_inv wi wu ?I ?U ?D ?b \<and> bld_frame ?start ?b"
    using run_base_inv [of wi wu "ops @ map OpDelete ?D" schema tableName sp hub key upd] ops dels widths by simp
  have frame: "bld_schema ?b = schema" "bld_tableName ?b = tableName" "bld_leafHubName ?b = hub" "generateUpdate ?b = upd" "deleteRowKey ?b = key"
    using run by (simp_all add: bld_frame_def newBaseBatchBuilder_def)
  have D: "set ?D = ent_key ` set (of_hub hub es) - keyOf ` set objs"
  proof -
    have "set (map fst left) = dom (map_of left)"
      by (simp add: dom_map_of_conv_image_fst)
    also have "\<dots> = dom (map_of (versions (of_hub hub es))) - keyOf ` set objs"
      unfolding left m by (auto split: if_splits)
    also have "\<dots> = ent_key ` set (of_hub hub es) - keyOf ` set objs"
      by (simp add: dom_map_of_conv_image_fst versions_def image_image)
    finally show ?thesis using ord by simp
  qed
  show ?thesis
  proof (cases "flushed ?b")
    case True
    from base_build_flushed [OF conjunct1 [OF run] this, of "[]" d]
    have "exec_batch (base_build ?b) d = None" by simp
    from SendBatch_refused [OF assms(1) this send] show ?thesis by auto
  next
    case False
    have "exec_batch (base_build ?b) d
        = Some (d((schema, tableName) := base_effect cols upd hub key ?D ?I ?U (map row_of es)))"
      using base_build_effect [OF conjunct1 [OF run] False, of d] widths frame tab cols by auto
    then have eff: "exec_batch (base_build ?b) d = Some (d((schema, tableName) := map row_of (mirror keyOf hub objs es)))"
      using base_effect_mirror [OF ok dist D] by simp
    show ?thesis
    proof (cases err)
      case None
      with SendBatch_done [OF assms(1)] send eff show ?thesis by auto
    next
      case (Some e)
      with SendBatch_failed [OF assms(1)] send show ?thesis by auto
    qed
  qed
qed

lemma read_map:
  assumes "rows_delivered c = None" and "\<not> scan_fails c" and "d (schema, tableName) = map row_of es"
    and "columns (schema, tableName) = cols" and "list_all ok es" and "distinct (map ent_key (of_hub hub es))"
  shows "\<exists>m. readKeyValues c d schema tableName hub key = Inr m \<and> map_of m = map_of (versions (of_hub hub es))"
proof -
  have "distinct (map fst (versions (of_hub hub es)))"
    using assms(6) by (simp add: versions_def comp_def)
  from map_of_versions_read [OF this, of "[]"] show ?thesis
    using assms(1,2) read_versions [of d "(schema, tableName)" es hub, OF assms(3,4,5)]
    by (simp add: readKeyValues_def scanRows_def)
qed

text \<open>The whole handler: read, compare, send.\<close>

definition run ::
  "(string list \<Rightarrow> string list) \<Rightarrow> conn \<Rightarrow> string \<Rightarrow> string \<Rightarrow> (nat, string) gomap \<Rightarrow> string \<Rightarrow> k8s_object list \<Rightarrow> database
   \<Rightarrow> db_error option \<times> database" where
  "run ord c schema tableName sp hub objs d =
     (case readKeyValues c d schema tableName hub key of
        Inl err \<Rightarrow> (Some err, d)
      | Inr m \<Rightarrow> (case table_steps hub objs ([], m) of (ops, left) \<Rightarrow>
          SendBatch c (base_build (fold apply_base (ops @ map OpDelete (ord (map fst left)))
            (newBaseBatchBuilder schema tableName sp hub key upd))) d))"

lemma run_synced:
  assumes "conn_ok c" and "rows_delivered c = None" and "\<not> scan_fails c" and "range_order ord"
    and "columns (schema, tableName) = cols" and "d (schema, tableName) = map row_of es" and "list_all ok es"
    and "distinct (map ent_key (of_hub hub es))" and "distinct (map keyOf objs)" and "run ord c schema tableName sp hub objs d = (err, d')"
  shows "if err = None
     then \<exists>es'. d' = d((schema, tableName) := map row_of es')
        \<and> set (versions (of_hub hub es')) = (\<lambda>obj. (keyOf obj, obj_resourceVersion obj)) ` set objs
        \<and> distinct (map ent_key (of_hub hub es'))
        \<and> filter (\<lambda>e. ent_hub e \<noteq> hub) es' = filter (\<lambda>e. ent_hub e \<noteq> hub) es
     else d' = d"
proof -
  obtain m where m: "readKeyValues c d schema tableName hub key = Inr m" "map_of m = map_of (versions (of_hub hub es))"
    using read_map [where d = d and es = es, OF assms(2,3,6,5,7,8)] by blast
  obtain ops left where steps: "table_steps hub objs ([], m) = (ops, left)" by fastforce
  from assms(10) m(1) steps
  have "SendBatch c (base_build (fold apply_base (ops @ map OpDelete (ord (map fst left)))
      (newBaseBatchBuilder schema tableName sp hub key upd))) d = (err, d')"
    unfolding run_def by simp
  from mirror_synced [OF table_outcome [where d = d and es = es, OF assms(1) range_order_set [OF assms(4)] assms(6,5,7,8,9) m(2) steps this] assms(8,9)]
  show ?thesis .
qed

end

section \<open>The three tables\<close>

definition generic_row :: "resource_row \<Rightarrow> row" where
  "generic_row e = [AStr (ent_key e), AStr (ent_hub e), AObj (ent_obj e)]"

definition local_row :: "resource_row \<Rightarrow> row" where
  "local_row e = [AStr (ent_hub e), AObj (ent_obj e)]"

definition managed_row :: "resource_row \<Rightarrow> row" where
  "managed_row e = [AStr (ent_hub e), AObj (ent_obj e), AStr (ent_error e)]"

lemmas table_defs = joins_def assigns_def field_at_def Let_def fresh_def

interpretation generic_table: resource_table "[''id'', ''leaf_hub_name'', ''payload'']" genericUpdate "Column ''id''" getGenericResourceUID
    "\<lambda>e. True" generic_row "\<lambda>hub obj. [AStr (getGenericResourceUID obj), AStr hub, AObj obj]" 3 3
  by unfold_locales (auto simp: generic_row_def table_defs)

interpretation local_table: resource_table "[''leaf_hub_name'', ''payload'']" genericLocalUpdate "PayloadMeta ''uid''" obj_uid
    "\<lambda>e. ent_key e = obj_uid (ent_obj e)" local_row "\<lambda>hub obj. [AStr hub, AObj obj]" 2 2
  by unfold_locales (auto simp: local_row_def table_defs)

interpretation managed_table: resource_table "[''leaf_hub_name'', ''payload'', ''error'']" managedClustersUpdate "PayloadMeta ''name''" obj_name
    "\<lambda>e. ent_key e = obj_name (ent_obj e)" managed_row "\<lambda>hub obj. [AStr hub, AObj obj, AStr (obj_name obj)]" 3 3
  by unfold_locales (auto simp: managed_row_def table_defs)

section \<open>The handlers run the algorithm\<close>

lemma apply_base_hub [simp]: "bld_leafHubName (fold apply_base ops b) = bld_leafHubName b"
proof (induction ops arbitrary: b)
  case (Cons op ops)
  have "bld_leafHubName (apply_base op b) = bld_leafHubName b"
    by (cases op) (simp_all add: base_insert_def base_update_def base_delete_def Let_def)
  with Cons show ?case by simp
qed simp

lemma steps_simulated:
  assumes "\<And>obj ops m. step (wrap obj) (fold apply_base ops b, m) =
      (case sync_step keyOf ins upd obj (ops, m) of (ops', m') \<Rightarrow> (fold apply_base ops' b, m'))"
    and "fold (sync_step keyOf ins upd) objs (ops, m) = (ops', left)"
  shows "fold step (map wrap objs) (fold apply_base ops b, m) = (fold apply_base ops' b, left)"
  using assms(2)
proof (induction objs arbitrary: ops m)
  case (Cons obj objs)
  obtain ops1 m1 where s: "sync_step keyOf ins upd obj (ops, m) = (ops1, m1)" by fastforce
  with Cons.IH [of ops1 m1] Cons.prems show ?case
    by (simp add: assms(1) del: sync_step.simps)
qed simp

lemmas steps_from_start = steps_simulated [where ops = "[]", unfolded fold_simps(1)]

lemma deletes_simulated:
  assumes "\<And>k b. del k b = base_delete [AStr k] b"
  shows "fold del ks (fold apply_base ops b) = fold apply_base (ops @ map OpDelete ks) b"
proof -
  have "fold del ks b' = fold apply_base (map OpDelete ks) b'" for b'
    by (induction ks arbitrary: b') (simp_all add: assms)
  then show ?thesis by simp
qed

lemmas step_defs = resourceStep_def localObjectStep_def generic_Insert_def generic_Update_def genericLocal_Insert_def genericLocal_Update_def
  managedClusters_Insert_def managedClusters_Update_def generic_row_def local_row_def managed_row_def fresh_def

lemma new_builder_hub [simp]:
  "bld_leafHubName (NewGenericBatchBuilder schema tableName hub) = hub"
  "bld_leafHubName (NewGenericLocalBatchBuilder schema tableName hub) = hub"
  "bld_leafHubName (NewManagedClustersBatchBuilder schema tableName hub) = hub"
  by (simp_all add: NewGenericBatchBuilder_def NewGenericLocalBatchBuilder_def NewManagedClustersBatchBuilder_def newBaseBatchBuilder_def)

lemma resourceSteps:
  assumes "fold (sync_step getGenericResourceUID (\<lambda>obj. generic_row (fresh getGenericResourceUID hub obj))
      (\<lambda>obj. [AStr (getGenericResourceUID obj), AStr hub, AObj obj])) objs ([], m) = (ops, left)"
  shows "fold resourceStep (map MetaObject objs) (NewGenericBatchBuilder schema tableName hub, m)
    = (fold apply_base ops (NewGenericBatchBuilder schema tableName hub), left)"
  by (rule steps_from_start [OF _ assms]) (auto simp: step_defs Let_def split: option.splits)

lemma localSteps:
  assumes "fold (sync_step obj_uid (\<lambda>obj. local_row (fresh obj_uid hub obj)) (\<lambda>obj. [AStr hub, AObj obj])) objs ([], m) = (ops, left)"
  shows "fold localObjectStep (map MetaObject objs) (NewGenericLocalBatchBuilder schema tableName hub, m)
    = (fold apply_base ops (NewGenericLocalBatchBuilder schema tableName hub), left)"
  by (rule steps_from_start [OF _ assms]) (auto simp: step_defs Let_def split: option.splits)

lemma managedSteps:
  assumes "fold (sync_step obj_name (\<lambda>obj. managed_row (fresh obj_name hub obj)) (\<lambda>obj. [AStr hub, AObj obj, AStr (obj_name obj)])) objs ([], m) = (ops, left)"
  shows "fold managedClusterStep (map ManagedClusterObject objs) (NewManagedClustersBatchBuilder schema tableName hub, m)
    = (fold apply_base ops (NewManagedClustersBatchBuilder schema tableName hub), left)"
  by (rule steps_from_start [OF _ assms]) (auto simp: step_defs Let_def split: option.splits)

lemma handleResources_run:
  assumes "GetObjects bndl = map MetaObject objs"
  shows "handleResourcesBundle ord c schema tableName bndl d
    = generic_table.run ord c schema tableName [(1, db_UUID), (3, db_Jsonb)] (GetLeafHubName bndl) objs d"
  using resourceSteps [of "GetLeafHubName bndl" objs] deletes_simulated [of generic_Delete]
  by (auto simp: handleResourcesBundle_def generic_table.run_def GetResourceIDToVersionByLeafHub_def assms
      NewGenericBatchBuilder_def generic_Delete_def split: sum.split prod.split)

lemma handleLocalObjects_run:
  assumes "GetObjects bndl = map MetaObject objs"
  shows "handleLocalObjectsBundle ord c schema tableName bndl d
    = local_table.run ord c schema tableName [(2, db_Jsonb)] (GetLeafHubName bndl) objs d"
  using localSteps [of "GetLeafHubName bndl" objs] deletes_simulated [of genericLocal_Delete]
  by (auto simp: handleLocalObjectsBundle_def local_table.run_def GetLocalResourceIDToVersionByLeafHub_def assms
      NewGenericLocalBatchBuilder_def genericLocal_Delete_def split: sum.split prod.split)

lemma handleManagedClusters_run:
  assumes "GetObjects bndl = map ManagedClusterObject objs"
  shows "handleManagedClustersBundle ord c bndl d
    = managed_table.run ord c StatusSchema ManagedClustersTableName [(2, db_Jsonb)] (GetLeafHubName bndl) objs d"
  using managedSteps [of "GetLeafHubName bndl" objs] deletes_simulated [of managedClusters_Delete]
  by (auto simp: handleManagedClustersBundle_def managed_table.run_def GetManagedClustersByLeafHub_def assms
      NewManagedClustersBatchBuilder_def managedClusters_Delete_def split: sum.split prod.split)

text \<open>When the handler of the resource tables (placement rules, placements, placement decisions, subscription
  statuses and reports) ends without error, the rows of the leaf hub carry exactly the ids and resource versions of the
  objects of the bundle, one row each, and the rows of other leaf hubs are as before; when it ends with an error the
  database is unchanged. The id of an object is its original owner's, where the annotation gives one.\<close>

theorem handleResourcesBundle_synced:
  assumes "conn_ok c" and "rows_delivered c = None" and "\<not> scan_fails c" and "range_order ord"
    and "columns (schema, tableName) = [''id'', ''leaf_hub_name'', ''payload'']"
    and "d (schema, tableName) = map generic_row es" and "distinct (map ent_key (of_hub (GetLeafHubName bndl) es))"
    and "GetObjects bndl = map MetaObject objs" and "distinct (map getGenericResourceUID objs)"
  shows "\<exists>err d'. handleResourcesBundle ord c schema tableName bndl d = (err, d') \<and>
    (if err = None
     then \<exists>es'. d' = d((schema, tableName) := map generic_row es')
        \<and> set (versions (of_hub (GetLeafHubName bndl) es')) = (\<lambda>obj. (getGenericResourceUID obj, obj_resourceVersion obj)) ` set objs
        \<and> distinct (map ent_key (of_hub (GetLeafHubName bndl) es'))
        \<and> filter (\<lambda>e. ent_hub e \<noteq> GetLeafHubName bndl) es' = filter (\<lambda>e. ent_hub e \<noteq> GetLeafHubName bndl) es
     else d' = d)"
proof -
  obtain err d' where h: "handleResourcesBundle ord c schema tableName bndl d = (err, d')" by fastforce
  then have "generic_table.run ord c schema tableName [(1, db_UUID), (3, db_Jsonb)] (GetLeafHubName bndl) objs d = (err, d')"
    using handleResources_run [OF assms(8)] by simp
  moreover have "list_all (\<lambda>e. True) es"
    by (simp add: list_all_iff)
  ultimately show ?thesis
    using generic_table.run_synced [where d = d and es = es, OF assms(1-6) _ assms(7,9)] h by blast
qed

text \<open>The same for the local policies and placement rules, whose rows are identified by the uid inside the payload.\<close>

theorem handleLocalObjectsBundle_synced:
  assumes "conn_ok c" and "rows_delivered c = None" and "\<not> scan_fails c" and "range_order ord"
    and "tableName \<noteq> ComplianceTableName"
    and "d (LocalSpecSchema, tableName) = map local_row es" and "list_all (\<lambda>e. ent_key e = obj_uid (ent_obj e)) es"
    and "distinct (map ent_key (of_hub (GetLeafHubName bndl) es))"
    and "GetObjects bndl = map MetaObject objs" and "distinct (map obj_uid objs)"
  shows "\<exists>err d'. handleLocalObjectsBundle ord c LocalSpecSchema tableName bndl d = (err, d') \<and>
    (if err = None
     then \<exists>es'. d' = d((LocalSpecSchema, tableName) := map local_row es')
        \<and> set (versions (of_hub (GetLeafHubName bndl) es')) = (\<lambda>obj. (obj_uid obj, obj_resourceVersion obj)) ` set objs
        \<and> distinct (map ent_key (of_hub (GetLeafHubName bndl) es'))
        \<and> filter (\<lambda>e. ent_hub e \<noteq> GetLeafHubName bndl) es' = filter (\<lambda>e. ent_hub e \<noteq> GetLeafHubName bndl) es
     else d' = d)"
proof -
  have cols: "columns (LocalSpecSchema, tableName) = [''leaf_hub_name'', ''payload'']"
    using assms(5) by (simp add: columns_def StatusSchema_def LocalSpecSchema_def)
  obtain err d' where h: "handleLocalObjectsBundle ord c LocalSpecSchema tableName bndl d = (err, d')" by fastforce
  then have "local_table.run ord c LocalSpecSchema tableName [(2, db_Jsonb)] (GetLeafHubName bndl) objs d = (err, d')"
    using handleLocalObjects_run [OF assms(9)] by simp
  then show ?thesis
    using local_table.run_synced [where d = d and es = es, OF assms(1-4) cols assms(6-8,10)] h by blast
qed

text \<open>The same for the managed clusters, whose rows are identified by the name inside the payload.\<close>

theorem handleManagedClustersBundle_synced:
  assumes "conn_ok c" and "rows_delivered c = None" and "\<not> scan_fails c" and "range_order ord"
    and "d (StatusSchema, ManagedClustersTableName) = map managed_row es" and "list_all (\<lambda>e. ent_key e = obj_name (ent_obj e)) es"
    and "distinct (map ent_key (of_hub (GetLeafHubName bndl) es))"
    and "GetObjects bndl = map ManagedClusterObject objs" and "distinct (map obj_name objs)"
  shows "\<exists>err d'. handleManagedClustersBundle ord c bndl d = (err, d') \<and>
    (if err = None
     then \<exists>es'. d' = d((StatusSchema, ManagedClustersTableName) := map managed_row es')
        \<and> set (versions (of_hub (GetLeafHubName bndl) es')) = (\<lambda>obj. (obj_name obj, obj_resourceVersion obj)) ` set objs
        \<and> distinct (map ent_key (of_hub (GetLeafHubName bndl) es'))
        \<and> filter (\<lambda>e. ent_hub e \<noteq> GetLeafHubName bndl) es' = filter (\<lambda>e. ent_hub e \<noteq> GetLeafHubName bndl) es
     else d' = d)"
proof -
  have cols: "columns (StatusSchema, ManagedClustersTableName) = [''leaf_hub_name'', ''payload'', ''error'']"
    by (simp add: columns_def ManagedClustersTableName_def ComplianceTableName_def)
  obtain err d' where h: "handleManagedClustersBundle ord c bndl d = (err, d')" by fastforce
  then have "managed_table.run ord c StatusSchema ManagedClustersTableName [(2, db_Jsonb)] (GetLeafHubName bndl) objs d = (err, d')"
    using handleManagedClusters_run [OF assms(8)] by simp
  then show ?thesis
    using managed_table.run_synced [where d = d and es = es, OF assms(1-4) cols assms(5-7,9)] h by blast
qed

section \<open>Examples\<close>

definition sample_obj :: "string \<Rightarrow> string \<Rightarrow> k8s_object" where
  "sample_obj n v = \<lparr>obj_uid = n, obj_name = n, obj_resourceVersion = v, obj_annotations = [], obj_content = v\<rparr>"

definition sample_entry :: "string \<Rightarrow> string \<Rightarrow> string \<Rightarrow> resource_row" where
  "sample_entry n hub v = \<lparr>ent_key = n, ent_hub = hub, ent_obj = sample_obj n v, ent_error = ErrorNone\<rparr>"

definition sample_entries :: "resource_row list" where
  "sample_entries = [sample_entry ''u1'' ''hub1'' ''1'', sample_entry ''u3'' ''hub1'' ''1'', sample_entry ''u1'' ''hub2'' ''1'']"

definition sample_objs :: "k8s_object list" where
  "sample_objs = [sample_obj ''u1'' ''2'', sample_obj ''u2'' ''1'']"

definition sample_base :: baseBundle where
  "sample_base = \<lparr>bb_LeafHubName = ''hub1'', bb_BundleVersion = NewBundleVersion 1 1\<rparr>"

definition sample_tables :: "(resource_row \<Rightarrow> row) \<Rightarrow> database" where
  "sample_tables row_of = (\<lambda>_. map row_of sample_entries)"

lemmas sample_defs = sample_obj_def sample_entry_def sample_entries_def sample_objs_def sample_base_def

lemmas names_defs = StatusSchema_def LocalSpecSchema_def PlacementsTableName_def LocalPolicySpecTableName_def ManagedClustersTableName_def
  ComplianceTableName_def MinimalComplianceTable_def

lemma sample_resources_read:
  "GetResourceIDToVersionByLeafHub sample_conn (sample_tables generic_row) StatusSchema PlacementsTableName ''hub1'' = Inr [(''u1'', ''1''), (''u3'', ''1'')]"
  "GetLocalResourceIDToVersionByLeafHub sample_conn (sample_tables local_row) LocalSpecSchema LocalPolicySpecTableName ''hub1'' = Inr [(''u1'', ''1''), (''u3'', ''1'')]"
  "GetManagedClustersByLeafHub sample_conn (sample_tables managed_row) StatusSchema ManagedClustersTableName ''hub1'' = Inr [(''u1'', ''1''), (''u3'', ''1'')]"
  by (simp_all add: GetResourceIDToVersionByLeafHub_def GetLocalResourceIDToVersionByLeafHub_def GetManagedClustersByLeafHub_def readKeyValues_def
      scanRows_def sample_conn_def select_rows_def scan_columns_def sample_tables_def sample_defs
      generic_row_def local_row_def managed_row_def columns_def names_defs field_at_def)

lemmas resource_defs = sample_resources_read sample_objs_def sample_base_def sample_obj_def getGenericResourceUID_def step_defs
  generic_Delete_def genericLocal_Delete_def managedClusters_Delete_def
  NewGenericBatchBuilder_def NewGenericLocalBatchBuilder_def NewManagedClustersBatchBuilder_def

lemma fst_SendBatch_sample:
  "fst (SendBatch sample_conn batch d) = (if exec_batch batch d = None then Some (errBatchFailed [''refused'']) else None)"
  by (auto simp: SendBatch_def sample_conn_def split: option.split)

lemma sample_resources_handled:
  "fst (handleResourcesBundle id sample_conn StatusSchema PlacementsTableName (PlacementsBundle sample_base sample_objs) (sample_tables generic_row)) = None"
  "fst (handleLocalObjectsBundle id sample_conn LocalSpecSchema LocalPolicySpecTableName (LocalPolicySpecBundle sample_base sample_objs) (sample_tables local_row)) = None"
  "fst (handleManagedClustersBundle id sample_conn (ManagedClustersStatusBundle sample_base sample_objs) (sample_tables managed_row)) = None"
  by (simp_all add: handleResourcesBundle_def handleLocalObjectsBundle_def handleManagedClustersBundle_def resource_defs builder_defs
      generateInsertStatement_def generateDeleteStatement_def generic_generateUpdateStatement_def genericLocal_generateUpdateStatement_def
      managedClusters_generateUpdateStatement_def fst_SendBatch_sample exec_query_def)

lemma sample_entries_ok:
  "distinct (map ent_key (of_hub ''hub1'' sample_entries))" "list_all (\<lambda>e. ent_key e = obj_uid (ent_obj e)) sample_entries"
  "list_all (\<lambda>e. ent_key e = obj_name (ent_obj e)) sample_entries"
  "distinct (map getGenericResourceUID sample_objs)" "distinct (map obj_uid sample_objs)" "distinct (map obj_name sample_objs)"
  by (simp_all add: of_hub_def sample_defs getGenericResourceUID_def)

theorem handleResourcesBundle_synced_witness:
  "\<exists>es'. handleResourcesBundle id sample_conn StatusSchema PlacementsTableName (PlacementsBundle sample_base sample_objs) (sample_tables generic_row)
      = (None, (sample_tables generic_row)((StatusSchema, PlacementsTableName) := map generic_row es'))
    \<and> set (versions (of_hub ''hub1'' es')) = {(''u1'', ''2''), (''u2'', ''1'')}
    \<and> filter (\<lambda>e. ent_hub e \<noteq> ''hub1'') es' = [sample_entry ''u1'' ''hub2'' ''1'']"
proof -
  have cols: "columns (StatusSchema, PlacementsTableName) = [''id'', ''leaf_hub_name'', ''payload'']"
    by (simp add: columns_def names_defs)
  show ?thesis
    using handleResourcesBundle_synced [where objs = sample_objs and es = sample_entries and d = "sample_tables generic_row",
        OF sample_conn_ok sample_conn_reads range_order_id cols, of "PlacementsBundle sample_base sample_objs"]
      sample_resources_handled(1) sample_entries_ok
    by (auto simp: sample_tables_def sample_defs getGenericResourceUID_def)
qed

theorem handleLocalObjectsBundle_synced_witness:
  "\<exists>es'. handleLocalObjectsBundle id sample_conn LocalSpecSchema LocalPolicySpecTableName (LocalPolicySpecBundle sample_base sample_objs) (sample_tables local_row)
      = (None, (sample_tables local_row)((LocalSpecSchema, LocalPolicySpecTableName) := map local_row es'))
    \<and> set (versions (of_hub ''hub1'' es')) = {(''u1'', ''2''), (''u2'', ''1'')}"
  using handleLocalObjectsBundle_synced [where objs = sample_objs and es = sample_entries and d = "sample_tables local_row",
      OF sample_conn_ok sample_conn_reads range_order_id, of LocalPolicySpecTableName "LocalPolicySpecBundle sample_base sample_objs"]
    sample_resources_handled(2) sample_entries_ok
  by (auto simp: sample_tables_def sample_defs names_defs)

theorem handleManagedClustersBundle_synced_witness:
  "\<exists>es'. handleManagedClustersBundle id sample_conn (ManagedClustersStatusBundle sample_base sample_objs) (sample_tables managed_row)
      = (None, (sample_tables managed_row)((StatusSchema, ManagedClustersTableName) := map managed_row es'))
    \<and> set (versions (of_hub ''hub1'' es')) = {(''u1'', ''2''), (''u2'', ''1'')}"
  using handleManagedClustersBundle_synced [where objs = sample_objs and es = sample_entries and d = "sample_tables managed_row",
      OF sample_conn_ok sample_conn_reads range_order_id, of "ManagedClustersStatusBundle sample_base sample_objs"]
    sample_resources_handled(3) sample_entries_ok
  by (auto simp: sample_tables_def sample_defs)

section \<open>Tables written one statement at a time\<close>

text \<open>A row of the aggregated compliance: policy, leaf hub, applied and non-compliant clusters.\<close>

type_synonym agg_row = "string \<times> string \<times> int \<times> int"

fun agg_to_row :: "agg_row \<Rightarrow> row" where
  "agg_to_row (p, h, a, n) = [AStr p, AStr h, AInt a, AInt n]"

fun agg_is :: "string \<Rightarrow> string \<Rightarrow> agg_row \<Rightarrow> bool" where
  "agg_is hub policyID (p, h, a, n) \<longleftrightarrow> h = hub \<and> p = policyID"

fun agg_set :: "int \<Rightarrow> int \<Rightarrow> agg_row \<Rightarrow> agg_row" where
  "agg_set a' n' (p, h, a, n) = (p, h, a', n')"

abbreviation agg_table :: "string \<times> string" where
  "agg_table \<equiv> (StatusSchema, MinimalComplianceTable)"

definition put_agg :: "string \<Rightarrow> MinimalPolicyComplianceStatus \<Rightarrow> agg_row list \<Rightarrow> agg_row list" where
  "put_agg hub m es =
     (if \<exists>e \<in> set es. agg_is hub (min_PolicyID m) e
      then map (\<lambda>e. if agg_is hub (min_PolicyID m) e then agg_set (min_AppliedClusters m) (min_NonCompliantClusters m) e else e) es
      else es @ [(min_PolicyID m, hub, min_AppliedClusters m, min_NonCompliantClusters m)])"

lemma agg_columns: "columns agg_table = [''id'', ''leaf_hub_name'', ''applied_clusters'', ''non_compliant_clusters'']"
  by (simp add: columns_def names_defs)

lemma agg_fields:
  "field_at (columns agg_table) ''leaf_hub_name'' (agg_to_row e) = AStr (fst (snd e))"
  "field_at (columns agg_table) ''id'' (agg_to_row e) = AStr (fst e)"
  by (cases e; simp add: agg_columns field_at_def)+

lemma agg_is_iff: "agg_is hub p e \<longleftrightarrow> fst (snd e) = hub \<and> fst e = p"
  by (cases e) auto

lemma agg_set_eq: "agg_set a n e = (fst e, fst (snd e), a, n)"
  by (cases e) auto

lemma InsertOrUpdate_put:
  assumes "d agg_table = map agg_to_row es"
    and "InsertOrUpdateAggregatedPolicyCompliance c StatusSchema MinimalComplianceTable hub (min_PolicyID m)
      (min_AppliedClusters m) (min_NonCompliantClusters m) d = (None, d')"
  shows "d' = d(agg_table := map agg_to_row (put_agg hub m es))"
proof -
  have upd: "(agg_to_row e)[column_index (columns agg_table) ''applied_clusters'' := AInt a,
      column_index (columns agg_table) ''non_compliant_clusters'' := AInt n] = agg_to_row (agg_set a n e)" for e a n
    by (cases e) (simp add: agg_columns)
  show ?thesis
    using assms
    by (auto simp: InsertOrUpdateAggregatedPolicyCompliance_def Let_def agg_fields put_agg_def agg_is_iff upd split: if_splits)
qed

lemma DeleteAll_filter:
  assumes "d agg_table = map agg_to_row es"
    and "DeleteAllComplianceRows c StatusSchema MinimalComplianceTable hub p d = (None, d')"
  shows "d' = d(agg_table := map agg_to_row (filter (\<lambda>e. \<not> agg_is hub p e) es))"
  using assms by (auto simp: DeleteAllComplianceRows_def agg_fields agg_is_iff filter_map comp_def split: if_splits)

lemma minimalLoop_puts:
  assumes "d agg_table = map agg_to_row es"
    and "minimalLoop c hub (map MinimalComplianceObject ms) left d = (None, left', d')"
  shows "d' = d(agg_table := map agg_to_row (fold (put_agg hub) ms es)) \<and> set left' = set left - min_PolicyID ` set ms"
  using assms
proof (induction ms arbitrary: d es left)
  case Nil
  then show ?case by (auto simp: fun_upd_idem)
next
  case (Cons m ms)
  obtain d1 where d1: "InsertOrUpdateAggregatedPolicyCompliance c StatusSchema MinimalComplianceTable hub (min_PolicyID m)
      (min_AppliedClusters m) (min_NonCompliantClusters m) d = (None, d1)"
      "minimalLoop c hub (map MinimalComplianceObject ms) (set_remove (min_PolicyID m) left) d1 = (None, left', d')"
    using Cons.prems(2) by (auto split: prod.splits option.splits)
  from InsertOrUpdate_put [OF Cons.prems(1) d1(1)] Cons.IH [OF _ d1(2), of "put_agg hub m es"] show ?case
    by auto
qed

lemma deleteLoop_filters:
  assumes "d agg_table = map agg_to_row es" and "deleteLoop c hub ps d = (None, d')"
  shows "d' = d(agg_table := map agg_to_row (filter (\<lambda>e. \<not> (fst (snd e) = hub \<and> fst e \<in> set ps)) es))"
  using assms
proof (induction ps arbitrary: d es)
  case Nil
  then show ?case by (auto simp: fun_upd_idem)
next
  case (Cons p ps)
  obtain d1 where d1: "DeleteAllComplianceRows c StatusSchema MinimalComplianceTable hub p d = (None, d1)" "deleteLoop c hub ps d1 = (None, d')"
    using Cons.prems(2) by (auto split: prod.splits option.splits)
  have "filter (\<lambda>e. \<not> (fst (snd e) = hub \<and> fst e \<in> set ps)) (filter (\<lambda>e. \<not> agg_is hub p e) es)
      = filter (\<lambda>e. \<not> (fst (snd e) = hub \<and> fst e \<in> set (p # ps))) es"
    by (auto simp: agg_is_iff intro!: filter_cong)
  with DeleteAll_filter [OF Cons.prems(1) d1(1)] Cons.IH [OF _ d1(2), of "filter (\<lambda>e. \<not> agg_is hub p e) es"] show ?case
    by (simp add: fun_eq_iff)
qed

lemma put_agg_mem:
  "(p, hub, a, n) \<in> set (put_agg hub m es) \<longleftrightarrow>
     (if p = min_PolicyID m then a = min_AppliedClusters m \<and> n = min_NonCompliantClusters m else (p, hub, a, n) \<in> set es)"
proof (cases "\<exists>e \<in> set es. agg_is hub (min_PolicyID m) e")
  case True
  then obtain e0 where e0: "e0 \<in> set es" "fst (snd e0) = hub" "fst e0 = min_PolicyID m"
    by (auto simp: agg_is_iff)
  let ?f = "\<lambda>e. if agg_is hub (min_PolicyID m) e then agg_set (min_AppliedClusters m) (min_NonCompliantClusters m) e else e"
  have mem: "(p, hub, a, n) \<in> set (put_agg hub m es) \<longleftrightarrow> (\<exists>e \<in> set es. (p, hub, a, n) = ?f e)"
    unfolding put_agg_def if_P [OF True] set_map image_iff by (rule refl)
  have "(p, hub, a, n) = ?f e \<longleftrightarrow> (if p = min_PolicyID m
      then fst e = p \<and> fst (snd e) = hub \<and> a = min_AppliedClusters m \<and> n = min_NonCompliantClusters m else e = (p, hub, a, n))" for e
    by (cases e) (auto simp: agg_set_eq)
  with e0 show ?thesis
    unfolding mem by auto
next
  case False
  then show ?thesis
    by (force simp: put_agg_def agg_is_iff)
qed

lemma put_agg_other:
  "filter (\<lambda>e. fst (snd e) \<noteq> hub) (put_agg hub m es) = filter (\<lambda>e. fst (snd e) \<noteq> hub) es"
proof -
  have "fst (snd (if agg_is hub p e then agg_set a n e else e)) = fst (snd e)" for p a n e
    by (cases e) simp
  then have "filter (\<lambda>e. fst (snd e) \<noteq> hub) (map (\<lambda>e. if agg_is hub p e then agg_set a n e else e) es)
      = map (\<lambda>e. if agg_is hub p e then agg_set a n e else e) (filter (\<lambda>e. fst (snd e) \<noteq> hub) es)" for p a n
    by (simp add: filter_map comp_def)
  also have "\<dots> p a n = filter (\<lambda>e. fst (snd e) \<noteq> hub) es" for p a n
    by (rule map_idI) (simp add: agg_is_iff)
  finally show ?thesis
    by (simp add: put_agg_def)
qed

lemma puts_agg:
  assumes "distinct (map min_PolicyID ms)"
  shows "(p, hub, a, n) \<in> set (fold (put_agg hub) ms es) \<longleftrightarrow>
     (\<exists>m \<in> set ms. p = min_PolicyID m \<and> a = min_AppliedClusters m \<and> n = min_NonCompliantClusters m)
     \<or> p \<notin> min_PolicyID ` set ms \<and> (p, hub, a, n) \<in> set es"
  using assms
proof (induction ms arbitrary: es)
  case (Cons m ms)
  then show ?case by (auto simp: put_agg_mem split: if_splits)
qed simp

lemma puts_agg_other: "filter (\<lambda>e. fst (snd e) \<noteq> hub) (fold (put_agg hub) ms es) = filter (\<lambda>e. fst (snd e) \<noteq> hub) es"
  by (induction ms arbitrary: es) (simp_all add: put_agg_other)

lemma GetPolicyIDs_agg:
  assumes "rows_delivered c = None" and "\<not> scan_fails c" and "d agg_table = map agg_to_row es"
  shows "\<exists>ids. GetPolicyIDsByLeafHub c d StatusSchema MinimalComplianceTable hub = Inr ids
    \<and> set ids = {p. \<exists>a n. (p, hub, a, n) \<in> set es}"
proof -
  have fold_add: "set (fold (\<lambda>r. set_add (scan_str (hd r))) rows s) = (\<lambda>r. scan_str (hd r)) ` set rows \<union> set s" for rows s
    by (induction rows arbitrary: s) auto
  show ?thesis
    using assms
    by (auto simp: GetPolicyIDsByLeafHub_def scanRows_def select_rows_def agg_fields fold_add filter_map comp_def image_image) (force+)?
qed

text \<open>When the handler of the aggregated compliance ends without error, the table holds for the leaf hub exactly
  the counts of the bundle, and what it held for other leaf hubs.\<close>

theorem handleMinimalComplianceBundle_synced:
  assumes "rows_delivered c = None" and "\<not> scan_fails c" and "range_order ord"
    and "d (StatusSchema, MinimalComplianceTable) = map agg_to_row es"
    and "GetObjects bndl = map MinimalComplianceObject ms" and "distinct (map min_PolicyID ms)"
    and "handleMinimalComplianceBundle ord c bndl d = (None, d')"
  shows "\<exists>es'. d' = d((StatusSchema, MinimalComplianceTable) := map agg_to_row es')
    \<and> {(p, a, n). (p, GetLeafHubName bndl, a, n) \<in> set es'}
        = (\<lambda>m. (min_PolicyID m, min_AppliedClusters m, min_NonCompliantClusters m)) ` set ms
    \<and> filter (\<lambda>e. fst (snd e) \<noteq> GetLeafHubName bndl) es' = filter (\<lambda>e. fst (snd e) \<noteq> GetLeafHubName bndl) es"
proof -
  let ?hub = "GetLeafHubName bndl"
  obtain ids where ids: "GetPolicyIDsByLeafHub c d StatusSchema MinimalComplianceTable ?hub = Inr ids"
      "set ids = {p. \<exists>a n. (p, ?hub, a, n) \<in> set es}"
    using GetPolicyIDs_agg [where d = d and es = es, OF assms(1,2,4)] by blast
  obtain left d1 where loops: "minimalLoop c ?hub (map MinimalComplianceObject ms) ids d = (None, left, d1)" "deleteLoop c ?hub (ord left) d1 = (None, d')"
    using assms(7) ids(1) assms(5) by (auto simp: handleMinimalComplianceBundle_def split: prod.splits option.splits)
  let ?es1 = "fold (put_agg ?hub) ms es"
  let ?es2 = "filter (\<lambda>e. \<not> (fst (snd e) = ?hub \<and> fst e \<in> set (ord left))) ?es1"
  have d1: "d1 = d(agg_table := map agg_to_row ?es1)" "set left = set ids - min_PolicyID ` set ms"
    using minimalLoop_puts [OF assms(4) loops(1)] by auto
  then have "d' = d(agg_table := map agg_to_row ?es2)"
    using deleteLoop_filters [OF _ loops(2), of ?es1] by simp
  moreover have "{(p, a, n). (p, ?hub, a, n) \<in> set ?es2} = (\<lambda>m. (min_PolicyID m, min_AppliedClusters m, min_NonCompliantClusters m)) ` set ms"
    using puts_agg [OF assms(6)] range_order_set [OF assms(3)] d1(2) ids(2) by auto
  moreover have "filter (\<lambda>e. fst (snd e) \<noteq> ?hub) ?es2 = filter (\<lambda>e. fst (snd e) \<noteq> ?hub) es"
    unfolding puts_agg_other [symmetric, of ?hub es ms] by (auto intro!: filter_cong)
  ultimately show ?thesis by blast
qed

theorem handleMinimalComplianceBundle_synced_witness:
  "\<exists>es'. snd (handleMinimalComplianceBundle id sample_conn
        (MinimalComplianceStatusBundle \<lparr>mcs_Objects = [\<lparr>min_PolicyID = ''p1'', min_RemediationAction = ''inform'', min_NonCompliantClusters = 1, min_AppliedClusters = 3\<rparr>],
           mcs_LeafHubName = ''hub1'', mcs_BundleVersion = NewBundleVersion 1 1\<rparr>)
        (\<lambda>_. map agg_to_row [(''p0'', ''hub1'', 2, 2), (''p0'', ''hub2'', 4, 0)]))
      = (\<lambda>_. map agg_to_row [(''p0'', ''hub1'', 2, 2), (''p0'', ''hub2'', 4, 0)])((StatusSchema, MinimalComplianceTable) := map agg_to_row es')
    \<and> {(p, a, n). (p, ''hub1'', a, n) \<in> set es'} = {(''p1'', 3, 1)}
    \<and> filter (\<lambda>e. fst (snd e) \<noteq> ''hub1'') es' = [(''p0'', ''hub2'', 4, 0)]"
proof -
  let ?ms = "[\<lparr>min_PolicyID = ''p1'', min_RemediationAction = ''inform'', min_NonCompliantClusters = 1, min_AppliedClusters = 3\<rparr>]"
  let ?b = "MinimalComplianceStatusBundle \<lparr>mcs_Objects = ?ms, mcs_LeafHubName = ''hub1'', mcs_BundleVersion = NewBundleVersion 1 1\<rparr>"
  let ?es = "[(''p0'', ''hub1'', 2, 2), (''p0'', ''hub2'', 4, 0)]"
  obtain d' where "handleMinimalComplianceBundle id sample_conn ?b (\<lambda>_. map agg_to_row ?es) = (None, d')"
    by (simp add: handleMinimalComplianceBundle_def GetPolicyIDsByLeafHub_def scanRows_def select_rows_def sample_conn_def columns_def names_defs
        field_at_def set_add_def set_remove_def InsertOrUpdateAggregatedPolicyCompliance_def DeleteAllComplianceRows_def Let_def)
  then show ?thesis
    using handleMinimalComplianceBundle_synced [OF sample_conn_reads range_order_id, of "\<lambda>_. map agg_to_row ?es" ?es ?b ?ms d'] by auto
qed

text \<open>A control-info bundle records the time of its arrival as the last heartbeat of its leaf hub and leaves the
  heartbeats of the others; a failing statement leaves the table as it is and is reported.\<close>

theorem handleControlInfoBundle_heartbeat:
  "\<exists>t'. handleControlInfoBundle c now bndl d =
       (if pool_ExecFails c d then (Some errExec, d) else (None, d((StatusSchema, LeafHubHeartbeatsTableName) := t')))
     \<and> [AStr (GetLeafHubName bndl), AStr now] \<in> set t'
     \<and> filter (\<lambda>r. hd r \<noteq> AStr (GetLeafHubName bndl)) t'
        = filter (\<lambda>r. hd r \<noteq> AStr (GetLeafHubName bndl)) (d (StatusSchema, LeafHubHeartbeatsTableName))"
proof -
  let ?hub = "AStr (GetLeafHubName bndl)" and ?t = "d (StatusSchema, LeafHubHeartbeatsTableName)"
  let ?new = "if \<exists>r \<in> set ?t. hd r = ?hub then map (\<lambda>r. if hd r = ?hub then [?hub, AStr now] else r) ?t else ?t @ [[?hub, AStr now]]"
  have "filter (\<lambda>r. hd r \<noteq> ?hub) (map (\<lambda>r. if hd r = ?hub then [?hub, AStr now] else r) t) = filter (\<lambda>r. hd r \<noteq> ?hub) t" for t
    by (induction t) auto
  then show ?thesis
    by (intro exI [of _ ?new]) (auto simp: handleControlInfoBundle_def UpdateHeartbeat_def Let_def)
qed

end
