(* ===== verification/GH_AgentBundles.thy ===== *)
theory GH_AgentBundles
  imports GH_DeltaMerge
begin

text \<open>
  The status bundles the agent of a leaf hub maintains (\<open>agent/pkg/status/bundle\<close> and
  \<open>bundle/grc\<close>, \<open>bundle/controlinfo\<close>): what \<open>UpdateObject\<close> and \<open>DeleteObject\<close> of
  each bundle do with an object, and when they increment the generation that makes the bundle be sent.

  A policy is an object with a policy part. The mutexes of the bundles are not modelled: the
  controller serialises the calls by its own lock (\<open>GH_StatusSync\<close>).
\<close>

section \<open>Objects\<close>

record CompliancePerClusterStatus =
  ClusterName :: string
  ComplianceState :: string

record PolicyPart =
  RemediationAction :: string
  StatusStatus :: "CompliancePerClusterStatus list"

text \<open>An object as the agent reads it; \<open>obj_policy\<close> is \<open>None\<close> when it is not a \<open>*policiesv1.Policy\<close>.\<close>

record agentObject = k8s_object +
  obj_namespace :: string
  obj_labels :: "(string, string) gomap"
  obj_finalizers :: "string list"
  obj_deleting :: bool
  obj_policy :: "PolicyPart option"

definition policiesv1_Compliant :: string where "policiesv1_Compliant = ''Compliant''"
definition policiesv1_NonCompliant :: string where "policiesv1_NonCompliant = ''NonCompliant''"
definition unknownComplianceStatus :: string where "unknownComplianceStatus = ''unknown''"

text \<open>\<open>None\<close> is a false second result: the object has no id.\<close>

type_synonym ExtractObjIDFunc = "agentObject \<Rightarrow> string option"

definition ContainsString :: "string list \<Rightarrow> string \<Rightarrow> bool" where
  "ContainsString slce s \<longleftrightarrow> (\<exists>item \<in> set slce. item = s)"

section \<open>The generic bundle\<close>

record GenericStatusBundle =
  gsb_Objects :: "agentObject list"
  gsb_LeafHubName :: string
  gsb_BundleVersion :: BundleVersion

definition NewGenericStatusBundle :: "string \<Rightarrow> uint64 \<Rightarrow> GenericStatusBundle" where
  "NewGenericStatusBundle leafHubName incarnation =
     \<lparr>gsb_Objects = [], gsb_LeafHubName = leafHubName, gsb_BundleVersion = NewBundleVersion incarnation 0\<rparr>"

definition gsb_getObjectIndexByUID :: "string \<Rightarrow> GenericStatusBundle \<Rightarrow> nat option" where
  "gsb_getObjectIndexByUID uid b = find_index (\<lambda>object. obj_uid object = uid) (gsb_Objects b)"

definition gsb_UpdateObject :: "(agentObject \<Rightarrow> agentObject) \<Rightarrow> agentObject \<Rightarrow> GenericStatusBundle \<Rightarrow> GenericStatusBundle" where
  "gsb_UpdateObject manipulateObjFunc obj b =
     (let object = manipulateObjFunc obj in
      case gsb_getObjectIndexByUID (obj_uid object) b of
        None \<Rightarrow> b\<lparr>gsb_Objects := gsb_Objects b @ [object], gsb_BundleVersion := incrGeneration (gsb_BundleVersion b)\<rparr>
      | Some index \<Rightarrow>
          if obj_resourceVersion object = obj_resourceVersion (gsb_Objects b ! index) then b
          else b\<lparr>gsb_Objects := (gsb_Objects b)[index := object], gsb_BundleVersion := incrGeneration (gsb_BundleVersion b)\<rparr>)"

definition gsb_DeleteObject :: "agentObject \<Rightarrow> GenericStatusBundle \<Rightarrow> GenericStatusBundle" where
  "gsb_DeleteObject object b =
     (case gsb_getObjectIndexByUID (obj_uid object) b of
        None \<Rightarrow> b
      | Some index \<Rightarrow> b\<lparr>gsb_Objects := remove_nth index (gsb_Objects b), gsb_BundleVersion := incrGeneration (gsb_BundleVersion b)\<rparr>)"

section \<open>Clusters per policy\<close>

definition NewClustersPerPolicyBundle :: "string \<Rightarrow> uint64 \<Rightarrow> BaseClustersPerPolicyBundle" where
  "NewClustersPerPolicyBundle leafHubName incarnation =
     \<lparr>cpp_Objects = [], cpp_LeafHubName = leafHubName, cpp_BundleVersion = NewBundleVersion incarnation 0\<rparr>"

definition cpp_getObjectIndexByUID :: "string \<Rightarrow> BaseClustersPerPolicyBundle \<Rightarrow> nat option" where
  "cpp_getObjectIndexByUID uid b = find_index (\<lambda>object. PolicyID object = uid) (cpp_Objects b)"

fun getClusterStatuses :: "CompliancePerClusterStatus list \<Rightarrow> string list \<times> string list \<times> string list \<times> string list" where
  "getClusterStatuses [] = ([], [], [], [])"
| "getClusterStatuses (clusterStatus # rest) =
     (let (compliantClusters, nonCompliantClusters, unknownComplianceClusters, allClusters) = getClusterStatuses rest;
          name = ClusterName clusterStatus
      in if ComplianceState clusterStatus = policiesv1_Compliant
         then (name # compliantClusters, nonCompliantClusters, unknownComplianceClusters, name # allClusters)
         else if ComplianceState clusterStatus = policiesv1_NonCompliant
         then (compliantClusters, name # nonCompliantClusters, unknownComplianceClusters, name # allClusters)
         else (compliantClusters, nonCompliantClusters, name # unknownComplianceClusters, name # allClusters))"

definition getClustersPerPolicy :: "string \<Rightarrow> PolicyPart \<Rightarrow> PolicyGenericComplianceStatus" where
  "getClustersPerPolicy originPolicyID policy =
     (case getClusterStatuses (StatusStatus policy) of
        (compliantClusters, nonCompliantClusters, unknownComplianceClusters, _) \<Rightarrow>
          \<lparr>PolicyID = originPolicyID, CompliantClusters = compliantClusters, NonCompliantClusters = nonCompliantClusters,
           UnknownComplianceClusters = unknownComplianceClusters\<rparr>)"

definition clusterListContains :: "string list \<Rightarrow> string list \<Rightarrow> bool" where
  "clusterListContains subsetClusters allClusters \<longleftrightarrow> (\<forall>clusterName \<in> set subsetClusters. ContainsString allClusters clusterName)"

text \<open>The updated status and whether the list of clusters changed.\<close>

definition cpp_updateObjectIfChanged :: "PolicyGenericComplianceStatus \<Rightarrow> PolicyPart \<Rightarrow> PolicyGenericComplianceStatus \<times> bool" where
  "cpp_updateObjectIfChanged old policy =
     (case getClusterStatuses (StatusStatus policy) of
        (newCompliantClusters, newNonCompliantClusters, newUnknownClusters, newClusters) \<Rightarrow>
          (old\<lparr>CompliantClusters := newCompliantClusters, NonCompliantClusters := newNonCompliantClusters,
               UnknownComplianceClusters := newUnknownClusters\<rparr>,
           length (CompliantClusters old) + length (NonCompliantClusters old) + length (UnknownComplianceClusters old) \<noteq> length newClusters
           \<or> \<not> clusterListContains (CompliantClusters old) newClusters
           \<or> \<not> clusterListContains (NonCompliantClusters old) newClusters
           \<or> \<not> clusterListContains (UnknownComplianceClusters old) newClusters))"

definition cpp_UpdateObject :: "ExtractObjIDFunc \<Rightarrow> agentObject \<Rightarrow> BaseClustersPerPolicyBundle \<Rightarrow> BaseClustersPerPolicyBundle" where
  "cpp_UpdateObject extractObjIDFunc object b =
     (case obj_policy object of None \<Rightarrow> b | Some policy \<Rightarrow>
      (case extractObjIDFunc object of None \<Rightarrow> b | Some originPolicyID \<Rightarrow>
       (case cpp_getObjectIndexByUID originPolicyID b of
          None \<Rightarrow> b\<lparr>cpp_Objects := cpp_Objects b @ [getClustersPerPolicy originPolicyID policy],
                    cpp_BundleVersion := incrGeneration (cpp_BundleVersion b)\<rparr>
        | Some index \<Rightarrow>
            (let (new, clusterListChanged) = cpp_updateObjectIfChanged (cpp_Objects b ! index) policy;
                 b1 = b\<lparr>cpp_Objects := (cpp_Objects b)[index := new]\<rparr>
             in if clusterListChanged then b1\<lparr>cpp_BundleVersion := incrGeneration (cpp_BundleVersion b1)\<rparr> else b1))))"

definition cpp_DeleteObject :: "ExtractObjIDFunc \<Rightarrow> agentObject \<Rightarrow> BaseClustersPerPolicyBundle \<Rightarrow> BaseClustersPerPolicyBundle" where
  "cpp_DeleteObject extractObjIDFunc object b =
     (case obj_policy object of None \<Rightarrow> b | Some policy \<Rightarrow>
      (case extractObjIDFunc object of None \<Rightarrow> b | Some originPolicyID \<Rightarrow>
       (case cpp_getObjectIndexByUID originPolicyID b of
          None \<Rightarrow> b
        | Some index \<Rightarrow> b\<lparr>cpp_Objects := remove_nth index (cpp_Objects b), cpp_BundleVersion := incrGeneration (cpp_BundleVersion b)\<rparr>)))"

section \<open>Complete compliance status\<close>

text \<open>
  \<open>BaseBundleVersion\<close> is the pointer to the version of the base bundle, so it is read from the base
  bundle when the bundle is marshalled (\<open>GH_StatusSync\<close>); here it keeps the value of creation.
\<close>

definition NewCompleteComplianceStatusBundle :: "string \<Rightarrow> BundleVersion \<Rightarrow> uint64 \<Rightarrow> BaseCompleteComplianceStatusBundle" where
  "NewCompleteComplianceStatusBundle leafHubName baseVersion incarnation =
     \<lparr>ccs_Objects = [], ccs_LeafHubName = leafHubName, ccs_BaseBundleVersion = baseVersion,
      ccs_BundleVersion = NewBundleVersion incarnation 0\<rparr>"

definition ccs_getObjectIndexByUID :: "string \<Rightarrow> BaseCompleteComplianceStatusBundle \<Rightarrow> nat option" where
  "ccs_getObjectIndexByUID uid b = find_index (\<lambda>object. cc_PolicyID object = uid) (ccs_Objects b)"

fun getNonCompliantAndUnknownClusters :: "CompliancePerClusterStatus list \<Rightarrow> string list \<times> string list" where
  "getNonCompliantAndUnknownClusters [] = ([], [])"
| "getNonCompliantAndUnknownClusters (clusterCompliance # rest) =
     (let (nonCompliantClusters, unknownComplianceClusters) = getNonCompliantAndUnknownClusters rest in
      if ComplianceState clusterCompliance = policiesv1_Compliant then (nonCompliantClusters, unknownComplianceClusters)
      else if ComplianceState clusterCompliance = policiesv1_NonCompliant
      then (ClusterName clusterCompliance # nonCompliantClusters, unknownComplianceClusters)
      else (nonCompliantClusters, ClusterName clusterCompliance # unknownComplianceClusters))"

definition ccs_getPolicyComplianceStatus :: "string \<Rightarrow> PolicyPart \<Rightarrow> PolicyCompleteComplianceStatus" where
  "ccs_getPolicyComplianceStatus originPolicyID policy =
     (case getNonCompliantAndUnknownClusters (StatusStatus policy) of
        (nonCompliantClusters, unknownComplianceClusters) \<Rightarrow>
          \<lparr>cc_PolicyID = originPolicyID, cc_NonCompliantClusters = nonCompliantClusters,
           cc_UnknownComplianceClusters = unknownComplianceClusters\<rparr>)"

definition clusterListsEqual :: "string list \<Rightarrow> string list \<Rightarrow> bool" where
  "clusterListsEqual oldClusters newClusters \<longleftrightarrow>
     length oldClusters = length newClusters \<and> (\<forall>newClusterName \<in> set newClusters. ContainsString oldClusters newClusterName)"

definition containsNonCompliantOrUnknownClusters :: "PolicyCompleteComplianceStatus \<Rightarrow> bool" where
  "containsNonCompliantOrUnknownClusters st \<longleftrightarrow>
     \<not> (length (cc_UnknownComplianceClusters st) = 0 \<and> length (cc_NonCompliantClusters st) = 0)"

text \<open>\<open>None\<close>: not changed.\<close>

definition updateBundleIfObjectChanged :: "PolicyCompleteComplianceStatus \<Rightarrow> PolicyPart \<Rightarrow> PolicyCompleteComplianceStatus option" where
  "updateBundleIfObjectChanged old policy =
     (case getNonCompliantAndUnknownClusters (StatusStatus policy) of
        (newNonCompliantClusters, newUnknownComplianceClusters) \<Rightarrow>
          if \<not> clusterListsEqual (cc_NonCompliantClusters old) newNonCompliantClusters
             \<or> \<not> clusterListsEqual (cc_UnknownComplianceClusters old) newUnknownComplianceClusters
          then Some (old\<lparr>cc_NonCompliantClusters := newNonCompliantClusters,
                         cc_UnknownComplianceClusters := newUnknownComplianceClusters\<rparr>)
          else None)"

definition ccs_UpdateObject :: "ExtractObjIDFunc \<Rightarrow> agentObject \<Rightarrow> BaseCompleteComplianceStatusBundle \<Rightarrow> BaseCompleteComplianceStatusBundle" where
  "ccs_UpdateObject extractObjIDFunc object b =
     (case obj_policy object of None \<Rightarrow> b | Some policy \<Rightarrow>
      (case extractObjIDFunc object of None \<Rightarrow> b | Some originPolicyID \<Rightarrow>
       (case ccs_getObjectIndexByUID originPolicyID b of
          None \<Rightarrow>
            (let policyComplianceObject = ccs_getPolicyComplianceStatus originPolicyID policy in
             if containsNonCompliantOrUnknownClusters policyComplianceObject
             then b\<lparr>ccs_Objects := ccs_Objects b @ [policyComplianceObject], ccs_BundleVersion := incrGeneration (ccs_BundleVersion b)\<rparr>
             else b)
        | Some index \<Rightarrow>
            (case updateBundleIfObjectChanged (ccs_Objects b ! index) policy of
               None \<Rightarrow> b
             | Some new \<Rightarrow>
                 (let objs = (ccs_Objects b)[index := new];
                      objs' = (if \<not> containsNonCompliantOrUnknownClusters (objs ! index) then remove_nth index objs else objs)
                  in b\<lparr>ccs_Objects := objs', ccs_BundleVersion := incrGeneration (ccs_BundleVersion b)\<rparr>)))))"

definition ccs_DeleteObject :: "ExtractObjIDFunc \<Rightarrow> agentObject \<Rightarrow> BaseCompleteComplianceStatusBundle \<Rightarrow> BaseCompleteComplianceStatusBundle" where
  "ccs_DeleteObject extractObjIDFunc object b =
     (case obj_policy object of None \<Rightarrow> b | Some policy \<Rightarrow>
      (case extractObjIDFunc object of None \<Rightarrow> b | Some originPolicyID \<Rightarrow>
       (case ccs_getObjectIndexByUID originPolicyID b of
          None \<Rightarrow> b
        | Some index \<Rightarrow> b\<lparr>ccs_Objects := remove_nth index (ccs_Objects b)\<rparr>)))"

section \<open>Delta compliance status\<close>

record policyComplianceStatus =
  compliantClustersSet :: "string goset"
  nonCompliantClustersSet :: "string goset"
  unknownClustersSet :: "string goset"

text \<open>
  The bundle points to its base bundle (the complete compliance bundle) and to the clusters per
  policy bundle; the operations that follow these pointers take what they read as an argument.
\<close>

record DeltaBundle =
  db_base :: BaseDeltaComplianceStatusBundle
  cyclicTransportationBundleID :: int
  complianceRecordsCache :: "(string, policyComplianceStatus) gomap"

definition NewDeltaComplianceStatusBundle :: "string \<Rightarrow> BundleVersion \<Rightarrow> uint64 \<Rightarrow> DeltaBundle" where
  "NewDeltaComplianceStatusBundle leafHubName baseVersion incarnation =
     \<lparr>db_base = \<lparr>dcs_Objects = [], dcs_LeafHubName = leafHubName,
                 dcs_BaseBundleVersion = NewBundleVersion incarnation (Generation baseVersion),
                 dcs_BundleVersion = NewBundleVersion incarnation 0\<rparr>,
      cyclicTransportationBundleID = 0, complianceRecordsCache = []\<rparr>"

abbreviation delta_objects :: "DeltaBundle \<Rightarrow> PolicyGenericComplianceStatus list" where
  "delta_objects b \<equiv> dcs_Objects (db_base b)"

definition set_delta_objects :: "PolicyGenericComplianceStatus list \<Rightarrow> DeltaBundle \<Rightarrow> DeltaBundle" where
  "set_delta_objects objs b = b\<lparr>db_base := (db_base b)\<lparr>dcs_Objects := objs\<rparr>\<rparr>"

definition delta_incrGeneration :: "DeltaBundle \<Rightarrow> DeltaBundle" where
  "delta_incrGeneration b = b\<lparr>db_base := (db_base b)\<lparr>dcs_BundleVersion := incrGeneration (dcs_BundleVersion (db_base b))\<rparr>\<rparr>"

definition syncGenericStatus :: "PolicyGenericComplianceStatus \<Rightarrow> DeltaBundle \<Rightarrow> DeltaBundle" where
  "syncGenericStatus status b =
     b\<lparr>complianceRecordsCache := AList.update (PolicyID status)
         \<lparr>compliantClustersSet = createSetFromSlice (CompliantClusters status),
          nonCompliantClustersSet = createSetFromSlice (NonCompliantClusters status),
          unknownClustersSet = createSetFromSlice (UnknownComplianceClusters status)\<rparr> (complianceRecordsCache b)\<rparr>"

fun updateSpecificPolicyRecordsFromBase :: "string \<Rightarrow> PolicyGenericComplianceStatus list \<Rightarrow> DeltaBundle \<Rightarrow> DeltaBundle" where
  "updateSpecificPolicyRecordsFromBase policyID [] b = b"
| "updateSpecificPolicyRecordsFromBase policyID (status # rest) b =
     (if PolicyID status \<noteq> policyID then updateSpecificPolicyRecordsFromBase policyID rest b
      else syncGenericStatus status b)"

definition updatePolicyRecordsFromBase :: "PolicyGenericComplianceStatus list \<Rightarrow> DeltaBundle \<Rightarrow> DeltaBundle" where
  "updatePolicyRecordsFromBase statuses b = fold syncGenericStatus statuses b"

definition SyncState :: "BundleVersion \<Rightarrow> PolicyGenericComplianceStatus list \<Rightarrow> DeltaBundle \<Rightarrow> DeltaBundle" where
  "SyncState baseVersion clustersPerPolicyObjects b =
     (let b1 = b\<lparr>db_base := (db_base b)\<lparr>dcs_BaseBundleVersion :=
                  BundleVersion (Incarnation (dcs_BaseBundleVersion (db_base b))) (Generation baseVersion)\<rparr>\<rparr>;
          b2 = updatePolicyRecordsFromBase clustersPerPolicyObjects (b1\<lparr>complianceRecordsCache := []\<rparr>)
      in b2\<lparr>cyclicTransportationBundleID := 0\<rparr>)"

definition Reset :: "DeltaBundle \<Rightarrow> DeltaBundle" where
  "Reset b = (set_delta_objects [] b)\<lparr>cyclicTransportationBundleID := cyclicTransportationBundleID b + 1\<rparr>"

definition delta_getObjectIndexByUID :: "string \<Rightarrow> DeltaBundle \<Rightarrow> nat option" where
  "delta_getObjectIndexByUID uid b = find_index (\<lambda>object. PolicyID object = uid) (delta_objects b)"

text \<open>One round of the loop of \<open>getChangedClusters\<close>: the records, and the three lists of changed clusters.\<close>

fun changedClusterStep ::
  "CompliancePerClusterStatus \<Rightarrow> policyComplianceStatus \<times> string list \<times> string list \<times> string list
   \<Rightarrow> policyComplianceStatus \<times> string list \<times> string list \<times> string list" where
  "changedClusterStep clusterCompliance (records, compliantClusters, nonCompliantClusters, unknownComplianceClusters) =
     (let name = ClusterName clusterCompliance in
      if ComplianceState clusterCompliance = policiesv1_Compliant
      then (if name \<in> set (compliantClustersSet records) then (records, compliantClusters, nonCompliantClusters, unknownComplianceClusters)
            else (records\<lparr>compliantClustersSet := set_add name (compliantClustersSet records),
                          nonCompliantClustersSet := set_remove name (nonCompliantClustersSet records),
                          unknownClustersSet := set_remove name (unknownClustersSet records)\<rparr>,
                  compliantClusters @ [name], nonCompliantClusters, unknownComplianceClusters))
      else if ComplianceState clusterCompliance = policiesv1_NonCompliant
      then (if name \<in> set (nonCompliantClustersSet records) then (records, compliantClusters, nonCompliantClusters, unknownComplianceClusters)
            else (records\<lparr>compliantClustersSet := set_remove name (compliantClustersSet records),
                          nonCompliantClustersSet := set_add name (nonCompliantClustersSet records),
                          unknownClustersSet := set_remove name (unknownClustersSet records)\<rparr>,
                  compliantClusters, nonCompliantClusters @ [name], unknownComplianceClusters))
      else (if name \<in> set (unknownClustersSet records) then (records, compliantClusters, nonCompliantClusters, unknownComplianceClusters)
            else (records\<lparr>compliantClustersSet := set_remove name (compliantClustersSet records),
                          nonCompliantClustersSet := set_remove name (nonCompliantClustersSet records),
                          unknownClustersSet := set_add name (unknownClustersSet records)\<rparr>,
                  compliantClusters, nonCompliantClusters, unknownComplianceClusters @ [name])))"

definition getChangedClusters ::
  "PolicyPart \<Rightarrow> policyComplianceStatus \<Rightarrow> policyComplianceStatus \<times> string list \<times> string list \<times> string list" where
  "getChangedClusters policy records = fold changedClusterStep (StatusStatus policy) (records, [], [], [])"

text \<open>The records afterwards, and the status; \<open>None\<close> is \<open>errPolicyStatusUnchanged\<close>.\<close>

definition delta_getPolicyComplianceStatus ::
  "string \<Rightarrow> PolicyPart \<Rightarrow> policyComplianceStatus \<Rightarrow> policyComplianceStatus \<times> PolicyGenericComplianceStatus option" where
  "delta_getPolicyComplianceStatus originPolicyID policy records =
     (case getChangedClusters policy records of
        (records', compliantClusters, nonCompliantClusters, unknownComplianceClusters) \<Rightarrow>
          (records',
           if length compliantClusters + length nonCompliantClusters + length unknownComplianceClusters = 0 then None
           else Some \<lparr>PolicyID = originPolicyID, CompliantClusters = compliantClusters, NonCompliantClusters = nonCompliantClusters,
                      UnknownComplianceClusters = unknownComplianceClusters\<rparr>))"

text \<open>\<open>existingPolicyState\<close>, from the lists of a status over a given map.\<close>

definition putStates :: "PolicyGenericComplianceStatus \<Rightarrow> (string, string) gomap \<Rightarrow> (string, string) gomap" where
  "putStates status m =
     fold (\<lambda>cluster. AList.update cluster unknownComplianceStatus) (UnknownComplianceClusters status)
       (fold (\<lambda>cluster. AList.update cluster policiesv1_NonCompliant) (NonCompliantClusters status)
         (fold (\<lambda>cluster. AList.update cluster policiesv1_Compliant) (CompliantClusters status) m))"

definition getExistingPolicyState :: "PolicyGenericComplianceStatus \<Rightarrow> (string, string) gomap" where
  "getExistingPolicyState status = putStates status []"

definition updatePolicyComplianceStatus ::
  "(string list \<Rightarrow> string list) \<Rightarrow> PolicyGenericComplianceStatus \<Rightarrow> PolicyGenericComplianceStatus \<Rightarrow> PolicyGenericComplianceStatus" where
  "updatePolicyComplianceStatus ord new old =
     (let m = putStates new (getExistingPolicyState old);
          ks = ord (map fst m);
          state = (\<lambda>cluster. the (map_of m cluster))
      in old\<lparr>CompliantClusters := filter (\<lambda>cluster. state cluster = policiesv1_Compliant) ks,
             NonCompliantClusters := filter (\<lambda>cluster. state cluster = policiesv1_NonCompliant) ks,
             UnknownComplianceClusters := filter (\<lambda>cluster. state cluster \<notin> {policiesv1_Compliant, policiesv1_NonCompliant}) ks\<rparr>)"

definition delta_UpdateObject ::
  "(string list \<Rightarrow> string list) \<Rightarrow> ExtractObjIDFunc \<Rightarrow> PolicyGenericComplianceStatus list \<Rightarrow> agentObject \<Rightarrow> DeltaBundle \<Rightarrow> DeltaBundle" where
  "delta_UpdateObject ord extractObjIDFunc clustersPerPolicyObjects object b =
     (case obj_policy object of None \<Rightarrow> b | Some policy \<Rightarrow>
      (case extractObjIDFunc object of None \<Rightarrow> b | Some originPolicyID \<Rightarrow>
       (case map_of (complianceRecordsCache b) originPolicyID of
          None \<Rightarrow> updateSpecificPolicyRecordsFromBase originPolicyID clustersPerPolicyObjects b
        | Some records \<Rightarrow>
            (let (records', policyComplianceObject) = delta_getPolicyComplianceStatus originPolicyID policy records;
                 b1 = b\<lparr>complianceRecordsCache := AList.update originPolicyID records' (complianceRecordsCache b)\<rparr>
             in case policyComplianceObject of
                  None \<Rightarrow> b1
                | Some new \<Rightarrow>
                    (case delta_getObjectIndexByUID originPolicyID b1 of
                       None \<Rightarrow> delta_incrGeneration (set_delta_objects (delta_objects b1 @ [new]) b1)
                     | Some index \<Rightarrow>
                         delta_incrGeneration (set_delta_objects
                           ((delta_objects b1)[index := updatePolicyComplianceStatus ord new (delta_objects b1 ! index)]) b1))))))"

definition delta_DeleteObject :: "ExtractObjIDFunc \<Rightarrow> agentObject \<Rightarrow> DeltaBundle \<Rightarrow> DeltaBundle" where
  "delta_DeleteObject extractObjIDFunc object b =
     (case obj_policy object of None \<Rightarrow> b | Some policy \<Rightarrow>
      (case extractObjIDFunc object of None \<Rightarrow> b | Some originPolicyID \<Rightarrow>
       (case delta_getObjectIndexByUID originPolicyID b of
          None \<Rightarrow> b
        | Some index \<Rightarrow> (set_delta_objects (remove_nth index (delta_objects b)) b)
            \<lparr>complianceRecordsCache := AList.delete originPolicyID (complianceRecordsCache b)\<rparr>)))"

section \<open>Minimal compliance status\<close>

definition NewMinimalComplianceStatusBundle :: "string \<Rightarrow> uint64 \<Rightarrow> BaseMinimalComplianceStatusBundle" where
  "NewMinimalComplianceStatusBundle leafHubName incarnation =
     \<lparr>mcs_Objects = [], mcs_LeafHubName = leafHubName, mcs_BundleVersion = NewBundleVersion incarnation 0\<rparr>"

definition mcs_getObjectIndexByUID :: "string \<Rightarrow> BaseMinimalComplianceStatusBundle \<Rightarrow> nat option" where
  "mcs_getObjectIndexByUID uid b = find_index (\<lambda>object. min_PolicyID object = uid) (mcs_Objects b)"

definition getNumOfClusters :: "PolicyPart \<Rightarrow> int \<times> int" where
  "getNumOfClusters policy =
     (int (length (StatusStatus policy)),
      fold (\<lambda>clusterCompliance n. if ComplianceState clusterCompliance \<noteq> policiesv1_Compliant then n + 1 else n) (StatusStatus policy) 0)"

definition getMinimalPolicyComplianceStatus :: "string \<Rightarrow> PolicyPart \<Rightarrow> MinimalPolicyComplianceStatus" where
  "getMinimalPolicyComplianceStatus originPolicyID policy =
     (case getNumOfClusters policy of (appliedClusters, nonCompliantClusters) \<Rightarrow>
        \<lparr>min_PolicyID = originPolicyID, min_RemediationAction = RemediationAction policy,
         min_NonCompliantClusters = nonCompliantClusters, min_AppliedClusters = appliedClusters\<rparr>)"

definition mcs_updateObjectIfChanged :: "MinimalPolicyComplianceStatus \<Rightarrow> PolicyPart \<Rightarrow> MinimalPolicyComplianceStatus option" where
  "mcs_updateObjectIfChanged old policy =
     (case getNumOfClusters policy of (appliedClusters, nonCompliantClusters) \<Rightarrow>
        if min_RemediationAction old \<noteq> RemediationAction policy
        then Some (old\<lparr>min_RemediationAction := RemediationAction policy, min_AppliedClusters := appliedClusters,
                       min_NonCompliantClusters := nonCompliantClusters\<rparr>)
        else if min_AppliedClusters old \<noteq> appliedClusters
        then Some (old\<lparr>min_AppliedClusters := appliedClusters, min_NonCompliantClusters := nonCompliantClusters\<rparr>)
        else if min_NonCompliantClusters old \<noteq> nonCompliantClusters
        then Some (old\<lparr>min_NonCompliantClusters := nonCompliantClusters\<rparr>)
        else None)"

definition mcs_UpdateObject :: "agentObject \<Rightarrow> BaseMinimalComplianceStatusBundle \<Rightarrow> BaseMinimalComplianceStatusBundle" where
  "mcs_UpdateObject object b =
     (case obj_policy object of None \<Rightarrow> b | Some policy \<Rightarrow>
      (case map_of (obj_annotations object) OriginOwnerReferenceAnnotation of None \<Rightarrow> b | Some originPolicyID \<Rightarrow>
       (case mcs_getObjectIndexByUID originPolicyID b of
          None \<Rightarrow> b\<lparr>mcs_Objects := mcs_Objects b @ [getMinimalPolicyComplianceStatus originPolicyID policy],
                    mcs_BundleVersion := incrGeneration (mcs_BundleVersion b)\<rparr>
        | Some index \<Rightarrow>
            (case mcs_updateObjectIfChanged (mcs_Objects b ! index) policy of
               None \<Rightarrow> b
             | Some new \<Rightarrow> b\<lparr>mcs_Objects := (mcs_Objects b)[index := new], mcs_BundleVersion := incrGeneration (mcs_BundleVersion b)\<rparr>))))"

definition mcs_DeleteObject :: "agentObject \<Rightarrow> BaseMinimalComplianceStatusBundle \<Rightarrow> BaseMinimalComplianceStatusBundle" where
  "mcs_DeleteObject object b =
     (case obj_policy object of None \<Rightarrow> b | Some policy \<Rightarrow>
      (case map_of (obj_annotations object) OriginOwnerReferenceAnnotation of None \<Rightarrow> b | Some originPolicyID \<Rightarrow>
       (case mcs_getObjectIndexByUID originPolicyID b of
          None \<Rightarrow> b
        | Some index \<Rightarrow> b\<lparr>mcs_Objects := remove_nth index (mcs_Objects b), mcs_BundleVersion := incrGeneration (mcs_BundleVersion b)\<rparr>)))"

section \<open>Control info\<close>

definition controlinfo_NewBundle :: "string \<Rightarrow> uint64 \<Rightarrow> baseBundle" where
  "controlinfo_NewBundle leafHubName incarnation = \<lparr>bb_LeafHubName = leafHubName, bb_BundleVersion = NewBundleVersion incarnation 0\<rparr>"

definition controlinfo_UpdateObject :: "baseBundle \<Rightarrow> baseBundle" where
  "controlinfo_UpdateObject b = b\<lparr>bb_BundleVersion := incrGeneration (bb_BundleVersion b)\<rparr>"

end
