(* ===== verification/GH_AgentProps.thy ===== *)
theory GH_AgentProps
  imports GH_AgentBundles GH_PolicySync
begin

text \<open>
  What the agent's bundles promise. The locale \<open>status_bundle\<close> is the interface \<open>Bundle\<close> of the
  agent as its controller relies on it: every call leaves the version or increments its generation.
  \<open>tracked_bundle\<close> adds that a call that leaves the version leaves the content, so that comparing
  versions never misses a change. The later sections say what the policy bundles contain after any
  history of updates and deletions.
\<close>

section \<open>The Bundle interface of the agent\<close>

datatype event = Updated agentObject | Deleted agentObject

fun event_object :: "event \<Rightarrow> agentObject" where
  "event_object (Updated obj) = obj"
| "event_object (Deleted obj) = obj"

definition advance :: "nat \<Rightarrow> BundleVersion \<Rightarrow> BundleVersion" where
  "advance k v = BundleVersion (Incarnation v) (Generation v + of_nat k)"

lemma advance_0 [simp]: "advance 0 v = v"
  by (simp add: advance_def)

lemma advance_incr: "advance k (incrGeneration v) = advance (Suc k) v"
  by (simp add: advance_def incrGeneration_def add.assoc)

lemma incrGeneration_neq [simp]: "incrGeneration v \<noteq> v"
  by (cases v) (simp add: incrGeneration_def)

lemma advance_newer:
  assumes "0 < k" and "unat (Generation v) + k < 2 ^ 64"
  shows "NewerThan (advance k v) (Some v)"
proof -
  have "unat (of_nat k :: 64 word) = k"
    using assms(2) by (simp add: unat_of_nat)
  then have "unat (Generation v + of_nat k) = unat (Generation v) + k"
    using assms(2) by (simp add: unat_word_ariths)
  then show ?thesis
    using assms(1) by (simp add: advance_def less_BundleVersion_def word_less_nat_alt)
qed

locale status_bundle =
  fixes upd del :: "agentObject \<Rightarrow> 'b \<Rightarrow> 'b"
    and version :: "'b \<Rightarrow> BundleVersion"
    and good :: "agentObject \<Rightarrow> bool"
    and ok :: "'b \<Rightarrow> bool"
  assumes upd_ok: "good obj \<Longrightarrow> ok b \<Longrightarrow> ok (upd obj b)" and del_ok: "ok b \<Longrightarrow> ok (del obj b)"
    and upd_version: "version (upd obj b) \<in> {version b, incrGeneration (version b)}"
    and del_version: "version (del obj b) \<in> {version b, incrGeneration (version b)}"
begin

definition handle :: "event \<Rightarrow> 'b \<Rightarrow> 'b" where
  "handle e b = (case e of Updated obj \<Rightarrow> upd obj b | Deleted obj \<Rightarrow> del obj b)"

abbreviation run :: "event list \<Rightarrow> 'b \<Rightarrow> 'b" where
  "run es \<equiv> fold handle es"

lemma handle_ok: "good (event_object e) \<Longrightarrow> ok b \<Longrightarrow> ok (handle e b)"
  by (cases e) (simp_all add: handle_def upd_ok del_ok)

lemma run_ok: "list_all (\<lambda>e. good (event_object e)) es \<Longrightarrow> ok b \<Longrightarrow> ok (run es b)"
  by (induction es arbitrary: b) (simp_all add: handle_ok)

lemma handle_version: "version (handle e b) \<in> {version b, incrGeneration (version b)}"
  using upd_version del_version by (cases e) (simp_all add: handle_def)

lemma run_version: "\<exists>k \<le> length es. version (run es b) = advance k (version b)"
proof (induction es arbitrary: b)
  case Nil
  then show ?case by (auto intro: exI [of _ 0])
next
  case (Cons e es)
  obtain k where k: "k \<le> length es" "version (run es (handle e b)) = advance k (version (handle e b))"
    using Cons.IH by blast
  consider "version (handle e b) = version b" | "version (handle e b) = incrGeneration (version b)"
    using handle_version [of e b] by blast
  then show ?case
  proof cases
    case 1
    with k show ?thesis by (auto intro!: exI [of _ k])
  next
    case 2
    with k show ?thesis by (auto intro!: exI [of _ "Suc k"] simp: advance_incr)
  qed
qed

end

locale tracked_bundle = status_bundle upd del version good ok
  for upd del :: "agentObject \<Rightarrow> 'b \<Rightarrow> 'b" and version good ok +
  fixes content :: "'b \<Rightarrow> 'c"
  assumes upd_silent: "good obj \<Longrightarrow> ok b \<Longrightarrow> version (upd obj b) = version b \<Longrightarrow> content (upd obj b) = content b"
    and del_silent: "ok b \<Longrightarrow> version (del obj b) = version b \<Longrightarrow> content (del obj b) = content b"
begin

lemma handle_silent: "good (event_object e) \<Longrightarrow> ok b \<Longrightarrow> version (handle e b) = version b \<Longrightarrow> content (handle e b) = content b"
  by (cases e) (simp_all add: handle_def upd_silent del_silent)

lemma run_tracked:
  assumes "list_all (\<lambda>e. good (event_object e)) es" and "ok b"
  shows "\<exists>k \<le> length es. version (run es b) = advance k (version b) \<and> (k = 0 \<longrightarrow> content (run es b) = content b)"
  using assms
proof (induction es arbitrary: b)
  case Nil
  then show ?case by simp
next
  case (Cons e es)
  have "ok (handle e b)"
    using Cons.prems by (simp add: handle_ok)
  then obtain k where k: "k \<le> length es" "version (run es (handle e b)) = advance k (version (handle e b))"
      "k = 0 \<longrightarrow> content (run es (handle e b)) = content (handle e b)"
    using Cons.IH [of "handle e b"] Cons.prems by auto
  consider "version (handle e b) = version b" | "version (handle e b) = incrGeneration (version b)"
    using handle_version [of e b] by blast
  then show ?case
  proof cases
    case 1
    with k Cons.prems show ?thesis by (auto intro!: exI [of _ k] simp: handle_silent)
  next
    case 2
    with k show ?thesis by (auto intro!: exI [of _ "Suc k"] simp: advance_incr)
  qed
qed

lemma change_noticed:
  assumes "list_all (\<lambda>e. good (event_object e)) es" and "ok b" and "unat (Generation (version b)) + length es < 2 ^ 64"
    and "content (run es b) \<noteq> content b"
  shows "NewerThan (version (run es b)) (Some (version b))"
proof -
  obtain k where k: "k \<le> length es" "version (run es b) = advance k (version b)" "k = 0 \<longrightarrow> content (run es b) = content b"
    using run_tracked [OF assms(1,2)] by blast
  then have "0 < k" using assms(4) by (cases k) auto
  then show ?thesis
    unfolding k(2) by (rule advance_newer) (use assms(3) k(1) in linarith)
qed

end

section \<open>Lists with a key\<close>

text \<open>What searching an element by its key and replacing, appending or removing it amounts to.\<close>

definition put_by :: "('a \<Rightarrow> 'k) \<Rightarrow> 'a \<Rightarrow> 'a list \<Rightarrow> 'a list" where
  "put_by f y xs = (if f y \<in> f ` set xs then map (\<lambda>x. if f x = f y then y else x) xs else xs @ [y])"

lemma set_put_by: "x \<in> set (put_by f y xs) \<longleftrightarrow> x = y \<or> (x \<in> set xs \<and> f x \<noteq> f y)"
  by (auto simp: put_by_def image_iff)

lemma distinct_put_by:
  assumes "distinct (map f xs)"
  shows "distinct (map f (put_by f y xs))"
proof -
  have "map f (map (\<lambda>x. if f x = f y then y else x) xs) = map f xs" by simp
  with assms show ?thesis by (auto simp: put_by_def simp del: map_map)
qed

lemma put_by_found:
  assumes "distinct (map f xs)" and "find_index (\<lambda>x. f x = f y) xs = Some i"
  shows "xs[i := y] = put_by f y xs"
proof -
  have "f y \<in> f ` set xs"
    using find_index_SomeD [OF assms(2)] by (metis image_eqI nth_mem)
  then show ?thesis
    using list_update_key [OF assms] by (simp add: put_by_def)
qed

lemma put_by_new:
  assumes "find_index (\<lambda>x. f x = f y) xs = None"
  shows "xs @ [y] = put_by f y xs"
  using assms by (auto simp: put_by_def)

lemma filter_absent:
  assumes "find_index (\<lambda>x. f x = k) xs = None"
  shows "filter (\<lambda>x. f x \<noteq> k) xs = xs"
  using assms by (simp add: filter_id_conv)

lemma put_by_nth:
  assumes "distinct (map f xs)" and "find_index (\<lambda>x. f x = f y) xs = Some i" and "xs ! i = y"
  shows "put_by f y xs = xs"
  using put_by_found [OF assms(1,2)] assms(3) list_update_id [of xs i] by simp

section \<open>The generic bundle\<close>

definition gsb_ok :: "GenericStatusBundle \<Rightarrow> bool" where
  "gsb_ok b \<longleftrightarrow> distinct (map obj_uid (gsb_Objects b))"

lemma gsb_DeleteObject_Objects:
  assumes "gsb_ok b"
  shows "gsb_Objects (gsb_DeleteObject obj b) = filter (\<lambda>o'. obj_uid o' \<noteq> obj_uid obj) (gsb_Objects b)"
  using assms remove_nth_key [of obj_uid "gsb_Objects b" "obj_uid obj"]
  by (auto simp: gsb_DeleteObject_def gsb_getObjectIndexByUID_def gsb_ok_def filter_absent split: option.split simp del: find_index_None_iff)

lemma gsb_UpdateObject_Objects:
  assumes "gsb_ok b" and "gsb_UpdateObject manipulateObjFunc obj b \<noteq> b"
  shows "gsb_Objects (gsb_UpdateObject manipulateObjFunc obj b) = put_by obj_uid (manipulateObjFunc obj) (gsb_Objects b)"
  using assms put_by_new [of obj_uid "manipulateObjFunc obj" "gsb_Objects b"] put_by_found [of obj_uid "gsb_Objects b" "manipulateObjFunc obj"]
  by (auto simp: gsb_UpdateObject_def gsb_getObjectIndexByUID_def gsb_ok_def Let_def split: option.splits if_splits simp del: find_index_None_iff)

interpretation gsb: tracked_bundle "gsb_UpdateObject manipulateObjFunc" gsb_DeleteObject gsb_BundleVersion "\<lambda>obj. True" gsb_ok gsb_Objects
  for manipulateObjFunc
proof
  show "gsb_ok (gsb_UpdateObject manipulateObjFunc obj b)" if "gsb_ok b" for obj b
    using that gsb_UpdateObject_Objects [OF that, of manipulateObjFunc obj] distinct_put_by
    by (cases "gsb_UpdateObject manipulateObjFunc obj b = b") (simp_all add: gsb_ok_def)
  show "gsb_ok (gsb_DeleteObject obj b)" if "gsb_ok b" for obj b
    using that gsb_DeleteObject_Objects [OF that] by (simp add: gsb_ok_def distinct_map_filter)
qed (auto simp: gsb_UpdateObject_def gsb_DeleteObject_def Let_def split: option.splits)

text \<open>A generic bundle is offered for sending after any history of fewer than $2^{64}$ events that changed its
  objects: its version is then newer than the one it had.\<close>

theorem generic_change_noticed:
  assumes "distinct (map obj_uid (gsb_Objects b))" and "unat (Generation (gsb_BundleVersion b)) + length es < 2 ^ 64"
    and "b' = fold (\<lambda>e. case e of Updated obj \<Rightarrow> gsb_UpdateObject manipulateObjFunc obj | Deleted obj \<Rightarrow> gsb_DeleteObject obj) es b"
    and "gsb_Objects b' \<noteq> gsb_Objects b"
  shows "NewerThan (gsb_BundleVersion b') (Some (gsb_BundleVersion b))"
proof -
  have run: "b' = gsb.run manipulateObjFunc es b"
    unfolding assms(3) gsb.handle_def [abs_def] by (rule fun_cong [OF fun_cong [OF arg_cong [where f = fold]]]) (auto simp: fun_eq_iff split: event.split)
  show ?thesis
    using gsb.change_noticed [of es b manipulateObjFunc] assms(1,2,4) unfolding run by (simp add: gsb_ok_def list_all_iff)
qed

section \<open>States of clusters\<close>

definition state_of :: "CompliancePerClusterStatus \<Rightarrow> ComplianceStatus" where
  "state_of s = (if ComplianceState s = policiesv1_Compliant then Compliant
     else if ComplianceState s = policiesv1_NonCompliant then NonCompliant else Unknown)"

definition in_state :: "ComplianceStatus \<Rightarrow> CompliancePerClusterStatus list \<Rightarrow> string list" where
  "in_state st ss = map ClusterName (filter (\<lambda>s. state_of s = st) ss)"

lemma policiesv1_distinct [simp]:
  "policiesv1_Compliant \<noteq> policiesv1_NonCompliant" "policiesv1_NonCompliant \<noteq> policiesv1_Compliant"
  "unknownComplianceStatus \<noteq> policiesv1_Compliant" "unknownComplianceStatus \<noteq> policiesv1_NonCompliant"
  by (simp_all add: policiesv1_Compliant_def policiesv1_NonCompliant_def unknownComplianceStatus_def)

lemma getClusterStatuses_eq:
  "getClusterStatuses ss = (in_state Compliant ss, in_state NonCompliant ss, in_state Unknown ss, map ClusterName ss)"
  by (induction ss) (auto simp: in_state_def state_of_def Let_def)

lemma getNonCompliantAndUnknownClusters_eq:
  "getNonCompliantAndUnknownClusters ss = (in_state NonCompliant ss, in_state Unknown ss)"
  by (induction ss) (auto simp: in_state_def state_of_def Let_def)

lemma in_state_mem: "k \<in> set (in_state st ss) \<longleftrightarrow> (\<exists>s \<in> set ss. ClusterName s = k \<and> state_of s = st)"
  by (auto simp: in_state_def)

lemma in_state_unique:
  assumes "distinct (map ClusterName ss)" and "k \<in> set (in_state st ss)" and "k \<in> set (in_state st' ss)"
  shows "st = st'"
  using assms by (auto simp: in_state_mem distinct_map inj_on_def)

lemma distinct_in_state: "distinct (map ClusterName ss) \<Longrightarrow> distinct (in_state st ss)"
  by (simp add: in_state_def distinct_map_filter)

lemma set_in_states: "set (in_state Compliant ss) \<union> set (in_state NonCompliant ss) \<union> set (in_state Unknown ss) = ClusterName ` set ss"
proof (induction ss)
  case (Cons s ss)
  then show ?case by (cases "state_of s") (auto simp: in_state_def)
qed (simp add: in_state_def)

text \<open>Policies whose status lists each cluster once.\<close>

definition good_policy :: "agentObject \<Rightarrow> bool" where
  "good_policy obj \<longleftrightarrow> (case obj_policy obj of None \<Rightarrow> True | Some policy \<Rightarrow> distinct (map ClusterName (StatusStatus policy)))"

section \<open>Clusters per policy\<close>

definition cpp_ok :: "BaseClustersPerPolicyBundle \<Rightarrow> bool" where
  "cpp_ok b \<longleftrightarrow> distinct (map PolicyID (cpp_Objects b)) \<and> list_all listed_once (cpp_Objects b)"

definition all_clusters :: "PolicyGenericComplianceStatus \<Rightarrow> string set" where
  "all_clusters o' = set (CompliantClusters o') \<union> set (NonCompliantClusters o') \<union> set (UnknownComplianceClusters o')"

text \<open>What the bundle has to announce: which clusters each policy has.\<close>

definition cpp_clusters :: "BaseClustersPerPolicyBundle \<Rightarrow> (string \<times> string set) list" where
  "cpp_clusters b = map (\<lambda>o'. (PolicyID o', all_clusters o')) (cpp_Objects b)"

lemma getClustersPerPolicy_simps [simp]:
  "PolicyID (getClustersPerPolicy p policy) = p"
  "CompliantClusters (getClustersPerPolicy p policy) = in_state Compliant (StatusStatus policy)"
  "NonCompliantClusters (getClustersPerPolicy p policy) = in_state NonCompliant (StatusStatus policy)"
  "UnknownComplianceClusters (getClustersPerPolicy p policy) = in_state Unknown (StatusStatus policy)"
  by (simp_all add: getClustersPerPolicy_def getClusterStatuses_eq)

lemma listed_once_of_policy:
  assumes "distinct (map ClusterName (StatusStatus policy))"
  shows "listed_once (getClustersPerPolicy p policy)"
  using assms distinct_in_state [OF assms]
  by (auto simp: listed_once_def dest: in_state_unique [OF assms])

lemma updated_eq:
  "fst (cpp_updateObjectIfChanged old policy) = getClustersPerPolicy (PolicyID old) policy"
  by (simp add: cpp_updateObjectIfChanged_def getClustersPerPolicy_def getClusterStatuses_eq)

lemma unchanged_clusters:
  assumes "listed_once old" and "distinct (map ClusterName (StatusStatus policy))" and "\<not> snd (cpp_updateObjectIfChanged old policy)"
  shows "all_clusters old = ClusterName ` set (StatusStatus policy)"
proof -
  let ?l = "CompliantClusters old @ NonCompliantClusters old @ UnknownComplianceClusters old"
  have "length ?l = length (StatusStatus policy)" "set ?l \<subseteq> ClusterName ` set (StatusStatus policy)"
    using assms(3) by (auto simp: cpp_updateObjectIfChanged_def getClusterStatuses_eq clusterListContains_def ContainsString_def)
  moreover have "card (set ?l) = length ?l" "card (ClusterName ` set (StatusStatus policy)) = length (StatusStatus policy)"
    using distinct_card [OF assms(1) [unfolded listed_once_def]] distinct_card [OF assms(2)] by simp_all
  ultimately have "set ?l = ClusterName ` set (StatusStatus policy)"
    by (intro card_subset_eq) auto
  then show ?thesis by (auto simp: all_clusters_def)
qed

text \<open>An event that concerns a policy bundle: the policy part and the id of the object.\<close>

definition policy_of :: "ExtractObjIDFunc \<Rightarrow> agentObject \<Rightarrow> (string \<times> PolicyPart) option" where
  "policy_of extractObjIDFunc obj = (case obj_policy obj of None \<Rightarrow> None | Some policy \<Rightarrow>
     (case extractObjIDFunc obj of None \<Rightarrow> None | Some p \<Rightarrow> Some (p, policy)))"

lemma policy_of_Some: "policy_of idf obj = Some (p, policy) \<longleftrightarrow> obj_policy obj = Some policy \<and> idf obj = Some p"
  by (auto simp: policy_of_def split: option.splits)

lemma policy_of_None: "policy_of idf obj = None \<longleftrightarrow> obj_policy obj = None \<or> idf obj = None"
  by (auto simp: policy_of_def split: option.splits)

lemma good_policyD: "good_policy obj \<Longrightarrow> policy_of idf obj = Some (p, policy) \<Longrightarrow> distinct (map ClusterName (StatusStatus policy))"
  by (auto simp: good_policy_def policy_of_def split: option.splits)

lemma cpp_UpdateObject_new:
  assumes "policy_of idf obj = Some (p, policy)" and "find_index (\<lambda>o'. PolicyID o' = p) (cpp_Objects b) = None"
  shows "cpp_UpdateObject idf obj b =
    b\<lparr>cpp_Objects := put_by PolicyID (getClustersPerPolicy p policy) (cpp_Objects b), cpp_BundleVersion := incrGeneration (cpp_BundleVersion b)\<rparr>"
proof -
  have "cpp_Objects b @ [getClustersPerPolicy p policy] = put_by PolicyID (getClustersPerPolicy p policy) (cpp_Objects b)"
    using put_by_new [of PolicyID "getClustersPerPolicy p policy" "cpp_Objects b"] assms(2) by simp
  then show ?thesis
    using assms by (simp add: cpp_UpdateObject_def policy_of_Some cpp_getObjectIndexByUID_def del: find_index_None_iff)
qed

lemma cpp_UpdateObject_found:
  assumes "policy_of idf obj = Some (p, policy)" and "find_index (\<lambda>o'. PolicyID o' = p) (cpp_Objects b) = Some i"
    and "distinct (map PolicyID (cpp_Objects b))"
  shows "cpp_UpdateObject idf obj b =
    b\<lparr>cpp_Objects := put_by PolicyID (getClustersPerPolicy p policy) (cpp_Objects b),
      cpp_BundleVersion := if snd (cpp_updateObjectIfChanged (cpp_Objects b ! i) policy) then incrGeneration (cpp_BundleVersion b) else cpp_BundleVersion b\<rparr>"
proof -
  have "PolicyID (cpp_Objects b ! i) = p"
    using find_index_SomeD [OF assms(2)] by simp
  then have new: "fst (cpp_updateObjectIfChanged (cpp_Objects b ! i) policy) = getClustersPerPolicy p policy"
    using updated_eq by metis
  have put: "(cpp_Objects b)[i := getClustersPerPolicy p policy] = put_by PolicyID (getClustersPerPolicy p policy) (cpp_Objects b)"
    using put_by_found [of PolicyID "cpp_Objects b" "getClustersPerPolicy p policy" i] assms(2,3) by simp
  show ?thesis
    using assms(1,2) new put
    by (auto simp: cpp_UpdateObject_def policy_of_Some cpp_getObjectIndexByUID_def Let_def split: prod.splits)
qed

lemma cpp_UpdateObject_none: "policy_of idf obj = None \<Longrightarrow> cpp_UpdateObject idf obj b = b"
  by (simp add: cpp_UpdateObject_def policy_of_def split: option.splits)

lemmas cpp_UpdateObject_cases = cpp_UpdateObject_none cpp_UpdateObject_new cpp_UpdateObject_found

lemma cpp_UpdateObject_Objects:
  assumes "cpp_ok b"
  shows "cpp_Objects (cpp_UpdateObject idf obj b) =
    (case policy_of idf obj of None \<Rightarrow> cpp_Objects b | Some (p, policy) \<Rightarrow> put_by PolicyID (getClustersPerPolicy p policy) (cpp_Objects b))"
proof (cases "policy_of idf obj")
  case (Some pp)
  obtain p policy where pp: "pp = (p, policy)" by (cases pp)
  show ?thesis
    using assms Some pp
    by (cases "find_index (\<lambda>o'. PolicyID o' = p) (cpp_Objects b)")
       (simp_all add: cpp_UpdateObject_cases cpp_ok_def del: find_index_None_iff)
qed (simp add: cpp_UpdateObject_none)

lemma cpp_DeleteObject_Objects:
  assumes "cpp_ok b"
  shows "cpp_Objects (cpp_DeleteObject idf obj b) =
    (case policy_of idf obj of None \<Rightarrow> cpp_Objects b | Some (p, policy) \<Rightarrow> filter (\<lambda>o'. PolicyID o' \<noteq> p) (cpp_Objects b))"
  using assms remove_nth_key [of PolicyID "cpp_Objects b"]
  by (auto simp: cpp_DeleteObject_def policy_of_def cpp_getObjectIndexByUID_def cpp_ok_def filter_absent split: option.split simp del: find_index_None_iff)

lemma cpp_unchanged:
  assumes "cpp_ok b" and "good_policy obj" and "cpp_BundleVersion (cpp_UpdateObject idf obj b) = cpp_BundleVersion b"
  shows "cpp_clusters (cpp_UpdateObject idf obj b) = cpp_clusters b"
proof (cases "policy_of idf obj")
  case (Some pp)
  obtain p policy where pp: "pp = (p, policy)" by (cases pp)
  have pol: "policy_of idf obj = Some (p, policy)"
    using Some pp by simp
  have dist: "distinct (map PolicyID (cpp_Objects b))" "distinct (map ClusterName (StatusStatus policy))"
    using assms Some pp good_policyD by (auto simp: cpp_ok_def)
  show ?thesis
  proof (cases "find_index (\<lambda>o'. PolicyID o' = p) (cpp_Objects b)")
    case None
    with assms(3) cpp_UpdateObject_new [of idf obj p policy b] Some pp show ?thesis
      by (simp del: find_index_None_iff)
  next
    case (Some i)
    note upd = cpp_UpdateObject_found [OF pol Some dist(1)]
    have i: "i < length (cpp_Objects b)" "PolicyID (cpp_Objects b ! i) = p"
      using find_index_SomeD [OF Some] by auto
    have "listed_once (cpp_Objects b ! i)"
      using assms(1) i by (auto simp: cpp_ok_def list_all_iff)
    moreover have "\<not> snd (cpp_updateObjectIfChanged (cpp_Objects b ! i) policy)"
      using assms(3) unfolding upd by (simp split: if_splits)
    ultimately have "all_clusters (cpp_Objects b ! i) = all_clusters (getClustersPerPolicy p policy)"
      using unchanged_clusters [OF _ dist(2)] set_in_states [of "StatusStatus policy"] by (simp add: all_clusters_def)
    then have "cpp_clusters b = (cpp_clusters b)[i := (p, all_clusters (getClustersPerPolicy p policy))]"
      using i list_update_id [of "cpp_clusters b" i] by (simp add: cpp_clusters_def)
    then show ?thesis
      unfolding upd cpp_clusters_def put_by_found [of PolicyID "cpp_Objects b" "getClustersPerPolicy p policy" i, simplified, OF dist(1) Some, symmetric]
      by (simp add: map_update)
  qed
qed (simp add: cpp_UpdateObject_none)

interpretation cpp: tracked_bundle "cpp_UpdateObject idf" "cpp_DeleteObject idf" cpp_BundleVersion good_policy cpp_ok cpp_clusters
  for idf
proof
  fix obj b
  show "cpp_ok (cpp_UpdateObject idf obj b)" if "good_policy obj" "cpp_ok b"
    using that distinct_put_by [of PolicyID "cpp_Objects b"] good_policyD [OF that(1)] cpp_UpdateObject_Objects [OF that(2)]
    by (auto simp: cpp_ok_def list_all_iff set_put_by listed_once_of_policy split: option.splits)
  show "cpp_ok (cpp_DeleteObject idf obj b)" if "cpp_ok b"
    using that cpp_DeleteObject_Objects [OF that] by (auto simp: cpp_ok_def list_all_iff distinct_map_filter split: option.splits)
qed (auto simp: cpp_unchanged, auto simp: cpp_UpdateObject_def cpp_DeleteObject_def Let_def split: option.splits prod.splits if_splits)

section \<open>Complete compliance\<close>

definition ccs_ok :: "BaseCompleteComplianceStatusBundle \<Rightarrow> bool" where
  "ccs_ok b \<longleftrightarrow> distinct (map cc_PolicyID (ccs_Objects b))
     \<and> (\<forall>o' \<in> set (ccs_Objects b). distinct (cc_NonCompliantClusters o') \<and> distinct (cc_UnknownComplianceClusters o'))"

lemma ccs_getPolicyComplianceStatus_simps [simp]:
  "cc_PolicyID (ccs_getPolicyComplianceStatus p policy) = p"
  "cc_NonCompliantClusters (ccs_getPolicyComplianceStatus p policy) = in_state NonCompliant (StatusStatus policy)"
  "cc_UnknownComplianceClusters (ccs_getPolicyComplianceStatus p policy) = in_state Unknown (StatusStatus policy)"
  by (simp_all add: ccs_getPolicyComplianceStatus_def getNonCompliantAndUnknownClusters_eq)

lemma clusterListsEqual_sets:
  assumes "distinct old" and "distinct new" and "clusterListsEqual old new"
  shows "set old = set new"
proof -
  have "set new \<subseteq> set old" "card (set old) = card (set new)"
    using assms by (auto simp: clusterListsEqual_def ContainsString_def distinct_card)
  then show ?thesis
    by (metis List.finite_set card_subset_eq)
qed

text \<open>
  What the bundle reports of a policy after an update: the clusters of the policy in that state. An
  unchanged policy keeps its lists, which hold the same clusters.
\<close>

definition ccs_lists :: "PolicyCompleteComplianceStatus list \<Rightarrow> ComplianceStatus \<Rightarrow> string \<Rightarrow> string \<Rightarrow> bool" where
  "ccs_lists objs st p k \<longleftrightarrow> (\<exists>o' \<in> set objs. cc_PolicyID o' = p \<and>
     k \<in> set (if st = NonCompliant then cc_NonCompliantClusters o' else cc_UnknownComplianceClusters o'))"

lemma complete_status_lists:
  "complete_status objs p k = (if ccs_lists objs NonCompliant p k then NonCompliant else if ccs_lists objs Unknown p k then Unknown else Compliant)"
  by (auto simp: complete_status_def ccs_lists_def)

lemma ccs_lists_append: "ccs_lists (xs @ ys) st p k \<longleftrightarrow> ccs_lists xs st p k \<or> ccs_lists ys st p k"
  by (auto simp: ccs_lists_def)

lemma ccs_lists_put_by:
  "ccs_lists (put_by cc_PolicyID y xs) st p k \<longleftrightarrow> (if p = cc_PolicyID y then ccs_lists [y] st p k else ccs_lists xs st p k)"
  by (auto simp: ccs_lists_def set_put_by)

lemma ccs_lists_filter: "ccs_lists (filter (\<lambda>o'. cc_PolicyID o' \<noteq> q) xs) st p k \<longleftrightarrow> p \<noteq> q \<and> ccs_lists xs st p k"
  by (auto simp: ccs_lists_def)

lemma ccs_lists_getPolicy:
  assumes "st \<noteq> Compliant"
  shows "ccs_lists [ccs_getPolicyComplianceStatus p policy] st q k \<longleftrightarrow> q = p \<and> k \<in> set (in_state st (StatusStatus policy))"
  using assms by (cases st) (auto simp: ccs_lists_def)

definition same_lists :: "PolicyCompleteComplianceStatus \<Rightarrow> PolicyPart \<Rightarrow> bool" where
  "same_lists old policy \<longleftrightarrow> clusterListsEqual (cc_NonCompliantClusters old) (in_state NonCompliant (StatusStatus policy))
     \<and> clusterListsEqual (cc_UnknownComplianceClusters old) (in_state Unknown (StatusStatus policy))"

lemma updateBundleIfObjectChanged_eq:
  "updateBundleIfObjectChanged old policy = (if same_lists old policy then None else Some (ccs_getPolicyComplianceStatus (cc_PolicyID old) policy))"
  by (auto simp: updateBundleIfObjectChanged_def getNonCompliantAndUnknownClusters_eq same_lists_def ccs_getPolicyComplianceStatus_def)

lemma remove_updated:
  assumes "distinct (map f xs)" and "find_index (\<lambda>x. f x = f y) xs = Some i"
  shows "remove_nth i (xs[i := y]) = filter (\<lambda>x. f x \<noteq> f y) xs"
proof -
  have "remove_nth i (xs[i := y]) = remove_nth i xs"
    by (simp add: remove_nth_def)
  then show ?thesis using remove_nth_key [OF assms] by simp
qed

lemma ccs_UpdateObject_Objects:
  assumes "ccs_ok b" and "policy_of idf obj = Some (p, policy)"
  shows "ccs_Objects (ccs_UpdateObject idf obj b) =
    (let y = ccs_getPolicyComplianceStatus p policy; objs = ccs_Objects b in
     case find_index (\<lambda>o'. cc_PolicyID o' = p) objs of
       None \<Rightarrow> if containsNonCompliantOrUnknownClusters y then put_by cc_PolicyID y objs else objs
     | Some i \<Rightarrow> if same_lists (objs ! i) policy then objs
         else if containsNonCompliantOrUnknownClusters y then put_by cc_PolicyID y objs else filter (\<lambda>o'. cc_PolicyID o' \<noteq> p) objs)"
proof (cases "find_index (\<lambda>o'. cc_PolicyID o' = p) (ccs_Objects b)")
  case None
  then show ?thesis
    using assms(2) put_by_new [of cc_PolicyID "ccs_getPolicyComplianceStatus p policy" "ccs_Objects b"]
    by (simp add: ccs_UpdateObject_def policy_of_Some ccs_getObjectIndexByUID_def Let_def del: find_index_None_iff)
next
  case (Some i)
  let ?y = "ccs_getPolicyComplianceStatus p policy"
  have i: "i < length (ccs_Objects b)" "cc_PolicyID (ccs_Objects b ! i) = p"
    using find_index_SomeD [OF Some] by auto
  have dist: "distinct (map cc_PolicyID (ccs_Objects b))"
    using assms(1) by (simp add: ccs_ok_def)
  have "(ccs_Objects b)[i := ?y] = put_by cc_PolicyID ?y (ccs_Objects b)"
      "remove_nth i ((ccs_Objects b)[i := ?y]) = filter (\<lambda>o'. cc_PolicyID o' \<noteq> p) (ccs_Objects b)"
    using put_by_found [OF dist, of ?y i] remove_updated [OF dist, of ?y i] Some by simp_all
  moreover have "put_by cc_PolicyID ?y (ccs_Objects b) ! i = ?y"
    using calculation(1) nth_list_update_eq [OF i(1), of ?y] by simp
  ultimately show ?thesis
    using assms(2) Some i
    by (simp add: ccs_UpdateObject_def policy_of_Some ccs_getObjectIndexByUID_def updateBundleIfObjectChanged_eq Let_def)
qed

lemma ccs_UpdateObject_none: "policy_of idf obj = None \<Longrightarrow> ccs_UpdateObject idf obj b = b"
  by (simp add: ccs_UpdateObject_def policy_of_def split: option.splits)

lemma ccs_UpdateObject_lists:
  assumes "ccs_ok b" and "good_policy obj" and "policy_of idf obj = Some (p, policy)" and "st \<noteq> Compliant"
  shows "ccs_lists (ccs_Objects (ccs_UpdateObject idf obj b)) st q k \<longleftrightarrow>
    (if q = p then k \<in> set (in_state st (StatusStatus policy)) else ccs_lists (ccs_Objects b) st q k)"
proof -
  let ?y = "ccs_getPolicyComplianceStatus p policy" and ?objs = "ccs_Objects b" and ?ss = "StatusStatus policy"
  have dist: "distinct (map cc_PolicyID ?objs)" "distinct (map ClusterName ?ss)"
    using assms(1,2,3) good_policyD by (auto simp: ccs_ok_def)
  have none: "in_state st ?ss = []" if "\<not> containsNonCompliantOrUnknownClusters ?y"
    using that assms(4) by (cases st) (auto simp: containsNonCompliantOrUnknownClusters_def)
  have put: "ccs_lists (put_by cc_PolicyID ?y ?objs) st q k \<longleftrightarrow> (if q = p then k \<in> set (in_state st ?ss) else ccs_lists ?objs st q k)"
    by (simp add: ccs_lists_put_by ccs_lists_getPolicy [OF assms(4)])
  show ?thesis
  proof (cases "find_index (\<lambda>o'. cc_PolicyID o' = p) ?objs")
    case None
    then have "\<not> ccs_lists ?objs st p k" by (auto simp: ccs_lists_def)
    with put none show ?thesis
      by (auto simp: ccs_UpdateObject_Objects [OF assms(1,3)] None Let_def simp del: find_index_None_iff)
  next
    case (Some i)
    have i: "?objs ! i \<in> set ?objs" "cc_PolicyID (?objs ! i) = p"
      using find_index_SomeD [OF Some] by auto
    have "ccs_lists ?objs st p k \<longleftrightarrow> k \<in> set (in_state st ?ss)" if "same_lists (?objs ! i) policy"
    proof -
      have "ccs_lists ?objs st p k \<longleftrightarrow> ccs_lists [?objs ! i] st p k"
        using i dist(1) by (auto simp: ccs_lists_def distinct_map inj_on_def)
      moreover have "set (cc_NonCompliantClusters (?objs ! i)) = set (in_state NonCompliant ?ss)"
          "set (cc_UnknownComplianceClusters (?objs ! i)) = set (in_state Unknown ?ss)"
        using that i(1) assms(1) distinct_in_state [OF dist(2)] by (auto simp: same_lists_def ccs_ok_def clusterListsEqual_sets)
      ultimately show ?thesis
        using assms(4) i(2) by (cases st) (simp_all add: ccs_lists_def)
    qed
    with put none show ?thesis
      by (auto simp: ccs_UpdateObject_Objects [OF assms(1,3)] Some ccs_lists_filter Let_def)
  qed
qed

lemma ccs_DeleteObject_Objects:
  assumes "ccs_ok b"
  shows "ccs_Objects (ccs_DeleteObject idf obj b) =
    (case policy_of idf obj of None \<Rightarrow> ccs_Objects b | Some (p, policy) \<Rightarrow> filter (\<lambda>o'. cc_PolicyID o' \<noteq> p) (ccs_Objects b))"
  using assms remove_nth_key [of cc_PolicyID "ccs_Objects b"]
  by (auto simp: ccs_DeleteObject_def policy_of_def ccs_getObjectIndexByUID_def ccs_ok_def filter_absent split: option.split simp del: find_index_None_iff)

interpretation ccs: status_bundle "ccs_UpdateObject idf" "ccs_DeleteObject idf" ccs_BundleVersion good_policy ccs_ok for idf
proof
  fix obj b
  show "ccs_ok (ccs_UpdateObject idf obj b)" if "good_policy obj" "ccs_ok b"
  proof (cases "policy_of idf obj")
    case (Some pp)
    obtain p policy where pp: "policy_of idf obj = Some (p, policy)" using Some by (cases pp) simp
    have "distinct (map ClusterName (StatusStatus policy))"
      using good_policyD [OF that(1) pp] .
    then show ?thesis
      using that(2) distinct_put_by [of cc_PolicyID "ccs_Objects b"] ccs_UpdateObject_Objects [OF that(2) pp]
      by (auto simp: ccs_ok_def Let_def set_put_by distinct_in_state distinct_map_filter split: option.splits if_splits simp del: find_index_None_iff)
  qed (simp add: ccs_UpdateObject_none that)
  show "ccs_ok (ccs_DeleteObject idf obj b)" if "ccs_ok b"
    using that ccs_DeleteObject_Objects [OF that] by (auto simp: ccs_ok_def distinct_map_filter split: option.splits)
qed (auto simp: ccs_UpdateObject_def ccs_DeleteObject_def Let_def split: option.splits prod.splits if_splits)

section \<open>What the bundles say after a history\<close>

text \<open>The specification: the statuses of the policies as last seen.\<close>

fun track :: "ExtractObjIDFunc \<Rightarrow> event \<Rightarrow> (string \<rightharpoonup> CompliancePerClusterStatus list) \<Rightarrow> (string \<rightharpoonup> CompliancePerClusterStatus list)" where
  "track idf (Updated obj) L = (case policy_of idf obj of None \<Rightarrow> L | Some (p, policy) \<Rightarrow> L(p \<mapsto> StatusStatus policy))"
| "track idf (Deleted obj) L = (case policy_of idf obj of None \<Rightarrow> L | Some (p, policy) \<Rightarrow> L(p := None))"

definition latest :: "ExtractObjIDFunc \<Rightarrow> event list \<Rightarrow> (string \<rightharpoonup> CompliancePerClusterStatus list)" where
  "latest idf es = fold (track idf) es Map.empty"

text \<open>Whether a cluster of a policy has a state in a view of the policies.\<close>

definition holds_state :: "(string \<rightharpoonup> CompliancePerClusterStatus list) \<Rightarrow> string \<Rightarrow> string \<Rightarrow> ComplianceStatus \<Rightarrow> bool" where
  "holds_state L p k st \<longleftrightarrow> (\<exists>ss. L p = Some ss \<and> k \<in> set (in_state st ss))"

lemma holds_state_upd [simp]:
  "holds_state (L(q \<mapsto> ss)) p k st \<longleftrightarrow> (if p = q then k \<in> set (in_state st ss) else holds_state L p k st)"
  "holds_state (L(q := None)) p k st \<longleftrightarrow> p \<noteq> q \<and> holds_state L p k st"
  by (auto simp: holds_state_def)

definition cpp_history :: "ExtractObjIDFunc \<Rightarrow> event list \<Rightarrow> BaseClustersPerPolicyBundle \<Rightarrow> BaseClustersPerPolicyBundle" where
  "cpp_history idf es b = fold (\<lambda>e b. case e of Updated obj \<Rightarrow> cpp_UpdateObject idf obj b | Deleted obj \<Rightarrow> cpp_DeleteObject idf obj b) es b"

definition ccs_history :: "ExtractObjIDFunc \<Rightarrow> event list \<Rightarrow> BaseCompleteComplianceStatusBundle \<Rightarrow> BaseCompleteComplianceStatusBundle" where
  "ccs_history idf es b = fold (\<lambda>e b. case e of Updated obj \<Rightarrow> ccs_UpdateObject idf obj b | Deleted obj \<Rightarrow> ccs_DeleteObject idf obj b) es b"

lemma histories_run: "cpp_history idf es = cpp.run idf es" "ccs_history idf es = ccs.run idf es"
  by (simp_all add: cpp_history_def [abs_def] ccs_history_def [abs_def] cpp.handle_def [abs_def] ccs.handle_def [abs_def])

lemma reports_put_by:
  "reports (put_by PolicyID y xs) p k st \<longleftrightarrow> (if p = PolicyID y then k \<in> set (clustersOf y st) else reports xs p k st)"
  by (auto simp: reports_def set_put_by)

lemma reports_filter: "reports (filter (\<lambda>o'. PolicyID o' \<noteq> q) xs) p k st \<longleftrightarrow> p \<noteq> q \<and> reports xs p k st"
  by (auto simp: reports_def)

lemma clustersOf_getClustersPerPolicy [simp]: "clustersOf (getClustersPerPolicy p policy) st = in_state st (StatusStatus policy)"
  by (cases st) simp_all

lemma cpp_handle_reports:
  assumes "cpp_ok b" and "\<And>p k st. reports (cpp_Objects b) p k st \<longleftrightarrow> holds_state L p k st"
  shows "reports (cpp_Objects (cpp.handle idf e b)) p k st \<longleftrightarrow> holds_state (track idf e L) p k st"
  using assms
  by (cases e) (auto simp: cpp.handle_def cpp_UpdateObject_Objects cpp_DeleteObject_Objects reports_put_by reports_filter split: option.split)

lemma ccs_handle_lists:
  assumes "ccs_ok b" and "good_policy (event_object e)" and "st \<noteq> Compliant"
    and "\<And>p k st. st \<noteq> Compliant \<Longrightarrow> ccs_lists (ccs_Objects b) st p k \<longleftrightarrow> holds_state L p k st"
  shows "ccs_lists (ccs_Objects (ccs.handle idf e b)) st p k \<longleftrightarrow> holds_state (track idf e L) p k st"
proof (cases e)
  case (Updated obj)
  then show ?thesis
    using assms ccs_UpdateObject_lists [OF assms(1)] by (auto simp: ccs.handle_def ccs_UpdateObject_none split: option.split)
next
  case (Deleted obj)
  then show ?thesis
    using assms by (auto simp: ccs.handle_def ccs_DeleteObject_Objects ccs_lists_filter split: option.split)
qed

lemma cpp_history_reports:
  assumes "list_all (\<lambda>e. good_policy (event_object e)) es" and "cpp_ok b"
    and "\<And>p k st. reports (cpp_Objects b) p k st \<longleftrightarrow> holds_state L p k st"
  shows "reports (cpp_Objects (cpp_history idf es b)) p k st \<longleftrightarrow> holds_state (fold (track idf) es L) p k st"
  using assms unfolding histories_run
proof (induction es arbitrary: b L)
  case (Cons e es)
  have "cpp_ok (cpp.handle idf e b)"
    using Cons.prems by (simp add: cpp.handle_ok)
  moreover have "\<And>p k st. reports (cpp_Objects (cpp.handle idf e b)) p k st \<longleftrightarrow> holds_state (track idf e L) p k st"
    by (rule cpp_handle_reports [OF Cons.prems(2,3)])
  ultimately show ?case
    using Cons.IH [of "cpp.handle idf e b" "track idf e L"] Cons.prems(1) by simp
qed simp

lemma ccs_history_lists:
  assumes "list_all (\<lambda>e. good_policy (event_object e)) es" and "ccs_ok b"
    and "\<And>p k st. st \<noteq> Compliant \<Longrightarrow> ccs_lists (ccs_Objects b) st p k \<longleftrightarrow> holds_state L p k st" and "st \<noteq> Compliant"
  shows "ccs_lists (ccs_Objects (ccs_history idf es b)) st p k \<longleftrightarrow> holds_state (fold (track idf) es L) p k st"
  using assms unfolding histories_run
proof (induction es arbitrary: b L)
  case (Cons e es)
  have good: "good_policy (event_object e)"
    using Cons.prems(1) by simp
  have "ccs_ok (ccs.handle idf e b)"
    using Cons.prems by (simp add: ccs.handle_ok)
  moreover have "\<And>p k st. st \<noteq> Compliant \<Longrightarrow> ccs_lists (ccs_Objects (ccs.handle idf e b)) st p k \<longleftrightarrow> holds_state (track idf e L) p k st"
    by (rule ccs_handle_lists [OF Cons.prems(2) good _ Cons.prems(3)])
  ultimately show ?case
    using Cons.IH [of "ccs.handle idf e b" "track idf e L"] Cons.prems(1,4) by simp
qed simp

lemma holds_state_empty [simp]: "\<not> holds_state Map.empty p k st"
  by (simp add: holds_state_def)

text \<open>After any history of updates and deletions the clusters-per-policy bundle reports exactly the clusters of the
  policies that exist, each in the state last seen.\<close>

theorem clusters_bundle_latest:
  assumes "list_all (\<lambda>e. good_policy (event_object e)) es"
  shows "reports (cpp_Objects (cpp_history idf es (NewClustersPerPolicyBundle hub incarnation))) p k st
    \<longleftrightarrow> (\<exists>ss. latest idf es p = Some ss \<and> (\<exists>s \<in> set ss. ClusterName s = k \<and> state_of s = st))"
proof -
  have "cpp_ok (NewClustersPerPolicyBundle hub incarnation)"
    by (simp add: cpp_ok_def NewClustersPerPolicyBundle_def)
  moreover have "reports (cpp_Objects (NewClustersPerPolicyBundle hub incarnation)) p k st \<longleftrightarrow> holds_state Map.empty p k st" for p k st
    by (simp add: NewClustersPerPolicyBundle_def reports_def)
  ultimately have "reports (cpp_Objects (cpp_history idf es (NewClustersPerPolicyBundle hub incarnation))) p k st
      \<longleftrightarrow> holds_state (latest idf es) p k st"
    unfolding latest_def by (rule cpp_history_reports [OF assms])
  then show ?thesis
    by (simp add: holds_state_def in_state_mem)
qed

text \<open>After any history the complete compliance bundle says of every cluster of a policy that exists the state last
  seen, a cluster that no list names being compliant.\<close>

theorem complete_bundle_latest:
  assumes "list_all (\<lambda>e. good_policy (event_object e)) es" and "latest idf es p = Some ss" and "s \<in> set ss"
    and "distinct (map ClusterName ss)"
  shows "complete_status (ccs_Objects (ccs_history idf es (NewCompleteComplianceStatusBundle hub baseVersion incarnation))) p (ClusterName s) = state_of s"
proof -
  have ok: "ccs_ok (NewCompleteComplianceStatusBundle hub baseVersion incarnation)"
    by (simp add: ccs_ok_def NewCompleteComplianceStatusBundle_def)
  have start: "ccs_lists (ccs_Objects (NewCompleteComplianceStatusBundle hub baseVersion incarnation)) st p k \<longleftrightarrow> holds_state Map.empty p k st" for p k st
    by (simp add: NewCompleteComplianceStatusBundle_def ccs_lists_def)
  have lists: "ccs_lists (ccs_Objects (ccs_history idf es (NewCompleteComplianceStatusBundle hub baseVersion incarnation))) st p (ClusterName s)
      \<longleftrightarrow> ClusterName s \<in> set (in_state st ss)" if "st \<noteq> Compliant" for st
    using ccs_history_lists [OF assms(1) ok start that] assms(2) by (simp add: latest_def holds_state_def)
  have "ClusterName s \<in> set (in_state st ss) \<longleftrightarrow> state_of s = st" for st
    using assms(3,4) in_state_unique [OF assms(4), of "ClusterName s"] by (auto simp: in_state_mem)
  then show ?thesis
    by (cases "state_of s") (simp_all add: complete_status_lists lists)
qed

text \<open>When the clusters of some policy changed over a history of fewer than $2^{64}$ events, the version of the
  clusters-per-policy bundle is newer, although changes of state alone do not increment it.\<close>

theorem clusters_change_noticed:
  assumes "list_all (\<lambda>e. good_policy (event_object e)) es" and "cpp_ok b"
    and "unat (Generation (cpp_BundleVersion b)) + length es < 2 ^ 64"
    and "map (\<lambda>o'. (PolicyID o', all_clusters o')) (cpp_Objects (cpp_history idf es b)) \<noteq> map (\<lambda>o'. (PolicyID o', all_clusters o')) (cpp_Objects b)"
  shows "NewerThan (cpp_BundleVersion (cpp_history idf es b)) (Some (cpp_BundleVersion b))"
  unfolding histories_run
  by (rule cpp.change_noticed) (use assms in \<open>simp_all add: histories_run cpp_clusters_def\<close>)

section \<open>Examples\<close>

definition sample_policy :: "string \<Rightarrow> (string \<times> string) list \<Rightarrow> agentObject" where
  "sample_policy p cs = \<lparr>obj_uid = p, obj_name = p, obj_resourceVersion = ''1'', obj_annotations = [(OriginOwnerReferenceAnnotation, p)],
     obj_content = [], obj_namespace = ''ns'', obj_labels = [], obj_finalizers = [], obj_deleting = False,
     obj_policy = Some \<lparr>RemediationAction = ''inform'', StatusStatus = map (\<lambda>(c, s). \<lparr>ClusterName = c, ComplianceState = s\<rparr>) cs\<rparr>\<rparr>"

abbreviation sample_id :: ExtractObjIDFunc where
  "sample_id \<equiv> \<lambda>obj. Some (obj_uid obj)"

definition sample_history :: "event list" where
  "sample_history =
     [Updated (sample_policy ''p1'' [(''c1'', ''Compliant''), (''c2'', ''NonCompliant'')]),
      Updated (sample_policy ''p2'' [(''c1'', ''Pending'')]),
      Updated (sample_policy ''p1'' [(''c1'', ''NonCompliant''), (''c2'', ''Compliant'')]),
      Deleted (sample_policy ''p2'' [])]"

lemma sample_history_good: "list_all (\<lambda>e. good_policy (event_object e)) sample_history"
  by (simp add: sample_history_def sample_policy_def good_policy_def)

lemma sample_latest: "latest sample_id sample_history ''p1'' =
    Some [\<lparr>ClusterName = ''c1'', ComplianceState = ''NonCompliant''\<rparr>, \<lparr>ClusterName = ''c2'', ComplianceState = ''Compliant''\<rparr>]"
  "latest sample_id sample_history ''p2'' = None"
  by (simp_all add: latest_def sample_history_def sample_policy_def policy_of_def)

theorem generic_change_noticed_witness:
  "NewerThan (gsb_BundleVersion (gsb_UpdateObject id (sample_policy ''p1'' []) (NewGenericStatusBundle ''hub1'' 1))) (Some (NewBundleVersion 1 0))"
  using generic_change_noticed [of "NewGenericStatusBundle ''hub1'' 1" "[Updated (sample_policy ''p1'' [])]"
      "gsb_UpdateObject id (sample_policy ''p1'' []) (NewGenericStatusBundle ''hub1'' 1)" id]
  by (simp add: NewGenericStatusBundle_def gsb_UpdateObject_def gsb_getObjectIndexByUID_def NewBundleVersion_def)

theorem clusters_bundle_latest_witness:
  "reports (cpp_Objects (cpp_history sample_id sample_history (NewClustersPerPolicyBundle ''hub1'' 1))) ''p1'' ''c1'' NonCompliant
   \<and> \<not> reports (cpp_Objects (cpp_history sample_id sample_history (NewClustersPerPolicyBundle ''hub1'' 1))) ''p2'' ''c1'' Unknown"
  unfolding clusters_bundle_latest [OF sample_history_good] sample_latest
  by (simp add: state_of_def policiesv1_Compliant_def policiesv1_NonCompliant_def)

theorem complete_bundle_latest_witness:
  "complete_status (ccs_Objects (ccs_history sample_id sample_history (NewCompleteComplianceStatusBundle ''hub1'' noBundleVersion 1))) ''p1'' ''c1'' = NonCompliant"
  using complete_bundle_latest [OF sample_history_good sample_latest(1), of "\<lparr>ClusterName = ''c1'', ComplianceState = ''NonCompliant''\<rparr>"]
  by (simp add: state_of_def policiesv1_Compliant_def policiesv1_NonCompliant_def)

theorem clusters_change_noticed_witness:
  "NewerThan (cpp_BundleVersion (cpp_history sample_id [Updated (sample_policy ''p1'' [(''c1'', ''Compliant'')])] (NewClustersPerPolicyBundle ''hub1'' 1)))
     (Some (NewBundleVersion 1 0))"
  using clusters_change_noticed [of "[Updated (sample_policy ''p1'' [(''c1'', ''Compliant'')])]" "NewClustersPerPolicyBundle ''hub1'' 1" sample_id]
  by (simp add: NewClustersPerPolicyBundle_def cpp_ok_def good_policy_def sample_policy_def cpp_history_def cpp_UpdateObject_def
      cpp_getObjectIndexByUID_def NewBundleVersion_def)

end
