(* ===== verification/GH_DeltaBundle.thy ===== *)
theory GH_DeltaBundle
  imports GH_AgentProps
begin

text \<open>
  The delta bundle of the agent: between two resets its objects are exactly what the hub has to apply
  to the state it was synchronised with. The records of the bundle are a cache of that overlay, which
  is the invariant \<open>delta_inv\<close>.
\<close>

section \<open>Records\<close>

fun recordOf :: "policyComplianceStatus \<Rightarrow> ComplianceStatus \<Rightarrow> string goset" where
  "recordOf r Compliant = compliantClustersSet r"
| "recordOf r NonCompliant = nonCompliantClustersSet r"
| "recordOf r Unknown = unknownClustersSet r"

definition rec_ok :: "policyComplianceStatus \<Rightarrow> bool" where
  "rec_ok r \<longleftrightarrow> (\<forall>s t k. k \<in> set (recordOf r s) \<and> k \<in> set (recordOf r t) \<longrightarrow> s = t)"

definition rec_state :: "policyComplianceStatus \<Rightarrow> string \<Rightarrow> ComplianceStatus option" where
  "rec_state r k = (if k \<in> set (recordOf r Compliant) then Some Compliant else if k \<in> set (recordOf r NonCompliant) then Some NonCompliant
     else if k \<in> set (recordOf r Unknown) then Some Unknown else None)"

lemma rec_state_iff:
  assumes "rec_ok r"
  shows "rec_state r k = Some st \<longleftrightarrow> k \<in> set (recordOf r st)"
proof -
  have "s = t" if "k \<in> set (recordOf r s)" "k \<in> set (recordOf r t)" for s t
    using assms that unfolding rec_ok_def by blast
  from this [of Compliant NonCompliant] this [of Compliant Unknown] this [of NonCompliant Unknown] show ?thesis
    by (cases st) (auto simp: rec_state_def simp del: recordOf.simps)
qed

lemma option_ext: "(\<And>x. a = Some x \<longleftrightarrow> b = Some x) \<Longrightarrow> a = b"
  by (metis not_Some_eq)

definition states_of :: "CompliancePerClusterStatus list \<Rightarrow> string \<rightharpoonup> ComplianceStatus" where
  "states_of ss = map_of (map (\<lambda>s. (ClusterName s, state_of s)) ss)"

lemma states_of_Nil [simp]: "states_of [] = Map.empty"
  by (simp add: states_of_def)

lemma states_of_Cons: "states_of (s # ss) k = (if k = ClusterName s then Some (state_of s) else states_of ss k)"
  by (simp add: states_of_def)

lemma states_of_None: "states_of ss k = None \<longleftrightarrow> k \<notin> ClusterName ` set ss"
  by (auto simp: states_of_def map_of_eq_None_iff image_iff)

lemma states_of_Some:
  assumes "distinct (map ClusterName ss)"
  shows "states_of ss k = Some st \<longleftrightarrow> k \<in> set (in_state st ss)"
proof -
  have "distinct (map fst (map (\<lambda>s. (ClusterName s, state_of s)) ss))"
    using assms by (simp add: comp_def)
  then show ?thesis
    unfolding states_of_def in_state_mem by (subst map_of_eq_Some_iff) auto
qed

text \<open>One round: a cluster that is not recorded in its state moves there and is listed.\<close>

abbreviation pick :: "'a \<Rightarrow> 'a \<Rightarrow> 'a \<Rightarrow> ComplianceStatus \<Rightarrow> 'a" where
  "pick c n u st \<equiv> (case st of Compliant \<Rightarrow> c | NonCompliant \<Rightarrow> n | Unknown \<Rightarrow> u)"

lemma changedClusterStep_recorded:
  assumes "ClusterName s \<in> set (recordOf r (state_of s))"
  shows "changedClusterStep s (r, c, n, u) = (r, c, n, u)"
  using assms by (auto simp: state_of_def Let_def split: if_splits)

lemma changedClusterStep_moved:
  assumes "ClusterName s \<notin> set (recordOf r (state_of s))" and "changedClusterStep s (r, c, n, u) = (r', c', n', u')"
  shows "set (recordOf r' st) = (if st = state_of s then insert (ClusterName s) (set (recordOf r st)) else set (recordOf r st) - {ClusterName s})"
    and "pick c' n' u' st = (if st = state_of s then pick c n u st @ [ClusterName s] else pick c n u st)"
  using assms by (cases st; auto simp: state_of_def Let_def split: if_splits)+

lemma changedClusterStep_rec:
  assumes "rec_ok r" and "changedClusterStep s (r, c, n, u) = (r', c', n', u')"
  shows "rec_ok r' \<and> rec_state r' = (rec_state r)(ClusterName s \<mapsto> state_of s)
    \<and> (\<forall>st. pick c' n' u' st = pick c n u st @ (if st = state_of s \<and> rec_state r (ClusterName s) \<noteq> Some st then [ClusterName s] else []))"
proof (cases "ClusterName s \<in> set (recordOf r (state_of s))")
  case True
  with changedClusterStep_recorded [OF this, of c n u] assms show ?thesis
    by (auto simp: rec_state_iff fun_eq_iff)
next
  case False
  note r' = changedClusterStep_moved(1) [OF False assms(2)] and l' = changedClusterStep_moved(2) [OF False assms(2)]
  have ok: "rec_ok r'"
    using assms(1) unfolding rec_ok_def r' by (auto split: if_splits)
  have "rec_state r' k = ((rec_state r)(ClusterName s \<mapsto> state_of s)) k" for k
  proof (rule option_ext)
    fix st show "rec_state r' k = Some st \<longleftrightarrow> ((rec_state r)(ClusterName s \<mapsto> state_of s)) k = Some st"
      unfolding rec_state_iff [OF ok] r' using False by (auto simp: rec_state_iff [OF assms(1)])
  qed
  with ok l' False assms(1) show ?thesis
    by (auto simp: rec_state_iff fun_eq_iff)
qed

text \<open>All rounds: the records follow the policy, and what is listed is what the records did not have.\<close>

lemma changedClusters_fold:
  assumes "rec_ok r" and "distinct (map ClusterName ss)" and "fold changedClusterStep ss (r, c, n, u) = (r', c', n', u')"
  shows "rec_ok r' \<and> rec_state r' = rec_state r ++ states_of ss
    \<and> (\<forall>st. pick c' n' u' st = pick c n u st @ filter (\<lambda>k. rec_state r k \<noteq> Some st) (in_state st ss))"
  using assms
proof (induction ss arbitrary: r c n u)
  case Nil
  then show ?case by (auto simp: in_state_def)
next
  case (Cons s ss)
  obtain r1 c1 n1 u1 where step: "changedClusterStep s (r, c, n, u) = (r1, c1, n1, u1)"
    using prod_cases4 by blast
  note one = changedClusterStep_rec [OF Cons.prems(1) step]
  have rest: "fold changedClusterStep ss (r1, c1, n1, u1) = (r', c', n', u')"
    using Cons.prems(3) by (simp only: fold_simps step)
  have "rec_ok r' \<and> rec_state r' = rec_state r1 ++ states_of ss
    \<and> (\<forall>st. pick c' n' u' st = pick c1 n1 u1 st @ filter (\<lambda>k. rec_state r1 k \<noteq> Some st) (in_state st ss))"
    by (rule Cons.IH [OF conjunct1 [OF one] _ rest]) (use Cons.prems(2) in simp)
  moreover have "filter (\<lambda>k. rec_state r1 k \<noteq> Some st) (in_state st ss) = filter (\<lambda>k. rec_state r k \<noteq> Some st) (in_state st ss)" for st
  proof (intro filter_cong refl)
    fix k assume "k \<in> set (in_state st ss)"
    then have "k \<in> ClusterName ` set ss"
      by (auto simp: in_state_mem)
    moreover have "ClusterName s \<notin> ClusterName ` set ss"
      using Cons.prems(2) by simp
    ultimately have "k \<noteq> ClusterName s" by metis
    then show "rec_state r1 k \<noteq> Some st \<longleftrightarrow> rec_state r k \<noteq> Some st"
      using one by simp
  qed
  moreover have "rec_state r1 ++ states_of ss = rec_state r ++ states_of (s # ss)"
    using one Cons.prems(2) states_of_None [of ss "ClusterName s"] by (auto simp: fun_eq_iff map_add_def states_of_Cons split: option.split)
  ultimately show ?case
    using one by (auto simp: in_state_def)
qed

lemma getChangedClusters_spec:
  assumes "rec_ok r" and "distinct (map ClusterName (StatusStatus policy))"
  obtains r' where "rec_ok r'" "rec_state r' = rec_state r ++ states_of (StatusStatus policy)"
    "getChangedClusters policy r = (r', filter (\<lambda>k. rec_state r k \<noteq> Some Compliant) (in_state Compliant (StatusStatus policy)),
       filter (\<lambda>k. rec_state r k \<noteq> Some NonCompliant) (in_state NonCompliant (StatusStatus policy)),
       filter (\<lambda>k. rec_state r k \<noteq> Some Unknown) (in_state Unknown (StatusStatus policy)))"
proof -
  obtain r' c n u where g: "getChangedClusters policy r = (r', c, n, u)"
    using prod_cases4 by blast
  then have "fold changedClusterStep (StatusStatus policy) (r, [], [], []) = (r', c, n, u)"
    by (simp add: getChangedClusters_def)
  note spec = changedClusters_fold [OF assms this]
  have "pick c n u st = filter (\<lambda>k. rec_state r k \<noteq> Some st) (in_state st (StatusStatus policy))" for st
    using spec by (cases st) (simp_all add: all_states)
  from this [of Compliant] this [of NonCompliant] this [of Unknown] spec g show ?thesis
    by (intro that) simp_all
qed

section \<open>Updating an object that is already listed\<close>

lemma map_of_fold_const: "map_of (fold (\<lambda>c. AList.update c v) cs m) k = (if k \<in> set cs then Some v else map_of m k)"
  by (induction cs arbitrary: m) auto

lemma map_of_putStates:
  "map_of (putStates o' m) k =
     (if k \<in> set (UnknownComplianceClusters o') then Some unknownComplianceStatus
      else if k \<in> set (NonCompliantClusters o') then Some policiesv1_NonCompliant
      else if k \<in> set (CompliantClusters o') then Some policiesv1_Compliant else map_of m k)"
  by (simp add: putStates_def map_of_fold_const)

definition obj_states :: "PolicyGenericComplianceStatus \<Rightarrow> string \<rightharpoonup> ComplianceStatus" where
  "obj_states o' k = (if k \<in> set (clustersOf o' Compliant) then Some Compliant else if k \<in> set (clustersOf o' NonCompliant) then Some NonCompliant
     else if k \<in> set (clustersOf o' Unknown) then Some Unknown else None)"

lemma obj_states_iff:
  assumes "one_state o'"
  shows "obj_states o' k = Some st \<longleftrightarrow> k \<in> set (clustersOf o' st)"
  using one_state_disjoint [OF assms, of k Compliant NonCompliant] one_state_disjoint [OF assms, of k Compliant Unknown]
    one_state_disjoint [OF assms, of k NonCompliant Unknown]
  by (cases st) (auto simp: obj_states_def simp del: clustersOf.simps)

definition state_name :: "ComplianceStatus \<Rightarrow> string" where
  "state_name st = pick policiesv1_Compliant policiesv1_NonCompliant unknownComplianceStatus st"

lemma map_of_putStates_states:
  assumes "one_state o'"
  shows "map_of (putStates o' m) k = (case obj_states o' k of Some st \<Rightarrow> Some (state_name st) | None \<Rightarrow> map_of m k)"
  using one_state_disjoint [OF assms, of k Compliant NonCompliant] one_state_disjoint [OF assms, of k Compliant Unknown]
    one_state_disjoint [OF assms, of k NonCompliant Unknown]
  by (auto simp: map_of_putStates obj_states_def state_name_def)

lemma updatePolicyComplianceStatus_spec:
  assumes "range_order ord" and "one_state new" and "one_state old"
  shows "k \<in> set (clustersOf (updatePolicyComplianceStatus ord new old) st) \<longleftrightarrow> (obj_states old ++ obj_states new) k = Some st"
    and "PolicyID (updatePolicyComplianceStatus ord new old) = PolicyID old"
proof -
  let ?m = "putStates new (getExistingPolicyState old)"
  have m: "map_of ?m k = map_option state_name ((obj_states old ++ obj_states new) k)" for k
    using map_of_putStates_states [OF assms(2)] map_of_putStates_states [OF assms(3), of "[]"]
    by (simp add: getExistingPolicyState_def map_add_def split: option.split)
  have named: "(\<exists>v. map_option state_name x = Some v \<and> pick (v = policiesv1_Compliant) (v = policiesv1_NonCompliant)
      (v \<notin> {policiesv1_Compliant, policiesv1_NonCompliant}) st) \<longleftrightarrow> x = Some st" for x
  proof (cases x)
    case (Some y)
    then show ?thesis by (cases y; cases st) (auto simp: state_name_def)
  qed simp
  have keys: "set (ord (map fst ?m)) = dom (map_of ?m)"
    by (simp add: range_order.set_ord [OF assms(1)] dom_map_of_conv_image_fst)
  have "k \<in> set (clustersOf (updatePolicyComplianceStatus ord new old) st) \<longleftrightarrow>
      (\<exists>v. map_of ?m k = Some v \<and> pick (v = policiesv1_Compliant) (v = policiesv1_NonCompliant) (v \<notin> {policiesv1_Compliant, policiesv1_NonCompliant}) st)"
    using keys by (cases st) (auto simp: updatePolicyComplianceStatus_def Let_def dom_def)
  also have "\<dots> \<longleftrightarrow> (obj_states old ++ obj_states new) k = Some st"
    unfolding m by (rule named)
  finally show "k \<in> set (clustersOf (updatePolicyComplianceStatus ord new old) st) \<longleftrightarrow> (obj_states old ++ obj_states new) k = Some st" .
  show "PolicyID (updatePolicyComplianceStatus ord new old) = PolicyID old"
    by (simp add: updatePolicyComplianceStatus_def Let_def)
qed

section \<open>The invariant\<close>

text \<open>The overlay of what the bundle lists over a base view.\<close>

definition overlay :: "PolicyGenericComplianceStatus list \<Rightarrow> (string \<Rightarrow> string \<rightharpoonup> ComplianceStatus) \<Rightarrow> string \<Rightarrow> string \<rightharpoonup> ComplianceStatus" where
  "overlay objs H p = H p ++ delta_status objs p"

definition delta_inv :: "(string \<Rightarrow> string \<rightharpoonup> ComplianceStatus) \<Rightarrow> DeltaBundle \<Rightarrow> bool" where
  "delta_inv H b \<longleftrightarrow> wf_objects (delta_objects b)
     \<and> (\<forall>p r. map_of (complianceRecordsCache b) p = Some r \<longrightarrow> rec_ok r \<and> rec_state r = overlay (delta_objects b) H p)"

lemma wf_put_by:
  assumes "wf_objects objs" and "one_state y"
  shows "wf_objects (put_by PolicyID y objs)"
  using assms distinct_put_by [of PolicyID objs y] by (auto simp: wf_objects_def set_put_by)

lemma delta_status_put_by:
  assumes "wf_objects objs" and "one_state y"
  shows "delta_status (put_by PolicyID y objs) p = (if p = PolicyID y then obj_states y else delta_status objs p)"
proof
  fix k
  show "delta_status (put_by PolicyID y objs) p k = (if p = PolicyID y then obj_states y else delta_status objs p) k"
    by (rule option_ext)
      (simp add: delta_status_iff [OF wf_put_by [OF assms]] delta_status_iff [OF assms(1)] obj_states_iff [OF assms(2)] reports_put_by)
qed

lemma delta_status_member:
  assumes "wf_objects objs" and "o' \<in> set objs"
  shows "delta_status objs (PolicyID o') = obj_states o'"
proof
  fix k
  have one: "one_state o'" and uniq: "\<And>q. q \<in> set objs \<Longrightarrow> PolicyID q = PolicyID o' \<Longrightarrow> q = o'"
    using assms by (auto simp: wf_objects_def distinct_map inj_on_def)
  then have "reports objs (PolicyID o') k st \<longleftrightarrow> k \<in> set (clustersOf o' st)" for st
    using assms(2) by (auto simp: reports_def)
  then show "delta_status objs (PolicyID o') k = obj_states o' k"
    by (intro option_ext) (simp add: delta_status_iff [OF assms(1)] obj_states_iff [OF one])
qed

lemma delta_status_absent: "p \<notin> PolicyID ` set objs \<Longrightarrow> delta_status objs p = Map.empty"
  by (auto simp: delta_status_def reports_def fun_eq_iff)

text \<open>What an update of a policy with records does.\<close>

definition changes :: "string \<Rightarrow> PolicyPart \<Rightarrow> policyComplianceStatus \<Rightarrow> PolicyGenericComplianceStatus" where
  "changes p policy r = \<lparr>PolicyID = p,
     CompliantClusters = filter (\<lambda>k. rec_state r k \<noteq> Some Compliant) (in_state Compliant (StatusStatus policy)),
     NonCompliantClusters = filter (\<lambda>k. rec_state r k \<noteq> Some NonCompliant) (in_state NonCompliant (StatusStatus policy)),
     UnknownComplianceClusters = filter (\<lambda>k. rec_state r k \<noteq> Some Unknown) (in_state Unknown (StatusStatus policy))\<rparr>"

lemma clustersOf_changes:
  "set (clustersOf (changes p policy r) st) = {k \<in> set (in_state st (StatusStatus policy)). rec_state r k \<noteq> Some st}"
  by (cases st) (auto simp: changes_def)

lemma one_state_changes:
  assumes "distinct (map ClusterName (StatusStatus policy))"
  shows "one_state (changes p policy r)"
  unfolding one_state_def clustersOf_changes using in_state_unique [OF assms] by blast

lemma changes_states:
  assumes "distinct (map ClusterName (StatusStatus policy))"
  shows "rec_state r ++ obj_states (changes p policy r) = rec_state r ++ states_of (StatusStatus policy)"
proof
  fix k
  show "(rec_state r ++ obj_states (changes p policy r)) k = (rec_state r ++ states_of (StatusStatus policy)) k"
  proof (cases "states_of (StatusStatus policy) k")
    case None
    then have "obj_states (changes p policy r) k = None"
      using states_of_Some [OF assms, of k] unfolding obj_states_def clustersOf_changes by auto
    with None show ?thesis by (simp add: map_add_def)
  next
    case (Some st)
    then have k: "k \<in> set (in_state st (StatusStatus policy))"
      using states_of_Some [OF assms] by simp
    show ?thesis
    proof (cases "rec_state r k = Some st")
      case True
      have "obj_states (changes p policy r) k = None"
      proof (rule ccontr)
        assume "obj_states (changes p policy r) k \<noteq> None"
        then obtain st' where "k \<in> set (in_state st' (StatusStatus policy))" "rec_state r k \<noteq> Some st'"
          using obj_states_iff [OF one_state_changes [OF assms], of p r k] unfolding clustersOf_changes by auto
        with in_state_unique [OF assms k] True show False by blast
      qed
      with Some True show ?thesis by (simp add: map_add_def)
    next
      case False
      then have "obj_states (changes p policy r) k = Some st"
        unfolding obj_states_iff [OF one_state_changes [OF assms]] clustersOf_changes using k by simp
      with Some show ?thesis by (simp add: map_add_def)
    qed
  qed
qed

lemma overlay_empty [simp]: "overlay [] H = H"
  by (auto simp: overlay_def delta_status_def reports_def fun_eq_iff map_add_def)

lemma delta_objects_set [simp]:
  "delta_objects (set_delta_objects objs b) = objs" "complianceRecordsCache (set_delta_objects objs b) = complianceRecordsCache b"
  "delta_objects (delta_incrGeneration b) = delta_objects b" "complianceRecordsCache (delta_incrGeneration b) = complianceRecordsCache b"
  by (simp_all add: set_delta_objects_def delta_incrGeneration_def)

text \<open>The records and the objects after an update of a policy with records.\<close>

lemma delta_UpdateObject_recorded:
  assumes "range_order ord" and pol: "policy_of idf obj = Some (p, policy)" and r: "map_of (complianceRecordsCache b) p = Some r"
    and ok: "rec_ok r" and dist: "distinct (map ClusterName (StatusStatus policy))" and wf: "wf_objects (delta_objects b)"
  obtains r' where "rec_ok r'" "rec_state r' = rec_state r ++ states_of (StatusStatus policy)"
    "complianceRecordsCache (delta_UpdateObject ord idf C obj b) = AList.update p r' (complianceRecordsCache b)"
    "wf_objects (delta_objects (delta_UpdateObject ord idf C obj b))"
    "\<And>q. delta_status (delta_objects (delta_UpdateObject ord idf C obj b)) q
       = (if q = p then delta_status (delta_objects b) p ++ obj_states (changes p policy r) else delta_status (delta_objects b) q)"
proof -
  let ?new = "changes p policy r" and ?objs = "delta_objects b"
  obtain r' where r': "rec_ok r'" "rec_state r' = rec_state r ++ states_of (StatusStatus policy)"
      "getChangedClusters policy r = (r', CompliantClusters ?new, NonCompliantClusters ?new, UnknownComplianceClusters ?new)"
    using getChangedClusters_spec [OF ok dist] by (auto simp: changes_def)
  have one: "one_state ?new"
    by (rule one_state_changes [OF dist])
  define b1 where "b1 = b\<lparr>complianceRecordsCache := AList.update p r' (complianceRecordsCache b)\<rparr>"
  have b1: "delta_objects b1 = ?objs" "complianceRecordsCache b1 = AList.update p r' (complianceRecordsCache b)"
    by (simp_all add: b1_def)
  show ?thesis
  proof (cases "CompliantClusters ?new = [] \<and> NonCompliantClusters ?new = [] \<and> UnknownComplianceClusters ?new = []")
    case True
    then have "delta_UpdateObject ord idf C obj b = b1"
      using pol r r'(3) by (simp add: delta_UpdateObject_def policy_of_Some delta_getPolicyComplianceStatus_def b1_def)
    moreover have "obj_states ?new = Map.empty"
      using True by (auto simp: obj_states_def)
    ultimately show ?thesis
      using that [OF r'(1,2)] b1 wf by simp
  next
    case False
    have new: "\<lparr>PolicyID = p, CompliantClusters = CompliantClusters ?new, NonCompliantClusters = NonCompliantClusters ?new,
        UnknownComplianceClusters = UnknownComplianceClusters ?new\<rparr> = ?new"
      by (simp add: changes_def)
    have upd: "delta_UpdateObject ord idf C obj b =
        (case find_index (\<lambda>o'. PolicyID o' = p) ?objs of
           None \<Rightarrow> delta_incrGeneration (set_delta_objects (?objs @ [?new]) b1)
         | Some i \<Rightarrow> delta_incrGeneration (set_delta_objects (?objs[i := updatePolicyComplianceStatus ord ?new (?objs ! i)]) b1))"
      using pol r r'(3) False
      by (auto simp: new delta_UpdateObject_def policy_of_Some delta_getPolicyComplianceStatus_def delta_getObjectIndexByUID_def b1_def Let_def split: option.split simp del: find_index_None_iff)
    have p: "PolicyID ?new = p" by (simp add: changes_def)
    show ?thesis
    proof (cases "find_index (\<lambda>o'. PolicyID o' = p) ?objs")
      case None
      then have "?objs @ [?new] = put_by PolicyID ?new ?objs"
        using put_by_new [of PolicyID ?new ?objs] p by simp
      moreover have "delta_status ?objs p = Map.empty"
        using None by (intro delta_status_absent) auto
      ultimately show ?thesis
        using that [OF r'(1,2)] upd None b1 wf_put_by [OF wf one] delta_status_put_by [OF wf one] p
        by (simp del: find_index_None_iff)
    next
      case (Some i)
      let ?y = "updatePolicyComplianceStatus ord ?new (?objs ! i)"
      have i: "?objs ! i \<in> set ?objs" "PolicyID (?objs ! i) = p"
        using find_index_SomeD [OF Some] by auto
      then have old: "one_state (?objs ! i)"
        using wf by (auto simp: wf_objects_def)
      note y = updatePolicyComplianceStatus_spec [OF assms(1) one old]
      have oney: "one_state ?y"
        unfolding one_state_def y(1) by auto
      have "obj_states ?y = obj_states (?objs ! i) ++ obj_states ?new"
        by (rule ext, rule option_ext) (simp add: obj_states_iff [OF oney] y(1))
      then have st: "obj_states ?y = delta_status ?objs p ++ obj_states ?new"
        using delta_status_member [OF wf i(1)] i(2) by simp
      have "?objs[i := ?y] = put_by PolicyID ?y ?objs"
        using put_by_found [of PolicyID ?objs ?y i] Some wf y(2) i(2) by (simp add: wf_objects_def)
      then show ?thesis
        using that [OF r'(1,2)] upd Some b1 wf_put_by [OF wf oney] delta_status_put_by [OF wf oney] y(2) i(2) st
        by simp
    qed
  qed
qed

lemma delta_UpdateObject_overlay:
  assumes "range_order ord" and "delta_inv H b" and "good_policy obj" and "policy_of idf obj = Some (p, policy)"
    and "map_of (complianceRecordsCache b) p = Some r"
  shows "delta_inv H (delta_UpdateObject ord idf C obj b)
    \<and> overlay (delta_objects (delta_UpdateObject ord idf C obj b)) H = (overlay (delta_objects b) H)(p := overlay (delta_objects b) H p ++ states_of (StatusStatus policy))
    \<and> dom (map_of (complianceRecordsCache (delta_UpdateObject ord idf C obj b))) = dom (map_of (complianceRecordsCache b))"
proof -
  let ?b = "delta_UpdateObject ord idf C obj b"
  have wf: "wf_objects (delta_objects b)"
    and cache: "\<And>p r. map_of (complianceRecordsCache b) p = Some r \<Longrightarrow> rec_ok r \<and> rec_state r = overlay (delta_objects b) H p"
    using assms(2) unfolding delta_inv_def by blast+
  have r: "rec_ok r" "rec_state r = overlay (delta_objects b) H p"
    using cache [OF assms(5)] by auto
  have dist: "distinct (map ClusterName (StatusStatus policy))"
    using good_policyD [OF assms(3,4)] .
  obtain r' where r': "rec_ok r'" "rec_state r' = rec_state r ++ states_of (StatusStatus policy)"
      "complianceRecordsCache ?b = AList.update p r' (complianceRecordsCache b)" "wf_objects (delta_objects ?b)"
      "\<And>q. delta_status (delta_objects ?b) q
         = (if q = p then delta_status (delta_objects b) p ++ obj_states (changes p policy r) else delta_status (delta_objects b) q)"
    using delta_UpdateObject_recorded [OF assms(1,4,5) r(1) dist wf] by metis
  have over: "overlay (delta_objects ?b) H q = (if q = p then overlay (delta_objects b) H p ++ states_of (StatusStatus policy) else overlay (delta_objects b) H q)" for q
    using changes_states [OF dist, of r p] r(2) by (simp add: overlay_def r'(5))
  have "delta_inv H ?b"
    unfolding delta_inv_def r'(3) using r' over r cache by (auto simp: map_of_update)
  with over r'(3) assms(5) show ?thesis
    by (auto simp: fun_eq_iff)
qed

section \<open>Between two resets\<close>

lemma syncGenericStatus_cache:
  "complianceRecordsCache (fold syncGenericStatus C b) =
     fold (\<lambda>o'. AList.update (PolicyID o') \<lparr>compliantClustersSet = createSetFromSlice (CompliantClusters o'),
       nonCompliantClustersSet = createSetFromSlice (NonCompliantClusters o'),
       unknownClustersSet = createSetFromSlice (UnknownComplianceClusters o')\<rparr>) C (complianceRecordsCache b)"
  "db_base (fold syncGenericStatus C b) = db_base b"
  by (induction C arbitrary: b) (simp_all add: syncGenericStatus_def)

lemma map_of_fold_records:
  assumes "distinct (map f C)"
  shows "map_of (fold (\<lambda>o'. AList.update (f o') (g o')) C m) p = (case find (\<lambda>o'. f o' = p) C of None \<Rightarrow> map_of m p | Some o' \<Rightarrow> Some (g o'))"
  using assms
proof (induction C arbitrary: m)
  case (Cons o' C)
  then have "find (\<lambda>q. f q = f o') C = None"
    by (auto simp: find_None_iff dest: notin_imageD)
  with Cons show ?case by (auto split: option.split)
qed simp

lemma SyncState_inv:
  assumes "wf_objects C" and "delta_objects b = []"
  shows "delta_inv (delta_status C) (SyncState v C b) \<and> dom (map_of (complianceRecordsCache (SyncState v C b))) = PolicyID ` set C
    \<and> delta_objects (SyncState v C b) = []"
proof -
  let ?g = "\<lambda>o'. \<lparr>compliantClustersSet = createSetFromSlice (CompliantClusters o'),
       nonCompliantClustersSet = createSetFromSlice (NonCompliantClusters o'), unknownClustersSet = createSetFromSlice (UnknownComplianceClusters o')\<rparr>"
  have dist: "distinct (map PolicyID C)"
    using assms(1) by (simp add: wf_objects_def)
  have cache: "map_of (complianceRecordsCache (SyncState v C b)) p = map_option ?g (find (\<lambda>o'. PolicyID o' = p) C)" for p
    by (simp add: SyncState_def updatePolicyRecordsFromBase_def syncGenericStatus_cache Let_def map_of_fold_records [OF dist] split: option.split)
  have objs: "delta_objects (SyncState v C b) = []"
    using assms(2) by (simp add: SyncState_def updatePolicyRecordsFromBase_def syncGenericStatus_cache Let_def)
  have rec: "set (recordOf (?g o') st) = set (clustersOf o' st)" for o' st
    by (cases st) simp_all
  have "rec_ok (?g o') \<and> rec_state (?g o') = delta_status C p" if "find (\<lambda>o'. PolicyID o' = p) C = Some o'" for p o'
  proof -
    have o': "o' \<in> set C" "PolicyID o' = p"
      using that by (auto simp: find_Some_iff)
    then have "one_state o'" using assms(1) by (simp add: wf_objects_def)
    then have "rec_ok (?g o')"
      unfolding rec_ok_def one_state_def rec .
    moreover have "rec_state (?g o') = obj_states o'"
      by (simp only: rec_state_def [abs_def] obj_states_def [abs_def] rec)
    ultimately show ?thesis
      using delta_status_member [OF assms(1) o'(1)] o'(2) by simp
  qed
  then have "delta_inv (delta_status C) (SyncState v C b)"
    unfolding delta_inv_def objs cache by (auto simp: wf_objects_def)
  moreover have "dom (map_of (complianceRecordsCache (SyncState v C b))) = PolicyID ` set C"
    unfolding cache dom_def by (auto simp: find_Some_iff find_None_iff dest: find_key [OF dist])
  ultimately show ?thesis using objs by simp
qed

text \<open>The specification: each update in turn sets the states of the clusters its policy lists.\<close>

definition apply_update :: "ExtractObjIDFunc \<Rightarrow> agentObject \<Rightarrow> (string \<Rightarrow> string \<rightharpoonup> ComplianceStatus) \<Rightarrow> string \<Rightarrow> string \<rightharpoonup> ComplianceStatus" where
  "apply_update idf obj H = (case policy_of idf obj of None \<Rightarrow> H | Some (p, policy) \<Rightarrow> H(p := H p ++ states_of (StatusStatus policy)))"

definition known_policy :: "ExtractObjIDFunc \<Rightarrow> string set \<Rightarrow> agentObject \<Rightarrow> bool" where
  "known_policy idf P obj \<longleftrightarrow> good_policy obj \<and> (case policy_of idf obj of None \<Rightarrow> True | Some (p, policy) \<Rightarrow> p \<in> P)"

lemma delta_updates_overlay:
  assumes "range_order ord" and "delta_inv H b" and "list_all (known_policy idf (dom (map_of (complianceRecordsCache b)))) objs"
  shows "delta_inv H (fold (delta_UpdateObject ord idf C) objs b)
    \<and> overlay (delta_objects (fold (delta_UpdateObject ord idf C) objs b)) H = fold (apply_update idf) objs (overlay (delta_objects b) H)"
  using assms(2,3)
proof (induction objs arbitrary: b)
  case Nil
  then show ?case by simp
next
  case (Cons obj objs)
  let ?b = "delta_UpdateObject ord idf C obj b"
  have step: "delta_inv H ?b \<and> overlay (delta_objects ?b) H = apply_update idf obj (overlay (delta_objects b) H)
    \<and> dom (map_of (complianceRecordsCache ?b)) = dom (map_of (complianceRecordsCache b))"
  proof (cases "policy_of idf obj")
    case None
    then have "?b = b" by (simp add: delta_UpdateObject_def policy_of_def split: option.splits)
    with None Cons.prems show ?thesis by (simp add: apply_update_def)
  next
    case (Some pp)
    obtain p policy where pp: "policy_of idf obj = Some (p, policy)" using Some by (cases pp) simp
    obtain r where r: "map_of (complianceRecordsCache b) p = Some r" and good: "good_policy obj"
      using Cons.prems(2) pp by (auto simp: known_policy_def)
    show ?thesis
      using delta_UpdateObject_overlay [OF assms(1) Cons.prems(1) good pp r] pp by (simp add: apply_update_def)
  qed
  then show ?case
    using Cons.IH [of ?b] Cons.prems(2) by simp
qed

text \<open>From the moment the delta bundle is synchronised with the clusters-per-policy bundle, whatever updates of
  its policies follow: applying the objects it lists to the states it was synchronised with gives these states
  with every update applied. Nothing that changed is missing and nothing else is listed.\<close>

theorem delta_bundle_difference:
  assumes "range_order ord" and "wf_objects C" and "list_all (known_policy idf (PolicyID ` set C)) objs"
  shows "(\<lambda>p. delta_status C p ++ delta_status (delta_objects (fold (delta_UpdateObject ord idf C') objs (SyncState v C (Reset b)))) p)
    = fold (apply_update idf) objs (delta_status C)"
proof -
  have "delta_objects (Reset b) = []"
    by (simp add: Reset_def set_delta_objects_def)
  note start = SyncState_inv [OF assms(2) this, of v]
  have "overlay (delta_objects (fold (delta_UpdateObject ord idf C') objs (SyncState v C (Reset b)))) (delta_status C)
      = fold (apply_update idf) objs (delta_status C)"
    using delta_updates_overlay [OF assms(1) conjunct1 [OF start], of idf objs C'] start assms(3) overlay_empty by simp
  then show ?thesis
    unfolding overlay_def [abs_def] .
qed

definition sample_base_objects :: "PolicyGenericComplianceStatus list" where
  "sample_base_objects = [\<lparr>PolicyID = ''p1'', CompliantClusters = [''c1'', ''c2''], NonCompliantClusters = [], UnknownComplianceClusters = []\<rparr>]"

theorem delta_bundle_difference_witness:
  "(delta_status sample_base_objects ''p1'' ++ delta_status (delta_objects (fold (delta_UpdateObject id sample_id [])
       [sample_policy ''p1'' [(''c1'', ''NonCompliant''), (''c2'', ''Compliant'')], sample_policy ''p1'' [(''c1'', ''Pending'')]]
       (SyncState (NewBundleVersion 1 7) sample_base_objects (Reset (NewDeltaComplianceStatusBundle ''hub1'' noBundleVersion 1))))) ''p1'') ''c1''
   = Some Unknown"
proof -
  let ?objs = "[sample_policy ''p1'' [(''c1'', ''NonCompliant''), (''c2'', ''Compliant'')], sample_policy ''p1'' [(''c1'', ''Pending'')]]"
  have wf: "wf_objects sample_base_objects"
    by (simp add: wf_objects_def one_state_def all_states sample_base_objects_def)
  have known: "list_all (known_policy sample_id (PolicyID ` set sample_base_objects)) ?objs"
    by (simp add: known_policy_def good_policy_def policy_of_def sample_policy_def sample_base_objects_def)
  have "fold (apply_update sample_id) ?objs (delta_status sample_base_objects) ''p1'' ''c1'' = Some Unknown"
    by (simp add: apply_update_def policy_of_def sample_policy_def states_of_def state_of_def policiesv1_Compliant_def policiesv1_NonCompliant_def)
  with fun_cong [OF fun_cong [OF delta_bundle_difference [OF range_order_id wf known]]] show ?thesis
    by (rule trans)
qed

section \<open>The minimal bundle\<close>

definition mcs_ok :: "BaseMinimalComplianceStatusBundle \<Rightarrow> bool" where
  "mcs_ok b \<longleftrightarrow> distinct (map min_PolicyID (mcs_Objects b))"

abbreviation origin_id :: ExtractObjIDFunc where
  "origin_id \<equiv> \<lambda>obj. map_of (obj_annotations obj) OriginOwnerReferenceAnnotation"

lemma mcs_PolicyID [simp]: "min_PolicyID (getMinimalPolicyComplianceStatus p policy) = p"
  by (simp add: getMinimalPolicyComplianceStatus_def split: prod.split)

lemma mcs_updateObjectIfChanged_eq:
  "mcs_updateObjectIfChanged old policy =
     (if old = getMinimalPolicyComplianceStatus (min_PolicyID old) policy then None else Some (getMinimalPolicyComplianceStatus (min_PolicyID old) policy))"
  by (cases old) (auto simp: mcs_updateObjectIfChanged_def getMinimalPolicyComplianceStatus_def split: prod.split)

lemma mcs_UpdateObject_Objects:
  assumes "mcs_ok b"
  shows "mcs_Objects (mcs_UpdateObject obj b) = (case policy_of origin_id obj of None \<Rightarrow> mcs_Objects b
    | Some (p, policy) \<Rightarrow> put_by min_PolicyID (getMinimalPolicyComplianceStatus p policy) (mcs_Objects b))"
proof (cases "policy_of origin_id obj")
  case None
  then show ?thesis by (simp add: mcs_UpdateObject_def policy_of_def split: option.splits)
next
  case (Some pp)
  obtain p policy where pp: "pp = (p, policy)" by (cases pp)
  let ?y = "getMinimalPolicyComplianceStatus p policy"
  have obj: "obj_policy obj = Some policy" "map_of (obj_annotations obj) OriginOwnerReferenceAnnotation = Some p"
    using Some pp by (simp_all add: policy_of_Some)
  show ?thesis
  proof (cases "find_index (\<lambda>o'. min_PolicyID o' = p) (mcs_Objects b)")
    case None
    then show ?thesis
      using put_by_new [of min_PolicyID ?y "mcs_Objects b"] obj Some pp
      by (simp add: mcs_UpdateObject_def mcs_getObjectIndexByUID_def del: find_index_None_iff)
  next
    case found: (Some i)
    have i: "min_PolicyID (mcs_Objects b ! i) = p"
      using find_index_SomeD [OF found] by simp
    have "(mcs_Objects b)[i := ?y] = put_by min_PolicyID ?y (mcs_Objects b)"
      using put_by_found [of min_PolicyID "mcs_Objects b" ?y i] found assms by (simp add: mcs_ok_def)
    moreover have "mcs_Objects b ! i = ?y \<Longrightarrow> put_by min_PolicyID ?y (mcs_Objects b) = mcs_Objects b"
      using put_by_nth [of min_PolicyID "mcs_Objects b" ?y i] found assms by (simp add: mcs_ok_def)
    ultimately show ?thesis
      using obj Some pp found i by (simp add: mcs_UpdateObject_def mcs_getObjectIndexByUID_def mcs_updateObjectIfChanged_eq)
  qed
qed

lemma mcs_DeleteObject_Objects:
  assumes "mcs_ok b"
  shows "mcs_Objects (mcs_DeleteObject obj b) =
    (case policy_of origin_id obj of None \<Rightarrow> mcs_Objects b | Some (p, policy) \<Rightarrow> filter (\<lambda>o'. min_PolicyID o' \<noteq> p) (mcs_Objects b))"
  using assms remove_nth_key [of min_PolicyID "mcs_Objects b"]
  by (auto simp: mcs_DeleteObject_def policy_of_def mcs_getObjectIndexByUID_def mcs_ok_def filter_absent split: option.split simp del: find_index_None_iff)

interpretation mcs: tracked_bundle mcs_UpdateObject mcs_DeleteObject mcs_BundleVersion "\<lambda>obj. True" mcs_ok mcs_Objects
proof
  fix obj b
  show "mcs_ok (mcs_UpdateObject obj b)" if "mcs_ok b"
    using that distinct_put_by [of min_PolicyID "mcs_Objects b"] mcs_UpdateObject_Objects [OF that] by (auto simp: mcs_ok_def split: option.splits)
  show "mcs_ok (mcs_DeleteObject obj b)" if "mcs_ok b"
    using that mcs_DeleteObject_Objects [OF that] by (auto simp: mcs_ok_def distinct_map_filter split: option.splits)
qed (auto simp: mcs_UpdateObject_def mcs_DeleteObject_def split: option.splits)

text \<open>The policies as last seen, with their whole policy part.\<close>

fun track_policy :: "event \<Rightarrow> (string \<rightharpoonup> PolicyPart) \<Rightarrow> (string \<rightharpoonup> PolicyPart)" where
  "track_policy (Updated obj) L = (case policy_of origin_id obj of None \<Rightarrow> L | Some (p, policy) \<Rightarrow> L(p \<mapsto> policy))"
| "track_policy (Deleted obj) L = (case policy_of origin_id obj of None \<Rightarrow> L | Some (p, policy) \<Rightarrow> L(p := None))"

lemma mcs_run_objects:
  assumes "mcs_ok b" and "\<And>m. m \<in> set (mcs_Objects b) \<longleftrightarrow> (\<exists>p policy. L p = Some policy \<and> m = getMinimalPolicyComplianceStatus p policy)"
  shows "m \<in> set (mcs_Objects (mcs.run es b)) \<longleftrightarrow>
    (\<exists>p policy. fold track_policy es L p = Some policy \<and> m = getMinimalPolicyComplianceStatus p policy)"
  using assms
proof (induction es arbitrary: b L)
  case (Cons e es)
  have "mcs_ok (mcs.handle e b)"
    using Cons.prems(1) by (simp add: mcs.handle_ok)
  moreover have "m \<in> set (mcs_Objects (mcs.handle e b)) \<longleftrightarrow> (\<exists>p policy. track_policy e L p = Some policy \<and> m = getMinimalPolicyComplianceStatus p policy)" for m
    using Cons.prems mcs_UpdateObject_Objects [OF Cons.prems(1)] mcs_DeleteObject_Objects [OF Cons.prems(1)]
    by (cases e) (auto simp: mcs.handle_def set_put_by split: option.split if_splits)
  ultimately show ?case
    using Cons.IH by simp
qed simp

lemma getMinimal_counts:
  "getMinimalPolicyComplianceStatus p policy = \<lparr>min_PolicyID = p, min_RemediationAction = RemediationAction policy,
     min_NonCompliantClusters = int (length (filter (\<lambda>s. state_of s \<noteq> Compliant) (StatusStatus policy))),
     min_AppliedClusters = int (length (StatusStatus policy))\<rparr>"
proof -
  have "fold (\<lambda>s n. if ComplianceState s \<noteq> policiesv1_Compliant then n + 1 else n) ss m
      = m + int (length (filter (\<lambda>s. state_of s \<noteq> Compliant) ss))" for ss m
    by (induction ss arbitrary: m) (auto simp: state_of_def)
  then show ?thesis
    by (simp add: getMinimalPolicyComplianceStatus_def getNumOfClusters_def)
qed

text \<open>After any history the minimal bundle holds one entry per policy that exists, with the number of its
  clusters and of those not compliant as last seen.\<close>

theorem minimal_bundle_latest:
  "m \<in> set (mcs_Objects (fold (\<lambda>e b. case e of Updated obj \<Rightarrow> mcs_UpdateObject obj b | Deleted obj \<Rightarrow> mcs_DeleteObject obj b) es
       (NewMinimalComplianceStatusBundle hub incarnation)))
   \<longleftrightarrow> (\<exists>p policy. fold track_policy es Map.empty p = Some policy
        \<and> m = \<lparr>min_PolicyID = p, min_RemediationAction = RemediationAction policy,
               min_NonCompliantClusters = int (length (filter (\<lambda>s. state_of s \<noteq> Compliant) (StatusStatus policy))),
               min_AppliedClusters = int (length (StatusStatus policy))\<rparr>)"
proof -
  have "mcs_ok (NewMinimalComplianceStatusBundle hub incarnation)"
    by (simp add: mcs_ok_def NewMinimalComplianceStatusBundle_def)
  from mcs_run_objects [OF this, of Map.empty m es] show ?thesis
    unfolding getMinimal_counts mcs.handle_def [abs_def] by (simp add: NewMinimalComplianceStatusBundle_def)
qed

end
