(* ===== verification/GH_StatusSync.thy ===== *)
theory GH_StatusSync
  imports GH_DeltaBundle GH_Transport
begin

text \<open>
  The controllers that keep the agent's bundles and send them
  (\<open>agent/pkg/status/controller/generic\<close> and the packages that build the collections): the
  reconciliation of an object, the periodic sending of the bundles that changed, and the hybrid
  sync manager that alternates between complete and delta bundles.

  A controller owns an ordered collection of entries. Pointers from one bundle to another (a complete
  bundle to the version of its base, a delta bundle to both) stay within a collection, so following
  one is a look-up in the collection. The controller's lock makes each operation atomic.

  The Kubernetes client is an argument: what \<open>Get\<close> returned, and what \<open>Update\<close> returns.
  Marshalling a bundle is taken to succeed; the message carries the bundle it marshals. What
  \<open>SendAsync\<close> of the producer invokes while it runs is the argument \<open>outcome\<close>.
\<close>

section \<open>Entries\<close>

datatype agentBundle =
    GenericB "agentObject \<Rightarrow> agentObject" GenericStatusBundle
  | ClustersPerPolicyB ExtractObjIDFunc BaseClustersPerPolicyBundle
  | CompleteB ExtractObjIDFunc BaseCompleteComplianceStatusBundle
  | DeltaB ExtractObjIDFunc DeltaBundle
  | MinimalB BaseMinimalComplianceStatusBundle

fun GetBundleVersion :: "agentBundle \<Rightarrow> BundleVersion" where
  "GetBundleVersion (GenericB f b) = gsb_BundleVersion b"
| "GetBundleVersion (ClustersPerPolicyB idf b) = cpp_BundleVersion b"
| "GetBundleVersion (CompleteB idf b) = ccs_BundleVersion b"
| "GetBundleVersion (DeltaB idf b) = dcs_BundleVersion (db_base b)"
| "GetBundleVersion (MinimalB b) = mcs_BundleVersion b"

type_synonym config = "(string, string) gomap"

text \<open>
  The predicate of an entry reads the configuration; the hybrid sync manager conjoins a test of its
  mode, which is \<open>entry_mode\<close>.
\<close>

record BundleCollectionEntry =
  transportBundleKey :: string
  entry_bundle :: agentBundle
  entry_predicate :: "config \<Rightarrow> bool"
  entry_mode :: "BundleSyncMode option"
  lastSentBundleVersion :: BundleVersion

definition NewBundleCollectionEntry :: "string \<Rightarrow> agentBundle \<Rightarrow> (config \<Rightarrow> bool) \<Rightarrow> BundleCollectionEntry" where
  "NewBundleCollectionEntry key b pred =
     \<lparr>transportBundleKey = key, entry_bundle = b, entry_predicate = pred, entry_mode = None, lastSentBundleVersion = GetBundleVersion b\<rparr>"

text \<open>The bundles a delta or a complete bundle points to, in the collection.\<close>

definition base_objects :: "BundleCollectionEntry list \<Rightarrow> PolicyGenericComplianceStatus list" where
  "base_objects es = concat (map (\<lambda>e. case entry_bundle e of ClustersPerPolicyB idf b \<Rightarrow> cpp_Objects b | _ \<Rightarrow> []) es)"

definition version_of :: "(agentBundle \<Rightarrow> bool) \<Rightarrow> BundleCollectionEntry list \<Rightarrow> BundleVersion" where
  "version_of P es = (case filter P (map entry_bundle es) of [] \<Rightarrow> noBundleVersion | b # _ \<Rightarrow> GetBundleVersion b)"

fun is_cpp :: "agentBundle \<Rightarrow> bool" where
  "is_cpp (ClustersPerPolicyB idf b) = True" | "is_cpp _ = False"

fun is_complete :: "agentBundle \<Rightarrow> bool" where
  "is_complete (CompleteB idf b) = True" | "is_complete _ = False"

fun is_delta :: "agentBundle \<Rightarrow> bool" where
  "is_delta (DeltaB idf b) = True" | "is_delta _ = False"

section \<open>Reconciling an object\<close>

fun UpdateObject :: "(string list \<Rightarrow> string list) \<Rightarrow> BundleCollectionEntry list \<Rightarrow> agentObject \<Rightarrow> agentBundle \<Rightarrow> agentBundle" where
  "UpdateObject ord es object (GenericB f b) = GenericB f (gsb_UpdateObject f object b)"
| "UpdateObject ord es object (ClustersPerPolicyB idf b) = ClustersPerPolicyB idf (cpp_UpdateObject idf object b)"
| "UpdateObject ord es object (CompleteB idf b) = CompleteB idf (ccs_UpdateObject idf object b)"
| "UpdateObject ord es object (DeltaB idf b) = DeltaB idf (delta_UpdateObject ord idf (base_objects es) object b)"
| "UpdateObject ord es object (MinimalB b) = MinimalB (mcs_UpdateObject object b)"

fun DeleteObject :: "agentObject \<Rightarrow> agentBundle \<Rightarrow> agentBundle" where
  "DeleteObject object (GenericB f b) = GenericB f (gsb_DeleteObject object b)"
| "DeleteObject object (ClustersPerPolicyB idf b) = ClustersPerPolicyB idf (cpp_DeleteObject idf object b)"
| "DeleteObject object (CompleteB idf b) = CompleteB idf (ccs_DeleteObject idf object b)"
| "DeleteObject object (DeltaB idf b) = DeltaB idf (delta_DeleteObject idf object b)"
| "DeleteObject object (MinimalB b) = MinimalB (mcs_DeleteObject object b)"

text \<open>The loop over the entries: \<open>seen\<close> are the entries already updated.\<close>

fun updateLoop :: "(string list \<Rightarrow> string list) \<Rightarrow> agentObject \<Rightarrow> BundleCollectionEntry list \<Rightarrow> BundleCollectionEntry list \<Rightarrow> BundleCollectionEntry list" where
  "updateLoop ord object seen [] = seen"
| "updateLoop ord object seen (e # rest) =
     updateLoop ord object (seen @ [e\<lparr>entry_bundle := UpdateObject ord (seen @ e # rest) object (entry_bundle e)\<rparr>]) rest"

definition GlobalHubCleanupFinalizer :: string where
  "GlobalHubCleanupFinalizer = ''global-hub.open-cluster-management.io/resource-cleanup''"

definition strings_Contains :: "string \<Rightarrow> string \<Rightarrow> bool" where
  "strings_Contains s substr \<longleftrightarrow> list_ex (\<lambda>i. take (length substr) (drop i s) = substr) [0..<Suc (length s)]"

text \<open>\<open>client.Update\<close> yields an error message, or the object as the server stored it.\<close>

type_synonym k8s_update = "agentObject \<Rightarrow> string + agentObject"

definition addFinalizer :: "k8s_update \<Rightarrow> agentObject \<Rightarrow> string + agentObject" where
  "addFinalizer client_Update object =
     (if GlobalHubCleanupFinalizer \<in> set (obj_finalizers object) then Inr object
      else (let object' = object\<lparr>obj_finalizers := obj_finalizers object @ [GlobalHubCleanupFinalizer]\<rparr> in
            case client_Update object' of
              Inl err \<Rightarrow> if strings_Contains err ''the object has been modified'' then Inr object' else Inl err
            | Inr stored \<Rightarrow> Inr stored))"

definition removeFinalizer :: "k8s_update \<Rightarrow> agentObject \<Rightarrow> string option" where
  "removeFinalizer client_Update object =
     (if GlobalHubCleanupFinalizer \<notin> set (obj_finalizers object) then None
      else (case client_Update (object\<lparr>obj_finalizers := filter (\<lambda>f. f \<noteq> GlobalHubCleanupFinalizer) (obj_finalizers object)\<rparr>) of
              Inl err \<Rightarrow> Some err | Inr _ \<Rightarrow> None))"

text \<open>The fields \<open>cleanObject\<close> clears are, of those modelled, the finalizers.\<close>

definition cleanObject :: "agentObject \<Rightarrow> agentObject" where
  "cleanObject object = object\<lparr>obj_finalizers := []\<rparr>"

definition updateObjectAndFinalizer ::
  "(string list \<Rightarrow> string list) \<Rightarrow> k8s_update \<Rightarrow> agentObject \<Rightarrow> BundleCollectionEntry list \<Rightarrow> string option \<times> BundleCollectionEntry list" where
  "updateObjectAndFinalizer ord client_Update object es =
     (case addFinalizer client_Update object of
        Inl err \<Rightarrow> (Some err, es)
      | Inr object' \<Rightarrow> (None, updateLoop ord (cleanObject object') [] es))"

definition deleteObjectAndFinalizer ::
  "k8s_update \<Rightarrow> agentObject \<Rightarrow> BundleCollectionEntry list \<Rightarrow> string option \<times> BundleCollectionEntry list" where
  "deleteObjectAndFinalizer client_Update object es =
     (removeFinalizer client_Update object, map (\<lambda>e. e\<lparr>entry_bundle := DeleteObject object (entry_bundle e)\<rparr>) es)"

datatype getResult = NotFound | GetError string | Found agentObject

definition Reconcile ::
  "(string list \<Rightarrow> string list) \<Rightarrow> k8s_update \<Rightarrow> getResult \<Rightarrow> BundleCollectionEntry list \<Rightarrow> string option \<times> BundleCollectionEntry list" where
  "Reconcile ord client_Update got es =
     (case got of
        NotFound \<Rightarrow> (None, es)
      | GetError err \<Rightarrow> (Some err, es)
      | Found object \<Rightarrow>
          if obj_deleting object then deleteObjectAndFinalizer client_Update object es
          else updateObjectAndFinalizer ord client_Update object es)"

section \<open>The hybrid sync manager\<close>

record hybridSyncManager =
  activeSyncMode :: BundleSyncMode
  sentDeltaCountSwitchFactor :: int
  sentDeltaCount :: int

record statusController =
  orderedBundleCollection :: "BundleCollectionEntry list"
  hybridManager :: "hybridSyncManager option"
  callbacksSet :: bool

definition isEnabled :: "int \<Rightarrow> bool \<Rightarrow> bool" where
  "isEnabled factor supportsDeltaBundles \<longleftrightarrow> \<not> (factor \<le> 0 \<or> \<not> supportsDeltaBundles)"

text \<open>
  \<open>None\<close> is \<open>errExpectingDeltaStateBundle\<close>. The manager appends its predicates to the two
  entries; it subscribes its callbacks only when hybrid mode is enabled.
\<close>

definition NewHybridSyncManager ::
  "int \<Rightarrow> BundleCollectionEntry \<Rightarrow> BundleCollectionEntry \<Rightarrow> (BundleCollectionEntry \<times> BundleCollectionEntry \<times> hybridSyncManager) option" where
  "NewHybridSyncManager factor completeEntry deltaEntry =
     (if \<not> is_delta (entry_bundle deltaEntry) then None
      else Some (completeEntry\<lparr>entry_mode := Some CompleteStateMode\<rparr>, deltaEntry\<lparr>entry_mode := Some DeltaStateMode\<rparr>,
        \<lparr>activeSyncMode = CompleteStateMode, sentDeltaCountSwitchFactor = factor, sentDeltaCount = 0\<rparr>))"

definition mapDelta :: "(DeltaBundle \<Rightarrow> DeltaBundle) \<Rightarrow> BundleCollectionEntry list \<Rightarrow> BundleCollectionEntry list" where
  "mapDelta f es = map (\<lambda>e. case entry_bundle e of DeltaB idf b \<Rightarrow> e\<lparr>entry_bundle := DeltaB idf (f b)\<rparr> | _ \<Rightarrow> e) es"

definition switchToCompleteStateMode :: "hybridSyncManager \<Rightarrow> hybridSyncManager" where
  "switchToCompleteStateMode m = m\<lparr>activeSyncMode := CompleteStateMode\<rparr>"

definition switchToDeltaStateMode ::
  "hybridSyncManager \<times> BundleCollectionEntry list \<Rightarrow> hybridSyncManager \<times> BundleCollectionEntry list" where
  "switchToDeltaStateMode = (\<lambda>(m, es).
     (m\<lparr>activeSyncMode := DeltaStateMode, sentDeltaCount := 0\<rparr>,
      mapDelta (\<lambda>b. SyncState (version_of is_complete es) (base_objects es) (Reset b)) es))"

definition handleTransportationAttempt ::
  "hybridSyncManager \<times> BundleCollectionEntry list \<Rightarrow> hybridSyncManager \<times> BundleCollectionEntry list" where
  "handleTransportationAttempt = (\<lambda>(m, es).
     if activeSyncMode m = CompleteStateMode then switchToDeltaStateMode (m, es)
     else (let m1 = m\<lparr>sentDeltaCount := sentDeltaCount m + 1\<rparr> in
           if sentDeltaCount m1 = sentDeltaCountSwitchFactor m1 then (switchToCompleteStateMode m1, es)
           else (m1, mapDelta Reset es)))"

definition handleTransportationSuccess ::
  "hybridSyncManager \<times> BundleCollectionEntry list \<Rightarrow> hybridSyncManager \<times> BundleCollectionEntry list" where
  "handleTransportationSuccess = (\<lambda>(m, es).
     if activeSyncMode m = DeltaStateMode then (m, es) else switchToDeltaStateMode (m, es))"

definition handleTransportationFailure ::
  "hybridSyncManager \<times> BundleCollectionEntry list \<Rightarrow> hybridSyncManager \<times> BundleCollectionEntry list" where
  "handleTransportationFailure = (\<lambda>(m, es).
     if activeSyncMode m = CompleteStateMode then (m, es) else (switchToCompleteStateMode m, es))"

fun handleEvent :: "EventType \<Rightarrow> hybridSyncManager \<times> BundleCollectionEntry list \<Rightarrow> hybridSyncManager \<times> BundleCollectionEntry list" where
  "handleEvent DeliveryAttempt s = handleTransportationAttempt s"
| "handleEvent DeliverySuccess s = handleTransportationSuccess s"
| "handleEvent DeliveryFailure s = handleTransportationFailure s"

text \<open>\<open>InvokeCallback\<close> for a message id: the manager subscribed the keys of its two entries, if it is enabled.\<close>

definition invoke :: "string \<Rightarrow> EventType \<Rightarrow> statusController \<Rightarrow> statusController" where
  "invoke messageID ev c =
     (case hybridManager c of
        None \<Rightarrow> c
      | Some m \<Rightarrow>
          if callbacksSet c \<and> messageID \<in> transportBundleKey ` set (filter (\<lambda>e. entry_mode e \<noteq> None) (orderedBundleCollection c))
          then (case handleEvent ev (m, orderedBundleCollection c) of
                  (m', es) \<Rightarrow> c\<lparr>hybridManager := Some m', orderedBundleCollection := es\<rparr>)
          else c)"

section \<open>Sending\<close>

record agentMessage =
  am_Key :: string
  am_ID :: string
  am_Version :: string
  am_Payload :: agentBundle

text \<open>What \<open>json.Marshal\<close> sees: the base version of a complete bundle is read through its pointer.\<close>

fun marshalled :: "BundleCollectionEntry list \<Rightarrow> agentBundle \<Rightarrow> agentBundle" where
  "marshalled es (CompleteB idf b) = CompleteB idf (b\<lparr>ccs_BaseBundleVersion := version_of is_cpp es\<rparr>)"
| "marshalled es b = b"

fun transportMessageKey :: "string \<Rightarrow> agentBundle \<Rightarrow> string" where
  "transportMessageKey key (DeltaB idf b) = key @ ''@'' @ itoa (nat (cyclicTransportationBundleID b))"
| "transportMessageKey key _ = key"

definition newMessage :: "BundleCollectionEntry list \<Rightarrow> BundleCollectionEntry \<Rightarrow> agentMessage" where
  "newMessage es e = \<lparr>am_Key = transportMessageKey (transportBundleKey e) (entry_bundle e), am_ID = transportBundleKey e,
     am_Version = BundleVersion_String (GetBundleVersion (entry_bundle e)), am_Payload = marshalled es (entry_bundle e)\<rparr>"

definition mode_allows :: "statusController \<Rightarrow> BundleCollectionEntry \<Rightarrow> bool" where
  "mode_allows c e = (case entry_mode e of None \<Rightarrow> True
     | Some mode \<Rightarrow> (case hybridManager c of None \<Rightarrow> True | Some m \<Rightarrow> activeSyncMode m = mode))"

definition to_send :: "config \<Rightarrow> statusController \<Rightarrow> BundleCollectionEntry \<Rightarrow> bool" where
  "to_send cfg c e \<longleftrightarrow> mode_allows c e \<and> entry_predicate e cfg \<and> NewerThan (GetBundleVersion (entry_bundle e)) (Some (lastSentBundleVersion e))"

text \<open>The entry at an index, sent if need be; \<open>outcome\<close> is the event \<open>SendAsync\<close> reports before it returns, if any.\<close>

definition syncEntry :: "config \<Rightarrow> (agentMessage \<Rightarrow> EventType option) \<Rightarrow> nat \<Rightarrow> statusController \<times> agentMessage list \<Rightarrow> statusController \<times> agentMessage list" where
  "syncEntry cfg outcome i = (\<lambda>(c, sent).
     (let e = orderedBundleCollection c ! i in
      if \<not> to_send cfg c e then (c, sent)
      else (let msg = newMessage (orderedBundleCollection c) e;
                c1 = (case outcome msg of None \<Rightarrow> c | Some ev \<Rightarrow> invoke (am_ID msg) ev c);
                es = orderedBundleCollection c1
            in (c1\<lparr>orderedBundleCollection := es[i := (es ! i)\<lparr>lastSentBundleVersion := GetBundleVersion (entry_bundle (es ! i))\<rparr>]\<rparr>, sent @ [msg]))))"

definition syncBundles :: "config \<Rightarrow> (agentMessage \<Rightarrow> EventType option) \<Rightarrow> statusController \<Rightarrow> statusController \<times> agentMessage list" where
  "syncBundles cfg outcome c = fold (syncEntry cfg outcome) [0..<length (orderedBundleCollection c)] (c, [])"

section \<open>The collections\<close>

definition HasAnnotation :: "agentObject \<Rightarrow> string \<Rightarrow> bool" where
  "HasAnnotation obj annotation \<longleftrightarrow> map_of (obj_annotations obj) annotation \<noteq> None"

definition HasLabel :: "agentObject \<Rightarrow> string \<Rightarrow> bool" where
  "HasLabel obj label \<longleftrightarrow> map_of (obj_labels obj) label \<noteq> None"

definition AddAnnotations :: "(string, string) gomap \<Rightarrow> agentObject \<Rightarrow> agentObject" where
  "AddAnnotations annotations obj =
     obj\<lparr>obj_annotations := fold (\<lambda>(key, val). AList.update key val) annotations (obj_annotations obj)\<rparr>"

definition rootPolicyLabel :: string where
  "rootPolicyLabel = ''policy.open-cluster-management.io/root-policy''"

definition ManagedClusterManagedByAnnotation :: string where
  "ManagedClusterManagedByAnnotation = ''global-hub.open-cluster-management.io/managed-by''"

definition configIs :: "string \<Rightarrow> string \<Rightarrow> config \<Rightarrow> bool" where
  "configIs key val cfg \<longleftrightarrow> map_of cfg key = Some val"

definition extractPolicyID :: ExtractObjIDFunc where
  "extractPolicyID obj = map_of (obj_annotations obj) OriginOwnerReferenceAnnotation"

definition extractLocalPolicyIDFunc :: ExtractObjIDFunc where
  "extractLocalPolicyIDFunc obj = Some (obj_uid obj)"

text \<open>The status is sent in the policy status bundles.\<close>

definition cleanPolicy :: "agentObject \<Rightarrow> agentObject" where
  "cleanPolicy object = object\<lparr>obj_policy := map_option (\<lambda>policy. policy\<lparr>StatusStatus := []\<rparr>) (obj_policy object)\<rparr>"

definition transportKey :: "string \<Rightarrow> string \<Rightarrow> string" where
  "transportKey leafHubName msgKey = leafHubName @ ''.'' @ msgKey"

definition getHybridComplianceBundleCollectionEntries ::
  "string \<Rightarrow> uint64 \<Rightarrow> (config \<Rightarrow> bool) \<Rightarrow> BaseClustersPerPolicyBundle \<Rightarrow> int
   \<Rightarrow> (BundleCollectionEntry \<times> BundleCollectionEntry \<times> hybridSyncManager) option" where
  "getHybridComplianceBundleCollectionEntries leafHubName incarnation fullPredicate clustersPerPolicyBundle factor =
     (let complete = NewCompleteComplianceStatusBundle leafHubName (cpp_BundleVersion clustersPerPolicyBundle) incarnation;
          delta = NewDeltaComplianceStatusBundle leafHubName (ccs_BundleVersion complete) incarnation
      in NewHybridSyncManager factor
           (NewBundleCollectionEntry (transportKey leafHubName ''PolicyCompleteCompliance'') (CompleteB extractPolicyID complete) fullPredicate)
           (NewBundleCollectionEntry (transportKey leafHubName ''PolicyDeltaCompliance'') (DeltaB extractPolicyID delta) fullPredicate))"

definition policies_createBundleCollection :: "string \<Rightarrow> uint64 \<Rightarrow> int \<Rightarrow> bool \<Rightarrow> statusController option" where
  "policies_createBundleCollection leafHubName incarnation factor supportsDeltaBundles =
     (let clustersPerPolicyBundle = NewClustersPerPolicyBundle leafHubName incarnation;
          fullPredicate = configIs ''aggregationLevel'' ''full'';
          minimalPredicate = configIs ''aggregationLevel'' ''minimal''
      in case getHybridComplianceBundleCollectionEntries leafHubName incarnation fullPredicate clustersPerPolicyBundle factor of
           None \<Rightarrow> None
         | Some (completeEntry, deltaEntry, m) \<Rightarrow>
             Some \<lparr>orderedBundleCollection =
                [NewBundleCollectionEntry (transportKey leafHubName ''ClustersPerPolicy'') (ClustersPerPolicyB extractPolicyID clustersPerPolicyBundle) fullPredicate,
                 completeEntry, deltaEntry,
                 NewBundleCollectionEntry (transportKey leafHubName ''MinimalPolicyCompliance'')
                   (MinimalB (NewMinimalComplianceStatusBundle leafHubName incarnation)) minimalPredicate],
               hybridManager = Some m, callbacksSet = isEnabled factor supportsDeltaBundles\<rparr>)"

definition local_createBundleCollection :: "string \<Rightarrow> uint64 \<Rightarrow> statusController" where
  "local_createBundleCollection leafHubName incarnation =
     (let localClustersPerPolicyBundle = NewClustersPerPolicyBundle leafHubName incarnation;
          localPolicyStatusPredicate = (\<lambda>cfg. configIs ''aggregationLevel'' ''full'' cfg \<and> configIs ''enableLocalPolicies'' ''true'' cfg)
      in \<lparr>orderedBundleCollection =
            [NewBundleCollectionEntry (transportKey leafHubName ''LocalClustersPerPolicy'')
               (ClustersPerPolicyB extractLocalPolicyIDFunc localClustersPerPolicyBundle) localPolicyStatusPredicate,
             NewBundleCollectionEntry (transportKey leafHubName ''LocalPolicyCompleteCompliance'')
               (CompleteB extractLocalPolicyIDFunc (NewCompleteComplianceStatusBundle leafHubName (cpp_BundleVersion localClustersPerPolicyBundle) incarnation))
               localPolicyStatusPredicate,
             NewBundleCollectionEntry (transportKey leafHubName ''LocalPolicySpec'')
               (GenericB cleanPolicy (NewGenericStatusBundle leafHubName incarnation)) (configIs ''enableLocalPolicies'' ''true'')],
          hybridManager = None, callbacksSet = False\<rparr>)"

text \<open>The controllers with one generic bundle; \<open>clean\<close> is what they do to an object before it enters the bundle.\<close>

definition singleBundleController :: "string \<Rightarrow> uint64 \<Rightarrow> string \<Rightarrow> (agentObject \<Rightarrow> agentObject) \<Rightarrow> (config \<Rightarrow> bool) \<Rightarrow> statusController" where
  "singleBundleController leafHubName incarnation msgKey clean pred =
     \<lparr>orderedBundleCollection = [NewBundleCollectionEntry (transportKey leafHubName msgKey) (GenericB clean (NewGenericStatusBundle leafHubName incarnation)) pred],
      hybridManager = None, callbacksSet = False\<rparr>"

definition AddClustersStatusController :: "string \<Rightarrow> uint64 \<Rightarrow> statusController" where
  "AddClustersStatusController leafHubName incarnation =
     singleBundleController leafHubName incarnation ''ManagedClusters'' (AddAnnotations [(ManagedClusterManagedByAnnotation, leafHubName)])
       (\<lambda>cfg. configIs ''aggregationLevel'' ''full'' cfg \<or> configIs ''aggregationLevel'' ''minimal'' cfg)"

definition AddPlacementRulesController :: "(agentObject \<Rightarrow> agentObject) \<Rightarrow> string \<Rightarrow> uint64 \<Rightarrow> statusController" where
  "AddPlacementRulesController cleanPlacementRule leafHubName incarnation =
     singleBundleController leafHubName incarnation ''PlacementRule'' cleanPlacementRule (\<lambda>_. True)"

definition AddPlacementsController :: "(agentObject \<Rightarrow> agentObject) \<Rightarrow> string \<Rightarrow> uint64 \<Rightarrow> statusController" where
  "AddPlacementsController cleanPlacement leafHubName incarnation =
     singleBundleController leafHubName incarnation ''Placement'' cleanPlacement (\<lambda>_. True)"

definition AddPlacementDecisionsController :: "string \<Rightarrow> uint64 \<Rightarrow> statusController" where
  "AddPlacementDecisionsController leafHubName incarnation =
     singleBundleController leafHubName incarnation ''PlacementDecision'' (\<lambda>obj. obj) (\<lambda>_. True)"

definition AddSubscriptionStatusesController :: "string \<Rightarrow> uint64 \<Rightarrow> statusController" where
  "AddSubscriptionStatusesController leafHubName incarnation =
     singleBundleController leafHubName incarnation ''SubscriptionStatus'' (\<lambda>obj. obj) (\<lambda>_. True)"

definition AddSubscriptionReportsController :: "string \<Rightarrow> uint64 \<Rightarrow> statusController" where
  "AddSubscriptionReportsController leafHubName incarnation =
     singleBundleController leafHubName incarnation ''SubscriptionReport'' (\<lambda>obj. obj) (\<lambda>_. True)"

definition AddLocalPlacementRulesController :: "(agentObject \<Rightarrow> agentObject) \<Rightarrow> string \<Rightarrow> uint64 \<Rightarrow> statusController" where
  "AddLocalPlacementRulesController cleanPlacementRule leafHubName incarnation =
     singleBundleController leafHubName incarnation ''LocalPlacementRules'' cleanPlacementRule (configIs ''enableLocalPolicies'' ''true'')"

text \<open>The objects the event filters of the two policy controllers let through.\<close>

definition policies_filter :: "agentObject \<Rightarrow> bool" where
  "policies_filter object \<longleftrightarrow> \<not> HasLabel object rootPolicyLabel \<and> HasAnnotation object OriginOwnerReferenceAnnotation"

definition localPolicies_filter :: "agentObject \<Rightarrow> bool" where
  "localPolicies_filter object \<longleftrightarrow> \<not> HasAnnotation object OriginOwnerReferenceAnnotation \<and> \<not> HasLabel object rootPolicyLabel"

text \<open>The control-info controller increments and sends at every tick.\<close>

definition controlinfo_syncBundle :: "string \<Rightarrow> baseBundle \<Rightarrow> baseBundle \<times> string \<times> string" where
  "controlinfo_syncBundle key b = (let b' = controlinfo_UpdateObject b in (b', key, BundleVersion_String (bb_BundleVersion b')))"

text \<open>
  The intervals of the tickers, in nanoseconds; \<open>time.ParseDuration\<close> is a parameter. A key that is
  missing or not a duration leaves the interval.
\<close>

record SyncIntervals =
  si_managedClusters :: int
  si_policies :: int
  si_controlInfo :: int

definition NewSyncIntervals :: SyncIntervals where
  "NewSyncIntervals = \<lparr>si_managedClusters = 5 * 10 ^ 9, si_policies = 5 * 10 ^ 9, si_controlInfo = 60 * 10 ^ 9\<rparr>"

definition setSyncInterval :: "(string \<Rightarrow> int option) \<Rightarrow> config \<Rightarrow> string \<Rightarrow> int \<Rightarrow> int" where
  "setSyncInterval parseDuration configMap key syncInterval =
     (case map_of configMap key of
        None \<Rightarrow> syncInterval
      | Some intervalStr \<Rightarrow> (case parseDuration intervalStr of None \<Rightarrow> syncInterval | Some interval \<Rightarrow> interval))"

definition syncIntervals_Reconcile :: "(string \<Rightarrow> int option) \<Rightarrow> (string + config option) \<Rightarrow> SyncIntervals \<Rightarrow> string option \<times> SyncIntervals" where
  "syncIntervals_Reconcile parseDuration got s =
     (case got of
        Inl err \<Rightarrow> (Some err, s)
      | Inr None \<Rightarrow> (None, s)
      | Inr (Some configMap) \<Rightarrow>
          (None, \<lparr>si_managedClusters = setSyncInterval parseDuration configMap ''managed_clusters'' (si_managedClusters s),
                  si_policies = setSyncInterval parseDuration configMap ''policies'' (si_policies s),
                  si_controlInfo = setSyncInterval parseDuration configMap ''control_info'' (si_controlInfo s)\<rparr>))"

end
