(* ===== verification/GH_StatusSyncProps.thy ===== *)
theory GH_StatusSyncProps
  imports GH_StatusSync
begin

text \<open>
  What the status controllers promise: exactly the changed bundles are sent, once; and a delta bundle
  is only sent on top of a complete bundle that was sent before it, as long as no report of a
  successful delivery arrives late. The last section shows what happens when one does.
\<close>

section \<open>Sending what changed\<close>

definition mark_sent :: "BundleCollectionEntry \<Rightarrow> BundleCollectionEntry" where
  "mark_sent e = e\<lparr>lastSentBundleVersion := GetBundleVersion (entry_bundle e)\<rparr>"

lemma mark_sent_simps [simp]:
  "entry_bundle (mark_sent e) = entry_bundle e" "entry_mode (mark_sent e) = entry_mode e" "entry_predicate (mark_sent e) = entry_predicate e"
  "transportBundleKey (mark_sent e) = transportBundleKey e" "lastSentBundleVersion (mark_sent e) = GetBundleVersion (entry_bundle e)"
  by (simp_all add: mark_sent_def)

lemma marshalled_bundles:
  assumes "map entry_bundle es = map entry_bundle es'"
  shows "marshalled es b = marshalled es' b"
  using assms by (cases b) (simp_all add: version_of_def)

lemma invoke_no_manager [simp]: "hybridManager c = None \<Longrightarrow> invoke k ev c = c"
  by (simp add: invoke_def)

lemma to_send_no_manager:
  assumes "hybridManager c = None"
  shows "to_send cfg c e \<longleftrightarrow> entry_predicate e cfg \<and> NewerThan (GetBundleVersion (entry_bundle e)) (Some (lastSentBundleVersion e))"
  using assms by (simp add: to_send_def mode_allows_def split: option.split)

lemma syncEntries_no_manager:
  assumes "hybridManager c = None" and "n \<le> length (orderedBundleCollection c)"
  shows "fold (syncEntry cfg outcome) [0..<n] (c, []) =
    (c\<lparr>orderedBundleCollection := map (\<lambda>e. if to_send cfg c e then mark_sent e else e) (take n (orderedBundleCollection c))
        @ drop n (orderedBundleCollection c)\<rparr>,
     map (newMessage (orderedBundleCollection c)) (filter (to_send cfg c) (take n (orderedBundleCollection c))))"
  using assms(2)
proof (induction n)
  case 0
  then show ?case by simp
next
  case (Suc n)
  let ?es = "orderedBundleCollection c" and ?f = "\<lambda>e. if to_send cfg c e then mark_sent e else e"
  let ?es1 = "map ?f (take n ?es) @ drop n ?es"
  let ?c1 = "c\<lparr>orderedBundleCollection := ?es1\<rparr>"
  have nth: "?es1 ! n = ?es ! n" and len: "length (map ?f (take n ?es)) = n"
    using Suc.prems by (simp_all add: nth_append)
  have bundles: "map entry_bundle ?es1 = map entry_bundle ?es"
    by (simp add: comp_def if_distrib cong: if_cong) (metis append_take_drop_id map_append)
  have msg: "newMessage ?es1 e = newMessage ?es e" for e
    by (simp add: newMessage_def marshalled_bundles [OF bundles])
  have send: "to_send cfg ?c1 e = to_send cfg c e" for e
    using assms(1) by (simp add: to_send_no_manager)
  have man: "hybridManager ?c1 = None"
    using assms(1) by simp
  have upd: "?es1[n := mark_sent (?es ! n)] = map ?f (take n ?es) @ mark_sent (?es ! n) # drop (Suc n) ?es"
    using len Suc.prems by (simp add: list_update_append Cons_nth_drop_Suc [symmetric])
  have drop: "drop n ?es = ?es ! n # drop (Suc n) ?es"
    using Suc.prems by (simp add: Cons_nth_drop_Suc)
  have "syncEntry cfg outcome n (?c1, sent) =
      (if to_send cfg c (?es ! n) then (c\<lparr>orderedBundleCollection := map ?f (take n ?es) @ mark_sent (?es ! n) # drop (Suc n) ?es\<rparr>, sent @ [newMessage ?es (?es ! n)])
       else (?c1, sent))" for sent
    using man nth send msg upd
    by (simp add: syncEntry_def Let_def mark_sent_def [symmetric] split: option.split)
  then show ?case
    using Suc drop by (simp add: take_Suc_conv_app_nth)
qed

text \<open>The periodic synchronisation of a collection without hybrid mode sends one message for each entry whose
  predicate holds and whose version is newer than the one last sent, in the order of the collection; a second
  synchronisation without a change in between sends nothing.\<close>

theorem syncBundles_sends_changed:
  assumes "hybridManager c = None"
  shows "snd (syncBundles cfg outcome c) = map (newMessage (orderedBundleCollection c))
      (filter (\<lambda>e. entry_predicate e cfg \<and> NewerThan (GetBundleVersion (entry_bundle e)) (Some (lastSentBundleVersion e))) (orderedBundleCollection c))
    \<and> snd (syncBundles cfg outcome' (fst (syncBundles cfg outcome c))) = []"
proof -
  let ?es = "orderedBundleCollection c" and ?f = "\<lambda>e. if to_send cfg c e then mark_sent e else e"
  have first: "syncBundles cfg outcome c = (c\<lparr>orderedBundleCollection := map ?f ?es\<rparr>, map (newMessage ?es) (filter (to_send cfg c) ?es))"
    using syncEntries_no_manager [OF assms, of "length ?es"] by (simp add: syncBundles_def)
  define f where "f = ?f"
  let ?c1 = "c\<lparr>orderedBundleCollection := map f ?es\<rparr>"
  have man1: "hybridManager ?c1 = None"
    using assms by simp
  have "\<not> to_send cfg ?c1 (f e)" for e
    unfolding to_send_no_manager [OF man1] by (simp add: f_def to_send_no_manager [OF assms])
  then have "filter (to_send cfg ?c1) (map f ?es) = []"
    by (simp add: filter_empty_conv)
  then have "snd (syncBundles cfg outcome' ?c1) = []"
    using syncEntries_no_manager [OF man1, of "length ?es"] by (simp add: syncBundles_def)
  then have "snd (syncBundles cfg outcome' (c\<lparr>orderedBundleCollection := map ?f ?es\<rparr>)) = []"
    unfolding f_def .
  then show ?thesis
    using first by (simp add: to_send_no_manager [OF assms] cong: filter_cong)
qed

section \<open>The policy collection\<close>

text \<open>
  The collection of the policies controller, and the part of its state that relates the delta bundle
  to the complete bundles sent.
\<close>

definition complete_sent :: "agentMessage list \<Rightarrow> BundleVersion \<Rightarrow> bool" where
  "complete_sent log v = list_ex (\<lambda>msg. case am_Payload msg of CompleteB idf b \<Rightarrow> ccs_BundleVersion b = v | _ \<Rightarrow> False) log"

text \<open>Every delta bundle was sent after the complete bundle whose version it names as its base.\<close>

fun grounded :: "agentMessage list \<Rightarrow> agentMessage list \<Rightarrow> bool" where
  "grounded before [] = True"
| "grounded before (msg # msgs) =
     ((case am_Payload msg of DeltaB idf b \<Rightarrow> complete_sent before (dcs_BaseBundleVersion (db_base b)) | _ \<Rightarrow> True)
      \<and> grounded (before @ [msg]) msgs)"

lemma grounded_snoc:
  "grounded before (msgs @ [msg]) \<longleftrightarrow> grounded before msgs
     \<and> (case am_Payload msg of DeltaB idf b \<Rightarrow> complete_sent (before @ msgs) (dcs_BaseBundleVersion (db_base b)) | _ \<Rightarrow> True)"
  by (induction msgs arbitrary: before) (auto split: agentBundle.splits)

lemma complete_sent_append: "complete_sent log v \<Longrightarrow> complete_sent (log @ msgs) v"
  by (auto simp: complete_sent_def)

text \<open>A bundle with what the invariant reads of it.\<close>

fun plain :: "agentBundle \<Rightarrow> bool" where
  "plain (CompleteB idf b) = False" | "plain (DeltaB idf b) = False" | "plain _ = True"

definition policy_entries ::
  "uint64 \<Rightarrow> BundleCollectionEntry list \<Rightarrow> BundleVersion \<Rightarrow> BundleVersion \<Rightarrow> bool" where
  "policy_entries inc es completeVersion baseVersion \<longleftrightarrow>
     (\<exists>e0 e1 e2 e3 idf ccs idf' dlt. es = [e0, e1, e2, e3]
        \<and> plain (entry_bundle e0) \<and> plain (entry_bundle e3) \<and> entry_mode e0 = None \<and> entry_mode e3 = None
        \<and> entry_bundle e1 = CompleteB idf ccs \<and> entry_mode e1 = Some CompleteStateMode \<and> ccs_BundleVersion ccs = completeVersion
        \<and> entry_bundle e2 = DeltaB idf' dlt \<and> entry_mode e2 = Some DeltaStateMode \<and> dcs_BaseBundleVersion (db_base dlt) = baseVersion
        \<and> transportBundleKey e0 \<notin> {transportBundleKey e1, transportBundleKey e2} \<and> transportBundleKey e3 \<notin> {transportBundleKey e1, transportBundleKey e2}
        \<and> Incarnation completeVersion = inc \<and> Incarnation baseVersion = inc)"

definition sync_inv :: "uint64 \<Rightarrow> statusController \<Rightarrow> agentMessage list \<Rightarrow> bool" where
  "sync_inv inc c log \<longleftrightarrow>
     (\<exists>m v w. policy_entries inc (orderedBundleCollection c) v w \<and> hybridManager c = Some m
        \<and> (callbacksSet c \<longrightarrow> 0 < sentDeltaCountSwitchFactor m)
        \<and> (activeSyncMode m = DeltaStateMode \<longrightarrow>
             callbacksSet c \<and> 0 \<le> sentDeltaCount m \<and> sentDeltaCount m < sentDeltaCountSwitchFactor m \<and> complete_sent log w))
     \<and> grounded [] log"

section \<open>Objects leave the relation alone\<close>

lemma delta_UpdateObject_base:
  "dcs_BaseBundleVersion (db_base (delta_UpdateObject ord idf C object b)) = dcs_BaseBundleVersion (db_base b)"
proof -
  have "dcs_BaseBundleVersion (db_base (updateSpecificPolicyRecordsFromBase p C b)) = dcs_BaseBundleVersion (db_base b)" for p
    by (induction C) (simp_all add: syncGenericStatus_def)
  then show ?thesis
    by (auto simp: delta_UpdateObject_def Let_def set_delta_objects_def delta_incrGeneration_def split: option.split prod.split)
qed

lemma delta_DeleteObject_base:
  "dcs_BaseBundleVersion (db_base (delta_DeleteObject idf object b)) = dcs_BaseBundleVersion (db_base b)"
  by (auto simp: delta_DeleteObject_def set_delta_objects_def split: option.split)

lemma Incarnation_incr [simp]: "Incarnation (incrGeneration v) = Incarnation v"
  by (simp add: incrGeneration_def)

lemma ccs_incarnation:
  "Incarnation (ccs_BundleVersion (ccs_UpdateObject idf object b)) = Incarnation (ccs_BundleVersion b)"
  "Incarnation (ccs_BundleVersion (ccs_DeleteObject idf object b)) = Incarnation (ccs_BundleVersion b)"
  using ccs.upd_version [of idf object b] ccs.del_version [of idf object b] by auto

lemma plain_UpdateObject [simp]: "plain (UpdateObject ord es object b) = plain b" "plain (DeleteObject object b) = plain b"
  by (cases b; simp)+

lemma Reconcile_entries:
  assumes "policy_entries inc es v w"
  shows "\<exists>v'. policy_entries inc (snd (Reconcile ord client_Update got es)) v' w"
proof -
  obtain e0 e1 e2 e3 where es: "es = [e0, e1, e2, e3]"
    using assms unfolding policy_entries_def by blast
  have upd: "\<exists>v'. policy_entries inc (updateLoop ord object [] es) v' w" for object
    using assms unfolding policy_entries_def es by (auto simp: ccs_incarnation delta_UpdateObject_base)
  have del: "\<exists>v'. policy_entries inc (map (\<lambda>e. e\<lparr>entry_bundle := DeleteObject object (entry_bundle e)\<rparr>) es) v' w" for object
    using assms unfolding policy_entries_def es by (auto simp: ccs_incarnation delta_DeleteObject_base)
  show ?thesis
    using assms upd del
    by (auto simp: Reconcile_def updateObjectAndFinalizer_def deleteObjectAndFinalizer_def split: getResult.split sum.split)
qed

section \<open>Sending keeps the relation\<close>

lemma policy_entries_complete: "policy_entries inc es v w \<Longrightarrow> version_of is_complete es = v"
  unfolding policy_entries_def version_of_def by (auto split: agentBundle.splits elim!: plain.elims)

lemma policy_entries_Reset: "policy_entries inc es v w \<Longrightarrow> policy_entries inc (mapDelta Reset es) v w"
  unfolding policy_entries_def mapDelta_def
  by (auto simp: Reset_def set_delta_objects_def split: agentBundle.splits elim!: plain.elims)

lemma SyncState_base: "dcs_BaseBundleVersion (db_base (SyncState v C b)) = BundleVersion (Incarnation (dcs_BaseBundleVersion (db_base b))) (Generation v)"
  by (simp add: SyncState_def Let_def updatePolicyRecordsFromBase_def syncGenericStatus_cache(2))

lemma Reset_base [simp]: "dcs_BaseBundleVersion (db_base (Reset b)) = dcs_BaseBundleVersion (db_base b)"
  by (simp add: Reset_def set_delta_objects_def)

lemma policy_entries_SyncState:
  assumes "policy_entries inc es v w"
  shows "policy_entries inc (mapDelta (\<lambda>b. SyncState (version_of is_complete es) C (Reset b)) es) v v"
proof -
  have v: "version_of is_complete es = v"
    using policy_entries_complete [OF assms] .
  have "BundleVersion inc (Generation v) = v"
    using assms unfolding policy_entries_def by (cases v) auto
  then show ?thesis
    using assms unfolding v policy_entries_def mapDelta_def
    by (auto simp: SyncState_base split: agentBundle.splits elim!: plain.elims)
qed

lemma policy_entries_mark:
  assumes "policy_entries inc es v w" and "i < length es"
  shows "policy_entries inc (es[i := mark_sent (es ! i)]) v w"
proof -
  obtain e0 e1 e2 e3 where es: "es = [e0, e1, e2, e3]"
    using assms(1) unfolding policy_entries_def by blast
  then have "i = 0 \<or> i = 1 \<or> i = 2 \<or> i = 3"
    using assms(2) by auto
  then show ?thesis
    using assms(1) unfolding policy_entries_def es by (elim disjE) auto
qed

lemma policy_entries_length: "policy_entries inc es v w \<Longrightarrow> length es = 4"
  unfolding policy_entries_def by auto

text \<open>The keys the manager subscribed are those of the entries with a mode.\<close>

lemma policy_entries_nth:
  assumes "policy_entries inc es v w" and "i < 4"
  shows "entry_mode (es ! i) = None \<Longrightarrow> plain (entry_bundle (es ! i)) \<and> transportBundleKey (es ! i) \<notin> transportBundleKey ` set (filter (\<lambda>e. entry_mode e \<noteq> None) es)"
    and "entry_mode (es ! i) = Some CompleteStateMode \<Longrightarrow> \<exists>idf b. entry_bundle (es ! i) = CompleteB idf b \<and> ccs_BundleVersion b = v"
    and "entry_mode (es ! i) = Some DeltaStateMode \<Longrightarrow> \<exists>idf b. entry_bundle (es ! i) = DeltaB idf b \<and> dcs_BaseBundleVersion (db_base b) = w"
proof -
  obtain e0 e1 e2 e3 where es: "es = [e0, e1, e2, e3]"
    using assms(1) unfolding policy_entries_def by blast
  have "i = 0 \<or> i = 1 \<or> i = 2 \<or> i = 3"
    using assms(2) by auto
  then show "entry_mode (es ! i) = None \<Longrightarrow> plain (entry_bundle (es ! i)) \<and> transportBundleKey (es ! i) \<notin> transportBundleKey ` set (filter (\<lambda>e. entry_mode e \<noteq> None) es)"
    and "entry_mode (es ! i) = Some CompleteStateMode \<Longrightarrow> \<exists>idf b. entry_bundle (es ! i) = CompleteB idf b \<and> ccs_BundleVersion b = v"
    and "entry_mode (es ! i) = Some DeltaStateMode \<Longrightarrow> \<exists>idf b. entry_bundle (es ! i) = DeltaB idf b \<and> dcs_BaseBundleVersion (db_base b) = w"
    using assms(1) unfolding policy_entries_def es by (elim disjE; auto)+
qed

lemma payload_newMessage:
  "plain (entry_bundle e) \<Longrightarrow> am_Payload (newMessage es e) = entry_bundle e"
  "entry_bundle e = DeltaB idf d \<Longrightarrow> am_Payload (newMessage es e) = DeltaB idf d"
  "entry_bundle e = CompleteB idf b \<Longrightarrow> \<exists>b'. am_Payload (newMessage es e) = CompleteB idf b' \<and> ccs_BundleVersion b' = ccs_BundleVersion b"
  by (cases "entry_bundle e"; simp add: newMessage_def)+

text \<open>The entries and the mode after a switch to delta mode, and after any callback.\<close>

lemma switched_inv:
  assumes "policy_entries inc es v w" and "(m', es') = switchToDeltaStateMode (m, es)"
  shows "policy_entries inc es' v v" and "sentDeltaCount m' = 0" and "sentDeltaCountSwitchFactor m' = sentDeltaCountSwitchFactor m"
  using assms(2) policy_entries_SyncState [OF assms(1), of "base_objects es"] by (simp_all add: switchToDeltaStateMode_def)

lemma invoke_inv:
  assumes "policy_entries inc (orderedBundleCollection c) v w" and "hybridManager c = Some m"
  obtains w' m' where "policy_entries inc (orderedBundleCollection (invoke k ev c)) v w'" "hybridManager (invoke k ev c) = Some m'"
    "callbacksSet (invoke k ev c) = callbacksSet c" "sentDeltaCountSwitchFactor m' = sentDeltaCountSwitchFactor m"
    "activeSyncMode m' = DeltaStateMode \<Longrightarrow> w' = w \<and> activeSyncMode m = DeltaStateMode \<and> (sentDeltaCount m' = sentDeltaCount m
        \<or> sentDeltaCount m' = sentDeltaCount m + 1 \<and> sentDeltaCount m' \<noteq> sentDeltaCountSwitchFactor m)
      \<or> w' = v \<and> activeSyncMode m = CompleteStateMode \<and> ev \<noteq> DeliveryFailure \<and> callbacksSet c \<and> sentDeltaCount m' = 0"
proof (cases "callbacksSet c \<and> k \<in> transportBundleKey ` set (filter (\<lambda>e. entry_mode e \<noteq> None) (orderedBundleCollection c))")
  case False
  then have "invoke k ev c = c"
    using assms(2) by (auto simp: invoke_def)
  with that [of w m] assms show ?thesis by simp
next
  case True
  let ?es = "orderedBundleCollection c"
  obtain m' es' where h: "handleEvent ev (m, ?es) = (m', es')" by fastforce
  have inv: "invoke k ev c = c\<lparr>hybridManager := Some m', orderedBundleCollection := es'\<rparr>"
    using True assms(2) h by (simp add: invoke_def)
  show ?thesis
  proof (cases ev)
    case DeliverySuccess
    show ?thesis
    proof (cases "activeSyncMode m = DeltaStateMode")
      case mode: True
      then have "m' = m" "es' = ?es" using h DeliverySuccess by (simp_all add: handleTransportationSuccess_def)
      with that [of w m] inv assms mode show ?thesis by simp
    next
      case False
      then have mode: "activeSyncMode m = CompleteStateMode" by (cases "activeSyncMode m") auto
      then have "(m', es') = switchToDeltaStateMode (m, ?es)" using h DeliverySuccess by (simp add: handleTransportationSuccess_def)
      with that [of v m'] inv switched_inv [OF assms(1)] True mode DeliverySuccess show ?thesis by simp
    qed
  next
    case DeliveryFailure
    then have "es' = ?es \<and> activeSyncMode m' = CompleteStateMode \<and> sentDeltaCountSwitchFactor m' = sentDeltaCountSwitchFactor m"
      using h by (auto simp: handleTransportationFailure_def switchToCompleteStateMode_def split: if_splits)
    with that [of w m'] inv assms show ?thesis by simp
  next
    case DeliveryAttempt
    show ?thesis
    proof (cases "activeSyncMode m = CompleteStateMode")
      case mode: True
      then have "(m', es') = switchToDeltaStateMode (m, ?es)" using h DeliveryAttempt by (simp add: handleTransportationAttempt_def)
      with that [of v m'] inv switched_inv [OF assms(1)] True mode DeliveryAttempt show ?thesis by simp
    next
      case False
      then have mode: "activeSyncMode m = DeltaStateMode"
        by (cases "activeSyncMode m") auto
      have "(es' = ?es \<or> es' = mapDelta Reset ?es) \<and> sentDeltaCountSwitchFactor m' = sentDeltaCountSwitchFactor m
          \<and> (activeSyncMode m' = DeltaStateMode \<longrightarrow> sentDeltaCount m' = sentDeltaCount m + 1 \<and> sentDeltaCount m' \<noteq> sentDeltaCountSwitchFactor m)"
        using h DeliveryAttempt mode by (auto simp: handleTransportationAttempt_def switchToCompleteStateMode_def Let_def split: if_splits)
      with that [of w m'] inv policy_entries_Reset [OF assms(1)] assms(1) mode show ?thesis by auto
    qed
  qed
qed

text \<open>One entry.\<close>

lemma syncEntry_sent: "syncEntry cfg outcome i (c, sent) = (case syncEntry cfg outcome i (c, []) of (c', msgs) \<Rightarrow> (c', sent @ msgs))"
  by (simp add: syncEntry_def Let_def)

lemma grounded_sent:
  assumes "policy_entries inc es v w" and "i < 4" and "grounded [] log"
    and "entry_mode (es ! i) = Some DeltaStateMode \<Longrightarrow> complete_sent log w"
  shows "grounded [] (log @ [newMessage es (es ! i)])"
proof (cases "entry_mode (es ! i)")
  case None
  then show ?thesis
    using assms(3) policy_entries_nth(1) [OF assms(1,2)] payload_newMessage(1) [of "es ! i" es]
    by (cases "entry_bundle (es ! i)") (auto simp: grounded_snoc)
next
  case (Some mode)
  show ?thesis
  proof (cases mode)
    case CompleteStateMode
    then obtain idf b where "entry_bundle (es ! i) = CompleteB idf b"
      using Some policy_entries_nth(2) [OF assms(1,2)] by blast
    then show ?thesis
      using payload_newMessage(3) [of "es ! i" idf b es] assms(3) by (auto simp: grounded_snoc)
  next
    case DeltaStateMode
    then obtain idf b where "entry_bundle (es ! i) = DeltaB idf b" and "dcs_BaseBundleVersion (db_base b) = w"
      using Some policy_entries_nth(3) [OF assms(1,2)] by blast
    then show ?thesis
      using payload_newMessage(2) [of "es ! i" idf b es] assms(3,4) Some DeltaStateMode by (simp add: grounded_snoc)
  qed
qed

text \<open>A key that is subscribed belongs to the complete or the delta entry.\<close>

lemma invoke_plain:
  assumes "policy_entries inc (orderedBundleCollection c) v w" and "i < 4" and "entry_mode (orderedBundleCollection c ! i) = None"
  shows "invoke (transportBundleKey (orderedBundleCollection c ! i)) ev c = c"
  using policy_entries_nth(1) [OF assms] by (auto simp: invoke_def split: option.split)

lemma syncEntry_inv:
  assumes "sync_inv inc c log" and "i < 4" and "syncEntry cfg outcome i (c, []) = (c', sent)"
  shows "sync_inv inc c' (log @ sent)"
proof (cases "to_send cfg c (orderedBundleCollection c ! i)")
  case False
  then show ?thesis
    using assms(1,3) by (simp add: syncEntry_def Let_def)
next
  case True
  let ?es = "orderedBundleCollection c" and ?e = "orderedBundleCollection c ! i"
  let ?msg = "newMessage ?es ?e"
  define c1 where "c1 = (case outcome ?msg of None \<Rightarrow> c | Some ev \<Rightarrow> invoke (am_ID ?msg) ev c)"
  let ?es1 = "orderedBundleCollection c1"
  have ID: "am_ID ?msg = transportBundleKey ?e"
    by (simp add: newMessage_def)
  have "(c1\<lparr>orderedBundleCollection := ?es1[i := mark_sent (?es1 ! i)]\<rparr>, [?msg]) = (c', sent)"
    unfolding assms(3) [symmetric] using True by (simp add: syncEntry_def Let_def c1_def mark_sent_def)
  then have eq: "c' = c1\<lparr>orderedBundleCollection := ?es1[i := mark_sent (?es1 ! i)]\<rparr>" "sent = [?msg]"
    by auto
  obtain m v w where es: "policy_entries inc ?es v w" and m: "hybridManager c = Some m"
    and fac: "callbacksSet c \<longrightarrow> 0 < sentDeltaCountSwitchFactor m" and log: "grounded [] log"
    and delta: "activeSyncMode m = DeltaStateMode \<longrightarrow>
      callbacksSet c \<and> 0 \<le> sentDeltaCount m \<and> sentDeltaCount m < sentDeltaCountSwitchFactor m \<and> complete_sent log w"
    using assms(1) unfolding sync_inv_def by blast
  have allowed: "entry_mode ?e = Some mode \<Longrightarrow> activeSyncMode m = mode" for mode
    using True m by (simp add: to_send_def mode_allows_def)
  have grounded: "grounded [] (log @ [?msg])"
    using grounded_sent [OF es assms(2) log] allowed delta by blast
  have sent_complete: "entry_mode ?e = Some CompleteStateMode \<Longrightarrow> complete_sent (log @ [?msg]) v"
    using policy_entries_nth(2) [OF es assms(2)] payload_newMessage(3) [of ?e _ _ ?es] by (fastforce simp: complete_sent_def list_ex_iff)
  obtain m' w' where new: "policy_entries inc ?es1 v w' \<and> hybridManager c1 = Some m' \<and> (callbacksSet c1 \<longrightarrow> 0 < sentDeltaCountSwitchFactor m')
      \<and> (activeSyncMode m' = DeltaStateMode \<longrightarrow> callbacksSet c1 \<and> 0 \<le> sentDeltaCount m' \<and> sentDeltaCount m' < sentDeltaCountSwitchFactor m'
          \<and> complete_sent (log @ [?msg]) w')"
  proof (cases "outcome ?msg = None \<or> entry_mode ?e = None")
    case True
    then have "c1 = c"
      using invoke_plain [OF es assms(2)] by (auto simp: c1_def ID split: option.split)
    then show ?thesis
      using that [of w m] es m fac delta complete_sent_append by auto
  next
    case False
    then obtain ev mode where ev: "outcome ?msg = Some ev" and mode: "entry_mode ?e = Some mode" by auto
    from invoke_inv [OF es m, of "transportBundleKey ?e"] obtain w' m'
      where es1: "policy_entries inc (orderedBundleCollection (invoke (transportBundleKey ?e) ev c)) v w'"
        and m1: "hybridManager (invoke (transportBundleKey ?e) ev c) = Some m'"
        and cb: "callbacksSet (invoke (transportBundleKey ?e) ev c) = callbacksSet c"
        and f: "sentDeltaCountSwitchFactor m' = sentDeltaCountSwitchFactor m"
        and cases: "activeSyncMode m' = DeltaStateMode \<Longrightarrow> w' = w \<and> activeSyncMode m = DeltaStateMode \<and> (sentDeltaCount m' = sentDeltaCount m
            \<or> sentDeltaCount m' = sentDeltaCount m + 1 \<and> sentDeltaCount m' \<noteq> sentDeltaCountSwitchFactor m)
          \<or> w' = v \<and> activeSyncMode m = CompleteStateMode \<and> ev \<noteq> DeliveryFailure \<and> callbacksSet c \<and> sentDeltaCount m' = 0"
      by blast
    have c1: "c1 = invoke (transportBundleKey ?e) ev c"
      using ev by (simp add: c1_def ID)
    have "callbacksSet c \<and> 0 \<le> sentDeltaCount m' \<and> sentDeltaCount m' < sentDeltaCountSwitchFactor m' \<and> complete_sent (log @ [?msg]) w'"
      if "activeSyncMode m' = DeltaStateMode"
      using cases [OF that] delta fac f sent_complete mode allowed [OF mode] complete_sent_append [of log w "[?msg]"] by auto
    then show ?thesis
      using that [of w' m'] es1 m1 cb f fac unfolding c1 by auto
  qed
  have "policy_entries inc (?es1[i := mark_sent (?es1 ! i)]) v w'"
    using new policy_entries_mark [of inc ?es1 v w' i] policy_entries_length [of inc ?es1 v w'] assms(2) by simp
  then show ?thesis
    using new grounded unfolding sync_inv_def eq by (intro conjI exI [of _ m'] exI [of _ v] exI [of _ w']) simp_all
qed

lemma sync_inv_length: "sync_inv inc c log \<Longrightarrow> length (orderedBundleCollection c) = 4"
  unfolding sync_inv_def using policy_entries_length by blast

lemma syncBundles_inv:
  assumes "sync_inv inc c log" and "syncBundles cfg outcome c = (c', sent)"
  shows "sync_inv inc c' (log @ sent)"
proof -
  have "sync_inv inc c1 (log @ msgs) \<Longrightarrow> list_all (\<lambda>i. i < 4) is \<Longrightarrow> fold (syncEntry cfg outcome) is (c1, msgs) = (c2, msgs')
      \<Longrightarrow> sync_inv inc c2 (log @ msgs')" for "is" c1 msgs c2 msgs'
  proof (induction "is" arbitrary: c1 msgs)
    case Nil
    then show ?case by simp
  next
    case (Cons i "is")
    obtain d sent where step: "syncEntry cfg outcome i (c1, []) = (d, sent)" by fastforce
    with syncEntry_inv [OF Cons.prems(1) _ step] Cons.prems show ?case
      by (intro Cons.IH [of d "msgs @ sent"]) (simp_all add: syncEntry_sent [of cfg outcome i c1 msgs])
  qed
  from this [of c "[]" "[0..<length (orderedBundleCollection c)]"] show ?thesis
    using assms(1,2) sync_inv_length [OF assms(1)] by (simp add: syncBundles_def list_all_iff)
qed

section \<open>Runs of the agent\<close>

text \<open>
  A state is the policies controller and the messages it has handed to the producer. Objects are
  reconciled, the bundles are synchronised, and the producer reports on earlier messages, in any
  order. The report of a success is late when the manager is in complete mode at the time, and what the
  complete bundle holds then has not been sent. With \<open>late\<close> such reports occur too.
\<close>

definition timely :: "statusController \<Rightarrow> agentMessage list \<Rightarrow> bool" where
  "timely c log \<longleftrightarrow> (case hybridManager c of
      None \<Rightarrow> True
    | Some m \<Rightarrow> activeSyncMode m = DeltaStateMode \<or> complete_sent log (version_of is_complete (orderedBundleCollection c)))"

inductive agent_step :: "bool \<Rightarrow> statusController \<times> agentMessage list \<Rightarrow> statusController \<times> agentMessage list \<Rightarrow> bool"
  for late :: bool where
  reconciled: "Reconcile ord client_Update got (orderedBundleCollection c) = (err, es)
     \<Longrightarrow> agent_step late (c, log) (c\<lparr>orderedBundleCollection := es\<rparr>, log)"
| synced: "syncBundles cfg outcome c = (c', sent) \<Longrightarrow> agent_step late (c, log) (c', log @ sent)"
| failed: "agent_step late (c, log) (invoke messageID DeliveryFailure c, log)"
| succeeded: "late \<or> timely c log \<Longrightarrow> agent_step late (c, log) (invoke messageID DeliverySuccess c, log)"

definition agent_reachable :: "bool \<Rightarrow> string \<Rightarrow> uint64 \<Rightarrow> int \<Rightarrow> bool \<Rightarrow> statusController \<times> agentMessage list \<Rightarrow> bool" where
  "agent_reachable late leafHubName inc factor supportsDeltaBundles s \<longleftrightarrow>
     (\<exists>c0. policies_createBundleCollection leafHubName inc factor supportsDeltaBundles = Some c0 \<and> (agent_step late)\<^sup>*\<^sup>* (c0, []) s)"

lemma sync_inv_create:
  assumes "policies_createBundleCollection leafHubName inc factor supportsDeltaBundles = Some c"
  shows "sync_inv inc c []"
proof -
  note defs = policies_createBundleCollection_def getHybridComplianceBundleCollectionEntries_def NewHybridSyncManager_def
    NewBundleCollectionEntry_def NewCompleteComplianceStatusBundle_def NewDeltaComplianceStatusBundle_def NewBundleVersion_def
    NewClustersPerPolicyBundle_def NewMinimalComplianceStatusBundle_def
  have "policy_entries inc (orderedBundleCollection c) (BundleVersion inc 0) (BundleVersion inc 0)"
    using assms unfolding policy_entries_def by (auto simp: defs Let_def transportKey_def)
  moreover have "callbacksSet c \<longrightarrow> 0 < sentDeltaCountSwitchFactor (the (hybridManager c))" "hybridManager c \<noteq> None"
    "activeSyncMode (the (hybridManager c)) = CompleteStateMode"
    using assms by (auto simp: defs Let_def isEnabled_def)
  ultimately show ?thesis
    unfolding sync_inv_def by fastforce
qed

text \<open>A report that is not an attempt, and not a late success, keeps the relation.\<close>

lemma report_inv:
  assumes "sync_inv inc c log" and "ev = DeliveryFailure \<or> ev = DeliverySuccess \<and> timely c log"
  shows "sync_inv inc (invoke k ev c) log"
proof -
  obtain m v w where inv: "policy_entries inc (orderedBundleCollection c) v w" "hybridManager c = Some m"
    and rest: "callbacksSet c \<longrightarrow> 0 < sentDeltaCountSwitchFactor m" "grounded [] log" "activeSyncMode m = DeltaStateMode \<longrightarrow>
        callbacksSet c \<and> 0 \<le> sentDeltaCount m \<and> sentDeltaCount m < sentDeltaCountSwitchFactor m \<and> complete_sent log w"
    using assms(1) unfolding sync_inv_def by auto
  have sent: "activeSyncMode m = CompleteStateMode \<Longrightarrow> ev \<noteq> DeliveryFailure \<Longrightarrow> complete_sent log v"
    using assms(2) inv(2) policy_entries_complete [OF inv(1)] by (auto simp: timely_def)
  obtain w' m' where new: "policy_entries inc (orderedBundleCollection (invoke k ev c)) v w'" "hybridManager (invoke k ev c) = Some m'"
    "callbacksSet (invoke k ev c) = callbacksSet c" "sentDeltaCountSwitchFactor m' = sentDeltaCountSwitchFactor m"
    "activeSyncMode m' = DeltaStateMode \<Longrightarrow> w' = w \<and> activeSyncMode m = DeltaStateMode \<and> (sentDeltaCount m' = sentDeltaCount m
        \<or> sentDeltaCount m' = sentDeltaCount m + 1 \<and> sentDeltaCount m' \<noteq> sentDeltaCountSwitchFactor m)
      \<or> w' = v \<and> activeSyncMode m = CompleteStateMode \<and> ev \<noteq> DeliveryFailure \<and> callbacksSet c \<and> sentDeltaCount m' = 0"
    using invoke_inv [OF inv] by blast
  have "activeSyncMode m' = DeltaStateMode \<longrightarrow>
      callbacksSet c \<and> 0 \<le> sentDeltaCount m' \<and> sentDeltaCount m' < sentDeltaCountSwitchFactor m' \<and> complete_sent log w'"
    using new(5) rest sent new(4) by auto
  with new rest show ?thesis unfolding sync_inv_def by auto
qed

lemma agent_step_inv:
  assumes "agent_step False s s'" and "sync_inv inc (fst s) (snd s)"
  shows "sync_inv inc (fst s') (snd s')"
  using assms(1)
proof (cases rule: agent_step.cases)
  case (reconciled ord client_Update got c err es log)
  then show ?thesis
    using assms(2) Reconcile_entries [of inc "orderedBundleCollection c" _ _ ord client_Update got] unfolding sync_inv_def by fastforce
next
  case (synced cfg outcome c c' sent log)
  then show ?thesis
    using assms(2) syncBundles_inv [of inc c log cfg outcome c' sent] by auto
next
  case (failed c log messageID)
  then show ?thesis using assms(2) report_inv by auto
next
  case (succeeded c log messageID)
  then show ?thesis using assms(2) report_inv by auto
qed

lemma agent_reachable_inv:
  assumes "agent_reachable False leafHubName inc factor supportsDeltaBundles s"
  shows "sync_inv inc (fst s) (snd s)"
proof -
  obtain c0 where c0: "policies_createBundleCollection leafHubName inc factor supportsDeltaBundles = Some c0"
    and steps: "(agent_step False)\<^sup>*\<^sup>* (c0, []) s"
    using assms(1) unfolding agent_reachable_def by blast
  show ?thesis
    using steps by (induction rule: rtranclp_induct) (use sync_inv_create [OF c0] agent_step_inv in auto)
qed

text \<open>C31. Along every run of the policies controller, whatever objects are reconciled and whatever deliveries are attempted,
  succeed or fail, every delta bundle that is sent names as its base a complete bundle that was sent before it, unless
  the report of a success is late: it arrives in complete mode, when what the complete bundle holds has not been sent.
  Reports of success in delta mode, which follow every complete bundle that is delivered, are among the runs.\<close>

theorem deltas_grounded:
  assumes "agent_reachable False leafHubName inc factor supportsDeltaBundles (c, log)"
  shows "grounded [] log"
  using agent_reachable_inv [OF assms] by (simp add: sync_inv_def)

text \<open>Concrete runs: a policy on one cluster is updated, the bundles are synchronised, reports arrive.\<close>

datatype agent_event = Reconciled string | Synced EventType | Reported string EventType

fun do_agent :: "agent_event \<Rightarrow> statusController \<times> agentMessage list \<Rightarrow> statusController \<times> agentMessage list" where
  "do_agent (Reconciled state) (c, log) =
     (c\<lparr>orderedBundleCollection := snd (Reconcile (\<lambda>xs. xs) Inr (Found (sample_policy ''p1'' [(''c1'', state)])) (orderedBundleCollection c))\<rparr>, log)"
| "do_agent (Synced ev) (c, log) = (case syncBundles [(''aggregationLevel'', ''full'')] (\<lambda>_. Some ev) c of (c', sent) \<Rightarrow> (c', log @ sent))"
| "do_agent (Reported messageID ev) (c, log) = (if ev = DeliveryAttempt then (c, log) else (invoke messageID ev c, log))"

fun in_time :: "agent_event list \<Rightarrow> statusController \<times> agentMessage list \<Rightarrow> bool" where
  "in_time [] s \<longleftrightarrow> True"
| "in_time (ev # evs) s \<longleftrightarrow> (case ev of Reported _ DeliverySuccess \<Rightarrow> timely (fst s) (snd s) | _ \<Rightarrow> True) \<and> in_time evs (do_agent ev s)"

definition agent_run :: "int \<Rightarrow> agent_event list \<Rightarrow> statusController \<times> agentMessage list" where
  "agent_run factor evs = fold do_agent evs (the (policies_createBundleCollection ''hub1'' 1 factor True), [])"

definition run_in_time :: "int \<Rightarrow> agent_event list \<Rightarrow> bool" where
  "run_in_time factor evs = in_time evs (the (policies_createBundleCollection ''hub1'' 1 factor True), [])"

lemma do_agent_step:
  assumes "late \<or> in_time [ev] s"
  shows "(agent_step late)\<^sup>*\<^sup>* s (do_agent ev s)"
proof (cases s)
  case (Pair c log)
  show ?thesis
  proof (cases ev)
    case (Reconciled state)
    then show ?thesis
      unfolding Pair by (auto intro!: r_into_rtranclp agent_step.reconciled [OF surjective_pairing])
  next
    case (Synced k)
    obtain c' sent where "syncBundles [(''aggregationLevel'', ''full'')] (\<lambda>_. Some k) c = (c', sent)" by fastforce
    then show ?thesis
      using agent_step.synced [of _ "\<lambda>_. Some k" c c' sent late log] Synced unfolding Pair by auto
  next
    case (Reported messageID k)
    then show ?thesis
      using assms unfolding Pair by (cases k) (auto intro: agent_step.failed agent_step.succeeded)
  qed
qed

lemma agent_run_reachable:
  assumes "late \<or> run_in_time factor evs"
  shows "agent_reachable late ''hub1'' 1 factor True (agent_run factor evs)"
proof -
  have "(agent_step late)\<^sup>*\<^sup>* s (fold do_agent evs s)" if "late \<or> in_time evs s" for s
    using that
  proof (induction evs arbitrary: s)
    case (Cons ev evs)
    then show ?case
      using rtranclp_trans [OF do_agent_step [of late ev s] Cons.IH [of "do_agent ev s"]] by auto
  qed simp
  moreover have "policies_createBundleCollection ''hub1'' 1 factor True \<noteq> None"
    by (simp add: policies_createBundleCollection_def getHybridComplianceBundleCollectionEntries_def NewHybridSyncManager_def Let_def
      NewBundleCollectionEntry_def)
  ultimately show ?thesis
    using assms unfolding agent_reachable_def agent_run_def run_in_time_def by fastforce
qed

definition delta_events :: "agent_event list" where
  "delta_events = [Reconciled ''NonCompliant'', Synced DeliveryAttempt, Reconciled ''Compliant'', Synced DeliveryAttempt]"

definition delta_bases :: "agentMessage list \<Rightarrow> BundleVersion list" where
  "delta_bases log = concat (map (\<lambda>msg. case am_Payload msg of DeltaB idf b \<Rightarrow> [dcs_BaseBundleVersion (db_base b)] | _ \<Rightarrow> []) log)"

text \<open>The success of the complete bundle is reported in time, before the next change.\<close>

definition success_events :: "agent_event list" where
  "success_events = [Reconciled ''NonCompliant'', Synced DeliveryAttempt, Reported ''hub1.PolicyCompleteCompliance'' DeliverySuccess, Reconciled ''Compliant'',
     Reported ''hub1.PolicyCompleteCompliance'' DeliverySuccess, Synced DeliveryAttempt]"

lemma success_run: "run_in_time 2 success_events" "delta_bases (snd (agent_run 2 success_events)) = [BundleVersion 1 1]"
  by code_simp+

theorem deltas_grounded_witness:
  "agent_reachable False ''hub1'' 1 2 True (agent_run 2 success_events)
     \<and> delta_bases (snd (agent_run 2 success_events)) = [BundleVersion 1 1] \<and> grounded [] (snd (agent_run 2 success_events))"
proof -
  have reach: "agent_reachable False ''hub1'' 1 2 True (agent_run 2 success_events)"
    by (rule agent_run_reachable) (simp add: success_run)
  then show ?thesis
    using success_run(2) deltas_grounded [of _ _ _ _ "fst (agent_run 2 success_events)" "snd (agent_run 2 success_events)"] by simp
qed

text \<open>The report of a successful delivery that arrives after the manager went back to complete mode makes it
  switch to delta mode on top of the current complete bundle, which has not been sent: the next delta bundle names as
  its base a version that no complete bundle sent before had.\<close>

theorem late_success_unsent_base:
  "agent_reachable True ''hub1'' 1 1 True
      (agent_run 1 (delta_events @ [Reported ''hub1.PolicyCompleteCompliance'' DeliverySuccess, Reconciled ''NonCompliant'', Synced DeliveryAttempt]))
    \<and> \<not> grounded [] (snd (agent_run 1 (delta_events @ [Reported ''hub1.PolicyCompleteCompliance'' DeliverySuccess, Reconciled ''NonCompliant'', Synced DeliveryAttempt])))"
proof (rule conjI)
  show "agent_reachable True ''hub1'' 1 1 True
      (agent_run 1 (delta_events @ [Reported ''hub1.PolicyCompleteCompliance'' DeliverySuccess, Reconciled ''NonCompliant'', Synced DeliveryAttempt]))"
    by (rule agent_run_reachable) simp
qed code_simp

text \<open>A complete bundle whose delivery fails is not sent again: sending marks it as sent whatever the outcome, so
  as long as no object changes every later synchronisation sends nothing, although nothing of it was delivered.\<close>

theorem failed_complete_not_resent:
  "map am_ID (snd (agent_run 1 [Reconciled ''NonCompliant'', Synced DeliveryFailure])) = [''hub1.ClustersPerPolicy'', ''hub1.PolicyCompleteCompliance'']
   \<and> snd (agent_run 1 ([Reconciled ''NonCompliant'', Synced DeliveryFailure] @ replicate n (Synced DeliveryAttempt)))
     = snd (agent_run 1 [Reconciled ''NonCompliant'', Synced DeliveryFailure])"
proof -
  define s where "s = agent_run 1 [Reconciled ''NonCompliant'', Synced DeliveryFailure]"
  have ids: "map am_ID (snd s) = [''hub1.ClustersPerPolicy'', ''hub1.PolicyCompleteCompliance'']"
    unfolding s_def by code_simp
  have quiet: "list_all (\<lambda>e. \<not> to_send [(''aggregationLevel'', ''full'')] (fst s) e) (orderedBundleCollection (fst s))"
    unfolding s_def by code_simp
  have "fold (syncEntry [(''aggregationLevel'', ''full'')] outcome) [0..<k] (fst s, []) = (fst s, [])"
    if "k \<le> length (orderedBundleCollection (fst s))" for k outcome
    using that quiet by (induction k) (auto simp: syncEntry_def Let_def list_all_length)
  then have "do_agent (Synced ev) s = s" for ev
    by (cases s) (simp add: syncBundles_def)
  then have "fold do_agent (replicate n (Synced DeliveryAttempt)) s = s"
    by (induction n) simp_all
  then have "agent_run 1 ([Reconciled ''NonCompliant'', Synced DeliveryFailure] @ replicate n (Synced DeliveryAttempt)) = s"
    unfolding agent_run_def s_def fold_append by simp
  then show ?thesis
    using ids unfolding s_def by simp
qed

definition sent_controller :: statusController where
  "sent_controller = (let c = AddPlacementDecisionsController ''hub1'' 1 in
     c\<lparr>orderedBundleCollection := snd (Reconcile (\<lambda>xs. xs) Inr (Found (sample_policy ''p1'' [])) (orderedBundleCollection c))\<rparr>)"

lemma sent_controller_no_manager: "hybridManager sent_controller = None"
  by (simp add: sent_controller_def Let_def AddPlacementDecisionsController_def singleBundleController_def)

lemma sent_controller_message: "map am_ID (snd (syncBundles [] (\<lambda>_. None) sent_controller)) = [''hub1.PlacementDecision'']"
  by code_simp

theorem syncBundles_sends_changed_witness:
  "map am_ID (snd (syncBundles [] (\<lambda>_. None) sent_controller)) = [''hub1.PlacementDecision'']
   \<and> snd (syncBundles [] (\<lambda>_. None) (fst (syncBundles [] (\<lambda>_. None) sent_controller))) = []"
  using syncBundles_sends_changed [OF sent_controller_no_manager] sent_controller_message by blast

end
