(* ===== verification/GH_EndToEnd.thy ===== *)
theory GH_EndToEnd
  imports GH_AgentProps
begin

text \<open>
  The status path of the policies as a whole: what the agent's bundles say after a history of events
  (\<open>GH_AgentProps\<close>), handled by the manager (\<open>GH_PolicySync\<close>), is what the compliance
  table says of the leaf hub.
\<close>

section \<open>What the bundles keep\<close>

lemma cpp_history_hub: "cpp_LeafHubName (cpp_history idf es b) = cpp_LeafHubName b"
proof (induction es arbitrary: b)
  case (Cons e es)
  have "cpp_LeafHubName (cpp_UpdateObject idf obj b) = cpp_LeafHubName b" "cpp_LeafHubName (cpp_DeleteObject idf obj b) = cpp_LeafHubName b" for obj
    by (auto simp: cpp_UpdateObject_def cpp_DeleteObject_def Let_def split: option.split prod.split)
  then show ?case
    using Cons by (simp add: cpp_history_def split: event.split)
qed (simp add: cpp_history_def)

lemma ccs_history_hub: "ccs_LeafHubName (ccs_history idf es b) = ccs_LeafHubName b"
proof (induction es arbitrary: b)
  case (Cons e es)
  have "ccs_LeafHubName (ccs_UpdateObject idf obj b) = ccs_LeafHubName b" "ccs_LeafHubName (ccs_DeleteObject idf obj b) = ccs_LeafHubName b" for obj
    by (auto simp: ccs_UpdateObject_def ccs_DeleteObject_def Let_def split: option.split)
  then show ?case
    using Cons by (simp add: ccs_history_def split: event.split)
qed (simp add: ccs_history_def)

lemma latest_distinct:
  assumes "list_all (\<lambda>e. good_policy (event_object e)) es" and "latest idf es p = Some ss"
  shows "distinct (map ClusterName ss)"
proof -
  have "fold (track idf) es L p = Some ss \<Longrightarrow> (\<And>p ss. L p = Some ss \<Longrightarrow> distinct (map ClusterName ss)) \<Longrightarrow> distinct (map ClusterName ss)" for L
    using assms(1)
  proof (induction es arbitrary: L)
    case (Cons e es)
    have "distinct (map ClusterName ss)" if "track idf e L p = Some ss" for p ss
      using that Cons.prems(2,3)
      by (cases e) (auto simp: policy_of_def good_policy_def split: option.splits if_splits)
    then show ?case
      using Cons by simp
  qed simp
  from this [of Map.empty] show ?thesis
    using assms(2) unfolding latest_def by simp
qed

lemma holds_state_unique:
  assumes "list_all (\<lambda>e. good_policy (event_object e)) es" and "holds_state (latest idf es) p k st" and "holds_state (latest idf es) p k st'"
  shows "st = st'"
proof -
  obtain ss where "latest idf es p = Some ss" "k \<in> set (in_state st ss)" "k \<in> set (in_state st' ss)"
    using assms(2,3) unfolding holds_state_def by auto
  then show ?thesis
    using latest_distinct [OF assms(1)] in_state_unique [of ss k st st'] by blast
qed

lemma complete_history_status:
  assumes good: "list_all (\<lambda>e. good_policy (event_object e)) es"
    and objs: "objs = ccs_Objects (ccs_history idf es (NewCompleteComplianceStatusBundle hub v incarnation))"
  shows "distinct (map cc_PolicyID objs)" and "\<forall>o' \<in> set objs. set (cc_NonCompliantClusters o') \<inter> set (cc_UnknownComplianceClusters o') = {}"
    and "\<And>p k st. holds_state (latest idf es) p k st \<Longrightarrow> complete_status objs p k = st"
proof -
  have ok: "ccs_ok (NewCompleteComplianceStatusBundle hub v incarnation)"
    by (simp add: ccs_ok_def NewCompleteComplianceStatusBundle_def)
  have lists: "ccs_lists objs st p k \<longleftrightarrow> holds_state (latest idf es) p k st" if "st \<noteq> Compliant" for st p k
    unfolding objs latest_def
    by (rule ccs_history_lists [OF good ok _ that]) (simp add: NewCompleteComplianceStatusBundle_def ccs_lists_def)
  show "distinct (map cc_PolicyID objs)"
    using ccs.run_ok [OF good ok, of idf] unfolding objs histories_run ccs_ok_def by simp
  show "\<forall>o' \<in> set objs. set (cc_NonCompliantClusters o') \<inter> set (cc_UnknownComplianceClusters o') = {}"
  proof (intro ballI equals0I)
    fix o' k
    assume "o' \<in> set objs" and "k \<in> set (cc_NonCompliantClusters o') \<inter> set (cc_UnknownComplianceClusters o')"
    then have "ccs_lists objs NonCompliant (cc_PolicyID o') k" "ccs_lists objs Unknown (cc_PolicyID o') k"
      by (auto simp: ccs_lists_def)
    then show False
      using holds_state_unique [OF good] lists by blast
  qed
  show "complete_status objs p k = st" if "holds_state (latest idf es) p k st" for p k st
    using that holds_state_unique [OF good that] lists [of NonCompliant p k] lists [of Unknown p k]
    by (cases st) (auto simp: complete_status_lists)
qed

section \<open>The compliance table mirrors the policies\<close>

text \<open>The clusters of a policy, whatever their state.\<close>

definition clusters_of :: "(string \<rightharpoonup> CompliancePerClusterStatus list) \<Rightarrow> string \<Rightarrow> string set" where
  "clusters_of L p = (case L p of None \<Rightarrow> {} | Some ss \<Rightarrow> ClusterName ` set ss)"

lemma clusters_of_holds: "k \<in> clusters_of L p \<longleftrightarrow> (\<exists>st. holds_state L p k st)"
  by (auto simp: clusters_of_def holds_state_def in_state_def image_iff split: option.split)

lemma agent_table_mirrored:
  assumes conn: "conn_ok c" "rows_delivered c = None" "\<not> scan_fails c" "range_order ord"
    and tab: "compliance_table d schema rows"
    and good: "list_all (\<lambda>e. good_policy (event_object e)) (es @ es')"
    and same: "\<forall>p. clusters_of (latest idf (es @ es')) p = clusters_of (latest idf es) p"
    and first: "handleClustersPerPolicyBundle ord c schema ComplianceTableName
        (ClustersPerPolicyBundle (cpp_history idf es (NewClustersPerPolicyBundle hub incarnation))) d = Some (None, d1)"
    and second: "handleCompleteComplianceBundle ord c schema ComplianceTableName
        (CompleteComplianceStatusBundle ((ccs_history idf (es @ es') (NewCompleteComplianceStatusBundle hub v incarnation))\<lparr>ccs_BaseBundleVersion := v'\<rparr>)) d1 = Some (None, d2)"
  shows "\<exists>rows'. d2 = d((schema, ComplianceTableName) := map to_row rows') \<and> compliance_table d2 schema rows'
    \<and> (\<forall>p k s. (\<exists>e. (p, k, hub, e, s) \<in> set rows') \<longleftrightarrow> (\<exists>st. s = status_text st \<and> holds_state (latest idf (es @ es')) p k st))
    \<and> filter (\<lambda>r. row_hub r \<noteq> hub) rows' = filter (\<lambda>r. row_hub r \<noteq> hub) rows"
proof -
  let ?B1 = "cpp_history idf es (NewClustersPerPolicyBundle hub incarnation)"
  let ?B2 = "ccs_history idf (es @ es') (NewCompleteComplianceStatusBundle hub v incarnation)"
  let ?new = "restate hub (\<lambda>p k s. status_text (complete_status (ccs_Objects ?B2) p k))"
  have good1: "list_all (\<lambda>e. good_policy (event_object e)) es"
    using good by simp
  have cpp: "cpp_ok (NewClustersPerPolicyBundle hub incarnation)"
    by (simp add: cpp_ok_def NewClustersPerPolicyBundle_def)
  then have ok: "distinct (map PolicyID (cpp_Objects ?B1))" "\<forall>o' \<in> set (cpp_Objects ?B1). listed_once o'"
    using cpp.run_ok [OF good1 cpp, of idf] unfolding histories_run cpp_ok_def list_all_iff by simp_all
  have reported: "reports (cpp_Objects ?B1) p k st \<longleftrightarrow> holds_state (latest idf es) p k st" for p k st
    unfolding latest_def by (rule cpp_history_reports [OF good1 cpp]) (simp add: NewClustersPerPolicyBundle_def reports_def)
  have "GetObjects (ClustersPerPolicyBundle ?B1) = map GenericComplianceObject (cpp_Objects ?B1)" "GetLeafHubName (ClustersPerPolicyBundle ?B1) = hub"
    by (simp_all add: cpp_history_hub NewClustersPerPolicyBundle_def)
  with handleClusters_outcome [OF conn tab, of "ClustersPerPolicyBundle ?B1", OF _ ok] first obtain rows1
    where d1: "d1 = d((schema, ComplianceTableName) := map to_row rows1)" and tab1: "compliance_table d1 schema rows1"
      and rows1: "\<And>p k s. (\<exists>e. (p, k, hub, e, s) \<in> set rows1) \<longleftrightarrow> (\<exists>st. s = status_text st \<and> holds_state (latest idf es) p k st)"
      and others: "filter (\<lambda>r. row_hub r \<noteq> hub) rows1 = filter (\<lambda>r. row_hub r \<noteq> hub) rows"
    using reported by auto
  note complete = complete_history_status [OF good, where idf = idf and hub = hub and v = v and incarnation = incarnation, OF refl]
  have "d2 = d1((schema, ComplianceTableName) := map to_row (map ?new rows1))"
    using handleComplete_outcome [OF conn tab1, of "CompleteComplianceStatusBundle (?B2\<lparr>ccs_BaseBundleVersion := v'\<rparr>)", OF _ complete(1,2)] second
    by (auto simp: ccs_history_hub NewCompleteComplianceStatusBundle_def)
  then have d2: "d2 = d((schema, ComplianceTableName) := map to_row (map ?new rows1))"
    unfolding d1 by simp
  have state: "(\<exists>e. (p, k, hub, e, s) \<in> set (map ?new rows1)) \<longleftrightarrow> (\<exists>st. s = status_text st \<and> holds_state (latest idf (es @ es')) p k st)" for p k s
  proof -
    have "(\<exists>e. (p, k, hub, e, s) \<in> set (map ?new rows1)) \<longleftrightarrow> (\<exists>e t. (p, k, hub, e, t) \<in> set rows1) \<and> s = status_text (complete_status (ccs_Objects ?B2) p k)"
      by (force simp: image_iff)
    also have "\<dots> \<longleftrightarrow> k \<in> clusters_of (latest idf (es @ es')) p \<and> s = status_text (complete_status (ccs_Objects ?B2) p k)"
      using rows1 unfolding spec [OF same] clusters_of_holds by blast
    also have "\<dots> \<longleftrightarrow> (\<exists>st. s = status_text st \<and> holds_state (latest idf (es @ es')) p k st)"
      unfolding clusters_of_holds using complete(3) by blast
    finally show ?thesis .
  qed
  have rest: "filter (\<lambda>r. row_hub r \<noteq> hub) (map ?new rows1) = filter (\<lambda>r. row_hub r \<noteq> hub) rows1"
    by (induction rows1) (auto split: prod.splits)
  have "compliance_table d2 schema (map ?new rows1)"
    using tab1 unfolding compliance_table_def d2 by (auto simp: comp_def)
  with d2 state rest others show ?thesis
    by (intro exI [of _ "map ?new rows1"] conjI allI) (simp_all only:)
qed

text \<open>C1. The agent sends the clusters-per-policy bundle after a history of events, and the complete bundle after a
  longer one that moved no cluster in or out of a policy; the manager handles the first and then the second, both
  without error. Then the compliance table has, for that leaf hub, exactly one row per policy and cluster, with the
  state last seen, whatever was in the table before; the rows of other leaf hubs are as before.\<close>

theorem agent_status_mirrored:
  assumes conn: "conn_ok c" "rows_delivered c = None" "\<not> scan_fails c" "range_order ord"
    and tab: "compliance_table d schema rows"
    and good: "list_all (\<lambda>e. good_policy (event_object e)) (es @ es')"
    and same: "\<forall>p. clusters_of (latest idf (es @ es')) p = clusters_of (latest idf es) p"
    and first: "handleClustersPerPolicyBundle ord c schema ComplianceTableName
        (ClustersPerPolicyBundle (cpp_history idf es (NewClustersPerPolicyBundle hub incarnation))) d = Some (None, d1)"
    and second: "handleCompleteComplianceBundle ord c schema ComplianceTableName
        (CompleteComplianceStatusBundle ((ccs_history idf (es @ es') (NewCompleteComplianceStatusBundle hub v incarnation))\<lparr>ccs_BaseBundleVersion := v'\<rparr>)) d1 = Some (None, d2)"
  shows "\<exists>rows'. d2 = d((schema, ComplianceTableName) := map to_row rows') \<and> compliance_table d2 schema rows'
    \<and> (\<forall>p k s. (\<exists>e. (p, k, hub, e, s) \<in> set rows') \<longleftrightarrow> (\<exists>st. s = status_text st \<and> holds_state (latest idf (es @ es')) p k st))
    \<and> filter (\<lambda>r. row_hub r \<noteq> hub) rows' = filter (\<lambda>r. row_hub r \<noteq> hub) rows"
  using assms by (rule agent_table_mirrored)

definition mirrored_before :: "event list" where
  "mirrored_before = [Updated (sample_policy ''p1'' [(''c1'', ''Compliant'')])]"

definition mirrored_after :: "event list" where
  "mirrored_after = [Updated (sample_policy ''p1'' [(''c1'', ''NonCompliant'')])]"

definition mirrored_db :: database where
  "mirrored_db = sample_db((StatusSchema, ComplianceTableName) := map to_row
     [(''p1'', ''c1'', ''hub2'', ''none'', ''unknown''), (''p1'', ''c1'', ''hub1'', ''none'', ''compliant'')])"

lemma mirrored_bundles:
  "cpp_history sample_id mirrored_before (NewClustersPerPolicyBundle ''hub1'' 1) =
     \<lparr>cpp_Objects = [\<lparr>PolicyID = ''p1'', CompliantClusters = [''c1''], NonCompliantClusters = [], UnknownComplianceClusters = []\<rparr>],
      cpp_LeafHubName = ''hub1'', cpp_BundleVersion = BundleVersion 1 1\<rparr>"
  "ccs_history sample_id (mirrored_before @ mirrored_after) (NewCompleteComplianceStatusBundle ''hub1'' noBundleVersion 1) =
     \<lparr>ccs_Objects = [\<lparr>cc_PolicyID = ''p1'', cc_NonCompliantClusters = [''c1''], cc_UnknownComplianceClusters = []\<rparr>],
      ccs_LeafHubName = ''hub1'', ccs_BaseBundleVersion = noBundleVersion, ccs_BundleVersion = BundleVersion 1 1\<rparr>"
  by code_simp+

lemma mirrored_latest:
  "latest sample_id mirrored_before = [''p1'' \<mapsto> [\<lparr>ClusterName = ''c1'', ComplianceState = ''Compliant''\<rparr>]]"
  "latest sample_id (mirrored_before @ mirrored_after) = [''p1'' \<mapsto> [\<lparr>ClusterName = ''c1'', ComplianceState = ''NonCompliant''\<rparr>]]"
  by (simp_all add: latest_def mirrored_before_def mirrored_after_def sample_policy_def policy_of_def fun_eq_iff)

lemma mirrored_handled:
  "handleClustersPerPolicyBundle id sample_conn StatusSchema ComplianceTableName
     (ClustersPerPolicyBundle (cpp_history sample_id mirrored_before (NewClustersPerPolicyBundle ''hub1'' 1))) sample_db = Some (None, mirrored_db)"
  "\<exists>d2. handleCompleteComplianceBundle id sample_conn StatusSchema ComplianceTableName
     (CompleteComplianceStatusBundle ((ccs_history sample_id (mirrored_before @ mirrored_after)
        (NewCompleteComplianceStatusBundle ''hub1'' noBundleVersion 1))\<lparr>ccs_BaseBundleVersion := BundleVersion 1 1\<rparr>)) mirrored_db = Some (None, d2)"
  unfolding mirrored_bundles
  by (simp add: handleClustersPerPolicyBundle_def GetComplianceStatusByLeafHub_def sample_db_def sample_rows_def mirrored_db_def
      sample_conn_def handleClusterPerPolicy_def handleClustersPerPolicyWithSpecificCompliance_def builder_defs handler_defs chunk.simps ErrorNone_def)
    (simp add: handleCompleteComplianceBundle_def GetNonCompliantClustersByLeafHub_def sample_db_def sample_rows_def mirrored_db_def
      sample_conn_def handlePolicyCompleteComplianceStatus_def builder_defs handler_defs)

theorem agent_status_mirrored_witness:
  "\<exists>d2 rows'. handleCompleteComplianceBundle id sample_conn StatusSchema ComplianceTableName
       (CompleteComplianceStatusBundle ((ccs_history sample_id (mirrored_before @ mirrored_after)
          (NewCompleteComplianceStatusBundle ''hub1'' noBundleVersion 1))\<lparr>ccs_BaseBundleVersion := BundleVersion 1 1\<rparr>)) mirrored_db = Some (None, d2)
     \<and> compliance_table d2 StatusSchema rows' \<and> (\<exists>e. (''p1'', ''c1'', ''hub1'', e, ''non_compliant'') \<in> set rows')
     \<and> (''p1'', ''c1'', ''hub2'', ''none'', ''unknown'') \<in> set rows'"
proof -
  obtain d2 where second: "handleCompleteComplianceBundle id sample_conn StatusSchema ComplianceTableName
     (CompleteComplianceStatusBundle ((ccs_history sample_id (mirrored_before @ mirrored_after)
        (NewCompleteComplianceStatusBundle ''hub1'' noBundleVersion 1))\<lparr>ccs_BaseBundleVersion := BundleVersion 1 1\<rparr>)) mirrored_db = Some (None, d2)"
    using mirrored_handled(2) by blast
  have good: "list_all (\<lambda>e. good_policy (event_object e)) (mirrored_before @ mirrored_after)"
    by (simp add: mirrored_before_def mirrored_after_def sample_policy_def good_policy_def)
  have same: "\<forall>p. clusters_of (latest sample_id (mirrored_before @ mirrored_after)) p = clusters_of (latest sample_id mirrored_before) p"
    unfolding mirrored_latest by (simp add: clusters_of_def)
  obtain rows' where tab: "compliance_table d2 StatusSchema rows'"
    and state: "\<forall>p k s. (\<exists>e. (p, k, ''hub1'', e, s) \<in> set rows') \<longleftrightarrow> (\<exists>st. s = status_text st \<and> holds_state (latest sample_id (mirrored_before @ mirrored_after)) p k st)"
    and rest: "filter (\<lambda>r. row_hub r \<noteq> ''hub1'') rows' = filter (\<lambda>r. row_hub r \<noteq> ''hub1'') sample_rows"
    using agent_status_mirrored [OF sample_conn_ok sample_conn_reads range_order_id sample_table good same mirrored_handled(1) second] by blast
  have "holds_state (latest sample_id (mirrored_before @ mirrored_after)) ''p1'' ''c1'' NonCompliant"
    unfolding mirrored_latest by (simp add: holds_state_def in_state_mem state_of_def policiesv1_Compliant_def policiesv1_NonCompliant_def)
  then have row: "\<exists>e. (''p1'', ''c1'', ''hub1'', e, ''non_compliant'') \<in> set rows'"
    unfolding spec [OF spec [OF spec [OF state]]] by (intro exI [of _ NonCompliant]) simp
  have "(''p1'', ''c1'', ''hub2'', ''none'', ''unknown'') \<in> set (filter (\<lambda>r. row_hub r \<noteq> ''hub1'') rows')"
    unfolding rest by (simp add: sample_rows_def)
  then show ?thesis
    using second tab row by auto
qed

end
