(* ===== verification/GH_SpecDB.thy ===== *)
theory GH_SpecDB
  imports GH_StatusSync
begin

text \<open>
  The spec database of the manager and the controllers that fill it
  (\<open>manager/pkg/specsyncer/spec2db/controller\<close> and the object tables of
  \<open>manager/pkg/specsyncer/db2transport/db/postgresql\<close>).

  A table of the schema \<open>spec\<close> is a list of rows, with the table of the schema \<open>history\<close> that the
  insert trigger fills. A payload is the object itself: the encoding to \<open>jsonb\<close> and back is pgx's and
  is taken to keep the object; a namespace the object does not have is the empty string here and NULL
  in the database. Time stamps are integers, the zero time of Go is 0.

  What the database and the Kubernetes client answer are arguments. \<open>equality.Semantic.DeepEqual\<close> of
  apimachinery and \<open>common.CompareSpecAndAnnotation\<close> of the policy propagator are parameters.
\<close>

section \<open>Objects\<close>

type_synonym json = string

text \<open>
  The Go types of the objects the controllers watch. A policy keeps its templates apart from the rest
  of its spec, a placement binding has no spec but a reference and subjects, a config map has data
  and no status; the last field of the others is the status.
\<close>

datatype goType = ApplicationT | ChannelT | SubscriptionT | PlacementRuleT | PlacementT | ManagedClusterSetT | ManagedClusterSetBindingT

datatype specBody =
    PolicyB json json json
  | PlacementBindingB json json json
  | ConfigMapB "(string, string) gomap"
  | SpecStatusB goType json json

record specObject =
  so_UID :: string
  so_ResourceVersion :: string
  so_Name :: string
  so_Namespace :: string
  so_Labels :: "(string, string) gomap"
  so_Annotations :: "(string, string) gomap"
  so_Finalizers :: "string list"
  so_Generation :: int
  so_OwnerReferences :: "json list"
  so_ManagedFields :: "json list"
  so_DeletionTimestamp :: "int option"
  so_body :: specBody

definition GlobalHubLocalResource :: string where
  "GlobalHubLocalResource = ''global-hub.open-cluster-management.io/local-resource''"

definition emptyStatus :: json where
  "emptyStatus = ''{}''"

section \<open>The object tables\<close>

record specRow =
  row_id :: string
  row_payload :: specObject
  row_updated_at :: int
  row_deleted :: bool

record specTable =
  spec_rows :: "specRow list"
  history_rows :: "specRow list"

datatype dbError = ErrNoRows | UniqueViolation | DBFailure string

definition zeroTime :: int where
  "zeroTime = 0"

definition same_key :: "specObject \<Rightarrow> specRow \<Rightarrow> bool" where
  "same_key object r \<longleftrightarrow> so_Name (row_payload r) = so_Name object \<and> so_Namespace (row_payload r) = so_Namespace object"

definition localResource :: "specRow \<Rightarrow> bool" where
  "localResource r \<longleftrightarrow> GlobalHubLocalResource \<in> fst ` set (so_Labels (row_payload r))"

text \<open>
  A statement fails (\<open>Some err\<close>, nothing changed) or runs at the time \<open>now\<close>. Inserting runs the
  trigger \<open>move_to_history\<close> first: the rows of the same name and namespace move to the history table;
  both tables have the primary key \<open>id\<close>, and a violation undoes the statement.
\<close>

definition InsertSpecObject :: "string option \<Rightarrow> int \<Rightarrow> string \<Rightarrow> specObject \<Rightarrow> specTable \<Rightarrow> dbError option \<times> specTable" where
  "InsertSpecObject failure now objUID object t =
     (case failure of
        Some err \<Rightarrow> (Some (DBFailure err), t)
      | None \<Rightarrow>
          let moved = filter (same_key object) (spec_rows t);
              rest = filter (\<lambda>r. \<not> same_key object r) (spec_rows t) in
          if list_ex (\<lambda>r. row_id r \<in> row_id ` set (history_rows t)) moved \<or> objUID \<in> row_id ` set rest
          then (Some UniqueViolation, t)
          else (None, \<lparr>spec_rows = rest @ [\<lparr>row_id = objUID, row_payload = object, row_updated_at = now, row_deleted = False\<rparr>],
                       history_rows = history_rows t @ moved\<rparr>))"

text \<open>Updating runs the trigger \<open>set_timestamp\<close> on every row it changes.\<close>

definition UpdateSpecObject :: "string option \<Rightarrow> int \<Rightarrow> string \<Rightarrow> specObject \<Rightarrow> specTable \<Rightarrow> dbError option \<times> specTable" where
  "UpdateSpecObject failure now objUID object t =
     (case failure of
        Some err \<Rightarrow> (Some (DBFailure err), t)
      | None \<Rightarrow> (None, t\<lparr>spec_rows := map (\<lambda>r. if row_id r = objUID then r\<lparr>row_payload := object, row_updated_at := now\<rparr> else r) (spec_rows t)\<rparr>))"

definition DeleteSpecObject :: "string option \<Rightarrow> int \<Rightarrow> string \<Rightarrow> string \<Rightarrow> specTable \<Rightarrow> dbError option \<times> specTable" where
  "DeleteSpecObject failure now name namespace t =
     (case failure of
        Some err \<Rightarrow> (Some (DBFailure err), t)
      | None \<Rightarrow> (None, t\<lparr>spec_rows := map (\<lambda>r.
            if so_Name (row_payload r) = name \<and> so_Namespace (row_payload r) = namespace \<and> \<not> row_deleted r
            then r\<lparr>row_deleted := True, row_updated_at := now\<rparr> else r) (spec_rows t)\<rparr>))"

definition QuerySpecObject :: "string option \<Rightarrow> string \<Rightarrow> specTable \<Rightarrow> dbError + specObject" where
  "QuerySpecObject failure objUID t =
     (case failure of
        Some err \<Rightarrow> Inl (DBFailure err)
      | None \<Rightarrow> (case filter (\<lambda>r. row_id r = objUID) (spec_rows t) of
                  [] \<Rightarrow> Inl ErrNoRows
                | r # _ \<Rightarrow> Inr (row_payload r)))"

section \<open>Cleaning and comparing the objects\<close>

text \<open>A wrong type panics, which is None.\<close>

definition cleanPolicyStatus :: "specObject \<Rightarrow> specObject option" where
  "cleanPolicyStatus instance1 =
     (case so_body instance1 of PolicyB spec templates status \<Rightarrow> Some (instance1\<lparr>so_body := PolicyB spec templates emptyStatus\<rparr>) | _ \<Rightarrow> None)"

definition cleanPlacementBindingStatus :: "specObject \<Rightarrow> specObject option" where
  "cleanPlacementBindingStatus instance1 =
     (case so_body instance1 of PlacementBindingB ref subjects status \<Rightarrow> Some (instance1\<lparr>so_body := PlacementBindingB ref subjects emptyStatus\<rparr>) | _ \<Rightarrow> None)"

definition cleanConfigStatus :: "specObject \<Rightarrow> specObject option" where
  "cleanConfigStatus instance1 = (case so_body instance1 of ConfigMapB data \<Rightarrow> Some instance1 | _ \<Rightarrow> None)"

definition cleanTypedStatus :: "goType \<Rightarrow> specObject \<Rightarrow> specObject option" where
  "cleanTypedStatus ty instance1 =
     (case so_body instance1 of
        SpecStatusB ty' spec status \<Rightarrow> if ty' = ty then Some (instance1\<lparr>so_body := SpecStatusB ty spec emptyStatus\<rparr>) else None
      | _ \<Rightarrow> None)"

definition cleanApplicationStatus :: "specObject \<Rightarrow> specObject option" where
  "cleanApplicationStatus = cleanTypedStatus ApplicationT"

definition cleanChannelStatus :: "specObject \<Rightarrow> specObject option" where
  "cleanChannelStatus = cleanTypedStatus ChannelT"

definition cleanSubscriptionStatus :: "specObject \<Rightarrow> specObject option" where
  "cleanSubscriptionStatus = cleanTypedStatus SubscriptionT"

definition cleanPlacementRuleStatus :: "specObject \<Rightarrow> specObject option" where
  "cleanPlacementRuleStatus = cleanTypedStatus PlacementRuleT"

definition cleanPlacementStatus :: "specObject \<Rightarrow> specObject option" where
  "cleanPlacementStatus = cleanTypedStatus PlacementT"

definition cleanManagedClusterSetStatus :: "specObject \<Rightarrow> specObject option" where
  "cleanManagedClusterSetStatus = cleanTypedStatus ManagedClusterSetT"

text \<open>A binding of a cluster set has no status.\<close>

definition cleanManagedClusterSetBindingsStatus :: "specObject \<Rightarrow> specObject option" where
  "cleanManagedClusterSetBindingsStatus instance1 =
     (case so_body instance1 of SpecStatusB ty spec status \<Rightarrow> if ty = ManagedClusterSetBindingT then Some instance1 else None | _ \<Rightarrow> None)"

text \<open>What the third-party comparisons answer.\<close>

record comparisons =
  deepEqual_json :: "json \<Rightarrow> json \<Rightarrow> bool"
  deepEqual_map :: "(string, string) gomap \<Rightarrow> (string, string) gomap \<Rightarrow> bool"
  CompareSpecAndAnnotation :: "specObject \<Rightarrow> specObject \<Rightarrow> bool"

definition metadataMatch :: "comparisons \<Rightarrow> specObject \<Rightarrow> specObject \<Rightarrow> bool" where
  "metadataMatch cs instance1 instance2 \<longleftrightarrow>
     deepEqual_map cs (so_Annotations instance1) (so_Annotations instance2) \<and> deepEqual_map cs (so_Labels instance1) (so_Labels instance2)"

fun withoutTemplates :: "specBody \<Rightarrow> specBody" where
  "withoutTemplates (PolicyB spec templates status) = PolicyB spec '''' status"
| "withoutTemplates b = b"

definition arePoliciesEqual :: "comparisons \<Rightarrow> specObject \<Rightarrow> specObject \<Rightarrow> bool" where
  "arePoliciesEqual cs instance1 instance2 =
     (case (so_body instance1, so_body instance2) of
        (PolicyB _ _ _, PolicyB _ _ _) \<Rightarrow>
          CompareSpecAndAnnotation cs (instance1\<lparr>so_body := withoutTemplates (so_body instance1)\<rparr>)
            (instance2\<lparr>so_body := withoutTemplates (so_body instance2)\<rparr>)
          \<and> deepEqual_map cs (so_Labels instance1) (so_Labels instance2)
      | _ \<Rightarrow> False)"

definition arePlacementBindingsEqual :: "comparisons \<Rightarrow> specObject \<Rightarrow> specObject \<Rightarrow> bool" where
  "arePlacementBindingsEqual cs instance1 instance2 =
     (case (so_body instance1, so_body instance2) of
        (PlacementBindingB ref1 subjects1 _, PlacementBindingB ref2 subjects2 _) \<Rightarrow>
          deepEqual_json cs ref1 ref2 \<and> deepEqual_json cs subjects1 subjects2 \<and> metadataMatch cs instance1 instance2
      | _ \<Rightarrow> False)"

definition areConfigsEqual :: "comparisons \<Rightarrow> specObject \<Rightarrow> specObject \<Rightarrow> bool" where
  "areConfigsEqual cs instance1 instance2 =
     (case (so_body instance1, so_body instance2) of
        (ConfigMapB data1, ConfigMapB data2) \<Rightarrow> deepEqual_map cs data1 data2 \<and> metadataMatch cs instance1 instance2
      | _ \<Rightarrow> False)"

definition areTypedEqual :: "goType \<Rightarrow> comparisons \<Rightarrow> specObject \<Rightarrow> specObject \<Rightarrow> bool" where
  "areTypedEqual ty cs instance1 instance2 =
     (case (so_body instance1, so_body instance2) of
        (SpecStatusB ty1 spec1 _, SpecStatusB ty2 spec2 _) \<Rightarrow>
          ty1 = ty \<and> ty2 = ty \<and> deepEqual_json cs spec1 spec2 \<and> metadataMatch cs instance1 instance2
      | _ \<Rightarrow> False)"

definition areApplicationsEqual :: "comparisons \<Rightarrow> specObject \<Rightarrow> specObject \<Rightarrow> bool" where
  "areApplicationsEqual = areTypedEqual ApplicationT"

definition areChannelsEqual :: "comparisons \<Rightarrow> specObject \<Rightarrow> specObject \<Rightarrow> bool" where
  "areChannelsEqual = areTypedEqual ChannelT"

definition areSubscriptionsEqual :: "comparisons \<Rightarrow> specObject \<Rightarrow> specObject \<Rightarrow> bool" where
  "areSubscriptionsEqual = areTypedEqual SubscriptionT"

definition arePlacementRulesEqual :: "comparisons \<Rightarrow> specObject \<Rightarrow> specObject \<Rightarrow> bool" where
  "arePlacementRulesEqual = areTypedEqual PlacementRuleT"

definition arePlacementsEqual :: "comparisons \<Rightarrow> specObject \<Rightarrow> specObject \<Rightarrow> bool" where
  "arePlacementsEqual = areTypedEqual PlacementT"

definition areManagedClusterSetsEqual :: "comparisons \<Rightarrow> specObject \<Rightarrow> specObject \<Rightarrow> bool" where
  "areManagedClusterSetsEqual = areTypedEqual ManagedClusterSetT"

definition areManagedClusterSetBindingsEqual :: "comparisons \<Rightarrow> specObject \<Rightarrow> specObject \<Rightarrow> bool" where
  "areManagedClusterSetBindingsEqual = areTypedEqual ManagedClusterSetBindingT"

section \<open>The reconciler\<close>

record genericSpecToDBReconciler =
  rec_tableName :: string
  finalizerName :: string
  cleanStatus :: "specObject \<Rightarrow> specObject option"
  areEqual :: "specObject \<Rightarrow> specObject \<Rightarrow> bool"

text \<open>What the outside answers in one reconciliation: the client and each statement.\<close>

datatype specGet = SpecNotFound | SpecGetError string | SpecFound specObject

datatype specStmt = QueryStmt | InsertStmt | UpdateStmt | DeleteStmt

record specWorld =
  w_Update :: "specObject \<Rightarrow> string + specObject"
  w_failure :: "specStmt \<Rightarrow> string option"
  w_now :: int

text \<open>
  The state a reconciliation changes: the table, and the objects it asked the API server to store, in
  order. \<open>RequeueAfter\<close> carries the error the controller logs and returns with the requeue.
\<close>

type_synonym specState = "specTable \<times> specObject list"

datatype specError = K8sError string | DBError dbError

datatype specResult = ReconcileDone | RequeueAfter specError | ReconcileFailed specError | ReconcilePanic

definition isInstanceBeingDeleted :: "specObject \<Rightarrow> bool" where
  "isInstanceBeingDeleted object \<longleftrightarrow> so_DeletionTimestamp object \<noteq> None"

definition deleteFromTheDatabase :: "specWorld \<Rightarrow> string \<Rightarrow> string \<Rightarrow> specState \<Rightarrow> specError option \<times> specState" where
  "deleteFromTheDatabase w name namespace st =
     (case DeleteSpecObject (w_failure w DeleteStmt) (w_now w) name namespace (fst st) of
        (Some err, t) \<Rightarrow> (Some (DBError err), t, snd st)
      | (None, t) \<Rightarrow> (None, t, snd st))"

definition removeFinalizerAndDelete :: "genericSpecToDBReconciler \<Rightarrow> specWorld \<Rightarrow> specObject \<Rightarrow> specState \<Rightarrow> specError option \<times> specState" where
  "removeFinalizerAndDelete r w object st =
     (if finalizerName r \<notin> set (so_Finalizers object) then (None, st)
      else (case deleteFromTheDatabase w (so_Name object) (so_Namespace object) st of
              (Some err, st') \<Rightarrow> (Some err, st')
            | (None, t, calls) \<Rightarrow>
                let object' = object\<lparr>so_Finalizers := filter (\<lambda>f. f \<noteq> finalizerName r) (so_Finalizers object)\<rparr> in
                (case w_Update w object' of
                   Inl err \<Rightarrow> (Some (K8sError err), t, calls @ [object'])
                 | Inr _ \<Rightarrow> (None, t, calls @ [object']))))"

text \<open>Adding yields the object as the client left it: what the server stored, or on an error the object sent.\<close>

definition spec_addFinalizer :: "genericSpecToDBReconciler \<Rightarrow> specWorld \<Rightarrow> specObject \<Rightarrow> specState \<Rightarrow> specError option \<times> specObject \<times> specState" where
  "spec_addFinalizer r w object st =
     (if finalizerName r \<in> set (so_Finalizers object) then (None, object, st)
      else (let object' = object\<lparr>so_Finalizers := so_Finalizers object @ [finalizerName r]\<rparr>;
                st' = (fst st, snd st @ [object']) in
            case w_Update w object' of
              Inl err \<Rightarrow> (Some (K8sError err), object', st')
            | Inr stored \<Rightarrow> (None, stored, st')))"

definition lastApplied :: string where
  "lastApplied = ''kubectl.kubernetes.io/last-applied-configuration''"

definition cleanInstance :: "genericSpecToDBReconciler \<Rightarrow> specObject \<Rightarrow> specObject option" where
  "cleanInstance r object = cleanStatus r
     (object\<lparr>so_UID := '''', so_ResourceVersion := '''', so_ManagedFields := [], so_Finalizers := [], so_Generation := 0,
             so_OwnerReferences := [], so_Annotations := AList.delete lastApplied (so_Annotations object)\<rparr>)"

text \<open>The outcome of \<open>processCR\<close>: an error, no instance, or the UID with the cleaned instance; None panics.\<close>

definition processCR :: "genericSpecToDBReconciler \<Rightarrow> specWorld \<Rightarrow> string \<Rightarrow> string \<Rightarrow> specGet \<Rightarrow> specState
    \<Rightarrow> (specError + (string \<times> specObject) option) option \<times> specState" where
  "processCR r w name namespace got st =
     (case got of
        SpecNotFound \<Rightarrow>
          (case deleteFromTheDatabase w name namespace st of
             (Some err, st') \<Rightarrow> (Some (Inl err), st') | (None, st') \<Rightarrow> (Some (Inr None), st'))
      | SpecGetError err \<Rightarrow> (Some (Inl (K8sError err)), st)
      | SpecFound object \<Rightarrow>
          if isInstanceBeingDeleted object
          then (case removeFinalizerAndDelete r w object st of
                  (Some err, st') \<Rightarrow> (Some (Inl err), st') | (None, st') \<Rightarrow> (Some (Inr None), st'))
          else (case spec_addFinalizer r w object st of
                  (err, object', st') \<Rightarrow>
                    (case cleanInstance r object' of
                       None \<Rightarrow> (None, st')
                     | Some cleaned \<Rightarrow>
                         (case err of
                            Some e \<Rightarrow> (Some (Inl e), st')
                          | None \<Rightarrow> (Some (Inr (Some (so_UID object', cleaned))), st')))))"

definition processInstanceInTheDatabase :: "specWorld \<Rightarrow> specObject \<Rightarrow> string \<Rightarrow> specTable \<Rightarrow> (dbError + specObject) \<times> specTable" where
  "processInstanceInTheDatabase w object uid t =
     (case QuerySpecObject (w_failure w QueryStmt) uid t of
        Inl ErrNoRows \<Rightarrow>
          (case InsertSpecObject (w_failure w InsertStmt) (w_now w) uid object t of
             (Some err, t') \<Rightarrow> (Inl err, t') | (None, t') \<Rightarrow> (Inr object, t'))
      | Inl err \<Rightarrow> (Inl err, t)
      | Inr stored \<Rightarrow> (Inr stored, t))"

definition spec_Reconcile :: "genericSpecToDBReconciler \<Rightarrow> specWorld \<Rightarrow> string \<Rightarrow> string \<Rightarrow> specGet \<Rightarrow> specState \<Rightarrow> specResult \<times> specState" where
  "spec_Reconcile r w name namespace got st =
     (case processCR r w name namespace got st of
        (None, st') \<Rightarrow> (ReconcilePanic, st')
      | (Some (Inl err), st') \<Rightarrow> (RequeueAfter err, st')
      | (Some (Inr None), st') \<Rightarrow> (ReconcileDone, st')
      | (Some (Inr (Some (uid, object))), t, calls) \<Rightarrow>
          (case processInstanceInTheDatabase w object uid t of
             (Inl err, t') \<Rightarrow> (RequeueAfter (DBError err), t', calls)
           | (Inr stored, t') \<Rightarrow>
               if areEqual r object stored then (ReconcileDone, t', calls)
               else (case UpdateSpecObject (w_failure w UpdateStmt) (w_now w) uid object t' of
                       (Some err, t'') \<Rightarrow> (ReconcileFailed (DBError err), t'', calls)
                     | (None, t'') \<Rightarrow> (ReconcileDone, t'', calls))))"

section \<open>The controllers\<close>

text \<open>
  A controller is its event filter with its reconciler. The label selector of three of them admits
  the objects that do not have the label of a local resource.
\<close>

type_synonym specController = "(specObject \<Rightarrow> bool) \<times> genericSpecToDBReconciler"

definition newReconciler :: "string \<Rightarrow> (specObject \<Rightarrow> specObject option) \<Rightarrow> (specObject \<Rightarrow> specObject \<Rightarrow> bool) \<Rightarrow> genericSpecToDBReconciler" where
  "newReconciler tableName clean eq =
     \<lparr>rec_tableName = tableName, finalizerName = GlobalHubCleanupFinalizer, cleanStatus = clean, areEqual = eq\<rparr>"

definition notLocalResource :: "specObject \<Rightarrow> bool" where
  "notLocalResource object \<longleftrightarrow> GlobalHubLocalResource \<notin> fst ` set (so_Labels object)"

definition AddPolicyController :: "comparisons \<Rightarrow> specController" where
  "AddPolicyController cs = (notLocalResource, newReconciler ''policies'' cleanPolicyStatus (arePoliciesEqual cs))"

definition AddPlacementRuleController :: "comparisons \<Rightarrow> specController" where
  "AddPlacementRuleController cs = (notLocalResource, newReconciler ''placementrules'' cleanPlacementRuleStatus (arePlacementRulesEqual cs))"

definition AddPlacementBindingController :: "comparisons \<Rightarrow> specController" where
  "AddPlacementBindingController cs =
     (notLocalResource, newReconciler ''placementbindings'' cleanPlacementBindingStatus (arePlacementBindingsEqual cs))"

definition HohSystemNamespace :: string where
  "HohSystemNamespace = ''open-cluster-management-global-hub-system''"

definition HoHConfigName :: string where
  "HoHConfigName = ''multicluster-global-hub-config''"

definition AddHubOfHubsConfigController :: "comparisons \<Rightarrow> specController" where
  "AddHubOfHubsConfigController cs =
     ((\<lambda>object. so_Namespace object = HohSystemNamespace \<and> so_Name object = HoHConfigName),
      newReconciler ''configs'' cleanConfigStatus (areConfigsEqual cs))"

definition AddApplicationController :: "comparisons \<Rightarrow> specController" where
  "AddApplicationController cs = ((\<lambda>_. True), newReconciler ''applications'' cleanApplicationStatus (areApplicationsEqual cs))"

definition AddSubscriptionController :: "comparisons \<Rightarrow> specController" where
  "AddSubscriptionController cs =
     ((\<lambda>object. so_Namespace object \<noteq> ''open-cluster-management''), newReconciler ''subscriptions'' cleanSubscriptionStatus (areSubscriptionsEqual cs))"

definition AddChannelController :: "comparisons \<Rightarrow> specController" where
  "AddChannelController cs =
     ((\<lambda>object. so_Namespace object \<noteq> ''open-cluster-management''), newReconciler ''channels'' cleanChannelStatus (areChannelsEqual cs))"

definition AddManagedClusterSetController :: "comparisons \<Rightarrow> specController" where
  "AddManagedClusterSetController cs =
     ((\<lambda>_. True), newReconciler ''managedclustersets'' cleanManagedClusterSetStatus (areManagedClusterSetsEqual cs))"

definition AddManagedClusterSetBindingController :: "comparisons \<Rightarrow> specController" where
  "AddManagedClusterSetBindingController cs =
     ((\<lambda>_. True), newReconciler ''managedclustersetbindings'' cleanManagedClusterSetBindingsStatus (areManagedClusterSetBindingsEqual cs))"

definition AddPlacementController :: "comparisons \<Rightarrow> specController" where
  "AddPlacementController cs = ((\<lambda>_. True), newReconciler ''placements'' cleanPlacementStatus (arePlacementsEqual cs))"

definition AddSpec2DBControllers :: "comparisons \<Rightarrow> specController list" where
  "AddSpec2DBControllers cs = map (\<lambda>add. add cs)
     [AddPolicyController, AddPlacementRuleController, AddPlacementBindingController, AddHubOfHubsConfigController,
      AddApplicationController, AddSubscriptionController, AddChannelController, AddManagedClusterSetController,
      AddManagedClusterSetBindingController, AddPlacementController]"

end
