(* ===== verification/GH_SpecDBProps.thy ===== *)
theory GH_SpecDBProps
  imports GH_SpecDB
begin

text \<open>
  What the spec controllers guarantee of the tables. The abstract state of a table is a map from the
  name and namespace of an object to its UID and payload; reconciling an object writes or removes one
  entry of it.
\<close>

section \<open>The abstract table\<close>

definition spec_key :: "specRow \<Rightarrow> string \<times> string" where
  "spec_key r = (so_Name (row_payload r), so_Namespace (row_payload r))"

definition object_key :: "specObject \<Rightarrow> string \<times> string" where
  "object_key object = (so_Name object, so_Namespace object)"

definition live_rows :: "specRow list \<Rightarrow> string \<times> string \<Rightarrow> (string \<times> specObject) option" where
  "live_rows rs = map_of (map (\<lambda>r. (spec_key r, row_id r, row_payload r)) (filter (\<lambda>r. \<not> row_deleted r) rs))"

definition live :: "specTable \<Rightarrow> string \<times> string \<Rightarrow> (string \<times> specObject) option" where
  "live t = live_rows (spec_rows t)"

text \<open>The keys of both tables, and one row for every name and namespace.\<close>

definition wf_spec :: "specTable \<Rightarrow> bool" where
  "wf_spec t \<longleftrightarrow> distinct (map row_id (spec_rows t)) \<and> distinct (map spec_key (spec_rows t)) \<and>
     set (map row_id (spec_rows t)) \<inter> set (map row_id (history_rows t)) = {}"

text \<open>
  A UID belongs to one object for ever: a row with the UID is the row of the object, it has not been
  marked deleted, and it has not been superseded.
\<close>

definition uid_ok :: "string \<Rightarrow> specObject \<Rightarrow> specTable \<Rightarrow> bool" where
  "uid_ok uid object t \<longleftrightarrow> list_all (\<lambda>r. row_id r = uid \<longrightarrow> same_key object r \<and> \<not> row_deleted r) (spec_rows t) \<and>
     uid \<notin> row_id ` set (history_rows t)"

lemma same_key_iff [simp]: "same_key object r \<longleftrightarrow> spec_key r = object_key object"
  by (auto simp: same_key_def spec_key_def object_key_def)

lemma distinct_map_eqD: "distinct (map f xs) \<Longrightarrow> x \<in> set xs \<Longrightarrow> y \<in> set xs \<Longrightarrow> f x = f y \<Longrightarrow> x = y"
  by (auto simp: distinct_map inj_on_def)

lemma live_rows_simps [simp]:
  "live_rows [] = Map.empty"
  "live_rows (r # rs) = (if row_deleted r then live_rows rs else (live_rows rs)(spec_key r \<mapsto> (row_id r, row_payload r)))"
  by (auto simp: live_rows_def)

lemma live_rows_append [simp]: "live_rows (rs @ rs') = live_rows rs' ++ live_rows rs"
  by (simp add: live_rows_def)

lemma live_rows_none: "k \<notin> spec_key ` set rs \<Longrightarrow> live_rows rs k = None"
  by (induction rs) auto

lemma live_rows_filter: "live_rows (filter (\<lambda>r. spec_key r \<noteq> k) rs) = (live_rows rs)(k := None)"
  by (induction rs) (auto simp: fun_upd_def fun_eq_iff)

text \<open>Rows marked deleted by name and namespace, and the row of a UID replaced.\<close>

lemma live_rows_mark:
  "live_rows (map (\<lambda>r. if so_Name (row_payload r) = n \<and> so_Namespace (row_payload r) = ns \<and> \<not> row_deleted r
      then r\<lparr>row_deleted := True, row_updated_at := now\<rparr> else r) rs) = (live_rows rs)((n, ns) := None)"
  by (induction rs) (auto simp: fun_eq_iff spec_key_def)

lemma live_rows_replace:
  assumes "r \<in> set rs" "row_id r = uid" "\<not> row_deleted r" "spec_key r = object_key object"
    and "distinct (map row_id rs)" "distinct (map spec_key rs)"
  shows "live_rows (map (\<lambda>r. if row_id r = uid then r\<lparr>row_payload := object, row_updated_at := now\<rparr> else r) rs)
       = (live_rows rs)(object_key object \<mapsto> (uid, object))"
  using assms
proof (induction rs)
  case (Cons a rs)
  show ?case
  proof (cases "a = r")
    case True
    then have "map (\<lambda>r. if row_id r = uid then r\<lparr>row_payload := object, row_updated_at := now\<rparr> else r) rs = rs"
      using Cons.prems by (intro map_idI) (auto simp: image_iff)
    with True Cons.prems show ?thesis
      by (simp add: spec_key_def object_key_def fun_eq_iff)
  next
    case False
    then have r: "r \<in> set rs" using Cons.prems by simp
    then have "row_id a \<noteq> uid" and key: "spec_key a \<noteq> object_key object"
      using Cons.prems by auto (metis image_eqI)
    moreover have "live_rows (map (\<lambda>r. if row_id r = uid then r\<lparr>row_payload := object, row_updated_at := now\<rparr> else r) rs)
        = (live_rows rs)(object_key object \<mapsto> (uid, object))"
      by (rule Cons.IH [OF r]) (use Cons.prems in simp_all)
    ultimately show ?thesis
      by (simp del: fun_upd_apply) (auto simp: fun_upd_twist)
  qed
qed simp

section \<open>The statements\<close>

lemma DeleteSpecObject_live:
  "DeleteSpecObject None now n ns t = (None, t') \<Longrightarrow> live t' = (live t)((n, ns) := None)"
  by (auto simp: DeleteSpecObject_def live_def live_rows_mark)

lemma wf_spec_cong:
  "map row_id (spec_rows t') = map row_id (spec_rows t) \<Longrightarrow> map spec_key (spec_rows t') = map spec_key (spec_rows t) \<Longrightarrow>
   history_rows t' = history_rows t \<Longrightarrow> wf_spec t' = wf_spec t"
  unfolding wf_spec_def by metis

lemma DeleteSpecObject_wf:
  assumes "DeleteSpecObject f now n ns t = (e, t')"
  shows "wf_spec t' = wf_spec t"
  using assms by (intro wf_spec_cong) (auto simp: DeleteSpecObject_def spec_key_def split: option.splits)

lemma UpdateSpecObject_live:
  assumes "wf_spec t" "uid_ok uid object t" "uid \<in> row_id ` set (spec_rows t)"
  shows "\<exists>t'. UpdateSpecObject None now uid object t = (None, t') \<and> live t' = (live t)(object_key object \<mapsto> (uid, object)) \<and> wf_spec t'"
proof -
  obtain r where r: "r \<in> set (spec_rows t)" "row_id r = uid" using assms(3) by auto
  then have "\<not> row_deleted r" "spec_key r = object_key object"
    using assms(2) by (auto simp: uid_ok_def list_all_iff)
  then have "live_rows (map (\<lambda>r. if row_id r = uid then r\<lparr>row_payload := object, row_updated_at := now\<rparr> else r) (spec_rows t))
      = (live_rows (spec_rows t))(object_key object \<mapsto> (uid, object))"
    using r assms(1) by (intro live_rows_replace) (simp_all add: wf_spec_def)
  moreover have "wf_spec (t\<lparr>spec_rows := map (\<lambda>r. if row_id r = uid then r\<lparr>row_payload := object, row_updated_at := now\<rparr> else r) (spec_rows t)\<rparr>)
      = wf_spec t"
    using assms(2) by (intro wf_spec_cong) (auto simp: uid_ok_def list_all_iff spec_key_def object_key_def)
  ultimately show ?thesis
    using assms(1) by (simp add: UpdateSpecObject_def live_def)
qed

lemma InsertSpecObject_live:
  assumes "wf_spec t" "uid_ok uid object t" "uid \<notin> row_id ` set (spec_rows t)"
  shows "\<exists>t'. InsertSpecObject None now uid object t = (None, t') \<and> live t' = (live t)(object_key object \<mapsto> (uid, object)) \<and> wf_spec t'"
proof -
  let ?new = "\<lparr>row_id = uid, row_payload = object, row_updated_at = now, row_deleted = False\<rparr>"
  have key: "spec_key ?new = object_key object" by (simp add: spec_key_def object_key_def)
  have ok: "\<not> (list_ex (\<lambda>r. row_id r \<in> row_id ` set (history_rows t)) (filter (same_key object) (spec_rows t)) \<or>
      uid \<in> row_id ` set (filter (\<lambda>r. \<not> same_key object r) (spec_rows t)))"
    using assms(1,3) by (auto simp: wf_spec_def list_ex_iff)
  have wf: "wf_spec \<lparr>spec_rows = filter (\<lambda>r. \<not> same_key object r) (spec_rows t) @ [?new],
      history_rows = history_rows t @ filter (same_key object) (spec_rows t)\<rparr>"
    unfolding wf_spec_def using assms key by (auto simp: wf_spec_def uid_ok_def distinct_map_filter dest: distinct_map_eqD)
  have "live_rows (filter (\<lambda>r. \<not> same_key object r) (spec_rows t) @ [?new]) = (live_rows (spec_rows t))(object_key object \<mapsto> (uid, object))"
    using key by (auto simp: live_rows_filter fun_eq_iff map_add_def split: option.splits)
  with ok wf show ?thesis by (simp add: InsertSpecObject_def live_def Let_def)
qed

section \<open>The kinds of objects\<close>

text \<open>What cleaning the status keeps: the identity of the object and its metadata; cleaning twice is cleaning once.\<close>

locale status_cleaner =
  fixes clean :: "specObject \<Rightarrow> specObject option"
  assumes clean_key: "clean object = Some object' \<Longrightarrow> object_key object' = object_key object"
    and clean_labels: "clean object = Some object' \<Longrightarrow> so_Labels object' = so_Labels object"
    and clean_again: "clean object = Some object' \<Longrightarrow> clean object' = Some object'"
begin

lemma clean_idem: "Option.bind (clean object) clean = clean object"
  by (cases "clean object") (simp_all add: clean_again)

end

lemmas clean_defs = cleanPolicyStatus_def cleanPlacementBindingStatus_def cleanConfigStatus_def cleanTypedStatus_def
  cleanApplicationStatus_def cleanChannelStatus_def cleanSubscriptionStatus_def cleanPlacementRuleStatus_def
  cleanPlacementStatus_def cleanManagedClusterSetStatus_def cleanManagedClusterSetBindingsStatus_def object_key_def

interpretation typed: status_cleaner "cleanTypedStatus ty" for ty
  by unfold_locales (auto simp: clean_defs split: specBody.splits if_splits)

interpretation policy: status_cleaner cleanPolicyStatus
  by unfold_locales (auto simp: clean_defs split: specBody.splits)

interpretation binding: status_cleaner cleanPlacementBindingStatus
  by unfold_locales (auto simp: clean_defs split: specBody.splits)

interpretation configmap: status_cleaner cleanConfigStatus
  by unfold_locales (auto simp: clean_defs split: specBody.splits)

interpretation setbinding: status_cleaner cleanManagedClusterSetBindingsStatus
  by unfold_locales (auto simp: clean_defs split: specBody.splits if_splits)

lemmas controller_defs = AddSpec2DBControllers_def AddPolicyController_def AddPlacementRuleController_def
  AddPlacementBindingController_def AddHubOfHubsConfigController_def AddApplicationController_def
  AddSubscriptionController_def AddChannelController_def AddManagedClusterSetController_def
  AddManagedClusterSetBindingController_def AddPlacementController_def newReconciler_def

lemma controller_cleaner:
  "(f, r) \<in> set (AddSpec2DBControllers cs) \<Longrightarrow> status_cleaner (cleanStatus r)"
  using typed.status_cleaner_axioms policy.status_cleaner_axioms binding.status_cleaner_axioms
    configmap.status_cleaner_axioms setbinding.status_cleaner_axioms
  by (auto simp: controller_defs cleanApplicationStatus_def cleanChannelStatus_def cleanSubscriptionStatus_def
      cleanPlacementRuleStatus_def cleanPlacementStatus_def cleanManagedClusterSetStatus_def)

lemma cleanInstance_key:
  assumes "(f, r) \<in> set (AddSpec2DBControllers cs)" "cleanInstance r object = Some cleaned"
  shows "object_key cleaned = object_key object"
  using status_cleaner.clean_key [OF controller_cleaner [OF assms(1)] assms(2) [unfolded cleanInstance_def]]
  by (simp add: object_key_def)

text \<open>The third-party comparisons accept two equal values.\<close>

definition reflexive_comparisons :: "comparisons \<Rightarrow> bool" where
  "reflexive_comparisons cs \<longleftrightarrow> (\<forall>x. deepEqual_json cs x x) \<and> (\<forall>m. deepEqual_map cs m m) \<and> (\<forall>object. CompareSpecAndAnnotation cs object object)"

lemmas equal_defs = arePoliciesEqual_def arePlacementBindingsEqual_def areConfigsEqual_def areTypedEqual_def
  areApplicationsEqual_def areChannelsEqual_def areSubscriptionsEqual_def arePlacementRulesEqual_def arePlacementsEqual_def
  areManagedClusterSetsEqual_def areManagedClusterSetBindingsEqual_def metadataMatch_def

lemma controller_areEqual_refl:
  assumes "(f, r) \<in> set (AddSpec2DBControllers cs)" "reflexive_comparisons cs" "cleanInstance r object = Some cleaned"
  shows "areEqual r cleaned cleaned"
  using assms
  by (auto simp: controller_defs cleanInstance_def equal_defs clean_defs reflexive_comparisons_def split: specBody.splits if_splits)

section \<open>Reconciling\<close>

text \<open>The API server stores what it is sent, under a new resource version and with its own managed fields.\<close>

definition api_stores :: "specWorld \<Rightarrow> bool" where
  "api_stores w \<longleftrightarrow> (\<forall>object. \<exists>rv mf. w_Update w object = Inr (object\<lparr>so_ResourceVersion := rv, so_ManagedFields := mf\<rparr>))"

definition db_available :: "specWorld \<Rightarrow> bool" where
  "db_available w \<longleftrightarrow> list_all (\<lambda>s. w_failure w s = None) [QueryStmt, InsertStmt, UpdateStmt, DeleteStmt]"

lemma db_available_failure [simp]: "db_available w \<Longrightarrow> w_failure w s = None"
  by (cases s) (simp_all add: db_available_def)

lemma live_rows_lookup:
  "distinct (map spec_key rs) \<Longrightarrow> r \<in> set rs \<Longrightarrow> \<not> row_deleted r \<Longrightarrow> live_rows rs (spec_key r) = Some (row_id r, row_payload r)"
  by (induction rs) (auto simp: image_iff)

lemma live_lookup:
  "wf_spec t \<Longrightarrow> r \<in> set (spec_rows t) \<Longrightarrow> \<not> row_deleted r \<Longrightarrow> live t (spec_key r) = Some (row_id r, row_payload r)"
  by (simp add: live_def wf_spec_def live_rows_lookup)

lemma addFinalizer_stores:
  assumes "api_stores w"
  shows "\<exists>object' calls'. spec_addFinalizer r w object (t, calls) = (None, object', t, calls') \<and>
    so_UID object' = so_UID object \<and> cleanInstance r object' = cleanInstance r object"
proof -
  obtain rv mf where "w_Update w (object\<lparr>so_Finalizers := so_Finalizers object @ [finalizerName r]\<rparr>) =
      Inr (object\<lparr>so_Finalizers := so_Finalizers object @ [finalizerName r], so_ResourceVersion := rv, so_ManagedFields := mf\<rparr>)"
    using assms unfolding api_stores_def by metis
  then show ?thesis
    by (cases "finalizerName r \<in> set (so_Finalizers object)") (simp_all add: spec_addFinalizer_def cleanInstance_def Let_def)
qed

lemma QuerySpecObject_cases:
  assumes "wf_spec t" "uid_ok uid object t"
  obtains (absent) "QuerySpecObject None uid t = Inl ErrNoRows" "uid \<notin> row_id ` set (spec_rows t)"
  | (stored) p where "QuerySpecObject None uid t = Inr p" "uid \<in> row_id ` set (spec_rows t)" "live t (object_key object) = Some (uid, p)"
proof (cases "filter (\<lambda>r. row_id r = uid) (spec_rows t)")
  case Nil
  then show ?thesis using absent by (auto simp: QuerySpecObject_def filter_empty_conv)
next
  case (Cons r rs)
  then have r: "r \<in> set (spec_rows t)" "row_id r = uid" by (auto dest: filter_eq_ConsD)
  then have "\<not> row_deleted r" "spec_key r = object_key object" using assms(2) by (auto simp: uid_ok_def list_all_iff)
  then have "live t (object_key object) = Some (uid, row_payload r)" using live_lookup [OF assms(1) r(1)] r(2) by simp
  with Cons r stored show ?thesis by (auto simp: QuerySpecObject_def)
qed

lemma spec_Reconcile_found:
  assumes "spec_addFinalizer r w object (t, calls) = (None, object', t, calls')" "\<not> isInstanceBeingDeleted object"
    and "cleanInstance r object' = Some cleaned"
  shows "spec_Reconcile r w name namespace (SpecFound object) (t, calls) =
    (case processInstanceInTheDatabase w cleaned (so_UID object') t of
             (Inl err, t') \<Rightarrow> (RequeueAfter (DBError err), t', calls')
           | (Inr stored, t') \<Rightarrow>
               if areEqual r cleaned stored then (ReconcileDone, t', calls')
               else (case UpdateSpecObject (w_failure w UpdateStmt) (w_now w) (so_UID object') cleaned t' of
                       (Some err, t'') \<Rightarrow> (ReconcileFailed (DBError err), t'', calls')
                     | (None, t'') \<Rightarrow> (ReconcileDone, t'', calls')))"
  using assms by (simp add: spec_Reconcile_def processCR_def)

lemma uid_ok_key: "object_key object = object_key object' \<Longrightarrow> uid_ok uid object t = uid_ok uid object' t"
  by (simp add: uid_ok_def)

text \<open>
  C5. Reconciling an object that exists records it: of the abstract table the entry of its name and
  namespace becomes its UID with a payload the comparison takes to be equal to the cleaned object, and
  no other entry changes; the keys of the tables stay unique. This holds of each of the ten controllers,
  when the database answers, the API server stores what it is sent, and the UID is not reused.
\<close>

theorem spec_Reconcile_records:
  assumes "(f, r) \<in> set (AddSpec2DBControllers cs)" and "api_stores w" and "db_available w"
    and "wf_spec t" and "uid_ok (so_UID object) object t"
    and "\<not> isInstanceBeingDeleted object" and "cleanInstance r object = Some cleaned"
  shows "\<exists>t' calls' p. spec_Reconcile r w name namespace (SpecFound object) (t, calls) = (ReconcileDone, t', calls') \<and>
    live t' = (live t)(object_key object \<mapsto> (so_UID object, p)) \<and> (p = cleaned \<or> areEqual r cleaned p) \<and> wf_spec t'"
proof -
  let ?uid = "so_UID object"
  obtain object' calls' where "spec_addFinalizer r w object (t, calls) = (None, object', t, calls')"
      and uid: "so_UID object' = ?uid" and "cleanInstance r object' = Some cleaned"
    using addFinalizer_stores [OF assms(2)] assms(7) by metis
  note found = spec_Reconcile_found [OF this(1) assms(6) this(3), unfolded uid]
  have key: "object_key cleaned = object_key object" using cleanInstance_key [OF assms(1,7)] .
  then have ok: "uid_ok ?uid cleaned t" using uid_ok_key assms(5) by metis
  from assms(4) ok show ?thesis
  proof (cases rule: QuerySpecObject_cases)
    case absent
    obtain t' where t': "InsertSpecObject None (w_now w) ?uid cleaned t = (None, t')"
        "live t' = (live t)(object_key cleaned \<mapsto> (?uid, cleaned))" "wf_spec t'"
      using InsertSpecObject_live [OF assms(4) ok absent(2)] by blast
    then have "live t' (object_key cleaned) = Some (?uid, cleaned)" by simp
    have ok': "uid_ok ?uid cleaned t'" "?uid \<in> row_id ` set (spec_rows t')"
      using t'(1) absent(2) ok
      by (auto simp: InsertSpecObject_def Let_def uid_ok_def list_all_iff spec_key_def object_key_def split: if_splits)
    obtain t'' where t'': "UpdateSpecObject None (w_now w) ?uid cleaned t' = (None, t'')"
        "live t'' = (live t')(object_key cleaned \<mapsto> (?uid, cleaned))" "wf_spec t''"
      using UpdateSpecObject_live [OF t'(3) ok'] by blast
    show ?thesis
      using found absent(1) t' t'' assms(3) key
      by (cases "areEqual r cleaned cleaned") (auto simp: processInstanceInTheDatabase_def)
  next
    case (stored p)
    obtain t'' where t'': "UpdateSpecObject None (w_now w) ?uid cleaned t = (None, t'')"
        "live t'' = (live t)(object_key cleaned \<mapsto> (?uid, cleaned))" "wf_spec t''"
      using UpdateSpecObject_live [OF assms(4) ok stored(2)] by blast
    have "live t = (live t)(object_key object \<mapsto> (?uid, p))" using stored(3) key by (simp add: fun_eq_iff)
    then show ?thesis
      using found stored(1) t'' assms(3,4) key
      by (cases "areEqual r cleaned p") (auto simp: processInstanceInTheDatabase_def)
  qed
qed

definition sampleComparisons :: comparisons where
  "sampleComparisons = \<lparr>deepEqual_json = (=), deepEqual_map = (=),
     CompareSpecAndAnnotation = (\<lambda>a b. so_body a = so_body b \<and> so_Annotations a = so_Annotations b)\<rparr>"

definition sampleWorld :: specWorld where
  "sampleWorld = \<lparr>w_Update = (\<lambda>object. Inr (object\<lparr>so_ResourceVersion := ''2''\<rparr>)), w_failure = (\<lambda>_. None), w_now = 7\<rparr>"

definition samplePolicy :: "json \<Rightarrow> specObject" where
  "samplePolicy templates = \<lparr>so_UID = ''u1'', so_ResourceVersion = ''1'', so_Name = ''p'', so_Namespace = ''ns'', so_Labels = [],
     so_Annotations = [(lastApplied, ''x'')], so_Finalizers = [], so_Generation = 1, so_OwnerReferences = [], so_ManagedFields = [],
     so_DeletionTimestamp = None, so_body = PolicyB ''s'' templates ''compliant''\<rparr>"

definition storedPolicy :: "json \<Rightarrow> specObject" where
  "storedPolicy templates = (samplePolicy templates)\<lparr>so_UID := '''', so_ResourceVersion := '''', so_Annotations := [], so_Generation := 0,
     so_body := PolicyB ''s'' templates emptyStatus\<rparr>"

definition sampleTable :: specTable where
  "sampleTable = \<lparr>spec_rows = [\<lparr>row_id = ''u1'', row_payload = storedPolicy ''t'', row_updated_at = 3, row_deleted = False\<rparr>], history_rows = []\<rparr>"

lemmas sample_defs = sampleComparisons_def sampleWorld_def samplePolicy_def storedPolicy_def sampleTable_def lastApplied_def

definition policyReconciler :: "comparisons \<Rightarrow> genericSpecToDBReconciler" where
  "policyReconciler cs = newReconciler ''policies'' cleanPolicyStatus (arePoliciesEqual cs)"

lemma policyReconciler_mem: "(notLocalResource, policyReconciler cs) \<in> set (AddSpec2DBControllers cs)"
  by (simp add: AddSpec2DBControllers_def AddPolicyController_def policyReconciler_def)

lemma sampleWorld_ok: "api_stores sampleWorld" "db_available sampleWorld"
proof -
  have "w_Update sampleWorld object = Inr (object\<lparr>so_ResourceVersion := ''2'', so_ManagedFields := so_ManagedFields object\<rparr>)" for object
    by (simp add: sampleWorld_def)
  then show "api_stores sampleWorld" unfolding api_stores_def by blast
qed (simp add: db_available_def sampleWorld_def)

lemma samplePolicy_clean: "cleanInstance (policyReconciler cs) (samplePolicy templates) = Some (storedPolicy templates)"
  by (simp add: cleanInstance_def policyReconciler_def newReconciler_def cleanPolicyStatus_def samplePolicy_def storedPolicy_def)

lemma sampleTable_ok: "wf_spec sampleTable" "uid_ok ''u1'' (samplePolicy templates) sampleTable"
  by (simp_all add: wf_spec_def sampleTable_def uid_ok_def object_key_def spec_key_def samplePolicy_def storedPolicy_def)

theorem spec_Reconcile_records_witness:
  "\<exists>t' calls' p. spec_Reconcile (policyReconciler sampleComparisons) sampleWorld ''p'' ''ns'' (SpecFound (samplePolicy ''t2''))
      (\<lparr>spec_rows = [], history_rows = []\<rparr>, []) = (ReconcileDone, t', calls') \<and>
    live t' = [(''p'', ''ns'') \<mapsto> (''u1'', p)] \<and> (p = storedPolicy ''t2'' \<or> arePoliciesEqual sampleComparisons (storedPolicy ''t2'') p) \<and> wf_spec t'"
  using spec_Reconcile_records [OF policyReconciler_mem sampleWorld_ok, of "\<lparr>spec_rows = [], history_rows = []\<rparr>" "samplePolicy ''t2''"
      sampleComparisons "storedPolicy ''t2''" "''p''" "''ns''" "[]"] samplePolicy_clean
  by (simp add: wf_spec_def uid_ok_def isInstanceBeingDeleted_def live_def policyReconciler_def newReconciler_def)
    (simp add: object_key_def samplePolicy_def)

text \<open>
  An object that is gone, or that is being deleted and has the finalizer, is removed from the abstract
  table, and no other entry changes.
\<close>

theorem spec_Reconcile_removes:
  assumes "db_available w" and "api_stores w" and "wf_spec t"
    and "got = SpecNotFound \<or> (\<exists>object. got = SpecFound object \<and> object_key object = (name, namespace) \<and>
           isInstanceBeingDeleted object \<and> finalizerName r \<in> set (so_Finalizers object))"
  shows "\<exists>t' calls'. spec_Reconcile r w name namespace got (t, calls) = (ReconcileDone, t', calls') \<and>
    live t' = (live t)((name, namespace) := None) \<and> wf_spec t'"
proof -
  obtain t' where t': "DeleteSpecObject None (w_now w) name namespace t = (None, t')"
    by (simp add: DeleteSpecObject_def)
  then have deleted: "deleteFromTheDatabase w name namespace (t, calls) = (None, t', calls)"
    using assms(1) by (simp add: deleteFromTheDatabase_def)
  have abs: "live t' = (live t)((name, namespace) := None)" "wf_spec t'"
    using DeleteSpecObject_live [OF t'] DeleteSpecObject_wf [OF t'] assms(3) by simp_all
  show ?thesis
  proof (cases "got = SpecNotFound")
    case True
    then show ?thesis using deleted abs by (simp add: spec_Reconcile_def processCR_def)
  next
    case False
    then obtain object where got: "got = SpecFound object" and key: "so_Name object = name" "so_Namespace object = namespace"
        and "isInstanceBeingDeleted object" "finalizerName r \<in> set (so_Finalizers object)"
      using assms(4) by (auto simp: object_key_def)
    moreover obtain stored where "w_Update w (object\<lparr>so_Finalizers := filter (\<lambda>f. f \<noteq> finalizerName r) (so_Finalizers object)\<rparr>) = Inr stored"
      using assms(2) unfolding api_stores_def by metis
    ultimately show ?thesis
      using deleted abs by (simp add: spec_Reconcile_def processCR_def removeFinalizerAndDelete_def Let_def)
  qed
qed

theorem spec_Reconcile_removes_witness:
  "\<exists>t' calls'. spec_Reconcile (policyReconciler sampleComparisons) sampleWorld ''p'' ''ns'' SpecNotFound (sampleTable, []) = (ReconcileDone, t', calls') \<and>
    live t' = (live sampleTable)((''p'', ''ns'') := None) \<and> wf_spec t'"
  using spec_Reconcile_removes [OF sampleWorld_ok(2,1) sampleTable_ok(1), of SpecNotFound "''p''" "''ns''"] by blast

text \<open>
  C6. Whatever the database and the API server answer, a reconciliation asks the server to store an object
  without the finalizer only after the table has no live entry of its name and namespace left: the
  finalizer is not given up while the deletion is not recorded.
\<close>

theorem finalizer_kept_until_deleted:
  assumes "spec_Reconcile r w name namespace got (t, calls) = (result, t', calls')"
  shows "\<exists>new. calls' = calls @ new \<and>
    list_all (\<lambda>object. finalizerName r \<in> set (so_Finalizers object) \<or> live t' (object_key object) = None) new"
proof (cases got)
  case (SpecFound object)
  show ?thesis
  proof (cases "isInstanceBeingDeleted object")
    case True
    then show ?thesis
      using assms SpecFound DeleteSpecObject_live [where n = "so_Name object" and ns = "so_Namespace object" and t = t and now = "w_now w"]
      by (auto simp: spec_Reconcile_def processCR_def removeFinalizerAndDelete_def deleteFromTheDatabase_def object_key_def Let_def
          DeleteSpecObject_def live_def live_rows_mark split: prod.splits option.splits sum.splits if_splits)
  next
    case False
    obtain err object' t1 calls1 where add: "spec_addFinalizer r w object (t, calls) = (err, object', t1, calls1)"
      by (metis prod_cases4)
    then have "\<exists>new. calls1 = calls @ new \<and> list_all (\<lambda>object. finalizerName r \<in> set (so_Finalizers object)) new"
      by (auto simp: spec_addFinalizer_def Let_def split: if_splits sum.splits)
    moreover have "calls' = calls1"
      using assms SpecFound False add
      by (auto simp: spec_Reconcile_def processCR_def split: prod.splits option.splits sum.splits if_splits)
    ultimately show ?thesis by (auto simp: list_all_iff)
  qed
qed (use assms in \<open>auto simp: spec_Reconcile_def processCR_def deleteFromTheDatabase_def split: prod.splits option.splits sum.splits if_splits\<close>)

definition deletedPolicy :: specObject where
  "deletedPolicy = (samplePolicy ''t'')\<lparr>so_DeletionTimestamp := Some 5, so_Finalizers := [''f'', GlobalHubCleanupFinalizer]\<rparr>"

theorem finalizer_kept_until_deleted_witness:
  "\<exists>new. snd (snd (spec_Reconcile (policyReconciler sampleComparisons) sampleWorld ''p'' ''ns'' (SpecFound deletedPolicy) (sampleTable, []))) = [] @ new \<and>
    list_all (\<lambda>object. finalizerName (policyReconciler sampleComparisons) \<in> set (so_Finalizers object) \<or>
      live (fst (snd (spec_Reconcile (policyReconciler sampleComparisons) sampleWorld ''p'' ''ns'' (SpecFound deletedPolicy) (sampleTable, []))))
        (object_key object) = None) new"
proof -
  obtain result t' calls' where "spec_Reconcile (policyReconciler sampleComparisons) sampleWorld ''p'' ''ns'' (SpecFound deletedPolicy) (sampleTable, [])
      = (result, t', calls')"
    by (metis prod_cases3)
  from finalizer_kept_until_deleted [OF this] this show ?thesis by simp
qed

lemma QuerySpecObject_live:
  assumes "wf_spec t" "uid_ok uid object t" "live t (object_key object) = Some (uid, p)"
  shows "QuerySpecObject None uid t = Inr p"
proof -
  obtain x where x: "x \<in> set (spec_rows t)" "row_id x = uid"
    using map_of_SomeD [OF assms(3) [unfolded live_def live_rows_def]] by auto
  from assms(1,2) show ?thesis
  proof (cases rule: QuerySpecObject_cases)
    case absent
    then show ?thesis using x by (metis image_eqI)
  qed (use assms(3) in simp)
qed

lemma spec_Reconcile_equal:
  assumes "api_stores w" "db_available w" "wf_spec t" "uid_ok (so_UID object) object t" "\<not> isInstanceBeingDeleted object"
    and "cleanInstance r object = Some cleaned" "live t (object_key object) = Some (so_UID object, p)" "areEqual r cleaned p"
  shows "\<exists>calls'. spec_Reconcile r w name namespace (SpecFound object) (t, calls) = (ReconcileDone, t, calls')"
proof -
  obtain object' calls' where "spec_addFinalizer r w object (t, calls) = (None, object', t, calls')"
      and uid: "so_UID object' = so_UID object" and "cleanInstance r object' = Some cleaned"
    using addFinalizer_stores [OF assms(1)] assms(6) by metis
  note found = spec_Reconcile_found [OF this(1) assms(5) this(3), unfolded uid]
  show ?thesis
    using found QuerySpecObject_live [OF assms(3,4,7)] assms(2,8) by (simp add: processInstanceInTheDatabase_def)
qed

text \<open>
  Reconciling is stable: once an object has been recorded, reconciling the same object again leaves the
  table as it is, so that nothing is stamped or sent again. The third-party comparisons are only
  required to accept equal values.
\<close>

theorem spec_Reconcile_stable:
  assumes "(f, r) \<in> set (AddSpec2DBControllers cs)" and "reflexive_comparisons cs" and "api_stores w" and "db_available w"
    and "wf_spec t" and "uid_ok (so_UID object) object t" and "\<not> isInstanceBeingDeleted object"
    and "cleanInstance r object = Some cleaned"
    and "live t (object_key object) = Some (so_UID object, p)" and "p = cleaned \<or> areEqual r cleaned p"
  shows "\<exists>calls'. spec_Reconcile r w name namespace (SpecFound object) (t, calls) = (ReconcileDone, t, calls')"
  using spec_Reconcile_equal [OF assms(3-9)] assms(10) controller_areEqual_refl [OF assms(1,2,8)] by blast

lemma sampleComparisons_refl: "reflexive_comparisons sampleComparisons"
  by (simp add: reflexive_comparisons_def sampleComparisons_def)

theorem spec_Reconcile_stable_witness:
  "\<exists>calls'. spec_Reconcile (policyReconciler sampleComparisons) sampleWorld ''p'' ''ns'' (SpecFound (samplePolicy ''t'')) (sampleTable, [])
     = (ReconcileDone, sampleTable, calls')"
proof (rule spec_Reconcile_stable [OF policyReconciler_mem sampleComparisons_refl sampleWorld_ok sampleTable_ok(1) _ _ samplePolicy_clean])
  show "uid_ok (so_UID (samplePolicy ''t'')) (samplePolicy ''t'') sampleTable"
    using sampleTable_ok(2) by (simp add: samplePolicy_def)
  show "live sampleTable (object_key (samplePolicy ''t'')) = Some (so_UID (samplePolicy ''t''), storedPolicy ''t'')"
    by (simp add: live_def sampleTable_def spec_key_def object_key_def samplePolicy_def storedPolicy_def)
qed (simp_all add: samplePolicy_clean isInstanceBeingDeleted_def samplePolicy_def)

text \<open>
  A policy whose templates alone changed is not updated in the table: whatever the templates are, a
  stored policy that agrees with the cleaned one up to its templates stays as it is, and the leaf hubs
  keep the old templates.
\<close>

theorem policy_template_change_ignored:
  assumes "api_stores w" and "db_available w" and "wf_spec t" and "uid_ok (so_UID object) object t"
    and "reflexive_comparisons cs" and "\<not> isInstanceBeingDeleted object"
    and "cleanInstance (policyReconciler cs) object = Some cleaned"
    and "live t (object_key object) = Some (so_UID object, cleaned\<lparr>so_body := PolicyB spec old emptyStatus\<rparr>)"
    and "so_body cleaned = PolicyB spec changed emptyStatus"
  shows "\<exists>calls'. spec_Reconcile (policyReconciler cs) w name namespace (SpecFound object) (t, calls) = (ReconcileDone, t, calls')"
proof (rule spec_Reconcile_equal [OF assms(1-4,6-8)])
  show "areEqual (policyReconciler cs) cleaned (cleaned\<lparr>so_body := PolicyB spec old emptyStatus\<rparr>)"
    using assms(5,9) by (simp add: policyReconciler_def newReconciler_def arePoliciesEqual_def reflexive_comparisons_def)
qed

theorem policy_template_change_ignored_witness:
  "\<exists>calls'. spec_Reconcile (policyReconciler sampleComparisons) sampleWorld ''p'' ''ns'' (SpecFound (samplePolicy ''new'')) (sampleTable, [])
     = (ReconcileDone, sampleTable, calls')"
proof (rule policy_template_change_ignored [OF sampleWorld_ok sampleTable_ok(1) _ sampleComparisons_refl _ samplePolicy_clean])
  show "uid_ok (so_UID (samplePolicy ''new'')) (samplePolicy ''new'') sampleTable"
    using sampleTable_ok(2) by (simp add: samplePolicy_def)
  show "live sampleTable (object_key (samplePolicy ''new'')) =
      Some (so_UID (samplePolicy ''new''), (storedPolicy ''new'')\<lparr>so_body := PolicyB ''s'' ''t'' emptyStatus\<rparr>)"
    by (simp add: live_def sampleTable_def spec_key_def object_key_def samplePolicy_def storedPolicy_def)
qed (simp_all add: isInstanceBeingDeleted_def samplePolicy_def storedPolicy_def)

end
