(* ===== verification/GH_SpecSync.thy ===== *)
theory GH_SpecSync
  imports GH_SpecDB
begin

text \<open>
  From the spec database to the transport (\<open>manager/pkg/specsyncer/db2transport\<close>): the bundles of
  objects, the queries that fill them, the periodic syncers with their interval policy, the syncer of
  the managed cluster labels, and the watcher that trims deleted labels and fills hub names.

  A sync runs several statements, and other transactions may commit between them: each statement reads
  its own snapshot of the table. The order of a result set is an argument. Encoding a bundle to JSON
  and printing a time stamp are arguments. A result set may end early: \<open>rows.Next\<close> then returns false
  as it does at the end.
\<close>

section \<open>Bundles of objects\<close>

record baseObjectsBundle =
  bob_Objects :: "specObject list"
  bob_DeletedObjects :: "specObject list"

definition NewBaseObjectsBundle :: baseObjectsBundle where
  "NewBaseObjectsBundle = \<lparr>bob_Objects = [], bob_DeletedObjects = []\<rparr>"

definition setMetaDataAnnotation :: "specObject \<Rightarrow> string \<Rightarrow> string \<Rightarrow> specObject" where
  "setMetaDataAnnotation object key val = object\<lparr>so_Annotations := AList.update key val (so_Annotations object)\<rparr>"

definition AddObject :: "specObject \<Rightarrow> string \<Rightarrow> baseObjectsBundle \<Rightarrow> baseObjectsBundle" where
  "AddObject object objectUID b =
     b\<lparr>bob_Objects := bob_Objects b @ [setMetaDataAnnotation object OriginOwnerReferenceAnnotation objectUID]\<rparr>"

definition AddDeletedObject :: "specObject \<Rightarrow> baseObjectsBundle \<Rightarrow> baseObjectsBundle" where
  "AddDeletedObject object b = b\<lparr>bob_DeletedObjects := bob_DeletedObjects b @ [object]\<rparr>"

section \<open>Reading the tables\<close>

text \<open>How reading one row ends, and how reading a result set ends.\<close>

datatype scanOutcome = ScanOK | ScanNoRows | ScanFailed string

datatype rowsOutcome = AllRows | LostAfter nat | QueryError string | ScanError string

fun maxStamp :: "int list \<Rightarrow> int option" where
  "maxStamp [] = None"
| "maxStamp (s # ss) = (case maxStamp ss of None \<Rightarrow> Some s | Some m \<Rightarrow> Some (max s m))"

definition visible :: "specTable \<Rightarrow> specRow list" where
  "visible t = filter (\<lambda>r. \<not> localResource r) (spec_rows t)"

text \<open>
  The maximum of no rows is NULL, which does not scan into a time; the code returns every error but
  \<open>ErrNoRows\<close> as the zero time.
\<close>

definition GetLastUpdateTimestamp :: "scanOutcome \<Rightarrow> int list \<Rightarrow> dbError + int" where
  "GetLastUpdateTimestamp oc stamps =
     (case oc of
        ScanNoRows \<Rightarrow> Inl ErrNoRows
      | ScanFailed err \<Rightarrow> Inr zeroTime
      | ScanOK \<Rightarrow> Inr (case maxStamp stamps of None \<Rightarrow> zeroTime | Some m \<Rightarrow> m))"

definition spec_stamps :: "specTable \<Rightarrow> int list" where
  "spec_stamps t = map row_updated_at (visible t)"

definition addRow :: "specRow \<Rightarrow> baseObjectsBundle \<Rightarrow> baseObjectsBundle" where
  "addRow r b = (if row_deleted r then AddDeletedObject (row_payload r) b else AddObject (row_payload r) (row_id r) b)"

definition GetObjectsBundle :: "scanOutcome \<Rightarrow> rowsOutcome \<Rightarrow> (specRow list \<Rightarrow> specRow list) \<Rightarrow> specTable \<Rightarrow> specTable
    \<Rightarrow> baseObjectsBundle \<Rightarrow> (dbError + int) \<times> baseObjectsBundle" where
  "GetObjectsBundle oc ro ord t2 t3 b =
     (case GetLastUpdateTimestamp oc (spec_stamps t2) of
        Inl err \<Rightarrow> (Inl err, b)
      | Inr timestamp \<Rightarrow>
          (case ro of
             QueryError err \<Rightarrow> (Inl (DBFailure err), b)
           | ScanError err \<Rightarrow> (Inl (DBFailure err), b)
           | LostAfter n \<Rightarrow> (Inr timestamp, fold addRow (take n (ord (visible t3))) b)
           | AllRows \<Rightarrow> (Inr timestamp, fold addRow (ord (visible t3)) b)))"

section \<open>Sending\<close>

text \<open>What is handed to the transport; the empty destination broadcasts.\<close>

record specMessage =
  sm_Destination :: string
  sm_ID :: string
  sm_MsgType :: string
  sm_Version :: string
  sm_Payload :: "byte list"

definition Broadcast :: string where
  "Broadcast = ''''"

definition SpecBundle :: string where
  "SpecBundle = ''SpecBundle''"

definition syncToTransport :: "(int \<Rightarrow> string) \<Rightarrow> string \<Rightarrow> string \<Rightarrow> int \<Rightarrow> string + byte list \<Rightarrow> string + specMessage" where
  "syncToTransport formatTime destination objID timestamp payload =
     (case payload of
        Inl err \<Rightarrow> Inl err
      | Inr payloadBytes \<Rightarrow> Inr \<lparr>sm_Destination = destination, sm_ID = objID, sm_MsgType = SpecBundle,
                                 sm_Version = formatTime timestamp, sm_Payload = payloadBytes\<rparr>)"

text \<open>What the database and the encoder answer during one sync.\<close>

record syncAnswers =
  ans_first :: scanOutcome
  ans_second :: scanOutcome
  ans_rows :: rowsOutcome
  ans_order :: "specRow list \<Rightarrow> specRow list"

record codecs =
  marshalObjects :: "baseObjectsBundle \<Rightarrow> string + byte list"
  formatTime :: "int \<Rightarrow> string"

datatype syncError = SyncDB dbError | SyncMarshal string

text \<open>The result, the messages handed to the transport, and the time stamp behind the pointer.\<close>

definition syncObjectsBundle :: "codecs \<Rightarrow> syncAnswers \<Rightarrow> string \<Rightarrow> specTable \<Rightarrow> specTable \<Rightarrow> specTable \<Rightarrow> int
    \<Rightarrow> (syncError + bool) \<times> specMessage list \<times> int" where
  "syncObjectsBundle c a key t1 t2 t3 lastSync =
     (case GetLastUpdateTimestamp (ans_first a) (spec_stamps t1) of
        Inl err \<Rightarrow> (Inl (SyncDB err), [], lastSync)
      | Inr lastUpdate \<Rightarrow>
          if \<not> lastSync < lastUpdate then (Inr False, [], lastSync)
          else (case GetObjectsBundle (ans_second a) (ans_rows a) (ans_order a) t2 t3 NewBaseObjectsBundle of
                  (Inl err, b) \<Rightarrow> (Inl (SyncDB err), [], lastSync)
                | (Inr timestamp, b) \<Rightarrow>
                    (case syncToTransport (formatTime c) Broadcast key timestamp (marshalObjects c b) of
                       Inl err \<Rightarrow> (Inl (SyncMarshal err), [], lastSync)
                     | Inr m \<Rightarrow> (Inr True, [m], timestamp))))"

section \<open>The interval policy\<close>

text \<open>
  The back-off library yields, for the \<open>k\<close>-th call of \<open>NextBackOff\<close> after a reset, the interval
  \<open>schedule k\<close>; its state is the number of those calls.
\<close>

record exponentialBackoffPolicy =
  backoffCalls :: nat
  pol_interval :: int
  consecutiveEvaluationsCount :: nat

definition consecutiveEvaluationsBeforeNextBackoff :: nat where
  "consecutiveEvaluationsBeforeNextBackoff = 3"

definition maxInterval :: int where
  "maxInterval = 60 * 1000000000"

definition policy_Reset :: "(nat \<Rightarrow> int) \<Rightarrow> exponentialBackoffPolicy \<Rightarrow> exponentialBackoffPolicy" where
  "policy_Reset schedule pol = pol\<lparr>backoffCalls := 1, pol_interval := schedule 0, consecutiveEvaluationsCount := 0\<rparr>"

definition NewExponentialBackoffPolicy :: "(nat \<Rightarrow> int) \<Rightarrow> exponentialBackoffPolicy" where
  "NewExponentialBackoffPolicy schedule = \<lparr>backoffCalls = 1, pol_interval = schedule 0, consecutiveEvaluationsCount = 0\<rparr>"

definition policy_Evaluate :: "(nat \<Rightarrow> int) \<Rightarrow> exponentialBackoffPolicy \<Rightarrow> exponentialBackoffPolicy" where
  "policy_Evaluate schedule pol =
     (if Suc (consecutiveEvaluationsCount pol) = consecutiveEvaluationsBeforeNextBackoff
      then pol\<lparr>pol_interval := schedule (backoffCalls pol), backoffCalls := Suc (backoffCalls pol), consecutiveEvaluationsCount := 0\<rparr>
      else pol\<lparr>consecutiveEvaluationsCount := Suc (consecutiveEvaluationsCount pol)\<rparr>)"

text \<open>One tick: the policy is told whether the sync was performed; the ticker is reset when the interval changed.\<close>

definition periodicSync_tick :: "(nat \<Rightarrow> int) \<Rightarrow> syncError + bool \<Rightarrow> exponentialBackoffPolicy \<Rightarrow> exponentialBackoffPolicy \<times> int option" where
  "periodicSync_tick schedule result pol =
     (let pol' = if result = Inr True then policy_Evaluate schedule pol else policy_Reset schedule pol in
      (pol', if pol_interval pol = pol_interval pol' then None else Some (pol_interval pol')))"

section \<open>The syncers of the object tables\<close>

record genericDBToTransportSyncer =
  syncer_table :: string
  syncer_key :: string
  syncer_policy :: exponentialBackoffPolicy
  lastSyncTimestamp :: int

definition newObjectsSyncer :: "string \<Rightarrow> string \<Rightarrow> (nat \<Rightarrow> int) \<Rightarrow> genericDBToTransportSyncer" where
  "newObjectsSyncer table key schedule =
     \<lparr>syncer_table = table, syncer_key = key, syncer_policy = NewExponentialBackoffPolicy schedule, lastSyncTimestamp = zeroTime\<rparr>"

definition AddHoHConfigDBToTransportSyncer :: "(nat \<Rightarrow> int) \<Rightarrow> genericDBToTransportSyncer" where
  "AddHoHConfigDBToTransportSyncer = newObjectsSyncer ''configs'' ''Config''"

definition AddPoliciesDBToTransportSyncer :: "(nat \<Rightarrow> int) \<Rightarrow> genericDBToTransportSyncer" where
  "AddPoliciesDBToTransportSyncer = newObjectsSyncer ''policies'' ''Policies''"

definition AddPlacementRulesDBToTransportSyncer :: "(nat \<Rightarrow> int) \<Rightarrow> genericDBToTransportSyncer" where
  "AddPlacementRulesDBToTransportSyncer = newObjectsSyncer ''placementrules'' ''PlacementRules''"

definition AddPlacementBindingsDBToTransportSyncer :: "(nat \<Rightarrow> int) \<Rightarrow> genericDBToTransportSyncer" where
  "AddPlacementBindingsDBToTransportSyncer = newObjectsSyncer ''placementbindings'' ''PlacementBindings''"

definition AddApplicationsDBToTransportSyncer :: "(nat \<Rightarrow> int) \<Rightarrow> genericDBToTransportSyncer" where
  "AddApplicationsDBToTransportSyncer = newObjectsSyncer ''applications'' ''Applications''"

definition AddSubscriptionsDBToTransportSyncer :: "(nat \<Rightarrow> int) \<Rightarrow> genericDBToTransportSyncer" where
  "AddSubscriptionsDBToTransportSyncer = newObjectsSyncer ''subscriptions'' ''Subscriptions''"

definition AddChannelsDBToTransportSyncer :: "(nat \<Rightarrow> int) \<Rightarrow> genericDBToTransportSyncer" where
  "AddChannelsDBToTransportSyncer = newObjectsSyncer ''channels'' ''Channels''"

definition AddPlacementsDBToTransportSyncer :: "(nat \<Rightarrow> int) \<Rightarrow> genericDBToTransportSyncer" where
  "AddPlacementsDBToTransportSyncer = newObjectsSyncer ''placements'' ''Placements''"

definition AddManagedClusterSetsDBToTransportSyncer :: "(nat \<Rightarrow> int) \<Rightarrow> genericDBToTransportSyncer" where
  "AddManagedClusterSetsDBToTransportSyncer = newObjectsSyncer ''managedclustersets'' ''ManagedClusterSets''"

definition AddManagedClusterSetBindingsDBToTransportSyncer :: "(nat \<Rightarrow> int) \<Rightarrow> genericDBToTransportSyncer" where
  "AddManagedClusterSetBindingsDBToTransportSyncer = newObjectsSyncer ''managedclustersetbindings'' ''ManagedClusterSetBindings''"

definition ManagedClustersLabelsMsgKey :: string where
  "ManagedClustersLabelsMsgKey = ''ManagedClustersLabels''"

definition managedClusterLabelsDBTableName :: string where
  "managedClusterLabelsDBTableName = ''managed_clusters_labels''"

definition AddManagedClusterLabelsDBToTransportSyncer :: "(nat \<Rightarrow> int) \<Rightarrow> genericDBToTransportSyncer" where
  "AddManagedClusterLabelsDBToTransportSyncer = newObjectsSyncer managedClusterLabelsDBTableName ManagedClustersLabelsMsgKey"

definition AddDB2TransportSyncers :: "(nat \<Rightarrow> int) \<Rightarrow> genericDBToTransportSyncer list" where
  "AddDB2TransportSyncers schedule = map (\<lambda>add. add schedule)
     [AddHoHConfigDBToTransportSyncer, AddPoliciesDBToTransportSyncer, AddPlacementRulesDBToTransportSyncer,
      AddPlacementBindingsDBToTransportSyncer, AddApplicationsDBToTransportSyncer, AddSubscriptionsDBToTransportSyncer,
      AddChannelsDBToTransportSyncer, AddManagedClusterLabelsDBToTransportSyncer, AddPlacementsDBToTransportSyncer,
      AddManagedClusterSetsDBToTransportSyncer, AddManagedClusterSetBindingsDBToTransportSyncer]"

text \<open>The first sync, before the ticker starts, does not tell the policy; the later ones do.\<close>

definition syncBundle_objects :: "codecs \<Rightarrow> syncAnswers \<Rightarrow> specTable \<Rightarrow> specTable \<Rightarrow> specTable \<Rightarrow> genericDBToTransportSyncer
    \<Rightarrow> (syncError + bool) \<times> specMessage list \<times> genericDBToTransportSyncer" where
  "syncBundle_objects c a t1 t2 t3 s =
     (case syncObjectsBundle c a (syncer_key s) t1 t2 t3 (lastSyncTimestamp s) of
        (result, msgs, lastSync) \<Rightarrow> (result, msgs, s\<lparr>lastSyncTimestamp := lastSync\<rparr>))"

definition syncer_Start :: "codecs \<Rightarrow> syncAnswers \<Rightarrow> specTable \<Rightarrow> specTable \<Rightarrow> specTable \<Rightarrow> genericDBToTransportSyncer
    \<Rightarrow> specMessage list \<times> genericDBToTransportSyncer" where
  "syncer_Start c a t1 t2 t3 s = snd (syncBundle_objects c a t1 t2 t3 s)"

definition syncer_tick :: "(nat \<Rightarrow> int) \<Rightarrow> codecs \<Rightarrow> syncAnswers \<Rightarrow> specTable \<Rightarrow> specTable \<Rightarrow> specTable \<Rightarrow> genericDBToTransportSyncer
    \<Rightarrow> specMessage list \<times> genericDBToTransportSyncer" where
  "syncer_tick schedule c a t1 t2 t3 s =
     (case syncBundle_objects c a t1 t2 t3 s of
        (result, msgs, s') \<Rightarrow> (msgs, s'\<lparr>syncer_policy := fst (periodicSync_tick schedule result (syncer_policy s'))\<rparr>))"

end
