(* ===== verification/GH_SpecSyncProps.thy ===== *)
theory GH_SpecSyncProps
  imports GH_SpecSync GH_SpecDBProps
begin

text \<open>
  What the syncers of the object tables guarantee. Writers and a syncer interleave: a step is a
  statement of a writer, or a sync whose three statements are separated by further writes. The
  statements are stamped by an increasing clock. A table that has not changed since the last sync is
  the table the last message carries.
\<close>

section \<open>Time stamps\<close>

definition stamp :: "specTable \<Rightarrow> int" where
  "stamp t = (case maxStamp (spec_stamps t) of None \<Rightarrow> zeroTime | Some m \<Rightarrow> m)"

definition stamped :: "int \<Rightarrow> specTable \<Rightarrow> bool" where
  "stamped k t \<longleftrightarrow> list_all (\<lambda>r. zeroTime < row_updated_at r \<and> row_updated_at r \<le> k) (spec_rows t)"

lemma maxStamp_None [simp]: "maxStamp ss = None \<longleftrightarrow> ss = []"
  by (cases ss) (auto split: option.splits)

lemma maxStamp_mem: "maxStamp ss = Some m \<Longrightarrow> m \<in> set ss"
  by (induction ss arbitrary: m) (auto split: option.splits simp: max_def)

lemma maxStamp_ge: "maxStamp ss = Some m \<Longrightarrow> s \<in> set ss \<Longrightarrow> s \<le> m"
  by (induction ss arbitrary: m) (auto split: option.splits)

lemma GetLastUpdateTimestamp_OK [simp]: "GetLastUpdateTimestamp ScanOK (spec_stamps t) = Inr (stamp t)"
  by (simp add: GetLastUpdateTimestamp_def stamp_def)

lemma visible_mem [simp]: "r \<in> set (visible t) \<longleftrightarrow> r \<in> set (spec_rows t) \<and> \<not> localResource r"
  by (auto simp: visible_def)

lemma stamp_ge:
  assumes "r \<in> set (visible t)"
  shows "row_updated_at r \<le> stamp t"
proof -
  have "row_updated_at r \<in> set (spec_stamps t)" using assms unfolding spec_stamps_def set_map by (rule imageI)
  then show ?thesis by (cases "maxStamp (spec_stamps t)") (auto simp: stamp_def dest: maxStamp_ge)
qed

lemma stamp_le: "stamped k t \<Longrightarrow> 0 \<le> k \<Longrightarrow> stamp t \<le> k"
  by (auto simp: stamp_def spec_stamps_def stamped_def zeroTime_def list_all_iff dest!: maxStamp_mem split: option.splits)

lemma stamp_nonneg: "stamped k t \<Longrightarrow> 0 \<le> stamp t"
  by (force simp: stamp_def spec_stamps_def stamped_def zeroTime_def list_all_iff dest!: maxStamp_mem split: option.splits)

lemma stamp_zero: "stamped k t \<Longrightarrow> stamp t \<le> 0 \<Longrightarrow> visible t = []"
proof (rule ccontr)
  assume t: "stamped k t" "stamp t \<le> 0" and "visible t \<noteq> []"
  then obtain r where r: "r \<in> set (visible t)" by (meson last_in_set)
  then have "0 < row_updated_at r" using t by (auto simp: stamped_def list_all_iff zeroTime_def)
  with stamp_ge [OF r] t show False by simp
qed

lemma stamp_cong: "visible t' = visible t \<Longrightarrow> stamp t' = stamp t"
  by (simp add: stamp_def spec_stamps_def)

section \<open>The writers\<close>

text \<open>The statements of the controllers, each at a later time than the one before; objects of the global hub are not local resources.\<close>

inductive specWrite :: "specTable \<times> int \<Rightarrow> specTable \<times> int \<Rightarrow> bool" where
  inserted: "k < now \<Longrightarrow> notLocalResource object \<Longrightarrow> InsertSpecObject failure now uid object t = (e, t') \<Longrightarrow> specWrite (t, k) (t', now)"
| updated: "k < now \<Longrightarrow> notLocalResource object \<Longrightarrow> UpdateSpecObject failure now uid object t = (e, t') \<Longrightarrow> specWrite (t, k) (t', now)"
| deleted: "k < now \<Longrightarrow> DeleteSpecObject failure now name namespace t = (e, t') \<Longrightarrow> specWrite (t, k) (t', now)"

inductive_simps specWrite_simps: "specWrite (t, k) (t', k')"

text \<open>A write leaves what the syncer sees as it is, or stamps a row it sees with its time.\<close>

definition noticed :: "specTable \<Rightarrow> specTable \<Rightarrow> int \<Rightarrow> bool" where
  "noticed t t' now \<longleftrightarrow> visible t' = visible t \<or> now \<in> row_updated_at ` set (visible t')"

lemma localResource_object: "localResource r \<longleftrightarrow> \<not> notLocalResource (row_payload r)"
  by (simp add: localResource_def notLocalResource_def)

lemma map_filter_id: "(\<And>x. x \<in> set xs \<Longrightarrow> P (f x) = P x) \<Longrightarrow> (\<And>x. x \<in> set xs \<Longrightarrow> P x \<Longrightarrow> f x = x) \<Longrightarrow> filter P (map f xs) = filter P xs"
  by (induction xs) auto

lemma map_rows_noticed:
  assumes rows: "spec_rows t' = map (\<lambda>r. if P r then g r else r) (spec_rows t)"
    and g: "\<And>r. P r \<Longrightarrow> row_updated_at (g r) = now" "\<And>r. P r \<Longrightarrow> localResource (g r) \<Longrightarrow> localResource r"
  shows "noticed t t' now"
proof (cases "\<exists>r\<in>set (spec_rows t). P r \<and> \<not> localResource (g r)")
  case True
  then obtain r where r: "r \<in> set (spec_rows t)" "P r" "\<not> localResource (g r)" by blast
  then have "g r \<in> set (visible t')" unfolding visible_mem rows by force
  with g(1) [OF r(2)] show ?thesis unfolding noticed_def by (metis image_eqI)
next
  case False
  then show ?thesis
    unfolding noticed_def visible_def rows using g(2) by (intro disjI1 map_filter_id) auto
qed

lemma InsertSpecObject_noticed:
  assumes "InsertSpecObject failure now uid object t = (e, t')" "notLocalResource object"
  shows "noticed t t' now"
proof (cases "t' = t")
  case False
  then have "\<lparr>row_id = uid, row_payload = object, row_updated_at = now, row_deleted = False\<rparr> \<in> set (visible t')"
    using assms by (auto simp: InsertSpecObject_def Let_def localResource_object split: option.splits if_splits)
  then show ?thesis unfolding noticed_def by (metis image_eqI specRow.select_convs(3))
qed (simp add: noticed_def)

lemma UpdateSpecObject_noticed:
  assumes "UpdateSpecObject failure now uid object t = (e, t')" "notLocalResource object"
  shows "noticed t t' now"
proof (cases failure)
  case None
  show ?thesis
    by (rule map_rows_noticed [where P = "\<lambda>r. row_id r = uid" and g = "\<lambda>r. r\<lparr>row_payload := object, row_updated_at := now\<rparr>"])
      (use assms None in \<open>auto simp: UpdateSpecObject_def localResource_object\<close>)
qed (use assms in \<open>auto simp: UpdateSpecObject_def noticed_def\<close>)

lemma DeleteSpecObject_noticed:
  assumes "DeleteSpecObject failure now n ns t = (e, t')"
  shows "noticed t t' now"
proof (cases failure)
  case None
  show ?thesis
    by (rule map_rows_noticed [where P = "\<lambda>r. so_Name (row_payload r) = n \<and> so_Namespace (row_payload r) = ns \<and> \<not> row_deleted r"
          and g = "\<lambda>r. r\<lparr>row_deleted := True, row_updated_at := now\<rparr>"])
      (use assms None in \<open>auto simp: DeleteSpecObject_def localResource_object\<close>)
qed (use assms in \<open>auto simp: DeleteSpecObject_def noticed_def\<close>)

lemma write_noticed: "specWrite (t, k) (t', k') \<Longrightarrow> noticed t t' k'"
  by (auto simp: specWrite_simps intro: InsertSpecObject_noticed UpdateSpecObject_noticed DeleteSpecObject_noticed)

lemma write_clock: "specWrite (t, k) (t', k') \<Longrightarrow> k < k'"
  by (auto simp: specWrite_simps)

lemma write_stamped: "specWrite (t, k) (t', k') \<Longrightarrow> stamped k t \<Longrightarrow> 0 \<le> k \<Longrightarrow> stamped k' t'"
  by (fastforce simp: specWrite_simps stamped_def list_all_iff zeroTime_def InsertSpecObject_def UpdateSpecObject_def DeleteSpecObject_def Let_def
      split: option.splits if_splits)

section \<open>A syncer among writers\<close>

text \<open>The message carries the rows the syncer sees in the table, in some order.\<close>

definition carries :: "codecs \<Rightarrow> string \<Rightarrow> specRow list \<Rightarrow> specMessage \<Rightarrow> bool" where
  "carries c key rows m \<longleftrightarrow> sm_Destination m = Broadcast \<and> sm_ID m = key \<and> sm_MsgType m = SpecBundle \<and>
     (\<exists>rs. mset rs = mset rows \<and> marshalObjects c (fold addRow rs NewBaseObjectsBundle) = Inr (sm_Payload m))"

text \<open>The database may fail at every statement, but a result set does not end early, and it lists the rows in some order.\<close>

definition complete_answers :: "syncAnswers \<Rightarrow> bool" where
  "complete_answers a \<longleftrightarrow> (\<forall>n. ans_rows a \<noteq> LostAfter n) \<and> (\<forall>rs. mset (ans_order a rs) = mset rs)"

type_synonym syncerState = "specTable \<times> int \<times> genericDBToTransportSyncer \<times> specMessage list"

inductive syncer_step :: "(nat \<Rightarrow> int) \<Rightarrow> codecs \<Rightarrow> syncerState \<Rightarrow> syncerState \<Rightarrow> bool" for schedule c where
  wrote: "specWrite (t, k) (t', k') \<Longrightarrow> syncer_step schedule c (t, k, s, sent) (t', k', s, sent)"
| ticked: "specWrite\<^sup>*\<^sup>* (t1, k1) (t2, k2) \<Longrightarrow> specWrite\<^sup>*\<^sup>* (t2, k2) (t3, k3) \<Longrightarrow> complete_answers a \<Longrightarrow>
    syncer_tick schedule c a t1 t2 t3 s = (msgs, s') \<Longrightarrow>
    syncer_step schedule c (t1, k1, s, sent) (t3, k3, s', sent @ msgs)"

text \<open>What is kept: a table with no newer time stamp than the last sync is the one the last message carries.\<close>

fun sync_inv :: "codecs \<Rightarrow> syncerState \<Rightarrow> bool" where
  "sync_inv c (t, k, s, sent) \<longleftrightarrow> 0 \<le> k \<and> stamped k t \<and> 0 \<le> lastSyncTimestamp s \<and> lastSyncTimestamp s \<le> k \<and>
     (stamp t \<le> lastSyncTimestamp s \<longrightarrow> visible t = [] \<or> (sent \<noteq> [] \<and> carries c (syncer_key s) (visible t) (last sent)))"

lemma write_inv:
  assumes "specWrite (t, k) (t', k')" "sync_inv c (t, k, s, sent)"
  shows "sync_inv c (t', k', s, sent)"
proof -
  have k: "k < k'" and st: "stamped k' t'" and "noticed t t' k'"
    using write_clock [OF assms(1)] write_stamped [OF assms(1)] write_noticed [OF assms(1)] assms(2) by simp_all
  then consider "visible t' = visible t" | r where "r \<in> set (visible t')" "row_updated_at r = k'"
    unfolding noticed_def by blast
  then show ?thesis
  proof cases
    case 1
    with k st assms(2) stamp_cong [OF 1] show ?thesis by simp
  next
    case 2
    then have "k' \<le> stamp t'" using stamp_ge by metis
    with k st assms(2) show ?thesis by simp
  qed
qed

lemma writes_inv:
  assumes "specWrite\<^sup>*\<^sup>* x y" "sync_inv c (fst x, snd x, s, sent)"
  shows "sync_inv c (fst y, snd y, s, sent)"
  using assms by (induction rule: rtranclp_induct) (auto simp del: sync_inv.simps intro: write_inv)

text \<open>The cases of a sync: nothing is sent, or the rows of the third snapshot are, and the second one gives the time.\<close>

lemma syncObjectsBundle_cases:
  assumes "syncObjectsBundle c a key t1 t2 t3 l = (result, msgs, l')" "complete_answers a"
  obtains (idle) "result \<noteq> Inr True" "msgs = []" "l' = l"
  | (sent) m where "result = Inr True" "msgs = [m]" "carries c key (visible t3) m" "l' = stamp t2 \<or> l' = zeroTime"
proof -
  obtain gb b where gb: "GetObjectsBundle (ans_second a) (ans_rows a) (ans_order a) t2 t3 NewBaseObjectsBundle = (gb, b)"
    by (meson surj_pair)
  show thesis
  proof (cases "result = Inr True")
    case False
    with assms(1) gb have "msgs = []" "l' = l"
      by (auto simp: syncObjectsBundle_def split: sum.splits if_splits)
    with False idle show thesis by blast
  next
    case True
    with assms(1) gb obtain ts payload where ts: "gb = Inr ts" "l' = ts" "marshalObjects c b = Inr payload"
        "msgs = [\<lparr>sm_Destination = Broadcast, sm_ID = key, sm_MsgType = SpecBundle, sm_Version = formatTime c ts, sm_Payload = payload\<rparr>]"
      by (auto simp: syncObjectsBundle_def syncToTransport_def split: sum.splits if_splits)
    moreover have "b = fold addRow (ans_order a (visible t3)) NewBaseObjectsBundle" "ts = stamp t2 \<or> ts = zeroTime"
      using gb ts(1) assms(2) unfolding GetObjectsBundle_def complete_answers_def
      by (auto simp: GetLastUpdateTimestamp_def stamp_def split: sum.splits scanOutcome.splits rowsOutcome.splits)
    ultimately show thesis
      using True assms(2) by (intro sent) (auto simp: carries_def complete_answers_def)
  qed
qed

lemma tick_inv:
  assumes "specWrite\<^sup>*\<^sup>* (t1, k1) (t2, k2)" "specWrite\<^sup>*\<^sup>* (t2, k2) (t3, k3)" "complete_answers a"
    and tick: "syncer_tick schedule c a t1 t2 t3 s = (msgs, s')" and inv: "sync_inv c (t1, k1, s, sent)"
  shows "sync_inv c (t3, k3, s', sent @ msgs)"
proof -
  obtain result l' where sync: "syncObjectsBundle c a (syncer_key s) t1 t2 t3 (lastSyncTimestamp s) = (result, msgs, l')"
      and s': "lastSyncTimestamp s' = l'" "syncer_key s' = syncer_key s"
    using tick by (auto simp: syncer_tick_def syncBundle_objects_def split: prod.splits)
  have inv2: "sync_inv c (t2, k2, s, sent)" using writes_inv [OF assms(1)] inv by (simp only: fst_conv snd_conv)
  have inv3: "sync_inv c (t3, k3, s, sent)" using writes_inv [OF assms(2)] inv2 by (simp only: fst_conv snd_conv)
  have "k2 \<le> k3" using assms(2) by (induction "(t3, k3)" arbitrary: t3 k3 rule: rtranclp_induct) (auto dest: write_clock)
  from sync assms(3) show ?thesis
  proof (cases rule: syncObjectsBundle_cases)
    case idle
    with inv3 s' show ?thesis by simp
  next
    case (sent m)
    have "0 \<le> stamp t2" "stamp t2 \<le> k2" using inv2 stamp_nonneg stamp_le by auto
    with sent s' inv3 \<open>k2 \<le> k3\<close> show ?thesis by (auto simp: zeroTime_def)
  qed
qed

lemma step_inv: "syncer_step schedule c x y \<Longrightarrow> sync_inv c x \<Longrightarrow> sync_inv c y"
  by (induction rule: syncer_step.induct) (auto simp del: sync_inv.simps intro: write_inv tick_inv)

lemma step_key: "syncer_step schedule c (t, k, s, sent) (t', k', s', sent') \<Longrightarrow> syncer_key s' = syncer_key s"
  by (cases rule: syncer_step.cases) (auto simp: syncer_tick_def syncBundle_objects_def split: prod.splits)

lemma steps_inv:
  assumes "(syncer_step schedule c)\<^sup>*\<^sup>* x y" "sync_inv c x"
  shows "sync_inv c y \<and> syncer_key (fst (snd (snd y))) = syncer_key (fst (snd (snd x)))"
  using assms
proof (induction rule: rtranclp_induct)
  case (step y z)
  then show ?case using step_inv [OF step(2)] step_key [of schedule c "fst y" "fst (snd y)"] by (metis prod.collapse)
qed simp

lemma init_inv: "0 \<le> k \<Longrightarrow> stamped k t \<Longrightarrow> sync_inv c (t, k, newObjectsSyncer table key schedule, [])"
  by (auto simp: newObjectsSyncer_def zeroTime_def dest: stamp_zero)

text \<open>
  C3. However the statements of the writers and of a syncer interleave and whatever statements fail with an
  error: when the table has no newer time stamp than the last sync, what the syncer sees of it is what the
  last message carries (or there is nothing to see). No change of the table is lost. The writers are the
  controllers, which write objects that are not local resources with a clock that goes on, and no result
  set ends early without an error: that case is in \<open>truncated_read_undetected\<close>.
\<close>

theorem last_message_current:
  assumes "(syncer_step schedule c)\<^sup>*\<^sup>* (t0, k0, newObjectsSyncer table key schedule, []) (t, k, s, sent)"
    and "0 \<le> k0" and "stamped k0 t0" and "stamp t \<le> lastSyncTimestamp s"
  shows "visible t = [] \<or> (sent \<noteq> [] \<and> carries c key (visible t) (last sent))"
  using steps_inv [OF assms(1) init_inv [OF assms(2,3)]] assms(4) by (auto simp: newObjectsSyncer_def)

definition okAnswers :: syncAnswers where
  "okAnswers = \<lparr>ans_first = ScanOK, ans_second = ScanOK, ans_rows = AllRows, ans_order = (\<lambda>rs. rs)\<rparr>"

definition sampleCodecs :: codecs where
  "sampleCodecs = \<lparr>marshalObjects = (\<lambda>b. Inr (replicate (length (bob_Objects b)) 1 @ replicate (length (bob_DeletedObjects b)) 2)), formatTime = (\<lambda>t. ''time'')\<rparr>"

lemma okAnswers_complete: "complete_answers okAnswers"
  by (simp add: complete_answers_def okAnswers_def)

definition sampleMessage :: specMessage where
  "sampleMessage = \<lparr>sm_Destination = '''', sm_ID = ''Policies'', sm_MsgType = SpecBundle, sm_Version = ''time'', sm_Payload = [1]\<rparr>"

lemma sampleTable_visible: "visible sampleTable = spec_rows sampleTable"
  by (simp add: visible_def localResource_def sampleTable_def storedPolicy_def samplePolicy_def)

lemma sampleTable_stamp: "stamp sampleTable = 3"
  by (simp add: stamp_def spec_stamps_def sampleTable_visible) (simp add: sampleTable_def)

lemma sample_sync:
  "syncObjectsBundle sampleCodecs okAnswers ''Policies'' sampleTable sampleTable sampleTable 0 = (Inr True, [sampleMessage], 3)"
  by (simp add: syncObjectsBundle_def okAnswers_def GetObjectsBundle_def sampleTable_stamp sampleTable_visible)
    (simp add: sampleTable_def addRow_def AddObject_def NewBaseObjectsBundle_def syncToTransport_def sampleCodecs_def sampleMessage_def Broadcast_def)

lemma sample_tick:
  "syncer_tick (\<lambda>_. 5) sampleCodecs okAnswers sampleTable sampleTable sampleTable (newObjectsSyncer ''policies'' ''Policies'' (\<lambda>_. 5)) =
     ([sampleMessage], (newObjectsSyncer ''policies'' ''Policies'' (\<lambda>_. 5))\<lparr>lastSyncTimestamp := 3,
        syncer_policy := fst (periodicSync_tick (\<lambda>_. 5) (Inr True) (NewExponentialBackoffPolicy (\<lambda>_. 5)))\<rparr>)"
  using sample_sync by (simp add: syncer_tick_def syncBundle_objects_def newObjectsSyncer_def zeroTime_def)

theorem last_message_current_witness:
  "visible sampleTable = [] \<or> ([sampleMessage] \<noteq> [] \<and> carries sampleCodecs ''Policies'' (visible sampleTable) (last [sampleMessage]))"
proof -
  let ?s = "newObjectsSyncer ''policies'' ''Policies'' (\<lambda>_. 5)"
  have "syncer_step (\<lambda>_. 5) sampleCodecs (sampleTable, 3, ?s, []) (sampleTable, 3, snd (syncer_tick (\<lambda>_. 5) sampleCodecs okAnswers sampleTable sampleTable sampleTable ?s), [] @ [sampleMessage])"
    by (rule ticked [OF rtranclp.rtrancl_refl rtranclp.rtrancl_refl okAnswers_complete]) (simp add: sample_tick)
  then have "(syncer_step (\<lambda>_. 5) sampleCodecs)\<^sup>*\<^sup>* (sampleTable, 3, ?s, []) (sampleTable, 3, snd (syncer_tick (\<lambda>_. 5) sampleCodecs okAnswers sampleTable sampleTable sampleTable ?s), [sampleMessage])"
    by simp
  from last_message_current [OF this] show ?thesis
    by (simp add: sample_tick sampleTable_stamp) (simp add: stamped_def sampleTable_def zeroTime_def)
qed

text \<open>
  C4. Once the writers pause, one sync without a failure is enough: it sends the table unless the last
  message already carries it, and leaves the syncer with the time stamp of the table, provided that no
  result set before it ended early without an error, and that the writers were the controllers.
\<close>

theorem sync_converges:
  assumes "(syncer_step schedule c)\<^sup>*\<^sup>* (t0, k0, newObjectsSyncer table key schedule, []) (t, k, s, sent)"
    and "0 \<le> k0" and "stamped k0 t0"
    and "ans_first a = ScanOK" and "ans_second a = ScanOK" and "ans_rows a = AllRows" and "complete_answers a"
    and "\<exists>bytes. marshalObjects c (fold addRow (ans_order a (visible t)) NewBaseObjectsBundle) = Inr bytes"
    and "syncer_tick schedule c a t t t s = (msgs, s')"
  shows "stamp t \<le> lastSyncTimestamp s' \<and> (visible t = [] \<or> (sent @ msgs \<noteq> [] \<and> carries c key (visible t) (last (sent @ msgs))))"
proof -
  have inv: "sync_inv c (t, k, s, sent)" and key: "syncer_key s = key"
    using steps_inv [OF assms(1) init_inv [OF assms(2,3)]] by (simp_all add: newObjectsSyncer_def del: sync_inv.simps)
  have "sync_inv c (t, k, s', sent @ msgs)"
    by (rule tick_inv [OF rtranclp.rtrancl_refl rtranclp.rtrancl_refl assms(7,9) inv])
  moreover have "stamp t \<le> lastSyncTimestamp s'" "syncer_key s' = key"
    using assms(4-6,8,9) key
    by (auto simp: syncer_tick_def syncBundle_objects_def syncObjectsBundle_def GetObjectsBundle_def syncToTransport_def split: prod.splits if_splits sum.splits)
  ultimately show ?thesis by simp
qed

theorem sync_converges_witness:
  "stamp sampleTable \<le> lastSyncTimestamp (snd (syncer_tick (\<lambda>_. 5) sampleCodecs okAnswers sampleTable sampleTable sampleTable (newObjectsSyncer ''policies'' ''Policies'' (\<lambda>_. 5)))) \<and>
   (visible sampleTable = [] \<or> ([] @ [sampleMessage] \<noteq> [] \<and> carries sampleCodecs ''Policies'' (visible sampleTable) (last ([] @ [sampleMessage]))))"
  by (rule sync_converges [OF rtranclp.rtrancl_refl, where k = 3 and a = okAnswers and schedule = "\<lambda>_. 5" and table = "''policies''"])
    (simp_all add: okAnswers_complete sample_tick, simp_all add: stamped_def sampleTable_def zeroTime_def okAnswers_def sampleCodecs_def)

text \<open>
  A result set that ends early is taken for the whole table: the rows read so far are sent as the
  bundle, the sync reports success and stores the time stamp of the table, and as long as nobody writes
  no later sync sends the rows that are missing.
\<close>

theorem truncated_read_undetected:
  assumes "lastSync < stamp t" and "ans_first a = ScanOK" and "ans_second a = ScanOK" and "ans_rows a = LostAfter n"
    and "marshalObjects c (fold addRow (take n (ans_order a (visible t))) NewBaseObjectsBundle) = Inr bytes"
    and "ans_first a' = ScanOK"
  shows "(case syncObjectsBundle c a key t t t lastSync of
      (result, msgs, lastSync') \<Rightarrow> result = Inr True \<and> map sm_Payload msgs = [bytes] \<and> lastSync' = stamp t \<and>
        syncObjectsBundle c a' key t t t lastSync' = (Inr False, [], lastSync'))"
  using assms by (simp add: syncObjectsBundle_def GetObjectsBundle_def syncToTransport_def)

theorem truncated_read_undetected_witness:
  "(case syncObjectsBundle sampleCodecs (okAnswers\<lparr>ans_rows := LostAfter 0\<rparr>) ''Policies'' sampleTable sampleTable sampleTable 0 of
      (result, msgs, lastSync') \<Rightarrow> result = Inr True \<and> map sm_Payload msgs = [[]] \<and> lastSync' = stamp sampleTable \<and>
        syncObjectsBundle sampleCodecs okAnswers ''Policies'' sampleTable sampleTable sampleTable lastSync' = (Inr False, [], lastSync'))"
  by (rule truncated_read_undetected [where n = 0])
    (simp_all add: okAnswers_def sampleTable_stamp sampleCodecs_def NewBaseObjectsBundle_def)

text \<open>A failed look at the time stamps is not reported either: it reads as the zero time, and the sync as one with nothing to send.\<close>

lemma failed_timestamp_hidden:
  "0 \<le> lastSync \<Longrightarrow> ans_first a = ScanFailed err \<Longrightarrow> syncObjectsBundle c a key t1 t2 t3 lastSync = (Inr False, [], lastSync)"
  by (simp add: syncObjectsBundle_def GetLastUpdateTimestamp_def zeroTime_def)

section \<open>The interval policy\<close>

lemma policy_Evaluate_iterate:
  "(policy_Evaluate schedule ^^ n) (NewExponentialBackoffPolicy schedule) =
     \<lparr>backoffCalls = Suc (n div 3), pol_interval = schedule (n div 3), consecutiveEvaluationsCount = n mod 3\<rparr>"
proof (induction n)
  case (Suc n)
  then show ?case
    by (cases "Suc (n mod 3) = 3") (simp_all add: policy_Evaluate_def consecutiveEvaluationsBeforeNextBackoff_def div_Suc mod_Suc)
qed (simp add: NewExponentialBackoffPolicy_def)

text \<open>
  The interval backs off at every third sync in a row that was performed, and a sync with nothing to
  send, or a failed one, brings it back to the first: after \<open>n\<close> performed syncs the interval is the one
  the library yields for step \<open>n div 3\<close>, from whatever state the last reset left.
\<close>

theorem interval_after_syncs:
  assumes "result \<noteq> Inr True"
  shows "pol_interval (((\<lambda>pol. fst (periodicSync_tick schedule (Inr True) pol)) ^^ n) (fst (periodicSync_tick schedule result pol))) =
    schedule (n div consecutiveEvaluationsBeforeNextBackoff)"
proof -
  have "(\<lambda>pol. fst (periodicSync_tick schedule (Inr True) pol)) = policy_Evaluate schedule"
    by (simp add: periodicSync_tick_def Let_def fun_eq_iff)
  moreover have "fst (periodicSync_tick schedule result pol) = NewExponentialBackoffPolicy schedule"
    using assms by (simp add: periodicSync_tick_def Let_def policy_Reset_def NewExponentialBackoffPolicy_def)
  ultimately show ?thesis by (simp add: policy_Evaluate_iterate consecutiveEvaluationsBeforeNextBackoff_def)
qed

theorem interval_after_syncs_witness:
  "pol_interval (((\<lambda>pol. fst (periodicSync_tick (\<lambda>k. 5 * 2 ^ k) (Inr True) pol)) ^^ 7)
     (fst (periodicSync_tick (\<lambda>k. 5 * 2 ^ k) (Inr False) (NewExponentialBackoffPolicy (\<lambda>k. 5 * 2 ^ k))))) = 20"
  using interval_after_syncs [where result = "Inr False" and schedule = "\<lambda>k. 5 * 2 ^ k" and n = 7 and pol = "NewExponentialBackoffPolicy (\<lambda>k. 5 * 2 ^ k)"]
  by (simp add: consecutiveEvaluationsBeforeNextBackoff_def)

end
