(* ===== verification/GH_SpecLabels.thy ===== *)
theory GH_SpecLabels
  imports GH_SpecSync
begin

text \<open>
  The managed cluster labels on the manager: the table \<open>spec.managed_clusters_labels\<close>, the bundles per
  leaf hub that are sent from it, and the watcher that trims the keys of deleted labels once they are
  gone from the status and fills in missing hub names
  (\<open>db2transport/db/postgresql\<close>, \<open>db2transport/syncer/dbsyncer\<close>, \<open>db2transport/syncer/statuswatcher\<close>).

  Updates use optimistic concurrency on the column \<open>version\<close>, a 64-bit integer with the constraint that
  it is not negative. The table is unique on hub and cluster.
\<close>

section \<open>The table\<close>

type_synonym int64 = "64 word"

record labelsRow =
  lr_leafHub :: string
  lr_cluster :: string
  lr_labels :: "(string, string) gomap"
  lr_deletedKeys :: "string list"
  lr_updated_at :: int
  lr_version :: int64

record ManagedClusterLabelsSpec =
  ml_ClusterName :: string
  ml_Labels :: "(string, string) gomap"
  ml_DeletedLabelKeys :: "string list"
  ml_UpdateTimestamp :: int
  ml_Version :: int64

record ManagedClusterLabelsSpecBundle =
  mlb_Objects :: "ManagedClusterLabelsSpec list"
  mlb_LeafHubName :: string

text \<open>Reading a result set row by row; a lost connection ends it early.\<close>

definition readRows :: "rowsOutcome \<Rightarrow> 'r list \<Rightarrow> dbError + 'r list" where
  "readRows ro rows =
     (case ro of
        AllRows \<Rightarrow> Inr rows
      | LostAfter n \<Rightarrow> Inr (take n rows)
      | QueryError err \<Rightarrow> Inl (DBFailure err)
      | ScanError err \<Rightarrow> Inl (DBFailure err))"

text \<open>The bundle of a hub is created at its first row.\<close>

definition appendEntry :: "string \<Rightarrow> ManagedClusterLabelsSpec \<Rightarrow> (string, ManagedClusterLabelsSpecBundle) gomap \<Rightarrow> (string, ManagedClusterLabelsSpecBundle) gomap" where
  "appendEntry leafHubName entry m =
     (let b = (case map_of m leafHubName of None \<Rightarrow> \<lparr>mlb_Objects = [], mlb_LeafHubName = leafHubName\<rparr> | Some b \<Rightarrow> b) in
      AList.update leafHubName (b\<lparr>mlb_Objects := mlb_Objects b @ [entry]\<rparr>) m)"

definition entryOf :: "labelsRow \<Rightarrow> ManagedClusterLabelsSpec" where
  "entryOf r = \<lparr>ml_ClusterName = lr_cluster r, ml_Labels = lr_labels r, ml_DeletedLabelKeys = lr_deletedKeys r,
                ml_UpdateTimestamp = lr_updated_at r, ml_Version = lr_version r\<rparr>"

text \<open>The condition of the query: the hub has a row newer than the time stamp, and the row has a hub.\<close>

definition hubUpdated :: "int \<Rightarrow> labelsRow list \<Rightarrow> labelsRow \<Rightarrow> bool" where
  "hubUpdated timestamp rows r \<longleftrightarrow>
     list_ex (\<lambda>r'. lr_leafHub r' = lr_leafHub r \<and> timestamp < lr_updated_at r') rows \<and> lr_leafHub r \<noteq> ''''"

definition GetUpdatedManagedClusterLabelsBundles :: "rowsOutcome \<Rightarrow> (labelsRow list \<Rightarrow> labelsRow list) \<Rightarrow> labelsRow list \<Rightarrow> int
    \<Rightarrow> dbError + (string, ManagedClusterLabelsSpecBundle) gomap" where
  "GetUpdatedManagedClusterLabelsBundles ro ord rows timestamp =
     (case readRows ro (ord (filter (hubUpdated timestamp rows) rows)) of
        Inl err \<Rightarrow> Inl err
      | Inr rs \<Rightarrow> Inr (fold (\<lambda>r. appendEntry (lr_leafHub r) (entryOf r)) rs []))"

text \<open>The other query reads neither the labels nor the time stamp.\<close>

definition GetEntriesWithDeletedLabels :: "rowsOutcome \<Rightarrow> (labelsRow list \<Rightarrow> labelsRow list) \<Rightarrow> labelsRow list
    \<Rightarrow> dbError + (string, ManagedClusterLabelsSpecBundle) gomap" where
  "GetEntriesWithDeletedLabels ro ord rows =
     (case readRows ro (ord (filter (\<lambda>r. lr_deletedKeys r \<noteq> [] \<and> lr_leafHub r \<noteq> '''') rows)) of
        Inl err \<Rightarrow> Inl err
      | Inr rs \<Rightarrow> Inr (fold (\<lambda>r. appendEntry (lr_leafHub r)
                 \<lparr>ml_ClusterName = lr_cluster r, ml_Labels = [], ml_DeletedLabelKeys = lr_deletedKeys r,
                  ml_UpdateTimestamp = zeroTime, ml_Version = lr_version r\<rparr>) rs []))"

datatype updateError = UpdateFailure string | CheckViolation | LabelsUniqueViolation | OptimisticConcurrencyUpdateFailed

text \<open>
  An update of the rows that satisfy \<open>P\<close>: a new version below zero violates the constraint of the
  column, two rows of one hub and cluster that of the index, and no row at all is reported by the
  number of rows affected.
\<close>

definition updateWhere :: "string option \<Rightarrow> int64 \<Rightarrow> (labelsRow \<Rightarrow> bool) \<Rightarrow> (labelsRow \<Rightarrow> labelsRow) \<Rightarrow> labelsRow list \<Rightarrow> updateError option \<times> labelsRow list" where
  "updateWhere failure newVersion P f rows =
     (case failure of
        Some err \<Rightarrow> (Some (UpdateFailure err), rows)
      | None \<Rightarrow>
          let rows' = map (\<lambda>r. if P r then f r else r) rows in
          if \<not> list_ex P rows then (Some OptimisticConcurrencyUpdateFailed, rows)
          else if newVersion <s 0 then (Some CheckViolation, rows)
          else if \<not> distinct (map (\<lambda>r. (lr_leafHub r, lr_cluster r)) rows') then (Some LabelsUniqueViolation, rows)
          else (None, rows'))"

definition UpdateDeletedLabelKeys :: "string option \<Rightarrow> int \<Rightarrow> int64 \<Rightarrow> string \<Rightarrow> string \<Rightarrow> string list \<Rightarrow> labelsRow list \<Rightarrow> updateError option \<times> labelsRow list" where
  "UpdateDeletedLabelKeys failure now readVersion leafHubName managedClusterName deletedLabelKeys rows =
     updateWhere failure (readVersion + 1)
       (\<lambda>r. lr_leafHub r = leafHubName \<and> lr_cluster r = managedClusterName \<and> lr_version r = readVersion)
       (\<lambda>r. r\<lparr>lr_updated_at := now, lr_deletedKeys := deletedLabelKeys, lr_version := readVersion + 1\<rparr>) rows"

definition GetEntriesWithoutLeafHubName :: "rowsOutcome \<Rightarrow> (labelsRow list \<Rightarrow> labelsRow list) \<Rightarrow> labelsRow list \<Rightarrow> dbError + ManagedClusterLabelsSpec list" where
  "GetEntriesWithoutLeafHubName ro ord rows =
     (case readRows ro (ord (filter (\<lambda>r. lr_leafHub r = '''') rows)) of
        Inl err \<Rightarrow> Inl err
      | Inr rs \<Rightarrow> Inr (map (\<lambda>r. \<lparr>ml_ClusterName = lr_cluster r, ml_Labels = [], ml_DeletedLabelKeys = [],
                               ml_UpdateTimestamp = zeroTime, ml_Version = lr_version r\<rparr>) rs))"

definition UpdateLeafHubName :: "string option \<Rightarrow> int \<Rightarrow> int64 \<Rightarrow> string \<Rightarrow> string \<Rightarrow> labelsRow list \<Rightarrow> updateError option \<times> labelsRow list" where
  "UpdateLeafHubName failure now readVersion managedClusterName leafHubName rows =
     updateWhere failure (readVersion + 1)
       (\<lambda>r. lr_cluster r = managedClusterName \<and> lr_version r = readVersion)
       (\<lambda>r. r\<lparr>lr_updated_at := now, lr_leafHub := leafHubName, lr_version := readVersion + 1\<rparr>) rows"

text \<open>A row of \<open>status.managed_clusters\<close>: the hub, and the name and labels in the payload; the labels may be absent, which scans to a nil map.\<close>

type_synonym statusRow = "string \<times> string \<times> (string, string) gomap option"

definition GetManagedClusterLabelsStatus :: "string option \<Rightarrow> statusRow list \<Rightarrow> string \<Rightarrow> string \<Rightarrow> dbError + (string, string) gomap" where
  "GetManagedClusterLabelsStatus failure rows leafHubName managedClusterName =
     (case failure of
        Some err \<Rightarrow> Inl (DBFailure err)
      | None \<Rightarrow> (case filter (\<lambda>(h, n, ls). h = leafHubName \<and> n = managedClusterName) rows of
                  [] \<Rightarrow> Inl ErrNoRows
                | (h, n, ls) # _ \<Rightarrow> (case ls of None \<Rightarrow> Inr [] | Some labels \<Rightarrow> Inr labels)))"

definition GetManagedClusterLeafHubName :: "string option \<Rightarrow> statusRow list \<Rightarrow> string \<Rightarrow> dbError + string" where
  "GetManagedClusterLeafHubName failure rows managedClusterName =
     (case failure of
        Some err \<Rightarrow> Inl (DBFailure err)
      | None \<Rightarrow> (case filter (\<lambda>(h, n, ls). n = managedClusterName) rows of
                  [] \<Rightarrow> Inl ErrNoRows
                | (h, n, ls) # _ \<Rightarrow> Inr h))"

section \<open>The syncer\<close>

record labelsAnswers =
  la_first :: scanOutcome
  la_rows :: rowsOutcome
  la_order :: "labelsRow list \<Rightarrow> labelsRow list"
  la_range :: "string list \<Rightarrow> string list"

text \<open>The loop over the bundles stops at the first that does not encode; the messages before it are sent.\<close>

fun sendBundles :: "(ManagedClusterLabelsSpecBundle \<Rightarrow> string + byte list) \<Rightarrow> (int \<Rightarrow> string) \<Rightarrow> string \<Rightarrow> int
    \<Rightarrow> (string \<times> ManagedClusterLabelsSpecBundle) list \<Rightarrow> string option \<times> specMessage list" where
  "sendBundles marshal fmt key timestamp [] = (None, [])"
| "sendBundles marshal fmt key timestamp ((leafHubName, b) # bs) =
     (case syncToTransport fmt leafHubName key timestamp (marshal b) of
        Inl err \<Rightarrow> (Some err, [])
      | Inr m \<Rightarrow> (case sendBundles marshal fmt key timestamp bs of (e, ms) \<Rightarrow> (e, m # ms)))"

definition rangeOver :: "(string list \<Rightarrow> string list) \<Rightarrow> (string, 'b) gomap \<Rightarrow> (string \<times> 'b) list" where
  "rangeOver ord m = concat (map (\<lambda>h. case map_of m h of None \<Rightarrow> [] | Some b \<Rightarrow> [(h, b)]) (ord (map fst m)))"

definition syncManagedClusterLabelsBundles :: "(ManagedClusterLabelsSpecBundle \<Rightarrow> string + byte list) \<Rightarrow> (int \<Rightarrow> string) \<Rightarrow> labelsAnswers \<Rightarrow> string
    \<Rightarrow> labelsRow list \<Rightarrow> labelsRow list \<Rightarrow> int \<Rightarrow> (syncError + bool) \<times> specMessage list \<times> int" where
  "syncManagedClusterLabelsBundles marshal fmt a key t1 t2 lastSync =
     (case GetLastUpdateTimestamp (la_first a) (map lr_updated_at t1) of
        Inl err \<Rightarrow> (Inl (SyncDB err), [], lastSync)
      | Inr lastUpdate \<Rightarrow>
          if \<not> lastSync < lastUpdate then (Inr False, [], lastSync)
          else (case GetUpdatedManagedClusterLabelsBundles (la_rows a) (la_order a) t2 lastSync of
                  Inl err \<Rightarrow> (Inl (SyncDB err), [], lastSync)
                | Inr m \<Rightarrow>
                    (case sendBundles marshal fmt key lastUpdate (rangeOver (la_range a) m) of
                       (Some err, msgs) \<Rightarrow> (Inl (SyncMarshal err), msgs, lastSync)
                     | (None, msgs) \<Rightarrow> (Inr True, msgs, lastUpdate))))"

section \<open>The status watcher\<close>

text \<open>What the databases answer to a pass of the watcher; the time of an update is that of its statement.\<close>

record watcherAnswers =
  wa_rows :: rowsOutcome
  wa_order :: "labelsRow list \<Rightarrow> labelsRow list"
  wa_range :: "string list \<Rightarrow> string list"
  wa_status :: "string \<Rightarrow> string \<Rightarrow> string option"
  wa_update :: "string \<Rightarrow> string \<Rightarrow> string option"
  wa_now :: int

definition trimEntry :: "watcherAnswers \<Rightarrow> statusRow list \<Rightarrow> string \<Rightarrow> ManagedClusterLabelsSpec \<Rightarrow> bool \<times> labelsRow list \<Rightarrow> bool \<times> labelsRow list" where
  "trimEntry a status leafHubName entry = (\<lambda>(result, rows).
     case GetManagedClusterLabelsStatus (wa_status a leafHubName (ml_ClusterName entry)) status leafHubName (ml_ClusterName entry) of
       Inl err \<Rightarrow> (False, rows)
     | Inr labelsStatus \<Rightarrow>
         let deletedLabelKeysStillInStatus = filter (\<lambda>key. map_of labelsStatus key \<noteq> None) (ml_DeletedLabelKeys entry) in
         if length deletedLabelKeysStillInStatus = length (ml_DeletedLabelKeys entry) then (result, rows)
         else (case UpdateDeletedLabelKeys (wa_update a leafHubName (ml_ClusterName entry)) (wa_now a) (ml_Version entry) leafHubName
                      (ml_ClusterName entry) deletedLabelKeysStillInStatus rows of
                 (Some err, rows') \<Rightarrow> (False, rows')
               | (None, rows') \<Rightarrow> (result, rows')))"

definition trimBundle :: "watcherAnswers \<Rightarrow> statusRow list \<Rightarrow> string \<times> ManagedClusterLabelsSpecBundle \<Rightarrow> bool \<times> labelsRow list \<Rightarrow> bool \<times> labelsRow list" where
  "trimBundle a status hb = fold (trimEntry a status (mlb_LeafHubName (snd hb))) (mlb_Objects (snd hb))"

text \<open>The entries are read in \<open>t1\<close>, and the updates find \<open>t2\<close>, which others may have written meanwhile.\<close>

definition trimDeletedLabelsByStatus :: "watcherAnswers \<Rightarrow> statusRow list \<Rightarrow> labelsRow list \<Rightarrow> labelsRow list \<Rightarrow> bool \<times> labelsRow list" where
  "trimDeletedLabelsByStatus a status t1 t2 =
     (case GetEntriesWithDeletedLabels (wa_rows a) (wa_order a) t1 of
        Inl err \<Rightarrow> (False, t2)
      | Inr m \<Rightarrow> fold (trimBundle a status) (rangeOver (wa_range a) m) (True, t2))"

definition fillEntry :: "watcherAnswers \<Rightarrow> statusRow list \<Rightarrow> ManagedClusterLabelsSpec \<Rightarrow> labelsRow list \<Rightarrow> labelsRow list" where
  "fillEntry a status entry rows =
     (case GetManagedClusterLeafHubName (wa_status a '''' (ml_ClusterName entry)) status (ml_ClusterName entry) of
        Inl err \<Rightarrow> rows
      | Inr leafHubName \<Rightarrow> snd (UpdateLeafHubName (wa_update a '''' (ml_ClusterName entry)) (wa_now a) (ml_Version entry) (ml_ClusterName entry) leafHubName rows))"

definition fillMissingLeafHubNames :: "watcherAnswers \<Rightarrow> statusRow list \<Rightarrow> labelsRow list \<Rightarrow> labelsRow list \<Rightarrow> labelsRow list" where
  "fillMissingLeafHubNames a status t1 t2 =
     (case GetEntriesWithoutLeafHubName (wa_rows a) (wa_order a) t1 of
        Inl err \<Rightarrow> t2
      | Inr entries \<Rightarrow> fold (fillEntry a status) entries t2)"

text \<open>A tick of the trimmer tells the interval policy whether the pass had no failure.\<close>

definition trimmer_tick :: "(nat \<Rightarrow> int) \<Rightarrow> bool \<Rightarrow> exponentialBackoffPolicy \<Rightarrow> exponentialBackoffPolicy \<times> int option" where
  "trimmer_tick schedule trimmed pol =
     (let pol' = if trimmed then policy_Evaluate schedule pol else policy_Reset schedule pol in
      (pol', if pol_interval pol = pol_interval pol' then None else Some (pol_interval pol')))"

end
