(* ===== verification/GH_SpecLabelsProps.thy ===== *)
theory GH_SpecLabelsProps
  imports GH_SpecLabels GH_SpecSyncProps
begin

text \<open>
  What holds of the managed cluster labels on the manager: which hubs get which bundles, that the
  constraints of the table are kept, and that trimming never overwrites what another writer stored.
\<close>

section \<open>Bundles per leaf hub\<close>

lemma appendEntry_lookup:
  "map_of (appendEntry h e m) h' =
     (if h' = h then Some (case map_of m h of None \<Rightarrow> \<lparr>mlb_Objects = [e], mlb_LeafHubName = h\<rparr> | Some b \<Rightarrow> b\<lparr>mlb_Objects := mlb_Objects b @ [e]\<rparr>)
      else map_of m h')"
  by (auto simp: appendEntry_def Let_def map_of_update split: option.splits)

lemma group_rows:
  "map_of (fold (\<lambda>r. appendEntry (lr_leafHub r) (f r)) rs m) h =
     (case filter (\<lambda>r. lr_leafHub r = h) rs of
        [] \<Rightarrow> map_of m h
      | rs' \<Rightarrow> Some (case map_of m h of None \<Rightarrow> \<lparr>mlb_Objects = map f rs', mlb_LeafHubName = h\<rparr>
                    | Some b \<Rightarrow> b\<lparr>mlb_Objects := mlb_Objects b @ map f rs'\<rparr>))"
  by (induction rs arbitrary: m) (auto simp: appendEntry_lookup split: list.splits option.splits)

lemma group_rows_empty:
  "map_of (fold (\<lambda>r. appendEntry (lr_leafHub r) (f r)) rs []) h =
     (if filter (\<lambda>r. lr_leafHub r = h) rs = [] then None else Some \<lparr>mlb_Objects = map f (filter (\<lambda>r. lr_leafHub r = h) rs), mlb_LeafHubName = h\<rparr>)"
  by (auto simp: group_rows split: list.splits)

text \<open>A hub has news when one of its rows is newer than the time stamp.\<close>

definition hub_has_news :: "int \<Rightarrow> labelsRow list \<Rightarrow> string \<Rightarrow> bool" where
  "hub_has_news timestamp rows h \<longleftrightarrow> h \<noteq> '''' \<and> list_ex (\<lambda>r. lr_leafHub r = h \<and> timestamp < lr_updated_at r) rows"

lemma filter_hubUpdated:
  "filter (\<lambda>r. lr_leafHub r = h) (filter (hubUpdated ts rows) rows) = (if hub_has_news ts rows h then filter (\<lambda>r. lr_leafHub r = h) rows else [])"
proof -
  have "filter (\<lambda>r. lr_leafHub r = h) (filter (hubUpdated ts rows) rs) = filter (\<lambda>r. lr_leafHub r = h \<and> hub_has_news ts rows h) rs" for rs
    unfolding filter_filter by (rule filter_cong) (auto simp: hubUpdated_def hub_has_news_def list_ex_iff)
  then show ?thesis by simp
qed

text \<open>
  The bundles read for a sync are those of the hubs with news, and of a hub with news every row is in
  its bundle, also the rows that did not change: the agent, which keeps the latest bundle only, never
  loses an entry.
\<close>

lemma labels_bundles_ex:
  assumes "\<And>rs. mset (ord rs) = mset rs"
  shows "\<exists>m. GetUpdatedManagedClusterLabelsBundles AllRows ord rows ts = Inr m \<and>
    (\<forall>h. case map_of m h of
        None \<Rightarrow> \<not> hub_has_news ts rows h
      | Some b \<Rightarrow> hub_has_news ts rows h \<and> mlb_LeafHubName b = h \<and>
          mset (mlb_Objects b) = mset (map entryOf (filter (\<lambda>r. lr_leafHub r = h) rows)))"
proof -
  let ?rs = "ord (filter (hubUpdated ts rows) rows)"
  have hub: "mset (filter (\<lambda>r. lr_leafHub r = h) ?rs) = mset (if hub_has_news ts rows h then filter (\<lambda>r. lr_leafHub r = h) rows else [])" for h
    unfolding filter_hubUpdated [symmetric] by (simp only: mset_filter assms)
  have news: "hub_has_news ts rows h \<Longrightarrow> filter (\<lambda>r. lr_leafHub r = h) rows \<noteq> []" for h
    by (auto simp: hub_has_news_def list_ex_iff filter_empty_conv)
  have "case map_of (fold (\<lambda>r. appendEntry (lr_leafHub r) (entryOf r)) ?rs []) h of
        None \<Rightarrow> \<not> hub_has_news ts rows h
      | Some b \<Rightarrow> hub_has_news ts rows h \<and> mlb_LeafHubName b = h \<and>
          mset (mlb_Objects b) = mset (map entryOf (filter (\<lambda>r. lr_leafHub r = h) rows))" for h
  proof (cases "hub_has_news ts rows h")
    case True
    with hub [of h] have "mset (filter (\<lambda>r. lr_leafHub r = h) ?rs) = mset (filter (\<lambda>r. lr_leafHub r = h) rows)" by simp
    moreover from this news [OF True] have "filter (\<lambda>r. lr_leafHub r = h) ?rs \<noteq> []" by (metis mset_zero_iff)
    ultimately show ?thesis using True by (simp add: group_rows_empty)
  next
    case False
    with hub [of h] have "filter (\<lambda>r. lr_leafHub r = h) ?rs = []" by simp
    with False show ?thesis by (simp add: group_rows_empty)
  qed
  then show ?thesis by (simp add: GetUpdatedManagedClusterLabelsBundles_def readRows_def)
qed

definition sampleRows :: "labelsRow list" where
  "sampleRows =
     [\<lparr>lr_leafHub = ''h1'', lr_cluster = ''c1'', lr_labels = [(''env'', ''dev'')], lr_deletedKeys = [''old'', ''gone''], lr_updated_at = 5, lr_version = 2\<rparr>,
      \<lparr>lr_leafHub = ''h1'', lr_cluster = ''c2'', lr_labels = [], lr_deletedKeys = [], lr_updated_at = 1, lr_version = 0\<rparr>,
      \<lparr>lr_leafHub = '''', lr_cluster = ''c3'', lr_labels = [], lr_deletedKeys = [], lr_updated_at = 6, lr_version = 0\<rparr>]"

lemma sendBundles_ok:
  "(\<And>b. \<exists>bytes. marshal b = Inr bytes) \<Longrightarrow> \<exists>msgs. sendBundles marshal fmt key ts bs = (None, msgs) \<and>
     list_all2 (\<lambda>(h, b) m. sm_Destination m = h \<and> sm_ID m = key \<and> marshal b = Inr (sm_Payload m)) bs msgs"
proof (induction bs)
  case (Cons hb bs)
  obtain h b where hb: "hb = (h, b)" by (cases hb)
  obtain bytes where "marshal b = Inr bytes" using Cons.prems by blast
  with Cons hb show ?case by (auto simp: syncToTransport_def)
qed simp

lemma rangeOver_keys:
  assumes "\<And>ks. mset (ord ks) = mset ks"
  shows "map fst (rangeOver ord m) = ord (map fst m)" and "\<And>h b. (h, b) \<in> set (rangeOver ord m) \<longleftrightarrow> map_of m h = Some b"
proof -
  have keys: "set (ord (map fst m)) = set (map fst m)" by (metis assms set_mset_mset)
  have "map fst (concat (map (\<lambda>h. case map_of m h of None \<Rightarrow> [] | Some b \<Rightarrow> [(h, b)]) hs)) = hs" if "set hs \<subseteq> set (map fst m)" for hs
    using that
  proof (induction hs)
    case (Cons h hs)
    then obtain b where "map_of m h = Some b" by (metis list.set_intros(1) list.set_map map_of_eq_None_iff not_None_eq subsetD)
    with Cons show ?case by simp
  qed simp
  from this [of "ord (map fst m)"] keys show "map fst (rangeOver ord m) = ord (map fst m)" unfolding rangeOver_def by blast
  show "(h, b) \<in> set (rangeOver ord m) \<longleftrightarrow> map_of m h = Some b" for h b
  proof -
    have "(h, b) \<in> set (rangeOver ord m) \<longleftrightarrow> h \<in> set (ord (map fst m)) \<and> map_of m h = Some b"
      by (auto simp: rangeOver_def split: option.splits)
    then show ?thesis unfolding keys by (metis domI dom_map_of_conv_image_fst list.set_map)
  qed
qed

lemma appendEntry_distinct: "distinct (map fst m) \<Longrightarrow> distinct (map fst (appendEntry h e m))"
  by (simp add: appendEntry_def Let_def distinct_update)

lemma group_distinct: "distinct (map fst m) \<Longrightarrow> distinct (map fst (fold (\<lambda>r. appendEntry (lr_leafHub r) (f r)) rs m))"
  by (induction rs arbitrary: m) (simp_all add: appendEntry_distinct)

text \<open>
  A sync of the labels that finds a change sends one message to each hub with news since the last sync,
  addressed to that hub, and none to any other, and remembers the time stamp it looked up first: a row
  written after that look is newer, and its hub is served again by the next sync.
\<close>

theorem labels_sync_destinations:
  assumes "la_first a = ScanOK" and "la_rows a = AllRows"
    and "\<And>rs. mset (la_order a rs) = mset rs" and "\<And>hs. mset (la_range a hs) = mset hs"
    and "\<And>b. \<exists>bytes. marshal b = Inr bytes"
    and "maxStamp (map lr_updated_at t1) = Some s1" and "lastSync < s1"
  shows "\<exists>msgs. syncManagedClusterLabelsBundles marshal fmt a key t1 t2 lastSync = (Inr True, msgs, s1) \<and>
    distinct (map sm_Destination msgs) \<and> set (map sm_Destination msgs) = {h. hub_has_news lastSync t2 h} \<and>
    list_all (\<lambda>m. \<exists>b. mlb_LeafHubName b = sm_Destination m \<and> marshal b = Inr (sm_Payload m) \<and>
      mset (mlb_Objects b) = mset (map entryOf (filter (\<lambda>r. lr_leafHub r = sm_Destination m) t2))) msgs"
proof -
  obtain m where m: "GetUpdatedManagedClusterLabelsBundles AllRows (la_order a) t2 lastSync = Inr m"
      and look: "\<And>h. case map_of m h of
        None \<Rightarrow> \<not> hub_has_news lastSync t2 h
      | Some b \<Rightarrow> hub_has_news lastSync t2 h \<and> mlb_LeafHubName b = h \<and>
          mset (mlb_Objects b) = mset (map entryOf (filter (\<lambda>r. lr_leafHub r = h) t2))"
    using labels_bundles_ex [OF assms(3)] by blast
  have "distinct (map fst m)" using m by (auto simp: GetUpdatedManagedClusterLabelsBundles_def readRows_def intro!: group_distinct)
  then have keys: "distinct (map fst (rangeOver (la_range a) m))"
    using rangeOver_keys(1) [OF assms(4)] mset_eq_imp_distinct_iff [OF assms(4)] by metis
  have mem: "(h, b) \<in> set (rangeOver (la_range a) m) \<longleftrightarrow> map_of m h = Some b" for h b
    using rangeOver_keys(2) [OF assms(4)] .
  obtain msgs where sent: "sendBundles marshal fmt key s1 (rangeOver (la_range a) m) = (None, msgs)"
      and rel: "list_all2 (\<lambda>(h, b) m. sm_Destination m = h \<and> sm_ID m = key \<and> marshal b = Inr (sm_Payload m)) (rangeOver (la_range a) m) msgs"
    using sendBundles_ok [where marshal = marshal, OF assms(5)] by blast
  have dest: "map sm_Destination msgs = map fst (rangeOver (la_range a) m)"
    using rel by (induction rule: list_all2_induct) auto
  have "h \<in> set (map fst (rangeOver (la_range a) m)) \<longleftrightarrow> hub_has_news lastSync t2 h" for h
  proof -
    have "h \<in> set (map fst (rangeOver (la_range a) m)) \<longleftrightarrow> (\<exists>b. map_of m h = Some b)" by (simp flip: mem add: image_iff) force
    then show ?thesis using look [of h] by (cases "map_of m h") simp_all
  qed
  then have hubs: "set (map sm_Destination msgs) = {h. hub_has_news lastSync t2 h}" unfolding dest by blast
  moreover have "list_all (\<lambda>m. \<exists>b. mlb_LeafHubName b = sm_Destination m \<and> marshal b = Inr (sm_Payload m) \<and>
      mset (mlb_Objects b) = mset (map entryOf (filter (\<lambda>r. lr_leafHub r = sm_Destination m) t2))) msgs"
    unfolding list_all_iff
  proof
    fix x assume "x \<in> set msgs"
    then obtain h b where "(h, b) \<in> set (rangeOver (la_range a) m)" "sm_Destination x = h" "marshal b = Inr (sm_Payload x)"
      using rel by (fastforce simp: list_all2_conv_all_nth in_set_conv_nth)
    then show "\<exists>b. mlb_LeafHubName b = sm_Destination x \<and> marshal b = Inr (sm_Payload x) \<and>
      mset (mlb_Objects b) = mset (map entryOf (filter (\<lambda>r. lr_leafHub r = sm_Destination x) t2))"
      using mem look [of h] by auto
  qed
  moreover have "syncManagedClusterLabelsBundles marshal fmt a key t1 t2 lastSync = (Inr True, msgs, s1)"
    using m sent assms(1,2,6,7) by (simp add: syncManagedClusterLabelsBundles_def GetLastUpdateTimestamp_def)
  ultimately show ?thesis using keys hubs unfolding dest [symmetric] by blast
qed

definition sampleMarshal :: "ManagedClusterLabelsSpecBundle \<Rightarrow> string + byte list" where
  "sampleMarshal b = Inr (replicate (length (mlb_Objects b)) 1)"

definition sampleLabelsAnswers :: labelsAnswers where
  "sampleLabelsAnswers = \<lparr>la_first = ScanOK, la_rows = AllRows, la_order = rev, la_range = (\<lambda>hs. hs)\<rparr>"

theorem labels_sync_destinations_witness:
  "\<exists>msgs. syncManagedClusterLabelsBundles sampleMarshal (\<lambda>_. ''time'') sampleLabelsAnswers ManagedClustersLabelsMsgKey sampleRows sampleRows 3
      = (Inr True, msgs, 6) \<and>
    distinct (map sm_Destination msgs) \<and> set (map sm_Destination msgs) = {h. hub_has_news 3 sampleRows h} \<and>
    list_all (\<lambda>m. \<exists>b. mlb_LeafHubName b = sm_Destination m \<and> sampleMarshal b = Inr (sm_Payload m) \<and>
      mset (mlb_Objects b) = mset (map entryOf (filter (\<lambda>r. lr_leafHub r = sm_Destination m) sampleRows))) msgs"
  by (rule labels_sync_destinations) (simp_all add: sampleRows_def sampleMarshal_def sampleLabelsAnswers_def)

section \<open>The constraints of the table\<close>

definition wf_labels :: "labelsRow list \<Rightarrow> bool" where
  "wf_labels rows \<longleftrightarrow> distinct (map (\<lambda>r. (lr_leafHub r, lr_cluster r)) rows) \<and> list_all (\<lambda>r. 0 \<le>s lr_version r) rows"

lemma updateWhere_wf:
  assumes "updateWhere failure v P f rows = (e, rows')" "wf_labels rows" "\<And>r. lr_version (f r) = v"
  shows "wf_labels rows'"
proof (cases "e = None")
  case False
  then show ?thesis using assms(1,2) by (auto simp: updateWhere_def Let_def split: option.splits if_splits)
next
  case True
  then have rows': "rows' = map (\<lambda>r. if P r then f r else r) rows" and "\<not> v <s 0" and "distinct (map (\<lambda>r. (lr_leafHub r, lr_cluster r)) rows')"
    using assms(1) by (auto simp: updateWhere_def Let_def split: option.splits if_splits)
  then have "list_all (\<lambda>r. 0 \<le>s lr_version r) rows'"
    using assms(2,3) unfolding rows' wf_labels_def by (auto simp: list_all_iff signed.not_less)
  with \<open>distinct _\<close> show ?thesis by (simp add: wf_labels_def)
qed

lemma trimEntry_wf: "trimEntry a status h entry (result, rows) = (result', rows') \<Longrightarrow> wf_labels rows \<Longrightarrow> wf_labels rows'"
  by (auto simp: trimEntry_def UpdateDeletedLabelKeys_def Let_def intro: updateWhere_wf split: sum.splits if_splits prod.splits option.splits)

lemma fillEntry_wf: "wf_labels rows \<Longrightarrow> wf_labels (fillEntry a status entry rows)"
  unfolding fillEntry_def UpdateLeafHubName_def
  by (cases "GetManagedClusterLeafHubName (wa_status a '''' (ml_ClusterName entry)) status (ml_ClusterName entry)")
    (auto intro!: updateWhere_wf [OF surjective_pairing])

lemma fold_wf:
  assumes "\<And>x acc. wf_labels (snd acc) \<Longrightarrow> wf_labels (snd (f x acc))" "wf_labels (snd acc)"
  shows "wf_labels (snd (fold f xs acc))"
  using assms(2) by (induction xs arbitrary: acc) (simp_all add: assms(1))

text \<open>
  The passes of the watcher keep the constraints of the table whatever the databases answer and whoever
  wrote meanwhile: one row for each hub and cluster, and no version below zero, although the next version
  is computed by a 64-bit addition that wraps around.
\<close>

theorem watcher_keeps_constraints:
  assumes "wf_labels t2"
  shows "wf_labels (snd (trimDeletedLabelsByStatus a status t1 t2)) \<and> wf_labels (fillMissingLeafHubNames a status t1 t2)"
proof
  have trim: "wf_labels (snd (trimEntry a status h e acc))" if "wf_labels (snd acc)" for h e acc
    using that trimEntry_wf by (metis prod.collapse)
  then have "wf_labels (snd (trimBundle a status hb acc))" if "wf_labels (snd acc)" for hb acc
    unfolding trimBundle_def using that by (intro fold_wf) auto
  then show "wf_labels (snd (trimDeletedLabelsByStatus a status t1 t2))"
    using assms unfolding trimDeletedLabelsByStatus_def by (auto split: sum.splits intro!: fold_wf)
  have "wf_labels (fold (fillEntry a status) es rows)" if "wf_labels rows" for es rows
    using that by (induction es arbitrary: rows) (simp_all add: fillEntry_wf)
  then show "wf_labels (fillMissingLeafHubNames a status t1 t2)"
    using assms unfolding fillMissingLeafHubNames_def by (auto split: sum.splits)
qed

definition sampleWatcher :: watcherAnswers where
  "sampleWatcher = \<lparr>wa_rows = AllRows, wa_order = (\<lambda>rs. rs), wa_range = (\<lambda>hs. hs), wa_status = (\<lambda>_ _. None), wa_update = (\<lambda>_ _. None), wa_now = 9\<rparr>"

definition sampleStatus :: "statusRow list" where
  "sampleStatus = [(''h1'', ''c1'', Some [(''old'', ''x'')]), (''h2'', ''c3'', None)]"

lemma sampleRows_wf: "wf_labels sampleRows"
  by (simp add: wf_labels_def sampleRows_def word_sle_eq)

theorem watcher_keeps_constraints_witness:
  "wf_labels (snd (trimDeletedLabelsByStatus sampleWatcher sampleStatus sampleRows sampleRows)) \<and>
   wf_labels (fillMissingLeafHubNames sampleWatcher sampleStatus sampleRows sampleRows)"
  by (rule watcher_keeps_constraints [OF sampleRows_wf])

section \<open>Optimistic concurrency\<close>

text \<open>The row a trimming leaves: only the keys that the status still shows.\<close>

definition trimmedRow :: "int \<Rightarrow> (string, string) gomap \<Rightarrow> labelsRow \<Rightarrow> labelsRow" where
  "trimmedRow now labelsStatus r = r\<lparr>lr_updated_at := now,
     lr_deletedKeys := filter (\<lambda>key. map_of labelsStatus key \<noteq> None) (lr_deletedKeys r), lr_version := lr_version r + 1\<rparr>"

text \<open>
  What a pass makes of a row it read: it is trimmed when the status is known, shows no longer all of the
  deleted labels, and the update of the row succeeds, the next version not being below zero.
\<close>

definition trimOf :: "watcherAnswers \<Rightarrow> statusRow list \<Rightarrow> labelsRow \<Rightarrow> labelsRow" where
  "trimOf a status r =
     (case GetManagedClusterLabelsStatus (wa_status a (lr_leafHub r) (lr_cluster r)) status (lr_leafHub r) (lr_cluster r) of
        Inl err \<Rightarrow> r
      | Inr labelsStatus \<Rightarrow>
          if (\<exists>key\<in>set (lr_deletedKeys r). map_of labelsStatus key = None) \<and> wa_update a (lr_leafHub r) (lr_cluster r) = None \<and> \<not> lr_version r + 1 <s 0
          then trimmedRow (wa_now a) labelsStatus r else r)"

definition rowKey :: "labelsRow \<Rightarrow> string \<times> string" where
  "rowKey = (\<lambda>r. (lr_leafHub r, lr_cluster r))"

text \<open>The entry of a row as the query of the watcher reads it.\<close>

definition deletedEntry :: "labelsRow \<Rightarrow> ManagedClusterLabelsSpec" where
  "deletedEntry r = \<lparr>ml_ClusterName = lr_cluster r, ml_Labels = [], ml_DeletedLabelKeys = lr_deletedKeys r,
                     ml_UpdateTimestamp = zeroTime, ml_Version = lr_version r\<rparr>"

lemma rowKey_trimOf [simp]: "rowKey (trimOf a status r) = rowKey r"
  by (simp add: trimOf_def trimmedRow_def rowKey_def split: sum.splits)

lemma wf_labels_rowKey: "wf_labels rows \<Longrightarrow> distinct (map rowKey rows)"
  by (simp add: wf_labels_def rowKey_def)

text \<open>Whoever writes a row moves its version on: a row of the version that was read is the row that was read.\<close>

definition unwritten :: "labelsRow \<Rightarrow> labelsRow list \<Rightarrow> bool" where
  "unwritten x rows \<longleftrightarrow> (\<forall>r\<in>set rows. rowKey r = rowKey x \<longrightarrow> lr_version r = lr_version x \<longrightarrow> r = x)"

lemma UpdateDeletedLabelKeys_exact:
  assumes "distinct (map rowKey rows)" "unwritten x rows"
  shows "snd (UpdateDeletedLabelKeys failure now (lr_version x) (lr_leafHub x) (lr_cluster x) ks rows) =
    map (\<lambda>r. if r = x \<and> failure = None \<and> \<not> lr_version x + 1 <s 0 then x\<lparr>lr_updated_at := now, lr_deletedKeys := ks, lr_version := lr_version x + 1\<rparr> else r) rows"
proof -
  let ?P = "\<lambda>r. lr_leafHub r = lr_leafHub x \<and> lr_cluster r = lr_cluster x \<and> lr_version r = lr_version x"
  let ?f = "\<lambda>r. r\<lparr>lr_updated_at := now, lr_deletedKeys := ks, lr_version := lr_version x + 1\<rparr>"
  have P: "?P r \<longleftrightarrow> r = x" if "r \<in> set rows" for r
    using that assms(2) by (auto simp: unwritten_def rowKey_def)
  have upd: "map (\<lambda>r. if ?P r then ?f r else r) rows = map (\<lambda>r. if r = x then ?f x else r) rows"
    by (rule map_cong) (use P in auto)
  have keys: "map (\<lambda>r. (lr_leafHub r, lr_cluster r)) (map (\<lambda>r. if r = x then ?f x else r) rows) = map rowKey rows"
    by (simp add: rowKey_def)
  have "distinct (map (\<lambda>r. (lr_leafHub r, lr_cluster r)) (map (\<lambda>r. if r = x then ?f x else r) rows))" unfolding keys by (rule assms(1))
  moreover have "list_ex ?P rows \<longleftrightarrow> x \<in> set rows" using P by (auto simp: list_ex_iff)
  moreover have "x \<notin> set rows \<Longrightarrow> map (\<lambda>r. if r = x \<and> Q then g r else r) rows = rows" for Q g
    by (rule map_idI) auto
  ultimately show ?thesis
    unfolding UpdateDeletedLabelKeys_def updateWhere_def Let_def upd by (auto split: option.splits)
qed

lemma trimEntry_exact:
  assumes "distinct (map rowKey rows)" "unwritten x rows"
  shows "snd (trimEntry a status (lr_leafHub x) (deletedEntry x) (result, rows)) = map (\<lambda>r. if r = x then trimOf a status x else r) rows"
proof (cases "GetManagedClusterLabelsStatus (wa_status a (lr_leafHub x) (lr_cluster x)) status (lr_leafHub x) (lr_cluster x)")
  case (Inl err)
  then show ?thesis by (simp add: trimEntry_def trimOf_def deletedEntry_def cong: if_cong)
next
  case (Inr labelsStatus)
  let ?ks = "filter (\<lambda>key. map_of labelsStatus key \<noteq> None) (lr_deletedKeys x)"
  have len: "length ?ks = length (lr_deletedKeys x) \<longleftrightarrow> \<not> (\<exists>key\<in>set (lr_deletedKeys x). map_of labelsStatus key = None)"
    by (metis (mono_tags, lifting) filter_True length_filter_less nat_neq_iff)
  have res: "snd (case p of (Some err, rows') \<Rightarrow> (False, rows') | (None, rows') \<Rightarrow> (result, rows')) = snd p" for p :: "updateError option \<times> labelsRow list"
    by (simp split: prod.splits option.splits)
  show ?thesis
  proof (cases "length ?ks = length (lr_deletedKeys x)")
    case True
    then have "trimOf a status x = x" using Inr unfolding len trimOf_def by auto
    moreover have "map (\<lambda>r. if r = x then x else r) rows = rows" by (rule map_idI) simp
    ultimately show ?thesis using True Inr by (simp only: trimEntry_def deletedEntry_def Let_def prod.case sum.case refl if_True ManagedClusterLabelsSpec.select_convs snd_conv)
  next
    case False
    then have "trimOf a status x = (if wa_update a (lr_leafHub x) (lr_cluster x) = None \<and> \<not> lr_version x + 1 <s 0 then trimmedRow (wa_now a) labelsStatus x else x)"
      using Inr unfolding len trimOf_def by simp
    moreover have "snd (trimEntry a status (lr_leafHub x) (deletedEntry x) (result, rows)) =
        snd (UpdateDeletedLabelKeys (wa_update a (lr_leafHub x) (lr_cluster x)) (wa_now a) (lr_version x) (lr_leafHub x) (lr_cluster x) ?ks rows)"
      using False Inr by (simp only: trimEntry_def deletedEntry_def Let_def prod.case sum.case if_False ManagedClusterLabelsSpec.select_convs res)
    ultimately show ?thesis
      unfolding UpdateDeletedLabelKeys_exact [OF assms] trimmedRow_def by (auto intro!: map_cong)
  qed
qed

lemma trimEntries_exact:
  assumes "distinct (map rowKey xs)" "distinct (map rowKey rows)" "\<And>x. x \<in> set xs \<Longrightarrow> unwritten x rows"
  shows "snd (fold (\<lambda>x. trimEntry a status (lr_leafHub x) (deletedEntry x)) xs (result, rows)) = map (\<lambda>r. if r \<in> set xs then trimOf a status r else r) rows"
  using assms
proof (induction xs arbitrary: result rows)
  case (Cons x xs)
  obtain result' rows' where step: "trimEntry a status (lr_leafHub x) (deletedEntry x) (result, rows) = (result', rows')" by fastforce
  with trimEntry_exact [OF Cons.prems(2) Cons.prems(3) [of x], of a status result]
  have rows': "rows' = map (\<lambda>r. if r = x then trimOf a status x else r) rows" by simp
  then have keys: "map rowKey rows' = map rowKey rows" by simp
  have x: "rowKey y \<noteq> rowKey x" if "y \<in> set xs" for y using Cons.prems(1) that by (metis distinct.simps(2) image_eqI list.set_map list.simps(9))
  have "unwritten y rows'" if "y \<in> set xs" for y
    using Cons.prems(3) [of y] that x [OF that] rowKey_trimOf [of a status x] unfolding unwritten_def rows' by fastforce
  with Cons.IH [of rows' result'] Cons.prems(1,2) keys
  have "snd (fold (\<lambda>x. trimEntry a status (lr_leafHub x) (deletedEntry x)) xs (result', rows')) = map (\<lambda>r. if r \<in> set xs then trimOf a status r else r) rows'"
    by simp
  moreover have "trimOf a status x \<notin> set xs" using x rowKey_trimOf [of a status x] by metis
  ultimately show ?case using step by (auto simp: rows')
qed simp

text \<open>Read by hub, the rows are the same.\<close>

lemma filter_mset_split:
  "distinct (h # hs) \<Longrightarrow> filter_mset (\<lambda>r. f r = h) (mset rs) + filter_mset (\<lambda>r. f r \<in> set hs) (mset rs) = filter_mset (\<lambda>r. f r \<in> set (h # hs)) (mset rs)"
  by (induction rs) auto

lemma mset_concat_groups:
  "distinct hs \<Longrightarrow> mset (concat (map (\<lambda>h. filter (\<lambda>r. f r = h) rs) hs)) = filter_mset (\<lambda>r. f r \<in> set hs) (mset rs)"
proof (induction hs)
  case (Cons h hs)
  then have "filter_mset (\<lambda>r. f r = h) (mset rs) + filter_mset (\<lambda>r. f r \<in> set hs) (mset rs) = filter_mset (\<lambda>r. f r \<in> set (h # hs)) (mset rs)"
    using filter_mset_split [OF Cons.prems] by blast
  with Cons show ?case by simp
qed simp

lemma trimBundles_groups:
  assumes "\<And>h b. (h, b) \<in> set bs \<Longrightarrow> b = \<lparr>mlb_Objects = map deletedEntry (filter (\<lambda>r. lr_leafHub r = h) rs), mlb_LeafHubName = h\<rparr>"
  shows "fold (trimBundle a status) bs = fold (\<lambda>x. trimEntry a status (lr_leafHub x) (deletedEntry x)) (concat (map (\<lambda>h. filter (\<lambda>r. lr_leafHub r = h) rs) (map fst bs)))"
  using assms
proof (induction bs)
  case (Cons hb bs)
  obtain h b where hb: "hb = (h, b)" by fastforce
  have "fold (trimEntry a status h) (map deletedEntry xs) = fold (\<lambda>x. trimEntry a status (lr_leafHub x) (deletedEntry x)) xs" if "\<forall>x\<in>set xs. lr_leafHub x = h" for xs
    using that by (induction xs) simp_all
  from this [of "filter (\<lambda>r. lr_leafHub r = h) rs"]
  have head: "trimBundle a status hb = fold (\<lambda>x. trimEntry a status (lr_leafHub x) (deletedEntry x)) (filter (\<lambda>r. lr_leafHub r = h) rs)"
    using Cons.prems [of h b] hb by (simp add: trimBundle_def)
  have "fold (trimBundle a status) bs = fold (\<lambda>x. trimEntry a status (lr_leafHub x) (deletedEntry x)) (concat (map (\<lambda>h. filter (\<lambda>r. lr_leafHub r = h) rs) (map fst bs)))"
    by (rule Cons.IH) (use Cons.prems in simp)
  then show ?case by (simp add: head) (simp add: hb)
qed simp

lemma trimRows_exact:
  assumes "distinct (map rowKey rs)" "distinct (map rowKey rows)" "\<And>x. x \<in> set rs \<Longrightarrow> unwritten x rows" "\<And>hs. mset (ord hs) = mset hs"
  shows "snd (fold (trimBundle a status) (rangeOver ord (fold (\<lambda>r. appendEntry (lr_leafHub r) (deletedEntry r)) rs [])) (result, rows)) =
    map (\<lambda>r. if r \<in> set rs then trimOf a status r else r) rows"
proof -
  let ?m = "fold (\<lambda>r. appendEntry (lr_leafHub r) (deletedEntry r)) rs []"
  let ?hs = "map fst (rangeOver ord ?m)"
  let ?xs = "concat (map (\<lambda>h. filter (\<lambda>r. lr_leafHub r = h) rs) ?hs)"
  have hs: "?hs = ord (map fst ?m)" by (rule rangeOver_keys(1) [OF assms(4)])
  have dist: "distinct ?hs" unfolding hs using group_distinct [of "[]"] mset_eq_imp_distinct_iff [OF assms(4)] by simp
  have "lr_leafHub r \<in> set ?hs" if "r \<in> set rs" for r
  proof -
    have "map_of ?m (lr_leafHub r) \<noteq> None" using that by (auto simp: group_rows_empty filter_empty_conv)
    then have "lr_leafHub r \<in> set (map fst ?m)" by (metis list.set_map map_of_eq_None_iff)
    then show ?thesis unfolding hs by (metis assms(4) set_mset_mset)
  qed
  then have "filter_mset (\<lambda>r. lr_leafHub r \<in> set ?hs) (mset rs) = mset rs" by (simp add: filter_mset_eq_conv)
  with mset_concat_groups [OF dist, of lr_leafHub rs] have xs: "mset ?xs = mset rs" by simp
  have "set ?xs = set rs" by (rule mset_eq_setD [OF xs])
  moreover have "mset (map rowKey ?xs) = mset (map rowKey rs)" using xs by (simp only: mset_map)
  from mset_eq_imp_distinct_iff [OF this] have "distinct (map rowKey ?xs)" using assms(1) by blast
  moreover have "fold (trimBundle a status) (rangeOver ord ?m) = fold (\<lambda>x. trimEntry a status (lr_leafHub x) (deletedEntry x)) ?xs"
    by (rule trimBundles_groups) (auto simp: rangeOver_keys(2) [OF assms(4)] group_rows_empty split: if_splits)
  ultimately show ?thesis using trimEntries_exact [of ?xs rows a status result] assms(2,3) by simp
qed

text \<open>
  C10. A pass of the trimmer does to the table exactly this: each row that the pass read and that nobody has
  written since gives up the keys of deleted labels that the status no longer shows, and moves to the next
  version, unless the status of its cluster cannot be read or its update fails; every other row, and so
  every row written meanwhile, stays as it is. The table may have changed in any way between the reading
  and the updates, as long as each writer of a row moves its version on.
\<close>

theorem trimming_exact:
  assumes "wf_labels t1" and "wf_labels t2" and "\<And>x. x \<in> set t1 \<Longrightarrow> unwritten x t2"
    and "\<And>rs. mset (wa_order a rs) = mset rs" and "\<And>hs. mset (wa_range a hs) = mset hs"
  shows "snd (trimDeletedLabelsByStatus a status t1 t2) =
    (case readRows (wa_rows a) (wa_order a (filter (\<lambda>r. lr_deletedKeys r \<noteq> [] \<and> lr_leafHub r \<noteq> '''') t1)) of
       Inl err \<Rightarrow> t2
     | Inr rs \<Rightarrow> map (\<lambda>r. if r \<in> set rs then trimOf a status r else r) t2)"
proof (cases "readRows (wa_rows a) (wa_order a (filter (\<lambda>r. lr_deletedKeys r \<noteq> [] \<and> lr_leafHub r \<noteq> '''') t1))")
  case (Inl err)
  then show ?thesis by (simp add: trimDeletedLabelsByStatus_def GetEntriesWithDeletedLabels_def)
next
  case (Inr rs)
  let ?read = "wa_order a (filter (\<lambda>r. lr_deletedKeys r \<noteq> [] \<and> lr_leafHub r \<noteq> '''') t1)"
  have rs: "\<exists>n. rs = take n ?read"
    using Inr by (auto simp: readRows_def split: rowsOutcome.splits intro: exI [of _ "length ?read"])
  have read: "set ?read \<subseteq> set t1" by (metis assms(4) filter_is_subset set_mset_mset)
  have "distinct (map rowKey (filter (\<lambda>r. lr_deletedKeys r \<noteq> [] \<and> lr_leafHub r \<noteq> '''') t1))"
    using wf_labels_rowKey [OF assms(1)] by (rule distinct_map_filter)
  moreover have "mset (map rowKey ?read) = mset (map rowKey (filter (\<lambda>r. lr_deletedKeys r \<noteq> [] \<and> lr_leafHub r \<noteq> '''') t1))"
    by (simp only: mset_map assms(4))
  ultimately have "distinct (map rowKey ?read)" using mset_eq_imp_distinct_iff by blast
  then have dist: "distinct (map rowKey rs)" using rs by (auto simp: take_map [symmetric] intro: distinct_take)
  have "unwritten x t2" if "x \<in> set rs" for x
  proof -
    obtain n where "rs = take n ?read" using rs by blast
    with that have "x \<in> set ?read" using in_set_takeD by fast
    with read assms(3) show ?thesis by blast
  qed
  with trimRows_exact [OF dist wf_labels_rowKey [OF assms(2)] _ assms(5)] Inr show ?thesis
    by (simp add: trimDeletedLabelsByStatus_def GetEntriesWithDeletedLabels_def deletedEntry_def)
qed

text \<open>One of the two keys is no longer shown; meanwhile the row of another cluster has been written.\<close>

theorem trimming_exact_witness:
  "snd (trimDeletedLabelsByStatus sampleWatcher sampleStatus sampleRows (sampleRows[1 := (sampleRows ! 1)\<lparr>lr_version := 1\<rparr>])) =
     [(sampleRows ! 0)\<lparr>lr_updated_at := 9, lr_deletedKeys := [''old''], lr_version := 3\<rparr>, (sampleRows ! 1)\<lparr>lr_version := 1\<rparr>, sampleRows ! 2]"
proof -
  let ?t2 = "sampleRows[1 := (sampleRows ! 1)\<lparr>lr_version := 1\<rparr>]"
  have "wf_labels ?t2" by (simp add: wf_labels_def sampleRows_def word_sle_eq)
  moreover have "unwritten x ?t2" if "x \<in> set sampleRows" for x
    using that by (auto simp: unwritten_def sampleRows_def rowKey_def)
  ultimately show ?thesis
    by (subst trimming_exact [OF sampleRows_wf])
      (simp_all add: sampleWatcher_def sampleStatus_def sampleRows_def readRows_def trimOf_def trimmedRow_def GetManagedClusterLabelsStatus_def word_sless_alt)
qed

end
