(* ===== verification/GH_SpecTransport.thy ===== *)
theory GH_SpecTransport
  imports GH_SpecLabels GH_TransportProps
begin

text \<open>
  The transport of the spec: the producers of the manager, to Kafka and to the sync service
  (\<open>manager/pkg/specsyncer/db2transport/transport\<close>), and the consumers of the agent
  (\<open>agent/pkg/transport/consumer\<close>). A message is for every leaf hub or for one, which the agent checks on
  Kafka and the sync service does itself.

  JSON and gzip are parameters. The bundles the agent decodes hold the objects in the representation of
  the manager; the fields of a Kubernetes object that no code here reads are part of its body.
\<close>

section \<open>Codecs\<close>

record GenericBundle =
  gb_Objects :: "specObject list"
  gb_DeletedObjects :: "specObject list"

definition NewGenericBundle :: GenericBundle where
  "NewGenericBundle = \<lparr>gb_Objects = [], gb_DeletedObjects = []\<rparr>"

record specCodec =
  sc_gzip :: gzip_lib
  sc_marshalMessage :: "specMessage \<Rightarrow> byte list option"
  sc_unmarshalMessage :: "byte list \<Rightarrow> Message option"
  sc_unmarshalGeneric :: "byte list \<Rightarrow> GenericBundle option"
  sc_unmarshalLabels :: "byte list \<Rightarrow> ManagedClusterLabelsSpecBundle option"

section \<open>Manager: Kafka producer\<close>

record specProducer =
  sp_topic :: string
  sp_compressor :: Compressor
  sp_messageSizeLimit :: nat

definition spec_messageKey :: "specMessage \<Rightarrow> string" where
  "spec_messageKey m = (if sm_Destination m \<noteq> Broadcast then sm_Destination m @ ''.'' @ sm_ID m else sm_ID m)"

definition spec_headers :: "Compressor \<Rightarrow> string \<Rightarrow> Header list" where
  "spec_headers cpr destination =
     \<lparr>hdr_Key = CompressionTypeHeader, hdr_Value = string_to_bytes (GetType cpr)\<rparr> #
     (if destination \<noteq> Broadcast then [\<lparr>hdr_Key = DestinationHub, hdr_Value = string_to_bytes destination\<rparr>] else [])"

text \<open>The messages handed to the client; what fails is only logged. None is the division by a size limit of zero.\<close>

definition spec_SendAsync :: "specCodec \<Rightarrow> string \<Rightarrow> (kafka_Message \<Rightarrow> bool) \<Rightarrow> specMessage \<Rightarrow> specProducer \<Rightarrow> kafka_Message list option" where
  "spec_SendAsync cd timestamp accepts m p =
     (case sc_marshalMessage cd m of
        None \<Rightarrow> Some []
      | Some msgBytes \<Rightarrow>
          (case Compress (sc_gzip cd) (sp_compressor p) msgBytes of
             Inl err \<Rightarrow> Some []
           | Inr compressedBytes \<Rightarrow>
               map_option fst (ProduceAsync timestamp (sp_messageSizeLimit p) accepts (spec_messageKey m) (sp_topic p) 0
                 (spec_headers (sp_compressor p) (sm_Destination m)) compressedBytes)))"

section \<open>Manager: sync service\<close>

record specObjectMetaData = ObjectMetaData +
  om_DestID :: string
  om_DestType :: string

definition spec_objectMetaData :: "Compressor \<Rightarrow> specMessage \<Rightarrow> specObjectMetaData" where
  "spec_objectMetaData cpr m =
     (if sm_Destination m \<noteq> Broadcast
      then \<lparr>ObjectID = sm_Destination m @ ''.'' @ sm_ID m, ObjectType = sm_MsgType m, om_Version = sm_Version m,
            om_Description = ''Content-Encoding:'' @ GetType cpr, om_DestID = sm_Destination m, om_DestType = ''edge''\<rparr>
      else \<lparr>ObjectID = sm_ID m, ObjectType = sm_MsgType m, om_Version = sm_Version m,
            om_Description = ''Content-Encoding:'' @ GetType cpr, om_DestID = '''', om_DestType = ''''\<rparr>)"

text \<open>One message: the object that is updated, and its data when that succeeds; the service may refuse either.\<close>

definition distributeMessage :: "gzip_lib \<Rightarrow> Compressor \<Rightarrow> (specObjectMetaData \<Rightarrow> bool) \<Rightarrow> specMessage
    \<Rightarrow> (specObjectMetaData \<times> byte list option) option" where
  "distributeMessage lib cpr updateOK m =
     (let objectMetaData = spec_objectMetaData cpr m in
      if \<not> updateOK objectMetaData then None
      else (case Compress lib cpr (sm_Payload m) of
              Inl err \<Rightarrow> Some (objectMetaData, None)
            | Inr compressedBytes \<Rightarrow> Some (objectMetaData, Some compressedBytes)))"

section \<open>Agent: consumers\<close>

text \<open>
  Both consumers keep the compressors created so far and the message ids of the custom bundles. The only
  custom bundle is that of the managed cluster labels.
\<close>

datatype receivedBundle = ReceivedGeneric GenericBundle | ReceivedCustom ManagedClusterLabelsSpecBundle

record specConsumer =
  cons_leafHubName :: string
  cons_compressorsMap :: "(string, Compressor) gomap"
  customBundleIDs :: "string goset"

definition spec_Register :: "string \<Rightarrow> specConsumer \<Rightarrow> specConsumer" where
  "spec_Register msgID c = c\<lparr>customBundleIDs := set_add msgID (customBundleIDs c)\<rparr>"

definition NewKafkaConsumer :: "string \<Rightarrow> specConsumer" where
  "NewKafkaConsumer leafHubName = \<lparr>cons_leafHubName = leafHubName, cons_compressorsMap = [], customBundleIDs = []\<rparr>"

datatype specReceiveError =
    OtherDestination
  | MissingCompressionType
  | InvalidCompressionHeader
  | SpecDecompress compressor_error
  | SpecParseMessage
  | SpecParseBundle
  | SpecParseCustomBundle
  | SyncServiceError
  | MarkReceivedFailed receivedBundle

definition spec_decompressPayload :: "specCodec \<Rightarrow> byte list \<Rightarrow> string \<Rightarrow> specConsumer \<Rightarrow> (compressor_error + byte list) \<times> specConsumer" where
  "spec_decompressPayload cd payload compressionType c =
     (case map_of (cons_compressorsMap c) compressionType of
        Some msgCompressor \<Rightarrow> (Decompress (sc_gzip cd) msgCompressor payload, c)
      | None \<Rightarrow>
          (case NewCompressor compressionType of
             Inl err \<Rightarrow> (Inl err, c)
           | Inr newCompressor \<Rightarrow>
               (Decompress (sc_gzip cd) newCompressor payload,
                c\<lparr>cons_compressorsMap := AList.update compressionType newCompressor (cons_compressorsMap c)\<rparr>)))"

definition syncGenericBundle :: "specCodec \<Rightarrow> byte list \<Rightarrow> specReceiveError + receivedBundle" where
  "syncGenericBundle cd payload =
     (case sc_unmarshalGeneric cd payload of None \<Rightarrow> Inl SpecParseBundle | Some b \<Rightarrow> Inr (ReceivedGeneric b))"

definition SyncCustomBundle :: "specCodec \<Rightarrow> byte list \<Rightarrow> specReceiveError + receivedBundle" where
  "SyncCustomBundle cd payload =
     (case sc_unmarshalLabels cd payload of None \<Rightarrow> Inl SpecParseCustomBundle | Some b \<Rightarrow> Inr (ReceivedCustom b))"

definition dispatchBundle :: "specCodec \<Rightarrow> string \<Rightarrow> byte list \<Rightarrow> specConsumer \<Rightarrow> specReceiveError + receivedBundle" where
  "dispatchBundle cd msgID payload c = (if msgID \<notin> set (customBundleIDs c) then syncGenericBundle cd payload else SyncCustomBundle cd payload)"

definition spec_processMessage :: "specCodec \<Rightarrow> kafka_Message \<Rightarrow> specConsumer \<Rightarrow> (specReceiveError + receivedBundle) \<times> specConsumer" where
  "spec_processMessage cd m c =
     (if (case lookupHeaderValue m DestinationHub of None \<Rightarrow> False | Some bytes \<Rightarrow> bytes_to_string bytes \<noteq> cons_leafHubName c)
      then (Inl OtherDestination, c)
      else (case lookupHeaderValue m CompressionTypeHeader of
              None \<Rightarrow> (Inl MissingCompressionType, c)
            | Some compressionTypeBytes \<Rightarrow>
                (case spec_decompressPayload cd (km_Value m) (bytes_to_string compressionTypeBytes) c of
                   (Inl err, c') \<Rightarrow> (Inl (SpecDecompress err), c')
                 | (Inr decompressedPayload, c') \<Rightarrow>
                     (case sc_unmarshalMessage cd decompressedPayload of
                        None \<Rightarrow> (Inl SpecParseMessage, c')
                      | Some transportMessage \<Rightarrow> (dispatchBundle cd (msg_ID transportMessage) (msg_Payload transportMessage) c', c')))))"

definition getObjectCompressionType :: "specObjectMetaData \<Rightarrow> specReceiveError + string" where
  "getObjectCompressionType om =
     (if om_Description om = '''' then Inl MissingCompressionType
      else (let compressionTokens = split_on (CHR '':'') (om_Description om) in
            if length compressionTokens \<noteq> 2 then Inl InvalidCompressionHeader else Inr (compressionTokens ! 1)))"

definition TrimPrefix :: "string \<Rightarrow> string \<Rightarrow> string" where
  "TrimPrefix s prefix = (if take (length prefix) s = prefix then drop (length prefix) s else s)"

text \<open>One announced object; \<open>fetched\<close> is its data if the fetch succeeds, and \<open>marked\<close> what marking it as received answers.\<close>

definition spec_handleBundle :: "specCodec \<Rightarrow> specObjectMetaData \<Rightarrow> byte list option \<Rightarrow> bool \<Rightarrow> specConsumer
    \<Rightarrow> (specReceiveError + receivedBundle) \<times> specConsumer" where
  "spec_handleBundle cd om fetched marked c =
     (case fetched of
        None \<Rightarrow> (Inl SyncServiceError, c)
      | Some buf \<Rightarrow>
          (case getObjectCompressionType om of
             Inl err \<Rightarrow> (Inl err, c)
           | Inr compressionType \<Rightarrow>
               (case spec_decompressPayload cd buf compressionType c of
                  (Inl err, c') \<Rightarrow> (Inl (SpecDecompress err), c')
                | (Inr decompressedPayload, c') \<Rightarrow>
                    (case dispatchBundle cd (TrimPrefix (ObjectID om) (om_DestID om @ ''.'')) decompressedPayload c' of
                       Inl err \<Rightarrow> (Inl err, c')
                     | Inr b \<Rightarrow> (if marked then Inr b else Inl (MarkReceivedFailed b), c')))))"

end
