(* ===== verification/GH_SpecTransportProps.thy ===== *)
theory GH_SpecTransportProps
  imports GH_SpecTransport GH_SpecLabelsProps
begin

text \<open>
  The trip of a spec message from the manager to the agents, over Kafka and over the sync service, and
  what an agent receives of the table the manager sent.
\<close>

section \<open>The trip of a message\<close>

text \<open>Unmarshalling on the agent inverts marshalling on the manager, up to the destination, which the agent's type does not have.\<close>

definition spec_json_ok :: "specCodec \<Rightarrow> bool" where
  "spec_json_ok cd \<longleftrightarrow> (\<forall>m bytes. sc_marshalMessage cd m = Some bytes \<longrightarrow>
     sc_unmarshalMessage cd bytes = Some \<lparr>msg_ID = sm_ID m, msg_MsgType = sm_MsgType m, msg_Version = sm_Version m, msg_Payload = sm_Payload m\<rparr>)"

definition compressors_ok :: "specConsumer \<Rightarrow> bool" where
  "compressors_ok c \<longleftrightarrow> (\<forall>t cpr. map_of (cons_compressorsMap c) t = Some cpr \<longrightarrow> NewCompressor t = Inr cpr)"

text \<open>Decompressing creates a compressor at most: the name of the hub and the custom bundles stay.\<close>

definition same_consumer :: "specConsumer \<Rightarrow> specConsumer \<Rightarrow> bool" where
  "same_consumer c c' \<longleftrightarrow> cons_leafHubName c' = cons_leafHubName c \<and> customBundleIDs c' = customBundleIDs c \<and> compressors_ok c'"

lemma dispatchBundle_same: "same_consumer c c' \<Longrightarrow> dispatchBundle cd msgID payload c' = dispatchBundle cd msgID payload c"
  by (simp add: same_consumer_def dispatchBundle_def)

lemma spec_decompressPayload_GetType:
  assumes "compressors_ok c" "gzip_ok (sc_gzip cd)" "Compress (sc_gzip cd) cpr payload = Inr z"
  shows "\<exists>c'. spec_decompressPayload cd z (GetType cpr) c = (Inr payload, c') \<and> same_consumer c c'"
proof -
  have inv: "Decompress (sc_gzip cd) cpr z = Inr payload"
    using compressor.inverse [OF Compressor_compressor [OF assms(2)] assms(3)] .
  show ?thesis
  proof (cases "map_of (cons_compressorsMap c) (GetType cpr)")
    case None
    then show ?thesis
      using assms(1) inv by (auto simp: spec_decompressPayload_def same_consumer_def compressors_ok_def update_conv)
  next
    case (Some cpr')
    then have "cpr' = cpr" using assms(1) NewCompressor_GetType unfolding compressors_ok_def by (metis sum.inject(2))
    then show ?thesis using Some assms(1) inv by (simp add: spec_decompressPayload_def same_consumer_def)
  qed
qed

lemma spec_headers_lookup:
  assumes "km_Headers km = spec_headers cpr destination"
  shows "lookupHeaderValue km CompressionTypeHeader = Some (string_to_bytes (GetType cpr))"
    and "lookupHeaderValue km DestinationHub = (if destination = Broadcast then None else Some (string_to_bytes destination))"
  using assms by (simp_all add: lookupHeaderValue_def spec_headers_def DestinationHub_def CompressionTypeHeader_def)

lemma spec_SendAsync_small:
  assumes "sc_marshalMessage cd m = Some bytes" "Compress (sc_gzip cd) (sp_compressor p) bytes = Inr z"
    and "length z \<le> sp_messageSizeLimit p" "\<And>km. accepts km"
  shows "spec_SendAsync cd timestamp accepts m p =
    Some [NewMessageBuilder (spec_messageKey m) (sp_topic p) 0 (spec_headers (sp_compressor p) (sm_Destination m)) z]"
  using assms by (simp add: spec_SendAsync_def ProduceAsync_def getMessageFragments_def)

lemma spec_processMessage_sent:
  assumes "spec_json_ok cd" "gzip_ok (sc_gzip cd)" "compressors_ok c" "sc_marshalMessage cd m = Some bytes" "Compress (sc_gzip cd) cpr bytes = Inr z"
    and "sm_Destination m = Broadcast \<or> sm_Destination m = cons_leafHubName c"
  shows "\<exists>c'. same_consumer c c' \<and>
    spec_processMessage cd (delivered part off (NewMessageBuilder key topic 0 (spec_headers cpr (sm_Destination m)) z)) c =
      (dispatchBundle cd (sm_ID m) (sm_Payload m) c, c')"
proof -
  let ?km = "delivered part off (NewMessageBuilder key topic 0 (spec_headers cpr (sm_Destination m)) z)"
  have km: "km_Headers ?km = spec_headers cpr (sm_Destination m)" "km_Value ?km = z" by (simp_all add: delivered_def NewMessageBuilder_def)
  obtain c' where c': "spec_decompressPayload cd z (GetType cpr) c = (Inr bytes, c')" "same_consumer c c'"
    using spec_decompressPayload_GetType [OF assms(3,2,5)] by blast
  moreover have "sc_unmarshalMessage cd bytes = Some \<lparr>msg_ID = sm_ID m, msg_MsgType = sm_MsgType m, msg_Version = sm_Version m, msg_Payload = sm_Payload m\<rparr>"
    using assms(1,4) by (simp add: spec_json_ok_def)
  ultimately show ?thesis
    using assms(6) km spec_headers_lookup [OF km(1)] dispatchBundle_same [OF c'(2)] by (auto simp: spec_processMessage_def)
qed

text \<open>
  C11. A spec message that fits the size limit makes the trip over Kafka: the producer hands over one message,
  and whatever partition and offset the broker gives it, an agent it is addressed to, by name or because
  it is for all, passes its payload on under its message id; every other agent drops it unread.
\<close>

theorem spec_kafka_trip:
  assumes "spec_json_ok cd" and "gzip_ok (sc_gzip cd)" and "compressors_ok c"
    and "sc_marshalMessage cd m = Some bytes" and "Compress (sc_gzip cd) (sp_compressor p) bytes = Inr z"
    and "length z \<le> sp_messageSizeLimit p" and "\<And>km. accepts km"
  shows "\<exists>km. spec_SendAsync cd timestamp accepts m p = Some [km] \<and>
    (\<forall>part off. \<exists>c'. same_consumer c c' \<and> spec_processMessage cd (delivered part off km) c =
       (if sm_Destination m = Broadcast \<or> sm_Destination m = cons_leafHubName c then dispatchBundle cd (sm_ID m) (sm_Payload m) c
        else Inl OtherDestination, c'))"
proof -
  let ?km = "NewMessageBuilder (spec_messageKey m) (sp_topic p) 0 (spec_headers (sp_compressor p) (sm_Destination m)) z"
  have "\<exists>c'. same_consumer c c' \<and> spec_processMessage cd (delivered part off ?km) c =
       (if sm_Destination m = Broadcast \<or> sm_Destination m = cons_leafHubName c then dispatchBundle cd (sm_ID m) (sm_Payload m) c
        else Inl OtherDestination, c')" for part off
  proof (cases "sm_Destination m = Broadcast \<or> sm_Destination m = cons_leafHubName c")
    case True
    then show ?thesis using spec_processMessage_sent [OF assms(1-5)] by simp
  next
    case False
    have "km_Headers (delivered part off ?km) = spec_headers (sp_compressor p) (sm_Destination m)"
      by (simp add: delivered_def NewMessageBuilder_def)
    from spec_headers_lookup(2) [OF this] show ?thesis
      using False assms(3) by (auto simp: spec_processMessage_def same_consumer_def)
  qed
  then show ?thesis using spec_SendAsync_small [where accepts = accepts, OF assms(4-7)] by blast
qed

definition labelsMessage :: specMessage where
  "labelsMessage = \<lparr>sm_Destination = ''h1'', sm_ID = ManagedClustersLabelsMsgKey, sm_MsgType = SpecBundle, sm_Version = ''time'', sm_Payload = [2]\<rparr>"

definition sentPolicy :: specObject where
  "sentPolicy = setMetaDataAnnotation (storedPolicy ''t'') OriginOwnerReferenceAnnotation ''u1''"

definition sampleSpecCodec :: specCodec where
  "sampleSpecCodec = \<lparr>sc_gzip = \<lparr>gzip_write = Some, gzip_read = Some\<rparr>,
     sc_marshalMessage = (\<lambda>m. if m = labelsMessage then Some [7] else if m = sampleMessage then Some [8] else None),
     sc_unmarshalMessage = (\<lambda>bs. if bs = [7] then Some \<lparr>msg_ID = ManagedClustersLabelsMsgKey, msg_MsgType = SpecBundle, msg_Version = ''time'', msg_Payload = [2]\<rparr>
        else if bs = [8] then Some \<lparr>msg_ID = ''Policies'', msg_MsgType = SpecBundle, msg_Version = ''time'', msg_Payload = [1]\<rparr> else None),
     sc_unmarshalGeneric = (\<lambda>bs. Some \<lparr>gb_Objects = replicate (length bs) sentPolicy, gb_DeletedObjects = []\<rparr>),
     sc_unmarshalLabels = (\<lambda>bs. Some \<lparr>mlb_Objects = map entryOf (filter (\<lambda>r. lr_leafHub r = ''h1'') sampleRows), mlb_LeafHubName = ''h1''\<rparr>)\<rparr>"

definition sampleSpecProducer :: specProducer where
  "sampleSpecProducer = \<lparr>sp_topic = ''spec'', sp_compressor = CompressorGZip, sp_messageSizeLimit = 10\<rparr>"

definition agentConsumer :: "string \<Rightarrow> specConsumer" where
  "agentConsumer hub = spec_Register ManagedClustersLabelsMsgKey (NewKafkaConsumer hub)"

lemma sampleSpecCodec_ok: "spec_json_ok sampleSpecCodec" "gzip_ok (sc_gzip sampleSpecCodec)"
  by (auto simp: spec_json_ok_def gzip_ok_def sampleSpecCodec_def labelsMessage_def sampleMessage_def split: if_splits)

lemma agentConsumer_ok: "compressors_ok (agentConsumer hub)"
  by (simp add: compressors_ok_def agentConsumer_def NewKafkaConsumer_def spec_Register_def)

lemma agentConsumer_name [simp]: "cons_leafHubName (agentConsumer hub) = hub"
  by (simp add: agentConsumer_def spec_Register_def NewKafkaConsumer_def)

theorem spec_kafka_trip_witness:
  "\<exists>km. spec_SendAsync sampleSpecCodec ''now'' (\<lambda>_. True) labelsMessage sampleSpecProducer = Some [km] \<and>
    (\<forall>part off. \<exists>c'. same_consumer (agentConsumer ''h2'') c' \<and>
       spec_processMessage sampleSpecCodec (delivered part off km) (agentConsumer ''h2'') = (Inl OtherDestination, c'))"
proof -
  have "sc_marshalMessage sampleSpecCodec labelsMessage = Some [7]" "Compress (sc_gzip sampleSpecCodec) (sp_compressor sampleSpecProducer) [7] = Inr [7]"
    "length [7 :: byte] \<le> sp_messageSizeLimit sampleSpecProducer"
    by (simp_all add: sampleSpecCodec_def sampleSpecProducer_def gzip_Compress_def)
  note trip = spec_kafka_trip [where accepts = "\<lambda>_. True" and timestamp = "''now''", OF sampleSpecCodec_ok agentConsumer_ok [of "''h2''"] this]
  have "\<not> (sm_Destination labelsMessage = Broadcast \<or> sm_Destination labelsMessage = cons_leafHubName (agentConsumer ''h2''))"
    by (simp add: labelsMessage_def Broadcast_def)
  with trip show ?thesis by (simp only: if_False simp_thms)
qed

lemma TrimPrefix_hit: "TrimPrefix (prefix @ s) prefix = s"
  by (simp add: TrimPrefix_def)

lemma TrimPrefix_dot: "s = [] \<or> hd s \<noteq> CHR ''.'' \<Longrightarrow> TrimPrefix s ''.'' = s"
  by (cases s) (simp_all add: TrimPrefix_def)

lemma spec_object_id:
  "sm_ID m = [] \<or> hd (sm_ID m) \<noteq> CHR ''.'' \<Longrightarrow>
   TrimPrefix (ObjectID (spec_objectMetaData cpr m)) (om_DestID (spec_objectMetaData cpr m) @ ''.'') = sm_ID m"
  using TrimPrefix_hit [of "sm_Destination m @ ''.''" "sm_ID m"] by (simp add: spec_objectMetaData_def TrimPrefix_dot)

lemma spec_compression_type: "getObjectCompressionType (spec_objectMetaData cpr m) = Inr (GetType cpr)"
  by (cases cpr) (simp_all add: getObjectCompressionType_def spec_objectMetaData_def)

text \<open>
  The two transports agree: what the agent passes on of a message the sync service delivered, by the id
  of the object and its destination, is what it passes on of the message Kafka delivered, if it is
  addressed to it. The message ids of the syncers do not begin with a dot.
\<close>

theorem transports_agree:
  assumes "spec_json_ok cd" and "gzip_ok (sc_gzip cd)" and "compressors_ok c"
    and "sc_marshalMessage cd m = Some bytes" and "Compress (sc_gzip cd) cpr bytes = Inr z" and "Compress (sc_gzip cd) cpr (sm_Payload m) = Inr y"
    and "sm_Destination m = Broadcast \<or> sm_Destination m = cons_leafHubName c" and "sm_ID m = [] \<or> hd (sm_ID m) \<noteq> CHR ''.''"
  shows "\<exists>om. distributeMessage (sc_gzip cd) cpr (\<lambda>_. True) m = Some (om, Some y) \<and>
    fst (spec_handleBundle cd om (Some y) True c) =
    fst (spec_processMessage cd (delivered part off (NewMessageBuilder key topic 0 (spec_headers cpr (sm_Destination m)) z)) c)"
proof -
  obtain c1 where c1: "spec_decompressPayload cd y (GetType cpr) c = (Inr (sm_Payload m), c1)" "same_consumer c c1"
    using spec_decompressPayload_GetType [OF assms(3,2,6)] by blast
  have "fst (spec_handleBundle cd (spec_objectMetaData cpr m) (Some y) True c) = dispatchBundle cd (sm_ID m) (sm_Payload m) c"
    using c1 spec_object_id [OF assms(8)] spec_compression_type dispatchBundle_same [OF c1(2)] by (simp add: spec_handleBundle_def split: sum.splits)
  moreover have "distributeMessage (sc_gzip cd) cpr (\<lambda>_. True) m = Some (spec_objectMetaData cpr m, Some y)"
    using assms(6) by (simp add: distributeMessage_def)
  ultimately show ?thesis using spec_processMessage_sent [OF assms(1-5,7)] by (metis fst_conv)
qed

theorem transports_agree_witness:
  "\<exists>om. distributeMessage (sc_gzip sampleSpecCodec) CompressorGZip (\<lambda>_. True) labelsMessage = Some (om, Some [2]) \<and>
    fst (spec_handleBundle sampleSpecCodec om (Some [2]) True (agentConsumer ''h1'')) =
    fst (spec_processMessage sampleSpecCodec (delivered 0 4 (NewMessageBuilder ''h1.ManagedClustersLabels'' ''spec'' 0
      (spec_headers CompressorGZip (sm_Destination labelsMessage)) [7])) (agentConsumer ''h1''))"
  by (rule transports_agree [OF sampleSpecCodec_ok agentConsumer_ok])
    (simp_all add: sampleSpecCodec_def labelsMessage_def gzip_Compress_def ManagedClustersLabelsMsgKey_def)

section \<open>The table as an agent receives it\<close>

lemma fold_addRow:
  "fold addRow rs b = b\<lparr>bob_Objects := bob_Objects b @
       map (\<lambda>r. setMetaDataAnnotation (row_payload r) OriginOwnerReferenceAnnotation (row_id r)) (filter (\<lambda>r. \<not> row_deleted r) rs),
     bob_DeletedObjects := bob_DeletedObjects b @ map row_payload (filter row_deleted rs)\<rparr>"
  by (induction rs arbitrary: b) (simp_all add: addRow_def AddObject_def AddDeletedObject_def)

text \<open>Decoding a bundle of objects on the agent inverts encoding it on the manager.\<close>

definition objects_json_ok :: "codecs \<Rightarrow> specCodec \<Rightarrow> bool" where
  "objects_json_ok c cd \<longleftrightarrow> (\<forall>b bytes. marshalObjects c b = Inr bytes \<longrightarrow>
     sc_unmarshalGeneric cd bytes = Some \<lparr>gb_Objects = bob_Objects b, gb_DeletedObjects = bob_DeletedObjects b\<rparr>)"

lemma carries_received:
  assumes "carries c key rows m" "objects_json_ok c cd" "key \<notin> set (customBundleIDs cons)"
  shows "\<exists>b. dispatchBundle cd (sm_ID m) (sm_Payload m) cons = Inr (ReceivedGeneric b) \<and>
    mset (gb_Objects b) = mset (map (\<lambda>r. setMetaDataAnnotation (row_payload r) OriginOwnerReferenceAnnotation (row_id r)) (filter (\<lambda>r. \<not> row_deleted r) rows)) \<and>
    mset (gb_DeletedObjects b) = mset (map row_payload (filter row_deleted rows))"
proof -
  obtain rs where rs: "mset rs = mset rows" "marshalObjects c (fold addRow rs NewBaseObjectsBundle) = Inr (sm_Payload m)" "sm_ID m = key"
    using assms(1) by (auto simp: carries_def)
  have "sc_unmarshalGeneric cd (sm_Payload m) = Some \<lparr>gb_Objects = bob_Objects (fold addRow rs NewBaseObjectsBundle),
      gb_DeletedObjects = bob_DeletedObjects (fold addRow rs NewBaseObjectsBundle)\<rparr>"
    using assms(2) rs(2) unfolding objects_json_ok_def by blast
  with rs assms(3) show ?thesis
    by (simp add: dispatchBundle_def syncGenericBundle_def fold_addRow NewBaseObjectsBundle_def)
qed

text \<open>
  C2. From the table of the manager to the agents: whenever a syncer has caught up with its table, and the
  table is not empty, the last message it sent, produced to Kafka and consumed by any agent, is the bundle
  of that very table: the rows that are not marked deleted are its objects, each with the UID of its
  origin as annotation, and the others its deleted objects. This is so for the tables that the
  controllers of the manager write, of objects that are not local resources, as long as no result set of
  the syncer ends early and the message, compressed, fits the size limit of Kafka.
\<close>

theorem agents_receive_table:
  assumes "(syncer_step schedule c)\<^sup>*\<^sup>* (t0, k0, newObjectsSyncer table key schedule, []) (t, k, s, sent)"
    and "0 \<le> k0" and "stamped k0 t0" and "stamp t \<le> lastSyncTimestamp s" and "visible t \<noteq> []"
    and "spec_json_ok cd" and "gzip_ok (sc_gzip cd)" and "objects_json_ok c cd" and "compressors_ok cons" and "key \<notin> set (customBundleIDs cons)"
    and "sc_marshalMessage cd (last sent) = Some bytes" and "Compress (sc_gzip cd) (sp_compressor p) bytes = Inr z"
    and "length z \<le> sp_messageSizeLimit p" and "\<And>km. accepts km"
  shows "\<exists>km b. spec_SendAsync cd timestamp accepts (last sent) p = Some [km] \<and>
    fst (spec_processMessage cd (delivered part off km) cons) = Inr (ReceivedGeneric b) \<and>
    mset (gb_Objects b) = mset (map (\<lambda>r. setMetaDataAnnotation (row_payload r) OriginOwnerReferenceAnnotation (row_id r)) (filter (\<lambda>r. \<not> row_deleted r) (visible t))) \<and>
    mset (gb_DeletedObjects b) = mset (map row_payload (filter row_deleted (visible t)))"
proof -
  have carried: "carries c key (visible t) (last sent)"
    using steps_inv [OF assms(1) init_inv [OF assms(2,3)]] assms(4,5) by (auto simp: newObjectsSyncer_def)
  then have dest: "sm_Destination (last sent) = Broadcast" by (simp add: carries_def)
  let ?km = "NewMessageBuilder (spec_messageKey (last sent)) (sp_topic p) 0 (spec_headers (sp_compressor p) (sm_Destination (last sent))) z"
  have "spec_SendAsync cd timestamp accepts (last sent) p = Some [?km]"
    by (rule spec_SendAsync_small [where accepts = accepts, OF assms(11-14)])
  moreover have "fst (spec_processMessage cd (delivered part off ?km) cons) = dispatchBundle cd (sm_ID (last sent)) (sm_Payload (last sent)) cons"
    using spec_processMessage_sent [OF assms(6,7,9,11,12) disjI1 [OF dest]] by (metis fst_conv)
  ultimately show ?thesis using carries_received [OF carried assms(8,10)] by metis
qed

definition exactCodecs :: codecs where
  "exactCodecs = \<lparr>marshalObjects = (\<lambda>b. if b = \<lparr>bob_Objects = [sentPolicy], bob_DeletedObjects = []\<rparr> then Inr [1] else Inl ''unknown''),
     formatTime = (\<lambda>t. ''time'')\<rparr>"

lemma exact_tick:
  "\<exists>s'. syncer_tick (\<lambda>_. 5) exactCodecs okAnswers sampleTable sampleTable sampleTable (newObjectsSyncer ''policies'' ''Policies'' (\<lambda>_. 5)) =
     ([sampleMessage], s') \<and> lastSyncTimestamp s' = 3"
proof -
  have "fold addRow (visible sampleTable) NewBaseObjectsBundle = \<lparr>bob_Objects = [sentPolicy], bob_DeletedObjects = []\<rparr>"
    unfolding sampleTable_visible by (simp add: sampleTable_def addRow_def AddObject_def NewBaseObjectsBundle_def sentPolicy_def)
  then have "syncObjectsBundle exactCodecs okAnswers ''Policies'' sampleTable sampleTable sampleTable 0 = (Inr True, [sampleMessage], 3)"
    by (simp add: syncObjectsBundle_def okAnswers_def GetObjectsBundle_def sampleTable_stamp syncToTransport_def exactCodecs_def sampleMessage_def Broadcast_def)
  then show ?thesis by (simp add: syncer_tick_def syncBundle_objects_def newObjectsSyncer_def zeroTime_def)
qed

theorem agents_receive_table_witness:
  "\<exists>km b. spec_SendAsync sampleSpecCodec ''now'' (\<lambda>_. True) (last [sampleMessage]) sampleSpecProducer = Some [km] \<and>
    fst (spec_processMessage sampleSpecCodec (delivered 0 5 km) (agentConsumer ''h2'')) = Inr (ReceivedGeneric b) \<and>
    mset (gb_Objects b) = mset (map (\<lambda>r. setMetaDataAnnotation (row_payload r) OriginOwnerReferenceAnnotation (row_id r)) (filter (\<lambda>r. \<not> row_deleted r) (visible sampleTable))) \<and>
    mset (gb_DeletedObjects b) = mset (map row_payload (filter row_deleted (visible sampleTable)))"
proof -
  let ?s = "newObjectsSyncer ''policies'' ''Policies'' (\<lambda>_. 5)"
  obtain s' where tick: "syncer_tick (\<lambda>_. 5) exactCodecs okAnswers sampleTable sampleTable sampleTable ?s = ([sampleMessage], s')" and l: "lastSyncTimestamp s' = 3"
    using exact_tick by blast
  have "syncer_step (\<lambda>_. 5) exactCodecs (sampleTable, 3, ?s, []) (sampleTable, 3, s', [] @ [sampleMessage])"
    by (rule ticked [OF rtranclp.rtrancl_refl rtranclp.rtrancl_refl okAnswers_complete tick])
  then have steps: "(syncer_step (\<lambda>_. 5) exactCodecs)\<^sup>*\<^sup>* (sampleTable, 3, ?s, []) (sampleTable, 3, s', [sampleMessage])"
    by simp
  have "objects_json_ok exactCodecs sampleSpecCodec"
    by (auto simp: objects_json_ok_def exactCodecs_def sampleSpecCodec_def split: if_splits)
  moreover have "sc_marshalMessage sampleSpecCodec (last [sampleMessage]) = Some [8]"
    by (simp add: sampleSpecCodec_def sampleMessage_def labelsMessage_def)
  moreover have "stamped 3 sampleTable" "visible sampleTable \<noteq> []"
    by (simp_all add: stamped_def sampleTable_visible) (simp_all add: sampleTable_def zeroTime_def)
  moreover have "''Policies'' \<notin> set (customBundleIDs (agentConsumer ''h2''))"
    by (simp add: agentConsumer_def spec_Register_def NewKafkaConsumer_def set_add_def ManagedClustersLabelsMsgKey_def)
  ultimately show ?thesis
    by (intro agents_receive_table [OF steps _ _ _ _ sampleSpecCodec_ok _ agentConsumer_ok, where bytes = "[8]" and z = "[8]"])
      (simp_all add: l sampleTable_stamp, simp_all add: sampleSpecCodec_def sampleSpecProducer_def gzip_Compress_def)
qed

end
