(* ===== verification/GH_SpecAgent.thy ===== *)
theory GH_SpecAgent
  imports GH_SpecTransport
begin

text \<open>
  The spec side of the agent (\<open>agent/pkg/spec/controller\<close>): the identity an object asks for, the worker
  pool that runs jobs with the client of that identity, the syncer of generic bundles and the syncer of
  the managed cluster labels, with the helpers that write to the API server
  (\<open>agent/pkg/helper\<close>).

  The API server is the map \<open>apiStore\<close>. What a forced server-side apply makes of the stored object and the
  one sent is a parameter, and so are the answers to the calls, which may fail. Kubernetes clients are
  named by the user and groups they impersonate.
\<close>

section \<open>Identities\<close>

definition NoIdentity :: string where
  "NoIdentity = ''''"

definition UserIdentityAnnotation :: string where
  "UserIdentityAnnotation = ''open-cluster-management.io/user-identity''"

definition UserGroupsAnnotation :: string where
  "UserGroupsAnnotation = ''open-cluster-management.io/user-group''"

text \<open>
  \<open>base64.StdEncoding\<close>: line breaks are skipped, the last group of four may be padded, and anything else is
  an error. Bytes are characters, as in a Go string.
\<close>

definition base64Alphabet :: string where
  "base64Alphabet = ''ABCDEFGHIJKLMNOPQRSTUVWXYZabcdefghijklmnopqrstuvwxyz0123456789+/''"

definition base64Digit :: "char \<Rightarrow> nat option" where
  "base64Digit ch = find_index (\<lambda>x. x = ch) base64Alphabet"

fun base64Groups :: "string \<Rightarrow> string option" where
  "base64Groups [] = Some []"
| "base64Groups (a # b # c # d # rest) =
     (case (base64Digit a, base64Digit b) of
        (Some x, Some y) \<Rightarrow>
          (if c = CHR ''='' \<and> d = CHR ''='' \<and> rest = [] then Some [char_of ((x * 4 + y div 16) mod 256)]
           else (case base64Digit c of
                   None \<Rightarrow> None
                 | Some z \<Rightarrow>
                     if d = CHR ''='' \<and> rest = [] then Some [char_of ((x * 4 + y div 16) mod 256), char_of ((y * 16 + z div 4) mod 256)]
                     else (case base64Digit d of
                             None \<Rightarrow> None
                           | Some w \<Rightarrow> map_option (\<lambda>t. char_of ((x * 4 + y div 16) mod 256) # char_of ((y * 16 + z div 4) mod 256) #
                                         char_of ((z * 64 + w) mod 256) # t) (base64Groups rest))))
      | _ \<Rightarrow> None)"
| "base64Groups _ = None"

definition lineBreak :: "char \<Rightarrow> bool" where
  "lineBreak ch \<longleftrightarrow> of_char ch = (10 :: nat) \<or> of_char ch = (13 :: nat)"

definition base64Decode :: "string \<Rightarrow> string option" where
  "base64Decode s = base64Groups (filter (\<lambda>ch. \<not> lineBreak ch) s)"

definition decodeBase64IdentityAnnotation :: "(string, string) gomap \<Rightarrow> string \<Rightarrow> string option" where
  "decodeBase64IdentityAnnotation annotations annotationToDecode =
     (case map_of annotations annotationToDecode of
        Some base64Value \<Rightarrow> base64Decode base64Value
      | None \<Rightarrow> Some NoIdentity)"

section \<open>Jobs\<close>

text \<open>A job is an unstructured object to apply or to delete, or an entry of labels, which is a custom object.\<close>

datatype specJob = ApplyJob specObject | DeleteJob specObject | LabelsJob ManagedClusterLabelsSpec

fun job_object :: "specJob \<Rightarrow> specObject option" where
  "job_object (ApplyJob object) = Some object"
| "job_object (DeleteJob object) = Some object"
| "job_object (LabelsJob _) = None"

text \<open>None is a failure to decode.\<close>

definition GetUserIdentity :: "specJob \<Rightarrow> string option" where
  "GetUserIdentity job =
     (case job_object job of None \<Rightarrow> Some NoIdentity | Some object \<Rightarrow> decodeBase64IdentityAnnotation (so_Annotations object) UserIdentityAnnotation)"

definition GetUserGroups :: "specJob \<Rightarrow> (string \<times> string list) option" where
  "GetUserGroups job =
     (case job_object job of
        None \<Rightarrow> Some (NoIdentity, [])
      | Some object \<Rightarrow>
          (case decodeBase64IdentityAnnotation (so_Annotations object) UserGroupsAnnotation of
             None \<Rightarrow> None
           | Some userGroups \<Rightarrow>
               Some (case map_of (so_Annotations object) UserGroupsAnnotation of None \<Rightarrow> '''' | Some base64Value \<Rightarrow> base64Value,
                     split_on (CHR '','') userGroups)))"

section \<open>The worker pool\<close>

text \<open>An impersonating worker has a client for a user with groups, and a queue of its own.\<close>

record userWorker =
  uw_user :: string
  uw_groups :: "string list"
  uw_queue :: "specJob list"

record WorkerPool =
  jobsQueue :: "specJob list"
  poolSize :: nat
  impersonationWorkersQueues :: "(string, userWorker) gomap"
  impersonationWorkersLock :: bool

definition AddWorkerPool :: "nat \<Rightarrow> WorkerPool" where
  "AddWorkerPool workpoolSize = \<lparr>jobsQueue = [], poolSize = workpoolSize, impersonationWorkersQueues = [], impersonationWorkersLock = False\<rparr>"

text \<open>
  How a call of \<open>Submit\<close> ends: the job is dropped with a log message, or it is queued; or the call does not
  return, because the lock is taken, or because the queue is full, in which case it goes on when a worker
  takes a job.
\<close>

datatype submitResult = SubmitDropped | SubmitQueued | SubmitLocked | SubmitFull

definition createUserWorker :: "(string \<Rightarrow> string list \<Rightarrow> bool) \<Rightarrow> string \<Rightarrow> string list \<Rightarrow> string \<Rightarrow> WorkerPool \<Rightarrow> WorkerPool option" where
  "createUserWorker impersonateOK userIdentity userGroups workerIdentifier pool =
     (if impersonateOK userIdentity userGroups
      then Some (pool\<lparr>impersonationWorkersQueues :=
             AList.update workerIdentifier \<lparr>uw_user = userIdentity, uw_groups = userGroups, uw_queue = []\<rparr> (impersonationWorkersQueues pool)\<rparr>)
      else None)"

definition pushUserJob :: "string \<Rightarrow> specJob \<Rightarrow> WorkerPool \<Rightarrow> submitResult \<times> WorkerPool" where
  "pushUserJob workerIdentifier job pool =
     (case map_of (impersonationWorkersQueues pool) workerIdentifier of
        None \<Rightarrow> (SubmitFull, pool)
      | Some worker \<Rightarrow>
          if length (uw_queue worker) < poolSize pool
          then (SubmitQueued, pool\<lparr>impersonationWorkersQueues :=
                  AList.update workerIdentifier (worker\<lparr>uw_queue := uw_queue worker @ [job]\<rparr>) (impersonationWorkersQueues pool)\<rparr>)
          else (SubmitFull, pool))"

text \<open>When the worker cannot be created the call returns with the lock still taken.\<close>

definition Submit :: "(string \<Rightarrow> string list \<Rightarrow> bool) \<Rightarrow> specJob \<Rightarrow> WorkerPool \<Rightarrow> submitResult \<times> WorkerPool" where
  "Submit impersonateOK job pool =
     (case GetUserIdentity job of
        None \<Rightarrow> (SubmitDropped, pool)
      | Some userIdentity \<Rightarrow>
          if userIdentity = NoIdentity
          then (if length (jobsQueue pool) < poolSize pool then (SubmitQueued, pool\<lparr>jobsQueue := jobsQueue pool @ [job]\<rparr>) else (SubmitFull, pool))
          else (case GetUserGroups job of
                  None \<Rightarrow> (SubmitDropped, pool)
                | Some (base64UserGroups, userGroups) \<Rightarrow>
                    if impersonationWorkersLock pool then (SubmitLocked, pool)
                    else (let workerIdentifier = userIdentity @ ''.'' @ base64UserGroups in
                          if map_of (impersonationWorkersQueues pool) workerIdentifier = None
                          then (case createUserWorker impersonateOK userIdentity userGroups workerIdentifier pool of
                                  None \<Rightarrow> (SubmitDropped, pool\<lparr>impersonationWorkersLock := True\<rparr>)
                                | Some pool' \<Rightarrow> pushUserJob workerIdentifier job pool')
                          else pushUserJob workerIdentifier job pool)))"

section \<open>Writing to the API server\<close>

text \<open>An object is found by its kind, namespace and name.\<close>

fun objectKind :: "specBody \<Rightarrow> string" where
  "objectKind (PolicyB _ _ _) = ''Policy''"
| "objectKind (PlacementBindingB _ _ _) = ''PlacementBinding''"
| "objectKind (ConfigMapB _) = ''ConfigMap''"
| "objectKind (SpecStatusB ty _ _) =
     (case ty of ApplicationT \<Rightarrow> ''Application'' | ChannelT \<Rightarrow> ''Channel'' | SubscriptionT \<Rightarrow> ''Subscription'' | PlacementRuleT \<Rightarrow> ''PlacementRule''
      | PlacementT \<Rightarrow> ''Placement'' | ManagedClusterSetT \<Rightarrow> ''ManagedClusterSet'' | ManagedClusterSetBindingT \<Rightarrow> ''ManagedClusterSetBinding'')"

definition apiKey :: "specObject \<Rightarrow> string \<times> string \<times> string" where
  "apiKey object = (objectKind (so_body object), so_Namespace object, so_Name object)"

text \<open>A managed cluster may have no labels at all, a nil map; an entry of the managed fields has a manager, a time and the labels it owns.\<close>

record managedFieldsEntry =
  mf_Manager :: string
  mf_APIVersion :: string
  mf_Time :: int
  mf_labelFields :: "string list"

record ManagedCluster =
  mc_Labels :: "(string, string) gomap option"
  mc_APIVersion :: string
  mc_ManagedFields :: "managedFieldsEntry list"

record apiStore =
  api_objects :: "(string \<times> string \<times> string) \<Rightarrow> specObject option"
  api_namespaces :: "string set"
  api_clusters :: "string \<Rightarrow> ManagedCluster option"

text \<open>
  What the server answers: an error of creating a namespace other than that it exists, what it stores for an apply given what it
  has, the error of a delete, and the errors of reading and updating a managed cluster. None is no error;
  a missing object is an error that ends in ``not found''.
\<close>

record apiAnswers =
  api_createNamespace :: "string \<Rightarrow> string option"
  api_apply :: "specObject \<Rightarrow> specObject option \<Rightarrow> string + specObject"
  api_delete :: "specObject \<Rightarrow> string option"
  api_getCluster :: "string \<Rightarrow> string option"
  api_updateCluster :: "string \<Rightarrow> string option"
  api_now :: int

definition HasSuffix :: "string \<Rightarrow> string \<Rightarrow> bool" where
  "HasSuffix s suffix \<longleftrightarrow> length suffix \<le> length s \<and> drop (length s - length suffix) s = suffix"

text \<open>The namespace is always created; the answer that it exists already counts as none, so that the error is another one.\<close>

definition CreateNamespaceIfNotExist :: "apiAnswers \<Rightarrow> string \<Rightarrow> apiStore \<Rightarrow> string option \<times> apiStore" where
  "CreateNamespaceIfNotExist api namespace st =
     (if namespace = '''' then (None, st)
      else (case api_createNamespace api namespace of
              Some err \<Rightarrow> (Some err, st)
            | None \<Rightarrow> (None, st\<lparr>api_namespaces := insert namespace (api_namespaces st)\<rparr>)))"

definition helper_UpdateObject :: "apiAnswers \<Rightarrow> specObject \<Rightarrow> apiStore \<Rightarrow> string option \<times> apiStore" where
  "helper_UpdateObject api object st =
     (case api_apply api object (api_objects st (apiKey object)) of
        Inl err \<Rightarrow> (Some err, st)
      | Inr stored \<Rightarrow> (None, st\<lparr>api_objects := (api_objects st)(apiKey object \<mapsto> stored)\<rparr>))"

text \<open>The error, or whether the object was deleted.\<close>

definition helper_DeleteObject :: "apiAnswers \<Rightarrow> specObject \<Rightarrow> apiStore \<Rightarrow> (string + bool) \<times> apiStore" where
  "helper_DeleteObject api object st =
     (case (if api_objects st (apiKey object) = None then Some ''not found'' else api_delete api object) of
        Some err \<Rightarrow> (if \<not> HasSuffix err ''not found'' then Inl err else Inr False, st)
      | None \<Rightarrow> (Inr True, st\<lparr>api_objects := (api_objects st)(apiKey object := None)\<rparr>))"

section \<open>The syncer of generic bundles\<close>

definition anonymize :: "specObject \<Rightarrow> specObject" where
  "anonymize object = object\<lparr>so_Annotations := AList.delete UserGroupsAnnotation (AList.delete UserIdentityAnnotation (so_Annotations object))\<rparr>"

text \<open>The jobs of a bundle, in the order they are submitted.\<close>

definition syncObjects :: "bool \<Rightarrow> specObject list \<Rightarrow> specJob list" where
  "syncObjects enforceHohRbac bundleObjects = map (\<lambda>object. ApplyJob (if \<not> enforceHohRbac then anonymize object else object)) bundleObjects"

definition syncDeletedObjects :: "bool \<Rightarrow> specObject list \<Rightarrow> specJob list" where
  "syncDeletedObjects enforceHohRbac deletedObjects = map (\<lambda>object. DeleteJob (if \<not> enforceHohRbac then anonymize object else object)) deletedObjects"

text \<open>The handlers of the jobs.\<close>

definition applyHandler :: "apiAnswers \<Rightarrow> bool \<Rightarrow> specObject \<Rightarrow> apiStore \<Rightarrow> apiStore" where
  "applyHandler api enforceHohRbac object st =
     (if \<not> enforceHohRbac
      then (case CreateNamespaceIfNotExist api (so_Namespace object) st of
              (Some err, st') \<Rightarrow> st'
            | (None, st') \<Rightarrow> snd (helper_UpdateObject api object st'))
      else snd (helper_UpdateObject api object st))"

definition deleteHandler :: "apiAnswers \<Rightarrow> specObject \<Rightarrow> apiStore \<Rightarrow> apiStore" where
  "deleteHandler api object st = snd (helper_DeleteObject api object st)"

section \<open>The syncer of the managed cluster labels\<close>

definition hohFieldManager :: string where
  "hohFieldManager = ''mgh-agent''"

definition updateManagedFieldEntry :: "int \<Rightarrow> ManagedClusterLabelsSpec \<Rightarrow> ManagedCluster \<Rightarrow> ManagedCluster" where
  "updateManagedFieldEntry now labelsSpec mc =
     (let entry = \<lparr>mf_Manager = hohFieldManager, mf_APIVersion = mc_APIVersion mc, mf_Time = now,
                   mf_labelFields = map (\<lambda>(key, v). ''f:'' @ key) (ml_Labels labelsSpec)\<rparr> in
      case find_index (\<lambda>e. mf_Manager e = hohFieldManager) (mc_ManagedFields mc) of
        Some index \<Rightarrow> mc\<lparr>mc_ManagedFields := (mc_ManagedFields mc)[index := entry]\<rparr>
      | None \<Rightarrow> mc\<lparr>mc_ManagedFields := mc_ManagedFields mc @ [entry]\<rparr>)"

text \<open>
  Setting the labels and deleting the others. Writing to a nil map panics, which is None; deleting from
  one does nothing.
\<close>

definition enforceLabels :: "ManagedClusterLabelsSpec \<Rightarrow> ManagedCluster \<Rightarrow> ManagedCluster option" where
  "enforceLabels labelsSpec mc =
     (case mc_Labels mc of
        None \<Rightarrow> if ml_Labels labelsSpec = [] then Some mc else None
      | Some labels \<Rightarrow>
          Some (mc\<lparr>mc_Labels := Some (fold AList.delete (ml_DeletedLabelKeys labelsSpec)
                  (fold (\<lambda>(key, v). AList.update key v) (ml_Labels labelsSpec) labels))\<rparr>))"

text \<open>The job of an entry: whether it marks the entry as processed, and the store; None panics.\<close>

definition labelsHandler :: "apiAnswers \<Rightarrow> ManagedClusterLabelsSpec \<Rightarrow> apiStore \<Rightarrow> (bool \<times> apiStore) option" where
  "labelsHandler api labelsSpec st =
     (case api_getCluster api (ml_ClusterName labelsSpec) of
        Some err \<Rightarrow> Some (False, st)
      | None \<Rightarrow>
          (case api_clusters st (ml_ClusterName labelsSpec) of
             None \<Rightarrow> Some (True, st)
           | Some mc \<Rightarrow>
               (case enforceLabels labelsSpec mc of
                  None \<Rightarrow> None
                | Some mc' \<Rightarrow>
                    (case api_updateCluster api (ml_ClusterName labelsSpec) of
                       Some err \<Rightarrow> Some (False, st)
                     | None \<Rightarrow> Some (True, st\<lparr>api_clusters := (api_clusters st)(ml_ClusterName labelsSpec \<mapsto>
                                 updateManagedFieldEntry (api_now api) labelsSpec mc')\<rparr>)))))"

record managedClusterLabelsBundleSyncer =
  latestBundle :: "ManagedClusterLabelsSpecBundle option"
  managedClusterToTimestampMap :: "(string, int) gomap"

definition setLatestBundle :: "ManagedClusterLabelsSpecBundle \<Rightarrow> managedClusterLabelsBundleSyncer \<Rightarrow> managedClusterLabelsBundleSyncer" where
  "setLatestBundle newBundle s = s\<lparr>latestBundle := Some newBundle\<rparr>"

definition getManagedClusterLastProcessedTimestamp :: "string \<Rightarrow> managedClusterLabelsBundleSyncer \<Rightarrow> int" where
  "getManagedClusterLastProcessedTimestamp name s = (case map_of (managedClusterToTimestampMap s) name of Some ts \<Rightarrow> ts | None \<Rightarrow> zeroTime)"

definition managedClusterMarkUpdated :: "ManagedClusterLabelsSpec \<Rightarrow> managedClusterLabelsBundleSyncer \<Rightarrow> managedClusterLabelsBundleSyncer" where
  "managedClusterMarkUpdated labelsSpec s =
     s\<lparr>managedClusterToTimestampMap := AList.update (ml_ClusterName labelsSpec) (ml_UpdateTimestamp labelsSpec) (managedClusterToTimestampMap s)\<rparr>"

text \<open>
  The entries of the latest bundle that are newer than what was processed, each by a job; the next tick
  comes after all of them. The entries of a bundle are of different clusters, so that the order of the
  jobs does not show; here it is that of the bundle.
\<close>

fun handleEntries :: "apiAnswers \<Rightarrow> ManagedClusterLabelsSpec list \<Rightarrow> managedClusterLabelsBundleSyncer \<times> apiStore
    \<Rightarrow> (managedClusterLabelsBundleSyncer \<times> apiStore) option" where
  "handleEntries api [] state = Some state"
| "handleEntries api (labelsSpec # rest) (s, st) =
     (if getManagedClusterLastProcessedTimestamp (ml_ClusterName labelsSpec) s < ml_UpdateTimestamp labelsSpec
      then (case labelsHandler api labelsSpec st of
              None \<Rightarrow> None
            | Some (marked, st') \<Rightarrow> handleEntries api rest (if marked then managedClusterMarkUpdated labelsSpec s else s, st'))
      else handleEntries api rest (s, st))"

definition labels_handleBundle :: "apiAnswers \<Rightarrow> managedClusterLabelsBundleSyncer \<times> apiStore \<Rightarrow> (managedClusterLabelsBundleSyncer \<times> apiStore) option" where
  "labels_handleBundle api state =
     (case latestBundle (fst state) of None \<Rightarrow> Some state | Some b \<Rightarrow> handleEntries api (mlb_Objects b) state)"

end
