(* ===== verification/GH_SpecAgentProps.thy ===== *)
theory GH_SpecAgentProps
  imports GH_SpecAgent GH_SpecTransportProps
begin

text \<open>
  What holds of the agent's spec side: jobs run under the identity their object asks for, a bundle is
  applied by its jobs in whatever order the workers finish them, the labels are enforced once, and the
  ways in which a malformed or refused identity blocks the agent.
\<close>

section \<open>Identities and worker identifiers\<close>

lemma base64Digit_mem: "base64Digit ch = Some x \<Longrightarrow> ch \<in> set base64Alphabet"
proof -
  have "find_index P xs = Some i \<Longrightarrow> \<exists>x\<in>set xs. P x" for P :: "char \<Rightarrow> bool" and xs i
    by (induction xs arbitrary: i) (auto split: if_splits)
  then show "base64Digit ch = Some x \<Longrightarrow> ch \<in> set base64Alphabet" unfolding base64Digit_def by blast
qed

lemma base64Groups_chars: "base64Groups s = Some t \<Longrightarrow> set s \<subseteq> insert (CHR ''='') (set base64Alphabet)"
proof (induction s arbitrary: t rule: length_induct)
  case (1 s)
  show ?case
  proof (cases s rule: base64Groups.cases)
    case (2 a b c d rest)
    have "base64Groups rest = Some t' \<Longrightarrow> set rest \<subseteq> insert (CHR ''='') (set base64Alphabet)" for t'
      using 1(1) 2 by simp
    with 1(2) 2 show ?thesis by (auto dest!: base64Digit_mem split: option.splits if_splits)
  qed (use 1(2) in simp_all)
qed

lemma base64_no_dot:
  assumes "base64Decode s = Some t"
  shows "CHR ''.'' \<notin> set s"
proof
  assume "CHR ''.'' \<in> set s"
  then have "CHR ''.'' \<in> set (filter (\<lambda>ch. \<not> lineBreak ch) s)" by (simp add: lineBreak_def)
  with base64Groups_chars assms have "CHR ''.'' \<in> insert (CHR ''='') (set base64Alphabet)" unfolding base64Decode_def by blast
  then show False by (simp add: base64Alphabet_def)
qed

text \<open>The encoded groups determine the groups, and they have no dot.\<close>

lemma GetUserGroups_decode:
  assumes "GetUserGroups job = Some (b64, groups)" "job_object job \<noteq> None"
  shows "\<exists>t. base64Decode b64 = Some t \<and> groups = split_on (CHR '','') t"
  using assms by (auto simp: GetUserGroups_def decodeBase64IdentityAnnotation_def NoIdentity_def base64Decode_def split: option.splits)

lemma identified_object: "GetUserIdentity job = Some user \<Longrightarrow> user \<noteq> NoIdentity \<Longrightarrow> job_object job \<noteq> None"
  by (auto simp: GetUserIdentity_def split: option.splits)

lemma split_first:
  "c \<notin> set xs \<Longrightarrow> c \<notin> set xs' \<Longrightarrow> xs @ c # ys = xs' @ c # ys' \<Longrightarrow> xs = xs' \<and> ys = ys'"
proof (induction xs arbitrary: xs')
  case Nil
  then show ?case by (cases xs') auto
next
  case (Cons x xs)
  then show ?case by (cases xs') auto
qed

lemma append_dot_inj:
  assumes "u @ CHR ''.'' # b = u' @ CHR ''.'' # b'" "CHR ''.'' \<notin> set b" "CHR ''.'' \<notin> set b'"
  shows "u = u' \<and> b = b'"
proof -
  have "rev b @ CHR ''.'' # rev u = rev b' @ CHR ''.'' # rev u'"
    using arg_cong [OF assms(1), of rev] by simp
  from split_first [OF _ _ this] assms(2,3) show ?thesis by simp
qed

section \<open>The pool\<close>

text \<open>What a job may be run as: a user, and groups in the encoding of the object.\<close>

definition runs_as :: "specJob \<Rightarrow> string \<Rightarrow> string \<Rightarrow> string list \<Rightarrow> bool" where
  "runs_as job user b64 groups \<longleftrightarrow> GetUserIdentity job = Some user \<and> user \<noteq> NoIdentity \<and> GetUserGroups job = Some (b64, groups)"

definition worker_ok :: "string \<Rightarrow> userWorker \<Rightarrow> bool" where
  "worker_ok i w \<longleftrightarrow> (\<exists>b64 t. i = uw_user w @ ''.'' @ b64 \<and> base64Decode b64 = Some t \<and> uw_groups w = split_on (CHR '','') t \<and>
     (\<forall>job\<in>set (uw_queue w). runs_as job (uw_user w) b64 (uw_groups w)))"

definition pool_ok :: "WorkerPool \<Rightarrow> bool" where
  "pool_ok pool \<longleftrightarrow> (\<forall>job\<in>set (jobsQueue pool). GetUserIdentity job = Some NoIdentity) \<and>
     (\<forall>i w. map_of (impersonationWorkersQueues pool) i = Some w \<longrightarrow> worker_ok i w)"

lemma pushUserJob_ok:
  assumes "pool_ok pool" "runs_as job user b64 groups" "pushUserJob (user @ ''.'' @ b64) job pool = (result, pool')"
  shows "pool_ok pool'"
proof (cases "pool' = pool")
  case False
  then obtain w where w: "map_of (impersonationWorkersQueues pool) (user @ ''.'' @ b64) = Some w"
      and pool': "pool' = pool\<lparr>impersonationWorkersQueues := AList.update (user @ ''.'' @ b64) (w\<lparr>uw_queue := uw_queue w @ [job]\<rparr>) (impersonationWorkersQueues pool)\<rparr>"
    using assms(3) by (auto simp: pushUserJob_def split: option.splits if_splits)
  obtain b64' t where i: "user @ ''.'' @ b64 = uw_user w @ ''.'' @ b64'" and t: "base64Decode b64' = Some t" "uw_groups w = split_on (CHR '','') t"
      and q: "\<forall>job\<in>set (uw_queue w). runs_as job (uw_user w) b64' (uw_groups w)"
    using assms(1) w unfolding pool_ok_def worker_ok_def by blast
  obtain t' where t': "base64Decode b64 = Some t'" "groups = split_on (CHR '','') t'"
    using assms(2) GetUserGroups_decode identified_object unfolding runs_as_def by blast
  have eq: "user = uw_user w" "b64 = b64'"
    using append_dot_inj [of user b64 "uw_user w" b64'] i base64_no_dot [OF t(1)] base64_no_dot [OF t'(1)] by simp_all
  have "worker_ok (user @ ''.'' @ b64) (w\<lparr>uw_queue := uw_queue w @ [job]\<rparr>)"
    unfolding worker_ok_def using t t' q eq assms(2) by (intro exI [of _ b64'] exI [of _ t]) auto
  then show ?thesis using assms(1) pool' by (auto simp: pool_ok_def update_conv)
qed (use assms(1) in simp)

lemma Submit_ok:
  assumes "pool_ok pool" "Submit impersonateOK job pool = (result, pool')"
  shows "pool_ok pool'"
proof (cases "\<exists>user b64 groups. runs_as job user b64 groups \<and> \<not> impersonationWorkersLock pool")
  case True
  then obtain user b64 groups where as: "runs_as job user b64 groups" and free: "\<not> impersonationWorkersLock pool" by blast
  obtain t where t: "base64Decode b64 = Some t" "groups = split_on (CHR '','') t"
    using as GetUserGroups_decode identified_object unfolding runs_as_def by blast
  have created: "pool_ok (pool\<lparr>impersonationWorkersQueues := AList.update (user @ ''.'' @ b64) \<lparr>uw_user = user, uw_groups = groups, uw_queue = []\<rparr> (impersonationWorkersQueues pool)\<rparr>)"
    using assms(1) t by (auto simp: pool_ok_def update_conv worker_ok_def)
  show ?thesis
    using assms as free pushUserJob_ok [OF assms(1) as] pushUserJob_ok [OF created as]
    by (auto simp: Submit_def runs_as_def createUserWorker_def pool_ok_def Let_def split: if_splits)
next
  case False
  then show ?thesis
    using assms by (auto simp: Submit_def runs_as_def pool_ok_def Let_def split: option.splits if_splits)
qed

text \<open>The pool as it runs: jobs are submitted, and a worker takes the first job of its queue.\<close>

inductive pool_step :: "WorkerPool \<Rightarrow> WorkerPool \<Rightarrow> bool" where
  submitted: "Submit impersonateOK job pool = (result, pool') \<Longrightarrow> pool_step pool pool'"
| taken: "jobsQueue pool = job # rest \<Longrightarrow> pool_step pool (pool\<lparr>jobsQueue := rest\<rparr>)"
| user_taken: "map_of (impersonationWorkersQueues pool) i = Some w \<Longrightarrow> uw_queue w = job # rest \<Longrightarrow>
    pool_step pool (pool\<lparr>impersonationWorkersQueues := AList.update i (w\<lparr>uw_queue := rest\<rparr>) (impersonationWorkersQueues pool)\<rparr>)"

lemma worker_ok_shorter: "worker_ok i w \<Longrightarrow> set rest \<subseteq> set (uw_queue w) \<Longrightarrow> worker_ok i (w\<lparr>uw_queue := rest\<rparr>)"
  unfolding worker_ok_def by (elim exE) (rule exI, rule exI, auto)

lemma pool_step_ok: "pool_step pool pool' \<Longrightarrow> pool_ok pool \<Longrightarrow> pool_ok pool'"
proof (induction rule: pool_step.induct)
  case (user_taken pool i w job rest)
  then have "worker_ok i (w\<lparr>uw_queue := rest\<rparr>)" by (intro worker_ok_shorter) (auto simp: pool_ok_def)
  with user_taken show ?case by (auto simp: pool_ok_def update_conv)
next
  case (taken pool job rest)
  then show ?case by (simp add: pool_ok_def)
qed (rule Submit_ok)

lemma pool_steps_ok: "pool_step\<^sup>*\<^sup>* pool pool' \<Longrightarrow> pool_ok pool \<Longrightarrow> pool_ok pool'"
  by (induction rule: rtranclp_induct) (auto intro: pool_step_ok)

lemma AddWorkerPool_ok: "pool_ok (AddWorkerPool n)"
  by (simp add: pool_ok_def AddWorkerPool_def)

text \<open>
  C9. No job runs under a foreign identity: whatever is submitted and taken, a job in the queue of an
  impersonating worker asks for the very user and groups the client of that worker impersonates, and a
  job in the common queue, which runs as the controller, asks for no identity. Two pairs of user and
  groups never share a queue, although the name of a queue is the user joined to the encoded groups.
\<close>

theorem jobs_run_as_requested:
  assumes "pool_step\<^sup>*\<^sup>* (AddWorkerPool n) pool"
  shows "list_all (\<lambda>job. GetUserIdentity job = Some NoIdentity) (jobsQueue pool) \<and>
    (\<forall>i w. map_of (impersonationWorkersQueues pool) i = Some w \<longrightarrow>
      list_all (\<lambda>job. GetUserIdentity job = Some (uw_user w) \<and> map_option snd (GetUserGroups job) = Some (uw_groups w)) (uw_queue w))"
  using pool_steps_ok [OF assms AddWorkerPool_ok] by (fastforce simp: pool_ok_def worker_ok_def runs_as_def list_all_iff)

definition userPolicy :: "string \<Rightarrow> specObject" where
  "userPolicy base64User = (samplePolicy ''t'')\<lparr>so_Annotations := [(UserIdentityAnnotation, base64User), (UserGroupsAnnotation, ''YSxi'')]\<rparr>"

definition ann :: string where
  "ann = ''YW5u''"

lemma decode_samples: "base64Decode ann = Some ''ann''" "base64Decode ''YSxi'' = Some ''a,b''" "base64Decode ''%'' = None"
  by (simp_all add: ann_def) code_simp+

lemma user_policy_identity:
  "GetUserIdentity (ApplyJob (userPolicy ann)) = Some ''ann''"
  "GetUserGroups (ApplyJob (userPolicy ann)) = Some (''YSxi'', [''a'', ''b''])"
  "GetUserIdentity (ApplyJob (userPolicy ''%'')) = None"
  by (simp_all add: GetUserIdentity_def GetUserGroups_def decodeBase64IdentityAnnotation_def userPolicy_def decode_samples
      UserIdentityAnnotation_def UserGroupsAnnotation_def)

theorem jobs_run_as_requested_witness:
  "map_of (impersonationWorkersQueues (snd (Submit (\<lambda>_ _. True) (ApplyJob (userPolicy ann)) (AddWorkerPool 2)))) ''ann.YSxi'' =
     Some \<lparr>uw_user = ''ann'', uw_groups = [''a'', ''b''], uw_queue = [ApplyJob (userPolicy ann)]\<rparr> \<and>
   list_all (\<lambda>job. GetUserIdentity job = Some ''ann'' \<and> map_option snd (GetUserGroups job) = Some [''a'', ''b'']) [ApplyJob (userPolicy ann)]"
proof -
  let ?p = "Submit (\<lambda>_ _. True) (ApplyJob (userPolicy ann)) (AddWorkerPool 2)"
  have w: "map_of (impersonationWorkersQueues (snd ?p)) ''ann.YSxi'' =
      Some \<lparr>uw_user = ''ann'', uw_groups = [''a'', ''b''], uw_queue = [ApplyJob (userPolicy ann)]\<rparr>"
    by (simp add: Submit_def user_policy_identity NoIdentity_def AddWorkerPool_def createUserWorker_def pushUserJob_def)
  have "pool_step\<^sup>*\<^sup>* (AddWorkerPool 2) (snd ?p)"
    by (rule r_into_rtranclp, rule submitted [where result = "fst ?p"]) simp
  from jobs_run_as_requested [OF this] w
  have "list_all (\<lambda>job. GetUserIdentity job = Some (uw_user \<lparr>uw_user = ''ann'', uw_groups = [''a'', ''b''], uw_queue = [ApplyJob (userPolicy ann)]\<rparr>) \<and>
      map_option snd (GetUserGroups job) = Some (uw_groups \<lparr>uw_user = ''ann'', uw_groups = [''a'', ''b''], uw_queue = [ApplyJob (userPolicy ann)]\<rparr>))
      (uw_queue \<lparr>uw_user = ''ann'', uw_groups = [''a'', ''b''], uw_queue = [ApplyJob (userPolicy ann)]\<rparr>)" by blast
  with w show ?thesis unfolding userWorker.select_convs by blast
qed

text \<open>
  A client that cannot be created locks the pool for ever: the call of \<open>Submit\<close> returns with the lock
  taken, no later step gives it back, and from then on every job that asks for an identity waits for it.
\<close>

theorem failed_impersonation_locks_pool:
  assumes "GetUserIdentity job = Some user" and "user \<noteq> NoIdentity" and "GetUserGroups job = Some (b64, groups)"
    and "\<not> impersonateOK user groups" and "\<not> impersonationWorkersLock pool"
    and "map_of (impersonationWorkersQueues pool) (user @ ''.'' @ b64) = None"
    and "Submit impersonateOK job pool = (result, pool1)" and "pool_step\<^sup>*\<^sup>* pool1 pool2"
    and "GetUserIdentity job' = Some user'" and "user' \<noteq> NoIdentity" and "GetUserGroups job' = Some (b64', groups')"
  shows "result = SubmitDropped \<and> Submit ok' job' pool2 = (SubmitLocked, pool2)"
proof -
  have first: "result = SubmitDropped" "impersonationWorkersLock pool1"
    using assms(1-7) by (auto simp: Submit_def createUserWorker_def Let_def)
  have kept: "impersonationWorkersLock q" if "pool_step p q" "impersonationWorkersLock p" for p q
    using that
  proof (induction rule: pool_step.induct)
    case (submitted impersonateOK job pool result pool')
    then show ?case by (auto simp: Submit_def split: option.splits if_splits)
  qed simp_all
  from assms(8) first(2) have "impersonationWorkersLock pool2"
    by (induction rule: rtranclp_induct) (auto intro: kept)
  with first(1) assms(9-11) show ?thesis by (simp add: Submit_def)
qed

theorem failed_impersonation_locks_pool_witness:
  "fst (Submit (\<lambda>_ _. False) (ApplyJob (userPolicy ann)) (AddWorkerPool 2)) = SubmitDropped \<and>
   Submit (\<lambda>_ _. True) (ApplyJob (userPolicy ann)) (snd (Submit (\<lambda>_ _. False) (ApplyJob (userPolicy ann)) (AddWorkerPool 2))) =
     (SubmitLocked, snd (Submit (\<lambda>_ _. False) (ApplyJob (userPolicy ann)) (AddWorkerPool 2)))"
  by (rule failed_impersonation_locks_pool [OF user_policy_identity(1) _ user_policy_identity(2) _ _ _ prod.collapse [symmetric] rtranclp.rtrancl_refl
      user_policy_identity(1) _ user_policy_identity(2)]) (simp_all add: AddWorkerPool_def NoIdentity_def)

section \<open>A bundle and its jobs\<close>

text \<open>
  The syncer of generic bundles at work on one bundle: it submits the jobs one after the other, workers
  take jobs from the head of a queue, and the jobs being run finish in any order, which counts the wait
  group down. The syncer goes on to the next bundle when all jobs are submitted and the count is zero.
\<close>

type_synonym runState = "specJob list \<times> WorkerPool \<times> specJob list \<times> int \<times> apiStore"

fun genericHandler :: "apiAnswers \<Rightarrow> bool \<Rightarrow> specJob \<Rightarrow> apiStore \<Rightarrow> apiStore" where
  "genericHandler api rbac (ApplyJob object) st = applyHandler api rbac object st"
| "genericHandler api rbac (DeleteJob object) st = deleteHandler api object st"
| "genericHandler api rbac (LabelsJob _) st = st"

inductive run_step :: "(string \<Rightarrow> string list \<Rightarrow> bool) \<Rightarrow> apiAnswers \<Rightarrow> bool \<Rightarrow> runState \<Rightarrow> runState \<Rightarrow> bool" for ok api rbac where
  queue: "Submit ok job pool = (SubmitQueued, pool') \<Longrightarrow> run_step ok api rbac (job # todo, pool, run, n, st) (todo, pool', run, n, st)"
| drop: "Submit ok job pool = (SubmitDropped, pool') \<Longrightarrow> run_step ok api rbac (job # todo, pool, run, n, st) (todo, pool', run, n, st)"
| take: "jobsQueue pool = job # rest \<Longrightarrow> run_step ok api rbac (todo, pool, run, n, st) (todo, pool\<lparr>jobsQueue := rest\<rparr>, run @ [job], n, st)"
| user_take: "map_of (impersonationWorkersQueues pool) i = Some w \<Longrightarrow> uw_queue w = job # rest \<Longrightarrow>
    run_step ok api rbac (todo, pool, run, n, st)
      (todo, pool\<lparr>impersonationWorkersQueues := AList.update i (w\<lparr>uw_queue := rest\<rparr>) (impersonationWorkersQueues pool)\<rparr>, run @ [job], n, st)"
| finish: "run_step ok api rbac (todo, pool, run @ job # run', n, st) (todo, pool, run @ run', n - 1, genericHandler api rbac job st)"

definition bundleJobs :: "bool \<Rightarrow> GenericBundle \<Rightarrow> specJob list" where
  "bundleJobs rbac b = syncObjects rbac (gb_Objects b) @ syncDeletedObjects rbac (gb_DeletedObjects b)"

definition startBundle :: "nat \<Rightarrow> bool \<Rightarrow> GenericBundle \<Rightarrow> apiStore \<Rightarrow> runState" where
  "startBundle workers rbac b st =
     (bundleJobs rbac b, AddWorkerPool workers, [], int (length (gb_Objects b) + length (gb_DeletedObjects b)), st)"

text \<open>The jobs in the queues.\<close>

definition userJobs :: "(string, userWorker) gomap \<Rightarrow> specJob multiset" where
  "userJobs m = sum_list (map (\<lambda>(i, w). mset (uw_queue w)) m)"

definition queued :: "WorkerPool \<Rightarrow> specJob multiset" where
  "queued pool = mset (jobsQueue pool) + userJobs (impersonationWorkersQueues pool)"

lemma userJobs_new: "map_of m i = None \<Longrightarrow> userJobs (AList.update i w m) = userJobs m + mset (uw_queue w)"
  by (induction m) (auto simp: userJobs_def ac_simps split: if_splits)

lemma userJobs_update: "map_of m i = Some w \<Longrightarrow> userJobs (AList.update i w' m) + mset (uw_queue w) = userJobs m + mset (uw_queue w')"
  by (induction m) (auto simp: userJobs_def ac_simps split: if_splits)

lemma pushUserJob_queued:
  assumes "pushUserJob i job pool = (SubmitQueued, pool')"
  shows "queued pool' = add_mset job (queued pool)"
proof -
  obtain w where w: "map_of (impersonationWorkersQueues pool) i = Some w"
      and pool': "pool' = pool\<lparr>impersonationWorkersQueues := AList.update i (w\<lparr>uw_queue := uw_queue w @ [job]\<rparr>) (impersonationWorkersQueues pool)\<rparr>"
    using assms by (auto simp: pushUserJob_def split: option.splits if_splits)
  show ?thesis using userJobs_update [OF w, of "w\<lparr>uw_queue := uw_queue w @ [job]\<rparr>"] by (simp add: pool' queued_def)
qed

lemma pushUserJob_result: "pushUserJob i job pool = (result, pool') \<Longrightarrow> result \<noteq> SubmitDropped"
  by (auto simp: pushUserJob_def split: option.splits if_splits)

lemma Submit_queued: "Submit ok job pool = (SubmitQueued, pool') \<Longrightarrow> queued pool' = add_mset job (queued pool)"
  by (auto simp: Submit_def Let_def createUserWorker_def queued_def userJobs_new split: option.splits if_splits dest!: pushUserJob_queued)

lemma Submit_dropped: "Submit ok job pool = (SubmitDropped, pool') \<Longrightarrow> queued pool' = queued pool"
  by (auto simp: Submit_def Let_def queued_def split: option.splits if_splits dest: pushUserJob_result)

lemma take_queued: "jobsQueue pool = job # rest \<Longrightarrow> queued pool = add_mset job (queued (pool\<lparr>jobsQueue := rest\<rparr>))"
  by (simp add: queued_def)

lemma user_take_queued:
  assumes "map_of (impersonationWorkersQueues pool) i = Some w" "uw_queue w = job # rest"
  shows "queued pool = add_mset job (queued (pool\<lparr>impersonationWorkersQueues := AList.update i (w\<lparr>uw_queue := rest\<rparr>) (impersonationWorkersQueues pool)\<rparr>))"
  using userJobs_update [OF assms(1), of "w\<lparr>uw_queue := rest\<rparr>"] assms(2) by (auto simp: queued_def)

text \<open>
  A job whose identity does not get in the way: it asks for none, or for one that decodes and that the
  agent may impersonate.
\<close>

definition identity_ok :: "(string \<Rightarrow> string list \<Rightarrow> bool) \<Rightarrow> specJob \<Rightarrow> bool" where
  "identity_ok ok job \<longleftrightarrow> (case GetUserIdentity job of
      None \<Rightarrow> False
    | Some user \<Rightarrow> user = NoIdentity \<or> (case GetUserGroups job of None \<Rightarrow> False | Some (b64, groups) \<Rightarrow> ok user groups))"

text \<open>
  What a run keeps: each job of the bundle is still to be submitted, queued, being run, finished or
  dropped; the count is that of the jobs not finished; and the store is what the finished jobs left.
\<close>

fun run_inv :: "(string \<Rightarrow> string list \<Rightarrow> bool) \<Rightarrow> apiAnswers \<Rightarrow> bool \<Rightarrow> specJob list \<Rightarrow> apiStore \<Rightarrow> runState \<Rightarrow> bool" where
  "run_inv ok api rbac jobs st0 (todo, pool, run, n, st) \<longleftrightarrow> (\<exists>finished dropped.
     mset todo + queued pool + mset run + mset finished + dropped = mset jobs \<and> n = int (length jobs) - int (length finished) \<and>
     st = fold (genericHandler api rbac) finished st0 \<and>
     (\<forall>job. job \<in># queued pool + mset run + mset finished \<longrightarrow> GetUserIdentity job \<noteq> None) \<and>
     (\<forall>job. job \<in># dropped \<longrightarrow> \<not> identity_ok ok job))"

lemma Submit_results:
  "Submit ok job pool = (SubmitQueued, pool') \<Longrightarrow> GetUserIdentity job \<noteq> None"
  "Submit ok job pool = (SubmitDropped, pool') \<Longrightarrow> \<not> identity_ok ok job"
  by (auto simp: Submit_def identity_ok_def createUserWorker_def Let_def split: option.splits if_splits dest: pushUserJob_result)

lemma run_step_inv: "run_step ok api rbac x y \<Longrightarrow> run_inv ok api rbac jobs st0 x \<Longrightarrow> run_inv ok api rbac jobs st0 y"
proof (induction rule: run_step.induct)
  case (queue job pool pool' todo run n st)
  then obtain finished dropped where inv: "mset (job # todo) + queued pool + mset run + mset finished + dropped = mset jobs"
      "n = int (length jobs) - int (length finished)" "st = fold (genericHandler api rbac) finished st0"
      "\<forall>job. job \<in># queued pool + mset run + mset finished \<longrightarrow> GetUserIdentity job \<noteq> None"
      "\<forall>job. job \<in># dropped \<longrightarrow> \<not> identity_ok ok job" by auto
  show ?case
    unfolding run_inv.simps using inv Submit_queued [OF queue.hyps] Submit_results(1) [OF queue.hyps]
    by (intro exI [of _ finished] exI [of _ dropped]) auto
next
  case (drop job pool pool' todo run n st)
  then obtain finished dropped where inv: "mset (job # todo) + queued pool + mset run + mset finished + dropped = mset jobs"
      "n = int (length jobs) - int (length finished)" "st = fold (genericHandler api rbac) finished st0"
      "\<forall>job. job \<in># queued pool + mset run + mset finished \<longrightarrow> GetUserIdentity job \<noteq> None"
      "\<forall>job. job \<in># dropped \<longrightarrow> \<not> identity_ok ok job" by auto
  show ?case
    unfolding run_inv.simps using inv Submit_dropped [OF drop.hyps] Submit_results(2) [OF drop.hyps]
    by (intro exI [of _ finished] exI [of _ "add_mset job dropped"]) auto
next
  case (take pool job rest todo run n st)
  then show ?case by (auto simp: take_queued [OF take.hyps])
next
  case (user_take pool i w job rest todo run n st)
  then show ?case unfolding run_inv.simps user_take_queued [OF user_take.hyps] by (elim exE) (rule exI, rule exI, auto)
next
  case (finish todo pool run job run' n st)
  then obtain finished dropped where inv: "mset todo + queued pool + mset (run @ job # run') + mset finished + dropped = mset jobs"
      "n = int (length jobs) - int (length finished)" "st = fold (genericHandler api rbac) finished st0"
      "\<forall>x. x \<in># queued pool + mset (run @ job # run') + mset finished \<longrightarrow> GetUserIdentity x \<noteq> None"
      "\<forall>x. x \<in># dropped \<longrightarrow> \<not> identity_ok ok x" by auto
  show ?case
    unfolding run_inv.simps using inv by (intro exI [of _ "finished @ [job]"] exI [of _ dropped]) (auto simp: ac_simps)
qed

lemma run_steps_inv: "(run_step ok api rbac)\<^sup>*\<^sup>* x y \<Longrightarrow> run_inv ok api rbac jobs st0 x \<Longrightarrow> run_inv ok api rbac jobs st0 y"
  by (induction rule: rtranclp_induct) (auto simp del: run_inv.simps intro: run_step_inv)

lemma bundleJobs_length [simp]: "length (bundleJobs rbac b) = length (gb_Objects b) + length (gb_DeletedObjects b)"
  by (simp add: bundleJobs_def syncObjects_def syncDeletedObjects_def)

lemma start_inv: "run_inv ok api rbac (bundleJobs rbac b) st (startBundle workers rbac b st)"
  unfolding startBundle_def run_inv.simps
  by (intro exI [of _ "[]"] exI [of _ "{#}"]) (simp add: queued_def AddWorkerPool_def userJobs_def)

text \<open>
  An object whose identity annotation is not base64 stops the syncer of generic bundles when identities
  are enforced: its job is dropped without being counted down, so that the wait group never reaches zero,
  whatever else runs, and no later bundle is handled.
\<close>

theorem malformed_identity_blocks_syncer:
  assumes "(run_step ok api True)\<^sup>*\<^sup>* (startBundle workers True b st) (todo, pool, run, n, st')"
    and "object \<in> set (gb_Objects b)" and "GetUserIdentity (ApplyJob object) = None"
  shows "0 < n"
proof -
  obtain finished dropped where inv: "mset todo + queued pool + mset run + mset finished + dropped = mset (bundleJobs True b)"
      "n = int (length (bundleJobs True b)) - int (length finished)"
      "\<forall>job. job \<in># queued pool + mset run + mset finished \<longrightarrow> GetUserIdentity job \<noteq> None"
    using run_steps_inv [OF assms(1) start_inv] by auto
  have "ApplyJob object \<in># mset (bundleJobs True b)"
    using assms(2) by (auto simp: bundleJobs_def syncObjects_def)
  then have "ApplyJob object \<in># mset todo + dropped"
    using inv(3) assms(3) unfolding inv(1) [symmetric] by auto
  then have "0 < size (mset todo + dropped)" by (metis empty_not_add_mset gr0I insert_DiffM size_eq_0_iff_empty)
  moreover have "size (mset todo + queued pool + mset run + mset finished + dropped) = length (bundleJobs True b)"
    unfolding inv(1) by simp
  ultimately have "length finished < length (bundleJobs True b)" unfolding size_union size_mset by linarith
  then show ?thesis using inv(2) by linarith
qed

definition sampleApi :: apiAnswers where
  "sampleApi = \<lparr>api_createNamespace = (\<lambda>_. None), api_apply = (\<lambda>object old. Inr object), api_delete = (\<lambda>_. None),
     api_getCluster = (\<lambda>_. None), api_updateCluster = (\<lambda>_. None), api_now = 4\<rparr>"

definition emptyStore :: apiStore where
  "emptyStore = \<lparr>api_objects = (\<lambda>_. None), api_namespaces = {}, api_clusters = (\<lambda>_. None)\<rparr>"

definition badBundle :: GenericBundle where
  "badBundle = \<lparr>gb_Objects = [userPolicy ''%''], gb_DeletedObjects = []\<rparr>"

theorem malformed_identity_blocks_syncer_witness:
  "(run_step (\<lambda>_ _. True) sampleApi True)\<^sup>*\<^sup>* (startBundle 1 True badBundle emptyStore) ([], AddWorkerPool 1, [], 1, emptyStore) \<and> (0 :: int) < 1"
proof -
  have drop: "Submit (\<lambda>_ _. True) (ApplyJob (userPolicy ''%'')) (AddWorkerPool 1) = (SubmitDropped, AddWorkerPool 1)"
    by (simp add: Submit_def user_policy_identity)
  have "startBundle 1 True badBundle emptyStore = ([ApplyJob (userPolicy ''%'')], AddWorkerPool 1, [], 1, emptyStore)"
    by (simp add: startBundle_def badBundle_def bundleJobs_def syncObjects_def syncDeletedObjects_def)
  then have run: "(run_step (\<lambda>_ _. True) sampleApi True)\<^sup>*\<^sup>* (startBundle 1 True badBundle emptyStore) ([], AddWorkerPool 1, [], 1, emptyStore)"
    using run_step.drop [OF drop] by auto
  have "0 < (1 :: int)"
    by (rule malformed_identity_blocks_syncer [OF run, of "userPolicy ''%''"]) (simp_all add: badBundle_def user_policy_identity)
  with run show ?thesis by simp
qed

text \<open>What a job does to the object it is about.\<close>

fun jobKey :: "specJob \<Rightarrow> string \<times> string \<times> string" where
  "jobKey (ApplyJob object) = apiKey object"
| "jobKey (DeleteJob object) = apiKey object"
| "jobKey (LabelsJob _) = ('''', '''', '''')"

fun job_effect :: "apiAnswers \<Rightarrow> specJob \<Rightarrow> specObject option \<Rightarrow> specObject option" where
  "job_effect api (ApplyJob object) old = (case api_apply api object old of Inl err \<Rightarrow> old | Inr stored \<Rightarrow> Some stored)"
| "job_effect api (DeleteJob object) old = (if api_delete api object = None then None else old)"
| "job_effect api (LabelsJob _) old = old"

lemma genericHandler_objects:
  assumes "rbac \<or> (\<forall>ns. api_createNamespace api ns = None)" "job_object job \<noteq> None"
  shows "api_objects (genericHandler api rbac job st) k = (if k = jobKey job then job_effect api job (api_objects st k) else api_objects st k)"
  using assms
  by (cases job) (auto simp: applyHandler_def CreateNamespaceIfNotExist_def helper_UpdateObject_def deleteHandler_def helper_DeleteObject_def
      split: sum.splits option.splits if_splits)

lemma fold_handler_objects:
  assumes ns: "rbac \<or> (\<forall>ns. api_createNamespace api ns = None)" and "\<forall>job\<in>set jobs. job_object job \<noteq> None" "distinct (map jobKey jobs)"
  shows "(\<forall>job\<in>set jobs. api_objects (fold (genericHandler api rbac) jobs st) (jobKey job) = job_effect api job (api_objects st (jobKey job))) \<and>
    (\<forall>k. k \<notin> jobKey ` set jobs \<longrightarrow> api_objects (fold (genericHandler api rbac) jobs st) k = api_objects st k)"
  using assms(2,3)
proof (induction jobs arbitrary: st)
  case (Cons job jobs)
  have eff: "api_objects (genericHandler api rbac job st) k = (if k = jobKey job then job_effect api job (api_objects st k) else api_objects st k)" for k
    using genericHandler_objects [OF ns] Cons.prems by simp
  have other: "jobKey j \<noteq> jobKey job" if "j \<in> set jobs" for j
    using that Cons.prems(2) by simp (metis image_eqI)
  from Cons.IH [of "genericHandler api rbac job st"] Cons.prems show ?case
    by (auto simp: eff simp del: split_paired_All dest: other)
qed simp

section \<open>The run of a bundle\<close>

text \<open>Without enforcement the objects lose their identity, and all jobs go to the common queue.\<close>

lemma anonymous_identity: "job \<in> set (bundleJobs False b) \<Longrightarrow> GetUserIdentity job = Some NoIdentity"
  by (auto simp: bundleJobs_def syncObjects_def syncDeletedObjects_def GetUserIdentity_def decodeBase64IdentityAnnotation_def anonymize_def map_of_delete
      UserIdentityAnnotation_def UserGroupsAnnotation_def)

lemma bundle_identities:
  assumes "rbac \<longrightarrow> list_all (identity_ok ok) (bundleJobs rbac b)"
  shows "\<forall>job\<in>set (bundleJobs rbac b). identity_ok ok job"
  using assms anonymous_identity [of _ b] by (cases rbac) (auto simp: list_all_iff identity_ok_def)

lemma bundleJobs_object: "job \<in> set (bundleJobs rbac b) \<Longrightarrow> job_object job \<noteq> None"
  by (auto simp: bundleJobs_def syncObjects_def syncDeletedObjects_def)

text \<open>Such a job is queued, unless its queue is full: then a worker has a job to take.\<close>

lemma Submit_identity_ok:
  assumes "identity_ok ok job" "\<not> impersonationWorkersLock pool" "0 < poolSize pool" "Submit ok job pool = (result, pool')"
  shows "\<not> impersonationWorkersLock pool' \<and> poolSize pool' = poolSize pool \<and>
    (distinct (map fst (impersonationWorkersQueues pool)) \<longrightarrow> distinct (map fst (impersonationWorkersQueues pool'))) \<and>
    (result = SubmitQueued \<or> result = SubmitFull \<and> (jobsQueue pool = [] \<longrightarrow> \<not> (\<forall>i w. map_of (impersonationWorkersQueues pool) i = Some w \<longrightarrow> uw_queue w = [])))"
  using assms
  by (auto 0 4 simp: identity_ok_def Submit_def createUserWorker_def pushUserJob_def Let_def distinct_update split: option.splits if_splits)

fun smooth_inv :: "(string \<Rightarrow> string list \<Rightarrow> bool) \<Rightarrow> nat \<Rightarrow> runState \<Rightarrow> bool" where
  "smooth_inv ok workers (todo, pool, run, n, st) \<longleftrightarrow>
     \<not> impersonationWorkersLock pool \<and> poolSize pool = workers \<and> distinct (map fst (impersonationWorkersQueues pool)) \<and>
     (\<forall>job\<in>set todo. identity_ok ok job)"

text \<open>A job is submitted, taken and finished: three steps, of which a state has some left.\<close>

fun work_left :: "runState \<Rightarrow> nat" where
  "work_left (todo, pool, run, n, st) = 3 * length todo + 2 * size (queued pool) + length run"

lemma smooth_step:
  assumes "run_step ok api rbac x y" "smooth_inv ok workers x" "0 < workers"
  shows "smooth_inv ok workers y \<and> work_left x = Suc (work_left y)"
  using assms
proof (induction rule: run_step.induct)
  case (queue job pool pool' todo run n st)
  then show ?case using Submit_identity_ok [of ok job pool SubmitQueued pool'] by (simp add: Submit_queued)
next
  case (drop job pool pool' todo run n st)
  then show ?case using Submit_identity_ok [of ok job pool SubmitDropped pool'] by simp
next
  case (take pool job rest todo run n st)
  then show ?case by (simp add: take_queued [OF take.hyps])
next
  case (user_take pool i w job rest todo run n st)
  then show ?case by (simp add: user_take_queued [OF user_take.hyps] distinct_update)
qed simp

lemma smooth_run:
  assumes "(run_step ok api rbac ^^ k) x y" "smooth_inv ok workers x" "0 < workers"
  shows "smooth_inv ok workers y \<and> work_left x = k + work_left y"
  using assms(1)
proof (induction k arbitrary: y)
  case 0
  then show ?case using assms(2) by simp
next
  case (Suc k)
  then obtain z where "(run_step ok api rbac ^^ k) x z" "run_step ok api rbac z y" by auto
  then have "smooth_inv ok workers y \<and> work_left z = Suc (work_left y)" using smooth_step [OF _ _ assms(3)] Suc.IH by blast
  with Suc.IH [OF \<open>(run_step ok api rbac ^^ k) x z\<close>] show ?case by simp
qed

lemma no_userJobs: "distinct (map fst m) \<Longrightarrow> (\<And>i w. map_of m i = Some w \<Longrightarrow> uw_queue w = []) \<Longrightarrow> userJobs m = {#}"
proof (induction m)
  case (Cons x m)
  obtain i w where x: "x = (i, w)" by fastforce
  have "uw_queue w' = []" if "map_of m j = Some w'" for j w'
    using that Cons.prems x by (metis domI dom_map_of_conv_image_fst distinct.simps(2) fst_conv list.simps(9) list.set_map map_of_Cons_code(2))
  moreover have "uw_queue w = []" using Cons.prems(2) [of i w] x by simp
  ultimately show ?case using Cons x by (simp add: userJobs_def)
qed (simp add: userJobs_def)

lemma smooth_progress:
  assumes "smooth_inv ok workers (todo, pool, run, n, st)" "0 < workers" "\<And>y. \<not> run_step ok api rbac (todo, pool, run, n, st) y"
  shows "todo = [] \<and> queued pool = {#} \<and> run = []"
proof -
  have run: "run = []"
  proof (rule ccontr)
    assume "run \<noteq> []"
    then obtain job rest where "run = [] @ job # rest" by (cases run) auto
    then show False using finish assms(3) by metis
  qed
  have queue: "jobsQueue pool = []"
    using take assms(3) by (cases "jobsQueue pool") blast+
  have users: "uw_queue w = []" if "map_of (impersonationWorkersQueues pool) i = Some w" for i w
    using user_take [OF that] assms(3) by (cases "uw_queue w") blast+
  have "todo = []"
  proof (cases todo)
    case (Cons job rest)
    obtain result pool' where s: "Submit ok job pool = (result, pool')" by fastforce
    with Submit_identity_ok [OF _ _ _ s] assms(1,2) Cons queue users have "result = SubmitQueued" by auto
    with s show ?thesis using run_step.queue assms(3) unfolding Cons by blast
  qed
  with run queue no_userJobs [of "impersonationWorkersQueues pool"] users assms(1) show ?thesis by (simp add: queued_def)
qed

lemma start_smooth:
  assumes "rbac \<longrightarrow> list_all (identity_ok ok) (bundleJobs rbac b)"
  shows "smooth_inv ok workers (startBundle workers rbac b st)" and "work_left (startBundle workers rbac b st) = 3 * length (bundleJobs rbac b)"
  using bundle_identities [OF assms] by (simp_all add: startBundle_def AddWorkerPool_def queued_def userJobs_def)

text \<open>A run that has no work left has finished every job and has counted the wait group down to zero.\<close>

lemma run_over:
  assumes "(run_step ok api rbac)\<^sup>*\<^sup>* (startBundle workers rbac b st) (todo, pool, run, n, st')"
    and "rbac \<longrightarrow> list_all (identity_ok ok) (bundleJobs rbac b)" and "todo = [] \<and> queued pool = {#} \<and> run = []"
  shows "n = 0 \<and> (\<exists>finished. mset finished = mset (bundleJobs rbac b) \<and> st' = fold (genericHandler api rbac) finished st)"
proof -
  obtain finished dropped where inv: "mset finished + dropped = mset (bundleJobs rbac b)"
      "n = int (length (bundleJobs rbac b)) - int (length finished)" "st' = fold (genericHandler api rbac) finished st"
      "\<forall>job. job \<in># dropped \<longrightarrow> \<not> identity_ok ok job"
    using run_steps_inv [OF assms(1) start_inv] assms(3) by auto
  have "job \<notin># dropped" for job
    using inv(1,4) bundle_identities [OF assms(2)] by (metis set_mset_mset union_iff)
  then have fin: "mset finished = mset (bundleJobs rbac b)" using inv(1) by (metis add.right_neutral multiset_nonemptyE)
  with mset_eq_length [OF fin] inv(2,3) show ?thesis by auto
qed

text \<open>
  C8. Every run on a bundle is over after exactly three steps for each job, a submission, a start and an
  end, and no sooner: a run that has made fewer steps can go on, so that no submission waits for ever,
  and after the last one every job has been handled once, in the order in which they finished, and the
  wait group is at zero. This is so when there is a worker and, where identities are enforced, each
  identity decodes and may be impersonated.
\<close>

theorem bundle_run_length:
  assumes "(run_step ok api rbac ^^ k) (startBundle workers rbac b st) (todo, pool, run, n, st')"
    and "0 < workers" and "rbac \<longrightarrow> list_all (identity_ok ok) (bundleJobs rbac b)"
  shows "k \<le> 3 * length (bundleJobs rbac b) \<and>
    (if k < 3 * length (bundleJobs rbac b) then \<exists>y. run_step ok api rbac (todo, pool, run, n, st') y
     else todo = [] \<and> queued pool = {#} \<and> run = [] \<and> n = 0 \<and>
       (\<exists>finished. mset finished = mset (bundleJobs rbac b) \<and> st' = fold (genericHandler api rbac) finished st))"
proof -
  have left: "3 * length (bundleJobs rbac b) = k + work_left (todo, pool, run, n, st')" and smooth: "smooth_inv ok workers (todo, pool, run, n, st')"
    using smooth_run [OF assms(1) start_smooth(1) [OF assms(3)] assms(2)] start_smooth(2) [OF assms(3)] by simp_all
  show ?thesis
  proof (cases "k < 3 * length (bundleJobs rbac b)")
    case True
    with left have "\<not> (todo = [] \<and> queued pool = {#} \<and> run = [])" by auto
    with smooth_progress [OF smooth assms(2)] have "\<exists>y. run_step ok api rbac (todo, pool, run, n, st') y" by blast
    with True show ?thesis by simp
  next
    case False
    with left have over: "todo = [] \<and> queued pool = {#} \<and> run = []" by simp
    with run_over [OF relpowp_imp_rtranclp [OF assms(1)] assms(3) over] False left show ?thesis by simp
  qed
qed

text \<open>
  C7. A bundle is applied as a whole: with at least one worker, when the bundle names each object once and,
  where identities are enforced, each identity decodes and may be impersonated, or else namespaces can be
  created, a run that cannot go on is over, the wait group at zero; and whatever the order in which the
  workers finished the jobs, each object of the bundle has been applied to what the API server had, or
  deleted there, as the server answered, and no other object changed.
\<close>

theorem bundle_applied:
  assumes "(run_step ok api rbac)\<^sup>*\<^sup>* (startBundle workers rbac b st) (todo, pool, run, n, st')"
    and "\<And>y. \<not> run_step ok api rbac (todo, pool, run, n, st') y"
    and "0 < workers" and "distinct (map jobKey (bundleJobs rbac b))"
    and "rbac \<longrightarrow> list_all (identity_ok ok) (bundleJobs rbac b)" and "rbac \<or> (\<forall>ns. api_createNamespace api ns = None)"
  shows "todo = [] \<and> n = 0 \<and>
    list_all (\<lambda>job. api_objects st' (jobKey job) = job_effect api job (api_objects st (jobKey job))) (bundleJobs rbac b) \<and>
    (\<forall>k. k \<in> set (map jobKey (bundleJobs rbac b)) \<or> api_objects st' k = api_objects st k)"
proof -
  obtain k where "(run_step ok api rbac ^^ k) (startBundle workers rbac b st) (todo, pool, run, n, st')"
    using rtranclp_imp_relpowp [OF assms(1)] by blast
  then have "smooth_inv ok workers (todo, pool, run, n, st')" using smooth_run [OF _ start_smooth(1) [OF assms(5)] assms(3)] by blast
  then have over: "todo = [] \<and> queued pool = {#} \<and> run = []" by (rule smooth_progress [OF _ assms(3,2)])
  obtain finished where n: "n = 0" and fin: "mset finished = mset (bundleJobs rbac b)" and st': "st' = fold (genericHandler api rbac) finished st"
    using run_over [OF assms(1,5) over] by blast
  have jobs: "set finished = set (bundleJobs rbac b)" using mset_eq_setD [OF fin] .
  have "distinct (map jobKey finished)"
    using assms(4) mset_eq_imp_distinct_iff [of "map jobKey finished" "map jobKey (bundleJobs rbac b)"] fin by simp
  then have "(\<forall>job\<in>set finished. api_objects st' (jobKey job) = job_effect api job (api_objects st (jobKey job))) \<and>
      (\<forall>k. k \<notin> jobKey ` set finished \<longrightarrow> api_objects st' k = api_objects st k)"
    unfolding st' using fold_handler_objects [OF assms(6)] bundleJobs_object jobs by blast
  with over n show ?thesis by (auto simp: jobs list_all_iff simp del: split_paired_All)
qed

definition oneBundle :: GenericBundle where
  "oneBundle = \<lparr>gb_Objects = [samplePolicy ''t''], gb_DeletedObjects = []\<rparr>"

definition oneJob :: specJob where
  "oneJob = ApplyJob (anonymize (samplePolicy ''t''))"

lemma one_run:
  "(run_step (\<lambda>_ _. True) sampleApi False)\<^sup>*\<^sup>* (startBundle 1 False oneBundle emptyStore) ([], AddWorkerPool 1, [], 0, genericHandler sampleApi False oneJob emptyStore)"
proof -
  let ?p = "(AddWorkerPool 1)\<lparr>jobsQueue := [oneJob]\<rparr>"
  let ?step = "run_step (\<lambda>_ _. True) sampleApi False"
  have "GetUserIdentity oneJob = Some NoIdentity"
    using anonymous_identity [of oneJob oneBundle] by (simp add: oneJob_def oneBundle_def bundleJobs_def syncObjects_def)
  then have sub: "Submit (\<lambda>_ _. True) oneJob (AddWorkerPool 1) = (SubmitQueued, ?p)" by (simp add: Submit_def AddWorkerPool_def)
  have start: "startBundle 1 False oneBundle emptyStore = ([oneJob], AddWorkerPool 1, [], 1, emptyStore)"
    by (simp add: startBundle_def oneBundle_def oneJob_def bundleJobs_def syncObjects_def syncDeletedObjects_def)
  have "?step ([oneJob], AddWorkerPool 1, [], 1, emptyStore) ([], ?p, [], 1, emptyStore)" by (rule queue [OF sub])
  moreover have "?step ([], ?p, [], 1, emptyStore) ([], ?p\<lparr>jobsQueue := []\<rparr>, [] @ [oneJob], 1, emptyStore)" by (rule take) simp
  moreover have "?p\<lparr>jobsQueue := []\<rparr> = AddWorkerPool 1" by (simp add: AddWorkerPool_def)
  moreover have "?step ([], AddWorkerPool 1, [] @ oneJob # [], 1, emptyStore) ([], AddWorkerPool 1, [] @ [], 1 - 1, genericHandler sampleApi False oneJob emptyStore)"
    by (rule finish)
  ultimately show ?thesis unfolding start by (metis (no_types, lifting) append_Nil append.right_neutral converse_rtranclp_into_rtranclp diff_self rtranclp.rtrancl_refl)
qed

lemma one_run_over: "\<not> run_step (\<lambda>_ _. True) sampleApi False ([], AddWorkerPool 1, [], 0, genericHandler sampleApi False oneJob emptyStore) y"
  by (auto elim!: run_step.cases simp: AddWorkerPool_def)

theorem bundle_applied_witness:
  "[] = ([] :: specJob list) \<and> (0 :: int) = 0 \<and>
    list_all (\<lambda>job. api_objects (genericHandler sampleApi False oneJob emptyStore) (jobKey job) = job_effect sampleApi job (api_objects emptyStore (jobKey job)))
      (bundleJobs False oneBundle) \<and>
    (\<forall>k. k \<in> set (map jobKey (bundleJobs False oneBundle)) \<or> api_objects (genericHandler sampleApi False oneJob emptyStore) k = api_objects emptyStore k)"
  by (rule bundle_applied [OF one_run one_run_over])
    (simp_all add: sampleApi_def oneBundle_def bundleJobs_def syncObjects_def syncDeletedObjects_def)

text \<open>A bundle with an identity, by the worker of its user.\<close>

definition userBundle :: GenericBundle where
  "userBundle = \<lparr>gb_Objects = [userPolicy ann], gb_DeletedObjects = []\<rparr>"

definition userPool :: "specJob list \<Rightarrow> WorkerPool" where
  "userPool jobs = (AddWorkerPool 1)\<lparr>impersonationWorkersQueues := [(''ann.YSxi'', \<lparr>uw_user = ''ann'', uw_groups = [''a'', ''b''], uw_queue = jobs\<rparr>)]\<rparr>"

lemma user_bundle_jobs: "bundleJobs True userBundle = [ApplyJob (userPolicy ann)]"
  by (simp add: bundleJobs_def userBundle_def syncObjects_def syncDeletedObjects_def)

lemma user_bundle_run:
  "(run_step (\<lambda>_ _. True) sampleApi True ^^ 3) (startBundle 1 True userBundle emptyStore)
     ([], userPool [], [], 0, genericHandler sampleApi True (ApplyJob (userPolicy ann)) emptyStore)"
proof -
  let ?j = "ApplyJob (userPolicy ann)" and ?step = "run_step (\<lambda>_ _. True) sampleApi True"
  have "Submit (\<lambda>_ _. True) ?j (AddWorkerPool 1) = (SubmitQueued, userPool [?j])"
    by (simp add: Submit_def user_policy_identity NoIdentity_def AddWorkerPool_def createUserWorker_def pushUserJob_def userPool_def)
  from queue [OF this, of sampleApi True "[]" "[]" 1 emptyStore]
  have 1: "?step (startBundle 1 True userBundle emptyStore) ([], userPool [?j], [], 1, emptyStore)"
    by (simp add: startBundle_def user_bundle_jobs) (simp add: userBundle_def)
  have "?step ([], userPool [?j], [], 1, emptyStore) ([], userPool [], [] @ [?j], 1, emptyStore)"
    using user_take [of "userPool [?j]" "''ann.YSxi''" "\<lparr>uw_user = ''ann'', uw_groups = [''a'', ''b''], uw_queue = [?j]\<rparr>" ?j "[]"
        "\<lambda>_ _. True" sampleApi True "[]" "[]" 1 emptyStore] by (simp add: userPool_def)
  moreover have "?step ([], userPool [], [] @ ?j # [], 1, emptyStore) ([], userPool [], [] @ [], 1 - 1, genericHandler sampleApi True ?j emptyStore)"
    by (rule finish)
  ultimately show ?thesis using 1 unfolding numeral_3_eq_3 by (auto intro!: relpowp_Suc_I)
qed

theorem bundle_run_length_witness:
  "(run_step (\<lambda>_ _. True) sampleApi True ^^ 3) (startBundle 1 True userBundle emptyStore)
     ([], userPool [], [], 0, genericHandler sampleApi True (ApplyJob (userPolicy ann)) emptyStore) \<and>
   (3 :: nat) \<le> 3 * length (bundleJobs True userBundle) \<and>
   (\<exists>finished. mset finished = mset (bundleJobs True userBundle) \<and>
      genericHandler sampleApi True (ApplyJob (userPolicy ann)) emptyStore = fold (genericHandler sampleApi True) finished emptyStore)"
proof -
  have "list_all (identity_ok (\<lambda>_ _. True)) (bundleJobs True userBundle)"
    by (simp add: user_bundle_jobs identity_ok_def user_policy_identity)
  with bundle_run_length [OF user_bundle_run] user_bundle_run show ?thesis by (simp add: user_bundle_jobs)
qed

section \<open>Managed cluster labels\<close>

definition labelsOf :: "ManagedCluster \<Rightarrow> (string, string) gomap" where
  "labelsOf mc = (case mc_Labels mc of None \<Rightarrow> [] | Some labels \<Rightarrow> labels)"

text \<open>The label the entry asks for, given the one the cluster has.\<close>

definition wantedLabel :: "ManagedClusterLabelsSpec \<Rightarrow> string \<Rightarrow> string option \<Rightarrow> string option" where
  "wantedLabel entry key old =
     (if key \<in> set (ml_DeletedLabelKeys entry) then None else (case map_of (ml_Labels entry) key of Some v \<Rightarrow> Some v | None \<Rightarrow> old))"

lemma map_of_fold_delete: "map_of (fold AList.delete ks m) k = (if k \<in> set ks then None else map_of m k)"
  by (induction ks arbitrary: m) (auto simp: map_of_delete)

lemma enforceLabels_lookup:
  assumes "enforceLabels entry mc = Some mc'" "wf_map (ml_Labels entry)"
  shows "map_of (labelsOf mc') key = wantedLabel entry key (map_of (labelsOf mc) key)"
  using assms
  by (auto simp: enforceLabels_def labelsOf_def wantedLabel_def map_of_fold_delete map_of_fold_update map_add_def split: option.splits if_splits)

lemma updateManagedFieldEntry_labels [simp]: "labelsOf (updateManagedFieldEntry now entry mc) = labelsOf mc"
  by (simp add: updateManagedFieldEntry_def labelsOf_def Let_def split: option.splits)

text \<open>Nothing fails and nothing panics.\<close>

definition clusters_available :: "apiAnswers \<Rightarrow> bool" where
  "clusters_available api \<longleftrightarrow> (\<forall>c. api_getCluster api c = None) \<and> (\<forall>c. api_updateCluster api c = None)"

definition entry_done :: "ManagedClusterLabelsSpec \<Rightarrow> apiStore \<Rightarrow> managedClusterLabelsBundleSyncer \<times> apiStore \<Rightarrow> bool" where
  "entry_done entry st state' \<longleftrightarrow>
     getManagedClusterLastProcessedTimestamp (ml_ClusterName entry) (fst state') = ml_UpdateTimestamp entry \<and>
     (case (api_clusters st (ml_ClusterName entry), api_clusters (snd state') (ml_ClusterName entry)) of
        (None, None) \<Rightarrow> True
      | (Some mc, Some mc') \<Rightarrow> \<forall>key. map_of (labelsOf mc') key = wantedLabel entry key (map_of (labelsOf mc) key)
      | _ \<Rightarrow> False)"

lemma labelsHandler_done:
  assumes "clusters_available api" "labelsHandler api entry st = Some (marked, st')" "wf_map (ml_Labels entry)"
  shows "marked \<and> entry_done entry st (managedClusterMarkUpdated entry s, st') \<and> (\<forall>c. c = ml_ClusterName entry \<or> api_clusters st' c = api_clusters st c)"
  using assms
  by (auto simp: labelsHandler_def clusters_available_def entry_done_def getManagedClusterLastProcessedTimestamp_def managedClusterMarkUpdated_def
      enforceLabels_lookup split: option.splits if_splits)

lemma mark_other: "c \<noteq> ml_ClusterName entry \<Longrightarrow>
  getManagedClusterLastProcessedTimestamp c (managedClusterMarkUpdated entry s) = getManagedClusterLastProcessedTimestamp c s"
  by (simp add: getManagedClusterLastProcessedTimestamp_def managedClusterMarkUpdated_def)

lemma entry_done_cong:
  "getManagedClusterLastProcessedTimestamp (ml_ClusterName e) s' = getManagedClusterLastProcessedTimestamp (ml_ClusterName e) s1 \<Longrightarrow>
   api_clusters st' (ml_ClusterName e) = api_clusters st1 (ml_ClusterName e) \<Longrightarrow> entry_done e st (s1, st1) \<Longrightarrow> entry_done e st (s', st')"
  by (simp add: entry_done_def)

lemma handleEntries_done:
  assumes "clusters_available api" "handleEntries api es (s, st) = Some (s', st')" "distinct (map ml_ClusterName es)" "\<forall>e\<in>set es. wf_map (ml_Labels e)"
  shows "(\<forall>e\<in>set es. if getManagedClusterLastProcessedTimestamp (ml_ClusterName e) s < ml_UpdateTimestamp e then entry_done e st (s', st')
      else getManagedClusterLastProcessedTimestamp (ml_ClusterName e) s' = getManagedClusterLastProcessedTimestamp (ml_ClusterName e) s) \<and>
    (\<forall>c. c \<notin> ml_ClusterName ` set es \<longrightarrow> api_clusters st' c = api_clusters st c \<and>
      getManagedClusterLastProcessedTimestamp c s' = getManagedClusterLastProcessedTimestamp c s)"
  using assms(2-4)
proof (induction es arbitrary: s st)
  case (Cons e es)
  let ?newer = "getManagedClusterLastProcessedTimestamp (ml_ClusterName e) s < ml_UpdateTimestamp e"
  obtain s1 st1 where rest: "handleEntries api es (s1, st1) = Some (s', st')"
      and head: "if ?newer then entry_done e st (s1, st1) else s1 = s"
      and other: "\<And>c. c \<noteq> ml_ClusterName e \<Longrightarrow> api_clusters st1 c = api_clusters st c \<and>
        getManagedClusterLastProcessedTimestamp c s1 = getManagedClusterLastProcessedTimestamp c s"
  proof (cases ?newer)
    case True
    then obtain marked st1 where h: "labelsHandler api e st = Some (marked, st1)"
        "handleEntries api es (if marked then managedClusterMarkUpdated e s else s, st1) = Some (s', st')"
      using Cons.prems(1) by (auto split: option.splits)
    have "wf_map (ml_Labels e)" using Cons.prems(3) by simp
    note d = labelsHandler_done [OF assms(1) h(1) this, of s]
    have "handleEntries api es (managedClusterMarkUpdated e s, st1) = Some (s', st')" using h(2) d by simp
    then show thesis by (rule that) (use d True in \<open>auto simp: mark_other\<close>)
  next
    case False
    then show thesis using that [of s st] Cons.prems(1) by simp
  qed
  have e: "ml_ClusterName e \<notin> ml_ClusterName ` set es" using Cons.prems(2) by simp
  have neq: "ml_ClusterName x \<noteq> ml_ClusterName e" if "x \<in> set es" for x using that e by (metis image_eqI)
  note ih = Cons.IH [OF rest]
  have later: "entry_done x st (s', st')" if "entry_done x st1 (s', st')" "x \<in> set es" for x
    using that other [OF neq [OF that(2)]] by (simp add: entry_done_def)
  have "\<forall>x\<in>set es. if getManagedClusterLastProcessedTimestamp (ml_ClusterName x) s < ml_UpdateTimestamp x then entry_done x st (s', st')
      else getManagedClusterLastProcessedTimestamp (ml_ClusterName x) s' = getManagedClusterLastProcessedTimestamp (ml_ClusterName x) s"
    using ih Cons.prems(2,3) other neq later by (auto split: if_splits)
  moreover have "if ?newer then entry_done e st (s', st') else getManagedClusterLastProcessedTimestamp (ml_ClusterName e) s' = getManagedClusterLastProcessedTimestamp (ml_ClusterName e) s"
    using ih Cons.prems(2,3) e head entry_done_cong [of e s' s1 st' st1 st] by (auto split: if_splits)
  ultimately show ?case using ih Cons.prems(2,3) other by auto
qed simp

lemma handleEntries_old:
  "(\<And>e. e \<in> set es \<Longrightarrow> ml_UpdateTimestamp e \<le> getManagedClusterLastProcessedTimestamp (ml_ClusterName e) s) \<Longrightarrow> handleEntries api es (s, st) = Some (s, st)"
  by (induction es) (auto simp: not_less [symmetric])

lemma handleEntries_latest: "handleEntries api es (s, st) = Some (s', st') \<Longrightarrow> latestBundle s' = latestBundle s"
  by (induction es arbitrary: s st) (auto simp: managedClusterMarkUpdated_def split: option.splits if_splits)

text \<open>
  The labels of a bundle are enforced, once: after a pass over the latest bundle in which nothing failed,
  every entry that was newer than what had been processed has given its cluster exactly the labels it
  lists, without those it deletes and with the others as they were, no other cluster changed, and the
  next pass over the same bundle does nothing, whatever the server answers then.
\<close>

theorem labels_enforced_once:
  assumes "latestBundle s = Some b" and "clusters_available api" and "distinct (map ml_ClusterName (mlb_Objects b))"
    and "list_all (\<lambda>e. wf_map (ml_Labels e)) (mlb_Objects b)" and "labels_handleBundle api (s, st) = Some (s', st')"
  shows "list_all (\<lambda>e. if getManagedClusterLastProcessedTimestamp (ml_ClusterName e) s < ml_UpdateTimestamp e then entry_done e st (s', st') else True) (mlb_Objects b) \<and>
    (\<forall>c. c \<in> set (map ml_ClusterName (mlb_Objects b)) \<or> api_clusters st' c = api_clusters st c) \<and>
    labels_handleBundle api' (s', st') = Some (s', st')"
proof -
  have h: "handleEntries api (mlb_Objects b) (s, st) = Some (s', st')" using assms(1,5) by (simp add: labels_handleBundle_def)
  have wf: "\<forall>e\<in>set (mlb_Objects b). wf_map (ml_Labels e)" using assms(4) by (simp add: list_all_iff)
  note d = handleEntries_done [OF assms(2) h assms(3) wf]
  have "ml_UpdateTimestamp e \<le> getManagedClusterLastProcessedTimestamp (ml_ClusterName e) s'" if "e \<in> set (mlb_Objects b)" for e
    using conjunct1 [OF d] that by (auto simp: entry_done_def split: if_splits dest!: bspec)
  then have "handleEntries api' (mlb_Objects b) (s', st') = Some (s', st')" by (rule handleEntries_old)
  then have "labels_handleBundle api' (s', st') = Some (s', st')"
    using handleEntries_latest [OF h] assms(1) by (simp add: labels_handleBundle_def)
  with d show ?thesis by (auto simp: list_all_iff)
qed

definition sampleSyncer :: managedClusterLabelsBundleSyncer where
  "sampleSyncer = \<lparr>latestBundle = Some \<lparr>mlb_Objects = map entryOf (take 2 sampleRows), mlb_LeafHubName = ''h1''\<rparr>, managedClusterToTimestampMap = []\<rparr>"

definition clusterStore :: "(string, string) gomap option \<Rightarrow> apiStore" where
  "clusterStore labels = emptyStore\<lparr>api_clusters := [''c1'' \<mapsto> \<lparr>mc_Labels = labels, mc_APIVersion = ''v1'', mc_ManagedFields = []\<rparr>]\<rparr>"

lemma sample_pass: "\<exists>s' st'. labels_handleBundle sampleApi (sampleSyncer, clusterStore (Some [(''old'', ''x''), (''zone'', ''z'')])) = Some (s', st') \<and>
    map_option labelsOf (api_clusters st' ''c1'') = Some [(''zone'', ''z''), (''env'', ''dev'')]"
  by (simp add: labels_handleBundle_def sampleSyncer_def sampleRows_def entryOf_def getManagedClusterLastProcessedTimestamp_def zeroTime_def
      labelsHandler_def sampleApi_def clusterStore_def emptyStore_def enforceLabels_def managedClusterMarkUpdated_def)
    (simp add: labelsOf_def)

theorem labels_enforced_once_witness:
  "\<exists>s' st'. labels_handleBundle sampleApi (sampleSyncer, clusterStore (Some [(''old'', ''x''), (''zone'', ''z'')])) = Some (s', st') \<and>
     labels_handleBundle sampleApi (s', st') = Some (s', st')"
proof -
  obtain s' st' where pass: "labels_handleBundle sampleApi (sampleSyncer, clusterStore (Some [(''old'', ''x''), (''zone'', ''z'')])) = Some (s', st')"
    using sample_pass by blast
  have "latestBundle sampleSyncer = Some \<lparr>mlb_Objects = map entryOf (take 2 sampleRows), mlb_LeafHubName = ''h1''\<rparr>"
    by (simp add: sampleSyncer_def)
  from labels_enforced_once [OF this _ _ _ pass, of sampleApi] pass show ?thesis
    by (simp add: clusters_available_def sampleApi_def sampleRows_def entryOf_def wf_map_def)
qed

text \<open>
  A managed cluster without any label makes the agent panic: the labels of the entry are written into the
  nil map of the object that was read.
\<close>

theorem nil_labels_panic:
  assumes "latestBundle s = Some b" and "mlb_Objects b = e # rest" and "api_getCluster api (ml_ClusterName e) = None"
    and "getManagedClusterLastProcessedTimestamp (ml_ClusterName e) s < ml_UpdateTimestamp e"
    and "api_clusters st (ml_ClusterName e) = Some mc" and "mc_Labels mc = None" and "ml_Labels e \<noteq> []"
  shows "labels_handleBundle api (s, st) = None"
  using assms by (simp add: labels_handleBundle_def labelsHandler_def enforceLabels_def)

theorem nil_labels_panic_witness: "labels_handleBundle sampleApi (sampleSyncer, clusterStore None) = None"
  by (rule nil_labels_panic [where mc = "\<lparr>mc_Labels = None, mc_APIVersion = ''v1'', mc_ManagedFields = []\<rparr>"])
    (simp add: sampleSyncer_def, simp add: sampleRows_def, simp_all add: sampleApi_def sampleSyncer_def clusterStore_def emptyStore_def entryOf_def
      sampleRows_def getManagedClusterLastProcessedTimestamp_def zeroTime_def)

end
