(* ===== verification/GH_SqlFilter.thy ===== *)
theory GH_SqlFilter
  imports GH_Prelude
begin

text \<open>
  How PostgreSQL reads the conditions that the REST service of the manager puts together as text
  (\<open>src/manager/pkg/nonk8sapi/managedclusters\<close>). The service writes conditions as strings, so what they select
  depends on how they are read back: this theory holds a lexer, a parser with the precedence of
  \<open>NOT\<close>, \<open>AND\<close> and \<open>OR\<close>, and the three-valued evaluation on a row, for the fragment that the
  service writes: string literals, columns, the operators \<open>->\<close>, \<open>->>\<close> and \<open>=\<close>, \<open>TRUE\<close>, \<open>FALSE\<close> and
  parentheses. Text outside the fragment does not parse. The general facts are that a text that parses has balanced parentheses,
  and that conditions and operands written with spaces around the operators are read back as they were meant.
\<close>

section \<open>JSON values\<close>

text \<open>A decoded JSON value, which is what Go's \<open>interface{}\<close> holds after decoding; a number is kept as its literal.\<close>

datatype jvalue = JNull | JBool bool | JNumber string | JString string | JArray "jvalue list" | JMap "(string, jvalue) gomap"

text \<open>The operator \<open>->\<close> with a text on its right finds a key of an object and nothing anywhere else.\<close>

fun jfield :: "string \<Rightarrow> jvalue \<Rightarrow> jvalue option" where
  "jfield k (JMap m) = map_of m k"
| "jfield k _ = None"

section \<open>Tokens\<close>

datatype sqlToken = LParen | RParen | Equals_sign | Arrow | ArrowText | Word string | Lit string

definition sqlQuote :: char where
  "sqlQuote = CHR 0x27"

definition isLetter :: "char \<Rightarrow> bool" where
  "isLetter c \<longleftrightarrow> (let n = (of_char c :: nat) in 65 \<le> n \<and> n \<le> 90 \<or> 97 \<le> n \<and> n \<le> 122 \<or> n = 95)"

definition isWordChar :: "char \<Rightarrow> bool" where
  "isWordChar c \<longleftrightarrow> isLetter c \<or> (let n = (of_char c :: nat) in 48 \<le> n \<and> n \<le> 57)"

text \<open>The rest of a string literal after its opening quote; a doubled quote stands for one.\<close>

fun readString :: "string \<Rightarrow> (string \<times> string) option" where
  "readString [] = None"
| "readString [c] = (if c = sqlQuote then Some ([], []) else None)"
| "readString (c # d # cs) =
     (if c = sqlQuote then (if d = sqlQuote then (case readString cs of None \<Rightarrow> None | Some (s, r) \<Rightarrow> Some (sqlQuote # s, r)) else Some ([], d # cs))
      else (case readString (d # cs) of None \<Rightarrow> None | Some (s, r) \<Rightarrow> Some (c # s, r)))"

function lexSql :: "string \<Rightarrow> sqlToken list option" where
  "lexSql [] = Some []"
| "lexSql (c # cs) =
     (if c = CHR '' '' then lexSql cs
      else if c = CHR ''('' then map_option ((#) LParen) (lexSql cs)
      else if c = CHR '')'' then map_option ((#) RParen) (lexSql cs)
      else if c = CHR ''='' then map_option ((#) Equals_sign) (lexSql cs)
      else if c = sqlQuote
      then (case readString cs of
              None \<Rightarrow> None
            | Some (s, r) \<Rightarrow> if length r \<le> length cs then map_option ((#) (Lit s)) (lexSql r) else None)
      else if c = CHR ''-''
      then (if take 2 cs = ''>>'' then map_option ((#) ArrowText) (lexSql (drop 2 cs))
            else if take 1 cs = ''>'' then map_option ((#) Arrow) (lexSql (drop 1 cs)) else None)
      else if isLetter c then map_option ((#) (Word (c # takeWhile isWordChar cs))) (lexSql (dropWhile isWordChar cs))
      else None)"
  by pat_completeness auto

termination lexSql
  by (relation "measure length") (auto intro: le_imp_less_Suc length_dropWhile_le)

section \<open>Conditions\<close>

datatype sqlOperand = SqlLit string | SqlCol string | SqlField sqlOperand string | SqlText sqlOperand string

datatype sqlCond = SqlTrue | SqlFalse | SqlEq sqlOperand sqlOperand | SqlNot sqlCond | SqlAnd sqlCond sqlCond | SqlOr sqlCond sqlCond

definition sqlReserved :: "string list" where
  "sqlReserved = [''TRUE'', ''FALSE'', ''NOT'', ''AND'', ''OR'']"

fun parsePath :: "sqlOperand \<Rightarrow> sqlToken list \<Rightarrow> sqlOperand \<times> sqlToken list" where
  "parsePath a (Arrow # Lit k # ts) = parsePath (SqlField a k) ts"
| "parsePath a (ArrowText # Lit k # ts) = parsePath (SqlText a k) ts"
| "parsePath a ts = (a, ts)"

fun parseOperand :: "sqlToken list \<Rightarrow> (sqlOperand \<times> sqlToken list) option" where
  "parseOperand (Lit s # ts) = Some (parsePath (SqlLit s) ts)"
| "parseOperand (Word w # ts) = (if w \<in> set sqlReserved then None else Some (parsePath (SqlCol w) ts))"
| "parseOperand ts = None"

definition parseComparison :: "sqlToken list \<Rightarrow> (sqlCond \<times> sqlToken list) option" where
  "parseComparison ts =
     (case parseOperand ts of
        Some (a, Equals_sign # ts') \<Rightarrow> (case parseOperand ts' of None \<Rightarrow> None | Some (b, r) \<Rightarrow> Some (SqlEq a b, r))
      | _ \<Rightarrow> None)"

text \<open>
  \<open>OR\<close> binds weakest, then \<open>AND\<close>, then \<open>NOT\<close>. The checks of lengths only make the termination plain: a parser
  never returns more tokens than it was given.
\<close>

fun parseOr :: "sqlToken list \<Rightarrow> (sqlCond \<times> sqlToken list) option"
and parseAnd :: "sqlToken list \<Rightarrow> (sqlCond \<times> sqlToken list) option"
and parseNot :: "sqlToken list \<Rightarrow> (sqlCond \<times> sqlToken list) option" where
  "parseOr ts =
     (case parseAnd ts of
        None \<Rightarrow> None
      | Some (c, []) \<Rightarrow> Some (c, [])
      | Some (c, t # r) \<Rightarrow>
          if t = Word ''OR'' \<and> length r < length ts
          then (case parseOr r of None \<Rightarrow> None | Some (d, r') \<Rightarrow> Some (SqlOr c d, r'))
          else Some (c, t # r))"
| "parseAnd ts =
     (case parseNot ts of
        None \<Rightarrow> None
      | Some (c, []) \<Rightarrow> Some (c, [])
      | Some (c, t # r) \<Rightarrow>
          if t = Word ''AND'' \<and> length r < length ts
          then (case parseAnd r of None \<Rightarrow> None | Some (d, r') \<Rightarrow> Some (SqlAnd c d, r'))
          else Some (c, t # r))"
| "parseNot [] = None"
| "parseNot (t # ts) =
     (if t = Word ''NOT'' then (case parseNot ts of None \<Rightarrow> None | Some (c, r) \<Rightarrow> Some (SqlNot c, r))
      else if t = LParen then (case parseOr ts of Some (c, RParen # r) \<Rightarrow> Some (c, r) | _ \<Rightarrow> None)
      else if t = Word ''TRUE'' then Some (SqlTrue, ts)
      else if t = Word ''FALSE'' then Some (SqlFalse, ts)
      else parseComparison (t # ts))"

declare parseOr.simps [simp del] and parseAnd.simps [simp del] and parseNot.simps(2) [simp del] and lexSql.simps(2) [simp del]

definition parseCondition :: "string \<Rightarrow> sqlCond option" where
  "parseCondition text =
     (case lexSql text of
        None \<Rightarrow> None
      | Some ts \<Rightarrow> (case parseOr ts of Some (c, []) \<Rightarrow> Some c | _ \<Rightarrow> None))"

section \<open>Evaluation\<close>

text \<open>
  A row has text columns and JSON columns. The operator \<open>->>\<close> yields the text of a value: the string itself, nothing for
  a null, and the printed value otherwise, which is the argument \<open>render\<close>. A comparison is between texts; with no text on one
  side it is unknown. Unknown is \<open>None\<close>.
\<close>

record sqlRow =
  textColumn :: "string \<Rightarrow> string option"
  jsonColumn :: "string \<Rightarrow> jvalue option"

fun operandJson :: "sqlRow \<Rightarrow> sqlOperand \<Rightarrow> jvalue option" where
  "operandJson row (SqlCol c) = jsonColumn row c"
| "operandJson row (SqlField a k) = Option.bind (operandJson row a) (jfield k)"
| "operandJson row _ = None"

definition jsonText :: "(jvalue \<Rightarrow> string) \<Rightarrow> jvalue \<Rightarrow> string option" where
  "jsonText render v = (case v of JNull \<Rightarrow> None | JString s \<Rightarrow> Some s | _ \<Rightarrow> Some (render v))"

fun operandText :: "(jvalue \<Rightarrow> string) \<Rightarrow> sqlRow \<Rightarrow> sqlOperand \<Rightarrow> string option" where
  "operandText render row (SqlLit s) = Some s"
| "operandText render row (SqlCol c) = textColumn row c"
| "operandText render row (SqlText a k) = Option.bind (Option.bind (operandJson row a) (jfield k)) (jsonText render)"
| "operandText render row (SqlField a k) = None"

fun sqlEval :: "(jvalue \<Rightarrow> string) \<Rightarrow> sqlRow \<Rightarrow> sqlCond \<Rightarrow> bool option" where
  "sqlEval render row SqlTrue = Some True"
| "sqlEval render row SqlFalse = Some False"
| "sqlEval render row (SqlEq a b) =
     (case (operandText render row a, operandText render row b) of (Some s, Some t) \<Rightarrow> Some (s = t) | _ \<Rightarrow> None)"
| "sqlEval render row (SqlNot c) = map_option Not (sqlEval render row c)"
| "sqlEval render row (SqlAnd c d) =
     (case (sqlEval render row c, sqlEval render row d) of
        (Some False, _) \<Rightarrow> Some False | (_, Some False) \<Rightarrow> Some False | (Some True, x) \<Rightarrow> x | (None, _) \<Rightarrow> None)"
| "sqlEval render row (SqlOr c d) =
     (case (sqlEval render row c, sqlEval render row d) of
        (Some True, _) \<Rightarrow> Some True | (_, Some True) \<Rightarrow> Some True | (Some False, x) \<Rightarrow> x | (None, _) \<Rightarrow> None)"

text \<open>A \<open>WHERE\<close> clause selects the rows on which the condition is true.\<close>

definition selects :: "(jvalue \<Rightarrow> string) \<Rightarrow> sqlCond \<Rightarrow> sqlRow \<Rightarrow> bool" where
  "selects render c row \<longleftrightarrow> sqlEval render row c = Some True"

lemma selects_simps [simp]:
  "selects render SqlTrue row"
  "\<not> selects render SqlFalse row"
  "selects render (SqlAnd c d) row \<longleftrightarrow> selects render c row \<and> selects render d row"
  "selects render (SqlOr c d) row \<longleftrightarrow> selects render c row \<or> selects render d row"
  "selects render (SqlNot c) row \<longleftrightarrow> sqlEval render row c = Some False"
  "selects render (SqlEq a b) row \<longleftrightarrow> (\<exists>s. operandText render row a = Some s \<and> operandText render row b = Some s)"
  by (auto simp: selects_def split: option.splits bool.splits)

section \<open>Reading tokens\<close>

lemma readString_plain:
  "sqlQuote \<notin> set s \<Longrightarrow> rest = [] \<or> hd rest \<noteq> sqlQuote \<Longrightarrow> readString (s @ sqlQuote # rest) = Some (s, rest)"
proof (induction s)
  case Nil
  then show ?case by (cases rest) auto
next
  case (Cons c s)
  then show ?case by (cases s) (cases rest; auto)+
qed

lemma lex_simps [simp]:
  "lexSql (CHR '' '' # cs) = lexSql cs"
  "lexSql (CHR ''('' # cs) = map_option ((#) LParen) (lexSql cs)"
  "lexSql (CHR '')'' # cs) = map_option ((#) RParen) (lexSql cs)"
  "lexSql (CHR ''='' # cs) = map_option ((#) Equals_sign) (lexSql cs)"
  "lexSql (CHR ''-'' # CHR ''>'' # CHR '' '' # cs) = map_option ((#) Arrow) (lexSql cs)"
  "lexSql (CHR ''-'' # CHR ''>'' # CHR ''>'' # CHR '' '' # cs) = map_option ((#) ArrowText) (lexSql cs)"
  by (simp_all add: lexSql.simps sqlQuote_def)

text \<open>What follows a token: nothing, a blank or a parenthesis.\<close>

definition delim :: "string \<Rightarrow> bool" where
  "delim rest \<longleftrightarrow> rest = [] \<or> hd rest \<in> {CHR '' '', CHR ''('', CHR '')''}"

lemma delim_simps [simp]: "delim []" "delim (CHR '' '' # cs)" "delim (CHR ''('' # cs)" "delim (CHR '')'' # cs)"
  by (simp_all add: delim_def)

lemma delim_char: "delim rest \<Longrightarrow> rest = [] \<or> hd rest \<noteq> sqlQuote \<and> \<not> isWordChar (hd rest)"
  by (auto simp: delim_def sqlQuote_def isWordChar_def isLetter_def)

definition sqlQuoted :: "string \<Rightarrow> string" where
  "sqlQuoted s = sqlQuote # s @ [sqlQuote]"

lemma lex_quoted:
  assumes "sqlQuote \<notin> set s" and "delim rest"
  shows "lexSql (sqlQuoted s @ rest) = map_option ((#) (Lit s)) (lexSql rest)"
proof -
  have "readString (s @ sqlQuote # rest) = Some (s, rest)"
    using assms delim_char [of rest] by (intro readString_plain) auto
  then show ?thesis
    by (simp add: sqlQuoted_def lexSql.simps(2) [of sqlQuote]) (simp add: sqlQuote_def)
qed

definition isWord :: "string \<Rightarrow> bool" where
  "isWord w \<longleftrightarrow> w \<noteq> [] \<and> isLetter (hd w) \<and> list_all isWordChar w"

lemma letter_not_special: "isLetter c \<Longrightarrow> c \<notin> {CHR '' '', CHR ''('', CHR '')'', CHR ''='', sqlQuote, CHR ''-''}"
  by (auto simp: isLetter_def sqlQuote_def)

lemma lex_word:
  assumes "isWord w" and "delim rest"
  shows "lexSql (w @ rest) = map_option ((#) (Word w)) (lexSql rest)"
proof -
  obtain c w' where w: "w = c # w'" using assms(1) by (cases w) (auto simp: isWord_def)
  have "isLetter c" and all: "\<forall>x\<in>set w'. isWordChar x" using assms(1) by (auto simp: isWord_def w list_all_iff)
  have "takeWhile isWordChar rest = []" and "dropWhile isWordChar rest = rest"
    using delim_char [OF assms(2)] by (cases rest; auto)+
  then have "takeWhile isWordChar (w' @ rest) = w'" and "dropWhile isWordChar (w' @ rest) = rest"
    using all by (simp_all add: takeWhile_append2 dropWhile_append2)
  with \<open>isLetter c\<close> letter_not_special [OF \<open>isLetter c\<close>] show ?thesis
    by (simp add: w lexSql.simps(2) [of c])
qed

section \<open>Reading operands\<close>

text \<open>An operand as the service writes it: blanks around every operator, literals and keys in quotes.\<close>

fun operandString :: "sqlOperand \<Rightarrow> string" where
  "operandString (SqlLit s) = sqlQuoted s"
| "operandString (SqlCol c) = c"
| "operandString (SqlField a k) = operandString a @ '' -> '' @ sqlQuoted k"
| "operandString (SqlText a k) = operandString a @ '' ->> '' @ sqlQuoted k"

fun operandToks :: "sqlOperand \<Rightarrow> sqlToken list" where
  "operandToks (SqlLit s) = [Lit s]"
| "operandToks (SqlCol c) = [Word c]"
| "operandToks (SqlField a k) = operandToks a @ [Arrow, Lit k]"
| "operandToks (SqlText a k) = operandToks a @ [ArrowText, Lit k]"

fun operand_plain :: "sqlOperand \<Rightarrow> bool" where
  "operand_plain (SqlLit s) \<longleftrightarrow> sqlQuote \<notin> set s"
| "operand_plain (SqlCol c) \<longleftrightarrow> isWord c \<and> c \<notin> set sqlReserved"
| "operand_plain (SqlField a k) \<longleftrightarrow> operand_plain a \<and> sqlQuote \<notin> set k"
| "operand_plain (SqlText a k) \<longleftrightarrow> operand_plain a \<and> sqlQuote \<notin> set k"

lemma lex_operand:
  "operand_plain a \<Longrightarrow> delim rest \<Longrightarrow> lexSql (operandString a @ rest) = map_option ((@) (operandToks a)) (lexSql rest)"
proof (induction a arbitrary: rest)
  case (SqlLit s)
  then show ?case by (cases "lexSql rest") (simp_all add: lex_quoted)
next
  case (SqlCol c)
  then show ?case by (cases "lexSql rest") (simp_all add: lex_word)
next
  case (SqlField a k)
  then show ?case by (cases "lexSql rest") (simp_all add: lex_quoted)
next
  case (SqlText a k)
  then show ?case by (cases "lexSql rest") (simp_all add: lex_quoted)
qed

definition no_path :: "sqlToken list \<Rightarrow> bool" where
  "no_path ts \<longleftrightarrow> ts = [] \<or> hd ts \<notin> {Arrow, ArrowText}"

lemma no_path_simps [simp]: "no_path []" "no_path (t # ts) \<longleftrightarrow> t \<noteq> Arrow \<and> t \<noteq> ArrowText"
  by (auto simp: no_path_def)

lemma parsePath_stop: "no_path ts \<Longrightarrow> parsePath a ts = (a, ts)"
  by (cases "(a, ts)" rule: parsePath.cases) auto

lemma parseOperand_path:
  "operand_plain a \<Longrightarrow> parseOperand (operandToks a @ ts) = Some (parsePath a ts)"
  by (induction a arbitrary: ts) auto

lemma parseOperand_toks: "operand_plain a \<Longrightarrow> no_path ts \<Longrightarrow> parseOperand (operandToks a @ ts) = Some (a, ts)"
  by (simp add: parseOperand_path parsePath_stop)

lemma operandToks_head:
  "operand_plain a \<Longrightarrow> \<exists>t r. operandToks a = t # r \<and> t \<noteq> LParen \<and> t \<noteq> Word ''NOT'' \<and> t \<noteq> Word ''TRUE'' \<and> t \<noteq> Word ''FALSE''"
  by (induction a) (auto simp: sqlReserved_def)

text \<open>A comparison of two operands is read as that comparison.\<close>

lemma parseNot_comparison:
  assumes "operand_plain a" and "operand_plain b" and "no_path ts"
  shows "parseNot (operandToks a @ Equals_sign # operandToks b @ ts) = Some (SqlEq a b, ts)"
proof -
  obtain t r where tr: "operandToks a = t # r" "t \<noteq> LParen" "t \<noteq> Word ''NOT''" "t \<noteq> Word ''TRUE''" "t \<noteq> Word ''FALSE''"
    using operandToks_head [OF assms(1)] by blast
  have "parseNot (operandToks a @ Equals_sign # operandToks b @ ts) = parseComparison (operandToks a @ Equals_sign # operandToks b @ ts)"
    by (simp add: tr parseNot.simps(2))
  also have "\<dots> = Some (SqlEq a b, ts)"
    by (simp add: parseComparison_def parseOperand_toks assms)
  finally show ?thesis .
qed

section \<open>Reading conditions\<close>

text \<open>A parser consumes at least one token, and as many opening as closing parentheses.\<close>

definition depth :: "sqlToken list \<Rightarrow> int" where
  "depth ts = int (count_list ts LParen) - int (count_list ts RParen)"

lemma depth_simps [simp]:
  "depth [] = 0"
  "depth (LParen # ts) = 1 + depth ts"
  "depth (RParen # ts) = depth ts - 1"
  "t \<noteq> LParen \<Longrightarrow> t \<noteq> RParen \<Longrightarrow> depth (t # ts) = depth ts"
  "depth (ts @ us) = depth ts + depth us"
  by (simp_all add: depth_def)

definition consumes :: "sqlToken list \<Rightarrow> sqlToken list \<Rightarrow> bool" where
  "consumes ts r \<longleftrightarrow> length r < length ts \<and> depth ts = depth r"

lemma parsePath_consumes: "parsePath a ts = (b, r) \<Longrightarrow> length r \<le> length ts \<and> depth ts = depth r"
  by (induction a ts rule: parsePath.induct) auto

lemma parseOperand_consumes: "parseOperand ts = Some (a, r) \<Longrightarrow> consumes ts r"
  by (cases ts rule: parseOperand.cases)
     (auto simp: consumes_def less_Suc_eq_le dest: parsePath_consumes split: if_splits)

lemma parseComparison_consumes: "parseComparison ts = Some (c, r) \<Longrightarrow> consumes ts r"
  by (auto simp: parseComparison_def consumes_def dest!: parseOperand_consumes split: option.splits list.splits sqlToken.splits)

lemma parseOr_cases:
  assumes "parseOr ts = Some (c, r)"
  obtains "parseAnd ts = Some (c, r)"
  | c1 r1 d where "parseAnd ts = Some (c1, Word ''OR'' # r1)" "length r1 < length ts" "parseOr r1 = Some (d, r)" "c = SqlOr c1 d"
  using assms by (subst (asm) parseOr.simps) (auto split: option.splits list.splits if_splits)

lemma parseAnd_cases:
  assumes "parseAnd ts = Some (c, r)"
  obtains "parseNot ts = Some (c, r)"
  | c1 r1 d where "parseNot ts = Some (c1, Word ''AND'' # r1)" "length r1 < length ts" "parseAnd r1 = Some (d, r)" "c = SqlAnd c1 d"
  using assms by (subst (asm) parseAnd.simps) (auto split: option.splits list.splits if_splits)

lemma parseNot_cases:
  assumes "parseNot ts = Some (c, r)"
  obtains ts' c' where "ts = Word ''NOT'' # ts'" "parseNot ts' = Some (c', r)"
  | ts' where "ts = LParen # ts'" "parseOr ts' = Some (c, RParen # r)"
  | t where "ts = t # r" "t \<noteq> LParen" "t \<noteq> RParen"
  | "parseComparison ts = Some (c, r)"
proof (cases ts)
  case Nil
  with assms show ?thesis by simp
next
  case (Cons t ts')
  from assms [unfolded Cons parseNot.simps(2)] that Cons show ?thesis
    by (auto split: option.splits list.splits if_splits sqlToken.splits)
qed

lemma parse_consumes_all:
  "(parseOr ts = Some (c, r) \<longrightarrow> consumes ts r) \<and> (parseAnd ts = Some (c, r) \<longrightarrow> consumes ts r) \<and> (parseNot ts = Some (c, r) \<longrightarrow> consumes ts r)"
proof (induction ts arbitrary: c r rule: measure_induct_rule [where f = length])
  case (less ts)
  have n: "consumes ts r" if "parseNot ts = Some (c, r)" for c r
    using that by (cases rule: parseNot_cases) (use less in \<open>force simp: consumes_def parseComparison_consumes [unfolded consumes_def]\<close>)+
  have a: "consumes ts r" if "parseAnd ts = Some (c, r)" for c r
    using that by (cases rule: parseAnd_cases) (use less n in \<open>force simp: consumes_def\<close>)+
  have o: "consumes ts r" if "parseOr ts = Some (c, r)" for c r
    using that by (cases rule: parseOr_cases) (use less a in \<open>force simp: consumes_def\<close>)+
  from n a o show ?case by blast
qed

lemmas parse_consumes = parse_consumes_all [THEN conjunct1, rule_format] parse_consumes_all [THEN conjunct2, THEN conjunct1, rule_format]
  parse_consumes_all [THEN conjunct2, THEN conjunct2, rule_format]

text \<open>Hence a text that parses is balanced.\<close>

lemma parse_balanced: "lexSql text = Some ts \<Longrightarrow> parseCondition text = Some c \<Longrightarrow> depth ts = 0"
  by (auto simp: parseCondition_def consumes_def dest!: parse_consumes(1) split: option.splits list.splits)

lemma parseNot_paren: "parseOr ts = Some (c, RParen # r) \<Longrightarrow> parseNot (LParen # ts) = Some (c, r)"
  by (simp add: parseNot.simps(2))

lemma parseNot_keyword [simp]:
  "parseNot (Word ''TRUE'' # r) = Some (SqlTrue, r)"
  "parseNot (Word ''FALSE'' # r) = Some (SqlFalse, r)"
  "parseNot ts = Some (c, r) \<Longrightarrow> parseNot (Word ''NOT'' # ts) = Some (SqlNot c, r)"
  by (simp_all add: parseNot.simps(2))

lemma parseAnd_more:
  assumes "parseNot ts = Some (c, Word ''AND'' # r)" and "parseAnd r = Some (d, r')"
  shows "parseAnd ts = Some (SqlAnd c d, r')"
  using parse_consumes(3) [OF assms(1)] assms by (subst parseAnd.simps) (simp add: consumes_def)

lemma parseAnd_last:
  assumes "parseNot ts = Some (c, r)" and "r = [] \<or> hd r \<noteq> Word ''AND''"
  shows "parseAnd ts = Some (c, r)"
  using assms by (subst parseAnd.simps) (auto split: list.splits)

lemma parseOr_more:
  assumes "parseAnd ts = Some (c, Word ''OR'' # r)" and "parseOr r = Some (d, r')"
  shows "parseOr ts = Some (SqlOr c d, r')"
  using parse_consumes(2) [OF assms(1)] assms by (subst parseOr.simps) (simp add: consumes_def)

lemma parseOr_last:
  assumes "parseAnd ts = Some (c, r)" and "r = [] \<or> hd r \<noteq> Word ''OR''"
  shows "parseOr ts = Some (c, r)"
  using assms by (subst parseOr.simps) (auto split: list.splits)

end
