(* ===== verification/GH_Authz.thy ===== *)
theory GH_Authz
  imports GH_SqlFilter
begin

text \<open>
  The authorization of the REST service (\<open>src/manager/pkg/nonk8sapi/managedclusters/authorization.go\<close>). The service asks
  the policy agent to evaluate the policy for the user with the cluster left unknown; what is left of
  the policy is a list of queries, a disjunction of conjunctions of equalities, as JSON. The service translates it to
  the text of an SQL condition on the column \<open>payload\<close>.

  A function that writes to the string builder is modelled by the text it writes. \<open>None\<close> is a panic. The HTTP
  client, the certificate pool and the JSON codec are the arguments \<open>opaService\<close>.
\<close>

section \<open>Terms\<close>

datatype authzError =
    errStatusNotOK
  | errUnknownOperator
  | errUnexpectedTermType
  | errUnexpectedArraySize
  | errUnexpectedTermsNumber
  | errUnexpectedType
  | errUnexpectedValue
  | errMissingAttribute
  | errUnableToAppendCABundle
  | errOther string

definition sqlFalse :: string where "sqlFalse = ''FALSE''"
definition sqlTrue :: string where "sqlTrue = ''TRUE''"
definition denyAll :: string where "denyAll = sqlFalse"
definition allowAll :: string where "allowAll = sqlTrue"

definition opaQuery :: string where
  "opaQuery = ''data.rbac.clusters.allow == true''"

definition getTermType :: "(string, jvalue) gomap \<Rightarrow> authzError + string" where
  "getTermType term =
     (case map_of term ''type'' of
        None \<Rightarrow> Inl errMissingAttribute
      | Some (JString s) \<Rightarrow> Inr s
      | Some _ \<Rightarrow> Inl errUnexpectedType)"

definition getTermValue :: "(string, jvalue) gomap \<Rightarrow> authzError + jvalue" where
  "getTermValue term = (case map_of term ''value'' of None \<Rightarrow> Inl errMissingAttribute | Some v \<Rightarrow> Inr v)"

definition getTermStringValue :: "jvalue \<Rightarrow> string \<Rightarrow> authzError + string" where
  "getTermStringValue term expectedType =
     (case term of
        JMap m \<Rightarrow>
          (case getTermType m of
             Inl e \<Rightarrow> Inl e
           | Inr termValueType \<Rightarrow>
               if termValueType \<noteq> expectedType then Inl errUnexpectedTermType
               else (case getTermValue m of
                       Inl e \<Rightarrow> Inl e
                     | Inr (JString s) \<Rightarrow> Inr s
                     | Inr _ \<Rightarrow> Inl errUnexpectedType))
      | _ \<Rightarrow> Inl errUnexpectedType)"

definition getOperator :: "jvalue \<Rightarrow> authzError + string" where
  "getOperator term =
     (case term of
        JMap m \<Rightarrow>
          (case getTermType m of
             Inl e \<Rightarrow> Inl e
           | Inr termType \<Rightarrow>
               if termType \<noteq> ''ref'' then Inl errUnexpectedTermType
               else (case getTermValue m of
                       Inl e \<Rightarrow> Inl e
                     | Inr (JArray [t]) \<Rightarrow> getTermStringValue t ''var''
                     | Inr (JArray _) \<Rightarrow> Inl errUnexpectedArraySize
                     | Inr _ \<Rightarrow> Inl errUnexpectedType))
      | _ \<Rightarrow> Inl errUnexpectedType)"

definition handleStringTerm :: "(string, jvalue) gomap \<Rightarrow> authzError + string" where
  "handleStringTerm operandMap =
     (case getTermValue operandMap of
        Inl e \<Rightarrow> Inl e
      | Inr (JString s) \<Rightarrow> Inr (sqlQuoted s)
      | Inr _ \<Rightarrow> Inl errUnexpectedType)"

text \<open>The loop over the parts of a path: the operator of the last part yields text.\<close>

fun pathLoop :: "string \<Rightarrow> jvalue list \<Rightarrow> authzError + string" where
  "pathLoop operand [] = Inr operand"
| "pathLoop operand (part # parts) =
     (case getTermStringValue part ''string'' of
        Inl e \<Rightarrow> Inl e
      | Inr partString \<Rightarrow> pathLoop (operand @ '' '' @ (if parts = [] then ''->>'' else ''->'') @ '' '' @ sqlQuoted partString) parts)"

definition createPostgreSQLJSONPath :: "jvalue list \<Rightarrow> authzError + string" where
  "createPostgreSQLJSONPath termValueArray = pathLoop ''payload'' termValueArray"

definition handleRefTerm :: "(string, jvalue) gomap \<Rightarrow> authzError + string" where
  "handleRefTerm operandMap =
     (case getTermValue operandMap of
        Inl e \<Rightarrow> Inl e
      | Inr (JArray (first # second # parts)) \<Rightarrow>
          (case getTermStringValue first ''var'' of
             Inl e \<Rightarrow> Inl e
           | Inr firstPart \<Rightarrow>
               (case getTermStringValue second ''string'' of
                  Inl e \<Rightarrow> Inl e
                | Inr secondPart \<Rightarrow>
                    if firstPart \<noteq> ''input'' \<and> secondPart \<noteq> ''cluster'' then Inl errUnexpectedValue
                    else createPostgreSQLJSONPath parts))
      | Inr (JArray _) \<Rightarrow> Inl errUnexpectedTermsNumber
      | Inr _ \<Rightarrow> Inl errUnexpectedType)"

definition getOperand :: "jvalue \<Rightarrow> authzError + string" where
  "getOperand term =
     (case term of
        JMap operandMap \<Rightarrow>
          (case getTermType operandMap of
             Inl e \<Rightarrow> Inl e
           | Inr termType \<Rightarrow>
               if termType = ''string'' then handleStringTerm operandMap
               else if termType = ''ref'' then handleRefTerm operandMap
               else Inl errUnexpectedTermType)
      | _ \<Rightarrow> Inl errUnexpectedType)"

section \<open>Expressions and queries\<close>

definition getSQLExpression :: "jvalue list \<Rightarrow> authzError + string" where
  "getSQLExpression terms =
     (case terms of
        [t0, t1, t2] \<Rightarrow>
          (case getOperator t0 of
             Inl e \<Rightarrow> Inl e
           | Inr operator \<Rightarrow>
               if operator \<noteq> ''eq'' then Inl errUnknownOperator
               else (case getOperand t1 of
                       Inl e \<Rightarrow> Inl e
                     | Inr firstOperand \<Rightarrow>
                         (case getOperand t2 of
                            Inl e \<Rightarrow> Inl e
                          | Inr secondOperand \<Rightarrow> Inr (firstOperand @ '' '' @ ''='' @ '' '' @ secondOperand))))
      | _ \<Rightarrow> Inl errUnexpectedTermsNumber)"

definition handleTermsArray :: "jvalue list \<Rightarrow> bool \<Rightarrow> string" where
  "handleTermsArray terms negated =
     (if negated then ''NOT ('' else []) @
     (case getSQLExpression terms of
        Inr expression \<Rightarrow> expression
      | Inl _ \<Rightarrow> (if negated then sqlTrue else sqlFalse)) @
     (if negated then '')'' else [])"

definition handleExpression :: "jvalue \<Rightarrow> string" where
  "handleExpression rawExpression =
     (case rawExpression of
        JMap expression \<Rightarrow>
          let negated = (case map_of expression ''negated'' of Some (JBool b) \<Rightarrow> b | _ \<Rightarrow> False) in
          (case map_of expression ''terms'' of
             Some (JArray terms) \<Rightarrow> ''('' @ handleTermsArray terms negated @ '') AND ''
           | _ \<Rightarrow> sqlFalse @ '') '')
      | _ \<Rightarrow> sqlFalse @ '') '')"

definition handleQuery :: "jvalue list \<Rightarrow> string" where
  "handleQuery query = (if query = [] then [] else ''('' @ concat (map handleExpression query) @ sqlTrue @ '') OR '')"

section \<open>The policy agent\<close>

datatype tlsConfig = InsecureSkipVerify | RootCAs string

record compileRequest =
  cr_user :: string
  cr_query :: string
  cr_unknowns :: "string list"

text \<open>
  The service as the manager meets it: whether a bundle of certificates can be read, the body of a request
  (or an error), whether the URL gives a request, the answer (an error, or a status with the body, which may fail to be
  read) and the decoded result of the body, whose pointer may be nil.
\<close>

record opaService =
  svc_appendCerts :: "string \<Rightarrow> bool"
  svc_marshal :: "compileRequest \<Rightarrow> string option"
  svc_newRequest :: "string \<Rightarrow> bool"
  svc_post :: "tlsConfig \<Rightarrow> string \<Rightarrow> string \<Rightarrow> (nat \<times> string option) option"
  svc_unmarshal :: "string \<Rightarrow> jvalue option option"

definition authz_createClient :: "opaService \<Rightarrow> string option \<Rightarrow> authzError + tlsConfig" where
  "authz_createClient svc authorizationCABundle =
     (case authorizationCABundle of
        None \<Rightarrow> Inr InsecureSkipVerify
      | Some pem \<Rightarrow> if svc_appendCerts svc pem then Inr (RootCAs pem) else Inl errUnableToAppendCABundle)"

definition getPartialEvaluation :: "opaService \<Rightarrow> string \<Rightarrow> string list \<Rightarrow> string \<Rightarrow> string option \<Rightarrow> authzError + jvalue option" where
  "getPartialEvaluation svc user groups authorizationURL authorizationCABundle =
     (case svc_marshal svc \<lparr>cr_user = user, cr_query = opaQuery, cr_unknowns = [''input.cluster'']\<rparr> of
        None \<Rightarrow> Inl (errOther ''unable to marshal json'')
      | Some request \<Rightarrow>
          (case authz_createClient svc authorizationCABundle of
             Inl e \<Rightarrow> Inl e
           | Inr client \<Rightarrow>
               let url = authorizationURL @ ''/v1/compile'' in
               if \<not> svc_newRequest svc url then Inl (errOther ''unable to create request'')
               else (case svc_post svc client url request of
                       None \<Rightarrow> Inl (errOther ''got authentication error'')
                     | Some (status, body) \<Rightarrow>
                         if status \<noteq> 200 then Inl errStatusNotOK
                         else (case body of
                                 None \<Rightarrow> Inl (errOther ''unable to read authentication response body'')
                               | Some b \<Rightarrow>
                                   (case svc_unmarshal svc b of
                                      None \<Rightarrow> Inl (errOther ''failed to unmarshall json'')
                                    | Some result \<Rightarrow> Inr result)))))"

text \<open>The loop over the queries; \<open>Inr\<close> is the early return.\<close>

fun queryLoop :: "nat \<Rightarrow> string \<Rightarrow> jvalue list \<Rightarrow> string + string" where
  "queryLoop n sb [] = Inl sb"
| "queryLoop n sb (rawQuery # rest) =
     (case rawQuery of
        JArray query \<Rightarrow> if n = 1 \<and> query = [] then Inr allowAll else queryLoop n (sb @ handleQuery query) rest
      | _ \<Rightarrow> queryLoop n sb rest)"

definition filterByAuthorization :: "opaService \<Rightarrow> string \<Rightarrow> string list \<Rightarrow> string \<Rightarrow> string option \<Rightarrow> string option" where
  "filterByAuthorization svc user groups authorizationURL authorizationCABundle =
     (case getPartialEvaluation svc user groups authorizationURL authorizationCABundle of
        Inl _ \<Rightarrow> Some denyAll
      | Inr None \<Rightarrow> None
      | Inr (Some (JMap resultMap)) \<Rightarrow>
          (case map_of resultMap ''queries'' of
             Some (JArray queries) \<Rightarrow>
               if length queries < 1 then Some denyAll
               else (case queryLoop (length queries) [] queries of
                       Inr s \<Rightarrow> Some s
                     | Inl sb \<Rightarrow> Some (sb @ sqlFalse))
           | _ \<Rightarrow> Some denyAll)
      | Inr (Some _) \<Rightarrow> Some denyAll)"

end
