(* ===== verification/GH_AuthzProps.thy ===== *)
theory GH_AuthzProps
  imports GH_Authz
begin

text \<open>
  What the condition of the authorization selects. The specification reads the queries of the policy agent as typed
  equalities and says which cluster documents they allow; the theorems relate it to the rows PostgreSQL selects
  with the text the service writes, for every answer of the agent.
\<close>

section \<open>What the policy agent allows\<close>

datatype opaTerm = OpaString string | OpaRef "string list"

datatype opaExpr = OpaEq bool opaTerm opaTerm

definition typedString :: "string \<Rightarrow> jvalue \<Rightarrow> string option" where
  "typedString k v =
     (case v of
        JMap m \<Rightarrow> (case (map_of m ''type'', map_of m ''value'') of
                    (Some (JString k'), Some (JString s)) \<Rightarrow> if k' = k then Some s else None
                  | _ \<Rightarrow> None)
      | _ \<Rightarrow> None)"

definition opaTermOf :: "jvalue \<Rightarrow> opaTerm option" where
  "opaTermOf v =
     (case v of
        JMap m \<Rightarrow>
          (case (map_of m ''type'', map_of m ''value'') of
             (Some (JString k), Some (JString s)) \<Rightarrow> if k = ''string'' then Some (OpaString s) else None
           | (Some (JString k), Some (JArray (a # b # parts))) \<Rightarrow>
               if k = ''ref'' \<and> typedString ''var'' a = Some ''input'' \<and> typedString ''string'' b = Some ''cluster''
               then map_option OpaRef (those (map (typedString ''string'') parts)) else None
           | _ \<Rightarrow> None)
      | _ \<Rightarrow> None)"

definition isEqOperator :: "jvalue \<Rightarrow> bool" where
  "isEqOperator v \<longleftrightarrow>
     (case v of
        JMap m \<Rightarrow> (case (map_of m ''type'', map_of m ''value'') of
                    (Some (JString k), Some (JArray [t])) \<Rightarrow> k = ''ref'' \<and> typedString ''var'' t = Some ''eq''
                  | _ \<Rightarrow> False)
      | _ \<Rightarrow> False)"

definition comparedTerms :: "jvalue list \<Rightarrow> (opaTerm \<times> opaTerm) option" where
  "comparedTerms terms =
     (case terms of
        [t0, t1, t2] \<Rightarrow> if isEqOperator t0
                       then (case (opaTermOf t1, opaTermOf t2) of (Some x, Some y) \<Rightarrow> Some (x, y) | _ \<Rightarrow> None)
                       else None
      | _ \<Rightarrow> None)"

text \<open>The terms of an expression and whether it is negated.\<close>

definition exprParts :: "jvalue \<Rightarrow> (jvalue list \<times> bool) option" where
  "exprParts e =
     (case e of
        JMap m \<Rightarrow> (case map_of m ''terms'' of
                    Some (JArray terms) \<Rightarrow> Some (terms, (case map_of m ''negated'' of Some (JBool b) \<Rightarrow> b | _ \<Rightarrow> False))
                  | _ \<Rightarrow> None)
      | _ \<Rightarrow> None)"

definition opaExprOf :: "jvalue \<Rightarrow> opaExpr option" where
  "opaExprOf e =
     (case exprParts e of
        None \<Rightarrow> None
      | Some (terms, negated) \<Rightarrow> map_option (\<lambda>(x, y). OpaEq negated x y) (comparedTerms terms))"

fun opaLookup :: "jvalue \<Rightarrow> string list \<Rightarrow> jvalue option" where
  "opaLookup doc [] = Some doc"
| "opaLookup doc (k # ks) = Option.bind (jfield k doc) (\<lambda>v. opaLookup v ks)"

fun opaValue :: "jvalue \<Rightarrow> opaTerm \<Rightarrow> jvalue option" where
  "opaValue doc (OpaString s) = Some (JString s)"
| "opaValue doc (OpaRef path) = opaLookup doc path"

text \<open>An equality holds of two defined equal values; a negated one holds unless the equality does.\<close>

fun opaHolds :: "jvalue \<Rightarrow> opaExpr \<Rightarrow> bool" where
  "opaHolds doc (OpaEq negated x y) \<longleftrightarrow> negated \<noteq> (opaValue doc x \<noteq> None \<and> opaValue doc x = opaValue doc y)"

definition queryHolds :: "jvalue \<Rightarrow> jvalue list \<Rightarrow> bool" where
  "queryHolds doc es \<longleftrightarrow> list_all (\<lambda>e. case opaExprOf e of None \<Rightarrow> False | Some x \<Rightarrow> opaHolds doc x) es"

definition opaAllows :: "jvalue \<Rightarrow> jvalue list \<Rightarrow> bool" where
  "opaAllows doc queries \<longleftrightarrow> list_ex (\<lambda>q. case q of JArray es \<Rightarrow> queryHolds doc es | _ \<Rightarrow> False) queries"

definition remainingQueries :: "authzError + jvalue option \<Rightarrow> jvalue list option" where
  "remainingQueries r =
     (case r of
        Inr (Some (JMap m)) \<Rightarrow> (case map_of m ''queries'' of Some (JArray queries) \<Rightarrow> Some queries | _ \<Rightarrow> None)
      | _ \<Rightarrow> None)"

section \<open>Answers the translation is meant for\<close>

text \<open>
  A reference is to the cluster, which is all the agent leaves unknown, and names one of its fields; no text has a quote;
  and what a reference finds in the document is a string or nothing.
\<close>

definition textual :: "jvalue \<Rightarrow> string list \<Rightarrow> bool" where
  "textual doc path \<longleftrightarrow> (case opaLookup doc path of Some (JBool _) \<Rightarrow> False | Some (JNumber _) \<Rightarrow> False | Some (JArray _) \<Rightarrow> False | Some (JMap _) \<Rightarrow> False | _ \<Rightarrow> True)"

fun term_plain :: "jvalue \<Rightarrow> opaTerm \<Rightarrow> bool" where
  "term_plain doc (OpaString s) \<longleftrightarrow> sqlQuote \<notin> set s"
| "term_plain doc (OpaRef path) \<longleftrightarrow> path \<noteq> [] \<and> list_all (\<lambda>k. sqlQuote \<notin> set k) path \<and> textual doc path"

definition input_ref :: "jvalue \<Rightarrow> bool" where
  "input_ref v \<longleftrightarrow>
     (case v of
        JMap m \<Rightarrow>
          (case (map_of m ''type'', map_of m ''value'') of
             (Some (JString k), Some (JArray (a # b # parts))) \<Rightarrow>
               k = ''ref'' \<longrightarrow> typedString ''var'' a \<in> {None, Some ''input''} \<and> typedString ''string'' b \<in> {None, Some ''cluster''}
           | _ \<Rightarrow> True)
      | _ \<Rightarrow> True)"

definition term_ok :: "jvalue \<Rightarrow> jvalue \<Rightarrow> bool" where
  "term_ok doc t \<longleftrightarrow> input_ref t \<and> (case opaTermOf t of None \<Rightarrow> True | Some x \<Rightarrow> term_plain doc x)"

definition expr_ok :: "jvalue \<Rightarrow> jvalue \<Rightarrow> bool" where
  "expr_ok doc e \<longleftrightarrow> (case exprParts e of None \<Rightarrow> True | Some (terms, _) \<Rightarrow> list_all (term_ok doc) terms)"

definition answer_ok :: "jvalue \<Rightarrow> jvalue list \<Rightarrow> bool" where
  "answer_ok doc queries \<longleftrightarrow> list_all (\<lambda>q. case q of JArray es \<Rightarrow> list_all (expr_ok doc) es | _ \<Rightarrow> True) queries"

section \<open>The text of an operand\<close>

fun pathOperand :: "sqlOperand \<Rightarrow> string list \<Rightarrow> sqlOperand" where
  "pathOperand a [] = a"
| "pathOperand a (k # ks) = pathOperand (if ks = [] then SqlText a k else SqlField a k) ks"

fun termOperand :: "opaTerm \<Rightarrow> sqlOperand" where
  "termOperand (OpaString s) = SqlLit s"
| "termOperand (OpaRef path) = pathOperand (SqlCol ''payload'') path"

lemma getTermStringValue_cases:
  "(\<exists>s. getTermStringValue t k = Inr s \<and> typedString k t = Some s) \<or> (\<exists>e. getTermStringValue t k = Inl e \<and> typedString k t = None)"
proof (cases t)
  case (JMap m)
  show ?thesis
  proof (cases "map_of m ''type''")
    case None
    then show ?thesis by (simp add: JMap getTermStringValue_def typedString_def getTermType_def)
  next
    case v: (Some v)
    show ?thesis
    proof (cases "map_of m ''value''")
      case None
      then show ?thesis by (cases v) (simp_all add: v JMap getTermStringValue_def typedString_def getTermType_def getTermValue_def)
    next
      case (Some w)
      then show ?thesis by (cases v; cases w) (simp_all add: v JMap getTermStringValue_def typedString_def getTermType_def getTermValue_def)
    qed
  qed
qed (simp_all add: getTermStringValue_def typedString_def)

lemma getTermStringValue_iff: "getTermStringValue t k = Inr s \<longleftrightarrow> typedString k t = Some s"
  using getTermStringValue_cases [of t k] by auto

lemma pathLoop_operand:
  "those (map (typedString ''string'') parts) = Some path \<Longrightarrow> pathLoop (operandString a) parts = Inr (operandString (pathOperand a path))"
proof (induction parts arbitrary: a path)
  case Nil
  then show ?case by simp
next
  case (Cons p parts)
  then obtain k ks where k: "typedString ''string'' p = Some k" and ks: "those (map (typedString ''string'') parts) = Some ks"
    and path: "path = k # ks" by (auto split: option.splits)
  have nil: "parts = [] \<longleftrightarrow> ks = []" using ks by (cases parts) (auto split: option.splits)
  have p: "getTermStringValue p ''string'' = Inr k" using k by (simp add: getTermStringValue_iff)
  show ?case
    using Cons.IH [OF ks, of "if ks = [] then SqlText a k else SqlField a k"] by (cases "ks = []") (simp_all add: p nil path)
qed

lemma pathLoop_error: "those (map (typedString ''string'') parts) = None \<Longrightarrow> \<exists>e. pathLoop s parts = Inl e"
proof (induction parts arbitrary: s)
  case (Cons p parts)
  then show ?case using getTermStringValue_cases [of p "''string''"] by auto
qed simp

lemma handleRefTerm_ref:
  assumes "map_of m ''value'' = Some (JArray (a # b # parts))" and "typedString ''var'' a = Some ''input''" and "typedString ''string'' b = Some ''cluster''"
  shows "handleRefTerm m = pathLoop ''payload'' parts"
  using assms by (simp add: handleRefTerm_def getTermValue_def createPostgreSQLJSONPath_def getTermStringValue_iff [THEN iffD2])

lemma handleRefTerm_error:
  assumes "map_of m ''value'' = Some (JArray (a # b # parts))" and "typedString ''var'' a = None \<or> typedString ''string'' b = None"
  shows "\<exists>e. handleRefTerm m = Inl e"
  using assms getTermStringValue_cases [of a "''var''"] getTermStringValue_cases [of b "''string''"]
  by (auto simp: handleRefTerm_def getTermValue_def)

lemma getOperand_some:
  assumes "opaTermOf t = Some x"
  shows "getOperand t = Inr (operandString (termOperand x))"
proof -
  obtain m where t: "t = JMap m" using assms by (cases t) (auto simp: opaTermOf_def)
  consider s where "map_of m ''type'' = Some (JString ''string'')" "map_of m ''value'' = Some (JString s)" "x = OpaString s"
    | a b parts path where "map_of m ''type'' = Some (JString ''ref'')" "map_of m ''value'' = Some (JArray (a # b # parts))"
      "typedString ''var'' a = Some ''input''" "typedString ''string'' b = Some ''cluster''"
      "those (map (typedString ''string'') parts) = Some path" "x = OpaRef path"
    using assms by (auto simp: t opaTermOf_def split: option.splits jvalue.splits list.splits if_splits)
  then show ?thesis
  proof cases
    case 1
    then show ?thesis by (simp add: t getOperand_def getTermType_def handleStringTerm_def getTermValue_def)
  next
    case 2
    then show ?thesis using pathLoop_operand [OF 2(5), of "SqlCol ''payload''"]
      by (simp add: t getOperand_def getTermType_def handleRefTerm_ref)
  qed
qed

lemma getOperand_none:
  assumes "input_ref t" and "opaTermOf t = None"
  shows "\<exists>e. getOperand t = Inl e"
proof (cases t)
  case (JMap m)
  show ?thesis
  proof (cases "map_of m ''type'' = Some (JString ''ref'') \<and> (\<exists>a b parts. map_of m ''value'' = Some (JArray (a # b # parts)))")
    case True
    then obtain a b parts where m: "map_of m ''type'' = Some (JString ''ref'')" "map_of m ''value'' = Some (JArray (a # b # parts))" by blast
    have "typedString ''var'' a = None \<or> typedString ''string'' b = None \<or>
      typedString ''var'' a = Some ''input'' \<and> typedString ''string'' b = Some ''cluster'' \<and> those (map (typedString ''string'') parts) = None"
      using assms by (auto simp: JMap input_ref_def opaTermOf_def m)
    then show ?thesis
      using handleRefTerm_error [OF m(2)] pathLoop_error [of parts "''payload''"]
      by (auto simp: JMap getOperand_def getTermType_def m(1) handleRefTerm_ref [OF m(2)])
  next
    case False
    then show ?thesis
      using assms(2) by (auto simp: JMap opaTermOf_def getOperand_def getTermType_def handleStringTerm_def handleRefTerm_def getTermValue_def
          split: option.split jvalue.split list.split if_split_asm option.split_asm)
  qed
qed (simp_all add: getOperand_def)

lemma getOperator_eq: "getOperator t = Inr ''eq'' \<longleftrightarrow> isEqOperator t"
  by (cases t) (auto simp: getOperator_def isEqOperator_def getTermType_def getTermValue_def getTermStringValue_iff
      split: option.split jvalue.split list.split)

section \<open>The tokens of the condition\<close>

definition termsCore :: "jvalue list \<Rightarrow> bool \<Rightarrow> sqlToken list" where
  "termsCore terms negated =
     (case comparedTerms terms of
        Some (x, y) \<Rightarrow> operandToks (termOperand x) @ Equals_sign # operandToks (termOperand y)
      | None \<Rightarrow> [Word (if negated then ''TRUE'' else ''FALSE'')])"

definition termsToks :: "jvalue list \<Rightarrow> bool \<Rightarrow> sqlToken list" where
  "termsToks terms negated = (if negated then Word ''NOT'' # LParen # termsCore terms negated @ [RParen] else termsCore terms negated)"

definition exprToks :: "jvalue \<Rightarrow> sqlToken list" where
  "exprToks e =
     (case exprParts e of
        Some (terms, negated) \<Rightarrow> LParen # termsToks terms negated @ [RParen, Word ''AND'']
      | None \<Rightarrow> [Word ''FALSE'', RParen])"

definition queryToks :: "jvalue list \<Rightarrow> sqlToken list" where
  "queryToks es = (if es = [] then [] else LParen # concat (map exprToks es) @ [Word ''TRUE'', RParen, Word ''OR''])"

lemma pathOperand_plain: "operand_plain a \<Longrightarrow> list_all (\<lambda>k. sqlQuote \<notin> set k) path \<Longrightarrow> operand_plain (pathOperand a path)"
  by (induction path arbitrary: a) auto

lemma keyword_words [simp]: "isWord ''TRUE''" "isWord ''FALSE''" "isWord ''AND''" "isWord ''OR''" "isWord ''NOT''" "isWord ''payload''"
  "isWord ''leaf_hub_name''"
  by (simp_all add: isWord_def isWordChar_def isLetter_def)

lemma termOperand_plain: "term_plain doc x \<Longrightarrow> operand_plain (termOperand x)"
  by (cases x) (auto intro!: pathOperand_plain simp: sqlReserved_def)

lemma term_ok_plain: "term_ok doc t \<Longrightarrow> opaTermOf t = Some x \<Longrightarrow> term_plain doc x"
  by (simp add: term_ok_def)

lemma getOperand_ok:
  "term_ok doc t \<Longrightarrow> (\<exists>x. opaTermOf t = Some x \<and> term_plain doc x \<and> getOperand t = Inr (operandString (termOperand x)))
     \<or> (opaTermOf t = None \<and> (\<exists>e. getOperand t = Inl e))"
  by (cases "opaTermOf t") (auto simp: getOperand_some term_ok_def dest: getOperand_none)

lemma getSQLExpression_ok:
  assumes "list_all (term_ok doc) terms"
  shows "(\<exists>x y. comparedTerms terms = Some (x, y) \<and> term_plain doc x \<and> term_plain doc y
            \<and> getSQLExpression terms = Inr (operandString (termOperand x) @ '' = '' @ operandString (termOperand y)))
         \<or> comparedTerms terms = None \<and> (\<exists>e. getSQLExpression terms = Inl e)"
proof (cases "\<exists>t0 t1 t2. terms = [t0, t1, t2]")
  case False
  then have "comparedTerms terms = None" and "getSQLExpression terms = Inl errUnexpectedTermsNumber"
    by (auto simp: comparedTerms_def getSQLExpression_def split: list.splits)
  then show ?thesis by blast
next
  case True
  then obtain t0 t1 t2 where terms: "terms = [t0, t1, t2]" by blast
  show ?thesis
  proof (cases "isEqOperator t0")
    case True
    then have "getOperator t0 = Inr ''eq''" by (simp add: getOperator_eq)
    then show ?thesis
      using assms getOperand_ok [of doc t1] getOperand_ok [of doc t2] True
      by (auto simp: terms comparedTerms_def getSQLExpression_def)
  next
    case False
    then have "getOperator t0 \<noteq> Inr ''eq''" by (simp add: getOperator_eq)
    with False show ?thesis by (auto simp: terms comparedTerms_def getSQLExpression_def split: sum.splits)
  qed
qed

lemma lex_core:
  assumes "list_all (term_ok doc) terms"
  shows "lexSql ((case getSQLExpression terms of Inr s \<Rightarrow> s | Inl _ \<Rightarrow> (if negated then sqlTrue else sqlFalse)) @ CHR '')'' # rest)
         = map_option ((@) (termsCore terms negated)) (lexSql (CHR '')'' # rest))"
  using getSQLExpression_ok [OF assms] lex_operand [OF termOperand_plain]
  by (cases "lexSql rest") (auto simp: termsCore_def sqlTrue_def sqlFalse_def lex_word lex_word [of "''TRUE''", simplified] lex_word [of "''FALSE''", simplified])

lemma lex_terms:
  assumes "list_all (term_ok doc) terms"
  shows "lexSql (handleTermsArray terms negated @ CHR '')'' # rest) = map_option ((@) (termsToks terms negated)) (lexSql (CHR '')'' # rest))"
  using lex_core [OF assms, of True "CHR '')'' # rest"] lex_core [OF assms, of False rest] lex_word [of "''NOT''" "'' ('' @ s" for s]
  by (cases negated; cases "lexSql rest") (simp_all add: handleTermsArray_def termsToks_def)

lemma handleExpression_parts:
  "handleExpression e = (case exprParts e of Some (terms, negated) \<Rightarrow> ''('' @ handleTermsArray terms negated @ '') AND '' | None \<Rightarrow> ''FALSE) '')"
  by (cases e) (auto simp: handleExpression_def exprParts_def sqlFalse_def split: option.split jvalue.split)

lemma lex_expression: "expr_ok doc e \<Longrightarrow> lexSql (handleExpression e @ rest) = map_option ((@) (exprToks e)) (lexSql rest)"
  using lex_word [of "''AND''" "CHR '' '' # rest"] lex_word [of "''FALSE''" "'') '' @ rest"] lex_terms [of doc _ _ "'' AND '' @ rest"]
  by (cases "exprParts e"; cases "lexSql rest") (auto simp: handleExpression_parts exprToks_def expr_ok_def)

lemma lex_expressions: "list_all (expr_ok doc) es \<Longrightarrow> lexSql (concat (map handleExpression es) @ rest) = map_option ((@) (concat (map exprToks es))) (lexSql rest)"
proof (induction es)
  case Nil
  then show ?case by (cases "lexSql rest") simp_all
next
  case (Cons e es)
  then show ?case using lex_expression [of doc e "concat (map handleExpression es) @ rest"] by (cases "lexSql rest") simp_all
qed

lemma lex_query: "list_all (expr_ok doc) es \<Longrightarrow> lexSql (handleQuery es @ rest) = map_option ((@) (queryToks es)) (lexSql rest)"
  using lex_expressions [of doc es "''TRUE) OR '' @ rest"] lex_word [of "''TRUE''" "'') OR '' @ rest"] lex_word [of "''OR''" "CHR '' '' # rest"]
  by (cases "lexSql rest") (simp_all add: handleQuery_def queryToks_def sqlTrue_def)

section \<open>The condition\<close>

definition coreCond :: "jvalue list \<Rightarrow> bool \<Rightarrow> sqlCond" where
  "coreCond terms negated =
     (case comparedTerms terms of
        Some (x, y) \<Rightarrow> SqlEq (termOperand x) (termOperand y)
      | None \<Rightarrow> (if negated then SqlTrue else SqlFalse))"

definition exprCond :: "jvalue \<Rightarrow> sqlCond" where
  "exprCond e =
     (case exprParts e of
        Some (terms, negated) \<Rightarrow> (if negated then SqlNot (coreCond terms negated) else coreCond terms negated)
      | None \<Rightarrow> SqlFalse)"

fun queryCond :: "jvalue list \<Rightarrow> sqlCond" where
  "queryCond [] = SqlTrue"
| "queryCond (e # es) = SqlAnd (exprCond e) (queryCond es)"

fun filterCond :: "jvalue list list \<Rightarrow> sqlCond" where
  "filterCond [] = SqlFalse"
| "filterCond (q # qs) = (if q = [] then filterCond qs else SqlOr (queryCond q) (filterCond qs))"

lemma comparedTerms_plain:
  "list_all (term_ok doc) terms \<Longrightarrow> comparedTerms terms = Some (x, y) \<Longrightarrow> term_plain doc x \<and> term_plain doc y"
  using getSQLExpression_ok [of doc terms] by auto

lemma parse_core:
  assumes "list_all (term_ok doc) terms"
  shows "parseOr (termsCore terms negated @ RParen # r) = Some (coreCond terms negated, RParen # r)"
proof -
  have "parseNot (termsCore terms negated @ RParen # r) = Some (coreCond terms negated, RParen # r)"
    using comparedTerms_plain [OF assms]
    by (auto simp: termsCore_def coreCond_def parseNot_comparison termOperand_plain split: option.split)
  then show ?thesis by (auto intro!: parseOr_last parseAnd_last)
qed

lemma parse_expression:
  assumes "expr_ok doc e" and "exprParts e \<noteq> None"
  shows "parseNot (exprToks e @ r) = Some (exprCond e, Word ''AND'' # r)"
proof -
  obtain terms negated where p: "exprParts e = Some (terms, negated)" using assms(2) by auto
  then have ok: "list_all (term_ok doc) terms" using assms(1) by (simp add: expr_ok_def)
  have "parseOr (termsToks terms negated @ RParen # Word ''AND'' # r) = Some (exprCond e, RParen # Word ''AND'' # r)"
  proof (cases negated)
    case True
    have "parseNot (Word ''NOT'' # LParen # termsCore terms True @ RParen # RParen # Word ''AND'' # r)
        = Some (SqlNot (coreCond terms True), RParen # Word ''AND'' # r)"
      by (intro parseNot_keyword(3) parseNot_paren parse_core [OF ok])
    then show ?thesis by (auto simp: True termsToks_def exprCond_def p intro!: parseOr_last parseAnd_last)
  next
    case False
    then show ?thesis using parse_core [OF ok, of False] by (simp add: termsToks_def exprCond_def p)
  qed
  then show ?thesis by (simp add: exprToks_def p parseNot_paren)
qed

lemma parse_expressions:
  "list_all (expr_ok doc) es \<Longrightarrow> list_all (\<lambda>e. exprParts e \<noteq> None) es \<Longrightarrow>
   parseAnd (concat (map exprToks es) @ Word ''TRUE'' # RParen # r) = Some (queryCond es, RParen # r)"
proof (induction es)
  case Nil
  then show ?case by (auto intro!: parseAnd_last)
next
  case (Cons e es)
  then show ?case using parse_expression [of doc e "concat (map exprToks es) @ Word ''TRUE'' # RParen # r"] by (auto intro!: parseAnd_more)
qed

lemma parse_query:
  assumes "list_all (expr_ok doc) es" and "list_all (\<lambda>e. exprParts e \<noteq> None) es" and "es \<noteq> []"
  shows "parseNot (queryToks es @ r) = Some (queryCond es, Word ''OR'' # r)"
proof -
  have "parseOr (concat (map exprToks es) @ Word ''TRUE'' # RParen # Word ''OR'' # r) = Some (queryCond es, RParen # Word ''OR'' # r)"
    by (rule parseOr_last [OF parse_expressions [OF assms(1,2)]]) simp
  from parseNot_paren [OF this] show ?thesis by (simp add: queryToks_def assms(3))
qed

lemma parse_queries:
  "list_all (\<lambda>es. list_all (expr_ok doc) es \<and> list_all (\<lambda>e. exprParts e \<noteq> None) es) qs \<Longrightarrow>
   parseOr (concat (map queryToks qs) @ [Word ''FALSE'']) = Some (filterCond qs, [])"
proof (induction qs)
  case Nil
  then show ?case by (auto intro!: parseOr_last parseAnd_last)
next
  case (Cons es qs)
  show ?case
  proof (cases "es = []")
    case True
    with Cons show ?thesis by (simp add: queryToks_def)
  next
    case False
    have "parseAnd (queryToks es @ concat (map queryToks qs) @ [Word ''FALSE'']) = Some (queryCond es, Word ''OR'' # concat (map queryToks qs) @ [Word ''FALSE''])"
      using Cons.prems False by (intro parseAnd_last parse_query [where doc = doc]) auto
    from parseOr_more [OF this] Cons False show ?thesis by simp
  qed
qed

text \<open>An expression without terms leaves one closing parenthesis too many, so the text does not parse.\<close>

lemma operandToks_depth [simp]: "depth (operandToks a) = 0"
  by (induction a) auto

lemma termsToks_depth [simp]: "depth (termsToks terms negated) = 0"
  by (auto simp: termsToks_def termsCore_def split: option.split)

lemma exprToks_depth: "depth (exprToks e) = (if exprParts e = None then -1 else 0)"
  by (auto simp: exprToks_def split: option.split)

lemma exprs_depth: "depth (concat (map exprToks es)) \<le> 0" "\<not> list_all (\<lambda>e. exprParts e \<noteq> None) es \<Longrightarrow> depth (concat (map exprToks es)) < 0"
  by (induction es) (auto simp: exprToks_depth)

lemma query_depth: "depth (queryToks es) \<le> 0" "\<not> list_all (\<lambda>e. exprParts e \<noteq> None) es \<Longrightarrow> depth (queryToks es) < 0"
  using exprs_depth [of es] by (auto simp: queryToks_def)

lemma queries_depth:
  "depth (concat (map queryToks qs)) \<le> 0"
  "\<not> list_all (list_all (\<lambda>e. exprParts e \<noteq> None)) qs \<Longrightarrow> depth (concat (map queryToks qs)) < 0"
proof (induction qs)
  case (Cons q qs)
  { case 1 with Cons query_depth(1) [of q] show ?case by simp }
  { case 2 with Cons query_depth [of q] show ?case by (cases "list_all (\<lambda>e. exprParts e \<noteq> None) q") (auto simp: add_neg_nonpos) }
qed auto

section \<open>The text for an answer\<close>

fun arraysOf :: "jvalue list \<Rightarrow> jvalue list list" where
  "arraysOf [] = []"
| "arraysOf (JArray es # qs) = es # arraysOf qs"
| "arraysOf (_ # qs) = arraysOf qs"

lemma set_arraysOf: "es \<in> set (arraysOf qs) \<longleftrightarrow> JArray es \<in> set qs"
  by (induction qs rule: arraysOf.induct) auto

lemma queryLoop_text: "\<not> (n = 1 \<and> JArray [] \<in> set qs) \<Longrightarrow> queryLoop n sb qs = Inl (sb @ concat (map handleQuery (arraysOf qs)))"
  by (induction qs arbitrary: sb rule: arraysOf.induct) auto

definition filterText :: "jvalue list \<Rightarrow> string" where
  "filterText qs = (if qs = [JArray []] then ''TRUE'' else concat (map handleQuery (arraysOf qs)) @ ''FALSE'')"

lemma filterByAuthorization_text:
  "filterByAuthorization svc user groups url ca =
     (case getPartialEvaluation svc user groups url ca of
        Inr None \<Rightarrow> None
      | r \<Rightarrow> Some (case remainingQueries r of None \<Rightarrow> ''FALSE'' | Some qs \<Rightarrow> filterText qs))"
proof -
  have loop: "(case queryLoop (length qs) [] qs of Inr s \<Rightarrow> Some s | Inl sb \<Rightarrow> Some (sb @ sqlFalse)) = Some (filterText qs)" if "qs \<noteq> []" for qs
  proof (cases "qs = [JArray []]")
    case False
    then have "\<not> (length qs = 1 \<and> JArray [] \<in> set qs)" by (cases qs) auto
    then show ?thesis by (simp add: queryLoop_text filterText_def False sqlFalse_def)
  qed (simp add: filterText_def allowAll_def sqlTrue_def)
  show ?thesis
    by (cases "getPartialEvaluation svc user groups url ca")
       (auto simp: filterByAuthorization_def denyAll_def sqlFalse_def remainingQueries_def loop filterText_def allowAll_def sqlTrue_def split: option.split jvalue.split)
qed

definition shaped :: "jvalue list \<Rightarrow> bool" where
  "shaped qs \<longleftrightarrow> list_all (list_all (\<lambda>e. exprParts e \<noteq> None)) (arraysOf qs)"

lemma answer_ok_arrays: "answer_ok doc qs \<Longrightarrow> list_all (list_all (expr_ok doc)) (arraysOf qs)"
  by (fastforce simp: answer_ok_def list_all_iff set_arraysOf)

lemma lex_queries:
  "list_all (list_all (expr_ok doc)) qs \<Longrightarrow> lexSql (concat (map handleQuery qs) @ ''FALSE'') = Some (concat (map queryToks qs) @ [Word ''FALSE''])"
proof (induction qs)
  case Nil
  then show ?case using lex_word [of "''FALSE''" "[]"] by simp
next
  case (Cons q qs)
  then show ?case using lex_query [of doc q] by simp
qed

lemma parse_filterText:
  assumes "answer_ok doc qs"
  shows "parseCondition (filterText qs) = (if qs = [JArray []] then Some SqlTrue else if shaped qs then Some (filterCond (arraysOf qs)) else None)"
proof (cases "qs = [JArray []]")
  case True
  have "parseOr [Word ''TRUE''] = Some (SqlTrue, [])" by (intro parseOr_last parseAnd_last) simp_all
  then show ?thesis using lex_word [of "''TRUE''" "[]"] by (simp add: True filterText_def parseCondition_def)
next
  case False
  have lex: "lexSql (filterText qs) = Some (concat (map queryToks (arraysOf qs)) @ [Word ''FALSE''])"
    using False lex_queries [OF answer_ok_arrays [OF assms]] by (simp add: filterText_def)
  show ?thesis
  proof (cases "shaped qs")
    case True
    with answer_ok_arrays [OF assms] have "list_all (\<lambda>es. list_all (expr_ok doc) es \<and> list_all (\<lambda>e. exprParts e \<noteq> None) es) (arraysOf qs)"
      by (auto simp: shaped_def list_all_iff)
    then show ?thesis using lex parse_queries [of doc "arraysOf qs"] False True by (simp add: parseCondition_def)
  next
    case False
    then have "depth (concat (map queryToks (arraysOf qs)) @ [Word ''FALSE'']) < 0"
      using queries_depth(2) [of "arraysOf qs"] by (simp add: shaped_def)
    then have "parseCondition (filterText qs) = None"
      using parse_balanced [OF lex] by (cases "parseCondition (filterText qs)") auto
    then show ?thesis using False \<open>qs \<noteq> [JArray []]\<close> by simp
  qed
qed

section \<open>The rows selected\<close>

lemma pathOperand_json:
  "path \<noteq> [] \<Longrightarrow> operandText render row (pathOperand a path) = Option.bind (Option.bind (operandJson row a) (\<lambda>v. opaLookup v path)) (jsonText render)"
proof (induction path arbitrary: a)
  case (Cons k ks)
  show ?case
  proof (cases "ks = []")
    case True
    then show ?thesis by (cases "operandJson row a") (simp_all add: bind_assoc)
  next
    case False
    then show ?thesis using Cons.IH [OF False, of "SqlField a k"] by (cases "operandJson row a") simp_all
  qed
qed simp

text \<open>The text of a term is the string it denotes, and nothing when it denotes nothing or a null.\<close>

lemma termOperand_text:
  assumes "term_plain doc x" and "jsonColumn row ''payload'' = Some doc"
  shows "operandText render row (termOperand x) = (case opaValue doc x of Some (JString s) \<Rightarrow> Some s | _ \<Rightarrow> None)"
proof (cases x)
  case (OpaRef path)
  then show ?thesis
    using assms pathOperand_json [of path render row "SqlCol ''payload''"]
    by (auto simp: textual_def jsonText_def split: option.splits jvalue.splits)
qed simp

text \<open>No null is compared, and nothing undefined in a negated expression: where SQL and the policy agent agree.\<close>

definition sql_defined :: "jvalue \<Rightarrow> jvalue \<Rightarrow> bool" where
  "sql_defined doc e \<longleftrightarrow>
     (case opaExprOf e of
        Some (OpaEq negated x y) \<Rightarrow> opaValue doc x \<noteq> Some JNull \<and> opaValue doc y \<noteq> Some JNull
          \<and> (\<not> negated \<or> opaValue doc x \<noteq> None \<and> opaValue doc y \<noteq> None)
      | None \<Rightarrow> False)"

lemma opaExprOf_parts:
  "opaExprOf e = Some x \<longleftrightarrow> (\<exists>terms negated a b. exprParts e = Some (terms, negated) \<and> comparedTerms terms = Some (a, b) \<and> x = OpaEq negated a b)"
  by (auto simp: opaExprOf_def split: option.split)

lemma exprCond_sound:
  assumes "expr_ok doc e" and "jsonColumn row ''payload'' = Some doc" and "selects render (exprCond e) row"
  shows "\<exists>x. opaExprOf e = Some x \<and> opaHolds doc x"
proof -
  obtain terms negated where p: "exprParts e = Some (terms, negated)"
    using assms(3) by (cases "exprParts e") (auto simp: exprCond_def)
  obtain x y where c: "comparedTerms terms = Some (x, y)"
    using assms(3) by (cases "comparedTerms terms") (auto simp: exprCond_def p coreCond_def split: if_splits)
  have "term_plain doc x" "term_plain doc y"
    using comparedTerms_plain [OF _ c] assms(1) by (auto simp: expr_ok_def p)
  then show ?thesis
    using assms(3) termOperand_text [OF _ assms(2)]
    by (auto simp: exprCond_def opaExprOf_def p c coreCond_def split: if_splits option.splits jvalue.splits)
qed

lemma term_value:
  assumes "term_plain doc x"
  shows "opaValue doc x = None \<or> opaValue doc x = Some JNull \<or> (\<exists>s. opaValue doc x = Some (JString s))"
  using assms by (cases x) (auto simp: textual_def split: option.splits jvalue.splits)

lemma exprCond_complete:
  assumes "expr_ok doc e" and "jsonColumn row ''payload'' = Some doc" and "sql_defined doc e"
    and "opaExprOf e = Some x" and "opaHolds doc x"
  shows "selects render (exprCond e) row"
proof -
  obtain terms negated a b where p: "exprParts e = Some (terms, negated)" "comparedTerms terms = Some (a, b)" "x = OpaEq negated a b"
    using assms(4) by (auto simp: opaExprOf_parts)
  have plain: "term_plain doc a" "term_plain doc b"
    using comparedTerms_plain [OF _ p(2)] assms(1) by (auto simp: expr_ok_def p)
  show ?thesis
    using assms(3-5) term_value [OF plain(1)] term_value [OF plain(2)] termOperand_text [OF plain(1) assms(2)] termOperand_text [OF plain(2) assms(2)]
    by (auto simp: exprCond_def p coreCond_def sql_defined_def)
qed

lemma queryCond_selects: "selects render (queryCond es) row \<longleftrightarrow> (\<forall>e\<in>set es. selects render (exprCond e) row)"
  by (induction es) auto

lemma filterCond_selects: "selects render (filterCond qs) row \<longleftrightarrow> (\<exists>es\<in>set qs. es \<noteq> [] \<and> selects render (queryCond es) row)"
  by (induction qs) auto

lemma opaAllows_iff: "opaAllows doc qs \<longleftrightarrow> (\<exists>es. JArray es \<in> set qs \<and> queryHolds doc es)"
proof (induction qs)
  case (Cons q qs)
  then show ?case by (cases q) (auto simp: opaAllows_def)
qed (simp add: opaAllows_def)

lemma queryHolds_iff: "queryHolds doc es \<longleftrightarrow> (\<forall>e\<in>set es. \<exists>x. opaExprOf e = Some x \<and> opaHolds doc x)"
  by (auto simp: queryHolds_def list_all_iff split: option.splits)

lemma filterText_sound:
  assumes ok: "answer_ok doc qs" and "parseCondition (filterText qs) = Some c" and row: "jsonColumn row ''payload'' = Some doc"
    and "selects render c row"
  shows "opaAllows doc qs"
proof (cases "qs = [JArray []]")
  case True
  then show ?thesis by (simp add: opaAllows_def queryHolds_def)
next
  case False
  then have "c = filterCond (arraysOf qs)" using assms(2) by (simp add: parse_filterText [OF ok] split: if_splits)
  then obtain es where es: "es \<in> set (arraysOf qs)" "\<forall>e\<in>set es. selects render (exprCond e) row"
    using assms(4) by (auto simp: filterCond_selects queryCond_selects)
  have "list_all (expr_ok doc) es" using answer_ok_arrays [OF ok] es(1) by (simp add: list_all_iff)
  then have "queryHolds doc es" using es(2) exprCond_sound [OF _ row] by (auto simp: queryHolds_iff list_all_iff)
  then show ?thesis using es(1) by (auto simp: opaAllows_iff set_arraysOf)
qed

text \<open>An answer that the translation covers fully: arrays of expressions that are equalities, and no empty query but a single one.\<close>

definition translatable :: "jvalue \<Rightarrow> jvalue list \<Rightarrow> bool" where
  "translatable doc qs \<longleftrightarrow> answer_ok doc qs \<and> list_all (list_all (sql_defined doc)) (arraysOf qs) \<and> (qs = [JArray []] \<or> JArray [] \<notin> set qs)"

lemma sql_defined_parts: "sql_defined doc e \<Longrightarrow> exprParts e \<noteq> None"
  by (auto simp: sql_defined_def opaExprOf_def split: option.splits)

lemma translatable_parses:
  assumes "translatable doc qs"
  shows "\<exists>c. parseCondition (filterText qs) = Some c"
proof -
  have "shaped qs" using assms sql_defined_parts unfolding translatable_def shaped_def list_all_iff by blast
  with assms show ?thesis by (auto simp: translatable_def parse_filterText)
qed

lemma filterText_complete:
  assumes "translatable doc qs" and row: "jsonColumn row ''payload'' = Some doc" and "opaAllows doc qs"
  shows "\<exists>c. parseCondition (filterText qs) = Some c \<and> selects render c row"
proof (cases "qs = [JArray []]")
  case True
  then show ?thesis using assms(1) by (simp add: translatable_def parse_filterText)
next
  case False
  have ok: "answer_ok doc qs" and def: "list_all (list_all (sql_defined doc)) (arraysOf qs)" and ne: "JArray [] \<notin> set qs"
    using assms(1) False by (auto simp: translatable_def)
  have "shaped qs" using def sql_defined_parts unfolding shaped_def list_all_iff by blast
  moreover obtain es where es: "es \<in> set (arraysOf qs)" "queryHolds doc es"
    using assms(3) by (auto simp: opaAllows_iff set_arraysOf)
  moreover have "es \<noteq> []" using es(1) ne by (auto simp: set_arraysOf)
  moreover have "\<forall>e\<in>set es. selects render (exprCond e) row"
    using es answer_ok_arrays [OF ok] def by (fastforce simp: queryHolds_iff list_all_iff intro: exprCond_complete [OF _ row])
  ultimately show ?thesis using False by (auto simp: parse_filterText [OF ok] filterCond_selects queryCond_selects)
qed

section \<open>The authorization\<close>

text \<open>A sample policy: clusters of the environment of the user, other than in the vendor given.\<close>

definition jterm :: "string \<Rightarrow> jvalue \<Rightarrow> jvalue" where
  "jterm k v = JMap [(''type'', JString k), (''value'', v)]"

definition jref :: "string list \<Rightarrow> jvalue" where
  "jref path = jterm ''ref'' (JArray (jterm ''var'' (JString ''input'') # map (\<lambda>k. jterm ''string'' (JString k)) (''cluster'' # path)))"

definition jeq :: "bool \<Rightarrow> jvalue \<Rightarrow> jvalue \<Rightarrow> jvalue" where
  "jeq negated x y = JMap [(''negated'', JBool negated), (''terms'', JArray [jterm ''ref'' (JArray [jterm ''var'' (JString ''eq'')]), x, y])]"

definition jstr :: "string \<Rightarrow> jvalue" where
  "jstr s = jterm ''string'' (JString s)"

definition sampleService :: "jvalue list \<Rightarrow> opaService" where
  "sampleService qs =
     \<lparr>svc_appendCerts = (\<lambda>_. True), svc_marshal = (\<lambda>_. Some ''request''), svc_newRequest = (\<lambda>_. True),
      svc_post = (\<lambda>_ _ _. Some (200, Some ''answer'')), svc_unmarshal = (\<lambda>_. Some (Some (JMap [(''queries'', JArray qs)])))\<rparr>"

definition sampleQueries :: "jvalue list" where
  "sampleQueries = [JArray [jeq False (jref [''metadata'', ''env'']) (jstr ''dev''), jeq True (jref [''vendor'']) (jstr ''Other'')]]"

definition clusterDoc :: "string \<Rightarrow> string \<Rightarrow> string \<Rightarrow> jvalue" where
  "clusterDoc name env vendor = JMap [(''metadata'', JMap [(''name'', JString name), (''env'', JString env)]), (''vendor'', JString vendor)]"

definition docRow :: "string \<Rightarrow> jvalue \<Rightarrow> sqlRow" where
  "docRow hub doc = \<lparr>textColumn = (\<lambda>c. if c = ''leaf_hub_name'' then Some hub else None), jsonColumn = (\<lambda>c. if c = ''payload'' then Some doc else None)\<rparr>"

lemmas sample_defs = jterm_def jref_def jeq_def jstr_def sampleQueries_def clusterDoc_def

lemma sampleService_queries: "remainingQueries (getPartialEvaluation (sampleService qs) user groups url None) = Some qs"
  by (simp add: getPartialEvaluation_def sampleService_def authz_createClient_def remainingQueries_def Let_def)

lemma sampleService_filter: "filterByAuthorization (sampleService qs) user groups url None = Some (filterText qs)"
  by (simp add: filterByAuthorization_text getPartialEvaluation_def sampleService_def authz_createClient_def remainingQueries_def Let_def)

lemma sampleQueries_translatable: "translatable (clusterDoc name ''dev'' ''OpenShift'') sampleQueries"
  by code_simp

text \<open>C12. The authorization never grants more than the policy: whatever the policy agent answers (errors, malformed
  answers and malformed expressions included), a row that PostgreSQL selects with the condition written for a user holds
  a cluster that the queries of the agent allow, provided that in the comparisons of the answer every reference is to a field
  of \<open>input.cluster\<close> that is a string, null or absent in the cluster, and no text has a quote. A condition that
  PostgreSQL cannot parse selects nothing.\<close>

theorem authorization_sound:
  assumes "filterByAuthorization svc user groups url ca = Some text"
    and "\<And>qs. remainingQueries (getPartialEvaluation svc user groups url ca) = Some qs \<Longrightarrow> answer_ok doc qs"
    and "parseCondition text = Some c" and "jsonColumn row ''payload'' = Some doc" and "selects render c row"
  shows "\<exists>qs. remainingQueries (getPartialEvaluation svc user groups url ca) = Some qs \<and> opaAllows doc qs"
proof (cases "remainingQueries (getPartialEvaluation svc user groups url ca)")
  case None
  then have "text = filterText []"
    using assms(1) by (auto simp: filterByAuthorization_text filterText_def split: sum.splits option.splits)
  then show ?thesis
    using assms(3,5) parse_filterText [of doc "[]"] by (simp add: answer_ok_def shaped_def)
next
  case (Some qs)
  then have "text = filterText qs"
    using assms(1) by (auto simp: filterByAuthorization_text remainingQueries_def split: sum.splits option.splits)
  then show ?thesis
    using Some filterText_sound [OF assms(2) [OF Some]] assms(3-5) by blast
qed

theorem authorization_sound_witness:
  "\<exists>c. parseCondition (filterText sampleQueries) = Some c \<and> selects (\<lambda>_. []) c (docRow ''hub1'' (clusterDoc ''c1'' ''dev'' ''OpenShift''))
     \<and> (\<exists>qs. remainingQueries (getPartialEvaluation (sampleService sampleQueries) ''u'' [] ''opa'' None) = Some qs
             \<and> opaAllows (clusterDoc ''c1'' ''dev'' ''OpenShift'') qs)"
proof -
  have row: "jsonColumn (docRow ''hub1'' (clusterDoc ''c1'' ''dev'' ''OpenShift'')) ''payload'' = Some (clusterDoc ''c1'' ''dev'' ''OpenShift'')"
    by (simp add: docRow_def)
  have allows: "opaAllows (clusterDoc ''c1'' ''dev'' ''OpenShift'') sampleQueries" by code_simp
  obtain c where c: "parseCondition (filterText sampleQueries) = Some c"
    "selects (\<lambda>_. []) c (docRow ''hub1'' (clusterDoc ''c1'' ''dev'' ''OpenShift''))"
    using filterText_complete [OF sampleQueries_translatable row allows] by blast
  show ?thesis
    using c authorization_sound [OF sampleService_filter _ c(1) row c(2)] sampleQueries_translatable
    by (auto simp: sampleService_queries translatable_def)
qed

text \<open>C13. The condition selects exactly the rows whose clusters the agent allows, and parses, where the answer of the policy
  agent is in the fragment the service translates: queries of comparisons (none empty unless it is the only one) of texts
  without quotes and of fields of \<open>input.cluster\<close> that are strings or absent, and not absent where the comparison is
  negated.\<close>

theorem authorization_exact:
  assumes "remainingQueries (getPartialEvaluation svc user groups url ca) = Some qs" and "translatable doc qs"
    and "jsonColumn row ''payload'' = Some doc"
  shows "\<exists>text c. filterByAuthorization svc user groups url ca = Some text \<and> parseCondition text = Some c \<and>
    (selects render c row \<longleftrightarrow> opaAllows doc qs)"
proof -
  have "filterByAuthorization svc user groups url ca = Some (filterText qs)"
    using assms(1) by (auto simp: filterByAuthorization_text remainingQueries_def split: sum.splits option.splits)
  moreover have ok: "answer_ok doc qs" using assms(2) by (simp add: translatable_def)
  moreover obtain c where c: "parseCondition (filterText qs) = Some c"
    using translatable_parses [OF assms(2)] by blast
  moreover have "selects render c row \<longleftrightarrow> opaAllows doc qs"
    using filterText_sound [OF ok c assms(3)] filterText_complete [OF assms(2,3), where render = render] c by auto
  ultimately show ?thesis by blast
qed

theorem authorization_exact_witness:
  "\<exists>text c. filterByAuthorization (sampleService sampleQueries) ''u'' [] ''opa'' None = Some text \<and> parseCondition text = Some c \<and>
     (selects (\<lambda>_. []) c (docRow ''hub1'' (clusterDoc ''c1'' ''dev'' ''OpenShift'')) \<longleftrightarrow> opaAllows (clusterDoc ''c1'' ''dev'' ''OpenShift'') sampleQueries)"
  by (rule authorization_exact [OF sampleService_queries sampleQueries_translatable]) (simp add: docRow_def)

section \<open>References to other inputs\<close>

definition foreignQueries :: "jvalue list" where
  "foreignQueries = [JArray [jeq False (jterm ''ref'' (JArray [jterm ''var'' (JString ''input''), jterm ''string'' (JString ''user''), jterm ''string'' (JString ''name'')]))
     (jstr ''ann'')]]"

text \<open>A reference is refused only when both of its first parts differ from \<open>input\<close> and \<open>cluster\<close>: one to the
  name of the user, which no remaining query can be about, is read as one to the field \<open>name\<close> of the cluster.\<close>

theorem foreign_reference_translated:
  "\<exists>c. parseCondition (filterText foreignQueries) = Some c \<and> selects (\<lambda>_. []) c (docRow ''hub1'' (JMap [(''name'', JString ''ann'')]))
   \<and> \<not> opaAllows (JMap [(''name'', JString ''ann'')]) foreignQueries"
proof -
  have parse: "parseCondition (filterText foreignQueries) =
      Some (SqlOr (SqlAnd (SqlEq (SqlText (SqlCol ''payload'') ''name'') (SqlLit ''ann'')) SqlTrue) SqlFalse)" by code_simp
  have "\<not> opaAllows (JMap [(''name'', JString ''ann'')]) foreignQueries" by code_simp
  moreover have "selects (\<lambda>_. []) (SqlOr (SqlAnd (SqlEq (SqlText (SqlCol ''payload'') ''name'') (SqlLit ''ann'')) SqlTrue) SqlFalse)
      (docRow ''hub1'' (JMap [(''name'', JString ''ann'')]))" by code_simp
  ultimately show ?thesis unfolding parse by blast
qed

section \<open>Texts with a quote\<close>

text \<open>A value the policy compares with, chosen so that its quotes end the literal it is put into.\<close>

definition escapingValue :: string where
  "escapingValue = ''x'' @ [sqlQuote] @ '' OR '' @ sqlQuoted ''a'' @ '' = '' @ [sqlQuote] @ ''a''"

definition escapingQueries :: "jvalue list" where
  "escapingQueries = [JArray [jeq False (jref [''owner'']) (jstr escapingValue)]]"

lemma escaping_condition:
  "parseCondition (filterText escapingQueries) =
     Some (SqlOr (SqlAnd (SqlOr (SqlEq (SqlText (SqlCol ''payload'') ''owner'') (SqlLit ''x'')) (SqlEq (SqlLit ''a'') (SqlLit ''a''))) SqlTrue) SqlFalse)"
  by code_simp

text \<open>Values are put into the condition between quotes as they are: for a policy that compares the owner of a
  cluster with a value that has quotes in it, the condition selects every row, although the policy allows only the clusters
  whose owner is that value.\<close>

theorem quoted_value_escapes:
  "filterByAuthorization (sampleService escapingQueries) user groups url None = Some (filterText escapingQueries)
   \<and> (\<exists>c. parseCondition (filterText escapingQueries) = Some c \<and> (\<forall>row. selects render c row))
   \<and> \<not> opaAllows (JMap [(''owner'', JString ''somebody'')]) escapingQueries"
proof (intro conjI)
  show "\<not> opaAllows (JMap [(''owner'', JString ''somebody'')]) escapingQueries" by code_simp
qed (auto simp: sampleService_filter escaping_condition)

end
