(* ===== verification/GH_Rest.thy ===== *)
theory GH_Rest
  imports GH_AuthzProps GH_SpecTransport "HOL-Library.Sublist" "HOL-Library.List_Lexorder" "HOL-Library.Char_ord"
begin

text \<open>
  The REST service of the manager (\<open>src/manager/pkg/nonk8sapi\<close>): authentication, the handlers that list and watch
  managed clusters, list the status of policies and patch the labels of a managed cluster, and the set-up of the server.

  A handler yields the responses it writes, in order; the client sees the status of the first. Queries on
  \<open>status.managed_clusters\<close> are evaluated from the text of their condition, as \<open>GH_SqlFilter\<close> reads it. The
  answers of the database, the API server and the JSON decoder are arguments; \<open>None\<close> is a panic.
\<close>

section \<open>Requests and responses\<close>

text \<open>The values the authentication stores in the context of a request; one of another type is \<open>None\<close>.\<close>

record ginContext =
  cx_user :: "string option"
  cx_groups :: "string list option"

definition contextUser :: "ginContext \<Rightarrow> string" where
  "contextUser ctx = (case cx_user ctx of None \<Rightarrow> ''Unknown'' | Some u \<Rightarrow> u)"

definition contextGroups :: "ginContext \<Rightarrow> string list" where
  "contextGroups ctx = (case cx_groups ctx of None \<Rightarrow> [] | Some g \<Rightarrow> g)"

text \<open>The URL and the bundle of certificates of the policy agent, and the agent itself.\<close>

record authzConfig =
  ac_service :: opaService
  ac_url :: string
  ac_caBundle :: "string option"

definition userFilter :: "authzConfig \<Rightarrow> ginContext \<Rightarrow> string option" where
  "userFilter az ctx = filterByAuthorization (ac_service az) (contextUser ctx) (contextGroups ctx) (ac_url az) (ac_caBundle az)"

section \<open>Authentication\<close>

text \<open>The service that knows the users: as the policy agent, with the user and groups of the answer.\<close>

record userService =
  us_appendCerts :: "string \<Rightarrow> bool"
  us_newRequest :: "string \<Rightarrow> bool"
  us_get :: "tlsConfig \<Rightarrow> string \<Rightarrow> string \<Rightarrow> (nat \<times> string option) option"
  us_unmarshal :: "string \<Rightarrow> (string \<times> string list) option"

definition authn_createClient :: "userService \<Rightarrow> string option \<Rightarrow> tlsConfig option" where
  "authn_createClient us clusterAPICABundle =
     (case clusterAPICABundle of
        None \<Rightarrow> Some InsecureSkipVerify
      | Some pem \<Rightarrow> if us_appendCerts us pem then Some (RootCAs pem) else None)"

text \<open>
  A client or request that could not be created is logged and then used: its methods dereference a nil pointer. The
  result is the context when the user is authenticated.
\<close>

definition setAuthenticatedUser :: "userService \<Rightarrow> string \<Rightarrow> string \<Rightarrow> string option \<Rightarrow> ginContext option option" where
  "setAuthenticatedUser us authorizationHeader clusterAPIURL clusterAPICABundle =
     (let url = clusterAPIURL @ ''/apis/user.openshift.io/v1/users/~'' in
      if \<not> us_newRequest us url then None
      else (case authn_createClient us clusterAPICABundle of
              None \<Rightarrow> None
            | Some client \<Rightarrow>
                Some (case us_get us client url authorizationHeader of
                        None \<Rightarrow> None
                      | Some (status, body) \<Rightarrow>
                          if status \<noteq> 200 then None
                          else (case body of
                                  None \<Rightarrow> None
                                | Some b \<Rightarrow>
                                    (case us_unmarshal us b of
                                       None \<Rightarrow> None
                                     | Some (name, groups) \<Rightarrow> Some \<lparr>cx_user = Some name, cx_groups = Some groups\<rparr>)))))"

text \<open>The middleware aborts with status 401 or passes the context to the handler.\<close>

definition Authentication :: "userService \<Rightarrow> string \<Rightarrow> string option \<Rightarrow> string \<Rightarrow> (ginContext \<Rightarrow> 'r) \<Rightarrow> (nat + 'r) option" where
  "Authentication us clusterAPIURL clusterAPICABundle authorizationHeader next =
     (case setAuthenticatedUser us authorizationHeader clusterAPIURL clusterAPICABundle of
        None \<Rightarrow> None
      | Some None \<Rightarrow> Some (Inl 401)
      | Some (Some ctx) \<Rightarrow> Some (Inr (next ctx)))"

section \<open>The set-up of the server\<close>

record NonK8sAPIServerConfig =
  ClusterAPIURL :: string
  ClusterAPICABundlePath :: string
  AuthorizationURL :: string
  AuthorizationCABundlePath :: string
  ServerCertificatePath :: string
  ServerKeyPath :: string
  ServerBasePath :: string

text \<open>
  The variables that hold the bundles read are declared again inside the conditional, so the ones returned keep their zero
  value. \<open>readFile\<close> yields the content of a file; \<open>loadKeyPair\<close> tells whether the key pair loads.
\<close>

definition readCertificates :: "(string \<Rightarrow> string option) \<Rightarrow> (string \<Rightarrow> string \<Rightarrow> bool) \<Rightarrow> NonK8sAPIServerConfig \<Rightarrow> string + string option \<times> string option" where
  "readCertificates readFile loadKeyPair c =
     (let clusterAPICABundle = None; authorizationCABundle = None in
      if ClusterAPICABundlePath c \<noteq> '''' \<and> readFile (ClusterAPICABundlePath c) = None then Inl (ClusterAPICABundlePath c)
      else if AuthorizationCABundlePath c \<noteq> '''' \<and> readFile (AuthorizationCABundlePath c) = None then Inl (AuthorizationCABundlePath c)
      else if \<not> loadKeyPair (ServerCertificatePath c) (ServerKeyPath c) then Inl (ServerCertificatePath c @ ''/'' @ ServerKeyPath c)
      else Inr (clusterAPICABundle, authorizationCABundle))"

text \<open>What the set-up passes to the middleware and to the handlers.\<close>

record restServer =
  rs_clusterAPIURL :: string
  rs_clusterAPICABundle :: "string option"
  rs_authz :: authzConfig

definition AddNonK8sApiServer :: "(string \<Rightarrow> string option) \<Rightarrow> (string \<Rightarrow> string \<Rightarrow> bool) \<Rightarrow> opaService \<Rightarrow> NonK8sAPIServerConfig \<Rightarrow> string + restServer" where
  "AddNonK8sApiServer readFile loadKeyPair svc c =
     (case readCertificates readFile loadKeyPair c of
        Inl err \<Rightarrow> Inl err
      | Inr (clusterAPICABundle, authorizationCABundle) \<Rightarrow>
          Inr \<lparr>rs_clusterAPIURL = ClusterAPIURL c, rs_clusterAPICABundle = clusterAPICABundle,
               rs_authz = \<lparr>ac_service = svc, ac_url = AuthorizationURL c, ac_caBundle = authorizationCABundle\<rparr>\<rparr>)"

section \<open>The columns of a table\<close>

record columnDefinition =
  col_name :: string
  col_type :: string
  col_jsonPath :: string

definition defaultColumns :: "columnDefinition list" where
  "defaultColumns = [\<lparr>col_name = ''Age'', col_type = ''date'', col_jsonPath = ''.metadata.creationTimestamp''\<rparr>]"

fun convertColumnsToColumnsV1 :: "('c \<Rightarrow> columnDefinition option) \<Rightarrow> 'c list \<Rightarrow> columnDefinition list option" where
  "convertColumnsToColumnsV1 convert [] = Some []"
| "convertColumnsToColumnsV1 convert (column # cols) =
     (case convert column of
        None \<Rightarrow> None
      | Some columnv1 \<Rightarrow> map_option ((#) columnv1) (convertColumnsToColumnsV1 convert cols))"

text \<open>
  \<open>config\<close>, \<open>clientset\<close>, \<open>getCRD\<close>, \<open>convertCRD\<close> and \<open>getColumns\<close> are the steps of the API libraries, each of which
  may fail.
\<close>

definition GetCustomResourceColumnDefinitions :: "bool \<Rightarrow> bool \<Rightarrow> (string \<Rightarrow> 'd option) \<Rightarrow> ('d \<Rightarrow> 'e option) \<Rightarrow> ('e \<Rightarrow> string \<Rightarrow> 'c list option)
    \<Rightarrow> ('c \<Rightarrow> columnDefinition option) \<Rightarrow> string \<Rightarrow> string \<Rightarrow> columnDefinition list" where
  "GetCustomResourceColumnDefinitions inCluster clientset getCRD convertCRD getColumns convert name version =
     (if \<not> inCluster \<or> \<not> clientset then defaultColumns
      else (case getCRD name of
              None \<Rightarrow> defaultColumns
            | Some crdv1 \<Rightarrow>
                (case convertCRD crdv1 of
                   None \<Rightarrow> defaultColumns
                 | Some crd \<Rightarrow>
                     (case getColumns crd version of
                        None \<Rightarrow> defaultColumns
                      | Some cols \<Rightarrow>
                          if length cols < 1 then defaultColumns
                          else (case convertColumnsToColumnsV1 convert cols of
                                  None \<Rightarrow> defaultColumns
                                | Some columnsv1 \<Rightarrow> columnsv1)))))"

section \<open>Reading managed clusters\<close>

text \<open>
  The table \<open>status.managed_clusters\<close> with the answers to one query: a failure of the query, and rows that do not scan.
  A query whose condition does not parse fails.
\<close>

record clustersDB =
  cd_rows :: "sqlRow list"
  cd_failure :: bool
  cd_scanOK :: "sqlRow \<Rightarrow> bool"
  cd_render :: "jvalue \<Rightarrow> string"

definition queryWhere :: "clustersDB \<Rightarrow> string \<Rightarrow> sqlRow list option" where
  "queryWhere db condition =
     (if cd_failure db then None
      else (case parseCondition condition of None \<Rightarrow> None | Some c \<Rightarrow> Some (filter (selects (cd_render db) c) (cd_rows db))))"

definition payloadName :: "sqlRow \<Rightarrow> string" where
  "payloadName row = (case operandText (\<lambda>_. []) row (SqlText (SqlField (SqlCol ''payload'') ''metadata'') ''name'') of None \<Rightarrow> [] | Some n \<Rightarrow> n)"

text \<open>
  \<open>sqlQuery\<close> yields the condition of the query; the table and the order, the name of the cluster, are those of every query
  and part of \<open>runQuery\<close>.
\<close>

definition sqlQuery :: "authzConfig \<Rightarrow> ginContext \<Rightarrow> string option" where
  "sqlQuery az ctx = map_option (\<lambda>f. ''TRUE AND '' @ f) (userFilter az ctx)"

definition runQuery :: "string \<Rightarrow> clustersDB \<Rightarrow> sqlRow list option" where
  "runQuery query db = map_option (sort_key payloadName) (queryWhere db query)"

text \<open>A row that does not scan is skipped.\<close>

definition scannedClusters :: "clustersDB \<Rightarrow> sqlRow list \<Rightarrow> jvalue list" where
  "scannedClusters db rows = map (\<lambda>row. the (jsonColumn row ''payload'')) (filter (\<lambda>row. jsonColumn row ''payload'' \<noteq> None \<and> cd_scanOK db row) rows)"

definition shouldReturnAsTable :: "string \<Rightarrow> bool" where
  "shouldReturnAsTable acceptHeader = list_ex (prefix ''application/json;as=Table;v=v1;g=meta.k8s.io'') (split_on (CHR '','') acceptHeader)"

fun wrapInList :: "(jvalue \<Rightarrow> jvalue option) \<Rightarrow> jvalue list \<Rightarrow> jvalue list option" where
  "wrapInList convert [] = Some []"
| "wrapInList convert (cluster # clusters) =
     (case convert cluster of None \<Rightarrow> None | Some c \<Rightarrow> map_option ((#) c) (wrapInList convert clusters))"

datatype restBody = TextBody string | ClustersBody "jvalue list" | TableBody jvalue | StatusBody string

type_synonym response = "nat \<times> restBody"

text \<open>
  After a failed query the error is written and the rows, which are then none, are read. \<open>toTable\<close> is the table convertor
  of the API library, \<open>None\<close> when it cannot be created or fails.
\<close>

definition clusters_handleRows :: "(jvalue \<Rightarrow> jvalue option) \<Rightarrow> (jvalue list \<Rightarrow> jvalue option) \<Rightarrow> string \<Rightarrow> clustersDB \<Rightarrow> sqlRow list option \<Rightarrow> response list" where
  "clusters_handleRows convert toTable acceptHeader db queried =
     (let failed = (case queried of None \<Rightarrow> [(500, TextBody ''internal error'')] | Some _ \<Rightarrow> []);
          managedClusters = scannedClusters db (case queried of None \<Rightarrow> [] | Some rows \<Rightarrow> rows) in
      if shouldReturnAsTable acceptHeader
      then (case wrapInList convert managedClusters of
              None \<Rightarrow> failed
            | Some managedClustersList \<Rightarrow>
                (case toTable managedClustersList of
                   None \<Rightarrow> failed
                 | Some table \<Rightarrow> failed @ [(200, TableBody table)]))
      else failed @ [(200, ClustersBody managedClusters)])"

section \<open>Watching managed clusters\<close>

datatype watchEvent = AddedEvent jvalue | DeletedEvent string

definition clusterName :: "jvalue \<Rightarrow> string" where
  "clusterName cluster = (case Option.bind (jfield ''metadata'' cluster) (jfield ''name'') of Some (JString n) \<Rightarrow> n | _ \<Rightarrow> [])"

text \<open>An event that cannot be encoded is dropped; every event is a line.\<close>

definition sendWatchEvent :: "(watchEvent \<Rightarrow> string option) \<Rightarrow> watchEvent \<Rightarrow> string" where
  "sendWatchEvent marshal e = (case marshal e of None \<Rightarrow> [] | Some json \<Rightarrow> json @ [CHR 0x0A])"

text \<open>
  One tick: an event for every row, then one for every name sent before that is missing now. The names are a set; \<open>ord\<close> is the
  order of its iterator.
\<close>

definition doHandleRowsForWatch :: "(string list \<Rightarrow> string list) \<Rightarrow> clustersDB \<Rightarrow> sqlRow list option \<Rightarrow> string goset \<Rightarrow> watchEvent list \<times> string goset" where
  "doHandleRowsForWatch ord db queried previouslyAddedManagedClusterNames =
     (let managedClusters = scannedClusters db (case queried of None \<Rightarrow> [] | Some rows \<Rightarrow> rows);
          addedManagedClusterNames = fold (\<lambda>c. set_add (clusterName c)) managedClusters [];
          managedClusterNamesToDelete = ord (filter (\<lambda>n. n \<notin> set addedManagedClusterNames) previouslyAddedManagedClusterNames);
          previous = fold set_remove managedClusterNamesToDelete previouslyAddedManagedClusterNames;
          managedClusterNamesToAdd = ord (filter (\<lambda>n. n \<notin> set previous) addedManagedClusterNames) in
      (map AddedEvent managedClusters @ map DeletedEvent managedClusterNamesToDelete, fold set_add managedClusterNamesToAdd previous))"

text \<open>The ticks of a watch until the client goes: the query is the one the watch began with, the table is read anew.\<close>

fun handleRowsForWatch :: "(string list \<Rightarrow> string list) \<Rightarrow> string \<Rightarrow> clustersDB list \<Rightarrow> string goset \<Rightarrow> watchEvent list" where
  "handleRowsForWatch ord query [] names = []"
| "handleRowsForWatch ord query (db # dbs) names =
     (case doHandleRowsForWatch ord db (runQuery query db) names of (events, names') \<Rightarrow> events @ handleRowsForWatch ord query dbs names')"

datatype listResult = Listed "response list" | Watched "watchEvent list"

text \<open>The handler reads the table \<open>db\<close>, or watches it as it is at each tick.\<close>

definition clusters_List :: "(jvalue \<Rightarrow> jvalue option) \<Rightarrow> (jvalue list \<Rightarrow> jvalue option) \<Rightarrow> (string list \<Rightarrow> string list) \<Rightarrow> authzConfig
    \<Rightarrow> clustersDB \<Rightarrow> clustersDB list \<Rightarrow> bool \<Rightarrow> string \<Rightarrow> ginContext \<Rightarrow> listResult option" where
  "clusters_List convert toTable ord az db ticks watch acceptHeader ctx =
     map_option (\<lambda>query. if watch then Watched (handleRowsForWatch ord query ticks [])
                         else Listed (clusters_handleRows convert toTable acceptHeader db (runQuery query db))) (sqlQuery az ctx)"

section \<open>The status of policies\<close>

record complianceStatus =
  PolicyId :: string
  cs_ClusterName :: string
  cs_LeafHubName :: string
  cs_ErrorInfo :: string
  cs_Compliance :: string

definition policies_handleRows :: "(complianceStatus \<Rightarrow> bool) \<Rightarrow> complianceStatus list option \<Rightarrow> (nat \<times> (string + complianceStatus list)) list" where
  "policies_handleRows scanOK queried =
     (case queried of None \<Rightarrow> [(500, Inl ''internal error'')] | Some _ \<Rightarrow> []) @
     [(200, Inr (filter scanOK (case queried of None \<Rightarrow> [] | Some rows \<Rightarrow> rows)))]"

text \<open>The query has an order and no condition.\<close>

definition ListStatus :: "authzConfig \<Rightarrow> (complianceStatus \<Rightarrow> bool) \<Rightarrow> bool \<Rightarrow> complianceStatus list \<Rightarrow> ginContext \<Rightarrow> (nat \<times> (string + complianceStatus list)) list" where
  "ListStatus az scanOK failure rows ctx =
     policies_handleRows scanOK (if failure then None else Some (sort_key cs_ClusterName rows))"

section \<open>Patching labels\<close>

record patch =
  pt_Op :: string
  pt_Path :: string
  pt_Value :: string

text \<open>\<open>strings.Replace(s, "~1", "/", 1)\<close>.\<close>

fun replaceTilde :: "string \<Rightarrow> string" where
  "replaceTilde (a # b # cs) = (if a = CHR ''~'' \<and> b = CHR ''1'' then CHR ''/'' # cs else a # replaceTilde (b # cs))"
| "replaceTilde cs = cs"

datatype patchError = errOnlyPatchOfLabelsIsImplemented | errOnlyAddOrRemoveAreImplemented

text \<open>The loop over the patches with the two maps it fills; the second holds keys only.\<close>

fun getLabels :: "(string, string) gomap \<Rightarrow> string goset \<Rightarrow> patch list \<Rightarrow> patchError + (string, string) gomap \<times> string goset" where
  "getLabels labelsToAdd labelsToRemove [] = Inr (labelsToAdd, labelsToRemove)"
| "getLabels labelsToAdd labelsToRemove (aPatch # patches) =
     (let rawLabel = TrimPrefix (pt_Path aPatch) ''/metadata/labels/'';
          label = replaceTilde rawLabel in
      if rawLabel = pt_Path aPatch then Inl errOnlyPatchOfLabelsIsImplemented
      else if pt_Op aPatch = ''add'' then getLabels (AList.update label (pt_Value aPatch) labelsToAdd) (set_remove label labelsToRemove) patches
      else if pt_Op aPatch = ''remove'' then getLabels (AList.delete label labelsToAdd) (set_add label labelsToRemove) patches
      else Inl errOnlyAddOrRemoveAreImplemented)"

definition getMap :: "string list \<Rightarrow> string goset" where
  "getMap aSlice = fold set_add aSlice []"

definition getKeys :: "(string list \<Rightarrow> string list) \<Rightarrow> string goset \<Rightarrow> string list" where
  "getKeys ord aMap = ord aMap"

text \<open>
  What the database does with the statements of an attempt: the outcome of the query, the failures of the insertion and
  of the update, the time of the statement, and the order of the keys.
\<close>

record patchAnswers =
  pa_rows :: rowsOutcome
  pa_insert :: "string option"
  pa_update :: "string option"
  pa_now :: int
  pa_order :: "string list \<Rightarrow> string list"

definition newLabelsToAdd :: "(string, string) gomap \<Rightarrow> (string, string) gomap \<Rightarrow> string goset \<Rightarrow> (string, string) gomap" where
  "newLabelsToAdd labelsToAdd currentLabelsToAdd labelsToRemove =
     fold (\<lambda>(key, v). AList.update key v) labelsToAdd
       (fold (\<lambda>(key, v) m. if key \<notin> set labelsToRemove then AList.update key v m else m) currentLabelsToAdd [])"

definition newLabelsToRemove :: "(string, string) gomap \<Rightarrow> string goset \<Rightarrow> string goset \<Rightarrow> string goset" where
  "newLabelsToRemove labelsToAdd labelsToRemove currentLabelsToRemove =
     fold set_add labelsToRemove
       (fold (\<lambda>key m. if map_of labelsToAdd key = None then set_add key m else m) currentLabelsToRemove [])"

definition updateRow :: "patchAnswers \<Rightarrow> string \<Rightarrow> string \<Rightarrow> (string, string) gomap \<Rightarrow> (string, string) gomap \<Rightarrow> string goset \<Rightarrow> string goset \<Rightarrow> int64
    \<Rightarrow> labelsRow list \<Rightarrow> updateError option \<times> labelsRow list" where
  "updateRow a cluster hubCluster labelsToAdd currentLabelsToAdd labelsToRemove currentLabelsToRemove version rows =
     updateWhere (pa_update a) (version + 1)
       (\<lambda>r. lr_cluster r = cluster \<and> lr_leafHub r = hubCluster \<and> lr_version r = version)
       (\<lambda>r. r\<lparr>lr_labels := newLabelsToAdd labelsToAdd currentLabelsToAdd labelsToRemove,
              lr_deletedKeys := getKeys (pa_order a) (newLabelsToRemove labelsToAdd labelsToRemove currentLabelsToRemove),
              lr_updated_at := pa_now a, lr_version := lr_version r + 1\<rparr>) rows"

definition insertRow :: "patchAnswers \<Rightarrow> string \<Rightarrow> string \<Rightarrow> (string, string) gomap \<Rightarrow> string goset \<Rightarrow> labelsRow list \<Rightarrow> updateError option \<times> labelsRow list" where
  "insertRow a cluster hubCluster labelsToAdd labelsToRemove rows =
     (case pa_insert a of
        Some err \<Rightarrow> (Some (UpdateFailure err), rows)
      | None \<Rightarrow>
          if list_ex (\<lambda>r. lr_leafHub r = hubCluster \<and> lr_cluster r = cluster) rows then (Some LabelsUniqueViolation, rows)
          else (None, rows @ [\<lparr>lr_leafHub = hubCluster, lr_cluster = cluster, lr_labels = labelsToAdd,
                               lr_deletedKeys = getKeys (pa_order a) labelsToRemove, lr_updated_at = pa_now a, lr_version = 0\<rparr>]))"

text \<open>One attempt: the row is read in \<open>t1\<close>, and the statement that writes finds \<open>t2\<close>.\<close>

definition updateLabels :: "patchAnswers \<Rightarrow> string \<Rightarrow> string \<Rightarrow> (string, string) gomap \<Rightarrow> string goset \<Rightarrow> labelsRow list \<Rightarrow> labelsRow list
    \<Rightarrow> updateError option \<times> labelsRow list" where
  "updateLabels a cluster hubCluster labelsToAdd labelsToRemove t1 t2 =
     (if labelsToAdd = [] \<and> labelsToRemove = [] then (None, t2)
      else let found = filter (\<lambda>r. lr_cluster r = cluster \<and> lr_leafHub r = hubCluster) t1 in
      (case pa_rows a of
         QueryError err \<Rightarrow> (Some (UpdateFailure err), t2)
       | LostAfter 0 \<Rightarrow> insertRow a cluster hubCluster labelsToAdd labelsToRemove t2
       | ScanError err \<Rightarrow>
           (case found of
              [] \<Rightarrow> insertRow a cluster hubCluster labelsToAdd labelsToRemove t2
            | _ \<Rightarrow> (Some (UpdateFailure err), t2))
       | _ \<Rightarrow>
           (case found of
              [] \<Rightarrow> insertRow a cluster hubCluster labelsToAdd labelsToRemove t2
            | r # _ \<Rightarrow> updateRow a cluster hubCluster labelsToAdd (lr_labels r) labelsToRemove (getMap (lr_deletedKeys r)) (lr_version r) t2)))"

definition optimisticConcurrencyRetryAttempts :: nat where
  "optimisticConcurrencyRetryAttempts = 5"

text \<open>
  The attempts, while they fail. What other writers do to the table before attempt \<open>i\<close> reads and between its
  read and its write are \<open>before i\<close> and \<open>between i\<close>.
\<close>

fun retryUpdate :: "(nat \<Rightarrow> patchAnswers) \<Rightarrow> (nat \<Rightarrow> labelsRow list \<Rightarrow> labelsRow list) \<Rightarrow> (nat \<Rightarrow> labelsRow list \<Rightarrow> labelsRow list)
    \<Rightarrow> string \<Rightarrow> string \<Rightarrow> (string, string) gomap \<Rightarrow> string goset \<Rightarrow> nat \<Rightarrow> updateError option \<Rightarrow> labelsRow list \<Rightarrow> updateError option \<times> labelsRow list" where
  "retryUpdate a before between cluster hubCluster labelsToAdd labelsToRemove 0 err t = (err, t)"
| "retryUpdate a before between cluster hubCluster labelsToAdd labelsToRemove (Suc n) err t =
     (let t1 = before n t; t2 = between n t1 in
      case updateLabels (a n) cluster hubCluster labelsToAdd labelsToRemove t1 t2 of
        (None, t3) \<Rightarrow> (None, t3)
      | (Some e, t3) \<Rightarrow> retryUpdate a before between cluster hubCluster labelsToAdd labelsToRemove n (Some e) t3)"

text \<open>The condition of the query of \<open>isAuthorized\<close>, put together as text.\<close>

definition patchCondition :: "string \<Rightarrow> string \<Rightarrow> string \<Rightarrow> string" where
  "patchCondition cluster hubCluster authFilter =
     ''payload -> '' @ sqlQuoted ''metadata'' @ '' ->> '' @ sqlQuoted ''name'' @ '' = '' @ sqlQuoted cluster
     @ '' AND leaf_hub_name = '' @ sqlQuoted hubCluster @ '' AND '' @ authFilter"

definition isAuthorized :: "authzConfig \<Rightarrow> clustersDB \<Rightarrow> ginContext \<Rightarrow> string \<Rightarrow> string \<Rightarrow> bool option" where
  "isAuthorized az db ctx cluster hubCluster =
     map_option (\<lambda>f. case queryWhere db (patchCondition cluster hubCluster f) of
                       None \<Rightarrow> False
                     | Some rows \<Rightarrow> 0 < length (filter (\<lambda>row. jsonColumn row ''payload'' \<noteq> None) rows)) (userFilter az ctx)"

text \<open>
  The handler. Without authorization it writes status 403 and goes on. \<open>patches\<close> is the decoded body; decoding that fails
  writes status 400.
\<close>

definition Patch :: "authzConfig \<Rightarrow> clustersDB \<Rightarrow> (nat \<Rightarrow> patchAnswers) \<Rightarrow> (nat \<Rightarrow> labelsRow list \<Rightarrow> labelsRow list) \<Rightarrow> (nat \<Rightarrow> labelsRow list \<Rightarrow> labelsRow list)
    \<Rightarrow> string \<Rightarrow> string \<Rightarrow> patch list option \<Rightarrow> ginContext \<Rightarrow> labelsRow list \<Rightarrow> (response list \<times> labelsRow list) option" where
  "Patch az db a before between cluster hubCluster patches ctx t =
     (case isAuthorized az db ctx cluster hubCluster of
        None \<Rightarrow> None
      | Some authorized \<Rightarrow>
          let out = (if \<not> authorized then [(403, StatusBody ''the current user cannot patch the cluster'')] else []) in
          Some (case patches of
            None \<Rightarrow> (out @ [(400, TextBody [])], t)
          | Some ps \<Rightarrow>
              (case getLabels [] [] ps of
                 Inl errOnlyPatchOfLabelsIsImplemented \<Rightarrow> (out @ [(501, StatusBody ''only patch of labels is currently implemented'')], t)
               | Inl errOnlyAddOrRemoveAreImplemented \<Rightarrow> (out @ [(501, StatusBody ''only add or remove operations are currently implemented'')], t)
               | Inr (labelsToAdd, labelsToRemove) \<Rightarrow>
                   (case retryUpdate a before between cluster hubCluster labelsToAdd labelsToRemove optimisticConcurrencyRetryAttempts None t of
                      (None, t') \<Rightarrow> (out, t')
                    | (Some err, t') \<Rightarrow> (out @ [(500, TextBody ''internal error'')], t')))))"

end
