(* ===== verification/GH_RestProps.thy ===== *)
theory GH_RestProps
  imports GH_Rest GH_SpecLabelsProps
begin

text \<open>
  What the REST service grants and does: which clusters it lists, whom it lets patch a cluster, what a patch does to
  the table of labels under concurrent writers, and what a client that watches sees.
\<close>

section \<open>Reading the conditions\<close>

text \<open>The queries that are not empty; empty ones leave no text.\<close>

definition realQueries :: "jvalue list \<Rightarrow> jvalue list list" where
  "realQueries qs = filter (\<lambda>es. es \<noteq> []) (arraysOf qs)"

lemma toks_realQueries: "concat (map queryToks (arraysOf qs)) = concat (map queryToks (realQueries qs))"
proof -
  have "concat (map queryToks xs) = concat (map queryToks (filter (\<lambda>es. es \<noteq> []) xs))" for xs
    by (induction xs) (auto simp: queryToks_def)
  then show ?thesis by (simp add: realQueries_def)
qed

definition filterToks :: "jvalue list \<Rightarrow> sqlToken list" where
  "filterToks qs = (if qs = [JArray []] then [Word ''TRUE''] else concat (map queryToks (realQueries qs)) @ [Word ''FALSE''])"

lemma lex_filterText: "answer_ok doc qs \<Longrightarrow> lexSql (filterText qs) = Some (filterToks qs)"
  using lex_queries [OF answer_ok_arrays] lex_word [of "''TRUE''" "[]"]
  by (auto simp: filterText_def filterToks_def toks_realQueries)

text \<open>What the text becomes when conditions are joined to its front by \<open>AND\<close>: they bind to its first query only.\<close>

definition guardedCond :: "(sqlCond \<Rightarrow> sqlCond) \<Rightarrow> jvalue list \<Rightarrow> sqlCond" where
  "guardedCond guard qs =
     (if qs = [JArray []] then guard SqlTrue
      else (case realQueries qs of [] \<Rightarrow> guard SqlFalse | es # rest \<Rightarrow> SqlOr (guard (queryCond es)) (filterCond rest)))"

definition good_queries :: "jvalue \<Rightarrow> jvalue list \<Rightarrow> bool" where
  "good_queries doc qs \<longleftrightarrow> answer_ok doc qs \<and> shaped qs"

lemma good_realQueries:
  assumes "good_queries doc qs"
  shows "list_all (\<lambda>es. list_all (expr_ok doc) es \<and> list_all (\<lambda>e. exprParts e \<noteq> None) es) (realQueries qs)"
  using assms answer_ok_arrays [of doc qs] by (auto simp: good_queries_def shaped_def realQueries_def list_all_iff)

lemma parse_guarded:
  assumes good: "good_queries doc qs"
    and guard: "\<And>ts c r. parseAnd ts = Some (c, r) \<Longrightarrow> parseAnd (pre @ ts) = Some (guard c, r)"
  shows "parseOr (pre @ filterToks qs) = Some (guardedCond guard qs, [])"
proof (cases "qs = [JArray []]")
  case True
  have "parseAnd [Word ''TRUE''] = Some (SqlTrue, [])" by (intro parseAnd_last) simp_all
  from parseOr_last [OF guard [OF this]] show ?thesis by (simp add: filterToks_def guardedCond_def True)
next
  case False
  show ?thesis
  proof (cases "realQueries qs")
    case Nil
    have "parseAnd [Word ''FALSE''] = Some (SqlFalse, [])" by (intro parseAnd_last) simp_all
    from parseOr_last [OF guard [OF this]] show ?thesis by (simp add: filterToks_def guardedCond_def False Nil)
  next
    case (Cons es rest)
    have "es \<in> set (realQueries qs)" by (simp add: Cons)
    then have "es \<noteq> []" by (auto simp: realQueries_def)
    have all: "list_all (\<lambda>es. list_all (expr_ok doc) es \<and> list_all (\<lambda>e. exprParts e \<noteq> None) es) (es # rest)"
      using good_realQueries [OF good] by (simp add: Cons)
    have "parseAnd (queryToks es @ concat (map queryToks rest) @ [Word ''FALSE'']) = Some (queryCond es, Word ''OR'' # concat (map queryToks rest) @ [Word ''FALSE''])"
      using all \<open>es \<noteq> []\<close> by (intro parseAnd_last parse_query [where doc = doc]) auto
    from all have "parseOr (concat (map queryToks rest) @ [Word ''FALSE'']) = Some (filterCond rest, [])"
      by (intro parse_queries [where doc = doc]) simp
    from parseOr_more [OF guard [OF \<open>parseAnd _ = _\<close>] this] show ?thesis
      by (simp add: filterToks_def guardedCond_def False Cons)
  qed
qed

text \<open>A condition with a condition that does not parse does not parse either: its parentheses are not balanced.\<close>

lemma filterToks_unbalanced: "\<not> shaped qs \<Longrightarrow> depth (filterToks qs) < 0"
  using queries_depth(2) [of "arraysOf qs"] by (auto simp: filterToks_def toks_realQueries [symmetric] shaped_def)

section \<open>The condition of a patch\<close>

definition nameCond :: "string \<Rightarrow> sqlCond" where
  "nameCond cluster = SqlEq (SqlText (SqlField (SqlCol ''payload'') ''metadata'') ''name'') (SqlLit cluster)"

definition hubCond :: "string \<Rightarrow> sqlCond" where
  "hubCond hub = SqlEq (SqlCol ''leaf_hub_name'') (SqlLit hub)"

definition patchToks :: "string \<Rightarrow> string \<Rightarrow> sqlToken list" where
  "patchToks cluster hub =
     operandToks (SqlText (SqlField (SqlCol ''payload'') ''metadata'') ''name'') @ Equals_sign # operandToks (SqlLit cluster)
     @ Word ''AND'' # operandToks (SqlCol ''leaf_hub_name'') @ Equals_sign # operandToks (SqlLit hub) @ [Word ''AND'']"

lemma plain_operands [simp]:
  "operand_plain (SqlText (SqlField (SqlCol ''payload'') ''metadata'') ''name'')"
  "operand_plain (SqlCol ''leaf_hub_name'')"
  by (simp_all add: sqlQuote_def sqlReserved_def)

lemma lex_comparison:
  assumes "operand_plain a" and "operand_plain b" and "delim rest"
  shows "lexSql (operandString a @ '' = '' @ operandString b @ rest) = map_option ((@) (operandToks a @ Equals_sign # operandToks b)) (lexSql rest)"
  using assms by (cases "lexSql rest") (simp_all add: lex_operand)

lemma lex_and: "lexSql ('' AND '' @ rest) = map_option ((#) (Word ''AND'')) (lexSql rest)"
  using lex_word [of "''AND''" "CHR '' '' # rest"] by simp

lemma lex_patchCondition:
  assumes "sqlQuote \<notin> set cluster" and "sqlQuote \<notin> set hub"
  shows "lexSql (patchCondition cluster hub f) = map_option ((@) (patchToks cluster hub)) (lexSql f)"
proof -
  have cond: "patchCondition cluster hub f = operandString (SqlText (SqlField (SqlCol ''payload'') ''metadata'') ''name'') @ '' = '' @
      operandString (SqlLit cluster) @ ('' AND '' @ operandString (SqlCol ''leaf_hub_name'') @ '' = '' @ operandString (SqlLit hub) @ ('' AND '' @ f))"
    by (simp add: patchCondition_def)
  have a: "operand_plain (SqlLit cluster)" "operand_plain (SqlLit hub)" using assms by simp_all
  have d: "delim ('' AND '' @ s)" for s by simp
  have "lexSql (patchCondition cluster hub f) = map_option ((@) (operandToks (SqlText (SqlField (SqlCol ''payload'') ''metadata'') ''name'') @ Equals_sign # operandToks (SqlLit cluster)))
     (map_option ((#) (Word ''AND'')) (map_option ((@) (operandToks (SqlCol ''leaf_hub_name'') @ Equals_sign # operandToks (SqlLit hub))) (map_option ((#) (Word ''AND'')) (lexSql f))))"
    unfolding cond lex_comparison [OF plain_operands(1) a(1) d] lex_and lex_comparison [OF plain_operands(2) a(2) d] ..
  then show ?thesis by (cases "lexSql f") (simp_all add: patchToks_def)
qed

definition patchGuard :: "string \<Rightarrow> string \<Rightarrow> sqlCond \<Rightarrow> sqlCond" where
  "patchGuard cluster hub c = SqlAnd (nameCond cluster) (SqlAnd (hubCond hub) c)"

lemma parse_patchToks:
  assumes "sqlQuote \<notin> set cluster" and "sqlQuote \<notin> set hub" and "parseAnd ts = Some (c, r)"
  shows "parseAnd (patchToks cluster hub @ ts) = Some (patchGuard cluster hub c, r)"
proof -
  have a: "operand_plain (SqlLit cluster)" "operand_plain (SqlLit hub)" using assms by simp_all
  have "parseAnd (operandToks (SqlCol ''leaf_hub_name'') @ Equals_sign # operandToks (SqlLit hub) @ Word ''AND'' # ts) = Some (SqlAnd (hubCond hub) c, r)"
    unfolding hubCond_def by (rule parseAnd_more [OF parseNot_comparison [OF plain_operands(2) a(2)] assms(3)]) simp
  from parseAnd_more [OF parseNot_comparison [OF plain_operands(1) a(1)] this] show ?thesis
    by (simp add: patchToks_def patchGuard_def nameCond_def)
qed

lemma patchToks_depth: "depth (patchToks cluster hub) = 0"
  by (simp add: patchToks_def)

lemma parse_patchCondition:
  assumes "answer_ok doc qs" and q: "sqlQuote \<notin> set cluster" "sqlQuote \<notin> set hub"
  shows "parseCondition (patchCondition cluster hub (filterText qs)) =
           (if shaped qs then Some (guardedCond (patchGuard cluster hub) qs) else None)"
proof -
  have lex: "lexSql (patchCondition cluster hub (filterText qs)) = Some (patchToks cluster hub @ filterToks qs)"
    by (simp add: lex_patchCondition [OF q] lex_filterText [OF assms(1)])
  show ?thesis
  proof (cases "shaped qs")
    case True
    with assms(1) have "good_queries doc qs" by (simp add: good_queries_def)
    from parse_guarded [OF this parse_patchToks [OF q]] True show ?thesis by (simp add: parseCondition_def lex)
  next
    case False
    then show ?thesis
      using parse_balanced [OF lex] filterToks_unbalanced [of qs] patchToks_depth [of cluster hub]
      by (cases "parseCondition (patchCondition cluster hub (filterText qs))") auto
  qed
qed

lemma parse_listCondition:
  assumes "answer_ok doc qs"
  shows "parseCondition (''TRUE AND '' @ filterText qs) = (if shaped qs then Some (guardedCond (SqlAnd SqlTrue) qs) else None)"
proof -
  have lex: "lexSql (''TRUE AND '' @ filterText qs) = Some ([Word ''TRUE'', Word ''AND''] @ filterToks qs)"
    using lex_and [of "filterText qs"] lex_word [of "''TRUE''" "'' AND '' @ filterText qs"] by (simp add: lex_filterText [OF assms])
  show ?thesis
  proof (cases "shaped qs")
    case True
    with assms have "good_queries doc qs" by (simp add: good_queries_def)
    moreover have "parseAnd ([Word ''TRUE'', Word ''AND''] @ ts) = Some (SqlAnd SqlTrue c, r)" if "parseAnd ts = Some (c, r)" for ts c r
      using that by (auto intro: parseAnd_more)
    ultimately have "parseOr ([Word ''TRUE'', Word ''AND''] @ filterToks qs) = Some (guardedCond (SqlAnd SqlTrue) qs, [])" by (rule parse_guarded)
    then show ?thesis using True unfolding parseCondition_def lex by simp
  next
    case False
    then show ?thesis
      using parse_balanced [OF lex] filterToks_unbalanced [of qs]
      by (cases "parseCondition (''TRUE AND '' @ filterText qs)") auto
  qed
qed

section \<open>Whom the service authorizes\<close>

lemma guardedCond_selects:
  assumes "\<And>c. selects render (guard c) row \<longleftrightarrow> G \<and> selects render c row"
  shows "selects render (guardedCond guard qs) row \<longleftrightarrow>
     (if qs = [JArray []] then G
      else (case realQueries qs of [] \<Rightarrow> False | es # rest \<Rightarrow> G \<and> selects render (queryCond es) row \<or> selects render (filterCond rest) row))"
  by (auto simp: guardedCond_def assms split: list.split)

lemma queryCond_holds:
  assumes "answer_ok doc qs" and "es \<in> set (arraysOf qs)" and "jsonColumn row ''payload'' = Some doc" and "selects render (queryCond es) row"
  shows "queryHolds doc es"
  using assms answer_ok_arrays [OF assms(1)] exprCond_sound [OF _ assms(3)]
  by (auto simp: queryCond_selects queryHolds_iff list_all_iff)

text \<open>A table of clusters as the policy agent's answer expects it, and the name and hub a row is of.\<close>

definition clusters_ok :: "clustersDB \<Rightarrow> jvalue list \<Rightarrow> bool" where
  "clusters_ok db qs \<longleftrightarrow> list_all (\<lambda>row. case jsonColumn row ''payload'' of None \<Rightarrow> False | Some doc \<Rightarrow> answer_ok doc qs) (cd_rows db)"

definition row_of :: "clustersDB \<Rightarrow> string \<Rightarrow> string \<Rightarrow> sqlRow \<Rightarrow> bool" where
  "row_of db cluster hub row \<longleftrightarrow>
     operandText (cd_render db) row (SqlText (SqlField (SqlCol ''payload'') ''metadata'') ''name'') = Some cluster \<and> textColumn row ''leaf_hub_name'' = Some hub"

lemma patchGuard_selects: "selects (cd_render db) (patchGuard cluster hub c) row \<longleftrightarrow> row_of db cluster hub row \<and> selects (cd_render db) c row"
  by (auto simp: patchGuard_def nameCond_def hubCond_def row_of_def)

definition answerOf :: "authzConfig \<Rightarrow> ginContext \<Rightarrow> jvalue list option" where
  "answerOf az ctx = remainingQueries (getPartialEvaluation (ac_service az) (contextUser ctx) (contextGroups ctx) (ac_url az) (ac_caBundle az))"

lemma userFilter_answer:
  "answerOf az ctx = Some qs \<Longrightarrow> userFilter az ctx = Some (filterText qs)"
  "answerOf az ctx = None \<Longrightarrow> userFilter az ctx = Some f \<Longrightarrow> f = filterText []"
  by (auto simp: answerOf_def userFilter_def filterByAuthorization_text remainingQueries_def filterText_def split: sum.splits option.splits jvalue.splits)

lemma isAuthorized_row:
  assumes "isAuthorized az db ctx cluster hub = Some True" and "userFilter az ctx = Some f"
  shows "\<exists>c row. parseCondition (patchCondition cluster hub f) = Some c \<and> row \<in> set (cd_rows db) \<and> selects (cd_render db) c row"
  using assms by (auto simp: isAuthorized_def queryWhere_def filter_empty_conv split: option.splits if_splits)

lemma realQueries_set: "es \<in> set (realQueries qs) \<Longrightarrow> es \<in> set (arraysOf qs)"
  by (simp add: realQueries_def)

lemma length_arraysOf: "length (arraysOf qs) \<le> length qs"
  by (induction qs rule: arraysOf.induct) auto

lemma one_realQuery: "length qs \<le> 1 \<Longrightarrow> length (realQueries qs) \<le> 1"
  using length_arraysOf [of qs] length_filter_le [of "\<lambda>es. es \<noteq> []" "arraysOf qs"] unfolding realQueries_def by linarith

text \<open>When the policy agent answers with at most one query, a user is authorized to patch a cluster of a hub
  only if the table has the row of that cluster on that hub and the agent allows it.\<close>

theorem patch_authorization_sound:
  assumes "isAuthorized az db ctx cluster hub = Some True"
    and "answerOf az ctx = Some qs" and "length qs \<le> 1" and "clusters_ok db qs"
    and "sqlQuote \<notin> set cluster" and "sqlQuote \<notin> set hub"
  shows "\<exists>row doc. row \<in> set (cd_rows db) \<and> row_of db cluster hub row \<and> jsonColumn row ''payload'' = Some doc \<and> opaAllows doc qs"
proof -
  obtain c row where c: "parseCondition (patchCondition cluster hub (filterText qs)) = Some c" "row \<in> set (cd_rows db)" "selects (cd_render db) c row"
    using isAuthorized_row [OF assms(1) userFilter_answer(1) [OF assms(2)]] by blast
  obtain doc where doc: "jsonColumn row ''payload'' = Some doc" "answer_ok doc qs"
    using assms(4) c(2) by (auto simp: clusters_ok_def list_all_iff split: option.splits)
  have "c = guardedCond (patchGuard cluster hub) qs"
    using c(1) by (simp add: parse_patchCondition [OF doc(2) assms(5,6)] split: if_splits)
  then have sel: "if qs = [JArray []] then row_of db cluster hub row
      else (case realQueries qs of [] \<Rightarrow> False | es # rest \<Rightarrow> row_of db cluster hub row \<and> selects (cd_render db) (queryCond es) row \<or> selects (cd_render db) (filterCond rest) row)"
    using c(3) guardedCond_selects [OF patchGuard_selects, of db cluster hub qs row] by simp
  show ?thesis
  proof (cases "qs = [JArray []]")
    case True
    then have "opaAllows doc qs" by (simp add: opaAllows_def queryHolds_def)
    then show ?thesis using sel True c(2) doc(1) by auto
  next
    case False
    then obtain es where es: "realQueries qs = [es]" "row_of db cluster hub row" "selects (cd_render db) (queryCond es) row"
      using sel one_realQuery [OF assms(3)] by (cases "realQueries qs") auto
    have "es \<in> set (arraysOf qs)" using es(1) by (intro realQueries_set) simp
    then have "opaAllows doc qs" using queryCond_holds [OF doc(2) _ doc(1) es(3)] by (auto simp: opaAllows_iff set_arraysOf)
    then show ?thesis using es(2) c(2) doc(1) by blast
  qed
qed

definition sampleAuthz :: "jvalue list \<Rightarrow> authzConfig" where
  "sampleAuthz qs = \<lparr>ac_service = sampleService qs, ac_url = ''opa'', ac_caBundle = None\<rparr>"

definition sampleContext :: ginContext where
  "sampleContext = \<lparr>cx_user = Some ''user'', cx_groups = Some []\<rparr>"

definition sampleClusters :: "sqlRow list \<Rightarrow> clustersDB" where
  "sampleClusters rows = \<lparr>cd_rows = rows, cd_failure = False, cd_scanOK = (\<lambda>_. True), cd_render = (\<lambda>_. [])\<rparr>"

definition devRow :: sqlRow where
  "devRow = docRow ''hub1'' (clusterDoc ''c1'' ''dev'' ''OpenShift'')"

definition prodRow :: sqlRow where
  "prodRow = docRow ''hub2'' (clusterDoc ''c2'' ''prod'' ''OpenShift'')"

lemma sample_answer: "answerOf (sampleAuthz qs) sampleContext = Some qs"
  by (simp add: answerOf_def sampleAuthz_def sampleService_queries)

lemma sample_clusters_ok: "clusters_ok (sampleClusters [devRow, prodRow]) sampleQueries"
  by code_simp

lemma isAuthorized_filterText:
  assumes "answerOf az ctx = Some qs" and "\<not> cd_failure db" and "parseCondition (patchCondition cluster hub (filterText qs)) = Some c"
  shows "isAuthorized az db ctx cluster hub = Some (\<exists>row\<in>set (cd_rows db). selects (cd_render db) c row \<and> jsonColumn row ''payload'' \<noteq> None)"
  using assms by (auto simp: isAuthorized_def userFilter_answer(1) queryWhere_def filter_empty_conv)

lemma sample_dev_authorized: "isAuthorized (sampleAuthz sampleQueries) (sampleClusters [devRow, prodRow]) sampleContext ''c1'' ''hub1'' = Some True"
  by code_simp

theorem patch_authorization_sound_witness:
  "isAuthorized (sampleAuthz sampleQueries) (sampleClusters [devRow, prodRow]) sampleContext ''c1'' ''hub1'' = Some True
   \<and> (\<exists>row doc. row \<in> {devRow, prodRow} \<and> row_of (sampleClusters [devRow, prodRow]) ''c1'' ''hub1'' row
        \<and> jsonColumn row ''payload'' = Some doc \<and> opaAllows doc sampleQueries)"
proof -
  have "length sampleQueries \<le> 1" by (simp add: sampleQueries_def)
  moreover have "sqlQuote \<notin> set ''c1''" and "sqlQuote \<notin> set ''hub1''" by (simp_all add: sqlQuote_def)
  ultimately show ?thesis
    using patch_authorization_sound [OF sample_dev_authorized sample_answer _ sample_clusters_ok] sample_dev_authorized
    by (simp add: sampleClusters_def)
qed

text \<open>C22. The condition of the authorization is joined to the name of the cluster with \<open>AND\<close> and without
  parentheses, so with two queries the second stands alone: a user whom the policy allows any one cluster by its second
  query is authorized to patch every cluster of every hub.\<close>

theorem second_query_authorizes_all:
  assumes "answerOf az ctx = Some [JArray es1, JArray es2]" and "es1 \<noteq> []" and "es2 \<noteq> []"
    and "\<not> cd_failure db" and "row \<in> set (cd_rows db)" and "jsonColumn row ''payload'' = Some doc"
    and "translatable doc [JArray es1, JArray es2]" and "queryHolds doc es2"
    and "sqlQuote \<notin> set cluster" and "sqlQuote \<notin> set hub"
  shows "isAuthorized az db ctx cluster hub = Some True"
proof -
  let ?qs = "[JArray es1, JArray es2]"
  have ok: "answer_ok doc ?qs" and def: "list_all (list_all (sql_defined doc)) [es1, es2]"
    using assms(7) by (simp_all add: translatable_def)
  have shaped: "shaped ?qs" using def sql_defined_parts unfolding shaped_def list_all_iff by auto
  have real: "realQueries ?qs = [es1, es2]" using assms(2,3) by (simp add: realQueries_def)
  have "\<forall>e\<in>set es2. selects (cd_render db) (exprCond e) row"
    using assms(8) answer_ok_arrays [OF ok] def
    by (fastforce simp: queryHolds_iff list_all_iff intro: exprCond_complete [OF _ assms(6)])
  then have "selects (cd_render db) (guardedCond (patchGuard cluster hub) ?qs) row"
    using assms(3) by (simp add: guardedCond_selects [OF patchGuard_selects] real filterCond_selects queryCond_selects)
  then show ?thesis
    using isAuthorized_filterText [OF assms(1,4)] parse_patchCondition [OF ok assms(9,10)] shaped assms(5,6) by auto
qed

definition twoQueries :: "jvalue list" where
  "twoQueries = [JArray [jeq False (jref [''vendor'']) (jstr ''Other'')], JArray [jeq False (jref [''metadata'', ''env'']) (jstr ''dev'')]]"

lemma two_translatable: "translatable (clusterDoc ''c1'' ''dev'' ''OpenShift'') twoQueries"
  by code_simp

theorem second_query_authorizes_all_witness:
  "isAuthorized (sampleAuthz twoQueries) (sampleClusters [devRow, prodRow]) sampleContext ''c2'' ''hub2'' = Some True
   \<and> \<not> opaAllows (clusterDoc ''c2'' ''prod'' ''OpenShift'') twoQueries"
proof
  show "isAuthorized (sampleAuthz twoQueries) (sampleClusters [devRow, prodRow]) sampleContext ''c2'' ''hub2'' = Some True"
  proof (rule second_query_authorizes_all [where row = devRow and doc = "clusterDoc ''c1'' ''dev'' ''OpenShift''"])
    show "answerOf (sampleAuthz twoQueries) sampleContext
        = Some [JArray [jeq False (jref [''vendor'']) (jstr ''Other'')], JArray [jeq False (jref [''metadata'', ''env'']) (jstr ''dev'')]]"
      using sample_answer [of twoQueries] by (simp add: twoQueries_def)
    show "translatable (clusterDoc ''c1'' ''dev'' ''OpenShift'')
        [JArray [jeq False (jref [''vendor'']) (jstr ''Other'')], JArray [jeq False (jref [''metadata'', ''env'']) (jstr ''dev'')]]"
      using two_translatable by (simp add: twoQueries_def)
    show "queryHolds (clusterDoc ''c1'' ''dev'' ''OpenShift'') [jeq False (jref [''metadata'', ''env'']) (jstr ''dev'')]" by code_simp
  qed (simp_all add: sampleClusters_def devRow_def docRow_def sqlQuote_def)
  show "\<not> opaAllows (clusterDoc ''c2'' ''prod'' ''OpenShift'') twoQueries" by code_simp
qed

section \<open>What is listed\<close>

lemma guarded_true_selects: "selects render (guardedCond (SqlAnd SqlTrue) qs) row \<Longrightarrow> qs = [JArray []] \<or> (\<exists>es\<in>set (realQueries qs). selects render (queryCond es) row)"
  using guardedCond_selects [of render "SqlAnd SqlTrue" row True qs]
  by (auto simp: filterCond_selects split: if_splits list.splits)

lemma listed_allowed:
  assumes "answer_ok doc qs" and "parseCondition (''TRUE AND '' @ filterText qs) = Some c" and "jsonColumn row ''payload'' = Some doc"
    and "selects render c row"
  shows "opaAllows doc qs"
proof -
  have "c = guardedCond (SqlAnd SqlTrue) qs" using assms(2) parse_listCondition [OF assms(1)] by (cases "shaped qs") simp_all
  with guarded_true_selects [of render qs row] assms(4) consider "qs = [JArray []]" | es where "es \<in> set (realQueries qs)" "selects render (queryCond es) row"
    by blast
  then show ?thesis
  proof cases
    case 1
    then show ?thesis by (simp add: opaAllows_def queryHolds_def)
  next
    case 2
    then show ?thesis
      using queryCond_holds [OF assms(1) realQueries_set [OF 2(1)] assms(3)] realQueries_set [OF 2(1)] by (auto simp: opaAllows_iff set_arraysOf)
  qed
qed

lemma scanned_payload: "cluster \<in> set (scannedClusters db rows) \<Longrightarrow> \<exists>row\<in>set rows. jsonColumn row ''payload'' = Some cluster"
  by (auto simp: scannedClusters_def)

lemma runQuery_selects:
  "runQuery q db = Some rows \<Longrightarrow> \<exists>c. parseCondition q = Some c \<and> set rows = {row \<in> set (cd_rows db). selects (cd_render db) c row}"
  by (auto simp: runQuery_def queryWhere_def split: if_splits option.splits)

lemma queried_allowed:
  assumes "sqlQuery az ctx = Some q" and "cluster \<in> set (scannedClusters db (case runQuery q db of None \<Rightarrow> [] | Some rows \<Rightarrow> rows))"
    and "\<And>qs. answerOf az ctx = Some qs \<Longrightarrow> answer_ok cluster qs"
  shows "\<exists>qs. answerOf az ctx = Some qs \<and> opaAllows cluster qs"
proof -
  obtain f where f: "userFilter az ctx = Some f" "q = ''TRUE AND '' @ f" using assms(1) by (auto simp: sqlQuery_def)
  obtain rows where r: "runQuery q db = Some rows" using assms(2) by (cases "runQuery q db") (auto simp: scannedClusters_def)
  with assms(2) have rows: "runQuery q db = Some rows" "cluster \<in> set (scannedClusters db rows)" by simp_all
  obtain c where c: "parseCondition q = Some c" "set rows = {row \<in> set (cd_rows db). selects (cd_render db) c row}"
    using runQuery_selects [OF rows(1)] by blast
  obtain row where row: "row \<in> set rows" "jsonColumn row ''payload'' = Some cluster" using scanned_payload [OF rows(2)] by blast
  then have sel: "selects (cd_render db) c row" using c(2) by simp
  show ?thesis
  proof (cases "answerOf az ctx")
    case None
    then have "f = filterText []" using userFilter_answer(2) f(1) by blast
    then have "opaAllows cluster []"
      using listed_allowed [of cluster "[]" c row] c(1) row(2) sel by (simp add: f(2) answer_ok_def)
    then show ?thesis by (simp add: opaAllows_def)
  next
    case (Some qs)
    then have "f = filterText qs" using userFilter_answer(1) f(1) by fastforce
    then show ?thesis using listed_allowed [OF assms(3) [OF Some] _ row(2) sel] c(1) Some f(2) by blast
  qed
qed

text \<open>What a query shows of the table.\<close>

definition selectedClusters :: "string \<Rightarrow> clustersDB \<Rightarrow> jvalue list" where
  "selectedClusters q db = scannedClusters db (case runQuery q db of None \<Rightarrow> [] | Some rows \<Rightarrow> rows)"

text \<open>
  Everything a client is shown comes from the clusters \<open>cs\<close>: a list is one of them, a table is made from them, an event adds one of
  them or deletes the name of one, and there is nothing else but the text of an error.
\<close>

fun bodyFrom :: "(jvalue \<Rightarrow> jvalue option) \<Rightarrow> (jvalue list \<Rightarrow> jvalue option) \<Rightarrow> jvalue list \<Rightarrow> restBody \<Rightarrow> bool" where
  "bodyFrom convert toTable cs (ClustersBody cs') \<longleftrightarrow> cs' = cs"
| "bodyFrom convert toTable cs (TableBody table) \<longleftrightarrow> (\<exists>converted. wrapInList convert cs = Some converted \<and> toTable converted = Some table)"
| "bodyFrom convert toTable cs (TextBody t) \<longleftrightarrow> t = ''internal error''"
| "bodyFrom convert toTable cs (StatusBody t) \<longleftrightarrow> False"

fun eventFrom :: "jvalue list \<Rightarrow> watchEvent \<Rightarrow> bool" where
  "eventFrom cs (AddedEvent cluster) \<longleftrightarrow> cluster \<in> set cs"
| "eventFrom cs (DeletedEvent name) \<longleftrightarrow> name \<in> clusterName ` set cs"

fun shownFrom :: "(jvalue \<Rightarrow> jvalue option) \<Rightarrow> (jvalue list \<Rightarrow> jvalue option) \<Rightarrow> jvalue list \<Rightarrow> listResult \<Rightarrow> bool" where
  "shownFrom convert toTable cs (Listed rs) \<longleftrightarrow> list_all (\<lambda>(status, body). bodyFrom convert toTable cs body) rs"
| "shownFrom convert toTable cs (Watched es) \<longleftrightarrow> list_all (eventFrom cs) es"

lemma listed_from: "list_all (\<lambda>(status, body). bodyFrom convert toTable (selectedClusters q db) body) (clusters_handleRows convert toTable accept db (runQuery q db))"
  by (auto simp: clusters_handleRows_def selectedClusters_def Let_def list_all_iff split: option.splits)

lemma eventFrom_mono: "eventFrom cs e \<Longrightarrow> set cs \<subseteq> set cs' \<Longrightarrow> eventFrom cs' e"
  by (cases e) auto

lemma set_fold_add: "set (fold set_add xs s) = set xs \<union> set s"
  by (induction xs arbitrary: s) auto

lemma set_fold_add_names: "set (fold (\<lambda>c. set_add (f c)) cs s) = f ` set cs \<union> set s"
  by (induction cs arbitrary: s) auto

lemma set_fold_remove: "set (fold set_remove xs s) = set s - set xs"
  by (induction xs arbitrary: s) auto

lemma tick_from:
  assumes "range_order ord" "doHandleRowsForWatch ord db (runQuery q db) names = (events, names')" "set names \<subseteq> clusterName ` set cs"
  shows "list_all (eventFrom (cs @ selectedClusters q db)) events \<and> set names' \<subseteq> clusterName ` set (cs @ selectedClusters q db)"
proof -
  let ?sel = "selectedClusters q db"
  let ?added = "fold (\<lambda>c. set_add (clusterName c)) ?sel []"
  let ?delete = "ord (filter (\<lambda>n. n \<notin> set ?added) names)"
  let ?previous = "fold set_remove ?delete names"
  have ev: "events = map AddedEvent ?sel @ map DeletedEvent ?delete" and n: "names' = fold set_add (ord (filter (\<lambda>n. n \<notin> set ?previous) ?added)) ?previous"
    using assms(2) by (simp_all add: doHandleRowsForWatch_def Let_def selectedClusters_def)
  have added: "set ?added = clusterName ` set ?sel" by (simp add: set_fold_add_names)
  have "set ?delete \<subseteq> set names" by (auto simp: range_order.set_ord [OF assms(1)])
  then have "list_all (eventFrom (cs @ ?sel)) events" using assms(3) unfolding ev by (fastforce simp: list_all_iff)
  moreover have "set names' \<subseteq> set names \<union> clusterName ` set ?sel"
    unfolding n set_fold_add set_fold_remove range_order.set_ord [OF assms(1)] using added by auto
  ultimately show ?thesis using assms(3) by auto
qed

lemma watched_from:
  assumes "range_order ord"
  shows "set names \<subseteq> clusterName ` set cs \<Longrightarrow> list_all (eventFrom (cs @ concat (map (selectedClusters q) dbs))) (handleRowsForWatch ord q dbs names)"
proof (induction dbs arbitrary: names cs)
  case (Cons db dbs)
  obtain events names' where tick: "doHandleRowsForWatch ord db (runQuery q db) names = (events, names')" by fastforce
  note this_tick = tick_from [OF assms tick Cons.prems]
  have "list_all (eventFrom (cs @ concat (map (selectedClusters q) (db # dbs)))) events"
    using conjunct1 [OF this_tick] by (auto simp: list_all_iff intro: eventFrom_mono)
  moreover have "list_all (eventFrom ((cs @ selectedClusters q db) @ concat (map (selectedClusters q) dbs))) (handleRowsForWatch ord q dbs names')"
    by (rule Cons.IH [OF conjunct2 [OF this_tick]])
  ultimately show ?case by (simp add: tick)
qed simp

text \<open>C17. Whoever lists or watches the managed clusters is shown nothing but clusters that the policy agent allows the user, whether as
  a list, as a table or as events, whatever the tables hold at each tick of the watch and whichever rows or queries fail. This is so for
  every cluster on which the answer of the policy agent can be translated: its comparisons refer to fields of
  \<open>input.cluster\<close> that are strings, null or absent in the cluster, and no text in them has a quote.\<close>

theorem shown_clusters_allowed:
  assumes "clusters_List convert toTable ord az db ticks watch accept ctx = Some res" and "\<And>ks. mset (ord ks) = mset ks"
  shows "\<exists>cs. shownFrom convert toTable cs res \<and>
    (\<forall>cluster\<in>set cs. (\<forall>qs. answerOf az ctx = Some qs \<longrightarrow> answer_ok cluster qs) \<longrightarrow> (\<exists>qs. answerOf az ctx = Some qs \<and> opaAllows cluster qs))"
proof -
  obtain q where q: "sqlQuery az ctx = Some q"
    "res = (if watch then Watched (handleRowsForWatch ord q ticks []) else Listed (clusters_handleRows convert toTable accept db (runQuery q db)))"
    using assms(1) by (auto simp: clusters_List_def)
  have ord: "range_order ord" by unfold_locales (rule assms(2))
  let ?cs = "if watch then concat (map (selectedClusters q) ticks) else selectedClusters q db"
  have "shownFrom convert toTable ?cs res"
    using watched_from [OF ord, of "[]" "[]" q ticks] listed_from by (cases watch) (simp_all add: q(2))
  moreover have "\<exists>d. cluster \<in> set (selectedClusters q d)" if "cluster \<in> set ?cs" for cluster
    using that by (cases watch) auto
  ultimately show ?thesis
    using queried_allowed [OF q(1), folded selectedClusters_def] by (intro exI [of _ ?cs] conjI) (assumption, blast)
qed

theorem shown_clusters_allowed_witness:
  "\<exists>cs. clusters_List Some (\<lambda>_. None) (\<lambda>ns. ns) (sampleAuthz sampleQueries) (sampleClusters [devRow, prodRow]) [] False [] sampleContext = Some (Listed [(200, ClustersBody cs)])
   \<and> clusterDoc ''c1'' ''dev'' ''OpenShift'' \<in> set cs
   \<and> (\<exists>qs. answerOf (sampleAuthz sampleQueries) sampleContext = Some qs \<and> opaAllows (clusterDoc ''c1'' ''dev'' ''OpenShift'') qs)"
proof -
  have res: "clusters_List Some (\<lambda>_. None) (\<lambda>ns. ns) (sampleAuthz sampleQueries) (sampleClusters [devRow, prodRow]) [] False [] sampleContext
      = Some (Listed [(200, ClustersBody [clusterDoc ''c1'' ''dev'' ''OpenShift''])])" by code_simp
  from shown_clusters_allowed [OF res] sampleQueries_translatable [of "''c1''"] res show ?thesis
    by (auto simp: sample_answer translatable_def)
qed

section \<open>What a watching client sees\<close>

text \<open>A client keeps the clusters by name: an event that adds a cluster stores it, one that deletes a name drops it.\<close>

fun applyEvent :: "watchEvent \<Rightarrow> (string \<rightharpoonup> jvalue) \<Rightarrow> (string \<rightharpoonup> jvalue)" where
  "applyEvent (AddedEvent cluster) view = view(clusterName cluster \<mapsto> cluster)"
| "applyEvent (DeletedEvent name) view = view(name := None)"

text \<open>The clusters by name; of two with one name the last is kept.\<close>

definition byName :: "jvalue list \<Rightarrow> (string \<rightharpoonup> jvalue)" where
  "byName cs = map_of (rev (map (\<lambda>c. (clusterName c, c)) cs))"

lemma dom_byName: "dom (byName cs) = clusterName ` set cs"
  by (auto simp: byName_def dom_map_of_conv_image_fst image_image)

lemma view_added: "fold applyEvent (map AddedEvent cs) view = view ++ byName cs"
  by (induction cs arbitrary: view) (simp_all add: byName_def)

lemma view_deleted: "fold applyEvent (map DeletedEvent ns) view n = (if n \<in> set ns then None else view n)"
  by (induction ns arbitrary: view) auto

text \<open>One tick, whatever the order of the set: the names kept are those of the rows, and the view becomes the rows by name.\<close>

lemma watch_tick:
  assumes ord: "range_order ord" and "doHandleRowsForWatch ord db queried names = (events, names')" and "dom view = set names"
  defines "cs \<equiv> scannedClusters db (case queried of None \<Rightarrow> [] | Some rows \<Rightarrow> rows)"
  shows "set names' = clusterName ` set cs" and "fold applyEvent events view = byName cs"
proof -
  let ?added = "fold (\<lambda>c. set_add (clusterName c)) cs []"
  let ?delete = "ord (filter (\<lambda>n. n \<notin> set ?added) names)"
  let ?previous = "fold set_remove ?delete names"
  have ev: "events = map AddedEvent cs @ map DeletedEvent ?delete" and n: "names' = fold set_add (ord (filter (\<lambda>n. n \<notin> set ?previous) ?added)) ?previous"
    using assms(2) by (simp_all add: doHandleRowsForWatch_def Let_def cs_def)
  have added: "set ?added = clusterName ` set cs" by (simp add: set_fold_add_names)
  show "set names' = clusterName ` set cs"
    unfolding n by (auto simp: set_fold_add set_fold_remove range_order.set_ord [OF ord] added)
  show "fold applyEvent events view = byName cs"
  proof
    fix n
    have "n \<in> dom view \<or> view n = None" by auto
    then show "fold applyEvent events view n = byName cs n"
      using assms(3) dom_byName [of cs] unfolding ev
      by (auto simp: view_added view_deleted range_order.set_ord [OF ord] added map_add_def domIff split: option.splits)
  qed
qed

lemma watch_view:
  assumes ord: "range_order ord"
  shows "dom view = set names \<Longrightarrow> fold applyEvent (handleRowsForWatch ord q dbs names) view = (if dbs = [] then view else byName (selectedClusters q (last dbs)))"
proof (induction dbs arbitrary: names view)
  case (Cons db dbs)
  obtain events names' where tick: "doHandleRowsForWatch ord db (runQuery q db) names = (events, names')" by fastforce
  have "dom (fold applyEvent events view) = set names'"
    using watch_tick [OF ord tick Cons.prems] by (simp add: dom_byName)
  from Cons.IH [OF this] show ?case
    using watch_tick(2) [OF ord tick Cons.prems] by (simp add: tick selectedClusters_def)
qed simp

lemma byName_distinct:
  assumes "distinct (map clusterName cs)"
  shows "byName cs name = Some cluster \<longleftrightarrow> cluster \<in> set cs \<and> clusterName cluster = name"
proof -
  have "distinct (map fst (rev (map (\<lambda>c. (clusterName c, c)) cs)))" using assms by (simp add: rev_map [symmetric] comp_def)
  from map_of_eq_Some_iff [OF this] show ?thesis by (auto simp: byName_def)
qed

lemma set_scannedClusters: "cluster \<in> set (scannedClusters db rows) \<longleftrightarrow> (\<exists>row\<in>set rows. jsonColumn row ''payload'' = Some cluster \<and> cd_scanOK db row)"
  by (force simp: scannedClusters_def)

text \<open>C18. What a client that watches holds after a tick, whatever was there at the ticks before: when the query of the tick succeeds and the
  clusters it yields have different names, exactly the clusters of its rows that scan, by name, so that what disappeared was
  deleted and what changed was sent again; and when the query fails nothing at all, as every cluster is reported as
  deleted.\<close>

theorem watch_shows_table:
  assumes "clusters_List convert toTable ord az db (ticks @ [now]) True accept ctx = Some (Watched events)"
    and "sqlQuery az ctx = Some q" and "\<And>ks. mset (ord ks) = mset ks"
  shows "case runQuery q now of
      None \<Rightarrow> fold applyEvent events Map.empty = Map.empty
    | Some rows \<Rightarrow> distinct (map clusterName (scannedClusters now rows)) \<longrightarrow>
        (\<forall>name cluster. fold applyEvent events Map.empty name = Some cluster \<longleftrightarrow>
          (\<exists>row\<in>set rows. jsonColumn row ''payload'' = Some cluster \<and> cd_scanOK now row \<and> clusterName cluster = name))"
proof -
  have "range_order ord" by unfold_locales (rule assms(3))
  from watch_view [OF this, of Map.empty "[]" q "ticks @ [now]"]
  have view: "fold applyEvent events Map.empty = byName (selectedClusters q now)"
    using assms(1,2) by (auto simp: clusters_List_def)
  show ?thesis
  proof (cases "runQuery q now")
    case None
    then show ?thesis by (simp add: view selectedClusters_def scannedClusters_def byName_def)
  next
    case (Some rows)
    then show ?thesis by (auto simp: view selectedClusters_def byName_distinct set_scannedClusters)
  qed
qed

definition otherClusters :: clustersDB where
  "otherClusters = sampleClusters [docRow ''hub1'' (clusterDoc ''c3'' ''dev'' ''OpenShift''), prodRow]"

theorem watch_shows_table_witness:
  "\<exists>events. clusters_List Some (\<lambda>_. None) rev (sampleAuthz sampleQueries) otherClusters [sampleClusters [devRow, prodRow], otherClusters] True [] sampleContext
        = Some (Watched events)
     \<and> fold applyEvent events Map.empty ''c3'' = Some (clusterDoc ''c3'' ''dev'' ''OpenShift'') \<and> fold applyEvent events Map.empty ''c1'' = None"
proof -
  let ?q = "''TRUE AND '' @ filterText sampleQueries" and ?c3 = "clusterDoc ''c3'' ''dev'' ''OpenShift''"
  have q: "sqlQuery (sampleAuthz sampleQueries) sampleContext = Some ?q"
    by (simp add: sqlQuery_def userFilter_answer(1) [OF sample_answer])
  obtain events where e: "clusters_List Some (\<lambda>_. None) rev (sampleAuthz sampleQueries) otherClusters ([sampleClusters [devRow, prodRow]] @ [otherClusters]) True [] sampleContext
      = Some (Watched events)" using q by (simp add: clusters_List_def)
  have sel: "selectedClusters ?q otherClusters = [?c3]" by code_simp
  then obtain rows where rows: "runQuery ?q otherClusters = Some rows" "scannedClusters otherClusters rows = [?c3]"
    by (cases "runQuery ?q otherClusters") (auto simp: selectedClusters_def scannedClusters_def)
  have name: "clusterName ?c3 = ''c3''" by code_simp
  from watch_shows_table [OF e q] rows
  have view: "fold applyEvent events Map.empty name = Some cluster \<longleftrightarrow> (\<exists>row\<in>set rows. jsonColumn row ''payload'' = Some cluster \<and> cd_scanOK otherClusters row \<and> clusterName cluster = name)"
    for name cluster by simp
  have "fold applyEvent events Map.empty name = Some cluster \<longleftrightarrow> cluster = ?c3 \<and> name = ''c3''" for name cluster
    unfolding view using set_scannedClusters [of cluster otherClusters rows] name by (auto simp: rows(2))
  from this [of "''c3''" ?c3] this [of "''c1''"] have "fold applyEvent events Map.empty ''c3'' = Some ?c3" "fold applyEvent events Map.empty ''c1'' = None"
    by (simp, cases "fold applyEvent events Map.empty ''c1''") auto
  with e show ?thesis by (intro exI [of _ events]) simp
qed

section \<open>Writers of the labels table\<close>

definition labelsKey :: "labelsRow \<Rightarrow> string \<times> string" where
  "labelsKey r = (lr_leafHub r, lr_cluster r)"

definition rows_ok :: "labelsRow list \<Rightarrow> bool" where
  "rows_ok t \<longleftrightarrow> distinct (map labelsKey t) \<and> list_all (\<lambda>r. 0 \<le>s lr_version r \<and> wf_map (lr_labels r)) t"

lemma rows_ok_wf: "rows_ok t \<Longrightarrow> wf_labels t"
  by (auto simp: rows_ok_def wf_labels_def labelsKey_def [abs_def] list_all_iff)

lemma rows_ok_unique: "rows_ok t \<Longrightarrow> r \<in> set t \<Longrightarrow> r' \<in> set t \<Longrightarrow> labelsKey r = labelsKey r' \<Longrightarrow> r = r'"
  by (auto simp: rows_ok_def distinct_map inj_on_def)

text \<open>
  What every writer promises the others about the row of one hub and cluster: it keeps the constraints of the table, and
  the row is either as it was or has a newer version. A version read earlier then tells whether the row is still as it was read.
\<close>

locale labels_writer =
  fixes hub cluster :: string and step :: "labelsRow list \<Rightarrow> labelsRow list"
  assumes step_ok: "rows_ok t \<Longrightarrow> rows_ok (step t)"
    and step_newer: "rows_ok t \<Longrightarrow> r \<in> set t \<Longrightarrow> labelsKey r = (hub, cluster) \<Longrightarrow>
      \<exists>r'\<in>set (step t). labelsKey r' = (hub, cluster) \<and> (r' = r \<or> unat (lr_version r) < unat (lr_version r'))"
begin

lemma same_version_same_row:
  assumes "rows_ok t" and "r \<in> set t" and "labelsKey r = (hub, cluster)"
    and "r' \<in> set (step t)" and "labelsKey r' = (hub, cluster)" and "lr_version r' = lr_version r"
  shows "r' = r"
proof -
  obtain r2 where r2: "r2 \<in> set (step t)" "labelsKey r2 = (hub, cluster)" "r2 = r \<or> unat (lr_version r) < unat (lr_version r2)"
    using step_newer [OF assms(1-3)] by blast
  then have "r' = r2" using rows_ok_unique [OF step_ok [OF assms(1)] assms(4) r2(1)] assms(5) by simp
  then show ?thesis using r2(3) assms(6) by auto
qed

lemma row_stays: "rows_ok t \<Longrightarrow> r \<in> set t \<Longrightarrow> labelsKey r = (hub, cluster) \<Longrightarrow> \<exists>r'\<in>set (step t). labelsKey r' = (hub, cluster)"
  using step_newer by blast

end

lemma version_grows:
  fixes v :: int64
  assumes "0 \<le>s v"
  shows "unat v < unat (v + 1)"
proof -
  have "v + 1 \<noteq> 0"
  proof
    assume "v + 1 = 0"
    then have "v = - 1" by (simp add: eq_neg_iff_add_eq_0)
    with assms show False by simp
  qed
  then have "unat (v + 1) = Suc (unat v)" by (metis add.commute unatSuc)
  then show ?thesis by simp
qed

lemma updateWhere_cases:
  assumes "updateWhere failure v P f rows = (e, rows')"
  obtains "e \<noteq> None" "rows' = rows"
  | "e = None" "rows' = map (\<lambda>r. if P r then f r else r) rows" "list_ex P rows" "\<not> v <s 0" "distinct (map labelsKey rows')"
  using assms by (auto simp: updateWhere_def Let_def labelsKey_def [abs_def] split: option.splits if_splits)

text \<open>An update of rows with the version read that moves them to the next version is such a writer.\<close>

lemma updateWhere_writer:
  assumes P: "\<And>r. P r \<Longrightarrow> lr_version r = v \<and> lr_version (f r) = v + 1 \<and> labelsKey (f r) = labelsKey r \<and> (wf_map (lr_labels r) \<longrightarrow> wf_map (lr_labels (f r)))"
  shows "labels_writer hub cluster (\<lambda>t. snd (updateWhere failure (v + 1) P f t))"
proof
  fix t r
  assume ok: "rows_ok t"
  obtain e t' where u: "updateWhere failure (v + 1) P f t = (e, t')" by fastforce
  show "rows_ok (snd (updateWhere failure (v + 1) P f t))"
    using u
  proof (cases rule: updateWhere_cases)
    case 2
    have "0 \<le>s v + 1" using 2(4) by (simp add: signed.not_less)
    then show ?thesis using ok P 2 by (auto simp: u rows_ok_def list_all_iff)
  qed (use ok u in simp)
  assume r: "r \<in> set t" "labelsKey r = (hub, cluster)"
  show "\<exists>r'\<in>set (snd (updateWhere failure (v + 1) P f t)). labelsKey r' = (hub, cluster) \<and> (r' = r \<or> unat (lr_version r) < unat (lr_version r'))"
    using u
  proof (cases rule: updateWhere_cases)
    case 2
    have "unat v < unat (v + 1)" if "P r" using ok r(1) P [OF that] by (intro version_grows) (auto simp: rows_ok_def list_all_iff)
    then show ?thesis using r P by (intro bexI [where x = "if P r then f r else r"]) (auto simp: u 2(2))
  qed (use r u in auto)
qed

lemma wf_fold_update: "wf_map m \<Longrightarrow> wf_map (fold (\<lambda>(k, v). AList.update k v) xs m)"
  by (induction xs arbitrary: m) auto

lemma wf_fold_update_if: "wf_map m \<Longrightarrow> wf_map (fold (\<lambda>(k, v) m. if P k then AList.update k v m else m) xs m)"
  by (induction xs arbitrary: m) auto

lemma wf_newLabelsToAdd: "wf_map (newLabelsToAdd add cur rem)"
  unfolding newLabelsToAdd_def by (intro wf_fold_update wf_fold_update_if) simp

text \<open>The trimmer of the status watcher.\<close>

interpretation trimmer: labels_writer hub cluster "\<lambda>t. snd (UpdateDeletedLabelKeys failure now v h c keys t)" for hub cluster failure now v h c keys
  unfolding UpdateDeletedLabelKeys_def by (rule updateWhere_writer) (auto simp: labelsKey_def)

text \<open>Another patch, whatever it read before.\<close>

interpretation patcher: labels_writer hub cluster "\<lambda>t. snd (updateRow a c h add cur rem keys v t)" for hub cluster a c h add cur rem keys v
  unfolding updateRow_def by (rule updateWhere_writer) (auto simp: labelsKey_def wf_newLabelsToAdd)

lemma rows_ok_insert:
  "rows_ok t \<Longrightarrow> labelsKey r \<notin> labelsKey ` set t \<Longrightarrow> 0 \<le>s lr_version r \<Longrightarrow> wf_map (lr_labels r) \<Longrightarrow> rows_ok (t @ [r])"
  by (auto simp: rows_ok_def)

lemma has_row: "list_ex (\<lambda>r. lr_leafHub r = hub \<and> lr_cluster r = cluster) t \<longleftrightarrow> (hub, cluster) \<in> labelsKey ` set t"
  by (force simp: list_ex_iff labelsKey_def)

lemma insertRow_cases:
  assumes "insertRow a cluster hub add rem t = (e, t')"
  obtains "e \<noteq> None" "t' = t"
  | "e = None" "(hub, cluster) \<notin> labelsKey ` set t"
    "t' = t @ [\<lparr>lr_leafHub = hub, lr_cluster = cluster, lr_labels = add, lr_deletedKeys = getKeys (pa_order a) rem, lr_updated_at = pa_now a, lr_version = 0\<rparr>]"
proof (cases "pa_insert a \<noteq> None \<or> (hub, cluster) \<in> labelsKey ` set t")
  case True
  then have "e \<noteq> None" and "t' = t" using assms unfolding insertRow_def has_row by (auto split: option.splits)
  then show ?thesis by (rule that(1))
next
  case False
  then have "insertRow a cluster hub add rem t =
      (None, t @ [\<lparr>lr_leafHub = hub, lr_cluster = cluster, lr_labels = add, lr_deletedKeys = getKeys (pa_order a) rem, lr_updated_at = pa_now a, lr_version = 0\<rparr>])"
    unfolding insertRow_def has_row by simp
  with assms False show ?thesis by (intro that(2)) simp_all
qed

lemma insertRow_writer:
  assumes "wf_map add"
  shows "labels_writer hub cluster (\<lambda>t. snd (insertRow a c h add rem t))"
proof
  fix t r
  assume ok: "rows_ok t"
  obtain e t' where i: "insertRow a c h add rem t = (e, t')" by fastforce
  then show "rows_ok (snd (insertRow a c h add rem t))"
  proof (cases rule: insertRow_cases)
    case 2
    have "rows_ok t'" unfolding 2(3) using 2(2) assms by (intro rows_ok_insert [OF ok]) (simp_all add: labelsKey_def image_iff)
    then show ?thesis by (simp add: i)
  qed (use ok i in simp)
  assume "r \<in> set t" "labelsKey r = (hub, cluster)"
  then show "\<exists>r'\<in>set (snd (insertRow a c h add rem t)). labelsKey r' = (hub, cluster) \<and> (r' = r \<or> unat (lr_version r) < unat (lr_version r'))"
    using i by (cases rule: insertRow_cases [OF i]) (auto intro!: bexI [where x = r])
qed

text \<open>Writers compose.\<close>

lemma labels_writer_comp:
  assumes "labels_writer hub cluster f" and "labels_writer hub cluster g"
  shows "labels_writer hub cluster (\<lambda>t. g (f t))"
proof
  fix t r
  assume ok: "rows_ok t"
  have ok': "rows_ok (f t)" by (rule labels_writer.step_ok [OF assms(1) ok])
  then show "rows_ok (g (f t))" by (rule labels_writer.step_ok [OF assms(2)])
  assume "r \<in> set t" "labelsKey r = (hub, cluster)"
  then obtain r1 where r1: "r1 \<in> set (f t)" "labelsKey r1 = (hub, cluster)" "r1 = r \<or> unat (lr_version r) < unat (lr_version r1)"
    using labels_writer.step_newer [OF assms(1) ok] by blast
  obtain r2 where "r2 \<in> set (g (f t))" "labelsKey r2 = (hub, cluster)" "r2 = r1 \<or> unat (lr_version r1) < unat (lr_version r2)"
    using labels_writer.step_newer [OF assms(2) ok' r1(1,2)] by blast
  then show "\<exists>r'\<in>set (g (f t)). labelsKey r' = (hub, cluster) \<and> (r' = r \<or> unat (lr_version r) < unat (lr_version r'))"
    using r1(3) by (intro bexI [of _ r2]) auto
qed

interpretation idle: labels_writer hub cluster "\<lambda>t. t" for hub cluster
  by unfold_locales auto

section \<open>What a patch does\<close>

text \<open>The labels of a cluster that the row asks for, on top of those it has: the ones listed are set, then the deleted keys removed.\<close>

definition over :: "(string, string) gomap \<Rightarrow> string set \<Rightarrow> (string \<rightharpoonup> string) \<Rightarrow> (string \<rightharpoonup> string)" where
  "over add rem m = (\<lambda>k. if k \<in> rem then None else case map_of add k of Some v \<Rightarrow> Some v | None \<Rightarrow> m k)"

definition effective :: "labelsRow \<Rightarrow> (string \<rightharpoonup> string) \<Rightarrow> (string \<rightharpoonup> string)" where
  "effective r = over (lr_labels r) (set (lr_deletedKeys r))"

definition patchLabel :: "patch \<Rightarrow> string" where
  "patchLabel p = replaceTilde (TrimPrefix (pt_Path p) ''/metadata/labels/'')"

text \<open>The effect of an operation of a JSON patch on the labels.\<close>

definition applyPatch :: "patch \<Rightarrow> (string \<rightharpoonup> string) \<Rightarrow> (string \<rightharpoonup> string)" where
  "applyPatch p m = (if pt_Op p = ''add'' then m(patchLabel p \<mapsto> pt_Value p) else m(patchLabel p := None))"

lemma getLabels_effect:
  assumes "getLabels add rem ps = Inr (add', rem')" and "wf_map add" and "distinct rem" and "fst ` set add \<inter> set rem = {}"
  shows "wf_map add' \<and> distinct rem' \<and> fst ` set add' \<inter> set rem' = {} \<and> over add' (set rem') m = fold applyPatch ps (over add (set rem) m)"
  using assms
proof (induction ps arbitrary: add rem)
  case Nil
  then show ?case by simp
next
  case (Cons p ps)
  let ?l = "patchLabel p"
  have "pt_Op p = ''add'' \<or> pt_Op p = ''remove''"
    using Cons.prems(1) by (auto simp: Let_def split: if_splits)
  then show ?case
  proof
    assume op: "pt_Op p = ''add''"
    have eff: "over (AList.update ?l (pt_Value p) add) (set rem - {?l}) m = applyPatch p (over add (set rem) m)"
      by (auto simp: over_def applyPatch_def op fun_eq_iff)
    have "fst ` set (AList.update ?l (pt_Value p) add) \<inter> set (set_remove ?l rem) = {}"
      using Cons.prems(4) by (auto simp: dom_update)
    moreover have "getLabels (AList.update ?l (pt_Value p) add) (set_remove ?l rem) ps = Inr (add', rem')"
      using Cons.prems(1) by (simp add: op patchLabel_def Let_def split: if_splits)
    ultimately show ?case using Cons.IH [of "AList.update ?l (pt_Value p) add" "set_remove ?l rem"] Cons.prems(2,3) by (simp add: eff)
  next
    assume op: "pt_Op p = ''remove''"
    have eff: "over (AList.delete ?l add) (insert ?l (set rem)) m = applyPatch p (over add (set rem) m)"
      by (auto simp: over_def applyPatch_def op fun_eq_iff)
    have "fst ` set (AList.delete ?l add) \<inter> set (set_add ?l rem) = {}"
      using Cons.prems(4) by (auto simp: AList.delete_eq)
    moreover have "getLabels (AList.delete ?l add) (set_add ?l rem) ps = Inr (add', rem')"
      using Cons.prems(1) by (simp add: op patchLabel_def Let_def split: if_splits)
    ultimately show ?case using Cons.IH [of "AList.delete ?l add" "set_add ?l rem"] Cons.prems(2,3) by (simp add: eff)
  qed
qed

text \<open>The merge of a patch with the row it found.\<close>

definition mergedRow :: "patchAnswers \<Rightarrow> (string, string) gomap \<Rightarrow> string goset \<Rightarrow> labelsRow \<Rightarrow> labelsRow" where
  "mergedRow a add rem r = r\<lparr>lr_labels := newLabelsToAdd add (lr_labels r) rem,
     lr_deletedKeys := getKeys (pa_order a) (newLabelsToRemove add rem (getMap (lr_deletedKeys r))),
     lr_updated_at := pa_now a, lr_version := lr_version r + 1\<rparr>"

lemma map_of_fold_update_if:
  "wf_map xs \<Longrightarrow> map_of (fold (\<lambda>(k, v) m. if P k then AList.update k v m else m) xs m) = map_of m ++ (\<lambda>k. if P k then map_of xs k else None)"
proof (induction xs arbitrary: m)
  case Nil
  then show ?case by (simp add: fun_eq_iff map_add_def)
next
  case (Cons x xs)
  obtain k v where x: "x = (k, v)" by fastforce
  have k: "map_of xs k = None" using Cons.prems by (simp add: wf_map_def x map_of_eq_None_iff)
  have wf: "wf_map xs" using Cons.prems by (simp add: wf_map_def)
  show ?case
    using k by (auto simp: x Cons.IH [OF wf] fun_eq_iff map_add_def split: option.splits)
qed

lemma map_of_newLabelsToAdd:
  assumes "wf_map add" and "wf_map cur"
  shows "map_of (newLabelsToAdd add cur rem) = (\<lambda>k. if k \<notin> set rem then map_of cur k else None) ++ map_of add"
  by (simp add: newLabelsToAdd_def map_of_fold_update [OF assms(1)] map_of_fold_update_if [OF assms(2)])

lemma set_fold_add_if: "set (fold (\<lambda>k s. if P k then set_add k s else s) ks s) = {k \<in> set ks. P k} \<union> set s"
  by (induction ks arbitrary: s) auto

lemma set_newLabelsToRemove: "set (newLabelsToRemove add rem cur) = set rem \<union> {k \<in> set cur. map_of add k = None}"
  by (auto simp: newLabelsToRemove_def set_fold_add set_fold_add_if)

lemma set_getMap: "set (getMap ks) = set ks"
  by (simp add: getMap_def set_fold_add)

lemma mergedRow_effective:
  assumes "wf_map add" and "wf_map (lr_labels r)" and "fst ` set add \<inter> set rem = {}" and "\<And>ks. mset (pa_order a ks) = mset ks"
  shows "effective (mergedRow a add rem r) base = over add (set rem) (effective r base)"
proof
  fix k
  have set: "set (lr_deletedKeys (mergedRow a add rem r)) = set rem \<union> {k \<in> set (lr_deletedKeys r). map_of add k = None}"
    using mset_eq_setD [OF assms(4)] by (simp add: mergedRow_def getKeys_def set_newLabelsToRemove set_getMap)
  have add: "map_of (lr_labels (mergedRow a add rem r)) = (\<lambda>k. if k \<notin> set rem then map_of (lr_labels r) k else None) ++ map_of add"
    by (simp add: mergedRow_def map_of_newLabelsToAdd [OF assms(1,2)])
  show "effective (mergedRow a add rem r) base k = over add (set rem) (effective r base) k"
    using assms(3) by (auto simp: effective_def over_def set add map_add_def split: option.splits dest: map_of_SomeD)
qed

text \<open>What a patch leaves of the table it finds when it writes.\<close>

definition patched :: "patchAnswers \<Rightarrow> string \<Rightarrow> string \<Rightarrow> (string, string) gomap \<Rightarrow> string goset \<Rightarrow> labelsRow list \<Rightarrow> labelsRow list \<Rightarrow> bool" where
  "patched a hub cluster add rem t t' \<longleftrightarrow>
     (\<exists>r\<in>set t. labelsKey r = (hub, cluster) \<and> t' = map (\<lambda>x. if x = r then mergedRow a add rem r else x) t)
     \<or> (hub, cluster) \<notin> labelsKey ` set t \<and>
       t' = t @ [\<lparr>lr_leafHub = hub, lr_cluster = cluster, lr_labels = add, lr_deletedKeys = getKeys (pa_order a) rem, lr_updated_at = pa_now a, lr_version = 0\<rparr>]"

context labels_writer
begin

lemma updateRow_current:
  assumes ok: "rows_ok t" and r: "r \<in> set t" "labelsKey r = (hub, cluster)"
    and u: "updateRow a cluster hub add (lr_labels r) rem (getMap (lr_deletedKeys r)) (lr_version r) (step t) = (None, t')"
  shows "patched a hub cluster add rem (step t) t'"
proof -
  let ?P = "\<lambda>x. lr_cluster x = cluster \<and> lr_leafHub x = hub \<and> lr_version x = lr_version r"
  let ?f = "\<lambda>x. x\<lparr>lr_labels := newLabelsToAdd add (lr_labels r) rem, lr_deletedKeys := getKeys (pa_order a) (newLabelsToRemove add rem (getMap (lr_deletedKeys r))),
     lr_updated_at := pa_now a, lr_version := lr_version x + 1\<rparr>"
  have P: "?P x \<longleftrightarrow> x = r" if "x \<in> set (step t)" for x
    using same_version_same_row [OF ok r that] r(2) by (auto simp: labelsKey_def)
  from u [unfolded updateRow_def] have t': "t' = map (\<lambda>x. if ?P x then ?f x else x) (step t)" and "list_ex ?P (step t)"
    by (cases rule: updateWhere_cases; simp)+
  then obtain x where "x \<in> set (step t)" "?P x" by (auto simp: list_ex_iff)
  with P have "r \<in> set (step t)" by blast
  moreover have "t' = map (\<lambda>x. if x = r then mergedRow a add rem r else x) (step t)"
    unfolding t' using P by (intro map_cong) (auto simp: mergedRow_def)
  ultimately show ?thesis using r(2) by (auto simp: patched_def)
qed

lemma updateLabels_current:
  assumes ok: "rows_ok t" and "updateLabels a cluster hub add rem t (step t) = (None, t')" and "\<not> (add = [] \<and> rem = [])"
  shows "patched a hub cluster add rem (step t) t'"
proof -
  let ?found = "filter (\<lambda>r. lr_cluster r = cluster \<and> lr_leafHub r = hub) t"
  have "insertRow a cluster hub add rem (step t) = (None, t')
      \<or> (\<exists>r. r \<in> set ?found \<and> updateRow a cluster hub add (lr_labels r) rem (getMap (lr_deletedKeys r)) (lr_version r) (step t) = (None, t'))"
    using assms(2,3) unfolding updateLabels_def Let_def
    by (cases "pa_rows a"; cases ?found; simp split: nat.splits; (metis list.set_intros(1))?)
  then show ?thesis
  proof
    assume "insertRow a cluster hub add rem (step t) = (None, t')"
    then show ?thesis by (cases rule: insertRow_cases) (simp_all add: patched_def)
  next
    assume "\<exists>r. r \<in> set ?found \<and> updateRow a cluster hub add (lr_labels r) rem (getMap (lr_deletedKeys r)) (lr_version r) (step t) = (None, t')"
    then show ?thesis using updateRow_current [OF ok] by (auto simp: labelsKey_def)
  qed
qed

end

text \<open>
  The table at the write of attempt \<open>m\<close> when the attempts before it changed nothing: only what the other writers did.
  Attempts are numbered downwards.
\<close>

fun tableAt :: "(nat \<Rightarrow> labelsRow list \<Rightarrow> labelsRow list) \<Rightarrow> (nat \<Rightarrow> labelsRow list \<Rightarrow> labelsRow list) \<Rightarrow> nat \<Rightarrow> nat \<Rightarrow> labelsRow list \<Rightarrow> labelsRow list" where
  "tableAt before between 0 m t = t"
| "tableAt before between (Suc n) m t = (if n = m then between n (before n t) else tableAt before between n m (between n (before n t)))"

lemma updateLabels_failed: "updateLabels a cluster hub add rem t1 t2 = (Some e, t3) \<Longrightarrow> t3 = t2"
proof -
  have ins: "insertRow a cluster hub add rem t2 = (Some e, t3) \<Longrightarrow> t3 = t2"
    by (erule insertRow_cases) simp_all
  have upd: "updateRow a cluster hub add cur rem keys v t2 = (Some e, t3) \<Longrightarrow> t3 = t2" for cur keys v
    unfolding updateRow_def by (erule updateWhere_cases) simp_all
  assume "updateLabels a cluster hub add rem t1 t2 = (Some e, t3)"
  then show "t3 = t2"
    using ins upd unfolding updateLabels_def Let_def
    by (auto split: if_splits rowsOutcome.splits list.splits nat.splits)
qed

lemma retryUpdate_patched:
  assumes "retryUpdate a before between cluster hub add rem n e t = (None, t')" and "e \<noteq> None \<or> 0 < n" and "rows_ok t"
    and "\<And>i. labels_writer hub cluster (before i)" and "\<And>i. labels_writer hub cluster (between i)" and "\<not> (add = [] \<and> rem = [])"
  shows "\<exists>m<n. rows_ok (tableAt before between n m t) \<and> patched (a m) hub cluster add rem (tableAt before between n m t) t'"
  using assms(1-3)
proof (induction n arbitrary: e t)
  case 0
  then show ?case by simp
next
  case (Suc n)
  let ?t1 = "before n t" and ?t2 = "between n (before n t)"
  have ok1: "rows_ok ?t1" by (rule labels_writer.step_ok [OF assms(4) Suc.prems(3)])
  have ok2: "rows_ok ?t2" by (rule labels_writer.step_ok [OF assms(5) ok1])
  show ?case
  proof (cases "updateLabels (a n) cluster hub add rem ?t1 ?t2")
    case (Pair e' t3)
    show ?thesis
    proof (cases e')
      case None
      then have "patched (a n) hub cluster add rem ?t2 t'"
        using Suc.prems(1) Pair labels_writer.updateLabels_current [OF assms(5) ok1 _ assms(6), of "a n" n] by (simp add: Let_def)
      then show ?thesis using ok2 by (intro exI [of _ n]) simp
    next
      case (Some err)
      then have "t3 = ?t2" using Pair updateLabels_failed by blast
      then have "retryUpdate a before between cluster hub add rem n (Some err) ?t2 = (None, t')"
        using Suc.prems(1) Pair Some by (simp add: Let_def)
      from Suc.IH [OF this _ ok2] obtain m where "m < n" "rows_ok (tableAt before between n m ?t2)" "patched (a m) hub cluster add rem (tableAt before between n m ?t2) t'"
        by auto
      then show ?thesis by (intro exI [of _ m]) simp
    qed
  qed
qed

lemma getLabels_nonempty: "getLabels add rem ps = Inr (add', rem') \<Longrightarrow> add \<noteq> [] \<or> rem \<noteq> [] \<or> ps \<noteq> [] \<Longrightarrow> \<not> (add' = [] \<and> rem' = [])"
proof (induction ps arbitrary: add rem)
  case (Cons p ps)
  let ?l = "patchLabel p"
  have "set_add ?l rem \<noteq> []" by (auto simp: set_add_def)
  then show ?case
    using Cons.prems(1) Cons.IH [of "AList.update ?l (pt_Value p) add" "set_remove ?l rem"] Cons.IH [of "AList.delete ?l add" "set_add ?l rem"]
    by (simp add: Let_def patchLabel_def split: if_splits)
qed simp

text \<open>C14. A patch that succeeds is atomic, whatever the status watcher and other patches write meanwhile: the row of the
  hub and cluster as it is when the patch is written (and not as it was read) is replaced by one that asks for the labels that
  the operations of the patch, applied in their order, make of the labels the row asked for, whatever labels the cluster has;
  without a row one is inserted; and no other row changes. The attempts that failed left no trace.\<close>

theorem patch_atomic:
  assumes "Patch az db a before between cluster hub (Some ps) ctx t = Some ([], t')" and "ps \<noteq> []"
    and ok: "rows_ok t" and writers: "\<And>i. labels_writer hub cluster (before i)" "\<And>i. labels_writer hub cluster (between i)"
    and ord: "\<And>i ks. mset (pa_order (a i) ks) = mset ks"
  shows "\<exists>m<optimisticConcurrencyRetryAttempts. \<exists>r'.
     let now = tableAt before between optimisticConcurrencyRetryAttempts m t in
     labelsKey r' = (hub, cluster) \<and>
     ((\<exists>r\<in>set now. labelsKey r = (hub, cluster) \<and> t' = map (\<lambda>x. if x = r then r' else x) now
          \<and> lr_version r' = lr_version r + 1 \<and> effective r' base = fold applyPatch ps (effective r base))
      \<or> (hub, cluster) \<notin> labelsKey ` set now \<and> t' = now @ [r'] \<and> lr_version r' = 0 \<and> effective r' base = fold applyPatch ps base)"
proof -
  obtain add rem where l: "getLabels [] [] ps = Inr (add, rem)"
    and u: "retryUpdate a before between cluster hub add rem optimisticConcurrencyRetryAttempts None t = (None, t')"
    using assms(1) by (auto simp: Patch_def Let_def split: option.splits if_splits sum.splits patchError.splits prod.splits)
  have ne: "\<not> (add = [] \<and> rem = [])" using getLabels_nonempty [OF l] assms(2) by simp
  have eff: "wf_map add" "fst ` set add \<inter> set rem = {}" "\<And>m. over add (set rem) m = fold applyPatch ps m"
    using getLabels_effect [OF l] by (auto simp: over_def)
  have "0 < optimisticConcurrencyRetryAttempts" by (simp add: optimisticConcurrencyRetryAttempts_def)
  then obtain m where m: "m < optimisticConcurrencyRetryAttempts"
    "rows_ok (tableAt before between optimisticConcurrencyRetryAttempts m t)"
    "patched (a m) hub cluster add rem (tableAt before between optimisticConcurrencyRetryAttempts m t) t'"
    using retryUpdate_patched [OF u _ ok writers ne] by blast
  let ?now = "tableAt before between optimisticConcurrencyRetryAttempts m t"
  from m(3) consider
      r where "r \<in> set ?now" "labelsKey r = (hub, cluster)" "t' = map (\<lambda>x. if x = r then mergedRow (a m) add rem r else x) ?now"
    | "(hub, cluster) \<notin> labelsKey ` set ?now"
      "t' = ?now @ [\<lparr>lr_leafHub = hub, lr_cluster = cluster, lr_labels = add, lr_deletedKeys = getKeys (pa_order (a m)) rem, lr_updated_at = pa_now (a m), lr_version = 0\<rparr>]"
    unfolding patched_def by blast
  then show ?thesis
  proof cases
    case (1 r)
    have "wf_map (lr_labels r)" using m(2) 1(1) by (auto simp: rows_ok_def list_all_iff)
    then have "effective (mergedRow (a m) add rem r) base = fold applyPatch ps (effective r base)"
      using mergedRow_effective [OF eff(1) _ eff(2) ord] eff(3) by simp
    moreover have "labelsKey (mergedRow (a m) add rem r) = (hub, cluster)" "lr_version (mergedRow (a m) add rem r) = lr_version r + 1"
      using 1(2) by (simp_all add: mergedRow_def labelsKey_def)
    ultimately show ?thesis
      using m(1) 1 by (intro exI [of _ m] conjI exI [of _ "mergedRow (a m) add rem r"]) (auto simp: Let_def)
  next
    case 2
    let ?r = "\<lparr>lr_leafHub = hub, lr_cluster = cluster, lr_labels = add, lr_deletedKeys = getKeys (pa_order (a m)) rem, lr_updated_at = pa_now (a m), lr_version = 0\<rparr>"
    have "effective ?r base = fold applyPatch ps base"
      using eff(3) mset_eq_setD [OF ord] by (simp add: effective_def getKeys_def)
    then show ?thesis
      using m(1) 2 by (intro exI [of _ m] conjI exI [of _ ?r]) (simp_all add: Let_def labelsKey_def)
  qed
qed

text \<open>A patch of the sample cluster, and another that is written between its first read and write.\<close>

definition samplePatches :: "patch list" where
  "samplePatches = [\<lparr>pt_Op = ''add'', pt_Path = ''/metadata/labels/team~1env'', pt_Value = ''blue''\<rparr>,
                    \<lparr>pt_Op = ''remove'', pt_Path = ''/metadata/labels/zone'', pt_Value = []\<rparr>]"

definition patchRow :: labelsRow where
  "patchRow = \<lparr>lr_leafHub = ''hub1'', lr_cluster = ''c1'', lr_labels = [(''zone'', ''a'')], lr_deletedKeys = [''team/env''], lr_updated_at = 1, lr_version = 3\<rparr>"

definition samplePatchAnswers :: patchAnswers where
  "samplePatchAnswers = \<lparr>pa_rows = AllRows, pa_insert = None, pa_update = None, pa_now = 5, pa_order = rev\<rparr>"

definition otherPatch :: "nat \<Rightarrow> labelsRow list \<Rightarrow> labelsRow list" where
  "otherPatch i t = (if i = 4 then snd (updateRow samplePatchAnswers ''c1'' ''hub1'' [(''owner'', ''x'')] [(''zone'', ''a'')] [] [''team/env''] 3 t) else t)"

lemma otherPatch_writer: "labels_writer hub cluster (otherPatch i)"
  by (cases "i = 4") (simp_all add: otherPatch_def [abs_def] patcher.labels_writer_axioms idle.labels_writer_axioms)

definition samplePatched :: "labelsRow list" where
  "samplePatched = [\<lparr>lr_leafHub = ''hub1'', lr_cluster = ''c1'', lr_labels = [(''owner'', ''x''), (''team/env'', ''blue'')], lr_deletedKeys = [''zone''], lr_updated_at = 5, lr_version = 5\<rparr>]"

lemma sample_patch_runs:
  "Patch (sampleAuthz sampleQueries) (sampleClusters [devRow, prodRow]) (\<lambda>_. samplePatchAnswers) (\<lambda>_ t. t) otherPatch ''c1'' ''hub1''
     (Some samplePatches) sampleContext [patchRow] = Some ([], samplePatched)"
  by code_simp

theorem patch_atomic_witness:
  "\<exists>m<optimisticConcurrencyRetryAttempts. \<exists>r'.
     let now = tableAt (\<lambda>_ t. t) otherPatch optimisticConcurrencyRetryAttempts m [patchRow] in
     labelsKey r' = (''hub1'', ''c1'') \<and>
     ((\<exists>r\<in>set now. labelsKey r = (''hub1'', ''c1'') \<and> samplePatched = map (\<lambda>x. if x = r then r' else x) now
          \<and> lr_version r' = lr_version r + 1 \<and> effective r' Map.empty = fold applyPatch samplePatches (effective r Map.empty))
      \<or> (''hub1'', ''c1'') \<notin> labelsKey ` set now \<and> samplePatched = now @ [r'] \<and> lr_version r' = 0 \<and> effective r' Map.empty = fold applyPatch samplePatches Map.empty)"
proof (rule patch_atomic [OF sample_patch_runs])
  show "samplePatches \<noteq> []" by (simp add: samplePatches_def)
  show "rows_ok [patchRow]" by code_simp
  show "labels_writer ''hub1'' ''c1'' (\<lambda>t. t)" by (rule idle.labels_writer_axioms)
  show "labels_writer ''hub1'' ''c1'' (otherPatch i)" for i by (rule otherPatch_writer)
  show "mset (pa_order samplePatchAnswers ks) = mset ks" for ks by (simp add: samplePatchAnswers_def)
qed

text \<open>C23. The handler of a patch answers an unauthorized user with status 403 and then goes on: the labels are changed exactly as
  for an authorized user.\<close>

theorem forbidden_patch_applied:
  assumes "isAuthorized az db ctx cluster hub = Some False"
    and "isAuthorized az' db' ctx' cluster hub = Some True"
    and "Patch az' db' a before between cluster hub patches ctx' t = Some (out, t')"
  shows "\<exists>body. Patch az db a before between cluster hub patches ctx t = Some ((403, body) # out, t')"
  using assms by (auto simp: Patch_def Let_def split: option.splits sum.splits patchError.splits prod.splits)

lemma sample_prod_forbidden:
  "isAuthorized (sampleAuthz [JArray [jeq False (jref [''metadata'', ''env'']) (jstr ''prod'')]]) (sampleClusters [devRow, prodRow]) sampleContext ''c1'' ''hub1'' = Some False"
  by code_simp

theorem forbidden_patch_applied_witness:
  "\<exists>body. Patch (sampleAuthz [JArray [jeq False (jref [''metadata'', ''env'']) (jstr ''prod'')]]) (sampleClusters [devRow, prodRow]) (\<lambda>_. samplePatchAnswers)
     (\<lambda>_ t. t) otherPatch ''c1'' ''hub1'' (Some samplePatches) sampleContext [patchRow] = Some ([(403, body)], samplePatched)"
  using forbidden_patch_applied [OF sample_prod_forbidden sample_dev_authorized sample_patch_runs] by simp

section \<open>Certificates\<close>

text \<open>The bundles of certificates that the server is configured with are read and then dropped: the clients that
  ask who the user is and what the user may do never verify whom they talk to.\<close>

theorem certificates_never_used:
  assumes "AddNonK8sApiServer readFile loadKeyPair svc c = Inr server"
  shows "authn_createClient us (rs_clusterAPICABundle server) = Some InsecureSkipVerify \<and> authz_createClient svc (ac_caBundle (rs_authz server)) = Inr InsecureSkipVerify"
  using assms by (auto simp: AddNonK8sApiServer_def readCertificates_def Let_def authn_createClient_def authz_createClient_def split: sum.splits if_splits)

definition sampleServerConfig :: NonK8sAPIServerConfig where
  "sampleServerConfig = \<lparr>ClusterAPIURL = ''api'', ClusterAPICABundlePath = ''/ca/api.pem'', AuthorizationURL = ''opa'',
     AuthorizationCABundlePath = ''/ca/opa.pem'', ServerCertificatePath = ''/tls.crt'', ServerKeyPath = ''/tls.key'', ServerBasePath = ''/global-hub-api/v1''\<rparr>"

definition sampleServer :: restServer where
  "sampleServer = \<lparr>rs_clusterAPIURL = ''api'', rs_clusterAPICABundle = None, rs_authz = \<lparr>ac_service = sampleService [], ac_url = ''opa'', ac_caBundle = None\<rparr>\<rparr>"

lemma sampleServer_added: "AddNonK8sApiServer (\<lambda>_. Some ''pem'') (\<lambda>_ _. True) (sampleService []) sampleServerConfig = Inr sampleServer"
  by (simp add: AddNonK8sApiServer_def readCertificates_def sampleServerConfig_def sampleServer_def)

theorem certificates_never_used_witness:
  "AddNonK8sApiServer (\<lambda>_. Some ''pem'') (\<lambda>_ _. True) (sampleService []) sampleServerConfig = Inr sampleServer
   \<and> authz_createClient (sampleService []) (ac_caBundle (rs_authz sampleServer)) = Inr InsecureSkipVerify"
  using certificates_never_used [OF sampleServer_added] sampleServer_added by simp

end
