(* ===== verification/GH_StatusBack.thy ===== *)
theory GH_StatusBack
  imports GH_PolicySync GH_AgentBundles GH_SpecLabels "HOL-Library.Sublist" "HOL-Library.List_Lexorder" "HOL-Library.Product_Lexorder" "HOL-Library.Char_ord"
begin

text \<open>
  From the database back to the objects on the global hub (\<open>src/manager/pkg/statussyncer/db2status\<close> and
  \<open>statussyncer/status\<close>): periodic syncers read what the leaf hubs reported of a policy, placement rule, placement, placement
  decision, subscription status or subscription report, aggregate it and write it into the status of the object.

  A store maps namespace and name to an object. A goroutine is started for every live row of a spec table and reads and writes
  only its own object; a pass runs them one after the other, in the order given as an argument. A status is written as a merge
  patch of what was read and what is wanted: a field that is the same in both is left as the server has it. The outcomes of
  queries and API calls are arguments.
\<close>

section \<open>Objects\<close>

type_synonym objKey = "string \<times> string"

record ownerReference =
  or_APIVersion :: string
  or_Kind :: string
  or_Name :: string
  or_UID :: string
  or_Controller :: bool
  or_BlockOwnerDeletion :: bool

record 'c crObject =
  cr_name :: string
  cr_namespace :: string
  cr_labels :: "(string, string) gomap"
  cr_annotations :: "(string, string) gomap"
  cr_ownerReferences :: "ownerReference list"
  cr_resourceVersion :: string
  cr_content :: 'c

type_synonym 'c objStore = "objKey \<rightharpoonup> 'c crObject"

definition objKeyOf :: "'c crObject \<Rightarrow> objKey" where
  "objKeyOf x = (cr_namespace x, cr_name x)"

text \<open>
  What the API server answers about an object; a patch may find it gone. The last four fields are constants of the API
  packages: two names of labels, and the group and kind of a policy.
\<close>

datatype patchFailure = PatchNotFound | PatchFailed string

record backAnswers =
  ba_get :: "objKey \<Rightarrow> string option"
  ba_create :: "objKey \<Rightarrow> string option"
  ba_patch :: "objKey \<Rightarrow> patchFailure option"
  PlacementLabel :: string
  AnnotationHosting :: string
  policyGroup :: string
  policyKind :: string

definition mergeField :: "'f \<Rightarrow> 'f \<Rightarrow> 'f \<Rightarrow> 'f" where
  "mergeField original modified server = (if modified = original then server else modified)"

definition createOwnerReference :: "string \<Rightarrow> string \<Rightarrow> string \<Rightarrow> string \<Rightarrow> ownerReference" where
  "createOwnerReference apiVersion kind name uid =
     \<lparr>or_APIVersion = apiVersion, or_Kind = kind, or_Name = name, or_UID = uid, or_Controller = True, or_BlockOwnerDeletion = True\<rparr>"

definition setOwnerReference :: "ownerReference \<Rightarrow> 'c crObject \<Rightarrow> 'c crObject" where
  "setOwnerReference ref x = x\<lparr>cr_ownerReferences := [ref]\<rparr>"

definition createK8sResource :: "backAnswers \<Rightarrow> 'c crObject \<Rightarrow> 'c objStore \<Rightarrow> string option \<times> 'c objStore" where
  "createK8sResource a x st =
     (case ba_create a (objKeyOf x) of
        Some err \<Rightarrow> (Some err, st)
      | None \<Rightarrow> (None, st(objKeyOf x \<mapsto> x\<lparr>cr_resourceVersion := ''''\<rparr>)))"

text \<open>The live objects of a spec table: id, name and namespace. A missing namespace does not scan and is skipped.\<close>

definition liveObjects :: "rowsOutcome \<Rightarrow> specTable \<Rightarrow> (string \<times> string \<times> string) list" where
  "liveObjects ro t =
     (let rows = filter (\<lambda>r. \<not> row_deleted r) (spec_rows t);
          seen = (case ro of AllRows \<Rightarrow> rows | LostAfter n \<Rightarrow> take n rows | QueryError _ \<Rightarrow> [] | ScanError _ \<Rightarrow> []) in
      map (\<lambda>r. (row_id r, so_Name (row_payload r), so_Namespace (row_payload r))) (filter (\<lambda>r. so_Namespace (row_payload r) \<noteq> '''') seen))"

section \<open>Policies\<close>

record clusterCompliance =
  cc_ComplianceState :: string
  cc_ClusterName :: string
  cc_ClusterNamespace :: string

record policyStatusContent =
  ps_uid :: string
  ps_Placement :: "(string \<times> string) list"
  ps_Status :: "clusterCompliance list"
  ps_ComplianceState :: string

definition dbEnumToPolicyComplianceState :: "(string, string) gomap" where
  "dbEnumToPolicyComplianceState = [(''compliant'', policiesv1_Compliant), (''non_compliant'', policiesv1_NonCompliant)]"

text \<open>A value that the map does not have reads as the empty string.\<close>

definition complianceInDB :: "string \<Rightarrow> string" where
  "complianceInDB s = (case map_of dbEnumToPolicyComplianceState s of None \<Rightarrow> '''' | Some x \<Rightarrow> x)"

definition getComplianceStatus :: "rowsOutcome \<Rightarrow> compliance_row list \<Rightarrow> string \<Rightarrow> dbError + clusterCompliance list \<times> bool" where
  "getComplianceStatus ro rows uid =
     (case readRows ro (sort_key (\<lambda>(p, c, h, e, s). (h, c)) (filter (\<lambda>(p, c, h, e, s). p = uid) rows)) of
        Inl err \<Rightarrow> Inl err
      | Inr found \<Rightarrow>
          Inr (map (\<lambda>(p, c, h, e, s). \<lparr>cc_ComplianceState = complianceInDB s, cc_ClusterName = c, cc_ClusterNamespace = c\<rparr>) found,
               list_ex (\<lambda>(p, c, h, e, s). complianceInDB s = policiesv1_NonCompliant) found))"

text \<open>\<open>policy\<close> is the policy as it was read, and the store is the server's when the patch arrives.\<close>

definition updateComplianceStatus :: "backAnswers \<Rightarrow> policyStatusContent crObject \<Rightarrow> clusterCompliance list \<Rightarrow> bool
    \<Rightarrow> policyStatusContent objStore \<Rightarrow> string option \<times> policyStatusContent objStore" where
  "updateComplianceStatus a policy compliancePerClusterStatuses hasNonCompliantClusters st =
     (let state = (if hasNonCompliantClusters then policiesv1_NonCompliant
                   else if 0 < length compliancePerClusterStatuses then policiesv1_Compliant else '''');
          key = objKeyOf policy in
      case ba_patch a key of
        Some (PatchFailed err) \<Rightarrow> (Some err, st)
      | Some PatchNotFound \<Rightarrow> (None, st)
      | None \<Rightarrow>
          (case st key of
             None \<Rightarrow> (None, st)
           | Some server \<Rightarrow>
               (None, st(key \<mapsto> server\<lparr>cr_content := (cr_content server)
                  \<lparr>ps_Status := mergeField (ps_Status (cr_content policy)) compliancePerClusterStatuses (ps_Status (cr_content server)),
                   ps_ComplianceState := mergeField (ps_ComplianceState (cr_content policy)) state (ps_ComplianceState (cr_content server))\<rparr>\<rparr>))))"

definition handlePolicy :: "backAnswers \<Rightarrow> (string \<Rightarrow> rowsOutcome) \<Rightarrow> compliance_row list \<Rightarrow> policyStatusContent crObject
    \<Rightarrow> policyStatusContent objStore \<Rightarrow> policyStatusContent objStore" where
  "handlePolicy a ro rows policy st =
     (case getComplianceStatus (ro (ps_uid (cr_content policy))) rows (ps_uid (cr_content policy)) of
        Inl err \<Rightarrow> st
      | Inr (statuses, hasNonCompliantClusters) \<Rightarrow> snd (updateComplianceStatus a policy statuses hasNonCompliantClusters st))"

text \<open>The policies are read in the loop, as \<open>cache\<close> has them; then their goroutines run in the order \<open>ord\<close>.\<close>

definition syncPolicies :: "backAnswers \<Rightarrow> rowsOutcome \<Rightarrow> (string \<Rightarrow> rowsOutcome) \<Rightarrow> (policyStatusContent crObject list \<Rightarrow> policyStatusContent crObject list)
    \<Rightarrow> specTable \<Rightarrow> compliance_row list \<Rightarrow> policyStatusContent objStore \<Rightarrow> policyStatusContent objStore \<Rightarrow> policyStatusContent objStore" where
  "syncPolicies a specRO ro ord spec rows cache st =
     (let found = List.map_filter (\<lambda>(uid, name, namespace). if ba_get a (namespace, name) \<noteq> None then None else cache (namespace, name)) (liveObjects specRO spec) in
      fold (handlePolicy a ro rows) (ord found) st)"

section \<open>Placement bindings\<close>

record bindingSubject =
  bs_APIGroup :: string
  bs_Kind :: string
  bs_Name :: string

record placementBinding =
  pb_name :: string
  pb_namespace :: string
  pb_placementRef :: string
  pb_subjects :: "bindingSubject list"

definition updatePolicyStatus :: "backAnswers \<Rightarrow> string \<Rightarrow> string \<Rightarrow> string \<Rightarrow> string \<Rightarrow> policyStatusContent objStore \<Rightarrow> string option \<times> policyStatusContent objStore" where
  "updatePolicyStatus a name namespace placementRule placementBindingName st =
     (case ba_get a (namespace, name) of
        Some err \<Rightarrow> (Some err, st)
      | None \<Rightarrow>
          (case st (namespace, name) of
             None \<Rightarrow> (Some ''not found'', st)
           | Some policy \<Rightarrow>
               if list_ex (\<lambda>(binding, rule). rule = placementRule) (ps_Placement (cr_content policy)) then (None, st)
               else (case ba_patch a (namespace, name) of
                       Some (PatchFailed err) \<Rightarrow> (Some err, st)
                     | Some PatchNotFound \<Rightarrow> (Some ''not found'', st)
                     | None \<Rightarrow>
                         (None, st((namespace, name) \<mapsto> policy\<lparr>cr_content := (cr_content policy)
                            \<lparr>ps_Placement := ps_Placement (cr_content policy) @ [(placementBindingName, placementRule)]\<rparr>\<rparr>)))))"

fun bindingLoop :: "backAnswers \<Rightarrow> placementBinding \<Rightarrow> bindingSubject list \<Rightarrow> policyStatusContent objStore \<Rightarrow> string option \<times> policyStatusContent objStore" where
  "bindingLoop a b [] st = (None, st)"
| "bindingLoop a b (subject # subjects) st =
     (if bs_APIGroup subject = policyGroup a \<and> bs_Kind subject = policyKind a
      then (case updatePolicyStatus a (bs_Name subject) (pb_namespace b) (pb_placementRef b) (pb_name b) st of
              (Some err, st') \<Rightarrow> (Some err, st')
            | (None, st') \<Rightarrow> bindingLoop a b subjects st')
      else bindingLoop a b subjects st)"

text \<open>\<open>got\<close> is the binding that the client reads, or an error, which is returned also for one that is gone.\<close>

definition binding_Reconcile :: "backAnswers \<Rightarrow> string + placementBinding \<Rightarrow> policyStatusContent objStore \<Rightarrow> string option \<times> policyStatusContent objStore" where
  "binding_Reconcile a got st = (case got of Inl err \<Rightarrow> (Some err, st) | Inr b \<Rightarrow> bindingLoop a b (pb_subjects b) st)"

text \<open>The event filter admits the bindings that are not local.\<close>

definition placementBindingPredicate :: "(string, string) gomap \<Rightarrow> bool" where
  "placementBindingPredicate labels \<longleftrightarrow> GlobalHubLocalResource \<notin> fst ` set labels"

section \<open>Placement rules and placements\<close>

text \<open>A row of a status table: the object as a leaf hub sent it.\<close>

definition ofName :: "string \<Rightarrow> string \<Rightarrow> 'c crObject \<Rightarrow> bool" where
  "ofName name namespace x \<longleftrightarrow> cr_name x = name \<and> cr_namespace x = namespace"

definition getPlacementRuleStatus :: "rowsOutcome \<Rightarrow> json list crObject list \<Rightarrow> string \<Rightarrow> string \<Rightarrow> dbError + json list \<times> bool" where
  "getPlacementRuleStatus ro rows name namespace =
     (case readRows ro (filter (ofName name namespace) rows) of
        Inl err \<Rightarrow> Inl err
      | Inr found \<Rightarrow> Inr (concat (map cr_content found), found \<noteq> []))"

definition updatePlacementRuleStatus :: "backAnswers \<Rightarrow> string \<Rightarrow> string \<Rightarrow> json list \<Rightarrow> json list objStore \<Rightarrow> string option \<times> json list objStore" where
  "updatePlacementRuleStatus a name namespace decisions st =
     (case ba_get a (namespace, name) of
        Some err \<Rightarrow> (Some err, st)
      | None \<Rightarrow>
          (case st (namespace, name) of
             None \<Rightarrow> (None, st)
           | Some deployed \<Rightarrow>
               (case ba_patch a (namespace, name) of
                  Some (PatchFailed err) \<Rightarrow> (Some err, st)
                | Some PatchNotFound \<Rightarrow> (None, st)
                | None \<Rightarrow> (None, st((namespace, name) \<mapsto> deployed\<lparr>cr_content := decisions\<rparr>)))))"

definition handlePlacementRuleStatus :: "backAnswers \<Rightarrow> rowsOutcome \<Rightarrow> json list crObject list \<Rightarrow> string \<times> string \<times> string \<Rightarrow> json list objStore \<Rightarrow> json list objStore" where
  "handlePlacementRuleStatus a ro rows = (\<lambda>(uid, name, namespace) st.
     case getPlacementRuleStatus ro rows name namespace of
       Inl err \<Rightarrow> st
     | Inr (decisions, statusEntriesFound) \<Rightarrow> if \<not> statusEntriesFound then st else snd (updatePlacementRuleStatus a name namespace decisions st))"

definition syncPlacementRules :: "backAnswers \<Rightarrow> rowsOutcome \<Rightarrow> rowsOutcome \<Rightarrow> ((string \<times> string \<times> string) list \<Rightarrow> (string \<times> string \<times> string) list)
    \<Rightarrow> specTable \<Rightarrow> json list crObject list \<Rightarrow> json list objStore \<Rightarrow> json list objStore" where
  "syncPlacementRules a specRO ro ord spec rows st = fold (handlePlacementRuleStatus a ro rows) (ord (liveObjects specRO spec)) st"

text \<open>The number of clusters of a placement is a 32-bit integer.\<close>

type_synonym int32 = "32 word"

definition getPlacementStatus :: "rowsOutcome \<Rightarrow> int32 crObject list \<Rightarrow> string \<Rightarrow> string \<Rightarrow> dbError + int32 \<times> bool" where
  "getPlacementStatus ro rows name namespace =
     (case readRows ro (filter (ofName name namespace) rows) of
        Inl err \<Rightarrow> Inl err
      | Inr found \<Rightarrow> Inr (fold (\<lambda>x n. n + cr_content x) found 0, found \<noteq> []))"

definition updatePlacementStatus :: "backAnswers \<Rightarrow> string \<Rightarrow> string \<Rightarrow> int32 \<Rightarrow> int32 objStore \<Rightarrow> string option \<times> int32 objStore" where
  "updatePlacementStatus a name namespace numberOfSelectedClusters st =
     (case ba_get a (namespace, name) of
        Some err \<Rightarrow> (Some err, st)
      | None \<Rightarrow>
          (case st (namespace, name) of
             None \<Rightarrow> (None, st)
           | Some deployed \<Rightarrow>
               (case ba_patch a (namespace, name) of
                  Some (PatchFailed err) \<Rightarrow> (Some err, st)
                | Some PatchNotFound \<Rightarrow> (None, st)
                | None \<Rightarrow> (None, st((namespace, name) \<mapsto> deployed\<lparr>cr_content := numberOfSelectedClusters\<rparr>)))))"

definition handlePlacementStatus :: "backAnswers \<Rightarrow> rowsOutcome \<Rightarrow> int32 crObject list \<Rightarrow> string \<times> string \<times> string \<Rightarrow> int32 objStore \<Rightarrow> int32 objStore" where
  "handlePlacementStatus a ro rows = (\<lambda>(uid, name, namespace) st.
     case getPlacementStatus ro rows name namespace of
       Inl err \<Rightarrow> st
     | Inr (n, statusEntriesFound) \<Rightarrow> if \<not> statusEntriesFound then st else snd (updatePlacementStatus a name namespace n st))"

definition syncPlacements :: "backAnswers \<Rightarrow> rowsOutcome \<Rightarrow> rowsOutcome \<Rightarrow> ((string \<times> string \<times> string) list \<Rightarrow> (string \<times> string \<times> string) list)
    \<Rightarrow> specTable \<Rightarrow> int32 crObject list \<Rightarrow> int32 objStore \<Rightarrow> int32 objStore" where
  "syncPlacements a specRO ro ord spec rows st = fold (handlePlacementStatus a ro rows) (ord (liveObjects specRO spec)) st"

section \<open>Placement decisions\<close>

text \<open>
  The query takes the decisions whose name begins with that of the placement; the pattern has no wildcard but its last,
  as the names of objects have none. The first row that has the label of the placement is copied, and the decisions of the
  others are appended.
\<close>

definition mergeDecision :: "backAnswers \<Rightarrow> string \<Rightarrow> json list crObject \<Rightarrow> json list crObject option \<Rightarrow> json list crObject option" where
  "mergeDecision a placementName x agg =
     (if map_of (cr_labels x) (PlacementLabel a) \<noteq> Some placementName then agg
      else (case agg of None \<Rightarrow> Some x | Some y \<Rightarrow> Some (y\<lparr>cr_content := cr_content y @ cr_content x\<rparr>)))"

definition getAggregatedPlacementDecisions :: "backAnswers \<Rightarrow> rowsOutcome \<Rightarrow> (json list crObject list \<Rightarrow> json list crObject list) \<Rightarrow> json list crObject list \<Rightarrow> string \<Rightarrow> string
    \<Rightarrow> dbError + json list crObject option" where
  "getAggregatedPlacementDecisions a ro arrive rows placementName placementNamespace =
     (case readRows ro (arrive (filter (\<lambda>x. prefix placementName (cr_name x) \<and> cr_namespace x = placementNamespace) rows)) of
        Inl err \<Rightarrow> Inl err
      | Inr found \<Rightarrow> Inr (fold (mergeDecision a placementName) found None))"

text \<open>An object that is not there is created; of one that is, the field is patched.\<close>

definition updatePlacementDecision :: "backAnswers \<Rightarrow> json list crObject \<Rightarrow> json list objStore \<Rightarrow> string option \<times> json list objStore" where
  "updatePlacementDecision a agg st =
     (let key = objKeyOf agg in
      case ba_get a key of
        Some err \<Rightarrow> (Some err, st)
      | None \<Rightarrow>
          (case st key of
             None \<Rightarrow> createK8sResource a agg st
           | Some deployed \<Rightarrow>
               (case ba_patch a key of
                  Some (PatchFailed err) \<Rightarrow> (Some err, st)
                | Some PatchNotFound \<Rightarrow> (None, st)
                | None \<Rightarrow> (None, st(key \<mapsto> deployed\<lparr>cr_content := cr_content agg\<rparr>)))))"

definition handlePlacementDecision :: "backAnswers \<Rightarrow> rowsOutcome \<Rightarrow> (json list crObject list \<Rightarrow> json list crObject list) \<Rightarrow> json list crObject list
    \<Rightarrow> string \<times> string \<times> string \<Rightarrow> json list objStore \<Rightarrow> json list objStore" where
  "handlePlacementDecision a ro arrive rows = (\<lambda>(uid, name, namespace) st.
     case getAggregatedPlacementDecisions a ro arrive rows name namespace of
       Inl err \<Rightarrow> st
     | Inr None \<Rightarrow> st
     | Inr (Some agg) \<Rightarrow>
         snd (updatePlacementDecision a (setOwnerReference (createOwnerReference ''cluster.open-cluster-management.io/v1beta1'' ''Placement'' name uid) agg) st))"

definition syncPlacementDecisions :: "backAnswers \<Rightarrow> rowsOutcome \<Rightarrow> rowsOutcome \<Rightarrow> (json list crObject list \<Rightarrow> json list crObject list)
    \<Rightarrow> ((string \<times> string \<times> string) list \<Rightarrow> (string \<times> string \<times> string) list) \<Rightarrow> specTable \<Rightarrow> json list crObject list \<Rightarrow> json list objStore \<Rightarrow> json list objStore" where
  "syncPlacementDecisions a specRO ro arrive ord spec rows st = fold (handlePlacementDecision a ro arrive rows) (ord (liveObjects specRO spec)) st"

section \<open>Subscription statuses\<close>

definition cleanSubscriptionStatusObject :: "backAnswers \<Rightarrow> json list crObject \<Rightarrow> json list crObject" where
  "cleanSubscriptionStatusObject a x = x\<lparr>cr_annotations := [], cr_labels := [(AnnotationHosting a, cr_namespace x @ ''.'' @ cr_name x)]\<rparr>"

definition mergeStatus :: "backAnswers \<Rightarrow> json list crObject \<Rightarrow> json list crObject option \<Rightarrow> json list crObject option" where
  "mergeStatus a x agg = (case agg of None \<Rightarrow> Some (cleanSubscriptionStatusObject a x) | Some y \<Rightarrow> Some (y\<lparr>cr_content := cr_content y @ cr_content x\<rparr>))"

definition getAggregatedSubscriptionStatuses :: "backAnswers \<Rightarrow> rowsOutcome \<Rightarrow> json list crObject list \<Rightarrow> string \<Rightarrow> string \<Rightarrow> dbError + json list crObject option" where
  "getAggregatedSubscriptionStatuses a ro rows name namespace =
     (case readRows ro (filter (ofName name namespace) rows) of
        Inl err \<Rightarrow> Inl err
      | Inr found \<Rightarrow> Inr (fold (mergeStatus a) found None))"

definition updateSubscriptionStatus :: "backAnswers \<Rightarrow> json list crObject \<Rightarrow> json list objStore \<Rightarrow> string option \<times> json list objStore" where
  "updateSubscriptionStatus a agg st =
     (let key = objKeyOf agg in
      case ba_get a key of
        Some err \<Rightarrow> (Some err, st)
      | None \<Rightarrow>
          (case st key of
             None \<Rightarrow> createK8sResource a agg st
           | Some deployed \<Rightarrow>
               (case ba_patch a key of
                  Some (PatchFailed err) \<Rightarrow> (Some err, st)
                | Some PatchNotFound \<Rightarrow> (None, st)
                | None \<Rightarrow> (None, st(key \<mapsto> deployed\<lparr>cr_content := cr_content agg\<rparr>)))))"

definition handleSubscriptionStatus :: "backAnswers \<Rightarrow> rowsOutcome \<Rightarrow> json list crObject list \<Rightarrow> string \<times> string \<times> string \<Rightarrow> json list objStore \<Rightarrow> json list objStore" where
  "handleSubscriptionStatus a ro rows = (\<lambda>(uid, name, namespace) st.
     case getAggregatedSubscriptionStatuses a ro rows name namespace of
       Inl err \<Rightarrow> st
     | Inr None \<Rightarrow> st
     | Inr (Some agg) \<Rightarrow>
         snd (updateSubscriptionStatus a (setOwnerReference (createOwnerReference ''apps.open-cluster-management.io/v1'' ''Subscription'' name uid) agg) st))"

definition syncSubscriptionStatuses :: "backAnswers \<Rightarrow> rowsOutcome \<Rightarrow> rowsOutcome \<Rightarrow> ((string \<times> string \<times> string) list \<Rightarrow> (string \<times> string \<times> string) list)
    \<Rightarrow> specTable \<Rightarrow> json list crObject list \<Rightarrow> json list objStore \<Rightarrow> json list objStore" where
  "syncSubscriptionStatuses a specRO ro ord spec rows st = fold (handleSubscriptionStatus a ro rows) (ord (liveObjects specRO spec)) st"

section \<open>Subscription reports\<close>

text \<open>\<open>strconv.Atoi\<close>: an optional sign and decimal digits, in the range of a 64-bit integer.\<close>

definition digitValue :: "char \<Rightarrow> int" where
  "digitValue c = int (of_char c) - 48"

definition isDigit :: "char \<Rightarrow> bool" where
  "isDigit c \<longleftrightarrow> (let n = (of_char c :: nat) in 48 \<le> n \<and> n \<le> 57)"

definition digitsValue :: "string \<Rightarrow> int option" where
  "digitsValue s = (if s \<noteq> [] \<and> list_all isDigit s then Some (foldl (\<lambda>n c. 10 * n + digitValue c) 0 s) else None)"

definition atoi :: "string \<Rightarrow> int option" where
  "atoi s =
     (let v = (case s of
                 [] \<Rightarrow> None
               | c # cs \<Rightarrow> if c = CHR ''-'' then map_option uminus (digitsValue cs) else if c = CHR ''+'' then digitsValue cs else digitsValue s) in
      case v of None \<Rightarrow> None | Some n \<Rightarrow> if - (2 ^ 63) \<le> n \<and> n < 2 ^ 63 then Some n else None)"

definition stringToInt :: "string \<Rightarrow> int64" where
  "stringToInt numberString = (case atoi numberString of Some n \<Rightarrow> word_of_int n | None \<Rightarrow> 0)"

definition itoaInt :: "int \<Rightarrow> string" where
  "itoaInt n = (if n < 0 then CHR ''-'' # itoa (nat (- n)) else itoa (nat n))"

definition add :: "string \<Rightarrow> string \<Rightarrow> string" where
  "add number1 number2 = itoaInt (sint (stringToInt number1 + stringToInt number2))"

record reportSummary =
  rs_Deployed :: string
  rs_InProgress :: string
  rs_Failed :: string
  rs_PropagationFailed :: string
  rs_Clusters :: string

definition updateSubscriptionReportSummary :: "reportSummary \<Rightarrow> reportSummary \<Rightarrow> reportSummary" where
  "updateSubscriptionReportSummary aggregatedSummary reportSummary =
     \<lparr>rs_Deployed = add (rs_Deployed aggregatedSummary) (rs_Deployed reportSummary),
      rs_InProgress = add (rs_InProgress aggregatedSummary) (rs_InProgress reportSummary),
      rs_Failed = add (rs_Failed aggregatedSummary) (rs_Failed reportSummary),
      rs_PropagationFailed = add (rs_PropagationFailed aggregatedSummary) (rs_PropagationFailed reportSummary),
      rs_Clusters = add (rs_Clusters aggregatedSummary) (rs_Clusters reportSummary)\<rparr>"

type_synonym reportContent = "reportSummary \<times> json list"

definition cleanSubscriptionReportObject :: "backAnswers \<Rightarrow> reportContent crObject \<Rightarrow> reportContent crObject" where
  "cleanSubscriptionReportObject a x = x\<lparr>cr_annotations := [], cr_labels := [(AnnotationHosting a, cr_namespace x @ ''.'' @ cr_name x)]\<rparr>"

definition mergeReport :: "backAnswers \<Rightarrow> reportContent crObject \<Rightarrow> reportContent crObject option \<Rightarrow> reportContent crObject option" where
  "mergeReport a x agg =
     (case agg of
        None \<Rightarrow> Some (cleanSubscriptionReportObject a x)
      | Some y \<Rightarrow> Some (y\<lparr>cr_content := (updateSubscriptionReportSummary (fst (cr_content y)) (fst (cr_content x)), snd (cr_content y) @ snd (cr_content x))\<rparr>))"

definition getAggregatedSubscriptionReport :: "backAnswers \<Rightarrow> rowsOutcome \<Rightarrow> reportContent crObject list \<Rightarrow> string \<Rightarrow> string \<Rightarrow> dbError + reportContent crObject option" where
  "getAggregatedSubscriptionReport a ro rows name namespace =
     (case readRows ro (filter (ofName name namespace) rows) of
        Inl err \<Rightarrow> Inl err
      | Inr found \<Rightarrow> Inr (fold (mergeReport a) found None))"

text \<open>Other than for the statuses, a patch that finds the report gone is an error.\<close>

definition updateSubscriptionReport :: "backAnswers \<Rightarrow> reportContent crObject \<Rightarrow> reportContent objStore \<Rightarrow> string option \<times> reportContent objStore" where
  "updateSubscriptionReport a agg st =
     (let key = objKeyOf agg in
      case ba_get a key of
        Some err \<Rightarrow> (Some err, st)
      | None \<Rightarrow>
          (case st key of
             None \<Rightarrow> createK8sResource a agg st
           | Some deployed \<Rightarrow>
               (case ba_patch a key of
                  Some (PatchFailed err) \<Rightarrow> (Some err, st)
                | Some PatchNotFound \<Rightarrow> (Some ''not found'', st)
                | None \<Rightarrow> (None, st(key \<mapsto> deployed\<lparr>cr_content := cr_content agg\<rparr>)))))"

definition handleSubscriptionReport :: "backAnswers \<Rightarrow> rowsOutcome \<Rightarrow> reportContent crObject list \<Rightarrow> string \<times> string \<times> string \<Rightarrow> reportContent objStore \<Rightarrow> reportContent objStore" where
  "handleSubscriptionReport a ro rows = (\<lambda>(uid, name, namespace) st.
     case getAggregatedSubscriptionReport a ro rows name namespace of
       Inl err \<Rightarrow> st
     | Inr None \<Rightarrow> st
     | Inr (Some agg) \<Rightarrow>
         snd (updateSubscriptionReport a (setOwnerReference (createOwnerReference ''apps.open-cluster-management.io/v1'' ''Subscription'' name uid) agg) st))"

definition syncSubscriptionReports :: "backAnswers \<Rightarrow> rowsOutcome \<Rightarrow> rowsOutcome \<Rightarrow> ((string \<times> string \<times> string) list \<Rightarrow> (string \<times> string \<times> string) list)
    \<Rightarrow> specTable \<Rightarrow> reportContent crObject list \<Rightarrow> reportContent objStore \<Rightarrow> reportContent objStore" where
  "syncSubscriptionReports a specRO ro ord spec rows st = fold (handleSubscriptionReport a ro rows) (ord (liveObjects specRO spec)) st"

section \<open>Decimal numbers\<close>

lemma isDigit_digit: "isDigit (digit n)"
  using digit_range [of n] by (simp add: isDigit_def)

lemma digitValue_digit: "digitValue (digit n) = int (n mod 10)"
  by (simp add: digitValue_def of_char_digit)

lemma digitsValue_itoa: "digitsValue (itoa n) = Some (int n)"
proof -
  have "list_all isDigit (itoa n) \<and> foldl (\<lambda>k c. 10 * k + digitValue c) 0 (itoa n) = int n"
  proof (induction n rule: itoa.induct)
    case (1 n)
    show ?case
    proof (cases "n < 10")
      case True
      then show ?thesis by (subst (1 2) itoa.simps) (simp add: isDigit_digit digitValue_digit)
    next
      case False
      then have "list_all isDigit (itoa (n div 10)) \<and> foldl (\<lambda>k c. 10 * k + digitValue c) 0 (itoa (n div 10)) = int (n div 10)" by (rule "1.IH")
      then show ?thesis using False by (subst (1 2) itoa.simps) (simp add: isDigit_digit digitValue_digit zdiv_int zmod_int)
    qed
  qed
  then show ?thesis by (simp add: digitsValue_def)
qed

end
