(* ===== verification/GH_StatusBackProps.thy ===== *)
theory GH_StatusBackProps
  imports GH_StatusBack GH_EndToEnd
begin

text \<open>
  What a pass of the syncers leaves on the global hub: every goroutine changes its own object only, so the order in which they
  run does not matter, and every object gets the aggregate of what the leaf hubs reported of it. For the policies this closes
  the path from the events on the leaf hubs to the status a user sees.
\<close>

section \<open>Goroutines with objects of their own\<close>

text \<open>A handler that changes one object, as a function of that object.\<close>

locale object_handler =
  fixes handle :: "'j \<Rightarrow> ('k \<rightharpoonup> 'o) \<Rightarrow> ('k \<rightharpoonup> 'o)" and key :: "'j \<Rightarrow> 'k" and effect :: "'j \<Rightarrow> 'o option \<Rightarrow> 'o option"
  assumes own_object: "handle j st = st(key j := effect j (st (key j)))"
begin

lemma other_object: "k \<notin> key ` set js \<Longrightarrow> fold handle js st k = st k"
  by (induction js arbitrary: st) (simp_all add: own_object)

lemma each_object: "distinct (map key js) \<Longrightarrow> j \<in> set js \<Longrightarrow> fold handle js st (key j) = effect j (st (key j))"
proof (induction js arbitrary: st)
  case (Cons x xs)
  show ?case
  proof (cases "j = x")
    case True
    then have "key j \<notin> key ` set xs" using Cons.prems(1) by simp
    then have "fold handle xs (handle x st) (key j) = handle x st (key j)" by (rule other_object)
    also have "\<dots> = effect x (st (key x))" by (simp add: own_object True)
    finally show ?thesis by (simp add: True)
  next
    case False
    then have "j \<in> set xs" using Cons.prems(2) by simp
    moreover have "key j \<noteq> key x" using Cons.prems(1) imageI [OF \<open>j \<in> set xs\<close>, of key] by auto
    ultimately show ?thesis using Cons by (simp add: own_object)
  qed
qed simp

lemma any_order:
  assumes "mset (ord js) = mset js" and "distinct (map key js)"
  shows "fold handle (ord js) st = fold handle js st"
proof
  fix k
  have set: "set (ord js) = set js" by (rule mset_eq_setD [OF assms(1)])
  have dist: "distinct (map key (ord js))"
    using assms mset_eq_imp_distinct_iff [of "map key (ord js)" "map key js"] by simp
  show "fold handle (ord js) st k = fold handle js st k"
  proof (cases "k \<in> key ` set js")
    case True
    then obtain j where j: "j \<in> set js" "k = key j" by blast
    then show ?thesis using each_object [OF assms(2) j(1)] each_object [OF dist] set by simp
  next
    case False
    then show ?thesis using set by (simp add: other_object)
  qed
qed

end

definition rowKey :: "string \<times> string \<times> string \<Rightarrow> objKey" where
  "rowKey = (\<lambda>(uid, name, namespace). (namespace, name))"

section \<open>Policies\<close>

definition wantedState :: "clusterCompliance list \<times> bool \<Rightarrow> string" where
  "wantedState = (\<lambda>(statuses, nonCompliant). if nonCompliant then policiesv1_NonCompliant else if 0 < length statuses then policiesv1_Compliant else '''')"

definition policyEffect :: "backAnswers \<Rightarrow> (string \<Rightarrow> rowsOutcome) \<Rightarrow> compliance_row list \<Rightarrow> policyStatusContent crObject
    \<Rightarrow> policyStatusContent crObject option \<Rightarrow> policyStatusContent crObject option" where
  "policyEffect a ro rows policy server =
     (case getComplianceStatus (ro (ps_uid (cr_content policy))) rows (ps_uid (cr_content policy)) of
        Inl err \<Rightarrow> server
      | Inr w \<Rightarrow>
          if ba_patch a (objKeyOf policy) \<noteq> None then server
          else map_option (\<lambda>x. x\<lparr>cr_content := (cr_content x)
             \<lparr>ps_Status := mergeField (ps_Status (cr_content policy)) (fst w) (ps_Status (cr_content x)),
              ps_ComplianceState := mergeField (ps_ComplianceState (cr_content policy)) (wantedState w) (ps_ComplianceState (cr_content x))\<rparr>\<rparr>) server)"

interpretation policies: object_handler "handlePolicy a ro rows" objKeyOf "policyEffect a ro rows" for a ro rows
proof
  fix j :: "policyStatusContent crObject" and st :: "policyStatusContent objStore"
  have "snd (updateComplianceStatus a j ss b st) = st(objKeyOf j := if ba_patch a (objKeyOf j) \<noteq> None then st (objKeyOf j)
      else map_option (\<lambda>x. x\<lparr>cr_content := (cr_content x)
         \<lparr>ps_Status := mergeField (ps_Status (cr_content j)) ss (ps_Status (cr_content x)),
          ps_ComplianceState := mergeField (ps_ComplianceState (cr_content j)) (wantedState (ss, b)) (ps_ComplianceState (cr_content x))\<rparr>\<rparr>) (st (objKeyOf j)))" for ss b
    by (simp add: updateComplianceStatus_def wantedState_def Let_def fun_upd_idem split: option.split patchFailure.split)
  then show "handlePolicy a ro rows j st = st(objKeyOf j := policyEffect a ro rows j (st (objKeyOf j)))"
    by (auto simp: handlePolicy_def policyEffect_def split: sum.split)
qed

section \<open>Placement rules, placements, subscriptions\<close>

definition ruleEffect :: "backAnswers \<Rightarrow> rowsOutcome \<Rightarrow> json list crObject list \<Rightarrow> string \<times> string \<times> string \<Rightarrow> json list crObject option \<Rightarrow> json list crObject option" where
  "ruleEffect a ro rows j server =
     (case getPlacementRuleStatus ro rows (fst (snd j)) (snd (snd j)) of
        Inr (decisions, True) \<Rightarrow>
          if ba_get a (rowKey j) \<noteq> None \<or> ba_patch a (rowKey j) \<noteq> None then server else map_option (\<lambda>x. x\<lparr>cr_content := decisions\<rparr>) server
      | _ \<Rightarrow> server)"

interpretation rules: object_handler "handlePlacementRuleStatus a ro rows" rowKey "ruleEffect a ro rows" for a ro rows
  by unfold_locales
     (auto simp: handlePlacementRuleStatus_def ruleEffect_def rowKey_def updatePlacementRuleStatus_def fun_upd_idem
       split: sum.split option.split patchFailure.split bool.split)

definition placementEffect :: "backAnswers \<Rightarrow> rowsOutcome \<Rightarrow> int32 crObject list \<Rightarrow> string \<times> string \<times> string \<Rightarrow> int32 crObject option \<Rightarrow> int32 crObject option" where
  "placementEffect a ro rows j server =
     (case getPlacementStatus ro rows (fst (snd j)) (snd (snd j)) of
        Inr (n, True) \<Rightarrow>
          if ba_get a (rowKey j) \<noteq> None \<or> ba_patch a (rowKey j) \<noteq> None then server else map_option (\<lambda>x. x\<lparr>cr_content := n\<rparr>) server
      | _ \<Rightarrow> server)"

interpretation placements: object_handler "handlePlacementStatus a ro rows" rowKey "placementEffect a ro rows" for a ro rows
  by unfold_locales
     (auto simp: handlePlacementStatus_def placementEffect_def rowKey_def updatePlacementStatus_def fun_upd_idem
       split: sum.split option.split patchFailure.split bool.split)

lemma merged_key:
  assumes "\<And>x agg. case f x agg of None \<Rightarrow> False | Some y \<Rightarrow> (case agg of None \<Rightarrow> objKeyOf y = objKeyOf x | Some z \<Rightarrow> objKeyOf y = objKeyOf z)"
    and "\<forall>x\<in>set xs. objKeyOf x = k" and "fold f xs agg = Some y" and "\<And>z. agg = Some z \<Longrightarrow> objKeyOf z = k"
  shows "objKeyOf y = k"
  using assms(2-4)
proof (induction xs arbitrary: agg)
  case (Cons x xs)
  obtain y' where y': "f x agg = Some y'" using assms(1) [of x agg] by (cases "f x agg") auto
  have "objKeyOf y' = k" using assms(1) [of x agg, unfolded y'] Cons.prems(1,3) by (cases agg) simp_all
  with Cons.prems show ?case by (intro Cons.IH [of "Some y'"]) (auto simp: y')
qed simp

lemma readRows_subset: "readRows ro xs = Inr ys \<Longrightarrow> set ys \<subseteq> set xs"
  by (auto simp: readRows_def split: rowsOutcome.splits dest: in_set_takeD)

lemma ofName_key: "ofName name namespace x \<Longrightarrow> objKeyOf x = (namespace, name)"
  by (simp add: ofName_def objKeyOf_def)

lemma status_key: "getAggregatedSubscriptionStatuses a ro rows name namespace = Inr (Some agg) \<Longrightarrow> objKeyOf agg = (namespace, name)"
proof -
  assume "getAggregatedSubscriptionStatuses a ro rows name namespace = Inr (Some agg)"
  then obtain found where f: "readRows ro (filter (ofName name namespace) rows) = Inr found" "fold (mergeStatus a) found None = Some agg"
    by (auto simp: getAggregatedSubscriptionStatuses_def split: sum.splits)
  show ?thesis
    by (rule merged_key [OF _ _ f(2)])
       (use readRows_subset [OF f(1)] in \<open>auto simp: mergeStatus_def cleanSubscriptionStatusObject_def objKeyOf_def ofName_def split: option.split\<close>)
qed

lemma report_key: "getAggregatedSubscriptionReport a ro rows name namespace = Inr (Some agg) \<Longrightarrow> objKeyOf agg = (namespace, name)"
proof -
  assume "getAggregatedSubscriptionReport a ro rows name namespace = Inr (Some agg)"
  then obtain found where f: "readRows ro (filter (ofName name namespace) rows) = Inr found" "fold (mergeReport a) found None = Some agg"
    by (auto simp: getAggregatedSubscriptionReport_def split: sum.splits)
  show ?thesis
    by (rule merged_key [OF _ _ f(2)])
       (use readRows_subset [OF f(1)] in \<open>auto simp: mergeReport_def cleanSubscriptionReportObject_def objKeyOf_def ofName_def split: option.split\<close>)
qed

text \<open>An object that the aggregate replaces or creates.\<close>

definition deployEffect :: "backAnswers \<Rightarrow> objKey \<Rightarrow> 'c crObject \<Rightarrow> 'c crObject option \<Rightarrow> 'c crObject option" where
  "deployEffect a k agg server =
     (if ba_get a k \<noteq> None then server
      else (case server of
              None \<Rightarrow> if ba_create a k \<noteq> None then None else Some (agg\<lparr>cr_resourceVersion := ''''\<rparr>)
            | Some x \<Rightarrow> if ba_patch a k \<noteq> None then Some x else Some (x\<lparr>cr_content := cr_content agg\<rparr>)))"

lemma updateSubscriptionStatus_effect: "objKeyOf agg = k \<Longrightarrow> snd (updateSubscriptionStatus a agg st) = st(k := deployEffect a k agg (st k))"
  by (auto simp: updateSubscriptionStatus_def deployEffect_def createK8sResource_def Let_def fun_upd_idem split: option.split patchFailure.split)

lemma updateSubscriptionReport_effect: "objKeyOf agg = k \<Longrightarrow> snd (updateSubscriptionReport a agg st) = st(k := deployEffect a k agg (st k))"
  by (auto simp: updateSubscriptionReport_def deployEffect_def createK8sResource_def Let_def fun_upd_idem split: option.split patchFailure.split)

definition statusEffect :: "backAnswers \<Rightarrow> rowsOutcome \<Rightarrow> json list crObject list \<Rightarrow> string \<times> string \<times> string \<Rightarrow> json list crObject option \<Rightarrow> json list crObject option" where
  "statusEffect a ro rows j server =
     (case getAggregatedSubscriptionStatuses a ro rows (fst (snd j)) (snd (snd j)) of
        Inr (Some agg) \<Rightarrow> deployEffect a (rowKey j) (setOwnerReference (createOwnerReference ''apps.open-cluster-management.io/v1'' ''Subscription'' (fst (snd j)) (fst j)) agg) server
      | _ \<Rightarrow> server)"

lemma setOwnerReference_key [simp]: "objKeyOf (setOwnerReference ref x) = objKeyOf x"
  by (simp add: setOwnerReference_def objKeyOf_def)

interpretation statuses: object_handler "handleSubscriptionStatus a ro rows" rowKey "statusEffect a ro rows" for a ro rows
proof
  fix j :: "string \<times> string \<times> string" and st :: "json list objStore"
  obtain uid name namespace where j: "j = (uid, name, namespace)" using prod_cases3 by blast
  show "handleSubscriptionStatus a ro rows j st = st(rowKey j := statusEffect a ro rows j (st (rowKey j)))"
    using status_key [of a ro rows name namespace]
    by (cases "getAggregatedSubscriptionStatuses a ro rows name namespace")
       (auto simp: j handleSubscriptionStatus_def statusEffect_def rowKey_def updateSubscriptionStatus_effect split: option.split)
qed

definition reportEffect :: "backAnswers \<Rightarrow> rowsOutcome \<Rightarrow> reportContent crObject list \<Rightarrow> string \<times> string \<times> string \<Rightarrow> reportContent crObject option \<Rightarrow> reportContent crObject option" where
  "reportEffect a ro rows j server =
     (case getAggregatedSubscriptionReport a ro rows (fst (snd j)) (snd (snd j)) of
        Inr (Some agg) \<Rightarrow> deployEffect a (rowKey j) (setOwnerReference (createOwnerReference ''apps.open-cluster-management.io/v1'' ''Subscription'' (fst (snd j)) (fst j)) agg) server
      | _ \<Rightarrow> server)"

interpretation reports: object_handler "handleSubscriptionReport a ro rows" rowKey "reportEffect a ro rows" for a ro rows
proof
  fix j :: "string \<times> string \<times> string" and st :: "reportContent objStore"
  obtain uid name namespace where j: "j = (uid, name, namespace)" using prod_cases3 by blast
  show "handleSubscriptionReport a ro rows j st = st(rowKey j := reportEffect a ro rows j (st (rowKey j)))"
    using report_key [of a ro rows name namespace]
    by (cases "getAggregatedSubscriptionReport a ro rows name namespace")
       (auto simp: j handleSubscriptionReport_def reportEffect_def rowKey_def updateSubscriptionReport_effect split: option.split)
qed

section \<open>The status of the policies\<close>

text \<open>What the compliance table says of a policy: one entry per row, and the state over all of them.\<close>

definition clusterEntry :: "compliance_row \<Rightarrow> clusterCompliance" where
  "clusterEntry = (\<lambda>(p, c, h, e, s). \<lparr>cc_ComplianceState = complianceInDB s, cc_ClusterName = c, cc_ClusterNamespace = c\<rparr>)"

definition row_policy :: "compliance_row \<Rightarrow> string" where
  "row_policy = (\<lambda>(p, c, h, e, s). p)"

definition shows_compliance :: "compliance_row list \<Rightarrow> policyStatusContent \<Rightarrow> bool" where
  "shows_compliance rows content \<longleftrightarrow>
     (let mine = filter (\<lambda>r. row_policy r = ps_uid content) rows in
      mset (ps_Status content) = image_mset clusterEntry (mset mine)
      \<and> ps_ComplianceState content =
          (if \<exists>r\<in>set mine. cc_ComplianceState (clusterEntry r) = policiesv1_NonCompliant then policiesv1_NonCompliant
           else if mine \<noteq> [] then policiesv1_Compliant else ''''))"

definition same_but_status :: "policyStatusContent crObject \<Rightarrow> policyStatusContent crObject \<Rightarrow> bool" where
  "same_but_status x y \<longleftrightarrow> x\<lparr>cr_content := (cr_content x)\<lparr>ps_Status := [], ps_ComplianceState := ''''\<rparr>\<rparr> = y\<lparr>cr_content := (cr_content y)\<lparr>ps_Status := [], ps_ComplianceState := ''''\<rparr>\<rparr>"

lemma getComplianceStatus_rows:
  "getComplianceStatus AllRows rows uid =
     Inr (map clusterEntry (sort_key (\<lambda>(p, c, h, e, s). (h, c)) (filter (\<lambda>r. row_policy r = uid) rows)),
          \<exists>r\<in>set (filter (\<lambda>r. row_policy r = uid) rows). cc_ComplianceState (clusterEntry r) = policiesv1_NonCompliant)"
proof -
  have "filter (\<lambda>(p, c, h, e, s). p = uid) rows = filter (\<lambda>r. row_policy r = uid) rows"
    by (rule filter_cong) (auto simp: row_policy_def)
  then show ?thesis
    by (auto simp: getComplianceStatus_def readRows_def clusterEntry_def list_ex_iff intro!: bexI)
qed

lemma policyEffect_shows:
  assumes "ba_patch a (objKeyOf x) = None"
  shows "\<exists>y. policyEffect a (\<lambda>_. AllRows) rows x (Some x) = Some y \<and> shows_compliance rows (cr_content y) \<and> same_but_status x y"
proof -
  let ?w = "(map clusterEntry (sort_key (\<lambda>(p, c, h, e, s). (h, c)) (filter (\<lambda>r. row_policy r = ps_uid (cr_content x)) rows)),
          \<exists>r\<in>set (filter (\<lambda>r. row_policy r = ps_uid (cr_content x)) rows). cc_ComplianceState (clusterEntry r) = policiesv1_NonCompliant)"
  let ?y = "x\<lparr>cr_content := (cr_content x)\<lparr>ps_Status := fst ?w, ps_ComplianceState := wantedState ?w\<rparr>\<rparr>"
  have merge: "mergeField f v f = v" for f v :: 'z by (simp add: mergeField_def)
  have "policyEffect a (\<lambda>_. AllRows) rows x (Some x) = Some ?y"
    by (simp add: policyEffect_def getComplianceStatus_rows assms merge del: filter_sort)
  moreover have "shows_compliance rows (cr_content ?y)"
    by (auto simp: shows_compliance_def wantedState_def Let_def filter_empty_conv simp del: split_paired_Ex split_paired_All)
  moreover have "same_but_status x ?y" by (simp add: same_but_status_def)
  ultimately show ?thesis by blast
qed

lemma found_keys:
  assumes "\<And>k x. st k = Some x \<Longrightarrow> objKeyOf x = k"
  shows "map objKeyOf (List.map_filter (\<lambda>j. st (rowKey j)) js) = filter (\<lambda>k. st k \<noteq> None) (map rowKey js)"
  using assms by (induction js) (auto simp: List.map_filter_def)

lemma found_set: "x \<in> set (List.map_filter f js) \<longleftrightarrow> (\<exists>j\<in>set js. f j = Some x)"
  by (force simp: List.map_filter_def)

lemma syncPolicies_found:
  assumes "\<And>k. ba_get a k = None"
  shows "syncPolicies a AllRows ro ord spec rows cache st = fold (handlePolicy a ro rows) (ord (List.map_filter (\<lambda>j. cache (rowKey j)) (liveObjects AllRows spec))) st"
proof -
  have "(\<lambda>(uid, name, namespace). if ba_get a (namespace, name) \<noteq> None then None else cache (namespace, name)) = (\<lambda>j. cache (rowKey j))"
    by (auto simp: fun_eq_iff rowKey_def assms)
  then show ?thesis by (simp add: syncPolicies_def)
qed

lemma synced_policies:
  assumes calls: "\<And>k. ba_get a k = None" "\<And>k. ba_patch a k = None" and ord: "\<And>xs. mset (ord xs) = mset xs"
    and keys: "\<And>k x. st k = Some x \<Longrightarrow> objKeyOf x = k" and dist: "distinct (map rowKey (liveObjects AllRows spec))"
    and sync: "st' = syncPolicies a AllRows (\<lambda>_. AllRows) ord spec rows st st"
  shows "k \<in> rowKey ` set (liveObjects AllRows spec) \<Longrightarrow> st k = Some x \<Longrightarrow> \<exists>y. st' k = Some y \<and> shows_compliance rows (cr_content y) \<and> same_but_status x y"
    and "k \<notin> rowKey ` set (liveObjects AllRows spec) \<or> st k = None \<Longrightarrow> st' k = st k"
proof -
  let ?found = "List.map_filter (\<lambda>j. st (rowKey j)) (liveObjects AllRows spec)"
  have fkeys: "map objKeyOf ?found = filter (\<lambda>k. st k \<noteq> None) (map rowKey (liveObjects AllRows spec))"
    by (rule found_keys [OF keys])
  have fdist: "distinct (map objKeyOf ?found)" unfolding fkeys by (rule distinct_filter [OF dist])
  have st': "st' = fold (handlePolicy a (\<lambda>_. AllRows) rows) ?found st"
    unfolding sync syncPolicies_found [OF calls(1)] by (rule policies.any_order [where ord = ord, OF ord fdist])
  have set: "objKeyOf ` set ?found = {k \<in> rowKey ` set (liveObjects AllRows spec). st k \<noteq> None}"
    using arg_cong [OF fkeys, of set] by auto
  { assume "k \<in> rowKey ` set (liveObjects AllRows spec)" "st k = Some x"
    then have "x \<in> set ?found" "objKeyOf x = k" using keys by (auto simp: found_set)
    then show "\<exists>y. st' k = Some y \<and> shows_compliance rows (cr_content y) \<and> same_but_status x y"
      using policies.each_object [where a = a and ro = "\<lambda>_. AllRows" and rows = rows and st = st and j = x, OF fdist] policyEffect_shows [where a = a and x = x and rows = rows, OF calls(2)] \<open>st k = Some x\<close>
      by (auto simp: st') }
  { assume "k \<notin> rowKey ` set (liveObjects AllRows spec) \<or> st k = None"
    then have "k \<notin> objKeyOf ` set ?found" using set by auto
    then show "st' k = st k" unfolding st' by (rule policies.other_object) }
qed

text \<open>C16. A pass of the policy syncer in which nothing fails gives every live policy the status that the compliance table says:
  one entry for every row of the policy, of all leaf hubs, and the state over all of them. It changes nothing else of these
  policies and no other policy, whatever the order in which the goroutines run.\<close>

theorem policy_status_synced:
  assumes "\<And>k. ba_get a k = None" and "\<And>k. ba_patch a k = None" and "\<And>xs. mset (ord xs) = mset xs"
    and "\<And>k x. st k = Some x \<Longrightarrow> objKeyOf x = k" and "distinct (map rowKey (liveObjects AllRows spec))"
  shows "case st k of
           None \<Rightarrow> syncPolicies a AllRows (\<lambda>_. AllRows) ord spec rows st st k = None
         | Some x \<Rightarrow>
             if k \<in> rowKey ` set (liveObjects AllRows spec)
             then (\<exists>y. syncPolicies a AllRows (\<lambda>_. AllRows) ord spec rows st st k = Some y \<and> shows_compliance rows (cr_content y) \<and> same_but_status x y)
             else syncPolicies a AllRows (\<lambda>_. AllRows) ord spec rows st st k = Some x"
  using synced_policies [OF assms refl] by (auto split: option.split)

definition noFailures :: backAnswers where
  "noFailures = \<lparr>ba_get = (\<lambda>_. None), ba_create = (\<lambda>_. None), ba_patch = (\<lambda>_. None), PlacementLabel = ''placement'', AnnotationHosting = ''hosting'',
     policyGroup = ''policy'', policyKind = ''Policy''\<rparr>"

definition rootPolicy :: "policyStatusContent crObject" where
  "rootPolicy = \<lparr>cr_name = ''pol'', cr_namespace = ''ns'', cr_labels = [], cr_annotations = [], cr_ownerReferences = [], cr_resourceVersion = ''7'',
     cr_content = \<lparr>ps_uid = ''p1'', ps_Placement = [(''b'', ''r'')], ps_Status = [], ps_ComplianceState = ''''\<rparr>\<rparr>"

definition rootStore :: "policyStatusContent objStore" where
  "rootStore = [(''ns'', ''pol'') \<mapsto> rootPolicy]"

lemma rootStore_keys: "rootStore k = Some x \<Longrightarrow> objKeyOf x = k"
  by (auto simp: rootStore_def rootPolicy_def objKeyOf_def split: if_splits)

definition rootSpec :: specTable where
  "rootSpec = \<lparr>spec_rows = [\<lparr>row_id = ''p1'', row_payload = \<lparr>so_UID = '''', so_ResourceVersion = '''', so_Name = ''pol'', so_Namespace = ''ns'', so_Labels = [],
     so_Annotations = [], so_Finalizers = [], so_Generation = 0, so_OwnerReferences = [], so_ManagedFields = [], so_DeletionTimestamp = None,
     so_body = PolicyB ''{}'' ''{}'' ''{}''\<rparr>, row_updated_at = 1, row_deleted = False\<rparr>], history_rows = []\<rparr>"

lemma rootSpec_live: "liveObjects AllRows rootSpec = [(''p1'', ''pol'', ''ns'')]"
  by (simp add: liveObjects_def rootSpec_def)

definition rootRows :: "compliance_row list" where
  "rootRows = [(''p1'', ''c2'', ''hub2'', ''none'', ''compliant''), (''p1'', ''c1'', ''hub1'', ''none'', ''non_compliant''), (''p2'', ''c1'', ''hub1'', ''none'', ''unknown'')]"

theorem policy_status_synced_witness:
  "\<exists>y. syncPolicies noFailures AllRows (\<lambda>_. AllRows) rev rootSpec rootRows rootStore rootStore (''ns'', ''pol'') = Some y
     \<and> shows_compliance rootRows (cr_content y) \<and> same_but_status rootPolicy y"
  using policy_status_synced [where a = noFailures and ord = rev and st = rootStore and spec = rootSpec and rows = rootRows and k = "(''ns'', ''pol'')", OF _ _ _ rootStore_keys]
  by (simp add: noFailures_def rootSpec_live rootStore_def rowKey_def)

section \<open>From the leaf hubs to the global hub\<close>

definition stateName :: "ComplianceStatus \<Rightarrow> string" where
  "stateName st = (case st of Compliant \<Rightarrow> policiesv1_Compliant | NonCompliant \<Rightarrow> policiesv1_NonCompliant | Unknown \<Rightarrow> '''')"

lemma complianceInDB_text: "complianceInDB (status_text st) = stateName st"
  by (cases st) (simp_all add: complianceInDB_def dbEnumToPolicyComplianceState_def stateName_def)

definition entryFor :: "string \<Rightarrow> string \<Rightarrow> clusterCompliance" where
  "entryFor k state = \<lparr>cc_ComplianceState = state, cc_ClusterName = k, cc_ClusterNamespace = k\<rparr>"

lemma clusterEntry_simp: "clusterEntry (p, c, h, e, s) = entryFor c (complianceInDB s)"
  by (simp add: clusterEntry_def entryFor_def)

lemma shows_set: "shows_compliance rows content \<Longrightarrow> set (ps_Status content) = clusterEntry ` {r \<in> set rows. row_policy r = ps_uid content}"
proof -
  assume "shows_compliance rows content"
  then have "mset (ps_Status content) = image_mset clusterEntry (mset (filter (\<lambda>r. row_policy r = ps_uid content) rows))"
    by (simp add: shows_compliance_def Let_def)
  from arg_cong [OF this, of set_mset] show ?thesis by simp
qed

lemma same_but_status_uid: "same_but_status x y \<Longrightarrow> ps_uid (cr_content y) = ps_uid (cr_content x)"
  unfolding same_but_status_def by (drule arg_cong [where f = "\<lambda>x. ps_uid (cr_content x)"]) simp

text \<open>C15. From the events on a leaf hub to the status a user sees on the global hub: the agent of the hub sends its bundles after
  a history of events, the manager handles them, and a pass of the policy syncer writes the status of the policies. Then the status
  of a live policy lists exactly the clusters of the policy on that hub, each with the state last seen there, and the rows that other
  hubs have of the policy; and the policy is non-compliant if a cluster of the hub is.\<close>

theorem global_policy_status:
  assumes conn: "conn_ok c" "rows_delivered c = None" "\<not> scan_fails c" "range_order ord"
    and tab: "compliance_table d schema rows"
    and good: "list_all (\<lambda>e. good_policy (event_object e)) (es @ es')"
    and same: "\<forall>p. clusters_of (latest idf (es @ es')) p = clusters_of (latest idf es) p"
    and first: "handleClustersPerPolicyBundle ord c schema ComplianceTableName
        (ClustersPerPolicyBundle (cpp_history idf es (NewClustersPerPolicyBundle hub incarnation))) d = Some (None, d1)"
    and second: "handleCompleteComplianceBundle ord c schema ComplianceTableName
        (CompleteComplianceStatusBundle ((ccs_history idf (es @ es') (NewCompleteComplianceStatusBundle hub v incarnation))\<lparr>ccs_BaseBundleVersion := v'\<rparr>)) d1 = Some (None, d2)"
    and calls: "\<And>k. ba_get a k = None" "\<And>k. ba_patch a k = None" and run: "\<And>xs. mset (run xs) = mset xs"
    and keys: "\<And>k x. st k = Some x \<Longrightarrow> objKeyOf x = k" and dist: "distinct (map rowKey (liveObjects AllRows spec))"
    and live: "k \<in> rowKey ` set (liveObjects AllRows spec)" "st k = Some x"
  shows "\<exists>rows' y. d2 (schema, ComplianceTableName) = map to_row rows' \<and> syncPolicies a AllRows (\<lambda>_. AllRows) run spec rows' st st k = Some y
     \<and> same_but_status x y
     \<and> set (ps_Status (cr_content y)) =
         {entryFor k (stateName s) |k s. holds_state (latest idf (es @ es')) (ps_uid (cr_content x)) k s}
         \<union> clusterEntry ` {r \<in> set rows. row_policy r = ps_uid (cr_content x) \<and> row_hub r \<noteq> hub}
     \<and> ((\<exists>k. holds_state (latest idf (es @ es')) (ps_uid (cr_content x)) k NonCompliant) \<longrightarrow> ps_ComplianceState (cr_content y) = policiesv1_NonCompliant)"
proof -
  let ?uid = "ps_uid (cr_content x)"
  obtain rows' where d2: "d2 = d((schema, ComplianceTableName) := map to_row rows')"
    and mine: "\<And>p k s. (\<exists>e. (p, k, hub, e, s) \<in> set rows') \<longleftrightarrow> (\<exists>st. s = status_text st \<and> holds_state (latest idf (es @ es')) p k st)"
    and others: "filter (\<lambda>r. row_hub r \<noteq> hub) rows' = filter (\<lambda>r. row_hub r \<noteq> hub) rows"
    using agent_table_mirrored [OF conn tab good same first second] by blast
  obtain y where y: "syncPolicies a AllRows (\<lambda>_. AllRows) run spec rows' st st k = Some y" "shows_compliance rows' (cr_content y)" "same_but_status x y"
    using synced_policies(1) [where a = a and ord = run and st = st and spec = spec and rows = rows', OF calls run keys dist refl live] by blast
  have uid: "ps_uid (cr_content y) = ?uid"
    by (rule same_but_status_uid [OF y(3)])
  have split: "{r \<in> set rows'. row_policy r = ?uid} = {r \<in> set rows'. row_policy r = ?uid \<and> row_hub r = hub} \<union> {r \<in> set rows. row_policy r = ?uid \<and> row_hub r \<noteq> hub}"
    using arg_cong [OF others, of set] by auto
  have here: "clusterEntry ` {r \<in> set rows'. row_policy r = ?uid \<and> row_hub r = hub} = {entryFor k (stateName s) |k s. holds_state (latest idf (es @ es')) ?uid k s}"
  proof (intro set_eqI iffI)
    fix z
    assume "z \<in> clusterEntry ` {r \<in> set rows'. row_policy r = ?uid \<and> row_hub r = hub}"
    then obtain k e s where "(?uid, k, hub, e, s) \<in> set rows'" "z = entryFor k (complianceInDB s)"
      by (auto simp: row_policy_def clusterEntry_simp)
    then show "z \<in> {entryFor k (stateName s) |k s. holds_state (latest idf (es @ es')) ?uid k s}"
      using mine [of ?uid k s] complianceInDB_text by (metis (mono_tags, lifting) mem_Collect_eq)
  next
    fix z
    assume "z \<in> {entryFor k (stateName s) |k s. holds_state (latest idf (es @ es')) ?uid k s}"
    then obtain k s where z: "z = entryFor k (stateName s)" "holds_state (latest idf (es @ es')) ?uid k s" by blast
    then obtain e where "(?uid, k, hub, e, status_text s) \<in> set rows'" using mine [of ?uid k "status_text s"] by blast
    then show "z \<in> clusterEntry ` {r \<in> set rows'. row_policy r = ?uid \<and> row_hub r = hub}"
      by (intro image_eqI [of _ _ "(?uid, k, hub, e, status_text s)"]) (simp_all add: z(1) clusterEntry_simp complianceInDB_text row_policy_def)
  qed
  have "ps_ComplianceState (cr_content y) = policiesv1_NonCompliant" if nc: "holds_state (latest idf (es @ es')) ?uid k NonCompliant" for k
  proof -
    obtain e where e: "(?uid, k, hub, e, status_text NonCompliant) \<in> set rows'" using mine [of ?uid k "status_text NonCompliant"] nc by blast
    have "cc_ComplianceState (clusterEntry (?uid, k, hub, e, status_text NonCompliant)) = policiesv1_NonCompliant"
      by (simp add: clusterEntry_simp entryFor_def complianceInDB_def dbEnumToPolicyComplianceState_def)
    moreover have "(?uid, k, hub, e, status_text NonCompliant) \<in> set (filter (\<lambda>r. row_policy r = ps_uid (cr_content y)) rows')"
      using e by (simp add: uid row_policy_def)
    ultimately have "\<exists>r\<in>set (filter (\<lambda>r. row_policy r = ps_uid (cr_content y)) rows'). cc_ComplianceState (clusterEntry r) = policiesv1_NonCompliant"
      by (rule bexI)
    then show ?thesis using y(2) unfolding shows_compliance_def Let_def by (simp only: if_True)
  qed
  then show ?thesis
    using y shows_set [OF y(2)] by (intro exI [of _ rows'] exI [of _ y]) (auto simp: d2 uid split here image_Un simp del: split_paired_Ex split_paired_All)
qed

theorem global_policy_status_witness:
  "\<exists>d2 rows' y. handleCompleteComplianceBundle id sample_conn StatusSchema ComplianceTableName
       (CompleteComplianceStatusBundle ((ccs_history sample_id (mirrored_before @ mirrored_after)
          (NewCompleteComplianceStatusBundle ''hub1'' noBundleVersion 1))\<lparr>ccs_BaseBundleVersion := BundleVersion 1 1\<rparr>)) mirrored_db = Some (None, d2)
     \<and> d2 (StatusSchema, ComplianceTableName) = map to_row rows'
     \<and> syncPolicies noFailures AllRows (\<lambda>_. AllRows) rev rootSpec rows' rootStore rootStore (''ns'', ''pol'') = Some y
     \<and> ps_ComplianceState (cr_content y) = policiesv1_NonCompliant"
proof -
  obtain d2 where second: "handleCompleteComplianceBundle id sample_conn StatusSchema ComplianceTableName
     (CompleteComplianceStatusBundle ((ccs_history sample_id (mirrored_before @ mirrored_after)
        (NewCompleteComplianceStatusBundle ''hub1'' noBundleVersion 1))\<lparr>ccs_BaseBundleVersion := BundleVersion 1 1\<rparr>)) mirrored_db = Some (None, d2)"
    using mirrored_handled(2) by blast
  have good: "list_all (\<lambda>e. good_policy (event_object e)) (mirrored_before @ mirrored_after)"
    by (simp add: mirrored_before_def mirrored_after_def sample_policy_def good_policy_def)
  have same: "\<forall>p. clusters_of (latest sample_id (mirrored_before @ mirrored_after)) p = clusters_of (latest sample_id mirrored_before) p"
    unfolding mirrored_latest by (simp add: clusters_of_def)
  have calls: "ba_get noFailures k = None" "ba_patch noFailures k = None" for k by (simp_all add: noFailures_def)
  have run: "mset (rev xs) = mset xs" for xs :: "policyStatusContent crObject list" by simp
  have dist: "distinct (map rowKey (liveObjects AllRows rootSpec))" by (simp add: rootSpec_live)
  have live: "(''ns'', ''pol'') \<in> rowKey ` set (liveObjects AllRows rootSpec)" "rootStore (''ns'', ''pol'') = Some rootPolicy"
    by (simp_all add: rootSpec_live rowKey_def rootStore_def)
  have nc: "holds_state (latest sample_id (mirrored_before @ mirrored_after)) (ps_uid (cr_content rootPolicy)) ''c1'' NonCompliant"
    unfolding mirrored_latest by (simp add: rootPolicy_def holds_state_def in_state_mem state_of_def policiesv1_Compliant_def policiesv1_NonCompliant_def)
  show ?thesis
    using global_policy_status [where run = rev and a = noFailures and st = rootStore and spec = rootSpec and k = "(''ns'', ''pol'')" and x = rootPolicy, OF sample_conn_ok sample_conn_reads range_order_id sample_table good same mirrored_handled(1) second calls run rootStore_keys dist live]
      nc second by blast
qed

text \<open>A policy of which every cluster is in an unknown state is shown as compliant.\<close>

theorem unknown_shown_compliant:
  assumes "\<And>k. ba_get a k = None" and "\<And>k. ba_patch a k = None" and "\<And>xs. mset (ord xs) = mset xs"
    and "\<And>k x. st k = Some x \<Longrightarrow> objKeyOf x = k" and "distinct (map rowKey (liveObjects AllRows spec))"
    and "k \<in> rowKey ` set (liveObjects AllRows spec)" and "st k = Some x"
    and "\<exists>r\<in>set rows. row_policy r = ps_uid (cr_content x)"
    and "list_all (\<lambda>(p, c, h, e, s). p \<noteq> ps_uid (cr_content x) \<or> s = status_text Unknown) rows"
  shows "\<exists>y. syncPolicies a AllRows (\<lambda>_. AllRows) ord spec rows st st k = Some y \<and> ps_ComplianceState (cr_content y) = policiesv1_Compliant"
proof -
  obtain y where y: "syncPolicies a AllRows (\<lambda>_. AllRows) ord spec rows st st k = Some y" "shows_compliance rows (cr_content y)" "same_but_status x y"
    using synced_policies(1) [where a = a and ord = ord and st = st and spec = spec and rows = rows, OF assms(1-5) refl assms(6,7)] by blast
  let ?mine = "filter (\<lambda>r. row_policy r = ps_uid (cr_content y)) rows"
  have "complianceInDB (status_text Unknown) \<noteq> policiesv1_NonCompliant"
    unfolding complianceInDB_text by (simp add: stateName_def policiesv1_NonCompliant_def)
  then have "\<not> (\<exists>r\<in>set ?mine. cc_ComplianceState (clusterEntry r) = policiesv1_NonCompliant)"
    using assms(9) by (auto simp: same_but_status_uid [OF y(3)] row_policy_def clusterEntry_simp entryFor_def list_all_iff)
  moreover have "?mine \<noteq> []" using assms(8) by (auto simp: same_but_status_uid [OF y(3)] filter_empty_conv)
  ultimately show ?thesis using y(1,2) unfolding shows_compliance_def Let_def by (simp only: if_False if_True simp_thms ex_simps) blast
qed

theorem unknown_shown_compliant_witness:
  "\<exists>y. syncPolicies noFailures AllRows (\<lambda>_. AllRows) rev rootSpec [(''p1'', ''c1'', ''hub1'', ''none'', ''unknown'')] rootStore rootStore (''ns'', ''pol'') = Some y
     \<and> ps_ComplianceState (cr_content y) = policiesv1_Compliant"
  by (rule unknown_shown_compliant [where x = rootPolicy, OF _ _ _ rootStore_keys])
     (simp_all add: noFailures_def rootSpec_live rowKey_def rootStore_def rootPolicy_def row_policy_def)

section \<open>Numbers of a report\<close>

lemma itoa_no_sign: "itoa n = c # cs \<Longrightarrow> c \<noteq> CHR ''-'' \<and> c \<noteq> CHR ''+''"
  using itoa_digits [of c n] by auto

lemma atoi_itoa: "n < 2 ^ 63 \<Longrightarrow> atoi (itoa n) = Some (int n)"
proof -
  assume n: "n < 2 ^ 63"
  obtain c cs where c: "itoa n = c # cs" by (cases "itoa n") auto
  have "int n < 2 ^ 63" using n by (metis of_nat_less_iff of_nat_numeral of_nat_power)
  then show ?thesis
    using itoa_no_sign [OF c] digitsValue_itoa [of n] unfolding atoi_def c by (simp add: Let_def)
qed

lemma add_itoa:
  assumes "m + n < 2 ^ 63"
  shows "add (itoa m) (itoa n) = itoa (m + n)"
proof -
  have "stringToInt (itoa m) + stringToInt (itoa n) = word_of_int (int (m + n))"
    using assms by (simp add: stringToInt_def atoi_itoa)
  moreover have "sint (word_of_int (int (m + n)) :: int64) = int (m + n)"
  proof -
    have "int (m + n) < 2 ^ 63" using assms by (metis of_nat_less_iff of_nat_numeral of_nat_power)
    then have "signed_take_bit 63 (int (m + n)) = int (m + n)" by (intro signed_take_bit_int_eq_self) simp_all
    moreover have "sint (word_of_int k :: int64) = signed_take_bit 63 k" for k by (simp add: sint_sbintrunc')
    ultimately show ?thesis by (simp only:)
  qed
  ultimately show ?thesis by (simp add: add_def itoaInt_def nat_add_distrib)
qed

text \<open>A summary of five numbers.\<close>

definition summaryOf :: "(nat \<Rightarrow> nat) \<Rightarrow> reportSummary" where
  "summaryOf v = \<lparr>rs_Deployed = itoa (v 0), rs_InProgress = itoa (v 1), rs_Failed = itoa (v 2), rs_PropagationFailed = itoa (v 3), rs_Clusters = itoa (v 4)\<rparr>"

lemma summaries_add: "\<forall>i<5. v i + w i < 2 ^ 63 \<Longrightarrow> updateSubscriptionReportSummary (summaryOf v) (summaryOf w) = summaryOf (\<lambda>i. v i + w i)"
  by (simp add: updateSubscriptionReportSummary_def summaryOf_def add_itoa)

lemma reports_merge:
  assumes "\<forall>x\<in>set xs. fst (cr_content x) = summaryOf (v x)" and "fst (cr_content y) = summaryOf w"
    and "\<forall>i<5. w i + (\<Sum>x\<leftarrow>xs. v x i) < 2 ^ 63"
  shows "\<exists>agg. fold (mergeReport a) xs (Some y) = Some agg \<and> fst (cr_content agg) = summaryOf (\<lambda>i. w i + (\<Sum>x\<leftarrow>xs. v x i))
     \<and> snd (cr_content agg) = snd (cr_content y) @ concat (map (\<lambda>x. snd (cr_content x)) xs)"
  using assms
proof (induction xs arbitrary: y w)
  case (Cons x xs)
  have "\<forall>i<5. w i + v x i < 2 ^ 63"
  proof (intro allI impI)
    fix i :: nat
    assume "i < 5"
    then have "w i + (\<Sum>x\<leftarrow>x # xs. v x i) < 2 ^ 63" using Cons.prems(3) by blast
    then show "w i + v x i < 2 ^ 63" by simp
  qed
  then have "fst (cr_content (y\<lparr>cr_content := (updateSubscriptionReportSummary (fst (cr_content y)) (fst (cr_content x)), snd (cr_content y) @ snd (cr_content x))\<rparr>)) = summaryOf (\<lambda>i. w i + v x i)"
    using Cons.prems(1,2) by (simp add: summaries_add)
  from Cons.IH [OF _ this] Cons.prems(1,3) show ?case by (simp add: mergeReport_def add.assoc)
qed simp

text \<open>C19. The subscription report on the global hub sums up those of the leaf hubs: where these hold decimal numbers, every number
  of the aggregated summary is the sum of theirs, as long as it fits into 64 bits, and the results are those of all hubs.\<close>

theorem report_sums_up:
  assumes "filter (ofName name namespace) rows = found" and "found \<noteq> []"
    and "\<forall>x\<in>set found. fst (cr_content x) = summaryOf (v x)" and "\<forall>i<5. (\<Sum>x\<leftarrow>found. v x i) < 2 ^ 63"
  shows "\<exists>agg. getAggregatedSubscriptionReport a AllRows rows name namespace = Inr (Some agg)
     \<and> fst (cr_content agg) = summaryOf (\<lambda>i. \<Sum>x\<leftarrow>found. v x i)
     \<and> snd (cr_content agg) = concat (map (\<lambda>x. snd (cr_content x)) found)"
proof -
  obtain x xs where found: "found = x # xs" using assms(2) by (cases found) auto
  have "fst (cr_content (cleanSubscriptionReportObject a x)) = summaryOf (v x)"
    using assms(3) by (simp add: cleanSubscriptionReportObject_def found)
  from reports_merge [where xs = xs and a = a, OF _ this] assms(3,4) show ?thesis
    by (simp add: getAggregatedSubscriptionReport_def readRows_def assms(1) found mergeReport_def cleanSubscriptionReportObject_def)
qed

definition sampleReport :: "nat \<Rightarrow> json \<Rightarrow> reportContent crObject" where
  "sampleReport n r = \<lparr>cr_name = ''app'', cr_namespace = ''ns'', cr_labels = [], cr_annotations = [], cr_ownerReferences = [], cr_resourceVersion = '''',
     cr_content = (summaryOf (\<lambda>i. n + i), [r])\<rparr>"

theorem report_sums_up_witness:
  "\<exists>agg. getAggregatedSubscriptionReport noFailures AllRows [sampleReport 3 ''r1'', sampleReport 40 ''r2''] ''app'' ''ns'' = Inr (Some agg)
     \<and> rs_Clusters (fst (cr_content agg)) = ''51'' \<and> snd (cr_content agg) = [''r1'', ''r2'']"
proof -
  let ?v = "\<lambda>x :: reportContent crObject. \<lambda>i. (if snd (cr_content x) = [''r1''] then 3 else 40) + i :: nat"
  have "filter (ofName ''app'' ''ns'') [sampleReport 3 ''r1'', sampleReport 40 ''r2''] = [sampleReport 3 ''r1'', sampleReport 40 ''r2'']"
    by (simp add: ofName_def sampleReport_def)
  moreover have "\<forall>x\<in>set [sampleReport 3 ''r1'', sampleReport 40 ''r2'']. fst (cr_content x) = summaryOf (?v x)"
    by (simp add: sampleReport_def)
  moreover have sums: "(\<Sum>x\<leftarrow>[sampleReport 3 ''r1'', sampleReport 40 ''r2'']. ?v x i) = 43 + 2 * i" for i
    by (simp add: sampleReport_def)
  moreover have "\<forall>i<5. 43 + 2 * i < (2 :: nat) ^ 63" by auto
  ultimately obtain agg where agg: "getAggregatedSubscriptionReport noFailures AllRows [sampleReport 3 ''r1'', sampleReport 40 ''r2''] ''app'' ''ns'' = Inr (Some agg)"
    "fst (cr_content agg) = summaryOf (\<lambda>i. 43 + 2 * i)" "snd (cr_content agg) = concat (map (\<lambda>x. snd (cr_content x)) [sampleReport 3 ''r1'', sampleReport 40 ''r2''])"
    using report_sums_up [of "''app''" "''ns''" _ "[sampleReport 3 ''r1'', sampleReport 40 ''r2'']" ?v noFailures] by (simp only: sums) blast
  moreover have "itoa 51 = ''51''" by code_simp
  ultimately show ?thesis by (intro exI [of _ agg]) (simp add: summaryOf_def sampleReport_def)
qed

section \<open>Placement rules, decisions and bindings\<close>

text \<open>The decisions a placement rule gets are those of all leaf hubs.\<close>

lemma placement_rules_aggregated:
  assumes "\<And>k. ba_get a k = None" and "\<And>k. ba_patch a k = None" and ord: "\<And>xs. mset (ord xs) = mset xs"
    and dist: "distinct (map rowKey (liveObjects AllRows spec))" and "(uid, name, namespace) \<in> set (liveObjects AllRows spec)"
    and "st (namespace, name) = Some x" and "filter (ofName name namespace) rows \<noteq> []"
  shows "syncPlacementRules a AllRows AllRows ord spec rows st (namespace, name) =
     Some (x\<lparr>cr_content := concat (map cr_content (filter (ofName name namespace) rows))\<rparr>)"
proof -
  have "syncPlacementRules a AllRows AllRows ord spec rows st = fold (handlePlacementRuleStatus a AllRows rows) (liveObjects AllRows spec) st"
    unfolding syncPlacementRules_def by (rule rules.any_order [where ord = ord, OF ord dist])
  moreover have "rowKey (uid, name, namespace) = (namespace, name)" by (simp add: rowKey_def)
  ultimately show ?thesis
    using rules.each_object [where a = a and ro = AllRows and rows = rows and st = st, OF dist assms(5)] assms
    by (simp add: ruleEffect_def getPlacementRuleStatus_def readRows_def)
qed

text \<open>The name of the aggregated decision is that of whichever row arrives first.\<close>

definition sampleDecision :: "string \<Rightarrow> json \<Rightarrow> json list crObject" where
  "sampleDecision name d = \<lparr>cr_name = name, cr_namespace = ''ns'', cr_labels = [(''placement'', ''pl'')], cr_annotations = [], cr_ownerReferences = [],
     cr_resourceVersion = '''', cr_content = [d]\<rparr>"

lemma decision_depends_on_order:
  "map_option objKeyOf (projr (getAggregatedPlacementDecisions noFailures AllRows id [sampleDecision ''pl-1'' ''d1'', sampleDecision ''pl-2'' ''d2''] ''pl'' ''ns'')) = Some (''ns'', ''pl-1'')"
  "map_option objKeyOf (projr (getAggregatedPlacementDecisions noFailures AllRows rev [sampleDecision ''pl-1'' ''d1'', sampleDecision ''pl-2'' ''d2''] ''pl'' ''ns'')) = Some (''ns'', ''pl-2'')"
  by (simp_all add: getAggregatedPlacementDecisions_def readRows_def sampleDecision_def mergeDecision_def noFailures_def objKeyOf_def)

text \<open>Reconciling a placement binding a second time changes nothing.\<close>

lemma updatePolicyStatus_done:
  assumes "updatePolicyStatus a name namespace rule binding st = (None, st')"
  shows "\<exists>policy. st' (namespace, name) = Some policy \<and> list_ex (\<lambda>(b, r). r = rule) (ps_Placement (cr_content policy))"
  using assms by (auto simp: updatePolicyStatus_def split: option.splits if_splits patchFailure.splits)

lemma updatePolicyStatus_keeps:
  assumes "updatePolicyStatus a name namespace rule binding st = (e, st')"
    and "st k = Some policy" and "list_ex (\<lambda>(b, r). r = rule') (ps_Placement (cr_content policy))"
  shows "\<exists>policy'. st' k = Some policy' \<and> list_ex (\<lambda>(b, r). r = rule') (ps_Placement (cr_content policy'))
     \<and> ps_Status (cr_content policy') = ps_Status (cr_content policy) \<and> ps_ComplianceState (cr_content policy') = ps_ComplianceState (cr_content policy)"
  using assms by (auto simp: updatePolicyStatus_def split: option.splits if_splits patchFailure.splits)

lemma bindingLoop_bound:
  "bindingLoop a b subjects st = (None, st') \<Longrightarrow> st k = Some policy \<Longrightarrow> list_ex (\<lambda>(b, r). r = rule') (ps_Placement (cr_content policy)) \<Longrightarrow>
   \<exists>policy'. st' k = Some policy' \<and> list_ex (\<lambda>(b, r). r = rule') (ps_Placement (cr_content policy'))"
proof (induction subjects arbitrary: st policy)
  case (Cons s subjects)
  show ?case
  proof (cases "bs_APIGroup s = policyGroup a \<and> bs_Kind s = policyKind a")
    case True
    then obtain st1 where u: "updatePolicyStatus a (bs_Name s) (pb_namespace b) (pb_placementRef b) (pb_name b) st = (None, st1)" "bindingLoop a b subjects st1 = (None, st')"
      using Cons.prems(1) by (auto split: prod.splits option.splits)
    then show ?thesis using updatePolicyStatus_keeps [OF u(1) Cons.prems(2,3)] Cons.IH [OF u(2)] by blast
  next
    case False
    then show ?thesis using Cons.IH Cons.prems by (simp split: if_splits)
  qed
qed simp

text \<open>A subject that is no policy is skipped; the status of a policy records the placement.\<close>

definition subjectBound :: "backAnswers \<Rightarrow> placementBinding \<Rightarrow> policyStatusContent objStore \<Rightarrow> bindingSubject \<Rightarrow> bool" where
  "subjectBound a b st s = (bs_APIGroup s \<noteq> policyGroup a \<or> bs_Kind s \<noteq> policyKind a
     \<or> (\<exists>policy. st (pb_namespace b, bs_Name s) = Some policy \<and> list_ex (\<lambda>(binding, rule). rule = pb_placementRef b) (ps_Placement (cr_content policy))))"

lemma bindingLoop_binds: "bindingLoop a b subjects st = (None, st') \<Longrightarrow> list_all (subjectBound a b st') subjects"
proof (induction subjects arbitrary: st)
  case (Cons s subjects)
  show ?case
  proof (cases "bs_APIGroup s = policyGroup a \<and> bs_Kind s = policyKind a")
    case True
    then obtain st1 where u: "updatePolicyStatus a (bs_Name s) (pb_namespace b) (pb_placementRef b) (pb_name b) st = (None, st1)" "bindingLoop a b subjects st1 = (None, st')"
      using Cons.prems by (auto split: prod.splits option.splits)
    then have "subjectBound a b st' s"
      using updatePolicyStatus_done [OF u(1)] bindingLoop_bound [OF u(2)] unfolding subjectBound_def by blast
    then show ?thesis using Cons.IH [OF u(2)] by simp
  next
    case False
    then have "subjectBound a b st' s" by (auto simp: subjectBound_def)
    moreover have "bindingLoop a b subjects st = (None, st')" using False Cons.prems by (simp split: if_splits)
    ultimately show ?thesis using Cons.IH by simp
  qed
qed simp

lemma bindingLoop_idle: "list_all (subjectBound a b st) subjects \<Longrightarrow> \<exists>e. bindingLoop a b subjects st = (e, st)"
proof (induction subjects)
  case (Cons s subjects)
  have "\<exists>e. updatePolicyStatus a (bs_Name s) (pb_namespace b) (pb_placementRef b) (pb_name b) st = (e, st)"
    if "bs_APIGroup s = policyGroup a \<and> bs_Kind s = policyKind a"
    using Cons.prems that by (cases "ba_get a (pb_namespace b, bs_Name s)") (auto simp: updatePolicyStatus_def subjectBound_def)
  then show ?case using Cons by (auto split: option.split)
qed simp

text \<open>Reconciling a placement binding without error records its placement in the status of every policy it binds, and
  reconciling it again changes nothing.\<close>

theorem binding_recorded_once:
  assumes "binding_Reconcile a (Inr b) st = (None, st')"
  shows "list_all (\<lambda>s. bs_APIGroup s \<noteq> policyGroup a \<or> bs_Kind s \<noteq> policyKind a
            \<or> (\<exists>policy. st' (pb_namespace b, bs_Name s) = Some policy \<and> list_ex (\<lambda>(binding, rule). rule = pb_placementRef b) (ps_Placement (cr_content policy))))
          (pb_subjects b)
     \<and> (\<exists>e. binding_Reconcile a (Inr b) st' = (e, st'))"
proof -
  have "list_all (subjectBound a b st') (pb_subjects b)"
    using assms by (intro bindingLoop_binds) (simp add: binding_Reconcile_def)
  then show ?thesis using bindingLoop_idle [of a b st' "pb_subjects b"]
    by (simp add: binding_Reconcile_def subjectBound_def list_all_iff)
qed

definition sampleBinding :: placementBinding where
  "sampleBinding = \<lparr>pb_name = ''binding'', pb_namespace = ''ns'', pb_placementRef = ''rule2'', pb_subjects = [\<lparr>bs_APIGroup = ''policy'', bs_Kind = ''Policy'', bs_Name = ''pol''\<rparr>]\<rparr>"

theorem binding_recorded_once_witness:
  "\<exists>st' e. binding_Reconcile noFailures (Inr sampleBinding) rootStore = (None, st')
     \<and> (\<exists>policy. st' (''ns'', ''pol'') = Some policy \<and> list_ex (\<lambda>(binding, rule). rule = ''rule2'') (ps_Placement (cr_content policy)))
     \<and> binding_Reconcile noFailures (Inr sampleBinding) st' = (e, st')"
proof -
  obtain st' where r: "binding_Reconcile noFailures (Inr sampleBinding) rootStore = (None, st')"
    by (simp add: binding_Reconcile_def sampleBinding_def noFailures_def updatePolicyStatus_def rootStore_def rootPolicy_def)
  show ?thesis
    using binding_recorded_once [OF r] r by (auto simp: sampleBinding_def noFailures_def)
qed

end
