(* ===== verification/GH_OpBase.thy ===== *)
theory GH_OpBase
  imports GH_Prelude GH_SqlFilter
begin

text \<open>
  What the controllers of the operator (\<open>src/operator\<close>) work with: the objects they keep on the API server, the
  API server itself and the programs that call it.

  \<^item> An object extends the record \<open>kmeta\<close> of its metadata. Objects that are only compared and copied (\<open>kobject\<close>) keep
    their other fields as JSON; manifest works, managed clusters and the \<open>MulticlusterGlobalHub\<close> have records of their own.
  \<^item> The API server keeps one table for each of them. It gives every stored object a new resource version, refuses an
    update with an outdated version or (where the kind demands one) with none, keeps deleted objects until their
    finalizers are gone, and stores of an update only what the endpoint covers (\<open>merge\<close>).
  \<^item> A program is a function of the operator's state that yields a result or an error (\<open>op\<close>). Every call may fail: the
    answer to the \<open>n\<close>-th call is \<open>os_answer n\<close>, an arbitrary function. A panic is an error that no handler catches.
  \<^item> \<open>triple\<close> relates the states before and after a program, and its rules take a program apart.
\<close>

named_theorems op_rules \<open>triples of the program constructors\<close>
named_theorems op_keeps \<open>what a program keeps\<close>

section \<open>Objects\<close>

type_synonym nsname = "string \<times> string"
type_synonym kkey = "string \<times> string \<times> string"

record kmeta =
  km_name :: string
  km_namespace :: string
  km_labels :: "(string, string) gomap"
  km_annotations :: "(string, string) gomap"
  km_finalizers :: "string list"
  km_deleting :: bool
  km_resourceVersion :: nat

text \<open>A resource version of zero stands for the empty string.\<close>

definition newMeta :: "string \<Rightarrow> string \<Rightarrow> (string, string) gomap \<Rightarrow> (string, string) gomap \<Rightarrow> kmeta" where
  "newMeta name namespace labels annotations =
     \<lparr>km_name = name, km_namespace = namespace, km_labels = labels, km_annotations = annotations, km_finalizers = [],
      km_deleting = False, km_resourceVersion = 0\<rparr>"

record kobject = kmeta +
  ko_kind :: string
  ko_controller :: "string option"
  ko_fields :: "(string, jvalue) gomap"

record Condition =
  c_Type :: string
  c_Status :: string
  c_Reason :: string
  c_Message :: string
  c_LastTransitionTime :: int

record MulticlusterGlobalHub = kmeta +
  AggregationLevel :: string
  EnableLocalPolicies :: bool
  Transport :: string
  Storage :: string
  Conditions :: "Condition list"

text \<open>A manifest holds either raw JSON or an object; \<open>feedback\<close> is what the work agent reported of a manifest.\<close>

datatype manifest = RawManifest string | ObjectManifest jvalue

record feedback =
  fb_Kind :: string
  fb_Values :: "(string \<times> string option) list"

record manifestConfig =
  mc_Group :: string
  mc_Resource :: string
  mc_Name :: string
  mc_Namespace :: string
  mc_FeedbackRules :: "(string \<times> string) list"

record ManifestWork = kmeta +
  Manifests :: "manifest list"
  DeleteOption :: "string option"
  ManifestConfigs :: "manifestConfig list"
  ResourceStatus :: "feedback list"

record hubCluster = kmeta +
  hc_Available :: bool

text \<open>What the package server offers of one package: its default channel, and its channels with their version and images.\<close>

record packageManifestConfig =
  ACMDefaultChannel :: string
  ACMCurrentCSV :: string
  ACMImages :: "(string, string) gomap"
  MCEDefaultChannel :: string
  MCECurrentCSV :: string
  MCEImages :: "(string, string) gomap"

section \<open>The state of the operator\<close>

datatype opError = NotFound | OtherError string | Panic

datatype answer = Answered | Refused opError | Lost opError

record opState =
  os_objects :: "(kkey, kobject) gomap"
  os_works :: "(nsname, ManifestWork) gomap"
  os_clusters :: "(string, hubCluster) gomap"
  os_hubs :: "(nsname, MulticlusterGlobalHub) gomap"
  os_calls :: nat
  os_version :: nat
  os_answer :: "nat \<Rightarrow> answer"
  os_now :: "nat \<Rightarrow> int"
  os_succeeded :: "nat \<Rightarrow> int"
  hohMGHNamespacedName :: nsname
  imageOverrides :: "(string, string) gomap"
  packageManifestConfigInstance :: packageManifestConfig
  leafhubs :: "string goset"
  isLeafHubControllerRunnning :: bool
  os_executed :: "string list"

type_synonym 'a op = "opState \<Rightarrow> (opError + 'a) \<times> opState"

section \<open>Programs\<close>

definition op_return :: "'a \<Rightarrow> 'a op" where
  "op_return x s = (Inr x, s)"

definition op_raise :: "opError \<Rightarrow> 'a op" where
  "op_raise e s = (Inl e, s)"

definition op_bind :: "'a op \<Rightarrow> ('a \<Rightarrow> 'b op) \<Rightarrow> 'b op" where
  "op_bind m f s = (case m s of (Inr x, s') \<Rightarrow> f x s' | (Inl e, s') \<Rightarrow> (Inl e, s'))"

text \<open>The code looks at the error a call returned: \<open>handler\<close> is what it does then.\<close>

definition op_try :: "'a op \<Rightarrow> (opError \<Rightarrow> 'b op) \<Rightarrow> ('a \<Rightarrow> 'b op) \<Rightarrow> 'b op" where
  "op_try m handler f s = (case m s of
      (Inr x, s') \<Rightarrow> f x s'
    | (Inl Panic, s') \<Rightarrow> (Inl Panic, s')
    | (Inl e, s') \<Rightarrow> handler e s')"

definition op_get :: "(opState \<Rightarrow> 'a) \<Rightarrow> 'a op" where
  "op_get f s = (Inr (f s), s)"

definition op_modify :: "(opState \<Rightarrow> opState) \<Rightarrow> unit op" where
  "op_modify f s = (Inr (), f s)"

fun op_each :: "('a \<Rightarrow> unit op) \<Rightarrow> 'a list \<Rightarrow> unit op" where
  "op_each f [] = op_return ()"
| "op_each f (x # xs) = op_bind (f x) (\<lambda>_. op_each f xs)"

definition ignoreNotFound :: "unit op \<Rightarrow> unit op" where
  "ignoreNotFound m = op_try m (\<lambda>e. if e = NotFound then op_return () else op_raise e) op_return"

lemma op_return_run [simp]: "op_return x s = (Inr x, s)"
  by (simp add: op_return_def)

lemma op_raise_run [simp]: "op_raise e s = (Inl e, s)"
  by (simp add: op_raise_def)

lemma op_get_run [simp]: "op_get f s = (Inr (f s), s)"
  by (simp add: op_get_def)

lemma op_modify_run [simp]: "op_modify f s = (Inr (), f s)"
  by (simp add: op_modify_def)

lemma op_bind_run:
  "op_bind m f s = (r, s') \<longleftrightarrow> (\<exists>x s1. m s = (Inr x, s1) \<and> f x s1 = (r, s')) \<or> (\<exists>e. m s = (Inl e, s') \<and> r = Inl e)"
  by (auto simp: op_bind_def split: prod.splits sum.splits)

lemma op_try_run:
  "op_try m handler f s = (r, s') \<longleftrightarrow> (\<exists>x s1. m s = (Inr x, s1) \<and> f x s1 = (r, s')) \<or> (m s = (Inl Panic, s') \<and> r = Inl Panic)
     \<or> (\<exists>e s1. e \<noteq> Panic \<and> m s = (Inl e, s1) \<and> handler e s1 = (r, s'))"
  by (auto simp: op_try_def split: prod.splits sum.splits opError.splits)

lemma op_bind_assoc: "op_bind (op_bind m f) g = op_bind m (\<lambda>x. op_bind (f x) g)"
  by (simp add: op_bind_def fun_eq_iff split: prod.split sum.split)

section \<open>Triples\<close>

text \<open>\<open>Q\<close> holds of the result and the state of a program that succeeds and \<open>E\<close> of those of one that fails.\<close>

definition triple :: "(opState \<Rightarrow> bool) \<Rightarrow> 'a op \<Rightarrow> ('a \<Rightarrow> opState \<Rightarrow> bool) \<Rightarrow> (opError \<Rightarrow> opState \<Rightarrow> bool) \<Rightarrow> bool" where
  "triple P m Q E \<longleftrightarrow> (\<forall>s x s'. P s \<longrightarrow> m s = (Inr x, s') \<longrightarrow> Q x s') \<and> (\<forall>s e s'. P s \<longrightarrow> m s = (Inl e, s') \<longrightarrow> E e s')"

lemma tripleI: "(\<And>s x s'. P s \<Longrightarrow> m s = (Inr x, s') \<Longrightarrow> Q x s') \<Longrightarrow> (\<And>s e s'. P s \<Longrightarrow> m s = (Inl e, s') \<Longrightarrow> E e s') \<Longrightarrow> triple P m Q E"
  by (auto simp: triple_def)

lemma triple_success: "triple P m Q E \<Longrightarrow> P s \<Longrightarrow> m s = (Inr x, s') \<Longrightarrow> Q x s'"
  by (auto simp: triple_def)

lemma triple_failure: "triple P m Q E \<Longrightarrow> P s \<Longrightarrow> m s = (Inl e, s') \<Longrightarrow> E e s'"
  by (auto simp: triple_def)

lemma triple_weaken:
  "triple P' m Q' E' \<Longrightarrow> (\<And>s. P s \<Longrightarrow> P' s) \<Longrightarrow> (\<And>x s. Q' x s \<Longrightarrow> Q x s) \<Longrightarrow> (\<And>e s. E' e s \<Longrightarrow> E e s) \<Longrightarrow> triple P m Q E"
  unfolding triple_def by blast

lemma triple_return [op_rules]: "(\<And>s. P s \<Longrightarrow> Q x s) \<Longrightarrow> triple P (op_return x) Q E"
  by (simp add: triple_def)

lemma triple_raise [op_rules]: "(\<And>s. P s \<Longrightarrow> E e s) \<Longrightarrow> triple P (op_raise e) Q E"
  by (simp add: triple_def)

lemma triple_get [op_rules]: "(\<And>s. P s \<Longrightarrow> Q (f s) s) \<Longrightarrow> triple P (op_get f) Q E"
  by (simp add: triple_def)

lemma triple_modify [op_rules]: "(\<And>s. P s \<Longrightarrow> Q () (f s)) \<Longrightarrow> triple P (op_modify f) Q E"
  by (simp add: triple_def)

lemma triple_bind [op_rules]: "triple P m R E \<Longrightarrow> (\<And>x. triple (R x) (f x) Q E) \<Longrightarrow> triple P (op_bind m f) Q E"
  unfolding triple_def by (simp add: op_bind_run) blast

lemma triple_try:
  "triple P m R F \<Longrightarrow> (\<And>x. triple (R x) (f x) Q E) \<Longrightarrow> (\<And>e. e \<noteq> Panic \<Longrightarrow> triple (F e) (handler e) Q E) \<Longrightarrow> (\<And>s. F Panic s \<Longrightarrow> E Panic s) \<Longrightarrow>
   triple P (op_try m handler f) Q E"
  unfolding triple_def by (simp add: op_try_run) blast

lemma triple_if [op_rules]: "(b \<Longrightarrow> triple P m Q E) \<Longrightarrow> (\<not> b \<Longrightarrow> triple P m' Q E) \<Longrightarrow> triple P (if b then m else m') Q E"
  by simp

lemma triple_option [op_rules]:
  "(x = None \<Longrightarrow> triple P m Q E) \<Longrightarrow> (\<And>y. x = Some y \<Longrightarrow> triple P (f y) Q E) \<Longrightarrow> triple P (case x of None \<Rightarrow> m | Some y \<Rightarrow> f y) Q E"
  by (cases x) auto

lemma triple_sum [op_rules]:
  "(\<And>y. x = Inl y \<Longrightarrow> triple P (g y) Q E) \<Longrightarrow> (\<And>y. x = Inr y \<Longrightarrow> triple P (f y) Q E) \<Longrightarrow> triple P (case x of Inl y \<Rightarrow> g y | Inr y \<Rightarrow> f y) Q E"
  by (cases x) auto

lemma triple_prod [op_rules]: "(\<And>y z. x = (y, z) \<Longrightarrow> triple P (f y z) Q E) \<Longrightarrow> triple P (case x of (y, z) \<Rightarrow> f y z) Q E"
  by (cases x) auto

lemma triple_Let [op_rules]: "triple P (f x) Q E \<Longrightarrow> triple P (let y = x in f y) Q E"
  by simp

lemma triple_conj: "triple P m Q E \<Longrightarrow> triple P m Q' E' \<Longrightarrow> triple P m (\<lambda>x s. Q x s \<and> Q' x s) (\<lambda>e s. E e s \<and> E' e s)"
  unfolding triple_def by blast

text \<open>What a loop has done for the elements so far (\<open>R\<close>) no later element undoes.\<close>

lemma triple_each:
  "(\<And>x. x \<in> set xs \<Longrightarrow> triple I (f x) (\<lambda>_. I) E) \<Longrightarrow> triple I (op_each f xs) (\<lambda>_. I) E"
  by (induction xs) (auto intro!: op_rules)

lemma triple_each_all:
  assumes "\<And>x. x \<in> set xs \<Longrightarrow> triple I (f x) (\<lambda>_ s. I s \<and> R x s) E"
    and "\<And>x y. x \<in> set xs \<Longrightarrow> y \<in> set xs \<Longrightarrow> triple (\<lambda>s. I s \<and> R x s) (f y) (\<lambda>_. R x) (\<lambda>_ _. True)"
  shows "triple I (op_each f xs) (\<lambda>_ s. I s \<and> (\<forall>x\<in>set xs. R x s)) E"
proof -
  have "triple (\<lambda>s. I s \<and> (\<forall>x\<in>seen. R x s)) (op_each f ys) (\<lambda>_ s. I s \<and> (\<forall>x\<in>seen \<union> set ys. R x s)) E"
    if "seen \<subseteq> set xs" "set ys \<subseteq> set xs" for seen ys
    using that
  proof (induction ys arbitrary: seen)
    case (Cons y ys)
    have "triple (\<lambda>s. I s \<and> (\<forall>x\<in>seen. R x s)) (f y) (\<lambda>_ s. I s \<and> (\<forall>x\<in>insert y seen. R x s)) E"
    proof (rule tripleI)
      fix s u s' assume s: "I s \<and> (\<forall>x\<in>seen. R x s)" and run: "f y s = (Inr u, s')"
      have "I s' \<and> R y s'" using triple_success [OF assms(1) [of y] _ run] Cons.prems s by simp
      moreover have "R x s'" if "x \<in> seen" for x using triple_success [OF assms(2) [of x y] _ run] Cons.prems s that by auto
      ultimately show "I s' \<and> (\<forall>x\<in>insert y seen. R x s')" by simp
    next
      fix s e s' assume s: "I s \<and> (\<forall>x\<in>seen. R x s)" and run: "f y s = (Inl e, s')"
      then show "E e s'" using triple_failure [OF assms(1) [of y] _ run] Cons.prems by simp
    qed
    moreover have "triple (\<lambda>s. I s \<and> (\<forall>x\<in>insert y seen. R x s)) (op_each f ys) (\<lambda>_ s. I s \<and> (\<forall>x\<in>seen \<union> set (y # ys). R x s)) E"
      using Cons.IH [of "insert y seen"] Cons.prems by simp
    ultimately show ?case by (auto intro!: triple_bind)
  qed (auto intro!: op_rules)
  from this [of "{}" xs] show ?thesis by simp
qed


text \<open>A program keeps an invariant, whether it succeeds or fails.\<close>

definition keeps :: "(opState \<Rightarrow> bool) \<Rightarrow> 'a op \<Rightarrow> bool" where
  "keeps I m \<longleftrightarrow> (\<forall>s. I s \<longrightarrow> I (snd (m s)))"

lemma keepsI: "(\<And>s r s'. I s \<Longrightarrow> m s = (r, s') \<Longrightarrow> I s') \<Longrightarrow> keeps I m"
  by (simp add: keeps_def) (metis prod.collapse)

lemma keepsD: "keeps I m \<Longrightarrow> I s \<Longrightarrow> m s = (r, s') \<Longrightarrow> I s'"
  unfolding keeps_def by (metis snd_conv)

lemma keeps_triple: "keeps I m \<longleftrightarrow> triple I m (\<lambda>_. I) (\<lambda>_. I)"
proof
  show "keeps I m \<Longrightarrow> triple I m (\<lambda>_. I) (\<lambda>_. I)" by (rule tripleI) (auto dest: keepsD)
  assume t: "triple I m (\<lambda>_. I) (\<lambda>_. I)"
  show "keeps I m"
  proof (rule keepsI)
    fix s r s' assume "I s" "m s = (r, s')"
    then show "I s'" using t by (cases r) (auto dest: triple_success triple_failure)
  qed
qed

lemma keeps_return [op_keeps]: "keeps I (op_return x)"
  by (simp add: keeps_def)

lemma keeps_raise [op_keeps]: "keeps I (op_raise e)"
  by (simp add: keeps_def)

lemma keeps_get [op_keeps]: "keeps I (op_get f)"
  by (simp add: keeps_def)

lemma keeps_modify: "(\<And>s. I s \<Longrightarrow> I (f s)) \<Longrightarrow> keeps I (op_modify f)"
  by (simp add: keeps_def)

lemma keeps_bind [op_keeps]: "keeps I m \<Longrightarrow> (\<And>x. keeps I (f x)) \<Longrightarrow> keeps I (op_bind m f)"
  by (rule keepsI) (auto simp: op_bind_run; blast dest: keepsD)

lemma keeps_try [op_keeps]: "keeps I m \<Longrightarrow> (\<And>e. keeps I (h e)) \<Longrightarrow> (\<And>x. keeps I (f x)) \<Longrightarrow> keeps I (op_try m h f)"
  by (rule keepsI) (auto simp: op_try_run; blast dest: keepsD)

lemma keeps_if [op_keeps]: "(b \<Longrightarrow> keeps I m) \<Longrightarrow> (\<not> b \<Longrightarrow> keeps I m') \<Longrightarrow> keeps I (if b then m else m')"
  by simp

lemma keeps_option [op_keeps]: "(x = None \<Longrightarrow> keeps I m) \<Longrightarrow> (\<And>y. x = Some y \<Longrightarrow> keeps I (f y)) \<Longrightarrow> keeps I (case x of None \<Rightarrow> m | Some y \<Rightarrow> f y)"
  by (cases x) auto

lemma keeps_sum [op_keeps]: "(\<And>y. keeps I (g y)) \<Longrightarrow> (\<And>y. keeps I (f y)) \<Longrightarrow> keeps I (case x of Inl y \<Rightarrow> g y | Inr y \<Rightarrow> f y)"
  by (cases x) auto

lemma keeps_prod [op_keeps]: "(\<And>y z. keeps I (f y z)) \<Longrightarrow> keeps I (case x of (y, z) \<Rightarrow> f y z)"
  by (cases x) auto

lemma keeps_Let [op_keeps]: "keeps I (f x) \<Longrightarrow> keeps I (let y = x in f y)"
  by simp

lemma keeps_each [op_keeps]: "(\<And>x. keeps I (f x)) \<Longrightarrow> keeps I (op_each f xs)"
  by (induction xs) (auto intro: op_keeps)

lemma keeps_ignoreNotFound [op_keeps]: "keeps I m \<Longrightarrow> keeps I (ignoreNotFound m)"
  unfolding ignoreNotFound_def by (intro op_keeps)

lemma keeps_conj: "keeps I m \<Longrightarrow> keeps J m \<Longrightarrow> keeps (\<lambda>s. I s \<and> J s) m"
  by (simp add: keeps_def)

section \<open>The API server\<close>

text \<open>A call is refused, or it takes effect and its response is lost, or it is answered.\<close>

definition api_call :: "'a op \<Rightarrow> 'a op" where
  "api_call f s = (let s1 = s\<lparr>os_calls := Suc (os_calls s)\<rparr> in
     case os_answer s (os_calls s) of
       Answered \<Rightarrow> f s1
     | Refused e \<Rightarrow> (Inl e, s1)
     | Lost e \<Rightarrow> (case f s1 of (Inl e', s2) \<Rightarrow> (Inl e', s2) | (Inr _, s2) \<Rightarrow> (Inl e, s2)))"

definition api_get :: "(opState \<Rightarrow> ('k, 'v) gomap) \<Rightarrow> 'k \<Rightarrow> 'v op" where
  "api_get tab k = api_call (\<lambda>s. case map_of (tab s) k of None \<Rightarrow> (Inl NotFound, s) | Some x \<Rightarrow> (Inr x, s))"

definition api_list :: "(opState \<Rightarrow> ('k, 'v) gomap) \<Rightarrow> ('k \<Rightarrow> 'v \<Rightarrow> bool) \<Rightarrow> 'v list op" where
  "api_list tab p = api_call (\<lambda>s. (Inr (map snd (filter (\<lambda>(k, x). p k x) (tab s))), s))"

definition api_create :: "(opState \<Rightarrow> ('k, 'a kmeta_scheme) gomap) \<Rightarrow> ((('k, 'a kmeta_scheme) gomap \<Rightarrow> ('k, 'a kmeta_scheme) gomap) \<Rightarrow> opState \<Rightarrow> opState)
    \<Rightarrow> 'k \<Rightarrow> 'a kmeta_scheme \<Rightarrow> 'a kmeta_scheme op" where
  "api_create tab upd k x = api_call (\<lambda>s.
     if map_of (tab s) k \<noteq> None then (Inl (OtherError ''AlreadyExists''), s)
     else let new = x\<lparr>km_resourceVersion := Suc (os_version s)\<rparr> in
       (Inr new, upd (AList.update k new) (s\<lparr>os_version := Suc (os_version s)\<rparr>)))"

text \<open>
  \<open>merge\<close> is what the endpoint stores of the old and of the new object; \<open>versioned\<close> tells whether the kind refuses an
  update without a resource version.
\<close>

definition api_update :: "(opState \<Rightarrow> ('k, 'a kmeta_scheme) gomap) \<Rightarrow> ((('k, 'a kmeta_scheme) gomap \<Rightarrow> ('k, 'a kmeta_scheme) gomap) \<Rightarrow> opState \<Rightarrow> opState)
    \<Rightarrow> bool \<Rightarrow> ('a kmeta_scheme \<Rightarrow> 'a kmeta_scheme \<Rightarrow> 'a kmeta_scheme) \<Rightarrow> 'k \<Rightarrow> 'a kmeta_scheme \<Rightarrow> 'a kmeta_scheme op" where
  "api_update tab upd versioned merge k x = api_call (\<lambda>s.
     case map_of (tab s) k of
       None \<Rightarrow> (Inl NotFound, s)
     | Some old \<Rightarrow>
         if (if km_resourceVersion x = 0 then versioned else km_resourceVersion x \<noteq> km_resourceVersion old) then (Inl (OtherError ''Conflict''), s)
         else let new = (merge old x)\<lparr>km_deleting := km_deleting old, km_resourceVersion := Suc (os_version s)\<rparr>;
                  s1 = s\<lparr>os_version := Suc (os_version s)\<rparr> in
           if km_deleting old \<and> \<not> set (km_finalizers new) \<subseteq> set (km_finalizers old) then (Inl (OtherError ''Forbidden''), s)
           else if km_deleting old \<and> km_finalizers new = [] then (Inr new, upd (AList.delete k) s1)
           else (Inr new, upd (AList.update k new) s1))"

definition markDeleted :: "'k \<Rightarrow> 'a kmeta_scheme \<Rightarrow> ('k, 'a kmeta_scheme) gomap \<Rightarrow> ('k, 'a kmeta_scheme) gomap" where
  "markDeleted k x m = (if km_finalizers x = [] then AList.delete k m else AList.update k (x\<lparr>km_deleting := True\<rparr>) m)"

definition api_delete :: "(opState \<Rightarrow> ('k, 'a kmeta_scheme) gomap) \<Rightarrow> ((('k, 'a kmeta_scheme) gomap \<Rightarrow> ('k, 'a kmeta_scheme) gomap) \<Rightarrow> opState \<Rightarrow> opState)
    \<Rightarrow> 'k \<Rightarrow> unit op" where
  "api_delete tab upd k = api_call (\<lambda>s.
     case map_of (tab s) k of None \<Rightarrow> (Inl NotFound, s) | Some x \<Rightarrow> (Inr (), upd (markDeleted k x) s))"

definition api_deleteAllOf :: "(opState \<Rightarrow> ('k, 'a kmeta_scheme) gomap) \<Rightarrow> ((('k, 'a kmeta_scheme) gomap \<Rightarrow> ('k, 'a kmeta_scheme) gomap) \<Rightarrow> opState \<Rightarrow> opState)
    \<Rightarrow> ('k \<Rightarrow> 'a kmeta_scheme \<Rightarrow> bool) \<Rightarrow> unit op" where
  "api_deleteAllOf tab upd p = api_call (\<lambda>s. (Inr (), upd (\<lambda>m. fold (\<lambda>(k, x). markDeleted k x) (filter (\<lambda>(k, x). p k x) m) m) s))"


text \<open>What a call that succeeds did.\<close>

lemma api_get_InrD:
  assumes "api_get tab k s = (Inr x, s')" and "\<And>c. tab (s\<lparr>os_calls := c\<rparr>) = tab s"
  shows "map_of (tab s) k = Some x" and "s' = s\<lparr>os_calls := Suc (os_calls s)\<rparr>"
  using assms(1) by (auto simp: api_get_def api_call_def Let_def assms(2) split: answer.splits option.splits)

lemma api_get_InlD: "api_get tab k s = (Inl e, s') \<Longrightarrow> s' = s\<lparr>os_calls := Suc (os_calls s)\<rparr>"
  by (auto simp: api_get_def api_call_def Let_def split: answer.splits option.splits)

lemma api_create_InrD:
  assumes "api_create tab upd k x s = (Inr new, s')" and "\<And>c. tab (s\<lparr>os_calls := c\<rparr>) = tab s"
  shows "map_of (tab s) k = None" and "new = x\<lparr>km_resourceVersion := Suc (os_version s)\<rparr>"
    and "s' = upd (AList.update k new) (s\<lparr>os_calls := Suc (os_calls s), os_version := Suc (os_version s)\<rparr>)"
  using assms(1) by (auto simp: api_create_def api_call_def Let_def assms(2) split: answer.splits if_splits)

lemma api_update_InrD:
  assumes "api_update tab upd versioned merge k x s = (Inr new, s')" and "\<And>c. tab (s\<lparr>os_calls := c\<rparr>) = tab s"
  obtains old where "map_of (tab s) k = Some old" and "new = (merge old x)\<lparr>km_deleting := km_deleting old, km_resourceVersion := Suc (os_version s)\<rparr>"
    and "s' = upd (if km_deleting old \<and> km_finalizers new = [] then AList.delete k else AList.update k new)
          (s\<lparr>os_calls := Suc (os_calls s), os_version := Suc (os_version s)\<rparr>)"
    and "if km_resourceVersion x = 0 then \<not> versioned else km_resourceVersion x = km_resourceVersion old"
proof (cases "map_of (tab s) k")
  case None
  then show thesis using assms by (auto simp: api_update_def api_call_def Let_def split: answer.splits)
next
  case (Some old)
  show thesis
    by (rule that [OF Some]; use assms Some in \<open>auto simp: api_update_def api_call_def Let_def split: answer.splits if_splits\<close>)
qed

lemma api_delete_InrD:
  assumes "api_delete tab upd k s = (Inr u, s')" and "\<And>c. tab (s\<lparr>os_calls := c\<rparr>) = tab s"
  obtains x where "map_of (tab s) k = Some x" and "s' = upd (markDeleted k x) (s\<lparr>os_calls := Suc (os_calls s)\<rparr>)"
  using assms by (cases "map_of (tab s) k") (auto simp: api_delete_def api_call_def Let_def split: answer.splits)

lemma map_of_markDeleted: "map_of (markDeleted k x m) j = (if j = k then if km_finalizers x = [] then None else Some (x\<lparr>km_deleting := True\<rparr>) else map_of m j)"
  by (simp add: markDeleted_def)


section \<open>What calls keep\<close>

lemma keeps_api_get [op_keeps]: "(\<And>s c. I s \<Longrightarrow> I (s\<lparr>os_calls := c\<rparr>)) \<Longrightarrow> keeps I (api_get tab k)"
  by (rule keepsI) (auto simp: api_get_def api_call_def Let_def split: answer.splits option.splits)

lemma keeps_api_list [op_keeps]: "(\<And>s c. I s \<Longrightarrow> I (s\<lparr>os_calls := c\<rparr>)) \<Longrightarrow> keeps I (api_list tab p)"
  by (rule keepsI) (auto simp: api_list_def api_call_def Let_def split: answer.splits)

lemma keeps_api_create:
  assumes "\<And>s c. I s \<Longrightarrow> I (s\<lparr>os_calls := c\<rparr>)" and "\<And>s c. tab (s\<lparr>os_calls := c\<rparr>) = tab s"
    and "\<And>s c v w. I s \<Longrightarrow> map_of (tab s) k = None \<Longrightarrow> I (upd (AList.update k (x\<lparr>km_resourceVersion := v\<rparr>)) (s\<lparr>os_calls := c, os_version := w\<rparr>))"
  shows "keeps I (api_create tab upd k x)"
  by (rule keepsI) (auto simp: api_create_def api_call_def Let_def assms split: answer.splits if_splits)

text \<open>An update replaces an object by one that was deleted before if and only if it is now, or removes it.\<close>

lemma keeps_api_update:
  assumes "\<And>s c. I s \<Longrightarrow> I (s\<lparr>os_calls := c\<rparr>)" and "\<And>s c. tab (s\<lparr>os_calls := c\<rparr>) = tab s"
    and "\<And>s old c v w. I s \<Longrightarrow> map_of (tab s) k = Some old \<Longrightarrow> \<not> (km_deleting old \<and> km_finalizers (merge old x) = []) \<Longrightarrow>
       I (upd (AList.update k ((merge old x)\<lparr>km_deleting := km_deleting old, km_resourceVersion := v\<rparr>)) (s\<lparr>os_calls := c, os_version := w\<rparr>))"
    and "\<And>s old c w. I s \<Longrightarrow> map_of (tab s) k = Some old \<Longrightarrow> km_deleting old \<Longrightarrow> km_finalizers (merge old x) = [] \<Longrightarrow>
       I (upd (AList.delete k) (s\<lparr>os_calls := c, os_version := w\<rparr>))"
  shows "keeps I (api_update tab upd versioned merge k x)"
proof (rule keepsI)
  fix s r s' assume I: "I s" and run: "api_update tab upd versioned merge k x s = (r, s')"
  show "I s'"
  proof (cases "map_of (tab s) k")
    case None
    then show ?thesis using I run assms(1) by (auto simp: api_update_def api_call_def Let_def assms(2) split: answer.splits)
  next
    case (Some old)
    show ?thesis
      using run assms(1) [OF I] assms(3,4) [OF I Some] Some
      by (auto simp: api_update_def api_call_def Let_def assms(2) split: answer.splits if_splits)
  qed
qed

lemma keeps_api_delete:
  assumes "\<And>s c. I s \<Longrightarrow> I (s\<lparr>os_calls := c\<rparr>)" and "\<And>s c. tab (s\<lparr>os_calls := c\<rparr>) = tab s"
    and "\<And>s c x. I s \<Longrightarrow> map_of (tab s) k = Some x \<Longrightarrow> I (upd (markDeleted k x) (s\<lparr>os_calls := c\<rparr>))"
  shows "keeps I (api_delete tab upd k)"
  by (rule keepsI) (auto simp: api_delete_def api_call_def Let_def assms split: answer.splits option.splits)

end
