(* ===== verification/GH_OpCondition.thy ===== *)
theory GH_OpCondition
  imports GH_OpBase
begin

text \<open>
  The conditions of the \<open>MulticlusterGlobalHub\<close> (\<open>src/operator/pkg/condition/condition.go\<close>). The code changes the object in
  hand and then updates its status on the API server; the programs here yield the object as the server returned it. When the
  update fails the callers return, so the object in hand is dropped.
\<close>

section \<open>Constants\<close>

definition CONDITION_STATUS_TRUE :: string where "CONDITION_STATUS_TRUE = ''True''"
definition CONDITION_STATUS_FALSE :: string where "CONDITION_STATUS_FALSE = ''False''"
definition CONDITION_STATUS_UNKNOWN :: string where "CONDITION_STATUS_UNKNOWN = ''Unknown''"
definition CONDITION_TYPE_DATABASE_INIT :: string where "CONDITION_TYPE_DATABASE_INIT = ''DatabaseInitialized''"
definition CONDITION_TYPE_TRANSPORT_INIT :: string where "CONDITION_TYPE_TRANSPORT_INIT = ''TransportInitialized''"
definition CONDITION_TYPE_RBAC_DEPLOY :: string where "CONDITION_TYPE_RBAC_DEPLOY = ''RBACDeployed''"
definition CONDITION_TYPE_MANAGER_DEPLOY :: string where "CONDITION_TYPE_MANAGER_DEPLOY = ''ManagerDeployed''"
definition CONDITION_TYPE_CONSOLE_DEPLOY :: string where "CONDITION_TYPE_CONSOLE_DEPLOY = ''ConsoleDeployed''"
definition CONDITION_TYPE_LEAFHUB_DEPLOY :: string where "CONDITION_TYPE_LEAFHUB_DEPLOY = ''LeafHubDeployed''"
definition CONDITION_REASON_LEAFHUB_DEPLOY_FAILED :: string where "CONDITION_REASON_LEAFHUB_DEPLOY_FAILED = ''LeafHubDeployFailed''"

lemmas condition_types = CONDITION_TYPE_DATABASE_INIT_def CONDITION_TYPE_TRANSPORT_INIT_def CONDITION_TYPE_RBAC_DEPLOY_def
  CONDITION_TYPE_MANAGER_DEPLOY_def CONDITION_TYPE_CONSOLE_DEPLOY_def CONDITION_TYPE_LEAFHUB_DEPLOY_def CONDITION_REASON_LEAFHUB_DEPLOY_FAILED_def

lemmas condition_states = CONDITION_STATUS_TRUE_def CONDITION_STATUS_FALSE_def CONDITION_STATUS_UNKNOWN_def

section \<open>Reading the conditions\<close>

definition ContainsCondition :: "MulticlusterGlobalHub \<Rightarrow> string \<Rightarrow> bool" where
  "ContainsCondition mgh typeName = list_ex (\<lambda>c. c_Type c = typeName) (Conditions mgh)"

definition ContainConditionStatus :: "MulticlusterGlobalHub \<Rightarrow> string \<Rightarrow> string \<Rightarrow> bool" where
  "ContainConditionStatus mgh typeName status = list_ex (\<lambda>c. c_Type c = typeName \<and> c_Status c = status) (Conditions mgh)"

definition ContainConditionStatusReason :: "MulticlusterGlobalHub \<Rightarrow> string \<Rightarrow> string \<Rightarrow> string \<Rightarrow> bool" where
  "ContainConditionStatusReason mgh typeName reason status =
     list_ex (\<lambda>c. c_Type c = typeName \<and> c_Reason c = reason \<and> c_Status c = status) (Conditions mgh)"

definition GetConditionStatus :: "MulticlusterGlobalHub \<Rightarrow> string \<Rightarrow> string" where
  "GetConditionStatus mgh typeName =
     fold (\<lambda>c output. if c_Type c = typeName then c_Status c else output) (Conditions mgh) CONDITION_STATUS_UNKNOWN"

section \<open>Changing the conditions\<close>

definition hubKey :: "MulticlusterGlobalHub \<Rightarrow> nsname" where
  "hubKey mgh = (km_namespace mgh, km_name mgh)"

fun errText :: "opError \<Rightarrow> string" where
  "errText NotFound = ''not found''"
| "errText (OtherError msg) = msg"
| "errText Panic = ''panic''"

definition wrapError :: "string \<Rightarrow> 'a op \<Rightarrow> 'a op" where
  "wrapError msg m = op_try m (\<lambda>e. op_raise (OtherError (msg @ '': '' @ errText e))) op_return"

text \<open>\<open>Status().Update\<close> stores the status only.\<close>

definition statusUpdate :: "MulticlusterGlobalHub \<Rightarrow> MulticlusterGlobalHub op" where
  "statusUpdate mgh = api_update os_hubs os_hubs_update True (\<lambda>old new. old\<lparr>Conditions := Conditions new\<rparr>) (hubKey mgh) mgh"

definition DeleteCondition :: "MulticlusterGlobalHub \<Rightarrow> string \<Rightarrow> string \<Rightarrow> MulticlusterGlobalHub op" where
  "DeleteCondition mgh typeName reason =
     (let newConditions = filter (\<lambda>c. c_Type c \<noteq> typeName \<and> c_Reason c \<noteq> reason) (Conditions mgh) in
      wrapError ''failed to update hoh mgh status condition'' (statusUpdate (mgh\<lparr>Conditions := newConditions\<rparr>)))"

definition AppendCondition :: "MulticlusterGlobalHub \<Rightarrow> string \<Rightarrow> string \<Rightarrow> string \<Rightarrow> string \<Rightarrow> MulticlusterGlobalHub op" where
  "AppendCondition mgh typeName status reason message =
     op_bind (op_get (\<lambda>s. os_now s (os_calls s))) (\<lambda>now.
       let condition = \<lparr>c_Type = typeName, c_Status = status, c_Reason = reason, c_Message = message, c_LastTransitionTime = now\<rparr> in
       wrapError ''failed to update status condition'' (statusUpdate (mgh\<lparr>Conditions := Conditions mgh @ [condition]\<rparr>)))"

definition SetCondition :: "MulticlusterGlobalHub \<Rightarrow> string \<Rightarrow> string \<Rightarrow> string \<Rightarrow> string \<Rightarrow> MulticlusterGlobalHub op" where
  "SetCondition mgh typeName status reason message =
     (if \<not> ContainsCondition mgh typeName then AppendCondition mgh typeName status reason message
      else if GetConditionStatus mgh typeName \<noteq> status
      then op_bind (DeleteCondition mgh typeName reason) (\<lambda>mgh'. AppendCondition mgh' typeName status reason message)
      else op_return mgh)"

definition SetConditionDatabaseInit :: "MulticlusterGlobalHub \<Rightarrow> string \<Rightarrow> MulticlusterGlobalHub op" where
  "SetConditionDatabaseInit mgh status = SetCondition mgh CONDITION_TYPE_DATABASE_INIT status ''DatabaseInitialized'' ''Database has been initialized''"

definition SetConditionTransportInit :: "MulticlusterGlobalHub \<Rightarrow> string \<Rightarrow> MulticlusterGlobalHub op" where
  "SetConditionTransportInit mgh status = SetCondition mgh CONDITION_TYPE_TRANSPORT_INIT status ''TransportInitialized'' ''Transport has been initialized''"

definition SetConditionRBACDeployed :: "MulticlusterGlobalHub \<Rightarrow> string \<Rightarrow> MulticlusterGlobalHub op" where
  "SetConditionRBACDeployed mgh status = SetCondition mgh CONDITION_TYPE_RBAC_DEPLOY status ''RBACDeployed'' ''Multicluster Global Hub RBAC Deployed''"

definition SetConditionManagerDeployed :: "MulticlusterGlobalHub \<Rightarrow> string \<Rightarrow> MulticlusterGlobalHub op" where
  "SetConditionManagerDeployed mgh status = SetCondition mgh CONDITION_TYPE_MANAGER_DEPLOY status ''ManagerDeployed'' ''Multicluster Global Hub Manager Deployed''"

definition SetConditionConsoleDeployed :: "MulticlusterGlobalHub \<Rightarrow> string \<Rightarrow> MulticlusterGlobalHub op" where
  "SetConditionConsoleDeployed mgh status = SetCondition mgh CONDITION_TYPE_CONSOLE_DEPLOY status ''ConsoleDeployed'' ''Multicluster Global Hub Console Deployed''"

definition SetConditionLeafHubDeployed :: "MulticlusterGlobalHub \<Rightarrow> string \<Rightarrow> string \<Rightarrow> MulticlusterGlobalHub op" where
  "SetConditionLeafHubDeployed mgh clusterName status =
     (let (reason, message) = (if status = CONDITION_STATUS_FALSE
        then (CONDITION_REASON_LEAFHUB_DEPLOY_FAILED, ''Leaf Hub Deployed FAILED-'' @ clusterName)
        else (''LeafHubDeployed'', ''Leaf Hub Deployed'')) in
      SetCondition mgh CONDITION_TYPE_LEAFHUB_DEPLOY status reason message)"

section \<open>The invariant of the conditions\<close>

text \<open>There is one condition of a type, and its reason is one of the reasons of its type.\<close>

definition reasonsOf :: "string \<Rightarrow> string list" where
  "reasonsOf typeName = (if typeName = CONDITION_TYPE_LEAFHUB_DEPLOY then [''LeafHubDeployed'', CONDITION_REASON_LEAFHUB_DEPLOY_FAILED] else [typeName])"

definition conds_ok :: "Condition list \<Rightarrow> bool" where
  "conds_ok cs \<longleftrightarrow> distinct (map c_Type cs) \<and> list_all (\<lambda>c. c_Reason c \<in> set (reasonsOf (c_Type c)) \<and> c_Type c \<noteq> CONDITION_REASON_LEAFHUB_DEPLOY_FAILED) cs"

lemma reasonsOf_disjoint:
  "r \<in> set (reasonsOf t) \<Longrightarrow> r \<in> set (reasonsOf t') \<Longrightarrow> t \<noteq> CONDITION_REASON_LEAFHUB_DEPLOY_FAILED \<Longrightarrow> t' \<noteq> CONDITION_REASON_LEAFHUB_DEPLOY_FAILED \<Longrightarrow> t = t'"
  by (auto simp: reasonsOf_def condition_types split: if_splits)

lemma fold_status: "distinct (map c_Type cs) \<Longrightarrow>
  fold (\<lambda>c output. if c_Type c = t then c_Status c else output) cs u = (case find (\<lambda>c. c_Type c = t) cs of None \<Rightarrow> u | Some c \<Rightarrow> c_Status c)"
proof (induction cs arbitrary: u)
  case (Cons c cs)
  have "find (\<lambda>c. c_Type c = t) cs = None" if "c_Type c = t" using Cons.prems that by (fastforce simp: find_None_iff image_iff)
  then show ?case using Cons by auto
qed simp

lemma GetConditionStatus_find: "conds_ok (Conditions mgh) \<Longrightarrow>
  GetConditionStatus mgh t = (case find (\<lambda>c. c_Type c = t) (Conditions mgh) of None \<Rightarrow> CONDITION_STATUS_UNKNOWN | Some c \<Rightarrow> c_Status c)"
  by (simp add: GetConditionStatus_def fold_status conds_ok_def)

text \<open>The condition of a type: its status, if there is one.\<close>

definition condStatus :: "Condition list \<Rightarrow> string \<Rightarrow> string option" where
  "condStatus cs t = map_option c_Status (find (\<lambda>c. c_Type c = t) cs)"

lemma GetConditionStatus_cond: "conds_ok (Conditions mgh) \<Longrightarrow>
  GetConditionStatus mgh t = (case condStatus (Conditions mgh) t of None \<Rightarrow> CONDITION_STATUS_UNKNOWN | Some st \<Rightarrow> st)"
  by (simp add: GetConditionStatus_find condStatus_def split: option.split)

lemma ContainsCondition_cond: "ContainsCondition mgh t \<longleftrightarrow> condStatus (Conditions mgh) t \<noteq> None"
  by (auto simp: ContainsCondition_def condStatus_def find_None_iff list_ex_iff)

lemma ContainConditionStatus_cond:
  "conds_ok (Conditions mgh) \<Longrightarrow> ContainConditionStatus mgh t st \<longleftrightarrow> condStatus (Conditions mgh) t = Some st"
proof -
  have "distinct (map c_Type cs) \<Longrightarrow> list_ex (\<lambda>c. c_Type c = t \<and> c_Status c = st) cs \<longleftrightarrow> condStatus cs t = Some st" for cs
  proof (induction cs)
    case (Cons c cs)
    have "\<not> list_ex (\<lambda>c. c_Type c = t \<and> c_Status c = st) cs" if "c_Type c = t"
      using Cons.prems that by (auto simp: list_ex_iff image_iff)
    then show ?case using Cons by (auto simp: condStatus_def)
  qed (simp add: condStatus_def)
  then show "conds_ok (Conditions mgh) \<Longrightarrow> ?thesis" by (simp add: ContainConditionStatus_def conds_ok_def)
qed

lemma condStatus_append: "condStatus (cs @ [c]) t = (case condStatus cs t of None \<Rightarrow> (if c_Type c = t then Some (c_Status c) else None) | Some st \<Rightarrow> Some st)"
  by (induction cs) (auto simp: condStatus_def)

text \<open>Deleting by type and reason deletes exactly the condition of the type.\<close>

lemma conds_filter:
  assumes "conds_ok cs" and "r \<in> set (reasonsOf ty)" and "ty \<noteq> CONDITION_REASON_LEAFHUB_DEPLOY_FAILED"
  shows "filter (\<lambda>c. c_Type c \<noteq> ty \<and> c_Reason c \<noteq> r) cs = filter (\<lambda>c. c_Type c \<noteq> ty) cs"
proof (rule filter_cong [OF refl])
  fix c assume "c \<in> set cs"
  then show "(c_Type c \<noteq> ty \<and> c_Reason c \<noteq> r) = (c_Type c \<noteq> ty)"
    using assms reasonsOf_disjoint [of r ty "c_Type c"] by (auto simp: conds_ok_def list_all_iff)
qed

lemma conds_ok_filter: "conds_ok cs \<Longrightarrow> conds_ok (filter P cs)"
  by (simp add: conds_ok_def list_all_iff distinct_map_filter)

lemma conds_ok_append:
  "conds_ok cs \<Longrightarrow> condStatus cs (c_Type c) = None \<Longrightarrow> c_Reason c \<in> set (reasonsOf (c_Type c)) \<Longrightarrow> c_Type c \<noteq> CONDITION_REASON_LEAFHUB_DEPLOY_FAILED \<Longrightarrow> conds_ok (cs @ [c])"
  by (auto simp: conds_ok_def condStatus_def find_None_iff)

lemma condStatus_filter: "condStatus (filter (\<lambda>c. c_Type c \<noteq> ty) cs) t = (if t = ty then None else condStatus cs t)"
  by (induction cs) (auto simp: condStatus_def)

section \<open>The object in hand\<close>

definition hubs_ok :: "opState \<Rightarrow> bool" where
  "hubs_ok s \<longleftrightarrow> list_all (\<lambda>(k, x). hubKey x = k \<and> (km_deleting x \<longrightarrow> km_finalizers x \<noteq> []) \<and> km_resourceVersion x \<noteq> 0 \<and> conds_ok (Conditions x)) (os_hubs s)"

text \<open>The object in hand is the one the server has.\<close>

definition in_hand :: "MulticlusterGlobalHub \<Rightarrow> opState \<Rightarrow> bool" where
  "in_hand mgh s \<longleftrightarrow> hubs_ok s \<and> map_of (os_hubs s) (hubKey mgh) = Some mgh"

lemma in_handD:
  assumes "in_hand mgh s"
  shows "conds_ok (Conditions mgh)" and "km_deleting mgh \<Longrightarrow> km_finalizers mgh \<noteq> []" and "km_resourceVersion mgh \<noteq> 0"
  using assms map_of_SomeD [of "os_hubs s" "hubKey mgh" mgh] by (auto simp: in_hand_def hubs_ok_def list_all_iff)

text \<open>The hubs after an update of the conditions of one of them, or before it.\<close>

definition hubs_with :: "nsname \<Rightarrow> (Condition list \<Rightarrow> bool) \<Rightarrow> opState \<Rightarrow> bool" where
  "hubs_with k C s \<longleftrightarrow> hubs_ok s \<and> (\<exists>x. map_of (os_hubs s) k = Some x \<and> C (Conditions x))"

lemma set_AList_update: "y \<in> set (AList.update k v m) \<Longrightarrow> y = (k, v) \<or> y \<in> set m"
  by (induction m) (auto split: if_splits)

lemma statusUpdate_run:
  assumes "statusUpdate new s = (r, s')" and "in_hand mgh s" and "hubKey new = hubKey mgh" and "km_resourceVersion new = km_resourceVersion mgh"
    and "conds_ok (Conditions new)"
  shows "(\<exists>v. s' = os_hubs_update (AList.update (hubKey mgh) (mgh\<lparr>Conditions := Conditions new, km_resourceVersion := Suc (os_version s)\<rparr>))
             (s\<lparr>os_calls := Suc (os_calls s), os_version := Suc (os_version s)\<rparr>) \<and> (r = Inr (mgh\<lparr>Conditions := Conditions new, km_resourceVersion := Suc (os_version s)\<rparr>) \<or> r = Inl v))
     \<or> (\<exists>e. s' = s\<lparr>os_calls := Suc (os_calls s)\<rparr> \<and> r = Inl e)"
  using assms(1,2,4) in_handD(2) [OF assms(2)]
  by (auto simp: statusUpdate_def api_update_def api_call_def Let_def assms(3) in_hand_def in_handD(3) [OF assms(2)] split: answer.splits if_splits)

lemma hubs_ok_update:
  "hubs_ok s \<Longrightarrow> hubKey x = k \<Longrightarrow> (km_deleting x \<longrightarrow> km_finalizers x \<noteq> []) \<Longrightarrow> km_resourceVersion x \<noteq> 0 \<Longrightarrow> conds_ok (Conditions x) \<Longrightarrow>
   hubs_ok (os_hubs_update (AList.update k x) (s\<lparr>os_calls := c, os_version := v\<rparr>))"
  by (auto simp: hubs_ok_def list_all_iff dest!: set_AList_update)


definition same_hub :: "MulticlusterGlobalHub \<Rightarrow> MulticlusterGlobalHub \<Rightarrow> bool" where
  "same_hub mgh mgh' \<longleftrightarrow> mgh' = mgh\<lparr>Conditions := Conditions mgh', km_resourceVersion := km_resourceVersion mgh'\<rparr>"

lemma same_hub_trans: "same_hub a b \<Longrightarrow> same_hub b c \<Longrightarrow> same_hub a c"
  unfolding same_hub_def by (cases a; cases b; cases c) simp

lemma same_hubD:
  assumes "same_hub a b"
  shows "hubKey b = hubKey a" and "km_annotations b = km_annotations a" and "km_finalizers b = km_finalizers a" and "km_deleting b = km_deleting a"
    and "Transport b = Transport a" and "Storage b = Storage a" and "km_namespace b = km_namespace a" and "km_name b = km_name a"
proof -
  have "b = a\<lparr>Conditions := Conditions b, km_resourceVersion := km_resourceVersion b\<rparr>" using assms by (simp add: same_hub_def)
  then obtain cs v where b: "b = a\<lparr>Conditions := cs, km_resourceVersion := v\<rparr>" by blast
  show "hubKey b = hubKey a" and "km_annotations b = km_annotations a" and "km_finalizers b = km_finalizers a" and "km_deleting b = km_deleting a"
    and "Transport b = Transport a" and "Storage b = Storage a" and "km_namespace b = km_namespace a" and "km_name b = km_name a"
    by (simp_all add: b hubKey_def)
qed

lemma statusUpdate_triple:
  assumes "hubKey new = hubKey mgh" and "km_resourceVersion new = km_resourceVersion mgh" and "conds_ok (Conditions new)"
  shows "triple (in_hand mgh) (statusUpdate new) (\<lambda>mgh' s. in_hand mgh' s \<and> same_hub mgh mgh' \<and> Conditions mgh' = Conditions new)
     (\<lambda>e. hubs_with (hubKey mgh) (\<lambda>cs. cs = Conditions mgh \<or> cs = Conditions new))"
proof -
  have "(case r of Inr mgh' \<Rightarrow> in_hand mgh' s' \<and> same_hub mgh mgh' \<and> Conditions mgh' = Conditions new
      | Inl e \<Rightarrow> hubs_with (hubKey mgh) (\<lambda>cs. cs = Conditions mgh \<or> cs = Conditions new) s')"
    if s: "in_hand mgh s" and run: "statusUpdate new s = (r, s')" for s r s'
  proof -
    let ?m = "mgh\<lparr>Conditions := Conditions new, km_resourceVersion := Suc (os_version s)\<rparr>"
    have "hubs_ok (os_hubs_update (AList.update (hubKey mgh) ?m) (s\<lparr>os_calls := Suc (os_calls s), os_version := Suc (os_version s)\<rparr>))"
      using s in_handD [OF s] assms(3) by (intro hubs_ok_update) (auto simp: in_hand_def hubKey_def)
    moreover have "hubs_ok (s\<lparr>os_calls := Suc (os_calls s)\<rparr>)" using s by (simp add: in_hand_def hubs_ok_def)
    ultimately show ?thesis
      using statusUpdate_run [OF run s assms] s by (auto simp: in_hand_def hubs_with_def same_hub_def hubKey_def)
  qed
  then show ?thesis by (intro tripleI) fastforce+
qed

lemma triple_wrapError: "triple P m Q (\<lambda>_. E) \<Longrightarrow> triple P (wrapError msg m) Q (\<lambda>_. E)"
  unfolding wrapError_def by (rule triple_try [where F = "\<lambda>_. E"]) (auto intro!: op_rules)

lemma AppendCondition_triple:
  assumes "reason \<in> set (reasonsOf ty)" and "ty \<noteq> CONDITION_REASON_LEAFHUB_DEPLOY_FAILED" and "condStatus (Conditions mgh) ty = None"
  shows "triple (in_hand mgh) (AppendCondition mgh ty status reason message)
     (\<lambda>mgh' s. in_hand mgh' s \<and> same_hub mgh mgh' \<and> condStatus (Conditions mgh') = (condStatus (Conditions mgh))(ty \<mapsto> status))
     (\<lambda>_. hubs_with (hubKey mgh) (\<lambda>cs. \<forall>t. t \<noteq> ty \<longrightarrow> condStatus cs t = condStatus (Conditions mgh) t))"
proof (cases "conds_ok (Conditions mgh)")
  case True
  show ?thesis
    unfolding AppendCondition_def Let_def
  proof (rule triple_bind [where R = "\<lambda>_. in_hand mgh"], goal_cases)
    case (2 now)
    let ?c = "\<lparr>c_Type = ty, c_Status = status, c_Reason = reason, c_Message = message, c_LastTransitionTime = now\<rparr>"
    have "conds_ok (Conditions mgh @ [?c])" using True assms by (intro conds_ok_append) simp_all
    then show ?case
      by (intro triple_wrapError triple_weaken [OF statusUpdate_triple [of "mgh\<lparr>Conditions := Conditions mgh @ [?c]\<rparr>" mgh]])
         (auto simp: hubKey_def hubs_with_def condStatus_append assms(3) fun_eq_iff split: option.splits)
  qed (auto intro!: op_rules)
next
  case False
  then show ?thesis using in_handD(1) by (auto simp: triple_def)
qed

lemma DeleteCondition_triple:
  assumes "reason \<in> set (reasonsOf ty)" and "ty \<noteq> CONDITION_REASON_LEAFHUB_DEPLOY_FAILED"
  shows "triple (in_hand mgh) (DeleteCondition mgh ty reason)
     (\<lambda>mgh' s. in_hand mgh' s \<and> same_hub mgh mgh' \<and> condStatus (Conditions mgh') = (condStatus (Conditions mgh))(ty := None))
     (\<lambda>_. hubs_with (hubKey mgh) (\<lambda>cs. \<forall>t. t \<noteq> ty \<longrightarrow> condStatus cs t = condStatus (Conditions mgh) t))"
proof (cases "conds_ok (Conditions mgh)")
  case True
  show ?thesis
    unfolding DeleteCondition_def Let_def conds_filter [OF True assms]
    by (intro triple_wrapError triple_weaken [OF statusUpdate_triple [of "mgh\<lparr>Conditions := filter (\<lambda>c. c_Type c \<noteq> ty) (Conditions mgh)\<rparr>" mgh]])
       (auto simp: hubKey_def hubs_with_def condStatus_filter fun_eq_iff intro: conds_ok_filter [OF True])
next
  case False
  then show ?thesis using in_handD(1) by (auto simp: triple_def)
qed


lemma SetCondition_triple:
  assumes "reason \<in> set (reasonsOf ty)" and "ty \<noteq> CONDITION_REASON_LEAFHUB_DEPLOY_FAILED"
  shows "triple (in_hand mgh) (SetCondition mgh ty status reason message)
     (\<lambda>mgh' s. in_hand mgh' s \<and> same_hub mgh mgh' \<and> condStatus (Conditions mgh') = (condStatus (Conditions mgh))(ty \<mapsto> status))
     (\<lambda>_. hubs_with (hubKey mgh) (\<lambda>cs. \<forall>t. t \<noteq> ty \<longrightarrow> condStatus cs t = condStatus (Conditions mgh) t))"
    (is "triple _ _ (?Q mgh) (?E mgh)")
proof (cases "conds_ok (Conditions mgh)")
  case True
  show ?thesis
    unfolding SetCondition_def
  proof (intro triple_if)
    assume "\<not> ContainsCondition mgh ty"
    then show "triple (in_hand mgh) (AppendCondition mgh ty status reason message) (?Q mgh) (?E mgh)"
      by (intro AppendCondition_triple [OF assms]) (simp add: ContainsCondition_cond)
  next
    show "triple (in_hand mgh) (op_bind (DeleteCondition mgh ty reason) (\<lambda>mgh'. AppendCondition mgh' ty status reason message)) (?Q mgh) (?E mgh)"
    proof (rule triple_bind [OF DeleteCondition_triple [OF assms]])
      fix mgh1
      show "triple (\<lambda>s. in_hand mgh1 s \<and> same_hub mgh mgh1 \<and> condStatus (Conditions mgh1) = (condStatus (Conditions mgh))(ty := None))
          (AppendCondition mgh1 ty status reason message) (?Q mgh) (?E mgh)"
      proof (cases "same_hub mgh mgh1 \<and> condStatus (Conditions mgh1) = (condStatus (Conditions mgh))(ty := None)")
        case True
        then show ?thesis
          by (intro triple_weaken [OF AppendCondition_triple [OF assms, of mgh1]]) (auto intro: same_hub_trans simp: hubs_with_def same_hubD(1))
      qed (auto simp: triple_def)
    qed
  next
    assume "\<not> \<not> ContainsCondition mgh ty" and "\<not> GetConditionStatus mgh ty \<noteq> status"
    then show "triple (in_hand mgh) (op_return mgh) (?Q mgh) (?E mgh)"
      using GetConditionStatus_cond [OF True, of ty] by (intro triple_return) (auto simp: same_hub_def ContainsCondition_cond fun_eq_iff)
  qed
next
  case False
  then show ?thesis using in_handD(1) by (auto simp: triple_def)
qed

text \<open>What the update of a status keeps, the setters keep.\<close>

lemma keeps_wrapError [op_keeps]: "keeps I m \<Longrightarrow> keeps I (wrapError msg m)"
  unfolding wrapError_def by (intro op_keeps)

lemma SetCondition_keeps:
  assumes "\<And>m. keeps I (statusUpdate m)"
  shows "keeps I (SetCondition mgh ty status reason message)"
  unfolding SetCondition_def AppendCondition_def DeleteCondition_def by (intro op_keeps assms)

text \<open>An update of a status changes the conditions of a hub and nothing else.\<close>

lemma statusUpdate_keeps:
  assumes "\<And>s c. I s \<Longrightarrow> I (s\<lparr>os_calls := c\<rparr>)"
    and "\<And>s k x c v w cs. I s \<Longrightarrow> map_of (os_hubs s) k = Some x \<Longrightarrow>
       I (os_hubs_update (AList.update k (x\<lparr>Conditions := cs, km_resourceVersion := v\<rparr>)) (s\<lparr>os_calls := c, os_version := w\<rparr>))"
    and "\<And>s k x c w. I s \<Longrightarrow> map_of (os_hubs s) k = Some x \<Longrightarrow> km_finalizers x = [] \<Longrightarrow> I (os_hubs_update (AList.delete k) (s\<lparr>os_calls := c, os_version := w\<rparr>))"
  shows "keeps I (statusUpdate mgh)"
  unfolding statusUpdate_def
proof (rule keeps_api_update, goal_cases)
  case (3 s old c v w)
  have "old\<lparr>Conditions := Conditions mgh, km_deleting := km_deleting old, km_resourceVersion := v\<rparr> = old\<lparr>Conditions := Conditions mgh, km_resourceVersion := v\<rparr>"
    by simp
  then show ?case using assms(2) [OF 3(1,2)] by simp
qed (use assms in auto)

section \<open>The contract of the setters\<close>

text \<open>
  A setter for the conditions of a type: when it succeeds the object in hand has the condition with the status and the others
  as before, and when it fails the others are as before on the server.
\<close>

locale condition_setter =
  fixes setter :: "MulticlusterGlobalHub \<Rightarrow> string \<Rightarrow> MulticlusterGlobalHub op" and ty :: string
  assumes sets: "triple (in_hand mgh) (setter mgh status)
     (\<lambda>mgh' s. in_hand mgh' s \<and> same_hub mgh mgh' \<and> condStatus (Conditions mgh') = (condStatus (Conditions mgh))(ty \<mapsto> status))
     (\<lambda>_. hubs_with (hubKey mgh) (\<lambda>cs. \<forall>t. t \<noteq> ty \<longrightarrow> condStatus cs t = condStatus (Conditions mgh) t))"
    and keeps: "(\<And>m. keeps I (statusUpdate m)) \<Longrightarrow> keeps I (setter mgh status)"
begin

lemma keeps_other:
  assumes "t \<noteq> ty" and "condStatus (Conditions mgh) t = c"
  shows "triple (in_hand mgh) (setter mgh status) (\<lambda>mgh' s. in_hand mgh' s \<and> same_hub mgh mgh' \<and> condStatus (Conditions mgh') t = c)
     (\<lambda>_. hubs_with (hubKey mgh) (\<lambda>cs. condStatus cs t = c))"
  by (rule triple_weaken [OF sets]) (use assms in \<open>auto simp: hubs_with_def\<close>)

end

lemmas setter_defs = SetConditionDatabaseInit_def SetConditionTransportInit_def SetConditionRBACDeployed_def SetConditionManagerDeployed_def
  SetConditionConsoleDeployed_def SetConditionLeafHubDeployed_def

interpretation database_init: condition_setter SetConditionDatabaseInit CONDITION_TYPE_DATABASE_INIT
  by unfold_locales (auto simp: setter_defs reasonsOf_def condition_types intro!: SetCondition_triple SetCondition_keeps)

interpretation transport_init: condition_setter SetConditionTransportInit CONDITION_TYPE_TRANSPORT_INIT
  by unfold_locales (auto simp: setter_defs reasonsOf_def condition_types intro!: SetCondition_triple SetCondition_keeps)

interpretation rbac_deployed: condition_setter SetConditionRBACDeployed CONDITION_TYPE_RBAC_DEPLOY
  by unfold_locales (auto simp: setter_defs reasonsOf_def condition_types intro!: SetCondition_triple SetCondition_keeps)

interpretation manager_deployed: condition_setter SetConditionManagerDeployed CONDITION_TYPE_MANAGER_DEPLOY
  by unfold_locales (auto simp: setter_defs reasonsOf_def condition_types intro!: SetCondition_triple SetCondition_keeps)

interpretation console_deployed: condition_setter SetConditionConsoleDeployed CONDITION_TYPE_CONSOLE_DEPLOY
  by unfold_locales (auto simp: setter_defs reasonsOf_def condition_types intro!: SetCondition_triple SetCondition_keeps)

interpretation leafhub_deployed: condition_setter "\<lambda>mgh. SetConditionLeafHubDeployed mgh clusterName" CONDITION_TYPE_LEAFHUB_DEPLOY for clusterName
  by unfold_locales (auto simp: setter_defs reasonsOf_def condition_types intro!: SetCondition_triple SetCondition_keeps)

end
