(* ===== verification/GH_Deployer.thy ===== *)
theory GH_Deployer
  imports GH_OpBase
begin

text \<open>
  The deployer of the operator (\<open>src/operator/pkg/deployer/hoh_deployer.go\<close>): it creates an object that is missing and brings
  an existing one of a known kind to the desired fields. The semantic comparison \<open>DeepDerivative\<close>, the conversion of an
  unstructured object to the type of its kind and whether the API server demands a resource version for a kind are
  parameters.
\<close>

record deployLib =
  dl_derivative :: "jvalue option \<Rightarrow> jvalue option \<Rightarrow> bool"
  dl_typed :: "string \<Rightarrow> kobject \<Rightarrow> kobject option"
  dl_versioned :: "string \<Rightarrow> bool"

definition objectKey :: "kobject \<Rightarrow> kkey" where
  "objectKey o1 = (ko_kind o1, km_namespace o1, km_name o1)"

definition objectField :: "kobject \<Rightarrow> string \<Rightarrow> jvalue option" where
  "objectField o1 f = map_of (ko_fields o1) f"

definition client_Get :: "kkey \<Rightarrow> kobject op" where
  "client_Get k = api_get os_objects k"

definition client_Create :: "kobject \<Rightarrow> kobject op" where
  "client_Create x = api_create os_objects os_objects_update (objectKey x) x"

definition client_Update :: "deployLib \<Rightarrow> kobject \<Rightarrow> kobject op" where
  "client_Update lib x = api_update os_objects os_objects_update (dl_versioned lib (ko_kind x)) (\<lambda>old new. new) (objectKey x) x"

definition client_Delete :: "kkey \<Rightarrow> unit op" where
  "client_Delete k = api_delete os_objects os_objects_update k"

definition drop_result :: "'a op \<Rightarrow> unit op" where
  "drop_result m = op_bind m (\<lambda>_. op_return ())"

text \<open>\<open>json.Unmarshal\<close> into the type of the kind: first the existing object, then the desired one.\<close>

definition withTyped :: "deployLib \<Rightarrow> string \<Rightarrow> kobject \<Rightarrow> kobject \<Rightarrow> (kobject \<Rightarrow> kobject \<Rightarrow> unit op) \<Rightarrow> unit op" where
  "withTyped lib kind desiredObj existingObj f =
     (case dl_typed lib kind existingObj of
        None \<Rightarrow> op_raise (OtherError ''cannot unmarshal'')
      | Some existing \<Rightarrow>
          (case dl_typed lib kind desiredObj of
             None \<Rightarrow> op_raise (OtherError ''cannot unmarshal'')
           | Some desired \<Rightarrow> f desired existing))"

definition derives :: "deployLib \<Rightarrow> string list \<Rightarrow> kobject \<Rightarrow> kobject \<Rightarrow> bool" where
  "derives lib names desired existing = list_all (\<lambda>f. dl_derivative lib (objectField desired f) (objectField existing f)) names"

text \<open>Most kinds are updated with the desired object as it is.\<close>

definition deployFields :: "deployLib \<Rightarrow> string \<Rightarrow> string list \<Rightarrow> kobject \<Rightarrow> kobject \<Rightarrow> unit op" where
  "deployFields lib kind names desiredObj existingObj = withTyped lib kind desiredObj existingObj (\<lambda>desired existing.
     if \<not> derives lib names desired existing then drop_result (client_Update lib desired) else op_return ())"

definition deployDeployment :: "deployLib \<Rightarrow> kobject \<Rightarrow> kobject \<Rightarrow> unit op" where
  "deployDeployment lib = deployFields lib ''Deployment'' [''spec'']"

text \<open>A job cannot be updated: it is deleted and created again.\<close>

definition deployJob :: "deployLib \<Rightarrow> kobject \<Rightarrow> kobject \<Rightarrow> unit op" where
  "deployJob lib desiredObj existingObj = withTyped lib ''Job'' desiredObj existingObj (\<lambda>desired existing.
     if \<not> derives lib [''spec''] desired existing
     then op_bind (ignoreNotFound (client_Delete (objectKey existing))) (\<lambda>_. drop_result (client_Create desired))
     else op_return ())"

definition specMap :: "kobject \<Rightarrow> (string, jvalue) gomap" where
  "specMap o1 = (case objectField o1 ''spec'' of Some (JMap m) \<Rightarrow> m | _ \<Rightarrow> [])"

definition withClusterIP :: "kobject \<Rightarrow> kobject \<Rightarrow> kobject" where
  "withClusterIP existing desired =
     desired\<lparr>ko_fields := AList.update ''spec''
        (JMap (AList.update ''clusterIP'' (case map_of (specMap existing) ''clusterIP'' of Some v \<Rightarrow> v | None \<Rightarrow> JString '''') (specMap desired))) (ko_fields desired)\<rparr>"

definition deployService :: "deployLib \<Rightarrow> kobject \<Rightarrow> kobject \<Rightarrow> unit op" where
  "deployService lib desiredObj existingObj = withTyped lib ''Service'' desiredObj existingObj (\<lambda>desired existing.
     if \<not> derives lib [''spec''] desired existing
     then drop_result (client_Update lib (withClusterIP existing (desired\<lparr>km_resourceVersion := km_resourceVersion existing\<rparr>)))
     else op_return ())"

definition deployServiceAccount :: "deployLib \<Rightarrow> kobject \<Rightarrow> kobject \<Rightarrow> unit op" where
  "deployServiceAccount lib desiredObj existingObj = withTyped lib ''ServiceAccount'' desiredObj existingObj (\<lambda>desired existing.
     if \<not> derives lib [''secrets'', ''imagePullSecrets''] desired existing
     then drop_result (client_Update lib (desired\<lparr>km_resourceVersion := km_resourceVersion existing\<rparr>))
     else op_return ())"

definition deployConfigMap :: "deployLib \<Rightarrow> kobject \<Rightarrow> kobject \<Rightarrow> unit op" where
  "deployConfigMap lib = deployFields lib ''ConfigMap'' [''data'']"

definition deploySecret :: "deployLib \<Rightarrow> kobject \<Rightarrow> kobject \<Rightarrow> unit op" where
  "deploySecret lib = deployFields lib ''Secret'' [''data'']"

definition deployRole :: "deployLib \<Rightarrow> kobject \<Rightarrow> kobject \<Rightarrow> unit op" where
  "deployRole lib = deployFields lib ''Role'' [''rules'']"

definition deployRoleBinding :: "deployLib \<Rightarrow> kobject \<Rightarrow> kobject \<Rightarrow> unit op" where
  "deployRoleBinding lib = deployFields lib ''RoleBinding'' [''subjects'', ''roleRef'']"

definition deployClusterRole :: "deployLib \<Rightarrow> kobject \<Rightarrow> kobject \<Rightarrow> unit op" where
  "deployClusterRole lib = deployFields lib ''ClusterRole'' [''rules'', ''aggregationRule'']"

definition deployClusterRoleBinding :: "deployLib \<Rightarrow> kobject \<Rightarrow> kobject \<Rightarrow> unit op" where
  "deployClusterRoleBinding lib = deployFields lib ''ClusterRoleBinding'' [''subjects'', ''roleRef'']"

definition deployCRD :: "deployLib \<Rightarrow> kobject \<Rightarrow> kobject \<Rightarrow> unit op" where
  "deployCRD lib = deployFields lib ''CustomResourceDefinition'' [''spec'']"

definition NewHoHDeployer :: "deployLib \<Rightarrow> (string, kobject \<Rightarrow> kobject \<Rightarrow> unit op) gomap" where
  "NewHoHDeployer lib =
     [(''Deployment'', deployDeployment lib), (''Job'', deployJob lib), (''Service'', deployService lib),
      (''ServiceAccount'', deployServiceAccount lib), (''ConfigMap'', deployConfigMap lib), (''Secret'', deploySecret lib),
      (''Role'', deployRole lib), (''RoleBinding'', deployRoleBinding lib), (''ClusterRole'', deployClusterRole lib),
      (''ClusterRoleBinding'', deployClusterRoleBinding lib), (''CustomResourceDefinition'', deployCRD lib)]"

definition lowerChar :: "char \<Rightarrow> char" where
  "lowerChar ch = (if (65 :: nat) \<le> of_char ch \<and> of_char ch \<le> (90 :: nat) then char_of (of_char ch + 32 :: nat) else ch)"

definition ToLower :: "string \<Rightarrow> string" where
  "ToLower s = map lowerChar s"

definition skipIfExists :: "kobject \<Rightarrow> bool" where
  "skipIfExists o1 = (case map_of (km_annotations o1) ''skip-creation-if-exist'' of None \<Rightarrow> False | Some v \<Rightarrow> ToLower v = ''true'')"

definition Deploy :: "deployLib \<Rightarrow> kobject \<Rightarrow> unit op" where
  "Deploy lib unsObj =
     op_try (client_Get (objectKey unsObj))
       (\<lambda>e. if e = NotFound then drop_result (client_Create unsObj) else op_raise e)
       (\<lambda>foundObj.
          if skipIfExists unsObj then op_return ()
          else (case map_of (NewHoHDeployer lib) (ko_kind foundObj) of
                  None \<Rightarrow> op_return ()
                | Some deployFunction \<Rightarrow> deployFunction unsObj foundObj))"


section \<open>Deploying twice\<close>

text \<open>
  What is relied on: a conversion keeps name, kind and version and can be repeated on what the server made of the object; a
  value derives from itself, and from itself with a key it does not have.
\<close>

definition stamped :: "nat \<Rightarrow> bool \<Rightarrow> kobject \<Rightarrow> kobject" where
  "stamped v b o1 = o1\<lparr>km_deleting := b, km_resourceVersion := v\<rparr>"

definition lib_ok :: "deployLib \<Rightarrow> bool" where
  "lib_ok lib \<longleftrightarrow>
     (\<forall>kind x y. dl_typed lib kind x = Some y \<longrightarrow> objectKey y = objectKey x \<and> km_resourceVersion y = km_resourceVersion x) \<and>
     (\<forall>kind x y v b. dl_typed lib kind x = Some y \<longrightarrow>
        dl_typed lib kind (stamped v b x) = Some (stamped v b y) \<and> dl_typed lib kind (stamped v b y) = Some (stamped v b y)) \<and>
     (\<forall>v. dl_derivative lib v v)"

text \<open>The fields that are compared of a kind.\<close>

definition comparedFields :: "(string, string list) gomap" where
  "comparedFields =
     [(''Deployment'', [''spec'']), (''Job'', [''spec'']), (''Service'', [''spec'']), (''ServiceAccount'', [''secrets'', ''imagePullSecrets'']),
      (''ConfigMap'', [''data'']), (''Secret'', [''data'']), (''Role'', [''rules'']), (''RoleBinding'', [''subjects'', ''roleRef'']),
      (''ClusterRole'', [''rules'', ''aggregationRule'']), (''ClusterRoleBinding'', [''subjects'', ''roleRef'']), (''CustomResourceDefinition'', [''spec''])]"

text \<open>The desired object is settled by what the server has: a deployment would leave it.\<close>

definition settled :: "deployLib \<Rightarrow> kobject \<Rightarrow> kobject \<Rightarrow> bool" where
  "settled lib desiredObj cur \<longleftrightarrow> skipIfExists desiredObj \<or>
     (case map_of comparedFields (ko_kind cur) of
        None \<Rightarrow> True
      | Some names \<Rightarrow>
          (case (dl_typed lib (ko_kind cur) desiredObj, dl_typed lib (ko_kind cur) cur) of
             (Some desired, Some existing) \<Rightarrow> derives lib names desired existing
           | _ \<Rightarrow> False))"

text \<open>The services the operator deploys leave the address of the service to the cluster, and comparing ignores it.\<close>

definition service_ok :: "deployLib \<Rightarrow> kobject \<Rightarrow> bool" where
  "service_ok lib desiredObj \<longleftrightarrow> (\<forall>desired existing. ko_kind desiredObj = ''Service'' \<longrightarrow> dl_typed lib ''Service'' desiredObj = Some desired \<longrightarrow>
     (\<forall>v b. dl_typed lib ''Service'' (stamped v b (withClusterIP existing desired)) = Some (stamped v b (withClusterIP existing desired))) \<and>
     dl_derivative lib (objectField desired ''spec'') (objectField (withClusterIP existing desired) ''spec''))"

definition objects_ok :: "opState \<Rightarrow> bool" where
  "objects_ok s \<longleftrightarrow> list_all (\<lambda>(k, x). objectKey x = k) (os_objects s)"

lemma objects_okD: "objects_ok s \<Longrightarrow> map_of (os_objects s) k = Some x \<Longrightarrow> objectKey x = k"
  by (auto simp: objects_ok_def list_all_iff dest!: map_of_SomeD)

lemma lib_okD:
  assumes "lib_ok lib" and "dl_typed lib kind x = Some y"
  shows "objectKey y = objectKey x" and "km_resourceVersion y = km_resourceVersion x" and "dl_typed lib kind (stamped v b x) = Some (stamped v b y)"
    and "dl_typed lib kind (stamped v b y) = Some (stamped v b y)" and "dl_derivative lib w w"
  using assms unfolding lib_ok_def by blast+

lemma derives_refl: "lib_ok lib \<Longrightarrow> derives lib names x x"
  by (simp add: derives_def lib_ok_def list_all_iff)

lemma stamped_fields [simp]: "ko_fields (stamped v b x) = ko_fields x" "objectKey (stamped v b x) = objectKey x" "ko_kind (stamped v b x) = ko_kind x"
  by (simp_all add: stamped_def objectKey_def)

lemma objectField_stamped [simp]: "objectField (stamped v b x) f = objectField x f"
  by (simp add: objectField_def)

lemma derives_stamped [simp]: "derives lib names (stamped v b x) y = derives lib names x y" "derives lib names x (stamped v b y) = derives lib names x y"
  by (simp_all add: derives_def)

text \<open>What an update that succeeds stored.\<close>

lemma client_Update_stored:
  assumes "client_Update lib x s = (Inr y, s')"
  shows "\<exists>v b. y = stamped v b x \<and> (map_of (os_objects s') (objectKey x) = Some y \<or> map_of (os_objects s') (objectKey x) = None)"
  using assms unfolding client_Update_def by (rule api_update_InrD) (auto simp: stamped_def)

lemma client_Create_stored:
  assumes "client_Create x s = (Inr y, s')"
  shows "\<exists>v. y = stamped v (km_deleting x) x \<and> map_of (os_objects s') (objectKey x) = Some y"
  using api_create_InrD [OF assms [unfolded client_Create_def]] by (auto simp: stamped_def)

lemma withTyped_InrD:
  assumes "withTyped lib kind desiredObj existingObj f s = (Inr (), s')"
  obtains desired existing where "dl_typed lib kind existingObj = Some existing" and "dl_typed lib kind desiredObj = Some desired" and "f desired existing s = (Inr (), s')"
  using assms by (auto simp: withTyped_def split: option.splits)

text \<open>The object was left because it derives, or it was written and then derives from what was written.\<close>

lemma written_settles:
  assumes ok: "lib_ok lib" and kind: "ko_kind desiredObj = kind" "objectKey existingObj = objectKey desiredObj" and names: "map_of comparedFields kind = Some names"
    and run: "withTyped lib kind desiredObj existingObj (\<lambda>desired existing. if \<not> derives lib names desired existing then f desired existing else op_return ()) s = (Inr (), s')"
    and at: "map_of (os_objects s) (objectKey desiredObj) = Some existingObj" "map_of (os_objects s') (objectKey desiredObj) = Some cur"
    and written: "\<And>desired existing. dl_typed lib kind desiredObj = Some desired \<Longrightarrow> objectKey desired = objectKey desiredObj \<Longrightarrow> f desired existing s = (Inr (), s') \<Longrightarrow>
       ko_kind cur = kind \<and> (\<exists>y. dl_typed lib kind cur = Some y \<and> derives lib names desired y)"
  shows "settled lib desiredObj cur"
proof -
  from run obtain desired existing where t: "dl_typed lib kind existingObj = Some existing" "dl_typed lib kind desiredObj = Some desired"
    and f: "(if \<not> derives lib names desired existing then f desired existing else op_return ()) s = (Inr (), s')"
    by (rule withTyped_InrD)
  show ?thesis
  proof (cases "derives lib names desired existing")
    case True
    then have "cur = existingObj" using f at by simp
    then show ?thesis using True t kind names by (auto simp: settled_def objectKey_def)
  next
    case False
    then have "f desired existing s = (Inr (), s')" using f by simp
    from written [OF t(2) lib_okD(1) [OF ok t(2)] this] show ?thesis using t(2) names by (auto simp: settled_def)
  qed
qed

lemma stored_derives:
  assumes "lib_ok lib" and "dl_typed lib kind desiredObj = Some desired" and "cur = stamped v b desired" and "ko_kind desired = kind"
  shows "ko_kind cur = kind \<and> (\<exists>y. dl_typed lib kind cur = Some y \<and> derives lib names desired y)"
  using lib_okD(4) [OF assms(1,2)] derives_refl [OF assms(1)] assms(3,4) by simp

lemma deployFields_settles:
  assumes "lib_ok lib" and "deployFields lib (ko_kind desiredObj) names desiredObj existingObj s = (Inr (), s')"
    and "map_of comparedFields (ko_kind desiredObj) = Some names" and "map_of (os_objects s) (objectKey desiredObj) = Some existingObj"
    and "objectKey existingObj = objectKey desiredObj" and cur: "map_of (os_objects s') (objectKey desiredObj) = Some cur"
  shows "settled lib desiredObj cur"
proof (rule written_settles [OF assms(1) refl assms(5,3) _ assms(4) cur])
  fix desired existing assume t: "dl_typed lib (ko_kind desiredObj) desiredObj = Some desired" "objectKey desired = objectKey desiredObj"
    and "drop_result (client_Update lib desired) s = (Inr (), s')"
  then obtain y where "client_Update lib desired s = (Inr y, s')" by (auto simp: drop_result_def op_bind_run)
  from client_Update_stored [OF this] obtain v b where "cur = stamped v b desired" using cur t(2) by auto
  then show "ko_kind cur = ko_kind desiredObj \<and> (\<exists>y. dl_typed lib (ko_kind desiredObj) cur = Some y \<and> derives lib names desired y)"
    using stored_derives [OF assms(1) t(1)] t(2) by (simp add: objectKey_def)
qed (use assms(2) in \<open>simp add: deployFields_def\<close>)

lemma deployFields_idle:
  assumes "settled lib desiredObj existingObj" and "\<not> skipIfExists desiredObj" and "map_of comparedFields (ko_kind existingObj) = Some names"
  shows "deployFields lib (ko_kind existingObj) names desiredObj existingObj s = (Inr (), s)"
  using assms by (auto simp: settled_def deployFields_def withTyped_def split: option.splits)

text \<open>The contract of a function that deploys the objects of a kind.\<close>

locale kind_deployer =
  fixes lib :: deployLib and kind :: string and deploy :: "kobject \<Rightarrow> kobject \<Rightarrow> unit op"
  assumes settles: "lib_ok lib \<Longrightarrow> service_ok lib desiredObj \<Longrightarrow> ko_kind desiredObj = kind \<Longrightarrow> map_of (os_objects s) (objectKey desiredObj) = Some existingObj \<Longrightarrow>
       objectKey existingObj = objectKey desiredObj \<Longrightarrow> deploy desiredObj existingObj s = (Inr (), s') \<Longrightarrow>
       map_of (os_objects s') (objectKey desiredObj) = Some cur \<Longrightarrow> settled lib desiredObj cur"
    and idle: "settled lib desiredObj existingObj \<Longrightarrow> \<not> skipIfExists desiredObj \<Longrightarrow> ko_kind existingObj = kind \<Longrightarrow> deploy desiredObj existingObj s = (Inr (), s)"
begin

text \<open>Deploying again what was deployed does nothing.\<close>

lemma deploy_twice:
  assumes "lib_ok lib" and "service_ok lib desiredObj" and "ko_kind desiredObj = kind" and "\<not> skipIfExists desiredObj"
    and "map_of (os_objects s) (objectKey desiredObj) = Some existingObj" and "objectKey existingObj = objectKey desiredObj"
    and "deploy desiredObj existingObj s = (Inr (), s')" and "map_of (os_objects s') (objectKey desiredObj) = Some cur" and "ko_kind cur = kind"
  shows "deploy desiredObj cur s2 = (Inr (), s2)"
  by (rule idle [OF settles [OF assms(1-3,5-8)] assms(4,9)])

end

lemma kind_deployerI: "map_of comparedFields kind = Some names \<Longrightarrow> kind_deployer lib kind (deployFields lib kind names)"
  by unfold_locales (auto intro: deployFields_settles deployFields_idle)

interpretation deployments: kind_deployer lib "''Deployment''" "deployDeployment lib" for lib
  unfolding deployDeployment_def by (rule kind_deployerI) (simp add: comparedFields_def)

interpretation configMaps: kind_deployer lib "''ConfigMap''" "deployConfigMap lib" for lib
  unfolding deployConfigMap_def by (rule kind_deployerI) (simp add: comparedFields_def)

interpretation secrets: kind_deployer lib "''Secret''" "deploySecret lib" for lib
  unfolding deploySecret_def by (rule kind_deployerI) (simp add: comparedFields_def)

interpretation roles: kind_deployer lib "''Role''" "deployRole lib" for lib
  unfolding deployRole_def by (rule kind_deployerI) (simp add: comparedFields_def)

interpretation roleBindings: kind_deployer lib "''RoleBinding''" "deployRoleBinding lib" for lib
  unfolding deployRoleBinding_def by (rule kind_deployerI) (simp add: comparedFields_def)

interpretation clusterRoles: kind_deployer lib "''ClusterRole''" "deployClusterRole lib" for lib
  unfolding deployClusterRole_def by (rule kind_deployerI) (simp add: comparedFields_def)

interpretation clusterRoleBindings: kind_deployer lib "''ClusterRoleBinding''" "deployClusterRoleBinding lib" for lib
  unfolding deployClusterRoleBinding_def by (rule kind_deployerI) (simp add: comparedFields_def)

interpretation definitions: kind_deployer lib "''CustomResourceDefinition''" "deployCRD lib" for lib
  unfolding deployCRD_def by (rule kind_deployerI) (simp add: comparedFields_def)

text \<open>The other three kinds adapt the object or replace it.\<close>

lemma stamped_version [simp]: "stamped v b (x\<lparr>km_resourceVersion := w\<rparr>) = stamped v b x"
  by (simp add: stamped_def)

lemma stamped_withClusterIP [simp]: "stamped v b (withClusterIP e (x\<lparr>km_resourceVersion := w\<rparr>)) = stamped v b (withClusterIP e x)"
  by (simp add: stamped_def withClusterIP_def specMap_def objectField_def)

lemma key_simps [simp]: "objectKey (withClusterIP e x) = objectKey x" "objectKey (x\<lparr>km_resourceVersion := w\<rparr>) = objectKey x" "ko_kind (withClusterIP e x) = ko_kind x"
  by (simp_all add: objectKey_def withClusterIP_def)

interpretation jobs: kind_deployer lib "''Job''" "deployJob lib" for lib
proof
  fix desiredObj existingObj s s' cur
  assume ok: "lib_ok lib" and kind: "ko_kind desiredObj = ''Job''" and at: "map_of (os_objects s) (objectKey desiredObj) = Some existingObj"
    and key: "objectKey existingObj = objectKey desiredObj" and run: "deployJob lib desiredObj existingObj s = (Inr (), s')"
    and cur: "map_of (os_objects s') (objectKey desiredObj) = Some cur"
  show "settled lib desiredObj cur"
  proof (rule written_settles [OF ok kind key _ run [unfolded deployJob_def] at cur])
    fix desired existing assume t: "dl_typed lib ''Job'' desiredObj = Some desired" "objectKey desired = objectKey desiredObj"
      and "op_bind (ignoreNotFound (client_Delete (objectKey existing))) (\<lambda>_. drop_result (client_Create desired)) s = (Inr (), s')"
    then obtain s1 y where "client_Create desired s1 = (Inr y, s')" by (auto simp: op_bind_run drop_result_def)
    from client_Create_stored [OF this] obtain v b where "cur = stamped v b desired" using cur t(2) by auto
    then show "ko_kind cur = ''Job'' \<and> (\<exists>y. dl_typed lib ''Job'' cur = Some y \<and> derives lib [''spec''] desired y)"
      using stored_derives [OF ok t(1)] t(2) kind by (simp add: objectKey_def)
  qed (simp add: comparedFields_def)
qed (auto simp: settled_def comparedFields_def deployJob_def withTyped_def split: option.splits)

interpretation services: kind_deployer lib "''Service''" "deployService lib" for lib
proof
  fix desiredObj existingObj s s' cur
  assume ok: "lib_ok lib" "service_ok lib desiredObj" and kind: "ko_kind desiredObj = ''Service''" and at: "map_of (os_objects s) (objectKey desiredObj) = Some existingObj"
    and key: "objectKey existingObj = objectKey desiredObj" and run: "deployService lib desiredObj existingObj s = (Inr (), s')"
    and cur: "map_of (os_objects s') (objectKey desiredObj) = Some cur"
  show "settled lib desiredObj cur"
  proof (rule written_settles [OF ok(1) kind key _ run [unfolded deployService_def] at cur])
    fix desired existing assume t: "dl_typed lib ''Service'' desiredObj = Some desired" "objectKey desired = objectKey desiredObj"
      and "drop_result (client_Update lib (withClusterIP existing (desired\<lparr>km_resourceVersion := km_resourceVersion existing\<rparr>))) s = (Inr (), s')"
    then obtain y where "client_Update lib (withClusterIP existing (desired\<lparr>km_resourceVersion := km_resourceVersion existing\<rparr>)) s = (Inr y, s')"
      by (auto simp: op_bind_run drop_result_def)
    from client_Update_stored [OF this] obtain v b where "cur = stamped v b (withClusterIP existing desired)" using cur t(2) by auto
    then show "ko_kind cur = ''Service'' \<and> (\<exists>y. dl_typed lib ''Service'' cur = Some y \<and> derives lib [''spec''] desired y)"
      using ok(2) t kind by (auto simp: service_ok_def derives_def objectKey_def)
  qed (simp add: comparedFields_def)
qed (auto simp: settled_def comparedFields_def deployService_def withTyped_def split: option.splits)

interpretation serviceAccounts: kind_deployer lib "''ServiceAccount''" "deployServiceAccount lib" for lib
proof
  fix desiredObj existingObj s s' cur
  assume ok: "lib_ok lib" and kind: "ko_kind desiredObj = ''ServiceAccount''" and at: "map_of (os_objects s) (objectKey desiredObj) = Some existingObj"
    and key: "objectKey existingObj = objectKey desiredObj" and run: "deployServiceAccount lib desiredObj existingObj s = (Inr (), s')"
    and cur: "map_of (os_objects s') (objectKey desiredObj) = Some cur"
  show "settled lib desiredObj cur"
  proof (rule written_settles [OF ok kind key _ run [unfolded deployServiceAccount_def] at cur])
    fix desired existing assume t: "dl_typed lib ''ServiceAccount'' desiredObj = Some desired" "objectKey desired = objectKey desiredObj"
      and "drop_result (client_Update lib (desired\<lparr>km_resourceVersion := km_resourceVersion existing\<rparr>)) s = (Inr (), s')"
    then obtain y where "client_Update lib (desired\<lparr>km_resourceVersion := km_resourceVersion existing\<rparr>) s = (Inr y, s')"
      by (auto simp: op_bind_run drop_result_def)
    from client_Update_stored [OF this] obtain v b where "cur = stamped v b desired" using cur t(2) by auto
    then show "ko_kind cur = ''ServiceAccount'' \<and> (\<exists>y. dl_typed lib ''ServiceAccount'' cur = Some y \<and> derives lib [''secrets'', ''imagePullSecrets''] desired y)"
      using stored_derives [OF ok t(1)] t(2) kind by (simp add: objectKey_def)
  qed (simp add: comparedFields_def)
qed (auto simp: settled_def comparedFields_def deployServiceAccount_def withTyped_def split: option.splits)


section \<open>The whole deployer\<close>

lemma comparedFields_deployers: "map_of comparedFields kind = None \<longleftrightarrow> map_of (NewHoHDeployer lib) kind = None"
  by (simp add: comparedFields_def NewHoHDeployer_def)

lemma deployers: "map_of (NewHoHDeployer lib) kind = Some f \<Longrightarrow> kind_deployer lib kind f"
  by (auto simp: NewHoHDeployer_def split: if_splits
      intro: deployments.kind_deployer_axioms jobs.kind_deployer_axioms services.kind_deployer_axioms serviceAccounts.kind_deployer_axioms
        configMaps.kind_deployer_axioms secrets.kind_deployer_axioms roles.kind_deployer_axioms roleBindings.kind_deployer_axioms
        clusterRoles.kind_deployer_axioms clusterRoleBindings.kind_deployer_axioms definitions.kind_deployer_axioms)

lemma Deploy_settles:
  assumes ok: "lib_ok lib" "service_ok lib x" "objects_ok s" "map_of comparedFields (ko_kind x) \<noteq> None \<Longrightarrow> dl_typed lib (ko_kind x) x \<noteq> None"
    and run: "Deploy lib x s = (Inr (), s')" and cur: "map_of (os_objects s') (objectKey x) = Some cur"
  shows "settled lib x cur"
proof (cases "client_Get (objectKey x) s")
  case (Pair r s1)
  show ?thesis
  proof (cases r)
    case (Inl e)
    then obtain y where "client_Create x s1 = (Inr y, s')"
      using run Pair by (auto simp: Deploy_def op_try_run drop_result_def op_bind_run split: if_splits)
    from client_Create_stored [OF this] obtain v b where cur: "cur = stamped v b x" using cur by auto
    show ?thesis
    proof (cases "map_of comparedFields (ko_kind x)")
      case (Some names)
      then obtain desired where "dl_typed lib (ko_kind x) x = Some desired" using ok(4) by auto
      then show ?thesis using lib_okD(3) [OF ok(1), of "ko_kind x" x desired v b] derives_refl [OF ok(1)] Some cur by (simp add: settled_def)
    qed (simp add: settled_def cur)
  next
    case (Inr found)
    then have found: "map_of (os_objects s) (objectKey x) = Some found" "os_objects s1 = os_objects s"
      using api_get_InrD [of os_objects "objectKey x" s found s1] Pair by (simp_all add: client_Get_def)
    then have key: "objectKey found = objectKey x" using objects_okD [OF ok(3)] by simp
    show ?thesis
    proof (cases "skipIfExists x \<or> map_of (NewHoHDeployer lib) (ko_kind found) = None")
      case True
      then have "s' = s1" using run Pair Inr by (auto simp: Deploy_def op_try_run split: if_splits)
      then have "cur = found" using cur found by simp
      then show ?thesis using True comparedFields_deployers [of "ko_kind found" lib] by (auto simp: settled_def)
    next
      case False
      then obtain f where f: "map_of (NewHoHDeployer lib) (ko_kind found) = Some f" "f x found s1 = (Inr (), s')"
        using run Pair Inr by (auto simp: Deploy_def op_try_run)
      have "ko_kind x = ko_kind found" using key by (simp add: objectKey_def)
      from kind_deployer.settles [OF deployers [OF f(1)] ok(1,2) this _ key f(2) cur] show ?thesis using found by simp
    qed
  qed
qed

lemma Deploy_idle:
  assumes "map_of (os_objects s) (objectKey x) = Some cur" and "settled lib x cur" and "os_answer s (os_calls s) = Answered"
  shows "Deploy lib x s = (Inr (), s\<lparr>os_calls := Suc (os_calls s)\<rparr>)"
proof -
  let ?s = "s\<lparr>os_calls := Suc (os_calls s)\<rparr>"
  have get: "client_Get (objectKey x) s = (Inr cur, ?s)" using assms(1,3) by (simp add: client_Get_def api_get_def api_call_def Let_def)
  show ?thesis
  proof (cases "skipIfExists x \<or> map_of (NewHoHDeployer lib) (ko_kind cur) = None")
    case False
    then obtain f where f: "map_of (NewHoHDeployer lib) (ko_kind cur) = Some f" by auto
    then show ?thesis using kind_deployer.idle [OF deployers [OF f] assms(2) _ refl, of ?s] False get by (simp add: Deploy_def op_try_def)
  qed (auto simp: Deploy_def op_try_def get)
qed

end
