(* ===== verification/GH_OpConfig.thy ===== *)
theory GH_OpConfig
  imports GH_OpCondition GH_Deployer "HOL-Library.Sublist"
begin

text \<open>
  The configuration of the operator (\<open>src/operator/pkg/config\<close>), the helpers of \<open>src/operator/pkg/utils\<close>, the renderer of
  the manifests (\<open>src/operator/pkg/renderer\<close>) and the labels, annotations and finalizers (\<open>src/pkg/constants\<close>,
  \<open>src/operator/pkg/constants\<close>). The environment, the embedded files, the template engine and the decoders are parameters.
\<close>

section \<open>Constants\<close>

definition GlobalHubOwnerLabelKey :: string where "GlobalHubOwnerLabelKey = ''global-hub.open-cluster-management.io/managed-by''"
definition HoHOperatorOwnerLabelVal :: string where "HoHOperatorOwnerLabelVal = ''multicluster-global-hub-operator''"
definition operatorFinalizer :: string where "operatorFinalizer = ''global-hub.open-cluster-management.io/resource-cleanup''"
definition GlobalHubSkipConsoleInstallAnnotationKey :: string where
  "GlobalHubSkipConsoleInstallAnnotationKey = ''global-hub.open-cluster-management.io/skip-console-install''"
definition HOHDefaultNamespace :: string where "HOHDefaultNamespace = ''open-cluster-management''"
definition HOHSystemNamespace :: string where "HOHSystemNamespace = ''open-cluster-management-global-hub-system''"
definition HOHConfigName :: string where "HOHConfigName = ''multicluster-global-hub-config''"
definition MGHOperandImagePrefix :: string where "MGHOperandImagePrefix = ''OPERAND_IMAGE_''"

definition ownerLabels :: "(string, string) gomap" where
  "ownerLabels = [(GlobalHubOwnerLabelKey, HoHOperatorOwnerLabelVal)]"

definition ownedByOperator :: "'a kmeta_scheme \<Rightarrow> bool" where
  "ownedByOperator x \<longleftrightarrow> map_of (km_labels x) GlobalHubOwnerLabelKey = Some HoHOperatorOwnerLabelVal"

section \<open>What is not in the repository\<close>

datatype decoded = MissingKind | DecodeFailed opError | Decoded kobject

record ManifestImage =
  ImageKey :: string
  ImageName :: string
  ImageVersion :: string
  ImageRemote :: string
  ImageDigest :: string
  ImageTag :: string

type_synonym configValues = "(string, string) gomap"

record operatorLib = deployLib +
  ol_podNamespace :: string
  ol_environ :: "string list"
  ol_decodeImages :: "string \<Rightarrow> opError + ManifestImage list"
  ol_files :: "(string \<times> string) list"
  ol_template :: "string \<Rightarrow> string \<Rightarrow> configValues \<Rightarrow> string option"
  ol_documents :: "string \<Rightarrow> string list \<times> opError option"
  ol_decode :: "string \<Rightarrow> decoded"
  ol_toUnstructured :: "kobject \<Rightarrow> opError + kobject"
  ol_discovery :: "opError option"
  ol_mapping :: "kobject \<Rightarrow> opError + bool"
  ol_setController :: "MulticlusterGlobalHub \<Rightarrow> kobject \<Rightarrow> opError + kobject"
  ol_connect :: "string \<Rightarrow> opError option"
  ol_sqlFiles :: "string list"
  ol_exec :: "nat \<Rightarrow> string \<Rightarrow> opError option"
  ol_setupLeafHub :: "opError option"

definition deployer :: "operatorLib \<Rightarrow> deployLib" where
  "deployer lib = deployLib.truncate lib"

section \<open>Configuration\<close>

definition GetDefaultNamespace :: "operatorLib \<Rightarrow> string" where
  "GetDefaultNamespace lib = (if ol_podNamespace lib = '''' then HOHDefaultNamespace else ol_podNamespace lib)"

definition getAnnotation :: "MulticlusterGlobalHub \<Rightarrow> string \<Rightarrow> string" where
  "getAnnotation mgh annotationKey = (case map_of (km_annotations mgh) annotationKey of None \<Rightarrow> '''' | Some v \<Rightarrow> v)"

definition EqualFold :: "string \<Rightarrow> string \<Rightarrow> bool" where
  "EqualFold s t \<longleftrightarrow> ToLower s = ToLower t"

definition IsPaused :: "MulticlusterGlobalHub \<Rightarrow> bool" where
  "IsPaused mgh = (let isPausedVal = getAnnotation mgh ''mgh-pause'' in isPausedVal \<noteq> '''' \<and> EqualFold isPausedVal ''true'')"

definition GetImageOverridesConfigmap :: "MulticlusterGlobalHub \<Rightarrow> string" where
  "GetImageOverridesConfigmap mgh = getAnnotation mgh ''mgh-image-overrides-cm''"

definition GetImage :: "string \<Rightarrow> string op" where
  "GetImage componentName = op_get (\<lambda>s. case map_of (imageOverrides s) componentName of None \<Rightarrow> '''' | Some v \<Rightarrow> v)"

text \<open>\<open>strings.Replace\<close> of every occurrence by the empty string, \<open>strings.SplitN\<close> at the first \<open>=\<close> and \<open>strings.LastIndex\<close>.\<close>

fun removeAll_str :: "string \<Rightarrow> string \<Rightarrow> string" where
  "removeAll_str pat [] = []"
| "removeAll_str pat (c # cs) =
     (if pat \<noteq> [] \<and> prefix pat (c # cs) then removeAll_str pat (drop (length pat - 1) cs) else c # removeAll_str pat cs)"

definition splitEnv :: "string \<Rightarrow> string list" where
  "splitEnv env = (case dropWhile (\<lambda>c. c \<noteq> CHR ''='') env of [] \<Rightarrow> [env] | _ # v \<Rightarrow> [takeWhile (\<lambda>c. c \<noteq> CHR ''='') env, v])"

definition fromLast :: "char \<Rightarrow> string \<Rightarrow> string option" where
  "fromLast c s = (if c \<in> set s then Some (c # rev (takeWhile (\<lambda>x. x \<noteq> c) (rev s))) else None)"

text \<open>First the environment, then the repository, then the images of the config map.\<close>

fun envOverrides :: "string list \<Rightarrow> (string, string) gomap \<Rightarrow> (string, string) gomap option" where
  "envOverrides [] m = Some m"
| "envOverrides (env # rest) m =
     (case splitEnv env of
        key # vals \<Rightarrow>
          if prefix MGHOperandImagePrefix key
          then (case vals of
                  [] \<Rightarrow> None
                | v # _ \<Rightarrow> envOverrides rest (AList.update (ToLower (removeAll_str MGHOperandImagePrefix key)) v m))
          else envOverrides rest m
      | [] \<Rightarrow> envOverrides rest m)"

fun repoOverrides :: "string \<Rightarrow> (string, string) gomap \<Rightarrow> (string, string) gomap option" where
  "repoOverrides repo [] = Some []"
| "repoOverrides repo ((k, ref) # rest) =
     (case fromLast (CHR ''/'') ref of
        None \<Rightarrow> None
      | Some img \<Rightarrow> map_option (\<lambda>m. (k, repo @ img) # m) (repoOverrides repo rest))"

definition imageOverride :: "ManifestImage \<Rightarrow> (string, string) gomap \<Rightarrow> (string, string) gomap" where
  "imageOverride img m =
     (if ImageDigest img \<noteq> '''' then AList.update (ImageKey img) (ImageRemote img @ ''/'' @ ImageName img @ ''@'' @ ImageDigest img) m
      else if ImageTag img \<noteq> '''' then AList.update (ImageKey img) (ImageRemote img @ ''/'' @ ImageName img @ '':'' @ ImageTag img) m
      else m)"

definition setImages :: "(string, string) gomap option \<Rightarrow> (unit \<Rightarrow> unit op) \<Rightarrow> unit op" where
  "setImages m k = (case m of None \<Rightarrow> op_raise Panic | Some images \<Rightarrow> op_bind (op_modify (\<lambda>s. s\<lparr>imageOverrides := images\<rparr>)) k)"

definition SetImageOverrides :: "operatorLib \<Rightarrow> MulticlusterGlobalHub \<Rightarrow> (string, string) gomap option \<Rightarrow> unit op" where
  "SetImageOverrides lib mgh cm =
     op_bind (op_get imageOverrides) (\<lambda>images.
     setImages (envOverrides (ol_environ lib) images) (\<lambda>_.
     op_bind (op_get imageOverrides) (\<lambda>images1.
     let imageRepoOverride = getAnnotation mgh ''mgh-image-repository'' in
     setImages (if imageRepoOverride = '''' then Some images1 else repoOverrides imageRepoOverride images1) (\<lambda>_.
     (case cm of
        Some [(_, imageManifests)] \<Rightarrow>
          (case ol_decodeImages lib imageManifests of
             Inl e \<Rightarrow> op_raise e
           | Inr manifestImages \<Rightarrow> op_modify (\<lambda>s. s\<lparr>imageOverrides := fold imageOverride manifestImages (imageOverrides s)\<rparr>))
      | _ \<Rightarrow> op_return ())))))"

section \<open>Helpers\<close>

definition utils_Remove :: "string list \<Rightarrow> string \<Rightarrow> string list" where
  "utils_Remove xs s = filter (\<lambda>v. v \<noteq> s) xs"

definition utils_Contains :: "string list \<Rightarrow> string \<Rightarrow> bool" where
  "utils_Contains xs s = list_ex (\<lambda>v. v = s) xs"

fun removeDuplicates :: "string goset \<Rightarrow> string list \<Rightarrow> string list" where
  "removeDuplicates encountered [] = []"
| "removeDuplicates encountered (v # vs) = (if v \<in> set encountered then removeDuplicates encountered vs else v # removeDuplicates (set_add v encountered) vs)"

definition RemoveDuplicates :: "string list \<Rightarrow> string list" where
  "RemoveDuplicates elements = removeDuplicates [] elements"

section \<open>The renderer\<close>

definition getTemplateFiles :: "operatorLib \<Rightarrow> string \<Rightarrow> string \<Rightarrow> (string \<times> string) list" where
  "getTemplateFiles lib dir pat =
     (if dir = ''.'' \<or> dir = '''' then ol_files lib else filter (\<lambda>(file, _). prefix dir file \<and> sublist pat file) (ol_files lib))"

fun decodeDocuments :: "operatorLib \<Rightarrow> string list \<Rightarrow> opError option \<Rightarrow> opError + kobject list" where
  "decodeDocuments lib [] readError = (case readError of None \<Rightarrow> Inr [] | Some e \<Rightarrow> Inl e)"
| "decodeDocuments lib (b # bs) readError =
     (if b = '''' then decodeDocuments lib bs readError
      else (case ol_decode lib b of
              MissingKind \<Rightarrow> decodeDocuments lib bs readError
            | DecodeFailed e \<Rightarrow> Inl e
            | Decoded object \<Rightarrow>
                (case ol_toUnstructured lib object of
                   Inl e \<Rightarrow> Inl e
                 | Inr u \<Rightarrow> (case decodeDocuments lib bs readError of Inl e \<Rightarrow> Inl e | Inr us \<Rightarrow> Inr (u # us)))))"

fun renderFiles :: "operatorLib \<Rightarrow> configValues \<Rightarrow> (string \<times> string) list \<Rightarrow> opError + kobject list" where
  "renderFiles lib configValues [] = Inr []"
| "renderFiles lib configValues ((file, templateContent) # rest) =
     (if templateContent = '''' then renderFiles lib configValues rest
      else (case ol_template lib file templateContent configValues of
              None \<Rightarrow> Inl Panic
            | Some raw \<Rightarrow>
                (case decodeDocuments lib (fst (ol_documents lib raw)) (snd (ol_documents lib raw)) of
                   Inl e \<Rightarrow> Inl e
                 | Inr objs \<Rightarrow> (case renderFiles lib configValues rest of Inl e \<Rightarrow> Inl e | Inr us \<Rightarrow> Inr (objs @ us)))))"

definition RenderWithFilter :: "operatorLib \<Rightarrow> string \<Rightarrow> string \<Rightarrow> configValues \<Rightarrow> opError + kobject list" where
  "RenderWithFilter lib component pat configValues =
     (let templateFiles = getTemplateFiles lib component pat in
      if templateFiles = [] then Inl (OtherError ''no template files found'') else renderFiles lib configValues templateFiles)"

definition Render :: "operatorLib \<Rightarrow> string \<Rightarrow> configValues \<Rightarrow> kobject list op" where
  "Render lib component configValues = (case RenderWithFilter lib component '''' configValues of Inl e \<Rightarrow> op_raise e | Inr objs \<Rightarrow> op_return objs)"

end
