(* ===== verification/GH_Operator.thy ===== *)
theory GH_Operator
  imports GH_OpConfig
begin

text \<open>
  The controller of the \<open>MulticlusterGlobalHub\<close> (\<open>src/operator/pkg/controllers/hubofhubs\<close>): it initialises the database,
  deploys the components of the global hub and keeps the conditions, and when the object is deleted it removes what it
  deployed before it gives up its finalizer.
\<close>

definition newObject :: "string \<Rightarrow> string \<Rightarrow> string \<Rightarrow> (string, string) gomap \<Rightarrow> (string, jvalue) gomap \<Rightarrow> kobject" where
  "newObject kind namespace name labels content = kmeta.extend (newMeta name namespace labels [])
     \<lparr>ko_kind = kind, ko_controller = None, ko_fields = content\<rparr>"

lemma newObject_simps [simp]:
  "km_name (newObject kind namespace name labels content) = name" "km_namespace (newObject kind namespace name labels content) = namespace"
  "km_labels (newObject kind namespace name labels content) = labels" "ko_kind (newObject kind namespace name labels content) = kind"
  "ko_fields (newObject kind namespace name labels content) = content" "km_finalizers (newObject kind namespace name labels content) = []"
  "objectKey (newObject kind namespace name labels content) = (kind, namespace, name)"
  by (simp_all add: newObject_def newMeta_def kmeta.defs objectKey_def)

definition secretData :: "kobject \<Rightarrow> string \<Rightarrow> string" where
  "secretData o1 key = (case objectField o1 ''data'' of Some (JMap m) \<Rightarrow> (case map_of m key of Some (JString v) \<Rightarrow> v | _ \<Rightarrow> '''') | _ \<Rightarrow> '''')"

text \<open>\<open>base64.RawStdEncoding\<close>, without padding.\<close>

definition base64Char :: "nat \<Rightarrow> char" where
  "base64Char n = ''ABCDEFGHIJKLMNOPQRSTUVWXYZabcdefghijklmnopqrstuvwxyz0123456789+/'' ! (n mod 64)"

fun base64Raw :: "string \<Rightarrow> string" where
  "base64Raw [] = []"
| "base64Raw [a] = (let x = of_char a :: nat in [base64Char (x div 4), base64Char (x * 16)])"
| "base64Raw [a, b] = (let x = of_char a :: nat; y = of_char b in [base64Char (x div 4), base64Char (x * 16 + y div 16), base64Char (y * 4)])"
| "base64Raw (a # b # c # rest) = (let x = of_char a :: nat; y = of_char b; z = of_char c in
     [base64Char (x div 4), base64Char (x * 16 + y div 16), base64Char (y * 4 + z div 64), base64Char z] @ base64Raw rest)"

definition getKafkaConfig :: "operatorLib \<Rightarrow> MulticlusterGlobalHub \<Rightarrow> (string \<times> string) op" where
  "getKafkaConfig lib mgh =
     (case map_of (km_annotations mgh) ''mgh-kafka-bootstrap-server'' of
        Some kafkaBootstrapServer \<Rightarrow>
          if kafkaBootstrapServer \<noteq> '''' then op_return (kafkaBootstrapServer, '''')
          else op_bind (client_Get (''Secret'', GetDefaultNamespace lib, Transport mgh)) (\<lambda>kafkaSecret.
            op_return (secretData kafkaSecret ''bootstrap_server'', base64Raw (secretData kafkaSecret ''CA'')))
      | None \<Rightarrow> op_bind (client_Get (''Secret'', GetDefaultNamespace lib, Transport mgh)) (\<lambda>kafkaSecret.
            op_return (secretData kafkaSecret ''bootstrap_server'', base64Raw (secretData kafkaSecret ''CA''))))"

section \<open>The database\<close>

definition execFile :: "operatorLib \<Rightarrow> string \<Rightarrow> unit op" where
  "execFile lib file = op_bind (op_get (\<lambda>s. length (os_executed s))) (\<lambda>n.
     case ol_exec lib n file of
       Some e \<Rightarrow> op_raise (OtherError (''failed to create '' @ file @ '': '' @ errText e))
     | None \<Rightarrow> op_modify (\<lambda>s. s\<lparr>os_executed := os_executed s @ [file]\<rparr>))"

definition reconcileDatabase :: "operatorLib \<Rightarrow> MulticlusterGlobalHub \<Rightarrow> nsname \<Rightarrow> MulticlusterGlobalHub op" where
  "reconcileDatabase lib mgh namespacedName =
     (if ContainConditionStatus mgh CONDITION_TYPE_DATABASE_INIT CONDITION_STATUS_TRUE then op_return mgh
      else op_bind (client_Get (''Secret'', fst namespacedName, snd namespacedName)) (\<lambda>postgreSecret.
        case ol_connect lib (secretData postgreSecret ''database_uri'') of
          Some e \<Rightarrow> op_raise (OtherError (''failed to connect to postgres: '' @ errText e))
        | None \<Rightarrow>
            op_try (op_each (execFile lib) (ol_sqlFiles lib))
              (\<lambda>e. op_bind (wrapError ''failed to set condition(False)'' (SetConditionDatabaseInit mgh CONDITION_STATUS_FALSE))
                 (\<lambda>_. op_raise (OtherError (''failed to walk database directory: '' @ errText e))))
              (\<lambda>_. wrapError ''failed to set condition(True)'' (SetConditionDatabaseInit mgh CONDITION_STATUS_TRUE))))"

section \<open>Deploying\<close>

definition withOwnerLabel :: "kobject \<Rightarrow> kobject" where
  "withOwnerLabel obj = obj\<lparr>km_labels := AList.update GlobalHubOwnerLabelKey HoHOperatorOwnerLabelVal (km_labels obj)\<rparr>"

definition liftResult :: "opError + 'a \<Rightarrow> 'a op" where
  "liftResult r = (case r of Inl e \<Rightarrow> op_raise e | Inr x \<Rightarrow> op_return x)"

type_synonym setConditionFunc = "MulticlusterGlobalHub \<Rightarrow> string \<Rightarrow> MulticlusterGlobalHub op"

definition manipulateOne :: "operatorLib \<Rightarrow> MulticlusterGlobalHub \<Rightarrow> setConditionFunc option \<Rightarrow> kobject \<Rightarrow> unit op" where
  "manipulateOne lib mgh setConditionFunc obj =
     op_bind (liftResult (ol_mapping lib obj)) (\<lambda>namespaced.
     op_bind (if namespaced then liftResult (ol_setController lib mgh obj) else op_return obj) (\<lambda>obj1.
     op_try (Deploy (deployer lib) (withOwnerLabel obj1))
       (\<lambda>e. case setConditionFunc of
              None \<Rightarrow> op_raise e
            | Some f \<Rightarrow> op_bind (wrapError ''failed to set condition(False)'' (f mgh CONDITION_STATUS_FALSE)) (\<lambda>_. op_raise e))
       op_return))"

definition manipulateObj :: "operatorLib \<Rightarrow> kobject list \<Rightarrow> MulticlusterGlobalHub \<Rightarrow> setConditionFunc option \<Rightarrow> MulticlusterGlobalHub op" where
  "manipulateObj lib objs mgh setConditionFunc =
     op_bind (op_each (manipulateOne lib mgh setConditionFunc) objs) (\<lambda>_.
       case setConditionFunc of
         None \<Rightarrow> op_return mgh
       | Some f \<Rightarrow> wrapError ''failed to set condition(True)'' (f mgh CONDITION_STATUS_TRUE))"

text \<open>\<open>wait.Poll\<close> asks every ten seconds, at most three hundred seconds long; the status of the job is what the job controller has reported.\<close>

fun pollJob :: "nat \<Rightarrow> kkey \<Rightarrow> unit op" where
  "pollJob 0 k = op_raise (OtherError ''timed out waiting for the condition'')"
| "pollJob (Suc n) k = op_bind (client_Get k) (\<lambda>_. op_bind (op_get (\<lambda>s. os_succeeded s (os_calls s))) (\<lambda>succeeded.
     if 0 < succeeded then op_return () else pollJob n k))"

definition pollAttempts :: nat where "pollAttempts = 300 div 10"

section \<open>Resources of the system namespace\<close>

definition hohSystemNamespace :: kobject where
  "hohSystemNamespace = newObject ''Namespace'' '''' HOHSystemNamespace ownerLabels []"

definition hohConfigMap :: "MulticlusterGlobalHub \<Rightarrow> kobject" where
  "hohConfigMap mgh = newObject ''ConfigMap'' HOHSystemNamespace HOHConfigName ownerLabels
     [(''data'', JMap [(''aggregationLevel'', JString (AggregationLevel mgh)),
                      (''enableLocalPolicies'', JString (if EnableLocalPolicies mgh then ''true'' else ''false''))])]"

definition labelsJson :: "'a kmeta_scheme \<Rightarrow> jvalue option" where
  "labelsJson x = Some (JMap (map (\<lambda>(k, v). (k, JString v)) (km_labels x)))"

definition reconcileHoHResources :: "operatorLib \<Rightarrow> MulticlusterGlobalHub \<Rightarrow> unit op" where
  "reconcileHoHResources lib mgh =
     op_bind (op_try (client_Get (''Namespace'', '''', HOHSystemNamespace))
        (\<lambda>e. if e = NotFound then drop_result (client_Create hohSystemNamespace) else op_raise e) (\<lambda>_. op_return ())) (\<lambda>_.
     op_try (client_Get (''ConfigMap'', HOHSystemNamespace, HOHConfigName))
        (\<lambda>e. if e = NotFound then drop_result (client_Create (hohConfigMap mgh)) else op_raise e)
        (\<lambda>existing.
           if \<not> dl_derivative lib (objectField (hohConfigMap mgh) ''data'') (objectField existing ''data'')
              \<or> \<not> dl_derivative lib (labelsJson (hohConfigMap mgh)) (labelsJson existing)
           then drop_result (client_Update (deployer lib) ((hohConfigMap mgh)\<lparr>km_resourceVersion := km_resourceVersion existing\<rparr>))
           else op_return ()))"

definition pruneHoHResources :: "operatorLib \<Rightarrow> unit op" where
  "pruneHoHResources lib =
     op_try (client_Get (''ConfigMap'', HOHSystemNamespace, HOHConfigName))
       (\<lambda>e. if e = NotFound then ignoreNotFound (client_Delete (objectKey hohSystemNamespace)) else op_raise e)
       (\<lambda>existing.
          op_bind (client_Update (deployer lib) (existing\<lparr>km_finalizers := []\<rparr>)) (\<lambda>updated.
          op_bind (ignoreNotFound (client_Delete (objectKey existing))) (\<lambda>_.
          ignoreNotFound (client_Delete (objectKey hohSystemNamespace)))))"

definition listOwned :: "string \<Rightarrow> kobject list op" where
  "listOwned kind = api_list os_objects (\<lambda>(k, _) x. k = kind \<and> ownedByOperator x)"

definition pruneGlobalResources :: "unit op" where
  "pruneGlobalResources =
     op_bind (listOwned ''ClusterRole'') (\<lambda>clusterRoleList.
     op_bind (op_each (\<lambda>x. ignoreNotFound (client_Delete (objectKey x))) clusterRoleList) (\<lambda>_.
     op_bind (listOwned ''ClusterRoleBinding'') (\<lambda>clusterRoleBindingList.
     op_each (\<lambda>x. ignoreNotFound (client_Delete (objectKey x))) clusterRoleBindingList)))"

section \<open>Finalization\<close>

text \<open>\<open>Update\<close> of the object stores everything but its status.\<close>

definition hubUpdate :: "MulticlusterGlobalHub \<Rightarrow> MulticlusterGlobalHub op" where
  "hubUpdate mgh = api_update os_hubs os_hubs_update True (\<lambda>old new. new\<lparr>Conditions := Conditions old\<rparr>) (hubKey mgh) mgh"

definition operatorValues :: "operatorLib \<Rightarrow> string \<Rightarrow> configValues op" where
  "operatorValues lib component = op_bind (GetImage component) (\<lambda>img. op_return [(''Image'', img), (''Namespace'', GetDefaultNamespace lib)])"

definition skipConsole :: "MulticlusterGlobalHub \<Rightarrow> bool" where
  "skipConsole mgh \<longleftrightarrow> getAnnotation mgh GlobalHubSkipConsoleInstallAnnotationKey = ''true''"

definition cleanupConsole :: "operatorLib \<Rightarrow> MulticlusterGlobalHub \<Rightarrow> unit op" where
  "cleanupConsole lib mgh =
     (if skipConsole mgh then op_return ()
      else op_bind (operatorValues lib ''multicluster_global_hub_operator'') (\<lambda>configValues.
           op_bind (Render lib ''manifests/console-cleanup'' configValues) (\<lambda>consoleCleanupObjects.
           op_bind (manipulateObj lib consoleCleanupObjects mgh None) (\<lambda>_.
           pollJob pollAttempts (''Job'', GetDefaultNamespace lib, ''multicluster-global-hub-console-cleanup'')))))"

definition initFinalization :: "operatorLib \<Rightarrow> MulticlusterGlobalHub \<Rightarrow> (bool \<times> MulticlusterGlobalHub) op" where
  "initFinalization lib mgh =
     (if km_deleting mgh \<and> utils_Contains (km_finalizers mgh) operatorFinalizer
      then op_bind (cleanupConsole lib mgh) (\<lambda>_.
           op_bind pruneGlobalResources (\<lambda>_.
           op_bind (pruneHoHResources lib) (\<lambda>_.
           op_bind (hubUpdate (mgh\<lparr>km_finalizers := utils_Remove (km_finalizers mgh) operatorFinalizer\<rparr>)) (\<lambda>mgh1.
           op_return (True, mgh1)))))
      else if \<not> utils_Contains (km_finalizers mgh) operatorFinalizer
      then op_bind (hubUpdate (mgh\<lparr>km_finalizers := km_finalizers mgh @ [operatorFinalizer]\<rparr>)) (\<lambda>mgh1. op_return (False, mgh1))
      else op_return (False, mgh))"

section \<open>Reconciling\<close>

definition reconcileTransport :: "operatorLib \<Rightarrow> MulticlusterGlobalHub \<Rightarrow> (string \<times> string \<times> MulticlusterGlobalHub) op" where
  "reconcileTransport lib mgh =
     op_try (getKafkaConfig lib mgh)
       (\<lambda>e. op_bind (wrapError ''failed to set condition(False)'' (SetConditionTransportInit mgh CONDITION_STATUS_FALSE)) (\<lambda>_. op_raise e))
       (\<lambda>(kafkaBootstrapServer, kafkaCA).
          op_bind (wrapError ''failed to set condition(True)'' (SetConditionTransportInit mgh CONDITION_STATUS_TRUE)) (\<lambda>mgh1.
          op_return (kafkaBootstrapServer, kafkaCA, mgh1)))"

definition reconcileConsole :: "operatorLib \<Rightarrow> MulticlusterGlobalHub \<Rightarrow> MulticlusterGlobalHub op" where
  "reconcileConsole lib mgh =
     (if skipConsole mgh then op_return mgh
      else op_bind (operatorValues lib ''multicluster_global_hub_operator'') (\<lambda>configValues.
           op_bind (Render lib ''manifests/console-setup'' configValues) (\<lambda>consoleSetupObjects.
           op_bind (manipulateObj lib consoleSetupObjects mgh (Some SetConditionConsoleDeployed)) (\<lambda>mgh1.
           op_try (pollJob pollAttempts (''Job'', GetDefaultNamespace lib, ''multicluster-global-hub-console-setup''))
             (\<lambda>e. op_bind (wrapError ''failed to set condition(False)'' (SetConditionConsoleDeployed mgh1 CONDITION_STATUS_FALSE)) (\<lambda>_. op_raise e))
             (\<lambda>_. wrapError ''failed to set condition(True)'' (SetConditionConsoleDeployed mgh1 CONDITION_STATUS_TRUE))))))"

definition startLeafHubController :: "operatorLib \<Rightarrow> unit op" where
  "startLeafHubController lib = op_bind (op_get isLeafHubControllerRunnning) (\<lambda>running.
     if running then op_return ()
     else (case ol_setupLeafHub lib of Some e \<Rightarrow> op_raise e | None \<Rightarrow> op_modify (\<lambda>s. s\<lparr>isLeafHubControllerRunnning := True\<rparr>)))"

definition deployComponents :: "operatorLib \<Rightarrow> MulticlusterGlobalHub \<Rightarrow> unit op" where
  "deployComponents lib mgh0 =
     op_bind (reconcileDatabase lib mgh0 (GetDefaultNamespace lib, Storage mgh0)) (\<lambda>mgh1.
     op_bind (reconcileHoHResources lib mgh1) (\<lambda>_.
     op_bind (operatorValues lib ''multicluster_global_hub_rbac'') (\<lambda>rbacValues.
     op_bind (Render lib ''manifests/rbac'' rbacValues) (\<lambda>hohRBACObjects.
     op_bind (manipulateObj lib hohRBACObjects mgh1 (Some SetConditionRBACDeployed)) (\<lambda>mgh2.
     op_bind (reconcileTransport lib mgh2) (\<lambda>(kafkaBootstrapServer, kafkaCA, mgh3).
     op_bind (GetImage ''multicluster_global_hub_manager'') (\<lambda>managerImage.
     op_bind (Render lib ''manifests/manager'' [(''Image'', managerImage), (''DBSecret'', Storage mgh3), (''KafkaCA'', kafkaCA),
        (''KafkaBootstrapServer'', kafkaBootstrapServer), (''Namespace'', GetDefaultNamespace lib)]) (\<lambda>managerObjects.
     op_bind (manipulateObj lib managerObjects mgh3 (Some SetConditionManagerDeployed)) (\<lambda>mgh4.
     op_bind (Render lib ''manifests/placement'' [(''Namespace'', GetDefaultNamespace lib)]) (\<lambda>placementObjects.
     op_bind (manipulateObj lib placementObjects mgh4 None) (\<lambda>mgh5.
     op_bind (reconcileConsole lib mgh5) (\<lambda>mgh6.
     startLeafHubController lib))))))))))))"

definition imageConfigMap :: "operatorLib \<Rightarrow> MulticlusterGlobalHub \<Rightarrow> (string, string) gomap option op" where
  "imageConfigMap lib mgh =
     (let name = GetImageOverridesConfigmap mgh in
      if name = '''' then op_return None
      else op_bind (client_Get (''ConfigMap'', km_namespace mgh, name)) (\<lambda>cm.
        op_return (Some (case objectField cm ''data'' of
           Some (JMap m) \<Rightarrow> List.map_filter (\<lambda>(k, v). case v of JString t \<Rightarrow> Some (k, t) | _ \<Rightarrow> None) m
         | _ \<Rightarrow> []))))"

definition operator_Reconcile :: "operatorLib \<Rightarrow> nsname \<Rightarrow> unit op" where
  "operator_Reconcile lib namespacedName =
     op_try (api_get os_hubs namespacedName) (\<lambda>e. if e = NotFound then op_return () else op_raise e) (\<lambda>mgh.
       case ol_discovery lib of
         Some e \<Rightarrow> op_raise e
       | None \<Rightarrow>
           op_bind (initFinalization lib mgh) (\<lambda>(isTerminating, mgh1).
             if isTerminating then op_return ()
             else op_bind (imageConfigMap lib mgh1) (\<lambda>imageOverridesConfigmap.
                  op_bind (SetImageOverrides lib mgh1 imageOverridesConfigmap) (\<lambda>_.
                  if IsPaused mgh1 then op_return () else deployComponents lib mgh1))))"

section \<open>Event filters\<close>

text \<open>The generations of the old and the new object decide on an update.\<close>

datatype hubEvent = HubCreated nsname | HubUpdated int int | HubDeleted bool

fun mghPred :: "hubEvent \<Rightarrow> opState \<Rightarrow> bool \<times> opState" where
  "mghPred (HubCreated k) s = (True, s\<lparr>hohMGHNamespacedName := k\<rparr>)"
| "mghPred (HubUpdated old new) s = (old \<noteq> new, s)"
| "mghPred (HubDeleted stateUnknown) s = (\<not> stateUnknown, s)"

fun ownPred :: "hubEvent \<Rightarrow> bool" where
  "ownPred (HubCreated _) = False"
| "ownPred (HubUpdated old new) = (old \<noteq> new)"
| "ownPred (HubDeleted _) = True"

section \<open>A small installation\<close>

text \<open>Concrete inputs: a cluster with one hub, and parameters that render one object for each directory.\<close>

definition sampleOperatorLib :: operatorLib where
  "sampleOperatorLib = \<lparr>dl_derivative = (=), dl_typed = (\<lambda>_ x. Some x), dl_versioned = (\<lambda>_. False), ol_podNamespace = '''', ol_environ = [],
     ol_decodeImages = (\<lambda>_. Inr []),
     ol_files = [(''manifests/rbac/role.yaml'', ''ClusterRole''), (''manifests/manager/deployment.yaml'', ''Deployment''), (''manifests/placement/placement.yaml'', ''Placement'')],
     ol_template = (\<lambda>_ content _. Some content), ol_documents = (\<lambda>raw. ([raw], None)),
     ol_decode = (\<lambda>doc. Decoded (newObject doc '''' ''o'' [] [(''spec'', JString ''v'')])), ol_toUnstructured = Inr,
     ol_discovery = None, ol_mapping = (\<lambda>x. Inr (ko_kind x = ''Deployment'')), ol_setController = (\<lambda>mgh x. Inr (x\<lparr>ko_controller := Some (km_name mgh)\<rparr>)),
     ol_connect = (\<lambda>_. None), ol_sqlFiles = [''1.sql''], ol_exec = (\<lambda>_ _. None), ol_setupLeafHub = None\<rparr>"

definition sampleHub :: "string list \<Rightarrow> bool \<Rightarrow> MulticlusterGlobalHub" where
  "sampleHub fins del = kmeta.extend ((newMeta ''hub'' ''ns'' [] [(GlobalHubSkipConsoleInstallAnnotationKey, ''true''), (''mgh-kafka-bootstrap-server'', ''kafka:9092'')])
       \<lparr>km_finalizers := fins, km_deleting := del, km_resourceVersion := 1\<rparr>)
     \<lparr>AggregationLevel = ''full'', EnableLocalPolicies = True, Transport = ''transport'', Storage = ''storage'', Conditions = []\<rparr>"

definition sampleOpState :: "kobject list \<Rightarrow> MulticlusterGlobalHub \<Rightarrow> opState" where
  "sampleOpState objs mgh = \<lparr>os_objects = map (\<lambda>x. (objectKey x, x)) objs, os_works = [], os_clusters = [], os_hubs = [((''ns'', ''hub''), mgh)], os_calls = 0, os_version = 1,
     os_answer = (\<lambda>_. Answered), os_now = int, os_succeeded = (\<lambda>_. 1), hohMGHNamespacedName = (''ns'', ''hub''), imageOverrides = [],
     packageManifestConfigInstance = \<lparr>ACMDefaultChannel = '''', ACMCurrentCSV = '''', ACMImages = [], MCEDefaultChannel = '''', MCECurrentCSV = '''', MCEImages = []\<rparr>,
     leafhubs = [], isLeafHubControllerRunnning = False, os_executed = []\<rparr>"

end
