(* ===== verification/GH_OperatorProps.thy ===== *)
theory GH_OperatorProps
  imports GH_Operator
begin

text \<open>
  Properties of the controller of the \<open>MulticlusterGlobalHub\<close>: the finalizer is given up only after everything is removed,
  a reconciliation that succeeds leaves the conditions true, deploying again changes nothing; and two inputs on which the
  deployer does not do what it is for.
\<close>

section \<open>What the programs keep\<close>

text \<open>The server says of an object that it is not there only when it is not there.\<close>

definition honest :: "opState \<Rightarrow> bool" where
  "honest s \<longleftrightarrow> (\<forall>n. os_answer s n \<noteq> Refused NotFound \<and> os_answer s n \<noteq> Lost NotFound)"

definition has_finalizer :: "nsname \<Rightarrow> opState \<Rightarrow> bool" where
  "has_finalizer k s \<longleftrightarrow> (\<exists>x. map_of (os_hubs s) k = Some x \<and> operatorFinalizer \<in> set (km_finalizers x))"

text \<open>An invariant that creating, updating and deleting objects keep.\<close>

locale object_invariant =
  fixes I :: "opState \<Rightarrow> bool"
  assumes calls: "I s \<Longrightarrow> I (s\<lparr>os_calls := c\<rparr>)"
    and own_state: "I s \<Longrightarrow> I (s\<lparr>imageOverrides := m\<rparr>)" "I s \<Longrightarrow> I (s\<lparr>os_executed := x\<rparr>)" "I s \<Longrightarrow> I (s\<lparr>isLeafHubControllerRunnning := b\<rparr>)"
    and create: "keeps I (client_Create obj)" and update: "keeps I (client_Update dlib obj)" and delete: "keeps I (client_Delete k)"
begin

lemma keeps_Get [op_keeps]: "keeps I (client_Get k)"
  unfolding client_Get_def by (intro op_keeps calls)

lemma keeps_drop [op_keeps]: "keeps I m \<Longrightarrow> keeps I (drop_result m)"
  unfolding drop_result_def by (intro op_keeps)

lemmas keeps_calls = op_keeps create update delete calls keeps_modify own_state

lemma keeps_withTyped: "(\<And>d e. keeps I (f d e)) \<Longrightarrow> keeps I (withTyped dlib kind x y f)"
  unfolding withTyped_def by (intro op_keeps)

lemma keeps_deployFunction: "map_of (NewHoHDeployer dlib) kind = Some f \<Longrightarrow> keeps I (f x y)"
  by (auto simp: NewHoHDeployer_def deployDeployment_def deployJob_def deployService_def deployServiceAccount_def deployConfigMap_def deploySecret_def deployRole_def
      deployRoleBinding_def deployClusterRole_def deployClusterRoleBinding_def deployCRD_def deployFields_def split: if_splits intro!: keeps_withTyped keeps_calls)

lemma keeps_Deploy: "keeps I (Deploy dlib x)"
  unfolding Deploy_def by (intro keeps_calls keeps_deployFunction)

lemma keeps_liftResult: "keeps I (liftResult r)"
  unfolding liftResult_def by (intro op_keeps)

lemma keeps_manipulateObj:
  assumes "\<And>f mgh st. setConditionFunc = Some f \<Longrightarrow> keeps I (f mgh st)"
  shows "keeps I (manipulateObj lib objs mgh setConditionFunc)"
  unfolding manipulateObj_def manipulateOne_def by (intro op_keeps keeps_Deploy keeps_liftResult assms)

lemma keeps_pollJob: "keeps I (pollJob n k)"
  by (induction n) (simp_all only: pollJob.simps, (intro op_keeps; assumption?)+)

lemma keeps_Render: "keeps I (Render lib c vs)"
  unfolding Render_def by (intro op_keeps)

lemma keeps_GetImage: "keeps I (GetImage c)"
  unfolding GetImage_def by (intro op_keeps)

lemma keeps_getKafkaConfig: "keeps I (getKafkaConfig lib mgh)"
  unfolding getKafkaConfig_def by (intro op_keeps)

lemma keeps_execFile: "keeps I (execFile lib file)"
  unfolding execFile_def by (intro keeps_calls)

lemmas keeps_parts = keeps_calls keeps_manipulateObj keeps_pollJob keeps_Render keeps_GetImage keeps_getKafkaConfig keeps_execFile

lemma keeps_operatorValues: "keeps I (operatorValues lib c)"
  unfolding operatorValues_def by (intro keeps_parts)

lemma keeps_cleanupConsole: "keeps I (cleanupConsole lib mgh)"
  unfolding cleanupConsole_def by (intro keeps_parts keeps_operatorValues) simp

lemma keeps_reconcileHoHResources: "keeps I (reconcileHoHResources lib mgh)"
  unfolding reconcileHoHResources_def by (intro keeps_parts)

lemma keeps_startLeafHubController: "keeps I (startLeafHubController lib)"
  unfolding startLeafHubController_def by (intro keeps_parts)

lemma keeps_images: "keeps I (imageConfigMap lib mgh)" "keeps I (SetImageOverrides lib mgh cm)"
  unfolding imageConfigMap_def SetImageOverrides_def setImages_def by (intro keeps_calls; auto intro!: keeps_calls split: list.split)+

end

text \<open>An invariant that setting conditions keeps as well.\<close>

locale operator_invariant = object_invariant +
  assumes status: "keeps I (statusUpdate mgh)"
begin

lemma keeps_setter: "condition_setter setter ty \<Longrightarrow> keeps I (setter mgh st)"
  by (rule condition_setter.keeps [OF _ status])

lemmas keeps_setters = keeps_setter [OF database_init.condition_setter_axioms] keeps_setter [OF transport_init.condition_setter_axioms]
  keeps_setter [OF rbac_deployed.condition_setter_axioms] keeps_setter [OF manager_deployed.condition_setter_axioms] keeps_setter [OF console_deployed.condition_setter_axioms]

lemma keeps_deployComponents: "keeps I (deployComponents lib mgh)"
  unfolding deployComponents_def reconcileDatabase_def reconcileTransport_def reconcileConsole_def
  by (intro keeps_parts keeps_operatorValues keeps_reconcileHoHResources keeps_startLeafHubController keeps_setters) (auto intro!: keeps_setters)

end


lemma client_keeps:
  assumes "\<And>s c. I s \<Longrightarrow> I (s\<lparr>os_calls := c\<rparr>)" and "\<And>s f c w. I s \<Longrightarrow> I (os_objects_update f (s\<lparr>os_calls := c, os_version := w\<rparr>))"
  shows "keeps I (client_Create x)" and "keeps I (client_Update dlib x)" and "keeps I (client_Delete k)"
proof -
  have "I (os_objects_update f (s\<lparr>os_calls := c\<rparr>))" if "I s" for s f c using assms(2) [OF that, where f = f and c = c and w = "os_version s"] by simp
  then show "keeps I (client_Create x)" and "keeps I (client_Update dlib x)" and "keeps I (client_Delete k)"
    unfolding client_Create_def client_Update_def client_Delete_def
    using assms by (auto intro!: keeps_api_create keeps_api_update keeps_api_delete)
qed

interpretation finalizers: operator_invariant "has_finalizer k" for k
proof
  fix obj dlib and key :: kkey
  show "keeps (has_finalizer k) (client_Create obj)" and "keeps (has_finalizer k) (client_Update dlib obj)" and "keeps (has_finalizer k) (client_Delete key)"
    by (rule client_keeps; simp add: has_finalizer_def)+
  show "keeps (has_finalizer k) (statusUpdate mgh)" for mgh
    by (rule statusUpdate_keeps) (auto simp: has_finalizer_def)
qed (simp_all add: has_finalizer_def)

interpretation answers: operator_invariant honest
proof
  fix obj dlib and key :: kkey
  show "keeps honest (client_Create obj)" and "keeps honest (client_Update dlib obj)" and "keeps honest (client_Delete key)"
    by (rule client_keeps; simp add: honest_def)+
  show "keeps honest (statusUpdate mgh)" for mgh
    by (rule statusUpdate_keeps) (auto simp: honest_def)
qed (simp_all add: honest_def)

lemma list_all_update: "list_all P m \<Longrightarrow> P (k, v) \<Longrightarrow> list_all P (AList.update k v m)"
  by (auto simp: list_all_iff dest!: set_AList_update)

lemma list_all_delete: "list_all P m \<Longrightarrow> list_all P (AList.delete k m)"
  by (simp add: list_all_iff AList.delete_eq)

lemma objectKey_meta [simp]: "objectKey (x\<lparr>km_deleting := b\<rparr>) = objectKey x" "objectKey (x\<lparr>km_deleting := b, km_resourceVersion := v\<rparr>) = objectKey x"
  by (simp_all add: objectKey_def)

lemma list_all_mark: "list_all (\<lambda>(k, x). objectKey x = k) m \<Longrightarrow> map_of m k = Some x \<Longrightarrow> list_all (\<lambda>(k, x). objectKey x = k) (markDeleted k x m)"
  using map_of_SomeD [of m k x] unfolding markDeleted_def by (cases k) (auto intro!: list_all_update list_all_delete simp: list_all_iff [of _ m])

interpretation objects: operator_invariant objects_ok
proof
  fix obj dlib and k :: kkey and mgh
  show "keeps objects_ok (client_Create obj)" unfolding client_Create_def
    by (rule keeps_api_create) (auto intro!: list_all_update simp: objects_ok_def)
  show "keeps objects_ok (client_Update dlib obj)" unfolding client_Update_def
    by (rule keeps_api_update) (auto intro!: list_all_update list_all_delete simp: objects_ok_def)
  show "keeps objects_ok (client_Delete k)" unfolding client_Delete_def
    by (rule keeps_api_delete) (auto intro!: list_all_mark simp: objects_ok_def)
  show "keeps objects_ok (statusUpdate mgh)"
    by (rule statusUpdate_keeps) (auto simp: objects_ok_def)
qed (simp_all add: objects_ok_def)


section \<open>Cleaning up\<close>

text \<open>The objects of a kind that the operator owns are gone, or being deleted, or named in \<open>S\<close>.\<close>

definition left_over :: "string \<Rightarrow> kkey set \<Rightarrow> opState \<Rightarrow> bool" where
  "left_over kind S s \<longleftrightarrow> (\<forall>k x. map_of (os_objects s) k = Some x \<longrightarrow> fst k = kind \<longrightarrow> ownedByOperator x \<longrightarrow> km_deleting x \<or> k \<in> S)"

definition gone :: "kkey \<Rightarrow> opState \<Rightarrow> bool" where
  "gone k s \<longleftrightarrow> (\<forall>x. map_of (os_objects s) k = Some x \<longrightarrow> km_deleting x)"

definition configMapKey :: kkey where
  "configMapKey = (''ConfigMap'', HOHSystemNamespace, HOHConfigName)"

lemma ownedByOperator_meta [simp]: "ownedByOperator (x\<lparr>km_deleting := b\<rparr>) = ownedByOperator x"
  by (simp add: ownedByOperator_def)

lemma ignoreNotFound_InrD: "ignoreNotFound m s = (Inr (), s') \<Longrightarrow> m s = (Inr (), s') \<or> m s = (Inl NotFound, s')"
  by (auto simp: ignoreNotFound_def op_try_run split: if_splits)

text \<open>A delete that succeeds, or does not find the object, leaves it gone.\<close>

lemma delete_run:
  assumes "ignoreNotFound (client_Delete k) s = (Inr (), s')" and "honest s"
  shows "os_objects s' = (case map_of (os_objects s) k of None \<Rightarrow> os_objects s | Some x \<Rightarrow> markDeleted k x (os_objects s))"
  using ignoreNotFound_InrD [OF assms(1)] assms(2)
  by (auto simp: client_Delete_def api_delete_def api_call_def Let_def honest_def split: answer.splits option.splits)

lemma map_of_delete_run:
  assumes "ignoreNotFound (client_Delete k) s = (Inr (), s')" and "honest s"
  shows "map_of (os_objects s') j = (if j = k then (case map_of (os_objects s) k of None \<Rightarrow> None
     | Some x \<Rightarrow> if km_finalizers x = [] then None else Some (x\<lparr>km_deleting := True\<rparr>)) else map_of (os_objects s) j)"
  using delete_run [OF assms] by (auto simp: map_of_markDeleted split: option.split)

lemma keeps_delete_honest: "keeps honest (ignoreNotFound (client_Delete k))"
  by (intro op_keeps answers.delete)

lemma deletes_left_over:
  "triple (\<lambda>s. honest s \<and> left_over kind (objectKey ` set xs) s) (op_each (\<lambda>x. ignoreNotFound (client_Delete (objectKey x))) xs) (\<lambda>_ s. honest s \<and> left_over kind {} s) (\<lambda>_ _. True)"
proof (induction xs)
  case (Cons x xs)
  have "triple (\<lambda>s. honest s \<and> left_over kind (objectKey ` set (x # xs)) s) (ignoreNotFound (client_Delete (objectKey x)))
      (\<lambda>_ s. honest s \<and> left_over kind (objectKey ` set xs) s) (\<lambda>_ _. True)"
  proof (rule tripleI, goal_cases)
    case (1 s u s')
    then have run: "ignoreNotFound (client_Delete (objectKey x)) s = (Inr (), s')" and ok: "honest s" by simp_all
    have "km_deleting y \<or> k \<in> objectKey ` set xs" if y: "map_of (os_objects s') k = Some y" "fst k = kind" "ownedByOperator y" for k y
    proof (cases "k = objectKey x")
      case False
      then show ?thesis using 1(1) y map_of_delete_run [OF run ok, of k] by (auto simp: left_over_def simp del: split_paired_All)
    qed (use y map_of_delete_run [OF run ok, of k] in \<open>auto split: option.splits if_splits\<close>)
    then show ?case using keepsD [OF keeps_delete_honest ok run] by (simp add: left_over_def del: split_paired_All)
  qed simp
  then show ?case unfolding op_each.simps using Cons.IH by (rule triple_bind)
next
  case Nil
  show ?case unfolding op_each.simps by (rule triple_return) simp
qed

lemma listOwned_left_over:
  "triple (\<lambda>s. honest s \<and> objects_ok s) (listOwned kind) (\<lambda>xs s. honest s \<and> objects_ok s \<and> left_over kind (objectKey ` set xs) s) (\<lambda>_ _. True)"
proof (rule tripleI, goal_cases)
  case (1 s xs s')
  then have xs: "xs = map snd (filter (\<lambda>(k, x). fst k = kind \<and> ownedByOperator x) (os_objects s))" "s' = s\<lparr>os_calls := Suc (os_calls s)\<rparr>"
    by (auto simp: listOwned_def api_list_def api_call_def Let_def case_prod_unfold split: answer.splits)
  have "k \<in> objectKey ` set xs" if "map_of (os_objects s) k = Some x" "fst k = kind" "ownedByOperator x" for k x
  proof (rule rev_image_eqI)
    show "x \<in> set xs" using map_of_SomeD [OF that(1)] that(2,3) by (auto simp: xs(1) intro!: rev_image_eqI [where x = "(k, x)"])
    show "k = objectKey x" using 1 that(1) objects_okD [of s k x] by simp
  qed
  then show ?case using 1 by (auto simp: left_over_def xs(2) honest_def objects_ok_def)
qed simp

lemma keeps_delete_left_over: "keeps (left_over kind S) (ignoreNotFound (client_Delete k))"
  unfolding client_Delete_def
  by (intro op_keeps keeps_api_delete) (auto simp: left_over_def map_of_markDeleted split: if_splits)

lemma keeps_listOwned_left_over: "keeps (left_over kind S) (listOwned kind')"
  unfolding listOwned_def by (rule keeps_api_list) (simp add: left_over_def)

lemma keeps_triple_conj: "keeps I m \<Longrightarrow> triple P m Q E \<Longrightarrow> triple (\<lambda>s. I s \<and> P s) m (\<lambda>x s. I s \<and> Q x s) E"
  unfolding triple_def keeps_triple by blast

lemma pruneGlobalResources_triple:
  "triple (\<lambda>s. honest s \<and> objects_ok s) pruneGlobalResources (\<lambda>_ s. left_over ''ClusterRole'' {} s \<and> left_over ''ClusterRoleBinding'' {} s) (\<lambda>_ _. True)"
proof -
  let ?del = "op_each (\<lambda>x. ignoreNotFound (client_Delete (objectKey x)))"
  have del: "triple (\<lambda>s. honest s \<and> objects_ok s \<and> left_over kind (objectKey ` set xs) s) (?del xs) (\<lambda>_ s. objects_ok s \<and> honest s \<and> left_over kind {} s) (\<lambda>_ _. True)" for kind xs
    by (rule triple_weaken [OF keeps_triple_conj [OF _ deletes_left_over]]) (auto intro!: op_keeps objects.delete)
  have other: "keeps (left_over kind S) (?del xs)" for kind S xs by (intro op_keeps keeps_delete_left_over)
  show ?thesis
    unfolding pruneGlobalResources_def
  proof (rule triple_bind [OF listOwned_left_over], rule triple_bind [OF del])
    fix xs
    show "triple (\<lambda>s. objects_ok s \<and> honest s \<and> left_over ''ClusterRole'' {} s) (op_bind (listOwned ''ClusterRoleBinding'') ?del)
       (\<lambda>_ s. left_over ''ClusterRole'' {} s \<and> left_over ''ClusterRoleBinding'' {} s) (\<lambda>_ _. True)"
    proof (rule triple_bind [where R = "\<lambda>ys s. left_over ''ClusterRole'' {} s \<and> honest s \<and> objects_ok s \<and> left_over ''ClusterRoleBinding'' (objectKey ` set ys) s"])
      show "triple (\<lambda>s. objects_ok s \<and> honest s \<and> left_over ''ClusterRole'' {} s) (listOwned ''ClusterRoleBinding'')
         (\<lambda>ys s. left_over ''ClusterRole'' {} s \<and> honest s \<and> objects_ok s \<and> left_over ''ClusterRoleBinding'' (objectKey ` set ys) s) (\<lambda>_ _. True)"
        by (rule triple_weaken [OF keeps_triple_conj [OF keeps_listOwned_left_over listOwned_left_over]]) auto
      show "triple (\<lambda>s. left_over ''ClusterRole'' {} s \<and> honest s \<and> objects_ok s \<and> left_over ''ClusterRoleBinding'' (objectKey ` set ys) s) (?del ys)
         (\<lambda>_ s. left_over ''ClusterRole'' {} s \<and> left_over ''ClusterRoleBinding'' {} s) (\<lambda>_ _. True)" for ys
        by (rule triple_weaken [OF keeps_triple_conj [OF other del]]) auto
    qed
  qed
qed

lemma delete_gone: "triple honest (ignoreNotFound (client_Delete k)) (\<lambda>_. gone k) (\<lambda>_ _. True)"
proof (rule tripleI, goal_cases)
  case (1 s u s')
  then have "ignoreNotFound (client_Delete k) s = (Inr (), s')" by simp
  from map_of_delete_run [OF this 1(1), of k] show ?case by (auto simp: gone_def split: option.splits if_splits)
qed simp

lemma keeps_delete_gone: "keeps (gone j) (ignoreNotFound (client_Delete k))"
  unfolding client_Delete_def
  by (intro op_keeps keeps_api_delete) (auto simp: gone_def map_of_markDeleted split: if_splits)

lemma getConfigMap_triple:
  "triple (\<lambda>s. honest s \<and> objects_ok s) (client_Get configMapKey) (\<lambda>x s. honest s \<and> objectKey x = configMapKey) (\<lambda>e s. honest s \<and> (e = NotFound \<longrightarrow> gone configMapKey s))"
proof (rule tripleI, goal_cases)
  case (1 s x s')
  then show ?case using api_get_InrD [of os_objects configMapKey s x s'] objects_okD [of s configMapKey x] by (auto simp: client_Get_def honest_def)
next
  case (2 s e s')
  then show ?case by (auto simp: client_Get_def api_get_def api_call_def Let_def honest_def gone_def split: answer.splits option.splits)
qed

lemma hohSystemNamespace_key: "objectKey hohSystemNamespace = (''Namespace'', '''', HOHSystemNamespace)"
  by (simp add: hohSystemNamespace_def)

lemma pruneHoHResources_triple:
  "triple (\<lambda>s. honest s \<and> objects_ok s) (pruneHoHResources lib) (\<lambda>_ s. gone configMapKey s \<and> gone (''Namespace'', '''', HOHSystemNamespace) s) (\<lambda>_ _. True)"
proof -
  let ?ns = "(''Namespace'', '''', HOHSystemNamespace)"
  have last: "triple (\<lambda>s. honest s \<and> gone configMapKey s) (ignoreNotFound (client_Delete ?ns)) (\<lambda>_ s. gone configMapKey s \<and> gone ?ns s) (\<lambda>_ _. True)"
    by (rule triple_weaken [OF keeps_triple_conj [OF keeps_delete_gone delete_gone]]) auto
  have delete: "triple honest (ignoreNotFound (client_Delete configMapKey)) (\<lambda>_ s. honest s \<and> gone configMapKey s) (\<lambda>_ _. True)"
    by (rule triple_weaken [OF keeps_triple_conj [OF keeps_delete_honest delete_gone]]) auto
  have update: "triple honest (client_Update (deployer lib) x) (\<lambda>_. honest) (\<lambda>_ _. True)" for x
    by (rule triple_weaken [OF answers.update [unfolded keeps_triple]]) auto
  have found: "triple (\<lambda>s. honest s \<and> objectKey x = configMapKey)
      (op_bind (client_Update (deployer lib) (x\<lparr>km_finalizers := []\<rparr>)) (\<lambda>updated. op_bind (ignoreNotFound (client_Delete (objectKey x))) (\<lambda>_. ignoreNotFound (client_Delete ?ns))))
      (\<lambda>_ s. gone configMapKey s \<and> gone ?ns s) (\<lambda>_ _. True)" for x
  proof (cases "objectKey x = configMapKey")
    case True
    then show ?thesis using triple_bind [OF update triple_bind [OF delete last]] by simp
  qed (simp add: triple_def)
  have missing: "triple (\<lambda>s. honest s \<and> (e = NotFound \<longrightarrow> gone configMapKey s)) (if e = NotFound then ignoreNotFound (client_Delete ?ns) else op_raise e)
      (\<lambda>_ s. gone configMapKey s \<and> gone ?ns s) (\<lambda>_ _. True)" for e
    by (rule triple_if) (simp add: last, rule triple_raise, rule TrueI)
  show ?thesis
    unfolding pruneHoHResources_def hohSystemNamespace_key configMapKey_def [symmetric]
    by (rule triple_try [OF getConfigMap_triple found missing]) simp
qed

text \<open>Updating the config map or the hub leaves the objects of other kinds.\<close>

lemma keeps_update_left_over: "ko_kind x \<noteq> kind \<Longrightarrow> keeps (left_over kind S) (client_Update dlib x)"
  unfolding client_Update_def by (rule keeps_api_update) (auto simp: left_over_def objectKey_def)

lemma keeps_hubUpdate_objects:
  assumes "\<And>s c w f. I s \<Longrightarrow> I (os_hubs_update f (s\<lparr>os_calls := c, os_version := w\<rparr>))" and "\<And>s c. I s \<Longrightarrow> I (s\<lparr>os_calls := c\<rparr>)"
  shows "keeps I (hubUpdate mgh)"
  unfolding hubUpdate_def by (rule keeps_api_update) (use assms in auto)

lemma pruneHoHResources_left_over:
  assumes "kind \<noteq> ''ConfigMap''"
  shows "triple (\<lambda>s. left_over kind S s \<and> honest s \<and> objects_ok s) (pruneHoHResources lib) (\<lambda>_. left_over kind S) (\<lambda>_. left_over kind S)"
proof -
  have get: "triple (\<lambda>s. left_over kind S s \<and> honest s \<and> objects_ok s) (client_Get configMapKey) (\<lambda>x s. left_over kind S s \<and> objectKey x = configMapKey) (\<lambda>_. left_over kind S)"
  proof (rule tripleI, goal_cases)
    case (1 s x s')
    then show ?case using api_get_InrD [of os_objects configMapKey s x s'] objects_okD [of s configMapKey x] by (auto simp: client_Get_def left_over_def)
  next
    case (2 s e s')
    then show ?case using api_get_InlD [of os_objects configMapKey s e s'] by (simp add: client_Get_def left_over_def)
  qed
  have found: "triple (\<lambda>s. left_over kind S s \<and> objectKey x = configMapKey) (op_bind (client_Update (deployer lib) (x\<lparr>km_finalizers := []\<rparr>)) (\<lambda>updated.
      op_bind (ignoreNotFound (client_Delete (objectKey x))) (\<lambda>_. ignoreNotFound (client_Delete j)))) (\<lambda>_. left_over kind S) (\<lambda>_. left_over kind S)" for x j
  proof (cases "objectKey x = configMapKey")
    case True
    then have "ko_kind (x\<lparr>km_finalizers := []\<rparr>) \<noteq> kind" using assms by (simp add: objectKey_def configMapKey_def)
    then have "keeps (left_over kind S) (op_bind (client_Update (deployer lib) (x\<lparr>km_finalizers := []\<rparr>)) (\<lambda>updated.
      op_bind (ignoreNotFound (client_Delete (objectKey x))) (\<lambda>_. ignoreNotFound (client_Delete j))))"
      by (intro keeps_bind keeps_update_left_over keeps_delete_left_over)
    then show ?thesis unfolding keeps_triple by (rule triple_weaken) simp_all
  qed (simp add: triple_def)
  have missing: "triple (left_over kind S) (if e = NotFound then ignoreNotFound (client_Delete j) else op_raise e) (\<lambda>_. left_over kind S) (\<lambda>_. left_over kind S)" for e j
    unfolding keeps_triple [symmetric] by (intro keeps_if keeps_raise keeps_delete_left_over)
  show ?thesis
    unfolding pruneHoHResources_def configMapKey_def [symmetric] by (rule triple_try [OF get found missing])
qed

definition cleaned :: "opState \<Rightarrow> bool" where
  "cleaned s \<longleftrightarrow> left_over ''ClusterRole'' {} s \<and> left_over ''ClusterRoleBinding'' {} s \<and> gone configMapKey s \<and> gone (''Namespace'', '''', HOHSystemNamespace) s"

definition prunable :: "nsname \<Rightarrow> opState \<Rightarrow> bool" where
  "prunable k s \<longleftrightarrow> has_finalizer k s \<and> honest s \<and> objects_ok s"

lemma prunable_keeps: "keeps (has_finalizer k) m \<Longrightarrow> keeps honest m \<Longrightarrow> keeps objects_ok m \<Longrightarrow> keeps (prunable k) m"
  unfolding prunable_def by (intro keeps_conj)

lemma keeps_pruneGlobalResources: "keeps (has_finalizer k) pruneGlobalResources" "keeps honest pruneGlobalResources" "keeps objects_ok pruneGlobalResources"
  unfolding pruneGlobalResources_def listOwned_def
  by (intro op_keeps finalizers.delete finalizers.calls answers.delete answers.calls objects.delete objects.calls; assumption)+

lemma keeps_pruneHoHResources: "keeps (has_finalizer k) (pruneHoHResources lib)"
  unfolding pruneHoHResources_def by (intro op_keeps finalizers.keeps_Get finalizers.delete finalizers.update)

lemma keeps_hubUpdate_cleaned: "keeps cleaned (hubUpdate mgh)"
  by (rule keeps_hubUpdate_objects) (simp_all add: cleaned_def left_over_def gone_def)

text \<open>The finalizer is there until the update that follows the cleaning up.\<close>

lemma prune_triple:
  "triple (prunable k) (op_bind (cleanupConsole lib mgh) (\<lambda>_. op_bind pruneGlobalResources (\<lambda>_. pruneHoHResources lib)))
     (\<lambda>_. cleaned) (\<lambda>_. has_finalizer k)"
proof -
  have console: "triple (prunable k) (cleanupConsole lib mgh) (\<lambda>_. prunable k) (\<lambda>_. has_finalizer k)"
    using prunable_keeps [of k, OF finalizers.keeps_cleanupConsole answers.keeps_cleanupConsole objects.keeps_cleanupConsole]
    unfolding keeps_triple by (rule triple_weaken) (simp_all add: prunable_def)
  have global: "triple (prunable k) pruneGlobalResources (\<lambda>_ s. prunable k s \<and> left_over ''ClusterRole'' {} s \<and> left_over ''ClusterRoleBinding'' {} s) (\<lambda>_. has_finalizer k)"
    using triple_conj [OF prunable_keeps [of k, OF keeps_pruneGlobalResources, unfolded keeps_triple] triple_weaken [OF pruneGlobalResources_triple, where P = "prunable k"]]
    by (rule triple_weaken) (auto simp: prunable_def)
  have hoh: "triple (\<lambda>s. prunable k s \<and> left_over ''ClusterRole'' {} s \<and> left_over ''ClusterRoleBinding'' {} s) (pruneHoHResources lib) (\<lambda>_. cleaned) (\<lambda>_. has_finalizer k)"
  proof (rule tripleI, goal_cases)
    case (1 s u s')
    then show ?case
      using triple_success [OF pruneHoHResources_left_over [of "''ClusterRole''" "{}" lib] _ 1(2)]
        triple_success [OF pruneHoHResources_left_over [of "''ClusterRoleBinding''" "{}" lib] _ 1(2)] triple_success [OF pruneHoHResources_triple _ 1(2)]
      by (simp add: cleaned_def prunable_def)
  qed (use keepsD [OF keeps_pruneHoHResources [of k lib]] in \<open>auto simp: prunable_def\<close>)
  show ?thesis by (intro triple_bind [OF console] triple_bind [OF global] hoh)
qed

lemma initFinalization_triple:
  assumes "operatorFinalizer \<in> set (km_finalizers mgh)"
  shows "triple (prunable k) (initFinalization lib mgh) (\<lambda>(t, _) s. if t then km_deleting mgh \<and> cleaned s else prunable k s)
     (\<lambda>_ s. has_finalizer k s \<or> km_deleting mgh \<and> cleaned s)"
proof (cases "km_deleting mgh")
  case True
  have update: "triple cleaned (op_bind (hubUpdate m) (\<lambda>m1. op_return (True, m1))) (\<lambda>(t, _) s. if t then km_deleting mgh \<and> cleaned s else prunable k s)
     (\<lambda>_ s. has_finalizer k s \<or> km_deleting mgh \<and> cleaned s)" for m
  proof (rule triple_bind)
    show "triple cleaned (hubUpdate m) (\<lambda>_. cleaned) (\<lambda>_ s. has_finalizer k s \<or> km_deleting mgh \<and> cleaned s)"
      using keeps_hubUpdate_cleaned [of m] unfolding keeps_triple by (rule triple_weaken) (simp_all add: True)
  qed (rule triple_return, simp add: True)
  have "triple (prunable k) (op_bind (op_bind (cleanupConsole lib mgh) (\<lambda>_. op_bind pruneGlobalResources (\<lambda>_. pruneHoHResources lib)))
      (\<lambda>_. op_bind (hubUpdate (mgh\<lparr>km_finalizers := utils_Remove (km_finalizers mgh) operatorFinalizer\<rparr>)) (\<lambda>mgh1. op_return (True, mgh1))))
      (\<lambda>(t, _) s. if t then km_deleting mgh \<and> cleaned s else prunable k s) (\<lambda>_ s. has_finalizer k s \<or> km_deleting mgh \<and> cleaned s)"
    by (rule triple_bind [OF triple_weaken [OF prune_triple [of k lib mgh]] update]) simp_all
  then show ?thesis using True assms by (simp add: initFinalization_def op_bind_assoc utils_Contains_def list_ex_iff)
next
  case False
  have "triple (prunable k) (op_return (False, mgh)) (\<lambda>(t, _) s. if t then km_deleting mgh \<and> cleaned s else prunable k s)
     (\<lambda>_ s. has_finalizer k s \<or> km_deleting mgh \<and> cleaned s)" by (rule triple_return) simp
  moreover have "initFinalization lib mgh = op_return (False, mgh)"
    unfolding initFinalization_def using False assms by (auto simp: utils_Contains_def list_ex_iff)
  ultimately show ?thesis by simp
qed

text \<open>What follows the finalization keeps the finalizer.\<close>

lemma keeps_rest: "keeps (has_finalizer k) (op_bind (imageConfigMap lib mgh) (\<lambda>cm. op_bind (SetImageOverrides lib mgh cm) (\<lambda>_. if IsPaused mgh then op_return () else deployComponents lib mgh)))"
  by (intro op_keeps finalizers.keeps_images finalizers.keeps_deployComponents)

lemma Reconcile_cleans:
  "triple (\<lambda>s. prunable k s \<and> map_of (os_hubs s) k = Some mgh) (operator_Reconcile lib k)
     (\<lambda>_ s. has_finalizer k s \<or> km_deleting mgh \<and> cleaned s) (\<lambda>_ s. has_finalizer k s \<or> km_deleting mgh \<and> cleaned s)"
    (is "triple ?P _ (\<lambda>_. ?Q) _")
proof -
  have rest: "triple (prunable k) (op_bind (imageConfigMap lib m) (\<lambda>cm. op_bind (SetImageOverrides lib m cm) (\<lambda>_. if IsPaused m then op_return () else deployComponents lib m)))
      (\<lambda>_. ?Q) (\<lambda>_. ?Q)" for m
    using keeps_rest [of k lib m] unfolding keeps_triple by (rule triple_weaken) (simp_all add: prunable_def)
  have get: "triple ?P (api_get os_hubs k) (\<lambda>x s. x = mgh \<and> operatorFinalizer \<in> set (km_finalizers x) \<and> prunable k s) (\<lambda>_. has_finalizer k)"
  proof (rule tripleI, goal_cases)
    case (1 s x s')
    then show ?case using api_get_InrD [of os_hubs k s x s'] by (auto simp: prunable_def has_finalizer_def honest_def objects_ok_def)
  next
    case (2 s e s')
    then show ?case using api_get_InlD [of os_hubs k s e s'] by (auto simp: prunable_def has_finalizer_def)
  qed
  have body: "triple (\<lambda>s. x = mgh \<and> operatorFinalizer \<in> set (km_finalizers x) \<and> prunable k s)
      (case ol_discovery lib of Some e \<Rightarrow> op_raise e | None \<Rightarrow> op_bind (initFinalization lib x) (\<lambda>(t, m). if t then op_return ()
         else op_bind (imageConfigMap lib m) (\<lambda>cm. op_bind (SetImageOverrides lib m cm) (\<lambda>_. if IsPaused m then op_return () else deployComponents lib m))))
      (\<lambda>_. ?Q) (\<lambda>_. ?Q)" for x
  proof (cases "x = mgh \<and> operatorFinalizer \<in> set (km_finalizers x)")
    case True
    then have init: "triple (\<lambda>s. x = mgh \<and> operatorFinalizer \<in> set (km_finalizers x) \<and> prunable k s) (initFinalization lib x)
        (\<lambda>(t, _) s. if t then ?Q s else prunable k s) (\<lambda>_. ?Q)"
      by (intro triple_weaken [OF initFinalization_triple [of x k lib]]) auto
    show ?thesis
    proof (rule triple_option)
      fix e
      show "triple (\<lambda>s. x = mgh \<and> operatorFinalizer \<in> set (km_finalizers x) \<and> prunable k s) (op_raise e :: unit op) (\<lambda>_. ?Q) (\<lambda>_. ?Q)"
        by (rule triple_raise) (simp add: prunable_def)
    next
      show "triple (\<lambda>s. x = mgh \<and> operatorFinalizer \<in> set (km_finalizers x) \<and> prunable k s) (op_bind (initFinalization lib x) (\<lambda>(t, m). if t then op_return ()
         else op_bind (imageConfigMap lib m) (\<lambda>cm. op_bind (SetImageOverrides lib m cm) (\<lambda>_. if IsPaused m then op_return () else deployComponents lib m)))) (\<lambda>_. ?Q) (\<lambda>_. ?Q)"
      proof (rule triple_bind [OF init], goal_cases)
        case (1 p)
        show ?case
        proof (cases p)
          case (Pair t m)
          then show ?thesis by (cases t) (simp_all only: case_prod_conv if_True if_False simp_thms rest, rule triple_return, simp)
        qed
      qed
    qed
  qed (auto simp: triple_def)
  show ?thesis
    unfolding operator_Reconcile_def
    by (rule triple_try [OF get body]) (auto intro!: triple_if triple_return triple_raise)
qed


section \<open>Deploying\<close>

text \<open>The object in hand has the conditions \<open>T\<close>, and is otherwise the hub that the reconciliation began with.\<close>

definition stage :: "MulticlusterGlobalHub \<Rightarrow> string set \<Rightarrow> MulticlusterGlobalHub \<Rightarrow> opState \<Rightarrow> bool" where
  "stage m0 T m s \<longleftrightarrow> in_hand m s \<and> same_hub m0 m \<and> (\<forall>t\<in>T. condStatus (Conditions m) t = Some CONDITION_STATUS_TRUE)"

interpretation hub_in_hand: object_invariant "in_hand mgh" for mgh
proof
  fix obj dlib and k :: kkey
  show "keeps (in_hand mgh) (client_Create obj)" and "keeps (in_hand mgh) (client_Update dlib obj)" and "keeps (in_hand mgh) (client_Delete k)"
    by (rule client_keeps; simp add: in_hand_def hubs_ok_def)+
qed (simp_all add: in_hand_def hubs_ok_def)

lemma stage_program: "keeps (in_hand m) p \<Longrightarrow> triple (stage m0 T m) p (\<lambda>_. stage m0 T m) (\<lambda>_ _. True)"
  unfolding keeps_triple triple_def stage_def by blast

lemma stage_setter:
  assumes "condition_setter setter ty"
  shows "triple (stage m0 T m) (wrapError msg (setter m CONDITION_STATUS_TRUE)) (stage m0 (insert ty T)) (\<lambda>_ _. True)"
proof (rule triple_wrapError, rule tripleI, goal_cases)
  case (1 s m' s')
  then show ?case using triple_success [OF condition_setter.sets [OF assms] _ 1(2)] by (auto simp: stage_def intro: same_hub_trans)
qed simp

lemma triple_fails: "triple P m Q E \<Longrightarrow> triple P (op_bind m (\<lambda>_. op_raise e)) Q' (\<lambda>_ _. True)"
  by (auto simp: triple_def op_bind_run)

lemma stage_manipulateOne: "triple (stage m0 T m) (manipulateOne lib m setter obj) (\<lambda>_. stage m0 T m) (\<lambda>_ _. True)"
proof -
  have trivial: "triple (\<lambda>_. True) p (\<lambda>_ _. True) (\<lambda>_ _. True)" for p :: "'x op" by (simp add: triple_def)
  have failed: "triple (\<lambda>_. True) (case setter of None \<Rightarrow> op_raise e
      | Some f \<Rightarrow> op_bind (wrapError msg (f m CONDITION_STATUS_FALSE)) (\<lambda>_. op_raise e)) (\<lambda>_. stage m0 T m) (\<lambda>_ _. True)" for e msg
    by (intro triple_option triple_fails [OF trivial] triple_raise TrueI)
  have deploy: "triple (stage m0 T m) (Deploy dlib x) (\<lambda>_. stage m0 T m) (\<lambda>_ _. True)" for dlib x
    by (rule stage_program [OF hub_in_hand.keeps_Deploy])
  have ret: "triple (stage m0 T m) (op_return u) (\<lambda>_. stage m0 T m) (\<lambda>_ _. True)" for u :: 'y by (rule triple_return)
  show ?thesis
    unfolding manipulateOne_def
    by (intro triple_bind [OF stage_program] triple_try [OF deploy] failed ret TrueI op_keeps hub_in_hand.keeps_liftResult)
qed

lemma stage_manipulateObj:
  assumes "condition_setter setter ty"
  shows "triple (stage m0 T m) (manipulateObj lib objs m (Some setter)) (stage m0 (insert ty T)) (\<lambda>_ _. True)"
  unfolding manipulateObj_def option.case
  by (rule triple_bind [OF triple_each [OF stage_manipulateOne] stage_setter [OF assms]])

lemma stage_manipulateObj_None: "triple (stage m0 T m) (manipulateObj lib objs m None) (stage m0 T) (\<lambda>_ _. True)"
  unfolding manipulateObj_def option.case
  by (rule triple_bind [OF triple_each [OF stage_manipulateOne]], rule triple_return)

lemma stage_reconcileDatabase: "triple (stage m0 T m) (reconcileDatabase lib m k) (stage m0 (insert CONDITION_TYPE_DATABASE_INIT T)) (\<lambda>_ _. True)"
proof (cases "ContainConditionStatus m CONDITION_TYPE_DATABASE_INIT CONDITION_STATUS_TRUE")
  case True
  have "triple (stage m0 T m) (op_return m) (stage m0 (insert CONDITION_TYPE_DATABASE_INIT T)) (\<lambda>_ _. True)"
    by (rule triple_return) (use True in \<open>auto simp: stage_def ContainConditionStatus_cond dest: in_handD(1)\<close>)
  then show ?thesis using True by (simp add: reconcileDatabase_def)
next
  case False
  have trivial: "triple (\<lambda>_. True) p (\<lambda>_ _. True) (\<lambda>_ _. True)" for p :: "'x op" by (simp add: triple_def)
  have "triple (stage m0 T m) (op_each (execFile lib) fs) (\<lambda>_. stage m0 T m) (\<lambda>_ _. True)" for fs
    by (intro stage_program keeps_each hub_in_hand.keeps_execFile)
  note tried = triple_try [OF this stage_setter [OF database_init.condition_setter_axioms] triple_fails [OF trivial]]
  show ?thesis
    unfolding reconcileDatabase_def if_not_P [OF False]
    by (rule triple_bind [OF stage_program [OF hub_in_hand.keeps_Get]], rule triple_option, rule tried) (rule TrueI, rule triple_raise, rule TrueI)
qed


lemma triple_trivial: "triple (\<lambda>_. True) p (\<lambda>_ _. True) (\<lambda>_ _. True)"
  by (simp add: triple_def)

lemmas stage_failed = triple_fails [OF triple_trivial]

lemma stage_reconcileTransport:
  "triple (stage m0 T m) (reconcileTransport lib m) (\<lambda>(_, _, m') s. stage m0 (insert CONDITION_TYPE_TRANSPORT_INIT T) m' s) (\<lambda>_ _. True)"
proof -
  have set: "triple (stage m0 T m) (case p of (server, ca) \<Rightarrow> op_bind (wrapError msg (SetConditionTransportInit m CONDITION_STATUS_TRUE)) (\<lambda>m1. op_return (server, ca, m1)))
      (\<lambda>(_, _, m') s. stage m0 (insert CONDITION_TYPE_TRANSPORT_INIT T) m' s) (\<lambda>_ _. True)" for p msg
    by (cases p) (simp only: case_prod_conv, rule triple_bind [OF stage_setter [OF transport_init.condition_setter_axioms]], rule triple_return, simp)
  show ?thesis
    unfolding reconcileTransport_def
    by (rule triple_try [OF stage_program [OF hub_in_hand.keeps_getKafkaConfig] set stage_failed]) simp
qed

lemma stage_reconcileConsole:
  "triple (stage m0 T m) (reconcileConsole lib m) (stage m0 (if skipConsole m then T else insert CONDITION_TYPE_CONSOLE_DEPLOY T)) (\<lambda>_ _. True)"
proof (cases "skipConsole m")
  case True
  show ?thesis unfolding reconcileConsole_def if_P [OF True] by (rule triple_return)
next
  case False
  let ?T = "insert CONDITION_TYPE_CONSOLE_DEPLOY T"
  have "triple (stage m0 ?T m1) (op_try (pollJob n k) (\<lambda>e. op_bind (wrapError f (SetConditionConsoleDeployed m1 CONDITION_STATUS_FALSE)) (\<lambda>_. op_raise e))
      (\<lambda>_. wrapError t (SetConditionConsoleDeployed m1 CONDITION_STATUS_TRUE))) (stage m0 ?T) (\<lambda>_ _. True)" for m1 n k f t
    using triple_try [OF stage_program [OF hub_in_hand.keeps_pollJob] stage_setter [OF console_deployed.condition_setter_axioms, where T = ?T] stage_failed] by simp
  then show ?thesis
    unfolding reconcileConsole_def if_not_P [OF False]
    by (intro triple_bind [OF stage_program [OF hub_in_hand.keeps_operatorValues]] triple_bind [OF stage_program [OF hub_in_hand.keeps_Render]]
        triple_bind [OF stage_manipulateObj [OF console_deployed.condition_setter_axioms]])
qed

definition deployedTypes :: "MulticlusterGlobalHub \<Rightarrow> string set" where
  "deployedTypes mgh = {CONDITION_TYPE_DATABASE_INIT, CONDITION_TYPE_RBAC_DEPLOY, CONDITION_TYPE_TRANSPORT_INIT, CONDITION_TYPE_MANAGER_DEPLOY} \<union>
     (if skipConsole mgh then {} else {CONDITION_TYPE_CONSOLE_DEPLOY})"

lemma stage_skipConsole: "stage m0 T m s \<Longrightarrow> skipConsole m = skipConsole m0"
  by (auto simp: stage_def skipConsole_def getAnnotation_def same_hubD(2))

lemma stage_console:
  "triple (stage m0 T m) (op_bind (reconcileConsole lib m) (\<lambda>m6. startLeafHubController lib))
     (\<lambda>_ s. \<exists>m'. stage m0 (if skipConsole m0 then T else insert CONDITION_TYPE_CONSOLE_DEPLOY T) m' s) (\<lambda>_ _. True)"
proof (cases "skipConsole m = skipConsole m0")
  case True
  let ?T = "if skipConsole m0 then T else insert CONDITION_TYPE_CONSOLE_DEPLOY T"
  have "triple (stage m0 ?T m6) (startLeafHubController lib) (\<lambda>_ s. \<exists>m'. stage m0 ?T m' s) (\<lambda>_ _. True)" for m6
    by (rule triple_weaken [OF stage_program [OF hub_in_hand.keeps_startLeafHubController]]) auto
  from triple_bind [OF stage_reconcileConsole [where m = m and m0 = m0 and T = T, unfolded True] this] show ?thesis .
next
  case False
  then have "\<not> stage m0 T m s" for s using stage_skipConsole by blast
  then show ?thesis by (simp add: triple_def)
qed

lemma deployComponents_triple:
  "triple (stage m0 {} m) (deployComponents lib m) (\<lambda>_ s. \<exists>m'. stage m0 (deployedTypes m0) m' s) (\<lambda>_ _. True)"
proof -
  let ?E = "\<lambda>_ _. True"
  let ?R = "{CONDITION_TYPE_RBAC_DEPLOY, CONDITION_TYPE_DATABASE_INIT}"
  let ?T = "insert CONDITION_TYPE_TRANSPORT_INIT ?R"
  let ?M = "insert CONDITION_TYPE_MANAGER_DEPLOY ?T"
  note parts = stage_program [OF hub_in_hand.keeps_operatorValues] stage_program [OF hub_in_hand.keeps_Render] stage_program [OF hub_in_hand.keeps_GetImage]
    stage_program [OF hub_in_hand.keeps_reconcileHoHResources]
  have eq: "(if skipConsole m0 then ?M else insert CONDITION_TYPE_CONSOLE_DEPLOY ?M) = deployedTypes m0" by (auto simp: deployedTypes_def)
  have manager: "triple (stage m0 ?T m3) (op_bind (GetImage c) (\<lambda>img. op_bind (Render lib d (vs img)) (\<lambda>objs.
      op_bind (manipulateObj lib objs m3 (Some SetConditionManagerDeployed)) (\<lambda>m4. op_bind (Render lib d' vs') (\<lambda>objs'.
      op_bind (manipulateObj lib objs' m4 None) (\<lambda>m5. op_bind (reconcileConsole lib m5) (\<lambda>m6. startLeafHubController lib)))))))
      (\<lambda>_ s. \<exists>m'. stage m0 (deployedTypes m0) m' s) ?E" for m3 c d vs d' vs'
    unfolding eq [symmetric]
    by (rule triple_bind [OF parts(3)], rule triple_bind [OF parts(2)], rule triple_bind [OF stage_manipulateObj [OF manager_deployed.condition_setter_axioms]],
        rule triple_bind [OF parts(2)], rule triple_bind [OF stage_manipulateObj_None], rule stage_console)
  show ?thesis
    unfolding deployComponents_def
    by (rule triple_bind [OF stage_reconcileDatabase], rule triple_bind [OF parts(4)], rule triple_bind [OF parts(1)], rule triple_bind [OF parts(2)],
        rule triple_bind [OF stage_manipulateObj [OF rbac_deployed.condition_setter_axioms]], rule triple_bind [OF stage_reconcileTransport])
       (simp only: split_paired_all case_prod_conv, rule manager)
qed

lemma initFinalization_hub:
  assumes "\<not> km_deleting mgh"
  shows "triple (in_hand mgh) (initFinalization lib mgh)
     (\<lambda>(t, m) s. \<not> t \<and> stage m {} m s \<and> hubKey m = hubKey mgh \<and> km_annotations m = km_annotations mgh \<and> operatorFinalizer \<in> set (km_finalizers m)) (\<lambda>_ _. True)"
proof (cases "operatorFinalizer \<in> set (km_finalizers mgh)")
  case True
  then have "initFinalization lib mgh = op_return (False, mgh)"
    unfolding initFinalization_def using assms by (auto simp: utils_Contains_def list_ex_iff)
  then show ?thesis by (simp only:, intro triple_return) (simp add: stage_def same_hub_def True)
next
  case False
  let ?new = "mgh\<lparr>km_finalizers := km_finalizers mgh @ [operatorFinalizer]\<rparr>"
  have init: "initFinalization lib mgh = op_bind (hubUpdate ?new) (\<lambda>mgh1. op_return (False, mgh1))"
    unfolding initFinalization_def using False by (auto simp: utils_Contains_def list_ex_iff)
  have update: "triple (in_hand mgh) (hubUpdate ?new) (\<lambda>m s. in_hand m s \<and> hubKey m = hubKey mgh \<and> km_annotations m = km_annotations mgh \<and> operatorFinalizer \<in> set (km_finalizers m)) (\<lambda>_ _. True)"
  proof (rule tripleI, goal_cases)
    case (1 s m s')
    let ?m = "?new\<lparr>km_deleting := False, km_resourceVersion := Suc (os_version s)\<rparr>"
    have "hubs_ok (os_hubs_update (AList.update (hubKey mgh) ?m) (s\<lparr>os_calls := Suc (os_calls s), os_version := Suc (os_version s)\<rparr>))"
      using 1(1) in_handD [OF 1(1)] by (intro hubs_ok_update) (auto simp: in_hand_def hubKey_def)
    then show ?case
      using 1 assms by (auto simp: in_hand_def hubUpdate_def api_update_def api_call_def Let_def hubKey_def split: answer.splits if_splits)
  qed simp
  show ?thesis
    unfolding init by (rule triple_bind [OF update], rule triple_return) (simp add: stage_def same_hub_def)
qed

lemma Reconcile_deploys:
  assumes "\<not> km_deleting mgh" and "\<not> IsPaused mgh" and "hubKey mgh = k"
  shows "triple (\<lambda>s. in_hand mgh s \<and> honest s) (operator_Reconcile lib k)
     (\<lambda>_ s. \<exists>m m0. stage m0 (deployedTypes mgh) m s \<and> hubKey m0 = k \<and> operatorFinalizer \<in> set (km_finalizers m0)) (\<lambda>_ _. True)"
    (is "triple _ _ (\<lambda>_. ?Q) _")
proof -
  let ?P = "\<lambda>m s. stage m {} m s \<and> hubKey m = k \<and> km_annotations m = km_annotations mgh \<and> operatorFinalizer \<in> set (km_finalizers m)"
  have get: "triple (\<lambda>s. in_hand mgh s \<and> honest s) (api_get os_hubs k) (\<lambda>m s. m = mgh \<and> in_hand mgh s) (\<lambda>e _. e \<noteq> NotFound)"
  proof (rule tripleI, goal_cases)
    case (1 s m s')
    then show ?case using api_get_InrD [of os_hubs k s m s'] assms(3) by (auto simp: in_hand_def hubs_ok_def)
  next
    case (2 s e s')
    then show ?case using assms(3) by (auto simp: api_get_def api_call_def Let_def in_hand_def honest_def split: answer.splits option.splits)
  qed
  have rest: "triple (?P m) (op_bind (imageConfigMap lib m) (\<lambda>cm. op_bind (SetImageOverrides lib m cm) (\<lambda>_. if IsPaused m then op_return () else deployComponents lib m)))
      (\<lambda>_. ?Q) (\<lambda>_ _. True)" for m
  proof (cases "hubKey m = k \<and> km_annotations m = km_annotations mgh \<and> operatorFinalizer \<in> set (km_finalizers m)")
    case True
    then have m: "IsPaused m = False" "deployedTypes m = deployedTypes mgh" using assms(2) by (simp_all add: IsPaused_def deployedTypes_def skipConsole_def getAnnotation_def)
    then have post: "\<exists>m'. stage m (deployedTypes m) m' s \<Longrightarrow> ?Q s" for s using True by metis
    have deploy: "triple (stage m {} m) (if IsPaused m then op_return () else deployComponents lib m) (\<lambda>_. ?Q) (\<lambda>_ _. True)"
      unfolding m(1) if_False by (rule triple_weaken [OF deployComponents_triple _ post])
    show ?thesis
      by (rule triple_weaken [OF triple_bind [OF stage_program [OF hub_in_hand.keeps_images(1)] triple_bind [OF stage_program [OF hub_in_hand.keeps_images(2)] deploy]]]) simp_all
  qed (auto simp: triple_def)
  have init: "triple (\<lambda>s. m = mgh \<and> in_hand mgh s) (initFinalization lib m) (\<lambda>(t, m) s. \<not> t \<and> ?P m s) (\<lambda>_ _. True)" for m
  proof (cases "m = mgh")
    case True
    then show ?thesis using initFinalization_hub [OF assms(1), of lib] by (simp add: assms(3))
  qed (simp add: triple_def)
  have next_step: "triple (case p of (t, m) \<Rightarrow> \<lambda>s. \<not> t \<and> ?P m s) (case p of (t, m) \<Rightarrow> if t then op_return ()
      else op_bind (imageConfigMap lib m) (\<lambda>cm. op_bind (SetImageOverrides lib m cm) (\<lambda>_. if IsPaused m then op_return () else deployComponents lib m))) (\<lambda>_. ?Q) (\<lambda>_ _. True)" for p
    by (cases p, cases "fst p") (simp_all only: fst_conv case_prod_conv if_True if_False simp_thms rest, simp add: triple_def)
  show ?thesis
    unfolding operator_Reconcile_def
  proof (rule triple_try [OF get])
    fix m
    show "triple (\<lambda>s. m = mgh \<and> in_hand mgh s) (case ol_discovery lib of Some e \<Rightarrow> op_raise e | None \<Rightarrow> op_bind (initFinalization lib m) (\<lambda>(t, m). if t then op_return ()
      else op_bind (imageConfigMap lib m) (\<lambda>cm. op_bind (SetImageOverrides lib m cm) (\<lambda>_. if IsPaused m then op_return () else deployComponents lib m)))) (\<lambda>_. ?Q) (\<lambda>_ _. True)"
      by (intro triple_option triple_raise TrueI triple_bind [OF init next_step])
  qed (auto simp: triple_def)
qed


section \<open>The properties\<close>

definition deployedObjects :: "kobject list" where
  "deployedObjects = [newObject ''ClusterRole'' '''' ''o'' ownerLabels [], newObject ''ClusterRole'' '''' ''other'' [] [],
     (newObject ''ConfigMap'' HOHSystemNamespace HOHConfigName ownerLabels [])\<lparr>km_finalizers := [''f'']\<rparr>, hohSystemNamespace]"

text \<open>
  C24. The operator gives up its finalizer only after cleaning up: when a reconciliation, successful or not, leaves the hub
  without the finalizer it had, the hub was being deleted and the cluster roles and bindings that the operator owns, its config
  map and its system namespace are gone or being deleted. The API server says of an object that it is not there only when it
  is not there; apart from this any of its calls may fail or lose its response.
\<close>

theorem cleanup_before_finalizer_removed:
  assumes "operator_Reconcile lib k s = (r, s')" and "map_of (os_hubs s) k = Some mgh" and "operatorFinalizer \<in> set (km_finalizers mgh)"
    and "honest s" and "objects_ok s" and "\<not> has_finalizer k s'"
  shows "km_deleting mgh \<and> left_over ''ClusterRole'' {} s' \<and> left_over ''ClusterRoleBinding'' {} s' \<and> gone configMapKey s' \<and> gone (''Namespace'', '''', HOHSystemNamespace) s'"
proof -
  have pre: "prunable k s \<and> map_of (os_hubs s) k = Some mgh" using assms(2-5) by (simp add: prunable_def has_finalizer_def)
  have "has_finalizer k s' \<or> km_deleting mgh \<and> cleaned s'"
    using triple_success [OF Reconcile_cleans pre] triple_failure [OF Reconcile_cleans pre] assms(1) by (cases r) blast+
  then show ?thesis using assms(6) by (simp add: cleaned_def)
qed

theorem cleanup_before_finalizer_removed_witness:
  "left_over ''ClusterRole'' {} (snd (operator_Reconcile sampleOperatorLib (''ns'', ''hub'') (sampleOpState deployedObjects (sampleHub [operatorFinalizer] True)))) \<and>
   map fst (os_objects (snd (operator_Reconcile sampleOperatorLib (''ns'', ''hub'') (sampleOpState deployedObjects (sampleHub [operatorFinalizer] True))))) = [(''ClusterRole'', '''', ''other'')]"
proof
  let ?s = "sampleOpState deployedObjects (sampleHub [operatorFinalizer] True)"
  let ?r = "operator_Reconcile sampleOperatorLib (''ns'', ''hub'') ?s"
  have s: "map_of (os_hubs ?s) (''ns'', ''hub'') = Some (sampleHub [operatorFinalizer] True)" "operatorFinalizer \<in> set (km_finalizers (sampleHub [operatorFinalizer] True))"
    "honest ?s" "objects_ok ?s"
    by (simp_all add: sampleOpState_def sampleHub_def kmeta.defs newMeta_def honest_def objects_ok_def list_all_iff)
  have "os_hubs (snd ?r) = []" by code_simp
  then have "\<not> has_finalizer (''ns'', ''hub'') (snd ?r)" by (simp add: has_finalizer_def)
  from cleanup_before_finalizer_removed [OF prod.collapse [symmetric] s this] show "left_over ''ClusterRole'' {} (snd ?r)" by simp
  show "map fst (os_objects (snd ?r)) = [(''ClusterRole'', '''', ''other'')]" by code_simp
qed

text \<open>
  C25. A reconciliation that succeeds on a hub that is neither deleted nor paused leaves the hub on the server with the
  conditions of the database, the roles, the transport, the manager and (unless it is skipped) the console all true, and with
  the operator's finalizer. This holds whatever conditions the hub had, and with responses lost.
\<close>

theorem components_deployed:
  assumes "operator_Reconcile lib k s = (Inr (), s')" and "hubs_ok s" and "map_of (os_hubs s) k = Some mgh" and "honest s" and "\<not> km_deleting mgh" and "\<not> IsPaused mgh"
  shows "\<exists>m. map_of (os_hubs s') k = Some m \<and> operatorFinalizer \<in> set (km_finalizers m) \<and> (\<forall>t\<in>deployedTypes mgh. ContainConditionStatus m t CONDITION_STATUS_TRUE)"
proof -
  have key: "hubKey mgh = k" using assms(2,3) by (auto simp: hubs_ok_def list_all_iff dest!: map_of_SomeD)
  have pre: "in_hand mgh s \<and> honest s" using assms(2-4) by (simp add: in_hand_def key)
  from triple_success [OF Reconcile_deploys [OF assms(5,6) key] pre assms(1)]
  obtain m m0 where m: "stage m0 (deployedTypes mgh) m s'" "hubKey m0 = k" "operatorFinalizer \<in> set (km_finalizers m0)" by blast
  have "ContainConditionStatus m t CONDITION_STATUS_TRUE" if "t \<in> deployedTypes mgh" for t
    using m(1) that by (auto simp: stage_def ContainConditionStatus_cond dest: in_handD(1))
  then show ?thesis using m by (auto simp: stage_def in_hand_def same_hubD(1,3))
qed

theorem components_deployed_witness:
  "\<exists>m. map_of (os_hubs (snd (operator_Reconcile sampleOperatorLib (''ns'', ''hub'') (sampleOpState [newObject ''Secret'' ''open-cluster-management'' ''storage'' [] []] (sampleHub [] False))))) (''ns'', ''hub'') = Some m
     \<and> ContainConditionStatus m CONDITION_TYPE_MANAGER_DEPLOY CONDITION_STATUS_TRUE"
proof -
  let ?s = "sampleOpState [newObject ''Secret'' ''open-cluster-management'' ''storage'' [] []] (sampleHub [] False)"
  have s: "hubs_ok ?s" "map_of (os_hubs ?s) (''ns'', ''hub'') = Some (sampleHub [] False)" "honest ?s" "\<not> km_deleting (sampleHub [] False)" "\<not> IsPaused (sampleHub [] False)"
    by (simp_all add: sampleOpState_def sampleHub_def kmeta.defs newMeta_def honest_def hubs_ok_def list_all_iff hubKey_def conds_ok_def IsPaused_def getAnnotation_def
        GlobalHubSkipConsoleInstallAnnotationKey_def)
  have "fst (operator_Reconcile sampleOperatorLib (''ns'', ''hub'') ?s) = Inr ()" by code_simp
  then have "operator_Reconcile sampleOperatorLib (''ns'', ''hub'') ?s = (Inr (), snd (operator_Reconcile sampleOperatorLib (''ns'', ''hub'') ?s))" by (metis prod.collapse)
  from components_deployed [OF this s] show ?thesis by (auto simp: deployedTypes_def)
qed


text \<open>
  C26. Deploying converges: after a deployment that succeeds, deploying the same object again succeeds and only reads. It holds for
  every kind, whatever the server had before, also where an update does not store a thing that the comparison ignores; the
  conversions and the comparison are only assumed to be stable on an object that was written.
\<close>

theorem deploy_converges:
  assumes "lib_ok lib" and "service_ok lib x" and "objects_ok s" and "map_of (NewHoHDeployer lib) (ko_kind x) \<noteq> None \<longrightarrow> dl_typed lib (ko_kind x) x \<noteq> None"
    and "Deploy lib x s = (Inr (), s')" and "map_of (os_objects s') (objectKey x) \<noteq> None" and "os_answer s' (os_calls s') = Answered"
  shows "Deploy lib x s' = (Inr (), s'\<lparr>os_calls := Suc (os_calls s')\<rparr>)"
proof -
  obtain cur where cur: "map_of (os_objects s') (objectKey x) = Some cur" using assms(6) by blast
  have "settled lib x cur"
    by (rule Deploy_settles [OF assms(1-3) _ assms(5) cur]) (use assms(4) comparedFields_deployers [of "ko_kind x" lib] in simp)
  then show ?thesis by (rule Deploy_idle [OF cur _ assms(7)])
qed

definition sampleDeployment :: "string \<Rightarrow> kobject" where
  "sampleDeployment v = newObject ''Deployment'' ''ns'' ''d'' [] [(''spec'', JString v)]"

theorem deploy_converges_witness:
  "(let s' = snd (Deploy (deployer sampleOperatorLib) (sampleDeployment ''new'') (sampleOpState [sampleDeployment ''old''] (sampleHub [] False))) in
    Deploy (deployer sampleOperatorLib) (sampleDeployment ''new'') s' = (Inr (), s'\<lparr>os_calls := Suc (os_calls s')\<rparr>) \<and> os_calls s' = 2)"
proof -
  let ?lib = "deployer sampleOperatorLib" and ?x = "sampleDeployment ''new''" and ?s = "sampleOpState [sampleDeployment ''old''] (sampleHub [] False)"
  let ?s' = "snd (Deploy ?lib ?x ?s)"
  have lib: "lib_ok ?lib" "service_ok ?lib ?x" "objects_ok ?s" "map_of (NewHoHDeployer ?lib) (ko_kind ?x) \<noteq> None \<longrightarrow> dl_typed ?lib (ko_kind ?x) ?x \<noteq> None"
    by (simp_all add: lib_ok_def service_ok_def objects_ok_def deployer_def sampleOperatorLib_def deployLib.defs stamped_def sampleDeployment_def sampleOpState_def objectKey_def)
  have "fst (Deploy ?lib ?x ?s) = Inr ()" "os_calls ?s' = 2" "map_of (os_objects ?s') (objectKey ?x) \<noteq> None" "os_answer ?s' (os_calls ?s') = Answered" by code_simp+
  then show ?thesis using deploy_converges [OF lib, of ?s'] by (simp add: Let_def prod_eq_iff)
qed

text \<open>
  A kind that the deployer has no function for is created but never brought up to date: deploying an object of such a kind
  that exists succeeds and changes nothing, however it differs. The operator renders placements and bindings of cluster sets,
  ingresses and network policies, which are such kinds; a new version of them never reaches a running cluster.
\<close>

theorem unlisted_kind_never_updated:
  assumes "ko_kind x \<in> {''Ingress'', ''NetworkPolicy'', ''Placement'', ''ManagedClusterSetBinding''}" and "objects_ok s"
    and "map_of (os_objects s) (objectKey x) = Some cur" and "os_answer s (os_calls s) = Answered"
  shows "Deploy lib x s = (Inr (), s\<lparr>os_calls := Suc (os_calls s)\<rparr>)"
proof (rule Deploy_idle [OF assms(3) _ assms(4)])
  have "ko_kind cur = ko_kind x" using objects_okD [OF assms(2,3)] by (simp add: objectKey_def)
  then show "settled lib x cur" using assms(1) by (auto simp: settled_def comparedFields_def)
qed

theorem unlisted_kind_never_updated_witness:
  "(let s = sampleOpState [newObject ''Ingress'' ''ns'' ''i'' [] [(''spec'', JString ''old'')]] (sampleHub [] False) in
    Deploy (deployer sampleOperatorLib) (newObject ''Ingress'' ''ns'' ''i'' [] [(''spec'', JString ''new'')]) s = (Inr (), s\<lparr>os_calls := Suc (os_calls s)\<rparr>))"
proof -
  let ?s = "sampleOpState [newObject ''Ingress'' ''ns'' ''i'' [] [(''spec'', JString ''old'')]] (sampleHub [] False)"
  have "objects_ok ?s" "map_of (os_objects ?s) (objectKey (newObject ''Ingress'' ''ns'' ''i'' [] [(''spec'', JString ''new'')])) = Some (newObject ''Ingress'' ''ns'' ''i'' [] [(''spec'', JString ''old'')])"
    "os_answer ?s (os_calls ?s) = Answered" by (simp_all add: objects_ok_def sampleOpState_def)
  from unlisted_kind_never_updated [OF _ this] show ?thesis by (simp add: Let_def)
qed

end
