(* ===== verification/GH_LeafWork.thy ===== *)
theory GH_LeafWork
  imports GH_Operator
begin

text \<open>
  The manifest works that the operator puts on the leaf hubs (\<open>src/operator/pkg/controllers/leafhub\<close>: \<open>template.go\<close>,
  \<open>packagemanifest.go\<close>, \<open>addon.go\<close>, \<open>manifestwork.go\<close>). The template engine, the conversion of YAML to JSON, the JSON decoder
  and encoder, the semantic comparison and the package server are parameters. A manifest work is sent to the API server as
  JSON, so a manifest that held an object comes back as raw JSON; an update of a work keeps the status that the work agent reported.
\<close>

section \<open>Constants\<close>

definition LocalClusterName :: string where "LocalClusterName = ''local-cluster''"
definition DefaultImagePullSecretName :: string where "DefaultImagePullSecretName = ''multiclusterhub-operator-pull-secret''"
definition HoHClusterManagementAddonName :: string where "HoHClusterManagementAddonName = ''multicluster-global-hub-controller''"
definition HoHManagedClusterAddonName :: string where "HoHManagedClusterAddonName = ''multicluster-global-hub-controller''"
definition HOHHubSubscriptionWorkSuffix :: string where "HOHHubSubscriptionWorkSuffix = ''mgh-hub-subscription''"
definition HoHHubMCHWorkSuffix :: string where "HoHHubMCHWorkSuffix = ''mgh-hub-mch''"
definition HoHHostingHubWorkSuffix :: string where "HoHHostingHubWorkSuffix = ''mgh-hub-hosting''"
definition HoHHostedHubWorkSuffix :: string where "HoHHostedHubWorkSuffix = ''mgh-hub-hosted''"
definition HoHHostingAgentWorkSuffix :: string where "HoHHostingAgentWorkSuffix = ''mgh-agent-hosting''"
definition HoHHostedAgentWorkSuffix :: string where "HoHHostedAgentWorkSuffix = ''mgh-agent-hosted''"
definition HoHAgentWorkSuffix :: string where "HoHAgentWorkSuffix = ''mgh-agent''"
definition WorkPostponeDeleteAnnotationKey :: string where "WorkPostponeDeleteAnnotationKey = ''open-cluster-management/postpone-delete''"
definition OpenshiftMarketPlaceNamespace :: string where "OpenshiftMarketPlaceNamespace = ''openshift-marketplace''"
definition ACMSubscriptionPublicSource :: string where "ACMSubscriptionPublicSource = ''redhat-operators''"
definition ACMPackageManifestName :: string where "ACMPackageManifestName = ''advanced-cluster-management''"
definition MCEPackageManifestName :: string where "MCEPackageManifestName = ''multicluster-engine''"
definition UpstreamImageRegistry :: string where "UpstreamImageRegistry = ''quay.io/stolostron''"
definition DefaultACMDownStreamImageRegistry :: string where "DefaultACMDownStreamImageRegistry = ''registry.redhat.io/rhacm2''"
definition DefaultMCEDownStreamImageRegistry :: string where "DefaultMCEDownStreamImageRegistry = ''registry.redhat.io/multicluster-engine''"

lemmas work_suffixes = HOHHubSubscriptionWorkSuffix_def HoHHubMCHWorkSuffix_def HoHHostingHubWorkSuffix_def HoHHostedHubWorkSuffix_def
  HoHHostingAgentWorkSuffix_def HoHHostedAgentWorkSuffix_def HoHAgentWorkSuffix_def

section \<open>Values of the templates\<close>

record ACMImageEntry =
  CertPolicyController :: string
  IAMPolicyController :: string
  ConfigPolicyController :: string
  GovernancePolicyStatusSync :: string
  GovernancePolicySpecSync :: string
  GovernancePolicyTemplateSync :: string
  GovernancePolicyAddonController :: string
  GovernancePolicyPropagator :: string
  MulticlusterOperatorsChannel :: string
  MulticlusterOperatorsSubscription :: string

record MCEImageEntry =
  DefaultImageRegistry :: string
  Registration :: string
  RegistrationOperator :: string
  ManagedClusterImportController :: string
  Work :: string
  PlacementImage :: string

record HypershiftHubConfigValues =
  HubVersion :: string
  hv_HoHAgentImage :: string
  hv_HostedClusterName :: string
  ImagePullSecret :: string
  ChannelClusterIP :: string
  ACM :: ACMImageEntry
  MCE :: MCEImageEntry

record HoHAgentConfigValues =
  HoHAgentImage :: string
  LeadHubID :: string
  KafkaBootstrapServer :: string
  KafkaCA :: string
  HostedClusterNamespace :: string

record HostedClusterConfig =
  ManagedClusterName :: string
  HostingClusterName :: string
  HostingNamespace :: string
  HostedClusterName :: string

datatype templateValues =
    PlainValues "(string, string) gomap"
  | HubValues "string \<Rightarrow> string" "string \<Rightarrow> string" HypershiftHubConfigValues
  | AgentValues HoHAgentConfigValues

text \<open>The entries of an embedded file system in the order of \<open>fs.WalkDir\<close>; a directory has no content.\<close>

type_synonym embedFS = "(string \<times> string option) list"
type_synonym templateSet = "(string, string) gomap"

record leafLib = operatorLib +
  ll_nonHypershiftManifestFS :: embedFS
  ll_hypershiftHubManifestFS :: embedFS
  ll_hypershiftAgentManifestFS :: embedFS
  ll_parse :: "string \<Rightarrow> opError option"
  ll_execute :: "string \<Rightarrow> templateValues \<Rightarrow> opError + string"
  ll_toJSON :: "string \<Rightarrow> opError + string"
  ll_unmarshal :: "string \<Rightarrow> opError + jvalue"
  ll_marshal :: "jvalue \<Rightarrow> string"
  ll_subscription :: "string \<Rightarrow> opError + (string \<times> string) option"
  ll_optionDerives :: "string option \<Rightarrow> string option \<Rightarrow> bool"
  ll_configsDerive :: "manifestConfig list \<Rightarrow> manifestConfig list \<Rightarrow> bool"
  ll_packages :: "nat \<Rightarrow> opError + jvalue list"

definition operatorPart :: "leafLib \<Rightarrow> operatorLib" where
  "operatorPart lib = operatorLib.truncate lib"

section \<open>Templates\<close>

definition readFilesInDir :: "embedFS \<Rightarrow> string \<Rightarrow> string" where
  "readFilesInDir manifestFS dir = concat (map (\<lambda>(file, content). case content of None \<Rightarrow> [] | Some b \<Rightarrow> b @ [CHR 0x0A] @ ''---'' @ [CHR 0x0A])
     (filter (\<lambda>(file, _). file = dir \<or> prefix (dir @ ''/'') file) manifestFS))"

fun parseDirs :: "leafLib \<Rightarrow> embedFS \<Rightarrow> string list \<Rightarrow> embedFS \<Rightarrow> opError + templateSet" where
  "parseDirs lib manifestFS sufs [] = Inr []"
| "parseDirs lib manifestFS sufs ((file, content) # rest) =
     (if content = None \<and> list_ex (\<lambda>x. suffix x file) sufs
      then let manifests = readFilesInDir manifestFS file in
        (case ll_parse lib manifests of
           Some e \<Rightarrow> Inl e
         | None \<Rightarrow> (case parseDirs lib manifestFS sufs rest of Inl e \<Rightarrow> Inl e | Inr tpl \<Rightarrow> Inr (AList.update file manifests tpl)))
      else parseDirs lib manifestFS sufs rest)"

definition parseNonHypershiftTemplates :: "leafLib \<Rightarrow> embedFS \<Rightarrow> opError + templateSet" where
  "parseNonHypershiftTemplates lib manifestFS = parseDirs lib manifestFS [''subscription'', ''mch'', ''agent''] manifestFS"

definition getHubImage :: "string \<Rightarrow> string \<Rightarrow> (string, string) gomap \<Rightarrow> string \<Rightarrow> string" where
  "getHubImage snapshot registry images imageKey =
     (if snapshot \<noteq> '''' then registry @ ''/'' @ imageKey @ '':'' @ snapshot else (case map_of images imageKey of None \<Rightarrow> '''' | Some v \<Rightarrow> v))"

definition parseHubHypershiftTemplates :: "leafLib \<Rightarrow> embedFS \<Rightarrow> opError + templateSet" where
  "parseHubHypershiftTemplates lib manifestFS = parseDirs lib manifestFS [''hosted'', ''hosting''] manifestFS"

definition parseAgentHypershiftTemplates :: "leafLib \<Rightarrow> embedFS \<Rightarrow> opError + templateSet" where
  "parseAgentHypershiftTemplates lib manifestFS = parseDirs lib manifestFS [''hosted'', ''hosting''] manifestFS"

definition ExecuteTemplate :: "leafLib \<Rightarrow> templateSet \<Rightarrow> string \<Rightarrow> templateValues \<Rightarrow> string op" where
  "ExecuteTemplate lib tpl name vals =
     (case map_of tpl name of
        None \<Rightarrow> op_raise (OtherError (''template: no template '' @ name))
      | Some txt \<Rightarrow> liftResult (ll_execute lib txt vals))"

fun workManifests :: "leafLib \<Rightarrow> string list \<Rightarrow> opError option \<Rightarrow> opError + manifest list" where
  "workManifests lib [] readError = (case readError of None \<Rightarrow> Inr [] | Some e \<Rightarrow> Inl e)"
| "workManifests lib (b # bs) readError =
     (if b = '''' then workManifests lib bs readError
      else (case ll_toJSON lib b of
              Inl e \<Rightarrow> Inl e
            | Inr rawJSON \<Rightarrow>
                if rawJSON \<noteq> ''null''
                then (case workManifests lib bs readError of Inl e \<Rightarrow> Inl e | Inr ms \<Rightarrow> Inr (RawManifest rawJSON # ms))
                else workManifests lib bs readError))"

definition generateWorkManifestsFromBuffer :: "leafLib \<Rightarrow> string \<Rightarrow> manifest list op" where
  "generateWorkManifestsFromBuffer lib buf = liftResult (workManifests lib (fst (ol_documents lib buf)) (snd (ol_documents lib buf)))"

section \<open>Package manifests\<close>

definition asMap :: "jvalue option \<Rightarrow> (string, jvalue) gomap option" where
  "asMap v = (case v of Some (JMap m) \<Rightarrow> Some m | _ \<Rightarrow> None)"

definition asString :: "jvalue option \<Rightarrow> string option" where
  "asString v = (case v of Some (JString t) \<Rightarrow> Some t | _ \<Rightarrow> None)"

definition asArray :: "jvalue option \<Rightarrow> jvalue list option" where
  "asArray v = (case v of Some (JArray xs) \<Rightarrow> Some xs | _ \<Rightarrow> None)"

fun splitAt :: "char \<Rightarrow> string \<Rightarrow> string list" where
  "splitAt c [] = [[]]"
| "splitAt c (x # xs) = (if x = c then [] # splitAt c xs else (case splitAt c xs of [] \<Rightarrow> [[x]] | p # ps \<Rightarrow> (x # p) # ps))"

definition TrimSuffix :: "string \<Rightarrow> string \<Rightarrow> string" where
  "TrimSuffix s suf = (if suffix suf s then take (length s - length suf) s else s)"

fun relatedImages :: "jvalue list \<Rightarrow> (string, string) gomap \<Rightarrow> opError + (string, string) gomap" where
  "relatedImages [] images = Inr images"
| "relatedImages (img # imgs) images =
     (case asString (Some img) of
        None \<Rightarrow> Inl Panic
      | Some imgStr \<Rightarrow>
          let imgStrs = (if CHR ''@'' \<in> set imgStr then splitAt (CHR ''@'') imgStr else if CHR '':'' \<in> set imgStr then splitAt (CHR '':'') imgStr else []) in
          if length imgStrs \<noteq> 2 then Inl (OtherError (''invalid image format: '' @ imgStr @ '' in packagemanifest''))
          else let imageName = last (splitAt (CHR ''/'') (imgStrs ! 0)); imageKey = TrimSuffix imageName ''-rhel8'' in
            relatedImages imgs (AList.update imageKey imgStr images))"

fun defaultChannelConfig :: "string \<Rightarrow> jvalue list \<Rightarrow> opError + (string \<times> (string, string) gomap)" where
  "defaultChannelConfig defaultChannel [] = Inr ('''', [])"
| "defaultChannelConfig defaultChannel (channel # channels) =
     (case asMap (Some channel) of
        None \<Rightarrow> Inl Panic
      | Some ch \<Rightarrow>
          (case asString (map_of ch ''name'') of
             None \<Rightarrow> Inl Panic
           | Some name \<Rightarrow>
               if name \<noteq> defaultChannel then defaultChannelConfig defaultChannel channels
               else (case (asString (map_of ch ''currentCSV''), asMap (map_of ch ''currentCSVDesc'')) of
                       (Some currentCSV, Some currentCSVDesc) \<Rightarrow>
                         (case asArray (map_of currentCSVDesc ''relatedImages'') of
                            None \<Rightarrow> Inl Panic
                          | Some imgs \<Rightarrow> (case relatedImages imgs [] of Inl e \<Rightarrow> Inl e | Inr images \<Rightarrow> Inr (currentCSV, images)))
                     | _ \<Rightarrow> Inl Panic)))"

definition getSinglePackageManifestConfig :: "jvalue \<Rightarrow> opError + (string \<times> string \<times> (string, string) gomap)" where
  "getSinglePackageManifestConfig pm =
     (case asMap (jfield ''status'' pm) of
        None \<Rightarrow> Inl Panic
      | Some statusObj \<Rightarrow>
          (case (asString (map_of statusObj ''defaultChannel''), asArray (map_of statusObj ''channels'')) of
             (Some defaultChannel, Some channels) \<Rightarrow>
               (case defaultChannelConfig defaultChannel channels of Inl e \<Rightarrow> Inl e | Inr (currentCSV, images) \<Rightarrow> Inr (defaultChannel, currentCSV, images))
           | _ \<Rightarrow> Inl Panic))"

definition packageName :: "jvalue \<Rightarrow> string" where
  "packageName pm = (case asMap (jfield ''metadata'' pm) of None \<Rightarrow> '''' | Some m \<Rightarrow> (case asString (map_of m ''name'') of None \<Rightarrow> '''' | Some n \<Rightarrow> n))"

definition readPackage :: "jvalue \<Rightarrow> unit op" where
  "readPackage pm =
     op_bind (if packageName pm = ACMPackageManifestName
        then op_bind (liftResult (getSinglePackageManifestConfig pm)) (\<lambda>(channel, csv, images).
          op_modify (\<lambda>s. s\<lparr>packageManifestConfigInstance :=
             (packageManifestConfigInstance s)\<lparr>ACMDefaultChannel := channel, ACMCurrentCSV := csv, ACMImages := images\<rparr>\<rparr>))
        else op_return ()) (\<lambda>_.
     if packageName pm = MCEPackageManifestName
     then op_bind (liftResult (getSinglePackageManifestConfig pm)) (\<lambda>(channel, csv, images).
       op_modify (\<lambda>s. s\<lparr>packageManifestConfigInstance :=
          (packageManifestConfigInstance s)\<lparr>MCEDefaultChannel := channel, MCECurrentCSV := csv, MCEImages := images\<rparr>\<rparr>))
     else op_return ())"

definition getPackageManifestConfig :: "leafLib \<Rightarrow> packageManifestConfig op" where
  "getPackageManifestConfig lib =
     op_bind (op_get (\<lambda>s. ll_packages lib (os_calls s))) (\<lambda>answer.
     op_bind (liftResult answer) (\<lambda>packageManifestList.
     op_bind (op_each readPackage packageManifestList) (\<lambda>_.
     op_get packageManifestConfigInstance)))"

section \<open>Add-ons\<close>

definition buildClusterManagementAddon :: kobject where
  "buildClusterManagementAddon = newObject ''ClusterManagementAddOn'' '''' HoHClusterManagementAddonName ownerLabels
     [(''spec'', JMap [(''addOnMeta'', JMap [(''displayName'', JString ''Multicluster Global Hub Controller''),
        (''description'', JString ''Multicluster Global Hub Controller manages multicluster-global-hub components.'')])])]"

definition buildManagedClusterAddon :: "string \<Rightarrow> kobject" where
  "buildManagedClusterAddon managedClusterName = newObject ''ManagedClusterAddOn'' managedClusterName HoHManagedClusterAddonName ownerLabels
     [(''spec'', JMap [(''installNamespace'', JString HOHDefaultNamespace)])]"

text \<open>Both kinds of add-on are created when they are missing and updated when their \<open>spec\<close> is not derived.\<close>

definition applyAddon :: "leafLib \<Rightarrow> kobject \<Rightarrow> unit op" where
  "applyAddon lib new =
     op_try (client_Get (objectKey new))
       (\<lambda>e. if e = NotFound then drop_result (client_Create new) else op_raise e)
       (\<lambda>existing.
          if \<not> dl_derivative lib (objectField new ''spec'') (objectField existing ''spec'')
          then drop_result (client_Update (deployer (operatorPart lib)) (new\<lparr>km_resourceVersion := km_resourceVersion existing\<rparr>))
          else op_return ())"

definition applyClusterManagementAddon :: "leafLib \<Rightarrow> unit op" where
  "applyClusterManagementAddon lib = applyAddon lib buildClusterManagementAddon"

definition deleteClusterManagementAddon :: "unit op" where
  "deleteClusterManagementAddon = ignoreNotFound (client_Delete (objectKey buildClusterManagementAddon))"

definition applyManagedClusterAddon :: "leafLib \<Rightarrow> string \<Rightarrow> unit op" where
  "applyManagedClusterAddon lib managedClusterName = applyAddon lib (buildManagedClusterAddon managedClusterName)"

definition deleteManagedClusterAddon :: "string \<Rightarrow> unit op" where
  "deleteManagedClusterAddon managedClusterName = ignoreNotFound (client_Delete (objectKey (buildManagedClusterAddon managedClusterName)))"

section \<open>Manifest works\<close>

definition workKey :: "ManifestWork \<Rightarrow> nsname" where
  "workKey w = (km_namespace w, km_name w)"

definition workName :: "string \<Rightarrow> string \<Rightarrow> string" where
  "workName managedClusterName suf = managedClusterName @ ''-'' @ suf"

definition newWork :: "string \<Rightarrow> string \<Rightarrow> (string, string) gomap \<Rightarrow> manifest list \<Rightarrow> string option \<Rightarrow> manifestConfig list \<Rightarrow> ManifestWork" where
  "newWork namespace name annotations manifests deleteOption configs = kmeta.extend (newMeta name namespace ownerLabels annotations)
     \<lparr>Manifests = manifests, DeleteOption = deleteOption, ManifestConfigs = configs, ResourceStatus = []\<rparr>"

definition sentManifest :: "leafLib \<Rightarrow> manifest \<Rightarrow> manifest" where
  "sentManifest lib m = (case m of RawManifest r \<Rightarrow> RawManifest r | ObjectManifest j \<Rightarrow> RawManifest (ll_marshal lib j))"

definition sentWork :: "leafLib \<Rightarrow> ManifestWork \<Rightarrow> ManifestWork" where
  "sentWork lib w = w\<lparr>Manifests := map (sentManifest lib) (Manifests w)\<rparr>"

definition getWork :: "nsname \<Rightarrow> ManifestWork op" where
  "getWork k = api_get os_works k"

definition createWork :: "leafLib \<Rightarrow> ManifestWork \<Rightarrow> ManifestWork op" where
  "createWork lib w = api_create os_works os_works_update (workKey w) ((sentWork lib w)\<lparr>ResourceStatus := []\<rparr>)"

definition updateWork :: "leafLib \<Rightarrow> ManifestWork \<Rightarrow> ManifestWork op" where
  "updateWork lib w = api_update os_works os_works_update True (\<lambda>old new. new\<lparr>ResourceStatus := ResourceStatus old\<rparr>) (workKey w) (sentWork lib w)"

definition deleteWork :: "nsname \<Rightarrow> unit op" where
  "deleteWork k = api_delete os_works os_works_update k"

text \<open>The time stamp is set to null in the decoded existing object; a value that is not a map with metadata is a failed type assertion.\<close>

definition withoutTimestamp :: "jvalue \<Rightarrow> jvalue option" where
  "withoutTimestamp obj =
     (case asMap (Some obj) of
        None \<Rightarrow> None
      | Some m \<Rightarrow> (case asMap (map_of m ''metadata'') of
                    None \<Rightarrow> None
                  | Some metadata \<Rightarrow> Some (JMap (AList.update ''metadata'' (JMap (AList.update ''creationTimestamp'' JNull metadata)) m))))"

definition existingValue :: "leafLib \<Rightarrow> manifest \<Rightarrow> opError + jvalue option" where
  "existingValue lib m = (case m of
      RawManifest r \<Rightarrow> if r \<noteq> '''' then (case ll_unmarshal lib r of Inl e \<Rightarrow> Inl e | Inr j \<Rightarrow> Inr (Some j)) else Inr None
    | ObjectManifest _ \<Rightarrow> Inr None)"

definition desiredValue :: "leafLib \<Rightarrow> manifest \<Rightarrow> opError + jvalue" where
  "desiredValue lib m = (case m of
      RawManifest r \<Rightarrow> if r \<noteq> '''' then ll_unmarshal lib r else Inr JNull
    | ObjectManifest j \<Rightarrow> ll_unmarshal lib (ll_marshal lib j))"

fun ensureManifests :: "leafLib \<Rightarrow> (manifest \<times> manifest) list \<Rightarrow> opError + bool" where
  "ensureManifests lib [] = Inr False"
| "ensureManifests lib ((desired, existing) # rest) =
     (case existingValue lib existing of
        Inl e \<Rightarrow> Inl e
      | Inr existingObj \<Rightarrow>
          (case desiredValue lib desired of
             Inl e \<Rightarrow> Inl e
           | Inr desiredObj \<Rightarrow>
               (case Option.bind existingObj withoutTimestamp of
                  None \<Rightarrow> Inl Panic
                | Some existingObj1 \<Rightarrow>
                    if \<not> dl_derivative lib (Some desiredObj) (Some existingObj1) then Inr True else ensureManifests lib rest)))"

definition ensureManifestWork :: "leafLib \<Rightarrow> ManifestWork \<Rightarrow> ManifestWork \<Rightarrow> opError + bool" where
  "ensureManifestWork lib desired existing =
     (if \<not> ll_optionDerives lib (DeleteOption desired) (DeleteOption existing) then Inr True
      else if \<not> ll_configsDerive lib (ManifestConfigs desired) (ManifestConfigs existing) then Inr True
      else if length (Manifests desired) \<noteq> length (Manifests existing) then Inr True
      else ensureManifests lib (zip (Manifests desired) (Manifests existing)))"

definition updateIfModified :: "leafLib \<Rightarrow> ManifestWork \<Rightarrow> ManifestWork \<Rightarrow> ManifestWork op" where
  "updateIfModified lib desiredWork existingWork =
     op_bind (liftResult (ensureManifestWork lib desiredWork existingWork)) (\<lambda>modified.
       if modified then updateWork lib (desiredWork\<lparr>km_resourceVersion := km_resourceVersion existingWork\<rparr>) else op_return existingWork)"

definition applyManifestWork :: "leafLib \<Rightarrow> ManifestWork \<Rightarrow> ManifestWork op" where
  "applyManifestWork lib desiredWork =
     op_try (getWork (workKey desiredWork))
       (\<lambda>e. if e = NotFound then createWork lib desiredWork else op_raise e)
       (updateIfModified lib desiredWork)"

definition generatePullSecret :: "leafLib \<Rightarrow> string \<Rightarrow> jvalue op" where
  "generatePullSecret lib namespace =
     op_bind (client_Get (''Secret'', GetDefaultNamespace (operatorPart lib), DefaultImagePullSecretName)) (\<lambda>imagePullSecret.
       op_return (JMap [(''kind'', JString ''Secret''), (''apiVersion'', JString ''v1''),
         (''metadata'', JMap [(''name'', JString (km_name imagePullSecret)), (''namespace'', JString namespace), (''creationTimestamp'', JNull)]),
         (''data'', JMap [(''.dockerconfigjson'', case objectField imagePullSecret ''data'' of
             Some (JMap m) \<Rightarrow> (case map_of m ''.dockerconfigjson'' of Some v \<Rightarrow> v | None \<Rightarrow> JNull) | _ \<Rightarrow> JNull)]),
         (''type'', JString ''kubernetes.io/dockerconfigjson'')]))"

end
