(* ===== verification/GH_LeafHub.thy ===== *)
theory GH_LeafHub
  imports GH_LeafWork
begin

text \<open>
  The works of a leaf hub (the rest of \<open>src/operator/pkg/controllers/leafhub/manifestwork.go\<close>) and the controller that keeps
  them (\<open>leafhub_controller.go\<close>): a leaf hub gets a subscription of the hub operator, then the hub itself, and once the hub
  is up the agent of the global hub; a hub that runs hosted gets works on its hosting cluster too.
\<close>

section \<open>Subscription and hub\<close>

definition renderWork :: "leafLib \<Rightarrow> opError + templateSet \<Rightarrow> string \<Rightarrow> templateValues \<Rightarrow> manifest list op" where
  "renderWork lib parsed name vals =
     op_bind (liftResult parsed) (\<lambda>tpl. op_bind (ExecuteTemplate lib tpl name vals) (generateWorkManifestsFromBuffer lib))"

definition buildHubSubWork :: "leafLib \<Rightarrow> string \<Rightarrow> packageManifestConfig \<Rightarrow> ManifestWork op" where
  "buildHubSubWork lib managedClusterName pm =
     op_bind (renderWork lib (parseNonHypershiftTemplates lib (ll_nonHypershiftManifestFS lib)) ''manifests/nonhypershift/subscription''
        (PlainValues [(''Channel'', ACMDefaultChannel pm), (''CurrentCSV'', ACMCurrentCSV pm), (''Source'', ACMSubscriptionPublicSource),
           (''SourceNamespace'', OpenshiftMarketPlaceNamespace), (''InstallationNamespace'', HOHDefaultNamespace)])) (\<lambda>subManifests.
     op_bind (generatePullSecret lib OpenshiftMarketPlaceNamespace) (\<lambda>imagePullSecret.
     op_return (newWork managedClusterName (workName managedClusterName HOHHubSubscriptionWorkSuffix) [(WorkPostponeDeleteAnnotationKey, '''')]
       (subManifests @ [ObjectManifest imagePullSecret]) (Some ''Orphan'')
       [\<lparr>mc_Group = ''operators.coreos.com'', mc_Resource = ''subscriptions'', mc_Name = ''acm-operator-subscription'', mc_Namespace = HOHDefaultNamespace,
         mc_FeedbackRules = [(''state'', ''.status.state'')]\<rparr>])))"

definition dquoted :: "string \<Rightarrow> string" where
  "dquoted s = [CHR 0x22] @ s @ [CHR 0x22]"

fun subscriptionConfig :: "leafLib \<Rightarrow> manifest list \<Rightarrow> opError + packageManifestConfig option" where
  "subscriptionConfig lib [] = Inr None"
| "subscriptionConfig lib (m # ms) =
     (case m of
        RawManifest r \<Rightarrow>
          if sublist (dquoted ''kind'' @ '':'' @ dquoted ''Subscription'') r
          then (case ll_subscription lib r of
                  Inl e \<Rightarrow> Inl e
                | Inr None \<Rightarrow> Inl Panic
                | Inr (Some (channel, startingCSV)) \<Rightarrow> Inr (Some \<lparr>ACMDefaultChannel = channel, ACMCurrentCSV = startingCSV, ACMImages = [],
                    MCEDefaultChannel = '''', MCECurrentCSV = '''', MCEImages = []\<rparr>))
          else subscriptionConfig lib ms
      | ObjectManifest _ \<Rightarrow> subscriptionConfig lib ms)"

definition getPackageManifestConfigFromHubSubWork :: "leafLib \<Rightarrow> ManifestWork \<Rightarrow> packageManifestConfig option op" where
  "getPackageManifestConfigFromHubSubWork lib hubSubWork = liftResult (subscriptionConfig lib (Manifests hubSubWork))"

text \<open>Building with the package manifest of a work that has none dereferences a nil pointer, after the templates are parsed.\<close>

definition buildHubSubWorkOf :: "leafLib \<Rightarrow> string \<Rightarrow> packageManifestConfig option \<Rightarrow> ManifestWork op" where
  "buildHubSubWorkOf lib managedClusterName existingPM =
     (case existingPM of
        Some pm \<Rightarrow> buildHubSubWork lib managedClusterName pm
      | None \<Rightarrow> op_bind (liftResult (parseNonHypershiftTemplates lib (ll_nonHypershiftManifestFS lib))) (\<lambda>_. op_raise Panic))"

definition applyHubSubWork :: "leafLib \<Rightarrow> string \<Rightarrow> packageManifestConfig \<Rightarrow> ManifestWork op" where
  "applyHubSubWork lib managedClusterName pm =
     op_bind (buildHubSubWork lib managedClusterName pm) (\<lambda>desiredHubSubWork.
     op_try (getWork (managedClusterName, workName managedClusterName HOHHubSubscriptionWorkSuffix))
       (\<lambda>e. if e = NotFound then createWork lib desiredHubSubWork else op_raise e)
       (\<lambda>existingHubSubWork.
          op_bind (getPackageManifestConfigFromHubSubWork lib existingHubSubWork) (\<lambda>existingPM.
          op_bind (buildHubSubWorkOf lib managedClusterName existingPM) (\<lambda>desired.
          updateIfModified lib desired existingHubSubWork))))"

definition buildHubMCHWork :: "leafLib \<Rightarrow> string \<Rightarrow> ManifestWork op" where
  "buildHubMCHWork lib managedClusterName =
     op_bind (renderWork lib (parseNonHypershiftTemplates lib (ll_nonHypershiftManifestFS lib)) ''manifests/nonhypershift/mch''
        (PlainValues [(''InstallationNamespace'', HOHDefaultNamespace)])) (\<lambda>mchManifests.
     op_bind (generatePullSecret lib HOHDefaultNamespace) (\<lambda>imagePullSecret.
     op_return (newWork managedClusterName (workName managedClusterName HoHHubMCHWorkSuffix) [] (mchManifests @ [ObjectManifest imagePullSecret]) (Some ''Orphan'')
       [\<lparr>mc_Group = ''operator.open-cluster-management.io'', mc_Resource = ''multiclusterhubs'', mc_Name = ''multiclusterhub'', mc_Namespace = HOHDefaultNamespace,
         mc_FeedbackRules = [(''state'', ''.status.phase''), (''currentVersion'', ''.status.currentVersion''),
           (''cluster-manager-cr-status'', ''.status.components.cluster-manager-cr.status''),
           (''multicluster-engine-status'', ''.status.components.multicluster-engine.status''),
           (''grc-sub-status'', ''.status.components.grc-sub.status'')]\<rparr>])))"

definition applyHubMCHWork :: "leafLib \<Rightarrow> string \<Rightarrow> ManifestWork op" where
  "applyHubMCHWork lib managedClusterName = op_bind (buildHubMCHWork lib managedClusterName) (applyManifestWork lib)"

section \<open>Hosted hubs\<close>

definition getDefaultHypershiftHubConfigValues :: HypershiftHubConfigValues where
  "getDefaultHypershiftHubConfigValues =
     \<lparr>HubVersion = '''', hv_HoHAgentImage = '''', hv_HostedClusterName = '''', ImagePullSecret = '''', ChannelClusterIP = '''',
      ACM = \<lparr>CertPolicyController = ''cert-policy-controller'', IAMPolicyController = ''iam-policy-controller'',
        ConfigPolicyController = ''config-policy-controller'', GovernancePolicyStatusSync = ''governance-policy-status-sync'',
        GovernancePolicySpecSync = ''governance-policy-spec-sync'', GovernancePolicyTemplateSync = ''governance-policy-template-sync'',
        GovernancePolicyAddonController = ''governance-policy-addon-controller'', GovernancePolicyPropagator = ''governance-policy-propagator'',
        MulticlusterOperatorsChannel = ''multicluster-operators-channel'', MulticlusterOperatorsSubscription = ''multicluster-operators-subscription''\<rparr>,
      MCE = \<lparr>DefaultImageRegistry = '''', Registration = ''registration'', RegistrationOperator = ''registration-operator'',
        ManagedClusterImportController = ''managedcluster-import-controller'', Work = ''work'', PlacementImage = ''placement''\<rparr>\<rparr>"

definition TrimPrefixStr :: "string \<Rightarrow> string \<Rightarrow> string" where
  "TrimPrefixStr s pre = (if prefix pre s then drop (length pre) s else s)"

definition hostedNamespace :: "HostedClusterConfig \<Rightarrow> string" where
  "hostedNamespace hcConfig = HostingNamespace hcConfig @ ''-'' @ HostedClusterName hcConfig"

text \<open>The values of the templates of a hosted hub, and the images their functions find.\<close>

definition hypershiftHubValues :: "MulticlusterGlobalHub \<Rightarrow> string \<Rightarrow> packageManifestConfig \<Rightarrow> HostedClusterConfig \<Rightarrow> string \<Rightarrow> string \<Rightarrow> templateValues" where
  "hypershiftHubValues mgh channelClusterIP pm hcConfig version agentImage =
     (let acmSnapshot = getAnnotation mgh ''mgh-hub-ACM-snapshot'';
          mceSnapshot = getAnnotation mgh ''mgh-hub-MCE-snapshot'';
          acmRegistry = (if acmSnapshot = '''' then DefaultACMDownStreamImageRegistry else UpstreamImageRegistry);
          mceRegistry = (if mceSnapshot = '''' then DefaultMCEDownStreamImageRegistry else UpstreamImageRegistry);
          vals = getDefaultHypershiftHubConfigValues;
          acm = (if acmSnapshot = '''' then (ACM vals)\<lparr>GovernancePolicyAddonController := ''acm-governance-policy-addon-controller''\<rparr> else ACM vals) in
      HubValues (getHubImage acmSnapshot acmRegistry (ACMImages pm)) (getHubImage mceSnapshot mceRegistry (MCEImages pm))
        (vals\<lparr>HubVersion := version, hv_HoHAgentImage := agentImage, hv_HostedClusterName := hostedNamespace hcConfig,
              ImagePullSecret := DefaultImagePullSecretName, ChannelClusterIP := channelClusterIP, ACM := acm, MCE := (MCE vals)\<lparr>DefaultImageRegistry := mceRegistry\<rparr>\<rparr>))"

definition acmVersion :: "packageManifestConfig \<Rightarrow> opError + string" where
  "acmVersion pm =
     (let latestACMVersion = TrimPrefixStr (ACMCurrentCSV pm) ''advanced-cluster-management.v''; parts = splitAt (CHR ''.'') latestACMVersion in
      if length parts < 2 then Inl (OtherError (''invalid ACM version :'' @ latestACMVersion)) else Inr (parts ! 0 @ ''.'' @ parts ! 1))"

definition applyHubHypershiftWorks :: "leafLib \<Rightarrow> MulticlusterGlobalHub \<Rightarrow> string \<Rightarrow> packageManifestConfig \<Rightarrow> HostedClusterConfig \<Rightarrow> ManifestWork op" where
  "applyHubHypershiftWorks lib mgh channelClusterIP pm hcConfig =
     op_bind (liftResult (parseHubHypershiftTemplates lib (ll_hypershiftHubManifestFS lib))) (\<lambda>tpl.
     op_bind (liftResult (acmVersion pm)) (\<lambda>version.
     op_bind (GetImage ''multicluster_global_hub_agent'') (\<lambda>agentImage.
     let vals = hypershiftHubValues mgh channelClusterIP pm hcConfig version agentImage in
     op_bind (renderWork lib (Inr tpl) ''manifests/hypershift/hub/hosted'' vals) (\<lambda>hostedHubManifests.
     op_bind (generatePullSecret lib (hostedNamespace hcConfig)) (\<lambda>imagePullSecret.
     op_bind (applyManifestWork lib (newWork (ManagedClusterName hcConfig) (workName (ManagedClusterName hcConfig) HoHHostedHubWorkSuffix) []
        (hostedHubManifests @ [ObjectManifest imagePullSecret]) None [])) (\<lambda>_.
     op_bind (renderWork lib (Inr tpl) ''manifests/hypershift/hub/hosting'' vals) (\<lambda>hostingHubManifests.
     applyManifestWork lib (newWork (HostingClusterName hcConfig) (workName (ManagedClusterName hcConfig) HoHHostingHubWorkSuffix) []
        (hostingHubManifests @ [ObjectManifest imagePullSecret]) None
        [\<lparr>mc_Group = '''', mc_Resource = ''services'', mc_Name = ''channels-apps-open-cluster-management-webhook-svc'', mc_Namespace = hostedNamespace hcConfig,
          mc_FeedbackRules = [(''clusterIP'', ''.spec.clusterIP'')]\<rparr>]))))))))"

section \<open>Agents\<close>

definition agentValues :: "leafLib \<Rightarrow> MulticlusterGlobalHub \<Rightarrow> string \<Rightarrow> string \<Rightarrow> templateValues op" where
  "agentValues lib mgh managedClusterName namespace =
     op_bind (getKafkaConfig (operatorPart lib) mgh) (\<lambda>(kafkaBootstrapServer, kafkaCA).
     op_bind (GetImage ''multicluster_global_hub_agent'') (\<lambda>img.
     op_return (AgentValues \<lparr>HoHAgentImage = img, LeadHubID = managedClusterName, KafkaBootstrapServer = kafkaBootstrapServer, KafkaCA = kafkaCA,
        HostedClusterNamespace = namespace\<rparr>)))"

definition applyHoHAgentWork :: "leafLib \<Rightarrow> MulticlusterGlobalHub \<Rightarrow> string \<Rightarrow> unit op" where
  "applyHoHAgentWork lib mgh managedClusterName =
     op_bind (agentValues lib mgh managedClusterName '''') (\<lambda>vals.
     op_bind (renderWork lib (parseNonHypershiftTemplates lib (ll_nonHypershiftManifestFS lib)) ''manifests/nonhypershift/agent'' vals) (\<lambda>agentManifests.
     drop_result (applyManifestWork lib (newWork managedClusterName (workName managedClusterName HoHAgentWorkSuffix) [] agentManifests None []))))"

definition applyHoHAgentHypershiftWork :: "leafLib \<Rightarrow> MulticlusterGlobalHub \<Rightarrow> HostedClusterConfig \<Rightarrow> unit op" where
  "applyHoHAgentHypershiftWork lib mgh hcConfig =
     op_bind (agentValues lib mgh (ManagedClusterName hcConfig) (hostedNamespace hcConfig)) (\<lambda>vals.
     op_bind (liftResult (parseAgentHypershiftTemplates lib (ll_hypershiftAgentManifestFS lib))) (\<lambda>tpl.
     op_bind (renderWork lib (Inr tpl) ''manifests/hypershift/agent/hosted'' vals) (\<lambda>agentHostedManifests.
     op_bind (applyManifestWork lib (newWork (ManagedClusterName hcConfig) (workName (ManagedClusterName hcConfig) HoHHostedAgentWorkSuffix) [] agentHostedManifests None [])) (\<lambda>_.
     op_bind (renderWork lib (Inr tpl) ''manifests/hypershift/agent/hosting'' vals) (\<lambda>agentHostingManifests.
     drop_result (applyManifestWork lib (newWork (HostingClusterName hcConfig) (workName (ManagedClusterName hcConfig) HoHHostingAgentWorkSuffix) [] agentHostingManifests None [])))))))"

section \<open>Detaching\<close>

definition removePostponeDeleteAnnotationFromHubSubWork :: "leafLib \<Rightarrow> string \<Rightarrow> unit op" where
  "removePostponeDeleteAnnotationFromHubSubWork lib managedClusterName =
     op_try (getWork (managedClusterName, workName managedClusterName HoHHubMCHWorkSuffix))
       (\<lambda>e. if e = NotFound
            then op_try (getWork (managedClusterName, workName managedClusterName HOHHubSubscriptionWorkSuffix))
                   (\<lambda>e'. if e' = NotFound then op_return () else op_raise e')
                   (\<lambda>hohHubSubWork.
                      if km_annotations hohHubSubWork \<noteq> []
                      then drop_result (updateWork lib (hohHubSubWork\<lparr>km_annotations := AList.delete WorkPostponeDeleteAnnotationKey (km_annotations hohHubSubWork)\<rparr>))
                      else op_return ())
            else op_raise e)
       (\<lambda>_. op_raise (OtherError (''Hub MCH manifestwork for managedcluster '' @ managedClusterName @ '' hasn'' @ [CHR 0x27] @ ''t been deleted'')))"

definition removeLeafHubHostingWork :: "string \<Rightarrow> string \<Rightarrow> unit op" where
  "removeLeafHubHostingWork managedClusterName hostingClusterName =
     op_try (getWork (hostingClusterName, workName managedClusterName HoHHostingAgentWorkSuffix))
       (\<lambda>e. if e = NotFound then op_return () else op_raise e)
       (\<lambda>hohAgentMgtWork.
          op_bind (deleteWork (workKey hohAgentMgtWork)) (\<lambda>_.
          op_try (getWork (hostingClusterName, workName managedClusterName HoHHostingHubWorkSuffix))
            (\<lambda>e. if e = NotFound then op_return () else op_raise e)
            (\<lambda>hohHubMgtWork. deleteWork (workKey hohHubMgtWork))))"

section \<open>Feedback\<close>

definition findStatusFeedbackValueFromWork :: "ManifestWork \<Rightarrow> string \<Rightarrow> string \<Rightarrow> string \<Rightarrow> string option" where
  "findStatusFeedbackValueFromWork w kind feedbackField feedbackValue =
     (case List.map_filter (\<lambda>(name, v). if name = feedbackField then (case v of Some t \<Rightarrow> if t = feedbackValue \<or> feedbackValue = '''' then Some t else None | None \<Rightarrow> None) else None)
        (concat (map fb_Values (filter (\<lambda>fb. fb_Kind fb = kind) (ResourceStatus w)))) of
        [] \<Rightarrow> None
      | v # _ \<Rightarrow> Some v)"

text \<open>How many of the three components are up; a reported value without a string is a nil pointer.\<close>

fun readyValues :: "(string \<times> string option) list \<Rightarrow> nat option" where
  "readyValues [] = Some 0"
| "readyValues ((name, v) # rest) =
     (if name = ''cluster-manager-cr-status'' \<or> name = ''multicluster-engine-status'' \<or> name = ''grc-sub-status''
      then (case v of None \<Rightarrow> None | Some t \<Rightarrow> map_option (\<lambda>n. (if t = ''True'' then 1 else 0) + n) (readyValues rest))
      else readyValues rest)"

definition mchIsReadyNum :: "ManifestWork \<Rightarrow> nat option" where
  "mchIsReadyNum w = readyValues (concat (map fb_Values (filter (\<lambda>fb. fb_Kind fb = ''MultiClusterHub'') (ResourceStatus w))))"

section \<open>One leaf hub\<close>

definition reconcileNonHostedLeafHub :: "leafLib \<Rightarrow> string \<Rightarrow> MulticlusterGlobalHub \<Rightarrow> packageManifestConfig \<Rightarrow> unit op" where
  "reconcileNonHostedLeafHub lib managedClusterName mgh pm =
     op_bind (applyHubSubWork lib managedClusterName pm) (\<lambda>hubSubWork.
     if findStatusFeedbackValueFromWork hubSubWork ''Subscription'' ''state'' ''AtLatestKnown'' = None then op_return ()
     else op_bind (applyHubMCHWork lib managedClusterName) (\<lambda>hubMCHWork.
       case mchIsReadyNum hubMCHWork of
         None \<Rightarrow> op_raise Panic
       | Some n \<Rightarrow> if n \<noteq> 2 then op_return () else applyHoHAgentWork lib mgh managedClusterName))"

definition reconcileHostedLeafHub :: "leafLib \<Rightarrow> MulticlusterGlobalHub \<Rightarrow> packageManifestConfig \<Rightarrow> HostedClusterConfig \<Rightarrow> unit op" where
  "reconcileHostedLeafHub lib mgh pm hcConfig =
     op_try (getWork (HostingClusterName hcConfig, workName (ManagedClusterName hcConfig) HoHHostingHubWorkSuffix))
       (\<lambda>e. if e = NotFound then drop_result (applyHubHypershiftWorks lib mgh '''' pm hcConfig) else op_raise e)
       (\<lambda>hubMgtWork.
          case findStatusFeedbackValueFromWork hubMgtWork ''Service'' ''clusterIP'' '''' of
            None \<Rightarrow> op_return ()
          | Some channelServiceIP \<Rightarrow>
              op_bind (applyHubHypershiftWorks lib mgh channelServiceIP pm hcConfig) (\<lambda>_. applyHoHAgentHypershiftWork lib mgh hcConfig))"

definition updateCluster :: "hubCluster \<Rightarrow> hubCluster op" where
  "updateCluster x = api_update os_clusters os_clusters_update True (\<lambda>old new. new\<lparr>hc_Available := hc_Available old\<rparr>) (km_name x) x"

definition nonEmpty :: "string \<Rightarrow> string option \<Rightarrow> string op" where
  "nonEmpty msg v = (case v of None \<Rightarrow> op_raise (OtherError msg) | Some t \<Rightarrow> if t = '''' then op_raise (OtherError msg) else op_return t)"

definition managedByAnnotation :: string where
  "managedByAnnotation = ''global-hub.open-cluster-management.io/managed-by''"

text \<open>Where a hosted leaf hub runs, from the annotations of the managed cluster and its deployment.\<close>

definition hostedConfig :: "string \<Rightarrow> hubCluster \<Rightarrow> (HostedClusterConfig \<times> hubCluster) op" where
  "hostedConfig managedClusterName managedCluster =
     (if map_of (km_annotations managedCluster) ''import.open-cluster-management.io/klusterlet-deploy-mode'' \<noteq> Some ''Hosted''
      then op_return (\<lparr>ManagedClusterName = managedClusterName, HostingClusterName = '''', HostingNamespace = '''', HostedClusterName = ''''\<rparr>, managedCluster)
      else op_bind (nonEmpty ''missing hosting-cluster-name in managed cluster''
              (map_of (km_annotations managedCluster) ''import.open-cluster-management.io/hosting-cluster-name'')) (\<lambda>hostingClusterName.
           op_bind (nonEmpty ''missing hypershiftdeployment name in managed cluster''
              (map_of (km_annotations managedCluster) ''cluster.open-cluster-management.io/hypershiftdeployment'')) (\<lambda>hypershiftdeploymentName.
           let splits = splitAt (CHR ''/'') hypershiftdeploymentName in
           if length splits \<noteq> 2 \<or> splits ! 1 = '''' then op_raise (OtherError ''bad hypershiftdeployment name in managed cluster'')
           else op_bind (client_Get (''HypershiftDeployment'', splits ! 0, splits ! 1)) (\<lambda>hypershiftDeploymentInstance.
                op_bind (if map_of (km_annotations managedCluster) managedByAnnotation = Some ''global-hub'' then op_return managedCluster
                   else updateCluster (managedCluster\<lparr>km_annotations := AList.update managedByAnnotation ''global-hub'' (km_annotations managedCluster)\<rparr>)) (\<lambda>managedCluster1.
                op_return (\<lparr>ManagedClusterName = managedClusterName, HostingClusterName = hostingClusterName,
                   HostingNamespace = (case map_of (specMap hypershiftDeploymentInstance) ''hostingNamespace'' of Some (JString n) \<Rightarrow> n | _ \<Rightarrow> ''''),
                   HostedClusterName = splits ! 1\<rparr>, managedCluster1))))))"

definition label :: "'a kmeta_scheme \<Rightarrow> string \<Rightarrow> string" where
  "label x k = (case map_of (km_labels x) k of None \<Rightarrow> '''' | Some v \<Rightarrow> v)"

definition RegionalHubTypeLabelKey :: string where "RegionalHubTypeLabelKey = ''global-hub.open-cluster-management.io/regional-hub-type''"

text \<open>Not to install the hub is for tests, which bring their own.\<close>

definition deployLeafHub :: "leafLib \<Rightarrow> MulticlusterGlobalHub \<Rightarrow> string \<Rightarrow> hubCluster \<Rightarrow> HostedClusterConfig \<Rightarrow> unit op" where
  "deployLeafHub lib mgh managedClusterName managedCluster hcConfig =
     (if label managedCluster RegionalHubTypeLabelKey = ''NoHubInstall'' then applyHoHAgentWork lib mgh managedClusterName
      else op_bind (getPackageManifestConfig lib) (\<lambda>pm.
        if ACMDefaultChannel pm = '''' \<or> ACMCurrentCSV pm = '''' then op_raise (OtherError ''PackageManifest for ACM is not ready'')
        else if HostingClusterName hcConfig = '''' then reconcileNonHostedLeafHub lib managedClusterName mgh pm
        else if MCEDefaultChannel pm = '''' \<or> MCECurrentCSV pm = '''' then op_raise (OtherError ''PackageManifest for MCE is not ready'')
        else reconcileHostedLeafHub lib mgh pm hcConfig))"

definition reconcileLeafHub :: "leafLib \<Rightarrow> MulticlusterGlobalHub \<Rightarrow> bool \<Rightarrow> string \<Rightarrow> unit op" where
  "reconcileLeafHub lib mgh toDelete managedClusterName =
     (if toDelete then op_return ()
      else if managedClusterName = LocalClusterName then op_return ()
      else op_try (api_get os_clusters managedClusterName) (\<lambda>e. if e = NotFound then op_return () else op_raise e) (\<lambda>managedCluster0.
        op_bind (hostedConfig managedClusterName managedCluster0) (\<lambda>(hcConfig, managedCluster).
        if km_deleting managedCluster
        then op_bind (if HostingClusterName hcConfig = '''' then removePostponeDeleteAnnotationFromHubSubWork lib managedClusterName
               else removeLeafHubHostingWork managedClusterName (HostingClusterName hcConfig)) (\<lambda>_. deleteManagedClusterAddon managedClusterName)
        else op_bind (deployLeafHub lib mgh managedClusterName managedCluster hcConfig) (\<lambda>_. applyManagedClusterAddon lib managedClusterName))))"

section \<open>All leaf hubs\<close>

definition deleteOwnedWorks :: "string \<Rightarrow> unit op" where
  "deleteOwnedWorks namespace = api_deleteAllOf os_works os_works_update (\<lambda>(ns, _) w. ns = namespace \<and> ownedByOperator w)"

definition pruneLeafHubs :: "unit op" where
  "pruneLeafHubs =
     op_bind (op_get leafhubs) (\<lambda>clusters.
     op_bind (op_each (\<lambda>leafhub. op_bind (deleteOwnedWorks leafhub) (\<lambda>_. deleteManagedClusterAddon leafhub)) clusters) (\<lambda>_.
     op_bind (deleteOwnedWorks LocalClusterName) (\<lambda>_.
     deleteClusterManagementAddon)))"

text \<open>A leaf hub that fails does not keep the others from being reconciled.\<close>

fun reconcileEach :: "leafLib \<Rightarrow> MulticlusterGlobalHub \<Rightarrow> string list \<Rightarrow> opError list op" where
  "reconcileEach lib mgh [] = op_return []"
| "reconcileEach lib mgh (leafhub # rest) =
     op_try (reconcileLeafHub lib mgh False leafhub)
       (\<lambda>e. op_bind (reconcileEach lib mgh rest) (\<lambda>errs. op_return (e # errs)))
       (\<lambda>_. reconcileEach lib mgh rest)"

definition reconcileMulticlusterGlobalHub :: "leafLib \<Rightarrow> MulticlusterGlobalHub \<Rightarrow> bool \<Rightarrow> unit op" where
  "reconcileMulticlusterGlobalHub lib mgh toPruneAll =
     (if toPruneAll then pruneLeafHubs
      else op_bind (applyClusterManagementAddon lib) (\<lambda>_.
           op_bind (op_get leafhubs) (\<lambda>clusters.
           op_bind (reconcileEach lib mgh clusters) (\<lambda>errs.
           if errs \<noteq> [] then op_raise (OtherError (concat (map errText errs))) else op_return ()))))"

definition emptyHub :: MulticlusterGlobalHub where
  "emptyHub = kmeta.extend (newMeta '''' '''' [] []) \<lparr>AggregationLevel = '''', EnableLocalPolicies = False, Transport = '''', Storage = '''', Conditions = []\<rparr>"

definition setDeployed :: "MulticlusterGlobalHub \<Rightarrow> bool \<Rightarrow> string \<Rightarrow> unit op" where
  "setDeployed mgh shouldPruneAll name =
     (if \<not> shouldPruneAll \<and> \<not> ContainsCondition mgh CONDITION_TYPE_LEAFHUB_DEPLOY
      then drop_result (wrapError ''failed to set condition(True)'' (SetConditionLeafHubDeployed mgh name CONDITION_STATUS_TRUE))
      else op_return ())"

text \<open>The hub in hand, and whether everything is to be removed.\<close>

definition fetchHub :: "nsname \<Rightarrow> (bool \<times> MulticlusterGlobalHub) op" where
  "fetchHub key = op_try (api_get os_hubs key) (\<lambda>e. if e = NotFound then op_return (True, emptyHub) else op_raise e) (\<lambda>mgh. op_return (km_deleting mgh, mgh))"

text \<open>A request without a namespace is for one managed cluster, any other for all of them.\<close>

definition reconcileRequest :: "leafLib \<Rightarrow> nsname \<Rightarrow> bool \<Rightarrow> MulticlusterGlobalHub \<Rightarrow> unit op" where
  "reconcileRequest lib req shouldPruneAll mgh =
     (if fst req = '''' \<and> snd req \<noteq> ''''
      then op_try (reconcileLeafHub lib mgh shouldPruneAll (snd req))
             (\<lambda>e. op_bind (if \<not> shouldPruneAll
                then drop_result (wrapError ''failed to set condition(False)'' (SetConditionLeafHubDeployed mgh (snd req) CONDITION_STATUS_FALSE))
                else op_return ()) (\<lambda>_. op_raise e))
             (\<lambda>_. setDeployed mgh shouldPruneAll (snd req))
      else op_try (reconcileMulticlusterGlobalHub lib mgh shouldPruneAll)
             (\<lambda>e. op_bind (drop_result (wrapError ''failed to set condition(False)'' (SetConditionLeafHubDeployed mgh '''' CONDITION_STATUS_FALSE))) (\<lambda>_. op_raise e))
             (\<lambda>_. setDeployed mgh shouldPruneAll (snd req)))"

definition leafhub_Reconcile :: "leafLib \<Rightarrow> nsname \<Rightarrow> unit op" where
  "leafhub_Reconcile lib req =
     op_bind (op_get hohMGHNamespacedName) (\<lambda>key.
     if fst key = '''' \<or> snd key = '''' then op_return ()
     else op_bind (fetchHub key) (\<lambda>(shouldPruneAll, mgh). if IsPaused mgh then op_return () else reconcileRequest lib req shouldPruneAll mgh))"

section \<open>Event filters\<close>

definition isLeafHub :: "hubCluster \<Rightarrow> bool" where
  "isLeafHub x \<longleftrightarrow> label x ''vendor'' = ''OpenShift'' \<and> km_name x \<noteq> LocalClusterName \<and> label x RegionalHubTypeLabelKey \<noteq> ''NoHubAgentInstall'' \<and> hc_Available x"

datatype clusterEvent = ClusterCreated hubCluster | ClusterUpdated hubCluster hubCluster | ClusterDeleted hubCluster

fun clusterPred :: "clusterEvent \<Rightarrow> opState \<Rightarrow> bool \<times> opState" where
  "clusterPred (ClusterCreated x) s = (if isLeafHub x then (True, s\<lparr>leafhubs := set_add (km_name x) (leafhubs s)\<rparr>) else (False, s))"
| "clusterPred (ClusterUpdated old new) s =
     (if isLeafHub new \<and> km_resourceVersion new \<noteq> km_resourceVersion old
      then (True, s\<lparr>leafhubs := (if \<not> km_deleting new then set_add (km_name new) (leafhubs s) else set_remove (km_name new) (leafhubs s))\<rparr>)
      else (False, s))"
| "clusterPred (ClusterDeleted x) s = (if isLeafHub x then (True, s\<lparr>leafhubs := set_remove (km_name x) (leafhubs s)\<rparr>) else (False, s))"

definition addonUpdated :: "kobject \<Rightarrow> int \<Rightarrow> int \<Rightarrow> bool" where
  "addonUpdated new oldGeneration newGeneration \<longleftrightarrow> ownedByOperator new \<and> newGeneration \<noteq> oldGeneration"

definition workUpdated :: "ManifestWork \<Rightarrow> ManifestWork \<Rightarrow> bool" where
  "workUpdated old new \<longleftrightarrow> ownedByOperator new \<and> km_resourceVersion new \<noteq> km_resourceVersion old \<and>
     (km_name new = workName (km_namespace new) HOHHubSubscriptionWorkSuffix \<or> km_name new = workName (km_namespace new) HoHHubMCHWorkSuffix \<or>
      sublist HoHHostingHubWorkSuffix (km_name new) \<or> Manifests new \<noteq> Manifests old)"

definition workRequest :: "ManifestWork \<Rightarrow> nsname" where
  "workRequest w = ('''', if sublist HoHHostingHubWorkSuffix (km_name w) then TrimSuffix (km_name w) (''-'' @ HoHHostingHubWorkSuffix) else km_namespace w)"

definition managedAddonRequest :: "kobject \<Rightarrow> nsname" where
  "managedAddonRequest x = ('''', km_namespace x)"

definition clusterAddonRequest :: "operatorLib \<Rightarrow> kobject \<Rightarrow> nsname" where
  "clusterAddonRequest lib x = (GetDefaultNamespace lib, km_name x)"

end
