(* ===== verification/GH_LeafHubProps.thy ===== *)
theory GH_LeafHubProps
  imports GH_LeafHub GH_OperatorProps
begin

text \<open>
  Properties of the controller of the leaf hubs: the agent is put only on a hub that has reported to be up, pruning leaves no
  work and no add-on, applying a work again changes nothing; and two ways in which the controller gets stuck: the
  condition of the leaf hubs never recovers from a failure, and the work of a hosted hub stays on the hosting cluster when the
  work of the agent is gone.
\<close>

section \<open>What the programs keep\<close>

text \<open>An invariant that the works and the managed clusters do not touch either.\<close>

locale leaf_invariant = object_invariant +
  assumes works: "keeps I (createWork lib w)" "keeps I (updateWork lib' w')" "keeps I (deleteWork key)" "keeps I (deleteOwnedWorks namespace)"
    and clusters: "keeps I (updateCluster x)"
    and package: "I s \<Longrightarrow> I (s\<lparr>packageManifestConfigInstance := p\<rparr>)"
begin

lemma keeps_getWork: "keeps I (getWork k)"
  unfolding getWork_def by (intro op_keeps calls)

lemma keeps_renderWork: "keeps I (renderWork lib parsed name vals)"
  unfolding renderWork_def ExecuteTemplate_def generateWorkManifestsFromBuffer_def by (intro op_keeps keeps_liftResult)

lemma keeps_generatePullSecret: "keeps I (generatePullSecret lib namespace)"
  unfolding generatePullSecret_def by (intro op_keeps)

lemmas keeps_leaf = op_keeps works clusters keeps_getWork keeps_renderWork keeps_generatePullSecret keeps_liftResult keeps_GetImage keeps_getKafkaConfig

lemma keeps_updateIfModified: "keeps I (updateIfModified lib desired existing)"
  unfolding updateIfModified_def by (intro keeps_leaf)

lemma keeps_applyManifestWork: "keeps I (applyManifestWork lib w)"
  unfolding applyManifestWork_def by (intro keeps_leaf keeps_updateIfModified)

lemma keeps_buildHubSubWork: "keeps I (buildHubSubWork lib name pm)" "keeps I (buildHubSubWorkOf lib name pm')"
  unfolding buildHubSubWorkOf_def buildHubSubWork_def by (intro keeps_leaf)+

lemma keeps_applyHubSubWork: "keeps I (applyHubSubWork lib name pm)"
  unfolding applyHubSubWork_def getPackageManifestConfigFromHubSubWork_def
  by (intro keeps_leaf keeps_buildHubSubWork keeps_updateIfModified)

lemma keeps_applyHubMCHWork: "keeps I (applyHubMCHWork lib name)"
  unfolding applyHubMCHWork_def buildHubMCHWork_def by (intro keeps_leaf keeps_applyManifestWork)

lemma keeps_applyHubHypershiftWorks: "keeps I (applyHubHypershiftWorks lib mgh ip pm hcConfig)"
  unfolding applyHubHypershiftWorks_def by (intro keeps_leaf keeps_applyManifestWork)

lemma keeps_agents: "keeps I (applyHoHAgentWork lib mgh name)" "keeps I (applyHoHAgentHypershiftWork lib mgh hcConfig)"
  unfolding applyHoHAgentWork_def applyHoHAgentHypershiftWork_def agentValues_def by (intro keeps_leaf keeps_drop keeps_applyManifestWork)+

lemma keeps_getPackageManifestConfig: "keeps I (getPackageManifestConfig lib)"
  unfolding getPackageManifestConfig_def readPackage_def by (intro keeps_leaf keeps_modify package)

lemma keeps_deployLeafHub: "keeps I (deployLeafHub lib mgh name c hcConfig)"
  unfolding deployLeafHub_def reconcileNonHostedLeafHub_def reconcileHostedLeafHub_def
  by (intro keeps_leaf keeps_drop keeps_agents keeps_getPackageManifestConfig keeps_applyHubSubWork keeps_applyHubMCHWork keeps_applyHubHypershiftWorks)

lemma keeps_addons: "keeps I (applyManagedClusterAddon lib name)" "keeps I (applyClusterManagementAddon lib)" "keeps I (deleteManagedClusterAddon name)" "keeps I deleteClusterManagementAddon"
  unfolding applyManagedClusterAddon_def applyClusterManagementAddon_def applyAddon_def deleteManagedClusterAddon_def deleteClusterManagementAddon_def
  by (intro keeps_calls)+

lemma keeps_detach: "keeps I (removePostponeDeleteAnnotationFromHubSubWork lib name)" "keeps I (removeLeafHubHostingWork name host)"
  unfolding removePostponeDeleteAnnotationFromHubSubWork_def removeLeafHubHostingWork_def by (intro keeps_leaf keeps_drop)+

lemma keeps_hostedConfig: "keeps I (hostedConfig name c)"
  unfolding hostedConfig_def nonEmpty_def by (intro keeps_leaf)

lemma keeps_reconcileLeafHub: "keeps I (reconcileLeafHub lib mgh b name)"
  unfolding reconcileLeafHub_def by (intro keeps_leaf calls keeps_hostedConfig keeps_detach keeps_addons keeps_deployLeafHub)

lemma keeps_reconcileEach: "keeps I (reconcileEach lib mgh names)"
  by (induction names) (simp_all only: reconcileEach.simps, (intro op_keeps keeps_reconcileLeafHub; assumption?)+)

lemma keeps_reconcileMulticlusterGlobalHub: "keeps I (reconcileMulticlusterGlobalHub lib mgh b)"
  unfolding reconcileMulticlusterGlobalHub_def pruneLeafHubs_def by (intro keeps_leaf keeps_addons keeps_reconcileEach)

end

lemma work_keeps:
  assumes "\<And>s c. I s \<Longrightarrow> I (s\<lparr>os_calls := c\<rparr>)" and "\<And>s f c w. I s \<Longrightarrow> I (os_works_update f (s\<lparr>os_calls := c, os_version := w\<rparr>))"
  shows "keeps I (createWork lib x)" and "keeps I (updateWork lib x)" and "keeps I (deleteWork k)" and "keeps I (deleteOwnedWorks n)"
proof -
  have "I (os_works_update f (s\<lparr>os_calls := c\<rparr>))" if "I s" for s f c using assms(2) [OF that, where f = f and c = c and w = "os_version s"] by simp
  then show "keeps I (createWork lib x)" and "keeps I (updateWork lib x)" and "keeps I (deleteWork k)"
    unfolding createWork_def updateWork_def deleteWork_def
    using assms by (auto intro!: keeps_api_create keeps_api_update keeps_api_delete)
  show "keeps I (deleteOwnedWorks n)" unfolding deleteOwnedWorks_def
    by (rule keepsI) (auto simp: api_deleteAllOf_def api_call_def Let_def assms(1) \<open>\<And>s f c. I s \<Longrightarrow> I (os_works_update f (s\<lparr>os_calls := c\<rparr>))\<close> split: answer.splits)
qed

text \<open>The hubs are as they were, and the server answers as before.\<close>

definition hubs_are :: "(nsname, MulticlusterGlobalHub) gomap \<Rightarrow> nsname \<Rightarrow> opState \<Rightarrow> bool" where
  "hubs_are H k s \<longleftrightarrow> os_hubs s = H \<and> hohMGHNamespacedName s = k \<and> honest s"

interpretation same_hubs: leaf_invariant "hubs_are H k" for H k
proof
  fix obj dlib lib lib' w w' x and key :: kkey and key' namespace
  show "keeps (hubs_are H k) (client_Create obj)" and "keeps (hubs_are H k) (client_Update dlib obj)" and "keeps (hubs_are H k) (client_Delete key)"
    by (rule client_keeps; simp add: hubs_are_def honest_def)+
  show "keeps (hubs_are H k) (createWork lib w)" and "keeps (hubs_are H k) (updateWork lib' w')" and "keeps (hubs_are H k) (deleteWork key')"
    and "keeps (hubs_are H k) (deleteOwnedWorks namespace)"
    by (rule work_keeps; simp add: hubs_are_def honest_def)+
  show "keeps (hubs_are H k) (updateCluster x)"
    unfolding updateCluster_def by (rule keeps_api_update) (simp_all add: hubs_are_def honest_def)
qed (simp_all add: hubs_are_def honest_def)


section \<open>The condition of the leaf hubs\<close>

lemma SetCondition_same:
  assumes "conds_ok (Conditions mgh)" and "condStatus (Conditions mgh) CONDITION_TYPE_LEAFHUB_DEPLOY = Some CONDITION_STATUS_FALSE"
  shows "SetConditionLeafHubDeployed mgh name CONDITION_STATUS_FALSE = op_return mgh"
proof -
  have "ContainsCondition mgh CONDITION_TYPE_LEAFHUB_DEPLOY" "GetConditionStatus mgh CONDITION_TYPE_LEAFHUB_DEPLOY = CONDITION_STATUS_FALSE"
    using assms GetConditionStatus_cond [OF assms(1), of CONDITION_TYPE_LEAFHUB_DEPLOY] by (simp_all add: ContainsCondition_cond)
  then show ?thesis by (simp only: SetConditionLeafHubDeployed_def SetCondition_def Let_def case_prod_unfold if_P if_not_P not_not simp_thms if_False if_True)
qed

lemma reconcileRequest_keeps_hubs:
  assumes "conds_ok (Conditions mgh)" and "condStatus (Conditions mgh) CONDITION_TYPE_LEAFHUB_DEPLOY = Some CONDITION_STATUS_FALSE"
  shows "keeps (hubs_are H k) (reconcileRequest lib req b mgh)"
proof -
  have "ContainsCondition mgh CONDITION_TYPE_LEAFHUB_DEPLOY" using assms(2) by (simp add: ContainsCondition_cond)
  then have deployed: "setDeployed mgh b name = op_return ()" for b name unfolding setDeployed_def by simp
  show ?thesis
    unfolding reconcileRequest_def deployed SetCondition_same [OF assms]
    by (intro op_keeps same_hubs.keeps_drop same_hubs.keeps_reconcileLeafHub same_hubs.keeps_reconcileMulticlusterGlobalHub)
qed

lemma fetchHub_triple:
  assumes "map_of H k = Some mgh"
  shows "triple (hubs_are H k) (fetchHub k) (\<lambda>p s. p = (km_deleting mgh, mgh) \<and> hubs_are H k s) (\<lambda>_. hubs_are H k)"
  unfolding fetchHub_def
proof (rule triple_try)
  show "triple (hubs_are H k) (api_get os_hubs k) (\<lambda>m s. m = mgh \<and> hubs_are H k s) (\<lambda>e s. e \<noteq> NotFound \<and> hubs_are H k s)"
    using assms by (intro tripleI) (auto simp: api_get_def api_call_def Let_def hubs_are_def honest_def split: answer.splits option.splits)
qed (auto simp: triple_def)

lemma Reconcile_keeps_hubs:
  assumes "map_of H k = Some mgh" and "conds_ok (Conditions mgh)" and "condStatus (Conditions mgh) CONDITION_TYPE_LEAFHUB_DEPLOY = Some CONDITION_STATUS_FALSE"
  shows "keeps (hubs_are H k) (leafhub_Reconcile lib req)"
  unfolding leafhub_Reconcile_def keeps_triple
proof (rule triple_bind)
  show "triple (hubs_are H k) (op_get hohMGHNamespacedName) (\<lambda>j s. j = k \<and> hubs_are H k s) (\<lambda>_. hubs_are H k)"
    by (rule triple_get) (simp add: hubs_are_def)
  have next_step: "triple (\<lambda>s. p = (km_deleting mgh, mgh) \<and> hubs_are H k s) (case p of (b, m) \<Rightarrow> if IsPaused m then op_return () else reconcileRequest lib req b m)
      (\<lambda>_. hubs_are H k) (\<lambda>_. hubs_are H k)" for p
  proof (cases "p = (km_deleting mgh, mgh)")
    case True
    have "keeps (hubs_are H k) (if IsPaused mgh then op_return () else reconcileRequest lib req (km_deleting mgh) mgh)"
      by (intro op_keeps reconcileRequest_keeps_hubs assms)
    then show ?thesis unfolding True keeps_triple case_prod_conv simp_thms .
  qed (simp add: triple_def)
  show "triple (\<lambda>s. j = k \<and> hubs_are H k s) (if fst j = '''' \<or> snd j = '''' then op_return ()
      else op_bind (fetchHub j) (\<lambda>(b, m). if IsPaused m then op_return () else reconcileRequest lib req b m)) (\<lambda>_. hubs_are H k) (\<lambda>_. hubs_are H k)" for j
  proof (cases "j = k")
    case True
    show ?thesis unfolding True simp_thms by (rule triple_if) (rule triple_return, assumption, rule triple_bind [OF fetchHub_triple [OF assms(1)] next_step])
  qed (simp add: triple_def)
qed

text \<open>The requests that reach the controller, one after the other.\<close>

definition leafhub_run :: "leafLib \<Rightarrow> nsname list \<Rightarrow> opState \<Rightarrow> opState" where
  "leafhub_run lib reqs s = fold (\<lambda>req s. snd (leafhub_Reconcile lib req s)) reqs s"

lemma leafhub_run_keeps: "(\<And>req. keeps I (leafhub_Reconcile lib req)) \<Longrightarrow> I s \<Longrightarrow> I (leafhub_run lib reqs s)"
  unfolding leafhub_run_def by (induction reqs arbitrary: s) (auto simp: keeps_def)


section \<open>The agent\<close>

definition work_at :: "nsname \<Rightarrow> ManifestWork option \<Rightarrow> opState \<Rightarrow> bool" where
  "work_at k v s \<longleftrightarrow> map_of (os_works s) k = v"

interpretation work_kept: object_invariant "work_at k v" for k v
proof
  fix obj dlib and key :: kkey
  show "keeps (work_at k v) (client_Create obj)" and "keeps (work_at k v) (client_Update dlib obj)" and "keeps (work_at k v) (client_Delete key)"
    by (rule client_keeps; simp add: work_at_def)+
qed (simp_all add: work_at_def)

lemma keeps_write: "workKey w \<noteq> k \<Longrightarrow> keeps (work_at k v) (createWork lib w)" "workKey w \<noteq> k \<Longrightarrow> keeps (work_at k v) (updateWork lib w)"
  unfolding createWork_def updateWork_def by (rule keeps_api_create keeps_api_update; auto simp: work_at_def)+

lemma workKey_version [simp]: "workKey (w\<lparr>km_resourceVersion := v\<rparr>) = workKey w"
  by (simp add: workKey_def)

lemma keeps_getWork_at: "keeps (work_at k v) (getWork j)"
  unfolding getWork_def by (rule keeps_api_get) (simp add: work_at_def)

lemma keeps_updateIfModified_at: "workKey w \<noteq> k \<Longrightarrow> keeps (work_at k v) (updateIfModified lib w existing)"
  unfolding updateIfModified_def by (intro op_keeps work_kept.keeps_liftResult keeps_write) simp

lemma keeps_applyManifestWork_at: "workKey w \<noteq> k \<Longrightarrow> keeps (work_at k v) (applyManifestWork lib w)"
  unfolding applyManifestWork_def by (intro op_keeps keeps_getWork_at keeps_write keeps_updateIfModified_at)

text \<open>What is reported of a work that is applied is what was reported before.\<close>

definition reported :: "ManifestWork option \<Rightarrow> feedback list" where
  "reported v = (case v of None \<Rightarrow> [] | Some w \<Rightarrow> ResourceStatus w)"

lemma createWork_reported: "triple (work_at (workKey w) v) (createWork lib w) (\<lambda>w' _. ResourceStatus w' = reported v) (\<lambda>_ _. True)"
proof (rule tripleI, goal_cases)
  case (1 s w' s')
  then show ?case using api_create_InrD [OF 1(2) [unfolded createWork_def]] by (simp add: work_at_def reported_def)
qed simp

lemma updateWork_reported: "triple (work_at (workKey w) v) (updateWork lib w) (\<lambda>w' _. ResourceStatus w' = reported v) (\<lambda>_ _. True)"
proof (rule tripleI, goal_cases)
  case (1 s w' s')
  then show ?case by (auto simp: updateWork_def api_update_def api_call_def Let_def work_at_def reported_def split: answer.splits option.splits if_splits)
qed simp

lemma getWork_triple: "triple (work_at k v) (getWork k) (\<lambda>w s. v = Some w \<and> work_at k v s) (\<lambda>_. work_at k v)"
  by (intro tripleI) (auto simp: getWork_def work_at_def api_get_def api_call_def Let_def split: answer.splits option.splits)

lemma lifted_at: "triple (work_at k v) (liftResult r) (\<lambda>_. work_at k v) (\<lambda>_ _. True)"
  by (rule triple_weaken [OF work_kept.keeps_liftResult [unfolded keeps_triple]]) simp_all

lemma updateIfModified_reported:
  "triple (\<lambda>s. v = Some existing \<and> work_at (workKey w) v s) (updateIfModified lib w existing) (\<lambda>w' _. ResourceStatus w' = reported v) (\<lambda>_ _. True)"
proof (cases "v = Some existing")
  case True
  have update: "triple (work_at (workKey w) v) (updateWork lib (w\<lparr>km_resourceVersion := n\<rparr>)) (\<lambda>w' _. ResourceStatus w' = reported v) (\<lambda>_ _. True)" for n
    using updateWork_reported [of "w\<lparr>km_resourceVersion := n\<rparr>" v lib] by simp
  have "triple (work_at (workKey w) v) (updateIfModified lib w existing) (\<lambda>w' _. ResourceStatus w' = reported v) (\<lambda>_ _. True)"
    unfolding updateIfModified_def
    by (rule triple_bind [OF lifted_at], rule triple_if, rule update, rule triple_return) (simp add: True reported_def)
  then show ?thesis by (rule triple_weaken) auto
qed (simp add: triple_def)

lemma apply_reported:
  "triple (work_at (workKey w) v) (applyManifestWork lib w) (\<lambda>w' _. ResourceStatus w' = reported v) (\<lambda>_ _. True)"
  unfolding applyManifestWork_def
  by (rule triple_try [OF getWork_triple updateIfModified_reported], rule triple_if, rule createWork_reported, rule triple_raise) simp_all

lemma newWork_simps [simp]: "workKey (newWork ns name a ms d cs) = (ns, name)" "ResourceStatus (newWork ns name a ms d cs) = []"
  by (simp_all add: newWork_def newMeta_def kmeta.defs workKey_def)

lemma keeps_render: "keeps (work_at k v) (renderWork lib parsed name vals)" "keeps (work_at k v) (generatePullSecret lib namespace)"
  unfolding renderWork_def ExecuteTemplate_def generateWorkManifestsFromBuffer_def generatePullSecret_def by (intro op_keeps work_kept.keeps_liftResult work_kept.keeps_Get)+

lemma keeps_build: "keeps (work_at k v) (buildHubSubWork lib mc pm)" "keeps (work_at k v) (buildHubSubWorkOf lib mc pm')" "keeps (work_at k v) (buildHubMCHWork lib mc)"
  unfolding buildHubSubWorkOf_def buildHubSubWork_def buildHubMCHWork_def by (intro op_keeps keeps_render work_kept.keeps_liftResult)+

abbreviation subKey :: "string \<Rightarrow> nsname" where "subKey mc \<equiv> (mc, workName mc HOHHubSubscriptionWorkSuffix)"
abbreviation mchKey :: "string \<Rightarrow> nsname" where "mchKey mc \<equiv> (mc, workName mc HoHHubMCHWorkSuffix)"
abbreviation agentKey :: "string \<Rightarrow> nsname" where "agentKey mc \<equiv> (mc, workName mc HoHAgentWorkSuffix)"

text \<open>The works that are built have the key they are looked up with.\<close>

lemma build_key: "triple P (buildHubSubWork lib mc pm) (\<lambda>w _. workKey w = subKey mc) (\<lambda>_ _. True)" "triple P (buildHubMCHWork lib mc) (\<lambda>w _. workKey w = mchKey mc) (\<lambda>_ _. True)"
  "triple P (buildHubSubWorkOf lib mc pm') (\<lambda>w _. workKey w = subKey mc) (\<lambda>_ _. True)"
proof -
  have t: "triple P p (\<lambda>_ _. True) (\<lambda>_ _. True)" for P and p :: "'x op" by (simp add: triple_def)
  show sub: "triple P (buildHubSubWork lib mc pm) (\<lambda>w _. workKey w = subKey mc) (\<lambda>_ _. True)" for P pm
    unfolding buildHubSubWork_def by (rule triple_bind [OF t], rule triple_bind [OF t], rule triple_return) simp
  show "triple P (buildHubMCHWork lib mc) (\<lambda>w _. workKey w = mchKey mc) (\<lambda>_ _. True)"
    unfolding buildHubMCHWork_def by (rule triple_bind [OF t], rule triple_bind [OF t], rule triple_return) simp
  show "triple P (buildHubSubWorkOf lib mc pm') (\<lambda>w _. workKey w = subKey mc) (\<lambda>_ _. True)"
    unfolding buildHubSubWorkOf_def by (rule triple_option) (rule triple_bind [OF t], rule triple_raise, rule TrueI, rule sub)
qed

lemma triple_keyed:
  assumes "triple I m (\<lambda>w _. K w) (\<lambda>_ _. True)" and "keeps I m" and "\<And>w. K w \<Longrightarrow> triple I (f w) Q E" and "\<And>e s. I s \<Longrightarrow> E e s"
  shows "triple I (op_bind m f) Q E"
proof (rule triple_bind [where R = "\<lambda>w s. K w \<and> I s"])
  show "triple I m (\<lambda>w s. K w \<and> I s) E" using assms(1,2,4) unfolding keeps_triple triple_def by blast
  show "triple (\<lambda>s. K w \<and> I s) (f w) Q E" for w by (cases "K w") (use assms(3) [of w] in \<open>simp_all add: triple_def\<close>)
qed

lemma keeps_keyed: "triple I m (\<lambda>w _. K w) (\<lambda>_ _. True) \<Longrightarrow> keeps I m \<Longrightarrow> (\<And>w. K w \<Longrightarrow> keeps I (f w)) \<Longrightarrow> keeps I (op_bind m f)"
  unfolding keeps_triple by (rule triple_keyed [where K = K]) (simp_all add: keeps_triple)

lemma keeps_applyHubSubWork_at:
  assumes "k \<noteq> subKey mc"
  shows "keeps (work_at k v) (applyHubSubWork lib mc pm)"
  unfolding applyHubSubWork_def getPackageManifestConfigFromHubSubWork_def
  by (rule keeps_keyed [OF build_key(1) keeps_build(1)], intro keeps_try keeps_getWork_at keeps_if keeps_raise keeps_bind work_kept.keeps_liftResult keeps_write
      keeps_keyed [OF build_key(3) keeps_build(2)] keeps_updateIfModified_at) (use assms in auto)

lemma keeps_applyHubMCHWork_at: "k \<noteq> mchKey mc \<Longrightarrow> keeps (work_at k v) (applyHubMCHWork lib mc)"
  unfolding applyHubMCHWork_def by (rule keeps_keyed [OF build_key(2) keeps_build(3)], rule keeps_applyManifestWork_at) auto

lemma sub_reported: "triple (work_at (subKey mc) v) (applyHubSubWork lib mc pm) (\<lambda>w _. ResourceStatus w = reported v) (\<lambda>_ _. True)"
proof -
  have found: "triple (\<lambda>s. v = Some existing \<and> work_at (subKey mc) v s)
      (op_bind (liftResult r) (\<lambda>pm'. op_bind (buildHubSubWorkOf lib mc pm') (\<lambda>desired. updateIfModified lib desired existing))) (\<lambda>w _. ResourceStatus w = reported v) (\<lambda>_ _. True)"
    for existing and r :: "opError + packageManifestConfig option"
  proof (cases "v = Some existing")
    case True
    have "triple (work_at (subKey mc) v) (updateIfModified lib d existing) (\<lambda>w _. ResourceStatus w = reported v) (\<lambda>_ _. True)" if "workKey d = subKey mc" for d
      using updateIfModified_reported [of v existing d lib] that True by simp
    then have "triple (work_at (subKey mc) v) (op_bind (liftResult r) (\<lambda>pm'. op_bind (buildHubSubWorkOf lib mc pm') (\<lambda>desired. updateIfModified lib desired existing)))
        (\<lambda>w _. ResourceStatus w = reported v) (\<lambda>_ _. True)"
      by (intro triple_bind [OF lifted_at] triple_keyed [OF build_key(3) keeps_build(2)]) simp_all
    then show ?thesis by (rule triple_weaken) auto
  qed (simp add: triple_def)
  have missing: "triple (work_at (subKey mc) v) (if e = NotFound then createWork lib w else op_raise e) (\<lambda>w _. ResourceStatus w = reported v) (\<lambda>_ _. True)" if "workKey w = subKey mc" for e w
    using createWork_reported [of w v lib] that by (intro triple_if triple_raise) simp_all
  show ?thesis
    unfolding applyHubSubWork_def getPackageManifestConfigFromHubSubWork_def
    by (rule triple_keyed [OF build_key(1) keeps_build(1)], rule triple_try [OF getWork_triple found missing]) simp_all
qed

lemma mch_reported: "triple (work_at (mchKey mc) v) (applyHubMCHWork lib mc) (\<lambda>w _. ResourceStatus w = reported v) (\<lambda>_ _. True)"
  unfolding applyHubMCHWork_def
proof (rule triple_keyed [OF build_key(2) keeps_build(3)])
  fix w assume "workKey w = mchKey mc"
  then show "triple (work_at (mchKey mc) v) (applyManifestWork lib w) (\<lambda>w _. ResourceStatus w = reported v) (\<lambda>_ _. True)"
    using apply_reported [of w v lib] by simp
qed simp


lemma workName_inj [simp]: "workName mc a = workName mc b \<longleftrightarrow> a = b"
  by (simp add: workName_def)

lemma keys_distinct: "agentKey mc \<noteq> subKey mc" "agentKey mc \<noteq> mchKey mc" "mchKey mc \<noteq> subKey mc"
  by (simp_all add: work_suffixes)

text \<open>The hub has reported its subscription at the latest version, and two of its components up.\<close>

definition subscribed :: "ManifestWork option \<Rightarrow> bool" where
  "subscribed v \<longleftrightarrow> (\<exists>w. v = Some w \<and> findStatusFeedbackValueFromWork w ''Subscription'' ''state'' ''AtLatestKnown'' \<noteq> None)"

definition hub_up :: "ManifestWork option \<Rightarrow> bool" where
  "hub_up v \<longleftrightarrow> (\<exists>w. v = Some w \<and> mchIsReadyNum w = Some 2)"

lemma reported_subscribed: "ResourceStatus w = reported v \<Longrightarrow> findStatusFeedbackValueFromWork w ''Subscription'' ''state'' ''AtLatestKnown'' \<noteq> None \<Longrightarrow> subscribed v"
  by (cases v) (auto simp: reported_def subscribed_def findStatusFeedbackValueFromWork_def map_filter_def)

lemma reported_up: "ResourceStatus w = reported v \<Longrightarrow> mchIsReadyNum w = Some 2 \<Longrightarrow> hub_up v"
  by (cases v) (auto simp: reported_def hub_up_def mchIsReadyNum_def)

lemma mch_step:
  "triple (\<lambda>s. work_at (agentKey mc) a s \<and> work_at (mchKey mc) b s)
     (op_bind (applyHubMCHWork lib mc) (\<lambda>w. case mchIsReadyNum w of None \<Rightarrow> op_raise Panic | Some n \<Rightarrow> if n \<noteq> 2 then op_return () else applyHoHAgentWork lib mgh mc))
     (\<lambda>_ s. work_at (agentKey mc) a s \<or> hub_up b) (\<lambda>_ s. work_at (agentKey mc) a s \<or> hub_up b)"
proof (rule triple_bind)
  show "triple (\<lambda>s. work_at (agentKey mc) a s \<and> work_at (mchKey mc) b s) (applyHubMCHWork lib mc) (\<lambda>w s. work_at (agentKey mc) a s \<and> ResourceStatus w = reported b)
      (\<lambda>_ s. work_at (agentKey mc) a s \<or> hub_up b)"
    using keeps_applyHubMCHWork_at [where v = a and lib = lib, OF keys_distinct(2)] mch_reported [of mc b lib] unfolding keeps_triple triple_def by blast
  fix w
  show "triple (\<lambda>s. work_at (agentKey mc) a s \<and> ResourceStatus w = reported b)
      (case mchIsReadyNum w of None \<Rightarrow> op_raise Panic | Some n \<Rightarrow> if n \<noteq> 2 then op_return () else applyHoHAgentWork lib mgh mc)
      (\<lambda>_ s. work_at (agentKey mc) a s \<or> hub_up b) (\<lambda>_ s. work_at (agentKey mc) a s \<or> hub_up b)"
  proof (cases "mchIsReadyNum w = Some 2 \<and> ResourceStatus w = reported b")
    case True
    then show ?thesis using reported_up [of w b] by (simp add: triple_def)
  qed (auto simp: triple_def split: option.splits)
qed

lemma agent_step:
  "triple (\<lambda>s. work_at (subKey mc) v s \<and> work_at (agentKey mc) a s \<and> work_at (mchKey mc) b s) (reconcileNonHostedLeafHub lib mc mgh pm)
     (\<lambda>_ s. work_at (agentKey mc) a s \<or> subscribed v \<and> hub_up b) (\<lambda>_ s. work_at (agentKey mc) a s \<or> subscribed v \<and> hub_up b)"
  unfolding reconcileNonHostedLeafHub_def
proof (rule triple_bind)
  show "triple (\<lambda>s. work_at (subKey mc) v s \<and> work_at (agentKey mc) a s \<and> work_at (mchKey mc) b s) (applyHubSubWork lib mc pm)
      (\<lambda>w s. ResourceStatus w = reported v \<and> work_at (agentKey mc) a s \<and> work_at (mchKey mc) b s) (\<lambda>_ s. work_at (agentKey mc) a s \<or> subscribed v \<and> hub_up b)"
    using keeps_applyHubSubWork_at [where v = a and lib = lib and pm = pm, OF keys_distinct(1)] keeps_applyHubSubWork_at [where v = b and lib = lib and pm = pm, OF keys_distinct(3)]
      sub_reported [of mc v lib pm] unfolding keeps_triple triple_def by blast
  fix w
  show "triple (\<lambda>s. ResourceStatus w = reported v \<and> work_at (agentKey mc) a s \<and> work_at (mchKey mc) b s)
      (if findStatusFeedbackValueFromWork w ''Subscription'' ''state'' ''AtLatestKnown'' = None then op_return ()
       else op_bind (applyHubMCHWork lib mc) (\<lambda>w. case mchIsReadyNum w of None \<Rightarrow> op_raise Panic | Some n \<Rightarrow> if n \<noteq> 2 then op_return () else applyHoHAgentWork lib mgh mc))
      (\<lambda>_ s. work_at (agentKey mc) a s \<or> subscribed v \<and> hub_up b) (\<lambda>_ s. work_at (agentKey mc) a s \<or> subscribed v \<and> hub_up b)"
  proof (rule triple_if)
    assume "findStatusFeedbackValueFromWork w ''Subscription'' ''state'' ''AtLatestKnown'' \<noteq> None"
    then show "triple (\<lambda>s. ResourceStatus w = reported v \<and> work_at (agentKey mc) a s \<and> work_at (mchKey mc) b s)
      (op_bind (applyHubMCHWork lib mc) (\<lambda>w. case mchIsReadyNum w of None \<Rightarrow> op_raise Panic | Some n \<Rightarrow> if n \<noteq> 2 then op_return () else applyHoHAgentWork lib mgh mc))
      (\<lambda>_ s. work_at (agentKey mc) a s \<or> subscribed v \<and> hub_up b) (\<lambda>_ s. work_at (agentKey mc) a s \<or> subscribed v \<and> hub_up b)"
      using reported_subscribed [of w v] mch_step [of mc a b lib mgh] unfolding triple_def by blast
  qed (rule triple_return, simp)
qed



section \<open>Pruning\<close>

definition works_left :: "string \<Rightarrow> opState \<Rightarrow> bool" where
  "works_left n s \<longleftrightarrow> (\<forall>k w. map_of (os_works s) k = Some w \<longrightarrow> fst k = n \<longrightarrow> ownedByOperator w \<longrightarrow> km_deleting w)"

lemma map_of_fold_markDeleted:
  "map_of (fold (\<lambda>(k, x). markDeleted k x) L m) k = Some y \<Longrightarrow> km_deleting y \<or> k \<notin> fst ` set L \<and> map_of m k = Some y"
proof (induction L arbitrary: m)
  case (Cons p L)
  obtain j x where p: "p = (j, x)" by (cases p)
  show ?case using Cons.IH [of "markDeleted j x m"] Cons.prems by (auto simp: p map_of_markDeleted split: if_splits)
qed simp

lemma deleteOwnedWorks_run:
  assumes "deleteOwnedWorks n s = (r, s')"
  shows "os_objects s' = os_objects s"
    and "map_of (os_works s') k = Some w \<Longrightarrow> km_deleting w \<or> map_of (os_works s) k = Some w"
    and "r = Inr u \<Longrightarrow> map_of (os_works s') k = Some w \<Longrightarrow> fst k = n \<Longrightarrow> ownedByOperator w \<Longrightarrow> km_deleting w"
proof -
  let ?f = "\<lambda>m. fold (\<lambda>(k, x). markDeleted k x) (filter (\<lambda>(k, x). (case k of (ns, _) \<Rightarrow> \<lambda>w. ns = n \<and> ownedByOperator w) x) m) m"
  have s': "s' = s\<lparr>os_calls := Suc (os_calls s)\<rparr> \<or> s' = os_works_update ?f (s\<lparr>os_calls := Suc (os_calls s)\<rparr>)" "r = Inr u \<Longrightarrow> s' = os_works_update ?f (s\<lparr>os_calls := Suc (os_calls s)\<rparr>)"
    using assms by (auto simp: deleteOwnedWorks_def api_deleteAllOf_def api_call_def Let_def split: answer.splits)
  show "os_objects s' = os_objects s" using s'(1) by auto
  show "map_of (os_works s') k = Some w \<Longrightarrow> km_deleting w \<or> map_of (os_works s) k = Some w" using s'(1) map_of_fold_markDeleted [of _ "os_works s" k w] by auto
  assume w: "r = Inr u" "map_of (os_works s') k = Some w" "fst k = n" "ownedByOperator w"
  then have m: "map_of (?f (os_works s)) k = Some w" using s'(2) by simp
  show "km_deleting w"
  proof (rule ccontr)
    assume "\<not> km_deleting w"
    then have "k \<notin> fst ` set (filter (\<lambda>(k, x). (case k of (ns, _) \<Rightarrow> \<lambda>w. ns = n \<and> ownedByOperator w) x) (os_works s))" "(k, w) \<in> set (os_works s)"
      using map_of_fold_markDeleted [OF m] by (auto dest: map_of_SomeD)
    moreover have "(k, w) \<in> set (filter (\<lambda>(k, x). (case k of (ns, _) \<Rightarrow> \<lambda>w. ns = n \<and> ownedByOperator w) x) (os_works s))"
      using w(3,4) calculation(2) by (cases k) simp
    ultimately show False by (metis fst_conv imageI)
  qed
qed

lemma delete_works: "triple P (deleteOwnedWorks n) (\<lambda>_. works_left n) (\<lambda>_ _. True)"
  by (rule tripleI) (use deleteOwnedWorks_run(3) in \<open>fastforce simp: works_left_def\<close>)+

lemma keeps_deleteOwnedWorks: "keeps (works_left n) (deleteOwnedWorks j)" "keeps (gone k) (deleteOwnedWorks j)"
proof -
  show "keeps (works_left n) (deleteOwnedWorks j)"
    by (rule keepsI) (use deleteOwnedWorks_run(2) in \<open>fastforce simp: works_left_def\<close>)
  show "keeps (gone k) (deleteOwnedWorks j)"
    by (rule keepsI) (use deleteOwnedWorks_run(1) in \<open>fastforce simp: gone_def\<close>)
qed

lemma keeps_deleteOwnedWorks_honest: "keeps honest (deleteOwnedWorks n)"
  by (rule work_keeps) (simp_all add: honest_def)

lemma keeps_delete_works_left: "keeps (works_left n) (ignoreNotFound (client_Delete k))"
  by (intro op_keeps client_keeps(3)) (simp_all add: works_left_def)

abbreviation addonKey :: "string \<Rightarrow> kkey" where "addonKey n \<equiv> objectKey (buildManagedClusterAddon n)"

definition pruned :: "string list \<Rightarrow> opState \<Rightarrow> bool" where
  "pruned L s \<longleftrightarrow> (\<forall>n\<in>set L. works_left n s \<and> gone (addonKey n) s) \<and> works_left LocalClusterName s \<and> gone (objectKey buildClusterManagementAddon) s"

lemma triple_then: "triple P m (\<lambda>_ s. A s) (\<lambda>_ _. True) \<Longrightarrow> keeps B m \<Longrightarrow> triple (\<lambda>s. B s \<and> P s) m (\<lambda>_ s. B s \<and> A s) (\<lambda>_ _. True)"
  unfolding keeps_triple triple_def by blast

lemma prune_one:
  "triple honest (op_bind (deleteOwnedWorks n) (\<lambda>_. deleteManagedClusterAddon n)) (\<lambda>_ s. honest s \<and> works_left n s \<and> gone (addonKey n) s) (\<lambda>_ _. True)"
  unfolding deleteManagedClusterAddon_def
proof (rule triple_bind)
  show "triple honest (deleteOwnedWorks n) (\<lambda>_ s. honest s \<and> works_left n s) (\<lambda>_ _. True)"
    using triple_then [OF delete_works keeps_deleteOwnedWorks_honest, of honest n] by simp
  show "triple (\<lambda>s. honest s \<and> works_left n s) (ignoreNotFound (client_Delete (addonKey n))) (\<lambda>_ s. honest s \<and> works_left n s \<and> gone (addonKey n) s) (\<lambda>_ _. True)"
    using triple_then [OF delete_gone [where k = "addonKey n"] keeps_conj [OF keeps_delete_honest keeps_delete_works_left [where n = n]]] by (rule triple_weaken) auto
qed

lemma pruneLeafHubs_triple: "triple (\<lambda>s. honest s \<and> leafhubs s = L) pruneLeafHubs (\<lambda>_. pruned L) (\<lambda>_ _. True)"
proof -
  let ?all = "\<lambda>s. \<forall>n\<in>set L. works_left n s \<and> gone (addonKey n) s"
  have kept: "keeps (\<lambda>s. works_left x s \<and> gone (addonKey x) s) (op_bind (deleteOwnedWorks y) (\<lambda>_. deleteManagedClusterAddon y))" for x y
    unfolding deleteManagedClusterAddon_def by (intro keeps_conj keeps_bind keeps_deleteOwnedWorks keeps_delete_works_left keeps_delete_gone)
  have each: "triple honest (op_each (\<lambda>n. op_bind (deleteOwnedWorks n) (\<lambda>_. deleteManagedClusterAddon n)) L) (\<lambda>_ s. honest s \<and> ?all s) (\<lambda>_ _. True)"
  proof (rule triple_each_all [OF prune_one])
    fix x y
    show "triple (\<lambda>s. honest s \<and> works_left x s \<and> gone (addonKey x) s) (op_bind (deleteOwnedWorks y) (\<lambda>_. deleteManagedClusterAddon y)) (\<lambda>_ s. works_left x s \<and> gone (addonKey x) s) (\<lambda>_ _. True)"
      using kept [of x y] unfolding keeps_triple by (rule triple_weaken) simp_all
  qed
  have all: "keeps ?all (deleteOwnedWorks n)" "keeps ?all (ignoreNotFound (client_Delete k))" for n k
    using keeps_deleteOwnedWorks keeps_delete_works_left keeps_delete_gone unfolding keeps_def by blast+
  have local: "triple (\<lambda>s. honest s \<and> ?all s) (deleteOwnedWorks LocalClusterName) (\<lambda>_ s. (?all s \<and> works_left LocalClusterName s) \<and> honest s) (\<lambda>_ _. True)"
    using triple_then [OF delete_works keeps_conj [OF keeps_deleteOwnedWorks_honest all(1)], of "\<lambda>_. True" LocalClusterName] by (rule triple_weaken) auto
  have last: "triple (\<lambda>s. (?all s \<and> works_left LocalClusterName s) \<and> honest s) deleteClusterManagementAddon (\<lambda>_. pruned L) (\<lambda>_ _. True)"
    unfolding deleteClusterManagementAddon_def
    using triple_then [OF delete_gone [where k = "objectKey buildClusterManagementAddon"] keeps_conj [OF all(2) keeps_delete_works_left [where n = LocalClusterName]]] by (rule triple_weaken) (auto simp: pruned_def)
  have get: "triple (\<lambda>s. honest s \<and> leafhubs s = L) (op_get leafhubs) (\<lambda>L' s. L' = L \<and> honest s) (\<lambda>_ _. True)" by (rule triple_get) simp
  have rest: "triple honest (op_bind (op_each (\<lambda>n. op_bind (deleteOwnedWorks n) (\<lambda>_. deleteManagedClusterAddon n)) L) (\<lambda>_. op_bind (deleteOwnedWorks LocalClusterName) (\<lambda>_. deleteClusterManagementAddon)))
      (\<lambda>_. pruned L) (\<lambda>_ _. True)" by (rule triple_bind [OF each triple_bind [OF local last]])
  show ?thesis
    unfolding pruneLeafHubs_def
  proof (rule triple_bind [OF get], goal_cases)
    case (1 L')
    show ?case by (cases "L' = L") (use rest in \<open>simp_all add: triple_def\<close>)
  qed
qed


text \<open>The hub is gone or being deleted.\<close>

definition terminating :: "nsname \<Rightarrow> string list \<Rightarrow> opState \<Rightarrow> bool" where
  "terminating k L s \<longleftrightarrow> hohMGHNamespacedName s = k \<and> leafhubs s = L \<and> honest s \<and>
     (case map_of (os_hubs s) k of None \<Rightarrow> True | Some mgh \<Rightarrow> km_deleting mgh \<and> \<not> IsPaused mgh)"

lemma fetchHub_terminating: "triple (terminating k L) (fetchHub k) (\<lambda>p s. fst p \<and> \<not> IsPaused (snd p) \<and> honest s \<and> leafhubs s = L) (\<lambda>_ _. True)"
proof -
  have empty: "\<not> IsPaused emptyHub" by (simp add: IsPaused_def getAnnotation_def emptyHub_def newMeta_def kmeta.defs)
  have "triple (terminating k L) (api_get os_hubs k) (\<lambda>m s. km_deleting m \<and> \<not> IsPaused m \<and> honest s \<and> leafhubs s = L) (\<lambda>_ s. honest s \<and> leafhubs s = L)"
    by (intro tripleI) (auto simp: api_get_def api_call_def Let_def terminating_def honest_def split: answer.splits option.splits)
  then show ?thesis
    unfolding fetchHub_def by (rule triple_try) (intro triple_if triple_return triple_raise TrueI, auto simp: empty intro!: triple_return triple_raise)
qed

lemma Reconcile_prunes:
  assumes "fst req \<noteq> ''''" and "fst k \<noteq> ''''" and "snd k \<noteq> ''''"
  shows "triple (terminating k L) (leafhub_Reconcile lib req) (\<lambda>_. pruned L) (\<lambda>_ _. True)"
  unfolding leafhub_Reconcile_def
proof (rule triple_bind)
  show "triple (terminating k L) (op_get hohMGHNamespacedName) (\<lambda>j s. j = k \<and> terminating k L s) (\<lambda>_ _. True)"
    by (rule triple_get) (simp add: terminating_def)
  have prune: "triple (\<lambda>s. fst p \<and> \<not> IsPaused (snd p) \<and> honest s \<and> leafhubs s = L) (case p of (b, m) \<Rightarrow> if IsPaused m then op_return () else reconcileRequest lib req b m)
      (\<lambda>_. pruned L) (\<lambda>_ _. True)" for p
  proof (cases "fst p \<and> \<not> IsPaused (snd p)")
    case True
    then obtain m where p: "p = (True, m)" "\<not> IsPaused m" by (cases p) auto
    have set: "setDeployed m True n = op_return ()" for n unfolding setDeployed_def by simp
    have failed: "triple (\<lambda>_. True) (op_bind q (\<lambda>_. op_raise e :: unit op)) (\<lambda>_. pruned L) (\<lambda>_ _. True)" for q :: "unit op" and e by (rule triple_fails [OF triple_trivial])
    have "triple (\<lambda>s. honest s \<and> leafhubs s = L) (reconcileRequest lib req True m) (\<lambda>_. pruned L) (\<lambda>_ _. True)"
      unfolding reconcileRequest_def reconcileMulticlusterGlobalHub_def set using assms(1)
      by (simp only: simp_thms if_False if_True) (rule triple_try [OF pruneLeafHubs_triple _ failed], rule triple_return, simp_all)
    then show ?thesis using p by (simp only: case_prod_conv if_not_P not_False_eq_True) (rule triple_weaken, assumption, simp_all)
  next
    case False
    then have "\<not> (fst p \<and> \<not> IsPaused (snd p) \<and> honest s \<and> leafhubs s = L)" for s by blast
    then show ?thesis unfolding triple_def by blast
  qed
  show "triple (\<lambda>s. j = k \<and> terminating k L s) (if fst j = '''' \<or> snd j = '''' then op_return ()
      else op_bind (fetchHub j) (\<lambda>(b, m). if IsPaused m then op_return () else reconcileRequest lib req b m)) (\<lambda>_. pruned L) (\<lambda>_ _. True)" for j
  proof (cases "j = k")
    case True
    then show ?thesis using triple_bind [OF fetchHub_terminating prune] assms(2,3) by simp
  qed (simp add: triple_def)
qed

section \<open>Applying a work again\<close>

text \<open>
  What is relied on of a work: its manifests decode to objects with metadata that are derived from themselves without their
  time stamp, what was encoded decodes to the same value, and options and rules are derived from themselves.
\<close>

definition manifest_ok :: "leafLib \<Rightarrow> manifest \<Rightarrow> bool" where
  "manifest_ok lib m \<longleftrightarrow> sentManifest lib m \<noteq> RawManifest '''' \<and>
     (case desiredValue lib m of
        Inl _ \<Rightarrow> False
      | Inr j \<Rightarrow> (case withoutTimestamp j of None \<Rightarrow> False | Some j' \<Rightarrow> dl_derivative lib (Some j) (Some j')))"

definition work_ok :: "leafLib \<Rightarrow> ManifestWork \<Rightarrow> bool" where
  "work_ok lib w \<longleftrightarrow> ll_optionDerives lib (DeleteOption w) (DeleteOption w) \<and> ll_configsDerive lib (ManifestConfigs w) (ManifestConfigs w) \<and>
     list_all (manifest_ok lib) (Manifests w)"

lemma existingValue_sent: "sentManifest lib m \<noteq> RawManifest '''' \<Longrightarrow> desiredValue lib m = Inr j \<Longrightarrow> existingValue lib (sentManifest lib m) = Inr (Some j)"
  by (auto simp: existingValue_def sentManifest_def desiredValue_def split: manifest.splits if_splits)

lemma ensure_sent: "list_all (manifest_ok lib) ms \<Longrightarrow> ensureManifests lib (zip ms (map (sentManifest lib) ms)) = Inr False"
proof (induction ms)
  case (Cons m ms)
  then obtain j j' where "desiredValue lib m = Inr j" "withoutTimestamp j = Some j'" "dl_derivative lib (Some j) (Some j')" "sentManifest lib m \<noteq> RawManifest ''''"
    by (auto simp: manifest_ok_def split: sum.splits option.splits)
  then show ?case using Cons existingValue_sent [of lib m j] by simp
qed simp

text \<open>The work is as it is desired, or was sent as it is desired.\<close>

lemma ensured:
  assumes "work_ok lib w" and "Manifests x = map (sentManifest lib) (Manifests w)" and "DeleteOption x = DeleteOption w" and "ManifestConfigs x = ManifestConfigs w"
  shows "ensureManifestWork lib w x = Inr False"
  using assms ensure_sent [of lib "Manifests w"] by (simp add: ensureManifestWork_def work_ok_def)

lemma updateIfModified_ensured:
  assumes ok: "work_ok lib w" and run: "updateIfModified lib w existing s = (Inr y, s')" and at: "map_of (os_works s) (workKey w) = Some existing"
    and x: "map_of (os_works s') (workKey w) = Some x"
  shows "ensureManifestWork lib w x = Inr False"
proof (cases "ensureManifestWork lib w existing")
  case (Inr b)
  show ?thesis
  proof (cases b)
    case True
    then have "updateWork lib (w\<lparr>km_resourceVersion := km_resourceVersion existing\<rparr>) s = (Inr y, s')" using run Inr by (simp add: updateIfModified_def liftResult_def op_bind_def)
    then show ?thesis using x at
      by (intro ensured [OF ok]) (auto simp: updateWork_def api_update_def api_call_def Let_def sentWork_def split: answer.splits if_splits)
  next
    case False
    then have "s' = s" using run Inr by (simp add: updateIfModified_def liftResult_def op_bind_def)
    then show ?thesis using x at Inr False by simp
  qed
qed (use run in \<open>simp add: updateIfModified_def liftResult_def op_bind_def\<close>)

lemma applied_ensured:
  assumes ok: "work_ok lib w" and run: "applyManifestWork lib w s = (Inr y, s')" and x: "map_of (os_works s') (workKey w) = Some x"
  shows "ensureManifestWork lib w x = Inr False"
proof (cases "getWork (workKey w) s")
  case (Pair r s1)
  show ?thesis
  proof (cases r)
    case (Inl e)
    then have "createWork lib w s1 = (Inr y, s')" using run Pair by (auto simp: applyManifestWork_def op_try_run split: if_splits)
    from api_create_InrD [OF this [unfolded createWork_def]] x show ?thesis by (intro ensured [OF ok]) (auto simp: sentWork_def)
  next
    case (Inr existing)
    then have "map_of (os_works s1) (workKey w) = Some existing" using Pair api_get_InrD [of os_works "workKey w" s existing s1] by (simp add: getWork_def)
    moreover have "updateIfModified lib w existing s1 = (Inr y, s')" using run Pair Inr by (auto simp: applyManifestWork_def op_try_run)
    ultimately show ?thesis using x by (intro updateIfModified_ensured [OF ok])
  qed
qed

lemma apply_idle:
  assumes "map_of (os_works s) (workKey w) = Some x" and "ensureManifestWork lib w x = Inr False" and "os_answer s (os_calls s) = Answered"
  shows "applyManifestWork lib w s = (Inr x, s\<lparr>os_calls := Suc (os_calls s)\<rparr>)"
  using assms by (simp add: applyManifestWork_def op_try_def getWork_def api_get_def api_call_def Let_def updateIfModified_def op_bind_def liftResult_def)



section \<open>The properties\<close>

text \<open>Concrete inputs: templates that render one document each, and a leaf hub with its works.\<close>

definition subscriptionJSON :: string where
  "subscriptionJSON = ''{'' @ dquoted ''kind'' @ '':'' @ dquoted ''Subscription'' @ ''}''"

definition sampleLeafLib :: leafLib where
  "sampleLeafLib = operatorLib.extend (sampleOperatorLib\<lparr>dl_derivative := (\<lambda>_ _. True)\<rparr>)
     \<lparr>ll_nonHypershiftManifestFS = [(''manifests/nonhypershift/agent'', None), (''manifests/nonhypershift/agent/a.yaml'', Some ''a''),
        (''manifests/nonhypershift/mch'', None), (''manifests/nonhypershift/mch/m.yaml'', Some ''m''),
        (''manifests/nonhypershift/subscription'', None), (''manifests/nonhypershift/subscription/s.yaml'', Some ''s'')],
      ll_hypershiftHubManifestFS = [], ll_hypershiftAgentManifestFS = [], ll_parse = (\<lambda>_. None), ll_execute = (\<lambda>txt _. Inr txt),
      ll_toJSON = Inr, ll_unmarshal = (\<lambda>_. Inr (JMap [(''metadata'', JMap [])])), ll_marshal = (\<lambda>_. ''secret''),
      ll_subscription = (\<lambda>_. Inr (Some (''release-2.5'', ''v2.5''))), ll_optionDerives = (\<lambda>_ _. True), ll_configsDerive = (\<lambda>_ _. True), ll_packages = (\<lambda>_. Inr [])\<rparr>"

definition samplePackage :: packageManifestConfig where
  "samplePackage = \<lparr>ACMDefaultChannel = ''release-2.6'', ACMCurrentCSV = ''advanced-cluster-management.v2.6.0'', ACMImages = [], MCEDefaultChannel = '''', MCECurrentCSV = '''', MCEImages = []\<rparr>"

definition sampleWork :: "string \<Rightarrow> string \<Rightarrow> feedback list \<Rightarrow> nsname \<times> ManifestWork" where
  "sampleWork ns name fbs = ((ns, name), (newWork ns name [] [RawManifest subscriptionJSON] None [])\<lparr>km_resourceVersion := 1, ResourceStatus := fbs\<rparr>)"

definition sampleLeafState :: "(nsname \<times> ManifestWork) list \<Rightarrow> MulticlusterGlobalHub \<Rightarrow> opState" where
  "sampleLeafState works mgh = (sampleOpState [newObject ''Secret'' ''open-cluster-management'' DefaultImagePullSecretName [] []] mgh)\<lparr>os_works := works, leafhubs := [''hub1'']\<rparr>"

definition readyWorks :: "(nsname \<times> ManifestWork) list" where
  "readyWorks = [sampleWork ''hub1'' ''hub1-mgh-hub-subscription'' [\<lparr>fb_Kind = ''Subscription'', fb_Values = [(''state'', Some ''AtLatestKnown'')]\<rparr>],
     sampleWork ''hub1'' ''hub1-mgh-hub-mch'' [\<lparr>fb_Kind = ''MultiClusterHub'', fb_Values = [(''multicluster-engine-status'', Some ''True''), (''grc-sub-status'', Some ''True'')]\<rparr>]]"

text \<open>
  C27. The agent is put on a leaf hub that the operator installs on the managed cluster itself only when the hub has reported
  that it is up: when a reconciliation of such a hub, one that is neither hosted nor marked as installed already, creates or changes the work of the agent, then before it the work of the subscription had reported the latest known
  version and the work of the hub had reported exactly two of its three components as up. Works that are created or updated on
  the way report nothing new, and calls may fail at any place.
\<close>

theorem agent_only_on_ready_hub:
  assumes "reconcileNonHostedLeafHub lib mc mgh pm s = (r, s')"
    and "map_of (os_works s') (mc, workName mc HoHAgentWorkSuffix) \<noteq> map_of (os_works s) (mc, workName mc HoHAgentWorkSuffix)"
  shows "\<exists>sub mch. map_of (os_works s) (mc, workName mc HOHHubSubscriptionWorkSuffix) = Some sub
     \<and> findStatusFeedbackValueFromWork sub ''Subscription'' ''state'' ''AtLatestKnown'' \<noteq> None
     \<and> map_of (os_works s) (mc, workName mc HoHHubMCHWorkSuffix) = Some mch \<and> mchIsReadyNum mch = Some 2"
proof -
  let ?v = "map_of (os_works s) (subKey mc)" and ?a = "map_of (os_works s) (agentKey mc)" and ?b = "map_of (os_works s) (mchKey mc)"
  have pre: "work_at (subKey mc) ?v s \<and> work_at (agentKey mc) ?a s \<and> work_at (mchKey mc) ?b s" by (simp add: work_at_def)
  have "work_at (agentKey mc) ?a s' \<or> subscribed ?v \<and> hub_up ?b"
    using triple_success [OF agent_step pre] triple_failure [OF agent_step pre] assms(1) by (cases r) blast+
  then show ?thesis using assms(2) by (auto simp: work_at_def subscribed_def hub_up_def)
qed

theorem agent_only_on_ready_hub_witness:
  "\<exists>mch. map_of (os_works (sampleLeafState readyWorks (sampleHub [] False))) (''hub1'', workName ''hub1'' HoHHubMCHWorkSuffix) = Some mch \<and> mchIsReadyNum mch = Some 2"
proof -
  let ?s = "sampleLeafState readyWorks (sampleHub [] False)"
  let ?r = "reconcileNonHostedLeafHub sampleLeafLib ''hub1'' (sampleHub [] False) samplePackage ?s"
  have "map_of (os_works (snd ?r)) (''hub1'', workName ''hub1'' HoHAgentWorkSuffix) \<noteq> map_of (os_works ?s) (''hub1'', workName ''hub1'' HoHAgentWorkSuffix)" by code_simp
  from agent_only_on_ready_hub [OF prod.collapse [symmetric] this] show ?thesis by blast
qed

text \<open>
  C29. The condition of the leaf hubs does not recover: once \<open>LeafHubDeployed\<close> is false, no sequence of requests to the controller,
  whatever succeeds and fails in it, changes the conditions of the hub. The controller sets the condition to true only when the
  hub has no condition of this type yet, although every leaf hub may have been deployed since.
\<close>

theorem leafhub_failure_sticks:
  assumes "hubs_ok s" and "map_of (os_hubs s) (hohMGHNamespacedName s) = Some mgh" and "ContainConditionStatus mgh CONDITION_TYPE_LEAFHUB_DEPLOY CONDITION_STATUS_FALSE"
    and "honest s"
  shows "os_hubs (leafhub_run lib reqs s) = os_hubs s"
proof -
  have ok: "conds_ok (Conditions mgh)" using assms(1,2) by (auto simp: hubs_ok_def list_all_iff dest!: map_of_SomeD)
  then have "condStatus (Conditions mgh) CONDITION_TYPE_LEAFHUB_DEPLOY = Some CONDITION_STATUS_FALSE" using assms(3) by (simp add: ContainConditionStatus_cond)
  from Reconcile_keeps_hubs [OF assms(2) ok this]
  have "hubs_are (os_hubs s) (hohMGHNamespacedName s) (leafhub_run lib reqs s)"
    by (rule leafhub_run_keeps) (simp add: hubs_are_def assms(4))
  then show ?thesis by (simp add: hubs_are_def)
qed

definition failedHub :: MulticlusterGlobalHub where
  "failedHub = (sampleHub [] False)\<lparr>Conditions := [\<lparr>c_Type = CONDITION_TYPE_LEAFHUB_DEPLOY, c_Status = CONDITION_STATUS_FALSE,
     c_Reason = CONDITION_REASON_LEAFHUB_DEPLOY_FAILED, c_Message = '''', c_LastTransitionTime = 0\<rparr>]\<rparr>"

theorem leafhub_failure_sticks_witness:
  "os_hubs (leafhub_run sampleLeafLib [('''', ''hub1''), (''ns'', ''hub'')] (sampleLeafState [] failedHub)) = os_hubs (sampleLeafState [] failedHub)
   \<and> fst (leafhub_Reconcile sampleLeafLib ('''', ''hub1'') (sampleLeafState [] failedHub)) = Inr ()"
proof
  have "hubs_ok (sampleLeafState [] failedHub)" "map_of (os_hubs (sampleLeafState [] failedHub)) (hohMGHNamespacedName (sampleLeafState [] failedHub)) = Some failedHub"
    "ContainConditionStatus failedHub CONDITION_TYPE_LEAFHUB_DEPLOY CONDITION_STATUS_FALSE" "honest (sampleLeafState [] failedHub)"
    by (simp_all add: hubs_ok_def sampleLeafState_def sampleOpState_def failedHub_def sampleHub_def newMeta_def kmeta.defs hubKey_def conds_ok_def honest_def
        ContainConditionStatus_def reasonsOf_def condition_types)
  then show "os_hubs (leafhub_run sampleLeafLib [('''', ''hub1''), (''ns'', ''hub'')] (sampleLeafState [] failedHub)) = os_hubs (sampleLeafState [] failedHub)"
    by (rule leafhub_failure_sticks)
  show "fst (leafhub_Reconcile sampleLeafLib ('''', ''hub1'') (sampleLeafState [] failedHub)) = Inr ()" by code_simp
qed

text \<open>
  C28. Pruning leaves nothing on the leaf hubs the operator knows: when the global hub is gone, or is being deleted and not paused,
  and a request that is not for a single cluster succeeds, then no work of the operator is left in the namespace of any leaf hub in
  its set in memory nor in that of the local cluster, apart from works that are being deleted, and its add-ons for these leaf hubs and
  the add-on of the global hub are gone. (A work on a hosting cluster that is not in the set is not covered.)
\<close>

theorem prune_removes_everything:
  assumes "leafhub_Reconcile lib req s = (Inr (), s')" and "fst req \<noteq> ''''" and "hohMGHNamespacedName s = k" and "fst k \<noteq> ''''" and "snd k \<noteq> ''''" and "honest s"
    and "case map_of (os_hubs s) k of None \<Rightarrow> True | Some mgh \<Rightarrow> km_deleting mgh \<and> \<not> IsPaused mgh"
  shows "(\<forall>n\<in>set (leafhubs s). works_left n s' \<and> gone (objectKey (buildManagedClusterAddon n)) s') \<and> works_left LocalClusterName s' \<and> gone (objectKey buildClusterManagementAddon) s'"
proof -
  have "terminating k (leafhubs s) s" using assms(3,6,7) by (simp add: terminating_def)
  from triple_success [OF Reconcile_prunes [OF assms(2,4,5)] this assms(1)] show ?thesis by (simp add: pruned_def)
qed

theorem prune_removes_everything_witness:
  "works_left ''hub1'' (snd (leafhub_Reconcile sampleLeafLib (''ns'', ''hub'') (sampleLeafState readyWorks (sampleHub [operatorFinalizer] True))))
   \<and> os_works (snd (leafhub_Reconcile sampleLeafLib (''ns'', ''hub'') (sampleLeafState readyWorks (sampleHub [operatorFinalizer] True)))) = []"
proof
  let ?s = "sampleLeafState readyWorks (sampleHub [operatorFinalizer] True)"
  let ?r = "leafhub_Reconcile sampleLeafLib (''ns'', ''hub'') ?s"
  have s: "fst (''ns'', ''hub'') \<noteq> ''''" "hohMGHNamespacedName ?s = (''ns'', ''hub'')" "fst (''ns'', ''hub'') \<noteq> ''''" "snd (''ns'', ''hub'') \<noteq> ''''" "honest ?s"
    "case map_of (os_hubs ?s) (''ns'', ''hub'') of None \<Rightarrow> True | Some mgh \<Rightarrow> km_deleting mgh \<and> \<not> IsPaused mgh"
    by (simp_all add: sampleLeafState_def sampleOpState_def sampleHub_def newMeta_def kmeta.defs honest_def IsPaused_def getAnnotation_def GlobalHubSkipConsoleInstallAnnotationKey_def)
  have "fst ?r = Inr ()" by code_simp
  then have "?r = (Inr (), snd ?r)" by (metis prod.collapse)
  from prune_removes_everything [OF this s] show "works_left ''hub1'' (snd ?r)" by (simp add: sampleLeafState_def sampleOpState_def)
  show "os_works (snd ?r) = []" by code_simp
qed


text \<open>
  Applying a work converges: after a work has been applied, applying the same work again succeeds and only reads, whether the
  first time created it, updated it or left it, and although the server returns the object of a manifest as raw JSON.
\<close>

theorem apply_work_converges:
  assumes "work_ok lib w" and "applyManifestWork lib w s = (Inr y, s')" and "map_of (os_works s') (workKey w) \<noteq> None" and "os_answer s' (os_calls s') = Answered"
  shows "\<exists>x. applyManifestWork lib w s' = (Inr x, s'\<lparr>os_calls := Suc (os_calls s')\<rparr>)"
proof -
  obtain x where x: "map_of (os_works s') (workKey w) = Some x" using assms(3) by blast
  from apply_idle [OF x applied_ensured [OF assms(1,2) x] assms(4)] show ?thesis by blast
qed

definition sampleDesired :: ManifestWork where
  "sampleDesired = newWork ''hub1'' ''hub1-mgh-hub-mch'' [] [RawManifest ''m'', ObjectManifest (JMap [(''metadata'', JMap [])])] (Some ''Orphan'') []"

theorem apply_work_converges_witness:
  "\<exists>x. applyManifestWork sampleLeafLib sampleDesired (snd (applyManifestWork sampleLeafLib sampleDesired (sampleLeafState readyWorks (sampleHub [] False))))
     = (Inr x, (snd (applyManifestWork sampleLeafLib sampleDesired (sampleLeafState readyWorks (sampleHub [] False))))\<lparr>os_calls := 3\<rparr>)"
proof -
  let ?r = "applyManifestWork sampleLeafLib sampleDesired (sampleLeafState readyWorks (sampleHub [] False))"
  have "work_ok sampleLeafLib sampleDesired" by code_simp
  moreover have "isl (fst ?r) = False" "os_calls (snd ?r) = 2" "map_of (os_works (snd ?r)) (workKey sampleDesired) \<noteq> None" "os_answer (snd ?r) (os_calls (snd ?r)) = Answered" by code_simp+
  moreover from this(1) obtain y where "?r = (Inr y, snd ?r)" by (cases "fst ?r") (auto simp: prod_eq_iff)
  ultimately show ?thesis using apply_work_converges [of sampleLeafLib sampleDesired _ y "snd ?r"] by simp
qed

text \<open>
  C30. The work of a hosted hub can be left behind: when the detaching of a hosted leaf hub removes the work of the agent from the
  hosting cluster and the next call fails, then no repetition removes the work of the hub. A repetition finds the work of the agent
  missing and returns at once; so it does for a hub on which the agent was never deployed.
\<close>

theorem hosted_work_leaks:
  assumes "map_of (os_works s) (host, workName mc HoHHostingAgentWorkSuffix) = Some w" and "workKey w = (host, workName mc HoHHostingAgentWorkSuffix)" and "km_finalizers w = []"
    and "map_of (os_works s) (host, workName mc HoHHostingHubWorkSuffix) = Some x"
    and "os_answer s (os_calls s) = Answered" and "os_answer s (Suc (os_calls s)) = Answered" and "os_answer s (Suc (Suc (os_calls s))) = Refused e"
  shows "map_of (os_works (((\<lambda>s. snd (removeLeafHubHostingWork mc host s)) ^^ Suc n) s)) (host, workName mc HoHHostingHubWorkSuffix) = Some x"
proof -
  let ?a = "(host, workName mc HoHHostingAgentWorkSuffix)" and ?h = "(host, workName mc HoHHostingHubWorkSuffix)"
  let ?f = "\<lambda>s. snd (removeLeafHubHostingWork mc host s)"
  let ?I = "\<lambda>s. work_at ?a None s \<and> work_at ?h (Some x) s"
  have distinct: "?a \<noteq> ?h" by (simp add: work_suffixes)
  have first: "?I (?f s)"
    using assms distinct by (auto simp: removeLeafHubHostingWork_def op_try_def op_bind_def getWork_def deleteWork_def api_get_def api_delete_def api_call_def Let_def
        work_at_def map_of_markDeleted split: opError.splits)
  have "keeps ?I (removeLeafHubHostingWork mc host)"
    by (rule keepsI) (auto simp: removeLeafHubHostingWork_def op_try_run getWork_def api_get_def api_call_def Let_def work_at_def split: answer.splits option.splits if_splits)
  then have step: "?I t \<Longrightarrow> ?I (?f t)" for t by (simp add: keeps_def)
  have "?I ((?f ^^ Suc n) s)"
    by (induction n) (use first step in auto)
  then show ?thesis by (simp add: work_at_def)
qed

theorem hosted_work_leaks_witness:
  "map_of (os_works (((\<lambda>s. snd (removeLeafHubHostingWork ''hub1'' ''host'' s)) ^^ Suc 7)
     ((sampleLeafState [sampleWork ''host'' ''hub1-mgh-agent-hosting'' [], sampleWork ''host'' ''hub1-mgh-hub-hosting'' []] (sampleHub [] False))
        \<lparr>os_answer := (\<lambda>n. if n = 2 then Refused (OtherError ''timeout'') else Answered)\<rparr>))) (''host'', workName ''hub1'' HoHHostingHubWorkSuffix)
   = Some (snd (sampleWork ''host'' ''hub1-mgh-hub-hosting'' []))"
  by (rule hosted_work_leaks [where w = "snd (sampleWork ''host'' ''hub1-mgh-agent-hosting'' [])" and e = "OtherError ''timeout''"])
     (simp_all add: sampleLeafState_def sampleOpState_def sampleWork_def workName_def work_suffixes newWork_def newMeta_def kmeta.defs workKey_def)

end
