(* ===== verification/GH_KafkaConfig.thy ===== *)
theory GH_KafkaConfig
  imports GH_Operator GH_SpecAgent GH_TransportProps GH_StatusBack
begin

text \<open>
  How the manager and the agent come to their transport: the certificate of Kafka (\<open>src/pkg/kafka/certificate_manager.go\<close>),
  the configuration maps of their clients, the checks of their flags (\<open>src/agent/pkg/helper/config.go\<close>,
  \<open>src/manager/cmd/manager/main.go\<close>) and the choice of the transport. The operator writes the certificate into the flags
  of both (\<open>GH_Operator\<close>); the last section composes the two ends.

  The flags are parsed by \<open>pflag\<close>: the model starts from the parsed values. A program here works on the files of its
  container and yields a value or the error it returns.
\<close>

section \<open>Programs on the files of the container\<close>

type_synonym hostFiles = "(string, string) gomap"
type_synonym ConfigMap = "(string, string) gomap"

datatype startError = DecodeFailed | WriteFailed | errFailedToAppendCert | SetKeyFailed | ClientFailed | SubscribeFailed
  | CompressorFailed | errFlagParameterEmpty string | errFlagParameterIllegalValue string

type_synonym 'a start = "hostFiles \<Rightarrow> (startError + 'a) \<times> hostFiles"

definition start_return :: "'a \<Rightarrow> 'a start" where
  "start_return x fs = (Inr x, fs)"

definition start_raise :: "startError \<Rightarrow> 'a start" where
  "start_raise e fs = (Inl e, fs)"

definition start_bind :: "'a start \<Rightarrow> ('a \<Rightarrow> 'b start) \<Rightarrow> 'b start" where
  "start_bind m f fs = (case m fs of (Inr x, fs') \<Rightarrow> f x fs' | (Inl e, fs') \<Rightarrow> (Inl e, fs'))"

text \<open>
  What the operating system and the libraries do: writing a file (which may fail and leave anything behind), whether a
  PEM text holds a certificate, \<open>ConfigMap.SetKey\<close> and the clients of the Kafka library.
\<close>

record kafkaLib =
  kl_WriteFile :: "string \<Rightarrow> string \<Rightarrow> hostFiles \<Rightarrow> bool \<times> hostFiles"
  kl_AppendCertsFromPEM :: "string \<Rightarrow> bool"
  kl_SetKey :: "string \<Rightarrow> string \<Rightarrow> ConfigMap \<Rightarrow> ConfigMap option"
  kl_NewConsumer :: "ConfigMap \<Rightarrow> bool"
  kl_Subscribe :: "ConfigMap \<Rightarrow> string \<Rightarrow> bool"
  kl_NewProducer :: "ConfigMap \<Rightarrow> bool"

section \<open>The certificate\<close>

definition certFileLocation :: string where
  "certFileLocation = ''/opt/kafka/ca.crt''"

definition SetCertificate :: "kafkaLib \<Rightarrow> string \<Rightarrow> string start" where
  "SetCertificate kl cert fs =
     (case base64Decode cert of
        None \<Rightarrow> (Inl DecodeFailed, fs)
      | Some certBytes \<Rightarrow>
          (case kl_WriteFile kl certFileLocation certBytes fs of
             (False, fs1) \<Rightarrow> (Inl WriteFailed, fs1)
           | (True, fs1) \<Rightarrow>
               if kl_AppendCertsFromPEM kl certBytes then (Inr certFileLocation, fs1) else (Inl errFailedToAppendCert, fs1)))"

definition SetKey :: "kafkaLib \<Rightarrow> string \<Rightarrow> string \<Rightarrow> ConfigMap \<Rightarrow> ConfigMap start" where
  "SetKey kl key value m = (case kl_SetKey kl key value m of None \<Rightarrow> start_raise SetKeyFailed | Some m' \<Rightarrow> start_return m')"

text \<open>The agent, the producer of the manager and its consumer have each a copy of the same function.\<close>

definition loadSslToConfigMap :: "kafkaLib \<Rightarrow> string \<Rightarrow> ConfigMap \<Rightarrow> ConfigMap start" where
  "loadSslToConfigMap kl sslCa kafkaConfigMap =
     (if sslCa \<noteq> '''' then
        start_bind (SetCertificate kl sslCa) (\<lambda>location.
        start_bind (SetKey kl ''security.protocol'' ''ssl'' kafkaConfigMap) (\<lambda>m.
        SetKey kl ''ssl.ca.location'' location m))
      else start_return kafkaConfigMap)"

definition producer_loadSslToConfigMap :: "kafkaLib \<Rightarrow> string \<Rightarrow> ConfigMap \<Rightarrow> ConfigMap start" where
  "producer_loadSslToConfigMap = loadSslToConfigMap"

definition consumer_loadSslToConfigMap :: "kafkaLib \<Rightarrow> string \<Rightarrow> ConfigMap \<Rightarrow> ConfigMap start" where
  "consumer_loadSslToConfigMap = loadSslToConfigMap"

section \<open>The configuration of the agent\<close>

record KafkaConfig =
  BootstrapServers :: string
  SslCa :: string
  ComsumerTopic :: string
  ProducerId :: string
  ProducerTopic :: string
  ProducerMessageLimit :: int

record SyncServiceConfig =
  Protocol :: string
  ConsumerHost :: string
  ConsumerPort :: int
  ConsumerPollingInterval :: int
  ProducerHost :: string
  ProducerPort :: int

record ConfigManager =
  cm_LeafHubName :: string
  cm_PodNameSpace :: string
  cm_TransportType :: string
  cm_TransportCompressionType :: string
  cm_SpecWorkPoolSize :: int
  cm_SpecEnforceHohRbac :: bool
  cm_StatusDeltaCountSwitchFactor :: int
  cm_Kafka :: KafkaConfig
  cm_SyncService :: SyncServiceConfig

text \<open>What is registered when no flag is given.\<close>

definition defaultConfig :: ConfigManager where
  "defaultConfig =
     \<lparr>cm_LeafHubName = '''', cm_PodNameSpace = ''open-cluster-management'', cm_TransportType = ''kafka'',
      cm_TransportCompressionType = ''gzip'', cm_SpecWorkPoolSize = 10, cm_SpecEnforceHohRbac = False, cm_StatusDeltaCountSwitchFactor = 100,
      cm_Kafka = \<lparr>BootstrapServers = '''', SslCa = '''', ComsumerTopic = ''spec'', ProducerId = '''', ProducerTopic = ''status'',
        ProducerMessageLimit = 100\<rparr>,
      cm_SyncService = \<lparr>Protocol = ''http'', ConsumerHost = ''sync-service-ess.sync-service.svc.cluster.local'', ConsumerPort = 8090,
        ConsumerPollingInterval = 5, ProducerHost = ''sync-service-ess.sync-service.svc.cluster.local'', ProducerPort = 8090\<rparr>\<rparr>"

definition maxMessageSizeLimit :: int where "maxMessageSizeLimit = 1024"

definition NewConfigManager :: "ConfigManager \<Rightarrow> startError + ConfigManager" where
  "NewConfigManager parsed =
     (if cm_LeafHubName parsed = '''' then Inl (errFlagParameterEmpty ''leaf-hub-name'')
      else let configManager = (if ProducerId (cm_Kafka parsed) = ''''
                                then parsed\<lparr>cm_Kafka := (cm_Kafka parsed)\<lparr>ProducerId := cm_LeafHubName parsed\<rparr>\<rparr> else parsed) in
        if cm_SpecWorkPoolSize configManager < 1 \<or> 100 < cm_SpecWorkPoolSize configManager then Inl (errFlagParameterIllegalValue ''consumer-worker-pool-size'')
        else if maxMessageSizeLimit < ProducerMessageLimit (cm_Kafka configManager) then Inl (errFlagParameterIllegalValue ''kafka-message-size-limit'')
        else Inr configManager)"

definition GetKafkaConfigMap :: "kafkaLib \<Rightarrow> ConfigManager \<Rightarrow> ConfigMap start" where
  "GetKafkaConfigMap kl configManager = loadSslToConfigMap kl (SslCa (cm_Kafka configManager))
     [(''bootstrap.servers'', BootstrapServers (cm_Kafka configManager)), (''client.id'', cm_LeafHubName configManager),
      (''group.id'', cm_LeafHubName configManager), (''auto.offset.reset'', ''earliest''), (''enable.auto.commit'', ''false''),
      (''socket.keepalive.enable'', ''true''), (''log.connection.close'', ''false'')]"

definition GetProducerKafkaConfigMap :: "kafkaLib \<Rightarrow> ConfigManager \<Rightarrow> ConfigMap start" where
  "GetProducerKafkaConfigMap kl configManager = loadSslToConfigMap kl (SslCa (cm_Kafka configManager))
     [(''bootstrap.servers'', BootstrapServers (cm_Kafka configManager)), (''client.id'', ProducerId (cm_Kafka configManager)),
      (''acks'', ''1''), (''retries'', ''0''), (''socket.keepalive.enable'', ''true''), (''log.connection.close'', ''false'')]"

section \<open>The clients\<close>

text \<open>What a client was created with. A port is an \<open>int\<close> of the flags, converted to sixteen bits.\<close>

datatype transportClient =
    KafkaClient (kc_configMap: ConfigMap) (kc_topic: string)
  | KafkaProducerClient (kp_configMap: ConfigMap) (kp_topic: string) (kp_messageSizeLimit: int) (kp_compressor: Compressor)
  | SyncServiceClient (sc_protocol: string) (sc_host: string) (sc_port: "16 word") (sc_compressor: "Compressor option")

text \<open>A \<open>kafka.Consumer\<close> that subscribes to a topic, and a \<open>kafka.Producer\<close> with its size limit.\<close>

definition newSubscribed :: "kafkaLib \<Rightarrow> ConfigMap \<Rightarrow> string \<Rightarrow> transportClient start" where
  "newSubscribed kl m topic =
     (if \<not> kl_NewConsumer kl m then start_raise ClientFailed
      else if \<not> kl_Subscribe kl m topic then start_raise SubscribeFailed
      else start_return (KafkaClient m topic))"

definition newProducerClient :: "kafkaLib \<Rightarrow> ConfigMap \<Rightarrow> string \<Rightarrow> int \<Rightarrow> Compressor \<Rightarrow> transportClient start" where
  "newProducerClient kl m topic limit cpr =
     (if \<not> kl_NewProducer kl m then start_raise ClientFailed else start_return (KafkaProducerClient m topic limit cpr))"

definition kiloBytesToBytes :: int where "kiloBytesToBytes = 1000"

definition agent_NewKafkaConsumer :: "kafkaLib \<Rightarrow> ConfigManager \<Rightarrow> transportClient start" where
  "agent_NewKafkaConsumer kl cfg =
     start_bind (GetKafkaConfigMap kl cfg) (\<lambda>m. newSubscribed kl m (ComsumerTopic (cm_Kafka cfg)))"

definition agent_NewKafkaProducer :: "kafkaLib \<Rightarrow> Compressor \<Rightarrow> ConfigManager \<Rightarrow> transportClient start" where
  "agent_NewKafkaProducer kl cpr cfg =
     start_bind (GetProducerKafkaConfigMap kl cfg) (\<lambda>m.
       newProducerClient kl m (ProducerTopic (cm_Kafka cfg)) (ProducerMessageLimit (cm_Kafka cfg) * kiloBytesToBytes) cpr)"

definition agent_NewSyncService :: "ConfigManager \<Rightarrow> transportClient start" where
  "agent_NewSyncService cfg = (let c = cm_SyncService cfg in
     start_return (SyncServiceClient (Protocol c) (ConsumerHost c) (word_of_int (ConsumerPort c)) None))"

definition agent_NewSyncServiceProducer :: "Compressor \<Rightarrow> ConfigManager \<Rightarrow> transportClient start" where
  "agent_NewSyncServiceProducer cpr cfg = (let c = cm_SyncService cfg in
     start_return (SyncServiceClient (Protocol c) (ProducerHost c) (word_of_int (ProducerPort c)) (Some cpr)))"

definition getConsumer :: "kafkaLib \<Rightarrow> ConfigManager \<Rightarrow> transportClient start" where
  "getConsumer kl cfg =
     (if cm_TransportType cfg = ''kafka'' then agent_NewKafkaConsumer kl cfg
      else if cm_TransportType cfg = ''sync-service'' then agent_NewSyncService cfg
      else start_raise (errFlagParameterIllegalValue ''TRANSPORT_TYPE''))"

definition getProducer :: "kafkaLib \<Rightarrow> ConfigManager \<Rightarrow> transportClient start" where
  "getProducer kl cfg =
     (case NewCompressor (cm_TransportCompressionType cfg) of
        Inl _ \<Rightarrow> start_raise CompressorFailed
      | Inr cpr \<Rightarrow>
          if cm_TransportType cfg = ''kafka'' then agent_NewKafkaProducer kl cpr cfg
          else if cm_TransportType cfg = ''sync-service'' then agent_NewSyncServiceProducer cpr cfg
          else start_raise (errFlagParameterIllegalValue ''TRANSPORT_TYPE''))"

section \<open>The configuration of the manager\<close>

text \<open>The fields that the functions below read; the nested structs of the source are flattened.\<close>

record managerKafkaConfig =
  bootstrapServer :: string
  mk_SslCa :: string
  mk_ProducerID :: string
  mk_ProducerTopic :: string
  MsgSizeLimitKB :: int
  mk_ConsumerID :: string
  mk_ConsumerTopic :: string

record hohManagerConfig =
  processDatabaseURL :: string
  transportBridgeDatabaseURL :: string
  transportType :: string
  msgCompressionType :: string
  kafkaConfig :: managerKafkaConfig
  CSSProtocol :: string
  CSSHost :: string
  CSSPort :: int

definition MaxMessageSizeLimit :: int where "MaxMessageSizeLimit = 987"

definition parseFlags :: "hohManagerConfig \<Rightarrow> startError + hohManagerConfig" where
  "parseFlags managerConfig =
     (if processDatabaseURL managerConfig = '''' then Inl (errFlagParameterEmpty ''database url for process user'')
      else if transportBridgeDatabaseURL managerConfig = '''' then Inl (errFlagParameterEmpty ''database url for transport-bridge user'')
      else if MaxMessageSizeLimit < MsgSizeLimitKB (kafkaConfig managerConfig) then Inl (errFlagParameterIllegalValue ''kafka-message-size-limit'')
      else Inr managerConfig)"

definition requireInitialChecks :: "string \<Rightarrow> bool" where
  "requireInitialChecks transport = (if transport = ''kafka'' then False else True)"

definition NewProducer :: "kafkaLib \<Rightarrow> Compressor \<Rightarrow> managerKafkaConfig \<Rightarrow> transportClient start" where
  "NewProducer kl cpr c =
     start_bind (producer_loadSslToConfigMap kl (mk_SslCa c)
       [(''bootstrap.servers'', bootstrapServer c), (''client.id'', mk_ProducerID c), (''acks'', ''1''), (''retries'', ''0''),
        (''socket.keepalive.enable'', ''true''), (''log.connection.close'', ''false'')]) (\<lambda>m.
       newProducerClient kl m (mk_ProducerTopic c) (MsgSizeLimitKB c * kiloBytesToBytes) cpr)"

definition NewConsumer :: "kafkaLib \<Rightarrow> managerKafkaConfig \<Rightarrow> transportClient start" where
  "NewConsumer kl c =
     start_bind (consumer_loadSslToConfigMap kl (mk_SslCa c)
       [(''bootstrap.servers'', bootstrapServer c), (''client.id'', mk_ConsumerID c), (''group.id'', mk_ConsumerID c),
        (''auto.offset.reset'', ''earliest''), (''enable.auto.commit'', ''false''), (''socket.keepalive.enable'', ''true''),
        (''log.connection.close'', ''false'')]) (\<lambda>m.
       newSubscribed kl m (mk_ConsumerTopic c))"

definition spec_NewSyncService :: "Compressor \<Rightarrow> hohManagerConfig \<Rightarrow> transportClient start" where
  "spec_NewSyncService cpr c = start_return (SyncServiceClient (CSSProtocol c) (CSSHost c) (word_of_int (CSSPort c)) (Some cpr))"

definition status_NewSyncService :: "hohManagerConfig \<Rightarrow> transportClient start" where
  "status_NewSyncService c = start_return (SyncServiceClient (CSSProtocol c) (CSSHost c) (word_of_int (CSSPort c)) None)"

definition getSpecTransport :: "kafkaLib \<Rightarrow> hohManagerConfig \<Rightarrow> transportClient start" where
  "getSpecTransport kl c =
     (case NewCompressor (msgCompressionType c) of
        Inl _ \<Rightarrow> start_raise CompressorFailed
      | Inr cpr \<Rightarrow>
          if transportType c = ''kafka'' then NewProducer kl cpr (kafkaConfig c)
          else if transportType c = ''sync-service'' then spec_NewSyncService cpr c
          else start_raise (errFlagParameterIllegalValue ''transport-type''))"

definition getStatusTransport :: "kafkaLib \<Rightarrow> hohManagerConfig \<Rightarrow> transportClient start" where
  "getStatusTransport kl c =
     (if transportType c = ''kafka'' then NewConsumer kl (kafkaConfig c)
      else if transportType c = ''sync-service'' then status_NewSyncService c
      else start_raise (errFlagParameterIllegalValue ''transport-type''))"

section \<open>The certificate from the operator to its clients\<close>

lemma base64Char_digits:
  "\<forall>n\<in>set [0..<64]. base64Digit (base64Char n) = Some n \<and> base64Char n \<noteq> CHR ''='' \<and> \<not> lineBreak (base64Char n)"
  by code_simp

lemma base64Char_mod: "base64Char n = base64Char (n mod 64)"
  by (simp add: base64Char_def)

lemma base64Char_simps [simp]:
  "base64Digit (base64Char n) = Some (n mod 64)" "base64Char n \<noteq> CHR ''=''" "\<not> lineBreak (base64Char n)"
  using base64Char_digits [rule_format, of "n mod 64"] by (simp_all add: base64Char_mod [of n])

lemma base64Raw_clean: "filter (\<lambda>c. \<not> lineBreak c) (base64Raw ca) = base64Raw ca"
  by (induction ca rule: base64Raw.induct) (simp_all add: Let_def)

text \<open>A number below 256 is cut into its upper and its lower bits and put together again.\<close>

lemma base64_group:
  fixes x y z :: nat
  assumes "x < 256" "y < 256" "z < 256"
  shows "((x div 4) mod 64 * 4 + (x * 16 + y div 16) mod 64 div 16) mod 256 = x"
    and "((x * 16 + y div 16) mod 64 * 16 + (y * 4 + z div 64) mod 64 div 4) mod 256 = y"
    and "((y * 4 + z div 64) mod 64 * 64 + z mod 64) mod 256 = z"
proof -
  have x: "x = x mod 4 + 4 * (x div 4)" and y: "y = y mod 16 + 16 * (y div 16)" by simp_all
  have "x div 4 < 64" "y div 16 < 16" "z div 64 < 4" using assms by linarith+
  moreover have "y div 16 + 16 * (x mod 4) < 64" "z div 64 + 4 * (y mod 16) < 64"
    using \<open>y div 16 < 16\<close> \<open>z div 64 < 4\<close> by linarith+
  moreover have "(x * 16 + y div 16) mod 64 = y div 16 + 16 * (x mod 4)"
  proof -
    have e: "x * 16 + y div 16 = y div 16 + 16 * (x mod 4) + 64 * (x div 4)" using x by linarith
    show ?thesis unfolding e using calculation by simp
  qed
  moreover have "(y * 4 + z div 64) mod 64 = z div 64 + 4 * (y mod 16)"
  proof -
    have e: "y * 4 + z div 64 = z div 64 + 4 * (y mod 16) + 64 * (y div 16)" using y by linarith
    show ?thesis unfolding e using calculation by simp
  qed
  ultimately show "((x div 4) mod 64 * 4 + (x * 16 + y div 16) mod 64 div 16) mod 256 = x"
    and "((x * 16 + y div 16) mod 64 * 16 + (y * 4 + z div 64) mod 64 div 4) mod 256 = y"
    and "((y * 4 + z div 64) mod 64 * 64 + z mod 64) mod 256 = z"
    using assms by simp_all
qed

lemma base64Groups_chars_decoded:
  "base64Groups (base64Char p # base64Char q # base64Char r # base64Char t # rest) =
     map_option (\<lambda>tail. char_of ((p mod 64 * 4 + q mod 64 div 16) mod 256) # char_of ((q mod 64 * 16 + r mod 64 div 4) mod 256) #
       char_of ((r mod 64 * 64 + t mod 64) mod 256) # tail) (base64Groups rest)"
  by (simp only: base64Groups.simps base64Char_simps option.case prod.case if_False simp_thms)

lemma base64Groups_raw:
  "base64Groups (base64Raw (a # b # c # rest)) = map_option (\<lambda>tail. a # b # c # tail) (base64Groups (base64Raw rest))"
proof -
  have "(of_char a :: nat) < 256" "(of_char b :: nat) < 256" "(of_char c :: nat) < 256" by simp_all
  note g = base64_group [OF this]
  show ?thesis
    unfolding base64Raw.simps Let_def append.simps base64Groups_chars_decoded g char_of_char ..
qed

lemma base64_raw_decoded: "base64Decode (base64Raw ca) = (if length ca mod 3 = 0 then Some ca else None)"
proof -
  have "base64Groups (base64Raw ca) = (if length ca mod 3 = 0 then Some ca else None)"
  proof (induction ca rule: base64Raw.induct)
    case (4 a b c rest)
    have "length (a # b # c # rest) mod 3 = length rest mod 3" by simp
    then show ?case unfolding base64Groups_raw "4.IH" [OF refl refl refl] by simp
  qed (simp_all add: Let_def)
  then show ?thesis by (simp add: base64Decode_def base64Raw_clean)
qed

text \<open>The libraries as documented, at a moment when every call works.\<close>

definition kafka_works :: "kafkaLib \<Rightarrow> bool" where
  "kafka_works kl \<longleftrightarrow>
     (\<forall>path content fs. \<exists>fs'. kl_WriteFile kl path content fs = (True, fs') \<and> map_of fs' path = Some content) \<and>
     (\<forall>content. kl_AppendCertsFromPEM kl content) \<and>
     (\<forall>key value m. \<exists>m'. kl_SetKey kl key value m = Some m' \<and> map_of m' = (map_of m)(key \<mapsto> value)) \<and>
     (\<forall>m. kl_NewConsumer kl m \<and> kl_NewProducer kl m \<and> (\<forall>topic. kl_Subscribe kl m topic))"

definition uses_certificate :: "hostFiles \<Rightarrow> ConfigMap \<Rightarrow> string \<Rightarrow> bool" where
  "uses_certificate fs m ca \<longleftrightarrow>
     map_of m ''security.protocol'' = Some ''ssl'' \<and> (\<exists>path. map_of m ''ssl.ca.location'' = Some path \<and> map_of fs path = Some ca)"

lemma base64Raw_Nil [simp]: "base64Raw ca = [] \<longleftrightarrow> ca = []"
  by (cases ca rule: base64Raw.cases) (simp_all add: Let_def)

lemma loadSsl_raw:
  assumes "kafka_works kl" and "ca \<noteq> ''''"
  shows "if length ca mod 3 = 0 then \<exists>m' fs'. loadSslToConfigMap kl (base64Raw ca) m fs = (Inr m', fs') \<and> uses_certificate fs' m' ca
         else loadSslToConfigMap kl (base64Raw ca) m fs = (Inl DecodeFailed, fs)"
proof (cases "length ca mod 3 = 0")
  case True
  obtain fs' where fs': "kl_WriteFile kl certFileLocation ca fs = (True, fs')" "map_of fs' certFileLocation = Some ca"
    using assms(1) unfolding kafka_works_def by blast
  obtain m1 where m1: "kl_SetKey kl ''security.protocol'' ''ssl'' m = Some m1" "map_of m1 = (map_of m)(''security.protocol'' \<mapsto> ''ssl'')"
    using assms(1) unfolding kafka_works_def by blast
  obtain m2 where m2: "kl_SetKey kl ''ssl.ca.location'' certFileLocation m1 = Some m2" "map_of m2 = (map_of m1)(''ssl.ca.location'' \<mapsto> certFileLocation)"
    using assms(1) unfolding kafka_works_def by blast
  have "kl_AppendCertsFromPEM kl ca" using assms(1) unfolding kafka_works_def by blast
  then have "loadSslToConfigMap kl (base64Raw ca) m fs = (Inr m2, fs')"
    using assms(2) True fs'(1) m1(1) m2(1)
    by (simp add: loadSslToConfigMap_def SetCertificate_def base64_raw_decoded start_bind_def SetKey_def start_return_def)
  then show ?thesis using True fs'(2) m1(2) m2(2) by (simp add: uses_certificate_def)
next
  case False
  then show ?thesis using assms(2) by (simp add: loadSslToConfigMap_def SetCertificate_def base64_raw_decoded start_bind_def)
qed

text \<open>A client that is created after its configuration map.\<close>

lemma client_after_loadSsl:
  assumes "if b then \<exists>m' fs'. load fs = (Inr m', fs') \<and> P fs' m' else load fs = (Inl e, fs)" and "\<And>m. create m = start_return (client m)"
  shows "if b then \<exists>m' fs'. start_bind load create fs = (Inr (client m'), fs') \<and> P fs' m' else start_bind load create fs = (Inl e, fs)"
  using assms by (auto simp: start_bind_def start_return_def split: if_splits)

lemma newSubscribed_works: "kafka_works kl \<Longrightarrow> newSubscribed kl m topic = start_return (KafkaClient m topic)"
  by (simp add: newSubscribed_def kafka_works_def)

lemma getKafkaConfig_secret:
  assumes "getKafkaConfig lib mgh s = (Inr (server, flag), s')" and "flag \<noteq> ''''"
  obtains secret where "map_of (os_objects s) (''Secret'', GetDefaultNamespace lib, Transport mgh) = Some secret"
    and "flag = base64Raw (secretData secret ''CA'')"
  using assms
  by (auto simp: getKafkaConfig_def op_bind_run client_Get_def dest!: api_get_InrD(1) split: option.splits if_splits)

text \<open>
  C21. The operator encodes the certificate of Kafka without padding and the manager and the agent decode it as padded base64.
  So with the flag that the operator takes from the secret of the transport, and with everything else working, both the
  manager's consumer and the agent's are created with exactly the certificate of the secret when the number of its bytes is a
  multiple of three, and for every other certificate neither of them is: both fail to decode it.
\<close>

theorem kafka_certificate_length:
  assumes operator: "getKafkaConfig lib mgh s = (Inr (server, flag), s')" and "flag \<noteq> ''''"
    and works: "kafka_works kl"
    and manager: "transportType c = ''kafka''" "mk_SslCa (kafkaConfig c) = flag"
    and agent: "cm_TransportType cfg = ''kafka''" "SslCa (cm_Kafka cfg) = flag"
  shows "\<exists>secret. map_of (os_objects s) (''Secret'', GetDefaultNamespace lib, Transport mgh) = Some secret \<and>
    (let ca = secretData secret ''CA'' in
     if length ca mod 3 = 0
     then (\<exists>m fs'. getStatusTransport kl c fs = (Inr (KafkaClient m (mk_ConsumerTopic (kafkaConfig c))), fs') \<and> uses_certificate fs' m ca)
        \<and> (\<exists>m fs'. getConsumer kl cfg fs = (Inr (KafkaClient m (ComsumerTopic (cm_Kafka cfg))), fs') \<and> uses_certificate fs' m ca)
     else getStatusTransport kl c fs = (Inl DecodeFailed, fs) \<and> getConsumer kl cfg fs = (Inl DecodeFailed, fs))"
proof -
  from operator \<open>flag \<noteq> ''''\<close> obtain secret where secret: "map_of (os_objects s) (''Secret'', GetDefaultNamespace lib, Transport mgh) = Some secret"
    and flag: "flag = base64Raw (secretData secret ''CA'')" by (rule getKafkaConfig_secret)
  let ?ca = "secretData secret ''CA''"
  have ca: "?ca \<noteq> ''''" using flag \<open>flag \<noteq> ''''\<close> by simp
  have "if length ?ca mod 3 = 0
        then \<exists>m fs'. getStatusTransport kl c fs = (Inr (KafkaClient m (mk_ConsumerTopic (kafkaConfig c))), fs') \<and> uses_certificate fs' m ?ca
        else getStatusTransport kl c fs = (Inl DecodeFailed, fs)"
    unfolding getStatusTransport_def manager NewConsumer_def consumer_loadSslToConfigMap_def flag if_P [OF refl]
    by (rule client_after_loadSsl [OF loadSsl_raw [OF works ca]], rule newSubscribed_works [OF works])
  moreover have "if length ?ca mod 3 = 0
        then \<exists>m fs'. getConsumer kl cfg fs = (Inr (KafkaClient m (ComsumerTopic (cm_Kafka cfg))), fs') \<and> uses_certificate fs' m ?ca
        else getConsumer kl cfg fs = (Inl DecodeFailed, fs)"
    unfolding getConsumer_def agent agent_NewKafkaConsumer_def GetKafkaConfigMap_def flag if_P [OF refl]
    by (rule client_after_loadSsl [OF loadSsl_raw [OF works ca]], rule newSubscribed_works [OF works])
  ultimately show ?thesis using secret by (simp add: Let_def)
qed

definition sampleKafkaLib :: kafkaLib where
  "sampleKafkaLib = \<lparr>kl_WriteFile = (\<lambda>path content fs. (True, AList.update path content fs)), kl_AppendCertsFromPEM = (\<lambda>_. True),
     kl_SetKey = (\<lambda>key value m. Some (AList.update key value m)), kl_NewConsumer = (\<lambda>_. True), kl_Subscribe = (\<lambda>_ _. True), kl_NewProducer = (\<lambda>_. True)\<rparr>"

definition sampleManagerConfig :: "string \<Rightarrow> hohManagerConfig" where
  "sampleManagerConfig ca = \<lparr>processDatabaseURL = ''p'', transportBridgeDatabaseURL = ''t'', transportType = ''kafka'', msgCompressionType = ''gzip'',
     kafkaConfig = \<lparr>bootstrapServer = ''kafka'', mk_SslCa = ca, mk_ProducerID = ''id'', mk_ProducerTopic = ''spec'', MsgSizeLimitKB = 940,
       mk_ConsumerID = ''id'', mk_ConsumerTopic = ''status''\<rparr>, CSSProtocol = ''http'', CSSHost = ''css'', CSSPort = 9689\<rparr>"

definition sampleAgentConfig :: "string \<Rightarrow> ConfigManager" where
  "sampleAgentConfig ca = defaultConfig\<lparr>cm_LeafHubName := ''hub1'', cm_Kafka := (cm_Kafka defaultConfig)\<lparr>SslCa := ca\<rparr>\<rparr>"

lemma sampleKafkaLib_works: "kafka_works sampleKafkaLib"
  by (simp add: kafka_works_def sampleKafkaLib_def update_conv')

definition secretState :: "string \<Rightarrow> opState" where
  "secretState ca = sampleOpState [newObject ''Secret'' ''open-cluster-management'' ''transport'' []
     [(''data'', JMap [(''bootstrap_server'', JString ''kafka''), (''CA'', JString ca)])]] (sampleHub [] False)"

lemma secretState_config:
  "fst (getKafkaConfig sampleOperatorLib ((sampleHub [] False)\<lparr>km_annotations := []\<rparr>) (secretState ''CA==='')) = Inr (''kafka'', ''Q0E9PT0'')"
  by code_simp

theorem kafka_certificate_length_witness:
  "getStatusTransport sampleKafkaLib (sampleManagerConfig ''Q0E9PT0'') [] = (Inl DecodeFailed, [])
   \<and> getConsumer sampleKafkaLib (sampleAgentConfig ''Q0E9PT0'') [] = (Inl DecodeFailed, [])"
proof -
  let ?mgh = "(sampleHub [] False)\<lparr>km_annotations := []\<rparr>"
  obtain s' where run: "getKafkaConfig sampleOperatorLib ?mgh (secretState ''CA==='') = (Inr (''kafka'', ''Q0E9PT0''), s')"
    using secretState_config by (metis prod.collapse)
  have "map_of (os_objects (secretState ''CA==='')) (''Secret'', GetDefaultNamespace sampleOperatorLib, Transport ?mgh) =
      Some (newObject ''Secret'' ''open-cluster-management'' ''transport'' [] [(''data'', JMap [(''bootstrap_server'', JString ''kafka''), (''CA'', JString ''CA===''  )])])"
    by code_simp
  then show ?thesis
    using kafka_certificate_length [OF run _ sampleKafkaLib_works, of "sampleManagerConfig ''Q0E9PT0''" "sampleAgentConfig ''Q0E9PT0''" "[]"]
    by (simp add: sampleManagerConfig_def sampleAgentConfig_def defaultConfig_def secretData_def objectField_def)
qed

end
