(* ===== verification/GH_AgentHost.thy ===== *)
theory GH_AgentHost
  imports GH_KafkaConfig
begin

text \<open>
  What the agent does on its hub beside the transport (\<open>src/agent/cmd/agent/main.go\<close>, \<open>src/agent/pkg/controllers\<close>,
  \<open>src/agent/pkg/lease\<close>, \<open>src/agent/pkg/applier\<close>): it starts, which gives it the incarnation that all its bundles carry,
  keeps a cluster role and its binding, renews a lease while its pod runs, and applies manifests. The API server of the hub is
  the one of \<open>GH_OpBase\<close>. The texts of errors are abbreviated.
\<close>

section \<open>The incarnation\<close>

definition HOH_LOCAL_NAMESPACE :: string where "HOH_LOCAL_NAMESPACE = ''open-cluster-management-global-hub-local''"

definition INCARNATION_CONFIG_MAP_KEY :: string where "INCARNATION_CONFIG_MAP_KEY = ''incarnation''"

definition host_CreateNamespaceIfNotExist :: "string \<Rightarrow> unit op" where
  "host_CreateNamespaceIfNotExist namespace =
     (if namespace = '''' then op_return ()
      else op_try (client_Create (newObject ''Namespace'' '''' namespace [] []))
        (\<lambda>e. if e = OtherError ''AlreadyExists'' then op_return () else op_raise (OtherError (''failed to create namespace '' @ namespace)))
        (\<lambda>_. op_return ()))"

text \<open>\<open>strconv.ParseUint\<close> in base 10 with 64 bits: digits only, without a sign.\<close>

definition ParseUint :: "string \<Rightarrow> uint64 option" where
  "ParseUint s = (case digitsValue s of None \<Rightarrow> None | Some n \<Rightarrow> if n < 2 ^ 64 then Some (word_of_int n) else None)"

definition createIncarnationConfigMap :: "uint64 \<Rightarrow> kobject" where
  "createIncarnationConfigMap incarnation = newObject ''ConfigMap'' HOH_LOCAL_NAMESPACE INCARNATION_CONFIG_MAP_KEY []
     [(''data'', JMap [(INCARNATION_CONFIG_MAP_KEY, JString (itoa (unat incarnation)))])]"

definition incarnationKey :: kkey where
  "incarnationKey = (''ConfigMap'', HOH_LOCAL_NAMESPACE, INCARNATION_CONFIG_MAP_KEY)"

definition configData :: "kobject \<Rightarrow> (string, jvalue) gomap" where
  "configData cm = (case objectField cm ''data'' of Some (JMap m) \<Rightarrow> m | _ \<Rightarrow> [])"

text \<open>
  \<open>client.MergeFrom\<close>: the patch has what differs between the object that was read and the new one, a key that only the old
  one has is removed, and nothing in it refers to the version that was read. The values of the data are strings.
\<close>

definition mergeMap :: "(string, 'v) gomap \<Rightarrow> (string, 'v) gomap \<Rightarrow> (string, 'v) gomap \<Rightarrow> (string, 'v) gomap" where
  "mergeMap original modified current =
     fold (\<lambda>(k, v) m. if map_of original k = Some v then m else AList.update k v m) modified
       (fold (\<lambda>(k, _) m. if map_of modified k = None then AList.delete k m else m) original current)"

definition mergeFrom :: "kobject \<Rightarrow> kobject \<Rightarrow> kobject \<Rightarrow> kobject" where
  "mergeFrom original modified current =
     current\<lparr>km_labels := mergeMap (km_labels original) (km_labels modified) (km_labels current),
             km_annotations := mergeMap (km_annotations original) (km_annotations modified) (km_annotations current),
             km_finalizers := (if km_finalizers original = km_finalizers modified then km_finalizers current else km_finalizers modified),
             ko_fields := AList.update ''data'' (JMap (mergeMap (configData original) (configData modified) (configData current)))
               (mergeMap (AList.delete ''data'' (ko_fields original)) (AList.delete ''data'' (ko_fields modified)) (ko_fields current))\<rparr>"

definition client_Patch :: "kobject \<Rightarrow> kobject \<Rightarrow> kobject op" where
  "client_Patch original modified =
     api_update os_objects os_objects_update False (\<lambda>old new. mergeFrom original new old) (objectKey modified) modified"

text \<open>What follows after the config map was read.\<close>

definition incarnationOf :: "kobject \<Rightarrow> opError + uint64" where
  "incarnationOf configMap =
     (case map_of (configData configMap) INCARNATION_CONFIG_MAP_KEY of
        Some (JString incarnationString) \<Rightarrow>
          (case ParseUint incarnationString of
             None \<Rightarrow> Inl (OtherError ''failed to parse value of key incarnation'')
           | Some n \<Rightarrow> Inr n)
      | _ \<Rightarrow> Inl (OtherError ''configmap incarnation does not contain (incarnation)''))"

definition nextIncarnation :: "kobject \<Rightarrow> uint64 op" where
  "nextIncarnation configMap =
     op_bind (liftResult (incarnationOf configMap)) (\<lambda>lastIncarnation.
     op_bind (wrapError ''failed to update incarnation version'' (client_Patch configMap (createIncarnationConfigMap (lastIncarnation + 1)))) (\<lambda>_.
     op_return (lastIncarnation + 1)))"

definition getIncarnation :: "uint64 op" where
  "getIncarnation =
     op_bind (wrapError ''failed to create ns'' (host_CreateNamespaceIfNotExist HOH_LOCAL_NAMESPACE)) (\<lambda>_.
     op_try (client_Get incarnationKey)
       (\<lambda>e. if e \<noteq> opError.NotFound then op_raise (OtherError ''failed to get incarnation config-map'')
            else op_bind (wrapError ''failed to create incarnation config-map obj'' (client_Create (createIncarnationConfigMap 0))) (\<lambda>_. op_return 0))
       nextIncarnation)"

section \<open>Cluster roles\<close>

definition HubOfHubsClusterRoleName :: string where
  "HubOfHubsClusterRoleName = ''open-cluster-management:multicluster-global-hub-managedcluster-creation''"

definition agentLabels :: "(string, string) gomap" where
  "agentLabels = [(GlobalHubOwnerLabelKey, ''multicluster-global-hub-agent'')]"

definition policyRule :: "string list \<Rightarrow> string list \<Rightarrow> string list \<Rightarrow> jvalue" where
  "policyRule resources verbs groups =
     JMap [(''verbs'', JArray (map JString verbs)), (''apiGroups'', JArray (map JString groups)), (''resources'', JArray (map JString resources))]"

definition createClusterRole :: kobject where
  "createClusterRole = newObject ''ClusterRole'' '''' HubOfHubsClusterRoleName agentLabels
     [(''rules'', JArray
        [policyRule [''managedclusters''] [''create'', ''update''] [''cluster.open-cluster-management.io''],
         policyRule [''managedclustersets/join'', ''managedclustersets/bind''] [''create'', ''delete''] [''cluster.open-cluster-management.io''],
         policyRule [''managedclusters/accept''] [''update''] [''register.open-cluster-management.io'']])]"

definition createClusterRoleBinding :: kobject where
  "createClusterRoleBinding = newObject ''ClusterRoleBinding'' '''' HubOfHubsClusterRoleName agentLabels
     [(''roleRef'', JMap [(''apiGroup'', JString ''rbac.authorization.k8s.io''), (''kind'', JString ''ClusterRole''), (''name'', JString HubOfHubsClusterRoleName)]),
      (''subjects'', JArray [JMap [(''kind'', JString ''ServiceAccount''), (''name'', JString ''klusterlet-work-sa''),
         (''namespace'', JString ''open-cluster-management-agent'')]])]"

text \<open>Both controllers write the same object whatever the request names; both are triggered by labelled objects only.\<close>

definition reconcileOwned :: "deployLib \<Rightarrow> kobject \<Rightarrow> unit op" where
  "reconcileOwned dl desired =
     op_try (client_Get (objectKey desired))
       (\<lambda>e. if e = opError.NotFound then drop_result (client_Create desired) else op_raise e)
       (\<lambda>_. drop_result (client_Update dl desired))"

definition clusterRole_Reconcile :: "deployLib \<Rightarrow> unit op" where
  "clusterRole_Reconcile dl = reconcileOwned dl createClusterRole"

definition clusterRoleBinding_Reconcile :: "deployLib \<Rightarrow> unit op" where
  "clusterRoleBinding_Reconcile dl = reconcileOwned dl createClusterRoleBinding"

definition agentPredicate :: "kobject \<Rightarrow> bool" where
  "agentPredicate x \<longleftrightarrow> map_of (km_labels x) GlobalHubOwnerLabelKey = Some ''multicluster-global-hub-agent''"

definition initOwned :: "kobject \<Rightarrow> unit op" where
  "initOwned desired =
     op_try (client_Get (objectKey desired))
       (\<lambda>e. if e = opError.NotFound then drop_result (client_Create desired) else op_raise (OtherError (''failed to get clusterrole: '' @ errText e)))
       (\<lambda>_. op_return ())"

definition InitClusterRole :: "unit op" where
  "InitClusterRole = initOwned createClusterRole"

definition InitClusterRoleBinding :: "unit op" where
  "InitClusterRoleBinding = initOwned createClusterRoleBinding"

definition InitResources :: "unit op" where
  "InitResources = op_each (\<lambda>f. wrapError ''failed to execute init function'' f) [InitClusterRole, InitClusterRoleBinding]"

section \<open>The lease\<close>

record leaseUpdater =
  leaseName :: string
  leaseNamespace :: string
  leaseDurationSeconds :: int

definition leaseKey :: "leaseUpdater \<Rightarrow> kkey" where
  "leaseKey r = (''Lease'', leaseNamespace r, leaseName r)"

definition leaseSpec :: "kobject \<Rightarrow> (string, jvalue) gomap" where
  "leaseSpec lease = (case objectField lease ''spec'' of Some (JMap m) \<Rightarrow> m | _ \<Rightarrow> [])"

text \<open>The clock is read when the call is made. A time is kept as its number of ticks.\<close>

definition updateLease :: "leaseUpdater \<Rightarrow> unit op" where
  "updateLease r =
     op_try (client_Get (leaseKey r))
       (\<lambda>e. if e = opError.NotFound
            then op_bind (op_get (\<lambda>s. os_now s (os_calls s))) (\<lambda>now.
              drop_result (client_Create (newObject ''Lease'' (leaseNamespace r) (leaseName r) []
                [(''spec'', JMap [(''leaseDurationSeconds'', JNumber (itoaInt (leaseDurationSeconds r))), (''renewTime'', JNumber (itoaInt now))])])))
            else op_raise e)
       (\<lambda>lease. op_bind (op_get (\<lambda>s. os_now s (os_calls s))) (\<lambda>now.
          drop_result (api_update os_objects os_objects_update False (\<lambda>old new. new) (leaseKey r)
            (lease\<lparr>ko_fields := AList.update ''spec'' (JMap (AList.update ''renewTime'' (JNumber (itoaInt now)) (leaseSpec lease))) (ko_fields lease)\<rparr>))))"

definition podPhase :: "kobject \<Rightarrow> string" where
  "podPhase pod = (case objectField pod ''status'' of
     Some (JMap m) \<Rightarrow> (case map_of m ''phase'' of Some (JString phase) \<Rightarrow> phase | _ \<Rightarrow> '''') | _ \<Rightarrow> '''')"

definition agentPod :: "string \<Rightarrow> kkey \<Rightarrow> kobject \<Rightarrow> bool" where
  "agentPod namespace k x \<longleftrightarrow> fst k = ''Pod'' \<and> fst (snd k) = namespace \<and> map_of (km_labels x) ''name'' = Some ''multicluster-global-hub-agent''"

definition checkAddonPod :: "string \<Rightarrow> bool op" where
  "checkAddonPod namespace =
     op_try (api_list os_objects (agentPod namespace)) (\<lambda>_. op_return False)
       (\<lambda>pods. op_return (list_ex (\<lambda>pod. podPhase pod = ''Running'') pods))"

text \<open>A failed update is only logged.\<close>

definition lease_reconcile :: "leaseUpdater \<Rightarrow> unit op" where
  "lease_reconcile r =
     op_bind (checkAddonPod (leaseNamespace r)) (\<lambda>healthy.
       if \<not> healthy then op_return ()
       else op_try (updateLease r) (\<lambda>_. op_return ()) op_return)"

section \<open>Manifests\<close>

text \<open>
  The embedded files below a directory in the order of \<open>fs.WalkDir\<close>, the decoder, the mapping of a kind (whether it is
  namespaced) and the semantic equality of \<open>apimachinery\<close> are the parameters.
\<close>

record applierLib = deployLib +
  al_walk :: "string \<Rightarrow> (opError + string) list"
  al_decode :: "string \<Rightarrow> opError + kobject"
  al_mapping :: "kobject \<Rightarrow> opError + bool"
  al_DeepEqual :: "(string, jvalue) gomap \<Rightarrow> (string, jvalue) gomap \<Rightarrow> bool"

text \<open>\<open>unstructured.NestedMap\<close>: a missing field is an empty map, a field that is no map an error.\<close>

definition nestedSpec :: "kobject \<Rightarrow> opError + (string, jvalue) gomap" where
  "nestedSpec x = (case objectField x ''spec'' of
     None \<Rightarrow> Inr [] | Some (JMap m) \<Rightarrow> Inr m | Some _ \<Rightarrow> Inl (OtherError ''.spec accessor error''))"

definition ensureGenericSpec :: "applierLib \<Rightarrow> kobject \<Rightarrow> kobject \<Rightarrow> opError + (kobject \<times> bool)" where
  "ensureGenericSpec lib existing desired =
     (case nestedSpec desired of
        Inl e \<Rightarrow> Inl e
      | Inr desiredSpec \<Rightarrow>
          (case nestedSpec existing of
             Inl e \<Rightarrow> Inl e
           | Inr existingSpec \<Rightarrow>
               if al_DeepEqual lib existingSpec desiredSpec then Inr (existing, False)
               else Inr (existing\<lparr>ko_fields := AList.update ''spec'' (JMap desiredSpec) (ko_fields existing)\<rparr>, True)))"

definition applyDynamicResource :: "applierLib \<Rightarrow> kobject \<Rightarrow> unit op" where
  "applyDynamicResource lib desired =
     op_try (client_Get (objectKey desired))
       (\<lambda>e. if e = opError.NotFound then drop_result (client_Create desired) else op_raise e)
       (\<lambda>existingObj. op_bind (liftResult (ensureGenericSpec lib existingObj desired)) (\<lambda>(toUpdate, modified).
          if \<not> modified then op_return () else drop_result (client_Update (deployLib.truncate lib) toUpdate)))"

definition applyFile :: "applierLib \<Rightarrow> opError + string \<Rightarrow> unit op" where
  "applyFile lib file =
     op_bind (liftResult file) (\<lambda>content.
     op_bind (liftResult (al_decode lib content)) (\<lambda>obj.
     op_bind (liftResult (al_mapping lib obj)) (\<lambda>namespaced.
     applyDynamicResource lib (if namespaced then obj else obj\<lparr>km_namespace := ''''\<rparr>))))"

definition ApplyManifestsForVersion :: "applierLib \<Rightarrow> string \<Rightarrow> unit op" where
  "ApplyManifestsForVersion lib hubVersion = op_each (applyFile lib) (al_walk lib (''manifests/'' @ hubVersion))"

definition applier_doMain :: "applierLib \<Rightarrow> string \<Rightarrow> int op" where
  "applier_doMain lib hubVersion =
     (if hubVersion = '''' then op_return 1
      else op_try (ApplyManifestsForVersion lib hubVersion) (\<lambda>_. op_return 1) (\<lambda>_. op_return 0))"

section \<open>The start of the agent\<close>

text \<open>The controller-runtime manager and the registration of the controllers, which may fail.\<close>

record agentLib =
  ag_NewManager :: "opError option"
  ag_addToScheme :: "opError option"
  ag_addControllers :: "uint64 \<Rightarrow> opError option"
  ag_mgrStart :: "opError option"

definition failing :: "string \<Rightarrow> opError option \<Rightarrow> unit op" where
  "failing msg r = (case r of None \<Rightarrow> op_return () | Some e \<Rightarrow> op_raise (OtherError (msg @ errText e)))"

definition agent_createManager :: "agentLib \<Rightarrow> uint64 op" where
  "agent_createManager lib =
     op_bind (failing ''failed to create a new manager: '' (ag_NewManager lib)) (\<lambda>_.
     op_bind (failing ''failed to add a schemes: '' (ag_addToScheme lib)) (\<lambda>_.
     op_bind (wrapError ''failed to get incarnation version'' getIncarnation) (\<lambda>incarnation.
     op_bind (failing ''failed to add controllers: '' (ag_addControllers lib incarnation)) (\<lambda>_.
     op_return incarnation))))"

text \<open>
  The exit code, and the incarnation of a manager that ran. A consumer that cannot be created ends the program; a producer
  that cannot be created is logged, and the next statement calls a method of the nil interface.
\<close>

definition agent_doMain :: "kafkaLib \<Rightarrow> agentLib \<Rightarrow> ConfigManager \<Rightarrow> hostFiles \<Rightarrow> (int \<times> uint64 option) op" where
  "agent_doMain kl lib parsed fs =
     (case NewConfigManager parsed of
        Inl _ \<Rightarrow> op_return (1, None)
      | Inr configManager \<Rightarrow>
          (case getConsumer kl configManager fs of
             (Inl _, _) \<Rightarrow> op_return (1, None)
           | (Inr consumer, fs1) \<Rightarrow>
               (case getProducer kl configManager fs1 of
                  (Inl _, _) \<Rightarrow> op_raise Panic
                | (Inr producer, _) \<Rightarrow>
                    op_try (agent_createManager lib) (\<lambda>_. op_return (1, None)) (\<lambda>incarnation.
                    op_bind (op_try InitResources (\<lambda>_. op_return ()) op_return) (\<lambda>_.
                    op_return (if ag_mgrStart lib = None then 0 else 1, Some incarnation))))))"

end
