(* ===== verification/GH_AgentHostProps.thy ===== *)
theory GH_AgentHostProps
  imports GH_AgentHost
begin

text \<open>
  The incarnations that successive starts of the agent get only increase, so that the bundles of a later start are newer than
  all bundles of the earlier ones, whatever calls of the API server fail or lose their response; and the lease, the roles and
  the manifests.
\<close>

section \<open>The stored incarnation\<close>

lemma ParseUint_itoa: "ParseUint (itoa (unat w)) = Some w"
proof -
  have "int (unat w) < 2 ^ 64" using uint_bounded [of w] by simp
  then show ?thesis by (simp add: ParseUint_def digitsValue_itoa)
qed

lemma incarnationOf_created [simp]: "incarnationOf (createIncarnationConfigMap w) = Inr w"
  by (simp add: incarnationOf_def createIncarnationConfigMap_def configData_def objectField_def ParseUint_itoa)

lemma incarnationOf_version [simp]: "incarnationOf (cm\<lparr>km_deleting := b, km_resourceVersion := v\<rparr>) = incarnationOf cm"
  "incarnationOf (cm\<lparr>km_resourceVersion := v\<rparr>) = incarnationOf cm" "incarnationOf (cm\<lparr>km_deleting := b\<rparr>) = incarnationOf cm"
  by (simp_all add: incarnationOf_def configData_def objectField_def)

lemma objectKey_incarnation [simp]: "objectKey (createIncarnationConfigMap w) = incarnationKey"
  by (simp add: createIncarnationConfigMap_def incarnationKey_def)

lemma map_of_drop_missing:
  "map_of modified k \<noteq> None \<Longrightarrow> map_of (fold (\<lambda>(k, _) m. if map_of modified k = None then AList.delete k m else m) original current) k = map_of current k"
  by (induction original arbitrary: current) (auto simp: delete_conv')

lemma mergeMap_single: "map_of (mergeMap m [(k, v)] m) k = Some v"
  using map_of_drop_missing [of "[(k, v)]" k m m] by (simp add: mergeMap_def update_conv')

lemma configData_mergeFrom: "configData (mergeFrom original modified current) = mergeMap (configData original) (configData modified) (configData current)"
proof -
  have "objectField (mergeFrom original modified current) ''data'' = Some (JMap (mergeMap (configData original) (configData modified) (configData current)))"
    by (simp add: mergeFrom_def objectField_def update_conv')
  then show ?thesis by (simp add: configData_def [of "mergeFrom original modified current"])
qed

lemma incarnationOf_merged [simp]: "incarnationOf (mergeFrom cm (createIncarnationConfigMap w) cm) = Inr w"
proof -
  have "configData (createIncarnationConfigMap w) = [(INCARNATION_CONFIG_MAP_KEY, JString (itoa (unat w)))]"
    by (simp add: configData_def createIncarnationConfigMap_def objectField_def)
  then show ?thesis by (simp add: incarnationOf_def configData_mergeFrom mergeMap_single ParseUint_itoa)
qed

lemma created_not_deleting [simp]: "\<not> km_deleting (createIncarnationConfigMap w)"
  by (simp add: createIncarnationConfigMap_def newObject_def newMeta_def kmeta.defs)

lemma created_version [simp]: "km_resourceVersion (createIncarnationConfigMap w) = 0"
  by (simp add: createIncarnationConfigMap_def newObject_def newMeta_def kmeta.defs)

text \<open>\<open>inc_at k\<close>: the next start gets the incarnation \<open>k\<close>.\<close>

definition inc_at :: "nat \<Rightarrow> opState \<Rightarrow> bool" where
  "inc_at k s = (case map_of (os_objects s) incarnationKey of
     None \<Rightarrow> k = 0
   | Some cm \<Rightarrow> \<not> km_deleting cm \<and> (case incarnationOf cm of Inr n \<Rightarrow> k = Suc (unat n) | Inl _ \<Rightarrow> False))"

lemma inc_at_calls [simp]: "inc_at k (s\<lparr>os_calls := c\<rparr>) = inc_at k s" "inc_at k (s\<lparr>os_version := c\<rparr>) = inc_at k s"
  by (simp_all add: inc_at_def)

lemma inc_at_other: "map_of (os_objects s') incarnationKey = map_of (os_objects s) incarnationKey \<Longrightarrow> inc_at k s' = inc_at k s"
  by (simp add: inc_at_def)

lemma keeps_inc_get [op_keeps]: "keeps (inc_at k) (client_Get key)"
  unfolding client_Get_def by (rule keeps_api_get) simp

lemma client_Get_InrD:
  assumes "client_Get k s = (Inr x, s')"
  shows "map_of (os_objects s') k = Some x" and "os_objects s' = os_objects s"
  using api_get_InrD [OF assms [unfolded client_Get_def]] by simp_all

lemma keeps_inc_create: "objectKey x \<noteq> incarnationKey \<Longrightarrow> keeps (inc_at k) (client_Create x)"
  unfolding client_Create_def by (rule keeps_api_create) (auto simp: inc_at_def update_conv')

text \<open>Creating the config map, with the response lost or not.\<close>

lemma create_incarnation:
  "triple (inc_at k) (client_Create (createIncarnationConfigMap 0)) (\<lambda>_ s. k = 0 \<and> inc_at 1 s) (\<lambda>_ s. inc_at k s \<or> k = 0 \<and> inc_at 1 s)"
  by (rule tripleI)
     (auto simp: client_Create_def api_create_def api_call_def Let_def inc_at_def update_conv'
       split: answer.splits if_splits option.splits sum.splits)

text \<open>Patching it: the version that was read is the stored one.\<close>

lemma patch_incarnation:
  assumes "Suc (unat n) < 2 ^ 64"
  shows "triple (\<lambda>s. inc_at (Suc (unat n)) s \<and> map_of (os_objects s) incarnationKey = Some cm) (client_Patch cm (createIncarnationConfigMap (n + 1)))
     (\<lambda>_. inc_at (Suc (Suc (unat n)))) (\<lambda>_ s. inc_at (Suc (unat n)) s \<or> inc_at (Suc (Suc (unat n))) s)"
proof -
  have "unat (n + 1) = Suc (unat n)" using assms by (simp add: unat_add_lem [THEN iffD1] flip: Suc_eq_plus1)
  then show ?thesis
    by (intro tripleI)
       (auto simp: client_Patch_def api_update_def api_call_def Let_def inc_at_def update_conv'
         split: answer.splits if_splits option.splits sum.splits)
qed

section \<open>What a start does to it\<close>

text \<open>A start that fails may have taken the incarnation.\<close>

definition inc_from :: "nat \<Rightarrow> opState \<Rightarrow> bool" where
  "inc_from k s \<longleftrightarrow> inc_at k s \<or> inc_at (Suc k) s"

lemma inc_fromI [intro]: "inc_at k s \<Longrightarrow> inc_from k s" "inc_at (Suc k) s \<Longrightarrow> inc_from k s"
  by (simp_all add: inc_from_def)

lemma keeps_weaken: "keeps I m \<Longrightarrow> (\<And>s. I s \<Longrightarrow> F s) \<Longrightarrow> triple I m (\<lambda>_. I) (\<lambda>_. F)"
  unfolding keeps_triple by (rule triple_weaken)

lemma keeps_pure: "keeps I m \<Longrightarrow> keeps (\<lambda>s. c \<and> I s) m"
  by (simp add: keeps_def)

lemma op_bind_return [simp]: "op_bind (op_return x) f = f x"
  by (simp add: fun_eq_iff op_bind_def)

lemma liftResult_Inr [simp]: "liftResult (Inr x) = op_return x"
  by (simp add: liftResult_def)

lemma nextIncarnation_triple:
  assumes "k < 2 ^ 64"
  shows "triple (\<lambda>s. inc_at k s \<and> map_of (os_objects s) incarnationKey = Some cm) (nextIncarnation cm)
     (\<lambda>n s. unat n = k \<and> inc_at (Suc k) s) (\<lambda>_. inc_from k)"
proof (cases "\<exists>n. incarnationOf cm = Inr n \<and> k = Suc (unat n)")
  case True
  then obtain n where n: "incarnationOf cm = Inr n" "k = Suc (unat n)" by blast
  then have "unat (n + 1) = k" using assms by (simp add: unat_add_lem [THEN iffD1] flip: Suc_eq_plus1)
  moreover have "triple (\<lambda>s. inc_at k s \<and> map_of (os_objects s) incarnationKey = Some cm) (client_Patch cm (createIncarnationConfigMap (n + 1)))
     (\<lambda>_. inc_at (Suc k)) (\<lambda>_. inc_from k)"
    using patch_incarnation [of n cm] assms unfolding n(2) inc_from_def by simp
  ultimately show ?thesis
    unfolding nextIncarnation_def n(1) liftResult_Inr op_bind_return
    by (intro triple_bind [OF triple_wrapError]) (auto intro!: op_rules)
qed (auto simp: triple_def inc_at_def split: sum.split_asm)

lemma create_first_triple:
  "triple (inc_at k) (op_bind (wrapError msg (client_Create (createIncarnationConfigMap 0))) (\<lambda>_. op_return 0))
     (\<lambda>n s. unat n = k \<and> inc_at (Suc k) s) (\<lambda>_. inc_from k)"
proof (rule triple_bind [OF triple_wrapError])
  show "triple (inc_at k) (client_Create (createIncarnationConfigMap 0)) (\<lambda>_ s. k = 0 \<and> inc_at 1 s) (\<lambda>_. inc_from k)"
    by (rule triple_weaken [OF create_incarnation]) (auto simp: inc_from_def)
qed (auto intro!: op_rules)

lemma keeps_CreateNamespace: "keeps (inc_at k) (host_CreateNamespaceIfNotExist namespace)"
  unfolding host_CreateNamespaceIfNotExist_def by (intro op_keeps keeps_inc_create) (simp add: incarnationKey_def)

lemma getIncarnation_triple:
  assumes "k < 2 ^ 64"
  shows "triple (inc_at k) getIncarnation (\<lambda>n s. unat n = k \<and> inc_at (Suc k) s) (\<lambda>_. inc_from k)"
  unfolding getIncarnation_def
proof (rule triple_bind [OF triple_wrapError])
  show "triple (inc_at k) (host_CreateNamespaceIfNotExist HOH_LOCAL_NAMESPACE) (\<lambda>_. inc_at k) (\<lambda>_. inc_from k)"
    by (rule keeps_weaken [OF keeps_CreateNamespace]) blast
  have "triple (inc_at k) (client_Get incarnationKey) (\<lambda>cm s. inc_at k s \<and> map_of (os_objects s) incarnationKey = Some cm) (\<lambda>_. inc_at k)"
    by (rule tripleI) (auto dest: client_Get_InrD(1) keepsD [OF keeps_inc_get])
  then show "triple (inc_at k)
     (op_try (client_Get incarnationKey)
       (\<lambda>e. if e \<noteq> opError.NotFound then op_raise (OtherError ''failed to get incarnation config-map'')
            else op_bind (wrapError ''failed to create incarnation config-map obj'' (client_Create (createIncarnationConfigMap 0))) (\<lambda>_. op_return 0))
       nextIncarnation) (\<lambda>n s. unat n = k \<and> inc_at (Suc k) s) (\<lambda>_. inc_from k)" for u :: unit
    by (rule triple_try [OF _ nextIncarnation_triple [OF assms]])
       (auto intro!: triple_if triple_raise create_first_triple simp: inc_from_def)
qed

lemma keeps_failing [op_keeps]: "keeps I (failing msg r)"
  unfolding failing_def by (intro op_keeps)

lemma createManager_triple:
  assumes "k < 2 ^ 64"
  shows "triple (inc_at k) (agent_createManager lib) (\<lambda>n s. unat n = k \<and> inc_at (Suc k) s) (\<lambda>_. inc_from k)"
proof -
  have before: "triple (inc_at k) (failing msg r) (\<lambda>_. inc_at k) (\<lambda>_. inc_from k)" for msg r
    by (rule keeps_weaken [OF keeps_failing]) blast
  have after: "triple (\<lambda>s. unat n = k \<and> inc_at (Suc k) s) (failing msg r) (\<lambda>_ s. unat n = k \<and> inc_at (Suc k) s) (\<lambda>_. inc_from k)" for msg r and n :: uint64
    by (rule keeps_weaken [OF keeps_failing]) blast
  show ?thesis
    unfolding agent_createManager_def
    by (intro triple_bind [OF before] triple_bind [OF triple_wrapError [OF getIncarnation_triple [OF assms]]] triple_bind [OF after]) (auto intro!: op_rules)
qed

lemma keeps_InitResources: "keeps (inc_at k) InitResources"
proof -
  have "keeps (inc_at k) (initOwned x)" if "objectKey x \<noteq> incarnationKey" for x
    unfolding initOwned_def drop_result_def by (intro op_keeps keeps_inc_create that)
  then have "keeps (inc_at k) InitClusterRole" "keeps (inc_at k) InitClusterRoleBinding"
    by (simp_all add: InitClusterRole_def InitClusterRoleBinding_def createClusterRole_def createClusterRoleBinding_def incarnationKey_def)
  then show ?thesis unfolding InitResources_def op_each.simps by (intro op_keeps)
qed

text \<open>The whole program: the incarnation of a manager that ran, if one did.\<close>

lemma doMain_triple:
  assumes "k < 2 ^ 64"
  shows "triple (inc_at k) (agent_doMain kl lib parsed fs)
     (\<lambda>r s. case snd r of None \<Rightarrow> inc_from k s | Some n \<Rightarrow> unat n = k \<and> inc_at (Suc k) s) (\<lambda>_. inc_from k)"
proof -
  let ?Q = "\<lambda>r s. case snd r of None \<Rightarrow> inc_from k s | Some n \<Rightarrow> unat n = k \<and> inc_at (Suc k) s"
  have init: "triple (\<lambda>s. unat n = k \<and> inc_at (Suc k) s) (op_try InitResources (\<lambda>_. op_return ()) op_return)
      (\<lambda>_ s. unat n = k \<and> inc_at (Suc k) s) (\<lambda>_. inc_from k)" for n :: uint64
    by (rule keeps_weaken [OF keeps_pure]) (blast intro: op_keeps keeps_InitResources)+
  have run: "triple (inc_at k) (op_try (agent_createManager lib) (\<lambda>_. op_return (1, None)) (\<lambda>incarnation.
      op_bind (op_try InitResources (\<lambda>_. op_return ()) op_return) (\<lambda>_.
      op_return (if ag_mgrStart lib = None then 0 else 1, Some incarnation)))) ?Q (\<lambda>_. inc_from k)"
    by (rule triple_try [OF createManager_triple [OF assms]]) (auto intro!: triple_bind [OF init] triple_return)
  show ?thesis
    unfolding agent_doMain_def
    by (intro triple_sum triple_prod run) (auto intro!: triple_return triple_raise simp: inc_from_def)
qed

section \<open>Restarts\<close>

text \<open>Starts of the agent with any configuration and environment, and other writers of the hub.\<close>

datatype hostEvent = AgentStart kafkaLib agentLib ConfigManager hostFiles | ObjectWritten kkey kobject | ObjectRemoved kkey

fun foreign :: "hostEvent \<Rightarrow> bool" where
  "foreign (AgentStart kl lib cfg fs) \<longleftrightarrow> True"
| "foreign (ObjectWritten k x) \<longleftrightarrow> k \<noteq> incarnationKey"
| "foreign (ObjectRemoved k) \<longleftrightarrow> k \<noteq> incarnationKey"

definition started :: "opError + (int \<times> uint64 option) \<Rightarrow> uint64 list" where
  "started r = (case r of Inr (_, Some n) \<Rightarrow> [n] | _ \<Rightarrow> [])"

fun hostRun :: "hostEvent list \<Rightarrow> opState \<Rightarrow> uint64 list \<times> opState" where
  "hostRun [] s = ([], s)"
| "hostRun (AgentStart kl lib cfg fs # es) s =
     (let (r, s1) = agent_doMain kl lib cfg fs s; (ns, s2) = hostRun es s1 in (started r @ ns, s2))"
| "hostRun (ObjectWritten k x # es) s = hostRun es (s\<lparr>os_objects := AList.update k x (os_objects s)\<rparr>)"
| "hostRun (ObjectRemoved k # es) s = hostRun es (s\<lparr>os_objects := AList.delete k (os_objects s)\<rparr>)"

lemma hostRun_increasing:
  "inc_at k s \<Longrightarrow> list_all foreign es \<Longrightarrow> k + length es \<le> 2 ^ 64 \<Longrightarrow>
     sorted_wrt (<) (map unat (fst (hostRun es s))) \<and> (\<forall>n\<in>set (fst (hostRun es s)). k \<le> unat n)"
proof (induction es arbitrary: k s)
  case (Cons e es)
  show ?case
  proof (cases e)
    case (AgentStart kl lib cfg fs)
    obtain r s1 where run: "agent_doMain kl lib cfg fs s = (r, s1)" by fastforce
    have k: "k < 2 ^ 64" using Cons.prems(3) by simp
    have later: "sorted_wrt (<) (map unat (fst (hostRun es s1))) \<and> (\<forall>n\<in>set (fst (hostRun es s1)). j \<le> unat n)" if "inc_at j s1" "j \<le> Suc k" for j
      by (rule Cons.IH [OF that(1)]) (use Cons.prems that(2) in auto)
    show ?thesis
    proof (cases r)
      case (Inr v)
      with triple_success [OF doMain_triple [OF k] Cons.prems(1), of kl lib cfg fs v s1] run
      have "case snd v of None \<Rightarrow> inc_from k s1 | Some n \<Rightarrow> unat n = k \<and> inc_at (Suc k) s1" by simp
      then show ?thesis
        using later [of k] later [of "Suc k"] AgentStart run Inr
        by (cases v) (fastforce simp: started_def inc_from_def split: option.splits prod.splits)
    next
      case (Inl err)
      with triple_failure [OF doMain_triple [OF k] Cons.prems(1), of kl lib cfg fs err s1] run have "inc_from k s1" by simp
      then show ?thesis
        using later [of k] later [of "Suc k"] AgentStart run Inl by (fastforce simp: started_def inc_from_def split: prod.splits)
    qed
  next
    case (ObjectWritten key x)
    with Cons.prems have "inc_at k (s\<lparr>os_objects := AList.update key x (os_objects s)\<rparr>)" by (auto simp: inc_at_def update_conv')
    from Cons.IH [OF this] Cons.prems ObjectWritten show ?thesis by simp
  next
    case (ObjectRemoved key)
    with Cons.prems have "inc_at k (s\<lparr>os_objects := AList.delete key (os_objects s)\<rparr>)" by (auto simp: inc_at_def delete_conv')
    from Cons.IH [OF this] Cons.prems ObjectRemoved show ?thesis by simp
  qed
qed simp

text \<open>
  C20. The bundles of a later start of the agent are newer than all bundles of the earlier ones. This is for whole starts of the
  program, in any number below the range of the counter, with any configuration, other writers of other objects in between,
  and calls of the API server that are refused or whose response is lost at any point.
\<close>

theorem later_starts_newer:
  assumes "inc_at k s" and "list_all foreign es" and "k + length es \<le> 2 ^ 64"
  shows "sorted_wrt (\<lambda>m n. \<forall>g h. NewerThan (NewBundleVersion n g) (Some (NewBundleVersion m h))) (fst (hostRun es s))"
proof -
  have "sorted_wrt (\<lambda>m n. unat m < unat n) (fst (hostRun es s))"
    using hostRun_increasing [OF assms] by (simp add: sorted_wrt_map)
  then show ?thesis
    by (rule sorted_wrt_mono_rel [rotated]) (simp add: NewBundleVersion_def less_BundleVersion_def word_less_nat_alt)
qed

definition sampleStart :: hostEvent where
  "sampleStart = AgentStart sampleKafkaLib \<lparr>ag_NewManager = None, ag_addToScheme = None, ag_addControllers = (\<lambda>_. None), ag_mgrStart = None\<rparr>
     (sampleAgentConfig '''') []"

text \<open>The response to the patch of the second start is lost.\<close>

definition sampleAgentState :: opState where
  "sampleAgentState = (sampleOpState [] (sampleHub [] False))\<lparr>os_answer := (\<lambda>i. if i = 9 then Lost (OtherError ''timeout'') else Answered)\<rparr>"

theorem later_starts_newer_witness:
  "fst (hostRun [sampleStart, sampleStart, sampleStart] sampleAgentState) = [0, 2]
   \<and> NewerThan (NewBundleVersion 2 0) (Some (NewBundleVersion 0 5))"
proof -
  let ?es = "[sampleStart, sampleStart, sampleStart]"
  have run: "fst (hostRun ?es sampleAgentState) = [0, 2]" by code_simp
  have "inc_at 0 sampleAgentState" by (simp add: inc_at_def sampleAgentState_def sampleOpState_def)
  from later_starts_newer [OF this, of ?es] have "sorted_wrt (\<lambda>m n. \<forall>g h. NewerThan (NewBundleVersion n g) (Some (NewBundleVersion m h))) [0, 2 :: uint64]"
    by (simp add: sampleStart_def run [unfolded sampleStart_def] del: hostRun.simps NewerThan_Some)
  then show ?thesis unfolding run by simp
qed

text \<open>
  Two agents that both read the config map before either has written it get the same incarnation, since the patch does not
  refer to the version that was read and the incarnation is taken before the election of a leader.
\<close>

lemma simultaneous_starts_share_incarnation:
  assumes "map_of (os_objects s) incarnationKey = Some cm" and "incarnationOf cm = Inr n" and "\<not> km_deleting cm" and "\<And>i. os_answer s i = Answered"
  shows "\<exists>s1 s2. nextIncarnation cm s = (Inr (n + 1), s1) \<and> nextIncarnation cm s1 = (Inr (n + 1), s2)"
proof -
  have patched: "\<exists>s' old'. nextIncarnation cm s0 = (Inr (n + 1), s') \<and> map_of (os_objects s') incarnationKey = Some old' \<and> \<not> km_deleting old' \<and> os_answer s' = os_answer s0"
    if "map_of (os_objects s0) incarnationKey = Some old" "\<not> km_deleting old" "\<And>i. os_answer s0 i = Answered" for s0 old
    using that assms(2)
    by (simp add: nextIncarnation_def wrapError_def op_try_def op_bind_def client_Patch_def api_update_def api_call_def Let_def update_conv')
  obtain s1 old' where s1: "nextIncarnation cm s = (Inr (n + 1), s1)" "map_of (os_objects s1) incarnationKey = Some old'" "\<not> km_deleting old'" "os_answer s1 = os_answer s"
    using patched [OF assms(1) assms(3,4)] by blast
  then show ?thesis using patched [OF s1(2,3)] assms(4) by auto
qed

text \<open>
  A compression type that the agent does not know gets past the checks of the flags; the producer is then not created, and the
  program goes on to call it.
\<close>

theorem unknown_compression_panics:
  assumes "NewConfigManager parsed = Inr cfg" and "getConsumer kl cfg fs = (Inr consumer, fs1)"
    and "cm_TransportCompressionType cfg \<notin> {''gzip'', ''no-op''}"
  shows "agent_doMain kl lib parsed fs s = (Inl Panic, s)"
  using assms by (simp add: agent_doMain_def getProducer_def NewCompressor_def start_raise_def)

section \<open>Lease, roles and manifests\<close>

text \<open>The lease changes only while a pod of the agent is running.\<close>

lemma checkAddonPod_running:
  assumes "checkAddonPod namespace s = (r, s')"
  shows "os_objects s' = os_objects s" and "r = Inr True \<Longrightarrow> \<exists>(k, pod)\<in>set (os_objects s). agentPod namespace k pod \<and> podPhase pod = ''Running''"
  using assms
  by (auto simp: checkAddonPod_def op_try_def api_list_def api_call_def Let_def list_ex_iff split: answer.splits opError.splits)

theorem lease_needs_running_pod:
  assumes "lease_reconcile r s = (u, s')" and "map_of (os_objects s') (leaseKey r) \<noteq> map_of (os_objects s) (leaseKey r)"
  shows "\<exists>(k, pod)\<in>set (os_objects s). agentPod (leaseNamespace r) k pod \<and> podPhase pod = ''Running''"
proof -
  obtain c s1 where check: "checkAddonPod (leaseNamespace r) s = (c, s1)" by fastforce
  have "c = Inr True"
  proof (rule ccontr)
    assume "c \<noteq> Inr True"
    then have "os_objects s' = os_objects s"
      using assms(1) check checkAddonPod_running(1) [OF check] by (cases c) (auto simp: lease_reconcile_def op_bind_def)
    with assms(2) show False by simp
  qed
  then show ?thesis using checkAddonPod_running(2) [OF check] by blast
qed

text \<open>A reconciliation that succeeds leaves the role with exactly its rules and labels, whatever it had before.\<close>

lemma reconcileOwned_stored:
  assumes "reconcileOwned dl desired s = (Inr (), s')"
  shows "map_of (os_objects s') (objectKey desired) = None \<or> (\<exists>v b. map_of (os_objects s') (objectKey desired) = Some (stamped v b desired))"
  using assms client_Create_stored [of desired] client_Update_stored [of dl desired]
  by (fastforce simp: reconcileOwned_def op_try_run drop_result_def op_bind_run split: if_splits)

lemma cluster_role_restored:
  assumes "clusterRole_Reconcile dl s = (Inr (), s')" and "map_of (os_objects s') (objectKey createClusterRole) = Some x"
  shows "km_labels x = agentLabels \<and> ko_fields x = ko_fields createClusterRole"
  using reconcileOwned_stored [OF assms(1) [unfolded clusterRole_Reconcile_def]] assms(2)
  by (auto simp: stamped_def createClusterRole_def)

text \<open>An applied manifest that was there keeps everything but its specification.\<close>

lemma ensureGenericSpec_spec:
  assumes "ensureGenericSpec lib existing desired = Inr (x, modified)" and "\<And>m. al_DeepEqual lib m m"
  shows "\<exists>m m'. nestedSpec x = Inr m \<and> nestedSpec desired = Inr m' \<and> al_DeepEqual lib m m'" and "modified \<or> x = existing"
    and "f \<noteq> ''spec'' \<Longrightarrow> objectField x f = objectField existing f"
  using assms by (auto simp: ensureGenericSpec_def nestedSpec_def objectField_def update_conv' split: sum.splits if_splits)

end
