(* ===== verification/Spec2Isabelle.thy ===== *)
theory Spec2Isabelle
  imports GH_Prelude GH_Version GH_Bundles GH_DeltaMerge GH_Conflation GH_ConflationInv GH_ConflationProps GH_Registrations
    GH_Pipeline GH_PipelineProps GH_Fragments GH_FragmentsProps GH_Transport GH_TransportProps GH_Batch GH_BatchProps
    GH_DBSync GH_PolicySync GH_ResourceSync GH_AgentBundles GH_AgentProps GH_DeltaBundle GH_StatusSync GH_StatusSyncProps GH_EndToEnd
    GH_SpecDB GH_SpecDBProps GH_SpecSync GH_SpecSyncProps GH_SpecLabels GH_SpecLabelsProps GH_SpecTransport GH_SpecTransportProps
    GH_SpecAgent GH_SpecAgentProps GH_SqlFilter GH_Authz GH_AuthzProps GH_Rest GH_RestProps GH_StatusBack GH_StatusBackProps
    GH_OpBase GH_OpCondition GH_Deployer GH_OpConfig GH_Operator GH_OperatorProps GH_LeafWork GH_LeafHub GH_LeafHubProps
    GH_KafkaConfig GH_AgentHost GH_AgentHostProps
begin

text \<open>
  A verification of multicluster-global-hub: the status path from the leaf hubs to the database of the
  global hub and on to the status of the objects there, the spec path from the objects of the global hub through the
  database to the leaf hubs, the REST service with its authorization, and the operator that deploys all of this.

  \<^bold>\<open>The program.\<close> An agent runs on every leaf hub. It watches policies, managed clusters, placements
  and subscriptions, keeps them in status bundles and sends the bundles that changed over Kafka or the
  sync service (\<open>src/agent/pkg/status\<close>, \<open>src/agent/pkg/transport\<close>). The manager on the global
  hub receives the messages, conflates the bundles of each leaf hub by type and priority, dispatches
  them to a pool of database workers and writes what they say into PostgreSQL
  (\<open>src/manager/pkg/statussyncer/transport2db\<close>). Both sides share the bundle types, the compressors and the
  Kafka fragmentation (\<open>src/pkg\<close>). In the other direction controllers of the manager record the policies,
  placements, applications and other objects a user creates on the global hub in the tables of the schema
  \<open>spec\<close> (\<open>src/manager/pkg/specsyncer/spec2db\<close>), syncers read the tables that changed and send each as a
  bundle to the leaf hubs (\<open>specsyncer/db2transport\<close>), and the agent applies the bundle with a pool of
  workers, impersonating the user that created each object (\<open>src/agent/pkg/spec\<close>). What the tables of the schema
  \<open>status\<close> say is written back to the status of policies, placements and subscriptions on the global hub
  (\<open>src/manager/pkg/statussyncer/db2status\<close>, \<open>statussyncer/status\<close>). A REST service lists and watches the managed clusters of all
  hubs, restricted to what a policy agent allows the user, and patches their labels
  (\<open>src/manager/pkg/nonk8sapi\<close>). The operator (\<open>src/operator\<close>) initialises the database, deploys the components, keeps the
  conditions of the \<open>MulticlusterGlobalHub\<close>, and puts the hub and the agent on every leaf hub as manifest works.

  \<^bold>\<open>Theories and sources.\<close>
  \<^item> \<open>GH_Prelude\<close>: Go maps as association lists, Go sets as lists, decimal printing, splitting, lists by index.
  \<^item> \<open>GH_Version\<close>: \<open>src/pkg/bundle/status/bundle_version.go\<close>, with the generation as a 64 bit word.
  \<^item> \<open>GH_Bundles\<close>, \<open>GH_DeltaMerge\<close>: the bundles as the manager holds them
    (\<open>transport2db/bundle\<close>) and the merge of delta bundles \<open>InheritEvents\<close>.
  \<^item> \<open>GH_Conflation\<close>, \<open>GH_ConflationInv\<close>, \<open>GH_ConflationProps\<close>: \<open>transport2db/conflator\<close>. The
    metadata objects that the code shares by pointer are addresses in an explicit store.
  \<^item> \<open>GH_Registrations\<close>: what the syncers register (\<open>syncer/syncers.go\<close>, \<open>dbsyncer\<close>, priorities).
  \<^item> \<open>GH_Pipeline\<close>, \<open>GH_PipelineProps\<close>: conflation manager, dispatcher and worker pool as a step
    relation in which receiving, dequeuing, acquiring a worker, dispatching and reporting interleave freely.
  \<^item> \<open>GH_Fragments\<close>, \<open>GH_FragmentsProps\<close>: \<open>src/pkg/kafka\<close>, splitting and reassembling of payloads and
    the offsets of the assembler; sizes are 32 bit words, as in the headers.
  \<^item> \<open>GH_Transport\<close>, \<open>GH_TransportProps\<close>: compressors, the consumers and committers of the manager, the
    producer of the agent.
  \<^item> \<open>GH_Batch\<close>, \<open>GH_BatchProps\<close>: the batch builders (\<open>db/postgresql/batch\<close>). A statement is a term with the
    text the code prints; its effect on a table is defined for the statements the builders make.
  \<^item> \<open>GH_DBSync\<close>, \<open>GH_PolicySync\<close>, \<open>GH_ResourceSync\<close>: \<open>db/postgresql/postgresql.go\<close> and the handlers of
    \<open>syncer/dbsyncer\<close>.
  \<^item> \<open>GH_AgentBundles\<close>, \<open>GH_AgentProps\<close>, \<open>GH_DeltaBundle\<close>: the bundles of the agent
    (\<open>src/agent/pkg/status/bundle\<close>).
  \<^item> \<open>GH_StatusSync\<close>, \<open>GH_StatusSyncProps\<close>: the controllers of the agent (\<open>src/agent/pkg/status/controller\<close>),
    among them the hybrid sync manager that alternates complete and delta bundles.
  \<^item> \<open>GH_EndToEnd\<close>: the agent's bundles handled by the manager.
  \<^item> \<open>GH_SpecDB\<close>, \<open>GH_SpecDBProps\<close>: the controllers of \<open>specsyncer/spec2db\<close> and the object tables they
    write. A table is its rows and the rows the trigger of the schema moved to the history table.
  \<^item> \<open>GH_SpecSync\<close>, \<open>GH_SpecSyncProps\<close>: the object syncers of \<open>specsyncer/db2transport\<close>, their interval
    policy and the queries of \<open>db/postgresql/postgresql.go\<close>; \<open>syncer_step\<close> interleaves the writers of a
    table (\<open>specWrite\<close>) with the three reads of a sync.
  \<^item> \<open>GH_SpecLabels\<close>, \<open>GH_SpecLabelsProps\<close>: the table of managed cluster labels, its syncer and the status
    watcher that trims deleted keys and fills in leaf hub names; versions are 64 bit.
  \<^item> \<open>GH_SpecTransport\<close>, \<open>GH_SpecTransportProps\<close>: the producers of the manager and the consumers of the agent,
    over Kafka and over the sync service.
  \<^item> \<open>GH_SpecAgent\<close>, \<open>GH_SpecAgentProps\<close>: \<open>src/agent/pkg/spec/controller\<close>: identities in base64, the worker
    pool with its queues and its lock, the generic bundle syncer and the labels syncer. \<open>pool_step\<close>
    and \<open>run_step\<close> interleave the submission of jobs with the workers that run them.
  \<^item> \<open>GH_SqlFilter\<close>, \<open>GH_Authz\<close>, \<open>GH_AuthzProps\<close>: \<open>nonk8sapi/managedclusters/authorization.go\<close> with the answers of the
    policy agent as JSON, and how PostgreSQL reads the condition that is written for them.
  \<^item> \<open>GH_Rest\<close>, \<open>GH_RestProps\<close>: lists, watches and patches of \<open>nonk8sapi\<close>; the attempts of a patch interleave with other writers.
  \<^item> \<open>GH_StatusBack\<close>, \<open>GH_StatusBackProps\<close>: the six syncers of \<open>db2status\<close> and the controller of placement bindings.
  \<^item> \<open>GH_OpBase\<close>: programs that call an API server of which every call may be refused or lose its answer, and triples for them.
  \<^item> \<open>GH_OpCondition\<close>, \<open>GH_Deployer\<close>, \<open>GH_OpConfig\<close>: \<open>condition/condition.go\<close>, \<open>deployer/hoh_deployer.go\<close>, the configuration, the helpers
    and the renderer of the operator.
  \<^item> \<open>GH_Operator\<close>, \<open>GH_OperatorProps\<close>: \<open>controllers/hubofhubs\<close>, the reconciliation of the \<open>MulticlusterGlobalHub\<close>.
  \<^item> \<open>GH_LeafWork\<close>, \<open>GH_LeafHub\<close>, \<open>GH_LeafHubProps\<close>: \<open>controllers/leafhub\<close>, the works and add-ons of the leaf hubs and their controller.
  \<^item> \<open>GH_KafkaConfig\<close>: \<open>src/pkg/kafka/certificate_manager.go\<close>, \<open>src/agent/pkg/helper/config.go\<close> and the choice of the transport in the
    entry points of manager and agent; programs on the files of a container.
  \<^item> \<open>GH_AgentHost\<close>, \<open>GH_AgentHostProps\<close>: \<open>src/agent/cmd/agent/main.go\<close> with the incarnation, and the cluster roles, the lease and
    the manifests of the agent (\<open>src/agent/pkg/controllers\<close>, \<open>lease\<close>, \<open>applier\<close>). The incarnation is a 64 bit word.

  \<^bold>\<open>What is shown.\<close> Of the whole path: what the agent's bundles say after any history of events, handled by
  the manager, is what the compliance table says. Of the agent: every bundle says what the last events
  said, a change makes its version newer, the delta bundle is the difference to the state it was
  synchronised with, exactly the changed bundles are sent, and deltas are sent on top of complete bundles unless a success is reported late.
  Of the transport: bundles survive compression, fragmentation and decoding; committed offsets are never
  above a pending one and only grow. Of the conflation: the invariant of a unit is kept by every
  operation and in every reachable state of the pipeline, no leaf hub is processed twice at a time,
  processed versions increase, the best ready bundle is handed out, failures are retried. Of the
  database: statements have as many arguments as placeholders, and every handler leaves the table
  of its leaf hub equal to the bundle, whatever was there before. The merge of two deltas has the effect
  of both. Of the spec path: reconciling an object sets or removes exactly its entry of the table, the
  finalizer stays until the entry is gone, a table without a newer time stamp is what the last message
  carries and one undisturbed sync makes it so, the message decodes on every agent it is addressed to
  over either transport if it fits the size limit, and a run over a bundle ends with every object applied under the identity
  its creator had, if these identities can be assumed. Of the way back: one pass gives every policy exactly the rows of its id, and so
  what the agents last saw. Of the REST service: the condition written for a user selects only, and where everything can be translated
  exactly, what the policy agent allows; lists, watches and single-query patches show and change nothing else; a patch takes effect
  once, on the row as it is then; a watch shows the client the table
  as long as its queries succeed. Of the operator: the finalizer goes only after
  the cleaning up, a reconciliation that succeeds leaves every condition true, deploying and applying again
  writes nothing, the agent is put only on a hub that reported to be up, and pruning leaves nothing on the leaf hubs the operator knows. Of the start: the incarnations of
  successive starts of an agent increase, and the certificate that the operator hands out is decoded exactly when its length allows.
  The error theorems show inputs on which the code does not do what it is for.

  \<^bold>\<open>Interfaces.\<close> \<open>range_order\<close> is the order in which Go ranges over a map; \<open>resource_table\<close> the contract
  of a handler that mirrors objects with versions, interpreted for the generic, the local and the
  managed-cluster tables; \<open>status_bundle\<close> and \<open>tracked_bundle\<close> the contract of an agent bundle,
  interpreted for all of them; \<open>status_cleaner\<close> what a controller of the spec path needs of the function that
  clears the status and of the comparison of its type, interpreted for each kind of controller; \<open>labels_writer\<close> what the
  attempts of a patch may rely on of the other writers; \<open>object_handler\<close> the contract of a pass over the
  objects of a kind; \<open>condition_setter\<close> the contract of the six setters of conditions; \<open>kind_deployer\<close> that of the
  eleven functions of the deployer; \<open>object_invariant\<close>, \<open>operator_invariant\<close> and \<open>leaf_invariant\<close>, each extending the one before,
  what the programs of the operator keep once the calls they are made of keep it.

  \<^bold>\<open>Parameters.\<close> Code outside the repository is an argument: the JSON codec and gzip (a decoder inverts its
  encoder), the connection pool (\<open>conn_ok\<close>: a batch without an error took effect, one with an error did
  not), the Kubernetes client, the duration parser, the Kafka client (what it delivers). On the spec path
  the answers of the API server and the outcome of every statement are arguments too, so a theorem holds
  whatever fails; so are the semantic comparison of the Kubernetes library and the order
  in which rows arrive. Of the REST service the policy agent, the database and the writers are arguments; of the
  operator the semantic comparison \<open>DeepDerivative\<close>, conversions, templates, YAML and JSON, the environment and the package server; at the start the file system, the PEM parser, the Kafka
  library and the controller runtime.

  \<^bold>\<open>Loops and fuel.\<close> The loops of the modelled code are over finite lists and recurse on them, with one exception:
  \<open>isCurrentOrAnyDependencyInProcess\<close> walks up the dependencies of a bundle type and has the length of the priority queue
  plus one as fuel. That is enough, because in a unit built from the registrations every dependency has a higher priority
  (\<open>GH_ConflationInv\<close>); a walk that runs out is a cycle, on which the code recurses for ever. A run of the agent over a bundle
  takes exactly three steps for each job.

  \<^bold>\<open>Choices of the model.\<close> Where a query has no order, the rows come in any order, and of several \<open>VALUES\<close> rows that match a
  row an update takes the first. The operator reads the API server and not its cache. A failed update of labels, as any failed
  statement, has no effect. Agent and manager share one type for each bundle, as if the two Go types had the same
  JSON. In \<open>checkDependency\<close> a dependency that is not in the queue, on which the code panics, counts as one that is not met; the
  invariant excludes it. A delivery over Kafka may be repeated and reordered where a theorem says so, and is unchanged otherwise.

  \<^bold>\<open>Not modelled.\<close> Logging, metrics, tracing and the statistics; goroutines, locks and channels other than as the
  interleaving of steps; the registration of flags, the entry points of manager and operator beyond the checks of the flags and
  the choice of the transport, the set-up of other clients and the controller runtime; the package manifest
  controller of the operator, whose code is commented out; functions that nothing calls.
\<close>

end
